(* ===== verification/Prelude.thy ===== *)
theory Prelude
  imports Main "HOL-Library.Word" "HOL-Library.Signed_Division"
begin

text \<open>
  Shared vocabulary of the development: the C integer types as words, the two loop combinators
  (\<open>for_upto\<close> for a counted loop, \<open>for_upto_err\<close> for a counted loop with a \<open>goto err\<close> in its
  body), their induction principles, and the generic facts on words, masks and lists that the
  components share.
\<close>

unbundle bit_operations_syntax

named_theorems loop_simps "unfolding of the loop combinators"
named_theorems c_word "reading C integer expressions back as mathematical integers"

section \<open>C integer types\<close>

text \<open>
  \<open>s32\<close> and \<open>s64\<close> are the two's complement types: the same words, read with \<open>sint\<close> where the
  code reads them as signed values.
\<close>

type_synonym u8 = "8 word"
type_synonym u16 = "16 word"
type_synonym u32 = "32 word"
type_synonym u64 = "64 word"
type_synonym s32 = "32 word"
type_synonym s64 = "64 word"

abbreviation (input) int32_range :: "int \<Rightarrow> bool" where
  "int32_range x \<equiv> - (2 ^ 31) \<le> x \<and> x < 2 ^ 31"

abbreviation (input) int64_range :: "int \<Rightarrow> bool" where
  "int64_range x \<equiv> - (2 ^ 63) \<le> x \<and> x < 2 ^ 63"

text \<open>
  C's signed division truncates towards zero: \<open>sdiv\<close> of the library, plain division on non-negative
  operands.
\<close>

lemma sdiv_nonneg [c_word]:
  fixes a b :: int
  assumes "0 \<le> a" and "0 < b"
  shows "a sdiv b = a div b"
  using assms by (cases "a = 0") (simp_all add: signed_divide_int_def)

lemma abs_sdiv_le:
  fixes a b :: int
  assumes "0 < b"
  shows "\<bar>a sdiv b\<bar> \<le> \<bar>a\<bar>"
proof -
  have "0 \<le> \<bar>a\<bar> div b" using assms by (simp add: pos_imp_zdiv_nonneg_iff)
  moreover have "\<bar>a\<bar> div b \<le> \<bar>a\<bar>" using assms zdiv_mono2 [of "\<bar>a\<bar>" 1 b] by simp
  ultimately show ?thesis
    using assms by (cases a "0 :: int" rule: linorder_cases) (simp_all add: signed_divide_int_def)
qed

section \<open>Counted loops\<close>

text \<open>
  \<open>for_upto n f s\<close> is \<open>for (i = 0; i < n; i++) s = f(i, s)\<close>: the body runs for \<open>0\<close>, \<open>1\<close>, up to
  \<open>n - 1\<close>, in this order.
\<close>

primrec for_upto :: "nat \<Rightarrow> (nat \<Rightarrow> 's \<Rightarrow> 's) \<Rightarrow> 's \<Rightarrow> 's" where
  "for_upto 0 f s = s"
| "for_upto (Suc n) f s = f n (for_upto n f s)"

text \<open>
  \<open>for_upto_err n f s\<close> is the same loop whose body may leave it with \<open>goto err\<close>; the state at the
  point of the jump is kept, together with what the body reports.
\<close>

primrec for_upto_err :: "nat \<Rightarrow> (nat \<Rightarrow> 's \<Rightarrow> 'e + 's) \<Rightarrow> 's \<Rightarrow> 'e + 's" where
  "for_upto_err 0 f s = Inr s"
| "for_upto_err (Suc n) f s =
     (case for_upto_err n f s of Inl e \<Rightarrow> Inl e | Inr s' \<Rightarrow> f n s')"

lemma for_upto_unrolled [loop_simps]:
  "for_upto 1 f s = f 0 s"
  "for_upto 2 f s = f 1 (f 0 s)"
  "for_upto 4 f s = f 3 (f 2 (f 1 (f 0 s)))"
  "for_upto 8 f s = f 7 (f 6 (f 5 (f 4 (f 3 (f 2 (f 1 (f 0 s)))))))"
  by (simp_all add: numeral_eq_Suc)

lemma for_upto_invariant:
  assumes "P 0 s" and "\<And>i s. i < n \<Longrightarrow> P i s \<Longrightarrow> P (Suc i) (f i s)"
  shows "P n (for_upto n f s)"
proof -
  have "k \<le> n \<Longrightarrow> P k (for_upto k f s)" for k
    by (induction k) (simp_all add: assms)
  then show ?thesis by simp
qed

lemma for_upto_cong:
  assumes "\<And>i s. i < n \<Longrightarrow> f i s = g i s"
  shows "for_upto n f s = for_upto n g s"
  using assms by (induction n) simp_all

lemma for_upto_frame:
  assumes "\<And>i s. i < n \<Longrightarrow> p (f i s) = p s"
  shows "p (for_upto n f s) = p s"
  using assms by (induction n) simp_all

lemma for_upto_add: "for_upto (a + b) f s = for_upto b (\<lambda>i. f (a + i)) (for_upto a f s)"
  by (induction b) simp_all

text \<open>Two nested loops as one loop over the pairs in row order.\<close>

lemma for_upto_nested:
  "for_upto p (\<lambda>i. for_upto n (g i)) s = for_upto (p * n) (\<lambda>k. g (k div n) (k mod n)) s"
proof (induction p)
  case (Suc p)
  have "for_upto n (g p) u = for_upto n (\<lambda>i. g ((p * n + i) div n) ((p * n + i) mod n)) u" for u
    by (rule for_upto_cong) simp
  then show ?case using Suc by (simp add: add.commute [of n] for_upto_add)
qed simp

lemma for_upto_err_invariant:
  assumes "P 0 s" and "\<And>i s s'. i < n \<Longrightarrow> P i s \<Longrightarrow> f i s = Inr s' \<Longrightarrow> P (Suc i) s'"
    and "for_upto_err n f s = Inr t"
  shows "P n t"
proof -
  have "k \<le> n \<Longrightarrow> for_upto_err k f s = Inr u \<Longrightarrow> P k u" for k u
    by (induction k arbitrary: u) (auto simp: assms(1) split: sum.splits intro: assms(2))
  with assms(3) show ?thesis by simp
qed

lemma for_upto_err_run:
  assumes "P 0 s" and "\<And>i s. i < n \<Longrightarrow> P i s \<Longrightarrow> \<exists>s'. f i s = Inr s' \<and> P (Suc i) s'"
  shows "\<exists>t. for_upto_err n f s = Inr t \<and> P n t"
proof -
  have "k \<le> n \<Longrightarrow> \<exists>t. for_upto_err k f s = Inr t \<and> P k t" for k
  proof (induction k)
    case (Suc k)
    then obtain t where "for_upto_err k f s = Inr t" "P k t" by auto
    with assms(2) [of k t] Suc.prems show ?case by auto
  qed (simp add: assms(1))
  then show ?thesis by simp
qed

lemma for_upto_err_stops:
  assumes "for_upto_err k f s = Inr t" and "f k t = Inl e" and "k < n"
  shows "for_upto_err n f s = Inl e"
proof -
  have "for_upto_err (Suc k + d) f s = Inl e" for d
    by (induction d) (simp_all add: assms)
  from this [of "n - Suc k"] assms(3) show ?thesis by simp
qed

lemma for_upto_err_Inl:
  assumes "P 0 s" and "\<And>i s s'. i < n \<Longrightarrow> P i s \<Longrightarrow> f i s = Inr s' \<Longrightarrow> P (Suc i) s'"
    and "\<And>i s e. i < n \<Longrightarrow> P i s \<Longrightarrow> f i s = Inl e \<Longrightarrow> Q e"
    and "for_upto_err n f s = Inl e"
  shows "Q e"
proof -
  have "k \<le> n \<Longrightarrow> (case for_upto_err k f s of Inl e \<Rightarrow> Q e | Inr u \<Rightarrow> P k u)" for k
    by (induction k)
       (auto simp: assms(1) split: sum.splits intro: assms(2,3) assms(3) [OF Suc_le_lessD])
  from this [of n] assms(4) show ?thesis by simp
qed

section \<open>Words: masks and wrap-around\<close>

lemma two_pow_minus_1_eq_mask: "(2 :: 'a::len word) ^ k - 1 = mask k"
  by (simp add: mask_eq_decr_exp)

lemma unat_and_mask: "unat (x AND mask k) = unat x mod 2 ^ k"
  for x :: "'a::len word"
  by (simp add: unsigned_take_bit_eq flip: take_bit_eq_mask take_bit_eq_mod)

lemma unat_word_add_and_mask:
  fixes x y :: "'a::len word"
  assumes "k \<le> LENGTH('a)"
  shows "unat ((x + y) AND mask k) = (unat x + unat y) mod 2 ^ k"
proof -
  have "(2::nat) ^ k dvd 2 ^ LENGTH('a)" by (rule le_imp_power_dvd [OF assms])
  then show ?thesis
    by (simp add: unat_and_mask unat_word_ariths mod_mod_cancel)
qed

lemma unat_word_sub_and_mask:
  fixes x y :: "'a::len word"
  assumes "k \<le> LENGTH('a)" and "unat y \<le> 2 ^ k"
  shows "unat ((x - y) AND mask k) = (unat x + (2 ^ k - unat y)) mod 2 ^ k"
proof -
  have dv: "(2::int) ^ k dvd 2 ^ LENGTH('a)" by (rule le_imp_power_dvd [OF assms(1)])
  have "int (unat ((x - y) AND mask k)) = uint (x - y) mod 2 ^ k"
    by (simp add: unat_and_mask zmod_int)
  also have "\<dots> = (uint x - uint y) mod 2 ^ k"
    using dv by (simp add: uint_word_ariths mod_mod_cancel)
  also have "\<dots> = (uint x + (2 ^ k - uint y)) mod 2 ^ k"
    by (metis add_diff_eq mod_add_self2 diff_add_eq)
  also have "\<dots> = int ((unat x + (2 ^ k - unat y)) mod 2 ^ k)"
    using assms(2) by (simp add: zmod_int of_nat_diff add_diff_eq)
  finally show ?thesis by linarith
qed

lemma sint_of_int_in_range:
  "- (2 ^ (LENGTH('a) - 1)) \<le> x \<Longrightarrow> x < 2 ^ (LENGTH('a) - 1) \<Longrightarrow> sint (word_of_int x :: 'a::len word) = x"
  by (simp add: sint_sbintrunc' signed_take_bit_int_eq_self)

lemma sint32_of_int [c_word]: "int32_range x \<Longrightarrow> sint (word_of_int x :: s32) = x"
  by (rule sint_of_int_in_range) simp_all

lemma sint64_of_int [c_word]: "int64_range x \<Longrightarrow> sint (word_of_int x :: s64) = x"
  by (rule sint_of_int_in_range) simp_all

lemma uint64_of_int [c_word]: "0 \<le> x \<Longrightarrow> x < 2 ^ 64 \<Longrightarrow> uint (word_of_int x :: u64) = x"
  by (simp add: uint_word_of_int)

lemma square_int64: "a * a < 2 ^ 63 \<Longrightarrow> int64_range (a * a)" for a :: int
  using zero_le_square [of a] by linarith

lemma sint64_square:
  "a * a < 2 ^ 63 \<Longrightarrow> sint (word_of_int a * word_of_int a :: s64) = a * a"
  using sint64_of_int [OF square_int64 [of a]] by simp

lemma sint32_range: "int32_range (sint (x :: s32))"
  using sint_ge [of x] sint_lt [of x] by simp

lemma scast_eq_of_int: "scast x = word_of_int (sint x)"
  by simp

lemma unat32_of_nat [c_word]: "n < 2 ^ 32 \<Longrightarrow> unat (of_nat n :: u32) = n"
  by (simp add: unat_of_nat)

lemma word_eq_of_uint: "uint w = x \<Longrightarrow> w = word_of_int x"
  for w :: "'a::len word"
  by auto

lemma unat_plus_one: "w \<noteq> - 1 \<Longrightarrow> unat (w + 1) = Suc (unat w)"
  for w :: "'a::len word"
  using unatSuc [of w] by (simp add: add_eq_0_iff add.commute)

lemma unat_add_small: "unat x + unat y < 2 ^ LENGTH('a) \<Longrightarrow> unat (x + y) = unat x + unat y"
  for x y :: "'a::len word"
  by (simp add: unat_word_ariths)

lemma unat32_power [c_word]: "k < 32 \<Longrightarrow> unat (2 ^ k :: u32) = 2 ^ k"
proof -
  assume "k < 32"
  then have "(2::nat) ^ k < 2 ^ 32" by (rule power_strict_increasing) simp
  from unat32_of_nat [OF this] show ?thesis by simp
qed

lemma u32_power_eq: "k < 32 \<Longrightarrow> unat (x :: u32) = 2 ^ k \<Longrightarrow> x = 2 ^ k"
  using unat32_power [of k] by (simp add: word_unat_eq_iff)

lemma unat32_less: "unat (x :: u32) < 2 ^ 32"
proof -
  have "unat x < 2 ^ LENGTH(32)" by (rule unsigned_less)
  then show ?thesis by simp
qed

lemma unat_ucast_8_32: "unat (ucast (w :: u8) :: u32) = unat w"
proof -
  have "unat w < 2 ^ LENGTH(8)" by (rule unsigned_less)
  then show ?thesis by (simp add: unsigned_ucast_eq take_bit_nat_eq_self)
qed

lemma unat_ucast_16_32: "unat (ucast (w :: u16) :: u32) = unat w"
proof -
  have "unat w < 2 ^ LENGTH(16)" by (rule unsigned_less)
  then show ?thesis by (simp add: unsigned_ucast_eq take_bit_nat_eq_self)
qed

lemma map_upt_append: "i \<le> j \<Longrightarrow> j \<le> k \<Longrightarrow> map f [i..<j] @ map f [j..<k] = map f [i..<k]"
  using upt_add_eq_append [of i j "k - j"] by simp

lemma uint32_of_nat [c_word]: "n < 2 ^ 32 \<Longrightarrow> uint (of_nat n :: u32) = int n"
  using unat32_of_nat [of n] by (metis uint_nat)

lemma uint_drop_bit [c_word]: "uint (drop_bit k w) = uint w div 2 ^ k"
  for w :: "'a::len word"
proof -
  have "uint (drop_bit k w) = drop_bit k (uint w)"
    by (simp add: unsigned_drop_bit_eq take_bit_int_eq_self)
  then show ?thesis by (simp add: drop_bit_eq_div)
qed

lemma unat_drop_bit [c_word]: "unat (drop_bit k w) = unat w div 2 ^ k"
  for w :: "'a::len word"
proof -
  have "int (unat (drop_bit k w)) = int (unat w div 2 ^ k)"
    using uint_drop_bit [of k w] by (simp add: zdiv_int del: drop_bit_eq_div)
  then show ?thesis by linarith
qed

lemma ucast_64_32_sint: "(ucast (w :: 64 word) :: 32 word) = word_of_int (sint w)"
  by (rule bit_word_eqI) (simp add: bit_simps bit_sint_iff)

lemma le_div_intI: "a * c \<le> b \<Longrightarrow> 0 < c \<Longrightarrow> a \<le> b div (c :: int)"
  using zdiv_mono1 [of "a * c" b c] by simp

lemma div_le_intI: "b \<le> a * c \<Longrightarrow> 0 < c \<Longrightarrow> b div (c :: int) \<le> a"
  using zdiv_mono1 [of b "a * c" c] by simp

section \<open>Arithmetic of a ring\<close>

text \<open>
  In a ring of \<open>N\<close> places with the reader at \<open>r\<close> and the writer at \<open>w\<close>, the number of places in use
  is the distance from \<open>r\<close> to \<open>w\<close>. It is the only \<open>u\<close> below \<open>N\<close> with \<open>(r + u) mod N = w\<close>.
\<close>

definition ring_used :: "nat \<Rightarrow> nat \<Rightarrow> nat \<Rightarrow> nat" where
  "ring_used N r w = (w + (N - r)) mod N"

lemma ring_used_less: "0 < N \<Longrightarrow> ring_used N r w < N"
  by (simp add: ring_used_def)

lemma ring_used_mod: "r < N \<Longrightarrow> w < N \<Longrightarrow> (r + ring_used N r w) mod N = w"
proof -
  assume "r < N" "w < N"
  then have "r + (w + (N - r)) = w + N" by simp
  with \<open>w < N\<close> show ?thesis by (simp add: ring_used_def mod_add_right_eq)
qed

lemma ring_place_inj: "(r + u) mod N = (r + v) mod N \<Longrightarrow> u < N \<Longrightarrow> v < N \<Longrightarrow> u = (v :: nat)"
proof (induction u v rule: linorder_wlog)
  case (le u v)
  then have "N dvd (r + v) - (r + u)" by (metis add_le_cancel_left mod_eq_dvd_iff_nat)
  with le show ?case by (auto dest: dvd_imp_le)
next
  case (sym u v)
  then show ?case by metis
qed

lemma ring_used_unique:
  "r < N \<Longrightarrow> w < N \<Longrightarrow> u < N \<Longrightarrow> (r + u) mod N = w \<Longrightarrow> ring_used N r w = u"
  using ring_place_inj [of r "ring_used N r w" N u] ring_used_mod [of r N w] ring_used_less [of N r w]
  by simp

lemma ring_used_write:
  assumes "r < N" "w < N" "ring_used N r w + n < N"
  shows "ring_used N r ((w + n) mod N) = ring_used N r w + n"
proof (rule ring_used_unique)
  have "(r + (ring_used N r w + n)) mod N = ((r + ring_used N r w) mod N + n) mod N"
    by (simp add: mod_add_left_eq add.assoc)
  then show "(r + (ring_used N r w + n)) mod N = (w + n) mod N"
    using ring_used_mod [OF assms(1,2)] by simp
qed (use assms in simp_all)

lemma ring_used_read:
  assumes "r < N" "w < N" "n \<le> ring_used N r w"
  shows "ring_used N ((r + n) mod N) w = ring_used N r w - n"
proof (rule ring_used_unique)
  have "((r + n) mod N + (ring_used N r w - n)) mod N = (r + n + (ring_used N r w - n)) mod N"
    by (rule mod_add_left_eq)
  also have "r + n + (ring_used N r w - n) = r + ring_used N r w" using assms by simp
  finally show "((r + n) mod N + (ring_used N r w - n)) mod N = w"
    using ring_used_mod [OF assms(1,2)] by simp
  show "ring_used N r w - n < N" using ring_used_less [of N r w] assms by simp
qed (use assms in simp_all)

lemma ring_used_push:
  "r < N \<Longrightarrow> w < N \<Longrightarrow> ring_used N r w + n < N \<Longrightarrow>
     ring_used N ((r + (N - n)) mod N) w = ring_used N r w + n"
proof (rule ring_used_unique)
  assume a: "r < N" "w < N" "ring_used N r w + n < N"
  have "((r + (N - n)) mod N + (ring_used N r w + n)) mod N = (r + (N - n) + (ring_used N r w + n)) mod N"
    by (simp add: mod_add_left_eq)
  also have "r + (N - n) + (ring_used N r w + n) = (r + ring_used N r w) + N" using a by simp
  finally show "((r + (N - n)) mod N + (ring_used N r w + n)) mod N = w"
    using ring_used_mod [OF a(1,2)] by simp
qed simp_all

section \<open>Counted loops that may trap, and loops with errors\<close>

primrec for_upto_opt :: "nat \<Rightarrow> (nat \<Rightarrow> 's \<Rightarrow> 's option) \<Rightarrow> 's \<Rightarrow> 's option" where
  "for_upto_opt 0 f s = Some s"
| "for_upto_opt (Suc n) f s = (case for_upto_opt n f s of None \<Rightarrow> None | Some s \<Rightarrow> f n s)"

lemma for_upto_opt_invariant:
  assumes "P 0 s" and "\<And>i s. i < n \<Longrightarrow> P i s \<Longrightarrow> \<exists>s'. f i s = Some s' \<and> P (Suc i) s'"
  shows "\<exists>s'. for_upto_opt n f s = Some s' \<and> P n s'"
  using assms
proof (induction n)
  case (Suc n)
  then obtain s' where "for_upto_opt n f s = Some s'" and "P n s'" by (metis less_SucI)
  moreover from this(2) obtain s'' where "f n s' = Some s''" and "P (Suc n) s''" using Suc.prems(2) by blast
  ultimately show ?case by auto
qed simp

text \<open>What a counted loop with errors leaves: the invariant after the last turn, or what the turn that failed reported.\<close>

lemma for_upto_err_outcome:
  assumes "P 0 s" and "\<And>i s. i < n \<Longrightarrow> P i s \<Longrightarrow> (case f i s of Inr s' \<Rightarrow> P (Suc i) s' | Inl e \<Rightarrow> Q i e)"
  shows "case for_upto_err n f s of Inr t \<Rightarrow> P n t | Inl e \<Rightarrow> \<exists>i < n. Q i e"
proof -
  have "k \<le> n \<Longrightarrow> (case for_upto_err k f s of Inr t \<Rightarrow> P k t | Inl e \<Rightarrow> \<exists>i < n. Q i e)" for k
  proof (induction k)
    case (Suc k)
    then have ih: "case for_upto_err k f s of Inr t \<Rightarrow> P k t | Inl e \<Rightarrow> \<exists>i < n. Q i e" and k: "k < n" by simp_all
    show ?case
    proof (cases "for_upto_err k f s")
      case (Inr t)
      then show ?thesis using ih k assms(2) [OF k, of t] by (auto split: sum.splits)
    qed (use ih in simp)
  qed (simp add: assms(1))
  then show ?thesis by simp
qed

lemma err_loop_two: "for_upto_err 2 f s = (case f 0 s of Inl e \<Rightarrow> Inl e | Inr s \<Rightarrow> f 1 s)"
  by (simp add: numeral_2_eq_2 split: sum.split)

section \<open>Bounded quantifiers at concrete bounds\<close>

lemma all_less_numeral [loop_simps]:
  "(\<forall>i < numeral k. P i) \<longleftrightarrow> P (pred_numeral k) \<and> (\<forall>i < pred_numeral k. P i)" for P :: "nat \<Rightarrow> bool"
  using less_Suc_eq numeral_eq_Suc by metis

lemma all_less_1 [loop_simps]: "(\<forall>i < (1 :: nat). P i) \<longleftrightarrow> P 0"
  by auto

section \<open>Lists\<close>

lemma take_drop_append: "take n xs @ drop n xs @ ys = xs @ ys"
  by (simp flip: append_assoc)

lemma sum_list_bounded:
  "\<forall>x \<in> set xs. a \<le> x \<and> x \<le> b \<Longrightarrow>
     a * int (length xs) \<le> sum_list xs \<and> sum_list xs \<le> b * int (length xs)"
  by (induction xs) (auto simp: algebra_simps)

lemma sum_list_update_nat:
  "i < length xs \<Longrightarrow> sum_list (xs[i := v]) + xs ! i = sum_list xs + (v :: nat)"
  by (induction xs arbitrary: i) (auto split: nat.splits)

end
