(* ===== verification/Audio_Buffer.thy ===== *)
theory Audio_Buffer
  imports Prelude
begin

text \<open>
  The circular audio buffer, \<open>audio/audio_buffer.c\<close> and \<open>audio/audio_buffer.h\<close>: one writer, one
  reader, a power-of-two number of samples, in a sample memory that several buffers may share.
\<close>

section \<open>State\<close>

text \<open>
  A slot of sample memory holds an \<open>audio_sample_t\<close>, or the 32-bit FIFO word that
  \<open>__audio_buf_write_uint32\<close> stores in its place until a conversion replaces it. The sample type is a
  type variable with a zero, the silent sample; an address is an index into the memory.
\<close>

datatype 's cell = Sample 's | Raw u32

type_synonym 's mem = "nat \<Rightarrow> 's cell"

abbreviation (input) AUDIO_SAMPLE_SILENCE :: "'s::zero cell" where
  "AUDIO_SAMPLE_SILENCE \<equiv> Sample 0"

abbreviation (input) AUDIO_BUFFER_FLAG_SHARED :: u32 where "AUDIO_BUFFER_FLAG_SHARED \<equiv> 1"
abbreviation (input) AUDIO_BUFFER_FLAG_SHARED_USER :: u32 where "AUDIO_BUFFER_FLAG_SHARED_USER \<equiv> 2"

record audio_buffer =
  base :: nat
  rd :: u32
  wr :: u32
  bsize :: u32
  size_mask :: u32
  silence :: u32
  flags :: u32
  shared_id :: u32
  input_type :: "4 word"
  input_id :: "12 word"
  input_element_id :: "12 word"
  output_type :: "4 word"
  output_id :: "12 word"
  output_element_id :: "12 word"

section \<open>Operations\<close>

text \<open>
  \<open>__audio_memcpy\<close>: \<open>src m i\<close> is \<open>src[i]\<close> read in the current memory, so a source inside the sample
  memory sees the copies already made.
\<close>

definition audio_memcpy :: "'s mem \<Rightarrow> nat \<Rightarrow> ('s mem \<Rightarrow> nat \<Rightarrow> 's cell) \<Rightarrow> u32 \<Rightarrow> 's mem" where
  "audio_memcpy m dst src len =
     (let cp = (\<lambda>i m. m(dst + i := src m i)) in
      if len = 1 then cp 0 m
      else if len = 2 then cp 1 (cp 0 m)
      else if len = 4 then cp 3 (cp 2 (cp 1 (cp 0 m)))
      else if len = 8 then cp 7 (cp 6 (cp 5 (cp 4 (cp 3 (cp 2 (cp 1 (cp 0 m)))))))
      else for_upto (unat len) cp m)"

definition audio_buf_write_addr :: "audio_buffer \<Rightarrow> u32 \<Rightarrow> nat" where
  "audio_buf_write_addr buf offset = base buf + unat (wr buf + offset)"

definition audio_buf_read_addr :: "audio_buffer \<Rightarrow> u32 \<Rightarrow> nat" where
  "audio_buf_read_addr buf offset = base buf + unat (rd buf + offset)"

definition audio_buf_write_block ::
  "'s mem \<Rightarrow> audio_buffer \<Rightarrow> u32 \<Rightarrow> 's cell list \<Rightarrow> u32 \<Rightarrow> 's mem" where
  "audio_buf_write_block m buf offset samples len =
     audio_memcpy m (audio_buf_write_addr buf offset) (\<lambda>_ i. samples ! i) len"

definition audio_buf_write_uint32 :: "'s mem \<Rightarrow> audio_buffer \<Rightarrow> u32 \<Rightarrow> u32 \<Rightarrow> 's mem" where
  "audio_buf_write_uint32 m buf offset val = m(audio_buf_write_addr buf offset := Raw val)"

text \<open>
  Reading 32 bits from a slot that holds a sample yields the low half of its representation, the
  parameter \<open>bits\<close>.
\<close>

definition audio_buf_read_uint32 :: "('s \<Rightarrow> u32) \<Rightarrow> 's mem \<Rightarrow> audio_buffer \<Rightarrow> u32 \<Rightarrow> u32" where
  "audio_buf_read_uint32 bits m buf offset =
     (case m (audio_buf_read_addr buf offset) of Raw w \<Rightarrow> w | Sample x \<Rightarrow> bits x)"

definition audio_buf_copy :: "'s mem \<Rightarrow> audio_buffer \<Rightarrow> audio_buffer \<Rightarrow> u32 \<Rightarrow> 's mem" where
  "audio_buf_copy m dst src len =
     audio_memcpy m (base dst + unat (wr dst)) (\<lambda>m i. m (base src + unat (rd src) + i)) len"

definition audio_buf_write_update :: "audio_buffer \<Rightarrow> u32 \<Rightarrow> audio_buffer" where
  "audio_buf_write_update buf len = buf\<lparr>wr := (wr buf + len) AND size_mask buf\<rparr>"

definition audio_buf_read_update :: "audio_buffer \<Rightarrow> u32 \<Rightarrow> audio_buffer" where
  "audio_buf_read_update buf len = buf\<lparr>rd := (rd buf + len) AND size_mask buf\<rparr>"

definition audio_buf_avail :: "audio_buffer \<Rightarrow> u32" where
  "audio_buf_avail buf =
     (if wr buf < rd buf then (wr buf + bsize buf) - rd buf else wr buf - rd buf)"

definition audio_buf_free :: "audio_buffer \<Rightarrow> u32" where
  "audio_buf_free buf = bsize buf - audio_buf_avail buf - 1"

definition audio_buf_full :: "audio_buffer \<Rightarrow> bool" where
  "audio_buf_full buf \<longleftrightarrow> rd buf = wr buf - 1"

definition audio_buf_empty :: "audio_buffer \<Rightarrow> bool" where
  "audio_buf_empty buf \<longleftrightarrow> rd buf = wr buf"

text \<open>The wrapping operations, one sample at a time.\<close>

definition audio_buf_write ::
  "'s mem \<times> audio_buffer \<Rightarrow> 's cell list \<Rightarrow> u32 \<Rightarrow> 's mem \<times> audio_buffer" where
  "audio_buf_write s samples len =
     for_upto (unat len)
       (\<lambda>i (m, buf). (m(base buf + unat (wr buf) := samples ! i),
                      buf\<lparr>wr := (wr buf + 1) AND size_mask buf\<rparr>)) s"

definition audio_buf_write_head ::
  "'s mem \<times> audio_buffer \<Rightarrow> 's cell list \<Rightarrow> u32 \<Rightarrow> 's mem \<times> audio_buffer" where
  "audio_buf_write_head s samples len =
     (let (m, buf) = s;
          buf = buf\<lparr>rd := (rd buf - len) AND size_mask buf\<rparr>;
          (m, r) = for_upto (unat len)
            (\<lambda>i (m, r). (m(base buf + unat r := samples ! i), (r + 1) AND size_mask buf)) (m, rd buf)
      in (m, buf))"

definition audio_buf_read ::
  "'s mem \<Rightarrow> audio_buffer \<Rightarrow> u32 \<Rightarrow> 's cell list \<times> audio_buffer" where
  "audio_buf_read m buf len =
     for_upto (unat len)
       (\<lambda>i (samples, buf). (samples @ [m (base buf + unat (rd buf))],
                            buf\<lparr>rd := (rd buf + 1) AND size_mask buf\<rparr>)) ([], buf)"

definition audio_buf_write_silence ::
  "'s::zero mem \<times> audio_buffer \<Rightarrow> u32 \<Rightarrow> 's mem \<times> audio_buffer" where
  "audio_buf_write_silence s len =
     (let (m, buf) = s;
          m = for_upto (unat len)
                (\<lambda>i m. audio_buf_write_block m buf (of_nat i) [AUDIO_SAMPLE_SILENCE] 1) m
      in (m, audio_buf_write_update buf len))"

definition audio_buf_reset :: "'s::zero mem \<times> audio_buffer \<Rightarrow> 's mem \<times> audio_buffer" where
  "audio_buf_reset s =
     (let (m, buf) = s; buf = buf\<lparr>rd := 0, wr := 0\<rparr>
      in audio_buf_write_silence (m, buf) (silence buf))"

text \<open>
  \<open>audio_buf_init\<close>: the loop \<open>while ((size >>= 1)) size_mask++\<close> counts the shifts until \<open>size\<close> is
  zero, that is the index of its highest set bit.
\<close>

function size_shifts :: "u32 \<Rightarrow> u32 \<Rightarrow> u32" where
  "size_shifts sz acc =
     (if drop_bit 1 sz \<noteq> 0 then size_shifts (drop_bit 1 sz) (acc + 1) else acc)"
  by pat_completeness auto
termination
proof (relation "measure (\<lambda>(sz, acc). unat sz)")
  fix sz acc :: u32
  assume "drop_bit 1 sz \<noteq> 0"
  then have "sz \<noteq> 0" by auto
  then have "0 < unat sz" by (simp add: unat_gt_0)
  then have "unat sz div 2 < unat sz" by simp
  then show "((drop_bit 1 sz, acc + 1), sz, acc) \<in> measure (\<lambda>(sz, acc). unat sz)"
    by (simp add: unat_drop_bit del: drop_bit_eq_div)
qed simp

declare size_shifts.simps [simp del]

definition audio_buf_init ::
  "'s::zero mem \<Rightarrow> audio_buffer \<Rightarrow> nat \<Rightarrow> u32 \<Rightarrow> u32 \<Rightarrow> u32 \<Rightarrow> u32 \<Rightarrow> 's mem \<times> audio_buffer" where
  "audio_buf_init m buf bs sz sil fl sid =
     (let buf = buf\<lparr>base := bs, bsize := sz, rd := 0, wr := 0, silence := sil, flags := fl,
                    shared_id := sid, input_type := 0, input_id := 0, input_element_id := 0,
                    output_type := 0, output_id := 0, output_element_id := 0\<rparr>;
          buf = buf\<lparr>size_mask := size_shifts sz 0\<rparr>;
          buf = buf\<lparr>size_mask := push_bit (unat (size_mask buf)) 1 - 1\<rparr>
      in audio_buf_write_silence (m, buf) (silence buf))"

section \<open>Well-formed buffers and what they hold\<close>

text \<open>
  A well-formed buffer has a power-of-two size, the mask of that size and both indices inside. Its
  contents are the samples from the read index to the write index, around the end of the storage.
\<close>

definition buf_wf :: "audio_buffer \<Rightarrow> bool" where
  "buf_wf b \<longleftrightarrow>
     list_ex (\<lambda>k. unat (bsize b) = 2 ^ k \<and> size_mask b = 2 ^ k - 1) [0..<32] \<and>
     unat (rd b) < unat (bsize b) \<and> unat (wr b) < unat (bsize b)"

definition buf_used :: "audio_buffer \<Rightarrow> nat" where
  "buf_used b = ring_used (unat (bsize b)) (unat (rd b)) (unat (wr b))"

definition buf_slot :: "audio_buffer \<Rightarrow> nat \<Rightarrow> nat" where
  "buf_slot b i = base b + (unat (rd b) + i) mod unat (bsize b)"

definition buf_contents :: "'s mem \<times> audio_buffer \<Rightarrow> 's cell list" where
  "buf_contents s = map (\<lambda>i. fst s (buf_slot (snd s) i)) [0..<buf_used (snd s)]"

definition buf_range :: "audio_buffer \<Rightarrow> nat set" where
  "buf_range b = {base b ..< base b + unat (bsize b)}"

lemma buf_wfE:
  assumes "buf_wf b"
  obtains k where "k < 32" "unat (bsize b) = 2 ^ k" "size_mask b = mask k"
    "unat (rd b) < 2 ^ k" "unat (wr b) < 2 ^ k"
proof -
  from assms obtain k where "k < 32" "unat (bsize b) = 2 ^ k" "size_mask b = 2 ^ k - 1"
    "unat (rd b) < unat (bsize b)" "unat (wr b) < unat (bsize b)"
    by (auto simp: buf_wf_def list_ex_iff)
  then show thesis by (intro that [of k]) (simp_all add: two_pow_minus_1_eq_mask)
qed

lemma buf_wfI:
  assumes "k < 32" "unat (bsize b) = 2 ^ k" "size_mask b = mask k" "unat (rd b) < 2 ^ k" "unat (wr b) < 2 ^ k"
  shows "buf_wf b"
  using assms by (auto simp: buf_wf_def list_ex_iff two_pow_minus_1_eq_mask intro!: bexI [of _ k])

lemma buf_wf_bounds:
  assumes "buf_wf b"
  shows "unat (rd b) < unat (bsize b)" "unat (wr b) < unat (bsize b)" "0 < unat (bsize b)"
    "unat (bsize b) \<le> 2 ^ 31" "buf_used b < unat (bsize b)"
proof -
  obtain k where k: "k < 32" "unat (bsize b) = 2 ^ k" using assms by (rule buf_wfE)
  show "unat (rd b) < unat (bsize b)" "unat (wr b) < unat (bsize b)"
    using assms by (simp_all add: buf_wf_def)
  show "unat (bsize b) \<le> 2 ^ 31" using k by (simp only:) (rule power_increasing, simp_all)
  show "0 < unat (bsize b)" using k by simp
  then show "buf_used b < unat (bsize b)" by (simp add: buf_used_def ring_used_less)
qed

lemma unat_advance:
  assumes "buf_wf b" "size_mask b = mk"
  shows "unat ((x + y) AND mk) = (unat x + unat y) mod unat (bsize b)"
proof -
  obtain k where "k < 32" "unat (bsize b) = 2 ^ k" "size_mask b = mask k"
    using assms(1) by (rule buf_wfE)
  then show ?thesis using unat_word_add_and_mask [of k x y] assms(2) by simp
qed

lemma unat_retreat:
  assumes "buf_wf b" "unat y \<le> unat (bsize b)"
  shows "unat ((x - y) AND size_mask b) = (unat x + (unat (bsize b) - unat y)) mod unat (bsize b)"
proof -
  obtain k where "k < 32" "unat (bsize b) = 2 ^ k" "size_mask b = mask k"
    using assms(1) by (rule buf_wfE)
  then show ?thesis using unat_word_sub_and_mask [of k y x] assms(2) by simp
qed

lemma buf_wf_move:
  assumes "buf_wf b" "unat r < unat (bsize b)" "unat w < unat (bsize b)"
  shows "buf_wf (b\<lparr>rd := r, wr := w\<rparr>)"
proof -
  obtain k where "k < 32" "unat (bsize b) = 2 ^ k" "size_mask b = mask k"
    using assms(1) by (rule buf_wfE)
  then show ?thesis using assms(2,3) by (intro buf_wfI [of k]) simp_all
qed

lemma buf_slot_in_range: "buf_wf b \<Longrightarrow> buf_slot b i \<in> buf_range b"
  using buf_wf_bounds(3) [of b] by (simp add: buf_slot_def buf_range_def)

lemma buf_slot_inj:
  "buf_slot b i = buf_slot b j \<Longrightarrow> i < unat (bsize b) \<Longrightarrow> j < unat (bsize b) \<Longrightarrow> i = j"
  by (auto simp: buf_slot_def dest: ring_place_inj)

lemma buf_slot_used: "buf_wf b \<Longrightarrow> buf_slot b (buf_used b) = base b + unat (wr b)"
  using buf_wf_bounds [of b] by (simp add: buf_slot_def buf_used_def ring_used_mod)

lemma length_buf_contents [simp]: "length (buf_contents s) = buf_used (snd s)"
  by (simp add: buf_contents_def)

lemma nth_buf_contents:
  "i < buf_used (snd s) \<Longrightarrow> buf_contents s ! i = fst s (buf_slot (snd s) i)"
  by (simp add: buf_contents_def)

lemma audio_buf_avail_used:
  assumes "buf_wf b"
  shows "unat (audio_buf_avail b) = buf_used b"
proof (cases "wr b < rd b")
  note bd = buf_wf_bounds [OF assms]
  case True
  have "unat (wr b + bsize b) = unat (wr b) + unat (bsize b)" 
    using bd by (intro unat_add_small) simp
  moreover have "unat (wr b + bsize b - rd b) = unat (wr b + bsize b) - unat (rd b)"
    using calculation bd by (intro unat_sub) (simp add: word_le_nat_alt)
  ultimately have "unat (audio_buf_avail b) = unat (wr b) + unat (bsize b) - unat (rd b)"
    using True by (simp add: audio_buf_avail_def)
  moreover have "unat (wr b) < unat (rd b)" using True by (simp add: word_less_nat_alt)
  ultimately show ?thesis using bd by (simp add: buf_used_def ring_used_def)
next
  note bd = buf_wf_bounds [OF assms]
  case False
  then have le: "rd b \<le> wr b" by simp
  then have "unat (audio_buf_avail b) = unat (wr b) - unat (rd b)"
    using False by (simp add: audio_buf_avail_def unat_sub)
  moreover have "buf_used b = unat (wr b) - unat (rd b)"
    unfolding buf_used_def using le bd by (intro ring_used_unique) (simp_all add: word_le_nat_alt)
  ultimately show ?thesis by simp
qed

lemma audio_buf_free_room:
  assumes "buf_wf b"
  shows "unat (audio_buf_free b) = unat (bsize b) - buf_used b - 1"
proof -
  note bd = buf_wf_bounds [OF assms]
  have "audio_buf_avail b < bsize b"
    using bd audio_buf_avail_used [OF assms] by (simp add: word_less_nat_alt)
  then have "unat (bsize b - audio_buf_avail b) = unat (bsize b) - buf_used b"
    using audio_buf_avail_used [OF assms] by (simp add: unat_sub)
  moreover from this have "1 \<le> bsize b - audio_buf_avail b" using bd by (simp add: word_le_nat_alt)
  ultimately show ?thesis by (simp add: audio_buf_free_def unat_sub)
qed

section \<open>Single steps\<close>

definition buf_put :: "'s mem \<times> audio_buffer \<Rightarrow> 's cell \<Rightarrow> 's mem \<times> audio_buffer" where
  "buf_put s x = (let (m, buf) = s in
     (m(base buf + unat (wr buf) := x), buf\<lparr>wr := (wr buf + 1) AND size_mask buf\<rparr>))"

lemma buf_move_wr: "b\<lparr>wr := w\<rparr> = b\<lparr>rd := rd b, wr := w\<rparr>"
  and buf_move_rd: "b\<lparr>rd := r\<rparr> = b\<lparr>rd := r, wr := wr b\<rparr>"
  by simp_all

lemma buf_wf_write_update: "buf_wf b \<Longrightarrow> buf_wf (audio_buf_write_update b n)"
  using buf_wf_move [of b "rd b" "(wr b + n) AND size_mask b"] buf_wf_bounds [of b]
  by (simp add: audio_buf_write_update_def unat_advance)

lemma buf_wf_read_update: "buf_wf b \<Longrightarrow> buf_wf (audio_buf_read_update b n)"
  using buf_wf_move [of b "(rd b + n) AND size_mask b" "wr b"] buf_wf_bounds [of b]
  by (simp add: audio_buf_read_update_def unat_advance)

lemma buf_used_write_update:
  "buf_wf b \<Longrightarrow> buf_used b + unat n < unat (bsize b) \<Longrightarrow>
     buf_used (audio_buf_write_update b n) = buf_used b + unat n"
  using buf_wf_bounds [of b]
  by (simp add: audio_buf_write_update_def buf_used_def unat_advance ring_used_write)

lemma buf_used_read_update:
  "buf_wf b \<Longrightarrow> unat n \<le> buf_used b \<Longrightarrow>
     buf_used (audio_buf_read_update b n) = buf_used b - unat n"
  using buf_wf_bounds [of b]
  by (simp add: audio_buf_read_update_def buf_used_def unat_advance ring_used_read)

lemma buf_slot_write_update [simp]: "buf_slot (audio_buf_write_update b n) = buf_slot b"
  by (simp add: audio_buf_write_update_def buf_slot_def fun_eq_iff)

lemma buf_slot_read_update:
  "buf_wf b \<Longrightarrow> buf_slot (audio_buf_read_update b n) i = buf_slot b (unat n + i)"
  by (simp add: audio_buf_read_update_def buf_slot_def unat_advance mod_add_left_eq add.assoc)

lemma buf_update_frame [simp]:
  "bsize (audio_buf_write_update b n) = bsize b" "base (audio_buf_write_update b n) = base b"
  "bsize (audio_buf_read_update b n) = bsize b" "base (audio_buf_read_update b n) = base b"
  "rd (audio_buf_write_update b n) = rd b" "wr (audio_buf_read_update b n) = wr b"
  "size_mask (audio_buf_write_update b n) = size_mask b"
  "size_mask (audio_buf_read_update b n) = size_mask b"
  "silence (audio_buf_write_update b n) = silence b"
  "silence (audio_buf_read_update b n) = silence b"
  "buf_range (audio_buf_write_update b n) = buf_range b"
  "buf_range (audio_buf_read_update b n) = buf_range b"
  by (simp_all add: audio_buf_write_update_def audio_buf_read_update_def buf_range_def)

lemma buf_contents_frame:
  "buf_wf b \<Longrightarrow> \<forall>a \<in> buf_range b. m' a = m a \<Longrightarrow> buf_contents (m', b) = buf_contents (m, b)"
  by (simp add: buf_contents_def buf_slot_in_range)

text \<open>
  Storing \<open>xs\<close> in the free slots that follow the contents and moving the write index over them
  appends \<open>xs\<close>: the common core of all the writing operations.
\<close>

lemma buf_contents_append:
  assumes wf: "buf_wf b" and room: "buf_used b + length xs < unat (bsize b)"
    and n: "unat n = length xs"
    and stored: "\<And>i. i < length xs \<Longrightarrow> m' (buf_slot b (buf_used b + i)) = xs ! i"
    and kept: "\<And>i. i < buf_used b \<Longrightarrow> m' (buf_slot b i) = m (buf_slot b i)"
  shows "buf_contents (m', audio_buf_write_update b n) = buf_contents (m, b) @ xs"
proof (rule nth_equalityI)
  show "length (buf_contents (m', audio_buf_write_update b n)) = length (buf_contents (m, b) @ xs)"
    using buf_used_write_update [OF wf] room n by simp
  fix i assume "i < length (buf_contents (m', audio_buf_write_update b n))"
  then have i: "i < buf_used b + length xs" using buf_used_write_update [OF wf] room n by simp
  then show "buf_contents (m', audio_buf_write_update b n) ! i = (buf_contents (m, b) @ xs) ! i"
    using buf_used_write_update [OF wf, of n] room n kept [of i] stored [of "i - buf_used b"]
    by (cases "i < buf_used b") (simp_all add: buf_contents_def nth_append)
qed

lemma buf_put_contents:
  assumes "buf_wf b" and "Suc (buf_used b) < unat (bsize b)"
  shows "buf_contents (buf_put (m, b) x) = buf_contents (m, b) @ [x]"
proof -
  have "b\<lparr>wr := (wr b + 1) AND size_mask b\<rparr> = audio_buf_write_update b 1"
    by (simp add: audio_buf_write_update_def)
  moreover have "buf_contents (m(base b + unat (wr b) := x), audio_buf_write_update b 1) =
      buf_contents (m, b) @ [x]"
  proof (rule buf_contents_append)
    fix i assume "i < buf_used b"
    then have "buf_slot b i \<noteq> buf_slot b (buf_used b)"
      using buf_slot_inj [of b i "buf_used b"] assms(2) by auto
    then show "(m(base b + unat (wr b) := x)) (buf_slot b i) = m (buf_slot b i)"
      using buf_slot_used [OF assms(1)] by simp
  qed (use assms buf_slot_used [OF assms(1)] in simp_all)
  ultimately show ?thesis by (simp add: buf_put_def)
qed

lemma buf_put_wf: "buf_wf (snd s) \<Longrightarrow> buf_wf (snd (buf_put s x))"
  using buf_wf_write_update [of "snd s" 1]
  by (cases s) (simp add: buf_put_def audio_buf_write_update_def)

lemma buf_put_frame:
  "bsize (snd (buf_put s x)) = bsize (snd s)" "buf_range (snd (buf_put s x)) = buf_range (snd s)"
  "rd (snd (buf_put s x)) = rd (snd s)" "base (snd (buf_put s x)) = base (snd s)"
  by (simp_all add: buf_put_def buf_range_def split: prod.splits)

lemma audio_buf_write_puts:
  "audio_buf_write s samples len = for_upto (unat len) (\<lambda>i s. buf_put s (samples ! i)) s"
  unfolding audio_buf_write_def by (rule for_upto_cong) (simp add: buf_put_def split: prod.splits)

lemma audio_buf_write_spec:
  assumes "buf_wf b" and "unat len \<le> length xs" and "buf_used b + unat len < unat (bsize b)"
  shows "buf_contents (audio_buf_write (m, b) xs len) = buf_contents (m, b) @ take (unat len) xs"
    and "buf_wf (snd (audio_buf_write (m, b) xs len))"
    and "bsize (snd (audio_buf_write (m, b) xs len)) = bsize b"
    and "a \<notin> buf_range b \<Longrightarrow> fst (audio_buf_write (m, b) xs len) a = m a"
proof -
  let ?P = "\<lambda>i s. buf_contents s = buf_contents (m, b) @ take i xs \<and> buf_wf (snd s) \<and>
      bsize (snd s) = bsize b \<and> buf_range (snd s) = buf_range b \<and>
      (\<forall>a. a \<notin> buf_range b \<longrightarrow> fst s a = m a)"
  have "?P (unat len) (for_upto (unat len) (\<lambda>i s. buf_put s (xs ! i)) (m, b))"
  proof (rule for_upto_invariant)
    fix i s assume i: "i < unat len" and P: "?P i s"
    obtain m1 b1 where s: "s = (m1, b1)" by (cases s)
    have "length (buf_contents s) = length (buf_contents (m, b) @ take i xs)" using P by simp
    then have used: "buf_used b1 = buf_used b + i" using i assms(2) by (simp add: s)
    have "base b1 + unat (wr b1) \<in> buf_range b1"
      using P buf_wf_bounds [of b1] by (simp add: s buf_range_def)
    moreover have "take (Suc i) xs = take i xs @ [xs ! i]"
      using i assms(2) by (simp add: take_Suc_conv_app_nth)
    ultimately show "?P (Suc i) (buf_put s (xs ! i))"
      using P buf_put_contents [of b1 m1 "xs ! i"] used i assms(3) buf_put_wf [of s "xs ! i"]
        buf_put_frame [of s "xs ! i"]
      by (auto simp: s buf_put_def)
  qed (use assms in simp)
  then show "buf_contents (audio_buf_write (m, b) xs len) = buf_contents (m, b) @ take (unat len) xs"
    "buf_wf (snd (audio_buf_write (m, b) xs len))"
    "bsize (snd (audio_buf_write (m, b) xs len)) = bsize b"
    "a \<notin> buf_range b \<Longrightarrow> fst (audio_buf_write (m, b) xs len) a = m a"
    by (auto simp: audio_buf_write_puts)
qed

lemma buf_contents_read_update:
  assumes "buf_wf b" and "unat n \<le> buf_used b"
  shows "buf_contents (m, audio_buf_read_update b n) = drop (unat n) (buf_contents (m, b))"
  using assms by (intro nth_equalityI)
    (simp_all add: buf_used_read_update nth_buf_contents buf_slot_read_update)

lemma audio_buf_read_spec:
  assumes "buf_wf b" and "unat len \<le> buf_used b"
  shows "fst (audio_buf_read m b len) = take (unat len) (buf_contents (m, b))"
    and "buf_contents (m, snd (audio_buf_read m b len)) = drop (unat len) (buf_contents (m, b))"
    and "buf_wf (snd (audio_buf_read m b len))"
    and "bsize (snd (audio_buf_read m b len)) = bsize b"
    and "buf_range (snd (audio_buf_read m b len)) = buf_range b"
proof -
  let ?P = "\<lambda>i (xs, b'). xs = take i (buf_contents (m, b)) \<and>
      buf_contents (m, b') = drop i (buf_contents (m, b)) \<and> buf_wf b' \<and> bsize b' = bsize b \<and>
      buf_range b' = buf_range b"
  have "?P (unat len) (audio_buf_read m b len)"
    unfolding audio_buf_read_def
  proof (rule for_upto_invariant)
    fix i s assume i: "i < unat len" and P: "?P i s"
    obtain xs b' where s: "s = (xs, b')" by (cases s)
    have "length (buf_contents (m, b')) = length (drop i (buf_contents (m, b)))" using P s by simp
    then have used: "buf_used b' = buf_used b - i" by simp
    have wf: "buf_wf b'" using P s by simp
    have "m (base b' + unat (rd b')) = buf_contents (m, b') ! 0"
      using used i assms(2) buf_wf_bounds [OF wf] by (simp add: buf_contents_def buf_slot_def)
    also have "\<dots> = buf_contents (m, b) ! i" using P s i assms(2) by simp
    finally have x: "m (base b' + unat (rd b')) = buf_contents (m, b) ! i" .
    have u: "b'\<lparr>rd := (rd b' + 1) AND size_mask b'\<rparr> = audio_buf_read_update b' 1"
      by (simp add: audio_buf_read_update_def)
    show "?P (Suc i) (case s of (xs, b') \<Rightarrow>
        (xs @ [m (base b' + unat (rd b'))], b'\<lparr>rd := (rd b' + 1) AND size_mask b'\<rparr>))"
      using P s x i assms(2) used buf_wf_read_update [OF wf, of 1]
        buf_contents_read_update [OF wf, of 1 m]
      by (simp add: u take_Suc_conv_app_nth)
  qed (use assms in simp)
  then show "fst (audio_buf_read m b len) = take (unat len) (buf_contents (m, b))"
    "buf_contents (m, snd (audio_buf_read m b len)) = drop (unat len) (buf_contents (m, b))"
    "buf_wf (snd (audio_buf_read m b len))"
    "bsize (snd (audio_buf_read m b len)) = bsize b"
    "buf_range (snd (audio_buf_read m b len)) = buf_range b"
    by (auto split: prod.splits)
qed

subsection \<open>Writing in front of the contents\<close>

definition buf_retreat :: "audio_buffer \<Rightarrow> u32 \<Rightarrow> audio_buffer" where
  "buf_retreat b n = b\<lparr>rd := (rd b - n) AND size_mask b\<rparr>"

lemma buf_retreat_facts:
  assumes "buf_wf b" and "buf_used b + unat n < unat (bsize b)"
  shows "buf_wf (buf_retreat b n)" "buf_used (buf_retreat b n) = buf_used b + unat n"
    "buf_slot (buf_retreat b n) (unat n + i) = buf_slot b i"
    "bsize (buf_retreat b n) = bsize b" "base (buf_retreat b n) = base b"
    "buf_range (buf_retreat b n) = buf_range b" "size_mask (buf_retreat b n) = size_mask b"
proof -
  note bd = buf_wf_bounds [OF assms(1)]
  have n: "unat n \<le> unat (bsize b)" using assms by simp
  have r: "unat (rd (buf_retreat b n)) = (unat (rd b) + (unat (bsize b) - unat n)) mod unat (bsize b)"
    by (simp add: buf_retreat_def unat_retreat [OF assms(1) n])
  show "bsize (buf_retreat b n) = bsize b" "base (buf_retreat b n) = base b"
    "buf_range (buf_retreat b n) = buf_range b" "size_mask (buf_retreat b n) = size_mask b"
    by (simp_all add: buf_retreat_def buf_range_def)
  show "buf_wf (buf_retreat b n)"
    using buf_wf_move [OF assms(1), of "(rd b - n) AND size_mask b" "wr b"] bd
    by (simp add: buf_retreat_def unat_retreat [OF assms(1) n])
  show "buf_used (buf_retreat b n) = buf_used b + unat n"
    unfolding buf_used_def r
    using assms(2) ring_used_push [OF bd(1,2), of "unat n"] by (simp add: buf_retreat_def buf_used_def)
  have "((unat (rd b) + (unat (bsize b) - unat n)) mod unat (bsize b) + (unat n + i)) mod unat (bsize b)
      = (unat (rd b) + (unat (bsize b) - unat n) + (unat n + i)) mod unat (bsize b)"
    by (rule mod_add_left_eq)
  also have "unat (rd b) + (unat (bsize b) - unat n) + (unat n + i) = unat (rd b) + i + unat (bsize b)"
    using n by simp
  finally show "buf_slot (buf_retreat b n) (unat n + i) = buf_slot b i"
    unfolding buf_slot_def r by (simp add: buf_retreat_def)
qed

lemma audio_buf_write_head_spec:
  assumes wf: "buf_wf b" and len: "unat len \<le> length xs" and room: "buf_used b + unat len < unat (bsize b)"
  shows "buf_contents (audio_buf_write_head (m, b) xs len) = take (unat len) xs @ buf_contents (m, b)"
    and "buf_wf (snd (audio_buf_write_head (m, b) xs len))"
    and "bsize (snd (audio_buf_write_head (m, b) xs len)) = bsize b"
    and "a \<notin> buf_range b \<Longrightarrow> fst (audio_buf_write_head (m, b) xs len) a = m a"
proof -
  let ?b = "buf_retreat b len"
  note rt = buf_retreat_facts [OF wf room]
  let ?body = "\<lambda>i (m, r :: u32). (m(base ?b + unat r := xs ! i), (r + 1) AND size_mask ?b)"
  let ?P = "\<lambda>i (m', r :: u32). unat r = (unat (rd ?b) + i) mod unat (bsize ?b) \<and>
      (\<forall>j < i. m' (buf_slot ?b j) = xs ! j) \<and>
      (\<forall>j. i \<le> j \<and> j < buf_used ?b \<longrightarrow> m' (buf_slot ?b j) = m (buf_slot ?b j)) \<and>
      (\<forall>a. a \<notin> buf_range b \<longrightarrow> m' a = m a)"
  obtain m' r where loop: "for_upto (unat len) ?body (m, rd ?b) = (m', r)"
    by (cases "for_upto (unat len) ?body (m, rd ?b)")
  have eq: "audio_buf_write_head (m, b) xs len = (m', ?b)"
    using loop by (simp add: audio_buf_write_head_def Let_def buf_retreat_def)
  have "?P (unat len) (for_upto (unat len) ?body (m, rd ?b))"
  proof (rule for_upto_invariant)
    fix i s assume i: "i < unat len" and P: "?P i s"
    obtain m1 and r1 :: u32 where s: "s = (m1, r1)" by (cases s)
    have slot: "base ?b + unat r1 = buf_slot ?b i" using P s by (simp add: buf_slot_def)
    have r1: "unat r1 = (unat (rd ?b) + i) mod unat (bsize ?b)" using P s by simp
    have "unat ((r1 + 1) AND size_mask ?b) = (unat (rd ?b) + Suc i) mod unat (bsize ?b)"
      using unat_advance [OF rt(1) refl, of r1 1] by (simp add: r1 mod_Suc_eq)
    moreover have "buf_slot ?b j \<noteq> buf_slot ?b i" if "j \<noteq> i" "j < buf_used ?b" for j
      using buf_slot_inj [of ?b j i] that i rt(2,4) room by auto
    moreover have "buf_slot ?b i \<in> buf_range b" using buf_slot_in_range [OF rt(1)] rt(6) by simp
    ultimately show "?P (Suc i) (?body i s)"
      using P i rt(2) unfolding s split slot by (auto simp: less_Suc_eq)
  qed (use buf_wf_bounds [OF rt(1)] in simp)
  then have P: "\<forall>j < unat len. m' (buf_slot ?b j) = xs ! j"
    "\<forall>j. unat len \<le> j \<and> j < buf_used ?b \<longrightarrow> m' (buf_slot ?b j) = m (buf_slot ?b j)"
    "\<forall>a. a \<notin> buf_range b \<longrightarrow> m' a = m a"
    unfolding loop by simp_all
  show "buf_wf (snd (audio_buf_write_head (m, b) xs len))"
    "bsize (snd (audio_buf_write_head (m, b) xs len)) = bsize b"
    "a \<notin> buf_range b \<Longrightarrow> fst (audio_buf_write_head (m, b) xs len) a = m a"
    using rt P(3) by (simp_all add: eq)
  show "buf_contents (audio_buf_write_head (m, b) xs len) = take (unat len) xs @ buf_contents (m, b)"
    unfolding eq
  proof (rule nth_equalityI)
    fix i assume "i < length (buf_contents (m', ?b))"
    then have i: "i < unat len + buf_used b" using rt(2) by simp
    show "buf_contents (m', ?b) ! i = (take (unat len) xs @ buf_contents (m, b)) ! i"
    proof (cases "i < unat len")
      case True
      then show ?thesis using P(1) rt(2) len by (simp add: nth_buf_contents nth_append)
    next
      case False
      then have "buf_slot ?b i = buf_slot b (i - unat len)" using rt(3) [of "i - unat len"] by simp
      moreover have "m' (buf_slot ?b i) = m (buf_slot ?b i)" using P(2) False i rt(2) by simp
      ultimately show ?thesis using False rt(2) i len by (simp add: nth_buf_contents nth_append)
    qed
  qed (use rt(2) len in simp)
qed

subsection \<open>Block operations\<close>

text \<open>The unrolled cases of the copy are the plain loop.\<close>

lemma audio_memcpy_loop: "audio_memcpy m dst src len = for_upto (unat len) (\<lambda>i m. m(dst + i := src m i)) m"
  by (simp add: audio_memcpy_def Let_def loop_simps)

lemma audio_memcpy_spec:
  assumes src: "\<And>m' i. i < unat len \<Longrightarrow> (\<And>a. a \<notin> {dst ..< dst + unat len} \<Longrightarrow> m' a = m a) \<Longrightarrow> src m' i = v i"
  shows "audio_memcpy m dst src len a =
    (if a \<in> {dst ..< dst + unat len} then v (a - dst) else m a)"
proof -
  let ?P = "\<lambda>k m'. \<forall>a. m' a = (if a \<in> {dst ..< dst + k} then v (a - dst) else m a)"
  have "?P (unat len) (for_upto (unat len) (\<lambda>i m. m(dst + i := src m i)) m)"
  proof (rule for_upto_invariant [where P = ?P])
    fix i m' assume i: "i < unat len" and P: "?P i m'"
    have "src m' i = v i" using i P by (intro src) auto
    then show "?P (Suc i) (m'(dst + i := src m' i))" using P by auto
  qed simp
  then show ?thesis by (simp add: audio_memcpy_loop)
qed

lemma audio_buf_write_silence_block:
  "unat len \<le> 2 ^ 31 \<Longrightarrow> fst (audio_buf_write_silence (m, b) len) =
     for_upto (unat len) (\<lambda>i m. m(audio_buf_write_addr b (of_nat i) := AUDIO_SAMPLE_SILENCE)) m"
  unfolding audio_buf_write_silence_def Let_def split fst_conv
  by (rule for_upto_cong) (simp add: audio_buf_write_block_def audio_memcpy_def)

lemma snd_audio_buf_write_silence [simp]:
  "snd (audio_buf_write_silence (m, b) len) = audio_buf_write_update b len"
  by (simp add: audio_buf_write_silence_def)

text \<open>
  A block that does not pass the end of the storage occupies consecutive addresses, the slots that
  follow the contents.
\<close>

lemma buf_block_slot:
  assumes "buf_wf b" and "unat (wr b) + n \<le> unat (bsize b)" and "i < n"
  shows "base b + unat (wr b) + i = buf_slot b (buf_used b + i)"
proof -
  note bd = buf_wf_bounds [OF assms(1)]
  have "(unat (rd b) + (buf_used b + i)) mod unat (bsize b) = (unat (wr b) + i) mod unat (bsize b)"
    using ring_used_mod [OF bd(1,2)] by (metis add.assoc buf_used_def mod_add_left_eq)
  then show ?thesis using assms by (simp add: buf_slot_def)
qed

lemma buf_block_addr:
  assumes "buf_wf b" and "unat (wr b) + n \<le> unat (bsize b)" and "i < n"
  shows "audio_buf_write_addr b (of_nat i) = base b + unat (wr b) + i"
proof -
  note bd = buf_wf_bounds [OF assms(1)]
  have i: "unat (of_nat i :: u32) = i" using assms bd by (intro unat32_of_nat) simp
  then have "unat (wr b + of_nat i) = unat (wr b) + i"
    using assms bd unat_add_small [of "wr b" "of_nat i"] by simp
  then show ?thesis by (simp add: audio_buf_write_addr_def)
qed

text \<open>
  Whatever is stored there, a block of \<open>n\<close> values written at once and published with one update of
  the write index is appended to the contents, and nothing outside the storage is touched.
\<close>

lemma buf_block_append:
  assumes wf: "buf_wf b" and fit: "unat (wr b) + unat n \<le> unat (bsize b)"
    and room: "buf_used b + unat n < unat (bsize b)"
    and m': "\<And>a. m' a = (if a \<in> {base b + unat (wr b) ..< base b + unat (wr b) + unat n}
                          then v (a - (base b + unat (wr b))) else m a)"
  shows "buf_contents (m', audio_buf_write_update b n) = buf_contents (m, b) @ map v [0..<unat n]"
    and "a \<notin> buf_range b \<Longrightarrow> m' a = m a"
proof -
  show "buf_contents (m', audio_buf_write_update b n) = buf_contents (m, b) @ map v [0..<unat n]"
  proof (rule buf_contents_append [OF wf])
    fix i assume "i < length (map v [0..<unat n])"
    then have i: "i < unat n" by simp
    show "m' (buf_slot b (buf_used b + i)) = map v [0..<unat n] ! i"
      unfolding buf_block_slot [OF wf fit i, symmetric] using i by (simp add: m')
  next
    fix i assume i: "i < buf_used b"
    have "buf_slot b i \<noteq> base b + unat (wr b) + j" if "j < unat n" for j
      using buf_block_slot [OF wf fit that] buf_slot_inj [of b i "buf_used b + j"] that i room by auto
    then have "buf_slot b i \<notin> {base b + unat (wr b) ..< base b + unat (wr b) + unat n}"
      by (metis add_diff_inverse_nat atLeastLessThan_iff leD less_diff_conv2 add.commute)
    then show "m' (buf_slot b i) = m (buf_slot b i)" by (simp only: m' if_False)
  qed (use room in simp_all)
  show "a \<notin> buf_range b \<Longrightarrow> m' a = m a"
    using fit by (auto simp: m' buf_range_def)
qed

lemma for_upto_store:
  assumes "\<And>i. i < n \<Longrightarrow> f i = a + i"
  shows "for_upto n (\<lambda>i m. m(f i := v i)) m x = (if x \<in> {a ..< a + n} then v (x - a) else m x)"
  using assms by (induction n) (auto simp: less_Suc_eq)

lemma audio_buf_write_silence_mem:
  assumes wf: "buf_wf b" and fit: "unat (wr b) + unat n \<le> unat (bsize b)"
  shows "fst (audio_buf_write_silence (m, b) n) x =
    (if x \<in> {base b + unat (wr b) ..< base b + unat (wr b) + unat n} then AUDIO_SAMPLE_SILENCE else m x)"
proof -
  have n: "unat n \<le> 2 ^ 31" using fit buf_wf_bounds [OF wf] by simp
  show ?thesis
    unfolding audio_buf_write_silence_block [OF n]
    using for_upto_store [of "unat n" "\<lambda>i. audio_buf_write_addr b (of_nat i)" _
        "\<lambda>_. AUDIO_SAMPLE_SILENCE" m x] buf_block_addr [OF wf fit] by simp
qed

lemma audio_buf_write_silence_spec:
  assumes wf: "buf_wf b" and fit: "unat (wr b) + unat n \<le> unat (bsize b)"
    and room: "buf_used b + unat n < unat (bsize b)"
  shows "buf_contents (audio_buf_write_silence (m, b) n) =
      buf_contents (m, b) @ replicate (unat n) AUDIO_SAMPLE_SILENCE"
    and "a \<notin> buf_range b \<Longrightarrow> fst (audio_buf_write_silence (m, b) n) a = m a"
proof -
  let ?m = "fst (audio_buf_write_silence (m, b) n)"
  note m = audio_buf_write_silence_mem [OF wf fit]
  have "audio_buf_write_silence (m, b) n = (?m, audio_buf_write_update b n)"
    by (simp add: prod_eq_iff)
  then show "buf_contents (audio_buf_write_silence (m, b) n) =
      buf_contents (m, b) @ replicate (unat n) AUDIO_SAMPLE_SILENCE"
    using buf_block_append(1) [OF wf fit room, of ?m "\<lambda>_. AUDIO_SAMPLE_SILENCE" m, OF m]
    by (simp add: map_replicate_const)
  show "a \<notin> buf_range b \<Longrightarrow> ?m a = m a"
    using buf_block_append(2) [OF wf fit room, of ?m "\<lambda>_. AUDIO_SAMPLE_SILENCE" m, OF m] .
qed

text \<open>
  Copying a block from one buffer to another, both away from the end of their storage: the source
  keeps its memory and the destination receives the oldest samples of the source.
\<close>

lemma audio_buf_copy_spec:
  assumes wf: "buf_wf dst" "buf_wf src" and disj: "buf_range dst \<inter> buf_range src = {}"
    and fit: "unat (wr dst) + unat n \<le> unat (bsize dst)" "unat (rd src) + unat n \<le> unat (bsize src)"
    and avail: "unat n \<le> buf_used src" and room: "buf_used dst + unat n < unat (bsize dst)"
  shows "buf_contents (audio_buf_copy m dst src n, audio_buf_write_update dst n) =
      buf_contents (m, dst) @ take (unat n) (buf_contents (m, src))"
    and "a \<notin> buf_range dst \<Longrightarrow> audio_buf_copy m dst src n a = m a"
proof -
  let ?d = "base dst + unat (wr dst)" and ?v = "\<lambda>i. m (base src + unat (rd src) + i)"
  have range: "{?d ..< ?d + unat n} \<subseteq> buf_range dst" using fit by (auto simp: buf_range_def)
  have m: "audio_buf_copy m dst src n x = (if x \<in> {?d ..< ?d + unat n} then ?v (x - ?d) else m x)" for x
    unfolding audio_buf_copy_def
  proof (rule audio_memcpy_spec)
    fix m' i assume i: "i < unat n" and same: "\<And>a. a \<notin> {?d ..< ?d + unat n} \<Longrightarrow> m' a = m a"
    have "base src + unat (rd src) + i \<in> buf_range src" using i fit by (simp add: buf_range_def)
    then show "m' (base src + unat (rd src) + i) = ?v i" using range disj by (intro same) auto
  qed
  have "map ?v [0..<unat n] = take (unat n) (buf_contents (m, src))"
    using fit avail buf_wf_bounds [OF wf(2)]
    by (intro nth_equalityI) (simp_all add: nth_buf_contents buf_slot_def add.assoc)
  then show "buf_contents (audio_buf_copy m dst src n, audio_buf_write_update dst n) =
      buf_contents (m, dst) @ take (unat n) (buf_contents (m, src))"
    using buf_block_append(1) [OF wf(1) fit(1) room, of "audio_buf_copy m dst src n" ?v m, OF m] by simp
  show "a \<notin> buf_range dst \<Longrightarrow> audio_buf_copy m dst src n a = m a"
    using buf_block_append(2) [OF wf(1) fit(1) room, of "audio_buf_copy m dst src n" ?v m, OF m] .
qed

subsection \<open>Initialisation and reset\<close>

lemma size_shifts_power:
  assumes "k < 32"
  shows "size_shifts (2 ^ k) acc = acc + of_nat k"
  using assms
proof (induction k arbitrary: acc)
  case 0
  show ?case by (subst size_shifts.simps) simp
next
  case (Suc k)
  have half: "drop_bit 1 (2 ^ Suc k :: u32) = 2 ^ k"
  proof -
    have "unat (2 ^ Suc k :: u32) = 2 ^ Suc k" "unat (2 ^ k :: u32) = 2 ^ k"
      using Suc.prems by (intro unat32_power; simp)+
    then have "unat (drop_bit 1 (2 ^ Suc k :: u32)) = unat (2 ^ k :: u32)"
      unfolding unat_drop_bit by simp
    then show ?thesis by (simp only: word_unat_eq_iff)
  qed
  have "(2 ^ k :: u32) \<noteq> 0" using Suc.prems by simp
  then have "size_shifts (2 ^ Suc k) acc = size_shifts (2 ^ k) (acc + 1)"
    by (subst size_shifts.simps) (simp only: half if_True not_False_eq_True)
  then show ?case using Suc.IH [of "acc + 1"] Suc.prems by (simp add: ac_simps)
qed

lemma buf_contents_empty: "rd b = wr b \<Longrightarrow> buf_wf b \<Longrightarrow> buf_contents (m, b) = []"
  using buf_wf_bounds [of b] by (simp add: buf_contents_def buf_used_def ring_used_def)

lemma audio_buf_init_eq:
  fixes buf bs fl sid sz sil
  defines "b \<equiv> buf\<lparr>base := bs, bsize := sz, rd := 0, wr := 0, silence := sil, flags := fl,
      shared_id := sid, input_type := 0, input_id := 0, input_element_id := 0,
      output_type := 0, output_id := 0, output_element_id := 0, size_mask := sz - 1\<rparr>"
  assumes "k < 32" and "unat sz = 2 ^ k"
  shows "audio_buf_init m buf bs sz sil fl sid = audio_buf_write_silence (m, b) sil" and "buf_wf b"
proof -
  have sz: "sz = 2 ^ k" using assms(2,3) by (rule u32_power_eq)
  have "unat (of_nat k :: u32) = k" using assms(2) by (intro unat32_of_nat) simp
  then have "push_bit (unat (size_shifts sz 0)) 1 - 1 = sz - 1"
    using size_shifts_power [OF assms(2), of 0] by (simp add: sz push_bit_eq_mult)
  then show "audio_buf_init m buf bs sz sil fl sid = audio_buf_write_silence (m, b) sil"
    by (simp add: audio_buf_init_def Let_def b_def)
  show "buf_wf b"
    using assms(2,3) by (intro buf_wfI [of k]) (simp_all add: b_def sz two_pow_minus_1_eq_mask)
qed

lemma audio_buf_init_spec:
  assumes "k < 32" and "unat sz = 2 ^ k" and "unat sil < unat sz"
  shows "buf_wf (snd (audio_buf_init m buf bs sz sil fl sid))"
    and "buf_contents (audio_buf_init m buf bs sz sil fl sid) = replicate (unat sil) AUDIO_SAMPLE_SILENCE"
    and "a \<notin> {bs ..< bs + unat sz} \<Longrightarrow> fst (audio_buf_init m buf bs sz sil fl sid) a = m a"
proof -
  let ?b = "buf\<lparr>base := bs, bsize := sz, rd := 0, wr := 0, silence := sil, flags := fl,
      shared_id := sid, input_type := 0, input_id := 0, input_element_id := 0,
      output_type := 0, output_id := 0, output_element_id := 0, size_mask := sz - 1\<rparr>"
  note eq = audio_buf_init_eq [OF assms(1,2), where buf = buf and bs = bs and fl = fl and sid = sid
      and sil = sil]
  have fit: "unat (wr ?b) + unat sil \<le> unat (bsize ?b)" using assms by simp
  have empty: "buf_contents (m, ?b) = []" by (rule buf_contents_empty [OF _ eq(2)]) simp
  then have "buf_used ?b = 0" using length_buf_contents [of "(m, ?b)"] by simp
  then have room: "buf_used ?b + unat sil < unat (bsize ?b)" using assms by simp
  note sp = audio_buf_write_silence_spec [OF eq(2) fit room, where m = m]
  show "buf_wf (snd (audio_buf_init m buf bs sz sil fl sid))"
    unfolding eq(1) snd_audio_buf_write_silence by (rule buf_wf_write_update [OF eq(2)])
  show "buf_contents (audio_buf_init m buf bs sz sil fl sid) = replicate (unat sil) AUDIO_SAMPLE_SILENCE"
    using sp(1) empty by (simp add: eq(1))
  show "a \<notin> {bs ..< bs + unat sz} \<Longrightarrow> fst (audio_buf_init m buf bs sz sil fl sid) a = m a"
    using sp(2) [of a] by (simp add: eq(1) buf_range_def)
qed

text \<open>A buffer initialised full of silence has its write index back at the start.\<close>

lemma audio_buf_init_full:
  assumes "k < 32" and "unat sz = 2 ^ k"
  shows "fst (audio_buf_init m buf bs sz sz fl sid) a = (if a \<in> {bs ..< bs + unat sz} then AUDIO_SAMPLE_SILENCE else m a)"
    and "buf_wf (snd (audio_buf_init m buf bs sz sz fl sid))"
    and "rd (snd (audio_buf_init m buf bs sz sz fl sid)) = 0" "wr (snd (audio_buf_init m buf bs sz sz fl sid)) = 0"
    and "base (snd (audio_buf_init m buf bs sz sz fl sid)) = bs"
    and "bsize (snd (audio_buf_init m buf bs sz sz fl sid)) = sz"
proof -
  define b where "b = buf\<lparr>base := bs, bsize := sz, rd := 0, wr := 0, silence := sz, flags := fl,
      shared_id := sid, input_type := 0, input_id := 0, input_element_id := 0,
      output_type := 0, output_id := 0, output_element_id := 0, size_mask := sz - 1\<rparr>"
  have init: "audio_buf_init m buf bs sz sz fl sid = audio_buf_write_silence (m, b) sz" and wf: "buf_wf b"
    unfolding b_def by (rule audio_buf_init_eq [OF assms])+
  have b: "rd b = 0" "wr b = 0" "base b = bs" "bsize b = sz" by (simp_all add: b_def)
  show "fst (audio_buf_init m buf bs sz sz fl sid) a =
      (if a \<in> {bs ..< bs + unat sz} then AUDIO_SAMPLE_SILENCE else m a)"
    unfolding init using audio_buf_write_silence_mem [OF wf, of sz m a] b by simp
  have snd: "snd (audio_buf_init m buf bs sz sz fl sid) = audio_buf_write_update b sz" unfolding init by simp
  then show "buf_wf (snd (audio_buf_init m buf bs sz sz fl sid))"
    "rd (snd (audio_buf_init m buf bs sz sz fl sid)) = 0"
    "base (snd (audio_buf_init m buf bs sz sz fl sid)) = bs"
    "bsize (snd (audio_buf_init m buf bs sz sz fl sid)) = sz"
    using buf_wf_write_update [OF wf] b by simp_all
  have "unat ((0 + sz) AND size_mask b) = 0" using unat_advance [OF wf refl, of 0 sz] b by simp
  then show "wr (snd (audio_buf_init m buf bs sz sz fl sid)) = 0"
    using snd b by (simp add: audio_buf_write_update_def unat_eq_0)
qed

lemma audio_buf_reset_spec:
  assumes "buf_wf b" and "unat (silence b) < unat (bsize b)"
  shows "buf_wf (snd (audio_buf_reset (m, b)))"
    and "buf_contents (audio_buf_reset (m, b)) = replicate (unat (silence b)) AUDIO_SAMPLE_SILENCE"
    and "a \<notin> buf_range b \<Longrightarrow> fst (audio_buf_reset (m, b)) a = m a"
proof -
  let ?b = "b\<lparr>rd := 0, wr := 0\<rparr>"
  have wf: "buf_wf ?b" using buf_wf_move [OF assms(1), of 0 0] buf_wf_bounds [OF assms(1)] by simp
  have eq: "audio_buf_reset (m, b) = audio_buf_write_silence (m, ?b) (silence b)"
    by (simp add: audio_buf_reset_def Let_def)
  have empty: "buf_contents (m, ?b) = []" by (rule buf_contents_empty [OF _ wf]) simp
  then have "buf_used ?b = 0" using length_buf_contents [of "(m, ?b)"] by simp
  then have "unat (wr ?b) + unat (silence b) \<le> unat (bsize ?b)"
    "buf_used ?b + unat (silence b) < unat (bsize ?b)" using assms by simp_all
  note sp = audio_buf_write_silence_spec [OF wf this, where m = m]
  show "buf_wf (snd (audio_buf_reset (m, b)))"
    unfolding eq snd_audio_buf_write_silence by (rule buf_wf_write_update [OF wf])
  show "buf_contents (audio_buf_reset (m, b)) = replicate (unat (silence b)) AUDIO_SAMPLE_SILENCE"
    using sp(1) empty by (simp add: eq)
  show "a \<notin> buf_range b \<Longrightarrow> fst (audio_buf_reset (m, b)) a = m a"
    using sp(2) [of a] by (simp add: eq buf_range_def)
qed

section \<open>The queue interface\<close>

text \<open>
  What the elements rely on when they use a buffer: a bounded first-in first-out queue. \<open>put\<close> and
  \<open>get\<close> transfer lists of samples; their laws hold as long as the caller respects the free room and
  the number of available samples, which is how the pipeline is dimensioned.
\<close>

datatype 'a fifo_op = Put "'a list" | Get nat

fun fifo_run ::
  "('q \<Rightarrow> 'a list \<Rightarrow> 'q) \<Rightarrow> ('q \<Rightarrow> nat \<Rightarrow> 'a list \<times> 'q) \<Rightarrow> 'q \<Rightarrow> 'a fifo_op list \<Rightarrow> 'a list \<times> 'q" where
  "fifo_run put get q [] = ([], q)"
| "fifo_run put get q (Put xs # ops) = fifo_run put get (put q xs) ops"
| "fifo_run put get q (Get n # ops) =
     (let (out, q') = get q n; (outs, q'') = fifo_run put get q' ops in (out @ outs, q''))"

fun fifo_fits :: "nat \<Rightarrow> nat \<Rightarrow> 'a fifo_op list \<Rightarrow> bool" where
  "fifo_fits room used [] = True"
| "fifo_fits room used (Put xs # ops) =
     (length xs \<le> room \<and> fifo_fits (room - length xs) (used + length xs) ops)"
| "fifo_fits room used (Get n # ops) = (n \<le> used \<and> fifo_fits (room + n) (used - n) ops)"

fun fifo_inputs :: "'a fifo_op list \<Rightarrow> 'a list" where
  "fifo_inputs [] = []"
| "fifo_inputs (Put xs # ops) = xs @ fifo_inputs ops"
| "fifo_inputs (Get n # ops) = fifo_inputs ops"

locale bounded_fifo =
  fixes invar :: "'q \<Rightarrow> bool" and items :: "'q \<Rightarrow> 'a list" and room :: "'q \<Rightarrow> nat"
    and put :: "'q \<Rightarrow> 'a list \<Rightarrow> 'q" and get :: "'q \<Rightarrow> nat \<Rightarrow> 'a list \<times> 'q"
  assumes put_invar: "invar q \<Longrightarrow> length xs \<le> room q \<Longrightarrow> invar (put q xs)"
    and put_items: "invar q \<Longrightarrow> length xs \<le> room q \<Longrightarrow> items (put q xs) = items q @ xs"
    and put_room: "invar q \<Longrightarrow> length xs \<le> room q \<Longrightarrow> room (put q xs) = room q - length xs"
    and get_out: "invar q \<Longrightarrow> n \<le> length (items q) \<Longrightarrow> fst (get q n) = take n (items q)"
    and get_items: "invar q \<Longrightarrow> n \<le> length (items q) \<Longrightarrow> items (snd (get q n)) = drop n (items q)"
    and get_invar: "invar q \<Longrightarrow> n \<le> length (items q) \<Longrightarrow> invar (snd (get q n))"
    and get_room: "invar q \<Longrightarrow> n \<le> length (items q) \<Longrightarrow> room (snd (get q n)) = room q + n"
begin

lemma run_fifo:
  assumes "invar q" and "fifo_fits (room q) (length (items q)) ops"
  shows "fst (fifo_run put get q ops) @ items (snd (fifo_run put get q ops)) = items q @ fifo_inputs ops
    \<and> invar (snd (fifo_run put get q ops))"
  using assms
proof (induction ops arbitrary: q)
  case (Cons op ops)
  show ?case
  proof (cases op)
    case (Put xs)
    have "invar (put q xs)" "items (put q xs) = items q @ xs" "room (put q xs) = room q - length xs"
      using Cons.prems Put by (simp_all add: put_invar put_items put_room)
    then show ?thesis
      using Cons.IH [of "put q xs"] Cons.prems Put by simp
  next
    case (Get n)
    obtain out q' where g: "get q n = (out, q')" by (cases "get q n")
    have n: "n \<le> length (items q)" using Cons.prems Get by simp
    have "invar q'" "items q' = drop n (items q)" "room q' = room q + n" "out = take n (items q)"
      using get_invar [OF _ n] get_items [OF _ n] get_room [OF _ n] get_out [OF _ n] Cons.prems g
      by simp_all
    then show ?thesis
      using Cons.IH [of q'] Cons.prems Get g by (simp add: case_prod_beta take_drop_append)
  qed
qed simp_all

end

text \<open>The sink also pushes samples back in front of the queue.\<close>

locale bounded_deque = bounded_fifo +
  fixes push :: "'q \<Rightarrow> 'a list \<Rightarrow> 'q"
  assumes push_invar: "invar q \<Longrightarrow> length xs \<le> room q \<Longrightarrow> invar (push q xs)"
    and push_items: "invar q \<Longrightarrow> length xs \<le> room q \<Longrightarrow> items (push q xs) = xs @ items q"
begin

lemma push_get:
  assumes "invar q" and "length xs \<le> room q"
  shows "fst (get (push q xs) (length xs)) = xs"
    and "items (snd (get (push q xs) (length xs))) = items q"
  using assms by (simp_all add: push_invar push_items get_out get_items)

end

definition buf_put_list :: "'s mem \<times> audio_buffer \<Rightarrow> 's cell list \<Rightarrow> 's mem \<times> audio_buffer" where
  "buf_put_list s xs = audio_buf_write s xs (of_nat (length xs))"

definition buf_get_list :: "'s mem \<times> audio_buffer \<Rightarrow> nat \<Rightarrow> 's cell list \<times> 's mem \<times> audio_buffer" where
  "buf_get_list s n = (let (xs, b) = audio_buf_read (fst s) (snd s) (of_nat n) in (xs, fst s, b))"

lemma buf_get_list_simps:
  "fst (buf_get_list s n) = fst (audio_buf_read (fst s) (snd s) (of_nat n))"
  "snd (buf_get_list s n) = (fst s, snd (audio_buf_read (fst s) (snd s) (of_nat n)))"
  by (simp_all add: buf_get_list_def split: prod.split)

definition buf_push_list :: "'s mem \<times> audio_buffer \<Rightarrow> 's cell list \<Rightarrow> 's mem \<times> audio_buffer" where
  "buf_push_list s xs = audio_buf_write_head s xs (of_nat (length xs))"

definition buf_room :: "'s mem \<times> audio_buffer \<Rightarrow> nat" where
  "buf_room s = unat (audio_buf_free (snd s))"

lemma buf_room_used:
  assumes "buf_wf (snd s)"
  shows "buf_room s = unat (bsize (snd s)) - buf_used (snd s) - 1"
    and "n \<le> buf_room s \<Longrightarrow> unat (of_nat n :: u32) = n"
    and "n \<le> buf_room s \<Longrightarrow> buf_used (snd s) + n < unat (bsize (snd s))"
    and "n \<le> buf_used (snd s) \<Longrightarrow> unat (of_nat n :: u32) = n"
proof -
  show room: "buf_room s = unat (bsize (snd s)) - buf_used (snd s) - 1"
    by (simp add: buf_room_def audio_buf_free_room [OF assms])
  note bd = buf_wf_bounds [OF assms]
  show "n \<le> buf_room s \<Longrightarrow> unat (of_nat n :: u32) = n"
    "n \<le> buf_used (snd s) \<Longrightarrow> unat (of_nat n :: u32) = n"
    using room bd by (auto intro!: unat32_of_nat)
  show "n \<le> buf_room s \<Longrightarrow> buf_used (snd s) + n < unat (bsize (snd s))"
    using room bd by simp
qed

interpretation ab: bounded_deque "\<lambda>s. buf_wf (snd s)" buf_contents buf_room buf_put_list buf_get_list
  buf_push_list
proof (unfold_locales, goal_cases)
  case (1 q xs)
  then show ?case using buf_room_used(2,3) [OF 1(1), of "length xs"]
    by (cases q) (simp add: buf_put_list_def audio_buf_write_spec)
next
  case (2 q xs)
  then show ?case using buf_room_used(2,3) [OF 2(1), of "length xs"]
    by (cases q) (simp add: buf_put_list_def audio_buf_write_spec)
next
  case (3 q xs)
  note r = buf_room_used(2,3) [OF 3(1), of "length xs"]
  have wf: "buf_wf (snd (buf_put_list q xs))"
    and size: "bsize (snd (buf_put_list q xs)) = bsize (snd q)"
    and c: "buf_contents (buf_put_list q xs) = buf_contents q @ xs"
    using 3 r by (cases q; simp add: buf_put_list_def audio_buf_write_spec)+
  from c have "length (buf_contents (buf_put_list q xs)) = length (buf_contents q @ xs)" by simp
  then show ?case using buf_room_used(1) [OF wf] buf_room_used(1) [OF 3(1)] size by simp
next
  case (4 q n)
  then show ?case using buf_room_used(4) [OF 4(1), of n]
    by (simp add: buf_get_list_simps audio_buf_read_spec)
next
  case (5 q n)
  then show ?case using buf_room_used(4) [OF 5(1), of n]
    by (simp add: buf_get_list_simps audio_buf_read_spec)
next
  case (6 q n)
  then show ?case using buf_room_used(4) [OF 6(1), of n]
    by (simp add: buf_get_list_simps audio_buf_read_spec)
next
  case (7 q n)
  note n = buf_room_used(4) [OF 7(1), of n]
  let ?b = "snd (audio_buf_read (fst q) (snd q) (of_nat n))"
  have s: "snd (buf_get_list q n) = (fst q, ?b)" by (simp add: buf_get_list_simps)
  have len: "unat (of_nat n :: u32) \<le> buf_used (snd q)" using n 7(2) by simp
  have "length (buf_contents (fst q, ?b)) = length (drop n (buf_contents q))"
    using audio_buf_read_spec(2) [OF 7(1) len, where m = "fst q"] n 7(2) by simp
  moreover have "buf_wf (snd (fst q, ?b))" using audio_buf_read_spec(3) [OF 7(1) len] by simp
  ultimately show ?case
    using buf_room_used(1) [where s = "(fst q, ?b)"] buf_room_used(1) [OF 7(1)] 7(2) buf_wf_bounds(5) [OF 7(1)]
      audio_buf_read_spec(4) [OF 7(1) len, where m = "fst q"] by (simp add: s)
next
  case (8 q xs)
  then show ?case using buf_room_used(2,3) [OF 8(1), of "length xs"]
    by (cases q) (simp add: buf_push_list_def audio_buf_write_head_spec)
next
  case (9 q xs)
  then show ?case using buf_room_used(2,3) [OF 9(1), of "length xs"]
    by (cases q) (simp add: buf_push_list_def audio_buf_write_head_spec)
qed

section \<open>Properties of the audio buffer\<close>

definition demo_buf :: audio_buffer where
  "demo_buf = \<lparr>base = 100, rd = 3, wr = 3, bsize = 4, size_mask = 3, silence = 2, flags = 0, shared_id = 0,
     input_type = 0, input_id = 0, input_element_id = 0, output_type = 0, output_id = 0,
     output_element_id = 0\<rparr>"

lemma demo_buf_simps [simp]:
  "base demo_buf = 100" "rd demo_buf = 3" "wr demo_buf = 3" "bsize demo_buf = 4" "size_mask demo_buf = 3"
  "silence demo_buf = 2" "audio_buf_free demo_buf = 3" "audio_buf_avail demo_buf = 0"
  by (simp_all add: demo_buf_def audio_buf_free_def audio_buf_avail_def)

lemma demo_buf_wf [simp]: "buf_wf demo_buf"
  by (rule buf_wfI [of 2]) (simp_all add: mask_eq_decr_exp)

lemma demo_buf_used [simp]: "buf_used demo_buf = 0"
  using audio_buf_avail_used [OF demo_buf_wf] by simp

lemma demo_buf_contents [simp]: "buf_contents (m, demo_buf) = []"
  by (simp add: buf_contents_def)

text \<open>
  C9. The buffer is a bounded queue: for every sequence of writes and reads that stays within the free
  room and the available samples that \<open>audio_buf_free\<close> and \<open>audio_buf_avail\<close> report at the start, the
  samples read, followed by the samples still stored, are the initial contents followed by the samples
  written, in order and each exactly once; the indices stay inside the storage.
\<close>

theorem audio_buf_fifo:
  assumes "buf_wf b" and "fifo_fits (unat (audio_buf_free b)) (unat (audio_buf_avail b)) ops"
  shows "let (out, s) = fifo_run buf_put_list buf_get_list (m, b) ops in
    out @ buf_contents s = buf_contents (m, b) @ fifo_inputs ops \<and> buf_wf (snd s)"
  using ab.run_fifo [of "(m, b)" ops] assms
  by (simp add: case_prod_beta buf_room_def audio_buf_avail_used)

theorem audio_buf_fifo_witness:
  "let (out, s) = fifo_run buf_put_list buf_get_list (\<lambda>_. Raw 7, demo_buf)
      [Put [Sample (1 :: int), Sample 2], Get 1, Put [Sample 3, Sample 4], Get 3] in
    out @ buf_contents s = [Sample 1, Sample 2, Sample 3, Sample 4] \<and> buf_wf (snd s)"
  using audio_buf_fifo [of demo_buf "[Put [Sample (1 :: int), Sample 2], Get 1, Put [Sample 3, Sample 4], Get 3]"
      "\<lambda>_. Raw 7"] by simp

lemma mask_add_step: "((x AND mask k) + y) AND mask k = (x + y) AND mask k" for x y :: u32
  by (rule mask_eqs(1))

lemma audio_buf_write_straight:
  assumes wf: "buf_wf b" and fit: "unat (wr b) + n \<le> unat (bsize b)"
  shows "i \<le> n \<Longrightarrow> for_upto i (\<lambda>i s. buf_put s (xs ! i)) (m, b) =
    (for_upto i (\<lambda>i m. m(base b + unat (wr b) + i := xs ! i)) m, audio_buf_write_update b (of_nat i))"
proof (induction i)
  case 0
  obtain k where "k < 32" "size_mask b = mask k" "unat (wr b) < 2 ^ k" using wf by (rule buf_wfE)
  then have "wr b AND size_mask b = wr b"
    by (simp add: word_unat_eq_iff [of "wr b AND mask k"] unat_and_mask)
  then show ?case by (simp add: audio_buf_write_update_def)
next
  case (Suc i)
  obtain k where k: "k < 32" "size_mask b = mask k" "unat (bsize b) = 2 ^ k" using wf by (rule buf_wfE)
  have "unat (of_nat i :: u32) = i" using Suc.prems fit buf_wf_bounds [OF wf] by (intro unat32_of_nat) simp
  then have "unat ((wr b + of_nat i) AND size_mask b) = unat (wr b) + i"
    using unat_advance [OF wf refl, of "wr b" "of_nat i"] Suc.prems fit by simp
  then show ?case using Suc k
    by (simp add: buf_put_def audio_buf_write_update_def mask_add_step add.assoc add.commute [of 1]
        fun_upd_def)
qed

text \<open>
  C14. The block interface equals the sample-wise one: when the block does not pass the end of the
  storage, one \<open>__audio_buf_write\<close> of the block followed by one update of the write index leaves
  exactly the memory and the buffer that \<open>audio_buf_write\<close> leaves, which wraps after each sample.
\<close>

theorem audio_buf_write_block_equiv:
  assumes "buf_wf b" and "unat (wr b) + unat len \<le> unat (bsize b)"
  shows "(audio_buf_write_block m b 0 samples len, audio_buf_write_update b len) =
    audio_buf_write (m, b) samples len"
  using audio_buf_write_straight [OF assms order_refl, of samples m]
  by (simp add: audio_buf_write_puts audio_buf_write_block_def audio_memcpy_loop audio_buf_write_addr_def)

theorem audio_buf_write_block_equiv_witness:
  "(audio_buf_write_block (\<lambda>_. Raw 7) (demo_buf\<lparr>wr := 1\<rparr>) 0 [Sample (5 :: int), Sample 6] 2,
     audio_buf_write_update (demo_buf\<lparr>wr := 1\<rparr>) 2) =
   audio_buf_write (\<lambda>_. Raw 7, demo_buf\<lparr>wr := 1\<rparr>) [Sample 5, Sample 6] 2"
proof (rule audio_buf_write_block_equiv)
  show "buf_wf (demo_buf\<lparr>wr := 1\<rparr>)"
    by (rule buf_wfI [of 2]) (simp_all add: mask_eq_decr_exp)
qed simp

text \<open>
  Initialisation with a power-of-two size, and every later reset, leave a well-formed buffer that
  holds the configured number of silent samples, and write nothing outside its storage.
\<close>

theorem audio_buf_init_reset:
  assumes "k < 32" and "unat sz = 2 ^ k" and "unat sil < unat sz"
  shows "let i = audio_buf_init m buf bs sz sil fl sid in
    buf_wf (snd i) \<and> buf_contents i = replicate (unat sil) AUDIO_SAMPLE_SILENCE \<and>
    (\<forall>a. a \<notin> {bs ..< bs + unat sz} \<longrightarrow> fst i a = m a) \<and>
    (\<forall>m' b. buf_wf b \<and> bsize b = sz \<and> silence b = sil \<longrightarrow>
       buf_wf (snd (audio_buf_reset (m', b))) \<and>
       buf_contents (audio_buf_reset (m', b)) = replicate (unat sil) AUDIO_SAMPLE_SILENCE \<and>
       (\<forall>a. a \<notin> buf_range b \<longrightarrow> fst (audio_buf_reset (m', b)) a = m' a))"
proof -
  let ?i = "audio_buf_init m buf bs sz sil fl sid"
  note init = audio_buf_init_spec [OF assms(1-3), where m = m and buf = buf and bs = bs and fl = fl
      and sid = sid]
  have untouched: "\<forall>a. a \<notin> {bs ..< bs + unat sz} \<longrightarrow> fst ?i a = m a" using init(3) by blast
  have reset: "\<forall>m' b. buf_wf b \<and> bsize b = sz \<and> silence b = sil \<longrightarrow>
      buf_wf (snd (audio_buf_reset (m', b))) \<and>
      buf_contents (audio_buf_reset (m', b)) = replicate (unat sil) AUDIO_SAMPLE_SILENCE \<and>
      (\<forall>a. a \<notin> buf_range b \<longrightarrow> fst (audio_buf_reset (m', b)) a = m' a)"
    using audio_buf_reset_spec assms(3) by blast
  show ?thesis unfolding Let_def by (intro conjI init(1,2) untouched reset)
qed

theorem audio_buf_init_reset_witness:
  "buf_contents (audio_buf_init (\<lambda>_. Raw 7) demo_buf 64 8 3 1 5) =
     replicate 3 (Sample (0 :: int))"
  using audio_buf_init_reset [of 3 8 3 "\<lambda>_. Raw 7 :: int cell" demo_buf 64 1 5] by (auto simp: Let_def)

text \<open>
  Samples pushed in front of a buffer with enough room are the next ones read, and reading them
  gives the previous contents back.
\<close>

theorem audio_buf_push_get:
  assumes "buf_wf b" and "length xs \<le> unat (audio_buf_free b)"
  shows "fst (buf_get_list (buf_push_list (m, b) xs) (length xs)) = xs \<and>
    buf_contents (snd (buf_get_list (buf_push_list (m, b) xs) (length xs))) = buf_contents (m, b)"
  using ab.push_get [of "(m, b)" xs] assms by (simp add: buf_room_def)

theorem audio_buf_push_get_witness:
  "let xs = [Sample (1 :: int), Sample 2] in
    fst (buf_get_list (buf_push_list (\<lambda>_. Raw 7, demo_buf) xs) (length xs)) = xs"
  using audio_buf_push_get [of demo_buf "[Sample (1 :: int), Sample 2]" "\<lambda>_. Raw 7"]
  by (simp add: Let_def)

text \<open>
  \<open>audio_buf_full\<close> compares the read index with \<open>write - 1\<close>: it holds for a buffer with exactly one
  stored sample, and fails for every full buffer of more than two places.
\<close>

lemma audio_buf_full_single:
  assumes "buf_wf b"
  shows "audio_buf_full b \<longleftrightarrow> buf_used b = 1 \<and> wr b \<noteq> 0"
proof -
  note bd = buf_wf_bounds [OF assms]
  have pred: "unat (wr b - 1) = unat (wr b) - 1" if "wr b \<noteq> 0"
    using that by (simp add: unat_minus_one)
  have "unat (- 1 :: u32) = 2 ^ 32 - 1" by (simp add: unsigned_minus_1_eq_mask mask_eq_exp_minus_1)
  then have "rd b \<noteq> - 1" using bd by auto
  then have zero: "\<not> audio_buf_full b" if "wr b = 0" using that by (simp add: audio_buf_full_def)
  have "audio_buf_full b \<longleftrightarrow> Suc (unat (rd b)) = unat (wr b)" if "wr b \<noteq> 0"
    using that pred by (auto simp: audio_buf_full_def word_unat_eq_iff unat_gt_0 [symmetric])
  moreover have "buf_used b = 1 \<longleftrightarrow> Suc (unat (rd b)) = unat (wr b)" if "wr b \<noteq> 0"
  proof
    assume "buf_used b = 1"
    then have "Suc (unat (rd b)) mod unat (bsize b) = unat (wr b)"
      using ring_used_mod [OF bd(1,2)] by (simp add: buf_used_def)
    with that bd show "Suc (unat (rd b)) = unat (wr b)"
      by (metis Suc_lessI mod_less mod_self unat_eq_zero)
  next
    assume "Suc (unat (rd b)) = unat (wr b)"
    then show "buf_used b = 1" using bd unfolding buf_used_def by (intro ring_used_unique) simp_all
  qed
  ultimately show ?thesis using zero by blast
qed

lemma audio_buf_full_misses_full:
  "buf_wf b \<Longrightarrow> audio_buf_free b = 0 \<Longrightarrow> 2 < unat (bsize b) \<Longrightarrow> \<not> audio_buf_full b"
  using audio_buf_full_single [of b] audio_buf_free_room [of b] by simp

end
