(* ===== verification/Stats.thy ===== *)
theory Stats
  imports Prelude
begin

text \<open>
  The statistics component, \<open>stats/stats.c\<close> and \<open>rtos_apps/stats.h\<close>: running minimum, maximum,
  mean and mean square of signed samples over a window of \<open>2 ^ log2_size\<close> samples, and a histogram
  with a fixed array of slots.
\<close>

section \<open>Running statistics\<close>

text \<open>
  \<open>struct rtos_apps_stats\<close>. The callback \<open>func\<close> is a function pointer: here its identity, with
  the functions it can stand for an argument \<open>cb\<close> of the operations that call it.
\<close>

record rtos_apps_stats =
  log2_size :: u32
  current_count :: u32
  current_min :: s32
  current_max :: s32
  current_mean :: s64
  current_ms :: u64
  st_min :: s32
  st_max :: s32
  st_mean :: s32
  st_ms :: u64
  st_variance :: u64
  abs_min :: s32
  abs_max :: s32
  st_name :: string
  st_func :: "nat option"

definition stats_zeroed :: rtos_apps_stats where
  "stats_zeroed = \<lparr>log2_size = 0, current_count = 0, current_min = 0, current_max = 0, current_mean = 0,
     current_ms = 0, st_min = 0, st_max = 0, st_mean = 0, st_ms = 0, st_variance = 0, abs_min = 0, abs_max = 0,
     st_name = [], st_func = None\<rparr>"

definition rtos_apps_stats_reset :: "rtos_apps_stats \<Rightarrow> rtos_apps_stats" where
  "rtos_apps_stats_reset s =
     s\<lparr>current_count := 0, current_min := 0x7fffffff, current_mean := 0,
       current_max := - 0x7fffffff, current_ms := 0\<rparr>"

definition rtos_apps_stats_init ::
  "rtos_apps_stats \<Rightarrow> u32 \<Rightarrow> string \<Rightarrow> nat option \<Rightarrow> rtos_apps_stats" where
  "rtos_apps_stats_init s log2 name func =
     rtos_apps_stats_reset
       (s\<lparr>log2_size := log2, st_name := name, st_func := func,
          abs_min := 0x7fffffff, abs_max := - 0x7fffffff\<rparr>)"

text \<open>
  \<open>rtos_apps_stats_update\<close>: the accumulation first, then the snapshot when the window is full.
\<close>

definition stats_accumulate :: "rtos_apps_stats \<Rightarrow> s32 \<Rightarrow> rtos_apps_stats" where
  "stats_accumulate s0 val =
     (let s = s0\<lparr>current_count := current_count s0 + 1\<rparr>;
          s = s\<lparr>current_mean := current_mean s + scast val\<rparr>;
          s = s\<lparr>current_ms := current_ms s + scast val * scast val\<rparr>;
          s = (if sint val < sint (current_min s)
               then (let s' = s\<lparr>current_min := val\<rparr> in
                     if sint val < sint (abs_min s') then s'\<lparr>abs_min := val\<rparr> else s')
               else s)
      in if sint val > sint (current_max s)
         then (let s' = s\<lparr>current_max := val\<rparr> in
               if sint val > sint (abs_max s') then s'\<lparr>abs_max := val\<rparr> else s')
         else s)"

definition stats_snapshot :: "rtos_apps_stats \<Rightarrow> rtos_apps_stats" where
  "stats_snapshot s0 =
     (let s = s0\<lparr>st_ms := drop_bit (unat (log2_size s0)) (current_ms s0)\<rparr>;
          s = s\<lparr>st_variance := st_ms s
                 - signed_drop_bit (unat (2 * log2_size s)) (current_mean s * current_mean s)\<rparr>;
          s = s\<lparr>st_mean := ucast (signed_drop_bit (unat (log2_size s)) (current_mean s))\<rparr>
      in s\<lparr>st_min := current_min s, st_max := current_max s\<rparr>)"

definition rtos_apps_stats_update ::
  "(nat \<Rightarrow> rtos_apps_stats \<Rightarrow> rtos_apps_stats) \<Rightarrow> rtos_apps_stats \<Rightarrow> s32 \<Rightarrow> rtos_apps_stats" where
  "rtos_apps_stats_update cb s0 val =
     (let s = stats_accumulate s0 val in
      if current_count s = push_bit (unat (log2_size s)) 1
      then (let s = stats_snapshot s;
                s = (case st_func s of None \<Rightarrow> s | Some f \<Rightarrow> cb f s)
            in rtos_apps_stats_reset s)
      else s)"

text \<open>
  \<open>rtos_apps_stats_compute\<close>: the snapshot of an unfinished window. Its divisions are C's: the
  mean square divides unsigned 64-bit values, the mean and its square divide signed ones.
\<close>

definition rtos_apps_stats_compute :: "rtos_apps_stats \<Rightarrow> rtos_apps_stats" where
  "rtos_apps_stats_compute s0 =
     (let s = (if current_count s0 \<noteq> 0
               then (let n = uint (current_count s0);
                         s = s0\<lparr>st_ms := current_ms s0 div ucast (current_count s0)\<rparr>;
                         s = s\<lparr>st_variance := st_ms s
                               - word_of_int (sint (current_mean s * current_mean s) sdiv
                                   sint ((ucast (current_count s) :: s64) * ucast (current_count s)))\<rparr>
                     in s\<lparr>st_mean := word_of_int (sint (current_mean s) sdiv n)\<rparr>)
               else s0\<lparr>st_mean := 0, st_ms := 0, st_variance := 0\<rparr>)
      in s\<lparr>st_min := current_min s, st_max := current_max s\<rparr>)"


section \<open>What the accumulators hold\<close>

text \<open>
  \<open>stats_tracks s xs\<close>: the accumulators of \<open>s\<close> summarise the samples \<open>xs\<close> of the current window.
  The sums are exact modulo the width of their fields, whatever the samples.
\<close>

definition samples_min :: "s32 list \<Rightarrow> int" where
  "samples_min xs = foldl min 0x7fffffff (map sint xs)"

definition samples_max :: "s32 list \<Rightarrow> int" where
  "samples_max xs = foldl max (- 0x7fffffff) (map sint xs)"

definition samples_sum :: "s32 list \<Rightarrow> int" where
  "samples_sum xs = sum_list (map sint xs)"

definition samples_sumsq :: "s32 list \<Rightarrow> int" where
  "samples_sumsq xs = sum_list (map (\<lambda>x. sint x * sint x) xs)"

lemmas samples_defs = samples_min_def samples_max_def samples_sum_def samples_sumsq_def

lemma samples_Nil [simp]:
  "samples_min [] = 0x7fffffff" "samples_max [] = - 0x7fffffff"
  "samples_sum [] = 0" "samples_sumsq [] = 0"
  by (simp_all add: samples_defs)

lemma samples_snoc [simp]:
  "samples_min (xs @ [x]) = min (samples_min xs) (sint x)"
  "samples_max (xs @ [x]) = max (samples_max xs) (sint x)"
  "samples_sum (xs @ [x]) = samples_sum xs + sint x"
  "samples_sumsq (xs @ [x]) = samples_sumsq xs + sint x * sint x"
  by (simp_all add: samples_defs)

definition stats_tracks :: "rtos_apps_stats \<Rightarrow> s32 list \<Rightarrow> bool" where
  "stats_tracks s xs \<longleftrightarrow>
     current_count s = of_nat (length xs) \<and>
     current_mean s = word_of_int (samples_sum xs) \<and>
     current_ms s = word_of_int (samples_sumsq xs) \<and>
     sint (current_min s) = samples_min xs \<and>
     sint (current_max s) = samples_max xs"

lemma stats_tracks_reset [simp]: "stats_tracks (rtos_apps_stats_reset s) []"
  by (simp add: stats_tracks_def rtos_apps_stats_reset_def)

lemma stats_accumulate_tracks:
  "stats_tracks s xs \<Longrightarrow> stats_tracks (stats_accumulate s v) (xs @ [v])"
  by (simp add: stats_tracks_def stats_accumulate_def Let_def)

lemma stats_accumulate_frame [simp]:
  "log2_size (stats_accumulate s v) = log2_size s"
  "st_func (stats_accumulate s v) = st_func s"
  by (simp_all add: stats_accumulate_def Let_def)

lemma stats_snapshot_frame [simp]:
  "log2_size (stats_snapshot s) = log2_size s"
  "st_func (stats_snapshot s) = st_func s"
  "abs_min (stats_snapshot s) = abs_min s"
  "abs_max (stats_snapshot s) = abs_max s"
  "current_min (stats_snapshot s) = current_min s"
  "current_max (stats_snapshot s) = current_max s"
  by (simp_all add: stats_snapshot_def Let_def)

lemma stats_reset_frame [simp]:
  "log2_size (rtos_apps_stats_reset s) = log2_size s"
  "st_func (rtos_apps_stats_reset s) = st_func s"
  "abs_min (rtos_apps_stats_reset s) = abs_min s"
  "abs_max (rtos_apps_stats_reset s) = abs_max s"
  "st_min (rtos_apps_stats_reset s) = st_min s"
  "st_max (rtos_apps_stats_reset s) = st_max s"
  "st_mean (rtos_apps_stats_reset s) = st_mean s"
  "st_ms (rtos_apps_stats_reset s) = st_ms s"
  "st_variance (rtos_apps_stats_reset s) = st_variance s"
  "current_count (rtos_apps_stats_reset s) = 0"
  by (simp_all add: rtos_apps_stats_reset_def)

subsection \<open>Arithmetic of the sums\<close>

lemma samples_sum_bounds:
  "- (2 ^ 31) * int (length xs) \<le> samples_sum xs"
  "samples_sum xs \<le> (2 ^ 31 - 1) * int (length xs)"
proof -
  have "\<forall>x \<in> set (map sint xs). - (2 ^ 31) \<le> x \<and> x \<le> 2 ^ 31 - 1"
  proof
    fix y assume "y \<in> set (map sint xs)"
    then obtain x :: s32 where "y = sint x" by auto
    with sint32_range [of x] show "- (2 ^ 31) \<le> y \<and> y \<le> 2 ^ 31 - 1" by simp
  qed
  from sum_list_bounded [OF this]
  show "- (2 ^ 31) * int (length xs) \<le> samples_sum xs"
    "samples_sum xs \<le> (2 ^ 31 - 1) * int (length xs)"
    by (simp_all add: samples_sum_def)
qed

lemma samples_sumsq_nonneg [simp]: "0 \<le> samples_sumsq xs"
  unfolding samples_sumsq_def by (rule sum_list_nonneg) auto

lemma samples_cauchy_schwarz:
  "samples_sum xs * samples_sum xs \<le> int (length xs) * samples_sumsq xs"
proof (induction xs rule: rev_induct)
  case (snoc x xs)
  let ?S = "samples_sum xs" and ?Q = "samples_sumsq xs" and ?n = "int (length xs)" and ?x = "sint x"
  have "2 * ?x * ?S \<le> ?n * (?x * ?x) + ?Q"
  proof (cases "xs = []")
    case False
    then have n: "0 < ?n" by simp
    have "0 \<le> (?S - ?n * ?x) * (?S - ?n * ?x)" by simp
    then have "2 * ?n * ?x * ?S \<le> ?n * ?n * (?x * ?x) + ?S * ?S"
      by (simp add: algebra_simps)
    also have "\<dots> \<le> ?n * ?n * (?x * ?x) + ?n * ?Q" using snoc.IH by simp
    finally have "?n * (2 * ?x * ?S) \<le> ?n * (?n * (?x * ?x) + ?Q)"
      by (simp add: algebra_simps)
    with n show ?thesis by simp
  qed simp
  with snoc.IH show ?case by (simp add: algebra_simps)
qed simp

lemma foldl_min_eq: "foldl min (a :: int) xs = Min (insert a (set xs))"
proof (induction xs rule: rev_induct)
  case (snoc x xs)
  have "Min (insert a (insert x (set xs))) = min x (Min (insert a (set xs)))"
    by (subst insert_commute) (rule Min_insert, auto)
  with snoc show ?case by (simp add: min.commute)
qed simp

lemma foldl_max_eq: "foldl max (a :: int) xs = Max (insert a (set xs))"
proof (induction xs rule: rev_induct)
  case (snoc x xs)
  have "Max (insert a (insert x (set xs))) = max x (Max (insert a (set xs)))"
    by (subst insert_commute) (rule Max_insert, auto)
  with snoc show ?case by (simp add: max.commute)
qed simp

lemma samples_min_Min: "xs \<noteq> [] \<Longrightarrow> samples_min xs = Min (sint ` set xs)"
proof -
  assume "xs \<noteq> []"
  then obtain x where "x \<in> set xs" by (cases xs) auto
  then have "Min (sint ` set xs) \<le> sint x" by simp
  also have "\<dots> \<le> 0x7fffffff" using sint32_range [of x] by simp
  finally show ?thesis using \<open>xs \<noteq> []\<close>
    by (simp add: samples_min_def foldl_min_eq min_absorb2 del: Min_le_iff)
qed

text \<open>
  The maximum starts from \<open>-0x7fffffff\<close>, one above the least 32-bit integer: it is the largest sample unless every sample is
  that least integer.
\<close>

lemma samples_max_Max:
  "samples_max xs = (if set xs \<subseteq> {0x80000000} then - 0x7fffffff else Max (sint ` set xs))"
proof (cases "set xs \<subseteq> {0x80000000}")
  case True
  then have "sint ` set xs \<subseteq> {- (2 ^ 31)}" by (auto simp: image_subset_iff)
  then have "Max (insert (- 0x7fffffff) (sint ` set xs)) = - 0x7fffffff" by (intro Max_eqI) auto
  then show ?thesis using True by (simp add: samples_max_def foldl_max_eq del: Max_insert)
next
  case False
  then obtain x where x: "x \<in> set xs" "x \<noteq> 0x80000000" by auto
  have "sint x \<noteq> - (2 ^ 31)"
  proof
    assume "sint x = - (2 ^ 31)"
    then have "sint x = sint (0x80000000 :: s32)" by simp
    then show False using x(2) signed_word_eqI by blast
  qed
  then have "- 0x7fffffff \<le> sint x" using sint32_range [of x] by simp
  also have "\<dots> \<le> Max (sint ` set xs)" using x(1) by simp
  finally have "max (- 0x7fffffff) (Max (sint ` set xs)) = Max (sint ` set xs)" by simp
  moreover have "xs \<noteq> []" using x(1) by auto
  ultimately show ?thesis using False by (simp add: samples_max_def foldl_max_eq)
qed


subsection \<open>A window of samples\<close>

definition stats_run ::
  "(nat \<Rightarrow> rtos_apps_stats \<Rightarrow> rtos_apps_stats) \<Rightarrow> rtos_apps_stats \<Rightarrow> s32 list \<Rightarrow> rtos_apps_stats" where
  "stats_run cb s xs = foldl (rtos_apps_stats_update cb) s xs"

lemma stats_run_simps [simp]:
  "stats_run cb s [] = s"
  "stats_run cb s (x # xs) = stats_run cb (rtos_apps_stats_update cb s x) xs"
  "stats_run cb s (xs @ ys) = stats_run cb (stats_run cb s xs) ys"
  by (simp_all add: stats_run_def)

lemma count_reaches_window:
  assumes "k \<le> 31" and "n \<le> 2 ^ k"
  shows "(of_nat n :: u32) = push_bit k 1 \<longleftrightarrow> n = 2 ^ k"
proof -
  have "(2::nat) ^ k \<le> 2 ^ 31" using assms(1) by (rule power_increasing) simp
  with assms(2) have n: "n < 2 ^ 32" "(2::nat) ^ k < 2 ^ 32" by simp_all
  have "(push_bit k 1 :: u32) = of_nat (2 ^ k)" by (simp add: push_bit_eq_mult)
  then show ?thesis using n by (metis unat32_of_nat)
qed

lemma stats_update_open:
  assumes "stats_tracks s ys" and "unat (log2_size s) = k" "k \<le> 31" and "Suc (length ys) < 2 ^ k"
  shows "rtos_apps_stats_update cb s v = stats_accumulate s v"
proof -
  have "current_count (stats_accumulate s v) = of_nat (Suc (length ys))"
    using stats_accumulate_tracks [OF assms(1), of v] by (simp add: stats_tracks_def)
  then show ?thesis
    using count_reaches_window [OF assms(3), of "Suc (length ys)"] assms(2,4)
    by (simp add: rtos_apps_stats_update_def Let_def del: of_nat_Suc)
qed

lemma stats_update_close:
  assumes "stats_tracks s ys" and "unat (log2_size s) = k" "k \<le> 31" and "Suc (length ys) = 2 ^ k"
    and "\<And>f u. cb f u = u"
  shows "rtos_apps_stats_update cb s v = rtos_apps_stats_reset (stats_snapshot (stats_accumulate s v))"
proof -
  have "current_count (stats_accumulate s v) = of_nat (Suc (length ys))"
    using stats_accumulate_tracks [OF assms(1), of v] by (simp add: stats_tracks_def)
  then show ?thesis
    using count_reaches_window [OF assms(3), of "Suc (length ys)"] assms(2,4,5)
    by (simp add: rtos_apps_stats_update_def Let_def del: of_nat_Suc split: option.split)
qed

lemma stats_run_open:
  assumes "unat (log2_size s) = k" "k \<le> 31" and "length xs < 2 ^ k"
  shows "stats_run cb (rtos_apps_stats_reset s) xs = foldl stats_accumulate (rtos_apps_stats_reset s) xs
    \<and> stats_tracks (foldl stats_accumulate (rtos_apps_stats_reset s) xs) xs
    \<and> log2_size (foldl stats_accumulate (rtos_apps_stats_reset s) xs) = log2_size s
    \<and> st_func (foldl stats_accumulate (rtos_apps_stats_reset s) xs) = st_func s"
  using assms(3)
proof (induction xs rule: rev_induct)
  case (snoc x xs)
  then show ?case
    using stats_update_open [of "foldl stats_accumulate (rtos_apps_stats_reset s) xs" xs k cb x] assms(1,2)
    by (simp add: stats_accumulate_tracks)
qed simp

lemma stats_run_window:
  assumes "unat (log2_size s) = k" "k \<le> 31" and "\<And>f u. cb f u = u" and "length xs = 2 ^ k"
  obtains t where "stats_tracks t xs" and "log2_size t = log2_size s"
    and "stats_run cb (rtos_apps_stats_reset s) xs = rtos_apps_stats_reset (stats_snapshot t)"
proof -
  have "xs \<noteq> []" using assms(4) by auto
  then obtain ys y where xs: "xs = ys @ [y]" by (metis append_butlast_last_id)
  let ?t = "foldl stats_accumulate (rtos_apps_stats_reset s) ys"
  have ys: "Suc (length ys) = 2 ^ k" using assms(4) xs by simp
  then have run: "stats_run cb (rtos_apps_stats_reset s) ys = ?t" "stats_tracks ?t ys"
    "log2_size ?t = log2_size s" "st_func ?t = st_func s"
    using stats_run_open [of s k ys cb] assms(1,2) by simp_all
  show thesis
  proof (rule that [of "stats_accumulate ?t y"])
    show "stats_run cb (rtos_apps_stats_reset s) xs =
      rtos_apps_stats_reset (stats_snapshot (stats_accumulate ?t y))"
      using stats_update_close [of ?t ys k cb y] run assms(1-3) ys xs by simp
  qed (use run xs in \<open>simp_all add: stats_accumulate_tracks\<close>)
qed

lemma samples_sum_int64:
  assumes "length xs \<le> 2 ^ 32"
  shows "int64_range (samples_sum xs)"
proof -
  have "int (length xs) \<le> 2 ^ 32" using assms by simp
  with samples_sum_bounds [of xs] show ?thesis by simp
qed

lemma stats_snapshot_exact:
  assumes t: "stats_tracks t xs" and k: "unat (log2_size t) = k" "k \<le> 31" and len: "length xs = 2 ^ k"
  shows "sint (st_min (stats_snapshot t)) = Min (sint ` set xs)"
    and "sint (st_max (stats_snapshot t)) = (if set xs = {0x80000000} then - 0x7fffffff else Max (sint ` set xs))"
    and "sint (st_mean (stats_snapshot t)) = samples_sum xs div 2 ^ k"
    and "samples_sumsq xs < 2 ^ 64 \<Longrightarrow> uint (st_ms (stats_snapshot t)) = samples_sumsq xs div 2 ^ k"
proof -
  have "xs \<noteq> []" using len by auto
  then show "sint (st_min (stats_snapshot t)) = Min (sint ` set xs)"
    "sint (st_max (stats_snapshot t)) = (if set xs = {0x80000000} then - 0x7fffffff else Max (sint ` set xs))"
    using t by (simp_all add: subset_singleton_iff stats_snapshot_def Let_def stats_tracks_def samples_min_Min samples_max_Max)
  show "uint (st_ms (stats_snapshot t)) = samples_sumsq xs div 2 ^ k" if "samples_sumsq xs < 2 ^ 64"
    using t k that
    by (simp add: stats_snapshot_def Let_def stats_tracks_def uint64_of_int c_word
        del: drop_bit_eq_div)
  have "(2::nat) ^ k \<le> 2 ^ 31" using k(2) by (rule power_increasing) simp
  then have "int64_range (samples_sum xs)" using samples_sum_int64 [of xs] len by simp
  then have s: "sint (current_mean t) = samples_sum xs"
    using t sint64_of_int by (simp add: stats_tracks_def)
  have "int32_range (samples_sum xs div 2 ^ k)"
  proof -
    have p: "(0::int) < 2 ^ k" "int (length xs) = 2 ^ k" using len by simp_all
    have lo: "- (2 ^ 31) \<le> samples_sum xs div 2 ^ k"
      using samples_sum_bounds(1) [of xs] p by (intro le_div_intI) simp_all
    have "samples_sum xs div 2 ^ k \<le> 2 ^ 31 - 1"
      using samples_sum_bounds(2) [of xs] p by (intro div_le_intI) simp_all
    with lo show ?thesis by simp
  qed
  moreover have "ucast (signed_drop_bit k (current_mean t)) =
      (word_of_int (samples_sum xs div 2 ^ k) :: s32)"
    by (simp add: ucast_64_32_sint sint_signed_drop_bit_eq drop_bit_eq_div s)
  ultimately show "sint (st_mean (stats_snapshot t)) = samples_sum xs div 2 ^ k"
    using k sint32_of_int by (simp add: stats_snapshot_def Let_def)
qed


lemma unat_double_u32: "unat x \<le> 31 \<Longrightarrow> unat (2 * x :: u32) = 2 * unat x"
  by (simp add: unat_word_ariths)

lemma stats_variance_bound:
  "length xs = 2 ^ k \<Longrightarrow> (samples_sum xs * samples_sum xs) div (2 ^ k * 2 ^ k) \<le> samples_sumsq xs div 2 ^ k"
proof -
  assume len: "length xs = 2 ^ k"
  have "(samples_sum xs * samples_sum xs) div (2 ^ k * 2 ^ k) \<le>
      (samples_sumsq xs * 2 ^ k) div (2 ^ k * 2 ^ k)"
    using samples_cauchy_schwarz [of xs] len by (intro zdiv_mono1) (simp_all add: mult.commute)
  also have "\<dots> = samples_sumsq xs div 2 ^ k" by (rule div_mult_mult2) simp
  finally show ?thesis .
qed

lemma stats_snapshot_variance:
  assumes t: "stats_tracks t xs" and k: "unat (log2_size t) = k" "k \<le> 31" and len: "length xs = 2 ^ k"
    and Q: "samples_sumsq xs < 2 ^ 64" and S: "samples_sum xs * samples_sum xs < 2 ^ 63"
  shows "uint (st_variance (stats_snapshot t)) =
    samples_sumsq xs div 2 ^ k - (samples_sum xs * samples_sum xs) div (2 ^ k * 2 ^ k)"
proof -
  let ?S2 = "samples_sum xs * samples_sum xs" and ?ms = "samples_sumsq xs div 2 ^ k"
  let ?d = "?S2 div (2 ^ k * 2 ^ k)"
  have s2: "sint (current_mean t * current_mean t) = ?S2"
    using t S sint64_square by (simp add: stats_tracks_def)
  have sh: "sint (signed_drop_bit (2 * k) (current_mean t * current_mean t)) = ?d"
    by (simp add: sint_signed_drop_bit_eq s2 drop_bit_eq_div power_add mult_2)
  have "signed_drop_bit (2 * k) (current_mean t * current_mean t) =
      word_of_int (sint (signed_drop_bit (2 * k) (current_mean t * current_mean t)))" by simp
  also note sh
  finally have "signed_drop_bit (2 * k) (current_mean t * current_mean t) = word_of_int ?d" .
  moreover have "drop_bit k (current_ms t) = (word_of_int ?ms :: u64)"
  proof -
    have "uint (drop_bit k (current_ms t)) = ?ms"
      using t Q by (simp only: stats_tracks_def c_word samples_sumsq_nonneg)
    then show ?thesis by (rule word_eq_of_uint)
  qed
  ultimately have "st_variance (stats_snapshot t) = word_of_int (?ms - ?d)"
    using k by (simp add: stats_snapshot_def Let_def unat_double_u32)
  moreover have "0 \<le> ?ms - ?d" using stats_variance_bound [OF len] by simp
  moreover have "?ms - ?d < 2 ^ 64"
  proof -
    have "0 \<le> ?d" by (simp add: pos_imp_zdiv_nonneg_iff)
    moreover have "?ms \<le> samples_sumsq xs" using mult_left_mono [of 1 "2 ^ k" "samples_sumsq xs"] by (intro div_le_intI) simp_all
    ultimately show ?thesis using Q by linarith
  qed
  ultimately show ?thesis by (simp only: uint64_of_int)
qed

section \<open>Properties of the statistics\<close>

text \<open>
  C13. A window of exactly \<open>2 ^ log2_size\<close> samples publishes its indicators and leaves the accumulators empty; a callback that only
  reads them, as \<open>rtos_apps_stats_print\<close>, changes nothing. The minimum is the smallest sample and the mean is rounded towards minus infinity.
  The maximum is the largest sample, unless every sample is \<open>INT32_MIN\<close>, which the code reports as \<open>-0x7fffffff\<close>. The mean of the squares is
  exact when their sum fits its 64 bits, and then the variance too when the square of the sum fits 63.
\<close>

theorem stats_window_exact:
  assumes "unat (log2_size s) \<le> 31" and "length xs = 2 ^ unat (log2_size s)"
  shows "let t = stats_run (\<lambda>_ u. u) (rtos_apps_stats_reset s) xs; n = 2 ^ unat (log2_size s); S = samples_sum xs; Q = samples_sumsq xs in
    sint (st_min t) = Min (sint ` set xs) \<and>
    sint (st_max t) = (if set xs = {0x80000000} then - 0x7fffffff else Max (sint ` set xs)) \<and>
    sint (st_mean t) = S div n \<and>
    (Q < 2 ^ 64 \<longrightarrow> uint (st_ms t) = Q div n) \<and>
    (Q < 2 ^ 64 \<and> S * S < 2 ^ 63 \<longrightarrow> uint (st_variance t) = Q div n - (S * S) div (n * n)) \<and>
    stats_tracks t []"
proof -
  let ?k = "unat (log2_size s)" and ?S = "samples_sum xs" and ?Q = "samples_sumsq xs"
  obtain t where t: "stats_tracks t xs" "log2_size t = log2_size s"
    "stats_run (\<lambda>_ u. u) (rtos_apps_stats_reset s) xs = rtos_apps_stats_reset (stats_snapshot t)"
    using stats_run_window [of s ?k "\<lambda>_ u. u" xs] assms by blast
  note ex = stats_snapshot_exact [OF t(1), of ?k, unfolded t(2), OF refl assms]
  have "uint (st_variance (stats_snapshot t)) = ?Q div 2 ^ ?k - (?S * ?S) div (2 ^ ?k * 2 ^ ?k)" if "?Q < 2 ^ 64" "?S * ?S < 2 ^ 63"
    by (rule stats_snapshot_variance [OF t(1)]) (use t(2) assms that in simp_all)
  then show ?thesis unfolding Let_def t(3) using ex by simp
qed

text \<open>A window of two samples, \<open>-3\<close> and \<open>6\<close>.\<close>

definition two_sample_stats :: rtos_apps_stats where
  "two_sample_stats = rtos_apps_stats_init
     \<lparr>log2_size = 0, current_count = 0, current_min = 0, current_max = 0, current_mean = 0,
      current_ms = 0, st_min = 0, st_max = 0, st_mean = 0, st_ms = 0, st_variance = 0,
      abs_min = 0, abs_max = 0, st_name = [], st_func = None\<rparr> 1 ''demo'' None"

lemma two_sample_stats_simps [simp]:
  "log2_size two_sample_stats = 1" "st_func two_sample_stats = None"
  by (simp_all add: two_sample_stats_def rtos_apps_stats_init_def)

lemma two_samples [simp]:
  "samples_sumsq [-3, 6] = 45" "samples_sum [-3, 6] = 3"
  by (simp_all add: samples_defs)

theorem stats_window_exact_witness:
  "let t = stats_run (\<lambda>_ s. s) (rtos_apps_stats_reset two_sample_stats) [-3, 6] in
    sint (st_min t) = -3 \<and> sint (st_max t) = 6 \<and> sint (st_mean t) = 1 \<and>
    uint (st_ms t) = 22 \<and> uint (st_variance t) = 20"
proof -
  have "set [-3, 6] \<noteq> {0x80000000 :: s32}" by simp
  then show ?thesis using stats_window_exact [of two_sample_stats "[-3, 6]"] by (simp add: Let_def)
qed

definition abs_tracks :: "rtos_apps_stats \<Rightarrow> s32 list \<Rightarrow> bool" where
  "abs_tracks s xs \<longleftrightarrow>
     sint (abs_min s) = samples_min xs \<and> sint (abs_max s) = samples_max xs \<and>
     sint (abs_min s) \<le> sint (current_min s) \<and> sint (current_max s) \<le> sint (abs_max s)"

lemma samples_sentinels: "samples_min xs \<le> 0x7fffffff" "- 0x7fffffff \<le> samples_max xs"
  by (induction xs rule: rev_induct) simp_all

lemma abs_tracks_accumulate: "abs_tracks s xs \<Longrightarrow> abs_tracks (stats_accumulate s v) (xs @ [v])"
  by (auto simp: abs_tracks_def stats_accumulate_def Let_def)

lemma abs_tracks_snapshot [simp]: "abs_tracks (stats_snapshot s) xs \<longleftrightarrow> abs_tracks s xs"
  by (simp add: abs_tracks_def)

lemma abs_tracks_reset: "abs_tracks s xs \<Longrightarrow> abs_tracks (rtos_apps_stats_reset s) xs"
  using samples_sentinels [of xs] by (simp add: abs_tracks_def rtos_apps_stats_reset_def)

lemma abs_tracks_update:
  "abs_tracks s xs \<Longrightarrow> abs_tracks (rtos_apps_stats_update (\<lambda>_ u. u) s v) (xs @ [v])"
  by (simp add: rtos_apps_stats_update_def Let_def abs_tracks_accumulate abs_tracks_reset split: option.split)

text \<open>
  C15. The absolute extrema survive every window: after any sequence of updates, whatever the window size, however many windows were
  published and reset, and with any callback that only reads, \<open>abs_min\<close> is the smallest sample since the initialisation and \<open>abs_max\<close> the
  largest one. Before the first sample, and for the maximum as long as all samples are \<open>INT32_MIN\<close>, they are the values they start from.
\<close>

theorem stats_abs_extrema:
  "let t = stats_run (\<lambda>_ u. u) (rtos_apps_stats_init s log2 name func) xs in
    sint (abs_min t) = (if xs = [] then 0x7fffffff else Min (sint ` set xs)) \<and>
    sint (abs_max t) = (if set xs \<subseteq> {0x80000000} then - 0x7fffffff else Max (sint ` set xs))"
proof -
  let ?s = "rtos_apps_stats_init s log2 name func"
  have "abs_tracks (stats_run (\<lambda>_ u. u) ?s xs) xs"
  proof (induction xs rule: rev_induct)
    case Nil
    show ?case by (simp add: abs_tracks_def rtos_apps_stats_init_def rtos_apps_stats_reset_def)
  next
    case (snoc x xs)
    then show ?case using abs_tracks_update [of _ xs x] by simp
  qed
  then show ?thesis using samples_min_Min [of xs] samples_max_Max [of xs] by (simp add: Let_def abs_tracks_def)
qed

lemma count_square:
  assumes "uint (c :: u32) = n" and "n \<le> 2 ^ 31"
  shows "sint ((ucast c :: s64) * ucast c) = n * n"
proof -
  have "ucast c = (word_of_int n :: s64)" using assms(1) by auto
  moreover have "n * n \<le> 2 ^ 31 * 2 ^ 31" using assms by (intro mult_mono) auto
  ultimately show ?thesis using sint64_square [of n] by simp
qed

lemma variance_range:
  assumes "xs \<noteq> []" and Q: "samples_sumsq xs < 2 ^ 64"
  defines "n \<equiv> int (length xs)" and "S \<equiv> samples_sum xs"
  shows "0 \<le> samples_sumsq xs div n - (S * S) div (n * n)"
    and "samples_sumsq xs div n - (S * S) div (n * n) < 2 ^ 64"
proof -
  have n: "0 < n" using assms(1) by (simp add: n_def)
  have "(S * S) div (n * n) \<le> (samples_sumsq xs * n) div (n * n)"
    using samples_cauchy_schwarz [of xs] n
    by (intro zdiv_mono1) (simp_all add: n_def S_def mult.commute)
  also have "\<dots> = samples_sumsq xs div n" using n by (intro div_mult_mult2) simp
  finally show "0 \<le> samples_sumsq xs div n - (S * S) div (n * n)" by simp
  have "0 \<le> (S * S) div (n * n)" using n by (simp add: pos_imp_zdiv_nonneg_iff)
  moreover have "samples_sumsq xs div n \<le> samples_sumsq xs"
    using n mult_left_mono [of 1 n "samples_sumsq xs"] by (intro div_le_intI) simp_all
  ultimately show "samples_sumsq xs div n - (S * S) div (n * n) < 2 ^ 64" using Q by linarith
qed

lemma mean_int32:
  assumes "xs \<noteq> []"
  shows "int32_range (samples_sum xs sdiv int (length xs))"
proof -
  let ?n = "int (length xs)"
  have n: "0 < ?n" using assms by simp
  have "\<bar>samples_sum xs\<bar> div ?n \<le> 2 ^ 31"
    using samples_sum_bounds [of xs] n by (intro div_le_intI) auto
  moreover have "samples_sum xs div ?n \<le> 2 ^ 31 - 1"
    using samples_sum_bounds(2) [of xs] n by (intro div_le_intI) auto
  moreover have "0 \<le> \<bar>samples_sum xs\<bar> div ?n" using n by (simp add: pos_imp_zdiv_nonneg_iff)
  ultimately show ?thesis
    by (cases "samples_sum xs" "0 :: int" rule: linorder_cases) (simp_all add: signed_divide_int_def)
qed

text \<open>
  \<open>rtos_apps_stats_compute\<close> on an unfinished window of \<open>n\<close> samples: exact extrema, the mean
  truncated towards zero, the mean square and the variance, which never wraps below zero, as long
  as the square of the sum fits the signed 64-bit product the code computes.
\<close>

theorem stats_compute_exact:
  assumes t: "stats_tracks s xs" and len: "xs \<noteq> []" "length xs \<le> 2 ^ 31"
    and Q: "samples_sumsq xs < 2 ^ 64" and S: "samples_sum xs * samples_sum xs < 2 ^ 63"
  shows "let t = rtos_apps_stats_compute s; n = int (length xs); S = samples_sum xs in
    sint (st_min t) = Min (sint ` set xs) \<and>
    sint (st_mean t) = S sdiv n \<and>
    uint (st_ms t) = samples_sumsq xs div n \<and>
    uint (st_variance t) = samples_sumsq xs div n - (S * S) div (n * n)"
proof -
  let ?n = "int (length xs)" and ?S = "samples_sum xs" and ?Q = "samples_sumsq xs"
  have n: "0 < ?n" "?n \<le> 2 ^ 31" using len by simp_all
  have cnt: "uint (current_count s) = ?n"
    using t n uint32_of_nat [of "length xs"] by (simp add: stats_tracks_def)
  then have nz: "current_count s \<noteq> 0" using n by auto
  have nn: "sint ((ucast (current_count s) :: s64) * ucast (current_count s)) = ?n * ?n"
    using count_square [OF cnt n(2)] .
  have S_range: "int64_range ?S" using samples_sum_int64 [of xs] len by simp
  have s: "sint (current_mean s) = ?S" "sint (current_mean s * current_mean s) = ?S * ?S"
    using t S S_range sint64_of_int [of ?S] sint64_square [of ?S] by (simp_all add: stats_tracks_def)
  have ms: "uint (current_ms s div ucast (current_count s)) = ?Q div ?n"
    using t Q cnt n
    by (simp add: stats_tracks_def uint_div uint64_of_int unsigned_ucast_eq take_bit_int_eq_self)
  have d: "(?S * ?S) sdiv (?n * ?n) = (?S * ?S) div (?n * ?n)"
    using n by (intro sdiv_nonneg) simp_all
  have var: "0 \<le> ?Q div ?n - (?S * ?S) div (?n * ?n)" "?Q div ?n - (?S * ?S) div (?n * ?n) < 2 ^ 64"
    using variance_range [of xs] len Q by simp_all
  have mean: "int32_range (?S sdiv ?n)" using mean_int32 [of xs] len by simp
  have "current_ms s div ucast (current_count s) = word_of_int (?Q div ?n)"
    using ms by (rule word_eq_of_uint)
  then have "current_ms s div ucast (current_count s) - word_of_int ((?S * ?S) div (?n * ?n)) =
      word_of_int (?Q div ?n - (?S * ?S) div (?n * ?n))" by simp
  then have v: "uint (current_ms s div ucast (current_count s) - word_of_int ((?S * ?S) div (?n * ?n))) =
      ?Q div ?n - (?S * ?S) div (?n * ?n)" by (simp only: uint64_of_int var)
  have "sint (current_min s) = Min (sint ` set xs)"
    using t len samples_min_Min by (simp add: stats_tracks_def)
  with nz show ?thesis
    by (simp add: rtos_apps_stats_compute_def Let_def nn s d ms v cnt sint32_of_int [OF mean])
qed

theorem stats_compute_exact_witness:
  "let t = rtos_apps_stats_compute
        (stats_accumulate (stats_accumulate (stats_accumulate two_sample_stats 5) (-7)) (-1)) in
    sint (st_min t) = -7 \<and> sint (st_mean t) = -1 \<and> uint (st_ms t) = 25 \<and> uint (st_variance t) = 24"
proof -
  let ?s = "stats_accumulate (stats_accumulate (stats_accumulate two_sample_stats 5) (-7)) (-1)"
  have "stats_tracks two_sample_stats []" by (simp add: two_sample_stats_def rtos_apps_stats_init_def)
  then have "stats_tracks ?s ([] @ [5] @ [-7] @ [-1])"
    using stats_accumulate_tracks [of _ "[]" 5] stats_accumulate_tracks [of _ "[5]" "-7"]
      stats_accumulate_tracks [of _ "[5, -7]" "-1"] by simp
  then show ?thesis
    using stats_compute_exact [of ?s "[5, -7, -1]"] by (simp add: samples_defs signed_divide_int_def Let_def)
qed

text \<open>
  The bound on the square of the sum is needed: after four samples of \<open>2 ^ 30\<close> the signed product
  of the sum with itself is a multiple of \<open>2 ^ 64\<close>, and the variance of a constant signal is
  reported as \<open>2 ^ 60\<close>.
\<close>

lemma stats_variance_overflow:
  fixes s
  defines "t \<equiv> foldl stats_accumulate (rtos_apps_stats_reset s)
    [0x40000000, 0x40000000, 0x40000000, 0x40000000]"
  shows "uint (st_variance (rtos_apps_stats_compute t)) = 2 ^ 60"
proof -
  have "stats_tracks (foldl stats_accumulate (rtos_apps_stats_reset s) xs) xs" for xs
    by (induction xs rule: rev_induct) (simp_all add: stats_accumulate_tracks)
  then have "stats_tracks t [0x40000000, 0x40000000, 0x40000000, 0x40000000]"
    unfolding t_def .
  then have "current_count t = 4" "current_mean t = 0x100000000" "current_ms t = 0x4000000000000000"
    by (simp_all add: stats_tracks_def samples_defs)
  then show ?thesis by (simp add: rtos_apps_stats_compute_def Let_def signed_divide_int_def)
qed

section \<open>Histograms\<close>

text \<open>
  \<open>struct rtos_apps_hist\<close>: \<open>slots\<close> is the fixed array of \<open>RTOS_APPS_STATS_MAX_SLOTS\<close> counters. An access
  beyond its end and a division by a zero \<open>slot_size\<close> have no defined result: \<open>None\<close>.
\<close>

abbreviation (input) RTOS_APPS_STATS_MAX_SLOTS :: u32 where
  "RTOS_APPS_STATS_MAX_SLOTS \<equiv> 101"

record rtos_apps_hist =
  slots :: "u32 list"
  n_slots :: u32
  slot_size :: u32

definition rtos_apps_hist_init :: "rtos_apps_hist \<Rightarrow> u32 \<Rightarrow> u32 \<Rightarrow> int \<times> rtos_apps_hist" where
  "rtos_apps_hist_init hist n sz =
     (if n + 1 > RTOS_APPS_STATS_MAX_SLOTS then (-1, hist)
      else (0, hist\<lparr>n_slots := n, slot_size := sz\<rparr>))"

definition rtos_apps_hist_update :: "rtos_apps_hist \<Rightarrow> u32 \<Rightarrow> rtos_apps_hist option" where
  "rtos_apps_hist_update hist v =
     (if slot_size hist = 0 then None
      else (let slot = v div slot_size hist;
                slot = (if slot > n_slots hist then n_slots hist else slot)
            in if unat slot < length (slots hist)
               then Some (hist\<lparr>slots := (slots hist)[unat slot := slots hist ! unat slot + 1]\<rparr>)
               else None))"

definition rtos_apps_hist_reset :: "rtos_apps_hist \<Rightarrow> rtos_apps_hist option" where
  "rtos_apps_hist_reset hist =
     (if unat (n_slots hist) < length (slots hist)
      then Some (for_upto (Suc (unat (n_slots hist))) (\<lambda>i h. h\<lparr>slots := (slots h)[i := 0]\<rparr>) hist)
      else None)"

definition hist_wf :: "rtos_apps_hist \<Rightarrow> bool" where
  "hist_wf h \<longleftrightarrow> length (slots h) = unat RTOS_APPS_STATS_MAX_SLOTS \<and>
     unat (n_slots h) < length (slots h) \<and> slot_size h \<noteq> 0"

definition hist_total :: "rtos_apps_hist \<Rightarrow> nat" where
  "hist_total h = sum_list (map unat (slots h))"

text \<open>The slot a value falls in.\<close>

definition hist_slot :: "rtos_apps_hist \<Rightarrow> u32 \<Rightarrow> nat" where
  "hist_slot h v = min (unat v div unat (slot_size h)) (unat (n_slots h))"

lemma hist_slot_bound: "hist_wf h \<Longrightarrow> hist_slot h v < length (slots h)"
  by (simp add: hist_slot_def hist_wf_def min_less_iff_disj)

lemma hist_update_eq:
  assumes "hist_wf h"
  shows "rtos_apps_hist_update h v =
    Some (h\<lparr>slots := (slots h)[hist_slot h v := slots h ! hist_slot h v + 1]\<rparr>)"
proof -
  have "unat (if v div slot_size h > n_slots h then n_slots h else v div slot_size h) = hist_slot h v"
    by (simp add: hist_slot_def word_less_nat_alt unat_div min_def)
  then show ?thesis
    using assms hist_slot_bound [OF assms, of v]
    by (simp add: rtos_apps_hist_update_def hist_wf_def Let_def)
qed

lemma hist_update_wf: "hist_wf h \<Longrightarrow> \<exists>h'. rtos_apps_hist_update h v = Some h' \<and> hist_wf h'"
  by (simp add: hist_update_eq) (simp add: hist_wf_def)

lemma hist_reset_wf: "hist_wf h \<Longrightarrow> \<exists>h'. rtos_apps_hist_reset h = Some h' \<and> hist_wf h'"
proof -
  assume h: "hist_wf h"
  have "hist_wf (for_upto n (\<lambda>i h. h\<lparr>slots := (slots h)[i := 0]\<rparr>) h)" for n
    by (rule for_upto_invariant [where P = "\<lambda>_. hist_wf"]) (use h in \<open>simp_all add: hist_wf_def\<close>)
  then have "hist_wf (for_upto (Suc (unat (n_slots h))) (\<lambda>i h. h\<lparr>slots := (slots h)[i := 0]\<rparr>) h)" .
  moreover have "unat (n_slots h) < length (slots h)" using h by (simp add: hist_wf_def)
  ultimately show ?thesis unfolding rtos_apps_hist_reset_def by (simp only: if_True) blast
qed

text \<open>
  Every successful \<open>hist_init\<close> on the fixed array with a non-zero slot size, below the largest
  \<open>unsigned int\<close>, makes a histogram whose updates stay inside the array: each update counts its
  value in exactly one slot, the one of its interval or the last one.
\<close>

theorem hist_update_counts:
  assumes "rtos_apps_hist_init h0 n sz = (0, h)" and "length (slots h0) = 101"
    and "n \<noteq> - 1" and "sz \<noteq> 0" and "slots h ! hist_slot h v \<noteq> - 1"
  shows "\<exists>h'. rtos_apps_hist_update h v = Some h' \<and> hist_wf h' \<and>
    hist_total h' = Suc (hist_total h) \<and>
    unat (slots h' ! hist_slot h v) = Suc (unat (slots h ! hist_slot h v)) \<and>
    (\<forall>i. i \<noteq> hist_slot h v \<longrightarrow> slots h' ! i = slots h ! i)"
proof -
  let ?j = "hist_slot h v" let ?c = "slots h ! ?j"
  let ?h = "h\<lparr>slots := (slots h)[?j := ?c + 1]\<rparr>"
  have "unat (n + 1) = Suc (unat n)" using assms(3) by (rule unat_plus_one)
  then have wf: "hist_wf h"
    using assms(1,2,4) by (auto simp: rtos_apps_hist_init_def hist_wf_def word_less_nat_alt split: if_splits)
  have c: "unat (?c + 1) = Suc (unat ?c)"
    using assms(5) by (rule unat_plus_one)
  have j: "?j < length (map unat (slots h))" using hist_slot_bound [OF wf] by simp
  have "hist_total ?h + unat ?c = hist_total h + Suc (unat ?c)"
    using sum_list_update_nat [OF j, of "Suc (unat ?c)"] j c by (simp add: hist_total_def map_update)
  moreover have "hist_wf ?h" using wf by (simp add: hist_wf_def)
  ultimately show ?thesis
    using hist_update_eq [OF wf, of v] j c by auto
qed

theorem hist_update_counts_witness:
  "\<exists>h'. rtos_apps_hist_update \<lparr>slots = replicate 101 0, n_slots = 16, slot_size = 1\<rparr> 40 = Some h' \<and>
     unat (slots h' ! 16) = 1"
proof -
  let ?h = "\<lparr>slots = replicate 101 0, n_slots = 16, slot_size = 1\<rparr>"
  have "rtos_apps_hist_init \<lparr>slots = replicate 101 0, n_slots = 0, slot_size = 0\<rparr> 16 1 = (0, ?h)"
    by (simp add: rtos_apps_hist_init_def)
  from hist_update_counts [OF this, of 40] show ?thesis by (auto simp: hist_slot_def)
qed

text \<open>
  The guard of \<open>hist_init\<close> is computed in \<open>unsigned int\<close>: the largest \<open>n_slots\<close> wraps to zero, passes,
  and a later update addresses a slot beyond the array.
\<close>

lemma hist_init_accepts_wrapped:
  "rtos_apps_hist_init h (- 1) 1 = (0, h\<lparr>n_slots := - 1, slot_size := 1\<rparr>)"
  "length (slots h) = 101 \<Longrightarrow> rtos_apps_hist_update (h\<lparr>n_slots := - 1, slot_size := 1\<rparr>) 101 = None"
  by (simp_all add: rtos_apps_hist_init_def rtos_apps_hist_update_def Let_def)

lemma for_upto_clear:
  "n \<le> length xs \<Longrightarrow> for_upto n (\<lambda>i ys. ys[i := c]) xs = replicate n c @ drop n xs"
proof (induction n)
  case (Suc n)
  then have "drop n xs = xs ! n # drop (Suc n) xs" by (simp add: Cons_nth_drop_Suc)
  with Suc show ?case by (simp add: list_update_append replicate_append_same [symmetric])
qed simp

lemma hist_reset_loop:
  "for_upto n (\<lambda>i h. h\<lparr>slots := (slots h)[i := 0]\<rparr>) h =
     h\<lparr>slots := for_upto n (\<lambda>i ys. ys[i := 0]) (slots h)\<rparr>"
  by (induction n) simp_all

lemma hist_reset_empties:
  assumes "hist_wf h"
  shows "\<exists>h'. rtos_apps_hist_reset h = Some h' \<and> hist_wf h' \<and>
    (\<forall>v. slots h' ! hist_slot h' v = 0)"
proof -
  let ?n = "Suc (unat (n_slots h))"
  let ?h = "h\<lparr>slots := replicate ?n 0 @ drop ?n (slots h)\<rparr>"
  have "rtos_apps_hist_reset h = Some ?h"
    using assms by (simp add: rtos_apps_hist_reset_def hist_wf_def hist_reset_loop for_upto_clear
        del: for_upto.simps replicate_Suc)
  moreover have "hist_wf ?h" using assms by (simp add: hist_wf_def)
  moreover have "hist_slot ?h v < ?n" for v by (simp add: hist_slot_def)
  moreover have "slots ?h ! hist_slot ?h v = 0" for v
    using calculation(3) [of v] by (simp add: nth_append nth_replicate del: replicate_Suc)
  ultimately show ?thesis by blast
qed

end
