(* ===== verification/Audio_Format.thy ===== *)
theory Audio_Format
  imports Audio_Buffer
begin

text \<open>
  Sample formats, \<open>audio/audio_format.h\<close>: conversion of a block of slots between the 32-bit words of
  the serial audio interface and the internal samples, in place.
\<close>

text \<open>
  The operations on a double, the representation of a sample and the byte reversal instruction are the target's; they are the parameters of
  the model: the cast of an integer, product, quotient, and the cast to \<open>int32_t\<close>, whatever it makes of a value out of range.
  \<open>sample_bits x\<close> is the low half of the representation of \<open>x\<close>, \<open>bits_sample w\<close> the sample a slot with low half \<open>w\<close> reads as.
\<close>

record 's audio_format =
  sample_of_int :: "int \<Rightarrow> 's"
  sample_mul :: "'s \<Rightarrow> 's \<Rightarrow> 's"
  sample_div :: "'s \<Rightarrow> 's \<Rightarrow> 's"
  sample_cast32 :: "'s \<Rightarrow> s32"
  sample_bits :: "'s \<Rightarrow> u32"
  bits_sample :: "u32 \<Rightarrow> 's"
  byte_rev :: "u32 \<Rightarrow> u32"

definition AUDIO_SAMPLE_SCALE :: "'s audio_format \<Rightarrow> 's" where
  "AUDIO_SAMPLE_SCALE F = sample_of_int F 2147483647"

definition audio_int32_to_sample :: "'s audio_format \<Rightarrow> s32 \<Rightarrow> 's cell" where
  "audio_int32_to_sample F v = Sample (sample_div F (sample_of_int F (sint v)) (AUDIO_SAMPLE_SCALE F))"

definition audio_sample_to_int32 :: "'s audio_format \<Rightarrow> 's cell \<Rightarrow> s32" where
  "audio_sample_to_int32 F c =
     sample_cast32 F (sample_mul F (case c of Sample x \<Rightarrow> x | Raw w \<Rightarrow> bits_sample F w) (AUDIO_SAMPLE_SCALE F))"

definition cell_int32 :: "'s audio_format \<Rightarrow> 's cell \<Rightarrow> u32" where
  "cell_int32 F c = (case c of Raw w \<Rightarrow> w | Sample x \<Rightarrow> sample_bits F x)"

definition audio_convert_from ::
  "'s audio_format \<Rightarrow> 's mem \<Rightarrow> nat \<Rightarrow> u32 \<Rightarrow> bool \<Rightarrow> u32 \<Rightarrow> nat \<Rightarrow> 's mem" where
  "audio_convert_from F m samples len invert msk shift =
     for_upto (unat len)
       (\<lambda>i m. let val = cell_int32 F (m (samples + i));
                  val = (if invert then byte_rev F val else val);
                  val = push_bit shift (val AND msk)
              in m(samples + i := audio_int32_to_sample F val)) m"

definition audio_convert_to ::
  "'s audio_format \<Rightarrow> 's mem \<Rightarrow> nat \<Rightarrow> u32 \<Rightarrow> bool \<Rightarrow> u32 \<Rightarrow> nat \<Rightarrow> 's mem" where
  "audio_convert_to F m samples len invert msk shift =
     for_upto (unat len)
       (\<lambda>i m. let val = audio_sample_to_int32 F (m (samples + i));
                  val = signed_drop_bit shift val AND msk;
                  val = (if invert then byte_rev F val else val)
              in m(samples + i := Raw val)) m"

text \<open>Both loops rewrite each slot on its own.\<close>

definition from_cell :: "'s audio_format \<Rightarrow> bool \<Rightarrow> u32 \<Rightarrow> nat \<Rightarrow> 's cell \<Rightarrow> 's cell" where
  "from_cell F invert msk shift c =
     (let val = cell_int32 F c; val = (if invert then byte_rev F val else val)
      in audio_int32_to_sample F (push_bit shift (val AND msk)))"

definition to_cell :: "'s audio_format \<Rightarrow> bool \<Rightarrow> u32 \<Rightarrow> nat \<Rightarrow> 's cell \<Rightarrow> 's cell" where
  "to_cell F invert msk shift c =
     (let val = signed_drop_bit shift (audio_sample_to_int32 F c) AND msk
      in Raw (if invert then byte_rev F val else val))"

lemma for_upto_slotwise:
  "for_upto n (\<lambda>i m. m(a + i := f (m (a + i)))) m =
     (\<lambda>x. if a \<le> x \<and> x < a + n then f (m x) else m x)"
  by (induction n) (auto simp: fun_eq_iff)

lemma audio_convert_from_slots:
  "audio_convert_from F m a len invert msk shift =
     (\<lambda>x. if a \<le> x \<and> x < a + unat len then from_cell F invert msk shift (m x) else m x)"
  using for_upto_slotwise [of "unat len" a "from_cell F invert msk shift" m]
  by (simp add: audio_convert_from_def from_cell_def Let_def)

lemma audio_convert_to_slots:
  "audio_convert_to F m a len invert msk shift =
     (\<lambda>x. if a \<le> x \<and> x < a + unat len then to_cell F invert msk shift (m x) else m x)"
  using for_upto_slotwise [of "unat len" a "to_cell F invert msk shift" m]
  by (simp add: audio_convert_to_def to_cell_def Let_def)

lemma shift_mask_inverse:
  fixes w msk :: u32
  assumes "drop_bit (32 - shift) msk = 0" and "shift < 32"
  shows "signed_drop_bit shift (push_bit shift (w AND msk)) AND msk = w AND msk"
proof (rule bit_word_eqI)
  fix n assume n: "n < LENGTH(32)"
  have hi: "\<not> bit msk n" if "32 - shift \<le> n"
  proof
    assume "bit msk n"
    then have "bit (drop_bit (32 - shift) msk) (n - (32 - shift))"
      using that by (simp add: bit_drop_bit_eq)
    then show False using assms(1) by simp
  qed
  show "bit (signed_drop_bit shift (push_bit shift (w AND msk)) AND msk) n = bit (w AND msk) n"
    using n hi assms(2) by (auto simp: bit_simps)
qed

text \<open>
  Fixed-point arithmetic for the examples: a sample is kept times the scale, so that a word and its sample have the same value.
\<close>

definition int_format :: "int audio_format" where
  "int_format = \<lparr>sample_of_int = (\<lambda>v. v * 2147483647), sample_mul = (\<lambda>a b. a * b div 2147483647),
     sample_div = (\<lambda>a b. a * 2147483647 div b), sample_cast32 = (\<lambda>a. word_of_int (a div 2147483647)),
     sample_bits = word_of_int, bits_sample = uint, byte_rev = NOT\<rparr>"

lemma int_format_simps [simp]:
  "audio_int32_to_sample int_format v = Sample (sint v)"
  "audio_sample_to_int32 int_format (Sample x) = word_of_int x"
  "audio_sample_to_int32 int_format (Raw w) = word_of_int (uint w)"
  "cell_int32 int_format (Sample x) = word_of_int x" "cell_int32 int_format (Raw w) = w"
  "byte_rev int_format = NOT"
  by (simp_all add: audio_int32_to_sample_def audio_sample_to_int32_def AUDIO_SAMPLE_SCALE_def int_format_def cell_int32_def)

end
