(* ===== verification/Audio_Double.thy ===== *)
theory Audio_Double
  imports Audio_Format Complex_Main
begin

text \<open>
  Audio samples as doubles: what IEEE 754 promises of their arithmetic, and the conversion of \<open>audio/audio_format.h\<close> from a word of the
  serial interface to a sample and back, which is exact for every 32-bit integer.
\<close>

section \<open>Doubles\<close>

text \<open>
  The numbers with 53 significant bits, and the rounding to a nearest one. \<open>ieee_double F R\<close> is what IEEE 754 promises of binary64, \<open>R\<close>
  giving the value of a double: integers of 32 bits are exact, product and quotient are rounded to a nearest number as long as the
  exact result is zero or in the normal range, and the cast of an integer in range is exact.
\<close>

definition binary53 :: "real \<Rightarrow> bool" where
  "binary53 q \<longleftrightarrow> (\<exists>m k :: int. \<bar>m\<bar> < 2 ^ 53 \<and> q = of_int m * 2 powi k)"

definition nearest53 :: "real \<Rightarrow> real \<Rightarrow> bool" where
  "nearest53 r q \<longleftrightarrow> binary53 q \<and> (\<forall>p. binary53 p \<longrightarrow> \<bar>q - r\<bar> \<le> \<bar>p - r\<bar>)"

definition normal_range :: "real \<Rightarrow> bool" where
  "normal_range r \<longleftrightarrow> r = 0 \<or> 2 powi (- 1022) \<le> \<bar>r\<bar> \<and> \<bar>r\<bar> < 2 ^ 1023"

definition ieee_double :: "'s audio_format \<Rightarrow> ('s \<Rightarrow> real) \<Rightarrow> bool" where
  "ieee_double F R \<longleftrightarrow>
     (\<forall>v. \<bar>v\<bar> \<le> 2 ^ 31 \<longrightarrow> R (sample_of_int F v) = of_int v) \<and>
     (\<forall>x y. normal_range (R x * R y) \<longrightarrow> nearest53 (R x * R y) (R (sample_mul F x y))) \<and>
     (\<forall>x y. R y \<noteq> 0 \<longrightarrow> normal_range (R x / R y) \<longrightarrow> nearest53 (R x / R y) (R (sample_div F x y))) \<and>
     (\<forall>x v. - (2 ^ 31) \<le> v \<longrightarrow> v < 2 ^ 31 \<longrightarrow> R x = of_int v \<longrightarrow> sample_cast32 F x = word_of_int v)"

lemma binary53_minus [simp]: "binary53 (- q) = binary53 q"
proof -
  have minus: "binary53 (- p)" if p: "binary53 p" for p
  proof -
    obtain m k where "\<bar>m\<bar> < 2 ^ 53" "p = of_int m * 2 powi k" using p unfolding binary53_def by blast
    then have "\<bar>- m\<bar> < 2 ^ 53" "- p = of_int (- m) * 2 powi k" by simp_all
    then show ?thesis unfolding binary53_def by blast
  qed
  from minus [of q] minus [of "- q"] show ?thesis by auto
qed

lemma nearest53_minus: "nearest53 (- r) (- q) = nearest53 r q"
proof -
  have minus: "nearest53 (- a) (- b)" if n: "nearest53 a b" for a b
  proof -
    have "\<bar>- b - - a\<bar> \<le> \<bar>p - - a\<bar>" if "binary53 p" for p
    proof -
      have "binary53 (- p)" using that by simp
      then have "\<bar>b - a\<bar> \<le> \<bar>- p - a\<bar>" using n unfolding nearest53_def by blast
      then show ?thesis by linarith
    qed
    then show ?thesis using n by (simp add: nearest53_def)
  qed
  from minus [of r q] minus [of "- r" "- q"] show ?thesis by auto
qed

lemma binary53_of_int: "\<bar>m\<bar> < 2 ^ 53 \<Longrightarrow> binary53 (of_int m)"
  unfolding binary53_def by (intro exI [of _ m] exI [of _ 0]) simp

lemma binary53_scaled:
  assumes m: "\<bar>m\<bar> \<le> 2 ^ 53"
  shows "binary53 (of_int m * 2 powi k)"
proof (cases "\<bar>m\<bar> = 2 ^ 53")
  case True
  then have "m = 2 ^ 53 \<or> m = - (2 ^ 53)" by linarith
  then have "m = 2 * (m div 2)" "\<bar>m div 2\<bar> < 2 ^ 53" by auto
  have "of_int m = of_int (m div 2) * (2 :: real)" by (subst \<open>m = 2 * (m div 2)\<close>) simp
  then have "of_int m * (2 :: real) powi k = of_int (m div 2) * 2 powi (k + 1)" by (simp add: power_int_add)
  then show ?thesis using \<open>\<bar>m div 2\<bar> < 2 ^ 53\<close> unfolding binary53_def by blast
next
  case False
  then have "\<bar>m\<bar> < 2 ^ 53" using m by linarith
  then show ?thesis unfolding binary53_def by blast
qed

text \<open>A nearest number is at most as far away as any other; a number is its own.\<close>

lemma nearest53_self: "nearest53 r q \<Longrightarrow> binary53 r \<Longrightarrow> q = r"
  unfolding nearest53_def by force

section \<open>Distances\<close>

lemma powi_diff: "(2 :: real) powi (int t - numeral n) = 2 ^ t / 2 ^ numeral n"
  by (simp add: power_int_diff)

lemma powi_split: "(2 :: real) powi k = of_int (2 ^ nat (k - l)) * 2 powi l" if "l \<le> k"
proof -
  have "(2 :: real) powi k = 2 powi ((k - l) + l)" by simp
  also have "\<dots> = 2 powi (k - l) * 2 powi l" by (rule power_int_add) simp
  also have "2 powi (k - l) = (2 :: real) ^ nat (k - l)" using that by (simp add: power_int_def)
  finally show ?thesis by simp
qed

lemma multiple_gap:
  assumes "x = of_int i * u" and "y = of_int j * u" and "x \<noteq> y" and "0 < (u :: real)"
  shows "u \<le> \<bar>x - y\<bar>"
proof -
  have "x - y = of_int (i - j) * u" using assms(1,2) by (simp add: algebra_simps)
  moreover have "i \<noteq> j" using assms(1-3) by auto
  then have "1 \<le> \<bar>real_of_int (i - j)\<bar>" by linarith
  ultimately show ?thesis using assms(4) by (simp add: abs_mult)
qed

text \<open>How far an integer is from any other number: a unit in the last place.\<close>

lemma binary53_gap:
  assumes "binary53 p" and "p \<noteq> of_int v" and "l \<le> 0" and "2 powi (l + 52) + 2 powi l \<le> real_of_int v"
  shows "2 powi l \<le> \<bar>p - of_int v\<bar>"
proof -
  obtain m k where m: "\<bar>m\<bar> < 2 ^ 53" "p = of_int m * 2 powi k" using assms(1) unfolding binary53_def by blast
  show ?thesis
  proof (cases "l \<le> k")
    case True
    have "p = of_int (m * 2 ^ nat (k - l)) * 2 powi l" using m(2) powi_split [OF True] by simp
    moreover have "of_int v = of_int (v * 2 ^ nat (0 - l)) * (2 :: real) powi l" using powi_split [OF assms(3)] by simp
    ultimately show ?thesis using assms(2) by (rule multiple_gap) simp
  next
    case False
    have k: "(2 :: real) powi k \<le> 2 powi (l - 1)" using False by (intro power_int_increasing) simp_all
    have "real_of_int m \<le> real_of_int (2 ^ 53)" using m(1) by (subst of_int_le_iff) linarith
    then have "of_int m * (2 :: real) powi k \<le> 2 ^ 53 * 2 powi (l - 1)" using k by (intro mult_mono) simp_all
    then have "p \<le> 2 ^ 53 * 2 powi (l - 1)" using m(2) by simp
    also have "\<dots> = 2 powi (l + 52)" by (simp add: power_int_add power_int_diff)
    finally show ?thesis using assms(4) by linarith
  qed
qed

text \<open>A rounded number is half a unit away from the exact one at most.\<close>

lemma nearest53_half:
  assumes "nearest53 r q" and "0 \<le> r" and "r \<le> 2 powi (e + 1)"
  shows "\<bar>q - r\<bar> \<le> 2 powi (e - 53)"
proof -
  let ?u = "(2 :: real) powi (e - 52)" and ?m = "round (r / 2 powi (e - 52))"
  have "2 powi (e + 1) = 2 ^ 53 * ?u" by (simp add: power_int_add power_int_diff)
  then have "r / ?u \<le> 2 ^ 53" using assms(3) by (simp add: pos_divide_le_eq)
  then have "?m \<le> round (2 ^ 53 :: real)" by (rule round_mono)
  moreover have "0 \<le> ?m" using assms(2) round_mono [of 0 "r / ?u"] by simp
  ultimately have "binary53 (of_int ?m * ?u)" by (intro binary53_scaled) simp
  then have "\<bar>q - r\<bar> \<le> \<bar>of_int ?m * ?u - r\<bar>" using assms(1) unfolding nearest53_def by blast
  also have "of_int ?m * ?u - r = (of_int ?m - r / ?u) * ?u" by (simp add: algebra_simps)
  also have "\<bar>(of_int ?m - r / ?u) * ?u\<bar> \<le> 1 / 2 * ?u"
    unfolding abs_mult by (intro mult_mono of_int_round_abs_le) simp_all
  also have "1 / 2 * ?u = 2 powi (e - 53)" by (simp add: power_int_diff)
  finally show ?thesis .
qed

lemma nearest53_close:
  assumes "nearest53 r p" and "binary53 (of_int v)" and "\<bar>r - of_int v\<bar> < g / 2" and "p \<noteq> of_int v \<Longrightarrow> g \<le> \<bar>p - of_int v\<bar>"
  shows "p = of_int v"
proof (rule ccontr)
  assume "p \<noteq> of_int v"
  then have "g \<le> \<bar>p - of_int v\<bar>" by (rule assms(4))
  moreover have "\<bar>p - r\<bar> \<le> \<bar>of_int v - r\<bar>" using assms(1,2) unfolding nearest53_def by blast
  ultimately show False using assms(3) by linarith
qed

section \<open>Scaling\<close>

lemma power_of_two_below:
  assumes "0 < (v :: int)" and "v \<le> 2 ^ 31"
  obtains t :: nat where "2 ^ t \<le> v" and "v < 2 ^ Suc t" and "t < 31 \<or> v = 2 ^ t \<and> t = 31"
proof -
  obtain t where t: "2 ^ t \<le> nat v" "nat v < 2 ^ (t + 1)" using ex_power_ivl1 [of 2 "nat v"] assms(1) by force
  have b: "2 ^ t \<le> v" "v < 2 ^ Suc t" using t assms(1) by (simp_all add: le_nat_iff nat_less_iff)
  have "(2 :: int) ^ t \<le> 2 ^ 31" using b(1) assms(2) by linarith
  then have "t \<le> 31" by (rule power_le_imp_le_exp [rotated]) simp
  moreover have "v = 2 ^ t" if "t = 31" using b(1) assms(2) that by simp
  ultimately show thesis using that [OF b] by linarith
qed

lemma scale_power:
  assumes q: "nearest53 (2 ^ t / 2147483647) q" and p: "nearest53 (q * 2147483647) p" and "t \<le> 31"
  shows "p = 2 ^ t"
proof -
  let ?c = "of_int (2 ^ 31 + 1) * 2 powi (int t - 62) :: real"
  have "binary53 ?c" by (rule binary53_scaled) simp
  then have "\<bar>q - 2 ^ t / 2147483647\<bar> \<le> \<bar>?c - 2 ^ t / 2147483647\<bar>" using q unfolding nearest53_def by blast
  also have "?c - 2 ^ t / 2147483647 = - (2 ^ t / (2 ^ 62 * 2147483647))" by (simp add: powi_diff field_simps)
  finally have "\<bar>q - 2 ^ t / 2147483647\<bar> \<le> 2 ^ t / (2 ^ 62 * 2147483647)" by simp
  then have "\<bar>q * 2147483647 - 2 ^ t\<bar> \<le> 2 ^ t / 2 ^ 62" by (simp add: abs_le_iff field_simps)
  also have "(2 :: real) ^ t / 2 ^ 62 < 2 ^ t / 2 ^ 53 / 2" by (simp add: field_simps)
  finally have "\<bar>q * 2147483647 - 2 ^ t\<bar> < 2 ^ t / 2 ^ 53 / 2" .
  then have close: "\<bar>q * 2147483647 - of_int (2 ^ t)\<bar> < 2 ^ t / 2 ^ 53 / 2" by simp
  have gap: "2 ^ t / 2 ^ 53 \<le> \<bar>p - of_int (2 ^ t)\<bar>" if "p \<noteq> of_int (2 ^ t)"
  proof -
    have "(2 :: real) powi (int t - 53 + 52) + 2 powi (int t - 53) \<le> of_int (2 ^ t)"
      by (simp add: powi_diff power_int_add power_int_diff field_simps)
    from binary53_gap [OF _ that _ this] p assms(3) show ?thesis by (simp add: powi_diff nearest53_def)
  qed
  have "binary53 (of_int (2 ^ t))" using binary53_scaled [of 1 "int t"] by simp
  from nearest53_close [OF p this close gap] show ?thesis by simp
qed

lemma scale_between:
  assumes q: "nearest53 (of_int v / 2147483647) q" and p: "nearest53 (q * 2147483647) p" and t: "2 ^ t < v" "v < 2 ^ Suc t" "t < 31"
  shows "p = of_int v"
proof -
  have "2 ^ t + 1 \<le> v" "v \<le> 2 ^ Suc t - 1" using t(1,2) by linarith+
  then have "real_of_int (2 ^ t + 1) \<le> real_of_int v" "real_of_int v \<le> real_of_int (2 ^ Suc t - 1)" by (simp_all only: of_int_le_iff)
  then have v: "2 ^ t + 1 \<le> real_of_int v" "real_of_int v \<le> 2 * 2 ^ t - 1" by simp_all
  have "(2 :: real) ^ t \<le> 2 ^ 30" using t(3) by (intro power_increasing) simp_all
  then have "of_int v * 2 ^ 31 \<le> 2 * 2 ^ t * (2147483647 :: real)" using v(2) by (simp add: algebra_simps)
  moreover have "(2 :: real) powi ((int t - 31) + 1) = 2 * 2 ^ t / 2 ^ 31" by (simp add: power_int_add power_int_diff)
  ultimately have top: "of_int v / 2147483647 \<le> (2 :: real) powi ((int t - 31) + 1)" by (simp add: field_simps)
  have pos: "0 \<le> real_of_int v / 2147483647" using order_trans [OF _ v(1), of 0] by simp
  have "(2 :: real) powi (int t - 31 - 53) = 2 ^ t / 2 ^ 84" by (simp add: power_int_diff)
  with nearest53_half [OF q pos top] have "\<bar>q - of_int v / 2147483647\<bar> \<le> 2 ^ t / 2 ^ 84" by simp
  then have "\<bar>q * 2147483647 - of_int v\<bar> \<le> 2 ^ t / 2 ^ 84 * 2147483647" by (simp add: abs_le_iff field_simps)
  also have "(2 :: real) ^ t / 2 ^ 84 * 2147483647 < 2 ^ t / 2 ^ 52 / 2" by (simp add: field_simps)
  finally have close: "\<bar>q * 2147483647 - of_int v\<bar> < 2 ^ t / 2 ^ 52 / 2" .
  have gap: "2 ^ t / 2 ^ 52 \<le> \<bar>p - of_int v\<bar>" if "p \<noteq> of_int v"
  proof -
    have "2 ^ t / 2 ^ 52 \<le> (1 :: real)" using \<open>(2 :: real) ^ t \<le> 2 ^ 30\<close> by simp
    then have "(2 :: real) powi (int t - 52 + 52) + 2 powi (int t - 52) \<le> of_int v" using v(1) by (simp add: powi_diff)
    from binary53_gap [OF _ that _ this] p t(3) show ?thesis by (simp add: powi_diff nearest53_def)
  qed
  have "(2 :: int) ^ Suc t \<le> 2 ^ 31" using t(3) by (intro power_increasing) simp_all
  then have "v < 2 ^ 31" using t(2) by (rule less_le_trans [rotated])
  moreover have "0 < v" using t(1) by (rule less_trans [rotated]) simp
  ultimately have "binary53 (of_int v)" by (intro binary53_of_int) simp
  from nearest53_close [OF p this close gap] show ?thesis .
qed

lemma scale_pos:
  assumes "nearest53 (of_int v / 2147483647) q" and "nearest53 (q * 2147483647) p" and "0 < v" and "v \<le> 2 ^ 31"
  shows "p = of_int v"
proof -
  obtain t where t: "2 ^ t \<le> v" "v < 2 ^ Suc t" "t < 31 \<or> v = 2 ^ t \<and> t = 31" using power_of_two_below [OF assms(3,4)] .
  show ?thesis
  proof (cases "v = 2 ^ t")
    case True
    then show ?thesis using scale_power [of t q p] assms(1,2) t(3) by auto
  next
    case False
    then show ?thesis using scale_between [OF assms(1,2), of t] t by auto
  qed
qed

text \<open>Dividing an integer of 32 bits by the scale and multiplying by it again gives the integer, whatever the two roundings do.\<close>

lemma scale_roundtrip:
  assumes "nearest53 (of_int v / 2147483647) q" and "nearest53 (q * 2147483647) p" and "\<bar>v\<bar> \<le> 2 ^ 31"
  shows "p = of_int v"
proof -
  consider "v = 0" | "0 < v" | "v < 0" by linarith
  then show ?thesis
  proof cases
    case 1
    have "binary53 0" using binary53_of_int [of 0] by simp
    then have "q = 0" using nearest53_self [of 0 q] assms(1) 1 by simp
    then show ?thesis using \<open>binary53 0\<close> nearest53_self [of 0 p] assms(2) 1 by simp
  next
    case 2
    then show ?thesis using scale_pos assms by auto
  next
    case 3
    have "nearest53 (of_int (- v) / 2147483647) (- q)" using assms(1) nearest53_minus [of "of_int v / 2147483647" q] by simp
    moreover have "nearest53 (- q * 2147483647) (- p)" using assms(2) nearest53_minus [of "q * 2147483647" p] by simp
    ultimately have "- p = of_int (- v)" by (rule scale_pos) (use 3 assms(3) in simp_all)
    then show ?thesis by simp
  qed
qed

section \<open>The conversion\<close>

lemma nearest53_between:
  assumes "nearest53 r q" and "binary53 a" and "binary53 b" and "a \<le> r" and "r \<le> b"
  shows "a \<le> q \<and> q \<le> b"
proof -
  have "\<bar>q - r\<bar> \<le> \<bar>a - r\<bar>" "\<bar>q - r\<bar> \<le> \<bar>b - r\<bar>" using assms(1-3) unfolding nearest53_def by blast+
  then show ?thesis using assms(4,5) by linarith
qed

lemma normal_between:
  assumes "r = 0 \<or> 2 powi (- 31) \<le> r \<and> r \<le> 2 ^ 33 \<or> - (2 ^ 33) \<le> r \<and> r \<le> - (2 powi (- 31))"
  shows "normal_range r"
proof -
  have "0 < (2 :: real) powi (- 31)" by simp
  then have "r = 0 \<or> 2 powi (- 31) \<le> \<bar>r\<bar> \<and> \<bar>r\<bar> \<le> 2 ^ 33" using assms by linarith
  moreover have "(2 :: real) powi (- 1022) \<le> 2 powi (- 31)" by (rule power_int_increasing) simp_all
  moreover have "(2 :: real) ^ 33 < 2 ^ 1023" by (rule power_strict_increasing) simp_all
  ultimately show ?thesis unfolding normal_range_def by linarith
qed

lemma scaled_between:
  fixes x u :: real
  assumes "x = 0 \<or> u \<le> x \<and> x \<le> 2 \<or> - 2 \<le> x \<and> x \<le> - u" and "0 < u"
  shows "x * 2147483647 = 0 \<or> u \<le> x * 2147483647 \<and> x * 2147483647 \<le> 2 ^ 33 \<or>
    - (2 ^ 33) \<le> x * 2147483647 \<and> x * 2147483647 \<le> - u"
proof -
  have "(2 :: real) ^ 33 = 8589934592" by simp
  then show ?thesis using assms by linarith
qed

lemma ieee_rules:
  assumes "ieee_double F R"
  shows "normal_range (R x * R y) \<Longrightarrow> nearest53 (R x * R y) (R (sample_mul F x y))"
    and "R y \<noteq> 0 \<Longrightarrow> normal_range (R x / R y) \<Longrightarrow> nearest53 (R x / R y) (R (sample_div F x y))"
  using assms by (simp_all add: ieee_double_def)

lemma int32_sample_int32:
  assumes "ieee_double F R"
  shows "audio_sample_to_int32 F (audio_int32_to_sample F v) = v"
proof -
  define n x where "n = sint v" and "x = sample_div F (sample_of_int F n) (AUDIO_SAMPLE_SCALE F)"
  have n: "- (2 ^ 31) \<le> n" "n < 2 ^ 31" using sint32_range [of v] by (simp_all add: n_def)
  have s: "R (AUDIO_SAMPLE_SCALE F) = 2147483647" using assms by (simp add: ieee_double_def AUDIO_SAMPLE_SCALE_def)
  have R: "R (sample_of_int F n) = of_int n" using assms n by (simp add: ieee_double_def abs_le_iff)
  have b: "binary53 (2 powi (- 31))" "binary53 2" "binary53 (- (2 powi (- 31)))" "binary53 (- 2)"
    using binary53_scaled [of 1 "- 31"] binary53_scaled [of 1 1] by simp_all
  have "n = 0 \<or> 1 \<le> real_of_int n \<and> real_of_int n \<le> 2 ^ 31 \<or> - (2 ^ 31) \<le> real_of_int n \<and> real_of_int n \<le> - 1"
  proof -
    have "real_of_int (- (2 ^ 31)) \<le> real_of_int n" "real_of_int n \<le> real_of_int (2 ^ 31)" using n by (simp_all only: of_int_le_iff less_imp_le)
    moreover have "n = 0 \<or> 1 \<le> n \<or> n \<le> - 1" by linarith
    then have "n = 0 \<or> real_of_int 1 \<le> real_of_int n \<or> real_of_int n \<le> real_of_int (- 1)" by (simp only: of_int_le_iff)
    ultimately show ?thesis by simp
  qed
  then have r: "n = 0 \<or> 2 powi (- 31) \<le> of_int n / (2147483647 :: real) \<and> of_int n / 2147483647 \<le> (2 :: real) \<or>
      - 2 \<le> of_int n / (2147483647 :: real) \<and> of_int n / 2147483647 \<le> - (2 powi (- 31) :: real)"
    by (auto simp: power_int_def field_simps)
  then have "normal_range (of_int n / 2147483647)"
    by (intro normal_between) (auto intro: order_trans [of _ 2] order_trans [of _ "- 2"])
  then have q: "nearest53 (of_int n / 2147483647) (R x)" using ieee_rules(2) [OF assms, of "AUDIO_SAMPLE_SCALE F" "sample_of_int F n"] s R by (simp add: x_def)
  have "R x = 0 \<or> 2 powi (- 31) \<le> R x \<and> R x \<le> 2 \<or> - 2 \<le> R x \<and> R x \<le> - (2 powi (- 31))"
    using r nearest53_between [OF q b(1,2)] nearest53_between [OF q b(4,3)] nearest53_self [OF q] binary53_of_int [of 0] by auto
  then have "normal_range (R x * 2147483647)" by (intro normal_between scaled_between) simp_all
  then have "nearest53 (R x * 2147483647) (R (sample_mul F x (AUDIO_SAMPLE_SCALE F)))" using ieee_rules(1) [OF assms, of x "AUDIO_SAMPLE_SCALE F"] s by simp
  from scale_roundtrip [OF q this] n have "R (sample_mul F x (AUDIO_SAMPLE_SCALE F)) = of_int n" by (simp add: abs_le_iff)
  then have "sample_cast32 F (sample_mul F x (AUDIO_SAMPLE_SCALE F)) = word_of_int n" using assms n unfolding ieee_double_def by blast
  then show ?thesis by (simp add: audio_sample_to_int32_def audio_int32_to_sample_def n_def x_def)
qed

text \<open>
  C16. Receiving and sending back is lossless: on slots that hold words of the serial interface whose payload lies in the mask,
  \<open>audio_convert_from\<close> followed by \<open>audio_convert_to\<close> with the same parameters restores the memory, although the samples in between are
  rounded quotients, provided the mask fits into the bits above the shift, reversing the bytes twice does nothing and the
  arithmetic of doubles rounds to nearest.
\<close>

theorem audio_convert_roundtrip:
  assumes "drop_bit (32 - shift) msk = 0" and "shift < 32"
    and rev: "\<forall>w. byte_rev F (byte_rev F w) = w" and ieee: "ieee_double F R"
    and words: "\<forall>i < unat len. \<exists>w. w AND msk = w \<and> m (a + i) = Raw (if invert then byte_rev F w else w)"
  shows "audio_convert_to F (audio_convert_from F m a len invert msk shift) a len invert msk shift = m"
proof
  fix x
  show "audio_convert_to F (audio_convert_from F m a len invert msk shift) a len invert msk shift x = m x"
  proof (cases "a \<le> x \<and> x < a + unat len")
    case True
    then obtain w where w: "w AND msk = w" "m x = Raw (if invert then byte_rev F w else w)"
      using words by (metis add_diff_inverse_nat less_diff_conv2 not_less add.commute)
    have "audio_sample_to_int32 F (from_cell F invert msk shift (m x)) = push_bit shift w"
      using w rev by (simp add: from_cell_def cell_int32_def int32_sample_int32 [OF ieee] del: push_bit_and)
    then show ?thesis
      using True w shift_mask_inverse [OF assms(1,2), of w]
      by (simp add: audio_convert_to_slots audio_convert_from_slots to_cell_def)
  next
    case False
    then show ?thesis by (auto simp: audio_convert_to_slots audio_convert_from_slots)
  qed
qed

section \<open>A concrete arithmetic\<close>

text \<open>Samples are reals, every operation rounds to 53 bits, a half away from zero or towards it as \<open>round\<close> does.\<close>

definition round53 :: "real \<Rightarrow> real" where
  "round53 r = (if r = 0 then 0 else let u = 2 powi (\<lfloor>log 2 \<bar>r\<bar>\<rfloor> - 52) in of_int (round (r / u)) * u)"

lemma nearest53_round53: "nearest53 r (round53 r)"
proof (cases "r = 0")
  case True
  then show ?thesis using binary53_of_int [of 0] by (simp add: nearest53_def round53_def)
next
  case False
  define e u where "e = \<lfloor>log 2 \<bar>r\<bar>\<rfloor>" and "u = (2 :: real) powi (e - 52)"
  have "real_of_int e \<le> log 2 \<bar>r\<bar>" "log 2 \<bar>r\<bar> < real_of_int (e + 1)" by (simp_all add: e_def)
  then have "2 powr real_of_int e \<le> \<bar>r\<bar>" "\<bar>r\<bar> < 2 powr real_of_int (e + 1)" using False by (simp_all add: le_log_iff log_less_iff)
  then have r: "2 powi e \<le> \<bar>r\<bar>" "\<bar>r\<bar> < 2 powi (e + 1)" using powr_real_of_int' [of 2 e] powr_real_of_int' [of 2 "e + 1"] by simp_all
  have u: "0 < u" "2 powi e = 2 ^ 52 * u" "2 powi (e + 1) = 2 ^ 53 * u" by (simp_all add: u_def power_int_add power_int_diff)
  have rnd: "round53 r = of_int (round (r / u)) * u" using False by (simp add: round53_def u_def e_def Let_def)
  have best: "\<bar>round53 r - r\<bar> \<le> \<bar>of_int i * u - r\<bar>" for i
  proof -
    have "\<bar>r / u - of_int (round (r / u))\<bar> * u \<le> \<bar>r / u - of_int i\<bar> * u" using u(1) round_diff_minimal [of "r / u" i] by (intro mult_right_mono) simp_all
    moreover have "\<bar>r / u - x\<bar> * u = \<bar>x * u - r\<bar>" for x
    proof -
      have "(r / u - x) * u = r - x * u" using u(1) by (simp add: left_diff_distrib)
      then show ?thesis using u(1) abs_mult [of "r / u - x" u] by (simp add: abs_minus_commute)
    qed
    ultimately show ?thesis by (simp add: rnd)
  qed
  have "\<bar>r\<bar> \<le> 2 ^ 53 * u" using r(2) u(3) by simp
  then have "- (2 ^ 53) \<le> r / u" "r / u \<le> 2 ^ 53" using u(1) by (simp_all add: field_simps abs_le_iff)
  moreover have "round (- (2 ^ 53) :: real) = - (2 ^ 53)" "round (2 ^ 53 :: real) = 2 ^ 53"
    using round_of_int [of "- (2 ^ 53)", where ?'a = real] round_of_int [of "2 ^ 53", where ?'a = real] by simp_all
  ultimately have "- (2 ^ 53) \<le> round (r / u)" "round (r / u) \<le> 2 ^ 53" using round_mono by metis+
  then have "binary53 (round53 r)" unfolding rnd u_def by (intro binary53_scaled) (simp add: abs_le_iff)
  moreover have "\<bar>round53 r - r\<bar> \<le> \<bar>p - r\<bar>" if p: "binary53 p" for p
  proof -
    obtain m k where m: "\<bar>m\<bar> < 2 ^ 53" "p = of_int m * 2 powi k" using p unfolding binary53_def by blast
    show ?thesis
    proof (cases "e - 52 \<le> k")
      case True
      then have "p = of_int (m * 2 ^ nat (k - (e - 52))) * u" using m(2) powi_split [OF True] by (simp add: u_def)
      then show ?thesis using best by metis
    next
      case False
      then have "(2 :: real) powi k \<le> 2 powi (e - 53)" by (intro power_int_increasing) simp_all
      moreover have "real_of_int \<bar>m\<bar> \<le> real_of_int (2 ^ 53)" using m(1) by (subst of_int_le_iff) linarith
      ultimately have "\<bar>of_int m\<bar> * (2 :: real) powi k \<le> 2 ^ 53 * 2 powi (e - 53)" by (intro mult_mono) simp_all
      then have below: "\<bar>p\<bar> \<le> 2 powi e" by (simp add: m(2) abs_mult power_int_diff)
      have "\<bar>round53 r - r\<bar> \<le> \<bar>r\<bar> - 2 powi e"
      proof (cases "0 < r")
        case True
        then show ?thesis using best [of "2 ^ 52"] r(1) u(2) by simp
      next
        case False
        then show ?thesis using best [of "- (2 ^ 52)"] r(1) u(2) by simp
      qed
      then show ?thesis using below by linarith
    qed
  qed
  ultimately show ?thesis by (simp add: nearest53_def)
qed

definition real_format :: "real audio_format" where
  "real_format = \<lparr>sample_of_int = of_int, sample_mul = (\<lambda>x y. round53 (x * y)), sample_div = (\<lambda>x y. round53 (x / y)),
     sample_cast32 = (\<lambda>x. word_of_int \<lfloor>x\<rfloor>), sample_bits = (\<lambda>_. 0), bits_sample = (\<lambda>_. 0), byte_rev = NOT\<rparr>"

lemma real_format_ieee: "ieee_double real_format (\<lambda>x. x)"
  by (simp add: ieee_double_def real_format_def nearest53_round53)

theorem audio_convert_roundtrip_witness:
  "audio_convert_to real_format (audio_convert_from real_format (\<lambda>_. Raw 0x800123) 10 2 False 0xffffff 8) 10 2 False 0xffffff 8 =
   (\<lambda>_. Raw 0x800123)"
  by (rule audio_convert_roundtrip [OF _ _ _ real_format_ieee]) (simp_all add: real_format_def)

end
