(* ===== verification/Audio_World.thy ===== *)
theory Audio_World
  imports Audio_Format
begin

text \<open>
  What the audio elements share: their configuration (\<open>rtos_apps/audio/audio_element.h\<close> and the
  \<open>audio_element_*.h\<close> beside it), the control commands (\<open>rtos_apps/audio/audio_pipeline_ctrl.h\<close>), the
  arithmetic and hardware interfaces they call, and the world their operations act on: the sample
  memory, the buffer array of the pipeline and the hardware. The second half holds the facts on
  period-aligned buffers that every element rests on.
\<close>

section \<open>External interfaces\<close>

text \<open>
  Floating point arithmetic and \<open>sin\<close> of the C library, on the sample type (both are \<open>double\<close>).
\<close>

record 's fp =
  fp_add :: "'s \<Rightarrow> 's \<Rightarrow> 's"
  fp_mul :: "'s \<Rightarrow> 's \<Rightarrow> 's"
  fp_div :: "'s \<Rightarrow> 's \<Rightarrow> 's"
  fp_le :: "'s \<Rightarrow> 's \<Rightarrow> bool"
  fp_lt :: "'s \<Rightarrow> 's \<Rightarrow> bool"
  fp_uint :: "u32 \<Rightarrow> 's"
  fp_pi :: 's
  fp_sin :: "'s \<Rightarrow> 's"

text \<open>
  The serial audio hardware and the board's PLL hook, over a hardware state of type \<open>'h\<close>. A device
  address is a \<open>nat\<close>; \<open>hw_rfr\<close> and \<open>hw_tfr\<close> give the write and read pointer fields of a line's FIFO
  register; reading a FIFO register pops a word.
\<close>

record 'h hw =
  hw_sai_base :: "u32 \<Rightarrow> nat option"
  hw_fifo_count :: "nat option \<Rightarrow> u32"
  hw_rfr :: "'h \<Rightarrow> nat \<Rightarrow> u32 \<Rightarrow> u8 \<times> u8"
  hw_tfr :: "'h \<Rightarrow> nat \<Rightarrow> u32 \<Rightarrow> u8 \<times> u8"
  hw_fifo_read :: "nat \<Rightarrow> u32 \<Rightarrow> 'h \<Rightarrow> u32 \<times> 'h"
  hw_fifo_write :: "nat \<Rightarrow> u32 \<Rightarrow> u32 \<Rightarrow> 'h \<Rightarrow> 'h"
  hw_enable_rx :: "nat \<Rightarrow> 'h \<Rightarrow> 'h"
  hw_disable_rx :: "nat \<Rightarrow> 'h \<Rightarrow> 'h"
  hw_enable_tx :: "nat \<Rightarrow> 'h \<Rightarrow> 'h"
  hw_disable_tx :: "nat \<Rightarrow> 'h \<Rightarrow> 'h"
  hw_rx_bitclock :: "'h \<Rightarrow> nat option \<Rightarrow> u32"
  hw_pll_adjust :: "u32 \<Rightarrow> s64 \<Rightarrow> 'h \<Rightarrow> 'h"

section \<open>Configuration\<close>

record 's dtmf_element_config =
  dtc_us :: u32
  dtc_pause_us :: u32
  dtc_sequence_pause_us :: u32
  dtc_amplitude :: 's
  dtc_sequence :: string

record pll_element_config =
  pc_src_sai_id :: u32
  pc_dst_sai_id :: u32
  pc_pll_id :: u32

record 's sine_element_config =
  sc_freq :: 's
  sc_amplitude :: 's

text \<open>
  The receive and the transmit configuration are two structures with the same members in the same
  union; one record stands for both.
\<close>

record sai_line_config =
  slc_id :: u32
  slc_channel_n :: u32

record sai_config =
  sic_id :: u32
  sic_line_n :: u32
  sic_line :: "nat \<Rightarrow> sai_line_config"

record sai_element_config =
  sec_sai_n :: u32
  sec_sai :: "nat \<Rightarrow> sai_config"

text \<open>
  \<open>struct audio_element_config\<close>; the members of its union are fields, no code reads a member other than
  the one of the element type. The arrays of 64 inputs and 64 outputs are functions of the index.
\<close>

record 's audio_element_config =
  ec_type :: u32
  ec_inputs :: u32
  ec_input :: "nat \<Rightarrow> u32"
  ec_outputs :: u32
  ec_output :: "nat \<Rightarrow> u32"
  ec_period :: u32
  ec_sample_rate :: u32
  ec_dtmf :: "'s dtmf_element_config"
  ec_pll :: pll_element_config
  ec_sai :: sai_element_config
  ec_sine :: "'s sine_element_config"

abbreviation (input) AUDIO_ELEMENT_DTMF_SOURCE :: u32 where "AUDIO_ELEMENT_DTMF_SOURCE \<equiv> 0"
abbreviation (input) AUDIO_ELEMENT_ROUTING :: u32 where "AUDIO_ELEMENT_ROUTING \<equiv> 1"
abbreviation (input) AUDIO_ELEMENT_SAI_SINK :: u32 where "AUDIO_ELEMENT_SAI_SINK \<equiv> 2"
abbreviation (input) AUDIO_ELEMENT_SAI_SOURCE :: u32 where "AUDIO_ELEMENT_SAI_SOURCE \<equiv> 3"
abbreviation (input) AUDIO_ELEMENT_SINE_SOURCE :: u32 where "AUDIO_ELEMENT_SINE_SOURCE \<equiv> 4"
abbreviation (input) AUDIO_ELEMENT_PLL :: u32 where "AUDIO_ELEMENT_PLL \<equiv> 5"

text \<open>The generic part of \<open>struct audio_element\<close>; the element's data and its functions follow its type.\<close>

record audio_element =
  el_type :: u32
  el_sample_rate :: u32
  el_period :: u32
  el_id :: u32

section \<open>Control commands\<close>

text \<open>
  A command is a message of 32-bit words; the members of the command structures are words at fixed
  places, the union's members overlay each other. The response a command sends, when there is a control
  handle, is a value of \<open>response\<close>: its type and its status.
\<close>

type_synonym cmd = "nat \<Rightarrow> u32"
type_synonym response = "u32 \<times> u32"

abbreviation (input) cmd_type :: "cmd \<Rightarrow> u32" where "cmd_type c \<equiv> c 0"
abbreviation (input) cmd_pipeline_id :: "cmd \<Rightarrow> u32" where "cmd_pipeline_id c \<equiv> c 1"
abbreviation (input) cmd_element_type :: "cmd \<Rightarrow> u32" where "cmd_element_type c \<equiv> c 2"
abbreviation (input) cmd_element_id :: "cmd \<Rightarrow> u32" where "cmd_element_id c \<equiv> c 3"
abbreviation (input) cmd_routing_output :: "cmd \<Rightarrow> u32" where "cmd_routing_output c \<equiv> c 4"
abbreviation (input) cmd_routing_input :: "cmd \<Rightarrow> u32" where "cmd_routing_input c \<equiv> c 5"
abbreviation (input) cmd_pll_id :: "cmd \<Rightarrow> u32" where "cmd_pll_id c \<equiv> c 4"

abbreviation (input) AUDIO_CMD_TYPE_RUN :: u32 where "AUDIO_CMD_TYPE_RUN \<equiv> 0x100"
abbreviation (input) AUDIO_CMD_TYPE_STOP :: u32 where "AUDIO_CMD_TYPE_STOP \<equiv> 0x101"
abbreviation (input) AUDIO_RESP_TYPE :: u32 where "AUDIO_RESP_TYPE \<equiv> 0x110"
abbreviation (input) AUDIO_CMD_TYPE_PIPELINE_DUMP :: u32 where "AUDIO_CMD_TYPE_PIPELINE_DUMP \<equiv> 0x200"
abbreviation (input) AUDIO_RESP_TYPE_PIPELINE :: u32 where "AUDIO_RESP_TYPE_PIPELINE \<equiv> 0x2ff"
abbreviation (input) AUDIO_CMD_TYPE_ELEMENT_DUMP :: u32 where "AUDIO_CMD_TYPE_ELEMENT_DUMP \<equiv> 0x300"
abbreviation (input) AUDIO_RESP_TYPE_ELEMENT :: u32 where "AUDIO_RESP_TYPE_ELEMENT \<equiv> 0x3ff"
abbreviation (input) AUDIO_CMD_TYPE_ELEMENT_ROUTING_CONNECT :: u32 where "AUDIO_CMD_TYPE_ELEMENT_ROUTING_CONNECT \<equiv> 0x400"
abbreviation (input) AUDIO_CMD_TYPE_ELEMENT_ROUTING_DISCONNECT :: u32 where "AUDIO_CMD_TYPE_ELEMENT_ROUTING_DISCONNECT \<equiv> 0x401"
abbreviation (input) AUDIO_RESP_TYPE_ELEMENT_ROUTING :: u32 where "AUDIO_RESP_TYPE_ELEMENT_ROUTING \<equiv> 0x44f"
abbreviation (input) AUDIO_CMD_TYPE_ELEMENT_PLL_ENABLE :: u32 where "AUDIO_CMD_TYPE_ELEMENT_PLL_ENABLE \<equiv> 0x450"
abbreviation (input) AUDIO_CMD_TYPE_ELEMENT_PLL_DISABLE :: u32 where "AUDIO_CMD_TYPE_ELEMENT_PLL_DISABLE \<equiv> 0x451"
abbreviation (input) AUDIO_CMD_TYPE_ELEMENT_PLL_ID :: u32 where "AUDIO_CMD_TYPE_ELEMENT_PLL_ID \<equiv> 0x452"
abbreviation (input) AUDIO_RESP_TYPE_ELEMENT_PLL :: u32 where "AUDIO_RESP_TYPE_ELEMENT_PLL \<equiv> 0x45f"
abbreviation (input) AUDIO_RESP_STATUS_SUCCESS :: u32 where "AUDIO_RESP_STATUS_SUCCESS \<equiv> 0"
abbreviation (input) AUDIO_RESP_STATUS_ERROR :: u32 where "AUDIO_RESP_STATUS_ERROR \<equiv> 1"

section \<open>The world of the elements\<close>

text \<open>
  The sample memory, the buffer array of the pipeline and the hardware. \<open>&buffer[i]\<close> is the index
  \<open>i\<close> into the array.
\<close>

record ('s, 'h) world =
  smem :: "'s mem"
  bufs :: "audio_buffer list"
  hws :: 'h

abbreviation (input) the_buf :: "('s, 'h) world \<Rightarrow> nat \<Rightarrow> audio_buffer" where
  "the_buf w i \<equiv> bufs w ! i"

definition buf_upd :: "nat \<Rightarrow> (audio_buffer \<Rightarrow> audio_buffer) \<Rightarrow> ('s, 'h) world \<Rightarrow> ('s, 'h) world" where
  "buf_upd i f w = w\<lparr>bufs := (bufs w)[i := f (bufs w ! i)]\<rparr>"

definition on_buf ::
  "nat \<Rightarrow> ('s mem \<times> audio_buffer \<Rightarrow> 's mem \<times> audio_buffer) \<Rightarrow> ('s, 'h) world \<Rightarrow> ('s, 'h) world" where
  "on_buf i f w = (let (m, b) = f (smem w, bufs w ! i) in w\<lparr>smem := m, bufs := (bufs w)[i := b]\<rparr>)"

text \<open>The elements record their connections in the buffers they write and read.\<close>

definition set_input :: "audio_element \<Rightarrow> u32 \<Rightarrow> audio_buffer \<Rightarrow> audio_buffer" where
  "set_input el i b = b\<lparr>input_type := ucast (el_type el), input_element_id := ucast (el_id el),
     input_id := ucast i\<rparr>"

definition set_output :: "audio_element \<Rightarrow> u32 \<Rightarrow> audio_buffer \<Rightarrow> audio_buffer" where
  "set_output el i b = b\<lparr>output_type := ucast (el_type el), output_element_id := ucast (el_id el),
     output_id := ucast i\<rparr>"

lemma set_io_frame [simp]:
  "base (set_input el i b) = base b" "bsize (set_input el i b) = bsize b" "rd (set_input el i b) = rd b"
  "wr (set_input el i b) = wr b" "size_mask (set_input el i b) = size_mask b"
  "base (set_output el i b) = base b" "bsize (set_output el i b) = bsize b" "rd (set_output el i b) = rd b"
  "wr (set_output el i b) = wr b" "size_mask (set_output el i b) = size_mask b"
  by (simp_all add: set_input_def set_output_def)

section \<open>Period-aligned buffers\<close>

text \<open>
  The elements write and read whole periods without wrapping inside one. That is right for a buffer
  whose size and indices are multiples of the period: the slots of the next period to write and to
  read lie inside the storage.
\<close>

definition buf_aligned :: "u32 \<Rightarrow> audio_buffer \<Rightarrow> bool" where
  "buf_aligned P b \<longleftrightarrow> buf_wf b \<and> unat P dvd unat (bsize b) \<and> unat P dvd unat (rd b) \<and> unat P dvd unat (wr b)"

definition write_slots :: "u32 \<Rightarrow> audio_buffer \<Rightarrow> nat set" where
  "write_slots P b = {base b + unat (wr b) ..< base b + unat (wr b) + unat P}"

definition read_slots :: "u32 \<Rightarrow> audio_buffer \<Rightarrow> nat set" where
  "read_slots P b = {base b + unat (rd b) ..< base b + unat (rd b) + unat P}"

definition write_block :: "u32 \<Rightarrow> 's mem \<Rightarrow> audio_buffer \<Rightarrow> 's cell list" where
  "write_block P m b = map (\<lambda>i. m (base b + unat (wr b) + i)) [0..<unat P]"

definition read_block :: "u32 \<Rightarrow> 's mem \<Rightarrow> audio_buffer \<Rightarrow> 's cell list" where
  "read_block P m b = map (\<lambda>i. m (base b + unat (rd b) + i)) [0..<unat P]"

definition buf_apart :: "audio_buffer \<Rightarrow> audio_buffer \<Rightarrow> bool" where
  "buf_apart b c \<longleftrightarrow> base b + unat (bsize b) \<le> base c \<or> base c + unat (bsize c) \<le> base b"

lemma buf_alignedD:
  assumes "buf_aligned P b"
  shows "buf_wf b" "unat (wr b) + unat P \<le> unat (bsize b)" "unat (rd b) + unat P \<le> unat (bsize b)"
    "unat P \<le> 2 ^ 31"
proof -
  show wf: "buf_wf b" using assms by (simp add: buf_aligned_def)
  have step: "x + unat P \<le> n" if "unat P dvd x" "unat P dvd n" "x < n" for x n
    using that by (metis dvd_add_triv_right_iff dvd_diff_nat dvd_imp_le le_diff_conv2 less_imp_le_nat
        zero_less_diff add.commute)
  show fits: "unat (wr b) + unat P \<le> unat (bsize b)" "unat (rd b) + unat P \<le> unat (bsize b)"
    using assms buf_wf_bounds [OF wf] by (auto simp: buf_aligned_def intro: step)
  then show "unat P \<le> 2 ^ 31" using buf_wf_bounds [OF wf] by linarith
qed

lemma buf_aligned_update:
  assumes "buf_aligned P b"
  shows "buf_aligned P (audio_buf_write_update b P)" "buf_aligned P (audio_buf_read_update b P)"
proof -
  have wf: "buf_wf b" by (rule buf_alignedD [OF assms])
  have "unat P dvd unat ((x + P) AND size_mask b)" if "unat P dvd unat x" for x
    using that assms by (simp add: unat_advance [OF wf refl] buf_aligned_def dvd_mod)
  then show "buf_aligned P (audio_buf_write_update b P)" "buf_aligned P (audio_buf_read_update b P)"
    using assms wf buf_wf_write_update [OF wf, of P] buf_wf_read_update [OF wf, of P]
    by (simp_all add: buf_aligned_def)
      (simp_all add: audio_buf_write_update_def audio_buf_read_update_def)
qed

lemma buf_aligned_set_io [simp]:
  "buf_aligned P (set_input el i b) = buf_aligned P b" "buf_aligned P (set_output el i b) = buf_aligned P b"
  by (simp_all add: buf_aligned_def buf_wf_def)

lemma write_slots_range: "buf_aligned P b \<Longrightarrow> write_slots P b \<subseteq> buf_range b"
  using buf_alignedD(2) [of P b] by (auto simp: write_slots_def buf_range_def)

lemma buf_apart_ranges: "buf_apart b c \<Longrightarrow> a \<in> buf_range b \<Longrightarrow> a \<notin> buf_range c"
  by (auto simp: buf_apart_def buf_range_def)

lemma buf_apart_sym: "buf_apart b c = buf_apart c b"
  by (auto simp: buf_apart_def)

lemma read_block_frame:
  assumes "buf_aligned P b" and "\<And>a. a \<in> buf_range b \<Longrightarrow> m' a = m a"
  shows "read_block P m' b = read_block P m b"
  using buf_alignedD(3) [OF assms(1)] assms(2) by (simp add: read_block_def buf_range_def)

lemma write_block_frame:
  assumes "buf_aligned P b" and "\<And>a. a \<in> buf_range b \<Longrightarrow> m' a = m a"
  shows "write_block P m' b = write_block P m b"
  using buf_alignedD(2) [OF assms(1)] assms(2) by (simp add: write_block_def buf_range_def)

text \<open>The loop that stores one period of samples with \<open>__audio_buf_write\<close>.\<close>

lemma emit_block:
  assumes "buf_aligned P b"
  shows "for_upto (unat P) (\<lambda>i m. audio_buf_write_block m b (of_nat i) [v i] 1) m a =
    (if a \<in> write_slots P b then v (a - (base b + unat (wr b))) else m a)"
proof -
  note al = buf_alignedD [OF assms]
  have eq: "for_upto (unat P) (\<lambda>i m. audio_buf_write_block m b (of_nat i) [v i] 1) m =
      for_upto (unat P) (\<lambda>i m. m(audio_buf_write_addr b (of_nat i) := v i)) m"
    by (rule for_upto_cong) (simp add: audio_buf_write_block_def audio_memcpy_def)
  show ?thesis
    unfolding eq write_slots_def by (rule for_upto_store) (rule buf_block_addr [OF al(1,2)])
qed

lemma write_block_stored:
  assumes "\<And>a. a \<in> write_slots P b \<Longrightarrow> m a = v (a - (base b + unat (wr b)))"
  shows "write_block P m b = map v [0..<unat P]"
  using assms by (simp add: write_block_def write_slots_def)

text \<open>\<open>__audio_buf_copy\<close> of one period between two buffers that are apart.\<close>

lemma copy_block:
  assumes dst: "buf_aligned P dst" and src: "buf_aligned P src" and apart: "buf_apart src dst"
  shows "a \<notin> write_slots P dst \<Longrightarrow> audio_buf_copy m dst src P a = m a"
    and "write_block P (audio_buf_copy m dst src P) dst = read_block P m src"
proof -
  have eq: "audio_buf_copy m dst src P a =
      (if a \<in> write_slots P dst then m (base src + unat (rd src) + (a - (base dst + unat (wr dst)))) else m a)"
    for a
    unfolding audio_buf_copy_def write_slots_def
  proof (rule audio_memcpy_spec)
    fix m' i
    assume i: "i < unat P"
      and kept: "\<And>a. a \<notin> {base dst + unat (wr dst) ..< base dst + unat (wr dst) + unat P} \<Longrightarrow> m' a = m a"
    have "base src + unat (rd src) + i \<in> buf_range src"
      using buf_alignedD(3) [OF src] i by (simp add: buf_range_def)
    then have "base src + unat (rd src) + i \<notin> write_slots P dst"
      using buf_apart_ranges [OF apart] write_slots_range [OF dst] by blast
    then show "m' (base src + unat (rd src) + i) = m (base src + unat (rd src) + i)"
      by (intro kept) (simp add: write_slots_def)
  qed
  show "a \<notin> write_slots P dst \<Longrightarrow> audio_buf_copy m dst src P a = m a" by (simp add: eq)
  show "write_block P (audio_buf_copy m dst src P) dst = read_block P m src"
    by (simp add: write_block_def read_block_def eq write_slots_def)
qed

section \<open>Aligned worlds\<close>

text \<open>Every buffer of the array is aligned to the period, and no two of them overlap.\<close>

definition world_ok :: "u32 \<Rightarrow> ('s, 'h) world \<Rightarrow> bool" where
  "world_ok P w \<longleftrightarrow>
     list_all (buf_aligned P) (bufs w) \<and>
     (\<forall>i < length (bufs w). \<forall>j < length (bufs w). i \<noteq> j \<longrightarrow> buf_apart (bufs w ! i) (bufs w ! j))"

lemma world_okD:
  assumes "world_ok P w"
  shows "i < length (bufs w) \<Longrightarrow> buf_aligned P (bufs w ! i)"
    "i < length (bufs w) \<Longrightarrow> j < length (bufs w) \<Longrightarrow> i \<noteq> j \<Longrightarrow> buf_apart (bufs w ! i) (bufs w ! j)"
  using assms by (simp_all add: world_ok_def list_all_length)

lemma world_ok_upd:
  assumes "world_ok P w" and "i < length (bufs w)" and "buf_aligned P b"
    and "base b = base (bufs w ! i)" and "bsize b = bsize (bufs w ! i)"
  shows "world_ok P (w\<lparr>smem := m, bufs := (bufs w)[i := b], hws := h\<rparr>)"
  using assms by (auto simp: world_ok_def list_all_length nth_list_update buf_apart_def)

lemma buf_upd_simps [simp]:
  "smem (buf_upd i f w) = smem w" "hws (buf_upd i f w) = hws w"
  "length (bufs (buf_upd i f w)) = length (bufs w)"
  "i < length (bufs w) \<Longrightarrow> bufs (buf_upd i f w) ! j = (if j = i then f (bufs w ! i) else bufs w ! j)"
  by (simp_all add: buf_upd_def nth_list_update)

lemma world_ok_smem [simp]: "world_ok P (w\<lparr>smem := m\<rparr>) = world_ok P w"
  and world_ok_hws [simp]: "world_ok P (w\<lparr>hws := h\<rparr>) = world_ok P w"
  by (simp_all add: world_ok_def)

lemma world_ok_buf_upd:
  assumes "world_ok P w" and "i < length (bufs w)" and "buf_aligned P (f (bufs w ! i))"
    and "base (f (bufs w ! i)) = base (bufs w ! i)" and "bsize (f (bufs w ! i)) = bsize (bufs w ! i)"
  shows "world_ok P (buf_upd i f w)"
  using world_ok_upd [OF assms, where m = "smem w" and h = "hws w"] by (simp add: buf_upd_def)

text \<open>
  What a source does in a run: one period appears at the write position of its output, whose write index
  advances by one period; nothing else changes.
\<close>

definition emitted :: "u32 \<Rightarrow> nat \<Rightarrow> 's cell list \<Rightarrow> ('s, 'h) world \<Rightarrow> ('s, 'h) world \<Rightarrow> bool" where
  "emitted P out blk w w' \<longleftrightarrow>
     write_block P (smem w') (bufs w ! out) = blk \<and>
     bufs w' = (bufs w)[out := audio_buf_write_update (bufs w ! out) P] \<and> hws w' = hws w \<and>
     (\<forall>a. a \<notin> write_slots P (bufs w ! out) \<longrightarrow> smem w' a = smem w a)"

lemma emittedI:
  assumes "world_ok P w" and "out < length (bufs w)"
    and "\<And>a. m a = (if a \<in> write_slots P (bufs w ! out)
                  then v (a - (base (bufs w ! out) + unat (wr (bufs w ! out)))) else smem w a)"
  shows "emitted P out (map v [0..<unat P]) w (buf_upd out (\<lambda>b. audio_buf_write_update b P) (w\<lparr>smem := m\<rparr>))"
  using assms by (simp add: emitted_def write_block_stored) (simp add: buf_upd_def)

lemma emitted_world_ok:
  assumes "emitted P out blk w w'" and "world_ok P w" and "out < length (bufs w)"
  shows "world_ok P w'" "length (bufs w') = length (bufs w)"
proof -
  have "w' = w\<lparr>smem := smem w', bufs := (bufs w)[out := audio_buf_write_update (bufs w ! out) P], hws := hws w\<rparr>"
    using assms(1) by (simp add: emitted_def)
  then show "world_ok P w'"
    using world_ok_upd [OF assms(2,3) buf_aligned_update(1) [OF world_okD(1) [OF assms(2,3)]],
        where m = "smem w'" and h = "hws w"] by simp
  show "length (bufs w') = length (bufs w)" using assms(1) by (simp add: emitted_def)
qed

text \<open>The loop that stores a period, with its effect on the world.\<close>

lemma emit_loop:
  assumes "world_ok P w" and "out < length (bufs w)"
  shows "emitted P out (map v [0..<unat P]) w
    (buf_upd out (\<lambda>b. audio_buf_write_update b P)
      (w\<lparr>smem := for_upto (unat P)
          (\<lambda>i m. audio_buf_write_block m (bufs w ! out) (of_nat i) [v i] 1) (smem w)\<rparr>))"
  by (rule emittedI [OF assms]) (rule emit_block [OF world_okD(1) [OF assms]])

lemma emit_silence:
  assumes "world_ok P w" and "out < length (bufs w)"
  shows "emitted P out (replicate (unat P) AUDIO_SAMPLE_SILENCE) w (on_buf out (\<lambda>s. audio_buf_write_silence s P) w)"
proof -
  note al = buf_alignedD [OF world_okD(1) [OF assms]]
  have "on_buf out (\<lambda>s. audio_buf_write_silence s P) w =
      buf_upd out (\<lambda>b. audio_buf_write_update b P)
        (w\<lparr>smem := fst (audio_buf_write_silence (smem w, bufs w ! out) P)\<rparr>)"
    by (simp add: on_buf_def buf_upd_def case_prod_beta)
  moreover have "emitted P out (map (\<lambda>_. AUDIO_SAMPLE_SILENCE) [0..<unat P]) w
      (buf_upd out (\<lambda>b. audio_buf_write_update b P)
        (w\<lparr>smem := fst (audio_buf_write_silence (smem w, bufs w ! out) P)\<rparr>))"
    by (rule emittedI [OF assms]) (simp add: audio_buf_write_silence_mem [OF al(1,2)] write_slots_def)
  ultimately show ?thesis by (simp add: map_replicate_const)
qed

text \<open>
  A loop over different outputs, each step of which produces one period at the write position of its
  output (\<open>T i\<close> of what was there before) and advances it.
\<close>

definition outs_emitted ::
  "u32 \<Rightarrow> nat list \<Rightarrow> (nat \<Rightarrow> 's cell list) \<Rightarrow> ('s, 'h) world \<Rightarrow> ('s, 'h) world \<Rightarrow> bool" where
  "outs_emitted P os blk w w' \<longleftrightarrow>
     hws w' = hws w \<and> length (bufs w') = length (bufs w) \<and>
     (\<forall>j < length (bufs w). bufs w' ! j =
        (if j \<in> set os then audio_buf_write_update (bufs w ! j) P else bufs w ! j)) \<and>
     (\<forall>i < length os. write_block P (smem w') (bufs w ! (os ! i)) = blk i) \<and>
     (\<forall>a. (\<forall>i < length os. a \<notin> write_slots P (bufs w ! (os ! i))) \<longrightarrow> smem w' a = smem w a)"

lemma outs_emitted_world_ok:
  assumes "outs_emitted P os blk w w'" and "world_ok P w"
  shows "world_ok P w'"
proof -
  have len: "length (bufs w') = length (bufs w)" using assms(1) by (simp add: outs_emitted_def)
  have "buf_aligned P (bufs w' ! j) \<and> base (bufs w' ! j) = base (bufs w ! j) \<and> bsize (bufs w' ! j) = bsize (bufs w ! j)"
    if "j < length (bufs w)" for j
    using assms that world_okD(1) [OF assms(2) that] buf_aligned_update(1) by (auto simp: outs_emitted_def)
  then show ?thesis
    using assms(2) len by (auto simp: world_ok_def list_all_length buf_apart_def)
qed

lemma write_slots_apart:
  assumes "world_ok P w" and "i < length (bufs w)" and "j < length (bufs w)" and "i \<noteq> j"
    and "a \<in> buf_range (bufs w ! i)"
  shows "a \<notin> write_slots P (bufs w ! j)"
  using buf_apart_ranges [OF world_okD(2) [OF assms(1-4)] assms(5)]
    write_slots_range [OF world_okD(1) [OF assms(1,3)]] by blast

lemma read_slots_range: "buf_aligned P b \<Longrightarrow> read_slots P b \<subseteq> buf_range b"
  using buf_alignedD(3) [of P b] by (auto simp: read_slots_def buf_range_def)

lemma read_slots_apart:
  assumes "world_ok P w" and "i < length (bufs w)" and "j < length (bufs w)" and "i \<noteq> j"
    and "a \<in> buf_range (bufs w ! i)"
  shows "a \<notin> read_slots P (bufs w ! j)"
  using buf_apart_ranges [OF world_okD(2) [OF assms(1-4)] assms(5)]
    read_slots_range [OF world_okD(1) [OF assms(1,3)]] by blast

lemma out_loop_step:
  assumes ok: "world_ok P w" and d: "distinct (os @ [out])" and out: "out < length (bufs w)"
    and os: "\<forall>i \<in> set os. i < length (bufs w)"
    and g: "\<And>a. a \<notin> write_slots P (bufs w ! out) \<Longrightarrow> g (bufs w ! out) m a = m a"
    and st: "outs_emitted P os blk w w'" and m: "m = smem w'"
  shows "outs_emitted P (os @ [out])
      (\<lambda>i. if i = length os then write_block P (g (bufs w ! out) m) (bufs w ! out) else blk i) w
      (buf_upd out (\<lambda>b. audio_buf_write_update b P) (w'\<lparr>smem := g (bufs w' ! out) (smem w')\<rparr>))"
proof -
  have b: "bufs w' ! out = bufs w ! out" using st out d by (simp add: outs_emitted_def)
  have keep: "write_block P (g (bufs w ! out) m) (bufs w ! (os ! i)) = write_block P m (bufs w ! (os ! i))"
    if i: "i < length os" for i
  proof -
    have l: "os ! i < length (bufs w)" "os ! i \<noteq> out" using os d i by auto
    show ?thesis
      by (rule write_block_frame [OF world_okD(1) [OF ok l(1)]]) (rule g, rule write_slots_apart [OF ok l(1) out l(2)])
  qed
  show ?thesis
    using st out b keep g m by (auto simp: outs_emitted_def nth_append less_Suc_eq)
qed

lemma out_loop:
  assumes ok: "world_ok P w" and d: "distinct os" and os: "\<forall>i \<in> set os. i < length (bufs w)"
    and step: "\<And>i w'. i < length os \<Longrightarrow> step i w' =
      buf_upd (os ! i) (\<lambda>b. audio_buf_write_update b P) (w'\<lparr>smem := g i (bufs w' ! (os ! i)) (smem w')\<rparr>)"
    and g: "\<And>i b m a. i < length os \<Longrightarrow> buf_aligned P b \<Longrightarrow> a \<notin> write_slots P b \<Longrightarrow> g i b m a = m a"
    and T: "\<And>i b m. i < length os \<Longrightarrow> buf_aligned P b \<Longrightarrow> write_block P (g i b m) b = T i (write_block P m b)"
  shows "outs_emitted P os (\<lambda>i. T i (write_block P (smem w) (bufs w ! (os ! i)))) w (for_upto (length os) step w)"
proof -
  let ?blk = "\<lambda>i. T i (write_block P (smem w) (bufs w ! (os ! i)))"
  have "n \<le> length os \<Longrightarrow> outs_emitted P (take n os) ?blk w (for_upto n step w)" for n
  proof (induction n)
    case 0
    then show ?case by (simp add: outs_emitted_def)
  next
    case (Suc n)
    then have n: "n < length os" by simp
    let ?w = "for_upto n step w" and ?o = "os ! n"
    have st: "outs_emitted P (take n os) ?blk w ?w" using Suc by simp
    have o: "?o < length (bufs w)" using os n by simp
    have al: "buf_aligned P (bufs w ! ?o)" by (rule world_okD(1) [OF ok o])
    have tk: "take (Suc n) os = take n os @ [?o]" by (rule take_Suc_conv_app_nth [OF n])
    have d': "distinct (take n os @ [?o])" using distinct_take [OF d, of "Suc n"] by (simp only: tk)
    have old: "write_block P (smem ?w) (bufs w ! ?o) = write_block P (smem w) (bufs w ! ?o)"
    proof (rule write_block_frame [OF al])
      fix a assume a: "a \<in> buf_range (bufs w ! ?o)"
      have "a \<notin> write_slots P (bufs w ! (take n os ! i))" if i: "i < n" for i
        using i n os d by (intro write_slots_apart [OF ok o _ _ a]) (auto simp: nth_eq_iff_index_eq)
      then show "smem ?w a = smem w a" using st by (simp add: outs_emitted_def)
    qed
    have "outs_emitted P (take n os @ [?o])
        (\<lambda>i. if i = length (take n os) then write_block P (g n (bufs w ! ?o) (smem ?w)) (bufs w ! ?o) else ?blk i) w
        (buf_upd ?o (\<lambda>b. audio_buf_write_update b P) (?w\<lparr>smem := g n (bufs ?w ! ?o) (smem ?w)\<rparr>))"
      by (rule out_loop_step [OF ok d' o _ _ st refl]) (use os in \<open>auto dest: in_set_takeD intro: g [OF n al]\<close>)
    moreover have "(\<lambda>i. if i = length (take n os) then write_block P (g n (bufs w ! ?o) (smem ?w)) (bufs w ! ?o)
        else ?blk i) = ?blk"
      using n old T [OF n al] by (auto simp: fun_eq_iff)
    ultimately show ?case using tk step [OF n, of ?w] by simp
  qed
  from this [of "length os"] show ?thesis by simp
qed

text \<open>Recording a connection does not change where a buffer lies or what its indices are.\<close>

definition same_geometry :: "audio_buffer \<Rightarrow> audio_buffer \<Rightarrow> bool" where
  "same_geometry b c \<longleftrightarrow> base b = base c \<and> bsize b = bsize c \<and> rd b = rd c \<and> wr b = wr c \<and>
     size_mask b = size_mask c"

definition same_buffers :: "('s, 'h) world \<Rightarrow> ('s, 'h) world \<Rightarrow> bool" where
  "same_buffers w v \<longleftrightarrow> smem w = smem v \<and> hws w = hws v \<and> list_all2 same_geometry (bufs w) (bufs v)"

lemma same_buffers_refl: "same_buffers w w"
  by (simp add: same_buffers_def same_geometry_def list_all2_same)

lemma same_buffersD:
  assumes "same_buffers w v"
  shows "smem w = smem v" "hws w = hws v" "length (bufs w) = length (bufs v)"
    "j < length (bufs w) \<Longrightarrow> same_geometry (bufs w ! j) (bufs v ! j)"
  using assms by (auto simp: same_buffers_def list_all2_conv_all_nth)

lemma same_geometry_aligned: "same_geometry b c \<Longrightarrow> buf_aligned P b = buf_aligned P c"
  by (simp add: same_geometry_def buf_aligned_def buf_wf_def)

lemma same_geometry_apart:
  "same_geometry b c \<Longrightarrow> buf_apart d b = buf_apart d c"
  "same_geometry b c \<Longrightarrow> same_geometry b' c' \<Longrightarrow> buf_apart b b' = buf_apart c c'"
  by (auto simp: same_geometry_def buf_apart_def)

lemma same_buffers_world_ok:
  assumes "same_buffers w v" and "world_ok P v"
  shows "world_ok P w"
proof -
  note sb = same_buffersD [OF assms(1)] and ok = world_okD [OF assms(2)]
  show ?thesis
    using ok sb(3) same_geometry_aligned [OF sb(4)] same_geometry_apart(2) [OF sb(4) sb(4)]
    by (simp add: world_ok_def list_all_length)
qed

lemma same_buffers_buf_upd:
  assumes "same_buffers w v" and "\<And>b. same_geometry (f b) b"
  shows "same_buffers (buf_upd i f w) v"
proof (cases "i < length (bufs w)")
  case True
  have "same_geometry (f (bufs w ! i)) (bufs v ! i)"
    using assms(2) [of "bufs w ! i"] same_buffersD(4) [OF assms(1) True] by (simp add: same_geometry_def)
  then show ?thesis
    using assms(1) True by (auto simp: same_buffers_def buf_upd_def list_all2_conv_all_nth nth_list_update)
next
  case False
  then show ?thesis using assms(1) by (simp add: buf_upd_def same_buffers_def list_update_beyond)
qed

lemma same_geometry_set_io: "same_geometry (set_input el i b) b" "same_geometry (set_output el i b) b"
  by (simp_all add: same_geometry_def)

section \<open>A concrete world\<close>

text \<open>Three buffers of two periods of two samples each, over a memory of numbered samples.\<close>

definition demo_slot :: "nat \<Rightarrow> u32 \<Rightarrow> audio_buffer" where
  "demo_slot x n = \<lparr>base = x, rd = 0, wr = 0, bsize = n, size_mask = n - 1, silence = 0, flags = 0,
     shared_id = 0, input_type = 0, input_id = 0, input_element_id = 0, output_type = 0, output_id = 0,
     output_element_id = 0\<rparr>"

definition demo_world :: "'h \<Rightarrow> (int, 'h) world" where
  "demo_world h =
     \<lparr>smem = (\<lambda>a. Sample (if a < 100 then int a else 0)),
      bufs = [demo_slot 0 4, demo_slot 4 4, demo_slot 8 4], hws = h\<rparr>"

lemma demo_slot_simps [simp]:
  "base (demo_slot x n) = x" "rd (demo_slot x n) = 0" "wr (demo_slot x n) = 0" "bsize (demo_slot x n) = n"
  "silence (demo_slot x n) = 0"
  by (simp_all add: demo_slot_def)

lemma demo_slot_aligned:
  assumes "k < 32" and "unat n = 2 ^ k" and "unat P dvd unat n"
  shows "buf_aligned P (demo_slot x n)"
proof -
  have "n = 2 ^ k" by (rule u32_power_eq [OF assms(1,2)])
  then have "buf_wf (demo_slot x n)"
    using assms by (intro buf_wfI [of k]) (simp_all add: demo_slot_def mask_eq_decr_exp)
  then show ?thesis using assms by (simp add: buf_aligned_def)
qed

lemma demo_world_length [simp]: "length (bufs (demo_world h)) = 3"
  by (simp add: demo_world_def)

lemma demo_world_ok: "world_ok 2 (demo_world h)"
proof -
  have "buf_aligned 2 (demo_slot x 4)" for x by (rule demo_slot_aligned [of 2]) simp_all
  then show ?thesis by (simp add: world_ok_def demo_world_def All_less_Suc buf_apart_def)
qed

text \<open>A configuration of two samples per period at 48 kHz, without connections, to start from.\<close>

definition demo_config :: "int audio_element_config" where
  "demo_config = \<lparr>ec_type = AUDIO_ELEMENT_ROUTING, ec_inputs = 0, ec_input = (\<lambda>_. 0), ec_outputs = 0,
     ec_output = (\<lambda>_. 0), ec_period = 2, ec_sample_rate = 48000,
     ec_dtmf = \<lparr>dtc_us = 0, dtc_pause_us = 0, dtc_sequence_pause_us = 0, dtc_amplitude = 0, dtc_sequence = []\<rparr>,
     ec_pll = \<lparr>pc_src_sai_id = 0, pc_dst_sai_id = 0, pc_pll_id = 0\<rparr>,
     ec_sai = \<lparr>sec_sai_n = 0, sec_sai = \<lambda>_. \<lparr>sic_id = 0, sic_line_n = 0,
       sic_line = \<lambda>_. \<lparr>slc_id = 0, slc_channel_n = 0\<rparr>\<rparr>\<rparr>,
     ec_sine = \<lparr>sc_freq = 0, sc_amplitude = 0\<rparr>\<rparr>"

text \<open>Arithmetic on integers in place of the floating point unit, for concrete runs.\<close>

definition int_fp :: "int fp" where
  "int_fp = \<lparr>fp_add = (+), fp_mul = (*), fp_div = (\<lambda>a b. a), fp_le = (\<le>), fp_lt = (<), fp_uint = uint,
     fp_pi = 3, fp_sin = id\<rparr>"

text \<open>
  Hardware with a clock that all devices share and a list of the words and PLL corrections it received; its FIFO
  pointers stand at four words.
\<close>

definition demo_hw :: "(nat \<times> s64 list) hw" where
  "demo_hw = \<lparr>hw_sai_base = (\<lambda>i. Some (unat i)), hw_fifo_count = (\<lambda>_. 32), hw_rfr = (\<lambda>_ _ _. (4, 0)),
     hw_tfr = (\<lambda>_ _ _. (4, 0)), hw_fifo_read = (\<lambda>_ _ (t, l). (of_nat t, (Suc t, l))),
     hw_fifo_write = (\<lambda>_ _ v (t, l). (t, ucast v # l)), hw_enable_rx = (\<lambda>_ h. h), hw_disable_rx = (\<lambda>_ h. h),
     hw_enable_tx = (\<lambda>_ h. h), hw_disable_tx = (\<lambda>_ h. h), hw_rx_bitclock = (\<lambda>(t, _) _. of_nat t),
     hw_pll_adjust = (\<lambda>_ ppb (t, l). (t, ppb # l))\<rparr>"

end
