(* ===== verification/Audio_Routing.thy ===== *)
theory Audio_Routing
  imports Audio_World
begin

text \<open>
  The routing element, \<open>audio/audio_element_routing.c\<close>: a crossbar that copies, each period, the input
  mapped to each output, or silence for a disconnected output.
\<close>

section \<open>State and operations\<close>

text \<open>An entry of the input table points to a buffer of the pipeline or to the element's own silence.\<close>

datatype buf_ref = Pipe_buf nat | Silence_buf

record routing_output =
  ro_input :: u32
  ro_buf :: nat

record routing_element =
  rt_inputs :: u32
  rt_outputs :: u32
  rt_in :: "buf_ref list"
  rt_out :: "routing_output list"
  rt_silence :: audio_buffer

definition routing_element_response :: "bool \<Rightarrow> u32 \<Rightarrow> response list" where
  "routing_element_response ctrl_handle status =
     (if ctrl_handle then [(AUDIO_RESP_TYPE_ELEMENT_ROUTING, status)] else [])"

text \<open>
  The element is \<open>None\<close> when the lookup found none. The result is the return code, the responses sent
  and the element; the sizes of the connect and disconnect commands are 24 and 20 bytes.
\<close>

definition routing_element_ctrl ::
  "(audio_element \<times> routing_element) option \<Rightarrow> cmd \<Rightarrow> u32 \<Rightarrow> bool \<Rightarrow>
     int \<times> response list \<times> (audio_element \<times> routing_element) option" where
  "routing_element_ctrl element cmd len ctrl_handle =
     (let err = (- 1, routing_element_response ctrl_handle AUDIO_RESP_STATUS_ERROR, element) in
      case element of
        None \<Rightarrow> err
      | Some (el, routing) \<Rightarrow>
          if el_type el \<noteq> AUDIO_ELEMENT_ROUTING then err
          else
            (let target =
               (if cmd_type cmd = AUDIO_CMD_TYPE_ELEMENT_ROUTING_CONNECT then
                  if len \<noteq> 24 then None
                  else if cmd_routing_output cmd \<ge> rt_outputs routing then None
                  else if cmd_routing_input cmd \<ge> rt_inputs routing then None
                  else Some (cmd_routing_output cmd, cmd_routing_input cmd)
                else if cmd_type cmd = AUDIO_CMD_TYPE_ELEMENT_ROUTING_DISCONNECT then
                  if len \<noteq> 20 then None
                  else if cmd_routing_output cmd \<ge> rt_outputs routing then None
                  else Some (cmd_routing_output cmd, rt_inputs routing)
                else None)
             in case target of
                  None \<Rightarrow> err
                | Some (out, input) \<Rightarrow>
                    (0, routing_element_response ctrl_handle AUDIO_RESP_STATUS_SUCCESS,
                     Some (el, routing\<lparr>rt_out := (rt_out routing)
                       [unat out := (rt_out routing ! unat out)\<lparr>ro_input := input\<rparr>]\<rparr>))))"

definition deref :: "routing_element \<Rightarrow> ('s, 'h) world \<Rightarrow> buf_ref \<Rightarrow> audio_buffer" where
  "deref routing w ref = (case ref of Pipe_buf i \<Rightarrow> bufs w ! i | Silence_buf \<Rightarrow> rt_silence routing)"

definition ref_upd ::
  "buf_ref \<Rightarrow> (audio_buffer \<Rightarrow> audio_buffer) \<Rightarrow> routing_element \<times> ('s, 'h) world \<Rightarrow>
     routing_element \<times> ('s, 'h) world" where
  "ref_upd ref f rw = (let (routing, w) = rw in
     case ref of Pipe_buf i \<Rightarrow> (routing, buf_upd i f w)
               | Silence_buf \<Rightarrow> (routing\<lparr>rt_silence := f (rt_silence routing)\<rparr>, w))"

definition routing_copy :: "u32 \<Rightarrow> routing_element \<Rightarrow> nat \<Rightarrow> ('s, 'h) world \<Rightarrow> ('s, 'h) world" where
  "routing_copy period routing i w =
     (let src = deref routing w (rt_in routing ! unat (ro_input (rt_out routing ! i)));
          out = ro_buf (rt_out routing ! i);
          w = w\<lparr>smem := audio_buf_copy (smem w) (bufs w ! out) src period\<rparr>
      in buf_upd out (\<lambda>b. audio_buf_write_update b period) w)"

definition routing_element_run ::
  "audio_element \<Rightarrow> routing_element \<Rightarrow> ('s, 'h) world \<Rightarrow> int \<times> routing_element \<times> ('s, 'h) world" where
  "routing_element_run el routing w =
     (let w = for_upto (unat (rt_outputs routing)) (routing_copy (el_period el) routing) w;
          (routing, w) = for_upto (unat (rt_inputs routing))
            (\<lambda>i rw. ref_upd (rt_in routing ! i) (\<lambda>b. audio_buf_read_update b (el_period el)) rw)
            (routing, w)
      in (0, routing, w))"

definition routing_element_reset :: "routing_element \<Rightarrow> ('s::zero, 'h) world \<Rightarrow> ('s, 'h) world" where
  "routing_element_reset routing w =
     for_upto (unat (rt_outputs routing)) (\<lambda>i. on_buf (ro_buf (rt_out routing ! i)) audio_buf_reset) w"

definition routing_element_check_config :: "'s audio_element_config \<Rightarrow> int" where
  "routing_element_check_config config =
     (if ec_inputs config = 0 then - 1 else if ec_outputs config = 0 then - 1 else 0)"

text \<open>Structure sizes are the target's.\<close>

record routing_sizes =
  sz_routing_element :: u32
  sz_pointer :: u32
  sz_routing_output :: u32
  sz_sample :: u32

definition routing_element_size :: "routing_sizes \<Rightarrow> 's audio_element_config \<Rightarrow> u32" where
  "routing_element_size Z config =
     sz_routing_element Z + (ec_inputs config + 1) * sz_pointer Z
       + ec_outputs config * sz_routing_output Z + sz_sample Z * ec_period config"

text \<open>
  The element's memory is allocated with the pipeline; \<open>silence_storage\<close> is the place of its last part.
  \<open>mutex_ok\<close> is the result of \<open>rtos_mutex_init\<close>.
\<close>

definition routing_element_init ::
  "bool \<Rightarrow> audio_element \<Rightarrow> 's::zero audio_element_config \<Rightarrow> nat \<Rightarrow> audio_buffer \<Rightarrow>
     ('s, 'h) world \<Rightarrow> (routing_element \<times> ('s, 'h) world) option" where
  "routing_element_init mutex_ok el config silence_storage zeroed w =
     (if \<not> mutex_ok then None
      else
        (let ins = map (\<lambda>i. Pipe_buf (unat (ec_input config i))) [0..<unat (ec_inputs config)];
             outs = map (\<lambda>i. \<lparr>ro_input = ec_inputs config, ro_buf = unat (ec_output config i)\<rparr>)
                      [0..<unat (ec_outputs config)];
             (m, sil) = audio_buf_init (smem w) zeroed silence_storage (el_period el) (el_period el) 0 0;
             routing = \<lparr>rt_inputs = ec_inputs config, rt_outputs = ec_outputs config,
                        rt_in = ins @ [Silence_buf], rt_out = outs, rt_silence = sil\<rparr>;
             w = w\<lparr>smem := m\<rparr>;
             w = for_upto (unat (rt_outputs routing))
                   (\<lambda>i. buf_upd (ro_buf (rt_out routing ! i)) (set_input el (of_nat i))) w;
             (routing, w) = for_upto (unat (rt_inputs routing))
                   (\<lambda>i rw. ref_upd (rt_in routing ! i) (set_output el (of_nat i)) rw) (routing, w)
         in Some (routing, w)))"

section \<open>The crossbar\<close>

text \<open>
  A well-formed element has its tables filled, the last input entry on the silence, every mapping inside
  the input table. What it stands for is the map from outputs to connected inputs.
\<close>

definition routing_wf :: "nat \<Rightarrow> routing_element \<Rightarrow> bool" where
  "routing_wf n r \<longleftrightarrow>
     length (rt_in r) = Suc (unat (rt_inputs r)) \<and> length (rt_out r) = unat (rt_outputs r) \<and>
     (\<forall>i < unat (rt_inputs r). case rt_in r ! i of Pipe_buf j \<Rightarrow> j < n | Silence_buf \<Rightarrow> False) \<and>
     rt_in r ! unat (rt_inputs r) = Silence_buf \<and>
     list_all (\<lambda>out. ro_input out \<le> rt_inputs r \<and> ro_buf out < n) (rt_out r)"

definition routes :: "routing_element \<Rightarrow> nat \<Rightarrow> nat option" where
  "routes r out =
     (if out < unat (rt_outputs r) \<and> ro_input (rt_out r ! out) < rt_inputs r
      then Some (unat (ro_input (rt_out r ! out))) else None)"

text \<open>What a command asks of a crossbar of that size: connect or disconnect an output, or nothing valid.\<close>

definition routing_request :: "routing_element \<Rightarrow> cmd \<Rightarrow> u32 \<Rightarrow> (nat \<times> nat option) option" where
  "routing_request r cmd len =
     (if cmd_type cmd = AUDIO_CMD_TYPE_ELEMENT_ROUTING_CONNECT \<and> len = 24 \<and>
         cmd_routing_output cmd < rt_outputs r \<and> cmd_routing_input cmd < rt_inputs r
      then Some (unat (cmd_routing_output cmd), Some (unat (cmd_routing_input cmd)))
      else if cmd_type cmd = AUDIO_CMD_TYPE_ELEMENT_ROUTING_DISCONNECT \<and> len = 20 \<and>
         cmd_routing_output cmd < rt_outputs r
      then Some (unat (cmd_routing_output cmd), None)
      else None)"

definition route_to :: "routing_element \<Rightarrow> u32 \<Rightarrow> u32 \<Rightarrow> routing_element" where
  "route_to r out input = r\<lparr>rt_out := (rt_out r)[unat out := (rt_out r ! unat out)\<lparr>ro_input := input\<rparr>]\<rparr>"

lemma route_to_wf:
  assumes "routing_wf n r" and "out < rt_outputs r" and "input \<le> rt_inputs r"
  shows "routing_wf n (route_to r out input)"
  using assms by (simp add: routing_wf_def route_to_def list_all_length nth_list_update word_less_nat_alt)

lemma routes_route_to:
  assumes "routing_wf n r" and "out < rt_outputs r"
  shows "routes (route_to r out input) =
    (routes r)(unat out := if input < rt_inputs r then Some (unat input) else None)"
  using assms
  by (auto simp: routes_def route_to_def routing_wf_def fun_eq_iff nth_list_update word_less_nat_alt)

lemma routing_ctrl_step:
  assumes "el_type el = AUDIO_ELEMENT_ROUTING"
  shows "routing_element_ctrl (Some (el, r)) cmd len ctrl =
    (case routing_request r cmd len of
       None \<Rightarrow> (- 1, routing_element_response ctrl AUDIO_RESP_STATUS_ERROR, Some (el, r))
     | Some (out, i) \<Rightarrow> (0, routing_element_response ctrl AUDIO_RESP_STATUS_SUCCESS,
         Some (el, route_to r (cmd_routing_output cmd)
                 (case i of None \<Rightarrow> rt_inputs r | Some _ \<Rightarrow> cmd_routing_input cmd))))"
  using assms
  by (auto simp: routing_element_ctrl_def routing_request_def route_to_def Let_def not_less [symmetric])

lemma routing_request_cases:
  assumes "routing_request r cmd len = Some (out, i)"
  shows "cmd_routing_output cmd < rt_outputs r" and "out = unat (cmd_routing_output cmd)"
    and "i = None \<or> i = Some (unat (cmd_routing_input cmd)) \<and> cmd_routing_input cmd < rt_inputs r"
  using assms by (auto simp: routing_request_def split: if_splits)

text \<open>
  C17. The control handler refines the abstract crossbar: a valid connect or disconnect command updates
  the route of exactly its output and is answered with success; every other command (a wrong length, an
  output or input out of range, an unknown type) is answered with an error and changes nothing. The
  element stays well formed.
\<close>

theorem routing_ctrl_refines:
  assumes "routing_wf n r" and "el_type el = AUDIO_ELEMENT_ROUTING"
  shows "\<exists>r'. routing_element_ctrl (Some (el, r)) cmd len ctrl =
      (case routing_request r cmd len of
         None \<Rightarrow> (- 1, routing_element_response ctrl AUDIO_RESP_STATUS_ERROR, Some (el, r'))
       | Some _ \<Rightarrow> (0, routing_element_response ctrl AUDIO_RESP_STATUS_SUCCESS, Some (el, r'))) \<and>
    routing_wf n r' \<and>
    routes r' = (case routing_request r cmd len of
      None \<Rightarrow> routes r | Some (out, i) \<Rightarrow> (routes r)(out := i))"
proof (cases "routing_request r cmd len")
  case None
  then show ?thesis using assms by (simp add: routing_ctrl_step)
next
  case (Some oi)
  obtain out i where oi: "oi = (out, i)" by (cases oi)
  note c = routing_request_cases [OF Some [unfolded oi]]
  then show ?thesis
    using Some oi assms
      route_to_wf [OF assms(1) c(1), of "case i of None \<Rightarrow> rt_inputs r | Some _ \<Rightarrow> cmd_routing_input cmd"]
      routes_route_to [OF assms(1) c(1), of "case i of None \<Rightarrow> rt_inputs r | Some _ \<Rightarrow> cmd_routing_input cmd"]
    by (auto simp: routing_ctrl_step)
qed

definition demo_routing :: routing_element where
  "demo_routing = \<lparr>rt_inputs = 2, rt_outputs = 1, rt_in = [Pipe_buf 0, Pipe_buf 1, Silence_buf],
     rt_out = [\<lparr>ro_input = 2, ro_buf = 2\<rparr>],
     rt_silence = demo_slot 100 2\<rparr>"

definition demo_routing_element :: audio_element where
  "demo_routing_element =
     \<lparr>el_type = AUDIO_ELEMENT_ROUTING, el_sample_rate = 48000, el_period = 2, el_id = 0\<rparr>"

lemma demo_routing_wf: "routing_wf 3 demo_routing"
  by (simp add: routing_wf_def demo_routing_def loop_simps)

theorem routing_ctrl_refines_witness:
  "let cmd = (\<lambda>_. 0)(0 := 0x400, 4 := 0, 5 := 1) in
    fst (routing_element_ctrl (Some (demo_routing_element, demo_routing)) cmd 24 True) = 0"
proof -
  let ?cmd = "(\<lambda>_. 0)(0 := 0x400, 4 := 0, 5 := 1) :: cmd"
  have "routing_request demo_routing ?cmd 24 = Some (0, Some 1)"
    by (simp add: routing_request_def demo_routing_def)
  then show ?thesis
    using routing_ctrl_refines [OF demo_routing_wf, of demo_routing_element ?cmd 24 True]
    by (auto simp: Let_def demo_routing_element_def)
qed

section \<open>One period through the crossbar\<close>

definition out_places :: "routing_element \<Rightarrow> nat list" where
  "out_places r = map ro_buf (rt_out r)"

definition in_places :: "routing_element \<Rightarrow> nat list" where
  "in_places r = map (\<lambda>ref. case ref of Pipe_buf j \<Rightarrow> j | Silence_buf \<Rightarrow> 0) (take (unat (rt_inputs r)) (rt_in r))"

text \<open>
  The element is ready to run: the world is aligned, no buffer is connected twice, and the internal
  buffer is apart from the pipeline's and holds one period of silence.
\<close>

definition routing_ready :: "u32 \<Rightarrow> routing_element \<Rightarrow> ('s::zero, 'h) world \<Rightarrow> bool" where
  "routing_ready P r w \<longleftrightarrow>
     world_ok P w \<and> routing_wf (length (bufs w)) r \<and>
     distinct (out_places r @ in_places r) \<and>
     buf_aligned P (rt_silence r) \<and> list_all (buf_apart (rt_silence r)) (bufs w) \<and>
     read_block P (smem w) (rt_silence r) = replicate (unat P) AUDIO_SAMPLE_SILENCE"

lemma routing_places:
  assumes "routing_wf n r"
  shows "length (out_places r) = unat (rt_outputs r)" "length (in_places r) = unat (rt_inputs r)"
    "i < unat (rt_outputs r) \<Longrightarrow> out_places r ! i = ro_buf (rt_out r ! i)"
    "i < unat (rt_inputs r) \<Longrightarrow> rt_in r ! i = Pipe_buf (in_places r ! i)"
    "i < unat (rt_outputs r) \<Longrightarrow> out_places r ! i < n"
    "i < unat (rt_inputs r) \<Longrightarrow> in_places r ! i < n"
  using assms
  by (auto simp: routing_wf_def out_places_def in_places_def list_all_length split: buf_ref.splits)

text \<open>The buffer an output copies from.\<close>

definition routing_src :: "routing_element \<Rightarrow> ('s, 'h) world \<Rightarrow> nat \<Rightarrow> audio_buffer" where
  "routing_src r w i = (case routes r i of None \<Rightarrow> rt_silence r | Some k \<Rightarrow> bufs w ! (in_places r ! k))"

lemma routing_src_deref:
  assumes wf: "routing_wf n r" and i: "i < unat (rt_outputs r)"
  shows "deref r w (rt_in r ! unat (ro_input (rt_out r ! i))) = routing_src r w i"
proof (cases "ro_input (rt_out r ! i) < rt_inputs r")
  case True
  then show ?thesis
    using routing_places(4) [OF wf, of "unat (ro_input (rt_out r ! i))"] i
    by (simp add: routing_src_def routes_def deref_def word_less_nat_alt)
next
  case False
  moreover have "ro_input (rt_out r ! i) \<le> rt_inputs r"
    using wf i by (simp add: routing_wf_def list_all_length)
  ultimately have "ro_input (rt_out r ! i) = rt_inputs r" by simp
  then show ?thesis using False wf i by (simp add: routing_src_def routes_def deref_def routing_wf_def)
qed

lemma routing_src_facts:
  assumes ready: "routing_ready P r w" and i: "i < unat (rt_outputs r)" and o: "k < unat (rt_outputs r)"
  shows "buf_aligned P (routing_src r w i)" "buf_apart (routing_src r w i) (bufs w ! (out_places r ! k))"
    "(\<And>j. j < length (bufs w) \<Longrightarrow> j \<notin> set (out_places r) \<Longrightarrow> bufs w' ! j = bufs w ! j) \<Longrightarrow>
       routing_src r w' i = routing_src r w i"
proof -
  have wf: "routing_wf (length (bufs w)) r" and ok: "world_ok P w" and d: "distinct (out_places r @ in_places r)"
    and sil: "buf_aligned P (rt_silence r)" "list_all (buf_apart (rt_silence r)) (bufs w)"
    using ready by (simp_all add: routing_ready_def)
  note pl = routing_places [OF wf]
  have r: "routes r i = Some x \<Longrightarrow> x < unat (rt_inputs r)" for x
    by (auto simp: routes_def word_less_nat_alt split: if_splits)
  have ne: "in_places r ! x \<notin> set (out_places r)" if "x < unat (rt_inputs r)" for x
    using d that pl(2) by (metis distinct_append disjoint_iff nth_mem)
  show "buf_aligned P (routing_src r w i)"
    using sil world_okD(1) [OF ok] pl(6) r by (auto simp: routing_src_def split: option.split)
  have mem: "out_places r ! k \<in> set (out_places r)" using o pl(1) by simp
  show "buf_apart (routing_src r w i) (bufs w ! (out_places r ! k))"
  proof (cases "routes r i")
    case None
    then show ?thesis using sil(2) pl(5) [OF o] by (simp add: routing_src_def list_all_length)
  next
    case (Some x)
    have "in_places r ! x \<noteq> out_places r ! k" using ne [OF r [OF Some]] mem by metis
    then show ?thesis
      using Some world_okD(2) [OF ok pl(6) [OF r [OF Some]] pl(5) [OF o]] by (simp add: routing_src_def)
  qed
  show "routing_src r w' i = routing_src r w i" 
    if "\<And>j. j < length (bufs w) \<Longrightarrow> j \<notin> set (out_places r) \<Longrightarrow> bufs w' ! j = bufs w ! j"
    using that [OF pl(6) ne] r by (auto simp: routing_src_def split: option.split)
qed

text \<open>State after the first \<open>n\<close> outputs of the copy loop.\<close>

definition routed :: "u32 \<Rightarrow> routing_element \<Rightarrow> ('s, 'h) world \<Rightarrow> nat \<Rightarrow> ('s, 'h) world \<Rightarrow> bool" where
  "routed P r w n w' \<longleftrightarrow>
     hws w' = hws w \<and> length (bufs w') = length (bufs w) \<and>
     (\<forall>j < length (bufs w). bufs w' ! j =
        (if j \<in> set (take n (out_places r)) then audio_buf_write_update (bufs w ! j) P else bufs w ! j)) \<and>
     (\<forall>k < n. write_block P (smem w') (bufs w ! (out_places r ! k)) = read_block P (smem w) (routing_src r w k)) \<and>
     (\<forall>a. (\<forall>k < n. a \<notin> write_slots P (bufs w ! (out_places r ! k))) \<longrightarrow> smem w' a = smem w a)"

lemma routed_step:
  assumes ready: "routing_ready P r w" and n: "n < unat (rt_outputs r)" and st: "routed P r w n w'"
  shows "routed P r w (Suc n) (routing_copy P r n w')"
proof -
  have wf: "routing_wf (length (bufs w)) r" and ok: "world_ok P w" and d: "distinct (out_places r)"
    using ready by (simp_all add: routing_ready_def)
  note pl = routing_places [OF wf]
  let ?o = "out_places r ! n" and ?dst = "bufs w ! (out_places r ! n)" and ?src = "routing_src r w n"
  have o: "?o < length (bufs w)" by (rule pl(5) [OF n])
  have fresh: "?o \<notin> set (take n (out_places r))" "\<And>k. k < n \<Longrightarrow> out_places r ! k \<noteq> ?o"
    using d n pl(1) by (auto simp: in_set_conv_nth nth_eq_iff_index_eq)
  have dst: "bufs w' ! ?o = ?dst" using st o fresh by (simp add: routed_def)
  have j: "bufs w' ! j = bufs w ! j" if "j \<notin> set (out_places r)" "j < length (bufs w)" for j
    using st that in_set_takeD [of j n "out_places r"] by (simp add: routed_def) blast
  have src: "deref r w' (rt_in r ! unat (ro_input (rt_out r ! n))) = ?src"
    using routing_src_deref [OF wf n, of w'] routing_src_facts(3) [OF ready n n, of w'] j by simp
  note f = routing_src_facts [OF ready n]
  have al: "buf_aligned P ?dst" by (rule world_okD(1) [OF ok o])
  have kept: "a \<notin> write_slots P (bufs w ! (out_places r ! k))"
    if "k < n" "a \<in> buf_range c" "buf_apart c (bufs w ! (out_places r ! k))" for a k c
  proof -
    have "buf_aligned P (bufs w ! (out_places r ! k))" using that(1) n by (intro world_okD(1) [OF ok] pl(5)) simp
    then show ?thesis using buf_apart_ranges [OF that(3,2)] write_slots_range by blast
  qed
  have blk: "read_block P (smem w') ?src = read_block P (smem w) ?src"
  proof (rule read_block_frame [OF f(1) [OF n]])
    fix a assume a: "a \<in> buf_range ?src"
    have "\<forall>k < n. a \<notin> write_slots P (bufs w ! (out_places r ! k))"
      using n by (intro allI impI kept [OF _ a f(2)]) simp_all
    then show "smem w' a = smem w a" using st by (simp add: routed_def)
  qed
  let ?w = "routing_copy P r n w'"
  have m: "smem ?w = audio_buf_copy (smem w') ?dst ?src P"
    using src dst pl(3) [OF n] by (simp add: routing_copy_def Let_def)
  note cp = copy_block [OF al f(1) [OF n] f(2) [OF n], where m = "smem w'", folded m]
  have "write_block P (smem ?w) (bufs w ! (out_places r ! k)) =
      read_block P (smem w) (routing_src r w k)" if k: "k < Suc n" for k
  proof (cases "k = n")
    case True
    then show ?thesis using cp(2) blk by simp
  next
    case False
    then have k: "k < n" using k by simp
    let ?c = "bufs w ! (out_places r ! k)"
    have kl: "out_places r ! k < length (bufs w)" using k n by (intro pl(5)) simp
    have "buf_apart ?c ?dst" using world_okD(2) [OF ok kl o fresh(2) [OF k]] .
    then have "write_block P (smem ?w) ?c = write_block P (smem w') ?c"
      using write_slots_range [OF al] buf_apart_ranges
      by (intro write_block_frame [OF world_okD(1) [OF ok kl]] cp(1)) blast
    then show ?thesis using st k by (simp add: routed_def)
  qed
  moreover have "\<forall>a. (\<forall>k < Suc n. a \<notin> write_slots P (bufs w ! (out_places r ! k))) \<longrightarrow> smem ?w a = smem w a"
    using st cp(1) by (simp add: routed_def less_Suc_eq)
  moreover have "bufs ?w ! j = (if j \<in> set (take (Suc n) (out_places r))
      then audio_buf_write_update (bufs w ! j) P else bufs w ! j)" if "j < length (bufs w)" for j
    using st that o dst pl(1) n pl(3) [OF n]
    by (auto simp: routed_def routing_copy_def Let_def take_Suc_conv_app_nth)
  moreover have "hws ?w = hws w" "length (bufs ?w) = length (bufs w)"
    using st by (simp_all add: routed_def routing_copy_def Let_def)
  ultimately show ?thesis by (simp add: routed_def)
qed

lemma routed_loop:
  assumes "routing_ready P r w"
  shows "routed P r w (unat (rt_outputs r)) (for_upto (unat (rt_outputs r)) (routing_copy P r) w)"
  by (rule for_upto_invariant [where P = "\<lambda>n. routed P r w n"])
    (simp_all add: routed_step [OF assms], simp add: routed_def)

lemma ref_upd_loop:
  assumes wf: "routing_wf (length (bufs w)) r" and d: "distinct (in_places r)" and n: "n \<le> unat (rt_inputs r)"
  shows "for_upto n (\<lambda>i rw. ref_upd (rt_in r ! i) f rw) (r, w) =
    (r, w\<lparr>bufs := map (\<lambda>j. if j \<in> set (take n (in_places r)) then f (bufs w ! j) else bufs w ! j)
                  [0..<length (bufs w)]\<rparr>)"
  using n
proof (induction n)
  case 0
  then show ?case by (simp add: map_nth)
next
  case (Suc n)
  note pl = routing_places [OF wf]
  have n: "n < length (in_places r)" using Suc.prems pl(2) by simp
  have p: "in_places r ! n < length (bufs w)" using pl(6) n pl(2) by simp
  have fresh: "in_places r ! n \<notin> set (take n (in_places r))"
    using d n by (auto simp: in_set_conv_nth nth_eq_iff_index_eq)
  let ?g = "\<lambda>n j. if j \<in> set (take n (in_places r)) then f (bufs w ! j) else bufs w ! j"
  have ref: "rt_in r ! n = Pipe_buf (in_places r ! n)" using pl(4) n pl(2) by simp
  have "(map (?g n) [0..<length (bufs w)])[in_places r ! n := f (bufs w ! (in_places r ! n))] =
      map (?g (Suc n)) [0..<length (bufs w)]"
    using n p by (intro nth_equalityI) (auto simp: nth_list_update take_Suc_conv_app_nth)
  then show ?case using Suc.IH Suc.prems fresh p ref by (simp add: ref_upd_def buf_upd_def)
qed

text \<open>
  C11. One run of a ready crossbar delivers, to the write position of every output, the period at the
  read position of the input connected to it, or silence; it advances every output by one period, every
  input by one period, touches no other sample memory, and leaves the element ready for the next run.
\<close>

theorem routing_run_delivers:
  assumes ready: "routing_ready (el_period el) r w"
  shows "\<exists>w'. routing_element_run el r w = (0, r, w') \<and> routing_ready (el_period el) r w' \<and>
    (\<forall>i < unat (rt_outputs r). write_block (el_period el) (smem w') (bufs w ! (out_places r ! i)) =
       (case routes r i of None \<Rightarrow> replicate (unat (el_period el)) AUDIO_SAMPLE_SILENCE
        | Some k \<Rightarrow> read_block (el_period el) (smem w) (bufs w ! (in_places r ! k)))) \<and>
    (\<forall>j < length (bufs w). bufs w' ! j =
       (if j \<in> set (out_places r) then audio_buf_write_update (bufs w ! j) (el_period el)
        else if j \<in> set (in_places r) then audio_buf_read_update (bufs w ! j) (el_period el)
        else bufs w ! j)) \<and>
    (\<forall>a. (\<forall>i < unat (rt_outputs r). a \<notin> write_slots (el_period el) (bufs w ! (out_places r ! i))) \<longrightarrow>
       smem w' a = smem w a)"
proof -
  let ?P = "el_period el"
  define w1 where "w1 = for_upto (unat (rt_outputs r)) (routing_copy ?P r) w"
  have st: "routed ?P r w (unat (rt_outputs r)) w1" unfolding w1_def by (rule routed_loop [OF ready])
  have wf: "routing_wf (length (bufs w)) r" and ok: "world_ok ?P w" and d: "distinct (out_places r @ in_places r)"
    and sil: "buf_aligned ?P (rt_silence r)" "list_all (buf_apart (rt_silence r)) (bufs w)"
      "read_block ?P (smem w) (rt_silence r) = replicate (unat ?P) AUDIO_SAMPLE_SILENCE"
    using ready by (simp_all add: routing_ready_def)
  note pl = routing_places [OF wf]
  have len: "length (bufs w1) = length (bufs w)" using st by (simp add: routed_def)
  define bs where "bs = map (\<lambda>j. if j \<in> set (in_places r) then audio_buf_read_update (bufs w1 ! j) ?P
    else bufs w1 ! j) [0..<length (bufs w)]"
  have run: "routing_element_run el r w = (0, r, w1\<lparr>bufs := bs\<rparr>)"
    using ref_upd_loop [of w1 r "unat (rt_inputs r)" "\<lambda>b. audio_buf_read_update b ?P"] wf d pl(2) len
    by (simp add: routing_element_run_def Let_def w1_def [symmetric] bs_def)
  have bs: "bs ! j = (if j \<in> set (out_places r) then audio_buf_write_update (bufs w ! j) ?P
      else if j \<in> set (in_places r) then audio_buf_read_update (bufs w ! j) ?P else bufs w ! j)"
    if "j < length (bufs w)" for j
    using that st d pl(1) by (auto simp: bs_def routed_def)
  have frame: "\<forall>a. (\<forall>i < unat (rt_outputs r). a \<notin> write_slots ?P (bufs w ! (out_places r ! i))) \<longrightarrow>
      smem w1 a = smem w a"
    using st by (simp add: routed_def)
  have blocks: "write_block ?P (smem w1) (bufs w ! (out_places r ! i)) =
      (case routes r i of None \<Rightarrow> replicate (unat ?P) AUDIO_SAMPLE_SILENCE
       | Some k \<Rightarrow> read_block ?P (smem w) (bufs w ! (in_places r ! k)))" if "i < unat (rt_outputs r)" for i
    using st that sil(3) by (simp add: routed_def routing_src_def split: option.split)
  have "read_block ?P (smem w1) (rt_silence r) = read_block ?P (smem w) (rt_silence r)"
  proof (rule read_block_frame [OF sil(1)])
    fix a assume a: "a \<in> buf_range (rt_silence r)"
    have "a \<notin> write_slots ?P (bufs w ! (out_places r ! i))" if "i < unat (rt_outputs r)" for i
      using sil(2) pl(5) [OF that] buf_apart_ranges [OF _ a] write_slots_range [OF world_okD(1) [OF ok pl(5) [OF that]]]
      by (auto simp: list_all_length)
    then show "smem w1 a = smem w a" using frame by blast
  qed
  moreover have lbs: "length bs = length (bufs w)" by (simp add: bs_def)
  moreover have geo: "base (bs ! j) = base (bufs w ! j) \<and> bsize (bs ! j) = bsize (bufs w ! j) \<and> buf_aligned ?P (bs ! j)"
    if "j < length (bufs w)" for j
    using bs [OF that] buf_aligned_update [OF world_okD(1) [OF ok that]] world_okD(1) [OF ok that] by simp
  moreover have "world_ok ?P (w1\<lparr>bufs := bs\<rparr>)"
    using geo lbs world_okD(2) [OF ok] by (auto simp: world_ok_def list_all_length buf_apart_def)
  moreover have "list_all (buf_apart (rt_silence r)) bs"
    using sil(2) geo lbs by (simp add: list_all_length buf_apart_def)
  ultimately have "routing_ready ?P r (w1\<lparr>bufs := bs\<rparr>)" using wf d sil by (simp add: routing_ready_def)
  then show ?thesis using run bs blocks frame by simp
qed

lemma demo_ready: "routing_ready 2 demo_routing (demo_world h)"
proof -
  have "buf_aligned 2 (rt_silence demo_routing)"
    unfolding demo_routing_def by (simp add: demo_slot_aligned [of 1])
  moreover have "routing_wf (length (bufs (demo_world h))) demo_routing"
    using demo_routing_wf by simp
  moreover have "replicate 2 x = [x, x]" for x :: "int cell" by (simp add: numeral_2_eq_2)
  then have "read_block 2 (smem (demo_world h)) (rt_silence demo_routing) = replicate 2 (Sample 0)"
    by (simp add: demo_world_def demo_routing_def read_block_def upt_rec)
  moreover have "distinct (out_places demo_routing @ in_places demo_routing)"
    by (simp add: demo_routing_def out_places_def in_places_def)
  moreover have "list_all (buf_apart (rt_silence demo_routing)) (bufs (demo_world h))"
    by (simp add: demo_world_def demo_routing_def buf_apart_def)
  ultimately show ?thesis using demo_world_ok by (simp add: routing_ready_def)
qed

theorem routing_run_delivers_witness:
  "\<exists>w'. routing_element_run demo_routing_element (route_to demo_routing 0 1) (demo_world ()) =
     (0, route_to demo_routing 0 1, w') \<and>
     write_block 2 (smem w') (bufs (demo_world ()) ! 2) = [Sample 4, Sample 5]"
proof -
  let ?r = "route_to demo_routing 0 1"
  have "routing_ready 2 ?r (demo_world ())"
    using demo_ready route_to_wf [of 3 demo_routing 0 1] demo_routing_wf
    by (simp add: routing_ready_def) (simp add: route_to_def out_places_def in_places_def demo_routing_def)
  then have "\<exists>w'. routing_element_run demo_routing_element ?r (demo_world ()) = (0, ?r, w') \<and>
      write_block 2 (smem w') (bufs (demo_world ()) ! (out_places ?r ! 0)) =
        read_block 2 (smem (demo_world ())) (bufs (demo_world ()) ! (in_places ?r ! 1))"
    using routing_run_delivers [of demo_routing_element ?r "demo_world ()"]
    by (auto simp: demo_routing_element_def routes_def route_to_def demo_routing_def)
  then show ?thesis
    by (simp add: out_places_def in_places_def route_to_def demo_routing_def demo_world_def read_block_def
        upt_rec)
qed

section \<open>Initialisation\<close>

text \<open>
  A configuration fits a world when its inputs and outputs are different buffers of the world and the
  storage of the internal silence lies apart from all of them.
\<close>

definition routing_config_ok :: "'s audio_element_config \<Rightarrow> nat \<Rightarrow> u32 \<Rightarrow> ('s, 'h) world \<Rightarrow> bool" where
  "routing_config_ok config storage P w \<longleftrightarrow>
     (let ins = map (\<lambda>i. unat (ec_input config i)) [0..<unat (ec_inputs config)];
          outs = map (\<lambda>i. unat (ec_output config i)) [0..<unat (ec_outputs config)]
      in distinct (outs @ ins) \<and> list_all (\<lambda>i. i < length (bufs w)) (outs @ ins) \<and>
         list_all (\<lambda>b. storage + unat P \<le> base b \<or> base b + unat (bsize b) \<le> storage) (bufs w))"

lemma ref_upd_pipe:
  "fst (ref_upd (Pipe_buf j) f rw) = fst rw" "snd (ref_upd (Pipe_buf j) f rw) = buf_upd j f (snd rw)"
  by (simp_all add: ref_upd_def case_prod_beta)

text \<open>
  Initialisation succeeds when the mutex does and leaves a disconnected crossbar ready to run: no
  output is routed, the internal buffer holds one period of silence, and only its storage is written.
\<close>

theorem routing_init_ready:
  assumes ok: "world_ok (el_period el) w" and P: "unat (el_period el) = 2 ^ k" "k < 32"
    and cfg: "routing_config_ok config storage (el_period el) w"
  shows "\<exists>r w'. routing_element_init True el config storage z w = Some (r, w') \<and>
    routing_ready (el_period el) r w' \<and> routes r = Map.empty \<and>
    (\<forall>a. a \<notin> {storage ..< storage + unat (el_period el)} \<longrightarrow> smem w' a = smem w a)"
proof -
  let ?P = "el_period el"
  let ?ins = "map (\<lambda>i. unat (ec_input config i)) [0..<unat (ec_inputs config)]"
    and ?outs = "map (\<lambda>i. unat (ec_output config i)) [0..<unat (ec_outputs config)]"
  obtain m sil where init: "audio_buf_init (smem w) z storage ?P ?P 0 0 = (m, sil)" by force
  note full = audio_buf_init_full [OF P(2,1), where m = "smem w" and buf = z and bs = storage and fl = 0
      and sid = 0, unfolded init fst_conv snd_conv]
  define r where "r = \<lparr>rt_inputs = ec_inputs config, rt_outputs = ec_outputs config,
    rt_in = map Pipe_buf ?ins @ [Silence_buf],
    rt_out = map (\<lambda>i. \<lparr>ro_input = ec_inputs config, ro_buf = unat (ec_output config i)\<rparr>)
      [0..<unat (ec_outputs config)], rt_silence = sil\<rparr>"
  define w1 where "w1 = for_upto (unat (rt_outputs r))
    (\<lambda>i. buf_upd (ro_buf (rt_out r ! i)) (set_input el (of_nat i))) (w\<lparr>smem := m\<rparr>)"
  define rw where "rw = for_upto (unat (rt_inputs r))
    (\<lambda>i rw. ref_upd (rt_in r ! i) (set_output el (of_nat i)) rw) (r, w1)"
  have w1: "same_buffers w1 (w\<lparr>smem := m\<rparr>)"
    unfolding w1_def
    by (rule for_upto_invariant [where P = "\<lambda>_ u. same_buffers u (w\<lparr>smem := m\<rparr>)"])
      (simp_all add: same_buffers_refl same_buffers_buf_upd same_geometry_set_io)
  have rw: "fst rw = r \<and> same_buffers (snd rw) (w\<lparr>smem := m\<rparr>)"
    unfolding rw_def
    by (rule for_upto_invariant [where P = "\<lambda>_ u. fst u = r \<and> same_buffers (snd u) (w\<lparr>smem := m\<rparr>)"])
      (simp_all add: w1 r_def nth_append ref_upd_pipe same_buffers_buf_upd same_geometry_set_io)
  let ?w = "snd rw"
  note sb = same_buffersD [OF rw [THEN conjunct2]]
  have run: "routing_element_init True el config storage z w = Some (r, ?w)"
  proof -
    have "routing_element_init True el config storage z w = Some rw"
      by (simp add: routing_element_init_def init Let_def rw_def w1_def r_def comp_def)
    then show ?thesis using rw by (simp add: prod_eq_iff)
  qed
  have places: "out_places r = ?outs" "in_places r = ?ins"
    by (simp_all add: out_places_def in_places_def r_def comp_def)
  have c: "distinct (?outs @ ?ins)" "list_all (\<lambda>i. i < length (bufs w)) (?outs @ ?ins)"
    using cfg unfolding routing_config_ok_def Let_def by blast+
  have apart: "storage + unat ?P \<le> base (bufs w ! j) \<or> base (bufs w ! j) + unat (bsize (bufs w ! j)) \<le> storage"
    if "j < length (bufs w)" for j
    using cfg that unfolding routing_config_ok_def Let_def list_all_length [of _ "bufs w"] by blast
  have "routing_wf (length (bufs ?w)) r"
    using c(2) sb(3) by (auto simp: routing_wf_def r_def list_all_iff nth_append)
  moreover have "world_ok ?P ?w" using same_buffers_world_ok [OF rw [THEN conjunct2]] ok by simp
  moreover have "list_all (buf_apart sil) (bufs ?w)"
    using apart sb(3) same_geometry_apart(1) [OF sb(4), of _ sil] full(5,6)
    by (simp add: list_all_length) (simp add: buf_apart_def)
  moreover have "buf_aligned ?P sil" using full(2-6) by (simp add: buf_aligned_def)
  moreover have "read_block ?P (smem ?w) sil = replicate (unat ?P) AUDIO_SAMPLE_SILENCE"
    using sb(1) full(1,3,5) by (intro nth_equalityI) (simp_all add: read_block_def)
  ultimately have "routing_ready ?P r ?w"
    using c(1) by (simp add: routing_ready_def places) (simp add: r_def)
  moreover have "routes r = Map.empty" by (simp add: fun_eq_iff routes_def r_def)
  ultimately show ?thesis using run sb(1) full(1) by simp
qed

definition demo_routing_config :: "int audio_element_config" where
  "demo_routing_config = demo_config\<lparr>ec_inputs := 2, ec_input := of_nat, ec_outputs := 1, ec_output := (\<lambda>_. 2)\<rparr>"

theorem routing_init_ready_witness:
  "\<exists>r w'. routing_element_init True demo_routing_element demo_routing_config 100 (demo_slot 0 0) (demo_world ()) =
     Some (r, w') \<and> routing_ready 2 r w'"
proof -
  have "routing_config_ok demo_routing_config 100 2 (demo_world ())"
    by (simp add: routing_config_ok_def demo_routing_config_def demo_config_def upt_rec) (simp add: demo_world_def)
  then show ?thesis
    using routing_init_ready [of demo_routing_element "demo_world ()" 1 demo_routing_config 100 "demo_slot 0 0"]
      demo_world_ok [of "()"] by (auto simp: demo_routing_element_def)
qed

end
