(* ===== verification/Audio_Sine.thy ===== *)
theory Audio_Sine
  imports Audio_World
begin

text \<open>
  The sine source, \<open>audio/audio_element_sine.c\<close>.
\<close>

record 's sine_element =
  sn_out :: nat
  sn_phase :: u32
  sn_amplitude :: 's
  sn_dphase :: 's

definition sine_sample :: "'s fp \<Rightarrow> 's \<Rightarrow> 's \<Rightarrow> u32 \<Rightarrow> 's cell" where
  "sine_sample F amplitude dphase phase =
     Sample (fp_mul F amplitude (fp_sin F (fp_mul F (fp_uint F phase) dphase)))"

definition sine_element_run ::
  "'s fp \<Rightarrow> audio_element \<Rightarrow> 's sine_element \<Rightarrow> ('s, 'h) world \<Rightarrow> int \<times> 's sine_element \<times> ('s, 'h) world" where
  "sine_element_run F el sine w =
     (let (sine, m) = for_upto (unat (el_period el))
            (\<lambda>i (sine, m).
               let x = sine_sample F (sn_amplitude sine) (sn_dphase sine) (sn_phase sine);
                   m = audio_buf_write_block m (bufs w ! sn_out sine) (of_nat i) [x] 1
               in (sine\<lparr>sn_phase := sn_phase sine + 1\<rparr>, m)) (sine, smem w);
          w = w\<lparr>smem := m\<rparr>
      in (0, sine, buf_upd (sn_out sine) (\<lambda>b. audio_buf_write_update b (el_period el)) w))"

definition sine_element_reset :: "'s sine_element \<Rightarrow> ('s::zero, 'h) world \<Rightarrow> ('s, 'h) world" where
  "sine_element_reset sine w = on_buf (sn_out sine) audio_buf_reset w"

text \<open>The frequency check only warns.\<close>

definition sine_element_check_config :: "'s fp \<Rightarrow> 's audio_element_config \<Rightarrow> int" where
  "sine_element_check_config F config =
     (if ec_inputs config \<noteq> 0 then - 1
      else if ec_outputs config \<noteq> 1 then - 1
      else if fp_le F (sc_amplitude (ec_sine config)) (fp_uint F 0) \<or>
              fp_lt F (fp_uint F 1) (sc_amplitude (ec_sine config)) then - 1
      else 0)"

definition sine_element_init ::
  "'s fp \<Rightarrow> audio_element \<Rightarrow> 's audio_element_config \<Rightarrow> ('s, 'h) world \<Rightarrow> 's sine_element \<times> ('s, 'h) world" where
  "sine_element_init F el config w =
     (let out = unat (ec_output config 0);
          sine = \<lparr>sn_out = out, sn_phase = 0, sn_amplitude = sc_amplitude (ec_sine config),
            sn_dphase = fp_div F (fp_mul F (fp_mul F (fp_uint F 2) (fp_pi F)) (sc_freq (ec_sine config)))
                          (fp_uint F (ec_sample_rate config))\<rparr>
      in (sine, buf_upd out (set_input el 0) w))"

lemma sine_loop:
  "for_upto n (\<lambda>i (sine, m).
       (sine\<lparr>sn_phase := sn_phase sine + 1\<rparr>,
        audio_buf_write_block m (bf (sn_out sine)) (of_nat i)
          [sine_sample F (sn_amplitude sine) (sn_dphase sine) (sn_phase sine)] 1)) (sine, m) =
   (sine\<lparr>sn_phase := sn_phase sine + of_nat n\<rparr>,
    for_upto n (\<lambda>i m. audio_buf_write_block m (bf (sn_out sine)) (of_nat i)
      [sine_sample F (sn_amplitude sine) (sn_dphase sine) (sn_phase sine + of_nat i)] 1) m)"
  by (induction n) (simp_all add: ac_simps)

text \<open>
  Each run emits exactly one period of the sine, and the phase carries over: the sample numbered
  \<open>i\<close> of the period is the sine at the phase counter plus \<open>i\<close>, the counter advances by one period
  (modulo \<open>2 ^ 32\<close>), only the output buffer changes and the world stays aligned.
\<close>

theorem sine_run_emits:
  assumes ok: "world_ok (el_period el) w" and out: "sn_out sine < length (bufs w)"
  shows "\<exists>w'. sine_element_run F el sine w = (0, sine\<lparr>sn_phase := sn_phase sine + el_period el\<rparr>, w') \<and>
    emitted (el_period el) (sn_out sine)
      (map (\<lambda>i. sine_sample F (sn_amplitude sine) (sn_dphase sine) (sn_phase sine + of_nat i))
        [0..<unat (el_period el)]) w w' \<and>
    world_ok (el_period el) w'"
proof -
  note e = emit_loop [OF ok out, of "\<lambda>i. sine_sample F (sn_amplitude sine) (sn_dphase sine) (sn_phase sine + of_nat i)"]
  show ?thesis
    using e emitted_world_ok(1) [OF e ok out]
    by (simp add: sine_element_run_def Let_def sine_loop [of "unat (el_period el)" "\<lambda>i. bufs w ! i"])
qed

theorem sine_run_emits_witness:
  "let el = \<lparr>el_type = AUDIO_ELEMENT_SINE_SOURCE, el_sample_rate = 48000, el_period = 2, el_id = 0\<rparr>;
       sine = \<lparr>sn_out = 1, sn_phase = 7, sn_amplitude = 1, sn_dphase = 10\<rparr>
   in \<exists>w'. sine_element_run int_fp el sine (demo_world ()) = (0, sine\<lparr>sn_phase := 9\<rparr>, w') \<and>
        emitted 2 1 [Sample 70, Sample 80] (demo_world ()) w'"
  using sine_run_emits [of "\<lparr>el_type = AUDIO_ELEMENT_SINE_SOURCE, el_sample_rate = 48000, el_period = 2, el_id = 0\<rparr>"
      "demo_world ()" "\<lparr>sn_out = 1, sn_phase = 7, sn_amplitude = 1, sn_dphase = 10\<rparr>" int_fp] demo_world_ok [of "()"]
  by (auto simp: Let_def sine_sample_def int_fp_def upt_rec)

end
