(* ===== verification/Audio_Dtmf.thy ===== *)
theory Audio_Dtmf
  imports Audio_World
begin

text \<open>
  The DTMF source, \<open>audio/audio_element_dtmf.c\<close>: a state machine that plays a sequence of keys as dual
  tones, with a pause after each key and a longer one after the sequence.
\<close>

section \<open>State and operations\<close>

datatype dtmf_state = DTMF_PLAYING | DTMF_PAUSE | DTMF_SEQUENCE_PAUSE

record 's dtmf_element =
  dt_out :: nat
  dt_sample_rate :: u32
  dt_amplitude :: 's
  dt_dphase1 :: 's
  dt_dphase2 :: 's
  dt_phase :: u32
  dt_samples :: u32
  dt_pause_samples :: u32
  dt_sequence_pause_samples :: u32
  dt_sequence :: string
  dt_sequence_size :: u32
  dt_sequence_id :: u32
  dt_state :: dtmf_state

definition dtmf_sample :: "'s fp \<Rightarrow> 's dtmf_element \<Rightarrow> u32 \<Rightarrow> 's cell" where
  "dtmf_sample F d t =
     Sample (fp_div F
       (fp_mul F (dt_amplitude d)
         (fp_add F (fp_sin F (fp_mul F (fp_uint F t) (dt_dphase1 d)))
                   (fp_sin F (fp_mul F (fp_uint F t) (dt_dphase2 d)))))
       (fp_uint F 2))"

definition dtmf_generate_sinewave ::
  "'s fp \<Rightarrow> u32 \<Rightarrow> 's dtmf_element \<Rightarrow> ('s, 'h) world \<Rightarrow> 's dtmf_element \<times> ('s, 'h) world" where
  "dtmf_generate_sinewave F samples d w =
     (let m = for_upto (unat samples)
            (\<lambda>i m. audio_buf_write_block m (bufs w ! dt_out d) (of_nat i)
                     [dtmf_sample F d (of_nat i + dt_phase d)] 1) (smem w);
          w = buf_upd (dt_out d) (\<lambda>b. audio_buf_write_update b samples) (w\<lparr>smem := m\<rparr>)
      in (d\<lparr>dt_phase := dt_phase d + samples\<rparr>, w))"

definition dtmf_generate_silence ::
  "u32 \<Rightarrow> 's dtmf_element \<Rightarrow> ('s::zero, 'h) world \<Rightarrow> 's dtmf_element \<times> ('s, 'h) world" where
  "dtmf_generate_silence samples d w =
     (let w = on_buf (dt_out d) (\<lambda>s. audio_buf_write_silence s samples) w
      in (d\<lparr>dt_phase := dt_phase d + samples\<rparr>, w))"

definition dtmf_get_freqs :: "char \<Rightarrow> u32 \<times> u32" where
  "dtmf_get_freqs key =
     ((if key \<in> set ''456B'' then 770
       else if key \<in> set ''789C'' then 852
       else if key \<in> set ''*0#D'' then 941
       else 697),
      (if key \<in> set ''147*'' then 1209
       else if key \<in> set ''2580'' then 1336
       else if key \<in> set ''369#'' then 1477
       else 1633))"

text \<open>\<open>sequence[id]\<close> of a C string, with its terminating zero.\<close>

definition str_at :: "string \<Rightarrow> nat \<Rightarrow> char" where
  "str_at s i = (if i < length s then s ! i else CHR 0x00)"

definition dtmf_dphase :: "'s fp \<Rightarrow> u32 \<Rightarrow> u32 \<Rightarrow> 's" where
  "dtmf_dphase F freq rate =
     fp_div F (fp_mul F (fp_mul F (fp_uint F 2) (fp_pi F)) (fp_uint F freq)) (fp_uint F rate)"

definition dtmf_load_key :: "'s fp \<Rightarrow> 's dtmf_element \<Rightarrow> 's dtmf_element" where
  "dtmf_load_key F d =
     (let (freq1, freq2) = dtmf_get_freqs (str_at (dt_sequence d) (unat (dt_sequence_id d)))
      in d\<lparr>dt_dphase1 := dtmf_dphase F freq1 (dt_sample_rate d),
           dt_dphase2 := dtmf_dphase F freq2 (dt_sample_rate d)\<rparr>)"

definition dtmf_element_run ::
  "'s fp \<Rightarrow> audio_element \<Rightarrow> 's dtmf_element \<Rightarrow> ('s::zero, 'h) world \<Rightarrow>
     int \<times> 's dtmf_element \<times> ('s, 'h) world" where
  "dtmf_element_run F el d w =
     (case dt_state d of
        DTMF_PLAYING \<Rightarrow>
          let (d, w) = dtmf_generate_sinewave F (el_period el) d w;
              d = (if dt_phase d \<ge> dt_samples d then
                     let d = d\<lparr>dt_sequence_id := dt_sequence_id d + 1, dt_phase := 0\<rparr>;
                         d = (if dt_sequence_id d = dt_sequence_size d
                              then d\<lparr>dt_sequence_id := 0, dt_state := DTMF_SEQUENCE_PAUSE\<rparr>
                              else d\<lparr>dt_state := DTMF_PAUSE\<rparr>)
                     in dtmf_load_key F d
                   else d)
          in (0, d, w)
      | DTMF_PAUSE \<Rightarrow>
          let (d, w) = dtmf_generate_silence (el_period el) d w;
              d = (if dt_phase d \<ge> dt_pause_samples d then d\<lparr>dt_phase := 0, dt_state := DTMF_PLAYING\<rparr> else d)
          in (0, d, w)
      | DTMF_SEQUENCE_PAUSE \<Rightarrow>
          let (d, w) = dtmf_generate_silence (el_period el) d w;
              d = (if dt_phase d \<ge> dt_sequence_pause_samples d
                   then d\<lparr>dt_phase := 0, dt_state := DTMF_PLAYING\<rparr> else d)
          in (0, d, w))"

definition dtmf_element_reset :: "'s dtmf_element \<Rightarrow> ('s::zero, 'h) world \<Rightarrow> ('s, 'h) world" where
  "dtmf_element_reset d w = on_buf (dt_out d) audio_buf_reset w"

definition dtmf_element_check_config :: "'s fp \<Rightarrow> 's audio_element_config \<Rightarrow> int" where
  "dtmf_element_check_config F config =
     (if ec_inputs config \<noteq> 0 then - 1
      else if ec_outputs config \<noteq> 1 then - 1
      else if fp_le F (dtc_amplitude (ec_dtmf config)) (fp_uint F 0) \<or>
              fp_lt F (fp_uint F 1) (dtc_amplitude (ec_dtmf config)) then - 1
      else if length (dtc_sequence (ec_dtmf config)) < 1 then - 1
      else 0)"

text \<open>A duration in samples: \<open>(uint64_t)sample_rate * us / USEC_PER_SEC\<close>, stored in 32 bits.\<close>

definition dtmf_duration :: "u32 \<Rightarrow> u32 \<Rightarrow> u32" where
  "dtmf_duration rate us = ucast ((ucast rate * ucast us :: u64) div 1000000)"

text \<open>The memory of the element is zeroed with the pipeline, so the phase starts at zero.\<close>

definition dtmf_element_init ::
  "'s fp \<Rightarrow> audio_element \<Rightarrow> 's::zero audio_element_config \<Rightarrow> ('s, 'h) world \<Rightarrow>
     's dtmf_element \<times> ('s, 'h) world" where
  "dtmf_element_init F el config w =
     (let c = ec_dtmf config; out = unat (ec_output config 0);
          d = \<lparr>dt_out = out, dt_sample_rate = ec_sample_rate config, dt_amplitude = dtc_amplitude c,
               dt_dphase1 = 0, dt_dphase2 = 0, dt_phase = 0,
               dt_samples = dtmf_duration (ec_sample_rate config) (dtc_us c),
               dt_pause_samples = dtmf_duration (ec_sample_rate config) (dtc_pause_us c),
               dt_sequence_pause_samples = dtmf_duration (ec_sample_rate config) (dtc_sequence_pause_us c),
               dt_sequence = dtc_sequence c, dt_sequence_size = of_nat (length (dtc_sequence c)),
               dt_sequence_id = 0, dt_state = DTMF_PLAYING\<rparr>
      in (dtmf_load_key F d, buf_upd out (set_input el 0) w))"

section \<open>Segments\<close>

text \<open>
  A segment is the time the element spends in one state. What it emits, how long it lasts and which
  state follows depend only on the element at its start.
\<close>

definition segment_sample :: "'s fp \<Rightarrow> 's::zero dtmf_element \<Rightarrow> nat \<Rightarrow> 's cell" where
  "segment_sample F d t =
     (if dt_state d = DTMF_PLAYING then dtmf_sample F d (of_nat t) else AUDIO_SAMPLE_SILENCE)"

definition segment_duration :: "'s dtmf_element \<Rightarrow> u32" where
  "segment_duration d = (case dt_state d of DTMF_PLAYING \<Rightarrow> dt_samples d
     | DTMF_PAUSE \<Rightarrow> dt_pause_samples d | DTMF_SEQUENCE_PAUSE \<Rightarrow> dt_sequence_pause_samples d)"

text \<open>The segment lasts the duration rounded up to whole periods, at least one.\<close>

definition segment_periods :: "u32 \<Rightarrow> 's dtmf_element \<Rightarrow> nat" where
  "segment_periods P d = max 1 ((unat (segment_duration d) + unat P - 1) div unat P)"

definition next_segment :: "'s fp \<Rightarrow> 's dtmf_element \<Rightarrow> 's dtmf_element" where
  "next_segment F d =
     (case dt_state d of
        DTMF_PLAYING \<Rightarrow>
          (let last = dt_sequence_id d + 1 = dt_sequence_size d
           in dtmf_load_key F (d\<lparr>
                dt_sequence_id := (if last then 0 else dt_sequence_id d + 1), dt_phase := 0,
                dt_state := (if last then DTMF_SEQUENCE_PAUSE else DTMF_PAUSE)\<rparr>))
      | _ \<Rightarrow> d\<lparr>dt_phase := 0, dt_state := DTMF_PLAYING\<rparr>)"

lemma dt_phase_id_swap: "d\<lparr>dt_phase := p, dt_sequence_id := i\<rparr> = d\<lparr>dt_sequence_id := i, dt_phase := p\<rparr>"
  by simp

text \<open>One run inside a segment.\<close>

lemma dtmf_run_emits:
  assumes ok: "world_ok (el_period el) w" and out: "dt_out d < length (bufs w)"
  shows "\<exists>w'. dtmf_element_run F el d w =
      (0, if dt_phase d + el_period el \<ge> segment_duration d then next_segment F d
          else d\<lparr>dt_phase := dt_phase d + el_period el\<rparr>, w') \<and>
    emitted (el_period el) (dt_out d)
      (map (\<lambda>i. segment_sample F d (unat (dt_phase d) + i)) [0..<unat (el_period el)]) w w'"
proof (cases "dt_state d")
  case DTMF_PLAYING
  then show ?thesis
    using emit_loop [OF ok out, of "\<lambda>i. dtmf_sample F d (of_nat i + dt_phase d)"]
    by (simp add: dtmf_element_run_def dtmf_generate_sinewave_def Let_def next_segment_def segment_duration_def
        segment_sample_def add.commute dt_phase_id_swap)
next
  case DTMF_PAUSE
  then show ?thesis
    using emit_silence [OF ok out]
    by (simp add: dtmf_element_run_def dtmf_generate_silence_def Let_def next_segment_def segment_duration_def
        segment_sample_def map_replicate_const)
next
  case DTMF_SEQUENCE_PAUSE
  then show ?thesis
    using emit_silence [OF ok out]
    by (simp add: dtmf_element_run_def dtmf_generate_silence_def Let_def next_segment_def segment_duration_def
        segment_sample_def map_replicate_const)
qed

text \<open>Consecutive runs, with the periods they leave at the write position of the output.\<close>

primrec dtmf_play ::
  "'s fp \<Rightarrow> audio_element \<Rightarrow> nat \<Rightarrow> 's dtmf_element \<times> ('s::zero, 'h) world \<Rightarrow>
     's cell list \<times> 's dtmf_element \<times> ('s, 'h) world" where
  "dtmf_play F el 0 dw = ([], dw)"
| "dtmf_play F el (Suc n) dw =
     (let (out, d, w) = dtmf_play F el n dw; (_, d', w') = dtmf_element_run F el d w
      in (out @ write_block (el_period el) (smem w') (bufs w ! dt_out d), d', w'))"

lemma segment_phase [simp]:
  "segment_sample F (d\<lparr>dt_phase := p\<rparr>) = segment_sample F d"
  "segment_duration (d\<lparr>dt_phase := p\<rparr>) = segment_duration d"
  "next_segment F (d\<lparr>dt_phase := p\<rparr>) = next_segment F d"
  by (auto simp: fun_eq_iff segment_sample_def dtmf_sample_def segment_duration_def next_segment_def
      dtmf_load_key_def Let_def split: dtmf_state.split)

lemma segment_periods_bounds:
  assumes "P \<noteq> 0" and "unat (segment_duration d) + unat P \<le> 2 ^ 32"
  shows "0 < segment_periods P d" "segment_periods P d * unat P < 2 ^ 32"
    "unat (segment_duration d) \<le> segment_periods P d * unat P"
    "k < segment_periods P d \<Longrightarrow> 0 < k \<Longrightarrow> k * unat P < unat (segment_duration d)"
proof -
  let ?D = "unat (segment_duration d)" and ?P = "unat P" and ?c = "(unat (segment_duration d) + unat P - 1) div unat P"
  have P: "0 < ?P" using assms(1) by (simp add: unat_gt_0)
  have c: "?c * ?P \<le> ?D + ?P - 1" "?D + ?P - 1 < ?c * ?P + ?P"
    using dividend_less_div_times [OF P, of "?D + ?P - 1"] by (simp_all add: div_times_less_eq_dividend)
  show "0 < segment_periods P d" by (simp add: segment_periods_def)
  have P32: "?P < 2 ^ 32" by (rule unat32_less)
  have cs: "?c = 0 \<and> segment_periods P d = 1 \<or> segment_periods P d = ?c"
    by (auto simp: segment_periods_def)
  have "?c * ?P < 2 ^ 32" using c(1) assms(2) P by linarith
  then show "segment_periods P d * ?P < 2 ^ 32" using cs P32 by (elim disjE) (simp_all only: mult_1)
  show "?D \<le> segment_periods P d * ?P" using cs c by (elim disjE) auto
  show "k * ?P < ?D" if "k < segment_periods P d" "0 < k"
  proof -
    have "Suc k \<le> ?c" using that cs by auto
    then have "Suc k * ?P \<le> ?c * ?P" by (rule mult_le_mono1)
    then have "k * ?P + ?P \<le> ?c * ?P" by simp
    then show ?thesis using c P by linarith
  qed
qed

lemma dtmf_play_within:
  assumes ok: "world_ok (el_period el) w" and out: "dt_out d < length (bufs w)" and start: "dt_phase d = 0"
    and P: "el_period el \<noteq> 0" and dur: "unat (segment_duration d) + unat (el_period el) \<le> 2 ^ 32"
  shows "k < segment_periods (el_period el) d \<Longrightarrow> \<exists>w'. dtmf_play F el k (d, w) =
      (map (segment_sample F d) [0..<k * unat (el_period el)], d\<lparr>dt_phase := of_nat (k * unat (el_period el))\<rparr>, w') \<and>
    world_ok (el_period el) w' \<and> length (bufs w') = length (bufs w)"
proof (induction k)
  case 0
  then show ?case using ok start by simp
next
  case (Suc k)
  let ?P = "el_period el"
  note b = segment_periods_bounds [OF P dur]
  obtain w' where w': "dtmf_play F el k (d, w) =
      (map (segment_sample F d) [0..<k * unat ?P], d\<lparr>dt_phase := of_nat (k * unat ?P)\<rparr>, w')"
    "world_ok ?P w'" "length (bufs w') = length (bufs w)"
    using Suc by (meson Suc_lessD)
  have "Suc k * unat ?P < unat (segment_duration d)" by (rule b(4) [OF Suc.prems]) simp
  moreover have "unat (segment_duration d) < 2 ^ 32" by (rule unat32_less)
  ultimately have lt: "Suc k * unat ?P < 2 ^ 32" by linarith
  then have ph: "unat (of_nat (k * unat ?P) :: u32) = k * unat ?P"
    "unat (of_nat (Suc k * unat ?P) :: u32) = Suc k * unat ?P"
    by (intro unat32_of_nat; simp)+
  have next_phase: "of_nat (k * unat ?P) + ?P = (of_nat (Suc k * unat ?P) :: u32)" by simp
  have more: "\<not> segment_duration d \<le> of_nat (Suc k * unat ?P)"
    using \<open>Suc k * unat ?P < unat (segment_duration d)\<close> ph(2) by (simp only: word_le_nat_alt not_le)
  obtain v where v: "dtmf_element_run F el (d\<lparr>dt_phase := of_nat (k * unat ?P)\<rparr>) w' =
      (0, d\<lparr>dt_phase := of_nat (Suc k * unat ?P)\<rparr>, v)"
    "emitted ?P (dt_out d) (map (\<lambda>i. segment_sample F d (k * unat ?P + i)) [0..<unat ?P]) w' v"
    using dtmf_run_emits [OF w'(2), of "d\<lparr>dt_phase := of_nat (k * unat ?P)\<rparr>" F] out w'(3) ph more next_phase
    by (auto simp del: of_nat_mult of_nat_Suc mult_Suc)
  have "write_block ?P (smem v) (bufs w' ! dt_out d) = map (segment_sample F d) [k * unat ?P ..< Suc k * unat ?P]"
    using v(2) by (intro nth_equalityI) (simp_all add: emitted_def)
  then show ?case
    using w'(1) v emitted_world_ok [OF v(2) w'(2)] out w'(3)
    by (simp add: map_upt_append)
qed

text \<open>
  C18. Each segment of the sequence has its exact length and content: started at phase zero, the element
  plays its current key (or silence, in a pause) for the configured number of samples rounded up to whole
  periods, with a continuous phase, and then moves to the next segment; it never stops early and never
  overruns by a period.
\<close>

theorem dtmf_segment:
  assumes ok: "world_ok (el_period el) w" and out: "dt_out d < length (bufs w)" and start: "dt_phase d = 0"
    and P: "el_period el \<noteq> 0" and dur: "unat (segment_duration d) + unat (el_period el) \<le> 2 ^ 32"
  shows "\<exists>w'. dtmf_play F el (segment_periods (el_period el) d) (d, w) =
      (map (segment_sample F d) [0..<segment_periods (el_period el) d * unat (el_period el)], next_segment F d, w') \<and>
    world_ok (el_period el) w' \<and> length (bufs w') = length (bufs w)"
proof -
  let ?P = "el_period el"
  note b = segment_periods_bounds [OF P dur]
  obtain k where k: "segment_periods ?P d = Suc k" using b(1) not0_implies_Suc by auto
  obtain w' where w': "dtmf_play F el k (d, w) =
      (map (segment_sample F d) [0..<k * unat ?P], d\<lparr>dt_phase := of_nat (k * unat ?P)\<rparr>, w')"
    "world_ok ?P w'" "length (bufs w') = length (bufs w)"
    using dtmf_play_within [OF assms, of k F] k by auto
  have lt: "Suc k * unat ?P < 2 ^ 32" "unat (segment_duration d) \<le> Suc k * unat ?P" using b(2,3) k by simp_all
  then have ph: "unat (of_nat (k * unat ?P) :: u32) = k * unat ?P"
    "unat (of_nat (Suc k * unat ?P) :: u32) = Suc k * unat ?P"
    by (intro unat32_of_nat; simp)+
  have "of_nat (k * unat ?P) + ?P = (of_nat (Suc k * unat ?P) :: u32)" by simp
  moreover have "segment_duration d \<le> of_nat (Suc k * unat ?P)" using lt(2) ph(2) by (simp only: word_le_nat_alt)
  ultimately obtain v where v: "dtmf_element_run F el (d\<lparr>dt_phase := of_nat (k * unat ?P)\<rparr>) w' =
      (0, next_segment F d, v)"
    "emitted ?P (dt_out d) (map (\<lambda>i. segment_sample F d (k * unat ?P + i)) [0..<unat ?P]) w' v"
    using dtmf_run_emits [OF w'(2), of "d\<lparr>dt_phase := of_nat (k * unat ?P)\<rparr>" F] out w'(3) ph
    by (auto simp del: of_nat_mult of_nat_Suc mult_Suc)
  have "write_block ?P (smem v) (bufs w' ! dt_out d) = map (segment_sample F d) [k * unat ?P ..< Suc k * unat ?P]"
    using v(2) by (intro nth_equalityI) (simp_all add: emitted_def)
  then show ?thesis
    using w'(1) v emitted_world_ok [OF v(2) w'(2)] out w'(3) k
    by (simp add: map_upt_append)
qed

text \<open>
  A well-formed element stands inside its sequence and is tuned to the key it stands on.
\<close>

definition dtmf_wf :: "'s fp \<Rightarrow> 's dtmf_element \<Rightarrow> bool" where
  "dtmf_wf F d \<longleftrightarrow>
     unat (dt_sequence_size d) = length (dt_sequence d) \<and> unat (dt_sequence_id d) < length (dt_sequence d) \<and>
     (let (freq1, freq2) = dtmf_get_freqs (dt_sequence d ! unat (dt_sequence_id d))
      in dt_dphase1 d = dtmf_dphase F freq1 (dt_sample_rate d) \<and>
         dt_dphase2 d = dtmf_dphase F freq2 (dt_sample_rate d))"

lemma dtmf_load_key_wf:
  assumes "unat (dt_sequence_size d) = length (dt_sequence d)" and "unat (dt_sequence_id d) < length (dt_sequence d)"
  shows "dtmf_wf F (dtmf_load_key F d)"
  using assms by (simp add: dtmf_wf_def dtmf_load_key_def str_at_def case_prod_beta)

lemma next_segment_wf:
  assumes "dtmf_wf F d"
  shows "dtmf_wf F (next_segment F d)"
proof (cases "dt_state d")
  case DTMF_PLAYING
  have id: "unat (dt_sequence_id d) < unat (dt_sequence_size d)" using assms by (simp add: dtmf_wf_def)
  then have "unat (dt_sequence_id d + 1) = Suc (unat (dt_sequence_id d))"
    using unat32_less [of "dt_sequence_size d"] by (subst unat_add_small) simp_all
  then have "unat (dt_sequence_id d + 1) < unat (dt_sequence_size d)"
    if "dt_sequence_id d + 1 \<noteq> dt_sequence_size d"
    using that id by (metis Suc_lessI word_unat_eq_iff)
  then show ?thesis
    unfolding next_segment_def DTMF_PLAYING dtmf_state.case Let_def
    by (intro dtmf_load_key_wf) (use assms id in \<open>auto simp: dtmf_wf_def\<close>)
qed (use assms in \<open>simp_all add: next_segment_def dtmf_wf_def\<close>)

text \<open>
  After an initialisation with a checked configuration, and after every later run, the element
  stands inside its key sequence (the terminating zero is never played) and both phase increments are
  those of the current key's frequencies at the configured sample rate.
\<close>

theorem dtmf_tuned:
  "(dtmf_element_check_config F config = 0 \<and> length (dtc_sequence (ec_dtmf config)) < 2 ^ 32 \<longrightarrow>
      dtmf_wf F (fst (dtmf_element_init F el config w))) \<and>
   (dtmf_wf F d \<longrightarrow> dtmf_wf F (fst (snd (dtmf_element_run F el d v))))"
proof (intro conjI impI)
  assume "dtmf_element_check_config F config = 0 \<and> length (dtc_sequence (ec_dtmf config)) < 2 ^ 32"
  then show "dtmf_wf F (fst (dtmf_element_init F el config w))"
    by (auto simp: dtmf_element_init_def Let_def dtmf_element_check_config_def unat32_of_nat
        intro!: dtmf_load_key_wf split: if_splits)
next
  assume wf: "dtmf_wf F d"
  have "\<exists>p. fst (snd (dtmf_element_run F el d v)) = next_segment F d \<or>
      fst (snd (dtmf_element_run F el d v)) = d\<lparr>dt_phase := p\<rparr>"
    by (auto simp: dtmf_element_run_def next_segment_def dtmf_generate_sinewave_def dtmf_generate_silence_def Let_def
        dt_phase_id_swap split: dtmf_state.split)
  then show "dtmf_wf F (fst (snd (dtmf_element_run F el d v)))"
    using next_segment_wf [OF wf] wf by (auto simp: dtmf_wf_def)
qed

definition demo_dtmf_config :: "int audio_element_config" where
  "demo_dtmf_config = \<lparr>ec_type = AUDIO_ELEMENT_DTMF_SOURCE, ec_inputs = 0, ec_input = (\<lambda>_. 0), ec_outputs = 1,
     ec_output = (\<lambda>_. 1), ec_period = 2, ec_sample_rate = 1000,
     ec_dtmf = \<lparr>dtc_us = 5000, dtc_pause_us = 3000, dtc_sequence_pause_us = 9000, dtc_amplitude = 1,
       dtc_sequence = ''1A''\<rparr>,
     ec_pll = \<lparr>pc_src_sai_id = 0, pc_dst_sai_id = 0, pc_pll_id = 0\<rparr>,
     ec_sai = \<lparr>sec_sai_n = 0, sec_sai = \<lambda>_. \<lparr>sic_id = 0, sic_line_n = 0,
       sic_line = \<lambda>_. \<lparr>slc_id = 0, slc_channel_n = 0\<rparr>\<rparr>\<rparr>,
     ec_sine = \<lparr>sc_freq = 0, sc_amplitude = 0\<rparr>\<rparr>"

definition demo_dtmf_element :: audio_element where
  "demo_dtmf_element = \<lparr>el_type = AUDIO_ELEMENT_DTMF_SOURCE, el_sample_rate = 1000, el_period = 2, el_id = 0\<rparr>"

theorem dtmf_tuned_witness:
  "dtmf_wf int_fp (fst (dtmf_element_init int_fp demo_dtmf_element demo_dtmf_config (demo_world ())))"
proof -
  have "dtmf_element_check_config int_fp demo_dtmf_config = 0"
    and "length (dtc_sequence (ec_dtmf demo_dtmf_config)) < 2 ^ 32"
    by (simp_all add: dtmf_element_check_config_def demo_dtmf_config_def int_fp_def)
  then show ?thesis by (intro dtmf_tuned [THEN conjunct1, rule_format] conjI)
qed

theorem dtmf_segment_witness:
  "let d = fst (dtmf_element_init int_fp demo_dtmf_element demo_dtmf_config (demo_world ())) in
    \<exists>w'. dtmf_play int_fp demo_dtmf_element 3 (d, demo_world ()) =
      (map (segment_sample int_fp d) [0..<6], next_segment int_fp d, w')"
proof -
  let ?d = "fst (dtmf_element_init int_fp demo_dtmf_element demo_dtmf_config (demo_world ()))"
  have d: "dt_out ?d = 1" "dt_phase ?d = 0" "dt_state ?d = DTMF_PLAYING" "dt_samples ?d = 5"
    by (simp_all add: dtmf_element_init_def Let_def dtmf_load_key_def case_prod_beta demo_dtmf_config_def
        dtmf_duration_def)
  then have "segment_duration ?d = 5" "segment_periods 2 ?d = 3"
    by (simp_all add: segment_duration_def segment_periods_def)
  then show ?thesis
    using dtmf_segment [of demo_dtmf_element "demo_world ()" ?d int_fp] d demo_world_ok [of "()"]
    by (auto simp: demo_dtmf_element_def Let_def)
qed

end
