(* ===== verification/Audio_Pll.thy ===== *)
theory Audio_Pll
  imports Audio_World Stats
begin

text \<open>
  The PLL element, \<open>audio/audio_element_pll.c\<close>: a software loop that measures the drift between two
  bit clocks and steers the audio PLL, and the register computation of \<open>audio/audio_pll14xx.c\<close>.
\<close>

section \<open>State and operations\<close>

datatype pll_state = PLL_STATE_UNLOCKED | PLL_STATE_LOCKING | PLL_STATE_LOCKED

abbreviation (input) PLL_SAMPLING_PERIOD_MS :: u32 where "PLL_SAMPLING_PERIOD_MS \<equiv> 10"
abbreviation (input) PLL_MAX_PPB :: int where "PLL_MAX_PPB \<equiv> 200000"
abbreviation (input) PLL_MIN_PPB :: int where "PLL_MIN_PPB \<equiv> - 200000"

record pll_element =
  pl_src_sai :: "nat option"
  pl_dst_sai :: "nat option"
  pl_pll_id :: u32
  pl_period :: u32
  pl_count :: u32
  pl_state :: pll_state
  pl_sample_count :: u32
  pl_enabled :: bool
  pl_src_bcr :: u32
  pl_dst_bcr :: u32
  pl_bclk_offset :: s64
  pl_src_bclk :: u64
  pl_initial_src_bclk :: u64
  pl_prev_src_bclk :: u64
  pl_dst_bclk :: u64
  pl_initial_dst_bclk :: u64
  pl_ki :: u32
  pl_kp :: u32
  pl_integral :: s64
  pl_prev_err :: s64
  pl_prev_bclk_ppb :: s64
  pl_stats_err :: rtos_apps_stats
  pl_stats_ppb :: rtos_apps_stats

definition pll_element_reset :: "pll_element \<Rightarrow> pll_element" where
  "pll_element_reset pll =
     pll\<lparr>pl_src_bclk := 0, pl_dst_bclk := 0, pl_count := pl_period pll, pl_state := PLL_STATE_UNLOCKED,
        pl_sample_count := 0, pl_stats_err := rtos_apps_stats_reset (pl_stats_err pll),
        pl_stats_ppb := rtos_apps_stats_reset (pl_stats_ppb pll)\<rparr>"

definition pll_element_response :: "bool \<Rightarrow> u32 \<Rightarrow> response list" where
  "pll_element_response ctrl_handle status =
     (if ctrl_handle then [(AUDIO_RESP_TYPE_ELEMENT_PLL, status)] else [])"

text \<open>The length of the command is a parameter of the handler that it does not look at.\<close>

definition pll_element_ctrl ::
  "(audio_element \<times> pll_element) option \<Rightarrow> cmd \<Rightarrow> u32 \<Rightarrow> bool \<Rightarrow>
     int \<times> response list \<times> (audio_element \<times> pll_element) option" where
  "pll_element_ctrl element cmd len ctrl_handle =
     (let err = (- 1, pll_element_response ctrl_handle AUDIO_RESP_STATUS_ERROR, element);
          ok = (\<lambda>el pll. (0, pll_element_response ctrl_handle AUDIO_RESP_STATUS_SUCCESS, Some (el, pll))) in
      case element of
        None \<Rightarrow> err
      | Some (el, pll) \<Rightarrow>
          if el_type el \<noteq> AUDIO_ELEMENT_PLL then err
          else if cmd_type cmd = AUDIO_CMD_TYPE_ELEMENT_PLL_ENABLE then
            ok el ((pll_element_reset pll)\<lparr>pl_enabled := True\<rparr>)
          else if cmd_type cmd = AUDIO_CMD_TYPE_ELEMENT_PLL_DISABLE then
            ok el (pll\<lparr>pl_enabled := False\<rparr>)
          else if cmd_type cmd = AUDIO_CMD_TYPE_ELEMENT_PLL_ID then
            ok el (pll_element_reset (pll\<lparr>pl_pll_id := cmd_pll_id cmd\<rparr>))
          else err)"

text \<open>Signed 64-bit division; the callers check for zero.\<close>

definition s64_div :: "s64 \<Rightarrow> s64 \<Rightarrow> s64" where
  "s64_div a b = word_of_int (sint a sdiv sint b)"

text \<open>
  The switch on the state. \<open>None\<close> is a division by zero, \<open>Some (Inl pll)\<close> the jump to \<open>exit\<close>,
  \<open>Some (Inr (pll, bclk_ppb, err))\<close> a new estimate. In the locking state the C expression divides an
  unsigned 64-bit number, since the difference of the destination clocks is unsigned.
\<close>

definition pll_estimate ::
  "s64 \<Rightarrow> s64 \<Rightarrow> pll_element \<Rightarrow> (pll_element + pll_element \<times> s64 \<times> s64) option" where
  "pll_estimate bclk_err dt_bclk pll =
     (case pl_state pll of
        PLL_STATE_UNLOCKED \<Rightarrow>
          Some (Inl (pll\<lparr>pl_bclk_offset := pl_src_bclk pll - pl_dst_bclk pll,
            pl_initial_src_bclk := pl_src_bclk pll, pl_initial_dst_bclk := pl_dst_bclk pll,
            pl_prev_src_bclk := pl_src_bclk pll, pl_state := PLL_STATE_LOCKING\<rparr>))
      | PLL_STATE_LOCKING \<Rightarrow>
          if pl_sample_count pll < 10 then Some (Inl pll)
          else if pl_dst_bclk pll - pl_initial_dst_bclk pll = 0 then None
          else
            (let bclk_ppb = (1000000000 * (pl_src_bclk pll - pl_initial_src_bclk pll)) div
                   (pl_dst_bclk pll - pl_initial_dst_bclk pll) - 1000000000;
                 bclk_ppb = bclk_ppb + pl_prev_bclk_ppb pll;
                 pll = pll\<lparr>pl_integral := (bclk_ppb + 1000000000) * ucast (pl_ki pll),
                           pl_state := PLL_STATE_LOCKED\<rparr>
             in Some (Inr (pll, bclk_ppb, 0)))
      | PLL_STATE_LOCKED \<Rightarrow>
          if dt_bclk = 0 then None
          else
            (let err = s64_div (bclk_err * 1000000000) dt_bclk;
                 pll = pll\<lparr>pl_integral := pl_integral pll + s64_div (err + pl_prev_err pll) 2\<rparr>;
                 bclk_ppb = (s64_div err (ucast (pl_kp pll)) + s64_div (pl_integral pll) (ucast (pl_ki pll)))
                              - 1000000000
             in Some (Inr (pll, bclk_ppb, err))))"

definition pll_clamp :: "s64 \<Rightarrow> s64" where
  "pll_clamp ppb =
     (if sint ppb > PLL_MAX_PPB then word_of_int PLL_MAX_PPB
      else if sint ppb < PLL_MIN_PPB then word_of_int PLL_MIN_PPB else ppb)"

definition pll_apply ::
  "'h hw \<Rightarrow> s64 \<Rightarrow> s64 \<Rightarrow> s64 \<Rightarrow> pll_element \<times> 'h \<Rightarrow> pll_element \<times> 'h" where
  "pll_apply H bclk_err bclk_ppb err ph =
     (let (pll, h) = ph;
          bclk_ppb = pll_clamp bclk_ppb;
          (pll, h) = (if bclk_ppb \<noteq> pl_prev_bclk_ppb pll
                      then (pll\<lparr>pl_prev_bclk_ppb := bclk_ppb\<rparr>, hw_pll_adjust H (pl_pll_id pll) bclk_ppb h)
                      else (pll, h));
          pll = pll\<lparr>pl_prev_err := err\<rparr>;
          pll = pll\<lparr>pl_stats_err := rtos_apps_stats_update (\<lambda>_ s. s) (pl_stats_err pll) (ucast bclk_err)\<rparr>;
          pll = pll\<lparr>pl_stats_ppb := rtos_apps_stats_update (\<lambda>_ s. s) (pl_stats_ppb pll) (ucast bclk_ppb)\<rparr>
      in (pll, h))"

text \<open>Before the switch: track both bit clocks. After it, at \<open>exit\<close>: remember the readings.\<close>

definition pll_track :: "u32 \<Rightarrow> u32 \<Rightarrow> pll_element \<Rightarrow> s64 \<times> s64 \<times> pll_element" where
  "pll_track src_bcr dst_bcr pll =
     (let pll = pll\<lparr>pl_src_bclk := pl_src_bclk pll + ucast (src_bcr - pl_src_bcr pll)\<rparr>;
          pll = pll\<lparr>pl_dst_bclk := pl_dst_bclk pll + ucast (dst_bcr - pl_dst_bcr pll)\<rparr>;
          bclk_err = pl_src_bclk pll - pl_dst_bclk pll - pl_bclk_offset pll;
          dt_bclk = pl_src_bclk pll - pl_prev_src_bclk pll
      in (bclk_err, dt_bclk,
          if bclk_err \<noteq> 0 then pll\<lparr>pl_prev_src_bclk := pl_src_bclk pll\<rparr> else pll))"

definition pll_finish :: "u32 \<Rightarrow> u32 \<Rightarrow> pll_element \<Rightarrow> pll_element" where
  "pll_finish src_bcr dst_bcr pll = pll\<lparr>pl_src_bcr := src_bcr, pl_dst_bcr := dst_bcr,
     pl_sample_count := pl_sample_count pll + 1, pl_count := 0\<rparr>"

definition pll_element_run :: "'h hw \<Rightarrow> pll_element \<Rightarrow> 'h \<Rightarrow> (int \<times> pll_element \<times> 'h) option" where
  "pll_element_run H pll h =
     (if \<not> pl_enabled pll then Some (0, pll, h)
      else
        (let pll = pll\<lparr>pl_count := pl_count pll + 1\<rparr> in
         if pl_count pll < pl_period pll then Some (0, pll, h)
         else
           (let src_bcr = hw_rx_bitclock H h (pl_src_sai pll);
                dst_bcr = hw_rx_bitclock H h (pl_dst_sai pll);
                (bclk_err, dt_bclk, pll) = pll_track src_bcr dst_bcr pll
            in case pll_estimate bclk_err dt_bclk pll of
                 None \<Rightarrow> None
               | Some (Inl pll) \<Rightarrow> Some (0, pll_finish src_bcr dst_bcr pll, h)
               | Some (Inr (pll, bclk_ppb, err)) \<Rightarrow>
                   (let (pll, h) = pll_apply H bclk_err bclk_ppb err (pll, h)
                    in Some (0, pll_finish src_bcr dst_bcr pll, h)))))"

definition pll_element_exit :: "'h hw \<Rightarrow> pll_element \<Rightarrow> 'h \<Rightarrow> 'h" where
  "pll_element_exit H pll h = hw_pll_adjust H (pl_pll_id pll) 0 h"

definition pll_element_stats :: "pll_element \<Rightarrow> pll_element" where
  "pll_element_stats pll =
     (let pll = pll\<lparr>pl_stats_err := rtos_apps_stats_compute (pl_stats_err pll),
                    pl_stats_ppb := rtos_apps_stats_compute (pl_stats_ppb pll)\<rparr>
      in pll\<lparr>pl_stats_err := rtos_apps_stats_reset (pl_stats_err pll),
             pl_stats_ppb := rtos_apps_stats_reset (pl_stats_ppb pll)\<rparr>)"

definition pll_element_check_config :: "'s audio_element_config \<Rightarrow> int" where
  "pll_element_check_config config = 0"

text \<open>
  \<open>zeroed\<close> is the zeroed memory of the element; \<open>None\<close> stands for a failed mutex initialisation or, in the
  inner option, a division by the period zero.
\<close>

definition pll_element_init ::
  "'h hw \<Rightarrow> bool \<Rightarrow> audio_element \<Rightarrow> 's audio_element_config \<Rightarrow> pll_element \<Rightarrow> 'h \<Rightarrow>
     (pll_element \<times> 'h) option option" where
  "pll_element_init H mutex_ok el config zeroed h =
     (if \<not> mutex_ok then Some None
      else if el_period el = 0 then None
      else
        (let pll = zeroed\<lparr>pl_enabled := True,
               pl_period := (PLL_SAMPLING_PERIOD_MS * el_sample_rate el) div el_period el div 1000,
               pl_prev_bclk_ppb := 0, pl_kp := 4, pl_ki := 64,
               pl_src_sai := hw_sai_base H (pc_src_sai_id (ec_pll config)),
               pl_dst_sai := hw_sai_base H (pc_dst_sai_id (ec_pll config)),
               pl_pll_id := pc_pll_id (ec_pll config)\<rparr>;
             h = hw_pll_adjust H (pl_pll_id pll) 0 h;
             pll = pll\<lparr>pl_stats_err := rtos_apps_stats_init (pl_stats_err pll) 31 ''err'' None,
                       pl_stats_ppb := rtos_apps_stats_init (pl_stats_ppb pll) 31 ''ppb'' None\<rparr>
         in Some (Some (pll_element_reset pll, h))))"

section \<open>The fractional PLL of the board\<close>

text \<open>
  \<open>pll_adjust\<close> of \<open>audio_pll14xx.c\<close>: the value stored in the 16-bit divider register, from the boot
  configuration \<open>orig_dsm\<close>, \<open>mainDiv\<close> of the selected PLL.
\<close>

definition pll14xx_adjust :: "16 word \<Rightarrow> s64 \<Rightarrow> s64 \<Rightarrow> 16 word" where
  "pll14xx_adjust orig_dsm mainDiv ppb =
     (let dsm = scast orig_dsm + s64_div (ppb * (2 ^ 16 * mainDiv + scast orig_dsm)) 1000000000;
          dsm = (if sint dsm \<le> - (2 ^ 15) then word_of_int (- (2 ^ 15 - 1))
                 else if sint dsm \<ge> 2 ^ 15 then word_of_int (2 ^ 15 - 1)
                 else dsm)
      in ucast dsm)"

section \<open>The control value\<close>

definition pll_wf :: "pll_element \<Rightarrow> bool" where
  "pll_wf pll \<longleftrightarrow> PLL_MIN_PPB \<le> sint (pl_prev_bclk_ppb pll) \<and> sint (pl_prev_bclk_ppb pll) \<le> PLL_MAX_PPB"

lemma pll_clamp_range: "PLL_MIN_PPB \<le> sint (pll_clamp x) \<and> sint (pll_clamp x) \<le> PLL_MAX_PPB"
  by (simp add: pll_clamp_def)

lemma pll_estimate_frame:
  assumes "pll_estimate e dt pll = Some r"
  shows "case r of Inl p \<Rightarrow> pl_prev_bclk_ppb p = pl_prev_bclk_ppb pll \<and> pl_pll_id p = pl_pll_id pll
    | Inr (p, _) \<Rightarrow> pl_prev_bclk_ppb p = pl_prev_bclk_ppb pll \<and> pl_pll_id p = pl_pll_id pll"
  using assms by (auto simp: pll_estimate_def Let_def split: pll_state.splits if_splits)

lemma pll_apply_frame:
  shows "pl_prev_bclk_ppb (fst (pll_apply H e ppb err (pll, h))) = pll_clamp ppb"
    and "snd (pll_apply H e ppb err (pll, h)) =
      (if pll_clamp ppb = pl_prev_bclk_ppb pll then h else hw_pll_adjust H (pl_pll_id pll) (pll_clamp ppb) h)"
  by (simp_all add: pll_apply_def Let_def)

text \<open>
  C19. The loop never steers the PLL beyond 200 ppm: every run that returns keeps the applied correction
  within the limits, and touches the hardware only by one adjustment, to the new correction and only when
  it differs from the one applied before.
\<close>

theorem pll_steering_bounded:
  assumes "pll_wf pll" and "pll_element_run H pll h = Some (rc, pll', h')"
  shows "rc = 0 \<and> pll_wf pll' \<and>
    (if pl_prev_bclk_ppb pll' = pl_prev_bclk_ppb pll then h' = h
     else h' = hw_pll_adjust H (pl_pll_id pll) (pl_prev_bclk_ppb pll') h)"
proof (cases "pl_enabled pll \<and> \<not> pl_count pll + 1 < pl_period pll")
  case False
  then show ?thesis using assms by (auto simp: pll_element_run_def Let_def pll_wf_def split: if_splits)
next
  case True
  define src where "src = hw_rx_bitclock H h (pl_src_sai pll)"
  define dst where "dst = hw_rx_bitclock H h (pl_dst_sai pll)"
  obtain e dt p2 where tr: "pll_track src dst (pll\<lparr>pl_count := pl_count pll + 1\<rparr>) = (e, dt, p2)"
    by (metis surj_pair)
  then have p2: "pl_prev_bclk_ppb p2 = pl_prev_bclk_ppb pll" "pl_pll_id p2 = pl_pll_id pll"
    by (auto simp: pll_track_def Let_def)
  have run: "pll_element_run H pll h = (case pll_estimate e dt p2 of None \<Rightarrow> None
      | Some (Inl p) \<Rightarrow> Some (0, pll_finish src dst p, h)
      | Some (Inr (p, ppb, err)) \<Rightarrow>
          (let (p, h) = pll_apply H e ppb err (p, h) in Some (0, pll_finish src dst p, h)))"
    using True tr by (simp add: pll_element_run_def src_def [symmetric] dst_def [symmetric] Let_def)
  obtain r where r: "pll_estimate e dt p2 = Some r" using assms(2) run by (cases "pll_estimate e dt p2") simp_all
  show ?thesis
  proof (cases r)
    case (Inl p)
    then show ?thesis
      using assms r run pll_estimate_frame [OF r] p2 by (auto simp: pll_finish_def pll_wf_def)
  next
    case (Inr q)
    obtain p ppb err where q: "q = (p, ppb, err)" by (cases q)
    obtain p' k where a: "pll_apply H e ppb err (p, h) = (p', k)" by force
    note fr = pll_apply_frame [of H e ppb err p h, unfolded a fst_conv snd_conv]
    have "pl_prev_bclk_ppb p = pl_prev_bclk_ppb pll" "pl_pll_id p = pl_pll_id pll"
      using pll_estimate_frame [OF r] Inr q p2 by simp_all
    then show ?thesis
      using assms r run Inr q a fr pll_clamp_range [of ppb] by (auto simp: pll_finish_def pll_wf_def)
  qed
qed

section \<open>Locking\<close>

text \<open>
  A sequence of runs, the hardware being in state \<open>hs i\<close> at the start of run \<open>i\<close>.
\<close>

primrec pll_runs :: "'h hw \<Rightarrow> (nat \<Rightarrow> 'h) \<Rightarrow> nat \<Rightarrow> pll_element \<Rightarrow> pll_element option" where
  "pll_runs H hs 0 pll = Some pll"
| "pll_runs H hs (Suc n) pll =
     (case pll_runs H hs n pll of None \<Rightarrow> None
      | Some p \<Rightarrow> map_option (\<lambda>(_, p', _). p') (pll_element_run H p (hs n)))"

lemma pll_run_waits:
  assumes "pl_enabled p" and "pl_count p + 1 < pl_period p"
  shows "pll_element_run H p h = Some (0, p\<lparr>pl_count := pl_count p + 1\<rparr>, h)"
  using assms by (simp add: pll_element_run_def Let_def)

text \<open>Between two samples only the counter moves.\<close>

lemma pll_runs_wait:
  assumes "pll_runs H hs n pll = Some p" and "pl_enabled p" and "pl_count p = 0"
  shows "k < unat (pl_period p) \<or> k = 0 \<Longrightarrow> pll_runs H hs (n + k) pll = Some (p\<lparr>pl_count := of_nat k\<rparr>)"
proof (induction k)
  case 0
  then show ?case using assms by simp
next
  case (Suc k)
  then have k: "Suc k < unat (pl_period p)" by simp
  then have "Suc k < 2 ^ 32" using unat32_less [of "pl_period p"] by linarith
  then have "unat (of_nat (Suc k) :: u32) = Suc k" by (rule unat32_of_nat)
  then have "of_nat k + 1 < pl_period p" using k by (simp only: word_less_nat_alt add.commute of_nat_Suc)
  then show ?case using Suc k assms(2) by (simp add: pll_run_waits add.commute)
qed

text \<open>A sample in the two states before the lock.\<close>

definition pll_due :: "pll_element \<Rightarrow> bool" where
  "pll_due p \<longleftrightarrow> pl_enabled p \<and> \<not> pl_count p + 1 < pl_period p"

lemma pll_sample_unlocked:
  assumes "pll_due p" and "pl_state p = PLL_STATE_UNLOCKED" and "pll_element_run H p h = r"
  shows "\<exists>p' h'. r = Some (0, p', h') \<and> pl_state p' = PLL_STATE_LOCKING \<and> pl_enabled p' \<and> pl_count p' = 0 \<and>
    pl_period p' = pl_period p \<and> pl_sample_count p' = pl_sample_count p + 1 \<and>
    pl_dst_sai p' = pl_dst_sai p \<and> pl_dst_bcr p' = hw_rx_bitclock H h (pl_dst_sai p) \<and>
    pl_dst_bclk p' = pl_initial_dst_bclk p'"
  using assms by (auto simp: pll_due_def pll_element_run_def pll_estimate_def pll_track_def pll_finish_def Let_def)

lemma pll_sample_locking:
  assumes "pll_due p" and "pl_state p = PLL_STATE_LOCKING" and "pll_element_run H p h = r"
    and "pl_sample_count p < 10"
  shows "\<exists>p' h'. r = Some (0, p', h') \<and> pl_state p' = PLL_STATE_LOCKING \<and> pl_enabled p' \<and> pl_count p' = 0 \<and>
    pl_period p' = pl_period p \<and> pl_sample_count p' = pl_sample_count p + 1 \<and>
    pl_dst_sai p' = pl_dst_sai p \<and> pl_dst_bcr p' = hw_rx_bitclock H h (pl_dst_sai p) \<and>
    pl_initial_dst_bclk p' = pl_initial_dst_bclk p \<and>
    pl_dst_bclk p' = pl_dst_bclk p + ucast (hw_rx_bitclock H h (pl_dst_sai p) - pl_dst_bcr p)"
  using assms by (auto simp: pll_due_def pll_element_run_def pll_estimate_def pll_track_def pll_finish_def Let_def)

lemma pll_sample_locks:
  assumes "pll_due p" and "pl_state p = PLL_STATE_LOCKING" and "\<not> pl_sample_count p < 10"
    and "pl_dst_bclk p + ucast (hw_rx_bitclock H h (pl_dst_sai p) - pl_dst_bcr p) \<noteq> pl_initial_dst_bclk p"
  shows "\<exists>p' h'. pll_element_run H p h = Some (0, p', h') \<and> pl_state p' = PLL_STATE_LOCKED"
  using assms by (auto simp: pll_due_def pll_element_run_def pll_estimate_def pll_track_def pll_finish_def pll_apply_def Let_def)

definition dst_reading :: "'h hw \<Rightarrow> (nat \<Rightarrow> 'h) \<Rightarrow> pll_element \<Rightarrow> nat \<Rightarrow> u32" where
  "dst_reading H hs pll i = hw_rx_bitclock H (hs i) (pl_dst_sai pll)"

text \<open>The progress of the destination clock over the first \<open>k\<close> sampling intervals of \<open>q\<close> runs.\<close>

definition dst_progress :: "'h hw \<Rightarrow> (nat \<Rightarrow> 'h) \<Rightarrow> pll_element \<Rightarrow> nat \<Rightarrow> nat \<Rightarrow> nat" where
  "dst_progress H hs pll q k = (\<Sum>j<k. unat (dst_reading H hs pll (Suc j * q) - dst_reading H hs pll (j * q)))"

definition pll_locking_at :: "'h hw \<Rightarrow> (nat \<Rightarrow> 'h) \<Rightarrow> pll_element \<Rightarrow> nat \<Rightarrow> nat \<Rightarrow> pll_element \<Rightarrow> bool" where
  "pll_locking_at H hs pll q k p \<longleftrightarrow>
     pl_state p = PLL_STATE_LOCKING \<and> pl_enabled p \<and> pl_count p = 0 \<and> pl_period p = pl_period pll \<and>
     pl_sample_count p = of_nat (Suc k) \<and> pl_dst_sai p = pl_dst_sai pll \<and>
     pl_dst_bcr p = dst_reading H hs pll (k * q) \<and>
     pl_dst_bclk p - pl_initial_dst_bclk p = of_nat (dst_progress H hs pll q k)"

lemma pll_due_after_wait:
  assumes "pl_enabled p" and "q = max 1 (unat (pl_period p))" and "q < 2 ^ 32"
  shows "pll_due (p\<lparr>pl_count := of_nat (q - 1)\<rparr>)"
proof -
  have "of_nat (q - 1) + 1 = (of_nat q :: u32)" using assms(2) by (cases q) simp_all
  moreover have "unat (of_nat q :: u32) = q" by (rule unat32_of_nat [OF assms(3)])
  ultimately show ?thesis using assms(1,2) by (simp add: pll_due_def word_less_nat_alt)
qed

lemma pll_locking_inv:
  assumes en: "pl_enabled pll" and q: "q = max 1 (unat (pl_period pll))" and small: "pl_period pll \<noteq> - 1"
  shows "k < 10 \<Longrightarrow> \<exists>p. pll_runs H hs (Suc (k * q)) (pll_element_reset pll) = Some p \<and> pll_locking_at H hs pll q k p"
proof (induction k)
  case 0
  have "pl_period pll < pl_period pll + 1" using unat_plus_one [OF small] by (simp add: word_less_nat_alt)
  then have "pll_due (pll_element_reset pll)" using en by (simp add: pll_due_def pll_element_reset_def not_less)
  moreover have "pl_state (pll_element_reset pll) = PLL_STATE_UNLOCKED" by (simp add: pll_element_reset_def)
  ultimately show ?case
    using pll_sample_unlocked [of "pll_element_reset pll" H "hs 0", OF _ _ refl]
    by (auto simp: pll_locking_at_def pll_element_reset_def dst_reading_def dst_progress_def)
next
  case (Suc k)
  then obtain p where p: "pll_runs H hs (Suc (k * q)) (pll_element_reset pll) = Some p" "pll_locking_at H hs pll q k p"
    by auto
  let ?p = "p\<lparr>pl_count := of_nat (q - 1)\<rparr>"
  have q32: "q < 2 ^ 32" using q unat32_less [of "pl_period pll"] by simp
  have "q - 1 < unat (pl_period p) \<or> q - 1 = 0" using p(2) q by (auto simp: pll_locking_at_def)
  then have "pll_runs H hs (Suc (k * q) + (q - 1)) (pll_element_reset pll) = Some ?p"
    using pll_runs_wait [OF p(1)] p(2) by (simp add: pll_locking_at_def)
  moreover have "Suc (k * q) + (q - 1) = Suc k * q" using q by simp
  ultimately have w: "pll_runs H hs (Suc k * q) (pll_element_reset pll) = Some ?p" by (simp only:)
  have due: "pll_due ?p" using p(2) q q32 by (intro pll_due_after_wait) (simp_all add: pll_locking_at_def)
  have lt: "pl_sample_count ?p < 10"
    using p(2) Suc.prems unat32_of_nat [of "Suc k"] by (simp add: pll_locking_at_def word_less_nat_alt del: of_nat_Suc)
  obtain p' h' where r: "pll_element_run H ?p (hs (Suc k * q)) = Some (0, p', h')"
    "pl_state p' = PLL_STATE_LOCKING" "pl_enabled p'" "pl_count p' = 0" "pl_period p' = pl_period p"
    "pl_sample_count p' = pl_sample_count p + 1" "pl_dst_sai p' = pl_dst_sai p"
    "pl_dst_bcr p' = dst_reading H hs p (Suc k * q)" "pl_initial_dst_bclk p' = pl_initial_dst_bclk p"
    "pl_dst_bclk p' = pl_dst_bclk p + ucast (dst_reading H hs p (Suc k * q) - pl_dst_bcr p)"
    using pll_sample_locking [OF due _ refl lt, of H "hs (Suc k * q)"] p(2)
    by (auto simp: pll_locking_at_def dst_reading_def)
  have "dst_reading H hs p (Suc k * q) = dst_reading H hs pll (Suc k * q)"
    using p(2) by (simp add: dst_reading_def pll_locking_at_def)
  then have "pl_dst_bclk p' - pl_initial_dst_bclk p' = (pl_dst_bclk p - pl_initial_dst_bclk p) +
      of_nat (unat (dst_reading H hs pll (Suc k * q) - dst_reading H hs pll (k * q)))"
    using r p(2) by (simp add: pll_locking_at_def)
  then have "pll_locking_at H hs pll q (Suc k) p'"
    using r p(2) by (simp add: pll_locking_at_def dst_progress_def dst_reading_def add.commute)
  then show ?case using w r(1) by simp
qed

lemma dst_progress_pos:
  assumes "\<exists>j < k. dst_reading H hs pll (Suc j * q) \<noteq> dst_reading H hs pll (j * q)" and "k \<le> 10"
  shows "0 < dst_progress H hs pll q k" "dst_progress H hs pll q k < 2 ^ 64"
proof -
  obtain j where j: "j < k" "dst_reading H hs pll (Suc j * q) - dst_reading H hs pll (j * q) \<noteq> 0"
    using assms(1) by auto
  then have "0 < unat (dst_reading H hs pll (Suc j * q) - dst_reading H hs pll (j * q))"
    by (simp only: unat_gt_0 not_False_eq_True)
  then show "0 < dst_progress H hs pll q k"
    using j(1) member_le_sum [of j "{..<k}" "\<lambda>j. unat (dst_reading H hs pll (Suc j * q) - dst_reading H hs pll (j * q))"]
    by (simp add: dst_progress_def)
  have "dst_progress H hs pll q k \<le> (\<Sum>j<k. 2 ^ 32)"
    unfolding dst_progress_def by (rule sum_mono) (rule less_imp_le [OF unat32_less])
  also have "\<dots> < 2 ^ 64" using assms(2) by simp
  finally show "dst_progress H hs pll q k < 2 ^ 64" .
qed

text \<open>
  C20. The loop locks: reset and enabled, with a destination clock that advances in at least one of the
  first ten sampling intervals, it samples its clocks at once and then every period, and is locked after
  the eleventh sample, whatever the readings are; none of the runs up to then traps or fails, and the
  counter is the only thing that moves between two samples.
\<close>

theorem pll_locks:
  assumes "pl_enabled pll" and "pl_period pll \<noteq> - 1"
    and "\<exists>j < 10. dst_reading H hs pll (Suc j * max 1 (unat (pl_period pll))) \<noteq>
                    dst_reading H hs pll (j * max 1 (unat (pl_period pll)))"
  shows "\<exists>p. pll_runs H hs (Suc (10 * max 1 (unat (pl_period pll)))) (pll_element_reset pll) = Some p \<and>
    pl_state p = PLL_STATE_LOCKED"
proof -
  define q where "q = max 1 (unat (pl_period pll))"
  obtain p where p: "pll_runs H hs (Suc (9 * q)) (pll_element_reset pll) = Some p" "pll_locking_at H hs pll q 9 p"
    using pll_locking_inv [OF assms(1) q_def assms(2), of 9 H hs] by auto
  let ?p = "p\<lparr>pl_count := of_nat (q - 1)\<rparr>"
  have q32: "q < 2 ^ 32" using q_def unat32_less [of "pl_period pll"] by simp
  have "q - 1 < unat (pl_period p) \<or> q - 1 = 0" using p(2) q_def by (auto simp: pll_locking_at_def)
  then have "pll_runs H hs (Suc (9 * q) + (q - 1)) (pll_element_reset pll) = Some ?p"
    using pll_runs_wait [OF p(1)] p(2) by (simp add: pll_locking_at_def)
  moreover have "Suc (9 * q) + (q - 1) = 10 * q" using q_def by simp
  ultimately have w: "pll_runs H hs (10 * q) (pll_element_reset pll) = Some ?p" by (simp only:)
  have due: "pll_due ?p" using p(2) q_def q32 by (intro pll_due_after_wait) (simp_all add: pll_locking_at_def)
  have pos: "0 < dst_progress H hs pll q 10" "dst_progress H hs pll q 10 < 2 ^ 64"
    using dst_progress_pos [of 10 H hs pll q] assms(3) q_def by auto
  have "dst_reading H hs p (10 * q) = dst_reading H hs pll (10 * q)"
    using p(2) by (simp add: dst_reading_def pll_locking_at_def)
  then have "(pl_dst_bclk ?p + ucast (dst_reading H hs p (10 * q) - pl_dst_bcr ?p)) - pl_initial_dst_bclk ?p =
      (pl_dst_bclk p - pl_initial_dst_bclk p) +
      of_nat (unat (dst_reading H hs pll (10 * q) - dst_reading H hs pll (9 * q)))"
    using p(2) by (simp add: pll_locking_at_def)
  also have "\<dots> = of_nat (dst_progress H hs pll q 10)"
    using p(2) by (simp add: pll_locking_at_def dst_progress_def eval_nat_numeral lessThan_Suc)
  finally have "(pl_dst_bclk ?p + ucast (dst_reading H hs p (10 * q) - pl_dst_bcr ?p)) - pl_initial_dst_bclk ?p \<noteq> 0"
    using pos by (simp add: of_nat_eq_0_iff word_of_nat_eq_0_iff) (simp add: nat_dvd_not_less)
  then have "pl_dst_bclk ?p + ucast (hw_rx_bitclock H (hs (10 * q)) (pl_dst_sai ?p) - pl_dst_bcr ?p) \<noteq>
      pl_initial_dst_bclk ?p"
    by (simp add: dst_reading_def)
  moreover have "\<not> pl_sample_count ?p < 10" "pl_state ?p = PLL_STATE_LOCKING"
    using p(2) by (simp_all add: pll_locking_at_def)
  ultimately obtain p' h' where "pll_element_run H ?p (hs (10 * q)) = Some (0, p', h')" "pl_state p' = PLL_STATE_LOCKED"
    using pll_sample_locks [OF due, of H "hs (10 * q)"] by blast
  then show ?thesis using w by (simp add: q_def)
qed

section \<open>Concrete runs\<close>

definition pll_zeroed :: pll_element where
  "pll_zeroed = \<lparr>pl_src_sai = None, pl_dst_sai = None, pl_pll_id = 0, pl_period = 0, pl_count = 0,
     pl_state = PLL_STATE_UNLOCKED, pl_sample_count = 0, pl_enabled = False, pl_src_bcr = 0, pl_dst_bcr = 0,
     pl_bclk_offset = 0, pl_src_bclk = 0, pl_initial_src_bclk = 0, pl_prev_src_bclk = 0, pl_dst_bclk = 0,
     pl_initial_dst_bclk = 0, pl_ki = 0, pl_kp = 0, pl_integral = 0, pl_prev_err = 0, pl_prev_bclk_ppb = 0,
     pl_stats_err = stats_zeroed, pl_stats_ppb = stats_zeroed\<rparr>"

theorem pll_steering_bounded_witness:
  "\<exists>pll' h'. pll_element_run demo_hw
      (pll_zeroed\<lparr>pl_enabled := True, pl_state := PLL_STATE_LOCKED, pl_ki := 64, pl_kp := 4, pl_bclk_offset := 3\<rparr>)
      (1000, []) = Some (0, pll', h') \<and> pll_wf pll'"
proof -
  let ?pll = "pll_zeroed\<lparr>pl_enabled := True, pl_state := PLL_STATE_LOCKED, pl_ki := 64, pl_kp := 4, pl_bclk_offset := 3\<rparr>"
  have "pll_element_run demo_hw ?pll (1000, []) \<noteq> None"
    by (simp add: pll_element_run_def pll_zeroed_def pll_track_def pll_estimate_def demo_hw_def Let_def case_prod_beta)
  then obtain rc pll' h' where run: "pll_element_run demo_hw ?pll (1000, []) = Some (rc, pll', h')" by auto
  have "pll_wf ?pll" by (simp add: pll_wf_def pll_zeroed_def)
  from pll_steering_bounded [OF this run] run show ?thesis by auto
qed

theorem pll_locks_witness:
  "\<exists>p. pll_runs demo_hw (\<lambda>i. (5 * i, [])) 11 (pll_element_reset (pll_zeroed\<lparr>pl_enabled := True\<rparr>)) = Some p \<and>
     pl_state p = PLL_STATE_LOCKED"
proof -
  have "\<exists>j < 10. dst_reading demo_hw (\<lambda>i. (5 * i, [])) (pll_zeroed\<lparr>pl_enabled := True\<rparr>) (Suc j * 1) \<noteq>
      dst_reading demo_hw (\<lambda>i. (5 * i, [])) (pll_zeroed\<lparr>pl_enabled := True\<rparr>) (j * 1)"
    by (rule exI [of _ 0]) (simp add: dst_reading_def demo_hw_def)
  then show ?thesis
    using pll_locks [of "pll_zeroed\<lparr>pl_enabled := True\<rparr>" demo_hw "\<lambda>i. (5 * i, [])"]
    by (simp add: pll_zeroed_def)
qed

section \<open>Board register\<close>

text \<open>
  Within the limits of the loop and for every divider that fits its ten bits the intermediate products do
  not overflow and the register receives the new fractional divider \<open>dsm + ppb * (2 ^ 16 * mainDiv + dsm) /
  10 ^ 9\<close>, saturated to \<open>- 32767 .. 32767\<close>.
\<close>

theorem pll14xx_exact:
  assumes ppb: "PLL_MIN_PPB \<le> sint ppb" "sint ppb \<le> PLL_MAX_PPB" and div: "0 \<le> sint mainDiv" "sint mainDiv < 2 ^ 10"
  shows "sint (pll14xx_adjust orig_dsm mainDiv ppb) =
    max (- 32767) (min 32767 (sint orig_dsm + (sint ppb * (2 ^ 16 * sint mainDiv + sint orig_dsm)) sdiv 10 ^ 9))"
proof -
  define p M K where "p = sint ppb" and "M = sint mainDiv" and "K = 2 ^ 16 * M + sint orig_dsm"
  define D where "D = (p * K) sdiv 10 ^ 9"
  define d where "d = sint orig_dsm + D"
  have o: "- (2 ^ 15) \<le> sint orig_dsm" "sint orig_dsm < 2 ^ 15"
    using sint_ge [of orig_dsm] sint_lt [of orig_dsm] by simp_all
  have K: "\<bar>K\<bar> \<le> 2 ^ 27" using o div by (simp add: K_def M_def)
  have p: "\<bar>p\<bar> \<le> 200000" using ppb by (simp add: p_def)
  have "\<bar>p * K\<bar> \<le> 200000 * 2 ^ 27" using mult_mono [OF p K] by (simp add: abs_mult)
  then have pK: "\<bar>p * K\<bar> < 2 ^ 45" by simp
  then have "\<bar>D\<bar> < 2 ^ 45" using abs_sdiv_le [of "10 ^ 9" "p * K"] by (simp add: D_def)
  then have d: "int64_range d" using o by (simp add: d_def abs_less_iff)
  have words: "ppb = word_of_int p" "mainDiv = word_of_int M" "scast orig_dsm = (word_of_int (sint orig_dsm) :: s64)"
    by (simp_all add: p_def M_def)
  have "2 ^ 16 * mainDiv + scast orig_dsm = (word_of_int K :: s64)" unfolding words K_def by simp
  then have "ppb * (2 ^ 16 * mainDiv + scast orig_dsm) = word_of_int (p * K)" unfolding words(1) by simp
  moreover have "sint (word_of_int (p * K) :: s64) = p * K" using pK by (intro sint64_of_int) (simp add: abs_less_iff)
  ultimately have "s64_div (ppb * (2 ^ 16 * mainDiv + scast orig_dsm)) 1000000000 = word_of_int D"
    by (simp add: s64_div_def D_def)
  then have dsm: "scast orig_dsm + s64_div (ppb * (2 ^ 16 * mainDiv + scast orig_dsm)) 1000000000 =
      (word_of_int d :: s64)"
    unfolding words(3) d_def by simp
  have sd: "sint (word_of_int d :: s64) = d" by (rule sint64_of_int [OF d])
  have narrow: "sint (ucast (word_of_int x :: s64) :: 16 word) = x" if "- 32768 \<le> x" "x < 32768" for x
  proof -
    have "(ucast (word_of_int x :: s64) :: 16 word) = word_of_int x"
      by (rule bit_word_eqI) (simp add: bit_simps)
    then show ?thesis using that by (simp add: sint_of_int_in_range)
  qed
  have "pll14xx_adjust orig_dsm mainDiv ppb = ucast (word_of_int (max (- 32767) (min 32767 d)) :: s64)"
    unfolding pll14xx_adjust_def Let_def dsm sd by simp
  then show ?thesis using narrow [of "max (- 32767) (min 32767 d)"] by (simp add: d_def D_def K_def p_def M_def)
qed

theorem pll14xx_exact_witness:
  "sint (pll14xx_adjust 0x1000 32 150000) = 4096 + 315"
  using pll14xx_exact [of 150000 32 "0x1000"] by (simp add: signed_divide_int_def)

end
