(* ===== verification/Audio_Sai.thy ===== *)
theory Audio_Sai
  imports Audio_World Stats
begin

text \<open>
  What the serial audio source and sink share: the FIFO levels of \<open>audio/sai_drv.h\<close>, the structures of
  \<open>audio/audio_element_sai_source.c\<close> and \<open>audio/audio_element_sai_sink.c\<close> (two files with the same
  shapes), and the loops that move one period between the FIFOs and the channel buffers.
\<close>

section \<open>FIFO levels\<close>

definition sai_level :: "'h hw \<Rightarrow> nat \<Rightarrow> u8 \<times> u8 \<Rightarrow> u32" where
  "sai_level H bs fr =
     (let (wptr, rptr) = fr in
      if wptr \<ge> rptr then ucast wptr - ucast rptr
      else 2 * hw_fifo_count H (Some bs) - ucast rptr + ucast wptr)"

definition sai_rx_level :: "'h hw \<Rightarrow> 'h \<Rightarrow> nat \<Rightarrow> u32 \<Rightarrow> u32" where
  "sai_rx_level H h bs line = sai_level H bs (hw_rfr H h bs line)"

definition sai_tx_level :: "'h hw \<Rightarrow> 'h \<Rightarrow> nat \<Rightarrow> u32 \<Rightarrow> u32" where
  "sai_tx_level H h bs line = sai_level H bs (hw_tfr H h bs line)"

text \<open>
  The FIFO pointers run modulo twice the FIFO size, so that a full FIFO differs from an empty one;
  for pointers in that range the level computed from them is the number of words between them.
\<close>

theorem sai_level_exact:
  assumes "0 < unat (hw_fifo_count H (Some bs))" and "unat (hw_fifo_count H (Some bs)) \<le> 128"
    and "unat wptr < 2 * unat (hw_fifo_count H (Some bs))" and "unat rptr < 2 * unat (hw_fifo_count H (Some bs))"
  shows "unat (sai_level H bs (wptr, rptr)) =
    ring_used (2 * unat (hw_fifo_count H (Some bs))) (unat rptr) (unat wptr)"
proof -
  let ?N = "unat (hw_fifo_count H (Some bs))"
  have b: "unat (ucast wptr :: u32) = unat wptr" "unat (ucast rptr :: u32) = unat rptr"
    by (simp_all add: unat_ucast_8_32)
  have N2: "unat (2 * hw_fifo_count H (Some bs)) = 2 * ?N"
    using assms(2) by (simp add: unat_word_ariths)
  show ?thesis
  proof (cases "rptr \<le> wptr")
    case True
    then have "(ucast rptr :: u32) \<le> ucast wptr" using b by (simp add: word_le_nat_alt)
    then have "unat (sai_level H bs (wptr, rptr)) = unat wptr - unat rptr"
      using True b by (simp add: sai_level_def unat_sub)
    moreover have "ring_used (2 * ?N) (unat rptr) (unat wptr) = unat wptr - unat rptr"
      using True assms by (intro ring_used_unique) (simp_all add: word_le_nat_alt)
    ultimately show ?thesis by simp
  next
    case False
    then have lt: "unat wptr < unat rptr" by (simp add: word_le_nat_alt)
    have "(ucast rptr :: u32) \<le> 2 * hw_fifo_count H (Some bs)"
      using b N2 assms by (simp add: word_le_nat_alt)
    then have s: "unat (2 * hw_fifo_count H (Some bs) - ucast rptr) = 2 * ?N - unat rptr"
      using b N2 by (simp add: unat_sub)
    have "unat (sai_level H bs (wptr, rptr)) = 2 * ?N - unat rptr + unat wptr"
      using False s b assms unat_add_small [of "2 * hw_fifo_count H (Some bs) - ucast rptr" "ucast wptr"] lt
      by (simp add: sai_level_def)
    moreover have "ring_used (2 * ?N) (unat rptr) (unat wptr) = 2 * ?N - unat rptr + unat wptr"
      using lt assms by (intro ring_used_unique) simp_all
    ultimately show ?thesis by simp
  qed
qed

theorem sai_level_exact_witness:
  "unat (sai_level demo_hw 1 (3, 60)) = 7"
  using sai_level_exact [of demo_hw 1 3 60] by (simp add: demo_hw_def ring_used_def)

section \<open>Structures\<close>

record sai_map =
  sm_base :: nat
  sm_line :: u32
  sm_buf :: nat

record sai_io =
  so_buf :: nat
  so_convert :: bool
  so_invert :: bool
  so_shift :: u32
  so_mask :: u32

record sai_line =
  sl_base :: nat
  sl_id :: u32
  sl_sai_id :: u32
  sl_min :: u32
  sl_max :: u32
  sl_underflow :: u32
  sl_overflow :: u32
  sl_latency :: rtos_apps_stats
  sl_hist :: rtos_apps_hist

text \<open>A line in zeroed memory.\<close>

definition zeroed_sai_line :: sai_line where
  "zeroed_sai_line = \<lparr>sl_base = 0, sl_id = 0, sl_sai_id = 0, sl_min = 0, sl_max = 0, sl_underflow = 0, sl_overflow = 0,
     sl_latency = stats_zeroed, sl_hist = \<lparr>slots = replicate 101 0, n_slots = 0, slot_size = 0\<rparr>\<rparr>"

text \<open>
  \<open>struct sai_source_element\<close> and \<open>struct sai_sink_element\<close>; the arrays are lists, their lengths the
  counters \<open>map_n\<close>, \<open>out_n\<close> or \<open>in_n\<close>, \<open>line_n\<close> and \<open>sai_n\<close>.
\<close>

record sai_element =
  se_map :: "sai_map list"
  se_io :: "sai_io list"
  se_line :: "sai_line list"
  se_base :: "nat list"
  se_started :: bool

section \<open>Configuration sizes\<close>

definition sai_map_size :: "sai_element_config \<Rightarrow> u32" where
  "sai_map_size c =
     for_upto (unat (sec_sai_n c))
       (\<lambda>i. for_upto (unat (sic_line_n (sec_sai c i))) (\<lambda>j n. n + slc_channel_n (sic_line (sec_sai c i) j))) 0"

definition sai_line_size :: "sai_element_config \<Rightarrow> u32" where
  "sai_line_size c = for_upto (unat (sec_sai_n c)) (\<lambda>i n. n + sic_line_n (sec_sai c i)) 0"

text \<open>The checks on the instances and lines, up to the first violation.\<close>

definition sai_check_line :: "'h hw \<Rightarrow> u32 \<Rightarrow> u32 \<Rightarrow> sai_line_config \<Rightarrow> bool" where
  "sai_check_line H period sai_id l \<longleftrightarrow>
     (if slc_id l \<ge> 8 then False
      else if slc_channel_n l > 8 then False
      else if 2 * slc_channel_n l * period > hw_fifo_count H (hw_sai_base H sai_id) then False
      else True)"

definition sai_check_instance :: "'h hw \<Rightarrow> u32 \<Rightarrow> sai_config \<Rightarrow> bool" where
  "sai_check_instance H period s \<longleftrightarrow>
     (if sic_id s \<ge> 8 then False
      else if sic_line_n s > 8 then False
      else (\<forall>j < unat (sic_line_n s). sai_check_line H period (sic_id s) (sic_line s j)))"

definition sai_check_instances :: "'h hw \<Rightarrow> u32 \<Rightarrow> sai_element_config \<Rightarrow> bool" where
  "sai_check_instances H period c \<longleftrightarrow>
     (if sec_sai_n c > 6 then False
      else (\<forall>i < unat (sec_sai_n c). sai_check_instance H period (sec_sai c i)))"

section \<open>Moving a period\<close>

text \<open>
  One word per channel and frame: the register of channel \<open>j\<close> is read at word \<open>i * n + j\<close> of the
  sequence of reads.
\<close>

definition sai_fill ::
  "'h hw \<Rightarrow> u32 \<Rightarrow> sai_map list \<Rightarrow> audio_buffer list \<Rightarrow> 's mem \<times> 'h \<Rightarrow> 's mem \<times> 'h" where
  "sai_fill H period maps bs mh =
     for_upto (unat period)
       (\<lambda>i. for_upto (length maps)
         (\<lambda>j (m, h). let (val, h) = hw_fifo_read H (sm_base (maps ! j)) (sm_line (maps ! j)) h
                      in (audio_buf_write_uint32 m (bs ! sm_buf (maps ! j)) (of_nat i) val, h))) mh"

definition sai_drain ::
  "'s audio_format \<Rightarrow> 'h hw \<Rightarrow> u32 \<Rightarrow> sai_map list \<Rightarrow> audio_buffer list \<Rightarrow> 's mem \<Rightarrow> 'h \<Rightarrow> 'h" where
  "sai_drain F H period maps bs m h =
     for_upto (unat period)
       (\<lambda>i. for_upto (length maps)
         (\<lambda>j h. hw_fifo_write H (sm_base (maps ! j)) (sm_line (maps ! j))
                   (audio_buf_read_uint32 (sample_bits F) m (bs ! sm_buf (maps ! j)) (of_nat i)) h)) h"

text \<open>The reads of a sequence of registers, round robin over the channels.\<close>

primrec fifo_after :: "'h hw \<Rightarrow> sai_map list \<Rightarrow> nat \<Rightarrow> 'h \<Rightarrow> 'h" where
  "fifo_after H maps 0 h = h"
| "fifo_after H maps (Suc k) h =
     (let map = maps ! (k mod length maps)
      in snd (hw_fifo_read H (sm_base map) (sm_line map) (fifo_after H maps k h)))"

definition fifo_word :: "'h hw \<Rightarrow> sai_map list \<Rightarrow> 'h \<Rightarrow> nat \<Rightarrow> u32" where
  "fifo_word H maps h k =
     (let map = maps ! (k mod length maps)
      in fst (hw_fifo_read H (sm_base map) (sm_line map) (fifo_after H maps k h)))"

text \<open>The writes of a list of words to the registers, round robin over the channels.\<close>

primrec fifo_send :: "'h hw \<Rightarrow> sai_map list \<Rightarrow> nat \<Rightarrow> (nat \<Rightarrow> u32) \<Rightarrow> 'h \<Rightarrow> 'h" where
  "fifo_send H maps 0 v h = h"
| "fifo_send H maps (Suc k) v h =
     (let map = maps ! (k mod length maps)
      in hw_fifo_write H (sm_base map) (sm_line map) (v k) (fifo_send H maps k v h))"

definition map_places :: "sai_map list \<Rightarrow> nat list" where
  "map_places maps = map sm_buf maps"

lemma length_map_places [simp]: "length (map_places maps) = length maps"
  by (simp add: map_places_def)

lemma sai_drain_sends:
  "sai_drain F H period maps bs m h =
     fifo_send H maps (unat period * length maps)
       (\<lambda>k. audio_buf_read_uint32 (sample_bits F) m (bs ! sm_buf (maps ! (k mod length maps)))
              (of_nat (k div length maps))) h"
proof -
  have "for_upto n (\<lambda>k. hw_fifo_write H (sm_base (maps ! (k mod length maps))) (sm_line (maps ! (k mod length maps)))
      (v k)) h = fifo_send H maps n v h" for n v
    by (induction n) (simp_all add: Let_def)
  then show ?thesis by (simp add: sai_drain_def for_upto_nested)
qed

text \<open>The slot of word \<open>k\<close>, and that different words go to different slots.\<close>

definition word_slot :: "sai_map list \<Rightarrow> audio_buffer list \<Rightarrow> nat \<Rightarrow> nat" where
  "word_slot maps bs k =
     (let b = bs ! sm_buf (maps ! (k mod length maps)) in base b + unat (wr b) + k div length maps)"

lemma word_slot_inj:
  assumes ok: "world_ok P w" and d: "distinct (map_places maps)"
    and pl: "\<forall>i \<in> set (map_places maps). i < length (bufs w)"
    and k: "k < unat P * length maps" and l: "l < unat P * length maps"
    and eq: "word_slot maps (bufs w) k = word_slot maps (bufs w) l"
  shows "k = l"
proof -
  let ?n = "length maps"
  have n: "0 < ?n" using k by (cases "?n = 0") simp_all
  have row: "k div ?n < unat P" "l div ?n < unat P" using k l by (simp_all add: less_mult_imp_div_less)
  have in_slots: "word_slot maps (bufs w) x \<in> write_slots P (bufs w ! sm_buf (maps ! (x mod ?n)))"
    if "x div ?n < unat P" for x
    using that by (simp add: word_slot_def write_slots_def Let_def)
  have p: "sm_buf (maps ! (x mod ?n)) < length (bufs w)" for x
    using pl n by (simp add: map_places_def)
  have "k mod ?n = l mod ?n"
  proof (rule ccontr)
    assume ne: "k mod ?n \<noteq> l mod ?n"
    have "sm_buf (maps ! (k mod ?n)) \<noteq> sm_buf (maps ! (l mod ?n))"
      using d ne n by (auto simp: map_places_def distinct_conv_nth)
    then show False
      using write_slots_apart [OF ok p p, of k l] in_slots [OF row(1)] in_slots [OF row(2)] eq
        write_slots_range [OF world_okD(1) [OF ok p]] by auto
  qed
  moreover have "k div ?n = l div ?n" using eq calculation by (simp add: word_slot_def Let_def)
  ultimately show ?thesis by (metis div_mult_mod_eq)
qed

lemma sai_fill_spec:
  assumes ok: "world_ok P w" and d: "distinct (map_places maps)"
    and pl: "\<forall>i \<in> set (map_places maps). i < length (bufs w)"
    and fill: "sai_fill H P maps (bufs w) (smem w, hws w) = (m', h')"
  shows "h' = fifo_after H maps (unat P * length maps) (hws w)"
    and "j < length maps \<Longrightarrow> write_block P m' (bufs w ! (map_places maps ! j)) =
      map (\<lambda>i. Raw (fifo_word H maps (hws w) (i * length maps + j))) [0..<unat P]"
    and "(\<And>i. i < length maps \<Longrightarrow> a \<notin> write_slots P (bufs w ! (map_places maps ! i))) \<Longrightarrow> m' a = smem w a"
proof -
  let ?n = "length maps" and ?N = "unat P * length maps"
  define inv where "inv k mh \<longleftrightarrow> snd mh = fifo_after H maps k (hws w) \<and>
    (\<forall>l < k. fst mh (word_slot maps (bufs w) l) = Raw (fifo_word H maps (hws w) l)) \<and>
    (\<forall>a. (\<forall>l < k. a \<noteq> word_slot maps (bufs w) l) \<longrightarrow> fst mh a = smem w a)" for k mh
  have "inv ?N (for_upto ?N (\<lambda>k (m, h).
      let (val, h) = hw_fifo_read H (sm_base (maps ! (k mod ?n))) (sm_line (maps ! (k mod ?n))) h
      in (audio_buf_write_uint32 m (bufs w ! sm_buf (maps ! (k mod ?n))) (of_nat (k div ?n)) val, h))
      (smem w, hws w))"
  proof (rule for_upto_invariant [where P = inv])
    show "inv 0 (smem w, hws w)" by (simp add: inv_def)
  next
    fix k and mh :: "'a mem \<times> 'b"
    assume k: "k < ?N" and st: "inv k mh"
    obtain m h where mh: "mh = (m, h)" by (cases mh)
    have n: "0 < ?n" using k by (cases "?n = 0") simp_all
    have p: "sm_buf (maps ! (k mod ?n)) < length (bufs w)" using pl n by (simp add: map_places_def)
    note al = buf_alignedD [OF world_okD(1) [OF ok p]]
    have "k div ?n < unat P" using k by (simp add: less_mult_imp_div_less)
    then have addr: "audio_buf_write_addr (bufs w ! sm_buf (maps ! (k mod ?n))) (of_nat (k div ?n)) =
        word_slot maps (bufs w) k"
      using buf_block_addr [OF al(1,2)] by (simp add: word_slot_def Let_def)
    have "word_slot maps (bufs w) l \<noteq> word_slot maps (bufs w) k" if "l < k" for l
      using word_slot_inj [OF ok d pl, of l k] that k by auto
    then show "inv (Suc k) (case mh of (m, h) \<Rightarrow>
        let (val, h) = hw_fifo_read H (sm_base (maps ! (k mod ?n))) (sm_line (maps ! (k mod ?n))) h
        in (audio_buf_write_uint32 m (bufs w ! sm_buf (maps ! (k mod ?n))) (of_nat (k div ?n)) val, h))"
      using st mh addr
      by (auto simp: inv_def audio_buf_write_uint32_def fifo_word_def Let_def case_prod_beta less_Suc_eq)
  qed
  then have inv: "inv ?N (m', h')" using fill by (simp add: sai_fill_def for_upto_nested)
  then show "h' = fifo_after H maps ?N (hws w)" by (simp add: inv_def)
  show "write_block P m' (bufs w ! (map_places maps ! j)) =
      map (\<lambda>i. Raw (fifo_word H maps (hws w) (i * ?n + j))) [0..<unat P]" if j: "j < ?n"
  proof (rule nth_equalityI)
    fix i assume "i < length (write_block P m' (bufs w ! (map_places maps ! j)))"
    then have i: "i < unat P" by (simp add: write_block_def)
    have "Suc i * ?n \<le> unat P * ?n" using i by (intro mult_le_mono1) simp
    then have lt: "i * ?n + j < ?N" using j by simp
    have "(i * n + j) div n = i" if "j < n" for n using that by simp
    from this [OF j] have "word_slot maps (bufs w) (i * ?n + j) =
        base (bufs w ! (map_places maps ! j)) + unat (wr (bufs w ! (map_places maps ! j))) + i"
      using j by (simp add: word_slot_def map_places_def Let_def)
    then show "write_block P m' (bufs w ! (map_places maps ! j)) ! i =
        map (\<lambda>i. Raw (fifo_word H maps (hws w) (i * ?n + j))) [0..<unat P] ! i"
      using inv lt i by (simp add: inv_def write_block_def) metis
  qed (simp add: write_block_def)
  show "m' a = smem w a" if a: "\<And>i. i < ?n \<Longrightarrow> a \<notin> write_slots P (bufs w ! (map_places maps ! i))"
  proof -
    have "a \<noteq> word_slot maps (bufs w) l" if l: "l < ?N" for l
    proof -
      have "0 < ?n" "l div ?n < unat P" using l by (auto simp: less_mult_imp_div_less)
      then show ?thesis using a [of "l mod ?n"] by (auto simp: word_slot_def write_slots_def map_places_def Let_def)
    qed
    then show ?thesis using inv by (simp add: inv_def)
  qed
qed

section \<open>Lines\<close>

text \<open>A level check only moves the statistics of a line that passes it.\<close>

definition line_checked :: "sai_line \<Rightarrow> sai_line \<Rightarrow> bool" where
  "line_checked l l' \<longleftrightarrow> sl_base l' = sl_base l \<and> sl_id l' = sl_id l \<and> sl_sai_id l' = sl_sai_id l \<and>
     sl_min l' = sl_min l \<and> sl_max l' = sl_max l \<and> sl_underflow l' = sl_underflow l \<and>
     sl_overflow l' = sl_overflow l \<and> hist_wf (sl_hist l')"

text \<open>The lines below \<open>n\<close> passed their check, nothing else of the element moved.\<close>

definition lines_checked :: "sai_element \<Rightarrow> nat \<Rightarrow> sai_element \<Rightarrow> bool" where
  "lines_checked se n se' \<longleftrightarrow> se_map se' = se_map se \<and> se_io se' = se_io se \<and> se_base se' = se_base se \<and>
     se_started se' = se_started se \<and> length (se_line se') = length (se_line se) \<and>
     (\<forall>i < length (se_line se). if i < n then line_checked (se_line se ! i) (se_line se' ! i)
                                else se_line se' ! i = se_line se ! i)"

lemma lines_checked_0: "lines_checked se 0 se"
  by (simp add: lines_checked_def)

lemma lines_checked_Suc:
  assumes "lines_checked se n se'" and "n < length (se_line se)" and "line_checked (se_line se ! n) l"
  shows "lines_checked se (Suc n) (se'\<lparr>se_line := (se_line se')[n := l]\<rparr>)"
proof -
  have "if i < Suc n then line_checked (se_line se ! i) ((se_line se')[n := l] ! i)
      else (se_line se')[n := l] ! i = se_line se ! i" if i: "i < length (se_line se)" for i
    using assms i by (cases "i = n") (auto simp: lines_checked_def)
  then show ?thesis using assms(1) by (simp add: lines_checked_def)
qed

lemma lines_checked_only_lines: "lines_checked se n se' \<Longrightarrow> se' = se\<lparr>se_line := se_line se'\<rparr>"
  by (rule sai_element.equality) (simp_all add: lines_checked_def)

section \<open>A concrete element\<close>

definition demo_line :: "u32 \<Rightarrow> u32 \<Rightarrow> sai_line" where
  "demo_line mn mx = \<lparr>sl_base = 1, sl_id = 0, sl_sai_id = 1, sl_min = mn, sl_max = mx, sl_underflow = 0,
     sl_overflow = 0, sl_latency = stats_zeroed, sl_hist = \<lparr>slots = replicate 101 0, n_slots = 16, slot_size = 1\<rparr>\<rparr>"

definition demo_sai :: "sai_line \<Rightarrow> sai_element" where
  "demo_sai l = \<lparr>se_map = [\<lparr>sm_base = 1, sm_line = 0, sm_buf = 0\<rparr>, \<lparr>sm_base = 1, sm_line = 0, sm_buf = 2\<rparr>],
     se_io = map (\<lambda>i. \<lparr>so_buf = i, so_convert = True, so_invert = False, so_shift = 0, so_mask = - 1\<rparr>) [0, 2],
     se_line = [l], se_base = [1], se_started = True\<rparr>"

end
