(* ===== verification/Audio_Sai_Init.thy ===== *)
theory Audio_Sai_Init
  imports Audio_Sai
begin

text \<open>
  Initialisation of the tables of the serial audio elements: the second half of
  \<open>sai_source_element_init\<close> and \<open>sai_sink_element_init\<close>, which differ in the buffer array they
  attach to (outputs or inputs) and in the bounds of a line. A configuration that passed the check
  gives tables with one entry per channel, in order.
\<close>

section \<open>Operations\<close>

text \<open>
  The tables are filled in the order of instances, lines and channels. They are allocated and zeroed
  with the pipeline; a missing instance leaves the loop. \<open>si_line\<close> is the pointer \<open>line\<close>, \<open>si_l\<close> the
  channel counter \<open>l\<close>.
\<close>

record ('s, 'h) sai_init =
  si_element :: sai_element
  si_world :: "('s, 'h) world"
  si_line :: nat
  si_l :: nat

definition sai_init_channel ::
  "(u32 \<Rightarrow> audio_buffer \<Rightarrow> audio_buffer) \<Rightarrow> (nat \<Rightarrow> u32) \<Rightarrow> nat \<Rightarrow> u32 \<Rightarrow> ('s, 'h) sai_init \<Rightarrow> ('s, 'h) sai_init" where
  "sai_init_channel attach place bs line_id s =
     (let l = si_l s; buf = unat (place l)
      in s\<lparr>si_element := (si_element s)\<lparr>se_map := (se_map (si_element s))
               [l := \<lparr>sm_base = bs, sm_line = line_id, sm_buf = buf\<rparr>]\<rparr>,
           si_world := buf_upd buf (attach (of_nat l)) (si_world s),
           si_l := Suc l\<rparr>)"

definition sai_init_line ::
  "(u32 \<Rightarrow> audio_buffer \<Rightarrow> audio_buffer) \<Rightarrow> (nat \<Rightarrow> u32) \<Rightarrow> (u32 \<Rightarrow> u32) \<Rightarrow> (u32 \<Rightarrow> u32) \<Rightarrow> string \<Rightarrow>
     sai_config \<Rightarrow> nat \<Rightarrow> nat \<Rightarrow> ('s, 'h) sai_init \<Rightarrow> ('s, 'h) sai_init" where
  "sai_init_line attach place mn mx name sc bs j s =
     (let c = sic_line sc j; line = se_line (si_element s) ! si_line s;
          line = line\<lparr>sl_base := bs, sl_id := slc_id c, sl_sai_id := sic_id sc,
                      sl_min := mn (slc_channel_n c), sl_max := mx (slc_channel_n c),
                      sl_latency := rtos_apps_stats_init (sl_latency line) 31 name None,
                      sl_hist := snd (rtos_apps_hist_init (sl_hist line) 16 1)\<rparr>;
          s = s\<lparr>si_element := (si_element s)\<lparr>se_line := (se_line (si_element s))[si_line s := line]\<rparr>,
                si_line := Suc (si_line s)\<rparr>
      in for_upto (unat (slc_channel_n c)) (\<lambda>_. sai_init_channel attach place bs (slc_id c)) s)"

definition sai_init_instance ::
  "'h hw \<Rightarrow> (u32 \<Rightarrow> audio_buffer \<Rightarrow> audio_buffer) \<Rightarrow> (nat \<Rightarrow> u32) \<Rightarrow> (u32 \<Rightarrow> u32) \<Rightarrow> (u32 \<Rightarrow> u32) \<Rightarrow> string \<Rightarrow>
     sai_element_config \<Rightarrow> nat \<Rightarrow> ('s, 'h) sai_init \<Rightarrow> ('s, 'h) sai_init + ('s, 'h) sai_init" where
  "sai_init_instance H attach place mn mx name c i s =
     (let sc = sec_sai c i in
      case hw_sai_base H (sic_id sc) of
        None \<Rightarrow> Inl s
      | Some bs \<Rightarrow>
          let s = s\<lparr>si_element := (si_element s)\<lparr>se_base := (se_base (si_element s))[i := bs]\<rparr>\<rparr>
          in Inr (for_upto (unat (sic_line_n sc)) (sai_init_line attach place mn mx name sc bs) s))"

definition sai_tables_zeroed :: "sai_element_config \<Rightarrow> sai_line \<Rightarrow> sai_element" where
  "sai_tables_zeroed c line0 =
     \<lparr>se_map = replicate (unat (sai_map_size c)) \<lparr>sm_base = 0, sm_line = 0, sm_buf = 0\<rparr>,
      se_io = replicate (unat (sai_map_size c))
        \<lparr>so_buf = 0, so_convert = False, so_invert = False, so_shift = 0, so_mask = 0\<rparr>,
      se_line = replicate (unat (sai_line_size c)) line0,
      se_base = replicate (unat (sec_sai_n c)) 0, se_started = False\<rparr>"

definition sai_init_tables ::
  "'h hw \<Rightarrow> (u32 \<Rightarrow> audio_buffer \<Rightarrow> audio_buffer) \<Rightarrow> (nat \<Rightarrow> u32) \<Rightarrow> (u32 \<Rightarrow> u32) \<Rightarrow> (u32 \<Rightarrow> u32) \<Rightarrow> string \<Rightarrow>
     sai_element_config \<Rightarrow> sai_line \<Rightarrow> ('s, 'h) world \<Rightarrow> (sai_element \<times> ('s, 'h) world) option" where
  "sai_init_tables H attach place mn mx name c line0 w =
     (let s = \<lparr>si_element = sai_tables_zeroed c line0, si_world = w, si_line = 0, si_l = 0\<rparr>
      in case for_upto_err (unat (sec_sai_n c)) (sai_init_instance H attach place mn mx name c) s of
           Inl _ \<Rightarrow> None
         | Inr s \<Rightarrow>
             let se = si_element s;
                 ios = map (\<lambda>i. \<lparr>so_buf = unat (place i), so_convert = True, so_invert = False,
                                 so_shift = 0, so_mask = - 1\<rparr>) [0..<length (se_io se)]
             in Some (se\<lparr>se_io := ios\<rparr>, si_world s))"

text \<open>
  The statistics of the lines, computed, logged and restarted. \<open>None\<close> is an access beyond the slots of
  a histogram, as in \<open>rtos_apps_hist_reset\<close>.
\<close>

definition sai_element_stats :: "sai_element \<Rightarrow> sai_element option" where
  "sai_element_stats se =
     (case for_upto_err (length (se_line se))
        (\<lambda>i se. let line = se_line se ! i;
                    line = line\<lparr>sl_latency := rtos_apps_stats_compute (sl_latency line)\<rparr>;
                    line = line\<lparr>sl_latency := rtos_apps_stats_reset (sl_latency line)\<rparr>
                in case rtos_apps_hist_reset (sl_hist line) of
                     None \<Rightarrow> Inl ()
                   | Some hist \<Rightarrow> Inr (se\<lparr>se_line := (se_line se)[i := line\<lparr>sl_hist := hist\<rparr>]\<rparr>)) se of
        Inl _ \<Rightarrow> None | Inr se \<Rightarrow> Some se)"

record sai_sizes =
  sz_sai_element :: u32
  sz_sai_map :: u32
  sz_sai_io :: u32
  sz_sai_line :: u32
  sz_sai_ptr :: u32

definition sai_element_size :: "sai_sizes \<Rightarrow> sai_element_config \<Rightarrow> u32" where
  "sai_element_size Z c =
     sz_sai_element Z + sai_map_size c * (sz_sai_map Z + sz_sai_io Z) + sai_line_size c * sz_sai_line Z
       + sec_sai_n c * sz_sai_ptr Z"

section \<open>Sizes of a checked configuration\<close>

definition line_chans :: "sai_config \<Rightarrow> nat \<Rightarrow> nat" where
  "line_chans s j = (\<Sum>b<j. unat (slc_channel_n (sic_line s b)))"

definition sai_chans :: "sai_element_config \<Rightarrow> nat \<Rightarrow> nat" where
  "sai_chans c i = (\<Sum>a<i. line_chans (sec_sai c a) (unat (sic_line_n (sec_sai c a))))"

definition sai_lines :: "sai_element_config \<Rightarrow> nat \<Rightarrow> nat" where
  "sai_lines c i = (\<Sum>a<i. unat (sic_line_n (sec_sai c a)))"

lemma chans_Suc [simp]:
  "line_chans s (Suc j) = line_chans s j + unat (slc_channel_n (sic_line s j))"
  "sai_chans c (Suc i) = sai_chans c i + line_chans (sec_sai c i) (unat (sic_line_n (sec_sai c i)))"
  "sai_lines c (Suc i) = sai_lines c i + unat (sic_line_n (sec_sai c i))"
  "line_chans s 0 = 0" "sai_chans c 0 = 0" "sai_lines c 0 = 0"
  by (simp_all add: line_chans_def sai_chans_def sai_lines_def)

lemma line_chans_mono: "i \<le> j \<Longrightarrow> line_chans s i \<le> line_chans s j"
  and sai_chans_mono: "i \<le> j \<Longrightarrow> sai_chans c i \<le> sai_chans c j"
  and sai_lines_mono: "i \<le> j \<Longrightarrow> sai_lines c i \<le> sai_lines c j"
  by (auto simp: line_chans_def sai_chans_def sai_lines_def intro: sum_mono2)

lemma sai_checkD:
  assumes "sai_check_instances H period c"
  shows "unat (sec_sai_n c) \<le> 6"
    and "i < unat (sec_sai_n c) \<Longrightarrow> unat (sic_line_n (sec_sai c i)) \<le> 8"
    and "i < unat (sec_sai_n c) \<Longrightarrow> j < unat (sic_line_n (sec_sai c i)) \<Longrightarrow>
      unat (slc_channel_n (sic_line (sec_sai c i) j)) \<le> 8"
proof -
  have le: "\<not> x > y \<Longrightarrow> unat x \<le> unat y" for x y :: u32
    by (simp add: linorder_not_less word_le_nat_alt)
  have top: "\<not> sec_sai_n c > 6" "\<forall>i < unat (sec_sai_n c). sai_check_instance H period (sec_sai c i)"
    using assms by (simp_all add: sai_check_instances_def split: if_splits)
  then show "unat (sec_sai_n c) \<le> 6" using le [of 6 "sec_sai_n c"] by simp
  have inst: "\<not> sic_line_n (sec_sai c i) > 8"
      "\<forall>j < unat (sic_line_n (sec_sai c i)). sai_check_line H period (sic_id (sec_sai c i)) (sic_line (sec_sai c i) j)"
    if i: "i < unat (sec_sai_n c)"
  proof -
    have "sai_check_instance H period (sec_sai c i)" using top(2) i by blast
    then show "\<not> sic_line_n (sec_sai c i) > 8"
      "\<forall>j < unat (sic_line_n (sec_sai c i)). sai_check_line H period (sic_id (sec_sai c i)) (sic_line (sec_sai c i) j)"
      by (simp_all add: sai_check_instance_def split: if_splits)
  qed
  then show "unat (sic_line_n (sec_sai c i)) \<le> 8" if "i < unat (sec_sai_n c)"
    using le [of 8 "sic_line_n (sec_sai c i)"] that by simp
  have "\<not> slc_channel_n (sic_line (sec_sai c i) j) > 8"
    if ij: "i < unat (sec_sai_n c)" "j < unat (sic_line_n (sec_sai c i))"
  proof -
    have "sai_check_line H period (sic_id (sec_sai c i)) (sic_line (sec_sai c i) j)" using inst(2) ij by blast
    then show ?thesis by (simp add: sai_check_line_def split: if_splits)
  qed
  then show "unat (slc_channel_n (sic_line (sec_sai c i) j)) \<le> 8"
    if "i < unat (sec_sai_n c)" "j < unat (sic_line_n (sec_sai c i))"
    using le [of 8 "slc_channel_n (sic_line (sec_sai c i) j)"] that by simp
qed

lemma line_chans_bound:
  assumes "sai_check_instances H period c" and "i < unat (sec_sai_n c)" and "j \<le> unat (sic_line_n (sec_sai c i))"
  shows "line_chans (sec_sai c i) j \<le> 64"
proof -
  have "line_chans (sec_sai c i) j \<le> of_nat (card {..<j}) * 8"
    unfolding line_chans_def
    using sai_checkD(3) [OF assms(1,2)] assms(3) by (intro sum_bounded_above) auto
  then show ?thesis using sai_checkD(2) [OF assms(1,2)] assms(3) by simp
qed

lemma sai_chans_bound:
  assumes "sai_check_instances H period c" and "i \<le> unat (sec_sai_n c)"
  shows "sai_chans c i \<le> 384" and "sai_lines c i \<le> 48"
proof -
  have "sai_chans c i \<le> of_nat (card {..<i}) * 64"
    unfolding sai_chans_def
    using line_chans_bound [OF assms(1)] assms(2) by (intro sum_bounded_above) auto
  then show "sai_chans c i \<le> 384" using sai_checkD(1) [OF assms(1)] assms(2) by simp
  have "sai_lines c i \<le> of_nat (card {..<i}) * 8"
    unfolding sai_lines_def
    using sai_checkD(2) [OF assms(1)] assms(2) by (intro sum_bounded_above) auto
  then show "sai_lines c i \<le> 48" using sai_checkD(1) [OF assms(1)] assms(2) by simp
qed

lemma sai_line_size_exact:
  assumes "sai_check_instances H period c"
  shows "unat (sai_line_size c) = sai_lines c (unat (sec_sai_n c))"
proof -
  have "unat (for_upto k (\<lambda>i n. n + sic_line_n (sec_sai c i)) 0) = sai_lines c k" if "k \<le> unat (sec_sai_n c)" for k
    using that
  proof (induction k)
    case (Suc k)
    then show ?case using sai_chans_bound(2) [OF assms Suc.prems] by (simp add: unat_add_small)
  qed simp
  then show ?thesis by (simp add: sai_line_size_def)
qed

lemma sai_map_size_exact:
  assumes "sai_check_instances H period c"
  shows "unat (sai_map_size c) = sai_chans c (unat (sec_sai_n c))"
proof -
  have inner: "unat (for_upto j (\<lambda>j n. n + slc_channel_n (sic_line (sec_sai c i) j)) m) =
      unat m + line_chans (sec_sai c i) j"
    if "unat m \<le> 384" "i < unat (sec_sai_n c)" "j \<le> unat (sic_line_n (sec_sai c i))" for i j m
    using that(3)
  proof (induction j)
    case (Suc j)
    then show ?case
      using that(1) line_chans_bound [OF assms that(2) Suc.prems] by (simp add: unat_add_small)
  qed simp
  have "unat (for_upto k (\<lambda>i. for_upto (unat (sic_line_n (sec_sai c i)))
      (\<lambda>j n. n + slc_channel_n (sic_line (sec_sai c i) j))) 0) = sai_chans c k" if "k \<le> unat (sec_sai_n c)" for k
    using that
  proof (induction k)
    case (Suc k)
    then show ?case using sai_chans_bound(1) [OF assms, of k] by (simp add: inner)
  qed simp
  then show ?thesis by (simp add: sai_map_size_def)
qed

section \<open>The tables of a checked configuration\<close>

definition sai_filled ::
  "(nat \<Rightarrow> u32) \<Rightarrow> sai_element_config \<Rightarrow> ('s, 'h) world \<Rightarrow> nat \<Rightarrow> nat \<Rightarrow> ('s, 'h) sai_init \<Rightarrow> bool" where
  "sai_filled place c w n l s \<longleftrightarrow>
     si_line s = n \<and> si_l s = l \<and> same_buffers (si_world s) w \<and>
     length (se_map (si_element s)) = unat (sai_map_size c) \<and>
     length (se_io (si_element s)) = unat (sai_map_size c) \<and>
     length (se_line (si_element s)) = unat (sai_line_size c) \<and>
     (\<forall>i < l. sm_buf (se_map (si_element s) ! i) = unat (place i)) \<and>
     (\<forall>i < unat (sai_line_size c). length (slots (sl_hist (se_line (si_element s) ! i))) = unat RTOS_APPS_STATS_MAX_SLOTS) \<and>
     (\<forall>i < n. hist_wf (sl_hist (se_line (si_element s) ! i))) \<and> \<not> se_started (si_element s)"

lemma sai_init_channel_filled:
  assumes "sai_filled place c w n l s" and "l < unat (sai_map_size c)"
    and "\<And>i b. same_geometry (attach i b) b"
  shows "sai_filled place c w n (Suc l) (sai_init_channel attach place bs line_id s)"
  using assms same_buffers_buf_upd [of "si_world s" w "attach (of_nat l)" "unat (place l)"]
  by (auto simp: sai_filled_def sai_init_channel_def Let_def nth_list_update less_Suc_eq)

lemma sai_init_line_filled:
  assumes f: "sai_filled place c w n l s" and n: "n < unat (sai_line_size c)"
    and l: "l + unat (slc_channel_n (sic_line sc j)) \<le> unat (sai_map_size c)"
    and attach: "\<And>i b. same_geometry (attach i b) b"
  shows "sai_filled place c w (Suc n) (l + unat (slc_channel_n (sic_line sc j)))
    (sai_init_line attach place mn mx name sc bs j s)"
proof -
  let ?line = "(se_line (si_element s) ! n)\<lparr>sl_base := bs, sl_id := slc_id (sic_line sc j), sl_sai_id := sic_id sc,
    sl_min := mn (slc_channel_n (sic_line sc j)), sl_max := mx (slc_channel_n (sic_line sc j)),
    sl_latency := rtos_apps_stats_init (sl_latency (se_line (si_element s) ! n)) 31 name None,
    sl_hist := snd (rtos_apps_hist_init (sl_hist (se_line (si_element s) ! n)) 16 1)\<rparr>"
  let ?s = "s\<lparr>si_element := (si_element s)\<lparr>se_line := (se_line (si_element s))[n := ?line]\<rparr>, si_line := Suc n\<rparr>"
  have "length (slots (sl_hist (se_line (si_element s) ! n))) = unat RTOS_APPS_STATS_MAX_SLOTS"
    using f n by (simp add: sai_filled_def)
  then have h: "hist_wf (sl_hist ?line)" "length (slots (sl_hist ?line)) = unat RTOS_APPS_STATS_MAX_SLOTS"
    by (simp_all add: rtos_apps_hist_init_def hist_wf_def)
  have "sai_filled place c w (Suc n) l ?s"
    using f n h by (auto simp: sai_filled_def nth_list_update less_Suc_eq)
  then have "sai_filled place c w (Suc n) (l + unat (slc_channel_n (sic_line sc j)))
      (for_upto (unat (slc_channel_n (sic_line sc j)))
        (\<lambda>_. sai_init_channel attach place bs (slc_id (sic_line sc j))) ?s)"
    by (intro for_upto_invariant [where P = "\<lambda>k. sai_filled place c w (Suc n) (l + k)"])
      (use l attach in \<open>auto intro: sai_init_channel_filled\<close>)
  moreover have "si_line s = n" using f by (simp add: sai_filled_def)
  ultimately show ?thesis by (simp add: sai_init_line_def Let_def)
qed

lemma sai_init_instance_filled:
  assumes check: "sai_check_instances H period c" and i: "i < unat (sec_sai_n c)"
    and base: "hw_sai_base H (sic_id (sec_sai c i)) = Some bs"
    and f: "sai_filled place c w (sai_lines c i) (sai_chans c i) s"
    and attach: "\<And>i b. same_geometry (attach i b) b"
  shows "\<exists>s'. sai_init_instance H attach place mn mx name c i s = Inr s' \<and>
    sai_filled place c w (sai_lines c (Suc i)) (sai_chans c (Suc i)) s'"
proof -
  let ?sc = "sec_sai c i" and ?s = "s\<lparr>si_element := (si_element s)\<lparr>se_base := (se_base (si_element s))[i := bs]\<rparr>\<rparr>"
  have n: "sai_lines c i + j < unat (sai_line_size c)" if "j < unat (sic_line_n ?sc)" for j
    using sai_lines_mono [of "Suc i" "unat (sec_sai_n c)" c] i that by (simp add: sai_line_size_exact [OF check])
  have l: "sai_chans c i + line_chans ?sc (Suc j) \<le> unat (sai_map_size c)" if "j < unat (sic_line_n ?sc)" for j
  proof -
    have "line_chans ?sc (Suc j) \<le> line_chans ?sc (unat (sic_line_n ?sc))"
      by (rule line_chans_mono) (use that in simp)
    moreover have "sai_chans c (Suc i) \<le> sai_chans c (unat (sec_sai_n c))"
      by (rule sai_chans_mono) (use i in simp)
    ultimately show ?thesis by (simp add: sai_map_size_exact [OF check] del: chans_Suc(1))
  qed
  have "sai_filled place c w (sai_lines c i + 0) (sai_chans c i + line_chans ?sc 0) ?s"
    using f by (simp add: sai_filled_def)
  then have "sai_filled place c w (sai_lines c i + unat (sic_line_n ?sc)) (sai_chans c i + line_chans ?sc (unat (sic_line_n ?sc)))
      (for_upto (unat (sic_line_n ?sc)) (sai_init_line attach place mn mx name ?sc bs) ?s)"
  proof (rule for_upto_invariant [where P = "\<lambda>j. sai_filled place c w (sai_lines c i + j) (sai_chans c i + line_chans ?sc j)"])
    fix j s
    assume "j < unat (sic_line_n ?sc)" "sai_filled place c w (sai_lines c i + j) (sai_chans c i + line_chans ?sc j) s"
    with sai_init_line_filled [where sc = ?sc and j = j, OF this(2) n _ attach] l [of j]
    show "sai_filled place c w (sai_lines c i + Suc j) (sai_chans c i + line_chans ?sc (Suc j))
      (sai_init_line attach place mn mx name ?sc bs j s)" by (simp add: add.assoc)
  qed
  then show ?thesis by (simp add: sai_init_instance_def base Let_def)
qed

lemma sai_init_tables_ready:
  assumes check: "sai_check_instances H period c"
    and base: "\<forall>i < unat (sec_sai_n c). hw_sai_base H (sic_id (sec_sai c i)) \<noteq> None"
    and line0: "length (slots (sl_hist line0)) = unat RTOS_APPS_STATS_MAX_SLOTS"
    and attach: "\<And>i b. same_geometry (attach i b) b"
  shows "\<exists>se w'. sai_init_tables H attach place mn mx name c line0 w = Some (se, w') \<and> same_buffers w' w \<and>
    map_places (se_map se) = map (\<lambda>i. unat (place i)) [0..<unat (sai_map_size c)] \<and>
    map so_buf (se_io se) = map_places (se_map se) \<and>
    list_all (\<lambda>l. hist_wf (sl_hist l)) (se_line se) \<and> \<not> se_started se"
proof -
  let ?s = "\<lparr>si_element = sai_tables_zeroed c line0, si_world = w, si_line = 0, si_l = 0\<rparr>"
  have "sai_filled place c w (sai_lines c 0) (sai_chans c 0) ?s"
    using line0 by (simp add: sai_filled_def sai_tables_zeroed_def same_buffers_refl)
  then have "\<exists>s. for_upto_err (unat (sec_sai_n c)) (sai_init_instance H attach place mn mx name c) ?s = Inr s \<and>
      sai_filled place c w (sai_lines c (unat (sec_sai_n c))) (sai_chans c (unat (sec_sai_n c))) s"
  proof (rule for_upto_err_run [where P = "\<lambda>i. sai_filled place c w (sai_lines c i) (sai_chans c i)"])
    fix i s
    assume i: "i < unat (sec_sai_n c)" and f: "sai_filled place c w (sai_lines c i) (sai_chans c i) s"
    from base i obtain bs where "hw_sai_base H (sic_id (sec_sai c i)) = Some bs" by blast
    then show "\<exists>s'. sai_init_instance H attach place mn mx name c i s = Inr s' \<and>
        sai_filled place c w (sai_lines c (Suc i)) (sai_chans c (Suc i)) s'"
      by (rule sai_init_instance_filled [OF check i _ f attach])
  qed
  then obtain s where s: "for_upto_err (unat (sec_sai_n c)) (sai_init_instance H attach place mn mx name c) ?s = Inr s"
    and f: "sai_filled place c w (unat (sai_line_size c)) (unat (sai_map_size c)) s"
    by (auto simp: sai_map_size_exact [OF check] sai_line_size_exact [OF check])
  show ?thesis
    using f by (auto simp: sai_init_tables_def s Let_def sai_filled_def map_places_def list_all_length
        intro!: nth_equalityI)
qed

end
