(* ===== verification/Audio_Sai_Source.thy ===== *)
theory Audio_Sai_Source
  imports Audio_Sai_Init
begin

text \<open>
  The serial audio source, \<open>audio/audio_element_sai_source.c\<close>: checks the receive FIFO level of every
  line, reads one period of every channel and converts it to samples.
\<close>

section \<open>Operations\<close>

text \<open>
  The level check of the lines. The loop leaves with \<open>Inl (Some se)\<close> at \<open>goto err\<close>; \<open>Inl None\<close> is a
  histogram update that divides by zero or leaves its array.
\<close>

definition sai_source_check_line :: "'h hw \<Rightarrow> 'h \<Rightarrow> nat \<Rightarrow> sai_element \<Rightarrow> sai_element option + sai_element" where
  "sai_source_check_line H h i se =
     (let line = se_line se ! i;
          level = sai_rx_level H h (sl_base line) (sl_id line);
          line = line\<lparr>sl_latency := rtos_apps_stats_update (\<lambda>_ s. s) (sl_latency line) (level - sl_min line)\<rparr>;
          put = (\<lambda>line. se\<lparr>se_line := (se_line se)[i := line]\<rparr>)
      in case rtos_apps_hist_update (sl_hist line) (level - sl_min line) of
           None \<Rightarrow> Inl None
         | Some hist \<Rightarrow>
             let line = line\<lparr>sl_hist := hist\<rparr> in
             if level < sl_min line then Inl (Some (put (line\<lparr>sl_underflow := sl_underflow line + 1\<rparr>)))
             else if level \<ge> sl_max line then Inl (Some (put (line\<lparr>sl_overflow := sl_overflow line + 1\<rparr>)))
             else Inr (put line))"

definition sai_source_check_lines :: "'h hw \<Rightarrow> 'h \<Rightarrow> sai_element \<Rightarrow> sai_element option + sai_element" where
  "sai_source_check_lines H h se = for_upto_err (length (se_line se)) (sai_source_check_line H h) se"

definition sai_source_convert ::
  "'s audio_format \<Rightarrow> u32 \<Rightarrow> sai_io list \<Rightarrow> nat \<Rightarrow> ('s, 'h) world \<Rightarrow> ('s, 'h) world" where
  "sai_source_convert F period ios i w =
     (let out = ios ! i;
          w = (if so_convert out
               then w\<lparr>smem := audio_convert_from F (smem w) (audio_buf_write_addr (bufs w ! so_buf out) 0)
                       period (so_invert out) (so_mask out) (unat (so_shift out))\<rparr>
               else w)
      in buf_upd (so_buf out) (\<lambda>b. audio_buf_write_update b period) w)"

definition sai_source_element_run ::
  "'s audio_format \<Rightarrow> 'h hw \<Rightarrow> audio_element \<Rightarrow> sai_element \<Rightarrow> ('s::zero, 'h) world \<Rightarrow>
     (int \<times> sai_element \<times> ('s, 'h) world) option" where
  "sai_source_element_run F H el se w =
     (if se_started se then
        (case sai_source_check_lines H (hws w) se of
           Inl None \<Rightarrow> None
         | Inl (Some se) \<Rightarrow> Some (- 1, se, w)
         | Inr se \<Rightarrow>
             let (m, h) = sai_fill H (el_period el) (se_map se) (bufs w) (smem w, hws w);
                 w = for_upto (length (se_io se)) (sai_source_convert F (el_period el) (se_io se))
                       (w\<lparr>smem := m, hws := h\<rparr>)
             in Some (0, se, w))
      else
        (let w = for_upto (length (se_io se))
               (\<lambda>i. on_buf (so_buf (se_io se ! i)) (\<lambda>s. audio_buf_write_silence s (el_period el))) w;
             w = for_upto (length (se_base se)) (\<lambda>i w. w\<lparr>hws := hw_enable_rx H (se_base se ! i) (hws w)\<rparr>) w
         in Some (0, se\<lparr>se_started := True\<rparr>, w)))"

definition sai_source_element_reset ::
  "'h hw \<Rightarrow> sai_element \<Rightarrow> ('s::zero, 'h) world \<Rightarrow> sai_element \<times> ('s, 'h) world" where
  "sai_source_element_reset H se w =
     (let w = for_upto (length (se_base se)) (\<lambda>i w. w\<lparr>hws := hw_disable_rx H (se_base se ! i) (hws w)\<rparr>) w;
          w = for_upto (length (se_io se)) (\<lambda>i. on_buf (so_buf (se_io se ! i)) audio_buf_reset) w
      in (se\<lparr>se_started := False\<rparr>, w))"

definition sai_source_element_check_config :: "'h hw \<Rightarrow> 's audio_element_config \<Rightarrow> int" where
  "sai_source_element_check_config H config =
     (if ec_inputs config \<noteq> 0 then - 1
      else if ec_outputs config \<noteq> sai_map_size (ec_sai config) then - 1
      else if sai_check_instances H (ec_period config) (ec_sai config) then 0 else - 1)"

definition sai_source_element_init ::
  "'h hw \<Rightarrow> audio_element \<Rightarrow> 's audio_element_config \<Rightarrow> sai_line \<Rightarrow> ('s, 'h) world \<Rightarrow>
     (sai_element \<times> ('s, 'h) world) option" where
  "sai_source_element_init H el config line0 w =
     sai_init_tables H (set_input el) (ec_output config)
       (\<lambda>channel_n. channel_n * el_period el) (\<lambda>channel_n. 2 * channel_n * el_period el) ''rx latency (samples)''
       (ec_sai config) line0 w"

section \<open>The level check\<close>

definition rx_level_ok :: "'h hw \<Rightarrow> 'h \<Rightarrow> sai_line \<Rightarrow> bool" where
  "rx_level_ok H h l \<longleftrightarrow> sl_min l \<le> sai_rx_level H h (sl_base l) (sl_id l) \<and>
     sai_rx_level H h (sl_base l) (sl_id l) < sl_max l"

lemma source_check_passes:
  assumes "lines_checked se n se'" and "n < length (se_line se)" and "hist_wf (sl_hist (se_line se ! n))"
    and "rx_level_ok H h (se_line se ! n)"
  shows "\<exists>t. sai_source_check_line H h n se' = Inr t \<and> lines_checked se (Suc n) t"
proof -
  have l: "se_line se' ! n = se_line se ! n" using assms(1,2) by (simp add: lines_checked_def)
  let ?l = "se_line se ! n"
  let ?d = "sai_rx_level H h (sl_base ?l) (sl_id ?l) - sl_min ?l"
  obtain hist where h: "rtos_apps_hist_update (sl_hist ?l) ?d = Some hist" "hist_wf hist"
    using hist_update_wf [OF assms(3)] by blast
  let ?l' = "?l\<lparr>sl_latency := rtos_apps_stats_update (\<lambda>_ s. s) (sl_latency ?l) ?d, sl_hist := hist\<rparr>"
  have "sai_source_check_line H h n se' = Inr (se'\<lparr>se_line := (se_line se')[n := ?l']\<rparr>)"
    using assms(4) h(1) l by (simp add: sai_source_check_line_def Let_def rx_level_ok_def not_less not_le)
  moreover have "line_checked ?l ?l'" using h(2) by (simp add: line_checked_def)
  ultimately show ?thesis using lines_checked_Suc [OF assms(1,2)] by blast
qed

lemma source_checks_pass:
  assumes "\<forall>i < length (se_line se). hist_wf (sl_hist (se_line se ! i))"
    and "\<forall>i < k. rx_level_ok H h (se_line se ! i)" and "k \<le> length (se_line se)"
  shows "\<exists>t. for_upto_err k (sai_source_check_line H h) se = Inr t \<and> lines_checked se k t"
  using assms by (intro for_upto_err_run lines_checked_0 source_check_passes) auto

lemma source_check_fails:
  assumes "lines_checked se n se'" and "n < length (se_line se)" and "hist_wf (sl_hist (se_line se ! n))"
    and "\<not> rx_level_ok H h (se_line se ! n)"
  shows "\<exists>l'. sai_source_check_line H h n se' = Inl (Some (se'\<lparr>se_line := (se_line se')[n := l']\<rparr>)) \<and>
    (if sai_rx_level H h (sl_base (se_line se ! n)) (sl_id (se_line se ! n)) < sl_min (se_line se ! n)
     then sl_underflow l' = sl_underflow (se_line se ! n) + 1 \<and> sl_overflow l' = sl_overflow (se_line se ! n)
     else sl_overflow l' = sl_overflow (se_line se ! n) + 1 \<and> sl_underflow l' = sl_underflow (se_line se ! n))"
proof -
  have l: "se_line se' ! n = se_line se ! n" using assms(1,2) by (simp add: lines_checked_def)
  let ?l = "se_line se ! n"
  let ?d = "sai_rx_level H h (sl_base ?l) (sl_id ?l) - sl_min ?l"
  obtain hist where h: "rtos_apps_hist_update (sl_hist ?l) ?d = Some hist"
    using hist_update_wf [OF assms(3)] by blast
  show ?thesis
    using assms(4) h l by (auto simp: sai_source_check_line_def Let_def rx_level_ok_def)
qed

section \<open>One period from the FIFOs\<close>

definition sai_source_ready :: "u32 \<Rightarrow> sai_element \<Rightarrow> ('s, 'h) world \<Rightarrow> bool" where
  "sai_source_ready P se w \<longleftrightarrow>
     world_ok P w \<and> distinct (map_places (se_map se)) \<and>
     list_all (\<lambda>i. i < length (bufs w)) (map_places (se_map se)) \<and>
     map so_buf (se_io se) = map_places (se_map se) \<and>
     list_all (\<lambda>l. hist_wf (sl_hist l)) (se_line se)"

text \<open>A received word as the channel's buffer gets it.\<close>

definition sai_received :: "'s audio_format \<Rightarrow> sai_io \<Rightarrow> 's cell \<Rightarrow> 's cell" where
  "sai_received F io c =
     (if so_convert io then from_cell F (so_invert io) (so_mask io) (unat (so_shift io)) c else c)"

lemma source_convert_loop:
  assumes "world_ok P w" and "distinct (map so_buf ios)" and "list_all (\<lambda>i. i < length (bufs w)) (map so_buf ios)"
  shows "outs_emitted P (map so_buf ios)
      (\<lambda>i. map (sai_received F (ios ! i)) (write_block P (smem w) (bufs w ! (map so_buf ios ! i)))) w
      (for_upto (length ios) (sai_source_convert F P ios) w)"
proof -
  define g where "g = (\<lambda>i b m. if so_convert (ios ! i)
    then audio_convert_from F m (audio_buf_write_addr b 0) P (so_invert (ios ! i)) (so_mask (ios ! i))
           (unat (so_shift (ios ! i))) else m)"
  have g: "g i b m a = (if a \<in> write_slots P b then sai_received F (ios ! i) (m a) else m a)" for i b m a
    by (auto simp: g_def sai_received_def audio_convert_from_slots audio_buf_write_addr_def write_slots_def)
  have "outs_emitted P (map so_buf ios)
      (\<lambda>i. map (sai_received F (ios ! i)) (write_block P (smem w) (bufs w ! (map so_buf ios ! i)))) w
      (for_upto (length (map so_buf ios)) (sai_source_convert F P ios) w)"
  proof (rule out_loop [where g = g])
    fix i w' assume "i < length (map so_buf ios)"
    then show "sai_source_convert F P ios i w' = buf_upd (map so_buf ios ! i) (\<lambda>b. audio_buf_write_update b P)
        (w'\<lparr>smem := g i (bufs w' ! (map so_buf ios ! i)) (smem w')\<rparr>)"
      by (simp add: sai_source_convert_def g_def Let_def)
  next
    show "write_block P (g i b m) b = map (sai_received F (ios ! i)) (write_block P m b)" for i b m
      by (simp add: write_block_def g write_slots_def)
  qed (use assms g in \<open>auto simp: list_all_iff\<close>)
  then show ?thesis by simp
qed

text \<open>
  C12. A started source whose FIFO levels are all in range delivers one period: channel \<open>j\<close> of \<open>n\<close> gets
  the words \<open>j\<close>, \<open>n + j\<close>, \<open>2n + j\<close> and so on of the round-robin reads, converted by its format; exactly
  one period of words is read from the FIFOs, every output advances by one period, no other memory
  changes and the source stays ready.
\<close>

theorem sai_source_delivers:
  fixes se :: sai_element and w :: "('s::zero, 'h) world"
  assumes ready: "sai_source_ready (el_period el) se w" and started: "se_started se"
    and levels: "\<forall>i < length (se_line se). rx_level_ok H (hws w) (se_line se ! i)"
  shows "\<exists>se' w'. sai_source_element_run F H el se w = Some (0, se', w') \<and>
    sai_source_ready (el_period el) se' w' \<and> se' = se\<lparr>se_line := se_line se'\<rparr> \<and>
    hws w' = fifo_after H (se_map se) (unat (el_period el) * length (se_map se)) (hws w) \<and>
    (\<forall>j < length (se_map se). write_block (el_period el) (smem w') (bufs w ! (map_places (se_map se) ! j)) =
       map (\<lambda>i. sai_received F (se_io se ! j) (Raw (fifo_word H (se_map se) (hws w) (i * length (se_map se) + j))))
         [0..<unat (el_period el)]) \<and>
    (\<forall>j < length (bufs w). bufs w' ! j = (if j \<in> set (map_places (se_map se))
       then audio_buf_write_update (bufs w ! j) (el_period el) else bufs w ! j)) \<and>
    (\<forall>a. (\<forall>j < length (se_map se). a \<notin> write_slots (el_period el) (bufs w ! (map_places (se_map se) ! j))) \<longrightarrow>
       smem w' a = smem w a)"
proof -
  let ?P = "el_period el" and ?maps = "se_map se" and ?os = "map so_buf (se_io se)"
  have ok: "world_ok ?P w" and d: "distinct (map_places ?maps)"
    and pl: "list_all (\<lambda>i. i < length (bufs w)) (map_places ?maps)"
    and os: "?os = map_places ?maps" and wf: "list_all (\<lambda>l. hist_wf (sl_hist l)) (se_line se)"
    using ready by (simp_all add: sai_source_ready_def)
  have n: "length (se_io se) = length ?maps" using arg_cong [OF os, of length] by (simp add: map_places_def)
  obtain t where t: "sai_source_check_lines H (hws w) se = Inr t" "lines_checked se (length (se_line se)) t"
    using source_checks_pass [of se "length (se_line se)" H "hws w"] wf levels
    by (auto simp: sai_source_check_lines_def list_all_length)
  have tf: "t = se\<lparr>se_line := se_line t\<rparr>" by (rule lines_checked_only_lines [OF t(2)])
  have tw: "list_all (\<lambda>l. hist_wf (sl_hist l)) (se_line t)"
    and tm: "se_map t = ?maps" "se_io t = se_io se" "se_started t = se_started se"
    using t(2) by (auto simp: lines_checked_def line_checked_def list_all_length)
  obtain m h where fill: "sai_fill H ?P ?maps (bufs w) (smem w, hws w) = (m, h)" by force
  note fs = sai_fill_spec [OF ok d _ fill]
  have pl': "\<forall>i \<in> set (map_places ?maps). i < length (bufs w)" using pl by (simp add: list_all_iff)
  let ?w1 = "w\<lparr>smem := m, hws := h\<rparr>"
  have ok1: "world_ok ?P ?w1" using ok by simp
  define w' where "w' = for_upto (length (se_io se)) (sai_source_convert F ?P (se_io se)) ?w1"
  have out: "outs_emitted ?P ?os (\<lambda>i. map (sai_received F (se_io se ! i)) (write_block ?P m (bufs w ! (?os ! i)))) ?w1 w'"
    unfolding w'_def using source_convert_loop [OF ok1, of "se_io se" F] d pl os by simp
  have run: "sai_source_element_run F H el se w = Some (0, t, w')"
    using started t(1) fill tm by (simp add: sai_source_element_run_def w'_def)
  have "world_ok ?P w'" by (rule outs_emitted_world_ok [OF out ok1])
  then have ready': "sai_source_ready ?P t w'"
    using d pl os tw tm out by (simp add: sai_source_ready_def outs_emitted_def)
  have blocks: "write_block ?P (smem w') (bufs w ! (map_places ?maps ! j)) =
      map (\<lambda>i. sai_received F (se_io se ! j) (Raw (fifo_word H ?maps (hws w) (i * length ?maps + j)))) [0..<unat ?P]"
    if j: "j < length ?maps" for j
    using out fs(2) [OF pl' j] j n os by (simp add: outs_emitted_def comp_def)
  have frame: "smem w' a = smem w a"
    if "\<forall>j < length ?maps. a \<notin> write_slots ?P (bufs w ! (map_places ?maps ! j))" for a
    using out fs(3) [OF pl', of a] that n os by (simp add: outs_emitted_def)
  show ?thesis
    using run ready' tf blocks frame out fs(1) [OF pl'] os by (intro exI [of _ t] exI [of _ w']) (simp add: outs_emitted_def)
qed

text \<open>
  A level out of range stops the period before anything is read: the run returns the error, the
  memory, the buffers and the hardware are untouched, the first offending line counts one underflow or
  one overflow according to the side it is off, and the lines after it are not looked at.
\<close>

theorem sai_source_stops:
  assumes wf: "list_all (\<lambda>l. hist_wf (sl_hist l)) (se_line se)" and started: "se_started se"
    and k: "k < length (se_line se)" and first: "\<forall>i < k. rx_level_ok H (hws w) (se_line se ! i)"
    and bad: "\<not> rx_level_ok H (hws w) (se_line se ! k)"
  shows "\<exists>se'. sai_source_element_run F H el se w = Some (- 1, se', w) \<and>
    (let l = se_line se ! k; l' = se_line se' ! k in
     if sai_rx_level H (hws w) (sl_base l) (sl_id l) < sl_min l
     then sl_underflow l' = sl_underflow l + 1 \<and> sl_overflow l' = sl_overflow l
     else sl_overflow l' = sl_overflow l + 1 \<and> sl_underflow l' = sl_underflow l) \<and>
    (\<forall>i < k. line_checked (se_line se ! i) (se_line se' ! i)) \<and>
    (\<forall>i. k < i \<and> i < length (se_line se) \<longrightarrow> se_line se' ! i = se_line se ! i)"
proof -
  have wf': "\<forall>i < length (se_line se). hist_wf (sl_hist (se_line se ! i))" using wf by (simp add: list_all_length)
  obtain t where t: "for_upto_err k (sai_source_check_line H (hws w)) se = Inr t" "lines_checked se k t"
    using source_checks_pass [OF wf' first] k by auto
  obtain l' where l': "sai_source_check_line H (hws w) k t = Inl (Some (t\<lparr>se_line := (se_line t)[k := l']\<rparr>))"
    "if sai_rx_level H (hws w) (sl_base (se_line se ! k)) (sl_id (se_line se ! k)) < sl_min (se_line se ! k)
     then sl_underflow l' = sl_underflow (se_line se ! k) + 1 \<and> sl_overflow l' = sl_overflow (se_line se ! k)
     else sl_overflow l' = sl_overflow (se_line se ! k) + 1 \<and> sl_underflow l' = sl_underflow (se_line se ! k)"
    using source_check_fails [OF t(2) k _ bad] wf' k by auto
  have "sai_source_check_lines H (hws w) se = Inl (Some (t\<lparr>se_line := (se_line t)[k := l']\<rparr>))"
    unfolding sai_source_check_lines_def by (rule for_upto_err_stops [OF t(1) l'(1) k])
  then have "sai_source_element_run F H el se w = Some (- 1, t\<lparr>se_line := (se_line t)[k := l']\<rparr>, w)"
    using started by (simp add: sai_source_element_run_def)
  then show ?thesis using l'(2) t(2) k by (auto simp: lines_checked_def)
qed

definition demo_source_element :: audio_element where
  "demo_source_element =
     \<lparr>el_type = AUDIO_ELEMENT_SAI_SOURCE, el_sample_rate = 48000, el_period = 2, el_id = 0\<rparr>"

theorem sai_source_delivers_witness:
  "\<exists>se' w'. sai_source_element_run int_format demo_hw demo_source_element (demo_sai (demo_line 4 8)) (demo_world (10, [])) =
      Some (0, se', w') \<and>
    write_block 2 (smem w') (bufs (demo_world (10 :: nat, [] :: s64 list)) ! 2) = [Sample 11, Sample 13]"
proof -
  let ?w = "demo_world (10 :: nat, [] :: s64 list)" and ?se = "demo_sai (demo_line 4 8)"
  have "sai_source_ready (el_period demo_source_element) ?se ?w"
    using demo_world_ok by (simp add: sai_source_ready_def demo_sai_def map_places_def demo_line_def hist_wf_def
        demo_source_element_def)
  moreover have "se_started ?se" by (simp add: demo_sai_def)
  moreover have "\<forall>i < length (se_line ?se). rx_level_ok demo_hw (hws ?w) (se_line ?se ! i)"
    by (simp add: demo_sai_def demo_line_def rx_level_ok_def sai_rx_level_def sai_level_def demo_hw_def)
  ultimately obtain se' w' where run: "sai_source_element_run int_format demo_hw demo_source_element ?se ?w = Some (0, se', w')"
    and blocks: "\<forall>j < length (se_map ?se).
      write_block (el_period demo_source_element) (smem w') (bufs ?w ! (map_places (se_map ?se) ! j)) =
      map (\<lambda>i. sai_received int_format (se_io ?se ! j)
        (Raw (fifo_word demo_hw (se_map ?se) (hws ?w) (i * length (se_map ?se) + j)))) [0..<unat (el_period demo_source_element)]"
    using sai_source_delivers by blast
  have "1 < length (se_map ?se)" by (simp add: demo_sai_def)
  note blocks [rule_format, OF this]
  moreover have "fifo_after demo_hw maps k (t, l) = (t + k, l)" for maps k t l
    by (induction k) (simp_all add: Let_def demo_hw_def)
  ultimately have "write_block 2 (smem w') (bufs ?w ! 2) = [Sample 11, Sample 13]"
    by (simp add: demo_sai_def map_places_def upt_rec sai_received_def from_cell_def fifo_word_def Let_def demo_source_element_def)
      (simp add: demo_hw_def demo_world_def)
  then show ?thesis using run by blast
qed

theorem sai_source_stops_witness:
  "\<exists>se'. sai_source_element_run int_format demo_hw demo_source_element (demo_sai (demo_line 2 4)) (demo_world (10, [])) =
      Some (- 1, se', demo_world (10, [])) \<and> sl_overflow (se_line se' ! 0) = 1"
proof -
  have "list_all (\<lambda>l. hist_wf (sl_hist l)) (se_line (demo_sai (demo_line 2 4)))"
    by (simp add: demo_sai_def demo_line_def hist_wf_def)
  then show ?thesis
    using sai_source_stops [of "demo_sai (demo_line 2 4)" 0 demo_hw "demo_world (10, [])" int_format demo_source_element]
    by (auto simp: demo_sai_def demo_line_def rx_level_ok_def sai_rx_level_def sai_level_def demo_hw_def Let_def
        demo_world_def)
qed

text \<open>
  A serial source initialised from a configuration that passed the check, with a known base for
  each of its instances and distinct outputs that exist, is ready to run: one entry per channel, in the
  order of the outputs, every histogram usable, and the buffers as they were apart from the recorded
  connection.
\<close>

theorem sai_source_init_ready:
  fixes w :: "('s, 'h) world"
  assumes check: "sai_source_element_check_config H config = 0" and ok: "world_ok P w"
    and base: "\<forall>i < unat (sec_sai_n (ec_sai config)). hw_sai_base H (sic_id (sec_sai (ec_sai config) i)) \<noteq> None"
    and blank: "length (slots (sl_hist blank)) = unat RTOS_APPS_STATS_MAX_SLOTS"
    and outs: "distinct (map (\<lambda>i. unat (ec_output config i)) [0..<unat (ec_outputs config)])"
      "\<forall>i < unat (ec_outputs config). unat (ec_output config i) < length (bufs w)"
  shows "\<exists>se w'. sai_source_element_init H el config blank w = Some (se, w') \<and> sai_source_ready P se w' \<and>
    \<not> se_started se \<and> same_buffers w' w \<and>
    map_places (se_map se) = map (\<lambda>i. unat (ec_output config i)) [0..<unat (ec_outputs config)]"
proof -
  have c: "ec_outputs config = sai_map_size (ec_sai config)" "sai_check_instances H (ec_period config) (ec_sai config)"
    using check by (simp_all add: sai_source_element_check_config_def split: if_splits)
  obtain se w' where i: "sai_source_element_init H el config blank w = Some (se, w')" and sb: "same_buffers w' w"
    and m: "map_places (se_map se) = map (\<lambda>i. unat (ec_output config i)) [0..<unat (ec_outputs config)]"
    and r: "map so_buf (se_io se) = map_places (se_map se)" "list_all (\<lambda>l. hist_wf (sl_hist l)) (se_line se)"
      "\<not> se_started se"
    using sai_init_tables_ready [OF c(2) base blank, of "set_input el" "ec_output config", OF same_geometry_set_io(1)]
    unfolding sai_source_element_init_def c(1) by blast
  have "sai_source_ready P se w'"
    unfolding sai_source_ready_def
    using m r outs same_buffersD(3) [OF sb] same_buffers_world_ok [OF sb ok] by (auto simp: list_all_iff)
  with i sb m r show ?thesis by blast
qed

definition demo_sai_config :: "int audio_element_config" where
  "demo_sai_config = demo_config\<lparr>ec_type := AUDIO_ELEMENT_SAI_SOURCE, ec_inputs := 0, ec_outputs := 2,
     ec_output := (\<lambda>i. if i = 0 then 2 else 1),
     ec_sai := \<lparr>sec_sai_n = 1, sec_sai = (\<lambda>_. \<lparr>sic_id = 1, sic_line_n = 1,
       sic_line = (\<lambda>_. \<lparr>slc_id = 3, slc_channel_n = 2\<rparr>)\<rparr>)\<rparr>\<rparr>"

lemma demo_sai_check: "sai_check_instances demo_hw 2 (ec_sai demo_sai_config)"
proof -
  let ?s = "sec_sai (ec_sai demo_sai_config) 0"
  have "sai_check_line demo_hw 2 (sic_id ?s) (sic_line ?s 0)"
    by (simp add: sai_check_line_def demo_sai_config_def demo_config_def demo_hw_def)
  then have "sai_check_instance demo_hw 2 ?s"
    by (simp add: sai_check_instance_def demo_sai_config_def demo_config_def loop_simps word_le_nat_alt)
  then show ?thesis
    by (simp add: sai_check_instances_def demo_sai_config_def demo_config_def loop_simps)
qed

theorem sai_source_init_ready_witness:
  "\<exists>se w'. sai_source_element_init demo_hw demo_source_element demo_sai_config (demo_line 0 0) (demo_world (7, [])) =
      Some (se, w') \<and> sai_source_ready 2 se w'"
proof -
  have "sai_source_element_check_config demo_hw demo_sai_config = 0"
    using demo_sai_check
    by (simp add: sai_source_element_check_config_def demo_sai_config_def demo_config_def sai_map_size_def loop_simps)
  moreover have "distinct (map (\<lambda>i. unat (ec_output demo_sai_config i)) [0..<unat (ec_outputs demo_sai_config)])"
    "\<forall>i < unat (ec_outputs demo_sai_config). unat (ec_output demo_sai_config i) < length (bufs (demo_world (7 :: nat, [] :: s64 list)))"
    by (simp_all add: demo_sai_config_def demo_config_def upt_rec loop_simps)
  ultimately show ?thesis
    using sai_source_init_ready [where H = demo_hw and config = demo_sai_config and el = demo_source_element
        and blank = "demo_line 0 0" and P = 2 and w = "demo_world (7, [])"] demo_world_ok [of "(7, [])"]
    by (auto simp: demo_hw_def demo_line_def)
qed

end
