(* ===== verification/Audio_Sai_Sink.thy ===== *)
theory Audio_Sai_Sink
  imports Audio_Sai_Init
begin

text \<open>
  The serial audio sink, \<open>audio/audio_element_sai_sink.c\<close>: converts one period of every channel in
  place and writes it to the transmit FIFOs, preceded by one period of silence when it starts.
\<close>

section \<open>Operations\<close>

definition sai_sink_convert :: "'s audio_format \<Rightarrow> u32 \<Rightarrow> sai_io list \<Rightarrow> audio_buffer list \<Rightarrow> 's mem \<Rightarrow> 's mem" where
  "sai_sink_convert F period ios bs m =
     for_upto (length ios)
       (\<lambda>i m. let inp = ios ! i in
          if so_convert inp
          then audio_convert_to F m (audio_buf_read_addr (bs ! so_buf inp) 0) period (so_invert inp) (so_mask inp)
                 (unat (so_shift inp))
          else m) m"

definition sai_sink_element_fifo_write ::
  "'s audio_format \<Rightarrow> 'h hw \<Rightarrow> u32 \<Rightarrow> sai_element \<Rightarrow> ('s, 'h) world \<Rightarrow> ('s, 'h) world" where
  "sai_sink_element_fifo_write F H period se w =
     (let w = w\<lparr>smem := sai_sink_convert F period (se_io se) (bufs w) (smem w)\<rparr>;
          w = w\<lparr>hws := sai_drain F H period (se_map se) (bufs w) (smem w) (hws w)\<rparr>
      in for_upto (length (se_io se))
           (\<lambda>i. buf_upd (so_buf (se_io se ! i)) (\<lambda>b. audio_buf_read_update b period)) w)"

definition sai_sink_check_line :: "'h hw \<Rightarrow> 'h \<Rightarrow> nat \<Rightarrow> sai_element \<Rightarrow> sai_element option + sai_element" where
  "sai_sink_check_line H h i se =
     (let line = se_line se ! i;
          level = sai_tx_level H h (sl_base line) (sl_id line);
          line = line\<lparr>sl_latency := rtos_apps_stats_update (\<lambda>_ s. s) (sl_latency line) (sl_max line - level)\<rparr>;
          put = (\<lambda>line. se\<lparr>se_line := (se_line se)[i := line]\<rparr>)
      in case rtos_apps_hist_update (sl_hist line) (sl_max line - level) of
           None \<Rightarrow> Inl None
         | Some hist \<Rightarrow>
             let line = line\<lparr>sl_hist := hist\<rparr> in
             if level \<le> sl_min line then Inl (Some (put (line\<lparr>sl_underflow := sl_underflow line + 1\<rparr>)))
             else if level > sl_max line then Inl (Some (put (line\<lparr>sl_overflow := sl_overflow line + 1\<rparr>)))
             else Inr (put line))"

definition sai_sink_push_silence :: "u32 \<Rightarrow> sai_io list \<Rightarrow> ('s::zero, 'h) world \<Rightarrow> ('s, 'h) world" where
  "sai_sink_push_silence period ios w =
     for_upto (length ios)
       (\<lambda>i. for_upto (unat period)
          (\<lambda>_. on_buf (so_buf (ios ! i)) (\<lambda>s. audio_buf_write_head s [AUDIO_SAMPLE_SILENCE] 1))) w"

definition sai_sink_element_run ::
  "'s audio_format \<Rightarrow> 'h hw \<Rightarrow> audio_element \<Rightarrow> sai_element \<Rightarrow> ('s::zero, 'h) world \<Rightarrow>
     (int \<times> sai_element \<times> ('s, 'h) world) option" where
  "sai_sink_element_run F H el se w =
     (if se_started se then
        (case for_upto_err (length (se_line se)) (sai_sink_check_line H (hws w)) se of
           Inl None \<Rightarrow> None
         | Inl (Some se) \<Rightarrow> Some (- 1, se, w)
         | Inr se \<Rightarrow> Some (0, se, sai_sink_element_fifo_write F H (el_period el) se w))
      else
        (let w = sai_sink_push_silence (el_period el) (se_io se) w;
             w = sai_sink_element_fifo_write F H (el_period el) se w;
             w = sai_sink_element_fifo_write F H (el_period el) se w;
             w = for_upto (length (se_base se)) (\<lambda>i w. w\<lparr>hws := hw_enable_tx H (se_base se ! i) (hws w)\<rparr>) w
         in Some (0, se\<lparr>se_started := True\<rparr>, w)))"

definition sai_sink_element_reset :: "'h hw \<Rightarrow> sai_element \<Rightarrow> ('s, 'h) world \<Rightarrow> sai_element \<times> ('s, 'h) world" where
  "sai_sink_element_reset H se w =
     (let w = for_upto (length (se_base se)) (\<lambda>i w. w\<lparr>hws := hw_disable_tx H (se_base se ! i) (hws w)\<rparr>) w
      in (se\<lparr>se_started := False\<rparr>, w))"

definition sai_sink_element_check_config :: "'h hw \<Rightarrow> 's audio_element_config \<Rightarrow> int" where
  "sai_sink_element_check_config H config =
     (if ec_outputs config \<noteq> 0 then - 1
      else if ec_inputs config \<noteq> sai_map_size (ec_sai config) then - 1
      else if sai_check_instances H (ec_period config) (ec_sai config) then 0 else - 1)"

definition sai_sink_element_init ::
  "'h hw \<Rightarrow> audio_element \<Rightarrow> 's audio_element_config \<Rightarrow> sai_line \<Rightarrow> ('s, 'h) world \<Rightarrow>
     (sai_element \<times> ('s, 'h) world) option" where
  "sai_sink_element_init H el config line0 w =
     sai_init_tables H (set_output el) (ec_input config)
       (\<lambda>_. 0) (\<lambda>channel_n. channel_n * el_period el) ''tx latency (samples)'' (ec_sai config) line0 w"

section \<open>Writing one period to the FIFOs\<close>

definition sai_sink_ready :: "u32 \<Rightarrow> sai_element \<Rightarrow> ('s, 'h) world \<Rightarrow> bool" where
  "sai_sink_ready P se w \<longleftrightarrow>
     world_ok P w \<and> distinct (map_places (se_map se)) \<and>
     list_all (\<lambda>i. i < length (bufs w)) (map_places (se_map se)) \<and>
     map so_buf (se_io se) = map_places (se_map se) \<and>
     list_all (\<lambda>l. hist_wf (sl_hist l)) (se_line se)"

definition sai_to_send :: "'s audio_format \<Rightarrow> sai_io \<Rightarrow> 's cell \<Rightarrow> 's cell" where
  "sai_to_send F io c =
     (if so_convert io then to_cell F (so_invert io) (so_mask io) (unat (so_shift io)) c else c)"

lemma sink_convert_spec:
  assumes ok: "world_ok P w" and d: "distinct (map so_buf ios)"
    and pl: "\<forall>i \<in> set (map so_buf ios). i < length (bufs w)"
  shows "j < length ios \<Longrightarrow> a \<in> read_slots P (bufs w ! so_buf (ios ! j)) \<Longrightarrow>
      sai_sink_convert F P ios (bufs w) m a = sai_to_send F (ios ! j) (m a)"
    and "(\<And>j. j < length ios \<Longrightarrow> a \<notin> read_slots P (bufs w ! so_buf (ios ! j))) \<Longrightarrow>
      sai_sink_convert F P ios (bufs w) m a = m a"
proof -
  let ?b = "\<lambda>j. bufs w ! so_buf (ios ! j)"
  define inv where "inv k m' \<longleftrightarrow>
    (\<forall>j < k. \<forall>a \<in> read_slots P (?b j). m' a = sai_to_send F (ios ! j) (m a)) \<and>
    (\<forall>a. (\<forall>j < k. a \<notin> read_slots P (?b j)) \<longrightarrow> m' a = m a)" for k m'
  have "inv (length ios) (sai_sink_convert F P ios (bufs w) m)"
    unfolding sai_sink_convert_def
  proof (rule for_upto_invariant [where P = inv])
    show "inv 0 m" by (simp add: inv_def)
  next
    fix k m' assume k: "k < length ios" and st: "inv k m'"
    have l: "so_buf (ios ! j) < length (bufs w)" if "j < length ios" for j using pl that by auto
    have apart: "a \<notin> read_slots P (?b j)" if "a \<in> read_slots P (?b k)" "j < k" for a j
    proof -
      have "so_buf (ios ! k) \<noteq> so_buf (ios ! j)" using d k that(2) by (auto simp: distinct_conv_nth)
      then show ?thesis
        using read_slots_apart [OF ok l [OF k] l] that k read_slots_range [OF world_okD(1) [OF ok l [OF k]]] by auto
    qed
    have "(let inp = ios ! k in if so_convert inp
        then audio_convert_to F m' (audio_buf_read_addr (bufs w ! so_buf inp) 0) P (so_invert inp) (so_mask inp)
               (unat (so_shift inp)) else m') a =
        (if a \<in> read_slots P (?b k) then sai_to_send F (ios ! k) (m' a) else m' a)" for a
      by (auto simp: sai_to_send_def audio_convert_to_slots audio_buf_read_addr_def read_slots_def Let_def)
    then show "inv (Suc k) (let inp = ios ! k in if so_convert inp
        then audio_convert_to F m' (audio_buf_read_addr (bufs w ! so_buf inp) 0) P (so_invert inp) (so_mask inp)
               (unat (so_shift inp)) else m')"
      using st apart unfolding inv_def less_Suc_eq by metis
  qed
  then show "j < length ios \<Longrightarrow> a \<in> read_slots P (?b j) \<Longrightarrow>
      sai_sink_convert F P ios (bufs w) m a = sai_to_send F (ios ! j) (m a)"
    "(\<And>j. j < length ios \<Longrightarrow> a \<notin> read_slots P (?b j)) \<Longrightarrow> sai_sink_convert F P ios (bufs w) m a = m a"
    by (auto simp: inv_def)
qed

lemma fifo_send_cong: "(\<And>k. k < n \<Longrightarrow> v k = v' k) \<Longrightarrow> fifo_send H maps n v h = fifo_send H maps n v' h"
  by (induction n) (simp_all add: Let_def)

text \<open>The words of one period, row by row, and the world after they are written.\<close>

definition period_word :: "'s audio_format \<Rightarrow> u32 \<Rightarrow> sai_element \<Rightarrow> ('s, 'h) world \<Rightarrow> nat \<Rightarrow> u32" where
  "period_word F P se w k =
     (let j = k mod length (se_map se)
      in cell_int32 F (sai_to_send F (se_io se ! j)
           (read_block P (smem w) (bufs w ! (map_places (se_map se) ! j)) ! (k div length (se_map se)))))"

definition period_sent ::
  "'s audio_format \<Rightarrow> 'h hw \<Rightarrow> u32 \<Rightarrow> sai_element \<Rightarrow> ('s, 'h) world \<Rightarrow> ('s, 'h) world \<Rightarrow> bool" where
  "period_sent F H P se w w' \<longleftrightarrow>
     hws w' = fifo_send H (se_map se) (unat P * length (se_map se)) (period_word F P se w) (hws w) \<and>
     length (bufs w') = length (bufs w) \<and>
     (\<forall>j < length (bufs w). bufs w' ! j = (if j \<in> set (map_places (se_map se))
        then audio_buf_read_update (bufs w ! j) P else bufs w ! j)) \<and>
     (\<forall>a. (\<forall>j < length (se_map se). a \<notin> read_slots P (bufs w ! (map_places (se_map se) ! j))) \<longrightarrow>
        smem w' a = smem w a)"

lemma buf_upd_loop:
  assumes "distinct os" and "\<forall>i \<in> set os. i < length (bufs w)"
  shows "for_upto (length os) (\<lambda>i. buf_upd (os ! i) f) w =
    w\<lparr>bufs := map (\<lambda>j. if j \<in> set os then f (bufs w ! j) else bufs w ! j) [0..<length (bufs w)]\<rparr>"
proof -
  have "n \<le> length os \<Longrightarrow> for_upto n (\<lambda>i. buf_upd (os ! i) f) w =
    w\<lparr>bufs := map (\<lambda>j. if j \<in> set (take n os) then f (bufs w ! j) else bufs w ! j) [0..<length (bufs w)]\<rparr>" for n
  proof (induction n)
    case 0
    then show ?case by (simp add: map_nth)
  next
    case (Suc n)
    then have n: "n < length os" and o: "os ! n < length (bufs w)" using assms(2) by simp_all
    have fresh: "os ! n \<notin> set (take n os)"
      using assms(1) n by (auto simp: in_set_conv_nth nth_eq_iff_index_eq)
    have "(map (\<lambda>j. if j \<in> set (take n os) then f (bufs w ! j) else bufs w ! j) [0..<length (bufs w)])
        [os ! n := f (bufs w ! (os ! n))] =
        map (\<lambda>j. if j \<in> set (take (Suc n) os) then f (bufs w ! j) else bufs w ! j) [0..<length (bufs w)]"
      using n o by (intro nth_equalityI) (auto simp: nth_list_update take_Suc_conv_app_nth)
    then show ?case using Suc n fresh o by (simp add: buf_upd_def)
  qed
  from this [of "length os"] show ?thesis by simp
qed

lemma sink_fifo_write_spec:
  assumes ready: "sai_sink_ready P se w"
  shows "period_sent F H P se w (sai_sink_element_fifo_write F H P se w)"
    and "sai_sink_ready P se (sai_sink_element_fifo_write F H P se w)"
proof -
  let ?maps = "se_map se" and ?n = "length (se_map se)" and ?os = "map_places (se_map se)"
  have ok: "world_ok P w" and d: "distinct ?os" and pl: "\<forall>i \<in> set ?os. i < length (bufs w)"
    and os: "map so_buf (se_io se) = ?os"
    using ready by (simp_all add: sai_sink_ready_def list_all_iff)
  have n: "length (se_io se) = ?n" using arg_cong [OF os, of length] by simp
  have io: "so_buf (se_io se ! j) = ?os ! j" if "j < ?n" for j using os n that by (metis nth_map)
  let ?m = "sai_sink_convert F P (se_io se) (bufs w) (smem w)"
  note cv = sink_convert_spec [OF ok, where ios = "se_io se" and F = F and m = "smem w", unfolded os, OF d pl]
  define w1 where "w1 = w\<lparr>smem := ?m, hws := sai_drain F H P ?maps (bufs w) ?m (hws w)\<rparr>"
  have out: "sai_sink_element_fifo_write F H P se w =
      w1\<lparr>bufs := map (\<lambda>j. if j \<in> set ?os then audio_buf_read_update (bufs w ! j) P else bufs w ! j) [0..<length (bufs w)]\<rparr>"
  proof -
    have "sai_sink_element_fifo_write F H P se w =
        for_upto (length ?os) (\<lambda>i. buf_upd (?os ! i) (\<lambda>b. audio_buf_read_update b P)) w1"
      using n io by (auto simp: sai_sink_element_fifo_write_def w1_def Let_def intro!: for_upto_cong)
    then show ?thesis using buf_upd_loop [OF d, of w1 "\<lambda>b. audio_buf_read_update b P"] pl by (simp add: w1_def)
  qed
  have "sai_drain F H P ?maps (bufs w) ?m (hws w) =
      fifo_send H ?maps (unat P * ?n) (period_word F P se w) (hws w)"
    unfolding sai_drain_sends
  proof (rule fifo_send_cong)
    fix k assume k: "k < unat P * ?n"
    then have n0: "0 < ?n" by (cases "?n = 0") simp_all
    have row: "k div ?n < unat P" using k by (simp add: less_mult_imp_div_less)
    let ?j = "k mod ?n" and ?i = "k div ?n"
    let ?b = "bufs w ! (?os ! ?j)"
    have j: "?j < ?n" using n0 by simp
    have p: "?os ! ?j < length (bufs w)" using pl j by simp
    note al = buf_alignedD [OF world_okD(1) [OF ok p]]
    have "?i < 2 ^ 32" using row unat32_less [of P] by linarith
    then have "unat (of_nat ?i :: u32) = ?i" by (rule unat32_of_nat)
    then have "unat (rd ?b + of_nat ?i) = unat (rd ?b) + ?i"
      using al(3) row buf_wf_bounds(4) [OF al(1)] by (subst unat_add_small) simp_all
    then have addr: "audio_buf_read_addr ?b (of_nat ?i) = base ?b + unat (rd ?b) + ?i"
      by (simp add: audio_buf_read_addr_def)
    have "?m (base ?b + unat (rd ?b) + ?i) = sai_to_send F (se_io se ! ?j) (smem w (base ?b + unat (rd ?b) + ?i))"
      using cv(1) [of ?j] n j io [OF j] row by (simp add: read_slots_def)
    then show "audio_buf_read_uint32 (sample_bits F) ?m (bufs w ! sm_buf (?maps ! ?j)) (of_nat ?i) =
        period_word F P se w k"
      using j addr row
      by (simp add: period_word_def audio_buf_read_uint32_def cell_int32_def map_places_def read_block_def Let_def)
  qed
  moreover have "?m a = smem w a" if "\<forall>j < ?n. a \<notin> read_slots P (bufs w ! (?os ! j))" for a
    using cv(2) that n io by simp
  ultimately show "period_sent F H P se w (sai_sink_element_fifo_write F H P se w)"
    unfolding out by (simp add: period_sent_def w1_def)
  have "buf_aligned P (audio_buf_read_update (bufs w ! j) P)" if "j < length (bufs w)" for j
    by (rule buf_aligned_update(2) [OF world_okD(1) [OF ok that]])
  then have "world_ok P (sai_sink_element_fifo_write F H P se w)"
    using ok unfolding out by (auto simp: world_ok_def list_all_length w1_def buf_apart_def)
  then show "sai_sink_ready P se (sai_sink_element_fifo_write F H P se w)"
    using ready out by (simp add: sai_sink_ready_def w1_def)
qed

section \<open>The silence pushed at the start\<close>

lemma write_head_one:
  "audio_buf_write_head (m, b) [x] 1 =
     (m(base b + unat ((rd b - 1) AND size_mask b) := x), buf_retreat b 1)"
  by (simp add: audio_buf_write_head_def buf_retreat_def Let_def)

lemma buf_retreat_retreat:
  assumes "buf_wf b"
  shows "buf_retreat (buf_retreat b x) y = buf_retreat b (x + y)"
proof -
  obtain k where k: "size_mask b = mask k" using assms by (rule buf_wfE)
  have "(((rd b - x) AND mask k) - y) AND mask k = (rd b - (x + y)) AND mask k"
    by (simp add: mask_eqs(3) diff_diff_eq)
  then show ?thesis using k by (simp add: buf_retreat_def)
qed

lemma buf_retreat_0: "buf_wf b \<Longrightarrow> buf_retreat b 0 = b"
proof -
  assume wf: "buf_wf b"
  obtain k where "size_mask b = mask k" "unat (rd b) < 2 ^ k" using wf by (rule buf_wfE)
  then have "rd b AND size_mask b = rd b" by (simp add: word_unat_eq_iff [of "rd b AND mask k"] unat_and_mask)
  then show ?thesis by (simp add: buf_retreat_def)
qed

lemma retreat_pos:
  assumes al: "buf_aligned P b" and k: "0 < k" "k \<le> unat P"
  shows "unat (rd (buf_retreat b (of_nat k))) = (if rd b = 0 then unat (bsize b) else unat (rd b)) - k"
proof -
  note a = buf_alignedD [OF al]
  have k32: "unat (of_nat k :: u32) = k" using k a(4) by (intro unat32_of_nat) simp
  have le: "k \<le> unat (bsize b)" using k a(3) by simp
  have pos: "unat (rd (buf_retreat b (of_nat k))) = (unat (rd b) + (unat (bsize b) - k)) mod unat (bsize b)"
    using unat_retreat [OF a(1), of "of_nat k" "rd b"] k32 le by (simp add: buf_retreat_def)
  show ?thesis
  proof (cases "rd b = 0")
    case True
    then show ?thesis using pos k le by simp
  next
    case False
    then have "0 < unat (rd b)" by (simp add: unat_gt_0)
    then have "unat P \<le> unat (rd b)" using al by (auto simp: buf_aligned_def dest: dvd_imp_le)
    then have "unat (rd b) + (unat (bsize b) - k) = (unat (rd b) - k) + unat (bsize b)" using k le by simp
    moreover have "(unat (rd b) - k + unat (bsize b)) mod unat (bsize b) = unat (rd b) - k"
      using buf_wf_bounds(1) [OF a(1)] by simp
    ultimately show ?thesis using False by (simp only: pos if_False)
  qed
qed

lemma push_silence_buffer:
  assumes al: "buf_aligned P b"
  shows "n \<le> unat P \<Longrightarrow> for_upto n (\<lambda>_ s. audio_buf_write_head s [x] 1) (m, b) =
    (\<lambda>a. if a \<in> {base b + unat (rd (buf_retreat b (of_nat n))) ..< base b + unat (rd (buf_retreat b (of_nat n))) + n}
         then x else m a, buf_retreat b (of_nat n))"
proof (induction n)
  case 0
  then show ?case using buf_retreat_0 [OF buf_alignedD(1) [OF al]] by simp
next
  case (Suc n)
  note a = buf_alignedD [OF al]
  let ?b = "buf_retreat b (of_nat n)" and ?c = "buf_retreat b (of_nat (Suc n))"
  have c: "buf_retreat ?b 1 = ?c" using buf_retreat_retreat [OF a(1)] by (simp add: add.commute)
  then have r: "(rd ?b - 1) AND size_mask ?b = rd ?c" unfolding c [symmetric] buf_retreat_def [of ?b] by simp
  have ge: "unat P \<le> (if rd b = 0 then unat (bsize b) else unat (rd b))"
    using al a(3) by (auto simp: buf_aligned_def unat_gt_0 intro: dvd_imp_le)
  have pos: "unat (rd ?b) = Suc (unat (rd ?c))" if "0 < n"
  proof -
    have "unat (rd ?b) = (if rd b = 0 then unat (bsize b) else unat (rd b)) - n"
      using that Suc.prems by (intro retreat_pos [OF al]) simp_all
    moreover have "unat (rd ?c) = (if rd b = 0 then unat (bsize b) else unat (rd b)) - Suc n"
      using Suc.prems by (intro retreat_pos [OF al]) simp_all
    ultimately show ?thesis using ge Suc.prems by linarith
  qed
  have "base ?b = base b" by (simp add: buf_retreat_def)
  then have "for_upto (Suc n) (\<lambda>_ s. audio_buf_write_head s [x] 1) (m, b) =
      ((\<lambda>a. if a \<in> {base b + unat (rd ?b) ..< base b + unat (rd ?b) + n} then x else m a)
         (base b + unat (rd ?c) := x), ?c)"
    using Suc by (simp only: for_upto.simps write_head_one r c)
  moreover have "((\<lambda>a. if a \<in> {base b + unat (rd ?b) ..< base b + unat (rd ?b) + n} then x else m a)
         (base b + unat (rd ?c) := x)) =
      (\<lambda>a. if a \<in> {base b + unat (rd ?c) ..< base b + unat (rd ?c) + Suc n} then x else m a)"
    using pos by (cases "n = 0") (auto simp: fun_eq_iff)
  ultimately show ?case by simp
qed

text \<open>
  The world after the pushes: the inputs start one period earlier, that period is silent, everything
  else is as before.
\<close>

definition silence_pushed :: "u32 \<Rightarrow> nat list \<Rightarrow> ('s::zero, 'h) world \<Rightarrow> ('s, 'h) world \<Rightarrow> bool" where
  "silence_pushed P os w w' \<longleftrightarrow>
     hws w' = hws w \<and> length (bufs w') = length (bufs w) \<and>
     (\<forall>j < length (bufs w). bufs w' ! j = (if j \<in> set os then buf_retreat (bufs w ! j) P else bufs w ! j)) \<and>
     (\<forall>i < length os. \<forall>a \<in> read_slots P (buf_retreat (bufs w ! (os ! i)) P). smem w' a = AUDIO_SAMPLE_SILENCE) \<and>
     (\<forall>a. (\<forall>i < length os. a \<notin> read_slots P (buf_retreat (bufs w ! (os ! i)) P)) \<longrightarrow> smem w' a = smem w a)"

lemma buf_aligned_retreat:
  assumes "buf_aligned P b"
  shows "buf_aligned P (buf_retreat b P)"
proof -
  note a = buf_alignedD [OF assms]
  have "unat (rd (buf_retreat b P)) = (unat (rd b) + (unat (bsize b) - unat P)) mod unat (bsize b)"
    using unat_retreat [OF a(1), of P "rd b"] a(3) by (simp add: buf_retreat_def)
  moreover have "unat P dvd unat (rd b) + (unat (bsize b) - unat P)"
    using assms a(3) by (simp add: buf_aligned_def dvd_diff_nat)
  moreover have "unat (rd (buf_retreat b P)) < unat (bsize b)"
    using calculation(1) buf_wf_bounds(3) [OF a(1)] by simp
  then have "buf_wf (buf_retreat b P)"
    using buf_wf_move [OF a(1), of "rd (buf_retreat b P)" "wr b"] buf_wf_bounds(2) [OF a(1)]
    by (simp add: buf_retreat_def)
  ultimately show ?thesis using assms by (simp add: buf_aligned_def) (simp add: buf_retreat_def dvd_mod)
qed

lemma buf_retreat_range: "buf_range (buf_retreat b P) = buf_range b"
  by (simp add: buf_retreat_def buf_range_def)

lemma silence_pushed_step:
  assumes ok: "world_ok P w" and d: "distinct (os @ [out])" and out: "out < length (bufs w)"
    and os: "\<forall>i \<in> set os. i < length (bufs w)" and st: "silence_pushed P os w w'"
  shows "silence_pushed P (os @ [out]) w
    (for_upto (unat P) (\<lambda>_. on_buf out (\<lambda>s. audio_buf_write_head s [AUDIO_SAMPLE_SILENCE] 1)) w')"
proof -
  have b: "bufs w' ! out = bufs w ! out" using st d out by (simp add: silence_pushed_def)
  have len: "length (bufs w') = length (bufs w)" using st by (simp add: silence_pushed_def)
  have al: "buf_aligned P (bufs w ! out)" by (rule world_okD(1) [OF ok out])
  let ?s = "\<lambda>n. for_upto n (\<lambda>_ s. audio_buf_write_head s [AUDIO_SAMPLE_SILENCE] 1) (smem w', bufs w' ! out)"
  have loop: "for_upto n (\<lambda>_. on_buf out (\<lambda>s. audio_buf_write_head s [AUDIO_SAMPLE_SILENCE] 1)) w' =
      w'\<lparr>smem := fst (?s n), bufs := (bufs w')[out := snd (?s n)]\<rparr>" for n
    by (induction n) (use out len in \<open>simp_all add: on_buf_def case_prod_beta\<close>)
  let ?c = "buf_retreat (bufs w ! out) P"
  have s: "?s (unat P) = (\<lambda>a. if a \<in> read_slots P ?c then AUDIO_SAMPLE_SILENCE else smem w' a, ?c)"
    using push_silence_buffer [OF al, of "unat P" AUDIO_SAMPLE_SILENCE "smem w'"] b
    by (simp add: read_slots_def) (simp add: buf_retreat_def)
  have other: "a \<notin> read_slots P ?c" if "i < length os" "a \<in> read_slots P (buf_retreat (bufs w ! (os ! i)) P)" for a i
  proof -
    have l: "os ! i < length (bufs w)" "os ! i \<noteq> out" using os d that(1) by auto
    have "a \<in> buf_range (bufs w ! (os ! i))"
      using that(2) read_slots_range [OF buf_aligned_retreat [OF world_okD(1) [OF ok l(1)]]] buf_retreat_range by blast
    then have "a \<notin> buf_range (bufs w ! out)" by (rule buf_apart_ranges [OF world_okD(2) [OF ok l(1) out l(2)]])
    then show ?thesis using read_slots_range [OF buf_aligned_retreat [OF al]] buf_retreat_range by blast
  qed
  show ?thesis
    unfolding loop s using st out len other b
    by (auto simp: silence_pushed_def nth_append less_Suc_eq nth_list_update)
qed

lemma push_silence_spec:
  assumes ok: "world_ok P w" and d: "distinct (map so_buf ios)" and pl: "\<forall>i \<in> set (map so_buf ios). i < length (bufs w)"
  shows "silence_pushed P (map so_buf ios) w (sai_sink_push_silence P ios w)"
proof -
  let ?os = "map so_buf ios"
  have "n \<le> length ios \<Longrightarrow> silence_pushed P (take n ?os) w (for_upto n (\<lambda>i. for_upto (unat P)
      (\<lambda>_. on_buf (so_buf (ios ! i)) (\<lambda>s. audio_buf_write_head s [AUDIO_SAMPLE_SILENCE] 1))) w)" for n
  proof (induction n)
    case 0
    then show ?case by (simp add: silence_pushed_def)
  next
    case (Suc n)
    then have n: "n < length ?os" by simp
    have tk: "take (Suc n) ?os = take n ?os @ [?os ! n]" by (rule take_Suc_conv_app_nth [OF n])
    have "distinct (take n ?os @ [?os ! n])" using distinct_take [OF d, of "Suc n"] by (simp only: tk)
    moreover have "?os ! n < length (bufs w)" using pl n by (auto dest: nth_mem)
    moreover have "\<forall>i \<in> set (take n ?os). i < length (bufs w)" using pl set_take_subset [of n ?os] by blast
    ultimately show ?case
      using silence_pushed_step [OF ok _ _ _ Suc.IH] Suc.prems n by (simp only: tk for_upto.simps) simp
  qed
  from this [of "length ios"] show ?thesis by (simp add: sai_sink_push_silence_def)
qed

section \<open>One period to the FIFOs\<close>

definition tx_level_ok :: "'h hw \<Rightarrow> 'h \<Rightarrow> sai_line \<Rightarrow> bool" where
  "tx_level_ok H h l \<longleftrightarrow> sl_min l < sai_tx_level H h (sl_base l) (sl_id l) \<and>
     sai_tx_level H h (sl_base l) (sl_id l) \<le> sl_max l"

lemma sink_check_passes:
  assumes "lines_checked se n se'" and "n < length (se_line se)" and "hist_wf (sl_hist (se_line se ! n))"
    and "tx_level_ok H h (se_line se ! n)"
  shows "\<exists>t. sai_sink_check_line H h n se' = Inr t \<and> lines_checked se (Suc n) t"
proof -
  have l: "se_line se' ! n = se_line se ! n" using assms(1,2) by (simp add: lines_checked_def)
  let ?l = "se_line se ! n"
  let ?d = "sl_max ?l - sai_tx_level H h (sl_base ?l) (sl_id ?l)"
  obtain hist where h: "rtos_apps_hist_update (sl_hist ?l) ?d = Some hist" "hist_wf hist"
    using hist_update_wf [OF assms(3)] by blast
  let ?l' = "?l\<lparr>sl_latency := rtos_apps_stats_update (\<lambda>_ s. s) (sl_latency ?l) ?d, sl_hist := hist\<rparr>"
  have "sai_sink_check_line H h n se' = Inr (se'\<lparr>se_line := (se_line se')[n := ?l']\<rparr>)"
    using assms(4) h(1) l by (simp add: sai_sink_check_line_def Let_def tx_level_ok_def not_less not_le)
  moreover have "line_checked ?l ?l'" using h(2) by (simp add: line_checked_def)
  ultimately show ?thesis using lines_checked_Suc [OF assms(1,2)] by blast
qed

lemma sink_checks_pass:
  assumes "\<forall>i < length (se_line se). hist_wf (sl_hist (se_line se ! i))"
    and "\<forall>i < length (se_line se). tx_level_ok H h (se_line se ! i)"
  shows "\<exists>t. for_upto_err (length (se_line se)) (sai_sink_check_line H h) se = Inr t \<and>
    lines_checked se (length (se_line se)) t"
  using assms by (intro for_upto_err_run lines_checked_0 sink_check_passes) auto

text \<open>
  C21. A started sink whose FIFO levels are all in range sends exactly one period: the words written are
  the samples at the read positions of the channels, converted by their formats, frame by frame and channel
  by channel within a frame; every input advances by one period and the sink stays ready.
\<close>

theorem sai_sink_transmits:
  assumes ready: "sai_sink_ready (el_period el) se w" and started: "se_started se"
    and levels: "\<forall>i < length (se_line se). tx_level_ok H (hws w) (se_line se ! i)"
  shows "\<exists>se' w'. sai_sink_element_run F H el se w = Some (0, se', w') \<and>
    period_sent F H (el_period el) se w w' \<and> sai_sink_ready (el_period el) se' w' \<and>
    se' = se\<lparr>se_line := se_line se'\<rparr>"
proof -
  have wf: "\<forall>i < length (se_line se). hist_wf (sl_hist (se_line se ! i))"
    using ready by (simp add: sai_sink_ready_def list_all_length)
  obtain t where t: "for_upto_err (length (se_line se)) (sai_sink_check_line H (hws w)) se = Inr t"
    "lines_checked se (length (se_line se)) t"
    using sink_checks_pass [OF wf levels] by blast
  have tw: "list_all (\<lambda>l. hist_wf (sl_hist l)) (se_line t)"
    and tm: "se_map t = se_map se" "se_io t = se_io se"
    using t(2) by (auto simp: lines_checked_def line_checked_def list_all_length)
  have same: "sai_sink_element_fifo_write F H (el_period el) t w = sai_sink_element_fifo_write F H (el_period el) se w"
    by (simp add: sai_sink_element_fifo_write_def tm)
  have "sai_sink_element_run F H el se w = Some (0, t, sai_sink_element_fifo_write F H (el_period el) se w)"
    using started t(1) same by (simp add: sai_sink_element_run_def)
  moreover note sink_fifo_write_spec [OF ready, of F H]
  moreover have "sai_sink_ready (el_period el) t (sai_sink_element_fifo_write F H (el_period el) se w)"
    using calculation(3) tw tm by (simp add: sai_sink_ready_def)
  ultimately show ?thesis using lines_checked_only_lines [OF t(2)] by blast
qed

section \<open>Start\<close>

lemma read_update_retreat:
  assumes "buf_wf b"
  shows "audio_buf_read_update (buf_retreat b P) P = b"
proof -
  obtain k where k: "size_mask b = mask k" "unat (rd b) < 2 ^ k" using assms by (rule buf_wfE)
  have "(((rd b - P) AND mask k) + P) AND mask k = rd b AND mask k" by (simp add: mask_eqs(1))
  also have "\<dots> = rd b" using k by (simp add: word_unat_eq_iff [of "rd b AND mask k"] unat_and_mask)
  finally show ?thesis using k by (simp add: audio_buf_read_update_def buf_retreat_def)
qed

lemma read_slots_retreat:
  assumes al: "buf_aligned P b" and two: "unat P < unat (bsize b)" and a: "a \<in> read_slots P b"
  shows "a \<notin> read_slots P (buf_retreat b P)"
proof -
  have P: "0 < unat P" using a by (auto simp: read_slots_def)
  have b: "base (buf_retreat b P) = base b" by (simp add: buf_retreat_def)
  have pos: "unat (rd (buf_retreat b P)) = (if rd b = 0 then unat (bsize b) else unat (rd b)) - unat P"
    using retreat_pos [OF al P] by simp
  obtain q where q: "unat (bsize b) = unat P * q" using al by (auto simp: buf_aligned_def)
  then have "2 \<le> q" using two P by (cases "q \<le> 1") (auto simp: le_Suc_eq)
  then have size: "2 * unat P \<le> unat (bsize b)" using q by (simp add: mult.commute)
  have "unat P \<le> unat (rd b)" if "rd b \<noteq> 0"
    using that al by (auto simp: buf_aligned_def unat_gt_0 intro: dvd_imp_le)
  then show ?thesis using a pos b size by (auto simp: read_slots_def split: if_splits)
qed

text \<open>
  The first run pre-fills the FIFOs: it sends one period of silence on every channel followed by the
  period at the read positions, then enables the transmitters in order and is started; nothing of the
  first period is lost, provided the buffers hold more than one period.
\<close>

theorem sai_sink_prefill:
  fixes w :: "('s::zero, 'h) world"
  assumes ready: "sai_sink_ready (el_period el) se w" and fresh: "\<not> se_started se"
    and two: "\<forall>j \<in> set (map_places (se_map se)). unat (el_period el) < unat (bsize (bufs w ! j))"
  shows "\<exists>w'. sai_sink_element_run F H el se w = Some (0, se\<lparr>se_started := True\<rparr>, w') \<and>
    hws w' = for_upto (length (se_base se)) (\<lambda>i. hw_enable_tx H (se_base se ! i))
      (fifo_send H (se_map se) (unat (el_period el) * length (se_map se)) (period_word F (el_period el) se w)
        (fifo_send H (se_map se) (unat (el_period el) * length (se_map se))
          (\<lambda>k. cell_int32 F (sai_to_send F (se_io se ! (k mod length (se_map se))) AUDIO_SAMPLE_SILENCE)) (hws w))) \<and>
    (\<forall>j < length (bufs w). bufs w' ! j = (if j \<in> set (map_places (se_map se))
       then audio_buf_read_update (bufs w ! j) (el_period el) else bufs w ! j))"
proof -
  let ?P = "el_period el" and ?os = "map_places (se_map se)" and ?n = "length (se_map se)"
  have ok: "world_ok ?P w" and d: "distinct ?os" and pl: "\<forall>i \<in> set ?os. i < length (bufs w)"
    and os: "map so_buf (se_io se) = ?os"
    using ready by (simp_all add: sai_sink_ready_def list_all_iff)
  define w1 where "w1 = sai_sink_push_silence ?P (se_io se) w"
  have p1: "silence_pushed ?P ?os w w1"
    unfolding w1_def using push_silence_spec [OF ok, where ios = "se_io se"] d pl os by simp
  have b1: "bufs w1 ! j = (if j \<in> set ?os then buf_retreat (bufs w ! j) ?P else bufs w ! j)"
    if "j < length (bufs w)" for j
    using p1 that by (simp add: silence_pushed_def)
  have l1: "length (bufs w1) = length (bufs w)" using p1 by (simp add: silence_pushed_def)
  have "world_ok ?P w1"
    using ok l1 b1 buf_aligned_retreat
    by (auto simp: world_ok_def list_all_length buf_apart_def buf_retreat_def)
  then have r1: "sai_sink_ready ?P se w1" using ready l1 by (simp add: sai_sink_ready_def)
  define w2 where "w2 = sai_sink_element_fifo_write F H ?P se w1"
  note s2 = sink_fifo_write_spec [OF r1, of F H, folded w2_def]
  define w3 where "w3 = sai_sink_element_fifo_write F H ?P se w2"
  note s3 = sink_fifo_write_spec [OF s2(2), of F H, folded w3_def]
  have b2: "bufs w2 ! j = bufs w ! j" if j: "j < length (bufs w)" for j
    using s2(1) b1 [OF j] j l1 read_update_retreat [OF buf_alignedD(1) [OF world_okD(1) [OF ok j]]]
    by (simp add: period_sent_def)
  have l2: "length (bufs w2) = length (bufs w)" using s2(1) l1 by (simp add: period_sent_def)
  have place: "?os ! j < length (bufs w)" "?os ! j \<in> set ?os" if "j < ?n" for j using pl that by simp_all
  have silent: "read_block ?P (smem w1) (bufs w1 ! (?os ! j)) = replicate (unat ?P) AUDIO_SAMPLE_SILENCE"
    if j: "j < ?n" for j
    using p1 b1 [OF place(1) [OF j]] place(2) [OF j] j
    by (intro nth_equalityI) (simp_all add: read_block_def silence_pushed_def read_slots_def)
  have kept: "smem w2 a = smem w a" if j: "j < ?n" and a: "a \<in> read_slots ?P (bufs w ! (?os ! j))" for a j
  proof -
    have away: "a \<notin> read_slots ?P (buf_retreat (bufs w ! (?os ! i)) ?P)" if i: "i < ?n" for i
    proof (cases "i = j")
      case True
      then show ?thesis using read_slots_retreat [OF world_okD(1) [OF ok place(1) [OF j]] _ a] two place(2) [OF j] by simp
    next
      case False
      then have ne: "?os ! j \<noteq> ?os ! i" using d i j by (simp add: nth_eq_iff_index_eq)
      have "a \<in> buf_range (bufs w ! (?os ! j))"
        using a read_slots_range [OF world_okD(1) [OF ok place(1) [OF j]]] by blast
      then have "a \<notin> buf_range (bufs w ! (?os ! i))"
        by (rule buf_apart_ranges [OF world_okD(2) [OF ok place(1) [OF j] place(1) [OF i] ne]])
      then show ?thesis
        using read_slots_range [OF buf_aligned_retreat [OF world_okD(1) [OF ok place(1) [OF i]]]] buf_retreat_range by blast
    qed
    have "smem w2 a = smem w1 a"
      using s2(1) away b1 place by (simp add: period_sent_def)
    also have "\<dots> = smem w a" using p1 away by (simp add: silence_pushed_def)
    finally show ?thesis .
  qed
  have data: "read_block ?P (smem w2) (bufs w2 ! (?os ! j)) = read_block ?P (smem w) (bufs w ! (?os ! j))"
    if j: "j < ?n" for j
    using kept [OF j] b2 [OF place(1) [OF j]] by (simp add: read_block_def read_slots_def)
  let ?N = "unat ?P * ?n"
  have N: "k mod ?n < ?n" "k div ?n < unat ?P" if "k < ?N" for k
    using that by (auto simp: less_mult_imp_div_less intro!: mod_less_divisor)
  have "hws w2 = fifo_send H (se_map se) ?N (period_word F ?P se w1) (hws w)"
    using s2(1) p1 by (simp add: period_sent_def silence_pushed_def)
  also have "\<dots> = fifo_send H (se_map se) ?N
      (\<lambda>k. cell_int32 F (sai_to_send F (se_io se ! (k mod ?n)) AUDIO_SAMPLE_SILENCE)) (hws w)"
    by (rule fifo_send_cong) (simp add: period_word_def Let_def silent N)
  finally have h2: "hws w2 = fifo_send H (se_map se) ?N
      (\<lambda>k. cell_int32 F (sai_to_send F (se_io se ! (k mod ?n)) AUDIO_SAMPLE_SILENCE)) (hws w)" .
  have "fifo_send H (se_map se) ?N (period_word F ?P se w2) h = fifo_send H (se_map se) ?N (period_word F ?P se w) h" for h
    by (rule fifo_send_cong) (simp add: period_word_def Let_def data N)
  then have h3: "hws w3 = fifo_send H (se_map se) ?N (period_word F ?P se w) (hws w2)"
    using s3(1) by (simp add: period_sent_def)
  have en: "for_upto n (\<lambda>i w. w\<lparr>hws := hw_enable_tx H (se_base se ! i) (hws w)\<rparr>) w3 =
      w3\<lparr>hws := for_upto n (\<lambda>i. hw_enable_tx H (se_base se ! i)) (hws w3)\<rparr>" for n
    by (induction n) simp_all
  have "sai_sink_element_run F H el se w = Some (0, se\<lparr>se_started := True\<rparr>,
      w3\<lparr>hws := for_upto (length (se_base se)) (\<lambda>i. hw_enable_tx H (se_base se ! i)) (hws w3)\<rparr>)"
    using fresh by (simp add: sai_sink_element_run_def w1_def [symmetric] w2_def [symmetric] w3_def [symmetric]
        en [symmetric] Let_def)
  then show ?thesis using h2 h3 s3(1) b2 l2 by (simp add: period_sent_def)
qed

definition demo_sink_element :: audio_element where
  "demo_sink_element = \<lparr>el_type = AUDIO_ELEMENT_SAI_SINK, el_sample_rate = 48000, el_period = 2, el_id = 0\<rparr>"

lemma demo_sink_ready: "sai_sink_ready 2 (demo_sai (demo_line 0 4)) (demo_world h)"
  using demo_world_ok by (simp add: sai_sink_ready_def demo_sai_def map_places_def demo_line_def hist_wf_def)

lemma demo_period_words:
  "period_word int_format 2 (demo_sai (demo_line 0 4)) (demo_world h) k =
     (if k = 0 then 0 else if k = 1 then 8 else if k = 2 then 1 else 9)" if "k < 4" for k
proof -
  have l: "length (se_map (demo_sai (demo_line 0 4))) = 2" by (simp add: demo_sai_def)
  have "k = 0 \<or> k = 1 \<or> k = 2 \<or> k = 3" using that by auto
  then show ?thesis
    unfolding period_word_def l
    by (elim disjE) (simp_all add: demo_sai_def map_places_def demo_world_def read_block_def
        upt_rec sai_to_send_def to_cell_def Let_def)
qed

lemma fifo_send_demo:
  "fifo_send demo_hw maps n v (t, l) = (t, rev (map (\<lambda>k. ucast (v k)) [0..<n]) @ l)"
  by (induction n) (simp_all add: Let_def demo_hw_def)

theorem sai_sink_transmits_witness:
  "\<exists>se' w'. sai_sink_element_run int_format demo_hw demo_sink_element (demo_sai (demo_line 0 4)) (demo_world (7, [])) =
     Some (0, se', w') \<and> hws w' = (7, [9, 1, 8, 0])"
proof -
  let ?se = "demo_sai (demo_line 0 4)" and ?w = "demo_world (7 :: nat, [] :: s64 list)"
  have "sai_sink_ready (el_period demo_sink_element) ?se ?w"
    using demo_sink_ready by (simp add: demo_sink_element_def)
  moreover have "se_started ?se" by (simp add: demo_sai_def)
  moreover have "\<forall>i < length (se_line ?se). tx_level_ok demo_hw (hws ?w) (se_line ?se ! i)"
    by (simp add: demo_sai_def demo_line_def tx_level_ok_def sai_tx_level_def sai_level_def demo_hw_def)
  ultimately obtain se' w' where
    run: "sai_sink_element_run int_format demo_hw demo_sink_element ?se ?w = Some (0, se', w')" and
    sent: "period_sent int_format demo_hw (el_period demo_sink_element) ?se ?w w'"
    using sai_sink_transmits by blast
  have "hws ?w = (7, [])" by (simp add: demo_world_def)
  moreover have "unat (el_period demo_sink_element) * length (se_map ?se) = 4"
    by (simp add: demo_sink_element_def demo_sai_def)
  moreover have "[0..<4] = [0, 1, 2, 3 :: nat]" by (simp add: upt_rec)
  ultimately have "hws w' = (7, [9, 1, 8, 0])"
    using sent unfolding period_sent_def
    by (simp only: fifo_send_demo) (simp add: demo_sink_element_def demo_period_words)
  then show ?thesis using run by blast
qed

lemma demo_silence_word:
  "j < 2 \<Longrightarrow> cell_int32 int_format (sai_to_send int_format (se_io (demo_sai l) ! j) AUDIO_SAMPLE_SILENCE) = 0"
  by (auto simp: less_Suc_eq numeral_2_eq_2 demo_sai_def sai_to_send_def to_cell_def)

theorem sai_sink_prefill_witness:
  "\<exists>w'. sai_sink_element_run int_format demo_hw demo_sink_element ((demo_sai (demo_line 0 4))\<lparr>se_started := False\<rparr>)
       (demo_world (7, [])) = Some (0, demo_sai (demo_line 0 4), w') \<and>
     hws w' = (7, [9, 1, 8, 0, 0, 0, 0, 0])"
proof -
  let ?se = "(demo_sai (demo_line 0 4))\<lparr>se_started := False\<rparr>" and ?w = "demo_world (7 :: nat, [] :: s64 list)"
  have "sai_sink_ready (el_period demo_sink_element) ?se ?w"
    using demo_sink_ready [of "(7, [])"] by (simp add: demo_sink_element_def sai_sink_ready_def)
  moreover have "\<not> se_started ?se" by simp
  moreover have "\<forall>j \<in> set (map_places (se_map ?se)). unat (el_period demo_sink_element) < unat (bsize (bufs ?w ! j))"
    by (simp add: demo_sai_def map_places_def demo_sink_element_def demo_world_def)
  ultimately obtain w' where
    run: "sai_sink_element_run int_format demo_hw demo_sink_element ?se ?w = Some (0, ?se\<lparr>se_started := True\<rparr>, w')"
    and hw: "hws w' = for_upto (length (se_base ?se)) (\<lambda>i. hw_enable_tx demo_hw (se_base ?se ! i))
      (fifo_send demo_hw (se_map ?se) (unat (el_period demo_sink_element) * length (se_map ?se))
        (period_word int_format (el_period demo_sink_element) ?se ?w)
        (fifo_send demo_hw (se_map ?se) (unat (el_period demo_sink_element) * length (se_map ?se))
          (\<lambda>k. cell_int32 int_format (sai_to_send int_format (se_io ?se ! (k mod length (se_map ?se)))
             AUDIO_SAMPLE_SILENCE)) (hws ?w)))"
    using sai_sink_prefill by blast
  have e: "?se\<lparr>se_started := True\<rparr> = demo_sai (demo_line 0 4)" by (simp add: demo_sai_def)
  have p: "period_word int_format 2 ?se ?w = period_word int_format 2 (demo_sai (demo_line 0 4)) ?w"
    by (simp add: fun_eq_iff period_word_def)
  have "length (se_map ?se) = 2" by (simp add: demo_sai_def)
  then have "cell_int32 int_format (sai_to_send int_format (se_io ?se ! (k mod length (se_map ?se))) AUDIO_SAMPLE_SILENCE) = 0"
    for k
    using demo_silence_word [of "k mod 2" "demo_line 0 4"] by simp
  moreover have "hws ?w = (7, [])" by (simp add: demo_world_def)
  moreover have "unat (el_period demo_sink_element) * length (se_map ?se) = 4" "length (se_base ?se) = 1"
    "hw_enable_tx demo_hw x = (\<lambda>h. h)" for x
    by (simp_all add: demo_sink_element_def demo_sai_def demo_hw_def)
  moreover have "[0..<4] = [0, 1, 2, 3 :: nat]" by (simp add: upt_rec)
  ultimately have "hws w' = (7, [9, 1, 8, 0, 0, 0, 0, 0])"
    using hw by (simp only: fifo_send_demo) (simp add: demo_sink_element_def p demo_period_words)
  then show ?thesis using run e by auto
qed

text \<open>
  A serial sink initialised from a configuration that passed the check, with a known base for each
  of its instances and distinct inputs that exist, is ready to run: one entry per channel, in the order
  of the inputs, every histogram usable, and the buffers as they were apart from the recorded
  connection.
\<close>

theorem sai_sink_init_ready:
  fixes w :: "('s, 'h) world"
  assumes check: "sai_sink_element_check_config H config = 0" and ok: "world_ok P w"
    and base: "\<forall>i < unat (sec_sai_n (ec_sai config)). hw_sai_base H (sic_id (sec_sai (ec_sai config) i)) \<noteq> None"
    and blank: "length (slots (sl_hist blank)) = unat RTOS_APPS_STATS_MAX_SLOTS"
    and ins: "distinct (map (\<lambda>i. unat (ec_input config i)) [0..<unat (ec_inputs config)])"
      "\<forall>i < unat (ec_inputs config). unat (ec_input config i) < length (bufs w)"
  shows "\<exists>se w'. sai_sink_element_init H el config blank w = Some (se, w') \<and> sai_sink_ready P se w' \<and>
    \<not> se_started se \<and> same_buffers w' w \<and>
    map_places (se_map se) = map (\<lambda>i. unat (ec_input config i)) [0..<unat (ec_inputs config)]"
proof -
  have c: "ec_inputs config = sai_map_size (ec_sai config)" "sai_check_instances H (ec_period config) (ec_sai config)"
    using check by (simp_all add: sai_sink_element_check_config_def split: if_splits)
  obtain se w' where i: "sai_sink_element_init H el config blank w = Some (se, w')" and sb: "same_buffers w' w"
    and m: "map_places (se_map se) = map (\<lambda>i. unat (ec_input config i)) [0..<unat (ec_inputs config)]"
    and r: "map so_buf (se_io se) = map_places (se_map se)" "list_all (\<lambda>l. hist_wf (sl_hist l)) (se_line se)"
      "\<not> se_started se"
    using sai_init_tables_ready [OF c(2) base blank, of "set_output el" "ec_input config", OF same_geometry_set_io(2)]
    unfolding sai_sink_element_init_def c(1) by blast
  have "sai_sink_ready P se w'"
    unfolding sai_sink_ready_def
    using m r ins same_buffersD(3) [OF sb] same_buffers_world_ok [OF sb ok] by (auto simp: list_all_iff)
  with i sb m r show ?thesis by blast
qed

definition demo_sink_config :: "int audio_element_config" where
  "demo_sink_config = demo_config\<lparr>ec_type := AUDIO_ELEMENT_SAI_SINK, ec_inputs := 2, ec_outputs := 0,
     ec_input := (\<lambda>i. if i = 0 then 0 else 2),
     ec_sai := \<lparr>sec_sai_n = 1, sec_sai = (\<lambda>_. \<lparr>sic_id = 1, sic_line_n = 1,
       sic_line = (\<lambda>_. \<lparr>slc_id = 3, slc_channel_n = 2\<rparr>)\<rparr>)\<rparr>\<rparr>"

lemma demo_sink_check: "sai_check_instances demo_hw 2 (ec_sai demo_sink_config)"
proof -
  let ?s = "sec_sai (ec_sai demo_sink_config) 0"
  have "sai_check_line demo_hw 2 (sic_id ?s) (sic_line ?s 0)"
    by (simp add: sai_check_line_def demo_sink_config_def demo_config_def demo_hw_def)
  then have "sai_check_instance demo_hw 2 ?s"
    by (simp add: sai_check_instance_def demo_sink_config_def demo_config_def loop_simps word_le_nat_alt)
  then show ?thesis
    by (simp add: sai_check_instances_def demo_sink_config_def demo_config_def loop_simps)
qed

theorem sai_sink_init_ready_witness:
  "\<exists>se w'. sai_sink_element_init demo_hw demo_sink_element demo_sink_config (demo_line 0 0) (demo_world (7, [])) =
      Some (se, w') \<and> sai_sink_ready 2 se w'"
proof -
  have "sai_sink_element_check_config demo_hw demo_sink_config = 0"
    using demo_sink_check
    by (simp add: sai_sink_element_check_config_def demo_sink_config_def demo_config_def sai_map_size_def loop_simps)
  moreover have "distinct (map (\<lambda>i. unat (ec_input demo_sink_config i)) [0..<unat (ec_inputs demo_sink_config)])"
    "\<forall>i < unat (ec_inputs demo_sink_config). unat (ec_input demo_sink_config i) < length (bufs (demo_world (7 :: nat, [] :: s64 list)))"
    by (simp_all add: demo_sink_config_def demo_config_def upt_rec loop_simps)
  ultimately show ?thesis
    using sai_sink_init_ready [where H = demo_hw and config = demo_sink_config and el = demo_sink_element
        and blank = "demo_line 0 0" and P = 2 and w = "demo_world (7, [])"] demo_world_ok [of "(7, [])"]
    by (auto simp: demo_hw_def demo_line_def)
qed

end
