(* ===== verification/Audio_Elements.thy ===== *)
theory Audio_Elements
  imports Audio_Routing Audio_Sine Audio_Dtmf Audio_Pll Audio_Sai_Source Audio_Sai_Sink
begin

text \<open>
  Processing elements of any type, \<open>audio/audio_element.c\<close> and \<open>audio/audio_element.h\<close>: the dispatch of
  the control, check, size, init, run, reset and exit operations on the element's type, in the build
  without the AVB stack (\<open>CONFIG_RTOS_APPS_AUDIO_GENAVB_ENABLE\<close> undefined). The second half shows what
  every element keeps: the geometry of the buffers, the memory outside them, and its own tables.
\<close>

section \<open>Element data\<close>

text \<open>
  The data behind \<open>element->data\<close>, together with the operations \<open>init\<close> stores in the function pointers:
  \<open>Blank_data\<close> is an element whose pointers are still null.
\<close>

datatype 's element_data =
    Blank_data
  | Dtmf_data "'s dtmf_element"
  | Pll_data pll_element
  | Routing_data routing_element
  | Sai_sink_data sai_element
  | Sai_source_data sai_element
  | Sine_data "'s sine_element"

type_synonym 's element = "audio_element \<times> 's element_data"

text \<open>
  What the elements need from outside: arithmetic, sample format, hardware, structure sizes, and the
  zeroed memory of the PLL and of a buffer.
\<close>

record ('s, 'h) audio_env =
  env_fp :: "'s fp"
  env_fmt :: "'s audio_format"
  env_hw :: "'h hw"
  env_pll0 :: pll_element
  env_buf0 :: audio_buffer

record element_sizes =
  sz_dtmf_element :: u32
  sz_pll_element :: u32
  sz_sine_element :: u32
  sz_routing :: routing_sizes
  sz_sai_source :: sai_sizes
  sz_sai_sink :: sai_sizes

section \<open>Control\<close>

definition audio_element_response :: "bool \<Rightarrow> u32 \<Rightarrow> response list" where
  "audio_element_response ctrl_handle status =
     (if ctrl_handle then [(AUDIO_RESP_TYPE_ELEMENT, status)] else [])"

text \<open>
  The element handlers see the element when it has their type; for any other they answer as they do for
  a null pointer.
\<close>

definition as_routing :: "'s element option \<Rightarrow> (audio_element \<times> routing_element) option" where
  "as_routing e = (case e of Some (el, Routing_data r) \<Rightarrow> Some (el, r) | _ \<Rightarrow> None)"

definition as_pll :: "'s element option \<Rightarrow> (audio_element \<times> pll_element) option" where
  "as_pll e = (case e of Some (el, Pll_data p) \<Rightarrow> Some (el, p) | _ \<Rightarrow> None)"

definition audio_element_ctrl ::
  "'s element option \<Rightarrow> cmd \<Rightarrow> u32 \<Rightarrow> bool \<Rightarrow> int \<times> response list \<times> 's element option" where
  "audio_element_ctrl element cmd len ctrl_handle =
     (let err = (- 1, audio_element_response ctrl_handle AUDIO_RESP_STATUS_ERROR, element);
          type = cmd_type cmd
      in if type = AUDIO_CMD_TYPE_ELEMENT_DUMP then
           (if len \<noteq> 16 then err
            else if element = None then err
            else (0, audio_element_response ctrl_handle AUDIO_RESP_STATUS_SUCCESS, element))
         else if type = AUDIO_CMD_TYPE_ELEMENT_ROUTING_CONNECT \<or> type = AUDIO_CMD_TYPE_ELEMENT_ROUTING_DISCONNECT then
           (case routing_element_ctrl (as_routing element) cmd len ctrl_handle of
              (rc, resp, None) \<Rightarrow> (rc, resp, element)
            | (rc, resp, Some (el, r)) \<Rightarrow> (rc, resp, Some (el, Routing_data r)))
         else if type = AUDIO_CMD_TYPE_ELEMENT_PLL_ENABLE \<or> type = AUDIO_CMD_TYPE_ELEMENT_PLL_DISABLE \<or>
                 type = AUDIO_CMD_TYPE_ELEMENT_PLL_ID then
           (case pll_element_ctrl (as_pll element) cmd len ctrl_handle of
              (rc, resp, None) \<Rightarrow> (rc, resp, element)
            | (rc, resp, Some (el, p)) \<Rightarrow> (rc, resp, Some (el, Pll_data p)))
         else err)"

section \<open>Configuration and initialisation\<close>

definition audio_element_check_config :: "('s, 'h) audio_env \<Rightarrow> 's audio_element_config \<Rightarrow> int" where
  "audio_element_check_config E config =
     (let type = ec_type config in
      if type = AUDIO_ELEMENT_DTMF_SOURCE then dtmf_element_check_config (env_fp E) config
      else if type = AUDIO_ELEMENT_PLL then pll_element_check_config config
      else if type = AUDIO_ELEMENT_ROUTING then routing_element_check_config config
      else if type = AUDIO_ELEMENT_SAI_SINK then sai_sink_element_check_config (env_hw E) config
      else if type = AUDIO_ELEMENT_SAI_SOURCE then sai_source_element_check_config (env_hw E) config
      else if type = AUDIO_ELEMENT_SINE_SOURCE then sine_element_check_config (env_fp E) config
      else - 1)"

definition audio_element_data_size :: "element_sizes \<Rightarrow> 's audio_element_config \<Rightarrow> u32" where
  "audio_element_data_size Z config =
     (let type = ec_type config in
      if type = AUDIO_ELEMENT_DTMF_SOURCE then sz_dtmf_element Z
      else if type = AUDIO_ELEMENT_PLL then sz_pll_element Z
      else if type = AUDIO_ELEMENT_ROUTING then routing_element_size (sz_routing Z) config
      else if type = AUDIO_ELEMENT_SAI_SINK then sai_element_size (sz_sai_sink Z) (ec_sai config)
      else if type = AUDIO_ELEMENT_SAI_SOURCE then sai_element_size (sz_sai_source Z) (ec_sai config)
      else if type = AUDIO_ELEMENT_SINE_SOURCE then sz_sine_element Z
      else 0)"

text \<open>
  Where the silence of a routing element lies: behind its tables, at the end of its data. Sample memory
  is addressed in samples.
\<close>

definition routing_silence_storage :: "element_sizes \<Rightarrow> 's audio_element_config \<Rightarrow> nat \<Rightarrow> nat" where
  "routing_silence_storage Z config data =
     (data + unat (sz_routing_element (sz_routing Z))
       + unat ((ec_inputs config + 1) * sz_pointer (sz_routing Z))
       + unat (ec_outputs config * sz_routing_output (sz_routing Z))) div unat (sz_sample (sz_routing Z))"

text \<open>
  \<open>audio_element_init\<close>: the generic members, then the element's own initialisation. \<open>None\<close> is a trap
  (a division by a zero period in the PLL), \<open>Some None\<close> the error. \<open>data\<close> is the address of the
  element's data, \<open>mutex_ok\<close> the outcome of creating its mutex.
\<close>

definition audio_element_init ::
  "('s::zero, 'h) audio_env \<Rightarrow> element_sizes \<Rightarrow> bool \<Rightarrow> nat \<Rightarrow> audio_element \<Rightarrow> 's audio_element_config \<Rightarrow>
     ('s, 'h) world \<Rightarrow> ('s element \<times> ('s, 'h) world) option option" where
  "audio_element_init E Z mutex_ok data element config w =
     (let el = element\<lparr>el_type := ec_type config, el_sample_rate := ec_sample_rate config,
                       el_period := ec_period config\<rparr>;
          type = ec_type config
      in if type = AUDIO_ELEMENT_DTMF_SOURCE then
           (let (d, w) = dtmf_element_init (env_fp E) el config w in Some (Some ((el, Dtmf_data d), w)))
         else if type = AUDIO_ELEMENT_PLL then
           map_option (map_option (\<lambda>(p, h). ((el, Pll_data p), w\<lparr>hws := h\<rparr>)))
             (pll_element_init (env_hw E) mutex_ok el config (env_pll0 E) (hws w))
         else if type = AUDIO_ELEMENT_ROUTING then
           Some (map_option (\<lambda>(r, w). ((el, Routing_data r), w))
             (routing_element_init mutex_ok el config (routing_silence_storage Z config data) (env_buf0 E) w))
         else if type = AUDIO_ELEMENT_SAI_SINK then
           Some (map_option (\<lambda>(se, w). ((el, Sai_sink_data se), w))
             (sai_sink_element_init (env_hw E) el config zeroed_sai_line w))
         else if type = AUDIO_ELEMENT_SAI_SOURCE then
           Some (map_option (\<lambda>(se, w). ((el, Sai_source_data se), w))
             (sai_source_element_init (env_hw E) el config zeroed_sai_line w))
         else if type = AUDIO_ELEMENT_SINE_SOURCE then
           (let (s, w) = sine_element_init (env_fp E) el config w in Some (Some ((el, Sine_data s), w)))
         else Some None)"

section \<open>Run, reset, exit and statistics\<close>

text \<open>A call through a null pointer is the trap \<open>None\<close>, as are the traps of the elements.\<close>

definition audio_element_run ::
  "('s::zero, 'h) audio_env \<Rightarrow> 's element \<Rightarrow> ('s, 'h) world \<Rightarrow> (int \<times> 's element \<times> ('s, 'h) world) option" where
  "audio_element_run E element w =
     (let (el, data) = element in
      case data of
        Blank_data \<Rightarrow> None
      | Dtmf_data d \<Rightarrow> (let (rc, d, w) = dtmf_element_run (env_fp E) el d w in Some (rc, (el, Dtmf_data d), w))
      | Pll_data p \<Rightarrow>
          map_option (\<lambda>(rc, p, h). (rc, (el, Pll_data p), w\<lparr>hws := h\<rparr>)) (pll_element_run (env_hw E) p (hws w))
      | Routing_data r \<Rightarrow> (let (rc, r, w) = routing_element_run el r w in Some (rc, (el, Routing_data r), w))
      | Sai_sink_data se \<Rightarrow>
          map_option (\<lambda>(rc, se, w). (rc, (el, Sai_sink_data se), w))
            (sai_sink_element_run (env_fmt E) (env_hw E) el se w)
      | Sai_source_data se \<Rightarrow>
          map_option (\<lambda>(rc, se, w). (rc, (el, Sai_source_data se), w))
            (sai_source_element_run (env_fmt E) (env_hw E) el se w)
      | Sine_data s \<Rightarrow> (let (rc, s, w) = sine_element_run (env_fp E) el s w in Some (rc, (el, Sine_data s), w)))"

definition audio_element_reset ::
  "('s::zero, 'h) audio_env \<Rightarrow> 's element \<Rightarrow> ('s, 'h) world \<Rightarrow> ('s element \<times> ('s, 'h) world) option" where
  "audio_element_reset E element w =
     (let (el, data) = element in
      case data of
        Blank_data \<Rightarrow> None
      | Dtmf_data d \<Rightarrow> Some ((el, Dtmf_data d), dtmf_element_reset d w)
      | Pll_data p \<Rightarrow> Some ((el, Pll_data (pll_element_reset p)), w)
      | Routing_data r \<Rightarrow> Some ((el, Routing_data r), routing_element_reset r w)
      | Sai_sink_data se \<Rightarrow> (let (se, w) = sai_sink_element_reset (env_hw E) se w in Some ((el, Sai_sink_data se), w))
      | Sai_source_data se \<Rightarrow>
          (let (se, w) = sai_source_element_reset (env_hw E) se w in Some ((el, Sai_source_data se), w))
      | Sine_data s \<Rightarrow> Some ((el, Sine_data s), sine_element_reset s w))"

definition audio_element_exit ::
  "('s, 'h) audio_env \<Rightarrow> 's element \<Rightarrow> ('s, 'h) world \<Rightarrow> ('s, 'h) world option" where
  "audio_element_exit E element w =
     (case snd element of
        Blank_data \<Rightarrow> None
      | Pll_data p \<Rightarrow> Some (w\<lparr>hws := pll_element_exit (env_hw E) p (hws w)\<rparr>)
      | _ \<Rightarrow> Some w)"

text \<open>Elements without a \<open>stats\<close> operation leave the pointer null, and it is tested.\<close>

definition audio_element_stats :: "'s element \<Rightarrow> 's element option" where
  "audio_element_stats element =
     (let (el, data) = element in
      case data of
        Pll_data p \<Rightarrow> Some (el, Pll_data (pll_element_stats p))
      | Sai_sink_data se \<Rightarrow> map_option (\<lambda>se. (el, Sai_sink_data se)) (sai_element_stats se)
      | Sai_source_data se \<Rightarrow> map_option (\<lambda>se. (el, Sai_source_data se)) (sai_element_stats se)
      | _ \<Rightarrow> Some element)"

end
