(* ===== verification/Audio_Pipeline_Config.thy ===== *)
theory Audio_Pipeline_Config
  imports Audio_Elements
begin

text \<open>
  Pipeline configurations, \<open>rtos_apps/audio/audio_pipeline.h\<close> and the configuration half of
  \<open>audio/audio_pipeline.c\<close>: the limits, the checks on connections and storage, the defaults filled in
  by \<open>audio_pipeline_set_config\<close> and the sizes of the parts of a pipeline's memory.
\<close>

unbundle bit_operations_syntax

section \<open>Configuration\<close>

record buffer_config =
  bc_storage :: u32
  bc_flags :: u32
  bc_shared_id :: u32

text \<open>\<open>stc_base = None\<close> is the null base of a storage allocated with the pipeline.\<close>

record storage_config =
  stc_base :: "nat option"
  stc_periods :: u32

record 's stage_config =
  sg_elements :: u32
  sg_element :: "nat \<Rightarrow> 's audio_element_config"

record 's pipeline_config =
  pf_period :: u32
  pf_sample_rate :: u32
  pf_stages :: u32
  pf_stage :: "nat \<Rightarrow> 's stage_config"
  pf_buffers :: u32
  pf_buffer :: "nat \<Rightarrow> buffer_config"
  pf_buffer_storage :: u32
  pf_storage :: "nat \<Rightarrow> storage_config"

abbreviation (input) AUDIO_PIPELINE_MAX_STAGES :: u32 where "AUDIO_PIPELINE_MAX_STAGES \<equiv> 4"
abbreviation (input) AUDIO_PIPELINE_MAX_ELEMENTS :: u32 where "AUDIO_PIPELINE_MAX_ELEMENTS \<equiv> 16"
abbreviation (input) AUDIO_PIPELINE_MAX_BUFFERS :: u32 where "AUDIO_PIPELINE_MAX_BUFFERS \<equiv> 256"
abbreviation (input) AUDIO_PIPELINE_MAX_PIPELINES :: nat where "AUDIO_PIPELINE_MAX_PIPELINES \<equiv> 4"
abbreviation (input) AUDIO_ELEMENT_MAX_INPUTS :: u32 where "AUDIO_ELEMENT_MAX_INPUTS \<equiv> 64"
abbreviation (input) AUDIO_ELEMENT_MAX_OUTPUTS :: u32 where "AUDIO_ELEMENT_MAX_OUTPUTS \<equiv> 64"
abbreviation (input) STORAGE_DEFAULT_PERIODS :: u32 where "STORAGE_DEFAULT_PERIODS \<equiv> 2"

abbreviation (input) stage_of :: "'s pipeline_config \<Rightarrow> nat \<Rightarrow> 's stage_config" where
  "stage_of c i \<equiv> pf_stage c i"

abbreviation (input) element_of :: "'s pipeline_config \<Rightarrow> nat \<Rightarrow> nat \<Rightarrow> 's audio_element_config" where
  "element_of c i j \<equiv> sg_element (pf_stage c i) j"

section \<open>Limits\<close>

definition audio_pipeline_early_config_check :: "'s pipeline_config \<Rightarrow> int" where
  "audio_pipeline_early_config_check c =
     (if pf_stages c > AUDIO_PIPELINE_MAX_STAGES then - 1
      else if pf_buffers c > AUDIO_PIPELINE_MAX_BUFFERS then - 1
      else if pf_buffer_storage c > AUDIO_PIPELINE_MAX_BUFFERS then - 1
      else if \<forall>i < unat (pf_stages c).
                \<not> sg_elements (stage_of c i) > AUDIO_PIPELINE_MAX_ELEMENTS \<and>
                (\<forall>j < unat (sg_elements (stage_of c i)).
                   \<not> ec_inputs (element_of c i j) > AUDIO_ELEMENT_MAX_INPUTS \<and>
                   \<not> ec_outputs (element_of c i j) > AUDIO_ELEMENT_MAX_OUTPUTS)
           then 0 else - 1)"

section \<open>Connections\<close>

text \<open>\<open>for (i = stage; i < config->stages; i++)\<close> with the loops over the elements and their connections.\<close>

definition audio_pipeline_count_input :: "'s pipeline_config \<Rightarrow> nat \<Rightarrow> u32 \<Rightarrow> u32" where
  "audio_pipeline_count_input c stage input =
     for_upto (unat (pf_stages c) - stage)
       (\<lambda>d. for_upto (unat (sg_elements (stage_of c (stage + d))))
         (\<lambda>j. for_upto (unat (ec_inputs (element_of c (stage + d) j)))
           (\<lambda>k count. if ec_input (element_of c (stage + d) j) k = input then count + 1 else count))) 0"

definition audio_pipeline_count_output :: "'s pipeline_config \<Rightarrow> nat \<Rightarrow> u32 \<Rightarrow> u32" where
  "audio_pipeline_count_output c stage output =
     for_upto (unat (pf_stages c) - stage)
       (\<lambda>d. for_upto (unat (sg_elements (stage_of c (stage + d))))
         (\<lambda>j. for_upto (unat (ec_outputs (element_of c (stage + d) j)))
           (\<lambda>k count. if ec_output (element_of c (stage + d) j) k = output then count + 1 else count))) 0"

text \<open>
  The sanity checks, in the order of the code; the warnings only log. \<open>audio_pipeline_count_input\<close> and
  \<open>audio_pipeline_count_buffers\<close> feed nothing but warnings.
\<close>

definition audio_pipeline_config_check :: "('s, 'h) audio_env \<Rightarrow> 's pipeline_config \<Rightarrow> int" where
  "audio_pipeline_config_check E c =
     (if \<not> (\<forall>i < unat (pf_stages c). \<forall>j < unat (sg_elements (stage_of c i)).
               (\<forall>k < unat (ec_inputs (element_of c i j)). \<not> ec_input (element_of c i j) k \<ge> pf_buffers c) \<and>
               (\<forall>k < unat (ec_outputs (element_of c i j)). \<not> ec_output (element_of c i j) k \<ge> pf_buffers c))
      then - 1
      else if \<not> (\<forall>i < unat (pf_buffers c).
               \<not> (bc_storage (pf_buffer c i) \<ge> pf_buffer_storage c \<and>
                  bc_flags (pf_buffer c i) AND AUDIO_BUFFER_FLAG_SHARED_USER = 0) \<and>
               \<not> audio_pipeline_count_output c 0 (of_nat i) > 1)
      then - 1
      else if \<not> (\<forall>i < unat (pf_stages c). \<forall>j < unat (sg_elements (stage_of c i)).
               \<forall>k < unat (ec_inputs (element_of c i j)).
                 audio_pipeline_count_output c i (ec_input (element_of c i j) k) = 0)
      then - 1
      else if \<not> (\<forall>i < unat (pf_stages c). \<forall>j < unat (sg_elements (stage_of c i)).
               \<not> audio_element_check_config E (element_of c i j) < 0)
      then - 1
      else 0)"

section \<open>Defaults\<close>

text \<open>
  The loop \<open>next = 0; for (k...) { if (!x[k]) x[k] = next; else next = x[k]; next++; }\<close>, over the inputs and over
  the outputs of an element.
\<close>

definition fill_defaults :: "nat \<Rightarrow> (nat \<Rightarrow> u32) \<Rightarrow> (nat \<Rightarrow> u32)" where
  "fill_defaults n x =
     fst (for_upto n
       (\<lambda>k (x, next).
          let (x, next) = (if x k = 0 then (x(k := next), next) else (x, x k)) in (x, next + 1)) (x, 0))"

definition set_element_config :: "'s pipeline_config \<Rightarrow> 's audio_element_config \<Rightarrow> 's audio_element_config" where
  "set_element_config c e =
     (let e = (if ec_sample_rate e = 0 then e\<lparr>ec_sample_rate := pf_sample_rate c\<rparr> else e);
          e = (if ec_period e = 0 then e\<lparr>ec_period := pf_period c\<rparr> else e);
          e = e\<lparr>ec_input := fill_defaults (unat (ec_inputs e)) (ec_input e)\<rparr>
      in e\<lparr>ec_output := fill_defaults (unat (ec_outputs e)) (ec_output e)\<rparr>)"

definition set_buffer_configs :: "nat \<Rightarrow> (nat \<Rightarrow> buffer_config) \<Rightarrow> (nat \<Rightarrow> buffer_config)" where
  "set_buffer_configs n b =
     fst (for_upto n
       (\<lambda>i (b, j).
          if bc_storage (b i) = 0 then
            if bc_flags (b i) AND AUDIO_BUFFER_FLAG_SHARED_USER \<noteq> 0
            then (b(i := (b i)\<lparr>bc_storage := bc_shared_id (b i)\<rparr>), j)
            else (b(i := (b i)\<lparr>bc_storage := j\<rparr>), j + 1)
          else (b, j)) (b, 0 :: u32))"

definition audio_pipeline_set_config :: "'s pipeline_config \<Rightarrow> 's pipeline_config" where
  "audio_pipeline_set_config c =
     c\<lparr>pf_stage := (\<lambda>i. if i < unat (pf_stages c)
         then (stage_of c i)\<lparr>sg_element := (\<lambda>j. if j < unat (sg_elements (stage_of c i))
                then set_element_config c (element_of c i j) else element_of c i j)\<rparr>
         else stage_of c i),
       pf_buffer := set_buffer_configs (unat (pf_buffers c)) (pf_buffer c),
       pf_storage := (\<lambda>i. if i < unat (pf_buffer_storage c) \<and> stc_periods (pf_storage c i) = 0
         then (pf_storage c i)\<lparr>stc_periods := STORAGE_DEFAULT_PERIODS\<rparr> else pf_storage c i)\<rparr>"

section \<open>Sizes\<close>

record pipeline_sizes =
  sz_pipeline :: u32
  sz_stage :: u32
  sz_element :: u32
  sz_buffer :: u32
  sz_sample_t :: u32
  sz_elements :: element_sizes

definition audio_buffer_storage_size :: "pipeline_sizes \<Rightarrow> 's pipeline_config \<Rightarrow> u32" where
  "audio_buffer_storage_size Z c =
     for_upto (unat (pf_buffer_storage c))
       (\<lambda>i size. if stc_base (pf_storage c i) = None
          then size + stc_periods (pf_storage c i) * pf_period c * sz_sample_t Z else size) 0"

definition audio_buffer_storage_off :: "'s pipeline_config \<Rightarrow> u32 \<Rightarrow> u32" where
  "audio_buffer_storage_off c storage =
     for_upto (unat storage)
       (\<lambda>i offset. if stc_base (pf_storage c i) = None
          then offset + stc_periods (pf_storage c i) * pf_period c else offset) 0"

definition audio_buffer_size :: "pipeline_sizes \<Rightarrow> 's pipeline_config \<Rightarrow> u32" where
  "audio_buffer_size Z c = pf_buffers c * sz_buffer Z"

definition audio_element_data_size_total :: "pipeline_sizes \<Rightarrow> 's pipeline_config \<Rightarrow> u32" where
  "audio_element_data_size_total Z c =
     for_upto (unat (pf_stages c))
       (\<lambda>i. for_upto (unat (sg_elements (stage_of c i)))
         (\<lambda>j size. size + audio_element_data_size (sz_elements Z) (element_of c i j))) 0"

definition audio_element_size :: "pipeline_sizes \<Rightarrow> 's pipeline_config \<Rightarrow> u32" where
  "audio_element_size Z c =
     for_upto (unat (pf_stages c)) (\<lambda>i size. size + sg_elements (stage_of c i) * sz_element Z) 0"

definition audio_stage_size :: "pipeline_sizes \<Rightarrow> 's pipeline_config \<Rightarrow> u32" where
  "audio_stage_size Z c = pf_stages c * sz_stage Z"

definition audio_pipeline_alloc_size :: "pipeline_sizes \<Rightarrow> 's pipeline_config \<Rightarrow> u32" where
  "audio_pipeline_alloc_size Z c =
     (let size = sz_pipeline Z;
          size = size + audio_stage_size Z c;
          size = size + audio_element_size Z c;
          size = size + audio_element_data_size_total Z c;
          size = size + audio_buffer_size Z c
      in size + audio_buffer_storage_size Z c)"

section \<open>The connections of a valid configuration\<close>

text \<open>Input \<open>k\<close> of element \<open>j\<close> of stage \<open>i\<close> reads buffer \<open>b\<close>; output \<open>k\<close> writes it.\<close>

definition reads_at :: "'s pipeline_config \<Rightarrow> nat \<Rightarrow> nat \<Rightarrow> nat \<Rightarrow> u32 \<Rightarrow> bool" where
  "reads_at c i j k b \<longleftrightarrow> i < unat (pf_stages c) \<and> j < unat (sg_elements (stage_of c i)) \<and>
     k < unat (ec_inputs (element_of c i j)) \<and> ec_input (element_of c i j) k = b"

definition writes_at :: "'s pipeline_config \<Rightarrow> nat \<Rightarrow> nat \<Rightarrow> nat \<Rightarrow> u32 \<Rightarrow> bool" where
  "writes_at c i j k b \<longleftrightarrow> i < unat (pf_stages c) \<and> j < unat (sg_elements (stage_of c i)) \<and>
     k < unat (ec_outputs (element_of c i j)) \<and> ec_output (element_of c i j) k = b"

definition pipeline_valid :: "('s, 'h) audio_env \<Rightarrow> 's pipeline_config \<Rightarrow> bool" where
  "pipeline_valid E c \<longleftrightarrow>
     (\<forall>i j k b. reads_at c i j k b \<or> writes_at c i j k b \<longrightarrow> b < pf_buffers c) \<and>
     (\<forall>i < unat (pf_buffers c). bc_storage (pf_buffer c i) < pf_buffer_storage c \<or>
        bc_flags (pf_buffer c i) AND AUDIO_BUFFER_FLAG_SHARED_USER \<noteq> 0) \<and>
     (\<forall>i j k i' j' k' b. writes_at c i j k b \<and> writes_at c i' j' k' b \<longrightarrow> i = i' \<and> j = j' \<and> k = k') \<and>
     (\<forall>i j k i' j' k' b. reads_at c i j k b \<and> writes_at c i' j' k' b \<longrightarrow> i' < i) \<and>
     (\<forall>i < unat (pf_stages c). \<forall>j < unat (sg_elements (stage_of c i)).
        0 \<le> audio_element_check_config E (element_of c i j))"

definition pipeline_limits :: "'s pipeline_config \<Rightarrow> bool" where
  "pipeline_limits c \<longleftrightarrow> unat (pf_stages c) \<le> 4 \<and> unat (pf_buffers c) \<le> 256 \<and> unat (pf_buffer_storage c) \<le> 256 \<and>
     (\<forall>i < unat (pf_stages c). unat (sg_elements (stage_of c i)) \<le> 16 \<and>
        (\<forall>j < unat (sg_elements (stage_of c i)).
           unat (ec_inputs (element_of c i j)) \<le> 64 \<and> unat (ec_outputs (element_of c i j)) \<le> 64))"

lemma early_check_limits: "audio_pipeline_early_config_check c = (if pipeline_limits c then 0 else - 1)"
proof -
  have gt: "y < x \<longleftrightarrow> \<not> unat x \<le> unat y" for x y :: u32 by (simp add: not_le word_less_nat_alt)
  show ?thesis unfolding audio_pipeline_early_config_check_def pipeline_limits_def gt by auto
qed

lemma count_loop:
  "for_upto n (\<lambda>k count. if p k then count + 1 else count) = (\<lambda>a :: u32. a + of_nat (card {k. k < n \<and> p k}))"
proof (rule ext, induction n)
  case (Suc n)
  have "{k. k < Suc n \<and> p k} = (if p n then insert n {k. k < n \<and> p k} else {k. k < n \<and> p k})"
    by (auto simp: less_Suc_eq)
  then show ?case using Suc by simp
qed simp

lemma sum_loop: "for_upto n (\<lambda>k count. count + of_nat (g k)) = (\<lambda>a :: u32. a + of_nat (\<Sum>k<n. g k))"
  by (rule ext, induction n) (simp_all add: algebra_simps)

definition writers :: "'s pipeline_config \<Rightarrow> nat \<Rightarrow> u32 \<Rightarrow> (nat \<times> nat \<times> nat) set" where
  "writers c s b = {(i, j, k). s \<le> i \<and> writes_at c i j k b}"

lemma writers_sigma:
  "writers c s b = (SIGMA i:{s..<unat (pf_stages c)}. SIGMA j:{..<unat (sg_elements (stage_of c i))}.
     {k. k < unat (ec_outputs (element_of c i j)) \<and> ec_output (element_of c i j) k = b})"
  by (auto simp: writers_def writes_at_def)

lemma writers_finite [simp]: "finite (writers c s b)"
  by (simp add: writers_sigma)

lemma count_output_card: "audio_pipeline_count_output c s b = of_nat (card (writers c s b))"
proof -
  let ?n = "\<lambda>i j. card {k. k < unat (ec_outputs (element_of c i j)) \<and> ec_output (element_of c i j) k = b}"
  have "card (writers c s b) = (\<Sum>i\<in>{s..<unat (pf_stages c)}. \<Sum>j<unat (sg_elements (stage_of c i)). ?n i j)"
    by (simp add: writers_sigma)
  also have "\<dots> = (\<Sum>d<unat (pf_stages c) - s. \<Sum>j<unat (sg_elements (stage_of c (s + d))). ?n (s + d) j)"
    by (rule sum.reindex_bij_witness [of _ "\<lambda>d. s + d" "\<lambda>i. i - s"]) auto
  finally show ?thesis
    by (simp add: audio_pipeline_count_output_def count_loop sum_loop del: of_nat_sum)
qed

lemma writers_bound:
  assumes "pipeline_limits c"
  shows "card (writers c s b) \<le> 4096"
proof -
  have "writers c s b \<subseteq> {..<4} \<times> {..<16} \<times> {..<64}"
    using assms by (fastforce simp: writers_def writes_at_def pipeline_limits_def)
  then have "card (writers c s b) \<le> card ({..<4 :: nat} \<times> {..<16 :: nat} \<times> {..<64 :: nat})"
    by (intro card_mono) simp_all
  then show ?thesis by simp
qed

lemma count_output_unat:
  assumes "pipeline_limits c"
  shows "unat (audio_pipeline_count_output c s b) = card (writers c s b)"
  using writers_bound [OF assms, of s b] by (simp add: count_output_card unat32_of_nat)

lemma count_output_tests:
  assumes "pipeline_limits c"
  shows "audio_pipeline_count_output c s b = 0 \<longleftrightarrow> (\<forall>i j k. writes_at c i j k b \<longrightarrow> i < s)"
    and "\<not> audio_pipeline_count_output c s b > 1 \<longleftrightarrow>
      (\<forall>i j k i' j' k'. s \<le> i \<and> writes_at c i j k b \<and> s \<le> i' \<and> writes_at c i' j' k' b \<longrightarrow> i = i' \<and> j = j' \<and> k = k')"
proof -
  note u = count_output_unat [OF assms, of s b]
  have "audio_pipeline_count_output c s b = 0 \<longleftrightarrow> writers c s b = {}"
    using u by (metis card_0_eq unat_eq_zero writers_finite)
  then show "audio_pipeline_count_output c s b = 0 \<longleftrightarrow> (\<forall>i j k. writes_at c i j k b \<longrightarrow> i < s)"
    by (auto simp: writers_def not_le [symmetric])
  have "\<not> audio_pipeline_count_output c s b > 1 \<longleftrightarrow> card (writers c s b) \<le> 1"
    using u by (simp add: word_less_nat_alt linorder_not_less)
  also have "\<dots> \<longleftrightarrow> (\<forall>x \<in> writers c s b. \<forall>y \<in> writers c s b. x = y)"
    using card_le_Suc0_iff_eq [OF writers_finite, of c s b] by simp
  finally show "\<not> audio_pipeline_count_output c s b > 1 \<longleftrightarrow>
      (\<forall>i j k i' j' k'. s \<le> i \<and> writes_at c i j k b \<and> s \<le> i' \<and> writes_at c i' j' k' b \<longrightarrow> i = i' \<and> j = j' \<and> k = k')"
    by (auto simp: writers_def)
qed

text \<open>
  C22. For a configuration within the limits, the sanity check accepts exactly the valid ones: every
  connection refers to a buffer, every buffer has a storage or uses a shared one, no buffer has two
  producers, a buffer read in a stage is only produced in an earlier one, and every element accepts its own
  configuration; anything else is rejected with the error.
\<close>

theorem config_check_exact:
  assumes "audio_pipeline_early_config_check c = 0"
  shows "audio_pipeline_config_check E c = (if pipeline_valid E c then 0 else - 1)"
proof -
  have lim: "pipeline_limits c" using assms by (simp add: early_check_limits split: if_splits)
  note out = count_output_tests [OF lim]
  have flag: "\<not> (x \<ge> y \<and> z = 0) \<longleftrightarrow> x < y \<or> z \<noteq> 0" for x y z :: u32 by auto
  have refs: "(\<forall>i < unat (pf_stages c). \<forall>j < unat (sg_elements (stage_of c i)).
      (\<forall>k < unat (ec_inputs (element_of c i j)). \<not> ec_input (element_of c i j) k \<ge> pf_buffers c) \<and>
      (\<forall>k < unat (ec_outputs (element_of c i j)). \<not> ec_output (element_of c i j) k \<ge> pf_buffers c)) \<longleftrightarrow>
    (\<forall>i j k b. reads_at c i j k b \<or> writes_at c i j k b \<longrightarrow> b < pf_buffers c)" (is "?refs \<longleftrightarrow> _")
    by (auto simp: reads_at_def writes_at_def not_le)
  have bufs: "(\<forall>i < unat (pf_buffers c). P i \<and> \<not> audio_pipeline_count_output c 0 (of_nat i) > 1) \<longleftrightarrow>
      (\<forall>i < unat (pf_buffers c). P i) \<and>
      (\<forall>i j k i' j' k' b. writes_at c i j k b \<and> writes_at c i' j' k' b \<longrightarrow> i = i' \<and> j = j' \<and> k = k')"
    if r: "\<forall>i j k b. reads_at c i j k b \<or> writes_at c i j k b \<longrightarrow> b < pf_buffers c" for P
  proof -
    have one: "(\<forall>n < unat (pf_buffers c). \<forall>i j k i' j' k'. writes_at c i j k (of_nat n) \<and> writes_at c i' j' k' (of_nat n) \<longrightarrow>
        i = i' \<and> j = j' \<and> k = k') \<longleftrightarrow>
      (\<forall>i j k i' j' k' b. writes_at c i j k b \<and> writes_at c i' j' k' b \<longrightarrow> i = i' \<and> j = j' \<and> k = k')" (is "?l \<longleftrightarrow> ?r")
    proof
      assume l: ?l
      show ?r
      proof (intro allI impI)
        fix i j k i' j' k' b assume w: "writes_at c i j k b \<and> writes_at c i' j' k' b"
        then have "unat b < unat (pf_buffers c)" using r by (auto simp: word_less_nat_alt)
        from l [rule_format, OF this, of i j k i' j' k'] w show "i = i' \<and> j = j' \<and> k = k'" by simp
      qed
    qed blast
    show ?thesis unfolding one [symmetric] out(2) by blast
  qed
  have causal: "(\<forall>i < unat (pf_stages c). \<forall>j < unat (sg_elements (stage_of c i)).
      \<forall>k < unat (ec_inputs (element_of c i j)). audio_pipeline_count_output c i (ec_input (element_of c i j) k) = 0) \<longleftrightarrow>
    (\<forall>i j k i' j' k' b. reads_at c i j k b \<and> writes_at c i' j' k' b \<longrightarrow> i' < i)"
    unfolding out(1) reads_at_def by blast
  show ?thesis
  proof (cases "\<forall>i j k b. reads_at c i j k b \<or> writes_at c i j k b \<longrightarrow> b < pf_buffers c")
    case False
    then have "\<not> ?refs" using refs by blast
    then show ?thesis using False by (simp only: audio_pipeline_config_check_def pipeline_valid_def) simp
  next
    case True
    have chain: "(if \<not> p then x else if \<not> q then x else if \<not> r then x else if \<not> s then x else y) =
        (if p \<and> q \<and> r \<and> s then y else x)" for p q r s and x y :: int by simp
    show ?thesis
      unfolding audio_pipeline_config_check_def pipeline_valid_def refs flag bufs [OF True] causal chain conj_assoc
        linorder_not_less [of _ "0 :: int"] ..
  qed
qed

section \<open>A concrete configuration\<close>

text \<open>
  A sine wave in the first stage, routed from its buffer to a second one in the second stage, two samples per
  period; everything that can be left to its default is.
\<close>

definition demo_env :: "(int, nat \<times> s64 list) audio_env" where
  "demo_env = \<lparr>env_fp = int_fp, env_fmt = int_format, env_hw = demo_hw, env_pll0 = pll_zeroed,
     env_buf0 = demo_slot 0 0\<rparr>"

definition demo_pipeline_config :: "int pipeline_config" where
  "demo_pipeline_config = \<lparr>pf_period = 2, pf_sample_rate = 48000, pf_stages = 2,
     pf_stage = (\<lambda>i. \<lparr>sg_elements = 1, sg_element = (\<lambda>j.
       if i = 0 then demo_config\<lparr>ec_type := AUDIO_ELEMENT_SINE_SOURCE, ec_outputs := 1, ec_period := 0, ec_sample_rate := 0,
          ec_sine := \<lparr>sc_freq = 440, sc_amplitude = 1\<rparr>\<rparr>
       else demo_config\<lparr>ec_inputs := 1, ec_outputs := 1, ec_output := (\<lambda>_. 1), ec_period := 0\<rparr>)\<rparr>),
     pf_buffers = 2, pf_buffer = (\<lambda>_. \<lparr>bc_storage = 0, bc_flags = 0, bc_shared_id = 0\<rparr>),
     pf_buffer_storage = 2, pf_storage = (\<lambda>_. \<lparr>stc_base = None, stc_periods = 0\<rparr>)\<rparr>"

lemma demo_pipeline_early: "audio_pipeline_early_config_check demo_pipeline_config = 0"
  by (simp add: early_check_limits pipeline_limits_def demo_pipeline_config_def demo_config_def loop_simps)

lemma demo_pipeline_valid: "pipeline_valid demo_env demo_pipeline_config"
proof -
  have r: "reads_at demo_pipeline_config i j k b \<longleftrightarrow> i = 1 \<and> j = 0 \<and> k = 0 \<and> b = 0" for i j k b
    by (auto simp: reads_at_def demo_pipeline_config_def demo_config_def)
  have w: "writes_at demo_pipeline_config i j k b \<longleftrightarrow> i < 2 \<and> j = 0 \<and> k = 0 \<and> b = (if i = 0 then 0 else 1)" for i j k b
    by (auto simp: writes_at_def demo_pipeline_config_def demo_config_def)
  have e: "audio_element_check_config demo_env (element_of demo_pipeline_config i j) = 0" for i j
    by (simp add: audio_element_check_config_def demo_pipeline_config_def demo_config_def demo_env_def int_fp_def
        sine_element_check_config_def routing_element_check_config_def)
  have b: "b < pf_buffers demo_pipeline_config \<longleftrightarrow> b < 2" "bc_storage (pf_buffer demo_pipeline_config i) < pf_buffer_storage demo_pipeline_config"
    for b i by (simp_all add: demo_pipeline_config_def)
  show ?thesis using b unfolding pipeline_valid_def r w e by (auto split: if_splits)
qed

theorem config_check_exact_witness: "audio_pipeline_config_check demo_env demo_pipeline_config = 0"
  using config_check_exact [OF demo_pipeline_early, of demo_env] demo_pipeline_valid by simp

section \<open>The defaults\<close>

definition defaults_upto :: "(nat \<Rightarrow> u32) \<Rightarrow> nat \<Rightarrow> (nat \<Rightarrow> u32) \<times> u32 \<Rightarrow> bool" where
  "defaults_upto x m s \<longleftrightarrow>
     (\<forall>k. m \<le> k \<longrightarrow> fst s k = x k) \<and> snd s = (if m = 0 then 0 else fst s (m - 1) + 1) \<and>
     (\<forall>k < m. fst s k = (if x k \<noteq> 0 then x k else if k = 0 then 0 else fst s (k - 1) + 1))"

lemma defaults_upto_step:
  assumes s: "defaults_upto x m (y, n)"
  shows "defaults_upto x (Suc m) (y(m := if x m = 0 then n else x m), (if x m = 0 then n else x m) + 1)"
proof -
  let ?v = "if x m = 0 then n else x m"
  let ?y = "y(m := ?v)"
  note all = s [unfolded defaults_upto_def fst_conv snd_conv]
  have rest: "\<forall>k. m \<le> k \<longrightarrow> y k = x k" and nxt: "n = (if m = 0 then 0 else y (m - 1) + 1)"
    and dflt: "\<forall>k < m. y k = (if x k \<noteq> 0 then x k else if k = 0 then 0 else y (k - 1) + 1)"
    using all by blast+
  have n: "n = (if m = 0 then 0 else ?y (m - 1) + 1)" using nxt by (cases m) simp_all
  have new: "?y k = (if x k \<noteq> 0 then x k else if k = 0 then 0 else ?y (k - 1) + 1)" if k: "k < Suc m" for k
  proof (cases "k = m")
    case True
    show ?thesis
    proof (cases "x m = 0")
      case True
      with \<open>k = m\<close> n show ?thesis by (cases m) simp_all
    next
      case False
      with \<open>k = m\<close> show ?thesis by simp
    qed
  next
    case False
    then have "k < m" "k - 1 \<noteq> m" "k \<noteq> m" using k by simp_all
    then show ?thesis using dflt [rule_format, of k] by (simp only: fun_upd_apply if_False)
  qed
  have old: "\<forall>k. Suc m \<le> k \<longrightarrow> ?y k = x k" using rest by simp
  show ?thesis unfolding defaults_upto_def fst_conv snd_conv by (intro conjI old) (simp, use new in blast)
qed

lemma fill_defaults_inv:
  "defaults_upto x n (for_upto n
     (\<lambda>k (x, next). let (x, next) = (if x k = 0 then (x(k := next), next) else (x, x k)) in (x, next + 1)) (x, 0))"
proof (rule for_upto_invariant [where P = "\<lambda>m. defaults_upto x m"])
  show "defaults_upto x 0 (x, 0)" by (simp add: defaults_upto_def)
next
  fix m s assume s: "defaults_upto x m s"
  obtain y n where y: "s = (y, n)" by force
  have "y m = x m" using s by (simp add: y defaults_upto_def)
  then have "(case s of (x, next) \<Rightarrow> let (x, next) = (if x m = 0 then (x(m := next), next) else (x, x m)) in (x, next + 1)) =
      (y(m := if x m = 0 then n else x m), (if x m = 0 then n else x m) + 1)"
    by (simp add: y fun_upd_idem)
  then show "defaults_upto x (Suc m)
      (case s of (x, next) \<Rightarrow> let (x, next) = (if x m = 0 then (x(m := next), next) else (x, x m)) in (x, next + 1))"
    using defaults_upto_step s by (simp only: y)
qed

lemma fill_defaults_rec:
  "k < n \<Longrightarrow> fill_defaults n x k = (if x k \<noteq> 0 then x k else if k = 0 then 0 else fill_defaults n x (k - 1) + 1)"
  "n \<le> k \<Longrightarrow> fill_defaults n x k = x k"
  using fill_defaults_inv [of x n] by (simp_all add: fill_defaults_def defaults_upto_def)

lemma fill_defaults_idem: "fill_defaults n (fill_defaults n x) = fill_defaults n x"
proof
  fix k
  show "fill_defaults n (fill_defaults n x) k = fill_defaults n x k"
  proof (cases "k < n")
    case True
    then show ?thesis
    proof (induction k)
      case (Suc k)
      then have "fill_defaults n (fill_defaults n x) k = fill_defaults n x k" by simp
      then show ?case
        using Suc.prems fill_defaults_rec(1) [OF Suc.prems, of x] fill_defaults_rec(1) [OF Suc.prems, of "fill_defaults n x"]
        by (cases "fill_defaults n x (Suc k) = 0") (auto split: if_splits)
    next
      case 0
      then show ?case using fill_defaults_rec(1) [OF 0] by simp
    qed
  qed (simp add: fill_defaults_rec(2))
qed

text \<open>The buffers left to the default take the storages \<open>0\<close>, \<open>1\<close>, ... in order.\<close>

definition default_storage :: "(nat \<Rightarrow> buffer_config) \<Rightarrow> nat \<Rightarrow> bool" where
  "default_storage b i \<longleftrightarrow> bc_storage (b i) = 0 \<and> bc_flags (b i) AND AUDIO_BUFFER_FLAG_SHARED_USER = 0"

lemma set_buffer_configs_inv:
  "let (c, j) = for_upto m
       (\<lambda>i (b, j). if bc_storage (b i) = 0 then
            if bc_flags (b i) AND AUDIO_BUFFER_FLAG_SHARED_USER \<noteq> 0
            then (b(i := (b i)\<lparr>bc_storage := bc_shared_id (b i)\<rparr>), j)
            else (b(i := (b i)\<lparr>bc_storage := j\<rparr>), j + 1)
          else (b, j)) (b, 0 :: u32)
   in j = of_nat (card {i. i < m \<and> default_storage b i}) \<and>
      (\<forall>i. c i = (if i < m \<and> bc_storage (b i) = 0 then (b i)\<lparr>bc_storage :=
         if default_storage b i then of_nat (card {k. k < i \<and> default_storage b k}) else bc_shared_id (b i)\<rparr>
       else b i))"
proof (induction m)
  case (Suc m)
  obtain c j where cj: "for_upto m (\<lambda>i (b, j). if bc_storage (b i) = 0 then
            if bc_flags (b i) AND AUDIO_BUFFER_FLAG_SHARED_USER \<noteq> 0
            then (b(i := (b i)\<lparr>bc_storage := bc_shared_id (b i)\<rparr>), j)
            else (b(i := (b i)\<lparr>bc_storage := j\<rparr>), j + 1)
          else (b, j)) (b, 0 :: u32) = (c, j)" by force
  have j: "j = of_nat (card {i. i < m \<and> default_storage b i})"
    and c: "c i = (if i < m \<and> bc_storage (b i) = 0 then (b i)\<lparr>bc_storage :=
         if default_storage b i then of_nat (card {k. k < i \<and> default_storage b k}) else bc_shared_id (b i)\<rparr>
       else b i)" for i
    using Suc unfolding cj by auto
  have "{i. i < Suc m \<and> default_storage b i} =
      (if default_storage b m then insert m {i. i < m \<and> default_storage b i} else {i. i < m \<and> default_storage b i})"
    by (auto simp: less_Suc_eq)
  moreover have "c m = b m" by (simp add: c)
  ultimately show ?case unfolding for_upto.simps cj by (auto simp: j c less_Suc_eq default_storage_def)
qed simp

lemma set_buffer_configs_eq:
  "set_buffer_configs n b = (\<lambda>i. if i < n \<and> bc_storage (b i) = 0 then (b i)\<lparr>bc_storage :=
       if default_storage b i then of_nat (card {k. k < i \<and> default_storage b k}) else bc_shared_id (b i)\<rparr>
     else b i)"
  using set_buffer_configs_inv [of n b] by (auto simp: set_buffer_configs_def case_prod_beta fun_eq_iff)

lemma set_element_config_idem: "set_element_config c (set_element_config c e) = set_element_config c e"
  by (simp add: set_element_config_def Let_def fill_defaults_idem)

lemma set_buffer_configs_flags:
  "bc_flags (set_buffer_configs n b i) = bc_flags (b i)" "bc_shared_id (set_buffer_configs n b i) = bc_shared_id (b i)"
  by (simp_all add: set_buffer_configs_eq)

lemma default_storage_again: "default_storage (set_buffer_configs n b) k \<Longrightarrow> default_storage b k"
  by (auto simp: default_storage_def set_buffer_configs_eq split: if_splits)

lemma set_buffer_configs_idem:
  assumes n: "n < 2 ^ 32"
  shows "set_buffer_configs n (set_buffer_configs n b) = set_buffer_configs n b"
proof
  let ?b = "set_buffer_configs n b"
  fix i
  show "set_buffer_configs n ?b i = ?b i"
  proof (cases "i < n \<and> default_storage ?b i")
    case True
    then have d: "default_storage b i" by (blast dest: default_storage_again)
    then have z: "bc_storage (b i) = 0" by (simp add: default_storage_def)
    have "bc_storage (?b i) = of_nat (card {k. k < i \<and> default_storage b k})"
      unfolding set_buffer_configs_eq using True d z by simp
    moreover have "bc_storage (?b i) = 0" using True by (simp only: default_storage_def)
    ultimately have "of_nat (card {k. k < i \<and> default_storage b k}) = (0 :: u32)" by (simp only:)
    moreover have "card {k. k < i \<and> default_storage b k} \<le> card {..<i}" by (intro card_mono) auto
    then have "card {k. k < i \<and> default_storage b k} < 2 ^ 32" using True n by simp
    ultimately have "card {k. k < i \<and> default_storage b k} = 0" by (metis unat32_of_nat unat_0)
    then have "\<forall>k < i. \<not> default_storage b k" by simp
    then have none: "{k. k < i \<and> default_storage ?b k} = {}" using default_storage_again by blast
    have z: "bc_storage (?b i) = 0" using True by (simp only: default_storage_def)
    then have "set_buffer_configs n ?b i = (?b i)\<lparr>bc_storage := bc_storage (?b i)\<rparr>"
      using True unfolding set_buffer_configs_eq [of n ?b] none by simp
    then show ?thesis by simp
  next
    case False
    then show ?thesis
      by (auto simp: set_buffer_configs_eq [of n ?b] default_storage_def set_buffer_configs_flags)
        (auto simp: set_buffer_configs_eq default_storage_def)
  qed
qed

lemma set_config_fields [simp]:
  "pf_stages (audio_pipeline_set_config c) = pf_stages c" "pf_buffers (audio_pipeline_set_config c) = pf_buffers c"
  "pf_buffer_storage (audio_pipeline_set_config c) = pf_buffer_storage c"
  "pf_period (audio_pipeline_set_config c) = pf_period c" "pf_sample_rate (audio_pipeline_set_config c) = pf_sample_rate c"
  "sg_elements (pf_stage (audio_pipeline_set_config c) i) = sg_elements (pf_stage c i)"
  "pf_buffer (audio_pipeline_set_config c) = set_buffer_configs (unat (pf_buffers c)) (pf_buffer c)"
  by (simp_all add: audio_pipeline_set_config_def)

lemma set_config_element:
  "sg_element (pf_stage (audio_pipeline_set_config c) i) j =
     (if i < unat (pf_stages c) \<and> j < unat (sg_elements (stage_of c i))
      then set_element_config c (element_of c i j) else element_of c i j)"
  by (simp add: audio_pipeline_set_config_def)

lemma set_config_storage:
  "pf_storage (audio_pipeline_set_config c) i =
     (if i < unat (pf_buffer_storage c) \<and> stc_periods (pf_storage c i) = 0
      then (pf_storage c i)\<lparr>stc_periods := STORAGE_DEFAULT_PERIODS\<rparr> else pf_storage c i)"
  by (simp add: audio_pipeline_set_config_def)

lemma set_config_idem:
  fixes c :: "'s pipeline_config"
  shows "audio_pipeline_set_config (audio_pipeline_set_config c) = audio_pipeline_set_config c" (is "?e = ?d")
proof (rule pipeline_config.equality)
  have elem: "set_element_config ?d e = set_element_config c e" for e :: "'s audio_element_config"
    by (simp add: set_element_config_def)
  show "pf_stage ?e = pf_stage ?d"
    by (intro ext stage_config.equality)
       (simp_all add: set_config_element elem set_element_config_idem)
  show "pf_buffer ?e = pf_buffer ?d" by (simp add: set_buffer_configs_idem [OF unat32_less])
  show "pf_storage ?e = pf_storage ?d" by (rule ext) (simp add: set_config_storage)
qed (simp_all add: audio_pipeline_set_config_def)

text \<open>
  The defaults: an element without its own rate or period takes those of the pipeline; an input or output
  left at zero follows the one before it; the buffers left at storage zero take the storages in order, those of
  shared users the shared one; a storage without a size gets two periods. Explicit values stay, and applying
  the defaults again changes nothing.
\<close>

theorem set_config_defaults:
  "let d = audio_pipeline_set_config c in
    audio_pipeline_set_config d = d \<and> pf_stages d = pf_stages c \<and>
    (\<forall>i < unat (pf_stages c). sg_elements (stage_of d i) = sg_elements (stage_of c i) \<and>
       (\<forall>j < unat (sg_elements (stage_of c i)).
          let e = element_of c i j; e' = element_of d i j in
          ec_sample_rate e' = (if ec_sample_rate e = 0 then pf_sample_rate c else ec_sample_rate e) \<and>
          ec_period e' = (if ec_period e = 0 then pf_period c else ec_period e) \<and>
          (\<forall>k < unat (ec_inputs e). ec_input e' k =
             (if ec_input e k \<noteq> 0 then ec_input e k else if k = 0 then 0 else ec_input e' (k - 1) + 1)) \<and>
          (\<forall>k < unat (ec_outputs e). ec_output e' k =
             (if ec_output e k \<noteq> 0 then ec_output e k else if k = 0 then 0 else ec_output e' (k - 1) + 1)))) \<and>
    (\<forall>i < unat (pf_buffers c). bc_storage (pf_buffer d i) =
       (if bc_storage (pf_buffer c i) \<noteq> 0 then bc_storage (pf_buffer c i)
        else if bc_flags (pf_buffer c i) AND AUDIO_BUFFER_FLAG_SHARED_USER \<noteq> 0 then bc_shared_id (pf_buffer c i)
        else of_nat (card {k. k < i \<and> default_storage (pf_buffer c) k}))) \<and>
    (\<forall>i < unat (pf_buffer_storage c). stc_periods (pf_storage d i) =
       (if stc_periods (pf_storage c i) = 0 then 2 else stc_periods (pf_storage c i)))"
proof -
  let ?d = "audio_pipeline_set_config c"
  have idem: "audio_pipeline_set_config ?d = ?d" by (rule set_config_idem)
  have elem: "element_of ?d i j = set_element_config c (element_of c i j)"
    if "i < unat (pf_stages c)" "j < unat (sg_elements (stage_of c i))" for i j
    using that by (simp add: audio_pipeline_set_config_def)
  have fields: "ec_sample_rate (set_element_config c e) = (if ec_sample_rate e = 0 then pf_sample_rate c else ec_sample_rate e)"
    "ec_period (set_element_config c e) = (if ec_period e = 0 then pf_period c else ec_period e)"
    "ec_input (set_element_config c e) = fill_defaults (unat (ec_inputs e)) (ec_input e)"
    "ec_output (set_element_config c e) = fill_defaults (unat (ec_outputs e)) (ec_output e)" for e
    by (simp_all add: set_element_config_def Let_def)
  show ?thesis
    unfolding Let_def
  proof (intro conjI allI impI)
    fix i j k
    assume i: "i < unat (pf_stages c)" and j: "j < unat (sg_elements (stage_of c i))"
    show "ec_sample_rate (element_of ?d i j) =
        (if ec_sample_rate (element_of c i j) = 0 then pf_sample_rate c else ec_sample_rate (element_of c i j))"
      "ec_period (element_of ?d i j) = (if ec_period (element_of c i j) = 0 then pf_period c else ec_period (element_of c i j))"
      unfolding elem [OF i j] fields by (rule refl)+
    show "ec_input (element_of ?d i j) k = (if ec_input (element_of c i j) k \<noteq> 0 then ec_input (element_of c i j) k
        else if k = 0 then 0 else ec_input (element_of ?d i j) (k - 1) + 1)"
      if k: "k < unat (ec_inputs (element_of c i j))"
      unfolding elem [OF i j] fields by (rule fill_defaults_rec(1) [OF k])
    show "ec_output (element_of ?d i j) k = (if ec_output (element_of c i j) k \<noteq> 0 then ec_output (element_of c i j) k
        else if k = 0 then 0 else ec_output (element_of ?d i j) (k - 1) + 1)"
      if k: "k < unat (ec_outputs (element_of c i j))"
      unfolding elem [OF i j] fields by (rule fill_defaults_rec(1) [OF k])
  qed (simp_all add: idem set_config_storage set_buffer_configs_eq default_storage_def)
qed

theorem set_config_defaults_witness:
  "ec_output (element_of (audio_pipeline_set_config demo_pipeline_config) 1 0) 0 = 1 \<and>
   ec_period (element_of (audio_pipeline_set_config demo_pipeline_config) 1 0) = 2 \<and>
   bc_storage (pf_buffer (audio_pipeline_set_config demo_pipeline_config) 1) = 1"
proof -
  let ?c = demo_pipeline_config
  have s: "unat (pf_stages ?c) = 2" "unat (sg_elements (stage_of ?c 1)) = 1" "unat (pf_buffers ?c) = 2"
    "unat (ec_outputs (element_of ?c 1 0)) = 1" "ec_output (element_of ?c 1 0) 0 = 1" "ec_period (element_of ?c 1 0) = 0"
    "pf_period ?c = 2" "bc_storage (pf_buffer ?c 1) = 0" "bc_flags (pf_buffer ?c 1) = 0"
    by (simp_all add: demo_pipeline_config_def demo_config_def)
  have "{k. k < 1 \<and> default_storage (pf_buffer ?c) k} = {0}"
    by (auto simp: default_storage_def demo_pipeline_config_def)
  then show ?thesis using set_config_defaults [of ?c] s by (auto simp: Let_def)
qed

end
