(* ===== verification/Audio_Frame.thy ===== *)
theory Audio_Frame
  imports Audio_World
begin

text \<open>
  What any operation of an element may do to the world of its pipeline: write the storage of the
  pipeline's buffers and move their indices by whole periods. \<open>world_step P w w'\<close> is closed under
  composition and loops; the elements and the pipeline are shown to be such steps.
\<close>

section \<open>Steps of the world\<close>

definition same_storage :: "audio_buffer \<Rightarrow> audio_buffer \<Rightarrow> bool" where
  "same_storage b c \<longleftrightarrow> base b = base c \<and> bsize b = bsize c \<and> silence b = silence c"

definition world_step :: "u32 \<Rightarrow> ('s, 'h) world \<Rightarrow> ('s, 'h) world \<Rightarrow> bool" where
  "world_step P w w' \<longleftrightarrow>
     list_all (buf_aligned P) (bufs w') \<and> list_all2 same_storage (bufs w') (bufs w) \<and>
     (\<forall>a. (\<forall>b \<in> set (bufs w). a \<notin> buf_range b) \<longrightarrow> smem w' a = smem w a)"

lemma same_storage_refl [simp]: "same_storage b b"
  by (simp add: same_storage_def)

lemma same_storage_updates [simp]:
  "same_storage (audio_buf_write_update b n) b" "same_storage (audio_buf_read_update b n) b"
  by (simp_all add: same_storage_def audio_buf_write_update_def audio_buf_read_update_def)

lemma same_storage_set_io [simp]: "same_storage (set_input el i b) b" "same_storage (set_output el i b) b"
  by (simp_all add: same_storage_def set_input_def set_output_def)

lemma same_storage_range: "same_storage b c \<Longrightarrow> buf_range b = buf_range c"
  by (simp add: same_storage_def buf_range_def)

lemma world_stepD:
  assumes "world_step P w w'"
  shows "length (bufs w') = length (bufs w)"
    "i < length (bufs w) \<Longrightarrow> buf_aligned P (bufs w' ! i)"
    "i < length (bufs w) \<Longrightarrow> same_storage (bufs w' ! i) (bufs w ! i)"
    "(\<And>b. b \<in> set (bufs w) \<Longrightarrow> a \<notin> buf_range b) \<Longrightarrow> smem w' a = smem w a"
proof -
  show l: "length (bufs w') = length (bufs w)"
    using assms by (auto simp: world_step_def dest: list_all2_lengthD)
  show "i < length (bufs w) \<Longrightarrow> buf_aligned P (bufs w' ! i)"
    using assms l by (simp add: world_step_def list_all_length)
  show "i < length (bufs w) \<Longrightarrow> same_storage (bufs w' ! i) (bufs w ! i)"
    using assms l by (simp add: world_step_def list_all2_conv_all_nth)
  show "(\<And>b. b \<in> set (bufs w) \<Longrightarrow> a \<notin> buf_range b) \<Longrightarrow> smem w' a = smem w a"
    using assms by (simp add: world_step_def)
qed

lemma world_stepI:
  assumes "length (bufs w') = length (bufs w)"
    and "\<And>i. i < length (bufs w) \<Longrightarrow> buf_aligned P (bufs w' ! i) \<and> same_storage (bufs w' ! i) (bufs w ! i)"
    and "\<And>a. (\<And>b. b \<in> set (bufs w) \<Longrightarrow> a \<notin> buf_range b) \<Longrightarrow> smem w' a = smem w a"
  shows "world_step P w w'"
  using assms by (simp add: world_step_def list_all_length list_all2_conv_all_nth)

lemma world_step_ok:
  assumes "world_step P w w'" and "world_ok P w"
  shows "world_ok P w'"
  using world_stepD [OF assms(1)] assms(2)
  by (auto simp: world_ok_def list_all_length buf_apart_def same_storage_def)

lemma world_step_refl: "world_ok P w \<Longrightarrow> world_step P w w"
  by (rule world_stepI) (simp_all add: world_okD)

lemma world_step_ranges:
  assumes "world_step P w w'"
  shows "(\<forall>b \<in> set (bufs w'). a \<notin> buf_range b) \<longleftrightarrow> (\<forall>b \<in> set (bufs w). a \<notin> buf_range b)"
proof -
  have "map buf_range (bufs w') = map buf_range (bufs w)"
    using world_stepD(1) [OF assms] same_storage_range [OF world_stepD(3) [OF assms]] by (auto intro: nth_equalityI)
  then have "set (map buf_range (bufs w')) = set (map buf_range (bufs w))" by simp
  then have "buf_range ` set (bufs w') = buf_range ` set (bufs w)" by simp
  then show ?thesis by (metis (mono_tags, lifting) image_iff)
qed

lemma world_step_trans:
  assumes "world_step P u v" and "world_step P v w"
  shows "world_step P u w"
proof (rule world_stepI)
  note uv = world_stepD [OF assms(1)] and vw = world_stepD [OF assms(2)]
  show "length (bufs w) = length (bufs u)" using uv(1) vw(1) by simp
  show "buf_aligned P (bufs w ! i) \<and> same_storage (bufs w ! i) (bufs u ! i)" if "i < length (bufs u)" for i
    using uv(1,3) vw(2,3) that by (simp add: same_storage_def)
  show "smem w a = smem u a" if "\<And>b. b \<in> set (bufs u) \<Longrightarrow> a \<notin> buf_range b" for a
    using uv(4) vw(4) that world_step_ranges [OF assms(1), of a] by metis
qed

lemma world_step_hws:
  "world_step P w w' \<Longrightarrow> world_step P w (w'\<lparr>hws := h\<rparr>)"
  by (simp add: world_step_def)

lemma world_step_buf_upd:
  assumes "world_ok P w" and "i < length (bufs w)"
    and "buf_aligned P (f (bufs w ! i))" and "same_storage (f (bufs w ! i)) (bufs w ! i)"
  shows "world_step P w (buf_upd i f w)"
  using assms by (intro world_stepI) (auto simp: world_okD)

lemma world_step_on_buf:
  assumes "world_ok P w" and "i < length (bufs w)" and "f (smem w, bufs w ! i) = (m, b)"
    and "buf_aligned P b" and "same_storage b (bufs w ! i)"
    and "\<And>a. a \<notin> buf_range (bufs w ! i) \<Longrightarrow> m a = smem w a"
  shows "world_step P w (on_buf i f w)"
  using assms by (intro world_stepI) (auto simp: world_okD on_buf_def nth_list_update)

lemma world_step_loop:
  assumes ok: "world_ok P w" and step: "\<And>i v. i < n \<Longrightarrow> world_step P w v \<Longrightarrow> world_step P v (f i v)"
  shows "world_step P w (for_upto n f w)"
  by (rule for_upto_invariant [where P = "\<lambda>_. world_step P w"])
    (auto intro: world_step_refl [OF ok] world_step_trans step)

lemma world_step_hw_loop:
  assumes "world_step P w v"
  shows "world_step P w (for_upto n (\<lambda>i w. w\<lparr>hws := g i (hws w)\<rparr>) v)"
  by (rule for_upto_invariant [where P = "\<lambda>_. world_step P w"]) (auto intro: assms world_step_hws)

section \<open>The operations of the elements as steps\<close>

lemma emitted_step:
  assumes "emitted P out blk w w'" and "world_ok P w" and "out < length (bufs w)"
  shows "world_step P w w'"
proof (rule world_stepI)
  have b: "bufs w' = (bufs w)[out := audio_buf_write_update (bufs w ! out) P]"
    using assms(1) by (simp add: emitted_def)
  then show "length (bufs w') = length (bufs w)" by simp
  show "buf_aligned P (bufs w' ! i) \<and> same_storage (bufs w' ! i) (bufs w ! i)" if "i < length (bufs w)" for i
    using b that buf_aligned_update(1) [OF world_okD(1) [OF assms(2) that]] world_okD(1) [OF assms(2) that]
    by (cases "i = out") simp_all
  show "smem w' a = smem w a" if "\<And>b. b \<in> set (bufs w) \<Longrightarrow> a \<notin> buf_range b" for a
    using assms(1) write_slots_range [OF world_okD(1) [OF assms(2,3)]] that [of "bufs w ! out"] assms(3)
    by (auto simp: emitted_def)
qed

lemma outs_emitted_step:
  assumes "outs_emitted P os blk w w'" and "world_ok P w" and "\<forall>i \<in> set os. i < length (bufs w)"
  shows "world_step P w w'"
proof (rule world_stepI)
  show "length (bufs w') = length (bufs w)" using assms(1) by (simp add: outs_emitted_def)
  show "buf_aligned P (bufs w' ! i) \<and> same_storage (bufs w' ! i) (bufs w ! i)" if "i < length (bufs w)" for i
    using assms(1) that buf_aligned_update(1) [OF world_okD(1) [OF assms(2) that]] world_okD(1) [OF assms(2) that]
    by (simp add: outs_emitted_def)
  show "smem w' a = smem w a" if a: "\<And>b. b \<in> set (bufs w) \<Longrightarrow> a \<notin> buf_range b" for a
  proof -
    have "a \<notin> write_slots P (bufs w ! (os ! i))" if i: "i < length os" for i
    proof -
      have o: "os ! i < length (bufs w)" using assms(3) i by simp
      then have "a \<notin> buf_range (bufs w ! (os ! i))" by (intro a) simp
      then show ?thesis using write_slots_range [OF world_okD(1) [OF assms(2) o]] by blast
    qed
    then show ?thesis using assms(1) by (simp add: outs_emitted_def)
  qed
qed

lemma write_update_step:
  assumes "world_ok P w" and "i < length (bufs w)"
  shows "world_step P w (buf_upd i (\<lambda>b. audio_buf_write_update b P) w)"
    and "world_step P w (buf_upd i (\<lambda>b. audio_buf_read_update b P) w)"
  using assms by (auto intro!: world_step_buf_upd buf_aligned_update world_okD(1))

text \<open>
  Resetting a buffer refills its configured silence, a whole number of periods that fits the storage.
\<close>

definition reset_ok :: "u32 \<Rightarrow> audio_buffer \<Rightarrow> bool" where
  "reset_ok P b \<longleftrightarrow> unat P dvd unat (silence b) \<and> unat (silence b) \<le> unat (bsize b)"

lemma same_storage_reset_ok: "same_storage b c \<Longrightarrow> reset_ok P b = reset_ok P c"
  by (simp add: same_storage_def reset_ok_def)

lemma buf_reset_step:
  fixes w :: "('s::zero, 'h) world"
  assumes ok: "world_ok P w" and i: "i < length (bufs w)" and r: "reset_ok P (bufs w ! i)"
  shows "world_step P w (on_buf i audio_buf_reset w)"
proof -
  let ?b = "bufs w ! i" and ?c = "(bufs w ! i)\<lparr>rd := 0, wr := 0\<rparr>"
  have al: "buf_aligned P ?b" by (rule world_okD(1) [OF ok i])
  have wf: "buf_wf ?c" using buf_wf_move [OF buf_alignedD(1) [OF al], of 0 0] buf_wf_bounds [OF buf_alignedD(1) [OF al]] by simp
  have fit: "unat (wr ?c) + unat (silence ?b) \<le> unat (bsize ?c)" using r by (simp add: reset_ok_def)
  have eq: "audio_buf_reset (smem w, ?b) = (fst (audio_buf_write_silence (smem w, ?c) (silence ?b)), audio_buf_write_update ?c (silence ?b))"
    by (simp add: audio_buf_reset_def Let_def prod_eq_iff)
  show ?thesis
  proof (rule world_step_on_buf [where f = audio_buf_reset, OF ok i eq])
    obtain k where k: "size_mask ?c = mask k" "k < 32" "unat (bsize ?c) = 2 ^ k"
      using wf by (metis buf_wfE)
    have "unat (wr (audio_buf_write_update ?c (silence ?b))) = unat (silence ?b) mod unat (bsize ?b)"
      using k by (simp add: audio_buf_write_update_def unat_and_mask)
    then show "buf_aligned P (audio_buf_write_update ?c (silence ?b))"
      using buf_wf_write_update [OF wf, of "silence ?b"] al r
      by (simp add: buf_aligned_def reset_ok_def dvd_mod)
    show "same_storage (audio_buf_write_update ?c (silence ?b)) ?b"
      by (simp add: same_storage_def audio_buf_write_update_def)
    show "fst (audio_buf_write_silence (smem w, ?c) (silence ?b)) a = smem w a" if "a \<notin> buf_range ?b" for a
      using that fit by (auto simp: audio_buf_write_silence_mem [OF wf fit] buf_range_def)
  qed
qed

lemma buf_reset_loop:
  fixes w :: "('s::zero, 'h) world"
  assumes ok: "world_ok P w" and os: "\<forall>i < n. os i < length (bufs w)" and r: "list_all (reset_ok P) (bufs w)"
  shows "world_step P w (for_upto n (\<lambda>i. on_buf (os i) audio_buf_reset) w)"
proof (rule world_step_loop [OF ok])
  fix i v assume i: "i < n" and v: "world_step P w v"
  note d = world_stepD [OF v]
  show "world_step P v (on_buf (os i) audio_buf_reset v)"
  proof (rule buf_reset_step [OF world_step_ok [OF v ok]])
    show "os i < length (bufs v)" using os i d(1) by simp
    show "reset_ok P (bufs v ! os i)"
      using same_storage_reset_ok [OF d(3)] os i r by (simp add: list_all_length)
  qed
qed

end
