(* ===== verification/Audio_Element_Frame.thy ===== *)
theory Audio_Element_Frame
  imports Audio_Elements Audio_Frame
begin

text \<open>
  Every element, once ready, only takes \<open>world_step\<close>s and stays ready: its run writes nothing outside the
  buffers of the pipeline, moves indices by whole periods and keeps its own tables. The laws are the
  interface \<open>processing\<close> the pipeline relies on, and its interpretation on \<open>audio_element_run\<close>.
\<close>

section \<open>The runs of the elements as steps\<close>

lemma sine_run_step:
  assumes ok: "world_ok (el_period el) w" and out: "sn_out s < length (bufs w)"
    and run: "sine_element_run F el s w = (rc, s', w')"
  shows "rc = 0" "sn_out s' = sn_out s" "world_step (el_period el) w w'"
proof -
  let ?x = "\<lambda>i. sine_sample F (sn_amplitude s) (sn_dphase s) (sn_phase s + of_nat i)"
  let ?body = "\<lambda>i (s, m). (s\<lparr>sn_phase := sn_phase s + 1\<rparr>, audio_buf_write_block m (bufs w ! sn_out s) (of_nat i)
      [sine_sample F (sn_amplitude s) (sn_dphase s) (sn_phase s)] 1)"
  have "for_upto n ?body (s, smem w) = (s\<lparr>sn_phase := sn_phase s + of_nat n\<rparr>,
      for_upto n (\<lambda>i m. audio_buf_write_block m (bufs w ! sn_out s) (of_nat i) [?x i] 1) (smem w))" for n
    by (induction n) (simp_all add: algebra_simps)
  then have "sine_element_run F el s w = (0, s\<lparr>sn_phase := sn_phase s + el_period el\<rparr>,
      buf_upd (sn_out s) (\<lambda>b. audio_buf_write_update b (el_period el))
        (w\<lparr>smem := for_upto (unat (el_period el))
          (\<lambda>i m. audio_buf_write_block m (bufs w ! sn_out s) (of_nat i) [?x i] 1) (smem w)\<rparr>))"
    by (simp add: sine_element_run_def Let_def)
  then show "rc = 0" "sn_out s' = sn_out s" "world_step (el_period el) w w'"
    using run emitted_step [OF emit_loop [OF ok out, of ?x] ok out] by auto
qed

lemma dtmf_run_step:
  assumes ok: "world_ok (el_period el) w" and out: "dt_out d < length (bufs w)"
    and run: "dtmf_element_run F el d w = (rc, d', w')"
  shows "rc = 0" "dt_out d' = dt_out d" "world_step (el_period el) w w'"
proof -
  obtain v where v: "dtmf_element_run F el d w =
      (0, if dt_phase d + el_period el \<ge> segment_duration d then next_segment F d
          else d\<lparr>dt_phase := dt_phase d + el_period el\<rparr>, v)"
    and e: "emitted (el_period el) (dt_out d)
      (map (\<lambda>i. segment_sample F d (unat (dt_phase d) + i)) [0..<unat (el_period el)]) w v"
    using dtmf_run_emits [OF ok out] by blast
  have "dt_out (next_segment F d) = dt_out d"
    by (simp add: next_segment_def dtmf_load_key_def case_prod_beta Let_def split: dtmf_state.split)
  then show "rc = 0" "dt_out d' = dt_out d" "world_step (el_period el) w w'"
    using run v emitted_step [OF e ok out] by (auto split: if_splits)
qed

lemma routing_run_step:
  assumes ready: "routing_ready (el_period el) r w" and run: "routing_element_run el r w = (rc, r', w')"
  shows "rc = 0" "r' = r" "world_step (el_period el) w w'"
proof -
  let ?P = "el_period el"
  define w1 where "w1 = for_upto (unat (rt_outputs r)) (routing_copy ?P r) w"
  have st: "routed ?P r w (unat (rt_outputs r)) w1" unfolding w1_def by (rule routed_loop [OF ready])
  have wf: "routing_wf (length (bufs w)) r" and ok: "world_ok ?P w" and d: "distinct (out_places r @ in_places r)"
    using ready by (simp_all add: routing_ready_def)
  note pl = routing_places [OF wf]
  have len: "length (bufs w1) = length (bufs w)" using st by (simp add: routed_def)
  define bs where "bs = map (\<lambda>j. if j \<in> set (in_places r) then audio_buf_read_update (bufs w1 ! j) ?P
    else bufs w1 ! j) [0..<length (bufs w)]"
  have eq: "routing_element_run el r w = (0, r, w1\<lparr>bufs := bs\<rparr>)"
    using ref_upd_loop [of w1 r "unat (rt_inputs r)" "\<lambda>b. audio_buf_read_update b ?P"] wf d pl(2) len
    by (simp add: routing_element_run_def Let_def w1_def [symmetric] bs_def)
  have "world_step ?P w (w1\<lparr>bufs := bs\<rparr>)"
  proof (rule world_stepI)
    show "length (bufs (w1\<lparr>bufs := bs\<rparr>)) = length (bufs w)" by (simp add: bs_def)
    show "buf_aligned ?P (bufs (w1\<lparr>bufs := bs\<rparr>) ! i) \<and> same_storage (bufs (w1\<lparr>bufs := bs\<rparr>) ! i) (bufs w ! i)"
      if "i < length (bufs w)" for i
      using that st d pl(1) buf_aligned_update [OF world_okD(1) [OF ok that]] world_okD(1) [OF ok that]
      by (auto simp: bs_def routed_def)
    show "smem (w1\<lparr>bufs := bs\<rparr>) a = smem w a" if a: "\<And>b. b \<in> set (bufs w) \<Longrightarrow> a \<notin> buf_range b" for a
    proof -
      have "a \<notin> write_slots ?P (bufs w ! (out_places r ! i))" if i: "i < unat (rt_outputs r)" for i
        using a [OF nth_mem [OF pl(5) [OF i]]] write_slots_range [OF world_okD(1) [OF ok pl(5) [OF i]]] by blast
      then show ?thesis using st by (simp add: routed_def)
    qed
  qed
  then show "rc = 0" "r' = r" "world_step ?P w w'" using run eq by auto
qed

section \<open>Serial audio\<close>

definition sai_kept :: "sai_element \<Rightarrow> sai_element \<Rightarrow> bool" where
  "sai_kept se t \<longleftrightarrow> se_map t = se_map se \<and> se_io t = se_io se \<and> se_base t = se_base se \<and>
     length (se_line t) = length (se_line se) \<and> list_all (\<lambda>l. hist_wf (sl_hist l)) (se_line t)"

lemma sai_kept_upd:
  "sai_kept se t \<Longrightarrow> hist_wf (sl_hist l) \<Longrightarrow> sai_kept se (t\<lparr>se_line := (se_line t)[i := l]\<rparr>)"
  by (cases "i < length (se_line t)")
    (auto simp: sai_kept_def list_all_iff dest!: subsetD [OF set_update_subset_insert])

lemma sai_check_line_kept:
  assumes "sai_kept se t" and "i < length (se_line se)"
  shows "case sai_source_check_line H h i t of Inl None \<Rightarrow> False | Inl (Some u) \<Rightarrow> sai_kept se u | Inr u \<Rightarrow> sai_kept se u"
    and "case sai_sink_check_line H h i t of Inl None \<Rightarrow> False | Inl (Some u) \<Rightarrow> sai_kept se u | Inr u \<Rightarrow> sai_kept se u"
proof -
  have "hist_wf (sl_hist (se_line t ! i))" using assms by (simp add: sai_kept_def list_all_length)
  note upd = hist_update_wf [OF this]
  show "case sai_source_check_line H h i t of Inl None \<Rightarrow> False | Inl (Some u) \<Rightarrow> sai_kept se u | Inr u \<Rightarrow> sai_kept se u"
    using upd [of "sai_rx_level H h (sl_base (se_line t ! i)) (sl_id (se_line t ! i)) - sl_min (se_line t ! i)"]
    by (auto simp: sai_source_check_line_def Let_def intro!: sai_kept_upd [OF assms(1)])
  show "case sai_sink_check_line H h i t of Inl None \<Rightarrow> False | Inl (Some u) \<Rightarrow> sai_kept se u | Inr u \<Rightarrow> sai_kept se u"
    using upd [of "sl_max (se_line t ! i) - sai_tx_level H h (sl_base (se_line t ! i)) (sl_id (se_line t ! i))"]
    by (auto simp: sai_sink_check_line_def Let_def intro!: sai_kept_upd [OF assms(1)])
qed

lemma sai_checks_kept:
  assumes kept: "sai_kept se se"
    and line: "\<And>i t. i < length (se_line se) \<Longrightarrow> sai_kept se t \<Longrightarrow>
      case check i t of Inl None \<Rightarrow> False | Inl (Some u) \<Rightarrow> sai_kept se u | Inr u \<Rightarrow> sai_kept se u"
  shows "case for_upto_err (length (se_line se)) check se of
    Inl None \<Rightarrow> False | Inl (Some u) \<Rightarrow> sai_kept se u | Inr u \<Rightarrow> sai_kept se u"
proof -
  have "n \<le> length (se_line se) \<Longrightarrow> case for_upto_err n check se of
    Inl None \<Rightarrow> False | Inl (Some u) \<Rightarrow> sai_kept se u | Inr u \<Rightarrow> sai_kept se u" for n
  proof (induction n)
    case (Suc n)
    then show ?case
    proof (cases "for_upto_err n check se")
      case (Inr u)
      then show ?thesis using Suc line [of n u] by simp
    qed simp
  qed (simp add: kept)
  then show ?thesis by simp
qed

text \<open>The lines after a run are those of the tables the run started with.\<close>

lemma sai_started_kept:
  "list_all (\<lambda>l. hist_wf (sl_hist l)) (se_line se) \<Longrightarrow> sai_kept se se"
  "list_all (\<lambda>l. hist_wf (sl_hist l)) (se_line se) \<Longrightarrow> sai_kept se (se\<lparr>se_started := b\<rparr>)"
  by (simp_all add: sai_kept_def)

lemma sai_source_run_step:
  fixes w :: "('s::zero, 'h) world"
  assumes ready: "sai_source_ready (el_period el) se w" and run: "sai_source_element_run F H el se w = r"
  shows "\<exists>rc t w'. r = Some (rc, t, w') \<and> sai_kept se t \<and> world_step (el_period el) w w'"
proof -
  let ?P = "el_period el" and ?os = "map so_buf (se_io se)"
  have ok: "world_ok ?P w" and d: "distinct ?os" and pl: "list_all (\<lambda>i. i < length (bufs w)) ?os"
    and os: "map_places (se_map se) = ?os" and wf: "list_all (\<lambda>l. hist_wf (sl_hist l)) (se_line se)"
    using ready by (simp_all add: sai_source_ready_def)
  note kept = sai_started_kept [OF wf]
  show ?thesis
  proof (cases "se_started se")
    case False
    have "world_step ?P w (for_upto (length (se_io se))
        (\<lambda>i. on_buf (so_buf (se_io se ! i)) (\<lambda>s. audio_buf_write_silence s ?P)) w)"
    proof (rule world_step_loop [OF ok])
      fix i v assume i: "i < length (se_io se)" and v: "world_step ?P w v"
      have "so_buf (se_io se ! i) < length (bufs v)"
        using pl i world_stepD(1) [OF v] by (simp add: list_all_length)
      then show "world_step ?P v (on_buf (so_buf (se_io se ! i)) (\<lambda>s. audio_buf_write_silence s ?P) v)"
        using emitted_step [OF emit_silence] world_step_ok [OF v ok] by blast
    qed
    then show ?thesis
      using False run kept(2) by (auto simp: sai_source_element_run_def Let_def intro: world_step_hw_loop)
  next
    case True
    have chk: "case sai_source_check_lines H (hws w) se of Inl None \<Rightarrow> False | Inl (Some u) \<Rightarrow> sai_kept se u | Inr u \<Rightarrow> sai_kept se u"
      unfolding sai_source_check_lines_def by (rule sai_checks_kept [OF kept(1)]) (rule sai_check_line_kept(1))
    show ?thesis
    proof (cases "sai_source_check_lines H (hws w) se")
      case (Inl e)
      then show ?thesis using chk True run world_step_refl [OF ok] by (auto simp: sai_source_element_run_def split: option.splits)
    next
      case (Inr t)
      then have t: "sai_kept se t" using chk by simp
      obtain m h where fill: "sai_fill H ?P (se_map se) (bufs w) (smem w, hws w) = (m, h)" by force
      have pl': "\<forall>i \<in> set (map_places (se_map se)). i < length (bufs w)" using pl os by (simp add: list_all_iff)
      let ?w = "w\<lparr>smem := m, hws := h\<rparr>"
      have "outs_emitted ?P ?os (\<lambda>i. map (sai_received F (se_io se ! i)) (write_block ?P (smem ?w) (bufs ?w ! (?os ! i)))) ?w
          (for_upto (length (se_io se)) (sai_source_convert F ?P (se_io se)) ?w)"
        by (rule source_convert_loop) (use ok d pl in simp_all)
      then have s2: "world_step ?P ?w (for_upto (length (se_io se)) (sai_source_convert F ?P (se_io se)) ?w)"
        by (rule outs_emitted_step) (use ok pl in \<open>simp_all add: list_all_iff\<close>)
      have "m a = smem w a" if a: "\<And>b. b \<in> set (bufs w) \<Longrightarrow> a \<notin> buf_range b" for a
      proof (rule sai_fill_spec(3) [OF ok _ pl' fill])
        fix i assume "i < length (se_map se)"
        then have i: "map_places (se_map se) ! i < length (bufs w)" using pl' by simp
        show "a \<notin> write_slots ?P (bufs w ! (map_places (se_map se) ! i))"
          using a [OF nth_mem [OF i]] write_slots_range [OF world_okD(1) [OF ok i]] by blast
      qed (use d os in simp)
      then have "world_step ?P w ?w" using world_step_refl [OF ok] by (simp add: world_step_def)
      from world_step_trans [OF this s2] show ?thesis
        using True run Inr t fill by (auto simp: sai_source_element_run_def sai_kept_def)
    qed
  qed
qed

lemma sai_sink_write_step:
  assumes ready: "sai_sink_ready P se w"
  shows "world_step P w (sai_sink_element_fifo_write F H P se w)"
proof (rule world_stepI)
  let ?v = "sai_sink_element_fifo_write F H P se w"
  have ok: "world_ok P w" and pl: "\<forall>i \<in> set (map_places (se_map se)). i < length (bufs w)"
    using ready by (simp_all add: sai_sink_ready_def list_all_iff)
  note s = sink_fifo_write_spec(1) [OF ready, of F H]
  show "length (bufs ?v) = length (bufs w)" using s by (simp add: period_sent_def)
  show "buf_aligned P (bufs ?v ! i) \<and> same_storage (bufs ?v ! i) (bufs w ! i)" if "i < length (bufs w)" for i
    using s that buf_aligned_update(2) [OF world_okD(1) [OF ok that]] world_okD(1) [OF ok that]
    by (simp add: period_sent_def)
  show "smem ?v a = smem w a" if a: "\<And>b. b \<in> set (bufs w) \<Longrightarrow> a \<notin> buf_range b" for a
  proof -
    have "a \<notin> read_slots P (bufs w ! (map_places (se_map se) ! j))" if "j < length (se_map se)" for j
    proof -
      have j: "map_places (se_map se) ! j < length (bufs w)" using pl that by simp
      show ?thesis using a [OF nth_mem [OF j]] read_slots_range [OF world_okD(1) [OF ok j]] by blast
    qed
    then show ?thesis using s by (simp add: period_sent_def)
  qed
qed

lemma push_silence_step:
  fixes w :: "('s::zero, 'h) world"
  assumes ready: "sai_sink_ready P se w"
  shows "world_step P w (sai_sink_push_silence P (se_io se) w)"
proof (rule world_stepI)
  let ?v = "sai_sink_push_silence P (se_io se) w"
  have ok: "world_ok P w" and d: "distinct (map so_buf (se_io se))"
    and pl: "\<forall>i \<in> set (map so_buf (se_io se)). i < length (bufs w)"
    using ready by (simp_all add: sai_sink_ready_def list_all_iff)
  note s = push_silence_spec [OF ok d pl]
  show "length (bufs ?v) = length (bufs w)" using s by (simp add: silence_pushed_def)
  show "buf_aligned P (bufs ?v ! i) \<and> same_storage (bufs ?v ! i) (bufs w ! i)" if "i < length (bufs w)" for i
    using s that buf_aligned_retreat [OF world_okD(1) [OF ok that]] world_okD(1) [OF ok that]
    by (simp add: silence_pushed_def same_storage_def buf_retreat_def)
  show "smem ?v a = smem w a" if a: "\<And>b. b \<in> set (bufs w) \<Longrightarrow> a \<notin> buf_range b" for a
  proof -
    have "a \<notin> read_slots P (buf_retreat (bufs w ! (map so_buf (se_io se) ! j)) P)" if "j < length (map so_buf (se_io se))" for j
    proof -
      have j: "map so_buf (se_io se) ! j < length (bufs w)" using pl nth_mem [OF that] by blast
      show ?thesis
        using a [OF nth_mem [OF j]] read_slots_range [OF buf_aligned_retreat [OF world_okD(1) [OF ok j]]]
          buf_retreat_range by blast
    qed
    then show ?thesis using s by (simp add: silence_pushed_def)
  qed
qed

lemma sai_sink_ready_step:
  "sai_sink_ready P se w \<Longrightarrow> world_step P w w' \<Longrightarrow> sai_kept se t \<Longrightarrow> sai_sink_ready P t w'"
  "sai_source_ready P se w \<Longrightarrow> world_step P w w' \<Longrightarrow> sai_kept se t \<Longrightarrow> sai_source_ready P t w'"
  by (auto simp: sai_sink_ready_def sai_source_ready_def sai_kept_def world_stepD(1) intro: world_step_ok)

lemma sai_sink_run_step:
  fixes w :: "('s::zero, 'h) world"
  assumes ready: "sai_sink_ready (el_period el) se w" and run: "sai_sink_element_run F H el se w = r"
  shows "\<exists>rc t w'. r = Some (rc, t, w') \<and> sai_kept se t \<and> world_step (el_period el) w w'"
proof -
  let ?P = "el_period el"
  have ok: "world_ok ?P w" and wf: "list_all (\<lambda>l. hist_wf (sl_hist l)) (se_line se)"
    using ready by (simp_all add: sai_sink_ready_def)
  note kept = sai_started_kept [OF wf]
  show ?thesis
  proof (cases "se_started se")
    case False
    let ?w1 = "sai_sink_push_silence ?P (se_io se) w"
    let ?w2 = "sai_sink_element_fifo_write F H ?P se ?w1"
    let ?w3 = "sai_sink_element_fifo_write F H ?P se ?w2"
    have s1: "world_step ?P w ?w1" by (rule push_silence_step [OF ready])
    have r1: "sai_sink_ready ?P se ?w1" by (rule sai_sink_ready_step(1) [OF ready s1 kept(1)])
    have s2: "world_step ?P ?w1 ?w2" by (rule sai_sink_write_step [OF r1])
    have r2: "sai_sink_ready ?P se ?w2" by (rule sai_sink_ready_step(1) [OF r1 s2 kept(1)])
    have "world_step ?P w ?w3"
      by (rule world_step_trans [OF s1 world_step_trans [OF s2 sai_sink_write_step [OF r2]]])
    then show ?thesis
      using False run kept(2) by (auto simp: sai_sink_element_run_def Let_def intro: world_step_hw_loop)
  next
    case True
    have chk: "case for_upto_err (length (se_line se)) (sai_sink_check_line H (hws w)) se of
        Inl None \<Rightarrow> False | Inl (Some u) \<Rightarrow> sai_kept se u | Inr u \<Rightarrow> sai_kept se u"
      by (rule sai_checks_kept [OF kept(1)]) (rule sai_check_line_kept(2))
    show ?thesis
    proof (cases "for_upto_err (length (se_line se)) (sai_sink_check_line H (hws w)) se")
      case (Inl e)
      then show ?thesis using chk True run world_step_refl [OF ok] by (auto simp: sai_sink_element_run_def split: option.splits)
    next
      case (Inr t)
      then have t: "sai_kept se t" using chk by simp
      have "sai_sink_ready ?P t w" by (rule sai_sink_ready_step(1) [OF ready world_step_refl [OF ok] t])
      then have "world_step ?P w (sai_sink_element_fifo_write F H ?P t w)" by (rule sai_sink_write_step)
      then show ?thesis using True run Inr t by (auto simp: sai_sink_element_run_def)
    qed
  qed
qed

section \<open>Readiness of an element\<close>

definition element_ready :: "u32 \<Rightarrow> 's element \<Rightarrow> ('s::zero, 'h) world \<Rightarrow> bool" where
  "element_ready P element w \<longleftrightarrow> el_period (fst element) = P \<and>
     (case snd element of
        Blank_data \<Rightarrow> False
      | Dtmf_data d \<Rightarrow> dt_out d < length (bufs w)
      | Pll_data p \<Rightarrow> True
      | Routing_data r \<Rightarrow> routing_ready P r w
      | Sai_sink_data se \<Rightarrow> sai_sink_ready P se w
      | Sai_source_data se \<Rightarrow> sai_source_ready P se w
      | Sine_data s \<Rightarrow> sn_out s < length (bufs w))"

lemma routing_ready_step:
  fixes w :: "('s::zero, 'h) world"
  assumes ready: "routing_ready P r w" and step: "world_step P w w'"
  shows "routing_ready P r w'"
proof -
  have ok: "world_ok P w" and sil: "buf_aligned P (rt_silence r)" "list_all (buf_apart (rt_silence r)) (bufs w)"
    and blk: "read_block P (smem w) (rt_silence r) = replicate (unat P) AUDIO_SAMPLE_SILENCE"
    using ready by (simp_all add: routing_ready_def)
  note d = world_stepD [OF step]
  have "read_block P (smem w') (rt_silence r) = read_block P (smem w) (rt_silence r)"
  proof (rule read_block_frame [OF sil(1)])
    fix a assume a: "a \<in> buf_range (rt_silence r)"
    show "smem w' a = smem w a"
      using sil(2) buf_apart_ranges [OF _ a] by (intro d(4)) (auto simp: list_all_iff)
  qed
  moreover have "buf_apart (rt_silence r) (bufs w' ! i)" if "i < length (bufs w)" for i
    using d(3) [OF that] sil(2) that by (simp add: buf_apart_def same_storage_def list_all_length)
  then have "list_all (buf_apart (rt_silence r)) (bufs w')" using d(1) by (simp add: list_all_length)
  moreover have "routing_wf (length (bufs w')) r" using ready d(1) by (simp add: routing_ready_def)
  ultimately show ?thesis
    using ready blk world_step_ok [OF step ok] unfolding routing_ready_def by metis
qed

lemma element_ready_step:
  fixes w :: "('s::zero, 'h) world"
  assumes ready: "element_ready P e w" and ok: "world_ok P w" and step: "world_step P w w'"
  shows "element_ready P e w'"
proof -
  have sai: "sai_kept se se" if "sai_sink_ready P se w \<or> sai_source_ready P se w" for se
    using that by (auto simp: sai_sink_ready_def sai_source_ready_def intro: sai_started_kept(1))
  show ?thesis
    using ready world_stepD(1) [OF step] routing_ready_step [OF _ step] sai_sink_ready_step [OF _ step] sai
    by (auto simp: element_ready_def split: element_data.splits)
qed

lemma element_run_step:
  fixes w :: "('s::zero, 'h) world"
  assumes ready: "element_ready P e w" and ok: "world_ok P w" and run: "audio_element_run E e w = Some (rc, e', w')"
  shows "world_step P w w' \<and> element_ready P e' w'"
proof -
  obtain el data where e: "e = (el, data)" by force
  have P: "el_period el = P" using ready by (simp add: element_ready_def e)
  have "\<exists>data'. e' = (el, data') \<and> world_step P w w' \<and> element_ready P (el, data') w'"
  proof (cases data)
    case Blank_data
    then show ?thesis using ready by (simp add: element_ready_def e)
  next
    case (Dtmf_data d)
    obtain rc' d' v where r: "dtmf_element_run (env_fp E) el d w = (rc', d', v)" by (metis prod_cases3)
    have "dt_out d < length (bufs w)" using ready by (simp add: element_ready_def e Dtmf_data)
    note s = dtmf_run_step [OF _ this r, unfolded P, OF ok]
    show ?thesis
      using run r s ready world_stepD(1) [OF s(3)] by (auto simp: audio_element_run_def e Dtmf_data element_ready_def)
  next
    case (Pll_data p)
    then show ?thesis
      using run P world_step_hws [OF world_step_refl [OF ok]]
      by (auto simp: audio_element_run_def e element_ready_def)
  next
    case (Routing_data r)
    obtain rc' r' v where run': "routing_element_run el r w = (rc', r', v)" by (metis prod_cases3)
    have rr: "routing_ready (el_period el) r w" using ready P by (simp add: element_ready_def e Routing_data)
    note s = routing_run_step [OF rr run']
    have "routing_ready P r v" by (rule routing_ready_step) (use rr s P in simp_all)
    then show ?thesis using run run' s P by (auto simp: audio_element_run_def e Routing_data element_ready_def)
  next
    case (Sai_sink_data se)
    have rr: "sai_sink_ready (el_period el) se w" using ready P by (simp add: element_ready_def e Sai_sink_data)
    obtain rc' t v where s: "sai_sink_element_run (env_fmt E) (env_hw E) el se w = Some (rc', t, v)"
      "sai_kept se t" "world_step (el_period el) w v"
      using sai_sink_run_step [OF rr refl] by blast
    then show ?thesis
      using run P sai_sink_ready_step(1) [OF rr s(3,2)] by (auto simp: audio_element_run_def e Sai_sink_data element_ready_def)
  next
    case (Sai_source_data se)
    have rr: "sai_source_ready (el_period el) se w" using ready P by (simp add: element_ready_def e Sai_source_data)
    obtain rc' t v where s: "sai_source_element_run (env_fmt E) (env_hw E) el se w = Some (rc', t, v)"
      "sai_kept se t" "world_step (el_period el) w v"
      using sai_source_run_step [OF rr refl] by blast
    then show ?thesis
      using run P sai_sink_ready_step(2) [OF rr s(3,2)] by (auto simp: audio_element_run_def e Sai_source_data element_ready_def)
  next
    case (Sine_data s)
    obtain rc' s' v where r: "sine_element_run (env_fp E) el s w = (rc', s', v)" by (metis prod_cases3)
    have "sn_out s < length (bufs w)" using ready by (simp add: element_ready_def e Sine_data)
    note st = sine_run_step [OF _ this r, unfolded P, OF ok]
    show ?thesis
      using run r st ready world_stepD(1) [OF st(3)] by (auto simp: audio_element_run_def e Sine_data element_ready_def)
  qed
  then show ?thesis by blast
qed

text \<open>An enabled PLL can trap, when its source clock stands still; no other element does.\<close>

definition element_total :: "'s element \<Rightarrow> bool" where
  "element_total element = (case snd element of Blank_data \<Rightarrow> False | Pll_data p \<Rightarrow> \<not> pl_enabled p | _ \<Rightarrow> True)"

lemma element_run_total:
  fixes w :: "('s::zero, 'h) world"
  assumes ready: "element_ready P e w" and total: "element_total e"
  shows "\<exists>rc e' w'. audio_element_run E e w = Some (rc, e', w') \<and> element_total e'"
proof -
  obtain el data where e: "e = (el, data)" by force
  have P: "el_period el = P" using ready by (simp add: element_ready_def e)
  show ?thesis
  proof (cases data)
    case (Sai_sink_data se)
    then have "sai_sink_ready (el_period el) se w" using ready P by (simp add: element_ready_def e)
    from sai_sink_run_step [OF this refl, of "env_fmt E" "env_hw E"] show ?thesis
      by (auto simp: audio_element_run_def e Sai_sink_data element_total_def)
  next
    case (Sai_source_data se)
    then have "sai_source_ready (el_period el) se w" using ready P by (simp add: element_ready_def e)
    from sai_source_run_step [OF this refl, of "env_fmt E" "env_hw E"] show ?thesis
      by (auto simp: audio_element_run_def e Sai_source_data element_total_def)
  qed (use total in \<open>auto simp: e element_total_def audio_element_run_def pll_element_run_def split: prod.splits\<close>)
qed

section \<open>Reset\<close>

definition world_resettable :: "u32 \<Rightarrow> ('s, 'h) world \<Rightarrow> bool" where
  "world_resettable P w \<longleftrightarrow> world_ok P w \<and> list_all (reset_ok P) (bufs w)"

lemma world_step_resettable:
  assumes "world_step P w w'" and "world_resettable P w"
  shows "world_resettable P w'"
  using world_step_ok [OF assms(1)] world_stepD(1) [OF assms(1)] same_storage_reset_ok [OF world_stepD(3) [OF assms(1)]] assms(2)
  by (auto simp: world_resettable_def list_all_length)

lemma element_reset_step:
  fixes w :: "('s::zero, 'h) world"
  assumes ready: "element_ready P e w" and ok: "world_resettable P w"
  shows "\<exists>e' w'. audio_element_reset E e w = Some (e', w') \<and> world_step P w w' \<and> element_ready P e' w'"
proof -
  obtain el data where e: "e = (el, data)" by force
  have wok: "world_ok P w" and r: "list_all (reset_ok P) (bufs w)" using ok by (simp_all add: world_resettable_def)
  have one: "world_step P w (on_buf i audio_buf_reset w)" if "i < length (bufs w)" for i
    by (rule buf_reset_step [OF wok that]) (use r that in \<open>simp add: list_all_length\<close>)
  note keep = element_ready_step [OF ready wok]
  show ?thesis
  proof (cases data)
    case Blank_data
    then show ?thesis using ready by (simp add: e element_ready_def)
  next
    case (Dtmf_data d)
    then have "dt_out d < length (bufs w)" using ready by (simp add: e element_ready_def)
    from one [OF this] keep show ?thesis by (auto simp: audio_element_reset_def e Dtmf_data dtmf_element_reset_def)
  next
    case (Pll_data p)
    then show ?thesis
      using ready world_step_refl [OF wok] by (simp add: audio_element_reset_def e element_ready_def)
  next
    case (Routing_data q)
    then have "routing_wf (length (bufs w)) q" using ready by (simp add: e element_ready_def routing_ready_def)
    then have "\<forall>i < unat (rt_outputs q). ro_buf (rt_out q ! i) < length (bufs w)"
      using routing_places(3,5) by metis
    from buf_reset_loop [OF wok this r] keep show ?thesis
      by (auto simp: audio_element_reset_def e Routing_data routing_element_reset_def)
  next
    case (Sai_sink_data se)
    then have rr: "sai_sink_ready P se w" using ready by (simp add: e element_ready_def)
    have k: "sai_kept se (se\<lparr>se_started := False\<rparr>)"
      using rr by (intro sai_started_kept) (simp add: sai_sink_ready_def)
    let ?w = "for_upto (length (se_base se)) (\<lambda>i w. w\<lparr>hws := hw_disable_tx (env_hw E) (se_base se ! i) (hws w)\<rparr>) w"
    have s1: "world_step P w ?w" by (rule world_step_hw_loop [OF world_step_refl [OF wok]])
    show ?thesis
      using s1 sai_sink_ready_step(1) [OF rr s1 k] ready
      by (auto simp: audio_element_reset_def e Sai_sink_data sai_sink_element_reset_def element_ready_def Let_def)
  next
    case (Sai_source_data se)
    then have rr: "sai_source_ready P se w" using ready by (simp add: e element_ready_def)
    have k: "sai_kept se (se\<lparr>se_started := False\<rparr>)"
      using rr by (intro sai_started_kept) (simp add: sai_source_ready_def)
    let ?w = "for_upto (length (se_base se)) (\<lambda>i w. w\<lparr>hws := hw_disable_rx (env_hw E) (se_base se ! i) (hws w)\<rparr>) w"
    have s1: "world_step P w ?w" by (rule world_step_hw_loop [OF world_step_refl [OF wok]])
    have "list_all (\<lambda>i. i < length (bufs w)) (map so_buf (se_io se))" using rr by (simp add: sai_source_ready_def)
    then have os: "\<forall>i < length (se_io se). so_buf (se_io se ! i) < length (bufs ?w)"
      using world_stepD(1) [OF s1] by (simp add: list_all_length)
    have "world_step P ?w (for_upto (length (se_io se)) (\<lambda>i. on_buf (so_buf (se_io se ! i)) audio_buf_reset) ?w)"
      by (rule buf_reset_loop [OF world_step_ok [OF s1 wok] os])
        (use world_step_resettable [OF s1 ok] in \<open>simp add: world_resettable_def\<close>)
    note s2 = world_step_trans [OF s1 this]
    show ?thesis
      using s2 sai_sink_ready_step(2) [OF rr s2 k] ready
      by (auto simp: audio_element_reset_def e Sai_source_data sai_source_element_reset_def element_ready_def Let_def)
  next
    case (Sine_data s)
    then have "sn_out s < length (bufs w)" using ready by (simp add: e element_ready_def)
    from one [OF this] keep show ?thesis by (auto simp: audio_element_reset_def e Sine_data sine_element_reset_def)
  qed
qed

section \<open>The interface of processing elements\<close>

text \<open>
  What the pipeline relies on: a run of a ready element is a step of the world, after which the element is
  ready again, and steps of others do not disturb it. Elements that are \<open>total\<close> never trap.
\<close>

primrec run_elements ::
  "('e \<Rightarrow> 'w \<Rightarrow> (int \<times> 'e \<times> 'w) option) \<Rightarrow> 'e list \<Rightarrow> 'w \<Rightarrow> (int \<times> 'e list \<times> 'w) option" where
  "run_elements run [] w = Some (0, [], w)"
| "run_elements run (e # es) w =
     (case run e w of
        None \<Rightarrow> None
      | Some (rc, e, w) \<Rightarrow>
          if rc \<noteq> 0 then Some (- 1, e # es, w)
          else (case run_elements run es w of
                  None \<Rightarrow> None
                | Some (rc, es, w) \<Rightarrow> Some (rc, e # es, w)))"

locale processing =
  fixes run :: "'e \<Rightarrow> 'w \<Rightarrow> (int \<times> 'e \<times> 'w) option"
    and ready :: "'e \<Rightarrow> 'w \<Rightarrow> bool" and total :: "'e \<Rightarrow> bool"
    and ok :: "'w \<Rightarrow> bool" and step :: "'w \<Rightarrow> 'w \<Rightarrow> bool"
  assumes step_refl: "ok w \<Longrightarrow> step w w"
    and step_trans: "step u v \<Longrightarrow> step v w \<Longrightarrow> step u w"
    and step_ok: "step u v \<Longrightarrow> ok u \<Longrightarrow> ok v"
    and step_ready: "ready e u \<Longrightarrow> ok u \<Longrightarrow> step u v \<Longrightarrow> ready e v"
    and run_step: "ready e u \<Longrightarrow> ok u \<Longrightarrow> run e u = Some (rc, e', v) \<Longrightarrow> step u v \<and> ready e' v"
    and run_total: "ready e u \<Longrightarrow> ok u \<Longrightarrow> total e \<Longrightarrow> \<exists>rc e' v. run e u = Some (rc, e', v) \<and> total e'"
begin

lemma all_step_ready:
  "\<forall>e \<in> set es. ready e u \<Longrightarrow> ok u \<Longrightarrow> step u v \<Longrightarrow> \<forall>e \<in> set es. ready e v"
  using step_ready by blast

lemma run_elements_step:
  "\<forall>e \<in> set es. ready e u \<Longrightarrow> ok u \<Longrightarrow> run_elements run es u = Some (rc, es', v) \<Longrightarrow>
     step u v \<and> (\<forall>e \<in> set es'. ready e v) \<and> length es' = length es"
proof (induction es arbitrary: u rc es' v)
  case Nil
  then show ?case using step_refl by simp
next
  case (Cons e es)
  obtain rc1 e1 w where r: "run e u = Some (rc1, e1, w)" using Cons.prems(3) by (auto split: option.splits)
  have s: "step u w" "ready e1 w" using run_step [OF _ Cons.prems(2) r] Cons.prems(1) by simp_all
  have "\<forall>e \<in> set es. ready e u" using Cons.prems(1) by simp
  then have rest: "\<forall>e \<in> set es. ready e w" by (rule all_step_ready [OF _ Cons.prems(2) s(1)])
  show ?case
  proof (cases "rc1 = 0")
    case False
    then show ?thesis using Cons.prems(3) r s rest by auto
  next
    case True
    then obtain es1 where es1: "run_elements run es w = Some (rc, es1, v)" "es' = e1 # es1"
      using Cons.prems(3) r by (auto split: option.splits)
    have h: "step w v" "\<forall>e \<in> set es1. ready e v" "length es1 = length es"
      using Cons.IH [OF rest step_ok [OF s(1) Cons.prems(2)] es1(1)] by simp_all
    have "ready e1 v" by (rule step_ready [OF s(2) step_ok [OF s(1) Cons.prems(2)] h(1)])
    then show ?thesis using h step_trans [OF s(1) h(1)] es1(2) by simp
  qed
qed

lemma run_elements_total:
  "\<forall>e \<in> set es. ready e u \<and> total e \<Longrightarrow> ok u \<Longrightarrow>
     \<exists>rc es' v. run_elements run es u = Some (rc, es', v) \<and> (\<forall>e \<in> set es'. total e)"
proof (induction es arbitrary: u)
  case (Cons e es)
  obtain rc e1 w where r: "run e u = Some (rc, e1, w)" "total e1"
    using run_total [of e u] Cons.prems by auto
  have s: "step u w" using run_step [OF _ Cons.prems(2) r(1)] Cons.prems(1) by simp
  have "\<forall>e \<in> set es. ready e w" by (rule all_step_ready [OF _ Cons.prems(2) s]) (use Cons.prems(1) in simp)
  then have "\<forall>e \<in> set es. ready e w \<and> total e" using Cons.prems(1) by simp
  then obtain rc' es' v where "run_elements run es w = Some (rc', es', v)" "\<forall>e \<in> set es'. total e"
    using Cons.IH step_ok [OF s Cons.prems(2)] by blast
  then show ?case using r Cons.prems(1) by auto
qed simp

lemma lift:
  "processing (run_elements run) (\<lambda>es w. \<forall>e \<in> set es. ready e w) (\<lambda>es. \<forall>e \<in> set es. total e) ok step"
proof (unfold_locales, goal_cases)
  case (4 es u v)
  then show ?case using all_step_ready by blast
next
  case (5 es u rc es' v)
  then show ?case using run_elements_step by blast
next
  case (6 es u)
  then show ?case using run_elements_total [of es u] by blast
qed (fact step_refl step_trans step_ok)+

end

interpretation el: processing "audio_element_run E" "element_ready P" element_total "world_ok P" "world_step P"
  for E :: "('s::zero, 'h) audio_env" and P
proof (unfold_locales, goal_cases)
  case (5 e u rc e' v)
  then show ?case by (rule element_run_step)
next
  case (6 e u)
  then show ?case using element_run_total [OF 6(1,3)] by blast
qed (fact world_step_refl world_step_trans world_step_ok element_ready_step)+

text \<open>A reset has no return code; it is a run that succeeds.\<close>

definition reset_run ::
  "('s::zero, 'h) audio_env \<Rightarrow> 's element \<Rightarrow> ('s, 'h) world \<Rightarrow> (int \<times> 's element \<times> ('s, 'h) world) option" where
  "reset_run E e w = map_option (\<lambda>(e, w). (0, e, w)) (audio_element_reset E e w)"

interpretation rs: processing "reset_run E" "element_ready P" "\<lambda>_. True" "world_resettable P" "world_step P"
  for E :: "('s::zero, 'h) audio_env" and P
proof (unfold_locales, goal_cases)
  case (1 w)
  then show ?case by (simp add: world_resettable_def world_step_refl)
next
  case (2 u v w)
  then show ?case by (rule world_step_trans)
next
  case (3 u v)
  then show ?case by (rule world_step_resettable)
next
  case (4 e u v)
  then show ?case by (auto simp: world_resettable_def intro: element_ready_step)
next
  case (5 e u rc e' v)
  then show ?case using element_reset_step [of P e u E] by (auto simp: reset_run_def)
next
  case (6 e u)
  then show ?case using element_reset_step [of P e u E] by (auto simp: reset_run_def)
qed

interpretation st: processing "run_elements (audio_element_run E)" "\<lambda>es w. \<forall>e \<in> set es. element_ready P e w"
    "\<lambda>es. \<forall>e \<in> set es. element_total e" "world_ok P" "world_step P"
  for E :: "('s::zero, 'h) audio_env" and P
  by (rule el.lift)

interpretation sr: processing "run_elements (reset_run E)" "\<lambda>es w. \<forall>e \<in> set es. element_ready P e w"
    "\<lambda>es. \<forall>e \<in> set es. True" "world_resettable P" "world_step P"
  for E :: "('s::zero, 'h) audio_env" and P
  by (rule rs.lift)

end
