(* ===== verification/Audio_Pipeline.thy ===== *)
theory Audio_Pipeline
  imports Audio_Pipeline_Config Audio_Element_Frame
begin

text \<open>
  Audio pipelines, the operations of \<open>audio/audio_pipeline.c\<close>: the table of pipelines, control commands,
  creation in one block of memory, initialisation of the elements, run, reset and exit.
\<close>

section \<open>Pipelines\<close>

text \<open>
  \<open>struct audio_pipeline\<close> with its stages, elements and buffers, which the code lays out behind it in one
  allocation at \<open>pp_addr\<close>; \<open>pp_data\<close> holds the addresses of the elements' data.
\<close>

record 's audio_pipeline =
  pp_addr :: nat
  pp_stages :: "'s element list list"
  pp_data :: "nat list list"
  pp_buffers :: "audio_buffer list"

text \<open>The sample memory, the hardware and \<open>pipeline_table\<close>.\<close>

record ('s, 'h) audio_sys =
  sys_mem :: "'s mem"
  sys_hw :: 'h
  sys_table :: "'s audio_pipeline option list"

section \<open>The table of pipelines\<close>

definition audio_pipeline_table_add ::
  "'s audio_pipeline option list \<Rightarrow> 's audio_pipeline \<Rightarrow> 's audio_pipeline option list option" where
  "audio_pipeline_table_add table pipeline =
     (case List.find (\<lambda>i. table ! i = None) [0..<AUDIO_PIPELINE_MAX_PIPELINES] of
        None \<Rightarrow> None
      | Some i \<Rightarrow> Some (table[i := Some pipeline]))"

definition audio_pipeline_table_del ::
  "'s audio_pipeline option list \<Rightarrow> nat \<Rightarrow> 's audio_pipeline option list" where
  "audio_pipeline_table_del table addr =
     map (\<lambda>e. case e of None \<Rightarrow> None | Some p \<Rightarrow> if pp_addr p = addr then None else Some p) table"

definition audio_pipeline_table_find ::
  "'s audio_pipeline option list \<Rightarrow> u32 \<Rightarrow> 's audio_pipeline option" where
  "audio_pipeline_table_find table pid =
     (if unat pid \<ge> AUDIO_PIPELINE_MAX_PIPELINES then None else table ! unat pid)"

text \<open>The element number \<open>id\<close> of its type, in the order of stages and elements, as its place.\<close>

fun nth_of_type :: "u32 \<Rightarrow> u32 \<Rightarrow> (nat \<times> nat \<times> 's element) list \<Rightarrow> (nat \<times> nat) option" where
  "nth_of_type type n [] = None"
| "nth_of_type type n ((i, j, el, _) # es) =
     (if el_type el = type then if n = 0 then Some (i, j) else nth_of_type type (n - 1) es
      else nth_of_type type n es)"

definition element_places :: "'s element list list \<Rightarrow> (nat \<times> nat \<times> 's element) list" where
  "element_places stages =
     concat (map (\<lambda>i. map (\<lambda>j. (i, j, stages ! i ! j)) [0..<length (stages ! i)]) [0..<length stages])"

definition audio_pipeline_element_find :: "'s audio_pipeline \<Rightarrow> u32 \<Rightarrow> u32 \<Rightarrow> (nat \<times> nat) option" where
  "audio_pipeline_element_find pipeline type eid = nth_of_type type eid (element_places (pp_stages pipeline))"

text \<open>The search for a shared buffer ends at the first free entry of the table.\<close>

fun audio_pipeline_shared_buffer_find :: "'s audio_pipeline option list \<Rightarrow> u32 \<Rightarrow> audio_buffer option" where
  "audio_pipeline_shared_buffer_find [] sid = None"
| "audio_pipeline_shared_buffer_find (None # _) sid = None"
| "audio_pipeline_shared_buffer_find (Some p # ps) sid =
     (case List.find (\<lambda>b. flags b AND AUDIO_BUFFER_FLAG_SHARED \<noteq> 0 \<and> shared_id b = sid) (pp_buffers p) of
        Some b \<Rightarrow> Some b
      | None \<Rightarrow> audio_pipeline_shared_buffer_find ps sid)"

section \<open>Control\<close>

definition audio_pipeline_response :: "bool \<Rightarrow> u32 \<Rightarrow> response list" where
  "audio_pipeline_response ctrl_handle status =
     (if ctrl_handle then [(AUDIO_RESP_TYPE_PIPELINE, status)] else [])"

definition set_element :: "nat \<Rightarrow> nat \<Rightarrow> 's element \<Rightarrow> 's audio_pipeline \<Rightarrow> 's audio_pipeline" where
  "set_element i j e p = p\<lparr>pp_stages := (pp_stages p)[i := (pp_stages p ! i)[j := e]]\<rparr>"

definition audio_pipeline_ctrl ::
  "cmd \<Rightarrow> u32 \<Rightarrow> bool \<Rightarrow> ('s, 'h) audio_sys \<Rightarrow> int \<times> response list \<times> ('s, 'h) audio_sys" where
  "audio_pipeline_ctrl cmd len ctrl_handle s =
     (let pid = cmd_pipeline_id cmd;
          pipeline = (if len \<ge> 8 then audio_pipeline_table_find (sys_table s) pid else None)
      in if cmd_type cmd = AUDIO_CMD_TYPE_PIPELINE_DUMP then
           (if len \<noteq> 8 \<or> pipeline = None
            then (- 1, audio_pipeline_response ctrl_handle AUDIO_RESP_STATUS_ERROR, s)
            else (0, audio_pipeline_response ctrl_handle AUDIO_RESP_STATUS_SUCCESS, s))
         else
           (case (case pipeline of
                    None \<Rightarrow> None
                  | Some p \<Rightarrow> if len \<ge> 16
                      then map_option (Pair p) (audio_pipeline_element_find p (cmd_element_type cmd) (cmd_element_id cmd))
                      else None) of
              None \<Rightarrow> (case audio_element_ctrl (None :: 's element option) cmd len ctrl_handle of (rc, resp, _) \<Rightarrow> (rc, resp, s))
            | Some (p, i, j) \<Rightarrow>
                (case audio_element_ctrl (Some (pp_stages p ! i ! j)) cmd len ctrl_handle of
                   (rc, resp, None) \<Rightarrow> (rc, resp, s)
                 | (rc, resp, Some e) \<Rightarrow>
                     (rc, resp, s\<lparr>sys_table := (sys_table s)[unat pid := Some (set_element i j e p)]\<rparr>))))"

section \<open>Creation\<close>

text \<open>The parts of the block at address \<open>addr\<close>, in bytes.\<close>

definition stage_base :: "pipeline_sizes \<Rightarrow> nat \<Rightarrow> nat" where
  "stage_base Z addr = addr + unat (sz_pipeline Z)"

definition element_base :: "pipeline_sizes \<Rightarrow> 's pipeline_config \<Rightarrow> nat \<Rightarrow> nat" where
  "element_base Z c addr = stage_base Z addr + unat (audio_stage_size Z c)"

definition element_data_base :: "pipeline_sizes \<Rightarrow> 's pipeline_config \<Rightarrow> nat \<Rightarrow> nat" where
  "element_data_base Z c addr = element_base Z c addr + unat (audio_element_size Z c)"

definition buffer_base :: "pipeline_sizes \<Rightarrow> 's pipeline_config \<Rightarrow> nat \<Rightarrow> nat" where
  "buffer_base Z c addr = element_data_base Z c addr + unat (audio_element_data_size_total Z c)"

definition buffer_storage_base :: "pipeline_sizes \<Rightarrow> 's pipeline_config \<Rightarrow> nat \<Rightarrow> nat" where
  "buffer_storage_base Z c addr = buffer_base Z c addr + unat (audio_buffer_size Z c)"

text \<open>
  Buffers of a shared user take the storage of the buffer that shares it, when it is found; the others
  their part of the block. Sample memory is addressed in samples.
\<close>

definition audio_pipeline_buffer_init ::
  "pipeline_sizes \<Rightarrow> 's pipeline_config \<Rightarrow> 's audio_pipeline option list \<Rightarrow> nat \<Rightarrow>
     's::zero mem \<times> audio_buffer list \<Rightarrow> 's mem \<times> audio_buffer list" where
  "audio_pipeline_buffer_init Z c table addr mb =
     for_upto (unat (pf_buffers c))
       (\<lambda>i (m, bs).
          let b = pf_buffer c i in
          if bc_flags b AND AUDIO_BUFFER_FLAG_SHARED_USER \<noteq> 0 then
            (case audio_pipeline_shared_buffer_find table (bc_shared_id b) of
               None \<Rightarrow> (m, bs)
             | Some sh \<Rightarrow>
                 (let (m, buf) = audio_buf_init m (bs ! i) (base sh) (bsize sh) 0 (bc_flags b) (bc_shared_id b)
                  in (m, bs[i := buf])))
          else
            (let bs0 = buffer_storage_base Z c addr div unat (sz_sample_t Z) + unat (audio_buffer_storage_off c (bc_storage b));
                 size = stc_periods (pf_storage c (unat (bc_storage b))) * pf_period c;
                 (m, buf) = (if bc_flags b AND AUDIO_BUFFER_FLAG_SHARED \<noteq> 0
                   then audio_buf_init m (bs ! i) bs0 size (pf_period c) (bc_flags b) (bc_shared_id b)
                   else audio_buf_init m (bs ! i) bs0 size 0 0 0)
             in (m, bs[i := buf]))) mb"

text \<open>The addresses of the elements' data, one after the other.\<close>

definition stage_data :: "pipeline_sizes \<Rightarrow> 's stage_config \<Rightarrow> nat \<Rightarrow> nat list \<times> nat" where
  "stage_data Z sc pos =
     for_upto (unat (sg_elements sc))
       (\<lambda>j (ds, a). (ds @ [a], a + unat (audio_element_data_size (sz_elements Z) (sg_element sc j)))) ([], pos)"

definition blank_element :: "'s element" where
  "blank_element = (\<lparr>el_type = 0, el_sample_rate = 0, el_period = 0, el_id = 0\<rparr>, Blank_data)"

definition audio_stage_init ::
  "pipeline_sizes \<Rightarrow> 's pipeline_config \<Rightarrow> nat \<Rightarrow> 's element list list \<times> nat list list" where
  "audio_stage_init Z c addr =
     (map (\<lambda>i. replicate (unat (sg_elements (stage_of c i))) blank_element) [0..<unat (pf_stages c)],
      fst (for_upto (unat (pf_stages c))
        (\<lambda>i (dss, pos). let (ds, pos) = stage_data Z (stage_of c i) pos in (dss @ [ds], pos))
        ([], element_data_base Z c addr)))"

text \<open>
  \<open>audio_pipeline_create\<close>: \<open>block\<close> is what the allocation of \<open>audio_pipeline_alloc_size\<close> bytes returns; the
  block is zeroed.
\<close>

definition zero_block :: "pipeline_sizes \<Rightarrow> nat \<Rightarrow> u32 \<Rightarrow> 's::zero mem \<Rightarrow> 's mem" where
  "zero_block Z addr n m =
     (\<lambda>a. if addr \<le> a * unat (sz_sample_t Z) \<and> a * unat (sz_sample_t Z) < addr + unat n
          then AUDIO_SAMPLE_SILENCE else m a)"

definition audio_pipeline_create ::
  "('s::zero, 'h) audio_env \<Rightarrow> pipeline_sizes \<Rightarrow> nat option \<Rightarrow> 's pipeline_config \<Rightarrow> 's audio_pipeline option list \<Rightarrow>
     's mem \<Rightarrow> ('s audio_pipeline \<times> 's mem) option" where
  "audio_pipeline_create E Z block c table m =
     (if audio_pipeline_config_check E c < 0 then None
      else case block of
        None \<Rightarrow> None
      | Some addr \<Rightarrow>
          let m = zero_block Z addr (audio_pipeline_alloc_size Z c) m;
              (stages, data) = audio_stage_init Z c addr;
              (m, bs) = audio_pipeline_buffer_init Z c table addr (m, replicate (unat (pf_buffers c)) (env_buf0 E))
          in Some (\<lparr>pp_addr = addr, pp_stages = stages, pp_data = data, pp_buffers = bs\<rparr>, m))"

section \<open>Initialisation\<close>

text \<open>
  The loop over the elements. \<open>pi_ids\<close> counts the elements of each type; an element's error leaves the loop
  with the world the element found, \<open>Inl (Some w)\<close>, a trap with \<open>Inl None\<close>.
\<close>

record ('s, 'h) pipeline_init =
  pi_pipeline :: "'s audio_pipeline"
  pi_world :: "('s, 'h) world"
  pi_ids :: "nat \<Rightarrow> u32"

definition init_element ::
  "('s::zero, 'h) audio_env \<Rightarrow> pipeline_sizes \<Rightarrow> (nat \<Rightarrow> nat \<Rightarrow> bool) \<Rightarrow> 's pipeline_config \<Rightarrow> nat \<Rightarrow> nat \<Rightarrow>
     ('s, 'h) pipeline_init \<Rightarrow> ('s, 'h) world option + ('s, 'h) pipeline_init" where
  "init_element E Z mutex_ok c i j s =
     (let ec = element_of c i j;
          el = (fst (pp_stages (pi_pipeline s) ! i ! j))\<lparr>el_id := pi_ids s (unat (ec_type ec))\<rparr>
      in case audio_element_init E (sz_elements Z) (mutex_ok i j) (pp_data (pi_pipeline s) ! i ! j) el ec (pi_world s) of
           None \<Rightarrow> Inl None
         | Some None \<Rightarrow> Inl (Some (pi_world s))
         | Some (Some (e, w)) \<Rightarrow>
             Inr (s\<lparr>pi_pipeline := set_element i j e (pi_pipeline s), pi_world := w,
                    pi_ids := (pi_ids s)(unat (el_type (fst e)) := pi_ids s (unat (el_type (fst e))) + 1)\<rparr>))"

text \<open>
  \<open>audio_pipeline_init\<close> returns the pipeline (its address), or null after an error; \<open>None\<close> is a trap. After
  an error the table entry is removed again and the block freed. The configuration is updated in place.
\<close>

definition audio_pipeline_init ::
  "('s::zero, 'h) audio_env \<Rightarrow> pipeline_sizes \<Rightarrow> nat option \<Rightarrow> (nat \<Rightarrow> nat \<Rightarrow> bool) \<Rightarrow> 's pipeline_config \<Rightarrow>
     ('s, 'h) audio_sys \<Rightarrow> (nat option \<times> 's pipeline_config \<times> ('s, 'h) audio_sys) option" where
  "audio_pipeline_init E Z block mutex_ok c s =
     (if audio_pipeline_early_config_check c < 0 then Some (None, c, s)
      else
        (let c = audio_pipeline_set_config c in
         case audio_pipeline_create E Z block c (sys_table s) (sys_mem s) of
           None \<Rightarrow> Some (None, c, s)
         | Some (p, m) \<Rightarrow>
             (case audio_pipeline_table_add (sys_table s) p of
                None \<Rightarrow> Some (None, c, s\<lparr>sys_mem := m\<rparr>)
              | Some table \<Rightarrow>
                  (case for_upto_err (unat (pf_stages c))
                          (\<lambda>i. for_upto_err (unat (sg_elements (stage_of c i))) (init_element E Z mutex_ok c i))
                          \<lparr>pi_pipeline = p, pi_world = \<lparr>smem = m, bufs = pp_buffers p, hws = sys_hw s\<rparr>, pi_ids = (\<lambda>_. 0)\<rparr> of
                     Inl None \<Rightarrow> None
                   | Inl (Some w) \<Rightarrow>
                       Some (None, c, s\<lparr>sys_mem := smem w, sys_hw := hws w,
                                        sys_table := audio_pipeline_table_del table (pp_addr p)\<rparr>)
                   | Inr t \<Rightarrow>
                       let p = (pi_pipeline t)\<lparr>pp_buffers := bufs (pi_world t)\<rparr>
                       in Some (Some (pp_addr p), c,
                            s\<lparr>sys_mem := smem (pi_world t), sys_hw := hws (pi_world t),
                              sys_table := map (map_option (\<lambda>q. if pp_addr q = pp_addr p then p else q)) table\<rparr>)))))"

section \<open>Run, reset and exit\<close>

text \<open>A pipeline and the memory and hardware around it.\<close>

definition pipeline_world :: "'s audio_pipeline \<Rightarrow> 's mem \<Rightarrow> 'h \<Rightarrow> ('s, 'h) world" where
  "pipeline_world p m h = \<lparr>smem = m, bufs = pp_buffers p, hws = h\<rparr>"

definition pipeline_after ::
  "'s audio_pipeline \<Rightarrow> 's element list list \<times> ('s, 'h) world \<Rightarrow> 's audio_pipeline \<times> 's mem \<times> 'h" where
  "pipeline_after p sw = (let (stages, w) = sw in (p\<lparr>pp_stages := stages, pp_buffers := bufs w\<rparr>, smem w, hws w))"

definition audio_pipeline_run ::
  "('s::zero, 'h) audio_env \<Rightarrow> 's audio_pipeline \<times> 's mem \<times> 'h \<Rightarrow> (int \<times> 's audio_pipeline \<times> 's mem \<times> 'h) option" where
  "audio_pipeline_run E pmh =
     (let (p, m, h) = pmh in
      case run_elements (run_elements (audio_element_run E)) (pp_stages p) (pipeline_world p m h) of
        None \<Rightarrow> None
      | Some (rc, stages, w) \<Rightarrow> Some (rc, pipeline_after p (stages, w)))"

definition audio_pipeline_reset ::
  "('s::zero, 'h) audio_env \<Rightarrow> 's audio_pipeline \<times> 's mem \<times> 'h \<Rightarrow> ('s audio_pipeline \<times> 's mem \<times> 'h) option" where
  "audio_pipeline_reset E pmh =
     (let (p, m, h) = pmh in
      case run_elements (run_elements (reset_run E)) (pp_stages p) (pipeline_world p m h) of
        None \<Rightarrow> None
      | Some (_, stages, w) \<Rightarrow> Some (pipeline_after p (stages, w)))"

definition audio_pipeline_stats :: "'s audio_pipeline \<Rightarrow> 's audio_pipeline option" where
  "audio_pipeline_stats p =
     (if \<forall>es \<in> set (pp_stages p). \<forall>e \<in> set es. audio_element_stats e \<noteq> None
      then Some (p\<lparr>pp_stages := map (map (\<lambda>e. the (audio_element_stats e))) (pp_stages p)\<rparr>) else None)"

definition exit_run ::
  "('s, 'h) audio_env \<Rightarrow> 's element \<Rightarrow> ('s, 'h) world \<Rightarrow> (int \<times> 's element \<times> ('s, 'h) world) option" where
  "exit_run E e w = map_option (\<lambda>w. (0, e, w)) (audio_element_exit E e w)"

definition audio_pipeline_exit ::
  "('s, 'h) audio_env \<Rightarrow> 's audio_pipeline \<Rightarrow> ('s, 'h) audio_sys \<Rightarrow> ('s, 'h) audio_sys option" where
  "audio_pipeline_exit E p s =
     (case run_elements (run_elements (exit_run E)) (pp_stages p) (pipeline_world p (sys_mem s) (sys_hw s)) of
        None \<Rightarrow> None
      | Some (_, _, w) \<Rightarrow>
          Some (s\<lparr>sys_mem := smem w, sys_hw := hws w, sys_table := audio_pipeline_table_del (sys_table s) (pp_addr p)\<rparr>))"

end
