(* ===== verification/Audio_Pipeline_Safety.thy ===== *)
theory Audio_Pipeline_Safety
  imports Audio_Pipeline
begin

text \<open>
  The pipelines at work: runs, resets, statistics and control commands as a step relation on the sample
  memory, the hardware and the table of pipelines, and the invariant that every reachable state keeps.
\<close>

section \<open>What keeps an element ready\<close>

text \<open>The memory an element needs unchanged beside its buffers: the period of silence of a routing element.\<close>

definition element_silence :: "'s element \<Rightarrow> nat set" where
  "element_silence e = (case snd e of Routing_data r \<Rightarrow> buf_range (rt_silence r) | _ \<Rightarrow> {})"

lemma element_ready_frame:
  assumes "element_ready P e w" and "bufs w' = bufs w"
    and "\<And>a. a \<in> element_silence e \<Longrightarrow> smem w' a = smem w a"
  shows "element_ready P e w'"
proof -
  have ok: "world_ok P w' = world_ok P w" using assms(2) by (simp add: world_ok_def)
  have "read_block P (smem w') (rt_silence r) = read_block P (smem w) (rt_silence r)"
    if "snd e = Routing_data r" "buf_aligned P (rt_silence r)" for r
    using that assms(3) by (intro read_block_frame) (simp_all add: element_silence_def)
  then show ?thesis
    using assms(1,2) ok
    by (auto simp: element_ready_def routing_ready_def sai_sink_ready_def sai_source_ready_def split: element_data.splits)
qed

lemma element_silence_reset: "audio_element_reset E e w = Some (e', w') \<Longrightarrow> element_silence e' = element_silence e"
  by (auto simp: audio_element_reset_def element_silence_def split: element_data.splits prod.splits)

lemma element_silence_apart:
  "element_ready P e w \<Longrightarrow> b \<in> set (bufs w) \<Longrightarrow> a \<in> element_silence e \<Longrightarrow> a \<notin> buf_range b"
  by (auto simp: element_silence_def element_ready_def routing_ready_def list_all_iff buf_apart_ranges
      split: element_data.splits)

lemma element_ctrl_ready:
  fixes w :: "('s::zero, 'h) world"
  assumes ready: "element_ready P e w" and ctrl: "audio_element_ctrl (Some e) cmd len h = (rc, resp, Some e')"
  shows "element_ready P e' w \<and> element_silence e' = element_silence e"
proof -
  obtain el data where e: "e = (el, data)" by force
  show ?thesis
  proof (cases data)
    case (Routing_data r)
    have wf: "routing_wf (length (bufs w)) r" using ready by (simp add: e Routing_data element_ready_def routing_ready_def)
    have keep: "routing_ready P (route_to r out i) w"
      if "out < rt_outputs r" "i \<le> rt_inputs r" "routing_ready P r w" for out i
    proof -
      have "rt_silence (route_to r out i) = rt_silence r" "rt_in (route_to r out i) = rt_in r"
        "rt_inputs (route_to r out i) = rt_inputs r" by (simp_all add: route_to_def)
      moreover have "out_places (route_to r out i) = out_places r"
        using that(1) wf by (auto simp: out_places_def route_to_def map_update routing_wf_def word_less_nat_alt
            intro!: list_update_same_conv [THEN iffD2])
      ultimately show ?thesis
        using that(3) route_to_wf [OF wf that(1,2)] by (simp add: routing_ready_def in_places_def)
    qed
    have sil: "rt_silence (route_to r out i) = rt_silence r" for out i by (simp add: route_to_def)
    show ?thesis
      using ready ctrl keep sil
      by (auto simp: e Routing_data audio_element_ctrl_def as_routing_def as_pll_def element_ready_def element_silence_def
          routing_element_ctrl_def pll_element_ctrl_def Let_def route_to_def [symmetric] not_le [symmetric]
          split: if_splits)
  next
    case (Pll_data p)
    show ?thesis
      using ready ctrl
      by (auto simp: e Pll_data audio_element_ctrl_def as_routing_def as_pll_def element_ready_def element_silence_def
          routing_element_ctrl_def pll_element_ctrl_def Let_def split: if_splits)
  qed (use ready ctrl in \<open>auto simp: e audio_element_ctrl_def as_routing_def as_pll_def routing_element_ctrl_def
      pll_element_ctrl_def Let_def split: if_splits\<close>)
qed

section \<open>Pipelines that are ready\<close>

definition pipeline_silence :: "'s audio_pipeline \<Rightarrow> nat set" where
  "pipeline_silence p = (\<Union>es \<in> set (pp_stages p). \<Union>e \<in> set es. element_silence e)"

definition pipeline_ranges :: "'s audio_pipeline \<Rightarrow> nat set" where
  "pipeline_ranges p = (\<Union>b \<in> set (pp_buffers p). buf_range b)"

definition pipeline_ready :: "u32 \<Rightarrow> 's::zero audio_pipeline \<Rightarrow> 's mem \<Rightarrow> 'h \<Rightarrow> bool" where
  "pipeline_ready P p m h \<longleftrightarrow>
     world_resettable P (pipeline_world p m h) \<and>
     (\<forall>es \<in> set (pp_stages p). \<forall>e \<in> set es. element_ready P e (pipeline_world p m h))"

definition pipeline_total :: "'s audio_pipeline \<Rightarrow> bool" where
  "pipeline_total p \<longleftrightarrow> (\<forall>es \<in> set (pp_stages p). \<forall>e \<in> set es. element_total e)"

text \<open>What one operation on a ready pipeline may do to it and to the memory.\<close>

definition pipeline_step :: "u32 \<Rightarrow> 's::zero audio_pipeline \<times> 's mem \<times> 'h \<Rightarrow> 's audio_pipeline \<times> 's mem \<times> 'h \<Rightarrow> bool" where
  "pipeline_step P s t \<longleftrightarrow>
     (case s of (p, m, h) \<Rightarrow> case t of (p', m', h') \<Rightarrow>
        pipeline_ready P p' m' h' \<and> pp_addr p' = pp_addr p \<and>
        pipeline_silence p' = pipeline_silence p \<and> pipeline_ranges p' = pipeline_ranges p \<and>
        (\<forall>a. a \<notin> pipeline_ranges p \<longrightarrow> m' a = m a))"

lemma pipeline_ready_frame:
  assumes "pipeline_ready P p m h" and "\<And>a. a \<in> pipeline_silence p \<Longrightarrow> m' a = m a"
  shows "pipeline_ready P p m' h'"
  unfolding pipeline_ready_def
proof (intro conjI ballI)
  show "world_resettable P (pipeline_world p m' h')"
    using assms(1) by (simp add: pipeline_ready_def pipeline_world_def world_resettable_def world_ok_def)
  show "element_ready P e (pipeline_world p m' h')" if "es \<in> set (pp_stages p)" "e \<in> set es" for es e
  proof (rule element_ready_frame)
    show "element_ready P e (pipeline_world p m h)" using that assms(1) by (simp add: pipeline_ready_def)
    show "bufs (pipeline_world p m' h') = bufs (pipeline_world p m h)" by (simp add: pipeline_world_def)
    show "smem (pipeline_world p m' h') a = smem (pipeline_world p m h) a" if "a \<in> element_silence e" for a
      using assms(2) [of a] that \<open>es \<in> _\<close> \<open>e \<in> _\<close> by (auto simp: pipeline_world_def pipeline_silence_def)
  qed
qed

text \<open>Runs over elements keep the silence of each, when one run does.\<close>

lemma run_elements_map:
  assumes "run_elements run es w = Some (rc, es', w')"
    and "\<And>e w rc e' w'. run e w = Some (rc, e', w') \<Longrightarrow> f e' = f e"
  shows "map f es' = map f es"
  using assms(1)
proof (induction es arbitrary: w rc es' w')
  case (Cons e es)
  obtain rc1 e1 v where r: "run e w = Some (rc1, e1, v)" using Cons.prems by (auto split: option.splits)
  note f = assms(2) [OF r]
  show ?case
  proof (cases "rc1 = 0")
    case True
    then obtain es1 where "run_elements run es v = Some (rc, es1, w')" "es' = e1 # es1"
      using Cons.prems r by (auto split: option.splits)
    then show ?thesis using Cons.IH f by simp
  next
    case False
    then show ?thesis using Cons.prems r f by auto
  qed
qed simp

text \<open>The routing element keeps the storage of its internal buffer whether it was ready or not.\<close>

lemma routing_run_silence:
  fixes w :: "('s, 'h) world"
  assumes "routing_element_run el r w = (rc, r', w')"
  shows "buf_range (rt_silence r') = buf_range (rt_silence r)"
proof -
  let ?f = "\<lambda>i. ref_upd (rt_in r ! i) (\<lambda>b. audio_buf_read_update b (el_period el))"
  have one: "buf_range (rt_silence (fst (?f i s))) = buf_range (rt_silence (fst s))" for i and s :: "routing_element \<times> ('s, 'h) world"
    by (cases s; cases "rt_in r ! i") (simp_all add: ref_upd_def buf_range_def audio_buf_read_update_def)
  have "buf_range (rt_silence (fst (for_upto n ?f (r, v)))) = buf_range (rt_silence r)" for n and v :: "('s, 'h) world"
    by (rule for_upto_invariant [where P = "\<lambda>_ s. buf_range (rt_silence (fst s)) = buf_range (rt_silence r)"])
      (simp_all only: one fst_conv)
  moreover have "r' = fst (for_upto (unat (rt_inputs r)) ?f (r, for_upto (unat (rt_outputs r)) (routing_copy (el_period el) r) w))"
    using assms unfolding routing_element_run_def case_prod_beta Let_def prod.inject by (blast dest: sym)
  ultimately show ?thesis by simp
qed

lemma element_silence_step:
  "audio_element_run E e w = Some (rc, e', w') \<Longrightarrow> element_silence e' = element_silence e"
  "reset_run E e w = Some (rc, e', w') \<Longrightarrow> element_silence e' = element_silence e"
proof -
  show "element_silence e' = element_silence e" if "audio_element_run E e w = Some (rc, e', w')"
    using that
    by (cases e; cases "snd e")
      (auto simp: audio_element_run_def element_silence_def Let_def routing_run_silence split: prod.splits)
  show "element_silence e' = element_silence e" if "reset_run E e w = Some (rc, e', w')"
    using that by (auto simp: reset_run_def element_silence_reset)
qed

lemma stages_silence:
  assumes "run_elements (run_elements run) ess w = Some (rc, ess', w')"
    and "\<And>e w rc e' w'. run e w = Some (rc, e', w') \<Longrightarrow> element_silence e' = element_silence e"
  shows "(\<Union>es \<in> set ess'. \<Union>e \<in> set es. element_silence e) = (\<Union>es \<in> set ess. \<Union>e \<in> set es. element_silence e)"
proof -
  have "map (map element_silence) ess' = map (map element_silence) ess"
    using assms(1) by (rule run_elements_map) (rule run_elements_map, assumption, rule assms(2))
  then have "set (concat (map (map element_silence) ess')) = set (concat (map (map element_silence) ess))" by simp
  then have "\<Union> (set (concat (map (map element_silence) ess'))) = \<Union> (set (concat (map (map element_silence) ess)))" by (rule arg_cong)
  moreover have "\<Union> (set (concat (map (map element_silence) xss))) = (\<Union>es \<in> set xss. \<Union>e \<in> set es. element_silence e)"
    for xss :: "'a element list list" by auto
  ultimately show ?thesis by simp
qed

lemma world_step_pipeline:
  assumes ready: "pipeline_ready P p m h" and step: "world_step P (pipeline_world p m h) w"
    and els: "\<forall>es \<in> set stages. \<forall>e \<in> set es. element_ready P e w"
    and sil: "(\<Union>es \<in> set stages. \<Union>e \<in> set es. element_silence e) = pipeline_silence p"
  shows "pipeline_step P (p, m, h) (pipeline_after p (stages, w))"
proof -
  have w: "pipeline_world (p\<lparr>pp_stages := stages, pp_buffers := bufs w\<rparr>) (smem w) (hws w) = w"
    by (simp add: pipeline_world_def)
  have mem: "a \<notin> pipeline_ranges p \<longleftrightarrow> (\<forall>b \<in> set (bufs (pipeline_world p m h)). a \<notin> buf_range b)" for a
    by (simp add: pipeline_ranges_def pipeline_world_def)
  have "a \<in> pipeline_ranges (p\<lparr>pp_stages := stages, pp_buffers := bufs w\<rparr>) \<longleftrightarrow> a \<in> pipeline_ranges p" for a
    using world_step_ranges [OF step, of a] by (auto simp: pipeline_ranges_def pipeline_world_def)
  moreover have "smem w a = m a" if "a \<notin> pipeline_ranges p" for a
    using world_stepD(4) [OF step, of a] that unfolding mem by (simp add: pipeline_world_def)
  moreover have "world_resettable P w"
    using world_step_resettable [OF step] ready by (simp add: pipeline_ready_def)
  ultimately show ?thesis
    using els sil w
    by (auto simp: pipeline_step_def pipeline_after_def pipeline_ready_def pipeline_silence_def)
qed

lemma pipeline_run_step:
  assumes ready: "pipeline_ready P p m h" and run: "audio_pipeline_run E (p, m, h) = Some (rc, s')"
  shows "pipeline_step P (p, m, h) s'"
proof -
  obtain stages w where r: "run_elements (run_elements (audio_element_run E)) (pp_stages p) (pipeline_world p m h) = Some (rc, stages, w)"
    and s': "s' = pipeline_after p (stages, w)"
    using run by (auto simp: audio_pipeline_run_def split: option.splits)
  have "world_ok P (pipeline_world p m h)" using ready by (simp add: pipeline_ready_def world_resettable_def)
  note s = st.run_elements_step [OF _ this r]
  have "world_step P (pipeline_world p m h) w" "\<forall>es \<in> set stages. \<forall>e \<in> set es. element_ready P e w"
    using s ready by (simp_all add: pipeline_ready_def)
  then show ?thesis
    unfolding s' using stages_silence [OF r element_silence_step(1)]
    by (intro world_step_pipeline [OF ready]) (simp_all add: pipeline_silence_def)
qed

lemma pipeline_reset_step:
  assumes ready: "pipeline_ready P p m h" and run: "audio_pipeline_reset E (p, m, h) = Some s'"
  shows "pipeline_step P (p, m, h) s'"
proof -
  obtain rc stages w where r: "run_elements (run_elements (reset_run E)) (pp_stages p) (pipeline_world p m h) = Some (rc, stages, w)"
    and s': "s' = pipeline_after p (stages, w)"
    using run by (auto simp: audio_pipeline_reset_def split: option.splits)
  have "world_resettable P (pipeline_world p m h)" using ready by (simp add: pipeline_ready_def)
  note s = sr.run_elements_step [OF _ this r]
  have "world_step P (pipeline_world p m h) w" "\<forall>es \<in> set stages. \<forall>e \<in> set es. element_ready P e w"
    using s ready by (simp_all add: pipeline_ready_def)
  then show ?thesis
    unfolding s' using stages_silence [OF r element_silence_step(2)]
    by (intro world_step_pipeline [OF ready]) (simp_all add: pipeline_silence_def)
qed

lemma pipeline_run_total:
  assumes ready: "pipeline_ready P p m h" and total: "pipeline_total p"
  shows "\<exists>rc p' m' h'. audio_pipeline_run E (p, m, h) = Some (rc, p', m', h') \<and> pipeline_total p'"
proof -
  let ?w = "pipeline_world p m h"
  have ok: "world_ok P ?w" using ready by (simp add: pipeline_ready_def world_resettable_def)
  have "\<forall>es \<in> set (pp_stages p). (\<forall>e \<in> set es. element_ready P e ?w) \<and> (\<forall>e \<in> set es. element_total e)"
    using ready total by (simp add: pipeline_ready_def pipeline_total_def)
  from st.run_elements_total [OF this ok, of E]
  obtain rc ess v where "run_elements (run_elements (audio_element_run E)) (pp_stages p) ?w = Some (rc, ess, v)"
    "\<forall>es \<in> set ess. \<forall>e \<in> set es. element_total e" by blast
  then show ?thesis by (simp add: audio_pipeline_run_def pipeline_after_def pipeline_total_def)
qed

lemma pipeline_reset_total:
  assumes ready: "pipeline_ready P p m h"
  shows "\<exists>s'. audio_pipeline_reset E (p, m, h) = Some s'"
proof -
  let ?w = "pipeline_world p m h"
  have ok: "world_resettable P ?w" and els: "\<forall>es \<in> set (pp_stages p). (\<forall>e \<in> set es. element_ready P e ?w) \<and> (\<forall>e \<in> set es. True)"
    using ready by (simp_all add: pipeline_ready_def)
  from sr.run_elements_total [OF els ok, of E] show ?thesis by (fastforce simp: audio_pipeline_reset_def simp del: split_paired_Ex)
qed

section \<open>Statistics and control\<close>

lemma sai_stats_kept:
  assumes "list_all (\<lambda>l. hist_wf (sl_hist l)) (se_line se)"
  shows "\<exists>t. sai_element_stats se = Some t \<and> sai_kept se t"
proof -
  let ?f = "\<lambda>i se. let line = se_line se ! i;
                    line = line\<lparr>sl_latency := rtos_apps_stats_compute (sl_latency line)\<rparr>;
                    line = line\<lparr>sl_latency := rtos_apps_stats_reset (sl_latency line)\<rparr>
                in case rtos_apps_hist_reset (sl_hist line) of
                     None \<Rightarrow> Inl ()
                   | Some hist \<Rightarrow> Inr (se\<lparr>se_line := (se_line se)[i := line\<lparr>sl_hist := hist\<rparr>]\<rparr>)"
  have "\<exists>t. for_upto_err n ?f se = Inr t \<and> sai_kept se t" if "n \<le> length (se_line se)" for n
    using that
  proof (induction n)
    case 0
    then show ?case using sai_started_kept(1) [OF assms] by simp
  next
    case (Suc n)
    then obtain t where t: "for_upto_err n ?f se = Inr t" "sai_kept se t" by auto
    have "hist_wf (sl_hist (se_line t ! n))" using t(2) Suc.prems by (simp add: sai_kept_def list_all_length)
    then obtain h where "rtos_apps_hist_reset (sl_hist (se_line t ! n)) = Some h" "hist_wf h"
      using hist_reset_wf by blast
    then show ?case using t sai_kept_upd [OF t(2)] by (simp add: Let_def)
  qed
  then show ?thesis by (fastforce simp: sai_element_stats_def)
qed

lemma element_stats_ready:
  assumes "element_ready P e w"
  shows "\<exists>e'. audio_element_stats e = Some e' \<and> element_ready P e' w \<and> element_silence e' = element_silence e"
proof -
  obtain el data where e: "e = (el, data)" by force
  have sai: "\<exists>t. sai_element_stats se = Some t \<and>
      (sai_sink_ready P se w \<longrightarrow> sai_sink_ready P t w) \<and> (sai_source_ready P se w \<longrightarrow> sai_source_ready P t w)"
    if "list_all (\<lambda>l. hist_wf (sl_hist l)) (se_line se)" for se
    using sai_stats_kept [OF that] by (auto simp: sai_kept_def sai_sink_ready_def sai_source_ready_def)
  show ?thesis
  proof (cases data)
    case (Sai_sink_data se)
    then have r: "sai_sink_ready P se w" "el_period el = P" using assms by (simp_all add: e element_ready_def)
    then have "list_all (\<lambda>l. hist_wf (sl_hist l)) (se_line se)" by (simp add: sai_sink_ready_def)
    from sai [OF this] obtain t where "sai_element_stats se = Some t" "sai_sink_ready P t w" using r by blast
    then show ?thesis using r by (simp add: e Sai_sink_data audio_element_stats_def element_ready_def element_silence_def)
  next
    case (Sai_source_data se)
    then have r: "sai_source_ready P se w" "el_period el = P" using assms by (simp_all add: e element_ready_def)
    then have "list_all (\<lambda>l. hist_wf (sl_hist l)) (se_line se)" by (simp add: sai_source_ready_def)
    from sai [OF this] obtain t where "sai_element_stats se = Some t" "sai_source_ready P t w" using r by blast
    then show ?thesis using r by (simp add: e Sai_source_data audio_element_stats_def element_ready_def element_silence_def)
  qed (use assms in \<open>simp_all add: e audio_element_stats_def element_ready_def element_silence_def\<close>)
qed

lemma pipeline_stats_step:
  assumes ready: "pipeline_ready P p m h" and stats: "audio_pipeline_stats p = Some p'"
  shows "pipeline_step P (p, m, h) (p', m, h)"
proof -
  let ?f = "\<lambda>e. the (audio_element_stats e)"
  have p': "p' = p\<lparr>pp_stages := map (map ?f) (pp_stages p)\<rparr>"
    using stats by (auto simp: audio_pipeline_stats_def split: if_splits)
  have e: "element_ready P (?f e) (pipeline_world p m h) \<and> element_silence (?f e) = element_silence e"
    if "es \<in> set (pp_stages p)" "e \<in> set es" for es e
    using element_stats_ready [of P e "pipeline_world p m h"] ready that by (force simp: pipeline_ready_def)
  have "pipeline_world p' m h = pipeline_world p m h" "pipeline_silence p' = pipeline_silence p"
    "pipeline_ranges p' = pipeline_ranges p" "pp_addr p' = pp_addr p"
    using e by (auto simp: p' pipeline_world_def pipeline_silence_def pipeline_ranges_def)
  moreover have "pipeline_ready P p' m h"
    unfolding pipeline_ready_def calculation(1)
    using ready e by (auto simp: p' pipeline_ready_def)
  ultimately show ?thesis by (simp add: pipeline_step_def)
qed

lemma nth_of_type_member:
  "nth_of_type type n places = Some (i, j) \<Longrightarrow> \<exists>e. (i, j, e) \<in> set places \<and> el_type (fst e) = type"
  by (induction type n places rule: nth_of_type.induct) (auto split: if_splits)

lemma element_find_place:
  assumes "audio_pipeline_element_find p type n = Some (i, j)"
  shows "i < length (pp_stages p)" "j < length (pp_stages p ! i)" "el_type (fst (pp_stages p ! i ! j)) = type"
proof -
  obtain e where "(i, j, e) \<in> set (element_places (pp_stages p))" "el_type (fst e) = type"
    using nth_of_type_member [OF assms [unfolded audio_pipeline_element_find_def]] by blast
  moreover from this(1) have "i < length (pp_stages p) \<and> j < length (pp_stages p ! i) \<and> e = pp_stages p ! i ! j"
    by (auto simp: element_places_def)
  ultimately show "i < length (pp_stages p)" "j < length (pp_stages p ! i)" "el_type (fst (pp_stages p ! i ! j)) = type"
    by blast+
qed

lemma set_element_step:
  assumes ready: "pipeline_ready P p m h" and i: "i < length (pp_stages p)" and j: "j < length (pp_stages p ! i)"
    and e: "element_ready P e (pipeline_world p m h)" "element_silence e = element_silence (pp_stages p ! i ! j)"
  shows "pipeline_step P (p, m, h) (set_element i j e p, m, h)"
proof -
  let ?p = "set_element i j e p"
  have s: "pp_stages ?p = (pp_stages p)[i := (pp_stages p ! i)[j := e]]" by (simp add: set_element_def)
  have w: "pipeline_world ?p m h = pipeline_world p m h" "pipeline_ranges ?p = pipeline_ranges p" "pp_addr ?p = pp_addr p"
    by (simp_all add: set_element_def pipeline_world_def pipeline_ranges_def)
  have "map element_silence ((pp_stages p ! i)[j := e]) = map element_silence (pp_stages p ! i)"
    using j e(2) by (metis map_update list_update_id nth_map)
  then have "map (map element_silence) (pp_stages ?p) = map (map element_silence) (pp_stages p)"
    unfolding s using i by (metis map_update list_update_id nth_map)
  then have "\<Union> (set (concat (map (map element_silence) (pp_stages ?p)))) = \<Union> (set (concat (map (map element_silence) (pp_stages p))))"
    by (simp only:)
  moreover have "\<Union> (set (concat (map (map element_silence) (pp_stages q)))) = pipeline_silence q" for q :: "'a audio_pipeline"
    by (auto simp: pipeline_silence_def)
  ultimately have "pipeline_silence ?p = pipeline_silence p" by simp
  moreover have "\<forall>es \<in> set (pp_stages ?p). \<forall>e \<in> set es. element_ready P e (pipeline_world p m h)"
  proof (intro ballI)
    fix es x assume es: "es \<in> set (pp_stages ?p)" and x: "x \<in> set es"
    have old: "element_ready P y (pipeline_world p m h)" if "ys \<in> set (pp_stages p)" "y \<in> set ys" for ys y
      using that ready by (simp add: pipeline_ready_def)
    show "element_ready P x (pipeline_world p m h)"
    proof (cases "es = (pp_stages p ! i)[j := e]")
      case True
      then have "x = e \<or> x \<in> set (pp_stages p ! i)" using x set_update_subset_insert by fastforce
      then show ?thesis using old [OF nth_mem [OF i]] e(1) by blast
    next
      case False
      then have "es \<in> set (pp_stages p)" using es set_update_subset_insert unfolding s by fastforce
      then show ?thesis using old x by blast
    qed
  qed
  ultimately show ?thesis
    using ready w by (simp add: pipeline_step_def pipeline_ready_def)
qed

section \<open>The system of pipelines\<close>

text \<open>
  The calls of the application on an entry of the table: run (from the audio task), reset, statistics, and control
  commands (serialised by the element mutexes).
\<close>

inductive audio_step :: "('s::zero, 'h) audio_env \<Rightarrow> ('s, 'h) audio_sys \<Rightarrow> ('s, 'h) audio_sys \<Rightarrow> bool"
  for E :: "('s::zero, 'h) audio_env" where
  Step_run: "i < length (sys_table s) \<Longrightarrow> sys_table s ! i = Some p \<Longrightarrow>
      audio_pipeline_run E (p, sys_mem s, sys_hw s) = Some (rc, p', m, h) \<Longrightarrow>
      audio_step E s \<lparr>sys_mem = m, sys_hw = h, sys_table = (sys_table s)[i := Some p']\<rparr>"
| Step_reset: "i < length (sys_table s) \<Longrightarrow> sys_table s ! i = Some p \<Longrightarrow>
      audio_pipeline_reset E (p, sys_mem s, sys_hw s) = Some (p', m, h) \<Longrightarrow>
      audio_step E s \<lparr>sys_mem = m, sys_hw = h, sys_table = (sys_table s)[i := Some p']\<rparr>"
| Step_stats: "i < length (sys_table s) \<Longrightarrow> sys_table s ! i = Some p \<Longrightarrow> audio_pipeline_stats p = Some p' \<Longrightarrow>
      audio_step E s (s\<lparr>sys_table := (sys_table s)[i := Some p']\<rparr>)"
| Step_ctrl: "audio_pipeline_ctrl cmd len ctrl_handle s = (rc, resp, s') \<Longrightarrow> audio_step E s s'"

inductive audio_reaches :: "('s::zero, 'h) audio_env \<Rightarrow> ('s, 'h) audio_sys \<Rightarrow> ('s, 'h) audio_sys \<Rightarrow> bool"
  for E :: "('s::zero, 'h) audio_env" where
  Reach_refl: "audio_reaches E s s"
| Reach_step: "audio_reaches E s t \<Longrightarrow> audio_step E t u \<Longrightarrow> audio_reaches E s u"

text \<open>
  The invariant: every pipeline of the table is ready for its own period, and no pipeline has buffers over the silence
  of a routing element. Buffers of different pipelines may be shared.
\<close>

definition sys_ok :: "(nat \<Rightarrow> u32) \<Rightarrow> ('s::zero, 'h) audio_sys \<Rightarrow> bool" where
  "sys_ok P s \<longleftrightarrow> length (sys_table s) = AUDIO_PIPELINE_MAX_PIPELINES \<and>
     (\<forall>i < AUDIO_PIPELINE_MAX_PIPELINES. \<forall>p. sys_table s ! i = Some p \<longrightarrow>
        pipeline_ready (P i) p (sys_mem s) (sys_hw s) \<and>
        (\<forall>j < AUDIO_PIPELINE_MAX_PIPELINES. \<forall>q. sys_table s ! j = Some q \<longrightarrow>
           pipeline_silence p \<inter> pipeline_ranges q = {}))"

definition sys_ranges :: "('s, 'h) audio_sys \<Rightarrow> nat set" where
  "sys_ranges s = (\<Union>i \<in> {i. i < length (sys_table s) \<and> sys_table s ! i \<noteq> None}. pipeline_ranges (the (sys_table s ! i)))"

definition same_pipelines :: "('s, 'h) audio_sys \<Rightarrow> ('s, 'h) audio_sys \<Rightarrow> bool" where
  "same_pipelines s t \<longleftrightarrow>
     map (map_option (\<lambda>p. (pp_addr p, pipeline_ranges p))) (sys_table t) =
     map (map_option (\<lambda>p. (pp_addr p, pipeline_ranges p))) (sys_table s)"

lemma sys_step_pipeline:
  assumes ok: "sys_ok P s" and i: "i < length (sys_table s)" and p: "sys_table s ! i = Some p"
    and step: "pipeline_step (P i) (p, sys_mem s, sys_hw s) (p', m, h)"
  shows "sys_ok P \<lparr>sys_mem = m, sys_hw = h, sys_table = (sys_table s)[i := Some p']\<rparr>" (is "sys_ok P ?t")
    and "same_pipelines s \<lparr>sys_mem = m, sys_hw = h, sys_table = (sys_table s)[i := Some p']\<rparr>"
    and "a \<notin> sys_ranges s \<Longrightarrow> m a = sys_mem s a"
proof -
  have len: "length (sys_table s) = AUDIO_PIPELINE_MAX_PIPELINES" using ok by (simp add: sys_ok_def)
  note all = ok [unfolded sys_ok_def, THEN conjunct2, rule_format]
  have s: "pipeline_ready (P i) p' m h" "pp_addr p' = pp_addr p" "pipeline_silence p' = pipeline_silence p"
    "pipeline_ranges p' = pipeline_ranges p" "\<And>a. a \<notin> pipeline_ranges p \<Longrightarrow> m a = sys_mem s a"
    using step by (simp_all add: pipeline_step_def)
  have old: "\<exists>q'. sys_table s ! j = Some q' \<and> pipeline_silence q = pipeline_silence q' \<and> pipeline_ranges q = pipeline_ranges q'"
    if "sys_table ?t ! j = Some q" for j q
    using that p s(3,4) i by (cases "j = i") auto
  show "sys_ok P ?t"
    unfolding sys_ok_def
  proof (intro conjI allI impI)
    show "length (sys_table ?t) = AUDIO_PIPELINE_MAX_PIPELINES" using len by simp
  next
    fix j q assume j: "j < AUDIO_PIPELINE_MAX_PIPELINES" and q: "sys_table ?t ! j = Some q"
    show "pipeline_ready (P j) q (sys_mem ?t) (sys_hw ?t)"
    proof (cases "j = i")
      case True
      then show ?thesis using q s(1) i by simp
    next
      case False
      then have q: "sys_table s ! j = Some q" using q by simp
      have "pipeline_silence q \<inter> pipeline_ranges p = {}" using all [OF j q] i p len by simp
      then have "m a = sys_mem s a" if "a \<in> pipeline_silence q" for a using that s(5) by blast
      then have "pipeline_ready (P j) q m h"
        by (rule pipeline_ready_frame [OF all [OF j q, THEN conjunct1]])
      then show ?thesis by simp
    qed
  next
    fix j q k r assume j: "j < AUDIO_PIPELINE_MAX_PIPELINES" "sys_table ?t ! j = Some q"
      and k: "k < AUDIO_PIPELINE_MAX_PIPELINES" "sys_table ?t ! k = Some r"
    obtain q' r' where "sys_table s ! j = Some q'" "pipeline_silence q = pipeline_silence q'"
      "sys_table s ! k = Some r'" "pipeline_ranges r = pipeline_ranges r'"
      using old [OF j(2)] old [OF k(2)] by blast
    then show "pipeline_silence q \<inter> pipeline_ranges r = {}" using all j(1) k(1) by simp
  qed
  have "(map (map_option (\<lambda>p. (pp_addr p, pipeline_ranges p))) (sys_table s)) ! i = Some (pp_addr p', pipeline_ranges p')"
    using i p s(2,4) by simp
  then show "same_pipelines s ?t"
    unfolding same_pipelines_def by (simp add: map_update) (metis list_update_id)
  show "m a = sys_mem s a" if "a \<notin> sys_ranges s"
    using that s(5) i p by (fastforce simp: sys_ranges_def)
qed

lemma pipeline_ctrl_cases:
  assumes "audio_pipeline_ctrl cmd len hdl s = (rc, resp, s')"
  shows "s' = s \<or>
    (\<exists>p i j e rc'. audio_pipeline_table_find (sys_table s) (cmd_pipeline_id cmd) = Some p \<and>
       i < length (pp_stages p) \<and> j < length (pp_stages p ! i) \<and>
       audio_element_ctrl (Some (pp_stages p ! i ! j)) cmd len hdl = (rc', resp, Some e) \<and>
       s' = s\<lparr>sys_table := (sys_table s)[unat (cmd_pipeline_id cmd) := Some (set_element i j e p)]\<rparr>)"
proof (cases "cmd_type cmd = AUDIO_CMD_TYPE_PIPELINE_DUMP")
  case True
  then show ?thesis using assms by (auto simp: audio_pipeline_ctrl_def Let_def split: if_splits)
next
  case False
  let ?pl = "if len \<ge> 8 then audio_pipeline_table_find (sys_table s) (cmd_pipeline_id cmd) else None"
  let ?el = "case ?pl of None \<Rightarrow> None
    | Some p \<Rightarrow> if len \<ge> 16
        then map_option (Pair p) (audio_pipeline_element_find p (cmd_element_type cmd) (cmd_element_id cmd)) else None"
  show ?thesis
  proof (cases ?el)
    case None
    then show ?thesis
      using assms False unfolding audio_pipeline_ctrl_def Let_def by (simp split: prod.splits)
  next
    case (Some pij)
    obtain p i j where pij: "pij = (p, i, j)" by (metis prod_cases3)
    have p: "audio_pipeline_table_find (sys_table s) (cmd_pipeline_id cmd) = Some p"
      and f: "audio_pipeline_element_find p (cmd_element_type cmd) (cmd_element_id cmd) = Some (i, j)"
      using Some pij by (auto split: option.splits if_splits)
    obtain rc' resp' e' where c: "audio_element_ctrl (Some (pp_stages p ! i ! j)) cmd len hdl = (rc', resp', e')"
      by (metis prod_cases3)
    have r: "(case e' of None \<Rightarrow> (rc', resp', s)
       | Some e \<Rightarrow> (rc', resp', s\<lparr>sys_table := (sys_table s)[unat (cmd_pipeline_id cmd) := Some (set_element i j e p)]\<rparr>)) = (rc, resp, s')"
      using assms False c unfolding audio_pipeline_ctrl_def Let_def Some pij
      by (simp only: if_False option.case prod.case)
    show ?thesis
    proof (cases e')
      case None
      then show ?thesis using r by simp
    next
      case (Some e)
      have "s' = s\<lparr>sys_table := (sys_table s)[unat (cmd_pipeline_id cmd) := Some (set_element i j e p)]\<rparr>" "resp' = resp"
        using r unfolding Some by simp_all
      then show ?thesis using p c [unfolded Some] element_find_place(1,2) [OF f] by blast
    qed
  qed
qed

lemma audio_step_ok:
  assumes ok: "sys_ok P s" and step: "audio_step E s t"
  shows "sys_ok P t \<and> same_pipelines s t \<and> (\<forall>a. a \<notin> sys_ranges s \<longrightarrow> sys_mem t a = sys_mem s a)"
  using step
proof cases
  case (Step_run i p rc p' m h)
  have ready: "pipeline_ready (P i) p (sys_mem s) (sys_hw s)" using ok Step_run(2,3) by (simp add: sys_ok_def)
  have ps: "pipeline_step (P i) (p, sys_mem s, sys_hw s) (p', m, h)" by (rule pipeline_run_step [OF ready Step_run(4)])
  show ?thesis unfolding Step_run(1) using sys_step_pipeline [OF ok Step_run(2,3) ps] by simp
next
  case (Step_reset i p p' m h)
  have ready: "pipeline_ready (P i) p (sys_mem s) (sys_hw s)" using ok Step_reset(2,3) by (simp add: sys_ok_def)
  have ps: "pipeline_step (P i) (p, sys_mem s, sys_hw s) (p', m, h)" by (rule pipeline_reset_step [OF ready Step_reset(4)])
  show ?thesis unfolding Step_reset(1) using sys_step_pipeline [OF ok Step_reset(2,3) ps] by simp
next
  case (Step_stats i p p')
  have ready: "pipeline_ready (P i) p (sys_mem s) (sys_hw s)" using ok Step_stats(2,3) by (simp add: sys_ok_def)
  have ps: "pipeline_step (P i) (p, sys_mem s, sys_hw s) (p', sys_mem s, sys_hw s)"
    by (rule pipeline_stats_step [OF ready Step_stats(4)])
  have eq: "t = \<lparr>sys_mem = sys_mem s, sys_hw = sys_hw s, sys_table = (sys_table s)[i := Some p']\<rparr>"
    unfolding Step_stats(1) by simp
  show ?thesis unfolding eq using sys_step_pipeline [OF ok Step_stats(2,3) ps] by simp
next
  case (Step_ctrl cmd len hdl rc resp)
  from pipeline_ctrl_cases [OF this] show ?thesis
  proof (elim disjE exE conjE)
    assume "t = s"
    then show ?thesis using ok by (simp add: same_pipelines_def)
  next
    fix p i j e rc'
    assume find: "audio_pipeline_table_find (sys_table s) (cmd_pipeline_id cmd) = Some p"
      and ij: "i < length (pp_stages p)" "j < length (pp_stages p ! i)"
      and ctrl: "audio_element_ctrl (Some (pp_stages p ! i ! j)) cmd len hdl = (rc', resp, Some e)"
      and t: "t = s\<lparr>sys_table := (sys_table s)[unat (cmd_pipeline_id cmd) := Some (set_element i j e p)]\<rparr>"
    let ?k = "unat (cmd_pipeline_id cmd)"
    have k: "?k < length (sys_table s)" "sys_table s ! ?k = Some p"
      using find ok by (auto simp: audio_pipeline_table_find_def sys_ok_def split: if_splits)
    then have ready: "pipeline_ready (P ?k) p (sys_mem s) (sys_hw s)" using ok by (simp add: sys_ok_def)
    then have "element_ready (P ?k) (pp_stages p ! i ! j) (pipeline_world p (sys_mem s) (sys_hw s))"
      using nth_mem [OF ij(1)] nth_mem [OF ij(2)] by (simp add: pipeline_ready_def)
    from element_ctrl_ready [OF this ctrl]
    have ps: "pipeline_step (P ?k) (p, sys_mem s, sys_hw s) (set_element i j e p, sys_mem s, sys_hw s)"
      by (intro set_element_step [OF ready ij]) auto
    have eq: "t = \<lparr>sys_mem = sys_mem s, sys_hw = sys_hw s, sys_table = (sys_table s)[?k := Some (set_element i j e p)]\<rparr>"
      unfolding t by simp
    show ?thesis unfolding eq using sys_step_pipeline [OF ok k ps] by simp
  qed
qed

lemma same_pipelines_ranges:
  assumes "same_pipelines s t"
  shows "sys_ranges t = sys_ranges s"
proof -
  have len: "length (sys_table t) = length (sys_table s)"
    using arg_cong [OF assms [unfolded same_pipelines_def], of length] by simp
  have "map_option (\<lambda>p. (pp_addr p, pipeline_ranges p)) (sys_table t ! i) =
      map_option (\<lambda>p. (pp_addr p, pipeline_ranges p)) (sys_table s ! i)" if "i < length (sys_table s)" for i
    using arg_cong [OF assms [unfolded same_pipelines_def], of "\<lambda>xs. xs ! i"] that len by simp
  then have same: "\<And>i. i < length (sys_table s) \<Longrightarrow> (sys_table t ! i \<noteq> None) = (sys_table s ! i \<noteq> None) \<and>
      (sys_table s ! i \<noteq> None \<longrightarrow> pipeline_ranges (the (sys_table t ! i)) = pipeline_ranges (the (sys_table s ! i)))"
    subgoal for i by (cases "sys_table t ! i"; cases "sys_table s ! i") fastforce+ done
  show ?thesis unfolding sys_ranges_def
  proof (rule SUP_cong)
    show "{i. i < length (sys_table t) \<and> sys_table t ! i \<noteq> None} = {i. i < length (sys_table s) \<and> sys_table s ! i \<noteq> None}"
      using same len by (intro Collect_cong) (metis (no_types))
    show "pipeline_ranges (the (sys_table t ! i)) = pipeline_ranges (the (sys_table s ! i))"
      if "i \<in> {i. i < length (sys_table s) \<and> sys_table s ! i \<noteq> None}" for i
      using that same by blast
  qed
qed

text \<open>
  C5. Whatever sequence of runs, resets, statistics and control commands the application makes on the pipelines of the
  table: every pipeline stays ready for its period, at its address and with its buffers, and no sample outside the buffers
  of the pipelines is ever written.
\<close>

theorem pipelines_safe:
  assumes "sys_ok P s" and "audio_reaches E s t"
  shows "sys_ok P t \<and> same_pipelines s t \<and> (\<forall>a. a \<notin> sys_ranges s \<longrightarrow> sys_mem t a = sys_mem s a)"
  using assms(2,1)
proof induction
  case (Reach_refl s)
  then show ?case by (simp add: same_pipelines_def)
next
  case (Reach_step s t u)
  have "sys_ok P u \<and> same_pipelines t u \<and> (\<forall>a. a \<notin> sys_ranges t \<longrightarrow> sys_mem u a = sys_mem t a)"
    using audio_step_ok Reach_step by blast
  moreover have "sys_ranges t = sys_ranges s" using same_pipelines_ranges Reach_step.IH Reach_step.prems by blast
  ultimately show ?case using Reach_step.IH Reach_step.prems by (simp add: same_pipelines_def)
qed

text \<open>
  C23. A run or reset of a ready pipeline always comes to its end, unless a PLL element is enabled (whose estimate divides by
  the advance of its source clock): no element reads an unset table or calls through a null pointer.
\<close>

theorem pipeline_run_returns:
  assumes "sys_ok P s" and "i < AUDIO_PIPELINE_MAX_PIPELINES" and "sys_table s ! i = Some p"
  shows "(pipeline_total p \<longrightarrow>
      (\<exists>rc p' m h. audio_pipeline_run E (p, sys_mem s, sys_hw s) = Some (rc, p', m, h) \<and> pipeline_total p')) \<and>
    audio_pipeline_reset E (p, sys_mem s, sys_hw s) \<noteq> None \<and> audio_pipeline_stats p \<noteq> None"
proof -
  have ready: "pipeline_ready (P i) p (sys_mem s) (sys_hw s)" using assms by (simp add: sys_ok_def)
  have "audio_element_stats e \<noteq> None" if "es \<in> set (pp_stages p)" "e \<in> set es" for es e
    using element_stats_ready [of "P i" e "pipeline_world p (sys_mem s) (sys_hw s)"] ready that
    by (force simp: pipeline_ready_def)
  then have "audio_pipeline_stats p \<noteq> None" by (simp add: audio_pipeline_stats_def)
  then show ?thesis using pipeline_run_total [OF ready] pipeline_reset_total [OF ready] by blast
qed

section \<open>A concrete system\<close>

definition demo_pipeline :: "int audio_pipeline" where
  "demo_pipeline = \<lparr>pp_addr = 0, pp_stages = [[(demo_routing_element, Routing_data demo_routing)]], pp_data = [[0]],
     pp_buffers = bufs (demo_world ())\<rparr>"

definition demo_sys :: "(int, nat \<times> s64 list) audio_sys" where
  "demo_sys = \<lparr>sys_mem = smem (demo_world ()), sys_hw = (0, []), sys_table = [Some demo_pipeline, None, None, None]\<rparr>"

lemma demo_pipeline_world: "pipeline_world demo_pipeline (sys_mem demo_sys) h = demo_world h"
  by (simp add: pipeline_world_def demo_pipeline_def demo_sys_def demo_world_def)

lemma demo_pipeline_ready: "pipeline_ready 2 demo_pipeline (sys_mem demo_sys) (h :: nat \<times> s64 list)"
proof -
  have res: "world_resettable 2 (demo_world h)"
    using demo_world_ok by (simp add: world_resettable_def reset_ok_def demo_world_def)
  have el: "element_ready 2 (demo_routing_element, Routing_data demo_routing) (demo_world h)"
    using demo_ready by (simp add: element_ready_def demo_routing_element_def)
  show ?thesis unfolding pipeline_ready_def demo_pipeline_world using res el by (simp add: demo_pipeline_def)
qed

lemma demo_pipeline_total: "pipeline_total demo_pipeline"
  by (simp add: demo_pipeline_def pipeline_total_def element_total_def)

lemma demo_sys_ok: "sys_ok (\<lambda>_. 2) demo_sys"
proof -
  have el: "element_ready 2 (demo_routing_element, Routing_data demo_routing) (demo_world (0 :: nat, [] :: s64 list))"
    using demo_ready by (simp add: element_ready_def demo_routing_element_def)
  have "pipeline_silence demo_pipeline \<inter> pipeline_ranges demo_pipeline = {}"
    using element_silence_apart [OF el]
    by (auto simp: pipeline_silence_def pipeline_ranges_def demo_pipeline_def demo_world_def)
  moreover have "sys_table demo_sys ! i = Some p \<longleftrightarrow> i = 0 \<and> p = demo_pipeline" if "i < 4" for i p
  proof -
    have "i = 0 \<or> i = 1 \<or> i = 2 \<or> i = 3" using that by linarith
    then show ?thesis by (auto simp: demo_sys_def)
  qed
  ultimately show ?thesis using demo_pipeline_ready by (simp add: sys_ok_def) (simp add: demo_sys_def)
qed

theorem pipeline_run_returns_witness:
  "\<exists>rc p' m h. audio_pipeline_run demo_env (demo_pipeline, sys_mem demo_sys, sys_hw demo_sys) = Some (rc, p', m, h) \<and>
     pipeline_total p'"
  using pipeline_run_returns [OF demo_sys_ok, of 0 demo_pipeline demo_env]
    demo_pipeline_total by (simp add: demo_sys_def)

theorem pipelines_safe_witness: "\<exists>t. audio_reaches demo_env demo_sys t \<and> sys_ok (\<lambda>_. 2) t"
proof -
  obtain rc p' m h where "audio_pipeline_run demo_env (demo_pipeline, sys_mem demo_sys, sys_hw demo_sys) = Some (rc, p', m, h)"
    using pipeline_run_total [OF demo_pipeline_ready demo_pipeline_total] by blast
  then have "audio_reaches demo_env demo_sys \<lparr>sys_mem = m, sys_hw = h, sys_table = (sys_table demo_sys)[0 := Some p']\<rparr>"
    by (intro Reach_step [OF Reach_refl] Step_run) (simp_all add: demo_sys_def)
  then show ?thesis using pipelines_safe [OF demo_sys_ok] by blast
qed

end
