(* ===== verification/Motor_Law.thy ===== *)
theory Motor_Law
  imports Prelude
begin

text \<open>
  The control law of a motor: its parameters (\<open>tsn/motor/motor_params.c\<close>), the P-PI current controller
  (\<open>tsn/motor/current_control.c\<close>) and the trapezoidal trajectory planner (\<open>tsn/motor/traj_planner.c\<close>).
\<close>

section \<open>Floating point\<close>

text \<open>
  One carrier \<open>'r\<close> holds the values of \<open>double\<close>, and among them those of \<open>float\<close>. Operations with a \<open>f\<close> are
  those on \<open>float\<close> operands, with a \<open>d\<close> those on \<open>double\<close>, \<open>fl\<close> narrows to \<open>float\<close>, \<open>dec m e\<close> is the literal
  \<open>m * 10 ^ - e\<close>. The comparisons are false on a NaN.
\<close>

record 'r cflt =
  fadd :: "'r \<Rightarrow> 'r \<Rightarrow> 'r"
  fsub :: "'r \<Rightarrow> 'r \<Rightarrow> 'r"
  fmul :: "'r \<Rightarrow> 'r \<Rightarrow> 'r"
  fdiv :: "'r \<Rightarrow> 'r \<Rightarrow> 'r"
  fneg :: "'r \<Rightarrow> 'r"
  dadd :: "'r \<Rightarrow> 'r \<Rightarrow> 'r"
  dsub :: "'r \<Rightarrow> 'r \<Rightarrow> 'r"
  dmul :: "'r \<Rightarrow> 'r \<Rightarrow> 'r"
  ddiv :: "'r \<Rightarrow> 'r \<Rightarrow> 'r"
  dabs :: "'r \<Rightarrow> 'r"
  dsqrt :: "'r \<Rightarrow> 'r"
  dceil :: "'r \<Rightarrow> 'r"
  fle :: "'r \<Rightarrow> 'r \<Rightarrow> bool"
  flt :: "'r \<Rightarrow> 'r \<Rightarrow> bool"
  feq :: "'r \<Rightarrow> 'r \<Rightarrow> bool"
  fl :: "'r \<Rightarrow> 'r"
  dec :: "int \<Rightarrow> nat \<Rightarrow> 'r"
  d_of_u32 :: "u32 \<Rightarrow> 'r"
  d_of_s32 :: "s32 \<Rightarrow> 'r"
  f_of_u32 :: "u32 \<Rightarrow> 'r"
  f_of_s32 :: "s32 \<Rightarrow> 'r"
  to_u32 :: "'r \<Rightarrow> u32"
  to_s32 :: "'r \<Rightarrow> s32"

text \<open>The \<open>float\<close> nearest to a literal, and zero.\<close>

definition flit :: "'r cflt \<Rightarrow> int \<Rightarrow> nat \<Rightarrow> 'r" where
  "flit G m e = fl G (dec G m e)"

abbreviation (input) f0 :: "'r cflt \<Rightarrow> 'r" where
  "f0 G \<equiv> flit G 0 0"

section \<open>Motor parameters\<close>

record 'r motor_params =
  mp_pos_kp :: 'r
  mp_pos_gain :: 'r
  mp_speed_angular_scale :: 'r
  mp_speed_kp :: 'r
  mp_speed_ki :: 'r
  mp_max_vel_rpm :: 'r
  mp_speed_gain :: 'r
  mp_iq_max :: 'r
  mp_iq_min :: 'r
  mp_max_accel_rpm_p_s :: 'r
  mp_J :: 'r
  mp_b :: 'r
  mp_Tm :: 'r
  mp_ff_gain :: 'r

text \<open>The constants of the motor control library's \<open>m1_pmsm_appconfig.h\<close>.\<close>

record 'r m1_config =
  M1_MOTOR_PP :: 'r
  M1_SPEED_LOOP_HIGH_LIMIT :: 'r
  M1_SPEED_LOOP_LOW_LIMIT :: 'r

text \<open>The values of the selected variant, \<open>MP_IO_DEVICES_1170\<close> with \<open>MP_TEKNIC_NEW_COUPLERS\<close>.\<close>

abbreviation (input) MOTOR_J :: "'r cflt \<Rightarrow> 'r" where "MOTOR_J G \<equiv> flit G 15 5"
abbreviation (input) MOTOR_b :: "'r cflt \<Rightarrow> 'r" where "MOTOR_b G \<equiv> flit G 11 5"
abbreviation (input) MOTOR_Tm :: "'r cflt \<Rightarrow> 'r" where "MOTOR_Tm G \<equiv> flit G 65 3"

definition motor_params_default :: "'r cflt \<Rightarrow> 'r m1_config \<Rightarrow> 'r motor_params \<Rightarrow> 'r motor_params" where
  "motor_params_default G M p =
     p\<lparr>mp_pos_kp := dec G 20000 0, mp_pos_gain := flit G 1 0,
       mp_speed_angular_scale :=
         fl G (ddiv G (dec G 60 0) (dmul G (fmul G (M1_MOTOR_PP M) (dec G 2 0)) (dec G 314159265358979323846 20))),
       mp_speed_kp := flit G 2 2, mp_speed_ki := flit G 32 6, mp_max_vel_rpm := flit G 4000 0,
       mp_speed_gain := flit G 1 0,
       mp_iq_max := M1_SPEED_LOOP_HIGH_LIMIT M, mp_iq_min := M1_SPEED_LOOP_LOW_LIMIT M,
       mp_max_accel_rpm_p_s := flit G 12000 0,
       mp_J := MOTOR_J G, mp_b := MOTOR_b G, mp_Tm := MOTOR_Tm G, mp_ff_gain := flit G 1 0\<rparr>"

text \<open>
  \<open>motor_params_check\<close>: the torque needed at full speed and acceleration must not exceed the current limits, or
  speed and acceleration are scaled down in their ratio, or everything falls back to the minimum.
\<close>

definition motor_params_check :: "'r cflt \<Rightarrow> 'r motor_params \<Rightarrow> 'r motor_params" where
  "motor_params_check G p =
     (let p = (if flt G (mp_max_accel_rpm_p_s p) (dec G 1000 0) then p\<lparr>mp_max_accel_rpm_p_s := flit G 1000 0\<rparr> else p);
          p = (if flt G (mp_max_vel_rpm p) (dec G 60 0) then p\<lparr>mp_max_vel_rpm := flit G 60 0\<rparr> else p);
          p = (if flt G (mp_J p) (dec G 0 0) then p\<lparr>mp_J := MOTOR_J G\<rparr> else p);
          p = (if flt G (mp_b p) (dec G 0 0) then p\<lparr>mp_b := MOTOR_b G\<rparr> else p);
          p = (if flt G (mp_Tm p) (dec G 0 0) then p\<lparr>mp_Tm := MOTOR_Tm G\<rparr> else p);
          need = fadd G (fmul G (mp_J p) (mp_max_accel_rpm_p_s p)) (fmul G (mp_b p) (mp_max_vel_rpm p));
          p = (if flt G (mp_iq_max p) (fadd G need (mp_Tm p)) then
                 let ratio = fdiv G (mp_max_accel_rpm_p_s p) (mp_max_vel_rpm p);
                     p = p\<lparr>mp_max_vel_rpm := fdiv G (fsub G (mp_iq_max p) (mp_Tm p)) (fadd G (fmul G (mp_J p) ratio) (mp_b p))\<rparr>
                 in p\<lparr>mp_max_accel_rpm_p_s := fmul G ratio (mp_max_vel_rpm p)\<rparr>
               else p);
          need = fadd G (fmul G (mp_J p) (mp_max_accel_rpm_p_s p)) (fmul G (mp_b p) (mp_max_vel_rpm p));
          p = (if flt G (fneg G (mp_iq_min p)) (fsub G need (mp_Tm p)) then
                 let ratio = fdiv G (mp_max_accel_rpm_p_s p) (mp_max_vel_rpm p);
                     p = p\<lparr>mp_max_vel_rpm := fdiv G (fadd G (fneg G (mp_iq_min p)) (mp_Tm p)) (fadd G (fmul G (mp_J p) ratio) (mp_b p))\<rparr>
                 in p\<lparr>mp_max_accel_rpm_p_s := fmul G ratio (mp_max_vel_rpm p)\<rparr>
               else p)
      in if flt G (mp_max_accel_rpm_p_s p) (dec G 1000 0) \<or> flt G (mp_max_vel_rpm p) (dec G 60 0)
         then p\<lparr>mp_max_accel_rpm_p_s := flit G 1000 0, mp_max_vel_rpm := flit G 60 0,
                mp_J := MOTOR_J G, mp_b := MOTOR_b G, mp_Tm := MOTOR_Tm G\<rparr>
         else p)"

text \<open>The application's hook is a parameter, \<open>None\<close> when it is null.\<close>

definition motor_params_init ::
  "'r cflt \<Rightarrow> 'r m1_config \<Rightarrow> 'r motor_params \<Rightarrow> u32 \<Rightarrow> ('r motor_params \<Rightarrow> u32 \<Rightarrow> 'r motor_params) option \<Rightarrow> 'r motor_params" where
  "motor_params_init G M p mid app =
     (let p = motor_params_default G M p;
          p = (case app of None \<Rightarrow> p | Some f \<Rightarrow> f p mid)
      in motor_params_check G p)"

section \<open>Current control\<close>

datatype control_mode = CTRL_MODE_TRAJECTORY | CTRL_MODE_POSITION | CTRL_MODE_SPEED

record 'r iq_control =
  iqc_mode :: control_mode
  iqc_pos_kp :: 'r
  iqc_pos_gain :: 'r
  iqc_speed_angular_scale :: 'r
  iqc_speed_kp :: 'r
  iqc_speed_ki :: 'r
  iqc_integral :: 'r
  iqc_speed_from_pos_err :: 'r
  iqc_speed_max :: 'r
  iqc_speed_gain :: 'r
  iqc_max :: 'r
  iqc_min :: 'r
  iqc_J :: 'r
  iqc_b :: 'r
  iqc_Tm :: 'r
  iqc_ff_gain :: 'r

definition position_control :: "'r cflt \<Rightarrow> 'r iq_control \<Rightarrow> 'r \<Rightarrow> 'r \<Rightarrow> 'r" where
  "position_control G c pos_real pos_cmd =
     (let pos_err = fsub G pos_cmd pos_real;
          speed_out = fmul G pos_err (iqc_pos_kp c)
      in if fle G (iqc_speed_max c) speed_out then iqc_speed_max c
         else if fle G speed_out (fneg G (iqc_speed_max c)) then fneg G (iqc_speed_max c)
         else speed_out)"

definition speed_control :: "'r cflt \<Rightarrow> 'r iq_control \<Rightarrow> 'r \<Rightarrow> 'r \<Rightarrow> 'r \<times> 'r iq_control" where
  "speed_control G c speed_real speed_cmd =
     (let speed_cmd = fdiv G speed_cmd (iqc_speed_angular_scale c);
          speed_real = fdiv G speed_real (iqc_speed_angular_scale c);
          speed_error = fsub G speed_cmd speed_real;
          iq_out = fadd G (fmul G speed_error (iqc_speed_kp c))
                     (fmul G (fadd G (iqc_integral c) speed_error) (iqc_speed_ki c))
      in if fle G (iqc_max c) iq_out \<and> flt G (dec G 0 0) speed_error then (iq_out, c)
         else if \<not> fle G (iqc_max c) iq_out \<and> fle G iq_out (iqc_min c) \<and> flt G speed_error (dec G 0 0) then (iq_out, c)
         else (iq_out, c\<lparr>iqc_integral := fadd G (iqc_integral c) speed_error\<rparr>))"

definition iq_feedforward :: "'r cflt \<Rightarrow> 'r iq_control \<Rightarrow> 'r \<Rightarrow> 'r \<Rightarrow> 'r" where
  "iq_feedforward G c speed_real accel_cmd =
     fadd G (fadd G (fmul G (iqc_J c) accel_cmd) (fmul G (iqc_b c) speed_real)) (iqc_Tm c)"

definition iq_controller_init :: "'r cflt \<Rightarrow> 'r iq_control \<Rightarrow> control_mode \<Rightarrow> 'r motor_params \<Rightarrow> 'r iq_control" where
  "iq_controller_init G c mode p =
     c\<lparr>iqc_mode := mode, iqc_pos_kp := mp_pos_kp p, iqc_pos_gain := mp_pos_gain p,
       iqc_speed_angular_scale := mp_speed_angular_scale p, iqc_speed_kp := mp_speed_kp p, iqc_speed_ki := mp_speed_ki p,
       iqc_integral := f0 G, iqc_speed_max := fl G (dmul G (mp_max_vel_rpm p) (dec G 60 0)),
       iqc_speed_gain := mp_speed_gain p, iqc_max := mp_iq_max p, iqc_min := mp_iq_min p,
       iqc_J := mp_J p, iqc_b := mp_b p, iqc_Tm := mp_Tm p, iqc_ff_gain := mp_ff_gain p\<rparr>"

text \<open>The clamp at the end of \<open>get_iq_command\<close>.\<close>

definition iq_clamp :: "'r cflt \<Rightarrow> 'r iq_control \<Rightarrow> 'r \<Rightarrow> 'r" where
  "iq_clamp G c iq =
     (if fle G (iqc_max c) iq then iqc_max c else if fle G iq (iqc_min c) then iqc_min c else iq)"

definition get_iq_command ::
  "'r cflt \<Rightarrow> 'r iq_control \<Rightarrow> 'r \<Rightarrow> 'r \<Rightarrow> 'r \<Rightarrow> 'r \<Rightarrow> 'r \<Rightarrow> 'r \<times> 'r iq_control" where
  "get_iq_command G c pos_real speed_real pos_cmd speed_cmd accel_cmd =
     (let (c, speed_cmd) =
            (case iqc_mode c of
               CTRL_MODE_TRAJECTORY \<Rightarrow>
                 let c = c\<lparr>iqc_speed_from_pos_err := position_control G c pos_real pos_cmd\<rparr>
                 in (c, fadd G speed_cmd (fmul G (iqc_pos_gain c) (iqc_speed_from_pos_err c)))
             | CTRL_MODE_POSITION \<Rightarrow> (c, position_control G c pos_real pos_cmd)
             | CTRL_MODE_SPEED \<Rightarrow> (c, speed_cmd));
          iq_cmd = fmul G (iqc_ff_gain c) (iq_feedforward G c speed_real accel_cmd);
          (iq_out, c) = speed_control G c speed_real speed_cmd;
          iq_cmd = fadd G iq_cmd (fmul G (iqc_speed_gain c) iq_out)
      in (iq_clamp G c iq_cmd, c))"

section \<open>Trajectories\<close>

record 'r traj_trapez =
  tr_cycles_accel :: u32
  tr_cycles_constant_vel :: u32
  tr_cycles_total :: u32
  tr_start_cycle :: u32
  tr_ff_current :: 'r
  tr_pos_init :: 'r
  tr_speed_init :: 'r
  tr_pos_target :: 'r
  tr_sign_traj :: 'r
  tr_y_end_accel :: 'r
  tr_accel_max :: 'r
  tr_speed_max :: 'r
  tr_loop_freq :: 'r
  tr_reset_flag :: bool

definition compute_trap_traj ::
  "'r cflt \<Rightarrow> 'r traj_trapez \<Rightarrow> u32 \<Rightarrow> 'r \<Rightarrow> 'r \<Rightarrow> 'r \<Rightarrow> 'r \<Rightarrow> u32 \<Rightarrow> 'r motor_params \<Rightarrow> 'r traj_trapez" where
  "compute_trap_traj G traj start_cycle pos_target actual_pos actual_speed speed_max app_period_ns p =
     (if \<not> feq G pos_target (tr_pos_target traj) \<or> tr_reset_flag traj then
        let traj = traj\<lparr>tr_reset_flag := False\<rparr>;
            traj = traj\<lparr>tr_loop_freq := fl G (ddiv G (dec G 1000000000 0) (d_of_u32 G app_period_ns))\<rparr>;
            speed_max = (if flt G (mp_max_vel_rpm p) speed_max then mp_max_vel_rpm p else speed_max);
            speed_max = fl G (ddiv G speed_max (dec G 60 0));
            actual_speed = fl G (ddiv G actual_speed (dec G 60 0));
            accel_max = fl G (ddiv G (mp_max_accel_rpm_p_s p) (dec G 60 0));
            traj = traj\<lparr>tr_start_cycle := start_cycle, tr_accel_max := accel_max, tr_speed_max := speed_max,
                        tr_speed_init := actual_speed, tr_pos_init := actual_pos, tr_pos_target := pos_target\<rparr>;
            pos_target = fsub G pos_target actual_pos;
            traj = traj\<lparr>tr_sign_traj := (if flt G (dec G 0 0) pos_target then dec G 1 0 else fneg G (dec G 1 0))\<rparr>;
            sgn = tr_sign_traj traj;
            t_a_max = fdiv G (fsub G speed_max actual_speed) accel_max;
            min_dist = fl G (dadd G (dmul G (dmul G (dec G 5 1) t_a_max) (fadd G speed_max actual_speed))
                                    (dmul G (dmul G (dec G 5 1) t_a_max) speed_max));
            (vel_reached, t_v) =
              (if flt G (fmul G sgn pos_target) min_dist then
                 (fl G (dsqrt G (ddiv G
                    (dsub G (dmul G (dmul G (dmul G (dmul G (dec G 2 0) accel_max) accel_max) sgn) pos_target)
                            (fmul G (fmul G accel_max actual_speed) actual_speed))
                    (fmul G (f_of_s32 G 2) accel_max))), f0 G)
               else (speed_max, fdiv G (fsub G (fmul G sgn pos_target) min_dist) speed_max));
            t_a = fdiv G (fsub G vel_reached actual_speed) accel_max;
            traj = traj\<lparr>tr_speed_max := vel_reached, tr_cycles_accel := to_u32 G (fmul G t_a (tr_loop_freq traj)),
                        tr_cycles_constant_vel := to_u32 G (fmul G t_v (tr_loop_freq traj))\<rparr>;
            traj = traj\<lparr>tr_cycles_total := to_u32 G (dadd G (dmul G (dec G 2 0) (d_of_u32 G (tr_cycles_accel traj)))
                                                             (d_of_u32 G (tr_cycles_constant_vel traj)))\<rparr>
        in traj\<lparr>tr_y_end_accel := fl G (dadd G (tr_pos_init traj) (dmul G sgn
               (dadd G (fmul G actual_speed t_a) (dmul G (dmul G (dec G 5 1) accel_max) (fmul G t_a t_a)))))\<rparr>
      else traj)"

text \<open>The position, speed and acceleration of a trajectory at a cycle.\<close>

definition evaluate_trap_traj :: "'r cflt \<Rightarrow> 'r traj_trapez \<Rightarrow> u32 \<Rightarrow> 'r \<times> 'r \<times> 'r" where
  "evaluate_trap_traj G traj cycle =
     (let cycle = cycle - tr_start_cycle traj;
          t = fdiv G (f_of_u32 G cycle) (tr_loop_freq traj);
          scaled = (\<lambda>pos speed accel.
            (pos, fl G (dmul G speed (dmul G (dec G 60 0) (tr_sign_traj traj))),
                  fl G (dmul G accel (dmul G (dec G 60 0) (tr_sign_traj traj)))))
      in if cycle < tr_cycles_accel traj then
           scaled
             (fl G (dadd G (tr_pos_init traj) (dmul G (tr_sign_traj traj)
                (dadd G (fmul G (tr_speed_init traj) t) (dmul G (dmul G (dec G 5 1) (tr_accel_max traj)) (fmul G t t))))))
             (fadd G (tr_speed_init traj) (fmul G (tr_accel_max traj) t)) (tr_accel_max traj)
         else if cycle < tr_cycles_accel traj + tr_cycles_constant_vel traj then
           scaled
             (fadd G (tr_y_end_accel traj) (fmul G (fmul G (tr_sign_traj traj) (tr_speed_max traj))
                (fsub G t (fdiv G (f_of_u32 G (tr_cycles_accel traj)) (tr_loop_freq traj)))))
             (tr_speed_max traj) (f0 G)
         else if cycle < tr_cycles_total traj then
           (let t_decel = fsub G t (fdiv G (f_of_u32 G (tr_cycles_total traj)) (tr_loop_freq traj))
            in scaled
                 (fl G (dsub G (tr_pos_target traj) (dmul G (dmul G (dmul G (tr_sign_traj traj) (dec G 5 1)) (tr_accel_max traj))
                    (fmul G t_decel t_decel))))
                 (fmul G (fneg G (tr_accel_max traj)) t_decel) (fneg G (tr_accel_max traj)))
         else (tr_pos_target traj, f0 G, f0 G))"

definition reset_trap_traj :: "'r cflt \<Rightarrow> 'r traj_trapez \<Rightarrow> 'r traj_trapez" where
  "reset_trap_traj G traj =
     traj\<lparr>tr_reset_flag := True, tr_pos_target := f0 G, tr_cycles_accel := 0, tr_cycles_constant_vel := 0,
          tr_cycles_total := 0, tr_ff_current := f0 G, tr_pos_init := f0 G, tr_speed_init := f0 G,
          tr_sign_traj := f0 G, tr_y_end_accel := f0 G, tr_accel_max := f0 G, tr_speed_max := f0 G\<rparr>"

end
