(* ===== verification/Motor_Scenario.thy ===== *)
theory Motor_Scenario
  imports Motor_Law
begin

text \<open>
  Scenarios, \<open>tsn/motor/scenarios.c\<close>: the tables of moves and the iterator a motor follows through one of them.
\<close>

section \<open>The tables\<close>

text \<open>
  A block is \<open>(pos_target in thousandths of a revolution, after_delay in cycles, speed_max in rpm)\<close>; \<open>time_to_reach\<close>
  is zero in all of them and not read. \<open>blocks_test\<close> has no initialiser for its block 5, which is therefore zero.
\<close>

definition blocks_0 :: "(int \<times> u32 \<times> int) list" where
  "blocks_0 = [
    (- 125, 1000, 500), (- 750, 1000, 500), (- 250, 1000, 500), (1875, 1000, 200), (- 625, 1000, 200),
    (- 375, 1000, 500), (- 250, 1000, 500), (20500, 1000, 500), (7250, 1000, 500), (1750, 1000, 500),
    (1625, 1000, 5), (0, 1000, 500), (250, 1000, 10), (- 250, 1000, 10), (- 125, 1000, 500), (125, 1000, 500),
    (250, 1000, 500), (250, 1000, 500), (0, 1000, 500)]"

definition blocks_0_rev :: "(int \<times> u32 \<times> int) list" where
  "blocks_0_rev = [
    (125, 1000, 500), (750, 1000, 500), (250, 1000, 500), (- 1875, 1000, 200), (625, 1000, 200), (375, 1000, 500),
    (250, 1000, 500), (- 20500, 1000, 500), (- 7250, 1000, 500), (- 1750, 1000, 500), (- 1625, 1000, 5),
    (0, 1000, 500), (250, 1000, 10), (- 250, 1000, 10), (- 125, 1000, 500), (125, 1000, 500), (250, 1000, 500),
    (250, 1000, 500), (0, 1000, 500)]"

definition blocks_2 :: "(int \<times> u32 \<times> int) list" where
  "blocks_2 = [
    (125, 0, 8), (250, 0, 8), (375, 0, 8), (500, 0, 16), (625, 0, 16), (750, 0, 16), (875, 0, 32), (1000, 0, 32),
    (1125, 0, 32), (1250, 0, 64), (1375, 0, 64), (1500, 0, 64), (1625, 0, 128), (1750, 0, 128), (1875, 0, 128),
    (2000, 0, 256), (2125, 0, 256), (2250, 0, 256), (2375, 0, 512), (2500, 0, 1024), (2625, 0, 1024),
    (2750, 0, 2048), (2875, 0, 2048), (3000, 0, 2048), (3125, 0, 2048), (3250, 0, 2048), (3375, 0, 2048),
    (3500, 0, 2048), (3625, 0, 2048), (3750, 0, 2048), (3875, 0, 2048), (4000, 0, 2048), (4125, 0, 2048),
    (4250, 0, 2048), (4375, 0, 2048), (4500, 0, 2048), (4625, 0, 2048), (4750, 0, 2048), (4875, 0, 2048),
    (5000, 0, 2048), (5125, 0, 4000), (5250, 0, 4000), (5375, 0, 4000), (5500, 0, 4000), (5625, 0, 4000),
    (5750, 0, 4000), (5875, 0, 4000), (6000, 0, 4000), (6125, 0, 4000), (6250, 0, 4000), (6375, 0, 4000),
    (6500, 0, 4000), (6625, 0, 4000), (6750, 0, 4000), (6875, 0, 4000), (7000, 0, 4000), (7125, 0, 4000),
    (7250, 0, 4000), (7375, 0, 4000), (7500, 0, 4000), (7625, 0, 4000), (7750, 0, 4000), (7875, 0, 4000),
    (8000, 0, 4000), (8125, 0, 4000), (8250, 0, 4000), (8375, 0, 4000), (8500, 0, 4000), (8625, 0, 4000),
    (8750, 0, 4000), (8875, 0, 4000), (9000, 0, 4000), (9125, 0, 4000), (9250, 0, 4000), (9375, 0, 4000),
    (9500, 0, 4000), (9625, 0, 4000), (9750, 0, 4000), (9875, 0, 4000), (10000, 0, 4000), (10125, 0, 4000),
    (10250, 0, 4000), (10375, 0, 4000), (10500, 0, 4000), (10625, 0, 4000), (10750, 0, 4000), (10875, 0, 4000),
    (11000, 0, 4000), (11125, 0, 4000), (11250, 0, 4000), (11375, 0, 4000), (11500, 0, 4000), (11625, 0, 4000),
    (11750, 0, 4000), (11875, 0, 4000), (12000, 0, 4000), (12125, 0, 4000), (12250, 0, 4000), (12375, 0, 4000),
    (12500, 0, 4000), (12625, 0, 4000), (12750, 0, 4000), (12875, 0, 4000), (13000, 0, 4000), (13125, 0, 4000),
    (13250, 0, 4000), (13375, 0, 4000), (13500, 0, 4000), (13625, 0, 4000), (13750, 0, 4000), (13875, 0, 4000),
    (14000, 0, 4000), (14125, 0, 4000), (14250, 0, 4000), (14375, 0, 4000), (14500, 0, 4000), (14625, 0, 4000),
    (14750, 0, 4000), (14875, 0, 4000), (15000, 0, 4000), (15125, 0, 4000), (15250, 0, 4000), (15375, 0, 4000),
    (15500, 0, 4000), (15625, 0, 4000), (15750, 0, 4000), (15875, 0, 4000), (16000, 0, 4000), (16125, 0, 4000),
    (16250, 0, 4000), (16375, 0, 4000), (16500, 0, 4000), (16625, 0, 4000), (16750, 0, 4000), (16875, 0, 4000),
    (17000, 0, 4000), (17125, 0, 4000), (17250, 0, 4000), (17375, 0, 4000), (17500, 0, 4000), (17625, 0, 4000),
    (17750, 0, 4000), (17875, 0, 4000), (18000, 0, 4000), (17000, 0, 4000), (16250, 0, 4000), (16125, 0, 4000),
    (15500, 0, 4000), (15000, 0, 4000), (14750, 0, 4000), (14375, 0, 4000), (14000, 0, 4000), (13500, 0, 4000),
    (13000, 0, 4000), (12000, 0, 4000), (11500, 0, 4000), (11250, 0, 4000), (11000, 0, 4000), (10625, 0, 4000),
    (10500, 0, 4000), (10000, 0, 4000), (9500, 0, 4000), (9250, 0, 4000), (8750, 0, 4000), (8250, 0, 4000),
    (8000, 0, 4000), (7625, 0, 4000), (7500, 0, 4000), (7000, 0, 4000), (6500, 0, 4000), (5500, 0, 4000),
    (5250, 0, 4000), (5125, 0, 4000), (4250, 0, 4000), (3875, 0, 4000), (3625, 0, 4000), (3500, 0, 4000),
    (3250, 0, 4000), (3125, 0, 4000), (3000, 0, 4000), (2500, 0, 4000), (3000, 0, 4000), (2500, 0, 4000),
    (2000, 0, 4000), (1750, 0, 4000), (1500, 0, 4000), (1250, 0, 4000), (1000, 0, 4000), (750, 0, 4000),
    (500, 0, 4000), (250, 0, 4000), (0, 5000, 4000)]"

definition blocks_test :: "(int \<times> u32 \<times> int) list" where
  "blocks_test = [
    (125, 100, 15), (250, 100, 15), (375, 100, 15), (500, 100, 15), (625, 100, 15), (0, 0, 0), (750, 100, 15),
    (875, 100, 15), (1000, 100, 15), (1250, 100, 15), (1500, 100, 15), (1750, 100, 15), (2000, 100, 15),
    (2500, 100, 15), (3000, 100, 15), (3125, 100, 100), (3250, 100, 100), (3375, 100, 100), (3500, 0, 100),
    (3625, 100, 100), (3750, 100, 100), (3875, 100, 100), (4000, 100, 100), (4250, 100, 100), (4500, 100, 100),
    (4750, 100, 100), (5000, 100, 100), (5500, 100, 100), (6000, 100, 100), (6125, 100, 500), (6250, 100, 500),
    (6375, 100, 500), (6500, 100, 500), (6625, 100, 500), (6750, 100, 500), (6875, 100, 500), (7000, 100, 500),
    (7250, 100, 500), (7500, 100, 500), (7750, 100, 500), (8000, 100, 500), (8500, 100, 500), (9000, 1000, 500),
    (14000, 500, 500), (24000, 1000, 1000), (0, 1000, 1000)]"

section \<open>The iterator\<close>

text \<open>\<open>sc_blocks\<close> is \<open>None\<close> for the null pointer.\<close>

record 'r scenario_ctx =
  sc_blocks :: "(int \<times> u32 \<times> int) list option"
  sc_iterator :: u16
  sc_size :: u32
  sc_app_period_ns :: u32
  sc_pos_target :: 'r
  sc_time_to_reach :: u32
  sc_after_delay :: u32
  sc_speed_max :: 'r

abbreviation (input) APP_PERIOD_250_US :: u32 where "APP_PERIOD_250_US \<equiv> 250000"
abbreviation (input) SCENARIO_SYNCHRONIZED :: int where "SCENARIO_SYNCHRONIZED \<equiv> 0"
abbreviation (input) SCENARIO_SYNCHRONIZED_REVERSE :: int where "SCENARIO_SYNCHRONIZED_REVERSE \<equiv> 1"
abbreviation (input) SCENARIO_INTERLACED :: int where "SCENARIO_INTERLACED \<equiv> 2"
abbreviation (input) SCENARIO_TEST :: int where "SCENARIO_TEST \<equiv> 3"

text \<open>\<open>None\<close> is a read beyond the table or a division by a zero period.\<close>

definition get_scenario_block :: "'r cflt \<Rightarrow> 'r scenario_ctx \<Rightarrow> 'r scenario_ctx option" where
  "get_scenario_block G ctx =
     (case sc_blocks ctx of
        None \<Rightarrow> Some ctx
      | Some blocks \<Rightarrow>
          if unat (sc_iterator ctx) \<ge> length blocks \<or> sc_app_period_ns ctx = 0 then None
          else (case blocks ! unat (sc_iterator ctx) of (pos, delay, speed) \<Rightarrow>
            Some (ctx\<lparr>sc_pos_target := flit G pos 3, sc_speed_max := flit G speed 0,
                      sc_after_delay := (delay * APP_PERIOD_250_US) div sc_app_period_ns ctx\<rparr>)))"

text \<open>\<open>None\<close> is a remainder by a zero size.\<close>

definition next_block_scenario :: "'r scenario_ctx \<Rightarrow> 'r scenario_ctx option" where
  "next_block_scenario ctx =
     (let ctx = ctx\<lparr>sc_iterator := sc_iterator ctx + 1\<rparr>
      in if sc_size ctx = 0 then None
         else Some (ctx\<lparr>sc_iterator := ucast ((ucast (sc_iterator ctx) :: u32) mod sc_size ctx)\<rparr>))"

definition scenario_init :: "'r cflt \<Rightarrow> 'r scenario_ctx \<Rightarrow> int \<Rightarrow> u32 \<Rightarrow> int \<times> 'r scenario_ctx" where
  "scenario_init G ctx id_scenario app_period_ns =
     (let ctx = ctx\<lparr>sc_iterator := 0, sc_pos_target := f0 G, sc_speed_max := f0 G, sc_app_period_ns := app_period_ns\<rparr>;
          use = (\<lambda>blocks. (0, ctx\<lparr>sc_blocks := Some blocks, sc_size := of_nat (length blocks)\<rparr>))
      in if id_scenario = SCENARIO_SYNCHRONIZED then use blocks_0
         else if id_scenario = SCENARIO_SYNCHRONIZED_REVERSE then use blocks_0_rev
         else if id_scenario = SCENARIO_INTERLACED then use blocks_2
         else if id_scenario = SCENARIO_TEST then use blocks_test
         else (- 1, ctx))"

definition reset_scenario :: "'r cflt \<Rightarrow> 'r scenario_ctx \<Rightarrow> 'r scenario_ctx" where
  "reset_scenario G ctx =
     ctx\<lparr>sc_blocks := None, sc_iterator := 0, sc_pos_target := f0 G, sc_speed_max := f0 G, sc_after_delay := 0,
         sc_time_to_reach := 0, sc_size := 0\<rparr>"

section \<open>Following a scenario\<close>

text \<open>A scenario in progress: its size is that of its table and the iterator is inside.\<close>

definition scenario_ready :: "'r scenario_ctx \<Rightarrow> bool" where
  "scenario_ready ctx \<longleftrightarrow>
     (case sc_blocks ctx of
        None \<Rightarrow> False
      | Some blocks \<Rightarrow> blocks \<noteq> [] \<and> length blocks < 2 ^ 16 \<and> sc_size ctx = of_nat (length blocks) \<and>
          unat (sc_iterator ctx) < length blocks \<and> sc_app_period_ns ctx \<noteq> 0)"

lemma blocks_lengths: "length blocks_0 = 19" "length blocks_0_rev = 19" "length blocks_2 = 192" "length blocks_test = 46"
  by (simp_all add: blocks_0_def blocks_0_rev_def blocks_2_def blocks_test_def)

lemma scenario_init_ready:
  assumes "period \<noteq> 0" and "scenario_init G ctx sid period = (0, ctx')"
  shows "scenario_ready ctx'" and "sc_iterator ctx' = 0"
  using assms blocks_lengths
  by (auto simp: scenario_init_def scenario_ready_def Let_def split: if_splits)

lemma scenario_init_cases: "sid \<in> {0, 1, 2, 3} \<Longrightarrow> \<exists>ctx'. scenario_init G ctx sid period = (0, ctx')"
  by (auto simp: scenario_init_def Let_def)

lemma get_scenario_block_ready:
  assumes "scenario_ready ctx"
  shows "\<exists>ctx'. get_scenario_block G ctx = Some ctx' \<and> scenario_ready ctx' \<and> sc_blocks ctx' = sc_blocks ctx \<and>
    sc_iterator ctx' = sc_iterator ctx"
proof -
  obtain blocks where b: "sc_blocks ctx = Some blocks" using assms by (auto simp: scenario_ready_def split: option.splits)
  obtain p d s where e: "blocks ! unat (sc_iterator ctx) = (p, d, s)" by (metis prod_cases3)
  show ?thesis using assms by (auto simp: get_scenario_block_def scenario_ready_def b e)
qed

lemma next_block_scenario_ready:
  assumes "scenario_ready ctx"
  shows "\<exists>ctx'. next_block_scenario ctx = Some ctx' \<and> scenario_ready ctx' \<and> sc_blocks ctx' = sc_blocks ctx \<and>
    unat (sc_iterator ctx') = (unat (sc_iterator ctx) + 1) mod length (the (sc_blocks ctx))"
proof -
  obtain blocks where b: "sc_blocks ctx = Some blocks" and r: "blocks \<noteq> []" "length blocks < 2 ^ 16"
    "sc_size ctx = of_nat (length blocks)" "unat (sc_iterator ctx) < length blocks" "sc_app_period_ns ctx \<noteq> 0"
    using assms by (auto simp: scenario_ready_def split: option.splits)
  let ?n = "length blocks"
  have n: "unat (sc_size ctx) = ?n" unfolding r(3) using r(2) by (simp add: unat32_of_nat)
  then have nz: "sc_size ctx \<noteq> 0" using r(1) by auto
  have s: "unat (sc_iterator ctx + 1) = unat (sc_iterator ctx) + 1"
    using unat_add_small [of "sc_iterator ctx" 1] r(2,4) by simp
  let ?i = "ucast (((ucast (sc_iterator ctx + 1)) :: u32) mod sc_size ctx) :: u16"
  have u: "unat ((ucast (sc_iterator ctx + 1) :: u32) mod sc_size ctx) = (unat (sc_iterator ctx) + 1) mod ?n"
    by (simp only: unat_mod n unat_ucast_16_32 s)
  have "unat ?i = unat ((ucast (sc_iterator ctx + 1) :: u32) mod sc_size ctx) mod 2 ^ 16"
    by (simp only: unsigned_ucast_eq take_bit_eq_mod) simp
  also have "\<dots> = (unat (sc_iterator ctx) + 1) mod ?n"
    unfolding u using r(1,2) by (metis length_greater_0_conv less_trans mod_less mod_less_divisor)
  finally show ?thesis
    using r b nz by (simp add: next_block_scenario_def scenario_ready_def)
qed

end
