(* ===== verification/Motor_Strategy.thy ===== *)
theory Motor_Strategy
  imports Motor_Scenario Stats "HOL-Library.Monad_Syntax"
begin

text \<open>
  The control strategies, \<open>tsn/motor/control_strategies.c\<close>: the motors of a controller, the strategies with their
  prepare, startup, init, loop and reset operations, and the state machine that calls them.
\<close>

section \<open>State\<close>

datatype strategy_rc = CTRL_STRAT_ERROR | CTRL_STRAT_WAIT | CTRL_STRAT_OK

datatype strategy_state = PREPARE | STARTUP | INIT | CONTROL | RESET

text \<open>\<open>control_strategies_t\<close> is counted on and taken modulo, so it is kept as the number it is.\<close>

abbreviation (input) CTRL_STRAT_SYNCHRONIZED :: u32 where "CTRL_STRAT_SYNCHRONIZED \<equiv> 0"
abbreviation (input) CTRL_STRAT_FOLLOW :: u32 where "CTRL_STRAT_FOLLOW \<equiv> 1"
abbreviation (input) CTRL_STRAT_HOLD_INDEX :: u32 where "CTRL_STRAT_HOLD_INDEX \<equiv> 2"
abbreviation (input) CTRL_STRAT_INTERLACED :: u32 where "CTRL_STRAT_INTERLACED \<equiv> 3"
abbreviation (input) CTRL_STRAT_STOP :: u32 where "CTRL_STRAT_STOP \<equiv> 4"
abbreviation (input) CTRL_STRAT_IDENTIFICATION :: u32 where "CTRL_STRAT_IDENTIFICATION \<equiv> 5"
abbreviation (input) MAX_NUM_CONTROL_STRATEGIES :: u16 where "MAX_NUM_CONTROL_STRATEGIES \<equiv> 6"

record 'r motor_feedback =
  fb_motor_id :: u16
  fb_pos :: 'r
  fb_speed :: 'r
  fb_iq_meas :: 'r
  fb_id_meas :: 'r
  fb_uq_applied :: 'r
  fb_dc_bus :: 'r
  fb_cur_a :: 'r
  fb_cur_b :: 'r
  fb_cur_c :: 'r

record 'r net_stat_msg =
  ns_id :: u16
  ns_seqid :: u32
  ns_demo_count :: u64
  ns_pos_real :: 'r
  ns_pos_target :: 'r
  ns_speed_real :: 'r
  ns_speed_target_ff :: 'r
  ns_speed_out_pos_err :: 'r
  ns_iq_req :: 'r
  ns_iq_real :: 'r
  ns_id_real :: 'r
  ns_uq_applied_fb :: 'r
  ns_dc_bus_fb :: 'r

record 'r stats_controlled_motor =
  sm_pending :: bool
  sm_pos_target :: 'r
  sm_startup_offset :: 'r
  sm_pos_real :: 'r
  sm_speed_real :: 'r
  sm_iq_req :: 'r
  sm_err_margin :: u32
  sm_err_margin_stop :: u32
  sm_last_margin_error :: 'r
  sm_pos_err_deg :: rtos_apps_stats
  sm_pos_err_deg_hist :: rtos_apps_hist
  sm_pos_err_max :: s32

record 'r controlled_motor =
  mo_id :: u16
  mo_startup_offset :: 'r
  mo_iq_req :: 'r
  mo_fb :: "'r motor_feedback"
  mo_pos_target :: 'r
  mo_speed_target :: 'r
  mo_accel_target :: 'r
  mo_speed_max :: 'r
  mo_accel_max :: 'r
  mo_traj :: "'r traj_trapez"
  mo_scenario :: "'r scenario_ctx"
  mo_runtime :: "'r iq_control"
  mo_startup :: "'r iq_control"
  mo_params :: "'r motor_params"
  mo_demo_count :: u32
  mo_absolute_time :: u64
  mo_seqid_stats :: u32
  mo_stats_snap :: "'r stats_controlled_motor"
  mo_stats :: "'r stats_controlled_motor"
  mo_nb_errors :: u32
  mo_net_stats :: "'r net_stat_msg"

record 'r identification_ctx =
  id_state :: u32
  id_start_count :: u32
  id_state_count :: u32
  id_iq_min :: 'r
  id_iq_step :: 'r
  id_i :: u32
  id_i_max :: u32
  id_motor :: u32
  id_t0 :: 'r
  id_t1 :: 'r
  id_t2 :: 'r
  id_speed_t0 :: 'r
  id_speed_t1 :: 'r
  id_speed_t2 :: 'r
  id_pos_t0 :: 'r
  id_pos_t1 :: 'r
  id_pos_t2 :: 'r
  id_speed_final :: "nat \<Rightarrow> nat \<Rightarrow> 'r"
  id_alpha :: 'r
  id_b_J :: "nat \<Rightarrow> nat \<Rightarrow> 'r"
  id_id :: "nat \<Rightarrow> u16"

record stats_control_strategy =
  ss_pending :: bool
  ss_current_strategy :: u32
  ss_old_strategy :: u32
  ss_state :: strategy_state

text \<open>
  \<open>struct control_strategy_ctx\<close>: \<open>cs_motors\<close> is \<open>motor_list\<close> in its order, each motor with its address. The union's
  members \<open>interlaced_context\<close> and \<open>identification.interlaced\<close> are the same memory and one here; \<open>None\<close> is the null
  pointer. \<open>cs_err_cb\<close> tells whether an error callback is set; its calls are results of the operations.
\<close>

record 'r control_strategy =
  cs_motors :: "(nat \<times> 'r controlled_motor) list"
  cs_current :: u32
  cs_old :: u32
  cs_num_strategies :: u16
  cs_num_motors :: u16
  cs_net_stats_pending :: bool
  cs_state :: strategy_state
  cs_stats_snap :: stats_control_strategy
  cs_stats :: stats_control_strategy
  cs_err_cb :: bool
  cs_static :: "nat option"
  cs_dynamic :: "nat option"
  cs_startup_delay :: u32
  cs_ident :: "'r identification_ctx"
  cs_app_period_ns :: u32

section \<open>Motors of the list\<close>

text \<open>
  \<open>slist_for_each\<close> with a body on one motor (its address, itself) and an accumulator; the body's last result is its
  \<open>goto err\<close>. \<open>None\<close> is a trap.
\<close>

primrec each_motor ::
  "(nat \<Rightarrow> 'm \<Rightarrow> 'a \<Rightarrow> ('m \<times> 'a \<times> bool) option) \<Rightarrow> (nat \<times> 'm) list \<Rightarrow> 'a \<Rightarrow> ((nat \<times> 'm) list \<times> 'a \<times> bool) option" where
  "each_motor f [] acc = Some ([], acc, False)"
| "each_motor f (x # xs) acc =
     (case f (fst x) (snd x) acc of
        None \<Rightarrow> None
      | Some (m, acc, err) \<Rightarrow>
          if err then Some ((fst x, m) # xs, acc, True)
          else (case each_motor f xs acc of
                  None \<Rightarrow> None
                | Some (ys, acc, err) \<Rightarrow> Some ((fst x, m) # ys, acc, err)))"

text \<open>The same with a body that only updates the motor.\<close>

definition map_motors :: "('r controlled_motor \<Rightarrow> 'r controlled_motor) \<Rightarrow> 'r control_strategy \<Rightarrow> 'r control_strategy" where
  "map_motors f ctx = ctx\<lparr>cs_motors := map (\<lambda>(a, m). (a, f m)) (cs_motors ctx)\<rparr>"

text \<open>Access through a pointer; it traps when null, or when the motor is gone.\<close>

definition motor_at :: "nat option \<Rightarrow> 'r control_strategy \<Rightarrow> 'r controlled_motor option" where
  "motor_at p ctx = (case p of None \<Rightarrow> None | Some a \<Rightarrow> map_of (cs_motors ctx) a)"

definition motor_upd ::
  "nat option \<Rightarrow> ('r controlled_motor \<Rightarrow> 'r controlled_motor) \<Rightarrow> 'r control_strategy \<Rightarrow> 'r control_strategy option" where
  "motor_upd p f ctx =
     (case motor_at p ctx of
        None \<Rightarrow> None
      | Some _ \<Rightarrow> Some (ctx\<lparr>cs_motors := map (\<lambda>(a, m). if Some a = p then (a, f m) else (a, m)) (cs_motors ctx)\<rparr>))"

text \<open>The same with a function that may trap and has a result.\<close>

definition motor_do ::
  "nat option \<Rightarrow> ('r controlled_motor \<Rightarrow> ('b \<times> 'r controlled_motor) option) \<Rightarrow> 'r control_strategy \<Rightarrow>
     ('b \<times> 'r control_strategy) option" where
  "motor_do p f ctx =
     do { m \<leftarrow> motor_at p ctx; (b, m) \<leftarrow> f m; ctx \<leftarrow> motor_upd p (\<lambda>_. m) ctx; Some (b, ctx) }"

section \<open>Position errors\<close>

abbreviation (input) ZERO_ALIGNEMENT_DELAY :: u32 where "ZERO_ALIGNEMENT_DELAY \<equiv> 5000"
abbreviation (input) STOP_DELAY :: u32 where "STOP_DELAY \<equiv> 5000"
abbreviation (input) MARGIN_POSITION_ERROR :: "'r cflt \<Rightarrow> 'r" where "MARGIN_POSITION_ERROR G \<equiv> flit G 55 3"
abbreviation (input) POSITION_ACCURACY :: "'r cflt \<Rightarrow> 'r" where "POSITION_ACCURACY G \<equiv> flit G 2 2"

definition check_margin_position ::
  "'r cflt \<Rightarrow> 'r controlled_motor \<Rightarrow> 'r \<Rightarrow> 'r \<Rightarrow> 'r \<Rightarrow> bool \<times> 'r controlled_motor" where
  "check_margin_position G motor pos_real pos_target margin =
     (let gap = fl G (dabs G (fsub G pos_real pos_target))
      in if flt G margin gap
         then (False, motor\<lparr>mo_stats := (mo_stats motor)\<lparr>sm_err_margin := sm_err_margin (mo_stats motor) + 1,
                 sm_last_margin_error := fl G (dmul G gap (dec G 360 0))\<rparr>\<rparr>)
         else (True, motor))"

text \<open>The histogram update traps outside its slots; the statistics have no callback.\<close>

definition update_pos_err_stat :: "'r cflt \<Rightarrow> 'r controlled_motor \<Rightarrow> 'r \<Rightarrow> 'r \<Rightarrow> 'r controlled_motor option" where
  "update_pos_err_stat G motor pos pos_target =
     (let err = dmul G (dabs G (fsub G pos pos_target)) (dec G 360 0);
          pos_err_deg_stats = to_s32 G (dmul G err (dec G 100 0));
          pos_err_deg_hist = to_u32 G (dmul G err (dec G 10 0));
          st = mo_stats motor;
          st = st\<lparr>sm_pos_err_deg := rtos_apps_stats_update (\<lambda>_ s. s) (sm_pos_err_deg st) pos_err_deg_stats\<rparr>
      in case rtos_apps_hist_update (sm_pos_err_deg_hist st) pos_err_deg_hist of
           None \<Rightarrow> None
         | Some h \<Rightarrow>
             let st = st\<lparr>sm_pos_err_deg_hist := h\<rparr>;
                 st = (if sint pos_err_deg_stats > \<bar>sint (sm_pos_err_max st)\<bar>
                       then st\<lparr>sm_pos_err_max := to_s32 G (dmul G (dmul G (fsub G pos pos_target) (dec G 360 0)) (dec G 100 0))\<rparr>
                       else st)
             in Some (motor\<lparr>mo_stats := st\<rparr>))"

text \<open>
  The check of the running strategies: an excursion counts up \<open>nb_errors\<close>, a position in the margin counts it down,
  and beyond three the strategy stops.
\<close>

definition margin_watch :: "'r cflt \<Rightarrow> 'r controlled_motor \<Rightarrow> 'r \<Rightarrow> 'r \<Rightarrow> 'r controlled_motor \<times> bool" where
  "margin_watch G motor pos pos_target =
     (let (ok, motor) = check_margin_position G motor pos pos_target (MARGIN_POSITION_ERROR G)
      in if \<not> ok then
           (let motor = motor\<lparr>mo_nb_errors := mo_nb_errors motor + 1\<rparr>
            in if mo_nb_errors motor > 3
               then (motor\<lparr>mo_stats := (mo_stats motor)\<lparr>sm_err_margin_stop := sm_err_margin_stop (mo_stats motor) + 1\<rparr>\<rparr>, True)
               else (motor, False))
         else if mo_nb_errors motor > 0 then (motor\<lparr>mo_nb_errors := mo_nb_errors motor - 1\<rparr>, False)
         else (motor, False))"

text \<open>Steps the strategies share: the trajectory at the current cycle, and the two controllers' commands.\<close>

definition motor_set_targets :: "'r \<times> 'r \<times> 'r \<Rightarrow> 'r controlled_motor \<Rightarrow> 'r controlled_motor" where
  "motor_set_targets psa m = (case psa of (p, s, a) \<Rightarrow> m\<lparr>mo_pos_target := p, mo_speed_target := s, mo_accel_target := a\<rparr>)"

definition motor_startup_iq :: "'r cflt \<Rightarrow> 'r \<Rightarrow> 'r \<Rightarrow> 'r controlled_motor \<Rightarrow> 'r controlled_motor" where
  "motor_startup_iq G speed accel m =
     (let (iq, c) = get_iq_command G (mo_startup m) (fb_pos (mo_fb m)) (fb_speed (mo_fb m)) (mo_pos_target m) speed accel
      in m\<lparr>mo_iq_req := iq, mo_startup := c\<rparr>)"

definition motor_runtime_iq :: "'r cflt \<Rightarrow> 'r \<Rightarrow> 'r \<Rightarrow> 'r controlled_motor \<Rightarrow> 'r controlled_motor" where
  "motor_runtime_iq G speed accel m =
     (let (iq, c) = get_iq_command G (mo_runtime m) (fb_pos (mo_fb m)) (fb_speed (mo_fb m)) (mo_pos_target m) speed accel
      in m\<lparr>mo_iq_req := iq, mo_runtime := c\<rparr>)"

definition motor_plan :: "'r cflt \<Rightarrow> u32 \<Rightarrow> 'r \<Rightarrow> 'r \<Rightarrow> 'r controlled_motor \<Rightarrow> 'r controlled_motor" where
  "motor_plan G period target speed_max m =
     m\<lparr>mo_traj := compute_trap_traj G (mo_traj m) (mo_demo_count m) target (fb_pos (mo_fb m)) (fb_speed (mo_fb m))
                    speed_max period (mo_params m)\<rparr>"

definition motor_evaluate :: "'r cflt \<Rightarrow> 'r controlled_motor \<Rightarrow> 'r controlled_motor" where
  "motor_evaluate G m = motor_set_targets (evaluate_trap_traj G (mo_traj m) (mo_demo_count m)) m"

definition motor_correct_offset :: "'r cflt \<Rightarrow> 'r controlled_motor \<Rightarrow> 'r controlled_motor" where
  "motor_correct_offset G m =
     m\<lparr>mo_fb := (mo_fb m)\<lparr>fb_pos := fsub G (fb_pos (mo_fb m)) (mo_startup_offset m)\<rparr>\<rparr>"

definition motor_offset_from_pos :: "'r cflt \<Rightarrow> 'r controlled_motor \<Rightarrow> 'r controlled_motor" where
  "motor_offset_from_pos G m = m\<lparr>mo_startup_offset := f_of_s32 G (to_s32 G (fb_pos (mo_fb m)))\<rparr>"

definition motor_clear_targets :: "'r cflt \<Rightarrow> 'r controlled_motor \<Rightarrow> 'r controlled_motor" where
  "motor_clear_targets G m = m\<lparr>mo_pos_target := f0 G, mo_speed_target := f0 G, mo_accel_target := f0 G\<rparr>"

definition cycle_to_reach :: "'r controlled_motor \<Rightarrow> u32" where
  "cycle_to_reach m = tr_start_cycle (mo_traj m) + tr_cycles_total (mo_traj m)"

end
