(* ===== verification/Motor_Strategies.thy ===== *)
theory Motor_Strategies
  imports Motor_Strategy
begin

text \<open>
  The operations of the six strategies of \<open>tsn/motor/control_strategies.c\<close>, and the table that names them. An operation
  returns its code and the context; \<open>None\<close> is a trap (a null or dangling motor, an access outside an array, a remainder
  by zero).
\<close>

type_synonym 'r strategy_op = "'r control_strategy \<Rightarrow> (strategy_rc \<times> 'r control_strategy) option"

text \<open>A loop over the motors that counts, and ends a strategy operation.\<close>

definition loop_motors ::
  "(nat \<Rightarrow> 'r controlled_motor \<Rightarrow> u16 \<Rightarrow> ('r controlled_motor \<times> u16 \<times> bool) option) \<Rightarrow> 'r control_strategy \<Rightarrow>
     (u16 \<times> bool \<times> 'r control_strategy) option" where
  "loop_motors f ctx =
     map_option (\<lambda>(ms, n, err). (n, err, ctx\<lparr>cs_motors := ms\<rparr>)) (each_motor f (cs_motors ctx) 0)"

section \<open>Operations shared by strategies\<close>

definition strategy_generic_prepare :: "'r cflt \<Rightarrow> 'r strategy_op" where
  "strategy_generic_prepare G ctx =
     Some (CTRL_STRAT_OK, map_motors
       (\<lambda>m. let m = motor_offset_from_pos G m
            in m\<lparr>mo_startup := iq_controller_init G (mo_startup m) CTRL_MODE_TRAJECTORY (mo_params m)\<rparr>) ctx)"

definition generic_startup_motor :: "'r cflt \<Rightarrow> u32 \<Rightarrow> 'r controlled_motor \<Rightarrow> u16 \<Rightarrow> 'r controlled_motor \<times> u16" where
  "generic_startup_motor G period m n =
     (let m = motor_plan G period (mo_startup_offset m) (flit G 30 0) m;
          n = (if mo_demo_count m > cycle_to_reach m + ZERO_ALIGNEMENT_DELAY then n + 1 else n);
          m = motor_evaluate G m;
          m = motor_startup_iq G (mo_speed_target m) (mo_accel_target m) m
      in (m\<lparr>mo_demo_count := mo_demo_count m + 1\<rparr>, n))"

definition strategy_generic_startup :: "'r cflt \<Rightarrow> 'r strategy_op" where
  "strategy_generic_startup G ctx =
     do {
       (n, err, ctx) \<leftarrow> loop_motors
         (\<lambda>_ m n. let (m, n) = generic_startup_motor G (cs_app_period_ns ctx) m n in Some (m, n, False)) ctx;
       Some (if n = cs_num_motors ctx then CTRL_STRAT_OK else CTRL_STRAT_WAIT, ctx)
     }"

text \<open>
  The reset of the synchronized, hold index and stop strategies; the other two reset fewer or more members.
\<close>

definition motor_reset_base :: "'r cflt \<Rightarrow> 'r controlled_motor \<Rightarrow> 'r controlled_motor" where
  "motor_reset_base G m =
     motor_clear_targets G (m\<lparr>mo_iq_req := f0 G, mo_traj := reset_trap_traj G (mo_traj m),
                              mo_scenario := reset_scenario G (mo_scenario m)\<rparr>)"

definition motor_reset_full :: "'r cflt \<Rightarrow> 'r controlled_motor \<Rightarrow> 'r controlled_motor" where
  "motor_reset_full G m = (motor_reset_base G m)\<lparr>mo_startup_offset := f0 G, mo_speed_max := f0 G\<rparr>"

definition motor_init_mode :: "'r cflt \<Rightarrow> control_mode \<Rightarrow> 'r controlled_motor \<Rightarrow> 'r controlled_motor" where
  "motor_init_mode G mode m =
     motor_clear_targets G
       (m\<lparr>mo_runtime := iq_controller_init G (mo_runtime m) mode (mo_params m), mo_traj := reset_trap_traj G (mo_traj m)\<rparr>)"

section \<open>Synchronized\<close>

definition strategy_synchronized_init :: "'r cflt \<Rightarrow> 'r strategy_op" where
  "strategy_synchronized_init G ctx =
     do {
       (n, err, ctx) \<leftarrow> loop_motors
         (\<lambda>_ m n.
            let (rc, sc) = scenario_init G (mo_scenario m) SCENARIO_SYNCHRONIZED (cs_app_period_ns ctx);
                m = m\<lparr>mo_scenario := sc\<rparr>
            in if rc < 0 then Some (m, n, True)
               else Some (motor_init_mode G CTRL_MODE_TRAJECTORY m, n, False)) ctx;
       Some (if err then CTRL_STRAT_ERROR else CTRL_STRAT_OK, ctx)
     }"

definition synchronized_check_motor :: "'r cflt \<Rightarrow> 'r controlled_motor \<Rightarrow> ('r controlled_motor \<times> bool) option" where
  "synchronized_check_motor G m =
     do {
       m \<leftarrow> update_pos_err_stat G m (fsub G (fb_pos (mo_fb m)) (mo_startup_offset m)) (mo_pos_target m);
       Some (margin_watch G m (fsub G (fb_pos (mo_fb m)) (mo_startup_offset m)) (mo_pos_target m))
     }"

definition synchronized_control_motor ::
  "'r cflt \<Rightarrow> u32 \<Rightarrow> 'r controlled_motor \<Rightarrow> u16 \<Rightarrow> ('r controlled_motor \<times> u16) option" where
  "synchronized_control_motor G period m n =
     do {
       sc \<leftarrow> get_scenario_block G (mo_scenario m);
       let m = motor_correct_offset G (m\<lparr>mo_scenario := sc\<rparr>);
       let m = motor_plan G period (sc_pos_target (mo_scenario m)) (sc_speed_max (mo_scenario m)) m;
       let n = (if mo_demo_count m > cycle_to_reach m + sc_after_delay (mo_scenario m) then n + 1 else n);
       let m = motor_evaluate G m;
       let m = motor_runtime_iq G (mo_speed_target m) (mo_accel_target m) m;
       Some (m\<lparr>mo_demo_count := mo_demo_count m + 1\<rparr>, n)
     }"

definition next_scenario_motor :: "'r controlled_motor \<Rightarrow> 'r controlled_motor option" where
  "next_scenario_motor m = map_option (\<lambda>sc. m\<lparr>mo_scenario := sc\<rparr>) (next_block_scenario (mo_scenario m))"

definition strategy_synchronized_loop :: "'r cflt \<Rightarrow> 'r strategy_op" where
  "strategy_synchronized_loop G ctx =
     do {
       (n, err, ctx) \<leftarrow> loop_motors
         (\<lambda>_ m n. map_option (\<lambda>(m, stop). (m, n, stop)) (synchronized_check_motor G m)) ctx;
       if err then Some (CTRL_STRAT_ERROR, ctx)
       else do {
         (n, err, ctx) \<leftarrow> loop_motors
           (\<lambda>_ m n. map_option (\<lambda>(m, n). (m, n, False)) (synchronized_control_motor G (cs_app_period_ns ctx) m n)) ctx;
         if n = cs_num_motors ctx then
           do {
             (_, _, ctx) \<leftarrow> loop_motors (\<lambda>_ m n. map_option (\<lambda>m. (m, n, False)) (next_scenario_motor m)) ctx;
             Some (CTRL_STRAT_OK, ctx)
           }
         else Some (CTRL_STRAT_OK, ctx)
       }
     }"

definition strategy_synchronized_reset :: "'r cflt \<Rightarrow> 'r strategy_op" where
  "strategy_synchronized_reset G ctx = Some (CTRL_STRAT_OK, map_motors (motor_reset_full G) ctx)"

section \<open>Follow\<close>

definition strategy_follow_init :: "'r cflt \<Rightarrow> 'r strategy_op" where
  "strategy_follow_init G ctx =
     (if cs_num_motors ctx < 2 then Some (CTRL_STRAT_ERROR, ctx)
      else Some (CTRL_STRAT_OK, map_motors (motor_init_mode G CTRL_MODE_POSITION) ctx))"

text \<open>The master is the last motor of the list with identifier 256.\<close>

definition follow_master :: "(nat \<times> 'r controlled_motor) list \<Rightarrow> (nat \<times> 'r controlled_motor) option" where
  "follow_master ms = foldl (\<lambda>acc (a, m). if mo_id m = 256 then Some (a, m) else acc) None ms"

definition strategy_follow_loop :: "'r cflt \<Rightarrow> 'r strategy_op" where
  "strategy_follow_loop G ctx =
     (let ctx = map_motors (motor_correct_offset G) ctx
      in case follow_master (cs_motors ctx) of
           None \<Rightarrow> Some (CTRL_STRAT_ERROR, ctx)
         | Some (master, mm) \<Rightarrow>
             do {
               (n, err, ctx) \<leftarrow> loop_motors
                 (\<lambda>a m n.
                    if a = master then Some (m\<lparr>mo_iq_req := f0 G\<rparr>, n, False)
                    else
                      (let (ok, m) = check_margin_position G m (fb_pos (mo_fb m)) (fb_pos (mo_fb mm)) (MARGIN_POSITION_ERROR G)
                       in if \<not> ok then Some (m, n, True)
                          else Some (motor_runtime_iq G (f0 G) (f0 G) (m\<lparr>mo_pos_target := fb_pos (mo_fb mm)\<rparr>), n, False))) ctx;
               Some (if err then CTRL_STRAT_ERROR else CTRL_STRAT_OK, ctx)
             })"

definition strategy_follow_reset :: "'r cflt \<Rightarrow> 'r strategy_op" where
  "strategy_follow_reset G ctx = Some (CTRL_STRAT_OK, map_motors (motor_reset_base G) ctx)"

section \<open>Hold index\<close>

definition strategy_hold_index_init :: "'r cflt \<Rightarrow> 'r strategy_op" where
  "strategy_hold_index_init G ctx = Some (CTRL_STRAT_OK, map_motors (motor_init_mode G CTRL_MODE_POSITION) ctx)"

definition strategy_hold_index_loop :: "'r cflt \<Rightarrow> 'r strategy_op" where
  "strategy_hold_index_loop G ctx =
     Some (CTRL_STRAT_OK, map_motors
       (\<lambda>m. motor_runtime_iq G (f0 G) (f0 G) ((motor_correct_offset G m)\<lparr>mo_pos_target := f0 G\<rparr>)) ctx)"

definition strategy_hold_index_reset :: "'r cflt \<Rightarrow> 'r strategy_op" where
  "strategy_hold_index_reset G ctx = Some (CTRL_STRAT_OK, map_motors (motor_reset_full G) ctx)"

section \<open>Interlaced\<close>

definition switch_motor_alternation_interlaced :: "'r control_strategy \<Rightarrow> 'r control_strategy" where
  "switch_motor_alternation_interlaced ctx = ctx\<lparr>cs_dynamic := cs_static ctx, cs_static := cs_dynamic ctx\<rparr>"

definition startup_mode :: "'r cflt \<Rightarrow> control_mode \<Rightarrow> 'r controlled_motor \<Rightarrow> 'r controlled_motor" where
  "startup_mode G mode m = m\<lparr>mo_startup := iq_controller_init G (mo_startup m) mode (mo_params m)\<rparr>"

definition runtime_mode :: "'r cflt \<Rightarrow> control_mode \<Rightarrow> 'r controlled_motor \<Rightarrow> 'r controlled_motor" where
  "runtime_mode G mode m = m\<lparr>mo_runtime := iq_controller_init G (mo_runtime m) mode (mo_params m)\<rparr>"

text \<open>The first motor of the list becomes the dynamic one and the second the static one, where they are still null.\<close>

definition interlaced_assign :: "'r control_strategy \<Rightarrow> 'r control_strategy" where
  "interlaced_assign ctx =
     fst (foldl (\<lambda>(ctx, i :: u16) (a, _).
        (if i = 0 \<and> cs_dynamic ctx = None then ctx\<lparr>cs_dynamic := Some a\<rparr>
         else if i = 1 \<and> cs_static ctx = None then ctx\<lparr>cs_static := Some a\<rparr>
         else ctx, i + 1)) (ctx, 0) (cs_motors ctx))"

text \<open>The distance of a position to the nearest notch, in degrees; the notches are 45 degrees apart.\<close>

definition delta_notch :: "'r cflt \<Rightarrow> 'r \<Rightarrow> 'r" where
  "delta_notch G pos =
     (let d = fmul G (fsub G pos (f_of_s32 G (to_s32 G pos))) (f_of_s32 G 360);
          q = word_of_int (sint (to_s32 G d) sdiv 45);
          d = fl G (dsub G d (dmul G (d_of_s32 G q) (dec G 45 0)))
      in if flt G (ddiv G (dec G 45 0) (d_of_s32 G 2)) d then fl G (dsub G d (dec G 45 0)) else d)"

definition strategy_interlaced_prepare :: "'r cflt \<Rightarrow> 'r strategy_op" where
  "strategy_interlaced_prepare G ctx =
     (if cs_num_motors ctx \<noteq> 2 then Some (CTRL_STRAT_ERROR, ctx)
      else do {
        let ctx = interlaced_assign ctx;
        let s = cs_static ctx; let d = cs_dynamic ctx;
        ctx \<leftarrow> motor_upd s (motor_offset_from_pos G) ctx;
        ctx \<leftarrow> motor_upd d (motor_offset_from_pos G) ctx;
        ctx \<leftarrow> motor_upd s (startup_mode G CTRL_MODE_POSITION) ctx;
        ctx \<leftarrow> motor_upd d (startup_mode G CTRL_MODE_TRAJECTORY) ctx;
        ms \<leftarrow> motor_at s ctx;
        let delta = delta_notch G (fb_pos (mo_fb ms));
        if fle G (dabs G delta) (dec G 7 0) then do {
          ctx \<leftarrow> motor_upd s (\<lambda>m. m\<lparr>mo_pos_target := fl G (dsub G (fb_pos (mo_fb m)) (ddiv G delta (dec G 360 0)))\<rparr>) ctx;
          Some (CTRL_STRAT_OK, ctx\<lparr>cs_startup_delay := mo_demo_count ms + ZERO_ALIGNEMENT_DELAY\<rparr>)
        }
        else Some (CTRL_STRAT_WAIT, switch_motor_alternation_interlaced ctx)
      })"

text \<open>The motor moves towards its startup offset, one cycle.\<close>

definition align_motor :: "'r cflt \<Rightarrow> u32 \<Rightarrow> 'r controlled_motor \<Rightarrow> 'r controlled_motor" where
  "align_motor G period m =
     (let m = motor_plan G period (mo_startup_offset m) (flit G 30 0) m;
          m = motor_evaluate G m;
          m = motor_startup_iq G (mo_speed_target m) (mo_accel_target m) m
      in m\<lparr>mo_demo_count := mo_demo_count m + 1\<rparr>)"

definition strategy_interlaced_startup :: "'r cflt \<Rightarrow> 'r strategy_op" where
  "strategy_interlaced_startup G ctx =
     do {
       let s = cs_static ctx; let d = cs_dynamic ctx;
       ctx \<leftarrow> motor_upd s (\<lambda>m. let m = motor_startup_iq G (f0 G) (f0 G) m in m\<lparr>mo_demo_count := mo_demo_count m + 1\<rparr>) ctx;
       (held, ctx) \<leftarrow> motor_do s
         (\<lambda>m. Some (check_margin_position G m (fb_pos (mo_fb m)) (mo_pos_target m) (POSITION_ACCURACY G))) ctx;
       ms \<leftarrow> motor_at s ctx;
       if held \<and> mo_demo_count ms > cs_startup_delay ctx then do {
         ctx \<leftarrow> motor_upd d (align_motor G (cs_app_period_ns ctx)) ctx;
         md \<leftarrow> motor_at d ctx;
         if mo_demo_count md > cycle_to_reach md + ZERO_ALIGNEMENT_DELAY then do {
           (aligned, ctx) \<leftarrow> motor_do s
             (\<lambda>m. Some (check_margin_position G m (fb_pos (mo_fb m)) (mo_startup_offset m) (POSITION_ACCURACY G))) ctx;
           if aligned then Some (CTRL_STRAT_OK, ctx)
           else do {
             let ctx = switch_motor_alternation_interlaced ctx;
             let s = cs_static ctx; let d = cs_dynamic ctx;
             ctx \<leftarrow> motor_upd s (\<lambda>m. m\<lparr>mo_pos_target := mo_startup_offset m\<rparr>) ctx;
             ms \<leftarrow> motor_at s ctx;
             let ctx = ctx\<lparr>cs_startup_delay := mo_demo_count ms + ZERO_ALIGNEMENT_DELAY\<rparr>;
             ctx \<leftarrow> motor_upd s (startup_mode G CTRL_MODE_POSITION) ctx;
             ctx \<leftarrow> motor_upd d (startup_mode G CTRL_MODE_TRAJECTORY) ctx;
             Some (CTRL_STRAT_WAIT, ctx)
           }
         }
         else Some (CTRL_STRAT_WAIT, ctx)
       }
       else Some (CTRL_STRAT_WAIT, ctx)
     }"

definition motor_scenario_init :: "'r cflt \<Rightarrow> int \<Rightarrow> u32 \<Rightarrow> 'r controlled_motor \<Rightarrow> (int \<times> 'r controlled_motor) option" where
  "motor_scenario_init G sid period m =
     (let (rc, sc) = scenario_init G (mo_scenario m) sid period in Some (rc, m\<lparr>mo_scenario := sc\<rparr>))"

definition strategy_interlaced_init :: "'r cflt \<Rightarrow> 'r strategy_op" where
  "strategy_interlaced_init G ctx =
     do {
       let s = cs_static ctx; let d = cs_dynamic ctx;
       (rc, ctx) \<leftarrow> motor_do s (motor_scenario_init G SCENARIO_INTERLACED (cs_app_period_ns ctx)) ctx;
       if rc < 0 then Some (CTRL_STRAT_ERROR, ctx)
       else do {
         (rc, ctx) \<leftarrow> motor_do d (motor_scenario_init G SCENARIO_INTERLACED (cs_app_period_ns ctx)) ctx;
         if rc < 0 then Some (CTRL_STRAT_ERROR, ctx)
         else do {
           ctx \<leftarrow> motor_upd d (runtime_mode G CTRL_MODE_TRAJECTORY) ctx;
           ctx \<leftarrow> motor_upd s (runtime_mode G CTRL_MODE_POSITION) ctx;
           ctx \<leftarrow> motor_upd d (\<lambda>m. motor_clear_targets G (m\<lparr>mo_traj := reset_trap_traj G (mo_traj m)\<rparr>)) ctx;
           ctx \<leftarrow> motor_upd s (motor_clear_targets G) ctx;
           Some (CTRL_STRAT_OK, ctx)
         }
       }
     }"

definition pos_err_of :: "'r cflt \<Rightarrow> 'r controlled_motor \<Rightarrow> (unit \<times> 'r controlled_motor) option" where
  "pos_err_of G m = map_option (Pair ()) (update_pos_err_stat G m (fb_pos (mo_fb m)) (mo_pos_target m))"

definition watch_of :: "'r cflt \<Rightarrow> 'r controlled_motor \<Rightarrow> (bool \<times> 'r controlled_motor) option" where
  "watch_of G m = (let (m, stop) = margin_watch G m (fb_pos (mo_fb m)) (mo_pos_target m) in Some (stop, m))"

definition scenario_of :: "'r cflt \<Rightarrow> 'r controlled_motor \<Rightarrow> (unit \<times> 'r controlled_motor) option" where
  "scenario_of G m = map_option (\<lambda>sc. ((), m\<lparr>mo_scenario := sc\<rparr>)) (get_scenario_block G (mo_scenario m))"

text \<open>The dynamic motor has held the end of its move long enough.\<close>

definition move_done :: "'r cflt \<Rightarrow> 'r controlled_motor \<Rightarrow> (bool \<times> 'r controlled_motor) option" where
  "move_done G m =
     Some (if mo_demo_count m > cycle_to_reach m + sc_after_delay (mo_scenario m)
           then check_margin_position G m (fb_pos (mo_fb m)) (sc_pos_target (mo_scenario m)) (POSITION_ACCURACY G)
           else (False, m))"

definition strategy_interlaced_loop :: "'r cflt \<Rightarrow> 'r strategy_op" where
  "strategy_interlaced_loop G ctx =
     do {
       let s = cs_static ctx; let d = cs_dynamic ctx;
       ctx \<leftarrow> motor_upd d (motor_correct_offset G) ctx;
       ctx \<leftarrow> motor_upd s (motor_correct_offset G) ctx;
       (_, ctx) \<leftarrow> motor_do d (pos_err_of G) ctx;
       (_, ctx) \<leftarrow> motor_do s (pos_err_of G) ctx;
       (stop, ctx) \<leftarrow> motor_do d (watch_of G) ctx;
       if stop then Some (CTRL_STRAT_ERROR, ctx)
       else do {
         (stop, ctx) \<leftarrow> motor_do s (watch_of G) ctx;
         if stop then Some (CTRL_STRAT_ERROR, ctx)
         else do {
           (_, ctx) \<leftarrow> motor_do d (scenario_of G) ctx;
           ctx \<leftarrow> motor_upd d (\<lambda>m.
             let m = motor_plan G (cs_app_period_ns ctx) (sc_pos_target (mo_scenario m)) (sc_speed_max (mo_scenario m)) m;
                 m = motor_evaluate G m
             in motor_runtime_iq G (mo_speed_target m) (mo_accel_target m) m) ctx;
           ctx \<leftarrow> motor_upd s (motor_runtime_iq G (f0 G) (f0 G)) ctx;
           (moved, ctx) \<leftarrow> motor_do d (move_done G) ctx;
           ctx \<leftarrow> (if moved then do {
               (_, ctx) \<leftarrow> motor_do d (\<lambda>m. map_option (Pair ()) (next_scenario_motor m)) ctx;
               ctx \<leftarrow> motor_upd d (\<lambda>m. runtime_mode G CTRL_MODE_POSITION (m\<lparr>mo_pos_target := sc_pos_target (mo_scenario m)\<rparr>)) ctx;
               ctx \<leftarrow> motor_upd s (runtime_mode G CTRL_MODE_TRAJECTORY) ctx;
               Some (switch_motor_alternation_interlaced ctx)
             } else Some ctx);
           ctx \<leftarrow> motor_upd d (\<lambda>m. m\<lparr>mo_demo_count := mo_demo_count m + 1\<rparr>) ctx;
           Some (CTRL_STRAT_OK, ctx)
         }
       }
     }"

definition strategy_interlaced_reset :: "'r cflt \<Rightarrow> 'r strategy_op" where
  "strategy_interlaced_reset G ctx =
     (let ctx' = map_motors (motor_reset_full G) ctx
      in Some (CTRL_STRAT_OK,
           if cs_motors ctx = [] then ctx'
           else ctx'\<lparr>cs_dynamic := None, cs_static := None, cs_startup_delay := 0\<rparr>))"

section \<open>Stop\<close>

definition strategy_stop_prepare :: "'r cflt \<Rightarrow> 'r strategy_op" where
  "strategy_stop_prepare G ctx =
     Some (CTRL_STRAT_OK, map_motors
       (\<lambda>m. (startup_mode G CTRL_MODE_POSITION (motor_offset_from_pos G m))\<lparr>mo_demo_count := 0\<rparr>) ctx)"

definition strategy_stop_startup :: "'r cflt \<Rightarrow> 'r strategy_op" where
  "strategy_stop_startup G ctx =
     do {
       (n, err, ctx) \<leftarrow> loop_motors
         (\<lambda>_ m n.
            let m = motor_correct_offset G m;
                m = motor_startup_iq G (f0 G) (f0 G) (m\<lparr>mo_pos_target := fb_pos (mo_fb m)\<rparr>);
                n = (if mo_demo_count m > STOP_DELAY then n + 1 else n)
            in Some (m\<lparr>mo_demo_count := mo_demo_count m + 1\<rparr>, n, False)) ctx;
       Some (if n = cs_num_motors ctx then CTRL_STRAT_OK else CTRL_STRAT_WAIT, ctx)
     }"

definition strategy_stop_init :: "'r strategy_op" where
  "strategy_stop_init ctx = Some (CTRL_STRAT_OK, ctx)"

definition strategy_stop_loop :: "'r cflt \<Rightarrow> 'r strategy_op" where
  "strategy_stop_loop G ctx = Some (CTRL_STRAT_OK, map_motors (\<lambda>m. m\<lparr>mo_iq_req := f0 G\<rparr>) ctx)"

definition strategy_stop_reset :: "'r cflt \<Rightarrow> 'r strategy_op" where
  "strategy_stop_reset G ctx = Some (CTRL_STRAT_OK, map_motors (motor_reset_full G) ctx)"

section \<open>Identification\<close>

abbreviation (input) ACCELERATING :: u32 where "ACCELERATING \<equiv> 0"
abbreviation (input) COASTING :: u32 where "COASTING \<equiv> 1"
abbreviation (input) STOPPING :: u32 where "STOPPING \<equiv> 2"
abbreviation (input) DONE :: u32 where "DONE \<equiv> 3"
abbreviation (input) IDENTIFICATION_MAX_MOTOR :: u32 where "IDENTIFICATION_MAX_MOTOR \<equiv> 2"
abbreviation (input) IDENTIFICATION_MAX_STEPS :: u32 where "IDENTIFICATION_MAX_STEPS \<equiv> 6"

definition upd_ident :: "('r identification_ctx \<Rightarrow> 'r identification_ctx) \<Rightarrow> 'r control_strategy \<Rightarrow> 'r control_strategy" where
  "upd_ident f ctx = ctx\<lparr>cs_ident := f (cs_ident ctx)\<rparr>"

text \<open>
  The identification at its start, with the number of cycles of a state and of steps. \<open>IDENTIFICATION_STATE_MS *
  NSECS_PER_MSEC\<close> is computed in \<open>unsigned long long\<close>.
\<close>

definition ident_begin :: "'r cflt \<Rightarrow> u32 \<Rightarrow> u32 \<Rightarrow> 'r identification_ctx \<Rightarrow> 'r identification_ctx" where
  "ident_begin G app_period_ns demo_count i =
     (let steps = to_u32 G (dadd G (ddiv G (dsub G (dec G 5 1) (dec G 25 2)) (dec G 5 2)) (d_of_s32 G 1))
      in i\<lparr>id_state := ACCELERATING, id_state_count := ucast ((5000000000 :: u64) div ucast app_period_ns),
           id_start_count := demo_count + 1, id_i := 0, id_motor := 0, id_iq_min := flit G 25 2, id_iq_step := flit G 5 2,
           id_i_max := (if steps > IDENTIFICATION_MAX_STEPS then IDENTIFICATION_MAX_STEPS else steps), id_alpha := flit G 2 1\<rparr>)"

text \<open>A zero period traps. The result of \<open>strategy_interlaced_init\<close> is not looked at.\<close>

definition strategy_identification_init :: "'r cflt \<Rightarrow> 'r strategy_op" where
  "strategy_identification_init G ctx =
     do {
       let d = cs_dynamic ctx;
       (_, ctx) \<leftarrow> strategy_interlaced_init G ctx;
       if cs_app_period_ns ctx = 0 then None
       else do {
         md \<leftarrow> motor_at d ctx;
         let ctx = upd_ident (ident_begin G (cs_app_period_ns ctx) (mo_demo_count md)) ctx;
         ctx \<leftarrow> motor_upd d (\<lambda>m. m\<lparr>mo_demo_count := mo_demo_count m + 1\<rparr>) ctx;
         Some (CTRL_STRAT_OK, ctx)
       }
     }"

text \<open>The three measurements of an acceleration, at its start, half way and at its end.\<close>

definition ident_measure :: "'r cflt \<Rightarrow> 'r controlled_motor \<Rightarrow> 'r identification_ctx \<Rightarrow> 'r identification_ctx" where
  "ident_measure G m i =
     (let now = mo_demo_count m; pos = fb_pos (mo_fb m); speed = fb_speed (mo_fb m);
          k = unat (id_motor i); j = unat (id_i i)
      in if now = id_start_count i then
           i\<lparr>id_speed_final := (id_speed_final i)(k := (id_speed_final i k)(j := f0 G)),
             id_t0 := f_of_u32 G now, id_pos_t0 := pos, id_speed_t0 := speed\<rparr>
         else if now = id_start_count i + id_state_count i div 2 then
           i\<lparr>id_t1 := f_of_u32 G now, id_pos_t1 := pos, id_speed_t1 := speed\<rparr>
         else if now = id_start_count i + id_state_count i then
           (let i = i\<lparr>id_t2 := f_of_u32 G now, id_pos_t2 := pos, id_speed_t2 := speed\<rparr>;
                num = fsub G (fmul G (fsub G (id_t2 i) (id_t1 i)) (fsub G (id_speed_t1 i) (id_speed_t0 i)))
                             (fmul G (fsub G (id_t1 i) (id_t0 i)) (fsub G (id_speed_t2 i) (id_speed_t1 i)));
                den = fsub G (fmul G (fsub G (id_t1 i) (id_t0 i)) (fsub G (id_pos_t2 i) (id_pos_t1 i)))
                             (fmul G (fsub G (id_t2 i) (id_t1 i)) (fsub G (id_pos_t1 i) (id_pos_t0 i)))
            in i\<lparr>id_b_J := (id_b_J i)(k := (id_b_J i k)(j := fl G (ddiv G (fdiv G num den) (dec G 60 0))))\<rparr>)
         else i)"

text \<open>Each access to an array of \<open>[2][6]\<close> is checked; outside it traps.\<close>

definition ident_accelerate :: "'r cflt \<Rightarrow> nat option \<Rightarrow> nat option \<Rightarrow> 'r control_strategy \<Rightarrow> 'r control_strategy option" where
  "ident_accelerate G s d ctx =
     do {
       let i = cs_ident ctx;
       ctx \<leftarrow> motor_upd (cs_dynamic ctx) (\<lambda>m. m\<lparr>mo_iq_req := fadd G (id_iq_min i) (fmul G (f_of_u32 G (id_i i)) (id_iq_step i))\<rparr>) ctx;
       ctx \<leftarrow> motor_upd s (motor_runtime_iq G (f0 G) (f0 G)) ctx;
       md \<leftarrow> motor_at d ctx;
       if id_motor i \<ge> IDENTIFICATION_MAX_MOTOR \<or> id_i i \<ge> IDENTIFICATION_MAX_STEPS then None
       else do {
         let i = ident_measure G md i;
         let k = unat (id_motor i); let j = unat (id_i i);
         let i = i\<lparr>id_speed_final := (id_speed_final i)(k := (id_speed_final i k)
                (j := fl G (dadd G (dmul G (id_speed_final i k j) (dsub G (dec G 1 0) (id_alpha i)))
                                   (fmul G (fb_speed (mo_fb md)) (id_alpha i)))))\<rparr>;
         let i = (if mo_demo_count md \<ge> id_start_count i + id_state_count i then i\<lparr>id_state := COASTING\<rparr> else i);
         Some (ctx\<lparr>cs_ident := i\<rparr>)
       }
     }"

definition ident_coast :: "'r cflt \<Rightarrow> nat option \<Rightarrow> nat option \<Rightarrow> 'r control_strategy \<Rightarrow> 'r control_strategy option" where
  "ident_coast G s d ctx =
     do {
       ctx \<leftarrow> motor_upd (cs_dynamic ctx) (\<lambda>m. m\<lparr>mo_iq_req := f0 G\<rparr>) ctx;
       ctx \<leftarrow> motor_upd s (motor_runtime_iq G (f0 G) (f0 G)) ctx;
       md \<leftarrow> motor_at d ctx;
       if flt G (fb_speed (mo_fb md)) (dec G 200 0) then do {
         let ctx = upd_ident (\<lambda>i. i\<lparr>id_state := STOPPING, id_start_count := mo_demo_count md + 1\<rparr>) ctx;
         motor_upd d (\<lambda>m.
           let m = m\<lparr>mo_pos_target := fl G (dadd G (dceil G (fb_pos (mo_fb m))) (dec G 1 0)),
                     mo_speed_target := fb_speed (mo_fb m)\<rparr>
           in motor_plan G (cs_app_period_ns ctx) (mo_pos_target m) (mo_speed_target m) m) ctx
       }
       else Some ctx
     }"

definition ident_swap :: "'r controlled_motor \<Rightarrow> 'r control_strategy \<Rightarrow> 'r control_strategy" where
  "ident_swap md ctx =
     (let ctx = upd_ident (\<lambda>i. i\<lparr>id_id := (id_id i)(unat (id_motor i) := mo_id md)\<rparr>) ctx;
          ctx = switch_motor_alternation_interlaced ctx
      in upd_ident (\<lambda>i. i\<lparr>id_motor := id_motor i + 1\<rparr>) ctx)"

text \<open>The last step of a motor is done: the controllers and the motors change places and the other motor is next.\<close>

definition ident_next_motor ::
  "'r cflt \<Rightarrow> nat option \<Rightarrow> nat option \<Rightarrow> 'r controlled_motor \<Rightarrow> 'r control_strategy \<Rightarrow> 'r control_strategy option" where
  "ident_next_motor G s d md ctx =
     do {
       ctx \<leftarrow> motor_upd d (runtime_mode G CTRL_MODE_POSITION) ctx;
       ctx \<leftarrow> motor_upd s (runtime_mode G CTRL_MODE_TRAJECTORY) ctx;
       if id_motor (cs_ident ctx) \<ge> IDENTIFICATION_MAX_MOTOR then None
       else do {
         let ctx = ident_swap md ctx;
         ms \<leftarrow> motor_at s ctx;
         Some (upd_ident (\<lambda>i.
           if id_motor i \<ge> IDENTIFICATION_MAX_MOTOR then i\<lparr>id_state := DONE\<rparr>
           else i\<lparr>id_state := ACCELERATING, id_i := 0, id_start_count := mo_demo_count ms\<rparr>) ctx)
       }
     }"

definition ident_stop :: "'r cflt \<Rightarrow> nat option \<Rightarrow> nat option \<Rightarrow> 'r control_strategy \<Rightarrow> 'r control_strategy option" where
  "ident_stop G s d ctx =
     do {
       ctx \<leftarrow> motor_upd d (motor_evaluate G) ctx;
       ctx \<leftarrow> motor_upd d (\<lambda>m. motor_runtime_iq G (mo_speed_target m) (mo_accel_target m) m) ctx;
       ctx \<leftarrow> motor_upd s (motor_runtime_iq G (f0 G) (f0 G)) ctx;
       md \<leftarrow> motor_at d ctx;
       if mo_demo_count md > id_start_count (cs_ident ctx) + id_state_count (cs_ident ctx) then do {
         let ctx = upd_ident (\<lambda>i. i\<lparr>id_i := id_i i + 1\<rparr>) ctx;
         if id_i (cs_ident ctx) \<ge> id_i_max (cs_ident ctx) then ident_next_motor G s d md ctx
         else Some (upd_ident (\<lambda>i. i\<lparr>id_state := ACCELERATING, id_start_count := mo_demo_count md + 1\<rparr>) ctx)
       }
       else Some ctx
     }"

text \<open>The results are logged in the state \<open>DONE\<close>, at every cycle.\<close>

definition strategy_identification_loop :: "'r cflt \<Rightarrow> 'r strategy_op" where
  "strategy_identification_loop G ctx =
     do {
       let s = cs_static ctx; let d = cs_dynamic ctx;
       ctx \<leftarrow> motor_upd d (motor_correct_offset G) ctx;
       ctx \<leftarrow> motor_upd s (motor_correct_offset G) ctx;
       ctx \<leftarrow> (if id_state (cs_ident ctx) = ACCELERATING then ident_accelerate G s d ctx
              else if id_state (cs_ident ctx) = COASTING then ident_coast G s d ctx
              else if id_state (cs_ident ctx) = STOPPING then ident_stop G s d ctx
              else if id_state (cs_ident ctx) = DONE then do {
                ctx \<leftarrow> motor_upd (cs_dynamic ctx) (\<lambda>m. m\<lparr>mo_iq_req := f0 G\<rparr>) ctx;
                motor_upd (cs_static ctx) (\<lambda>m. m\<lparr>mo_iq_req := f0 G\<rparr>) ctx
              }
              else Some ctx);
       ctx \<leftarrow> motor_upd d (\<lambda>m. m\<lparr>mo_demo_count := mo_demo_count m + 1\<rparr>) ctx;
       Some (CTRL_STRAT_OK, ctx)
     }"

section \<open>The table of operations\<close>

record 'r control_strategy_ops =
  op_prepare :: "'r strategy_op"
  op_startup :: "'r strategy_op"
  op_init :: "'r strategy_op"
  op_loop :: "'r strategy_op"
  op_reset :: "'r strategy_op"

text \<open>The array filled by \<open>control_strategy_context_init\<close>; an index beyond it traps.\<close>

definition strategy_ops :: "'r cflt \<Rightarrow> u32 \<Rightarrow> 'r control_strategy_ops option" where
  "strategy_ops G strategy =
     (if strategy = CTRL_STRAT_SYNCHRONIZED then
        Some \<lparr>op_prepare = strategy_generic_prepare G, op_startup = strategy_generic_startup G,
              op_init = strategy_synchronized_init G, op_loop = strategy_synchronized_loop G,
              op_reset = strategy_synchronized_reset G\<rparr>
      else if strategy = CTRL_STRAT_FOLLOW then
        Some \<lparr>op_prepare = strategy_generic_prepare G, op_startup = strategy_generic_startup G,
              op_init = strategy_follow_init G, op_loop = strategy_follow_loop G, op_reset = strategy_follow_reset G\<rparr>
      else if strategy = CTRL_STRAT_HOLD_INDEX then
        Some \<lparr>op_prepare = strategy_generic_prepare G, op_startup = strategy_generic_startup G,
              op_init = strategy_hold_index_init G, op_loop = strategy_hold_index_loop G,
              op_reset = strategy_hold_index_reset G\<rparr>
      else if strategy = CTRL_STRAT_INTERLACED then
        Some \<lparr>op_prepare = strategy_interlaced_prepare G, op_startup = strategy_interlaced_startup G,
              op_init = strategy_interlaced_init G, op_loop = strategy_interlaced_loop G,
              op_reset = strategy_interlaced_reset G\<rparr>
      else if strategy = CTRL_STRAT_STOP then
        Some \<lparr>op_prepare = strategy_stop_prepare G, op_startup = strategy_stop_startup G,
              op_init = strategy_stop_init, op_loop = strategy_stop_loop G, op_reset = strategy_stop_reset G\<rparr>
      else if strategy = CTRL_STRAT_IDENTIFICATION then
        Some \<lparr>op_prepare = strategy_interlaced_prepare G, op_startup = strategy_interlaced_startup G,
              op_init = strategy_identification_init G, op_loop = strategy_identification_loop G,
              op_reset = strategy_interlaced_reset G\<rparr>
      else None)"

end
