(* ===== verification/Motor_Machine.thy ===== *)
theory Motor_Machine
  imports Motor_Strategies
begin

text \<open>
  The state machine of the control strategies and the interface of \<open>tsn/motor/control_strategies.h\<close>. Calls to the
  asynchronous task take a parameter that tells whether its queue accepts them; the functions it then runs later are
  operations of their own.
\<close>

section \<open>Statistics\<close>

text \<open>
  The record of each motor sent to the network. The flag set here is cleared only when the call is refused: the function
  that sends, \<open>__motor_stats_send\<close>, leaves it set.
\<close>

definition net_stats_of :: "'r cflt \<Rightarrow> 'r controlled_motor \<Rightarrow> 'r controlled_motor" where
  "net_stats_of G m =
     m\<lparr>mo_net_stats := \<lparr>ns_id = mo_id m, ns_seqid = mo_seqid_stats m,
          ns_demo_count = mo_absolute_time m + ucast (mo_demo_count m) * 250,
          ns_pos_real = fsub G (fb_pos (mo_fb m)) (mo_startup_offset m), ns_pos_target = mo_pos_target m,
          ns_speed_real = fb_speed (mo_fb m), ns_speed_target_ff = mo_speed_target m,
          ns_speed_out_pos_err = iqc_speed_from_pos_err (mo_runtime m), ns_iq_req = mo_iq_req m,
          ns_iq_real = fb_iq_meas (mo_fb m), ns_id_real = fb_id_meas (mo_fb m),
          ns_uq_applied_fb = fb_uq_applied (mo_fb m), ns_dc_bus_fb = fb_dc_bus (mo_fb m)\<rparr>,
       mo_seqid_stats := mo_seqid_stats m + 1\<rparr>"

definition motor_stats_send :: "'r cflt \<Rightarrow> bool \<Rightarrow> 'r control_strategy \<Rightarrow> 'r control_strategy" where
  "motor_stats_send G accepted ctx =
     (if cs_net_stats_pending ctx then ctx
      else (map_motors (net_stats_of G) ctx)\<lparr>cs_net_stats_pending := accepted\<rparr>)"

definition control_strategy_stats_print :: "'r control_strategy \<Rightarrow> 'r control_strategy" where
  "control_strategy_stats_print ctx = ctx\<lparr>cs_stats_snap := (cs_stats_snap ctx)\<lparr>ss_pending := False\<rparr>\<rparr>"

definition control_strategy_motor_stats_print :: "'r controlled_motor \<Rightarrow> 'r controlled_motor" where
  "control_strategy_motor_stats_print m =
     (let st = mo_stats_snap m; st = st\<lparr>sm_pos_err_deg := rtos_apps_stats_compute (sm_pos_err_deg st)\<rparr>
      in m\<lparr>mo_stats_snap := st\<lparr>sm_pending := False\<rparr>\<rparr>)"

definition motor_stats_dump :: "bool \<Rightarrow> 'r controlled_motor \<Rightarrow> 'r controlled_motor" where
  "motor_stats_dump accepted m =
     (if sm_pending (mo_stats_snap m) then m
      else
        (let st = (mo_stats m)\<lparr>sm_iq_req := mo_iq_req m, sm_pos_real := fb_pos (mo_fb m), sm_pos_target := mo_pos_target m,
                               sm_speed_real := fb_speed (mo_fb m), sm_startup_offset := mo_startup_offset m\<rparr>
         in m\<lparr>mo_stats := st\<lparr>sm_pos_err_deg := rtos_apps_stats_reset (sm_pos_err_deg st)\<rparr>,
              mo_stats_snap := st\<lparr>sm_pending := accepted\<rparr>\<rparr>))"

text \<open>\<open>accepted None\<close> is the answer to the context's call, \<open>accepted (Some a)\<close> to that of the motor at \<open>a\<close>.\<close>

definition control_strategy_stats_dump :: "(nat option \<Rightarrow> bool) \<Rightarrow> 'r control_strategy \<Rightarrow> 'r control_strategy" where
  "control_strategy_stats_dump accepted ctx =
     (let ctx = (if ss_pending (cs_stats_snap ctx) then ctx
            else
              (let st = (cs_stats ctx)\<lparr>ss_state := cs_state ctx, ss_old_strategy := cs_old ctx, ss_current_strategy := cs_current ctx\<rparr>
               in ctx\<lparr>cs_stats := st, cs_stats_snap := st\<lparr>ss_pending := accepted None\<rparr>\<rparr>))
      in ctx\<lparr>cs_motors := map (\<lambda>(a, m). (a, motor_stats_dump (accepted (Some a)) m)) (cs_motors ctx)\<rparr>)"

text \<open>The entries written to the array, as a list; each motor's largest error is taken out.\<close>

definition control_strategy_get_motor_monitoring ::
  "'r control_strategy \<Rightarrow> u32 \<Rightarrow> (u16 \<times> s32) list \<times> 'r control_strategy" where
  "control_strategy_get_motor_monitoring ctx n =
     (let k = max 1 (unat n);
          ms = cs_motors ctx
      in (map (\<lambda>(a, m). (mo_id m, sm_pos_err_max (mo_stats m))) (take k ms),
          ctx\<lparr>cs_motors := map (\<lambda>(a, m). (a, m\<lparr>mo_stats := (mo_stats m)\<lparr>sm_pos_err_max := 0\<rparr>\<rparr>)) (take k ms) @ drop k ms\<rparr>))"

section \<open>The state machine\<close>

definition control_strategy_set_state :: "'r control_strategy \<Rightarrow> strategy_state \<Rightarrow> 'r control_strategy" where
  "control_strategy_set_state ctx st = ctx\<lparr>cs_state := st\<rparr>"

text \<open>
  One operation of the current strategy and the state after it: \<open>CTRL_STRAT_OK\<close> moves on, \<open>CTRL_STRAT_ERROR\<close> is reported
  to the callback. The second result tells whether the callback was called.
\<close>

definition run_op ::
  "('r control_strategy_ops \<Rightarrow> 'r strategy_op) \<Rightarrow> strategy_state \<Rightarrow> 'r cflt \<Rightarrow> 'r control_strategy \<Rightarrow>
     ('r control_strategy \<times> bool) option" where
  "run_op sel next_state G ctx =
     do {
       ops \<leftarrow> strategy_ops G (cs_current ctx);
       (rc, ctx) \<leftarrow> sel ops ctx;
       Some (case rc of
               CTRL_STRAT_OK \<Rightarrow> (control_strategy_set_state ctx next_state, False)
             | CTRL_STRAT_WAIT \<Rightarrow> (ctx, False)
             | CTRL_STRAT_ERROR \<Rightarrow> (ctx, cs_err_cb ctx))
     }"

definition control_strategy_prepare :: "'r cflt \<Rightarrow> 'r control_strategy \<Rightarrow> ('r control_strategy \<times> bool) option" where
  "control_strategy_prepare = run_op op_prepare STARTUP"

definition control_strategy_startup :: "'r cflt \<Rightarrow> 'r control_strategy \<Rightarrow> ('r control_strategy \<times> bool) option" where
  "control_strategy_startup = run_op op_startup INIT"

definition control_strategy_init :: "'r cflt \<Rightarrow> 'r control_strategy \<Rightarrow> ('r control_strategy \<times> bool) option" where
  "control_strategy_init = run_op op_init CONTROL"

definition control_strategy_loop :: "'r cflt \<Rightarrow> bool \<Rightarrow> 'r control_strategy \<Rightarrow> ('r control_strategy \<times> bool) option" where
  "control_strategy_loop G accepted ctx =
     do {
       let ctx = motor_stats_send G accepted ctx;
       ops \<leftarrow> strategy_ops G (cs_current ctx);
       (rc, ctx) \<leftarrow> op_loop ops ctx;
       Some (ctx, rc = CTRL_STRAT_ERROR \<and> cs_err_cb ctx)
     }"

definition control_strategy_reset :: "'r cflt \<Rightarrow> 'r control_strategy \<Rightarrow> ('r control_strategy \<times> bool) option" where
  "control_strategy_reset = run_op op_reset PREPARE"

definition control_strategy_state_machine ::
  "'r cflt \<Rightarrow> bool \<Rightarrow> 'r control_strategy \<Rightarrow> ('r control_strategy \<times> bool) option" where
  "control_strategy_state_machine G accepted ctx =
     (case cs_state ctx of
        PREPARE \<Rightarrow> control_strategy_prepare G ctx
      | STARTUP \<Rightarrow> control_strategy_startup G ctx
      | INIT \<Rightarrow> control_strategy_init G ctx
      | CONTROL \<Rightarrow> control_strategy_loop G accepted ctx
      | RESET \<Rightarrow> control_strategy_reset G ctx)"

section \<open>Interface\<close>

definition control_strategy_set_feedback :: "'r controlled_motor \<Rightarrow> 'r motor_feedback \<Rightarrow> 'r controlled_motor" where
  "control_strategy_set_feedback m fb = m\<lparr>mo_fb := fb\<rparr>"

definition control_strategy_reset_iq :: "'r cflt \<Rightarrow> 'r control_strategy \<Rightarrow> 'r control_strategy" where
  "control_strategy_reset_iq G = map_motors (\<lambda>m. m\<lparr>mo_iq_req := f0 G\<rparr>)"

definition control_strategy_reset_strategy :: "'r control_strategy \<Rightarrow> 'r control_strategy" where
  "control_strategy_reset_strategy ctx = control_strategy_set_state ctx RESET"

definition control_strategy_previous_strategy :: "'r control_strategy \<Rightarrow> 'r control_strategy" where
  "control_strategy_previous_strategy ctx =
     control_strategy_set_state (ctx\<lparr>cs_current := cs_old ctx, cs_old := cs_current ctx\<rparr>) RESET"

text \<open>The number of strategies is a constant of the initialisation; were it zero, the remainder would trap.\<close>

definition control_strategy_next_strategy :: "'r control_strategy \<Rightarrow> 'r control_strategy option" where
  "control_strategy_next_strategy ctx =
     (if cs_num_strategies ctx = 0 then None
      else Some (control_strategy_set_state
             (ctx\<lparr>cs_old := cs_current ctx, cs_current := (cs_current ctx + 1) mod ucast (cs_num_strategies ctx)\<rparr>) RESET))"

definition control_strategy_set_strategy :: "'r control_strategy \<Rightarrow> u32 \<Rightarrow> 'r control_strategy" where
  "control_strategy_set_strategy ctx strategy =
     (if cs_current ctx \<noteq> strategy
      then control_strategy_set_state (ctx\<lparr>cs_old := cs_current ctx, cs_current := strategy\<rparr>) RESET
      else ctx)"

definition control_strategy_set_error_callback :: "'r control_strategy \<Rightarrow> bool \<Rightarrow> 'r control_strategy" where
  "control_strategy_set_error_callback ctx callback = ctx\<lparr>cs_err_cb := callback\<rparr>"

section \<open>Creation and registration\<close>

text \<open>What \<open>memset\<close> leaves.\<close>

definition zeroed_stats_motor :: "'r cflt \<Rightarrow> 'r stats_controlled_motor" where
  "zeroed_stats_motor G =
     \<lparr>sm_pending = False, sm_pos_target = f0 G, sm_startup_offset = f0 G, sm_pos_real = f0 G, sm_speed_real = f0 G,
      sm_iq_req = f0 G, sm_err_margin = 0, sm_err_margin_stop = 0, sm_last_margin_error = f0 G,
      sm_pos_err_deg = stats_zeroed, sm_pos_err_deg_hist = \<lparr>slots = replicate 101 0, n_slots = 0, slot_size = 0\<rparr>,
      sm_pos_err_max = 0\<rparr>"

definition zeroed_iq :: "'r cflt \<Rightarrow> 'r iq_control" where
  "zeroed_iq G = \<lparr>iqc_mode = CTRL_MODE_TRAJECTORY, iqc_pos_kp = f0 G, iqc_pos_gain = f0 G, iqc_speed_angular_scale = f0 G,
     iqc_speed_kp = f0 G, iqc_speed_ki = f0 G, iqc_integral = f0 G, iqc_speed_from_pos_err = f0 G, iqc_speed_max = f0 G,
     iqc_speed_gain = f0 G, iqc_max = f0 G, iqc_min = f0 G, iqc_J = f0 G, iqc_b = f0 G, iqc_Tm = f0 G, iqc_ff_gain = f0 G\<rparr>"

definition zeroed_motor :: "'r cflt \<Rightarrow> 'r controlled_motor" where
  "zeroed_motor G =
     \<lparr>mo_id = 0, mo_startup_offset = f0 G, mo_iq_req = f0 G,
      mo_fb = \<lparr>fb_motor_id = 0, fb_pos = f0 G, fb_speed = f0 G, fb_iq_meas = f0 G, fb_id_meas = f0 G, fb_uq_applied = f0 G,
               fb_dc_bus = f0 G, fb_cur_a = f0 G, fb_cur_b = f0 G, fb_cur_c = f0 G\<rparr>,
      mo_pos_target = f0 G, mo_speed_target = f0 G, mo_accel_target = f0 G, mo_speed_max = f0 G, mo_accel_max = f0 G,
      mo_traj = \<lparr>tr_cycles_accel = 0, tr_cycles_constant_vel = 0, tr_cycles_total = 0, tr_start_cycle = 0,
                 tr_ff_current = f0 G, tr_pos_init = f0 G, tr_speed_init = f0 G, tr_pos_target = f0 G, tr_sign_traj = f0 G,
                 tr_y_end_accel = f0 G, tr_accel_max = f0 G, tr_speed_max = f0 G, tr_loop_freq = f0 G, tr_reset_flag = False\<rparr>,
      mo_scenario = \<lparr>sc_blocks = None, sc_iterator = 0, sc_size = 0, sc_app_period_ns = 0, sc_pos_target = f0 G,
                     sc_time_to_reach = 0, sc_after_delay = 0, sc_speed_max = f0 G\<rparr>,
      mo_runtime = zeroed_iq G, mo_startup = zeroed_iq G,
      mo_params = \<lparr>mp_pos_kp = f0 G, mp_pos_gain = f0 G, mp_speed_angular_scale = f0 G, mp_speed_kp = f0 G, mp_speed_ki = f0 G,
                   mp_max_vel_rpm = f0 G, mp_speed_gain = f0 G, mp_iq_max = f0 G, mp_iq_min = f0 G,
                   mp_max_accel_rpm_p_s = f0 G, mp_J = f0 G, mp_b = f0 G, mp_Tm = f0 G, mp_ff_gain = f0 G\<rparr>,
      mo_demo_count = 0, mo_absolute_time = 0, mo_seqid_stats = 0,
      mo_stats_snap = zeroed_stats_motor G, mo_stats = zeroed_stats_motor G, mo_nb_errors = 0,
      mo_net_stats = \<lparr>ns_id = 0, ns_seqid = 0, ns_demo_count = 0, ns_pos_real = f0 G, ns_pos_target = f0 G,
                      ns_speed_real = f0 G, ns_speed_target_ff = f0 G, ns_speed_out_pos_err = f0 G, ns_iq_req = f0 G,
                      ns_iq_real = f0 G, ns_id_real = f0 G, ns_uq_applied_fb = f0 G, ns_dc_bus_fb = f0 G\<rparr>\<rparr>"

definition zeroed_ident :: "'r cflt \<Rightarrow> 'r identification_ctx" where
  "zeroed_ident G =
     \<lparr>id_state = 0, id_start_count = 0, id_state_count = 0, id_iq_min = f0 G, id_iq_step = f0 G, id_i = 0, id_i_max = 0,
      id_motor = 0, id_t0 = f0 G, id_t1 = f0 G, id_t2 = f0 G, id_speed_t0 = f0 G, id_speed_t1 = f0 G, id_speed_t2 = f0 G,
      id_pos_t0 = f0 G, id_pos_t1 = f0 G, id_pos_t2 = f0 G, id_speed_final = (\<lambda>_ _. f0 G), id_alpha = f0 G,
      id_b_J = (\<lambda>_ _. f0 G), id_id = (\<lambda>_. 0)\<rparr>"

text \<open>\<open>alloc\<close> and \<open>net_ok\<close>: the outcomes of the allocation and of \<open>network_stats_open\<close>.\<close>

definition control_strategy_context_init :: "'r cflt \<Rightarrow> bool \<Rightarrow> bool \<Rightarrow> u32 \<Rightarrow> u32 \<Rightarrow> 'r control_strategy option" where
  "control_strategy_context_init G alloc net_ok first_strategy app_period_ns =
     (if \<not> alloc then None
      else if \<not> net_ok then None
      else Some \<lparr>cs_motors = [], cs_current = first_strategy, cs_old = first_strategy,
             cs_num_strategies = MAX_NUM_CONTROL_STRATEGIES, cs_num_motors = 0, cs_net_stats_pending = False, cs_state = RESET,
             cs_stats_snap = \<lparr>ss_pending = False, ss_current_strategy = 0, ss_old_strategy = 0, ss_state = PREPARE\<rparr>,
             cs_stats = \<lparr>ss_pending = False, ss_current_strategy = 0, ss_old_strategy = 0, ss_state = PREPARE\<rparr>,
             cs_err_cb = False, cs_static = None, cs_dynamic = None, cs_startup_delay = 0, cs_ident = zeroed_ident G,
             cs_app_period_ns = app_period_ns\<rparr>)"

text \<open>\<open>addr\<close> is the address of the new motor, \<open>None\<close> when the allocation fails.\<close>

definition new_motor ::
  "'r cflt \<Rightarrow> 'r m1_config \<Rightarrow> u16 \<Rightarrow> u16 \<Rightarrow> u64 \<Rightarrow> ('r motor_params \<Rightarrow> u32 \<Rightarrow> 'r motor_params) option \<Rightarrow> 'r controlled_motor" where
  "new_motor G M io_device_id motor_id time app =
     (let m = zeroed_motor G;
          m = m\<lparr>mo_traj := reset_trap_traj G (mo_traj m), mo_scenario := reset_scenario G (mo_scenario m),
                mo_id := push_bit 8 io_device_id OR motor_id, mo_absolute_time := time\<rparr>;
          st = mo_stats m;
          st = st\<lparr>sm_pos_err_deg := rtos_apps_stats_init (sm_pos_err_deg st) 31 ''pos err'' None\<rparr>;
          st = st\<lparr>sm_pos_err_deg_hist := snd (rtos_apps_hist_init (sm_pos_err_deg_hist st) 100 1)\<rparr>;
          m = m\<lparr>mo_stats := st\<rparr>;
          m = m\<lparr>mo_params := motor_params_init G M (mo_params m) (ucast (mo_id m)) app\<rparr>
      in m\<lparr>mo_startup := iq_controller_init G (mo_startup m) CTRL_MODE_TRAJECTORY (mo_params m)\<rparr>)"

definition control_strategy_register_motor ::
  "'r cflt \<Rightarrow> 'r m1_config \<Rightarrow> 'r control_strategy \<Rightarrow> nat option \<Rightarrow> u16 \<Rightarrow> u16 \<Rightarrow> u64 \<Rightarrow>
     ('r motor_params \<Rightarrow> u32 \<Rightarrow> 'r motor_params) option \<Rightarrow> nat option \<times> 'r control_strategy" where
  "control_strategy_register_motor G M ctx addr io_device_id motor_id time app =
     (case addr of
        None \<Rightarrow> (None, ctx)
      | Some a \<Rightarrow> (Some a, ctx\<lparr>cs_motors := (a, new_motor G M io_device_id motor_id time app) # cs_motors ctx,
                              cs_num_motors := cs_num_motors ctx + 1\<rparr>))"

text \<open>\<open>slist_del\<close> unlinks the first node with that address.\<close>

definition control_strategy_unregister_motor :: "'r control_strategy \<Rightarrow> nat \<Rightarrow> 'r control_strategy" where
  "control_strategy_unregister_motor ctx a =
     (let before = takeWhile (\<lambda>x. fst x \<noteq> a) (cs_motors ctx); rest = dropWhile (\<lambda>x. fst x \<noteq> a) (cs_motors ctx)
      in ctx\<lparr>cs_motors := before @ tl rest,
             cs_num_motors := (if cs_num_motors ctx > 0 then cs_num_motors ctx - 1 else cs_num_motors ctx)\<rparr>)"

end
