(* ===== verification/Tsn_Task.thy ===== *)
theory Tsn_Task
  imports Stats
begin

text \<open>
  Time-sensitive tasks, \<open>tsn/tsn_task.c\<close> and \<open>tsn/tsn_task.h\<close>: the schedule of a task and its statistics, and the
  sockets a task receives from and transmits to.
\<close>

section \<open>State\<close>

record tsn_task_stats =
  ts_pending :: bool
  ts_sched_err :: rtos_apps_stats
  ts_sched_err_hist :: rtos_apps_hist
  ts_proc_time :: rtos_apps_stats
  ts_proc_time_hist :: rtos_apps_hist
  ts_total_time :: rtos_apps_stats
  ts_total_time_hist :: rtos_apps_hist
  ts_sched :: u32
  ts_sched_early :: u32
  ts_sched_missed :: u32
  ts_sched_timeout :: u32
  ts_clock_discont :: u32
  ts_sched_err_max :: u32

record net_socket_stats =
  nss_pending :: bool
  nss_frames :: u32
  nss_err :: u32

record net_socket =
  nk_id :: nat
  nk_n :: u32
  nk_ts :: u64
  nk_zero_copy :: bool
  nk_tx_pending :: bool
  nk_hdr_len :: u32
  nk_stats :: net_socket_stats
  nk_stats_snap :: net_socket_stats

record tsn_task_params =
  tp_task_period_ns :: u32
  tp_task_period_offset_ns :: u32
  tp_transfer_time_ns :: u32
  tp_tx_time_offset_ns :: u32
  tp_tx_time_enabled :: bool
  tp_num_packets :: u32
  tp_zero_copy :: bool
  tp_num_rx_socket :: s32
  tp_rx_buf_size :: u32
  tp_num_tx_socket :: s32
  tp_tx_buf_size :: u32

text \<open>\<open>tk_timer\<close> tells whether the task has a timer, \<open>tk_timer_start\<close> what it was last started with.\<close>

record tsn_task =
  tk_timer :: bool
  tk_timer_start :: "(u64 \<times> u32) option"
  tk_params :: tsn_task_params
  tk_clock_discont :: u32
  tk_rx :: "net_socket list"
  tk_tx :: "net_socket list"
  tk_stats :: tsn_task_stats
  tk_stats_snap :: tsn_task_stats
  tk_sched_time :: u64
  tk_sched_now :: u64

abbreviation (input) NSECS_PER_SEC :: "'a::len word" where "NSECS_PER_SEC \<equiv> 1000000000"
abbreviation (input) NSECS_PER_MSEC :: "'a::len word" where "NSECS_PER_MSEC \<equiv> 1000000"

datatype net_flags = NET_OK | NET_NO_FRAME | NET_ERR

text \<open>The header every message carries, \<open>struct tsn_common_hdr\<close>.\<close>

record tsn_common_hdr =
  hdr_msg_id :: u16
  hdr_len :: u16
  hdr_src_id :: u16
  hdr_sched_time :: u64

definition tsn_task_get_time :: "tsn_task \<Rightarrow> u64" where
  "tsn_task_get_time task = tk_sched_time task"

section \<open>Statistics of the schedule\<close>

definition tsn_task_stats_init :: "tsn_task \<Rightarrow> tsn_task" where
  "tsn_task_stats_init task =
     (let st = tk_stats task;
          st = st\<lparr>ts_sched_err := rtos_apps_stats_init (ts_sched_err st) 31 ''sched err'' None,
                  ts_sched_err_hist := snd (rtos_apps_hist_init (ts_sched_err_hist st) 100 100),
                  ts_proc_time := rtos_apps_stats_init (ts_proc_time st) 31 ''processing time'' None,
                  ts_proc_time_hist := snd (rtos_apps_hist_init (ts_proc_time_hist st) 100 1000),
                  ts_total_time := rtos_apps_stats_init (ts_total_time st) 31 ''total time'' None,
                  ts_total_time_hist := snd (rtos_apps_hist_init (ts_total_time_hist st) 100 1000),
                  ts_sched_err_max := 0\<rparr>
      in task\<lparr>tk_stats := st\<rparr>)"

text \<open>
  \<open>now\<close> is what the clock returns, zero when it fails. \<open>sched_err\<close> is an \<open>int32_t\<close>; the comparisons with the period and
  with the maximum are those of \<open>unsigned int\<close>. \<open>None\<close> is a histogram access out of range.
\<close>

definition tsn_task_stats_start :: "tsn_task \<Rightarrow> u64 \<Rightarrow> (int \<times> tsn_task) option" where
  "tsn_task_stats_start task now =
     (let st = tk_stats task;
          st = st\<lparr>ts_sched := ts_sched st + 1\<rparr>;
          sched_err = ucast (now - tk_sched_time task) :: s32;
          rc = 0 :: int;
          (st, rc) = (if sched_err \<ge> tp_task_period_ns (tk_params task)
                      then (st\<lparr>ts_sched_missed := ts_sched_missed st + 1\<rparr>, - 1) else (st, rc));
          (st, sched_err, rc) = (if sint sched_err < 0
                      then (st\<lparr>ts_sched_early := ts_sched_early st + 1\<rparr>, - sched_err, - 1) else (st, sched_err, rc));
          st = st\<lparr>ts_sched_err := rtos_apps_stats_update (\<lambda>_ s. s) (ts_sched_err st) sched_err\<rparr>
      in case rtos_apps_hist_update (ts_sched_err_hist st) sched_err of
           None \<Rightarrow> None
         | Some h \<Rightarrow>
             let st = st\<lparr>ts_sched_err_hist := h\<rparr>;
                 st = (if sched_err > ts_sched_err_max st then st\<lparr>ts_sched_err_max := sched_err\<rparr> else st)
             in Some (rc, task\<lparr>tk_stats := st, tk_sched_now := now\<rparr>))"

definition tsn_task_stats_end :: "tsn_task \<Rightarrow> u64 \<Rightarrow> tsn_task option" where
  "tsn_task_stats_end task now =
     (let proc_time = ucast (now - tk_sched_now task) :: s32;
          total_time = ucast (now - tk_sched_time task) :: s32;
          st = tk_stats task;
          st = st\<lparr>ts_proc_time := rtos_apps_stats_update (\<lambda>_ s. s) (ts_proc_time st) proc_time\<rparr>
      in case rtos_apps_hist_update (ts_proc_time_hist st) proc_time of
           None \<Rightarrow> None
         | Some h \<Rightarrow>
             (let st = st\<lparr>ts_proc_time_hist := h,
                          ts_total_time := rtos_apps_stats_update (\<lambda>_ s. s) (ts_total_time st) total_time\<rparr>
              in case rtos_apps_hist_update (ts_total_time_hist st) total_time of
                   None \<Rightarrow> None
                 | Some h \<Rightarrow>
                     Some (task\<lparr>tk_stats := st\<lparr>ts_total_time_hist := h\<rparr>,
                               tk_sched_time := tk_sched_time task + ucast (tp_task_period_ns (tk_params task))\<rparr>)))"

definition tsn_task_stats_print :: "tsn_task \<Rightarrow> tsn_task" where
  "tsn_task_stats_print task =
     (let st = tk_stats_snap task
      in task\<lparr>tk_stats_snap := st\<lparr>ts_sched_err := rtos_apps_stats_compute (ts_sched_err st),
                 ts_proc_time := rtos_apps_stats_compute (ts_proc_time st),
                 ts_total_time := rtos_apps_stats_compute (ts_total_time st), ts_pending := False\<rparr>\<rparr>)"

text \<open>\<open>accepted\<close>: the asynchronous task's queue has room.\<close>

definition tsn_task_stats_dump :: "bool \<Rightarrow> tsn_task \<Rightarrow> tsn_task" where
  "tsn_task_stats_dump accepted task =
     (if ts_pending (tk_stats_snap task) then task
      else
        (let st = tk_stats task
         in task\<lparr>tk_stats_snap := st\<lparr>ts_pending := accepted\<rparr>,
                 tk_stats := st\<lparr>ts_sched_err := rtos_apps_stats_reset (ts_sched_err st),
                                ts_proc_time := rtos_apps_stats_reset (ts_proc_time st),
                                ts_total_time := rtos_apps_stats_reset (ts_total_time st)\<rparr>\<rparr>))"

definition net_socket_stats_print :: "net_socket \<Rightarrow> net_socket" where
  "net_socket_stats_print sock = sock\<lparr>nk_stats_snap := (nk_stats_snap sock)\<lparr>nss_pending := False\<rparr>\<rparr>"

definition net_socket_stats_dump :: "bool \<Rightarrow> net_socket \<Rightarrow> net_socket" where
  "net_socket_stats_dump accepted sock =
     (if nss_pending (nk_stats_snap sock) then sock
      else sock\<lparr>nk_stats_snap := (nk_stats sock)\<lparr>nss_pending := accepted\<rparr>\<rparr>)"

text \<open>\<open>accepted i\<close> answers the call number \<open>i\<close>: the task's, then those of the receive and of the transmit sockets.\<close>

definition tsn_stats_dump :: "(nat \<Rightarrow> bool) \<Rightarrow> tsn_task \<Rightarrow> tsn_task" where
  "tsn_stats_dump accepted task =
     (let task = tsn_task_stats_dump (accepted 0) task;
          n = nat (sint (tp_num_rx_socket (tk_params task)));
          k = nat (sint (tp_num_tx_socket (tk_params task)));
          task = for_upto n (\<lambda>i t. t\<lparr>tk_rx := (tk_rx t)[i := net_socket_stats_dump (accepted (1 + i)) (tk_rx t ! i)]\<rparr>) task
      in for_upto k (\<lambda>i t. t\<lparr>tk_tx := (tk_tx t)[i := net_socket_stats_dump (accepted (1 + n + i)) (tk_tx t ! i)]\<rparr>) task)"

section \<open>Start and stop\<close>

text \<open>
  \<open>clock\<close> is the time read, \<open>None\<close> when that fails, \<open>started\<close> whether the timer starts. \<open>None\<close> is the division by a
  zero period.
\<close>

definition tsn_task_start :: "tsn_task \<Rightarrow> u64 option \<Rightarrow> bool \<Rightarrow> (int \<times> tsn_task) option" where
  "tsn_task_start task clock started =
     (if \<not> tk_timer task then Some (- 1, task)
      else case clock of
        None \<Rightarrow> Some (- 1, task)
      | Some now \<Rightarrow>
          let period = tp_task_period_ns (tk_params task);
              start_time = ((now + NSECS_PER_SEC div 2) div NSECS_PER_SEC + 1) * NSECS_PER_SEC
          in if period = 0 then None
             else
               (let start_time = (start_time div ucast period) * ucast period + ucast (tp_task_period_offset_ns (tk_params task))
                in if \<not> started then Some (- 1, task)
                   else Some (0, task\<lparr>tk_timer_start := Some (start_time, period),
                                      tk_sched_time := start_time + ucast period\<rparr>)))"

definition tsn_task_stop :: "tsn_task \<Rightarrow> tsn_task" where
  "tsn_task_stop task = (if tk_timer task then task\<lparr>tk_timer_start := None\<rparr> else task)"

section \<open>Sockets\<close>

text \<open>
  One answer of the network stack to a receive call: the number of packets, the timestamp of the first when it has one,
  its header and its payload. Returning buffers to the stack is not modelled.
\<close>

record 'p rx_answer =
  rx_pkts :: s32
  rx_ts :: "u64 option"
  rx_hdr :: tsn_common_hdr
  rx_payload :: 'p

definition tsn_net_receive_sock :: "net_socket \<Rightarrow> 'p rx_answer \<Rightarrow> net_flags \<times> net_socket" where
  "tsn_net_receive_sock sock answer =
     (if rx_pkts answer = nk_n sock then
        (let sock = sock\<lparr>nk_stats := (nk_stats sock)\<lparr>nss_frames := nss_frames (nk_stats sock) + rx_pkts answer\<rparr>\<rparr>
         in (NET_OK, case rx_ts answer of None \<Rightarrow> sock | Some ts \<Rightarrow> sock\<lparr>nk_ts := ts\<rparr>))
      else (NET_NO_FRAME, sock))"

text \<open>\<open>ready_pkts\<close>: how many of the transmitted packets the stack gives back.\<close>

definition tsn_net_transmit_done :: "net_socket \<Rightarrow> u32 \<Rightarrow> s32 \<Rightarrow> net_flags \<times> net_socket" where
  "tsn_net_transmit_done sock n ready_pkts =
     (if \<not> nk_tx_pending sock then (NET_OK, sock)
      else if ready_pkts \<noteq> n then (NET_ERR, sock)
      else (NET_OK, sock\<lparr>nk_tx_pending := False\<rparr>))"

text \<open>\<open>sent\<close>: the answer of the stack to the send call.\<close>

definition tsn_net_transmit_sock :: "net_socket \<Rightarrow> s32 \<Rightarrow> net_flags \<times> net_socket" where
  "tsn_net_transmit_sock sock sent =
     (if sent = nk_n sock then
        (NET_OK, sock\<lparr>nk_stats := (nk_stats sock)\<lparr>nss_frames := nss_frames (nk_stats sock) + nk_n sock\<rparr>, nk_tx_pending := True\<rparr>)
      else
        (let sock = (if sint sent > 0 then sock\<lparr>nk_tx_pending := True\<rparr> else sock)
         in (NET_ERR, sock\<lparr>nk_stats := (nk_stats sock)\<lparr>nss_err := nss_err (nk_stats sock) + nk_n sock\<rparr>\<rparr>)))"

end
