(* ===== verification/Tsn_Cyclic.thy ===== *)
theory Tsn_Cyclic
  imports Tsn_Task "HOL-Library.Monad_Syntax"
begin

text \<open>
  Cyclic tasks, \<open>tsn/cyclic_task.c\<close>: at every period a task receives one frame from each of its peers, runs its loop
  function and transmits.
\<close>

section \<open>State\<close>

record socket_stats =
  ks_pending :: bool
  ks_valid_frames :: u32
  ks_err_id :: u32
  ks_err_ts :: u32
  ks_err_underflow :: u32
  ks_link_status :: bool
  ks_traffic_latency_max :: u32
  ks_traffic_latency_min :: u32
  ks_traffic_latency :: rtos_apps_stats
  ks_traffic_latency_hist :: rtos_apps_hist

text \<open>The network socket of \<open>rx_socket[i]\<close> is \<open>sock_rx[i]\<close> of the task, that of \<open>tx_socket\<close> is \<open>sock_tx[0]\<close>.\<close>

record cyclic_socket =
  cy_peer_id :: u32
  cy_stats :: socket_stats
  cy_stats_snap :: socket_stats

record cyclic_task =
  cy_task :: tsn_task
  cy_id :: u32
  cy_num_peers :: u32
  cy_rx :: "cyclic_socket list"
  cy_tx_peer_id :: u32

text \<open>
  \<open>struct tsn_task_params\<close> is in the cyclic task and \<open>task->params\<close> points to it: there is one copy, in the task.
\<close>

abbreviation (input) cy_params :: "cyclic_task \<Rightarrow> tsn_task_params" where
  "cy_params c \<equiv> tk_params (cy_task c)"

text \<open>\<open>sizeof(struct tsn_common_hdr)\<close>.\<close>

abbreviation (input) TSN_HDR_SIZE :: u32 where "TSN_HDR_SIZE \<equiv> 16"

section \<open>Statistics\<close>

definition socket_stats_print :: "cyclic_socket \<Rightarrow> cyclic_socket" where
  "socket_stats_print sock =
     sock\<lparr>cy_stats_snap := (cy_stats_snap sock)\<lparr>ks_traffic_latency := rtos_apps_stats_compute (ks_traffic_latency (cy_stats_snap sock)),
                                              ks_pending := False\<rparr>\<rparr>"

definition socket_stats_dump :: "bool \<Rightarrow> cyclic_socket \<Rightarrow> cyclic_socket" where
  "socket_stats_dump accepted sock =
     (if ks_pending (cy_stats_snap sock) then sock
      else sock\<lparr>cy_stats_snap := (cy_stats sock)\<lparr>ks_pending := accepted\<rparr>,
                cy_stats := (cy_stats sock)\<lparr>ks_traffic_latency := rtos_apps_stats_reset (ks_traffic_latency (cy_stats sock))\<rparr>\<rparr>)"

definition cyclic_stats_dump :: "(nat \<Rightarrow> bool) \<Rightarrow> cyclic_task \<Rightarrow> cyclic_task" where
  "cyclic_stats_dump accepted c =
     for_upto (unat (cy_num_peers c)) (\<lambda>i c. c\<lparr>cy_rx := (cy_rx c)[i := socket_stats_dump (accepted i) (cy_rx c ! i)]\<rparr>) c"

section \<open>Reception\<close>

text \<open>A frame with the scheduled time of this period and the identifier of the peer is taken.\<close>

definition frame_accepted :: "cyclic_task \<Rightarrow> cyclic_socket \<Rightarrow> tsn_common_hdr \<Rightarrow> bool" where
  "frame_accepted c sock hdr \<longleftrightarrow>
     hdr_sched_time hdr = tsn_task_get_time (cy_task c) - ucast (tp_transfer_time_ns (cy_params c)) \<and>
     ucast (hdr_src_id hdr) = cy_peer_id sock"

text \<open>Counting a frame that is taken; \<open>ts\<close> is the time the socket received it.\<close>

definition take_frame :: "cyclic_socket \<Rightarrow> u64 \<Rightarrow> tsn_common_hdr \<Rightarrow> cyclic_socket option" where
  "take_frame sock ts hdr =
     (let traffic_latency = ucast (ts - hdr_sched_time hdr) :: u32;
          st = cy_stats sock;
          st = st\<lparr>ks_traffic_latency := rtos_apps_stats_update (\<lambda>_ s. s) (ks_traffic_latency st) traffic_latency\<rparr>
      in case rtos_apps_hist_update (ks_traffic_latency_hist st) traffic_latency of
           None \<Rightarrow> None
         | Some h \<Rightarrow>
             let st = st\<lparr>ks_traffic_latency_hist := h\<rparr>;
                 st = (if traffic_latency > ks_traffic_latency_max st then st\<lparr>ks_traffic_latency_max := traffic_latency\<rparr> else st);
                 st = (if traffic_latency < ks_traffic_latency_min st then st\<lparr>ks_traffic_latency_min := traffic_latency\<rparr> else st)
             in Some (sock\<lparr>cy_stats := st\<lparr>ks_valid_frames := ks_valid_frames st + 1, ks_link_status := True\<rparr>\<rparr>))"

text \<open>
  The retry loop of one socket over the answers of the network; when they are used up there is no frame. The result has
  the sockets, the answers left and the frame for \<open>net_rx_func\<close>.
\<close>

fun receive_retry ::
  "cyclic_task \<Rightarrow> cyclic_socket \<Rightarrow> net_socket \<Rightarrow> bool \<Rightarrow> 'p rx_answer list \<Rightarrow>
     (cyclic_socket \<times> net_socket \<times> 'p rx_answer list \<times> 'p rx_answer option) option" where
  "receive_retry c sock net rx_frame [] =
     (let st = cy_stats sock;
          st = (if \<not> rx_frame then st\<lparr>ks_err_underflow := ks_err_underflow st + 1\<rparr> else st)
      in Some (sock\<lparr>cy_stats := st\<lparr>ks_link_status := False\<rparr>\<rparr>, net, [], None))"
| "receive_retry c sock net rx_frame (a # as) =
     (let (status, net) = tsn_net_receive_sock net a; st = cy_stats sock
      in if status \<noteq> NET_OK then
           (let st = (if status = NET_NO_FRAME \<and> \<not> rx_frame then st\<lparr>ks_err_underflow := ks_err_underflow st + 1\<rparr> else st)
            in Some (sock\<lparr>cy_stats := st\<lparr>ks_link_status := False\<rparr>\<rparr>, net, as, None))
         else if hdr_sched_time (rx_hdr a) \<noteq> tsn_task_get_time (cy_task c) - ucast (tp_transfer_time_ns (cy_params c)) then
           receive_retry c (sock\<lparr>cy_stats := st\<lparr>ks_err_ts := ks_err_ts st + 1\<rparr>\<rparr>) net True as
         else if ucast (hdr_src_id (rx_hdr a)) \<noteq> cy_peer_id sock then
           receive_retry c (sock\<lparr>cy_stats := st\<lparr>ks_err_id := ks_err_id st + 1\<rparr>\<rparr>) net True as
         else (case take_frame sock (nk_ts net) (rx_hdr a) of
                 None \<Rightarrow> None
               | Some sock \<Rightarrow> Some (sock, net, as, Some a)))"

text \<open>
  \<open>net_rx_func\<close> acts on the user's context \<open>'c\<close>; it may trap. \<open>queue i\<close> holds the answers for socket \<open>i\<close>.
\<close>

type_synonym ('p, 'c) rx_func = "tsn_common_hdr \<Rightarrow> 'p \<Rightarrow> 'c \<Rightarrow> 'c option"

definition receive_peer ::
  "('p, 'c) rx_func option \<Rightarrow> nat \<Rightarrow> cyclic_task \<times> (nat \<Rightarrow> 'p rx_answer list) \<times> 'c \<Rightarrow>
     (cyclic_task \<times> (nat \<Rightarrow> 'p rx_answer list) \<times> 'c) option" where
  "receive_peer net_rx_func i s =
     (case s of (c, queue, ctx) \<Rightarrow>
        if i \<ge> length (cy_rx c) \<or> i \<ge> length (tk_rx (cy_task c)) then None
        else case receive_retry c (cy_rx c ! i) (tk_rx (cy_task c) ! i) False (queue i) of
          None \<Rightarrow> None
        | Some (sock, net, rest, frame) \<Rightarrow>
            let c = c\<lparr>cy_rx := (cy_rx c)[i := sock], cy_task := (cy_task c)\<lparr>tk_rx := (tk_rx (cy_task c))[i := net]\<rparr>\<rparr>;
                queue = queue(i := rest)
            in case (frame, net_rx_func) of
                 (Some a, Some f) \<Rightarrow> map_option (\<lambda>ctx. (c, queue, ctx)) (f (rx_hdr a) (rx_payload a) ctx)
               | _ \<Rightarrow> Some (c, queue, ctx))"

definition cyclic_net_receive ::
  "('p, 'c) rx_func option \<Rightarrow> cyclic_task \<times> (nat \<Rightarrow> 'p rx_answer list) \<times> 'c \<Rightarrow>
     (cyclic_task \<times> (nat \<Rightarrow> 'p rx_answer list) \<times> 'c) option" where
  "cyclic_net_receive net_rx_func s = for_upto_opt (unat (cy_num_peers (fst s))) (receive_peer net_rx_func) s"

section \<open>Transmission\<close>

text \<open>
  What the transmission hands to the network: the header and length of each packet and the transmission time. \<open>done\<close>
  and \<open>sent\<close> are the answers of the stack.
\<close>

record tx_request =
  tx_hdr :: tsn_common_hdr
  tx_packets :: u32
  tx_iov_len :: u32
  tx_time :: "u64 option"

definition cyclic_net_transmit ::
  "cyclic_task \<Rightarrow> u32 \<Rightarrow> u32 \<Rightarrow> s32 \<Rightarrow> s32 \<Rightarrow> int \<times> tx_request option \<times> cyclic_task" where
  "cyclic_net_transmit c msg_id len ready sent =
     (let payload_len = len + TSN_HDR_SIZE; task = cy_task c; net = tk_tx task ! 0 in
      if payload_len \<ge> tp_tx_buf_size (tk_params task) then (- 1, None, c)
      else
        (let (status, net) = (if nk_zero_copy net then tsn_net_transmit_done net (nk_n net) ready else (NET_OK, net));
             c = c\<lparr>cy_task := task\<lparr>tk_tx := (tk_tx task)[0 := net]\<rparr>\<rparr>
         in if status \<noteq> NET_OK then (- 1, None, c)
            else
              (let hdr = \<lparr>hdr_msg_id = ucast msg_id, hdr_len = ucast len, hdr_src_id = ucast (cy_id c),
                          hdr_sched_time = tsn_task_get_time task\<rparr>;
                   request = \<lparr>tx_hdr = hdr, tx_packets = nk_n net, tx_iov_len = nk_hdr_len net + payload_len,
                              tx_time = (if tp_tx_time_enabled (tk_params task)
                                then Some (hdr_sched_time hdr + ucast (tp_tx_time_offset_ns (tk_params task))) else None)\<rparr>;
                   (status, net) = tsn_net_transmit_sock net sent;
                   c = c\<lparr>cy_task := task\<lparr>tk_tx := (tk_tx task)[0 := net]\<rparr>\<rparr>
               in (if status \<noteq> NET_OK then - 1 else 0, Some request, c))))"

section \<open>Configuration\<close>

text \<open>\<open>period\<close> and \<open>offset\<close> are those of \<open>struct rtos_apps_tsn_config\<close>, \<open>controller\<close> whether the task is one.\<close>

definition cyclic_task_set_period :: "bool \<Rightarrow> u32 \<Rightarrow> u32 \<Rightarrow> tsn_task_params \<Rightarrow> tsn_task_params" where
  "cyclic_task_set_period controller period offset p =
     (let p = p\<lparr>tp_task_period_ns := period\<rparr>;
          p = p\<lparr>tp_transfer_time_ns := (offset + 1) * period div 2\<rparr>
      in p\<lparr>tp_task_period_offset_ns := (if controller then 0 else tp_transfer_time_ns p)\<rparr>)"

definition cyclic_task_set_tx_time :: "u32 \<Rightarrow> bool \<Rightarrow> tsn_task_params \<Rightarrow> tsn_task_params" where
  "cyclic_task_set_tx_time tx_offset enabled p = p\<lparr>tp_tx_time_enabled := enabled, tp_tx_time_offset_ns := tx_offset\<rparr>"

section \<open>Monitoring\<close>

record monitoring_cyclic =
  mon_sched_err_max :: u32
  mon_latency_max :: "nat \<Rightarrow> u32"
  mon_latency_min :: "nat \<Rightarrow> u32"

text \<open>
  The exit is tested after an entry is written: the loop writes up to \<open>num + 1\<close> entries.
\<close>

definition cyclic_task_get_monitoring :: "cyclic_task \<Rightarrow> monitoring_cyclic \<Rightarrow> u32 \<Rightarrow> monitoring_cyclic \<times> cyclic_task" where
  "cyclic_task_get_monitoring c mon num =
     (let mon = mon\<lparr>mon_sched_err_max := ts_sched_err_max (tk_stats (cy_task c))\<rparr>;
          c = c\<lparr>cy_task := (cy_task c)\<lparr>tk_stats := (tk_stats (cy_task c))\<lparr>ts_sched_err_max := 0\<rparr>\<rparr>\<rparr>
      in for_upto (min (unat (cy_num_peers c)) (Suc (unat num)))
           (\<lambda>i (mon, c).
              let st = cy_stats (cy_rx c ! i)
              in (mon\<lparr>mon_latency_max := (mon_latency_max mon)(i := ks_traffic_latency_max st),
                      mon_latency_min := (mon_latency_min mon)(i := ks_traffic_latency_min st)\<rparr>,
                  c\<lparr>cy_rx := (cy_rx c)[i := (cy_rx c ! i)\<lparr>cy_stats :=
                    st\<lparr>ks_traffic_latency_max := 0, ks_traffic_latency_min := 0xffffffff\<rparr>\<rparr>]\<rparr>)) (mon, c))"

section \<open>Start, stop and the cycle\<close>

definition cyclic_task_start :: "cyclic_task \<Rightarrow> u64 option \<Rightarrow> bool \<Rightarrow> (int \<times> cyclic_task) option" where
  "cyclic_task_start c clock started =
     (let period_ns = tp_task_period_ns (cy_params c)
      in if period_ns = 0 \<or> (NSECS_PER_SEC div period_ns) * period_ns \<noteq> NSECS_PER_SEC then Some (- 1, c)
         else map_option (\<lambda>(rc, task). (rc, c\<lparr>cy_task := task\<rparr>)) (tsn_task_start (cy_task c) clock started))"

definition cyclic_task_stop :: "cyclic_task \<Rightarrow> cyclic_task" where
  "cyclic_task_stop c = c\<lparr>cy_task := tsn_task_stop (cy_task c)\<rparr>"

text \<open>The callback of the timer; \<open>count\<close> is negative after a jump of the clock.\<close>

definition timer_callback :: "cyclic_task \<Rightarrow> int \<Rightarrow> cyclic_task" where
  "timer_callback c count =
     (if count < 0 then c\<lparr>cy_task := (cy_task c)\<lparr>tk_clock_discont := 1\<rparr>\<rparr> else c)"

text \<open>
  One turn of \<open>main_cyclic\<close>. \<open>event\<close> tells whether the timer woke the task within two seconds; \<open>now\<close>, \<open>fin\<close> and
  \<open>clock\<close> are the readings of the clock at the start, at the end and for a restart, \<open>started\<close> whether the timer starts
  again, \<open>accepted\<close> the answers of the asynchronous task. \<open>loop_func\<close> acts on the task and on the user's context.
\<close>

type_synonym 'c loop_func = "int \<Rightarrow> cyclic_task \<times> 'c \<Rightarrow> (cyclic_task \<times> 'c) option"

record cycle_env =
  ce_event :: bool
  ce_now :: u64
  ce_fin :: u64
  ce_clock :: "u64 option"
  ce_started :: bool
  ce_accepted :: "nat \<Rightarrow> bool"
  ce_accepted_rx :: "nat \<Rightarrow> bool"

definition run_loop_func :: "'c loop_func option \<Rightarrow> int \<Rightarrow> cyclic_task \<times> 'c \<Rightarrow> (cyclic_task \<times> 'c) option" where
  "run_loop_func loop_func status s = (case loop_func of None \<Rightarrow> Some s | Some f \<Rightarrow> f status s)"

definition upd_task_stats :: "(tsn_task_stats \<Rightarrow> tsn_task_stats) \<Rightarrow> cyclic_task \<Rightarrow> cyclic_task" where
  "upd_task_stats f c = c\<lparr>cy_task := (cy_task c)\<lparr>tk_stats := f (tk_stats (cy_task c))\<rparr>\<rparr>"

text \<open>The loop function is told of the error, the timer is restarted, and the error is counted.\<close>

definition cyclic_restart ::
  "'c loop_func option \<Rightarrow> cycle_env \<Rightarrow> (cyclic_task \<Rightarrow> cyclic_task) \<Rightarrow> (tsn_task_stats \<Rightarrow> tsn_task_stats) \<Rightarrow>
     cyclic_task \<times> 'c \<Rightarrow> (cyclic_task \<times> 'c) option" where
  "cyclic_restart loop_func env clear count s =
     do {
       (c, ctx) \<leftarrow> run_loop_func loop_func (- 1) s;
       (_, c) \<leftarrow> cyclic_task_start (cyclic_task_stop (clear c)) (ce_clock env) (ce_started env);
       Some (upd_task_stats count c, ctx)
     }"

definition main_cyclic ::
  "('p, 'c) rx_func option \<Rightarrow> 'c loop_func option \<Rightarrow> cycle_env \<Rightarrow> cyclic_task \<times> (nat \<Rightarrow> 'p rx_answer list) \<times> 'c \<Rightarrow>
     (cyclic_task \<times> 'c) option" where
  "main_cyclic net_rx_func loop_func env s =
     (case s of (c, queue, ctx) \<Rightarrow>
      if \<not> ce_event env then
        cyclic_restart loop_func env (\<lambda>c. c) (\<lambda>st. st\<lparr>ts_sched_timeout := ts_sched_timeout st + 1\<rparr>) (c, ctx)
      else if tk_clock_discont (cy_task c) \<noteq> 0 then
        cyclic_restart loop_func env (\<lambda>c. c\<lparr>cy_task := (cy_task c)\<lparr>tk_clock_discont := 0\<rparr>\<rparr>)
          (\<lambda>st. st\<lparr>ts_clock_discont := ts_clock_discont st + 1\<rparr>) (c, ctx)
      else do {
        (rc, task) \<leftarrow> tsn_task_stats_start (cy_task c) (ce_now env);
        let c = c\<lparr>cy_task := task\<rparr>;
        if rc < 0 then
          cyclic_restart loop_func env (\<lambda>c. c) (\<lambda>st. st\<lparr>ts_clock_discont := ts_clock_discont st + 1\<rparr>) (c, ctx)
        else do {
          (c, queue, ctx) \<leftarrow> cyclic_net_receive net_rx_func (c, queue, ctx);
          (c, ctx) \<leftarrow> run_loop_func loop_func 0 (c, ctx);
          task \<leftarrow> tsn_task_stats_end (cy_task c) (ce_fin env);
          let c = c\<lparr>cy_task := task\<rparr>;
          let num_sched_stats = 5 * (NSECS_PER_SEC div tp_task_period_ns (cy_params c));
          if num_sched_stats = 0 then None
          else if ts_sched (tk_stats task) mod num_sched_stats = 0 then
            Some (cyclic_stats_dump (ce_accepted_rx env) (c\<lparr>cy_task := tsn_stats_dump (ce_accepted env) task\<rparr>), ctx)
          else Some (c, ctx)
        }
      })"

end
