(* ===== verification/Motor_Api.thy ===== *)
theory Motor_Api
  imports Motor_Law Motor_Strategy Tsn_Cyclic
begin

text \<open>
  The interface of a device to its motor, \<open>tsn/motor/motor_control_api.c\<close>, and the messages that the controller and the
  devices exchange, \<open>tsn/motor/motor_control.h\<close>. The motor control library itself (\<open>M1_*\<close>, its slow loop and its
  drivers) is a parameter.
\<close>

section \<open>The drive and the library\<close>

text \<open>
  The fields of the library's \<open>mcdef_pmsm_t\<close> that the interface reads or writes. The rest of the library's state is \<open>'w\<close>.
\<close>

record 'r pmsm =
  pm_pospe_sensor :: u16
  pm_control :: u32
  pm_networking :: bool
  pm_iq_external :: 'r
  pm_enable_pi :: bool
  pm_init_over :: bool
  pm_uq :: 'r
  pm_dc_bus :: 'r
  pm_iq :: 'r
  pm_id :: 'r
  pm_cur_a :: 'r
  pm_cur_b :: 'r
  pm_cur_c :: 'r
  pm_slow_loop_missed :: u32
  pm_fast_loop_exec :: u32

type_synonym ('r, 'w) mc = "'r pmsm \<times> 'w"

text \<open>The library's functions and constants, as \<open>struct tsn_motor\<close> points to them.\<close>

record ('r, 'w) mclib =
  lb_init :: "('r, 'w) mc \<Rightarrow> ('r, 'w) mc"
  lb_slow_loop :: "('r, 'w) mc \<Rightarrow> ('r, 'w) mc"
  lb_app_state :: "('r, 'w) mc \<Rightarrow> u16"
  lb_switch :: "bool \<Rightarrow> ('r, 'w) mc \<Rightarrow> ('r, 'w) mc"
  lb_set_speed :: "'r \<Rightarrow> ('r, 'w) mc \<Rightarrow> ('r, 'w) mc"
  lb_set_position :: "s32 \<Rightarrow> ('r, 'w) mc \<Rightarrow> ('r, 'w) mc"
  lb_conv :: "'r \<Rightarrow> s32"
  lb_speed :: "('r, 'w) mc \<Rightarrow> 'r"
  lb_position :: "('r, 'w) mc \<Rightarrow> 'r"
  lb_last_index :: "('r, 'w) mc \<Rightarrow> u32"
  lb_rev_jumps :: "('r, 'w) mc \<Rightarrow> u32"
  MCAT_ENC_CTRL :: u16
  kControlMode_SpeedFOC :: u32
  kControlMode_PositionFOC :: u32

section \<open>The interface\<close>

text \<open>Only motor 0 exists; \<open>alloc\<close> is the outcome of the allocation.\<close>

definition mcapi_init :: "('r, 'w) mclib \<Rightarrow> bool \<Rightarrow> u16 \<Rightarrow> ('r, 'w) mc \<Rightarrow> int \<times> ('r, 'w) mc" where
  "mcapi_init L alloc mid s =
     (if mid = 0 then
        (if \<not> alloc then (- 1, s)
         else (0, lb_switch L False (lb_init L s)))
      else (- 1, s))"

definition mcapi_get_motor_state :: "('r, 'w) mclib \<Rightarrow> ('r, 'w) mc \<Rightarrow> u16" where
  "mcapi_get_motor_state L s = lb_app_state L s"

definition mcapi_set_speed :: "('r, 'w) mclib \<Rightarrow> 'r \<Rightarrow> ('r, 'w) mc \<Rightarrow> ('r, 'w) mc" where
  "mcapi_set_speed L speed s =
     (let s = map_prod (\<lambda>d. d\<lparr>pm_pospe_sensor := MCAT_ENC_CTRL L\<rparr>) id s;
          s = lb_switch L True s;
          s = map_prod (\<lambda>d. d\<lparr>pm_control := kControlMode_SpeedFOC L\<rparr>) id s
      in lb_set_speed L speed s)"

definition mcapi_set_position :: "('r, 'w) mclib \<Rightarrow> 'r \<Rightarrow> ('r, 'w) mc \<Rightarrow> ('r, 'w) mc" where
  "mcapi_set_position L pos s =
     (let s = map_prod (\<lambda>d. d\<lparr>pm_control := kControlMode_PositionFOC L\<rparr>) id s;
          s = map_prod (\<lambda>d. d\<lparr>pm_pospe_sensor := MCAT_ENC_CTRL L\<rparr>) id s;
          s = lb_switch L True s
      in lb_set_position L (lb_conv L pos) s)"

definition mcapi_get_motor_feedback :: "('r, 'w) mclib \<Rightarrow> ('r, 'w) mc \<Rightarrow> 'r motor_feedback \<Rightarrow> 'r motor_feedback" where
  "mcapi_get_motor_feedback L s fb =
     fb\<lparr>fb_pos := lb_position L s, fb_speed := lb_speed L s, fb_uq_applied := pm_uq (fst s), fb_dc_bus := pm_dc_bus (fst s),
        fb_iq_meas := pm_iq (fst s), fb_id_meas := pm_id (fst s), fb_cur_a := pm_cur_a (fst s), fb_cur_b := pm_cur_b (fst s),
        fb_cur_c := pm_cur_c (fst s)\<rparr>"

text \<open>A structure on the stack; every field but the identifier is then written.\<close>

definition unset_feedback :: "'r cflt \<Rightarrow> 'r motor_feedback" where
  "unset_feedback G = \<lparr>fb_motor_id = 0, fb_pos = f0 G, fb_speed = f0 G, fb_iq_meas = f0 G, fb_id_meas = f0 G,
     fb_uq_applied = f0 G, fb_dc_bus = f0 G, fb_cur_a = f0 G, fb_cur_b = f0 G, fb_cur_c = f0 G\<rparr>"

definition mcapi_slowloop :: "('r, 'w) mclib \<Rightarrow> ('r, 'w) mc \<Rightarrow> ('r, 'w) mc" where
  "mcapi_slowloop L s = lb_slow_loop L s"

definition mcapi_motor_initialized :: "('r, 'w) mc \<Rightarrow> bool" where
  "mcapi_motor_initialized s = pm_init_over (fst s)"

definition iq_limited :: "'r cflt \<Rightarrow> 'r m1_config \<Rightarrow> 'r \<Rightarrow> 'r" where
  "iq_limited G M iq =
     (if fle G (M1_SPEED_LOOP_HIGH_LIMIT M) iq then M1_SPEED_LOOP_HIGH_LIMIT M
      else if fle G iq (M1_SPEED_LOOP_LOW_LIMIT M) then M1_SPEED_LOOP_LOW_LIMIT M
      else iq)"

definition mcapi_set_iq_req :: "'r cflt \<Rightarrow> 'r m1_config \<Rightarrow> 'r \<Rightarrow> ('r, 'w) mc \<Rightarrow> ('r, 'w) mc" where
  "mcapi_set_iq_req G M iq s = map_prod (\<lambda>d. d\<lparr>pm_networking := True, pm_iq_external := iq_limited G M iq\<rparr>) id s"

definition mcapi_set_closed_current_loop :: "bool \<Rightarrow> ('r, 'w) mc \<Rightarrow> ('r, 'w) mc" where
  "mcapi_set_closed_current_loop state s = map_prod (\<lambda>d. d\<lparr>pm_enable_pi := state\<rparr>) id s"

definition mcapi_set_external_control :: "bool \<Rightarrow> ('r, 'w) mc \<Rightarrow> ('r, 'w) mc" where
  "mcapi_set_external_control state s = map_prod (\<lambda>d. d\<lparr>pm_networking := state\<rparr>) id s"

definition mcapi_get_last_index :: "('r, 'w) mclib \<Rightarrow> ('r, 'w) mc \<Rightarrow> u32" where
  "mcapi_get_last_index L s = lb_last_index L s"

definition mcapi_get_missed_slow_loop :: "('r, 'w) mc \<Rightarrow> u32" where
  "mcapi_get_missed_slow_loop s = pm_slow_loop_missed (fst s)"

definition mcapi_get_revolution_jumps :: "('r, 'w) mclib \<Rightarrow> ('r, 'w) mc \<Rightarrow> u32" where
  "mcapi_get_revolution_jumps L s = lb_rev_jumps L s"

definition mcapi_get_fast_loop_executed :: "('r, 'w) mc \<Rightarrow> u32" where
  "mcapi_get_fast_loop_executed s = pm_fast_loop_exec (fst s)"

section \<open>Messages\<close>

abbreviation (input) NB_IO_DEVICE_MAX :: nat where "NB_IO_DEVICE_MAX \<equiv> 2"
abbreviation (input) NB_MOTORS_MAX :: nat where "NB_MOTORS_MAX \<equiv> 1"
abbreviation (input) HOLD :: u16 where "HOLD \<equiv> 0"
abbreviation (input) APPLY_IQ :: u16 where "APPLY_IQ \<equiv> 1"
abbreviation (input) MSG_SET_IQ :: u32 where "MSG_SET_IQ \<equiv> 0"
abbreviation (input) MSG_FEEDBACK :: u32 where "MSG_FEEDBACK \<equiv> 1"

record 'r motor_set_iq =
  si_io_device_id :: u16
  si_motor_id :: u16
  si_iq_req :: 'r

text \<open>The array of a message has a fixed length; \<open>num_msg\<close> is what the sender wrote and need not fit it.\<close>

record 'r msg_set_iq =
  mq_action :: u16
  mq_num_msg :: u16
  mq_array :: "'r motor_set_iq list"

record 'r msg_feedback =
  mf_status :: u16
  mf_num_msg :: u16
  mf_array :: "'r motor_feedback list"

text \<open>\<open>sizeof(struct msg_set_iq)\<close> and \<open>sizeof(struct msg_feedback)\<close>, with 4-byte \<open>float\<close>s aligned on 4.\<close>

abbreviation (input) SET_IQ_SIZE :: u32 where "SET_IQ_SIZE \<equiv> 20"
abbreviation (input) FEEDBACK_SIZE :: u32 where "FEEDBACK_SIZE \<equiv> 44"

text \<open>The event of the user button.\<close>

datatype event_button = BUTTON_PRESSED

text \<open>The datagram of the monitoring, \<open>struct monitoring_msg\<close>; \<open>MONITOR_MAX_SOCKET\<close> and \<open>MONITOR_MAX_MOTOR\<close> are 2.\<close>

record monitoring_msg =
  mm_id :: u16
  mm_type :: u8
  mm_state :: u8
  mm_cyclic :: monitoring_cyclic
  mm_motors :: "(u16 \<times> s32) list"

section \<open>Periods\<close>

text \<open>The remainders of the statistics are by a non-zero number up to a period of one millisecond.\<close>

lemma sched_divisors:
  assumes "period \<noteq> 0" and "period \<le> 1000000"
  shows "(2 * (NSECS_PER_SEC div period) :: u32) \<noteq> 0" and "(1000 * (NSECS_PER_MSEC div period) :: u32) \<noteq> 0"
proof -
  have p: "0 < unat period" "unat period \<le> 1000000" using assms by (simp_all add: word_le_nat_alt unat_gt_0)
  have s: "1 \<le> 1000000000 div unat period" "1000000000 div unat period \<le> 1000000000"
    using div_le_mono2 [of "unat period" 1000000 1000000000] p by simp_all
  have m: "1 \<le> 1000000 div unat period" "1000000 div unat period \<le> 1000000"
    using div_le_mono2 [of "unat period" 1000000 1000000] p by simp_all
  have "unat (2 * (NSECS_PER_SEC div period) :: u32) = 2 * (1000000000 div unat period)"
    using unat_mult_lem [of 2 "NSECS_PER_SEC div period"] s by (simp add: unat_div)
  moreover have "unat (1000 * (NSECS_PER_MSEC div period) :: u32) = 1000 * (1000000 div unat period)"
    using unat_mult_lem [of 1000 "NSECS_PER_MSEC div period"] m by (simp add: unat_div)
  ultimately show "(2 * (NSECS_PER_SEC div period) :: u32) \<noteq> 0" and "(1000 * (NSECS_PER_MSEC div period) :: u32) \<noteq> 0"
    using s m by auto
qed

end
