(* ===== verification/Motor_Controller.thy ===== *)
theory Motor_Controller
  imports Motor_Machine Motor_Api
begin

text \<open>
  The motor controller, \<open>tsn/motor/controller.c\<close>: it collects the feedback of the devices, runs the control strategy and
  sends each device the current of its motor, once a period. With it the client that receives the start and stop commands,
  \<open>tsn/motor/command_client.c\<close>.
\<close>

section \<open>Commands\<close>

datatype command_client_state = CMD_STATE_GO | CMD_STATE_STOP

text \<open>A message of the command client, its integers in the order of the host.\<close>

record command_msg =
  cm_left_param :: s32
  cm_right_param :: s32
  cm_go :: u8

definition command_client_task :: "command_client_state \<Rightarrow> command_msg \<Rightarrow> command_client_state" where
  "command_client_task state msg =
     (case state of
        CMD_STATE_GO \<Rightarrow> if cm_go msg = 255 then CMD_STATE_STOP else state
      | CMD_STATE_STOP \<Rightarrow>
          if cm_go msg = 0 \<and> sint (cm_left_param msg) < 0 \<and> sint (cm_right_param msg) < 0 then CMD_STATE_GO else state)"

text \<open>
  The pointer to the client. When the thread cannot be created its memory is freed and the pointer stays as it was.
\<close>

datatype cmd_client = Null_client | Client command_client_state | Freed_client

definition command_client_start :: "bool \<Rightarrow> bool \<Rightarrow> int \<times> cmd_client" where
  "command_client_start alloc thread =
     (if \<not> alloc then (- 1, Null_client)
      else if \<not> thread then (- 1, Freed_client)
      else (0, Client CMD_STATE_GO))"

definition command_client_get_state :: "cmd_client \<Rightarrow> command_client_state option" where
  "command_client_get_state client = (case client of Client state \<Rightarrow> Some state | _ \<Rightarrow> None)"

section \<open>State\<close>

datatype sm_controller_state = CONTROL_SM | IO_DEVICE_MISSING | STANDBY

primrec controller_state_number :: "sm_controller_state \<Rightarrow> nat" where
  "controller_state_number CONTROL_SM = 0"
| "controller_state_number IO_DEVICE_MISSING = 1"
| "controller_state_number STANDBY = 2"

record controller_stats =
  cst_pending :: bool
  cst_state :: sm_controller_state
  cst_err_msg_id :: u32
  cst_err_invalid_len :: u32
  cst_err_src_id :: u32
  cst_err_motor_id :: u32
  cst_err_strat_loop :: u32
  cst_sm_control :: u32
  cst_sm_io_device_missing :: u32
  cst_sm_standby :: u32

record controlled_io_device =
  ci_id :: u32
  ci_num_motors :: u32
  ci_connected :: bool
  ci_motors :: "nat option list"

text \<open>
  \<open>struct controller_ctx\<close>; the cyclic task is passed beside it. The strategy it points to is kept in it, and the motors of
  a device are the addresses of the strategy's motors.
\<close>

record 'r controller =
  ct_num_io_device :: u16
  ct_state :: sm_controller_state
  ct_io_devices :: "controlled_io_device list"
  ct_strategy :: "'r control_strategy"
  ct_stats :: controller_stats
  ct_stats_snap :: controller_stats
  ct_events :: "event_button list"
  ct_restart_delay :: s32
  ct_msg :: monitoring_msg
  ct_msg_pending :: bool
  ct_cmd_client :: cmd_client
  ct_stopped :: bool
  ct_control_error :: bool

text \<open>The controller and the messages it handed to the network, the last first, each with its request.\<close>

type_synonym 'r controller_sys = "'r controller \<times> (tx_request \<times> 'r msg_set_iq) list"

text \<open>The answers of the environment in one turn.\<close>

record controller_env =
  cn_ready :: s32
  cn_sent :: s32
  cn_accepted_monitoring :: bool
  cn_accepted_stats :: bool
  cn_accepted_motors :: "nat option \<Rightarrow> bool"
  cn_accepted_send :: bool

section \<open>Statistics\<close>

definition controller_stats_print :: "'r controller \<Rightarrow> 'r controller" where
  "controller_stats_print ctx = ctx\<lparr>ct_stats_snap := (ct_stats_snap ctx)\<lparr>cst_pending := False\<rparr>\<rparr>"

definition controller_stats_dump :: "bool \<Rightarrow> 'r controller \<Rightarrow> 'r controller" where
  "controller_stats_dump accepted ctx =
     (if cst_pending (ct_stats_snap ctx) then ctx
      else (let st = (ct_stats ctx)\<lparr>cst_state := ct_state ctx\<rparr>
            in ctx\<lparr>ct_stats := st, ct_stats_snap := st\<lparr>cst_pending := accepted\<rparr>\<rparr>))"

definition controller_monitoring_sent :: "'r controller \<Rightarrow> 'r controller" where
  "controller_monitoring_sent ctx = ctx\<lparr>ct_msg_pending := False\<rparr>"

definition controller_monitoring_send :: "bool \<Rightarrow> cyclic_task \<times> 'r controller \<Rightarrow> cyclic_task \<times> 'r controller" where
  "controller_monitoring_send accepted s =
     (let (c, ctx) = s in
      if ct_msg_pending ctx then (c, ctx)
      else
        (let msg = (ct_msg ctx)\<lparr>mm_id := ucast (cy_id c), mm_state := of_nat (controller_state_number (ct_state ctx)), mm_type := 0\<rparr>;
             (motors, strategy) = control_strategy_get_motor_monitoring (ct_strategy ctx) 2;
             msg = msg\<lparr>mm_motors := motors @ drop (length motors) (mm_motors msg)\<rparr>;
             (cyclic, c) = cyclic_task_get_monitoring c (mm_cyclic msg) 2
         in (c, ctx\<lparr>ct_strategy := strategy, ct_msg := msg\<lparr>mm_cyclic := cyclic\<rparr>, ct_msg_pending := accepted\<rparr>)))"

section \<open>The devices\<close>

text \<open>The last device with the identifier, as an index; an index beyond the array is a trap.\<close>

definition dev_id_to_io_device_ctx :: "'r controller \<Rightarrow> u32 \<Rightarrow> nat option option" where
  "dev_id_to_io_device_ctx ctx io_device_id =
     for_upto_opt (unat (ct_num_io_device ctx))
       (\<lambda>i found. if i < length (ct_io_devices ctx)
          then Some (if io_device_id = ci_id (ct_io_devices ctx ! i) then Some i else found) else None) None"

definition motor_id_to_motor_data :: "controlled_io_device \<Rightarrow> u32 \<Rightarrow> nat option option" where
  "motor_id_to_motor_data dev motor_id =
     (if motor_id < ci_num_motors dev then
        (if unat motor_id < length (ci_motors dev) then Some (ci_motors dev ! unat motor_id) else None)
      else Some None)"

definition check_all_io_devices_connected :: "'r controller \<Rightarrow> bool option" where
  "check_all_io_devices_connected ctx =
     map_option (\<lambda>n. n = ct_num_io_device ctx)
       (for_upto_opt (unat (ct_num_io_device ctx))
         (\<lambda>i n. if i < length (ct_io_devices ctx)
            then Some (if ci_connected (ct_io_devices ctx ! i) then n + 1 else n) else None) (0 :: u16))"

text \<open>All events of the queue are taken.\<close>

definition button_press_event_check :: "'r controller \<Rightarrow> bool \<times> 'r controller" where
  "button_press_event_check ctx = (BUTTON_PRESSED \<in> set (ct_events ctx), ctx\<lparr>ct_events := []\<rparr>)"

definition controller_set_state :: "'r controller \<Rightarrow> sm_controller_state \<Rightarrow> 'r controller" where
  "controller_set_state ctx new_state = (if new_state \<noteq> ct_state ctx then ctx\<lparr>ct_state := new_state\<rparr> else ctx)"

section \<open>Transmission\<close>

definition unset_set_iq :: "'r cflt \<Rightarrow> 'r motor_set_iq" where
  "unset_set_iq G = \<lparr>si_io_device_id = 0, si_motor_id = 0, si_iq_req = f0 G\<rparr>"

text \<open>Entry \<open>i\<close> of the message is that of the last motor of device \<open>i\<close>. What is not written stays as the stack had it.\<close>

definition controller_message :: "'r cflt \<Rightarrow> 'r controller \<Rightarrow> 'r msg_set_iq option" where
  "controller_message G ctx =
     do {
       array \<leftarrow> for_upto_opt (unat (ct_num_io_device ctx))
         (\<lambda>i array.
            if i < length (ct_io_devices ctx) then
              (let dev = ct_io_devices ctx ! i in
               for_upto_opt (unat (ci_num_motors dev))
                 (\<lambda>j array.
                    if j < length (ci_motors dev) \<and> i < length array then do {
                      m \<leftarrow> motor_at (ci_motors dev ! j) (ct_strategy ctx);
                      Some (array[i := \<lparr>si_io_device_id = ucast (ci_id dev), si_motor_id = of_nat j, si_iq_req = mo_iq_req m\<rparr>])
                    } else None) array)
            else None) (replicate (NB_MOTORS_MAX * NB_IO_DEVICE_MAX) (unset_set_iq G));
       Some \<lparr>mq_action = (if ct_state ctx = IO_DEVICE_MISSING then HOLD else APPLY_IQ), mq_num_msg = ct_num_io_device ctx, mq_array = array\<rparr>
     }"

definition controller_send ::
  "'r cflt \<Rightarrow> s32 \<Rightarrow> s32 \<Rightarrow> cyclic_task \<times> 'r controller_sys \<Rightarrow> (cyclic_task \<times> 'r controller_sys) option" where
  "controller_send G ready sent s =
     (let (c, ctx, out) = s in
      do {
        msg \<leftarrow> controller_message G ctx;
        let (rc, request, c) = cyclic_net_transmit c MSG_SET_IQ SET_IQ_SIZE ready sent;
        Some (c, ctx, case request of None \<Rightarrow> out | Some r \<Rightarrow> (r, msg) # out)
      })"

section \<open>The state machine\<close>

text \<open>Two seconds, in periods.\<close>

definition restart_delay :: "u32 \<Rightarrow> s32" where
  "restart_delay period = 2000 * 1000000 div period"

definition controller_press :: "'r controller \<Rightarrow> 'r controller option" where
  "controller_press ctx =
     (let (pressed, ctx) = button_press_event_check ctx in
      if pressed \<and> \<not> ct_stopped ctx
      then map_option (\<lambda>st. ctx\<lparr>ct_strategy := st\<rparr>) (control_strategy_next_strategy (ct_strategy ctx))
      else Some ctx)"

definition controller_command :: "'r controller \<Rightarrow> 'r controller option" where
  "controller_command ctx =
     (if ct_cmd_client ctx = Null_client then Some ctx
      else do {
        state \<leftarrow> command_client_get_state (ct_cmd_client ctx);
        Some (if state = CMD_STATE_STOP \<and> \<not> ct_stopped ctx then
            ctx\<lparr>ct_stopped := True, ct_strategy := control_strategy_set_strategy (ct_strategy ctx) CTRL_STRAT_STOP\<rparr>
          else if state = CMD_STATE_GO \<and> ct_stopped ctx then
            ctx\<lparr>ct_stopped := False, ct_strategy := control_strategy_previous_strategy (ct_strategy ctx)\<rparr>
          else ctx)
      })"

text \<open>\<open>period\<close> is the period of the task, which divides; \<open>accepted\<close> answers the call of \<open>motor_stats_send\<close>.\<close>

definition controller_state_control :: "'r cflt \<Rightarrow> u32 \<Rightarrow> bool \<Rightarrow> 'r controller \<Rightarrow> 'r controller option" where
  "controller_state_control G period accepted ctx =
     do {
       ctx \<leftarrow> controller_press ctx;
       all_connected \<leftarrow> check_all_io_devices_connected ctx;
       if \<not> all_connected then
         (if period = 0 then None
          else Some ((controller_set_state ctx IO_DEVICE_MISSING)\<lparr>ct_restart_delay := restart_delay period\<rparr>))
       else do {
         ctx \<leftarrow> controller_command ctx;
         (strategy, err) \<leftarrow> control_strategy_state_machine G accepted (ct_strategy ctx);
         let ctx = ctx\<lparr>ct_strategy := strategy, ct_control_error := ct_control_error ctx \<or> err\<rparr>;
         Some (if ct_control_error ctx
           then controller_set_state
             (ctx\<lparr>ct_stats := (ct_stats ctx)\<lparr>cst_err_strat_loop := cst_err_strat_loop (ct_stats ctx) + 1\<rparr>, ct_control_error := False\<rparr>) STANDBY
           else ctx)
       }
     }"

definition controller_state_io_device_missing :: "u32 \<Rightarrow> 'r controller \<Rightarrow> 'r controller option" where
  "controller_state_io_device_missing period ctx =
     do {
       ctx \<leftarrow> controller_press ctx;
       all_connected \<leftarrow> check_all_io_devices_connected ctx;
       if all_connected then
         (let elapsed = ct_restart_delay ctx = 0; ctx = ctx\<lparr>ct_restart_delay := ct_restart_delay ctx - 1\<rparr>
          in Some (if elapsed
            then controller_set_state (ctx\<lparr>ct_strategy := control_strategy_reset_strategy (ct_strategy ctx)\<rparr>) CONTROL_SM
            else ctx))
       else if period = 0 then None
       else Some (ctx\<lparr>ct_restart_delay := restart_delay period\<rparr>)
     }"

definition controller_state_standby :: "'r controller \<Rightarrow> 'r controller" where
  "controller_state_standby ctx =
     (let (pressed, ctx) = button_press_event_check ctx
      in if pressed
         then controller_set_state (ctx\<lparr>ct_strategy := control_strategy_reset_strategy (ct_strategy ctx)\<rparr>) CONTROL_SM
         else ctx)"

definition upd_ct_stats :: "(controller_stats \<Rightarrow> controller_stats) \<Rightarrow> 'r controller \<Rightarrow> 'r controller" where
  "upd_ct_stats f ctx = ctx\<lparr>ct_stats := f (ct_stats ctx)\<rparr>"

definition run_controller_state :: "'r cflt \<Rightarrow> u32 \<Rightarrow> bool \<Rightarrow> 'r controller \<Rightarrow> 'r controller option" where
  "run_controller_state G period accepted ctx =
     (case ct_state ctx of
        CONTROL_SM \<Rightarrow> map_option (upd_ct_stats (\<lambda>st. st\<lparr>cst_sm_control := cst_sm_control st + 1\<rparr>))
          (controller_state_control G period accepted ctx)
      | IO_DEVICE_MISSING \<Rightarrow> map_option (upd_ct_stats (\<lambda>st. st\<lparr>cst_sm_io_device_missing := cst_sm_io_device_missing st + 1\<rparr>))
          (controller_state_io_device_missing period ctx)
      | STANDBY \<Rightarrow> Some (upd_ct_stats (\<lambda>st. st\<lparr>cst_sm_standby := cst_sm_standby st + 1\<rparr>) (controller_state_standby ctx)))"

section \<open>The cycle\<close>

text \<open>\<open>num_sched_stats\<close> is computed in \<open>double\<close>, \<open>num_sched_monitoring\<close> in integers.\<close>

definition controller_num_sched_stats :: "'r cflt \<Rightarrow> u32 \<Rightarrow> u32" where
  "controller_num_sched_stats G period = to_u32 G (dmul G (dec G 2 0) (ddiv G (dec G 1000000000 0) (d_of_u32 G period)))"

definition controller_loop ::
  "'r cflt \<Rightarrow> controller_env \<Rightarrow> 'r controller_sys loop_func" where
  "controller_loop G env timer_status s =
     (let (c, ctx, out) = s; period = tp_task_period_ns (cy_params c); sched = ts_sched (tk_stats (cy_task c)) in
      if period = 0 then None
      else do {
        let num_sched_stats = controller_num_sched_stats G period;
        let num_sched_monitoring = 1000 * (NSECS_PER_MSEC div period);
        let ctx = ctx\<lparr>ct_strategy := control_strategy_reset_iq G (ct_strategy ctx)\<rparr>;
        ctx \<leftarrow> run_controller_state G period (cn_accepted_send env) ctx;
        (c, ctx, out) \<leftarrow> controller_send G (cn_ready env) (cn_sent env) (c, ctx, out);
        devices \<leftarrow> for_upto_opt (unat (ct_num_io_device ctx))
          (\<lambda>i devs. if i < length devs then Some (devs[i := (devs ! i)\<lparr>ci_connected := False\<rparr>]) else None) (ct_io_devices ctx);
        let ctx = ctx\<lparr>ct_io_devices := devices\<rparr>;
        (c, ctx) \<leftarrow> (if num_sched_monitoring = 0 then None
          else if sched mod num_sched_monitoring = 0 then Some (controller_monitoring_send (cn_accepted_monitoring env) (c, ctx))
          else Some (c, ctx));
        ctx \<leftarrow> (if num_sched_stats = 0 then None
          else if sched mod num_sched_stats = 0 then
            (let ctx = controller_stats_dump (cn_accepted_stats env) ctx
             in Some (ctx\<lparr>ct_strategy := control_strategy_stats_dump (cn_accepted_motors env) (ct_strategy ctx)\<rparr>))
          else Some ctx);
        Some (c, ctx, out)
      })"

section \<open>Reception\<close>

text \<open>One entry of a feedback message of device \<open>d\<close>.\<close>

definition controller_take_feedback :: "nat \<Rightarrow> 'r motor_feedback \<Rightarrow> 'r controller \<Rightarrow> 'r controller option" where
  "controller_take_feedback d fb ctx =
     do {
       motor \<leftarrow> motor_id_to_motor_data (ct_io_devices ctx ! d) (ucast (fb_motor_id fb));
       case motor of
         None \<Rightarrow> Some (upd_ct_stats (\<lambda>st. st\<lparr>cst_err_motor_id := cst_err_motor_id st + 1\<rparr>) ctx)
       | Some a \<Rightarrow> map_option (\<lambda>st. ctx\<lparr>ct_strategy := st\<rparr>)
           (motor_upd (Some a) (\<lambda>m. control_strategy_set_feedback m fb) (ct_strategy ctx))
     }"

definition controller_net_receive :: "tsn_common_hdr \<Rightarrow> 'r msg_feedback \<Rightarrow> 'r controller \<Rightarrow> 'r controller option" where
  "controller_net_receive hdr msg ctx =
     (if ucast (hdr_msg_id hdr) = MSG_FEEDBACK then
        (if ucast (hdr_len hdr) \<noteq> FEEDBACK_SIZE then
           Some (if cst_err_invalid_len (ct_stats ctx) = 0x7fffffff then ctx
             else upd_ct_stats (\<lambda>st. st\<lparr>cst_err_invalid_len := cst_err_invalid_len st + 1\<rparr>) ctx)
         else do {
           dev \<leftarrow> dev_id_to_io_device_ctx ctx (ucast (hdr_src_id hdr));
           case dev of
             None \<Rightarrow> Some (upd_ct_stats (\<lambda>st. st\<lparr>cst_err_src_id := cst_err_src_id st + 1\<rparr>) ctx)
           | Some d \<Rightarrow>
               let ctx = (if mf_status msg = 0
                 then ctx\<lparr>ct_io_devices := (ct_io_devices ctx)[d := (ct_io_devices ctx ! d)\<lparr>ci_connected := True\<rparr>]\<rparr> else ctx)
               in for_upto_opt (unat (mf_num_msg msg))
                    (\<lambda>i ctx. if i < length (mf_array msg) then controller_take_feedback d (mf_array msg ! i) ctx else None) ctx
         })
      else Some (upd_ct_stats (\<lambda>st. st\<lparr>cst_err_msg_id := cst_err_msg_id st + 1\<rparr>) ctx))"

text \<open>As the receive function of the controller's cyclic task.\<close>

definition controller_rx :: "('r msg_feedback, 'r controller_sys) rx_func" where
  "controller_rx hdr msg s = (let (ctx, out) = s in map_option (\<lambda>ctx. (ctx, out)) (controller_net_receive hdr msg ctx))"

section \<open>Initialisation and exit\<close>

text \<open>What the initialisation reads of \<open>struct controller_config\<close> and of the cyclic task's configuration.\<close>

record 'r controller_config =
  cg_num_peers :: u32
  cg_peer_ids :: "u32 list"
  cg_period_ns :: u32
  cg_first_strategy :: u32
  cg_cmd_client :: bool
  cg_app_motor_params_init :: "('r motor_params \<Rightarrow> u32 \<Rightarrow> 'r motor_params) option"

text \<open>
  The outcomes of the calls to the system: creating and registering the event queue, allocating the strategy, opening its
  socket, the clock and the memory of each device's motor, the command client, the monitoring socket and the cyclic task.
\<close>

record controller_init_env =
  cv_queue :: bool
  cv_button :: bool
  cv_alloc :: bool
  cv_net :: bool
  cv_now :: "nat \<Rightarrow> u64 option"
  cv_motor :: "nat \<Rightarrow> nat option"
  cv_cmd_alloc :: bool
  cv_cmd_thread :: bool
  cv_monitoring :: bool
  cv_task :: bool

text \<open>One device with one motor; \<open>Inl None\<close> is an access beyond the arrays, \<open>Inl (Some _)\<close> the clock's error.\<close>

definition controller_init_device ::
  "'r cflt \<Rightarrow> 'r m1_config \<Rightarrow> controller_init_env \<Rightarrow> 'r controller_config \<Rightarrow> nat \<Rightarrow> 'r controller \<Rightarrow>
     'r controller option + 'r controller" where
  "controller_init_device G M env cfg i ctx =
     (if i < length (ct_io_devices ctx) \<and> i < length (cg_peer_ids cfg) then
        (let dev = (ct_io_devices ctx ! i)\<lparr>ci_id := cg_peer_ids cfg ! i, ci_connected := False, ci_num_motors := 1\<rparr>;
             ctx = ctx\<lparr>ct_io_devices := (ct_io_devices ctx)[i := dev]\<rparr>
         in case cv_now env i of
              None \<Rightarrow> Inl (Some ctx)
            | Some now \<Rightarrow>
                let (motor, strategy) = control_strategy_register_motor G M (ct_strategy ctx) (cv_motor env i) (ucast (ci_id dev)) 0 now
                      (cg_app_motor_params_init cfg)
                in Inr (ctx\<lparr>ct_strategy := strategy, ct_io_devices := (ct_io_devices ctx)[i := dev\<lparr>ci_motors := (ci_motors dev)[0 := motor]\<rparr>]\<rparr>))
      else Inl None)"

definition controller_init ::
  "'r cflt \<Rightarrow> 'r m1_config \<Rightarrow> controller_init_env \<Rightarrow> 'r controller_config \<Rightarrow> 'r controller \<Rightarrow> (int \<times> 'r controller) option" where
  "controller_init G M env cfg ctx =
     (let ctx = ctx\<lparr>ct_num_io_device := ucast (cg_num_peers cfg)\<rparr> in
      if \<not> cv_queue env then Some (- 1, ctx)
      else
        (let ctx = ctx\<lparr>ct_events := []\<rparr> in
         if \<not> cv_button env then Some (- 1, ctx)
         else
           (let ctx = ctx\<lparr>ct_state := CONTROL_SM, ct_stopped := False, ct_control_error := False, ct_cmd_client := Null_client\<rparr> in
            case control_strategy_context_init G (cv_alloc env) (cv_net env) (cg_first_strategy cfg) (cg_period_ns cfg) of
              None \<Rightarrow> Some (- 1, ctx)
            | Some strategy \<Rightarrow>
                case for_upto_err (unat (ct_num_io_device ctx)) (controller_init_device G M env cfg) (ctx\<lparr>ct_strategy := strategy\<rparr>) of
                  Inl None \<Rightarrow> None
                | Inl (Some ctx) \<Rightarrow> Some (- 1, ctx)
                | Inr ctx \<Rightarrow>
                    let ctx = ctx\<lparr>ct_strategy := control_strategy_set_error_callback (ct_strategy ctx) True\<rparr>;
                        ctx = (if cg_cmd_client cfg
                          then ctx\<lparr>ct_cmd_client := snd (command_client_start (cv_cmd_alloc env) (cv_cmd_thread env))\<rparr> else ctx)
                    in Some (if \<not> cv_monitoring env then - 1 else if \<not> cv_task env then - 1 else 0, ctx))))"

text \<open>What a pointer to the strategy gives after its context was freed.\<close>

definition control_strategy_context_exit :: "'r control_strategy \<Rightarrow> 'r control_strategy option" where
  "control_strategy_context_exit ctx = None"

text \<open>The exit frees the context, then takes the motors out of its list; the result is the context after it.\<close>

definition controller_exit :: "'r controller \<Rightarrow> 'r control_strategy option option" where
  "controller_exit ctx =
     for_upto_opt (unat (ct_num_io_device ctx))
       (\<lambda>i strategy.
          if i < length (ct_io_devices ctx) then
            (let dev = ct_io_devices ctx ! i in
             for_upto_opt (unat (ci_num_motors dev))
               (\<lambda>j strategy.
                  if j < length (ci_motors dev) then
                    (case (strategy, ci_motors dev ! j) of
                       (Some st, Some a) \<Rightarrow> Some (Some (control_strategy_unregister_motor st a))
                     | _ \<Rightarrow> None)
                  else None) strategy)
          else None) (control_strategy_context_exit (ct_strategy ctx))"

end
