(* ===== verification/Motor_Io_Device.thy ===== *)
theory Motor_Io_Device
  imports Motor_Api
begin

text \<open>
  A motor device, \<open>tsn/motor/io_device.c\<close>: the state machine that brings the motor to its index, then applies the
  currents the controller sends, one frame a period, and answers with the motor's feedback.
\<close>

section \<open>State\<close>

datatype sm_io_device_state = WAIT_FOR_INPUT | INIT_IO | STAY_INDEX | REMOTE_CONTROL | FREERUNNING | MOTOR_FAULT

text \<open>The states are compared as the numbers they are.\<close>

primrec io_state_number :: "sm_io_device_state \<Rightarrow> nat" where
  "io_state_number WAIT_FOR_INPUT = 0"
| "io_state_number INIT_IO = 1"
| "io_state_number STAY_INDEX = 2"
| "io_state_number REMOTE_CONTROL = 3"
| "io_state_number FREERUNNING = 4"
| "io_state_number MOTOR_FAULT = 5"

lemma io_state_number_inject [simp]: "io_state_number s = io_state_number t \<longleftrightarrow> s = t"
  by (cases s; cases t) simp_all

instantiation sm_io_device_state :: linorder
begin

definition less_eq_sm_io_device_state :: "sm_io_device_state \<Rightarrow> sm_io_device_state \<Rightarrow> bool" where
  "less_eq_sm_io_device_state s t \<longleftrightarrow> io_state_number s \<le> io_state_number t"

definition less_sm_io_device_state :: "sm_io_device_state \<Rightarrow> sm_io_device_state \<Rightarrow> bool" where
  "less_sm_io_device_state s t \<longleftrightarrow> io_state_number s < io_state_number t"

instance
  by standard (auto simp: less_eq_sm_io_device_state_def less_sm_io_device_state_def)

end

record stats_io_device =
  si_pending :: bool
  si_state :: sm_io_device_state
  si_err_msg_id :: u32
  si_err_cmd_recv :: u32
  si_err_invalid_len :: u32

record 'r stats_motor =
  st_pending :: bool
  st_state :: u8
  st_iq_req :: 'r
  st_pos_real :: 'r
  st_speed_real :: 'r
  st_last_index :: u32
  st_missed_slow_loop :: u32
  st_counter_rev_jumps :: u32
  st_fast_loop_executed :: u32

record 'r motor_controlled =
  mk_id :: u16
  mk_iq_req :: 'r
  mk_offset :: 'r
  mk_stats :: "'r stats_motor"
  mk_stats_snap :: "'r stats_motor"

text \<open>
  \<open>struct io_device_ctx\<close>; the cyclic task it points to is passed beside it. The event queue, which the button's task fills,
  is the list of its events.
\<close>

record 'r io_device =
  dv_num_motors :: u16
  dv_motors :: "'r motor_controlled list"
  dv_state :: sm_io_device_state
  dv_status :: u16
  dv_stats :: stats_io_device
  dv_stats_snap :: stats_io_device
  dv_events :: "event_button list"
  dv_stay_index_delay :: u32
  dv_offset_reached :: bool
  dv_action :: u16
  dv_msg :: monitoring_msg
  dv_msg_pending :: bool

text \<open>
  What the handlers act on: the device, the motor, and the messages handed to the network, the last first, each with its
  request.
\<close>

type_synonym ('r, 'w) io_sys = "'r io_device \<times> ('r, 'w) mc \<times> (tx_request \<times> 'r msg_feedback) list"

abbreviation (input) IO_DEVICE_STATUS_ERR_FAULT :: u16 where "IO_DEVICE_STATUS_ERR_FAULT \<equiv> 1"
abbreviation (input) IO_DEVICE_STATUS_ERR_NETWORK :: u16 where "IO_DEVICE_STATUS_ERR_NETWORK \<equiv> 2"

definition io_device_status_set_error_network :: "u16 \<Rightarrow> u16" where
  "io_device_status_set_error_network status = status OR IO_DEVICE_STATUS_ERR_NETWORK"

definition io_device_status_set_error_fault :: "u16 \<Rightarrow> u16" where
  "io_device_status_set_error_fault status = status OR IO_DEVICE_STATUS_ERR_FAULT"

definition io_device_status_clear_error_network :: "u16 \<Rightarrow> u16" where
  "io_device_status_clear_error_network status = status AND NOT IO_DEVICE_STATUS_ERR_NETWORK"

section \<open>Statistics\<close>

definition io_device_stats_print :: "'r io_device \<Rightarrow> 'r io_device" where
  "io_device_stats_print ctx = ctx\<lparr>dv_stats_snap := (dv_stats_snap ctx)\<lparr>si_pending := False\<rparr>\<rparr>"

definition io_device_stats_dump :: "bool \<Rightarrow> 'r io_device \<Rightarrow> 'r io_device" where
  "io_device_stats_dump accepted ctx =
     (if si_pending (dv_stats_snap ctx) then ctx
      else (let st = (dv_stats ctx)\<lparr>si_state := dv_state ctx\<rparr>
            in ctx\<lparr>dv_stats := st, dv_stats_snap := st\<lparr>si_pending := accepted\<rparr>\<rparr>))"

text \<open>The function that sends the datagram, run later by the asynchronous task.\<close>

definition io_device_monitoring_sent :: "'r io_device \<Rightarrow> 'r io_device" where
  "io_device_monitoring_sent ctx = ctx\<lparr>dv_msg_pending := False\<rparr>"

definition io_device_monitoring_send :: "bool \<Rightarrow> cyclic_task \<times> 'r io_device \<Rightarrow> cyclic_task \<times> 'r io_device" where
  "io_device_monitoring_send accepted s =
     (let (c, ctx) = s in
      if dv_msg_pending ctx then (c, ctx)
      else
        (let msg = (dv_msg ctx)\<lparr>mm_id := ucast (cy_id c), mm_state := of_nat (io_state_number (dv_state ctx)), mm_type := 1\<rparr>;
             (cyclic, c) = cyclic_task_get_monitoring c (mm_cyclic msg) 2
         in (c, ctx\<lparr>dv_msg := msg\<lparr>mm_cyclic := cyclic\<rparr>, dv_msg_pending := accepted\<rparr>)))"

definition io_motor_stats_print :: "'r motor_controlled \<Rightarrow> 'r motor_controlled" where
  "io_motor_stats_print m = m\<lparr>mk_stats_snap := (mk_stats_snap m)\<lparr>st_pending := False\<rparr>\<rparr>"

definition io_motor_stats_dump :: "'r cflt \<Rightarrow> ('r, 'w) mclib \<Rightarrow> ('r, 'w) mc \<Rightarrow> bool \<Rightarrow> 'r motor_controlled \<Rightarrow> 'r motor_controlled" where
  "io_motor_stats_dump G L w accepted m =
     (if st_pending (mk_stats_snap m) then m
      else
        (let fb = mcapi_get_motor_feedback L w (unset_feedback G);
             st = (mk_stats m)\<lparr>st_state := ucast (mcapi_get_motor_state L w), st_iq_req := mk_iq_req m,
                    st_pos_real := fadd G (fb_pos fb) (mk_offset m), st_speed_real := fb_speed fb,
                    st_last_index := mcapi_get_last_index L w, st_missed_slow_loop := mcapi_get_missed_slow_loop w,
                    st_counter_rev_jumps := mcapi_get_revolution_jumps L w,
                    st_fast_loop_executed := mcapi_get_fast_loop_executed w\<rparr>
         in m\<lparr>mk_stats := st, mk_stats_snap := st\<lparr>st_pending := accepted\<rparr>\<rparr>))"

section \<open>The loops over the motors\<close>

text \<open>
  \<open>for (i = 0; i < num_motors; i++)\<close> with a body on \<open>motors_controlled[i]\<close> and the motor; an index beyond the array is a trap.
\<close>

definition each_controlled ::
  "('r motor_controlled \<Rightarrow> ('r, 'w) mc \<Rightarrow> 'a \<Rightarrow> 'r motor_controlled \<times> ('r, 'w) mc \<times> 'a) \<Rightarrow> 'r io_device \<Rightarrow> ('r, 'w) mc \<Rightarrow> 'a \<Rightarrow>
     ('r io_device \<times> ('r, 'w) mc \<times> 'a) option" where
  "each_controlled f ctx w x =
     for_upto_opt (unat (dv_num_motors ctx))
       (\<lambda>i (ctx, w, x).
          if i < length (dv_motors ctx) then
            (let (m, w, x) = f (dv_motors ctx ! i) w x in Some (ctx\<lparr>dv_motors := (dv_motors ctx)[i := m]\<rparr>, w, x))
          else None) (ctx, w, x)"

section \<open>Transmission\<close>

text \<open>\<open>ready\<close> and \<open>sent\<close> are the answers of the network stack.\<close>

definition io_device_send ::
  "'r cflt \<Rightarrow> ('r, 'w) mclib \<Rightarrow> s32 \<Rightarrow> s32 \<Rightarrow> cyclic_task \<times> ('r, 'w) io_sys \<Rightarrow> (cyclic_task \<times> ('r, 'w) io_sys) option" where
  "io_device_send G L ready sent s =
     (let (c, ctx, w, out) = s in
      do {
        (ctx, w, array) \<leftarrow> each_controlled (\<lambda>m w array.
             let fb = mcapi_get_motor_feedback L w (unset_feedback G);
                 fb = fb\<lparr>fb_pos := fadd G (fb_pos fb) (mk_offset m)\<rparr>
             in (m, w, array @ [fb\<lparr>fb_motor_id := mk_id m\<rparr>])) ctx w [];
        let msg = \<lparr>mf_status = dv_status ctx, mf_num_msg = dv_num_motors ctx, mf_array = array\<rparr>;
        let (rc, request, c) = cyclic_net_transmit c MSG_FEEDBACK FEEDBACK_SIZE ready sent;
        Some (c, ctx, w, case request of None \<Rightarrow> out | Some r \<Rightarrow> (r, msg) # out)
      })"

section \<open>The states\<close>

definition io_device_set_state :: "'r io_device \<Rightarrow> sm_io_device_state \<Rightarrow> 'r io_device" where
  "io_device_set_state ctx new_state = (if new_state \<noteq> dv_state ctx then ctx\<lparr>dv_state := new_state\<rparr> else ctx)"

text \<open>\<open>period\<close> is the period of the task in nanoseconds.\<close>

definition io_device_state_init ::
  "('r, 'w) mclib \<Rightarrow> u32 \<Rightarrow> 'r io_device \<times> ('r, 'w) mc \<Rightarrow> ('r io_device \<times> ('r, 'w) mc) option" where
  "io_device_state_init L period s =
     (let (ctx, w) = s in
      do {
        (ctx, w, n) \<leftarrow> each_controlled (\<lambda>m w n.
             let n = (if mcapi_motor_initialized w then n + 1 else n) in (m, mcapi_slowloop L w, n)) ctx w (0 :: u16);
        if n = dv_num_motors ctx then
          (let ctx = io_device_set_state ctx STAY_INDEX
           in if period = 0 then None
              else Some (ctx\<lparr>dv_stay_index_delay := 2000 * (1000000 div period), dv_offset_reached := False\<rparr>, w))
        else Some (ctx, w)
      })"

definition io_device_stay_index ::
  "'r cflt \<Rightarrow> ('r, 'w) mclib \<Rightarrow> 'r io_device \<times> ('r, 'w) mc \<Rightarrow> ('r io_device \<times> ('r, 'w) mc) option" where
  "io_device_stay_index G L s =
     (let (ctx, w) = s in
      do {
        (ctx, w, n) \<leftarrow> each_controlled (\<lambda>m w n.
             let w = mcapi_set_position L (fl G (dsub G (dec G 0 0) (mk_offset m))) w;
                 w = mcapi_slowloop L w;
                 fb = mcapi_get_motor_feedback L w (unset_feedback G);
                 n = (if flt G (dabs G (fadd G (fb_pos fb) (mk_offset m))) (dec G 2 2) then n + 1 else n)
             in (m, w, n)) ctx w (0 :: u32);
        if n = ucast (dv_num_motors ctx) then
          (let elapsed = dv_stay_index_delay ctx = 0;
               ctx = ctx\<lparr>dv_stay_index_delay := dv_stay_index_delay ctx - 1\<rparr>
           in Some (if elapsed then ctx\<lparr>dv_offset_reached := True\<rparr> else ctx, w))
        else Some (ctx, w)
      })"

definition io_device_state_freerunning ::
  "'r cflt \<Rightarrow> 'r m1_config \<Rightarrow> 'r io_device \<times> ('r, 'w) mc \<Rightarrow> ('r io_device \<times> ('r, 'w) mc) option" where
  "io_device_state_freerunning G M s =
     (let (ctx, w) = s in
      do {
        (ctx, w, _) \<leftarrow> each_controlled (\<lambda>m w _.
             let w = mcapi_set_closed_current_loop False w;
                 m = m\<lparr>mk_iq_req := f0 G\<rparr>
             in (m, mcapi_set_iq_req G M (mk_iq_req m) w, ())) ctx w ();
        Some (ctx, w)
      })"

definition io_device_state_remote_control ::
  "'r cflt \<Rightarrow> ('r, 'w) mclib \<Rightarrow> 'r m1_config \<Rightarrow> 'r io_device \<times> ('r, 'w) mc \<Rightarrow> ('r io_device \<times> ('r, 'w) mc) option" where
  "io_device_state_remote_control G L M s =
     (let (ctx, w) = s in
      do {
        (ctx, w, _) \<leftarrow> each_controlled (\<lambda>m w _. (m, mcapi_slowloop L (mcapi_set_iq_req G M (mk_iq_req m) w), ())) ctx w ();
        Some (ctx, w)
      })"

definition run_io_device_state ::
  "'r cflt \<Rightarrow> ('r, 'w) mclib \<Rightarrow> 'r m1_config \<Rightarrow> u32 \<Rightarrow> 'r io_device \<times> ('r, 'w) mc \<Rightarrow> ('r io_device \<times> ('r, 'w) mc) option" where
  "run_io_device_state G L M period s =
     (case dv_state (fst s) of
        WAIT_FOR_INPUT \<Rightarrow> Some s
      | INIT_IO \<Rightarrow> io_device_state_init L period s
      | STAY_INDEX \<Rightarrow> io_device_stay_index G L s
      | FREERUNNING \<Rightarrow> io_device_state_freerunning G M s
      | REMOTE_CONTROL \<Rightarrow> io_device_state_remote_control G L M s
      | MOTOR_FAULT \<Rightarrow> Some s)"

section \<open>The cycle\<close>

text \<open>
  The answers of the environment in one turn: the network stack's to the transmission, and whether the asynchronous task's
  queue takes each call.
\<close>

record io_env =
  ie_ready :: s32
  ie_sent :: s32
  ie_accepted_monitoring :: bool
  ie_accepted_stats :: bool
  ie_accepted_motor :: "u16 \<Rightarrow> bool"

text \<open>The receive call takes the first event of the queue and does not wait.\<close>

definition io_device_input :: "'r io_device \<Rightarrow> 'r io_device" where
  "io_device_input ctx =
     (case dv_events ctx of
        [] \<Rightarrow> ctx
      | BUTTON_PRESSED # es \<Rightarrow>
          let ctx = ctx\<lparr>dv_events := es\<rparr>
          in if dv_state ctx = WAIT_FOR_INPUT then io_device_set_state ctx INIT_IO else ctx)"

text \<open>A motor whose own state machine is in its state 0 is in fault.\<close>

definition io_device_check_faults :: "('r, 'w) mclib \<Rightarrow> 'r io_device \<times> ('r, 'w) mc \<Rightarrow> ('r io_device \<times> ('r, 'w) mc) option" where
  "io_device_check_faults L s =
     (let (ctx, w) = s in
      do {
        (ctx, w, fault) \<leftarrow> each_controlled (\<lambda>m w fault. (m, w, fault \<or> mcapi_get_motor_state L w = 0)) ctx w False;
        Some (if fault
          then (let ctx = io_device_set_state ctx MOTOR_FAULT in ctx\<lparr>dv_status := io_device_status_set_error_fault (dv_status ctx)\<rparr>)
          else ctx, w)
      })"

definition io_device_transition :: "'r io_device \<Rightarrow> 'r io_device" where
  "io_device_transition ctx =
     (if dv_status ctx = 0 \<and> dv_action ctx = APPLY_IQ then
        (if dv_state ctx = FREERUNNING then io_device_set_state ctx REMOTE_CONTROL
         else if dv_state ctx = STAY_INDEX \<and> dv_offset_reached ctx then io_device_set_state ctx REMOTE_CONTROL
         else ctx)
      else if dv_state ctx = REMOTE_CONTROL then io_device_set_state ctx FREERUNNING
      else ctx)"

definition io_device_loop ::
  "'r cflt \<Rightarrow> ('r, 'w) mclib \<Rightarrow> 'r m1_config \<Rightarrow> io_env \<Rightarrow> ('r, 'w) io_sys loop_func" where
  "io_device_loop G L M env timer_status s =
     (let (c, ctx, w, out) = s; period = tp_task_period_ns (cy_params c); sched = ts_sched (tk_stats (cy_task c)) in
      if period = 0 then None
      else do {
        let num_sched_stats = 2 * (NSECS_PER_SEC div period);
        let num_sched_monitoring = 1000 * (NSECS_PER_MSEC div period);
        let ctx = io_device_input ctx;
        (ctx, w) \<leftarrow> io_device_check_faults L (ctx, w);
        let ctx = io_device_transition ctx;
        (ctx, w, _) \<leftarrow> each_controlled (\<lambda>m w _. (m, mcapi_set_closed_current_loop (\<not> timer_status < 0) w, ())) ctx w ();
        (ctx, w) \<leftarrow> run_io_device_state G L M period (ctx, w);
        (c, ctx, w, out) \<leftarrow> (if dv_state ctx \<ge> STAY_INDEX \<and> dv_offset_reached ctx
          then io_device_send G L (ie_ready env) (ie_sent env) (c, ctx, w, out) else Some (c, ctx, w, out));
        (c, ctx) \<leftarrow> (if num_sched_monitoring = 0 then None
          else if sched mod num_sched_monitoring = 0 then Some (io_device_monitoring_send (ie_accepted_monitoring env) (c, ctx))
          else Some (c, ctx));
        (ctx, w, _) \<leftarrow> (if num_sched_stats = 0 then None
          else if sched mod num_sched_stats = 0 then
            each_controlled (\<lambda>m w _. (io_motor_stats_dump G L w (ie_accepted_motor env (mk_id m)) m, w, ()))
              (io_device_stats_dump (ie_accepted_stats env) ctx) w ()
          else Some (ctx, w, ()));
        Some (c, ctx\<lparr>dv_status := io_device_status_set_error_network (dv_status ctx)\<rparr>, w, out)
      })"

section \<open>Reception\<close>

text \<open>
  The commands of a message for this device, stored one after the other; \<open>matches\<close> counts those of its motors. An
  entry beyond the message's array is a trap, and so is a motor beyond the device's.
\<close>

definition io_device_take_iq :: "u32 \<Rightarrow> 'r motor_set_iq \<Rightarrow> 'r io_device \<times> u32 \<Rightarrow> ('r io_device \<times> u32) option" where
  "io_device_take_iq task_id entry s =
     (let (ctx, matches) = s in
      if ucast (si_io_device_id entry) = task_id \<and> si_motor_id entry < dv_num_motors ctx then
        (let i = unat (si_motor_id entry) in
         if i < length (dv_motors ctx)
         then Some (ctx\<lparr>dv_motors := (dv_motors ctx)[i := (dv_motors ctx ! i)\<lparr>mk_iq_req := si_iq_req entry\<rparr>]\<rparr>, matches + 1)
         else None)
      else Some (ctx, matches))"

definition io_device_net_receive ::
  "u32 \<Rightarrow> tsn_common_hdr \<Rightarrow> 'r msg_set_iq \<Rightarrow> 'r io_device \<Rightarrow> 'r io_device option" where
  "io_device_net_receive task_id hdr msg ctx =
     (let err = (\<lambda>ctx. ctx\<lparr>dv_status := io_device_status_set_error_network (dv_status ctx)\<rparr>) in
      if ucast (hdr_msg_id hdr) = MSG_SET_IQ then
        (if ucast (hdr_len hdr) \<noteq> SET_IQ_SIZE then
           Some (err (ctx\<lparr>dv_stats_snap := (dv_stats_snap ctx)\<lparr>si_err_invalid_len := si_err_invalid_len (dv_stats_snap ctx) + 1\<rparr>\<rparr>))
         else do {
           (ctx, matches) \<leftarrow> for_upto_opt (unat (mq_num_msg msg))
             (\<lambda>i s. if i < length (mq_array msg) then io_device_take_iq task_id (mq_array msg ! i) s else None)
             (ctx\<lparr>dv_action := mq_action msg\<rparr>, 0);
           Some (if matches \<noteq> ucast (dv_num_motors ctx)
             then err (ctx\<lparr>dv_stats_snap := (dv_stats_snap ctx)\<lparr>si_err_cmd_recv := si_err_cmd_recv (dv_stats_snap ctx) + 1\<rparr>\<rparr>)
             else ctx\<lparr>dv_status := io_device_status_clear_error_network (dv_status ctx)\<rparr>)
         })
      else Some (err (ctx\<lparr>dv_stats_snap := (dv_stats_snap ctx)\<lparr>si_err_msg_id := si_err_msg_id (dv_stats_snap ctx) + 1\<rparr>\<rparr>)))"

text \<open>As the receive function of the device's cyclic task.\<close>

definition io_device_rx :: "u32 \<Rightarrow> ('r msg_set_iq, ('r, 'w) io_sys) rx_func" where
  "io_device_rx task_id hdr msg s =
     (let (ctx, w, out) = s in map_option (\<lambda>ctx. (ctx, w, out)) (io_device_net_receive task_id hdr msg ctx))"

section \<open>Initialisation\<close>

definition io_device_set_motor_offset :: "'r io_device \<Rightarrow> u16 \<Rightarrow> 'r \<Rightarrow> 'r io_device option" where
  "io_device_set_motor_offset ctx motor_id offset =
     (let i = unat motor_id in
      if i < length (dv_motors ctx) then Some (ctx\<lparr>dv_motors := (dv_motors ctx)[i := (dv_motors ctx ! i)\<lparr>mk_offset := offset\<rparr>]\<rparr>)
      else None)"

text \<open>
  \<open>alloc\<close> are the outcomes of the motors' allocations, \<open>queue\<close>, \<open>button\<close>, \<open>monitoring\<close> and \<open>task\<close> those of creating
  the event queue, registering it, opening the monitoring socket and initialising the cyclic task.
\<close>

definition io_device_init ::
  "'r cflt \<Rightarrow> ('r, 'w) mclib \<Rightarrow> (nat \<Rightarrow> bool) \<Rightarrow> bool \<Rightarrow> bool \<Rightarrow> bool \<Rightarrow> bool \<Rightarrow> u16 \<Rightarrow> 'r io_device \<times> ('r, 'w) mc \<Rightarrow>
     (int \<times> 'r io_device \<times> ('r, 'w) mc) option" where
  "io_device_init G L alloc queue button monitoring task nb_motors s =
     (let (ctx, w) = s;
          ctx = ctx\<lparr>dv_num_motors := nb_motors, dv_state := WAIT_FOR_INPUT, dv_status := 0, dv_offset_reached := False\<rparr>;
          motors = for_upto_err (unat nb_motors)
            (\<lambda>i (ctx, w).
               if i < length (dv_motors ctx) then
                 (let ctx = ctx\<lparr>dv_motors := (dv_motors ctx)[i := (dv_motors ctx ! i)\<lparr>mk_id := of_nat i\<rparr>]\<rparr>;
                      (rc, w) = mcapi_init L (alloc i) (of_nat i) w
                  in if rc < 0 then Inl (Some (ctx, w))
                     else Inr (ctx, mcapi_set_external_control False (mcapi_set_position L (f0 G) w)))
               else Inl None) (ctx, w)
      in case motors of
           Inl None \<Rightarrow> None
         | Inl (Some (ctx, w)) \<Rightarrow> Some (- 1, ctx, w)
         | Inr (ctx, w) \<Rightarrow>
             if \<not> queue then Some (- 1, ctx, w)
             else Some (if button \<and> monitoring \<and> task then 0 else - 1, ctx\<lparr>dv_events := []\<rparr>, w))"

end
