(* ===== verification/Tsn_Schedule.thy ===== *)
theory Tsn_Schedule
  imports Tsn_Cyclic
begin

text \<open>
  The schedule of a cyclic task: which starts succeed, and when the first period begins.
\<close>

section \<open>Periods\<close>

text \<open>A period a task can have: it divides a second.\<close>

definition period_ok :: "u32 \<Rightarrow> bool" where
  "period_ok p \<longleftrightarrow> p \<noteq> 0 \<and> unat p dvd 1000000000"

lemma period_test: "(p = 0 \<or> (NSECS_PER_SEC div p) * p \<noteq> NSECS_PER_SEC) \<longleftrightarrow> \<not> period_ok p" for p :: u32
proof (cases "p = 0")
  case False
  have "unat ((NSECS_PER_SEC div p) * p) = 1000000000 div unat p * unat p"
    by (subst unat_mult_lem [THEN iffD1])
      (simp_all add: unat_div le_less_trans [OF div_times_less_eq_dividend])
  then have "(NSECS_PER_SEC div p) * p = NSECS_PER_SEC \<longleftrightarrow> 1000000000 div unat p * unat p = 1000000000"
    by (simp add: word_unat_eq_iff)
  also have "\<dots> \<longleftrightarrow> unat p dvd 1000000000" by (metis dvd_div_mult_self dvd_triv_right)
  finally show ?thesis using False by (simp add: period_ok_def)
qed (simp add: period_ok_def)

lemma cyclic_task_start_eq:
  "cyclic_task_start c clock started =
     (if \<not> period_ok (tp_task_period_ns (cy_params c)) then Some (- 1, c)
      else map_option (\<lambda>(rc, task). (rc, c\<lparr>cy_task := task\<rparr>)) (tsn_task_start (cy_task c) clock started))"
  by (simp only: cyclic_task_start_def Let_def period_test)

text \<open>
  Starting a cyclic task never fails in any other way than by returning an error: it succeeds exactly when the period
  divides a second, the task has a timer, and the clock and the timer answer, and an error leaves the task as it was.
\<close>

theorem cyclic_start_errors:
  "\<exists>rc c'. cyclic_task_start c clock started = Some (rc, c') \<and>
     (rc = 0 \<longleftrightarrow> period_ok (tp_task_period_ns (cy_params c)) \<and> tk_timer (cy_task c) \<and> clock \<noteq> None \<and> started) \<and>
     (rc = 0 \<or> rc = - 1 \<and> c' = c)"
  by (cases clock) (auto simp: cyclic_task_start_eq tsn_task_start_def Let_def period_ok_def)

section \<open>The first period\<close>

lemma unat_ucast_32_64: "unat (ucast (w :: u32) :: u64) = unat w"
  by (simp add: unsigned_ucast_eq take_bit_nat_eq_self_iff le_less_trans [OF _ unat32_less] less_trans [OF unat32_less])

lemma start_rounding:
  assumes "unat now < 2 ^ 63" and "period_ok p"
  defines "k \<equiv> (unat now + 500000000) div 1000000000 + 1"
  shows "unat (((((now + NSECS_PER_SEC div 2) div NSECS_PER_SEC + 1) * NSECS_PER_SEC) div ucast p) * ucast p :: u64) = k * 1000000000"
proof -
  let ?h = "now + NSECS_PER_SEC div 2" let ?q = "?h div NSECS_PER_SEC"
  have "(NSECS_PER_SEC :: u64) div 2 = 500000000" by simp
  then have h: "unat ?h = unat now + 500000000"
    using unat_add_small [of now 500000000] assms(1) by simp
  have q: "unat ?q = (unat now + 500000000) div 1000000000" by (simp only: unat_div h) simp
  have k: "k * 1000000000 \<le> unat now + 1500000000" unfolding k_def by (simp add: algebra_simps)
  have "unat (?q + 1) = k" using unat_add_small [of ?q 1] assms(1) q unfolding k_def by simp
  then have s: "unat ((?q + 1) * NSECS_PER_SEC) = k * 1000000000"
    using k assms(1) unat_mult_lem [of "?q + 1" "NSECS_PER_SEC"] by simp
  have p: "unat (ucast p :: u64) = unat p" by (rule unat_ucast_32_64)
  have d: "unat p dvd k * 1000000000" using assms(2) by (simp add: period_ok_def)
  have "unat ((((?q + 1) * NSECS_PER_SEC) div ucast p) * ucast p) = k * 1000000000 div unat p * unat p"
    by (subst unat_mult_lem [THEN iffD1])
      (use s p k assms(1) in \<open>simp_all add: unat_div le_less_trans [OF div_times_less_eq_dividend]\<close>)
  also have "\<dots> = k * 1000000000" using d by (rule dvd_div_mult_self)
  finally show ?thesis .
qed

text \<open>
  C25. A started task begins its first period at the offset of its role from a whole second, between half a second and one
  and a half seconds after the clock was read, and expects the end of that period as its first wake-up.
\<close>

theorem cyclic_start_schedule:
  assumes "tk_timer (cy_task c)" and "period_ok (tp_task_period_ns (cy_params c))" and "unat now < 2 ^ 63"
  shows "\<exists>c' start k. cyclic_task_start c (Some now) True = Some (0, c') \<and>
    tk_timer_start (cy_task c') = Some (start, tp_task_period_ns (cy_params c)) \<and>
    unat start = k * 1000000000 + unat (tp_task_period_offset_ns (cy_params c)) \<and>
    unat now + 500000000 < k * 1000000000 \<and> k * 1000000000 \<le> unat now + 1500000000 \<and>
    tsn_task_get_time (cy_task c') = start + ucast (tp_task_period_ns (cy_params c))"
proof -
  let ?k = "(unat now + 500000000) div 1000000000 + 1" let ?p = "tp_task_period_ns (cy_params c)"
  let ?o = "ucast (tp_task_period_offset_ns (cy_params c)) :: u64"
  let ?s = "((((now + NSECS_PER_SEC div 2) div NSECS_PER_SEC + 1) * NSECS_PER_SEC) div ucast ?p) * ucast ?p :: u64"
  have s: "unat ?s = ?k * 1000000000" by (rule start_rounding) (rule assms)+
  have o: "unat ?o = unat (tp_task_period_offset_ns (cy_params c))" by (rule unat_ucast_32_64)
  have k: "unat now + 500000000 < ?k * 1000000000" "?k * 1000000000 \<le> unat now + 1500000000" by (simp_all add: algebra_simps)
  have "unat (?s + ?o) = ?k * 1000000000 + unat (tp_task_period_offset_ns (cy_params c))"
    using unat_add_small [of ?s ?o] s o k(2) assms(3) unat32_less [of "tp_task_period_offset_ns (cy_params c)"] by simp
  moreover have "?p \<noteq> 0" using assms(2) by (simp add: period_ok_def)
  ultimately show ?thesis
    using assms k
    by (intro exI [of _ "c\<lparr>cy_task := (cy_task c)\<lparr>tk_timer_start := Some (?s + ?o, ?p), tk_sched_time := ?s + ?o + ucast ?p\<rparr>\<rparr>"]
          exI [of _ "?s + ?o"] exI [of _ ?k])
      (simp add: cyclic_task_start_eq tsn_task_start_def tsn_task_get_time_def Let_def)
qed

text \<open>A controller with a period of one millisecond and one peer, number 1.\<close>

definition demo_hist :: rtos_apps_hist where
  "demo_hist = \<lparr>slots = replicate 101 0, n_slots = 100, slot_size = 1000\<rparr>"

definition demo_net :: net_socket where
  "demo_net = \<lparr>nk_id = 0, nk_n = 1, nk_ts = 0, nk_zero_copy = False, nk_tx_pending = False, nk_hdr_len = 18,
     nk_stats = \<lparr>nss_pending = False, nss_frames = 0, nss_err = 0\<rparr>, nk_stats_snap = \<lparr>nss_pending = False, nss_frames = 0, nss_err = 0\<rparr>\<rparr>"

definition demo_task_stats :: tsn_task_stats where
  "demo_task_stats = \<lparr>ts_pending = False, ts_sched_err = stats_zeroed, ts_sched_err_hist = demo_hist, ts_proc_time = stats_zeroed,
     ts_proc_time_hist = demo_hist, ts_total_time = stats_zeroed, ts_total_time_hist = demo_hist, ts_sched = 0, ts_sched_early = 0,
     ts_sched_missed = 0, ts_sched_timeout = 0, ts_clock_discont = 0, ts_sched_err_max = 0\<rparr>"

definition demo_task :: tsn_task where
  "demo_task = \<lparr>tk_timer = True, tk_timer_start = None,
     tk_params = \<lparr>tp_task_period_ns = 1000000, tp_task_period_offset_ns = 250000, tp_transfer_time_ns = 500000, tp_tx_time_offset_ns = 0,
       tp_tx_time_enabled = False, tp_num_packets = 1, tp_zero_copy = False, tp_num_rx_socket = 1, tp_rx_buf_size = 128,
       tp_num_tx_socket = 1, tp_tx_buf_size = 128\<rparr>,
     tk_clock_discont = 0, tk_rx = [demo_net], tk_tx = [demo_net], tk_stats = demo_task_stats, tk_stats_snap = demo_task_stats,
     tk_sched_time = 5001000000, tk_sched_now = 0\<rparr>"

definition demo_socket_stats :: socket_stats where
  "demo_socket_stats = \<lparr>ks_pending = False, ks_valid_frames = 0, ks_err_id = 0, ks_err_ts = 0, ks_err_underflow = 0,
     ks_link_status = False, ks_traffic_latency_max = 0, ks_traffic_latency_min = 0xffffffff, ks_traffic_latency = stats_zeroed,
     ks_traffic_latency_hist = demo_hist\<rparr>"

definition demo_cyclic :: cyclic_task where
  "demo_cyclic = \<lparr>cy_task = demo_task, cy_id = 0, cy_num_peers = 1,
     cy_rx = [\<lparr>cy_peer_id = 1, cy_stats = demo_socket_stats, cy_stats_snap = demo_socket_stats\<rparr>], cy_tx_peer_id = 1\<rparr>"

lemma demo_period: "period_ok (tp_task_period_ns (cy_params demo_cyclic))" "tk_timer (cy_task demo_cyclic)"
  by (simp_all add: period_ok_def demo_cyclic_def demo_task_def)

theorem cyclic_start_schedule_witness:
  "\<exists>c' start k. cyclic_task_start demo_cyclic (Some 7600000000) True = Some (0, c') \<and>
     tk_timer_start (cy_task c') = Some (start, 1000000) \<and> unat start = k * 1000000000 + 250000 \<and>
     8100000000 < k * 1000000000 \<and> k * 1000000000 \<le> 9100000000"
  using cyclic_start_schedule [OF demo_period(2,1), of 7600000000] by (simp add: demo_cyclic_def demo_task_def) blast

end
