(* ===== verification/Tsn_Receive.thy ===== *)
theory Tsn_Receive
  imports Tsn_Schedule
begin

text \<open>
  What a cyclic task receives in a period: of every peer the first frame of this period, and an account of the others.
\<close>

section \<open>The specification\<close>

definition frame_complete :: "net_socket \<Rightarrow> 'p rx_answer \<Rightarrow> bool" where
  "frame_complete net a \<longleftrightarrow> rx_pkts a = nk_n net"

definition frame_stale :: "cyclic_task \<Rightarrow> 'p rx_answer \<Rightarrow> bool" where
  "frame_stale c a \<longleftrightarrow> hdr_sched_time (rx_hdr a) \<noteq> tsn_task_get_time (cy_task c) - ucast (tp_transfer_time_ns (cy_params c))"

text \<open>The frame of a peer: the first accepted one, with nothing missing before it; and those passed over before.\<close>

definition first_frame :: "cyclic_task \<Rightarrow> cyclic_socket \<Rightarrow> net_socket \<Rightarrow> 'p rx_answer list \<Rightarrow> 'p rx_answer option" where
  "first_frame c sock net as = List.find (\<lambda>a. frame_accepted c sock (rx_hdr a)) (takeWhile (frame_complete net) as)"

definition passed_frames :: "cyclic_task \<Rightarrow> cyclic_socket \<Rightarrow> net_socket \<Rightarrow> 'p rx_answer list \<Rightarrow> 'p rx_answer list" where
  "passed_frames c sock net as = takeWhile (\<lambda>a. frame_complete net a \<and> \<not> frame_accepted c sock (rx_hdr a)) as"

text \<open>The account of a socket after the frame \<open>frame\<close>, with \<open>passed\<close> before it, was received.\<close>

definition socket_account :: "cyclic_task \<Rightarrow> cyclic_socket \<Rightarrow> 'p rx_answer list \<Rightarrow> 'p rx_answer option \<Rightarrow> bool \<Rightarrow> cyclic_socket \<Rightarrow> bool" where
  "socket_account c sock passed frame seen sock' \<longleftrightarrow>
     cy_peer_id sock' = cy_peer_id sock \<and> cy_stats_snap sock' = cy_stats_snap sock \<and>
     hist_wf (ks_traffic_latency_hist (cy_stats sock')) \<and>
     ks_link_status (cy_stats sock') = (frame \<noteq> None) \<and>
     ks_valid_frames (cy_stats sock') = ks_valid_frames (cy_stats sock) + (if frame = None then 0 else 1) \<and>
     ks_err_ts (cy_stats sock') = ks_err_ts (cy_stats sock) + of_nat (length (filter (frame_stale c) passed)) \<and>
     ks_err_id (cy_stats sock') = ks_err_id (cy_stats sock) + of_nat (length (filter (\<lambda>a. \<not> frame_stale c a) passed)) \<and>
     ks_err_underflow (cy_stats sock') =
       ks_err_underflow (cy_stats sock) + (if frame = None \<and> passed = [] \<and> \<not> seen then 1 else 0)"

lemma accepted_iff: "frame_accepted c sock (rx_hdr a) \<longleftrightarrow> \<not> frame_stale c a \<and> ucast (hdr_src_id (rx_hdr a)) = cy_peer_id sock"
  by (simp add: frame_accepted_def frame_stale_def)

lemma take_frame_ok:
  assumes "hist_wf (ks_traffic_latency_hist (cy_stats sock))"
  shows "\<exists>sock'. take_frame sock ts hdr = Some sock' \<and> socket_account c sock [] (Some a) seen sock'"
  using hist_update_wf [OF assms, of "ucast (ts - hdr_sched_time hdr)"]
  by (auto simp: take_frame_def Let_def socket_account_def)

section \<open>One socket\<close>

lemma receive_sock_cases:
  "frame_complete net a \<Longrightarrow> \<exists>net'. tsn_net_receive_sock net a = (NET_OK, net') \<and> nk_n net' = nk_n net"
  "\<not> frame_complete net a \<Longrightarrow> tsn_net_receive_sock net a = (NET_NO_FRAME, net)"
  by (auto simp: frame_complete_def tsn_net_receive_sock_def Let_def split: option.split)

lemma receive_retry_exact:
  assumes "hist_wf (ks_traffic_latency_hist (cy_stats sock))"
  shows "\<exists>sock' net' rest. receive_retry c sock net seen as = Some (sock', net', rest, first_frame c sock net as) \<and>
     nk_n net' = nk_n net \<and> socket_account c sock (passed_frames c sock net as) (first_frame c sock net as) seen sock'"
  using assms
proof (induction as arbitrary: sock net seen)
  case Nil
  then show ?case by (simp add: first_frame_def passed_frames_def socket_account_def Let_def)
next
  case (Cons a as)
  show ?case
  proof (cases "frame_complete net a")
    case False
    then show ?thesis
      using Cons.prems receive_sock_cases(2) [OF False]
      by (simp add: first_frame_def passed_frames_def socket_account_def Let_def)
  next
    case True
    then obtain net' where n: "tsn_net_receive_sock net a = (NET_OK, net')" and k: "nk_n net' = nk_n net"
      using receive_sock_cases(1) by blast
    have fc: "frame_complete net' = frame_complete net" by (simp add: frame_complete_def k fun_eq_iff)
    show ?thesis
    proof (cases "frame_accepted c sock (rx_hdr a)")
      case ok: True
      obtain sock' where "take_frame sock (nk_ts net') (rx_hdr a) = Some sock'" "socket_account c sock [] (Some a) seen sock'"
        using take_frame_ok [OF Cons.prems] by blast
      then show ?thesis
        using True ok k n by (simp add: first_frame_def passed_frames_def frame_accepted_def Let_def)
    next
      case no: False
      let ?sock = "if frame_stale c a then sock\<lparr>cy_stats := (cy_stats sock)\<lparr>ks_err_ts := ks_err_ts (cy_stats sock) + 1\<rparr>\<rparr>
        else sock\<lparr>cy_stats := (cy_stats sock)\<lparr>ks_err_id := ks_err_id (cy_stats sock) + 1\<rparr>\<rparr>"
      have step: "receive_retry c sock net seen (a # as) = receive_retry c ?sock net' True as"
        using n no by (simp add: accepted_iff Let_def) (simp add: frame_stale_def)
      have "hist_wf (ks_traffic_latency_hist (cy_stats ?sock))" using Cons.prems by simp
      then obtain sock' net'' rest where
        r: "receive_retry c ?sock net' True as = Some (sock', net'', rest, first_frame c ?sock net' as)"
        and k': "nk_n net'' = nk_n net'"
        and acc: "socket_account c ?sock (passed_frames c ?sock net' as) (first_frame c ?sock net' as) True sock'"
        using Cons.IH [of ?sock net' True] by blast
      have same: "frame_accepted c ?sock = frame_accepted c sock" by (simp add: frame_accepted_def fun_eq_iff)
      have f: "first_frame c ?sock net' as = first_frame c sock net (a # as)"
        and p: "passed_frames c sock net (a # as) = a # passed_frames c ?sock net' as"
        using True no by (simp_all add: first_frame_def passed_frames_def fc same)
      have "socket_account c sock (passed_frames c sock net (a # as)) (first_frame c sock net (a # as)) seen sock'"
        using acc unfolding f p socket_account_def by (cases "frame_stale c a") simp_all
      then show ?thesis using r step k k' f by auto
    qed
  qed
qed

section \<open>All peers\<close>

definition peer_frame :: "cyclic_task \<Rightarrow> (nat \<Rightarrow> 'p rx_answer list) \<Rightarrow> nat \<Rightarrow> 'p rx_answer option" where
  "peer_frame c queue i = first_frame c (cy_rx c ! i) (tk_rx (cy_task c) ! i) (queue i)"

definition peer_passed :: "cyclic_task \<Rightarrow> (nat \<Rightarrow> 'p rx_answer list) \<Rightarrow> nat \<Rightarrow> 'p rx_answer list" where
  "peer_passed c queue i = passed_frames c (cy_rx c ! i) (tk_rx (cy_task c) ! i) (queue i)"

text \<open>What the handler \<open>g\<close> of the user makes of the frames of the first \<open>n\<close> peers.\<close>

definition deliver :: "(tsn_common_hdr \<Rightarrow> 'p \<Rightarrow> 'c \<Rightarrow> 'c) \<Rightarrow> (nat \<Rightarrow> 'p rx_answer option) \<Rightarrow> nat \<Rightarrow> 'c \<Rightarrow> 'c" where
  "deliver g frame n ctx =
     foldl (\<lambda>ctx i. case frame i of None \<Rightarrow> ctx | Some a \<Rightarrow> g (rx_hdr a) (rx_payload a) ctx) ctx [0..<n]"

text \<open>A task as it is created: a socket and a histogram for each peer.\<close>

definition cyclic_ok :: "cyclic_task \<Rightarrow> bool" where
  "cyclic_ok c \<longleftrightarrow> unat (cy_num_peers c) \<le> length (cy_rx c) \<and> unat (cy_num_peers c) \<le> length (tk_rx (cy_task c)) \<and>
     (\<forall>i < unat (cy_num_peers c). hist_wf (ks_traffic_latency_hist (cy_stats (cy_rx c ! i))))"

abbreviation (input) with_sockets :: "cyclic_task \<Rightarrow> cyclic_socket list \<Rightarrow> net_socket list \<Rightarrow> cyclic_task" where
  "with_sockets c socks nets \<equiv> c\<lparr>cy_rx := socks, cy_task := (cy_task c)\<lparr>tk_rx := nets\<rparr>\<rparr>"

definition received :: "(tsn_common_hdr \<Rightarrow> 'p \<Rightarrow> 'c \<Rightarrow> 'c) \<Rightarrow> cyclic_task \<Rightarrow> (nat \<Rightarrow> 'p rx_answer list) \<Rightarrow> 'c \<Rightarrow> nat \<Rightarrow>
     cyclic_task \<times> (nat \<Rightarrow> 'p rx_answer list) \<times> 'c \<Rightarrow> bool" where
  "received g c queue ctx i s \<longleftrightarrow> (\<exists>socks nets queue'.
     s = (with_sockets c socks nets, queue', deliver g (peer_frame c queue) i ctx) \<and>
     length socks = length (cy_rx c) \<and> length nets = length (tk_rx (cy_task c)) \<and>
     (\<forall>j < i. socket_account c (cy_rx c ! j) (peer_passed c queue j) (peer_frame c queue j) False (socks ! j)) \<and>
     (\<forall>j \<ge> i. queue' j = queue j \<and> (j < length socks \<longrightarrow> socks ! j = cy_rx c ! j) \<and>
        (j < length nets \<longrightarrow> nets ! j = tk_rx (cy_task c) ! j)))"

lemma receive_peer_step:
  assumes "cyclic_ok c" and "i < unat (cy_num_peers c)" and "received g c queue ctx i s"
  shows "\<exists>s'. receive_peer (Some (\<lambda>h p ctx. Some (g h p ctx))) i s = Some s' \<and> received g c queue ctx (Suc i) s'"
proof -
  obtain socks nets queue' where s: "s = (with_sockets c socks nets, queue', deliver g (peer_frame c queue) i ctx)"
    and len: "length socks = length (cy_rx c)" "length nets = length (tk_rx (cy_task c))"
    and before: "\<And>j. j < i \<Longrightarrow> socket_account c (cy_rx c ! j) (peer_passed c queue j) (peer_frame c queue j) False (socks ! j)"
    and after: "\<And>j. j \<ge> i \<Longrightarrow> queue' j = queue j \<and> (j < length socks \<longrightarrow> socks ! j = cy_rx c ! j) \<and>
        (j < length nets \<longrightarrow> nets ! j = tk_rx (cy_task c) ! j)"
    using assms(3) unfolding received_def by blast
  let ?c = "with_sockets c socks nets"
  have i: "i < length socks" "i < length nets" using assms(1,2) len by (auto simp: cyclic_ok_def)
  have now: "socks ! i = cy_rx c ! i" "nets ! i = tk_rx (cy_task c) ! i" "queue' i = queue i"
    using after [of i] i by auto
  have fa: "frame_accepted ?c = frame_accepted c" "frame_stale ?c = frame_stale c"
    by (simp_all add: frame_accepted_def frame_stale_def tsn_task_get_time_def fun_eq_iff)
  have "hist_wf (ks_traffic_latency_hist (cy_stats (cy_rx c ! i)))" using assms(1,2) by (simp add: cyclic_ok_def)
  then obtain sock' net' rest where
    r: "receive_retry ?c (cy_rx c ! i) (tk_rx (cy_task c) ! i) False (queue i) = Some (sock', net', rest, peer_frame c queue i)"
    and acc: "socket_account c (cy_rx c ! i) (peer_passed c queue i) (peer_frame c queue i) False sock'"
    using receive_retry_exact [of "cy_rx c ! i" ?c "tk_rx (cy_task c) ! i" False "queue i"]
    by (auto simp: peer_frame_def peer_passed_def first_frame_def passed_frames_def socket_account_def fa)
  let ?s = "(with_sockets c (socks[i := sock']) (nets[i := net']), queue'(i := rest), deliver g (peer_frame c queue) (Suc i) ctx)"
  have "receive_peer (Some (\<lambda>h p ctx. Some (g h p ctx))) i s = Some ?s"
    using i r now by (cases "peer_frame c queue i") (simp_all add: s receive_peer_def deliver_def)
  moreover have "received g c queue ctx (Suc i) ?s"
    unfolding received_def
    by (intro exI [of _ "socks[i := sock']"] exI [of _ "nets[i := net']"] exI [of _ "queue'(i := rest)"] conjI)
      (use len before after i acc in \<open>auto simp: nth_list_update less_Suc_eq Suc_le_eq\<close>)
  ultimately show ?thesis by blast
qed

lemma received_all:
  assumes "cyclic_ok c"
  shows "\<exists>socks nets queue'. cyclic_net_receive (Some (\<lambda>h p ctx. Some (g h p ctx))) (c, queue, ctx) =
      Some (with_sockets c socks nets, queue', deliver g (peer_frame c queue) (unat (cy_num_peers c)) ctx) \<and>
    cyclic_ok (with_sockets c socks nets) \<and>
    (\<forall>i < unat (cy_num_peers c).
       socket_account c (cy_rx c ! i) (peer_passed c queue i) (peer_frame c queue i) False (socks ! i))"
proof -
  have "received g c queue ctx 0 (c, queue, ctx)"
    unfolding received_def by (intro exI conjI) (auto simp: deliver_def)
  then have "\<exists>s'. for_upto_opt (unat (cy_num_peers c)) (receive_peer (Some (\<lambda>h p ctx. Some (g h p ctx)))) (c, queue, ctx) = Some s' \<and>
      received g c queue ctx (unat (cy_num_peers c)) s'"
    by (rule for_upto_opt_invariant) (rule receive_peer_step [OF assms])
  then obtain s' where loop: "for_upto_opt (unat (cy_num_peers c)) (receive_peer (Some (\<lambda>h p ctx. Some (g h p ctx)))) (c, queue, ctx) = Some s'"
    and inv: "received g c queue ctx (unat (cy_num_peers c)) s'"
    by (elim exE conjE) (rule that)
  from loop have s': "cyclic_net_receive (Some (\<lambda>h p ctx. Some (g h p ctx))) (c, queue, ctx) = Some s'"
    by (simp only: cyclic_net_receive_def fst_conv)
  then obtain socks nets queue' where s: "s' = (with_sockets c socks nets, queue', deliver g (peer_frame c queue) (unat (cy_num_peers c)) ctx)"
    and len: "length socks = length (cy_rx c)" "length nets = length (tk_rx (cy_task c))"
    and acc: "\<And>j. j < unat (cy_num_peers c) \<Longrightarrow> socket_account c (cy_rx c ! j) (peer_passed c queue j) (peer_frame c queue j) False (socks ! j)"
    using inv unfolding received_def by blast
  have "hist_wf (ks_traffic_latency_hist (cy_stats (socks ! j)))" if "j < unat (cy_num_peers c)" for j
    using acc [of j] that assms by (auto simp: socket_account_def cyclic_ok_def)
  then have "cyclic_ok (with_sockets c socks nets)" using len assms by (auto simp: cyclic_ok_def)
  then show ?thesis using s' s acc by blast
qed

text \<open>
  C10. A period's reception hands to the receive function, peer by peer, the first frame of that peer that carries this
  period's time and the peer's identifier, and counts for each socket the frame, the stale and the misdirected frames
  passed over before it, an underflow when there was none at all, and the state of the link.
\<close>

theorem cyclic_receive_delivers:
  assumes "cyclic_ok c"
  shows "\<exists>c' queue'. cyclic_net_receive (Some (\<lambda>h p ctx. Some (g h p ctx))) (c, queue, ctx) =
      Some (c', queue', deliver g (peer_frame c queue) (unat (cy_num_peers c)) ctx) \<and> cyclic_ok c' \<and>
    (\<forall>i < unat (cy_num_peers c).
       socket_account c (cy_rx c ! i) (peer_passed c queue i) (peer_frame c queue i) False (cy_rx c' ! i))"
  using received_all [OF assms, of g queue ctx] by auto

lemma demo_cyclic_ok: "cyclic_ok demo_cyclic"
  by (simp add: cyclic_ok_def demo_cyclic_def demo_task_def demo_socket_stats_def demo_hist_def hist_wf_def)

text \<open>A late frame of the last period, one of another sender, then the frame of peer 1.\<close>

definition demo_queue :: "nat \<Rightarrow> nat rx_answer list" where
  "demo_queue i =
     [\<lparr>rx_pkts = 1, rx_ts = Some 5000700000, rx_hdr = \<lparr>hdr_msg_id = 1, hdr_len = 4, hdr_src_id = 1, hdr_sched_time = 4999500000\<rparr>, rx_payload = 10\<rparr>,
      \<lparr>rx_pkts = 1, rx_ts = Some 5000800000, rx_hdr = \<lparr>hdr_msg_id = 1, hdr_len = 4, hdr_src_id = 2, hdr_sched_time = 5000500000\<rparr>, rx_payload = 20\<rparr>,
      \<lparr>rx_pkts = 1, rx_ts = Some 5000900000, rx_hdr = \<lparr>hdr_msg_id = 1, hdr_len = 4, hdr_src_id = 1, hdr_sched_time = 5000500000\<rparr>, rx_payload = 30\<rparr>]"

lemma demo_frames:
  "peer_frame demo_cyclic demo_queue 0 = Some (demo_queue 0 ! 2)" "peer_passed demo_cyclic demo_queue 0 = take 2 (demo_queue 0)"
  by (simp_all add: peer_frame_def peer_passed_def first_frame_def passed_frames_def frame_complete_def frame_accepted_def
      demo_queue_def demo_cyclic_def demo_task_def demo_net_def tsn_task_get_time_def)

theorem cyclic_receive_delivers_witness:
  "\<exists>c' queue'. cyclic_net_receive (Some (\<lambda>h p ctx. Some (p # ctx))) (demo_cyclic, demo_queue, []) = Some (c', queue', [30]) \<and>
     socket_account demo_cyclic (cy_rx demo_cyclic ! 0) (take 2 (demo_queue 0)) (Some (demo_queue 0 ! 2)) False (cy_rx c' ! 0)"
proof -
  have "unat (cy_num_peers demo_cyclic) = 1" by (simp add: demo_cyclic_def)
  moreover have "deliver (\<lambda>h p ctx. p # ctx) (peer_frame demo_cyclic demo_queue) 1 [] = [30]"
    by (simp add: deliver_def demo_frames) (simp add: demo_queue_def)
  ultimately show ?thesis
    using cyclic_receive_delivers [OF demo_cyclic_ok, of "\<lambda>h p ctx. p # ctx" demo_queue "[]"]
    by (auto simp: demo_frames)
qed

end
