(* ===== verification/Motor_Contract.thy ===== *)
theory Motor_Contract
  imports Motor_Machine
begin

text \<open>
  The contract of a control strategy: what its operations may rely on and what they keep, as a locale, with the state
  machine that calls them proved against it.
\<close>

section \<open>Operations that return\<close>

definition returns :: "'a option \<Rightarrow> ('a \<Rightarrow> bool) \<Rightarrow> bool" where
  "returns r Q \<longleftrightarrow> (\<exists>x. r = Some x \<and> Q x)"

named_theorems returns_intro

lemma returns_Some [simp]: "returns (Some x) Q \<longleftrightarrow> Q x"
  by (simp add: returns_def)

lemma returns_bind: "returns r P \<Longrightarrow> (\<And>x. P x \<Longrightarrow> returns (f x) Q) \<Longrightarrow> returns (r \<bind> f) Q"
  by (auto simp: returns_def)

lemma returns_mono: "returns r P \<Longrightarrow> (\<And>x. P x \<Longrightarrow> Q x) \<Longrightarrow> returns r Q"
  by (auto simp: returns_def)

lemma returns_map [simp]: "returns (map_option f r) Q \<longleftrightarrow> returns r (\<lambda>x. Q (f x))"
  by (auto simp: returns_def)

section \<open>Motors\<close>

text \<open>
  A motor whose histogram is in order, and, when its address is one of \<open>R\<close>, whose scenario is in progress.
\<close>

definition motor_ok :: "nat set \<Rightarrow> nat \<Rightarrow> 'r controlled_motor \<Rightarrow> bool" where
  "motor_ok R a m \<longleftrightarrow> hist_wf (sm_pos_err_deg_hist (mo_stats m)) \<and> (a \<in> R \<longrightarrow> scenario_ready (mo_scenario m))"

lemma motor_ok_mono: "motor_ok R a m \<Longrightarrow> S \<subseteq> R \<Longrightarrow> motor_ok S a m"
  by (auto simp: motor_ok_def)

lemmas motor_helper_defs = motor_set_targets_def motor_startup_iq_def motor_runtime_iq_def motor_plan_def motor_evaluate_def
  motor_correct_offset_def motor_offset_from_pos_def motor_clear_targets_def startup_mode_def runtime_mode_def align_motor_def
  motor_init_mode_def

lemma helper_keeps [simp]:
  "mo_stats (motor_set_targets psa m) = mo_stats m" "mo_scenario (motor_set_targets psa m) = mo_scenario m"
  "mo_stats (motor_startup_iq G x y m) = mo_stats m" "mo_scenario (motor_startup_iq G x y m) = mo_scenario m"
  "mo_stats (motor_runtime_iq G x y m) = mo_stats m" "mo_scenario (motor_runtime_iq G x y m) = mo_scenario m"
  "mo_stats (motor_plan G p x y m) = mo_stats m" "mo_scenario (motor_plan G p x y m) = mo_scenario m"
  "mo_stats (motor_evaluate G m) = mo_stats m" "mo_scenario (motor_evaluate G m) = mo_scenario m"
  "mo_stats (motor_correct_offset G m) = mo_stats m" "mo_scenario (motor_correct_offset G m) = mo_scenario m"
  "mo_stats (motor_offset_from_pos G m) = mo_stats m" "mo_scenario (motor_offset_from_pos G m) = mo_scenario m"
  "mo_stats (motor_clear_targets G m) = mo_stats m" "mo_scenario (motor_clear_targets G m) = mo_scenario m"
  "mo_stats (startup_mode G mode m) = mo_stats m" "mo_scenario (startup_mode G mode m) = mo_scenario m"
  "mo_stats (runtime_mode G mode m) = mo_stats m" "mo_scenario (runtime_mode G mode m) = mo_scenario m"
  "mo_stats (align_motor G p m) = mo_stats m" "mo_scenario (align_motor G p m) = mo_scenario m"
  "mo_stats (motor_init_mode G mode m) = mo_stats m" "mo_scenario (motor_init_mode G mode m) = mo_scenario m"
  by (simp_all add: motor_helper_defs Let_def split: prod.split)

lemma motor_ok_simps [simp]:
  "motor_ok R a (mo_iq_req_update u0 m) \<longleftrightarrow> motor_ok R a m"
  "motor_ok R a (mo_pos_target_update u1 m) \<longleftrightarrow> motor_ok R a m"
  "motor_ok R a (mo_speed_target_update u2 m) \<longleftrightarrow> motor_ok R a m"
  "motor_ok R a (mo_accel_target_update u3 m) \<longleftrightarrow> motor_ok R a m"
  "motor_ok R a (mo_demo_count_update u4 m) \<longleftrightarrow> motor_ok R a m"
  "motor_ok R a (mo_traj_update u5 m) \<longleftrightarrow> motor_ok R a m"
  "motor_ok R a (mo_nb_errors_update u6 m) \<longleftrightarrow> motor_ok R a m"
  "motor_ok R a (mo_startup_offset_update u7 m) \<longleftrightarrow> motor_ok R a m"
  "motor_ok R a (mo_fb_update u8 m) \<longleftrightarrow> motor_ok R a m"
  "motor_ok R a (mo_seqid_stats_update u9 m) \<longleftrightarrow> motor_ok R a m"
  "motor_ok R a (mo_net_stats_update u10 m) \<longleftrightarrow> motor_ok R a m"
  "motor_ok R a (mo_stats_snap_update u11 m) \<longleftrightarrow> motor_ok R a m"
  "motor_ok R a (motor_startup_iq G x y m) \<longleftrightarrow> motor_ok R a m"
  "motor_ok R a (motor_runtime_iq G x y m) \<longleftrightarrow> motor_ok R a m"
  "motor_ok R a (motor_plan G p x y m) \<longleftrightarrow> motor_ok R a m"
  "motor_ok R a (motor_evaluate G m) \<longleftrightarrow> motor_ok R a m"
  "motor_ok R a (motor_correct_offset G m) \<longleftrightarrow> motor_ok R a m"
  "motor_ok R a (motor_offset_from_pos G m) \<longleftrightarrow> motor_ok R a m"
  "motor_ok R a (motor_clear_targets G m) \<longleftrightarrow> motor_ok R a m"
  "motor_ok R a (startup_mode G mode m) \<longleftrightarrow> motor_ok R a m"
  "motor_ok R a (runtime_mode G mode m) \<longleftrightarrow> motor_ok R a m"
  "motor_ok R a (align_motor G p m) \<longleftrightarrow> motor_ok R a m"
  "motor_ok R a (motor_init_mode G mode m) \<longleftrightarrow> motor_ok R a m"
  by (simp_all add: motor_ok_def)

lemma reset_keeps_hist [simp]:
  "mo_stats (motor_reset_base G m) = mo_stats m" "mo_stats (motor_reset_full G m) = mo_stats m"
  by (simp_all add: motor_reset_base_def motor_reset_full_def)

lemma check_margin_ok [simp]: "motor_ok R a (snd (check_margin_position G m x y z)) \<longleftrightarrow> motor_ok R a m"
  by (simp add: check_margin_position_def Let_def motor_ok_def)

lemma margin_watch_ok [simp]: "motor_ok R a (fst (margin_watch G m x y)) \<longleftrightarrow> motor_ok R a m"
proof -
  have "motor_ok R a (snd (check_margin_position G m x y z)) \<longleftrightarrow> motor_ok R a m" for z by simp
  then show ?thesis
    by (auto simp: margin_watch_def Let_def motor_ok_def split: prod.split dest!: meta_spec [of _ "MARGIN_POSITION_ERROR G"])
qed

lemma update_pos_err_ok:
  assumes "motor_ok R a m"
  shows "returns (update_pos_err_stat G m x y) (motor_ok R a)"
proof -
  let ?v = "to_u32 G (dmul G (dmul G (dabs G (fsub G x y)) (dec G 360 0)) (dec G 10 0))"
  obtain h where "rtos_apps_hist_update (sm_pos_err_deg_hist (mo_stats m)) ?v = Some h" "hist_wf h"
    using hist_update_wf assms unfolding motor_ok_def by blast
  then show ?thesis using assms by (simp add: update_pos_err_stat_def Let_def returns_def motor_ok_def)
qed

lemma get_block_ok:
  assumes "motor_ok R a m" and "a \<in> R"
  shows "returns (get_scenario_block G (mo_scenario m)) (\<lambda>sc. motor_ok R a (m\<lparr>mo_scenario := sc\<rparr>))"
  using get_scenario_block_ready [of "mo_scenario m" G] assms by (auto simp: returns_def motor_ok_def)

lemma next_scenario_ok:
  assumes "motor_ok R a m" and "a \<in> R"
  shows "returns (next_scenario_motor m) (motor_ok R a)"
  using next_block_scenario_ready [of "mo_scenario m"] assms by (auto simp: returns_def motor_ok_def next_scenario_motor_def)

section \<open>Contexts\<close>

definition motor_addrs :: "'r control_strategy \<Rightarrow> nat list" where
  "motor_addrs ctx = map fst (cs_motors ctx)"

definition linked :: "'r control_strategy \<Rightarrow> bool" where
  "linked ctx \<longleftrightarrow> (\<exists>s d. cs_static ctx = Some s \<and> cs_dynamic ctx = Some d \<and> s \<noteq> d \<and>
     s \<in> set (motor_addrs ctx) \<and> d \<in> set (motor_addrs ctx))"

text \<open>
  \<open>step_inv c0 R i ctx\<close>: inside an operation called in \<open>c0\<close>, with the motors of \<open>R\<close> following a scenario and the
  identification \<open>i\<close>; static and dynamic motor may have changed places.
\<close>

definition step_inv :: "'r control_strategy \<Rightarrow> nat set \<Rightarrow> 'r identification_ctx \<Rightarrow> 'r control_strategy \<Rightarrow> bool" where
  "step_inv c0 R i ctx \<longleftrightarrow> motor_addrs ctx = motor_addrs c0 \<and> cs_current ctx = cs_current c0 \<and> cs_old ctx = cs_old c0 \<and>
     cs_num_strategies ctx = cs_num_strategies c0 \<and> cs_num_motors ctx = cs_num_motors c0 \<and> cs_state ctx = cs_state c0 \<and>
     cs_app_period_ns ctx = cs_app_period_ns c0 \<and> cs_err_cb ctx = cs_err_cb c0 \<and>
     cs_net_stats_pending ctx = cs_net_stats_pending c0 \<and>
     (cs_static ctx = cs_static c0 \<and> cs_dynamic ctx = cs_dynamic c0 \<or> cs_static ctx = cs_dynamic c0 \<and> cs_dynamic ctx = cs_static c0) \<and>
     cs_ident ctx = i \<and> (\<forall>(a, m) \<in> set (cs_motors ctx). motor_ok R a m)"

lemma step_inv_motors: "step_inv c0 R i ctx \<Longrightarrow> (a, m) \<in> set (cs_motors ctx) \<Longrightarrow> motor_ok R a m"
  by (auto simp: step_inv_def)

lemma step_inv_replace:
  assumes "step_inv c0 R i ctx" and "map fst ms = motor_addrs c0" and "\<And>a m. (a, m) \<in> set ms \<Longrightarrow> motor_ok S a m"
  shows "step_inv c0 S i (ctx\<lparr>cs_motors := ms\<rparr>)"
  using assms by (auto simp: step_inv_def motor_addrs_def)

lemma map_motors_inv:
  assumes "step_inv c0 R i ctx" and "\<And>a m. motor_ok R a m \<Longrightarrow> motor_ok S a (f m)"
  shows "step_inv c0 S i (map_motors f ctx)"
  unfolding map_motors_def
proof (rule step_inv_replace [OF assms(1)])
  show "map fst (map (\<lambda>(a, m). (a, f m)) (cs_motors ctx)) = motor_addrs c0"
    using assms(1) by (simp add: step_inv_def motor_addrs_def case_prod_unfold comp_def)
  fix a m
  assume "(a, m) \<in> set (map (\<lambda>(a, m). (a, f m)) (cs_motors ctx))"
  then show "motor_ok S a m" using assms step_inv_motors by fastforce
qed

lemma motor_at_ok:
  assumes "step_inv c0 R i ctx" and "p = Some a" and "a \<in> set (motor_addrs c0)"
  shows "returns (motor_at p ctx) (motor_ok R a)"
proof -
  have "a \<in> fst ` set (cs_motors ctx)" using assms(1,3) by (simp add: step_inv_def motor_addrs_def flip: set_map) 
  then obtain m where "map_of (cs_motors ctx) a = Some m" by (metis domD dom_map_of_conv_image_fst)
  moreover from this have "motor_ok R a m" using assms(1) step_inv_motors map_of_SomeD by fastforce
  ultimately show ?thesis using assms(2) by (simp add: motor_at_def)
qed

lemma motor_upd_ok:
  fixes c0 :: "'r control_strategy"
  assumes "step_inv c0 R i ctx" and "p = Some a" and "a \<in> set (motor_addrs c0)"
    and "\<And>m. motor_ok R a m \<Longrightarrow> motor_ok S a (f m)" and "\<And>b (m :: 'r controlled_motor). b \<noteq> a \<Longrightarrow> motor_ok R b m \<Longrightarrow> motor_ok S b m"
  shows "returns (motor_upd p f ctx) (step_inv c0 S i)"
proof -
  let ?ms = "map (\<lambda>(b, m). if Some b = p then (b, f m) else (b, m)) (cs_motors ctx)"
  obtain m where "motor_at p ctx = Some m" using motor_at_ok [OF assms(1-3)] by (auto simp: returns_def)
  then have "motor_upd p f ctx = Some (ctx\<lparr>cs_motors := ?ms\<rparr>)" by (simp add: motor_upd_def)
  moreover have "step_inv c0 S i (ctx\<lparr>cs_motors := ?ms\<rparr>)"
  proof (rule step_inv_replace [OF assms(1)])
    have "fst \<circ> (\<lambda>(b, m). if Some b = p then (b, f m) else (b, m)) = fst" by (auto simp: fun_eq_iff)
    then show "map fst ?ms = motor_addrs c0" using assms(1) by (simp add: step_inv_def motor_addrs_def)
    fix b m
    assume "(b, m) \<in> set ?ms"
    then obtain m0 where m0: "(b, m0) \<in> set (cs_motors ctx)" "m = (if Some b = p then f m0 else m0)" by (auto split: if_splits)
    have "motor_ok R b m0" by (rule step_inv_motors [OF assms(1) m0(1)])
    then show "motor_ok S b m" unfolding m0(2) using assms(2,4,5) by (cases "b = a") simp_all
  qed
  ultimately show ?thesis by simp
qed

lemma motor_do_ok:
  fixes c0 :: "'r control_strategy"
  assumes "step_inv c0 R i ctx" and "p = Some a" and "a \<in> set (motor_addrs c0)"
    and "\<And>m. motor_ok R a m \<Longrightarrow> returns (f m) (\<lambda>(b, m). motor_ok S a m \<and> P b)" and "\<And>b (m :: 'r controlled_motor). b \<noteq> a \<Longrightarrow> motor_ok R b m \<Longrightarrow> motor_ok S b m"
  shows "returns (motor_do p f ctx) (\<lambda>(b, ctx). step_inv c0 S i ctx \<and> P b)"
proof -
  obtain m where m: "motor_at p ctx = Some m" "motor_ok R a m" using motor_at_ok [OF assms(1-3)] by (auto simp: returns_def)
  obtain b m' where f: "f m = Some (b, m')" "motor_ok S a m'" "P b" using assms(4) [OF m(2)] by (auto simp: returns_def)
  have "returns (motor_upd p (\<lambda>_. m') ctx) (step_inv c0 S i)"
    by (rule motor_upd_ok [OF assms(1-3)]) (use f(2) assms(5) in blast)+
  then show ?thesis using m(1) f(1,3) by (auto simp: motor_do_def returns_def)
qed


lemma each_motor_ok:
  assumes "\<And>a m acc. (a, m) \<in> set ms \<Longrightarrow> returns (f a m acc) (\<lambda>(m', acc', err). motor_ok S a m' \<and> (err \<longrightarrow> E))"
    and "\<And>a m. (a, m) \<in> set ms \<Longrightarrow> E \<Longrightarrow> motor_ok S a m"
  shows "returns (each_motor f ms acc) (\<lambda>(ms', acc', err). map fst ms' = map fst ms \<and> (\<forall>(a, m) \<in> set ms'. motor_ok S a m) \<and> (err \<longrightarrow> E))"
  using assms
proof (induction ms arbitrary: acc)
  case (Cons x xs)
  obtain a m where x: "x = (a, m)" by (cases x)
  obtain m' acc' err where f: "f a m acc = Some (m', acc', err)" "motor_ok S a m'" "err \<longrightarrow> E"
    using Cons.prems(1) [of a m acc] x by (auto simp: returns_def)
  show ?case
  proof (cases err)
    case True
    then show ?thesis using f Cons.prems(2) x by fastforce
  next
    case False
    have "returns (each_motor f xs acc') (\<lambda>(ms', acc'', err). map fst ms' = map fst xs \<and> (\<forall>(a, m) \<in> set ms'. motor_ok S a m) \<and> (err \<longrightarrow> E))"
      by (rule Cons.IH) (use Cons.prems in auto)
    then show ?thesis using f x False by (auto simp: returns_def)
  qed
qed simp

text \<open>A loop over the motors: \<open>E\<close> tells whether it may be left early, and then the motors not reached are as before.\<close>

lemma loop_motors_ok:
  assumes "step_inv c0 R i ctx"
    and "\<And>a m n. motor_ok R a m \<Longrightarrow> returns (f a m n) (\<lambda>(m', n', err). motor_ok S a m' \<and> (err \<longrightarrow> E))"
    and "E \<Longrightarrow> S \<subseteq> R"
  shows "returns (loop_motors f ctx) (\<lambda>(n, err, ctx'). step_inv c0 S i ctx' \<and> (err \<longrightarrow> E))"
proof -
  have "returns (each_motor f (cs_motors ctx) 0)
    (\<lambda>(ms', acc', err). map fst ms' = map fst (cs_motors ctx) \<and> (\<forall>(a, m) \<in> set ms'. motor_ok S a m) \<and> (err \<longrightarrow> E))"
    using step_inv_motors [OF assms(1)] assms(2,3) motor_ok_mono by (intro each_motor_ok) blast+
  then obtain r where r: "each_motor f (cs_motors ctx) 0 = Some r"
    "case r of (ms', acc', err) \<Rightarrow> map fst ms' = map fst (cs_motors ctx) \<and> (\<forall>(a, m) \<in> set ms'. motor_ok S a m) \<and> (err \<longrightarrow> E)"
    unfolding returns_def by blast
  obtain ms n err where "r = (ms, n, err)" by (cases r)
  with r have "each_motor f (cs_motors ctx) 0 = Some (ms, n, err)" and ms: "map fst ms = map fst (cs_motors ctx)"
    "\<And>a m. (a, m) \<in> set ms \<Longrightarrow> motor_ok S a m" and e: "err \<longrightarrow> E"
    by auto
  moreover have "step_inv c0 S i (ctx\<lparr>cs_motors := ms\<rparr>)"
    by (rule step_inv_replace [OF assms(1)]) (use ms assms(1) in \<open>simp_all add: step_inv_def motor_addrs_def\<close>)
  ultimately show ?thesis by (simp add: loop_motors_def)
qed

section \<open>The contract\<close>

text \<open>The indices of the identification stay inside its arrays.\<close>

definition ident_ok :: "'r identification_ctx \<Rightarrow> bool" where
  "ident_ok i \<longleftrightarrow> id_i_max i \<le> IDENTIFICATION_MAX_STEPS \<and>
     (id_state i < DONE \<longrightarrow> id_motor i < IDENTIFICATION_MAX_MOTOR \<and> id_i i < IDENTIFICATION_MAX_STEPS)"

text \<open>What always holds of a context in use.\<close>

definition motors_ok :: "'r control_strategy \<Rightarrow> bool" where
  "motors_ok ctx \<longleftrightarrow> distinct (motor_addrs ctx) \<and> unat (cs_num_motors ctx) = length (cs_motors ctx) \<and> cs_app_period_ns ctx \<noteq> 0 \<and>
     (cs_static ctx = None \<and> cs_dynamic ctx = None \<or> linked ctx) \<and> (\<forall>(a, m) \<in> set (cs_motors ctx). motor_ok {} a m)"

text \<open>What an operation keeps.\<close>

definition kept :: "'r control_strategy \<Rightarrow> 'r control_strategy \<Rightarrow> bool" where
  "kept ctx ctx' \<longleftrightarrow> motors_ok ctx' \<and> motor_addrs ctx' = motor_addrs ctx \<and> cs_current ctx' = cs_current ctx \<and>
     cs_old ctx' = cs_old ctx \<and> cs_num_strategies ctx' = cs_num_strategies ctx \<and> cs_state ctx' = cs_state ctx \<and>
     (cs_net_stats_pending ctx \<longrightarrow> cs_net_stats_pending ctx')"

text \<open>Changes from outside between two operations: they leave pointers, scenarios and the identification alone.\<close>

definition quiet :: "'r control_strategy \<Rightarrow> 'r control_strategy \<Rightarrow> bool" where
  "quiet ctx ctx' \<longleftrightarrow> cs_static ctx' = cs_static ctx \<and> cs_dynamic ctx' = cs_dynamic ctx \<and> cs_ident ctx' = cs_ident ctx \<and>
     map (\<lambda>(a, m). (a, mo_scenario m)) (cs_motors ctx') = map (\<lambda>(a, m). (a, mo_scenario m)) (cs_motors ctx)"

lemma remap_motors:
  fixes g :: "nat \<Rightarrow> 'r controlled_motor \<Rightarrow> 'r controlled_motor"
  assumes "\<And>a m. sm_pos_err_deg_hist (mo_stats (g a m)) = sm_pos_err_deg_hist (mo_stats m)" and "\<And>a m. mo_scenario (g a m) = mo_scenario m"
  defines "remap \<equiv> \<lambda>ctx. ctx\<lparr>cs_motors := map (\<lambda>(a, m). (a, g a m)) (cs_motors ctx)\<rparr>"
  shows "motor_addrs (remap ctx) = motor_addrs ctx" and "quiet ctx (remap ctx)" and "motors_ok (remap ctx) = motors_ok ctx"
proof -
  show a: "motor_addrs (remap ctx) = motor_addrs ctx" by (simp add: remap_def motor_addrs_def comp_def case_prod_unfold)
  show "quiet ctx (remap ctx)" using assms(2) by (simp add: remap_def quiet_def comp_def case_prod_unfold)
  have "linked (remap ctx) = linked ctx" unfolding linked_def a by (simp add: remap_def)
  moreover have "(\<forall>(a, m) \<in> set (cs_motors (remap ctx)). motor_ok {} a m) = (\<forall>(a, m) \<in> set (cs_motors ctx). motor_ok {} a m)"
    using assms(1) by (auto simp: remap_def motor_ok_def)
  ultimately show "motors_ok (remap ctx) = motors_ok ctx" unfolding motors_ok_def a by (simp add: remap_def)
qed

lemma pending_quiet: "quiet ctx (ctx\<lparr>cs_net_stats_pending := b\<rparr>)" "motors_ok (ctx\<lparr>cs_net_stats_pending := b\<rparr>) = motors_ok ctx"
  by (simp_all add: quiet_def motors_ok_def linked_def motor_addrs_def)

lemma quiet_trans: "quiet a b \<Longrightarrow> quiet b c \<Longrightarrow> quiet a c"
  by (simp add: quiet_def)

lemma stats_send_quiet: "quiet ctx (motor_stats_send G a ctx)" "motors_ok (motor_stats_send G a ctx) = motors_ok ctx"
  "kept (motor_stats_send G a ctx) c \<Longrightarrow> kept ctx c"
proof -
  note r = remap_motors [of "\<lambda>_. net_stats_of G", simplified net_stats_of_def, simplified, folded net_stats_of_def map_motors_def]
  show "quiet ctx (motor_stats_send G a ctx)" "motors_ok (motor_stats_send G a ctx) = motors_ok ctx"
    using r(2,3) [of ctx] quiet_trans [OF r(2) [of ctx] pending_quiet(1)]
    by (simp_all add: motor_stats_send_def pending_quiet(2) quiet_def [of ctx ctx])
  have "motor_addrs (motor_stats_send G a ctx) = motor_addrs ctx"
    using r(1) [of ctx] by (simp add: motor_stats_send_def motor_addrs_def)
  then show "kept (motor_stats_send G a ctx) c \<Longrightarrow> kept ctx c"
    by (simp add: kept_def) (simp add: motor_stats_send_def map_motors_def split: if_splits)
qed

locale motor_strategy =
  fixes ops :: "'r control_strategy_ops" and started :: "'r control_strategy \<Rightarrow> bool" and running :: "'r control_strategy \<Rightarrow> bool"
  assumes reset_ok: "motors_ok ctx \<Longrightarrow> returns (op_reset ops ctx) (\<lambda>(rc, ctx'). kept ctx ctx')"
    and prepare_ok: "motors_ok ctx \<Longrightarrow>
      returns (op_prepare ops ctx) (\<lambda>(rc, ctx'). kept ctx ctx' \<and> (rc = CTRL_STRAT_OK \<longrightarrow> started ctx'))"
    and startup_ok: "motors_ok ctx \<Longrightarrow> started ctx \<Longrightarrow>
      returns (op_startup ops ctx) (\<lambda>(rc, ctx'). kept ctx ctx' \<and> started ctx')"
    and init_ok: "motors_ok ctx \<Longrightarrow> started ctx \<Longrightarrow>
      returns (op_init ops ctx) (\<lambda>(rc, ctx'). kept ctx ctx' \<and> started ctx' \<and> (rc = CTRL_STRAT_OK \<longrightarrow> running ctx'))"
    and loop_ok: "motors_ok ctx \<Longrightarrow> running ctx \<Longrightarrow>
      returns (op_loop ops ctx) (\<lambda>(rc, ctx'). kept ctx ctx' \<and> running ctx')"
    and started_quiet: "quiet ctx ctx' \<Longrightarrow> started ctx \<Longrightarrow> started ctx'"
    and running_quiet: "quiet ctx ctx' \<Longrightarrow> running ctx \<Longrightarrow> running ctx'"
begin

text \<open>The state machine's invariant while this strategy is the current one.\<close>

definition in_phase :: "'r control_strategy \<Rightarrow> bool" where
  "in_phase ctx \<longleftrightarrow> motors_ok ctx \<and> (cs_state ctx \<in> {STARTUP, INIT} \<longrightarrow> started ctx) \<and> (cs_state ctx = CONTROL \<longrightarrow> running ctx)"

lemma in_phase_reset: "motors_ok ctx \<Longrightarrow> cs_state ctx = RESET \<Longrightarrow> in_phase ctx"
  by (simp add: in_phase_def)

lemma in_phase_quiet: "in_phase ctx \<Longrightarrow> quiet ctx ctx' \<Longrightarrow> motors_ok ctx' \<Longrightarrow> cs_state ctx' = cs_state ctx \<Longrightarrow> in_phase ctx'"
  unfolding in_phase_def using started_quiet running_quiet by metis

lemma set_state_quiet: "quiet ctx (control_strategy_set_state ctx st)" "motors_ok (control_strategy_set_state ctx st) = motors_ok ctx"
  by (simp_all add: quiet_def control_strategy_set_state_def motors_ok_def linked_def motor_addrs_def)

text \<open>One operation, and the state after it.\<close>

lemma run_op_ok:
  assumes "strategy_ops G (cs_current ctx) = Some ops"
    and "returns (sel ops ctx) (\<lambda>(rc, ctx'). kept ctx ctx' \<and> P ctx' \<and> (rc = CTRL_STRAT_OK \<longrightarrow> R ctx'))"
    and "\<And>ctx'. kept ctx ctx' \<Longrightarrow> P ctx' \<Longrightarrow> in_phase ctx'"
    and "\<And>ctx'. kept ctx ctx' \<Longrightarrow> P ctx' \<Longrightarrow> R ctx' \<Longrightarrow> in_phase (control_strategy_set_state ctx' st)"
  shows "returns (run_op sel st G ctx) (\<lambda>(ctx', cb). in_phase ctx' \<and> motor_addrs ctx' = motor_addrs ctx \<and>
    cs_current ctx' = cs_current ctx \<and> cs_old ctx' = cs_old ctx \<and> cs_num_strategies ctx' = cs_num_strategies ctx \<and>
    (cs_net_stats_pending ctx \<longrightarrow> cs_net_stats_pending ctx'))"
proof -
  obtain rc c where r: "sel ops ctx = Some (rc, c)" "kept ctx c" "P c" "rc = CTRL_STRAT_OK \<longrightarrow> R c"
    using assms(2) by (auto simp: returns_def)
  show ?thesis
    using assms(1) r assms(3) [OF r(2,3)] assms(4) [OF r(2,3)]
    by (cases rc) (simp_all add: run_op_def kept_def control_strategy_set_state_def motor_addrs_def)
qed

lemma machine_ok:
  assumes "strategy_ops G (cs_current ctx) = Some ops" and "in_phase ctx"
  shows "returns (control_strategy_state_machine G accepted ctx) (\<lambda>(ctx', cb). in_phase ctx' \<and> motor_addrs ctx' = motor_addrs ctx \<and>
    cs_current ctx' = cs_current ctx \<and> cs_old ctx' = cs_old ctx \<and> cs_num_strategies ctx' = cs_num_strategies ctx \<and>
    (cs_net_stats_pending ctx \<longrightarrow> cs_net_stats_pending ctx'))"
proof (cases "cs_state ctx")
  case PREPARE
  then have eq: "control_strategy_state_machine G accepted ctx = control_strategy_prepare G ctx" by (simp add: control_strategy_state_machine_def)
  show ?thesis
    using assms(2) PREPARE unfolding eq control_strategy_prepare_def
    by (intro run_op_ok [OF assms(1), where P = "\<lambda>_. True" and R = started])
      (auto simp: in_phase_def kept_def set_state_quiet(2) [unfolded control_strategy_set_state_def] control_strategy_set_state_def dest: prepare_ok
        intro: started_quiet [OF set_state_quiet(1), unfolded control_strategy_set_state_def])
next
  case STARTUP
  then have eq: "control_strategy_state_machine G accepted ctx = control_strategy_startup G ctx" by (simp add: control_strategy_state_machine_def)
  show ?thesis
    using assms(2) STARTUP unfolding eq control_strategy_startup_def
    by (intro run_op_ok [OF assms(1), where P = started and R = "\<lambda>_. True"])
      (auto simp: in_phase_def kept_def set_state_quiet(2) [unfolded control_strategy_set_state_def] control_strategy_set_state_def dest: startup_ok
        intro: started_quiet [OF set_state_quiet(1), unfolded control_strategy_set_state_def])
next
  case INIT
  then have eq: "control_strategy_state_machine G accepted ctx = control_strategy_init G ctx" by (simp add: control_strategy_state_machine_def)
  show ?thesis
    using assms(2) INIT unfolding eq control_strategy_init_def
    by (intro run_op_ok [OF assms(1), where P = started and R = running])
      (auto simp: in_phase_def kept_def set_state_quiet(2) [unfolded control_strategy_set_state_def] control_strategy_set_state_def dest: init_ok
        intro: running_quiet [OF set_state_quiet(1), unfolded control_strategy_set_state_def])
next
  case CONTROL
  let ?c = "motor_stats_send G accepted ctx"
  have c: "motors_ok ?c" "running ?c" "cs_current ?c = cs_current ctx"
    using assms(2) CONTROL running_quiet [OF stats_send_quiet(1)]
    by (simp_all add: in_phase_def stats_send_quiet(2)) (simp add: motor_stats_send_def map_motors_def)
  obtain rc c' where l: "op_loop ops ?c = Some (rc, c')" "kept ?c c'" "running c'"
    using loop_ok [OF c(1,2)] by (auto simp: returns_def)
  from l(2) have "kept ctx c'" by (rule stats_send_quiet(3))
  then show ?thesis
    using CONTROL assms(1) c(3) l(1,3)
    by (auto simp: control_strategy_state_machine_def control_strategy_loop_def Let_def in_phase_def kept_def)
next
  case RESET
  then have eq: "control_strategy_state_machine G accepted ctx = control_strategy_reset G ctx" by (simp add: control_strategy_state_machine_def)
  show ?thesis
    using assms(2) RESET unfolding eq control_strategy_reset_def
    by (intro run_op_ok [OF assms(1), where P = "\<lambda>_. True" and R = "\<lambda>_. True"])
      (auto simp: in_phase_def kept_def set_state_quiet(2) [unfolded control_strategy_set_state_def] control_strategy_set_state_def dest: reset_ok)
qed

end

end
