(* ===== verification/Motor_Contracts.thy ===== *)
theory Motor_Contracts
  imports Motor_Contract
begin

text \<open>
  The six strategies meet the contract: with linked motors where a strategy follows pointers, and scenarios in progress
  where it reads them.
\<close>

section \<open>Rules for sequences of steps\<close>

definition ptr_in :: "'r control_strategy \<Rightarrow> nat option \<Rightarrow> bool" where
  "ptr_in c0 p \<longleftrightarrow> (\<exists>a. p = Some a \<and> a \<in> set (motor_addrs c0))"

lemma upd_bind:
  assumes "step_inv c0 R i ctx" and "ptr_in c0 p" and "\<And>a m. p = Some a \<Longrightarrow> motor_ok R a m \<Longrightarrow> motor_ok R a (f m)"
    and "\<And>ctx'. step_inv c0 R i ctx' \<Longrightarrow> returns (g ctx') Q"
  shows "returns (motor_upd p f ctx \<bind> g) Q"
  using assms motor_upd_ok [OF assms(1), of p _ R f] by (auto simp: ptr_in_def intro: returns_bind)

lemma upd_last:
  assumes "step_inv c0 R i ctx" and "ptr_in c0 p" and "\<And>a m. p = Some a \<Longrightarrow> motor_ok R a m \<Longrightarrow> motor_ok R a (f m)"
    and "\<And>ctx'. step_inv c0 R i ctx' \<Longrightarrow> Q ctx'"
  shows "returns (motor_upd p f ctx) Q"
  using assms motor_upd_ok [OF assms(1), of p _ R f] by (auto simp: ptr_in_def intro: returns_mono)

lemma do_bind:
  assumes "step_inv c0 R i ctx" and "ptr_in c0 p"
    and "\<And>a m. p = Some a \<Longrightarrow> motor_ok R a m \<Longrightarrow> returns (f m) (\<lambda>(b, m). motor_ok R a m)"
    and "\<And>b ctx'. step_inv c0 R i ctx' \<Longrightarrow> returns (g b ctx') Q"
  shows "returns (motor_do p f ctx \<bind> (\<lambda>(b, ctx). g b ctx)) Q"
proof -
  obtain a where a: "p = Some a" "a \<in> set (motor_addrs c0)" using assms(2) by (auto simp: ptr_in_def)
  have "returns (motor_do p f ctx) (\<lambda>(b, ctx). step_inv c0 R i ctx \<and> True)"
    by (rule motor_do_ok [OF assms(1) a]) (use assms(3) [OF a(1)] in simp_all)
  then show ?thesis by (rule returns_bind) (use assms(4) in auto)
qed

lemma at_bind:
  assumes "step_inv c0 R i ctx" and "ptr_in c0 p" and "\<And>a m. motor_ok R a m \<Longrightarrow> returns (g m) Q"
  shows "returns (motor_at p ctx \<bind> g) Q"
  using assms motor_at_ok [OF assms(1), of p] by (auto simp: ptr_in_def intro: returns_bind)

lemma loop_bind:
  assumes "step_inv c0 R i ctx" and "\<And>a m n. motor_ok R a m \<Longrightarrow> returns (f a m n) (\<lambda>(m', n', err). motor_ok R a m')"
    and "\<And>n err ctx'. step_inv c0 R i ctx' \<Longrightarrow> returns (g n err ctx') Q"
  shows "returns (loop_motors f ctx \<bind> (\<lambda>(n, err, ctx). g n err ctx)) Q"
  by (rule returns_bind, rule loop_motors_ok [OF assms(1), where E = True and S = R]) (use assms(2,3) in auto)

lemma case_bind: "Option.bind (case y of (u, c) \<Rightarrow> f u c) g = (case y of (u, c) \<Rightarrow> Option.bind (f u c) g)"
  by (cases y) simp

text \<open>The pointers of the context at hand are those of the start, in one order or the other.\<close>

lemma step_inv_ptrs:
  assumes "step_inv c0 R i ctx" and "ptr_in c0 (cs_static c0)" and "ptr_in c0 (cs_dynamic c0)"
  shows "ptr_in c0 (cs_static ctx)" and "ptr_in c0 (cs_dynamic ctx)"
  using assms by (auto simp: step_inv_def)

lemma step_inv_simps [simp]:
  "step_inv c0 R i (ctx\<lparr>cs_startup_delay := n\<rparr>) \<longleftrightarrow> step_inv c0 R i ctx"
  "step_inv c0 R i (switch_motor_alternation_interlaced ctx) \<longleftrightarrow> step_inv c0 R i ctx"
  by (auto simp: step_inv_def motor_addrs_def switch_motor_alternation_interlaced_def)

lemma step_inv_ident: "step_inv c0 R i ctx \<Longrightarrow> step_inv c0 R (f i) (upd_ident f ctx)"
  "step_inv c0 R i ctx \<Longrightarrow> step_inv c0 R j (ctx\<lparr>cs_ident := j\<rparr>)"
  by (auto simp: step_inv_def motor_addrs_def upd_ident_def)

lemma step_inv_ident_eq: "step_inv c0 R i ctx \<Longrightarrow> cs_ident ctx = i" "step_inv c0 R i ctx \<Longrightarrow> cs_app_period_ns ctx = cs_app_period_ns c0"
  by (simp_all add: step_inv_def)

lemma step_inv_mono: "step_inv c0 R i ctx \<Longrightarrow> S \<subseteq> R \<Longrightarrow> step_inv c0 S i ctx"
  unfolding step_inv_def by (auto intro: motor_ok_mono)

lemma check_margin_case: "(case check_margin_position G m x y z of (b, m') \<Rightarrow> motor_ok R a m') \<longleftrightarrow> motor_ok R a m"
  using check_margin_ok [of R a G m x y z] by (simp add: case_prod_unfold)

lemmas check_margin_cases = check_margin_case check_margin_case [unfolded motor_ok_def]

section \<open>What the steps establish\<close>

lemma step_start: "motors_ok ctx \<Longrightarrow> step_inv ctx {} (cs_ident ctx) ctx"
  by (auto simp: step_inv_def motors_ok_def)

lemma step_kept:
  assumes "motors_ok c0" and "step_inv c0 R i ctx"
  shows "kept c0 ctx"
proof -
  have l: "length (cs_motors ctx) = length (cs_motors c0)"
    using assms(2) by (auto simp: step_inv_def motor_addrs_def dest: arg_cong [where f = length])
  have m: "\<forall>(a, m) \<in> set (cs_motors ctx). motor_ok {} a m"
    using step_inv_motors [OF assms(2)] motor_ok_mono [of R _ _ "{}"] by auto
  show ?thesis using assms l m by (auto simp: kept_def motors_ok_def step_inv_def linked_def)
qed

lemma step_linked: "linked c0 \<Longrightarrow> step_inv c0 R i ctx \<Longrightarrow> linked ctx"
  by (auto simp: linked_def step_inv_def)

lemma linked_ptrs:
  assumes "linked c0"
  shows "ptr_in c0 (cs_static c0)" and "ptr_in c0 (cs_dynamic c0)"
  using assms by (auto simp: linked_def ptr_in_def)

section \<open>Shared operations\<close>

lemma generic_prepare_ok: "motors_ok ctx \<Longrightarrow> returns (strategy_generic_prepare G ctx) (\<lambda>(rc, ctx'). kept ctx ctx')"
  unfolding strategy_generic_prepare_def
  by (auto intro!: step_kept map_motors_inv [OF step_start] simp: motor_ok_def Let_def)

lemma generic_startup_ok: "motors_ok ctx \<Longrightarrow> returns (strategy_generic_startup G ctx) (\<lambda>(rc, ctx'). kept ctx ctx')"
  unfolding strategy_generic_startup_def
  by (rule loop_bind [OF step_start])
    (auto simp: generic_startup_motor_def Let_def motor_ok_def intro: step_kept)

lemma map_op_ok:
  assumes "motors_ok ctx" and "\<And>a m. motor_ok {} a m \<Longrightarrow> motor_ok {} a (f m)"
  shows "kept ctx (map_motors f ctx)"
  by (rule step_kept [OF assms(1)]) (rule map_motors_inv [OF step_start [OF assms(1)] assms(2)])

section \<open>Synchronized\<close>

definition all_ready :: "'r control_strategy \<Rightarrow> bool" where
  "all_ready ctx \<longleftrightarrow> (\<forall>(a, m) \<in> set (cs_motors ctx). scenario_ready (mo_scenario m))"

lemma step_all_ready: "step_inv c0 UNIV i ctx \<Longrightarrow> all_ready ctx"
  by (auto simp: step_inv_def all_ready_def motor_ok_def)

lemma all_ready_step: "motors_ok ctx \<Longrightarrow> all_ready ctx \<Longrightarrow> step_inv ctx UNIV (cs_ident ctx) ctx"
  by (auto simp: step_inv_def all_ready_def motor_ok_def motors_ok_def)

lemma synchronized_init_ok:
  assumes "motors_ok ctx"
  shows "returns (strategy_synchronized_init G ctx) (\<lambda>(rc, ctx'). kept ctx ctx' \<and> all_ready ctx')"
proof -
  have "returns (loop_motors
         (\<lambda>_ m n.
            let (rc, sc) = scenario_init G (mo_scenario m) SCENARIO_SYNCHRONIZED (cs_app_period_ns ctx);
                m = m\<lparr>mo_scenario := sc\<rparr>
            in if rc < 0 then Some (m, n, True)
               else Some (motor_init_mode G CTRL_MODE_TRAJECTORY m, n, False)) ctx)
     (\<lambda>(n, err, ctx'). step_inv ctx UNIV (cs_ident ctx) ctx' \<and> (err \<longrightarrow> False))"
  proof (rule loop_motors_ok [OF step_start [OF assms]])
    fix a n and m :: "'a controlled_motor"
    assume "motor_ok {} a m"
    moreover obtain sc where "scenario_init G (mo_scenario m) SCENARIO_SYNCHRONIZED (cs_app_period_ns ctx) = (0, sc)" "scenario_ready sc"
      using scenario_init_ready(1) scenario_init_cases [of SCENARIO_SYNCHRONIZED] assms by (metis insertI1 motors_ok_def)
    ultimately show "returns (let (rc, sc) = scenario_init G (mo_scenario m) SCENARIO_SYNCHRONIZED (cs_app_period_ns ctx);
                m = m\<lparr>mo_scenario := sc\<rparr>
            in if rc < 0 then Some (m, n, True) else Some (motor_init_mode G CTRL_MODE_TRAJECTORY m, n, False))
       (\<lambda>(m', n', err). motor_ok UNIV a m' \<and> (err \<longrightarrow> False))"
      by (simp add: motor_ok_def)
  qed simp
  then show ?thesis unfolding strategy_synchronized_init_def
    by (rule returns_bind) (auto intro: step_kept [OF assms] step_all_ready)
qed

lemma synchronized_loop_ok:
  assumes "motors_ok ctx" and "all_ready ctx"
  shows "returns (strategy_synchronized_loop G ctx) (\<lambda>(rc, ctx'). kept ctx ctx' \<and> all_ready ctx')"
proof -
  note start = all_ready_step [OF assms]
  have check: "returns (synchronized_check_motor G m) (\<lambda>(m', stop). motor_ok UNIV a m')" if "motor_ok UNIV a m" for a and m :: "'a controlled_motor"
    unfolding synchronized_check_motor_def
    by (rule returns_bind [OF update_pos_err_ok [OF that]]) (simp add: case_prod_unfold)
  have control: "returns (synchronized_control_motor G p m n) (\<lambda>(m', n'). motor_ok UNIV a m')" if "motor_ok UNIV a m" for a p n and m :: "'a controlled_motor"
    unfolding synchronized_control_motor_def
    by (rule returns_bind [OF get_block_ok [OF that UNIV_I]]) (simp add: Let_def motor_ok_def)
  have fin: "kept ctx ctx' \<and> all_ready ctx'" if "step_inv ctx UNIV (cs_ident ctx) ctx'" for ctx'
    using step_kept [OF assms(1) that] step_all_ready [OF that] by simp
  show ?thesis
    unfolding strategy_synchronized_loop_def
  proof (rule loop_bind [OF start])
    show "returns (map_option (\<lambda>(m, stop). (m, n, stop)) (synchronized_check_motor G m)) (\<lambda>(m', n', err). motor_ok UNIV a m')"
      if "motor_ok UNIV a m" for a n and m :: "'a controlled_motor"
      using check [OF that] by (simp add: case_prod_unfold)
    fix n :: u16 and err and ctx1 :: "'a control_strategy"
    assume c1: "step_inv ctx UNIV (cs_ident ctx) ctx1"
    show "returns (if err then Some (CTRL_STRAT_ERROR, ctx1)
       else loop_motors (\<lambda>_ m n. map_option (\<lambda>(m, n). (m, n, False)) (synchronized_control_motor G (cs_app_period_ns ctx1) m n)) ctx1 \<bind>
         (\<lambda>(n, err, ctx). if n = cs_num_motors ctx
            then loop_motors (\<lambda>_ m n. map_option (\<lambda>m. (m, n, False)) (next_scenario_motor m)) ctx \<bind> (\<lambda>(_, _, ctx). Some (CTRL_STRAT_OK, ctx))
            else Some (CTRL_STRAT_OK, ctx))) (\<lambda>(rc, ctx'). kept ctx ctx' \<and> all_ready ctx')"
    proof (cases err)
      case False
      show ?thesis unfolding if_not_P [OF False]
      proof (rule loop_bind [OF c1])
        show "returns (map_option (\<lambda>(m, n). (m, n, False)) (synchronized_control_motor G (cs_app_period_ns ctx1) m n)) (\<lambda>(m', n', err). motor_ok UNIV a m')"
          if "motor_ok UNIV a m" for a n and m :: "'a controlled_motor"
          using control [OF that] by (simp add: case_prod_unfold)
        fix n :: u16 and err and ctx2 :: "'a control_strategy"
        assume c2: "step_inv ctx UNIV (cs_ident ctx) ctx2"
        have "returns (loop_motors (\<lambda>_ m n. map_option (\<lambda>m. (m, n, False)) (next_scenario_motor m)) ctx2 \<bind> (\<lambda>(_, _, ctx). Some (CTRL_STRAT_OK, ctx)))
          (\<lambda>(rc, ctx'). kept ctx ctx' \<and> all_ready ctx')"
          by (rule loop_bind [OF c2]) (use fin next_scenario_ok [OF _ UNIV_I] in \<open>simp_all add: case_prod_unfold\<close>)
        then show "returns (if n = cs_num_motors ctx2
            then loop_motors (\<lambda>_ m n. map_option (\<lambda>m. (m, n, False)) (next_scenario_motor m)) ctx2 \<bind> (\<lambda>(_, _, ctx). Some (CTRL_STRAT_OK, ctx))
            else Some (CTRL_STRAT_OK, ctx2)) (\<lambda>(rc, ctx'). kept ctx ctx' \<and> all_ready ctx')"
          using fin [OF c2] by simp
      qed
    qed (use fin [OF c1] in simp)
  qed
qed

section \<open>Follow, hold index and stop\<close>

lemma follow_loop_ok:
  assumes "motors_ok ctx"
  shows "returns (strategy_follow_loop G ctx) (\<lambda>(rc, ctx'). kept ctx ctx')"
proof -
  let ?ctx = "map_motors (motor_correct_offset G) ctx"
  have c1: "step_inv ctx {} (cs_ident ctx) ?ctx"
    by (rule map_motors_inv [OF step_start [OF assms]]) (simp add: motor_ok_def)
  show ?thesis
  proof (cases "follow_master (cs_motors ?ctx)")
    case None
    then show ?thesis using step_kept [OF assms c1] by (simp add: strategy_follow_loop_def)
  next
    case (Some mm)
    then show ?thesis
      by (cases mm) (auto simp: strategy_follow_loop_def Let_def motor_ok_def check_margin_position_def
          intro!: loop_bind [OF c1] step_kept [OF assms])
  qed
qed

lemma stop_startup_ok: "motors_ok ctx \<Longrightarrow> returns (strategy_stop_startup G ctx) (\<lambda>(rc, ctx'). kept ctx ctx')"
  unfolding strategy_stop_startup_def
  by (rule loop_bind [OF step_start]) (auto simp: Let_def motor_ok_def intro: step_kept)

section \<open>Interlaced\<close>

definition pair_ready :: "'r control_strategy \<Rightarrow> bool" where
  "pair_ready ctx \<longleftrightarrow> linked ctx \<and>
     (\<forall>(a, m) \<in> set (cs_motors ctx). Some a \<in> {cs_static ctx, cs_dynamic ctx} \<longrightarrow> scenario_ready (mo_scenario m))"

definition pair :: "'r control_strategy \<Rightarrow> nat set" where
  "pair ctx = {a. Some a \<in> {cs_static ctx, cs_dynamic ctx}}"

lemma step_pair_ready:
  assumes "linked c0" and "step_inv c0 (pair c0) i ctx"
  shows "pair_ready ctx"
proof -
  have "{cs_static ctx, cs_dynamic ctx} = {cs_static c0, cs_dynamic c0}" using assms(2) by (auto simp: step_inv_def)
  then show ?thesis
    using step_linked [OF assms] step_inv_motors [OF assms(2)] by (auto simp: pair_ready_def pair_def motor_ok_def)
qed

lemma pair_ready_step: "motors_ok ctx \<Longrightarrow> pair_ready ctx \<Longrightarrow> step_inv ctx (pair ctx) (cs_ident ctx) ctx"
  by (auto simp: step_inv_def pair_ready_def pair_def motor_ok_def motors_ok_def)

lemma interlaced_reset_ok: "motors_ok ctx \<Longrightarrow> returns (strategy_interlaced_reset G ctx) (\<lambda>(rc, ctx'). kept ctx ctx')"
proof -
  assume ok: "motors_ok ctx"
  have "kept ctx (map_motors (motor_reset_full G) ctx)"
    by (rule map_op_ok [OF ok]) (simp add: motor_ok_def)
  then show ?thesis by (simp add: strategy_interlaced_reset_def Let_def) (auto simp: kept_def motors_ok_def motor_addrs_def linked_def)
qed

lemma interlaced_assign_ok:
  assumes "motors_ok ctx" and "cs_num_motors ctx = 2"
  shows "linked (interlaced_assign ctx) \<and> motors_ok (interlaced_assign ctx) \<and> kept ctx (interlaced_assign ctx)"
proof -
  have "length (cs_motors ctx) = 2" using assms by (simp add: motors_ok_def)
  then obtain a m b n where "cs_motors ctx = [(a, m), (b, n)]"
    by (metis (no_types, opaque_lifting) Suc_1 length_0_conv length_Suc_conv prod.exhaust One_nat_def)
  then show ?thesis
    using assms by (auto simp: interlaced_assign_def motors_ok_def linked_def kept_def motor_addrs_def)
qed

lemma interlaced_prepare_ok:
  assumes "motors_ok ctx"
  shows "returns (strategy_interlaced_prepare G ctx) (\<lambda>(rc, ctx'). kept ctx ctx' \<and> (rc = CTRL_STRAT_OK \<longrightarrow> linked ctx'))"
proof (cases "cs_num_motors ctx = 2")
  case False
  then show ?thesis using assms by (simp add: strategy_interlaced_prepare_def kept_def)
next
  case True
  let ?c = "interlaced_assign ctx"
  note a = interlaced_assign_ok [OF assms True]
  have c: "step_inv ?c {} (cs_ident ?c) ?c" using a by (intro step_start) simp
  note p = linked_ptrs [of ?c]
  have fin: "kept ctx ctx'" "linked ctx'" if "step_inv ?c {} (cs_ident ?c) ctx'" for ctx'
    using step_kept [OF _ that] step_linked [OF _ that] a by (auto simp: kept_def)
  have not_err: "\<not> cs_num_motors ctx \<noteq> 2" using True by simp
  show ?thesis
    unfolding strategy_interlaced_prepare_def Let_def if_not_P [OF not_err]
    using a p
    by (intro upd_bind [OF c]) (auto intro!: upd_bind at_bind fin simp: motor_ok_def)
qed

lemma linked_fin:
  assumes "motors_ok ctx" and "linked ctx" and "step_inv ctx R i ctx'"
  shows "kept ctx ctx'" and "linked ctx'"
  using step_kept [OF assms(1,3)] step_linked [OF assms(2,3)] by simp_all

lemma interlaced_startup_ok:
  assumes "motors_ok ctx" and "linked ctx"
  shows "returns (strategy_interlaced_startup G ctx) (\<lambda>(rc, ctx'). kept ctx ctx' \<and> linked ctx')"
proof -
  note p = linked_ptrs [OF assms(2)]
  note fin = linked_fin [OF assms, of "{}" "cs_ident ctx"] and q = step_inv_ptrs [OF _ p, of "{}" "cs_ident ctx"]
  have swap: "cs_static (switch_motor_alternation_interlaced c) = cs_dynamic c"
    "cs_dynamic (switch_motor_alternation_interlaced c) = cs_static c" for c :: "'a control_strategy"
    by (simp_all add: switch_motor_alternation_interlaced_def)
  show ?thesis
    unfolding strategy_interlaced_startup_def Let_def
    using p
    by (intro upd_bind [OF step_start [OF assms(1)]])
      (auto intro!: upd_bind at_bind do_bind fin q simp: swap check_margin_case)+
qed

lemma scenario_do_ok:
  fixes c0 :: "'r control_strategy"
  assumes "step_inv c0 R i ctx" and "p = Some a" and "a \<in> set (motor_addrs c0)" and "cs_app_period_ns c0 \<noteq> 0"
  shows "returns (motor_do p (motor_scenario_init G SCENARIO_INTERLACED (cs_app_period_ns c0)) ctx)
    (\<lambda>(rc, ctx'). step_inv c0 (insert a R) i ctx' \<and> rc = 0)"
proof (rule motor_do_ok [OF assms(1-3)])
  fix m :: "'r controlled_motor"
  assume "motor_ok R a m"
  moreover obtain sc where "scenario_init G (mo_scenario m) SCENARIO_INTERLACED (cs_app_period_ns c0) = (0, sc)" "scenario_ready sc"
    using scenario_init_ready(1) scenario_init_cases [of SCENARIO_INTERLACED] assms(4) by (metis insertCI)
  ultimately show "returns (motor_scenario_init G SCENARIO_INTERLACED (cs_app_period_ns c0) m) (\<lambda>(b, m). motor_ok (insert a R) a m \<and> b = 0)"
    by (simp add: motor_scenario_init_def motor_ok_def)
qed (auto simp: motor_ok_def)

lemma interlaced_init_ok:
  assumes "motors_ok ctx" and "linked ctx"
  shows "returns (strategy_interlaced_init G ctx) (\<lambda>(rc, ctx'). step_inv ctx (pair ctx) (cs_ident ctx) ctx')"
proof -
  obtain s d where sd: "cs_static ctx = Some s" "cs_dynamic ctx = Some d" "s \<in> set (motor_addrs ctx)" "d \<in> set (motor_addrs ctx)"
    using assms(2) by (auto simp: linked_def)
  have period: "cs_app_period_ns ctx \<noteq> 0" using assms(1) by (simp add: motors_ok_def)
  note p = linked_ptrs [OF assms(2)]
  obtain c1 where c1: "motor_do (cs_static ctx) (motor_scenario_init G SCENARIO_INTERLACED (cs_app_period_ns ctx)) ctx = Some (0, c1)"
    "step_inv ctx {s} (cs_ident ctx) c1"
    using scenario_do_ok [OF step_start [OF assms(1)] sd(1,3) period, of G] by (auto simp: returns_def)
  obtain c2 where c2: "motor_do (cs_dynamic ctx) (motor_scenario_init G SCENARIO_INTERLACED (cs_app_period_ns ctx)) c1 = Some (0, c2)"
    "step_inv ctx {d, s} (cs_ident ctx) c2"
    using scenario_do_ok [OF c1(2) sd(2,4) period, of G] by (auto simp: returns_def)
  have "step_inv ctx (pair ctx) (cs_ident ctx) c2"
    using c2(2) by (rule step_inv_mono) (use sd in \<open>auto simp: pair_def\<close>)
  moreover have "cs_app_period_ns c1 = cs_app_period_ns ctx" using c1(2) by (simp add: step_inv_def)
  ultimately show ?thesis
    unfolding strategy_interlaced_init_def Let_def
    using c1(1) c2(1) p by (auto intro!: upd_bind simp: motor_ok_def)
qed

lemma interlaced_loop_ok:
  assumes "motors_ok ctx" and "pair_ready ctx"
  shows "returns (strategy_interlaced_loop G ctx) (\<lambda>(rc, ctx'). kept ctx ctx' \<and> pair_ready ctx')"
proof -
  have l: "linked ctx" using assms(2) by (simp add: pair_ready_def)
  note p = linked_ptrs [OF l]
  have fin: "kept ctx ctx'" "pair_ready ctx'" if "step_inv ctx (pair ctx) (cs_ident ctx) ctx'" for ctx'
    using step_kept [OF assms(1) that] step_pair_ready [OF l that] by simp_all
  have err: "returns (pos_err_of G m) (\<lambda>(b, m). motor_ok R a m)" if "motor_ok R a m" for a R and m :: "'a controlled_motor"
    using update_pos_err_ok [OF that] by (simp add: pos_err_of_def)
  have watch: "returns (watch_of G m) (\<lambda>(b, m). motor_ok R a m)" if "motor_ok R a m" for a R and m :: "'a controlled_motor"
    using that by (simp add: watch_of_def Let_def case_prod_unfold)
  have scen: "returns (scenario_of G m) (\<lambda>(b, m). motor_ok R a m)" if "motor_ok R a m" "a \<in> R" for a R and m :: "'a controlled_motor"
    using get_block_ok [OF that] by (simp add: scenario_of_def)
  have moved: "returns (move_done G m) (\<lambda>(b, m). motor_ok R a m)" if "motor_ok R a m" for a R and m :: "'a controlled_motor"
    using that by (simp add: move_done_def check_margin_cases)
  have "returns (map_option (Pair ()) (next_scenario_motor m)) (\<lambda>(b, m). motor_ok R a m)"
    if "motor_ok R a m" "a \<in> R" for a R and m :: "'a controlled_motor"
    using next_scenario_ok [OF that] by simp
  note rules = err watch scen moved this
  have in_pair: "cs_static ctx = Some a \<Longrightarrow> a \<in> pair ctx" "cs_dynamic ctx = Some a \<Longrightarrow> a \<in> pair ctx" for a
    by (simp_all add: pair_def)
  show ?thesis
    unfolding strategy_interlaced_loop_def Let_def
    by (intro upd_bind [OF pair_ready_step [OF assms]] p)
      (auto intro!: upd_bind do_bind fin rules simp: p in_pair case_bind)+
qed

section \<open>Identification\<close>

definition ident_running :: "'r control_strategy \<Rightarrow> bool" where
  "ident_running ctx \<longleftrightarrow> linked ctx \<and> ident_ok (cs_ident ctx)"

lemma identification_init_ok:
  assumes "motors_ok ctx" and "linked ctx"
  shows "returns (strategy_identification_init G ctx) (\<lambda>(rc, ctx'). kept ctx ctx' \<and> ident_running ctx')"
proof -
  note p = linked_ptrs [OF assms(2)]
  have fin: "kept ctx ctx'" "ident_running ctx'" if "step_inv ctx (pair ctx) i ctx'" "ident_ok i" for i ctx'
    using linked_fin [OF assms that(1)] that by (auto simp: ident_running_def step_inv_ident_eq)
  have start: "ident_ok (ident_begin G p n i)" for p n i
    by (auto simp: ident_begin_def ident_ok_def Let_def not_less)
  show ?thesis
    unfolding strategy_identification_init_def Let_def
  proof (rule returns_bind [OF interlaced_init_ok [OF assms, of G]])
    fix r
    assume "case r of (rc, ctx') \<Rightarrow> step_inv ctx (pair ctx) (cs_ident ctx) ctx'"
    then obtain rc c1 where r: "r = (rc, c1)" and c1: "step_inv ctx (pair ctx) (cs_ident ctx) c1" by (cases r) simp
    have nz: "cs_app_period_ns c1 \<noteq> 0" using step_inv_ident_eq(2) [OF c1] assms(1) by (simp add: motors_ok_def)
    show "returns (case r of (_, ctx') \<Rightarrow> if cs_app_period_ns ctx' = 0 then None
      else motor_at (cs_dynamic ctx) ctx' \<bind> (\<lambda>md. motor_upd (cs_dynamic ctx) (\<lambda>m. m\<lparr>mo_demo_count := mo_demo_count m + 1\<rparr>)
        (upd_ident (ident_begin G (cs_app_period_ns ctx') (mo_demo_count md)) ctx') \<bind> (\<lambda>ctx. Some (CTRL_STRAT_OK, ctx))))
      (\<lambda>(rc, ctx'). kept ctx ctx' \<and> ident_running ctx')"
      unfolding r prod.case if_not_P [OF nz]
      using p fin [OF _ start]
      by (intro at_bind [OF c1]) (auto intro!: upd_bind [OF step_inv_ident(1) [OF c1]])
  qed
qed

lemma ident_measure_keeps [simp]:
  "id_state (ident_measure G m i) = id_state i" "id_motor (ident_measure G m i) = id_motor i" "id_i (ident_measure G m i) = id_i i"
  "id_i_max (ident_measure G m i) = id_i_max i"
  by (simp_all add: ident_measure_def Let_def)

text \<open>The context after a step of the identification.\<close>

definition ident_after :: "'r control_strategy \<Rightarrow> 'r control_strategy \<Rightarrow> bool" where
  "ident_after c0 ctx \<longleftrightarrow> (\<exists>i. step_inv c0 {} i ctx \<and> ident_ok i)"

lemma ident_afterI:
  "step_inv c0 {} i ctx \<Longrightarrow> ident_ok i \<Longrightarrow> ident_after c0 ctx"
  "step_inv c0 {} i ctx \<Longrightarrow> ident_ok (f i) \<Longrightarrow> ident_after c0 (upd_ident f ctx)"
  "step_inv c0 {} i ctx \<Longrightarrow> ident_ok j \<Longrightarrow> ident_after c0 (ctx\<lparr>cs_ident := j\<rparr>)"
  unfolding ident_after_def by (blast intro: step_inv_ident)+

lemma ident_accelerate_ok:
  assumes "step_inv c0 {} i ctx" and "ident_ok i" and "id_state i = ACCELERATING" and "ptr_in c0 (cs_static c0)" and "ptr_in c0 (cs_dynamic c0)"
  shows "returns (ident_accelerate G (cs_static c0) (cs_dynamic c0) ctx) (ident_after c0)"
proof -
  have i: "cs_ident ctx = i" and q: "ptr_in c0 (cs_dynamic ctx)"
    using step_inv_ident_eq [OF assms(1)] step_inv_ptrs [OF assms(1,4,5)] by simp_all
  have b: "\<not> (id_motor i \<ge> IDENTIFICATION_MAX_MOTOR \<or> id_i i \<ge> IDENTIFICATION_MAX_STEPS)"
    using assms(2,3) by (simp add: ident_ok_def not_le)
  have j: "ident_ok (if c then ident_measure G m i\<lparr>id_speed_final := f, id_state := COASTING\<rparr> else ident_measure G m i\<lparr>id_speed_final := f\<rparr>)" for c m f
    using assms(2,3) by (simp add: ident_ok_def)
  show ?thesis
    unfolding ident_accelerate_def Let_def i if_not_P [OF b]
  proof (intro upd_bind [OF assms(1) q])
    show "returns (motor_upd (cs_static c0) (motor_runtime_iq G (f0 G) (f0 G)) ctx1 \<bind> (\<lambda>ctx. motor_at (cs_dynamic c0) ctx \<bind> (\<lambda>md.
       Some (ctx\<lparr>cs_ident := if c md then ident_measure G md i\<lparr>id_speed_final := f md, id_state := COASTING\<rparr>
         else ident_measure G md i\<lparr>id_speed_final := f md\<rparr>\<rparr>)))) (ident_after c0)"
      if "step_inv c0 {} i ctx1" for ctx1 and c :: "'a controlled_motor \<Rightarrow> bool" and f
      by (rule upd_bind [OF that assms(4)], simp, rule at_bind [OF _ assms(5)], assumption, simp only: returns_Some)
        (rule ident_afterI(3) [OF _ j])
  qed simp
qed

lemma ident_coast_ok:
  assumes "step_inv c0 {} i ctx" and "ident_ok i" and "id_state i = COASTING" and "ptr_in c0 (cs_static c0)" and "ptr_in c0 (cs_dynamic c0)"
  shows "returns (ident_coast G (cs_static c0) (cs_dynamic c0) ctx) (ident_after c0)"
proof -
  have q: "ptr_in c0 (cs_dynamic ctx)" using step_inv_ptrs [OF assms(1,4,5)] by simp
  have j: "ident_ok (i\<lparr>id_state := STOPPING, id_start_count := n\<rparr>)" for n using assms(2,3) by (simp add: ident_ok_def)
  have last: "returns (motor_upd (cs_dynamic c0) f (upd_ident (\<lambda>i. i\<lparr>id_state := STOPPING, id_start_count := n\<rparr>) ctx')) (ident_after c0)"
    if "step_inv c0 {} i ctx'" "\<And>a m. motor_ok {} a m \<Longrightarrow> motor_ok {} a (f m)" for ctx' n f
    by (rule upd_last [OF step_inv_ident(1) [OF that(1)] assms(5)]) (use that(2) j in \<open>auto intro: ident_afterI(1)\<close>)
  show ?thesis
    unfolding ident_coast_def Let_def
    using assms(2,4,5)
    by (intro upd_bind [OF assms(1) q]) (auto intro!: upd_bind at_bind last intro: ident_afterI(1))+
qed

lemma ident_next_motor_ok:
  assumes "step_inv c0 {} i ctx" and "id_motor i < IDENTIFICATION_MAX_MOTOR" and "id_i_max i \<le> IDENTIFICATION_MAX_STEPS"
    and "ptr_in c0 (cs_static c0)" and "ptr_in c0 (cs_dynamic c0)"
  shows "returns (ident_next_motor G (cs_static c0) (cs_dynamic c0) md ctx) (ident_after c0)"
proof -
  have tail: "returns (if id_motor (cs_ident ctx2) \<ge> IDENTIFICATION_MAX_MOTOR then None
       else motor_at (cs_static c0) (ident_swap md ctx2) \<bind> (\<lambda>ms. Some (upd_ident (\<lambda>i.
           if id_motor i \<ge> IDENTIFICATION_MAX_MOTOR then i\<lparr>id_state := DONE\<rparr>
           else i\<lparr>id_state := ACCELERATING, id_i := 0, id_start_count := mo_demo_count ms\<rparr>) (ident_swap md ctx2)))) (ident_after c0)"
    if c2: "step_inv c0 {} i ctx2" for ctx2
  proof -
    have i: "cs_ident ctx2 = i" using c2 by (simp add: step_inv_def)
    have c: "step_inv c0 {} (i\<lparr>id_id := (id_id i)(unat (id_motor i) := mo_id md), id_motor := id_motor i + 1\<rparr>) (ident_swap md ctx2)"
      using step_inv_ident(1) [of c0 "{}" _ "switch_motor_alternation_interlaced
        (upd_ident (\<lambda>i. i\<lparr>id_id := (id_id i)(unat (id_motor i) := mo_id md)\<rparr>) ctx2)" "\<lambda>i. i\<lparr>id_motor := id_motor i + 1\<rparr>"]
        step_inv_ident(1) [OF c2, of "\<lambda>i. i\<lparr>id_id := (id_id i)(unat (id_motor i) := mo_id md)\<rparr>"]
      by (fastforce simp: ident_swap_def)
    show ?thesis
      unfolding i if_not_P [OF assms(2) [unfolded not_le [symmetric]]]
      by (rule at_bind [OF c assms(4)], simp only: returns_Some, rule ident_afterI(2) [OF c])
        (use assms(3) in \<open>simp add: ident_ok_def not_le\<close>)
  qed
  show ?thesis
    unfolding ident_next_motor_def Let_def
    by (rule upd_bind [OF assms(1,5)], simp, rule upd_bind [OF _ assms(4)], assumption, simp, erule tail)
qed

lemma ident_stop_ok:
  assumes "step_inv c0 {} i ctx" and "ident_ok i" and "id_state i = STOPPING" and "ptr_in c0 (cs_static c0)" and "ptr_in c0 (cs_dynamic c0)"
  shows "returns (ident_stop G (cs_static c0) (cs_dynamic c0) ctx) (ident_after c0)"
proof -
  have b: "id_motor i < IDENTIFICATION_MAX_MOTOR" "id_i_max i \<le> IDENTIFICATION_MAX_STEPS"
    using assms(2,3) by (simp_all add: ident_ok_def)
  have step: "step_inv c0 {} (i\<lparr>id_i := id_i i + 1\<rparr>) (upd_ident (\<lambda>i. i\<lparr>id_i := id_i i + 1\<rparr>) ctx')"
    if "step_inv c0 {} i ctx'" for ctx' using step_inv_ident(1) [OF that] .
  have tail: "returns (if id_i_max (cs_ident ctx') \<le> id_i (cs_ident ctx') then ident_next_motor G (cs_static c0) (cs_dynamic c0) md ctx'
      else Some (upd_ident (\<lambda>i. i\<lparr>id_state := ACCELERATING, id_start_count := n\<rparr>) ctx')) (ident_after c0)"
    if "step_inv c0 {} (i\<lparr>id_i := id_i i + 1\<rparr>) ctx'" for ctx' md n
  proof (cases "id_i_max i \<le> id_i i + 1")
    case True
    then show ?thesis using ident_next_motor_ok [OF that _ _ assms(4,5)] b step_inv_ident_eq(1) [OF that] by simp
  next
    case False
    then show ?thesis
      using step_inv_ident_eq(1) [OF that] b by (auto intro!: ident_afterI(2) [OF that] simp: ident_ok_def not_le)
  qed
  show ?thesis
    unfolding ident_stop_def Let_def
    using assms(2,4,5) tail [OF step]
    by (intro upd_bind [OF assms(1)]) (auto intro!: upd_bind at_bind intro: ident_afterI(1))+
qed

lemma identification_loop_ok:
  assumes "motors_ok ctx" and "ident_running ctx"
  shows "returns (strategy_identification_loop G ctx) (\<lambda>(rc, ctx'). kept ctx ctx' \<and> ident_running ctx')"
proof -
  have l: "linked ctx" and i: "ident_ok (cs_ident ctx)" using assms(2) by (simp_all add: ident_running_def)
  note p = linked_ptrs [OF l]
  have fin: "returns (motor_upd (cs_dynamic ctx) (\<lambda>m. m\<lparr>mo_demo_count := mo_demo_count m + 1\<rparr>) ctx' \<bind> (\<lambda>ctx. Some (CTRL_STRAT_OK, ctx)))
      (\<lambda>(rc, ctx'). kept ctx ctx' \<and> ident_running ctx')" if after: "ident_after ctx ctx'" for ctx'
  proof -
    obtain j where j: "step_inv ctx {} j ctx'" "ident_ok j" using after by (auto simp: ident_after_def)
    show ?thesis
      by (rule upd_bind [OF j(1) p(2)])
        (use j(2) linked_fin [OF assms(1) l] in \<open>auto simp: ident_running_def step_inv_ident_eq\<close>)
  qed
  have state: "returns (if id_state (cs_ident ctx') = ACCELERATING then ident_accelerate G (cs_static ctx) (cs_dynamic ctx) ctx'
              else if id_state (cs_ident ctx') = COASTING then ident_coast G (cs_static ctx) (cs_dynamic ctx) ctx'
              else if id_state (cs_ident ctx') = STOPPING then ident_stop G (cs_static ctx) (cs_dynamic ctx) ctx'
              else if id_state (cs_ident ctx') = DONE then
                motor_upd (cs_dynamic ctx') (\<lambda>m. m\<lparr>mo_iq_req := f0 G\<rparr>) ctx' \<bind> (\<lambda>ctx. motor_upd (cs_static ctx) (\<lambda>m. m\<lparr>mo_iq_req := f0 G\<rparr>) ctx)
              else Some ctx') (ident_after ctx)" if c: "step_inv ctx {} (cs_ident ctx) ctx'" for ctx'
  proof -
    have "returns (motor_upd (cs_dynamic ctx') (\<lambda>m. m\<lparr>mo_iq_req := f0 G\<rparr>) ctx' \<bind> (\<lambda>ctx. motor_upd (cs_static ctx) (\<lambda>m. m\<lparr>mo_iq_req := f0 G\<rparr>) ctx))
      (ident_after ctx)"
      by (rule upd_bind [OF c step_inv_ptrs(2) [OF c p]], simp, rule upd_last [OF _ step_inv_ptrs(1) [OF _ p]], assumption, assumption)
        (use i in \<open>auto intro: ident_afterI(1)\<close>)
    then show ?thesis
      using ident_accelerate_ok [OF c i _ p] ident_coast_ok [OF c i _ p] ident_stop_ok [OF c i _ p] c ident_afterI(1) [OF c i]
        step_inv_ident_eq(1) [OF c] by simp
  qed
  show ?thesis
    unfolding strategy_identification_loop_def Let_def
    by (rule upd_bind [OF step_start [OF assms(1)] p(2)], simp, rule upd_bind [OF _ p(1)], assumption, simp,
        rule returns_bind, erule state, erule fin)
qed

end
