(* ===== verification/Motor_Safety.thy ===== *)
theory Motor_Safety
  imports Motor_Contracts
begin

text \<open>
  The control strategies never trap: the contracts of the six strategies, put together over every sequence of calls of the
  interface.
\<close>

section \<open>The strategies meet their contracts\<close>

lemma quiet_linked:
  assumes "quiet ctx ctx'"
  shows "linked ctx' = linked ctx"
proof -
  have "map fst (map (\<lambda>(a, m). (a, mo_scenario m)) (cs_motors ctx')) = map fst (map (\<lambda>(a, m). (a, mo_scenario m)) (cs_motors ctx))"
    using assms by (simp add: quiet_def)
  then have "motor_addrs ctx' = motor_addrs ctx" by (simp add: motor_addrs_def comp_def case_prod_unfold)
  then show ?thesis using assms by (simp add: linked_def quiet_def)
qed

lemma quiet_scenarios:
  assumes "quiet ctx ctx'" and "(a, m) \<in> set (cs_motors ctx')"
  shows "\<exists>m0. (a, m0) \<in> set (cs_motors ctx) \<and> mo_scenario m = mo_scenario m0"
proof -
  have "(a, mo_scenario m) \<in> set (map (\<lambda>(a, m). (a, mo_scenario m)) (cs_motors ctx'))" using assms(2) by force
  then have "(a, mo_scenario m) \<in> set (map (\<lambda>(a, m). (a, mo_scenario m)) (cs_motors ctx))"
    using assms(1) by (simp only: quiet_def)
  then show ?thesis by auto
qed

lemma quiet_all_ready: "quiet ctx ctx' \<Longrightarrow> all_ready ctx \<Longrightarrow> all_ready ctx'"
  by (auto simp: all_ready_def dest!: quiet_scenarios)

lemma quiet_pair_ready:
  assumes "quiet ctx ctx'" and "pair_ready ctx"
  shows "pair_ready ctx'"
  using assms quiet_linked [OF assms(1)] quiet_scenarios [OF assms(1)] by (fastforce simp: pair_ready_def quiet_def)

lemma quiet_ident_running: "quiet ctx ctx' \<Longrightarrow> ident_running ctx \<Longrightarrow> ident_running ctx'"
  using quiet_linked [of ctx ctx'] by (simp add: ident_running_def quiet_def)

text \<open>What a strategy needs once it has been prepared, and while it runs.\<close>

definition started_of :: "u32 \<Rightarrow> 'r control_strategy \<Rightarrow> bool" where
  "started_of s ctx \<longleftrightarrow> (s = CTRL_STRAT_INTERLACED \<or> s = CTRL_STRAT_IDENTIFICATION \<longrightarrow> linked ctx)"

definition running_of :: "u32 \<Rightarrow> 'r control_strategy \<Rightarrow> bool" where
  "running_of s ctx \<longleftrightarrow> (s = CTRL_STRAT_SYNCHRONIZED \<longrightarrow> all_ready ctx) \<and> (s = CTRL_STRAT_INTERLACED \<longrightarrow> pair_ready ctx) \<and>
     (s = CTRL_STRAT_IDENTIFICATION \<longrightarrow> ident_running ctx)"

lemma started_quiet: "quiet ctx ctx' \<Longrightarrow> started_of s ctx \<Longrightarrow> started_of s ctx'"
  by (simp add: started_of_def quiet_linked)

lemma running_quiet: "quiet ctx ctx' \<Longrightarrow> running_of s ctx \<Longrightarrow> running_of s ctx'"
  by (simp add: running_of_def quiet_all_ready quiet_pair_ready quiet_ident_running)

lemma reset_ok: "motors_ok ctx \<Longrightarrow> kept ctx (map_motors (motor_reset_full G) ctx)" "motors_ok ctx \<Longrightarrow> kept ctx (map_motors (motor_reset_base G) ctx)"
  by (erule map_op_ok, simp add: motor_ok_def)+

lemma kept_refl: "motors_ok ctx \<Longrightarrow> kept ctx ctx"
  by (simp add: kept_def)

lemma interlaced_init_ready:
  assumes "motors_ok ctx" and "linked ctx"
  shows "returns (strategy_interlaced_init G ctx) (\<lambda>(rc, ctx'). kept ctx ctx' \<and> linked ctx' \<and> pair_ready ctx')"
  by (rule returns_mono [OF interlaced_init_ok [OF assms]])
    (auto intro: step_kept [OF assms(1)] step_linked [OF assms(2)] step_pair_ready [OF assms(2)])

lemma identification_init_ready:
  assumes "motors_ok ctx" and "linked ctx"
  shows "returns (strategy_identification_init G ctx) (\<lambda>(rc, ctx'). kept ctx ctx' \<and> linked ctx' \<and> ident_running ctx')"
  by (rule returns_mono [OF identification_init_ok [OF assms]]) (auto simp: ident_running_def)

interpretation synchronized: motor_strategy "\<lparr>op_prepare = strategy_generic_prepare G, op_startup = strategy_generic_startup G,
    op_init = strategy_synchronized_init G, op_loop = strategy_synchronized_loop G, op_reset = strategy_synchronized_reset G\<rparr>"
    "started_of CTRL_STRAT_SYNCHRONIZED" "running_of CTRL_STRAT_SYNCHRONIZED" for G
  by unfold_locales
    (auto simp: strategy_synchronized_reset_def reset_ok started_of_def running_of_def quiet_all_ready
      intro: generic_prepare_ok generic_startup_ok synchronized_loop_ok returns_mono [OF synchronized_init_ok])

interpretation follow: motor_strategy "\<lparr>op_prepare = strategy_generic_prepare G, op_startup = strategy_generic_startup G,
    op_init = strategy_follow_init G, op_loop = strategy_follow_loop G, op_reset = strategy_follow_reset G\<rparr>"
    "started_of CTRL_STRAT_FOLLOW" "running_of CTRL_STRAT_FOLLOW" for G
  by unfold_locales
    (auto simp: strategy_follow_reset_def strategy_follow_init_def reset_ok started_of_def running_of_def kept_refl
      intro: generic_prepare_ok generic_startup_ok follow_loop_ok map_op_ok)

interpretation hold_index: motor_strategy "\<lparr>op_prepare = strategy_generic_prepare G, op_startup = strategy_generic_startup G,
    op_init = strategy_hold_index_init G, op_loop = strategy_hold_index_loop G, op_reset = strategy_hold_index_reset G\<rparr>"
    "started_of CTRL_STRAT_HOLD_INDEX" "running_of CTRL_STRAT_HOLD_INDEX" for G
  by unfold_locales
    (auto simp: strategy_hold_index_reset_def strategy_hold_index_init_def strategy_hold_index_loop_def reset_ok started_of_def running_of_def
      intro: generic_prepare_ok generic_startup_ok map_op_ok)

interpretation interlaced: motor_strategy "\<lparr>op_prepare = strategy_interlaced_prepare G, op_startup = strategy_interlaced_startup G,
    op_init = strategy_interlaced_init G, op_loop = strategy_interlaced_loop G, op_reset = strategy_interlaced_reset G\<rparr>"
    "started_of CTRL_STRAT_INTERLACED" "running_of CTRL_STRAT_INTERLACED" for G
  by unfold_locales
    (auto simp: started_of_def running_of_def quiet_linked quiet_pair_ready
      intro: interlaced_reset_ok interlaced_prepare_ok interlaced_startup_ok interlaced_loop_ok returns_mono [OF interlaced_init_ready])

interpretation stop: motor_strategy "\<lparr>op_prepare = strategy_stop_prepare G, op_startup = strategy_stop_startup G,
    op_init = strategy_stop_init, op_loop = strategy_stop_loop G, op_reset = strategy_stop_reset G\<rparr>"
    "started_of CTRL_STRAT_STOP" "running_of CTRL_STRAT_STOP" for G
  by unfold_locales
    (auto simp: strategy_stop_reset_def strategy_stop_init_def strategy_stop_loop_def strategy_stop_prepare_def reset_ok started_of_def
      running_of_def kept_refl intro: stop_startup_ok map_op_ok)

interpretation identification: motor_strategy "\<lparr>op_prepare = strategy_interlaced_prepare G, op_startup = strategy_interlaced_startup G,
    op_init = strategy_identification_init G, op_loop = strategy_identification_loop G, op_reset = strategy_interlaced_reset G\<rparr>"
    "started_of CTRL_STRAT_IDENTIFICATION" "running_of CTRL_STRAT_IDENTIFICATION" for G
  by unfold_locales
    (auto simp: started_of_def running_of_def quiet_linked quiet_ident_running
      intro: interlaced_reset_ok interlaced_prepare_ok interlaced_startup_ok identification_loop_ok
        returns_mono [OF identification_init_ready])

section \<open>Sequences of calls\<close>

text \<open>A context in use: one of the six strategies is current, and the motors are as its state requires.\<close>

definition control_ok :: "'r control_strategy \<Rightarrow> bool" where
  "control_ok ctx \<longleftrightarrow> motors_ok ctx \<and> cs_current ctx < 6 \<and> cs_old ctx < 6 \<and> cs_num_strategies ctx = MAX_NUM_CONTROL_STRATEGIES \<and>
     (cs_state ctx \<in> {STARTUP, INIT} \<longrightarrow> started_of (cs_current ctx) ctx) \<and> (cs_state ctx = CONTROL \<longrightarrow> running_of (cs_current ctx) ctx)"

lemma u32_less_6: "s < 6 \<Longrightarrow> s = 0 \<or> s = 1 \<or> s = 2 \<or> s = 3 \<or> s = 4 \<or> s = 5" for s :: u32
  by (simp add: word_less_nat_alt word_unat_eq_iff) linarith

lemma strategy_contract:
  assumes "s < 6"
  shows "\<exists>ops. strategy_ops G s = Some ops \<and> motor_strategy ops (started_of s) (running_of s)"
  using u32_less_6 [OF assms] synchronized.motor_strategy_axioms follow.motor_strategy_axioms hold_index.motor_strategy_axioms
    interlaced.motor_strategy_axioms stop.motor_strategy_axioms identification.motor_strategy_axioms
  by (elim disjE) (simp_all add: strategy_ops_def)

lemma control_machine:
  assumes "control_ok ctx"
  shows "returns (control_strategy_state_machine G accepted ctx) (\<lambda>(ctx', cb). control_ok ctx' \<and>
    motor_addrs ctx' = motor_addrs ctx \<and> (cs_net_stats_pending ctx \<longrightarrow> cs_net_stats_pending ctx'))"
proof -
  obtain ops where ops: "strategy_ops G (cs_current ctx) = Some ops"
    and st: "motor_strategy ops (started_of (cs_current ctx)) (running_of (cs_current ctx))"
    using strategy_contract assms unfolding control_ok_def by blast
  note phase = motor_strategy.in_phase_def [OF st]
  have "returns (control_strategy_state_machine G accepted ctx) (\<lambda>(ctx', cb).
    motor_strategy.in_phase (started_of (cs_current ctx)) (running_of (cs_current ctx)) ctx' \<and> motor_addrs ctx' = motor_addrs ctx \<and>
    cs_current ctx' = cs_current ctx \<and> cs_old ctx' = cs_old ctx \<and> cs_num_strategies ctx' = cs_num_strategies ctx \<and>
    (cs_net_stats_pending ctx \<longrightarrow> cs_net_stats_pending ctx'))"
    by (rule motor_strategy.machine_ok [OF st ops]) (use assms in \<open>simp add: phase control_ok_def\<close>)
  then show ?thesis
    by (rule returns_mono) (use assms in \<open>auto simp: phase control_ok_def\<close>)
qed

text \<open>
  The calls of the interface, in any order: the state machine of each cycle, the feedback of a motor, the commands that
  change the strategy, and the statistics.
\<close>

inductive control_step :: "'r cflt \<Rightarrow> 'r control_strategy \<Rightarrow> 'r control_strategy \<Rightarrow> bool" for G where
  machine: "control_strategy_state_machine G accepted ctx = Some (ctx', cb) \<Longrightarrow> control_step G ctx ctx'"
| feedback: "control_step G ctx
    (ctx\<lparr>cs_motors := map (\<lambda>(b, m). (b, if b = a then control_strategy_set_feedback m fb else m)) (cs_motors ctx)\<rparr>)"
| reset_iq: "control_step G ctx (control_strategy_reset_iq G ctx)"
| reset_strategy: "control_step G ctx (control_strategy_reset_strategy ctx)"
| previous_strategy: "control_step G ctx (control_strategy_previous_strategy ctx)"
| next_strategy: "control_strategy_next_strategy ctx = Some ctx' \<Longrightarrow> control_step G ctx ctx'"
| set_strategy: "strategy < 6 \<Longrightarrow> control_step G ctx (control_strategy_set_strategy ctx strategy)"
| error_callback: "control_step G ctx (control_strategy_set_error_callback ctx callback)"
| stats_dump: "control_step G ctx (control_strategy_stats_dump answers ctx)"
| stats_print: "control_step G ctx (control_strategy_stats_print ctx)"
| motor_stats_print: "control_step G ctx
    (ctx\<lparr>cs_motors := map (\<lambda>(b, m). (b, if b = a then control_strategy_motor_stats_print m else m)) (cs_motors ctx)\<rparr>)"
| monitoring: "control_step G ctx (snd (control_strategy_get_motor_monitoring ctx n))"

inductive_cases control_stepE: "control_step G ctx ctx'"

text \<open>A change that leaves the strategies, the pointers, the scenarios and the histograms alone.\<close>

lemma control_ok_quiet:
  assumes "control_ok ctx" and "quiet ctx ctx'" and "motors_ok ctx'" and "cs_current ctx' = cs_current ctx" and "cs_old ctx' = cs_old ctx"
    and "cs_num_strategies ctx' = cs_num_strategies ctx" and "cs_state ctx' = cs_state ctx"
  shows "control_ok ctx'"
  using assms started_quiet [OF assms(2)] running_quiet [OF assms(2)] by (simp add: control_ok_def)

lemma remap_control_ok:
  fixes g :: "nat \<Rightarrow> 'r controlled_motor \<Rightarrow> 'r controlled_motor"
  assumes "control_ok ctx" and "\<And>a m. sm_pos_err_deg_hist (mo_stats (g a m)) = sm_pos_err_deg_hist (mo_stats m)"
    and "\<And>a m. mo_scenario (g a m) = mo_scenario m"
  shows "control_ok (ctx\<lparr>cs_motors := map (\<lambda>(a, m). (a, g a m)) (cs_motors ctx)\<rparr>)"
    and "motor_addrs (ctx\<lparr>cs_motors := map (\<lambda>(a, m). (a, g a m)) (cs_motors ctx)\<rparr>) = motor_addrs ctx"
proof -
  note r = remap_motors [of g, OF assms(2,3), where ctx = ctx]
  show "control_ok (ctx\<lparr>cs_motors := map (\<lambda>(a, m). (a, g a m)) (cs_motors ctx)\<rparr>)"
    by (rule control_ok_quiet [OF assms(1) r(2)]) (use r(3) assms(1) in \<open>simp_all add: control_ok_def\<close>)
  show "motor_addrs (ctx\<lparr>cs_motors := map (\<lambda>(a, m). (a, g a m)) (cs_motors ctx)\<rparr>) = motor_addrs ctx" by (rule r(1))
qed

lemma control_ok_reset:
  assumes "motors_ok ctx" and "cs_current ctx < 6" and "cs_old ctx < 6" and "cs_num_strategies ctx = MAX_NUM_CONTROL_STRATEGIES"
  shows "control_ok (control_strategy_set_state ctx RESET)"
  using assms by (simp add: control_ok_def control_strategy_set_state_def motors_ok_def linked_def motor_addrs_def)

lemma control_ok_simple:
  "control_ok (ctx\<lparr>cs_err_cb := b\<rparr>) = control_ok ctx" "motor_addrs (ctx\<lparr>cs_err_cb := b\<rparr>) = motor_addrs ctx"
  "control_ok (ctx\<lparr>cs_stats_snap := st\<rparr>) = control_ok ctx" "motor_addrs (ctx\<lparr>cs_stats_snap := st\<rparr>) = motor_addrs ctx"
  "control_ok (ctx\<lparr>cs_stats := st\<rparr>) = control_ok ctx" "motor_addrs (ctx\<lparr>cs_stats := st\<rparr>) = motor_addrs ctx"
  by (simp_all add: control_ok_def motors_ok_def linked_def motor_addrs_def started_of_def running_of_def all_ready_def pair_ready_def
      ident_running_def)

lemma monitoring_ok:
  assumes "control_ok ctx"
  shows "control_ok (snd (control_strategy_get_motor_monitoring ctx n))"
    and "motor_addrs (snd (control_strategy_get_motor_monitoring ctx n)) = motor_addrs ctx"
proof -
  let ?k = "max 1 (unat n)" and ?g = "\<lambda>(a, m). (a, m\<lparr>mo_stats := (mo_stats m)\<lparr>sm_pos_err_max := 0\<rparr>\<rparr>)"
  let ?ms = "map ?g (take ?k (cs_motors ctx)) @ drop ?k (cs_motors ctx)"
  have e: "snd (control_strategy_get_motor_monitoring ctx n) = ctx\<lparr>cs_motors := ?ms\<rparr>"
    by (simp add: control_strategy_get_motor_monitoring_def Let_def)
  have same: "map f ?ms = map f (cs_motors ctx)" if "\<And>x. f (?g x) = f x" for f :: "nat \<times> 'a controlled_motor \<Rightarrow> 'b"
  proof -
    have "map f ?ms = map f (take ?k (cs_motors ctx)) @ map f (drop ?k (cs_motors ctx))" using that by (simp add: comp_def)
    then show ?thesis by (simp flip: map_append)
  qed
  have addrs: "map fst ?ms = map fst (cs_motors ctx)" by (rule same) (simp add: case_prod_unfold)
  have scen: "map (\<lambda>(a, m). (a, mo_scenario m)) ?ms = map (\<lambda>(a, m). (a, mo_scenario m)) (cs_motors ctx)"
    by (rule same) (simp add: case_prod_unfold)
  have ok: "motors_ok ctx" using assms by (simp add: control_ok_def)
  have hists: "\<forall>(a, m) \<in> set ?ms. motor_ok {} a m"
  proof -
    have "motor_ok {} a m" if "(a, m) \<in> set (cs_motors ctx)" for a m using ok that by (auto simp: motors_ok_def)
    then show ?thesis by (auto simp: motor_ok_def dest: in_set_takeD in_set_dropD)
  qed
  have "length ?ms = length (cs_motors ctx)" using arg_cong [OF addrs, of length] by (simp only: length_map)
  then have "motors_ok (ctx\<lparr>cs_motors := ?ms\<rparr>)"
    using ok hists addrs by (simp add: motors_ok_def linked_def motor_addrs_def del: map_append)
  moreover have "quiet ctx (ctx\<lparr>cs_motors := ?ms\<rparr>)" using scen by (simp add: quiet_def del: map_append)
  ultimately show "control_ok (snd (control_strategy_get_motor_monitoring ctx n))" unfolding e
    by (intro control_ok_quiet [OF assms]) simp_all
  show "motor_addrs (snd (control_strategy_get_motor_monitoring ctx n)) = motor_addrs ctx" unfolding e
    using addrs by (simp add: motor_addrs_def del: map_append)
qed

lemma control_step_ok:
  assumes "control_step G ctx ctx'" and "control_ok ctx"
  shows "control_ok ctx' \<and> motor_addrs ctx' = motor_addrs ctx"
  using assms
proof (cases rule: control_step.cases)
  case (machine accepted cb)
  then show ?thesis using control_machine [OF assms(2), of G accepted] by (simp add: returns_def)
next
  case (feedback a fb)
  then show ?thesis
    using remap_control_ok [OF assms(2), of "\<lambda>b m. if b = a then control_strategy_set_feedback m fb else m"]
    by (simp add: control_strategy_set_feedback_def)
next
  case reset_iq
  then show ?thesis
    using remap_control_ok [OF assms(2), of "\<lambda>_ m. m\<lparr>mo_iq_req := f0 G\<rparr>"] by (simp add: control_strategy_reset_iq_def map_motors_def)
next
  case (motor_stats_print a)
  then show ?thesis
    using remap_control_ok [OF assms(2), of "\<lambda>b m. if b = a then control_strategy_motor_stats_print m else m"]
    by (simp add: control_strategy_motor_stats_print_def Let_def)
next
  case (stats_dump answers)
  let ?c = "if ss_pending (cs_stats_snap ctx) then ctx
    else (let st = (cs_stats ctx)\<lparr>ss_state := cs_state ctx, ss_old_strategy := cs_old ctx, ss_current_strategy := cs_current ctx\<rparr>
      in ctx\<lparr>cs_stats := st, cs_stats_snap := st\<lparr>ss_pending := answers None\<rparr>\<rparr>)"
  have "control_ok ?c" "motor_addrs ?c = motor_addrs ctx" using assms(2) by (simp_all add: Let_def control_ok_simple)
  then show ?thesis
    using stats_dump remap_control_ok [of ?c "\<lambda>a m. motor_stats_dump (answers (Some a)) m"]
    by (simp add: control_strategy_stats_dump_def Let_def motor_stats_dump_def)
next
  case (next_strategy)
  have "(cs_current ctx + 1) mod (6 :: u32) < 6" by (rule word_mod_less_divisor) simp
  then show ?thesis
    using next_strategy assms(2) control_ok_reset [of "ctx\<lparr>cs_old := cs_current ctx, cs_current := (cs_current ctx + 1) mod 6\<rparr>"]
    by (auto simp: control_strategy_next_strategy_def control_ok_def [of ctx] motors_ok_def linked_def motor_addrs_def control_strategy_set_state_def)
next
  case previous_strategy
  then show ?thesis
    using assms(2) control_ok_reset [of "ctx\<lparr>cs_current := cs_old ctx, cs_old := cs_current ctx\<rparr>"]
    by (simp add: control_strategy_previous_strategy_def control_ok_def [of ctx] motors_ok_def linked_def motor_addrs_def control_strategy_set_state_def)
next
  case (set_strategy strategy)
  then show ?thesis
    using assms(2) control_ok_reset [of "ctx\<lparr>cs_old := cs_current ctx, cs_current := strategy\<rparr>"]
    by (cases "cs_current ctx = strategy") (simp_all add: control_strategy_set_strategy_def control_ok_def [of ctx] motors_ok_def linked_def motor_addrs_def control_strategy_set_state_def)
next
  case reset_strategy
  then show ?thesis
    using assms(2) control_ok_reset [of ctx]
    by (simp add: control_strategy_reset_strategy_def control_ok_def [of ctx]) (simp add: control_strategy_set_state_def motor_addrs_def)
qed (use assms(2) monitoring_ok [OF assms(2)] in \<open>simp_all add: control_strategy_set_error_callback_def control_strategy_stats_print_def control_ok_simple\<close>)

lemma control_steps_ok:
  assumes "(control_step G)\<^sup>*\<^sup>* ctx ctx'" and "control_ok ctx"
  shows "control_ok ctx' \<and> motor_addrs ctx' = motor_addrs ctx"
  using assms by (induction rule: rtranclp_induct) (auto dest: control_step_ok)

section \<open>Network statistics\<close>

lemma pending_step:
  assumes "control_step G ctx ctx'" and "control_ok ctx" and "cs_net_stats_pending ctx"
  shows "cs_net_stats_pending ctx'"
  using assms(1)
proof (cases rule: control_step.cases)
  case (machine accepted cb)
  then show ?thesis using control_machine [OF assms(2), of G accepted] assms(3) by (simp add: returns_def)
qed (use assms(3) in \<open>auto simp: control_strategy_reset_iq_def map_motors_def control_strategy_reset_strategy_def
      control_strategy_previous_strategy_def control_strategy_next_strategy_def control_strategy_set_strategy_def
      control_strategy_set_error_callback_def control_strategy_stats_dump_def control_strategy_stats_print_def
      control_strategy_get_motor_monitoring_def control_strategy_set_state_def Let_def split: if_splits\<close>)

text \<open>
  The flag that guards the network statistics is a latch: once a call was accepted no sequence of interface calls
  clears it, and from then on \<open>motor_stats_send\<close> does nothing. One record per motor is sent and no other.
\<close>

theorem net_stats_sent_once:
  assumes "control_ok ctx0" and "cs_net_stats_pending ctx0" and "(control_step G)\<^sup>*\<^sup>* ctx0 ctx"
  shows "cs_net_stats_pending ctx \<and> motor_stats_send G accepted ctx = ctx"
proof -
  have "cs_net_stats_pending ctx"
    using assms(3,1,2)
  proof (induction rule: rtranclp_induct)
    case (step c c')
    then show ?case using pending_step [OF step.hyps(2)] control_steps_ok [OF step.hyps(1)] by simp
  qed simp
  then show ?thesis by (simp add: motor_stats_send_def)
qed

section \<open>Creation\<close>

text \<open>Motors registered one after the other, each with its address, identifiers, time and the application's hook.\<close>

definition register_all ::
  "'r cflt \<Rightarrow> 'r m1_config \<Rightarrow> (nat \<times> u16 \<times> u16 \<times> u64 \<times> ('r motor_params \<Rightarrow> u32 \<Rightarrow> 'r motor_params) option) list \<Rightarrow>
     'r control_strategy \<Rightarrow> 'r control_strategy" where
  "register_all G M ms ctx =
     foldl (\<lambda>ctx (a, io, mid, t, app). snd (control_strategy_register_motor G M ctx (Some a) io mid t app)) ctx ms"

lemma new_motor_hist: "hist_wf (sm_pos_err_deg_hist (mo_stats (new_motor G M io mid t app)))"
  by (simp add: new_motor_def Let_def zeroed_motor_def zeroed_stats_motor_def rtos_apps_hist_init_def hist_wf_def)

text \<open>A new context stays fit while motors are added to it.\<close>

definition control_new :: "'r control_strategy \<Rightarrow> bool" where
  "control_new ctx \<longleftrightarrow> control_ok ctx \<and> cs_state ctx = RESET \<and> cs_static ctx = None \<and> cs_dynamic ctx = None"

lemma register_ok:
  assumes "control_new ctx" and "a \<notin> set (motor_addrs ctx)" and "length (cs_motors ctx) + 1 < 2 ^ 16"
  shows "control_new (snd (control_strategy_register_motor G M ctx (Some a) io mid t app)) \<and>
    motor_addrs (snd (control_strategy_register_motor G M ctx (Some a) io mid t app)) = a # motor_addrs ctx"
proof -
  have "unat (cs_num_motors ctx + 1) = length (cs_motors ctx) + 1"
    using unat_add_small [of "cs_num_motors ctx" 1] assms(1,3) by (simp add: control_new_def control_ok_def motors_ok_def)
  then show ?thesis
    using assms(1,2) new_motor_hist
    by (simp add: control_strategy_register_motor_def control_new_def control_ok_def motors_ok_def motor_addrs_def motor_ok_def)
qed

lemma register_all_ok:
  assumes "control_new ctx" and "distinct (map fst ms)" and "set (map fst ms) \<inter> set (motor_addrs ctx) = {}"
    and "length (cs_motors ctx) + length ms < 2 ^ 16"
  shows "control_new (register_all G M ms ctx) \<and> motor_addrs (register_all G M ms ctx) = rev (map fst ms) @ motor_addrs ctx"
  using assms
proof (induction ms arbitrary: ctx)
  case (Cons x ms)
  obtain a io mid t app where x: "x = (a, io, mid, t, app)" by (cases x)
  let ?ctx = "snd (control_strategy_register_motor G M ctx (Some a) io mid t app)"
  have r: "control_new ?ctx \<and> motor_addrs ?ctx = a # motor_addrs ctx"
    by (rule register_ok) (use Cons.prems x in auto)
  moreover have "length (cs_motors ?ctx) = Suc (length (cs_motors ctx))" by (simp add: control_strategy_register_motor_def)
  ultimately have "control_new (register_all G M ms ?ctx) \<and> motor_addrs (register_all G M ms ?ctx) = rev (map fst ms) @ motor_addrs ?ctx"
    using Cons.prems x by (intro Cons.IH) auto
  then show ?case using r x by (simp add: register_all_def)
qed (simp add: register_all_def)

lemma context_init_new:
  assumes "control_strategy_context_init G True True first period = Some ctx" and "first < 6" and "period \<noteq> 0"
  shows "control_new ctx \<and> cs_motors ctx = []"
  using assms by (auto simp: control_strategy_context_init_def control_new_def control_ok_def motors_ok_def motor_addrs_def)

section \<open>Motors that come and go\<close>

text \<open>
  All calls of the interface. The strategies keep pointers to two of the motors, which neither registration nor its end looks at: motors come
  and go while no strategy has been prepared or started, as after the creation.
\<close>

definition at_rest :: "'r control_strategy \<Rightarrow> bool" where
  "at_rest ctx \<longleftrightarrow> cs_state ctx = RESET \<and> cs_static ctx = None \<and> cs_dynamic ctx = None"

inductive control_call :: "'r cflt \<Rightarrow> 'r m1_config \<Rightarrow> 'r control_strategy \<Rightarrow> 'r control_strategy \<Rightarrow> bool" for G M where
  call_step: "control_step G ctx ctx' \<Longrightarrow> control_call G M ctx ctx'"
| call_register: "at_rest ctx \<Longrightarrow> a \<notin> set (motor_addrs ctx) \<Longrightarrow> length (cs_motors ctx) + 1 < 2 ^ 16 \<Longrightarrow>
    control_call G M ctx (snd (control_strategy_register_motor G M ctx (Some a) io mid t app))"
| call_register_refused: "control_call G M ctx (snd (control_strategy_register_motor G M ctx None io mid t app))"
| call_unregister: "at_rest ctx \<Longrightarrow> a \<in> set (motor_addrs ctx) \<Longrightarrow> control_call G M ctx (control_strategy_unregister_motor ctx a)"

lemma control_new_rest: "control_new ctx \<longleftrightarrow> control_ok ctx \<and> at_rest ctx"
  by (auto simp: control_new_def at_rest_def)

lemma unregister_split:
  assumes "a \<in> set (motor_addrs ctx)"
  obtains xs m ys where "cs_motors ctx = xs @ (a, m) # ys" and "a \<notin> set (map fst xs)"
    and "cs_motors (control_strategy_unregister_motor ctx a) = xs @ ys"
proof -
  have "\<exists>y \<in> set (cs_motors ctx). fst y = a" using assms by (auto simp: motor_addrs_def)
  from split_list_first_prop [OF this]
  obtain xs x ys where x: "cs_motors ctx = xs @ x # ys" "fst x = a" "\<forall>y \<in> set xs. fst y \<noteq> a" by blast
  then have "takeWhile (\<lambda>y. fst y \<noteq> a) (cs_motors ctx) = xs" "dropWhile (\<lambda>y. fst y \<noteq> a) (cs_motors ctx) = x # ys"
    by (simp_all add: takeWhile_append2 dropWhile_append2)
  then have "cs_motors (control_strategy_unregister_motor ctx a) = xs @ ys"
    by (simp add: control_strategy_unregister_motor_def Let_def)
  with x show thesis using that [of xs "snd x" ys] by (cases x) force
qed

lemma unregister_ok:
  assumes "control_new ctx" and "a \<in> set (motor_addrs ctx)"
  shows "control_ok (control_strategy_unregister_motor ctx a)"
proof -
  let ?c = "control_strategy_unregister_motor ctx a"
  obtain xs m ys where m: "cs_motors ctx = xs @ (a, m) # ys" "cs_motors ?c = xs @ ys" using unregister_split [OF assms(2)] by blast
  have n: "unat (cs_num_motors ctx) = Suc (length xs + length ys)" using assms(1) m(1) by (simp add: control_new_def control_ok_def motors_ok_def)
  then have "cs_num_motors ctx > 0" by (simp add: word_less_nat_alt)
  moreover from this have "unat (cs_num_motors ctx - 1) = length xs + length ys" using n by (simp add: unat_minus_one word_neq_0_conv [symmetric])
  ultimately show ?thesis
    using assms(1) m
    by (auto simp: control_new_def control_ok_def motors_ok_def motor_addrs_def control_strategy_unregister_motor_def Let_def)
qed

lemma control_calls_ok:
  assumes "(control_call G M)\<^sup>*\<^sup>* ctx0 ctx" and "control_ok ctx0"
  shows "control_ok ctx"
  using assms
proof (induction rule: rtranclp_induct)
  case (step c c')
  then have c: "control_ok c" by simp
  show ?case
    using step.hyps(2)
  proof cases
    case call_step
    then show ?thesis using control_step_ok c by blast
  next
    case (call_register a io mid t app)
    then show ?thesis using register_ok [of c a G M io mid t app] c by (simp add: control_new_rest)
  next
    case (call_register_refused io mid t app)
    then show ?thesis using c by (simp add: control_strategy_register_motor_def)
  next
    case (call_unregister a)
    then show ?thesis using unregister_ok [of c a] c by (simp add: control_new_rest)
  qed
qed

text \<open>
  C2. Whatever sequence of interface calls came before, with strategies of the enumeration and with motors registered and unregistered only
  while the machine is to be reset and no strategy points at a motor, the state machine of the control strategies returns: no strategy follows a null or
  stale motor pointer, reads beyond a scenario, a histogram or the identification's arrays, or divides by zero. The motors stay those
  registered, and the two motors of an interlaced strategy are distinct ones of them.
\<close>

theorem control_never_traps:
  assumes "control_ok ctx0" and "(control_call G M)\<^sup>*\<^sup>* ctx0 ctx"
  shows "\<exists>ctx' cb. control_strategy_state_machine G accepted ctx = Some (ctx', cb) \<and> control_ok ctx' \<and>
    motor_addrs ctx' = motor_addrs ctx \<and> (cs_static ctx' = None \<and> cs_dynamic ctx' = None \<or> linked ctx')"
  using control_machine [OF control_calls_ok [OF assms(2,1)], of G accepted]
  by (auto simp: returns_def control_ok_def motors_ok_def)

text \<open>The end of a motor in use leaves its pointer: the interlaced strategy then follows it.\<close>

lemma unregister_in_use_traps:
  assumes "distinct (motor_addrs ctx)" and "cs_current ctx = CTRL_STRAT_INTERLACED" and "cs_state ctx = STARTUP" and "cs_static ctx = Some a"
    and "a \<in> set (motor_addrs ctx)"
  shows "control_strategy_state_machine G accepted (control_strategy_unregister_motor ctx a) = None"
proof -
  let ?c = "control_strategy_unregister_motor ctx a"
  obtain xs m ys where m: "cs_motors ctx = xs @ (a, m) # ys" "cs_motors ?c = xs @ ys" using unregister_split [OF assms(5)] by blast
  then have "map_of (cs_motors ?c) a = None" using assms(1) by (auto simp: motor_addrs_def map_of_eq_None_iff)
  moreover have "cs_static ?c = Some a" "cs_current ?c = CTRL_STRAT_INTERLACED" "cs_state ?c = STARTUP"
    using assms(2-4) by (simp_all add: control_strategy_unregister_motor_def Let_def)
  ultimately show ?thesis
    by (simp add: control_strategy_state_machine_def control_strategy_startup_def run_op_def strategy_ops_def strategy_interlaced_startup_def
        motor_upd_def motor_at_def Let_def)
qed

section \<open>A new context\<close>

text \<open>
  C24. A context created with one of the six strategies and a non-zero period, with up to 65535 motors registered at
  distinct addresses, is fit to run: from there the state machine never traps. The motors are listed last first.
\<close>

theorem control_created_ok:
  assumes "control_strategy_context_init G True True first period = Some ctx" and "first < 6" and "period \<noteq> 0"
    and "distinct (map fst ms)" and "length ms < 2 ^ 16"
  shows "control_ok (register_all G M ms ctx) \<and> motor_addrs (register_all G M ms ctx) = rev (map fst ms)"
  using register_all_ok [of ctx ms G M] context_init_new [OF assms(1-3)] assms(4,5) by (simp add: control_new_def motor_addrs_def)

text \<open>Integers for the floating point, and two motors.\<close>

definition int_flt :: "int cflt" where
  "int_flt = \<lparr>fadd = (+), fsub = (-), fmul = (*), fdiv = (div), fneg = uminus, dadd = (+), dsub = (-), dmul = (*), ddiv = (div),
     dabs = abs, dsqrt = (\<lambda>x. x), dceil = (\<lambda>x. x), fle = (\<le>), flt = (<), feq = (=), fl = (\<lambda>x. x),
     dec = (\<lambda>m e. m div 10 ^ e), d_of_u32 = uint, d_of_s32 = sint, f_of_u32 = uint, f_of_s32 = sint,
     to_u32 = word_of_int, to_s32 = word_of_int\<rparr>"

definition demo_motors :: "(nat \<times> u16 \<times> u16 \<times> u64 \<times> (int motor_params \<Rightarrow> u32 \<Rightarrow> int motor_params) option) list" where
  "demo_motors = [(100, 1, 0, 0, None), (200, 1, 1, 0, None)]"

definition demo_m1 :: "int m1_config" where
  "demo_m1 = \<lparr>M1_MOTOR_PP = 4, M1_SPEED_LOOP_HIGH_LIMIT = 8, M1_SPEED_LOOP_LOW_LIMIT = - 8\<rparr>"

definition demo_context :: "int control_strategy" where
  "demo_context = the (control_strategy_context_init int_flt True True CTRL_STRAT_INTERLACED 250000)"

lemma demo_context: "control_strategy_context_init int_flt True True CTRL_STRAT_INTERLACED 250000 = Some demo_context"
  by (simp add: demo_context_def control_strategy_context_init_def)

theorem control_created_ok_witness:
  "control_ok (register_all int_flt demo_m1 demo_motors demo_context) \<and>
   motor_addrs (register_all int_flt demo_m1 demo_motors demo_context) = [200, 100]"
  using control_created_ok [OF demo_context, of demo_motors demo_m1] by (simp add: demo_motors_def)

lemma demo_control_ok: "control_ok (register_all int_flt demo_m1 demo_motors demo_context)"
  "motor_addrs (register_all int_flt demo_m1 demo_motors demo_context) = [200, 100]"
  using register_all_ok [of demo_context demo_motors int_flt demo_m1] context_init_new [OF demo_context]
  by (simp_all add: demo_motors_def control_new_def motor_addrs_def)

theorem control_never_traps_witness:
  "\<exists>ctx' cb. control_strategy_state_machine int_flt True
      (control_strategy_set_strategy (control_strategy_unregister_motor (register_all int_flt demo_m1 demo_motors demo_context) 100) CTRL_STRAT_IDENTIFICATION)
    = Some (ctx', cb) \<and> motor_addrs ctx' = [200]"
proof -
  let ?c = "register_all int_flt demo_m1 demo_motors demo_context"
  let ?u = "control_strategy_unregister_motor ?c 100" and ?call = "control_call int_flt demo_m1"
  have rest: "at_rest ?c"
    using register_all_ok [of demo_context demo_motors int_flt demo_m1] context_init_new [OF demo_context]
    by (simp add: control_new_rest demo_motors_def motor_addrs_def)
  have "?call ?c ?u" by (rule call_unregister [OF rest]) (simp add: demo_control_ok(2))
  moreover have "?call ?u (control_strategy_set_strategy ?u CTRL_STRAT_IDENTIFICATION)" by (rule call_step, rule control_step.set_strategy) simp
  ultimately have steps: "?call\<^sup>*\<^sup>* ?c (control_strategy_set_strategy ?u CTRL_STRAT_IDENTIFICATION)" by (meson rtranclp.rtrancl_refl rtranclp.rtrancl_into_rtrancl)
  have "100 \<in> set (motor_addrs ?c)" by (simp add: demo_control_ok(2))
  from unregister_split [OF this]
  obtain xs m ys where "cs_motors ?c = xs @ (100, m) # ys" "100 \<notin> set (map fst xs)" "cs_motors ?u = xs @ ys" .
  then have "motor_addrs ?u = [200]" using demo_control_ok(2) by (auto simp: motor_addrs_def Cons_eq_append_conv append_eq_Cons_conv)
  then have "motor_addrs (control_strategy_set_strategy ?u CTRL_STRAT_IDENTIFICATION) = [200]"
    by (simp add: motor_addrs_def control_strategy_set_strategy_def control_strategy_set_state_def)
  then show ?thesis using control_never_traps [OF demo_control_ok(1) steps, of True] by auto
qed

theorem net_stats_sent_once_witness:
  "cs_net_stats_pending (control_strategy_reset_iq int_flt (motor_stats_send int_flt True (register_all int_flt demo_m1 demo_motors demo_context)))"
proof -
  let ?c = "register_all int_flt demo_m1 demo_motors demo_context"
  have "\<not> cs_net_stats_pending ?c"
    by (simp add: register_all_def demo_motors_def control_strategy_register_motor_def demo_context_def control_strategy_context_init_def)
  then have "cs_net_stats_pending (motor_stats_send int_flt True ?c)" by (simp add: motor_stats_send_def)
  moreover have "control_ok (motor_stats_send int_flt True ?c)"
    by (rule control_ok_quiet [OF demo_control_ok(1) stats_send_quiet(1)])
      (use demo_control_ok(1) in \<open>simp_all add: stats_send_quiet(2) control_ok_def, simp_all add: motor_stats_send_def map_motors_def\<close>)
  moreover have "(control_step int_flt)\<^sup>*\<^sup>* (motor_stats_send int_flt True ?c) (control_strategy_reset_iq int_flt (motor_stats_send int_flt True ?c))"
    by (rule r_into_rtranclp) (rule control_step.reset_iq)
  ultimately show ?thesis using net_stats_sent_once by blast
qed

end
