(* ===== verification/Motor_Io_Safety.thy ===== *)
theory Motor_Io_Safety
  imports Motor_Io_Device Tsn_Receive Motor_Safety
begin

text \<open>
  What a device makes of its motor: the state invariant, the effect of a turn on the drive, and the watchdog that ties the
  currents applied to the command received in the same period.
\<close>

section \<open>The invariant\<close>

text \<open>
  A device with its one motor. The fault bit tells the fault state, no other bit than the two errors is set, and the
  controller is only let in once the motor has held its index.
\<close>

definition io_ok :: "'r io_device \<Rightarrow> bool" where
  "io_ok ctx \<longleftrightarrow> dv_num_motors ctx = 1 \<and> length (dv_motors ctx) = 1 \<and>
     dv_status ctx \<in> (if dv_state ctx = MOTOR_FAULT then {1, 3} else {0, 2}) \<and>
     (dv_state ctx \<in> {REMOTE_CONTROL, FREERUNNING} \<longrightarrow> dv_offset_reached ctx) \<and>
     (dv_offset_reached ctx \<longrightarrow> dv_state ctx \<ge> STAY_INDEX)"

lemmas io_le = less_eq_sm_io_device_state_def

abbreviation io_motor :: "'r io_device \<Rightarrow> 'r motor_controlled" where
  "io_motor ctx \<equiv> hd (dv_motors ctx)"

lemma one_motor: "io_ok ctx \<Longrightarrow> dv_num_motors ctx = 1 \<and> dv_motors ctx = [io_motor ctx]"
  by (cases "dv_motors ctx") (auto simp: io_ok_def)

text \<open>A loop over the motors runs its body once.\<close>

lemma each_controlled_one:
  assumes "dv_num_motors ctx = 1" and "dv_motors ctx = [m]"
  shows "each_controlled f ctx w x = Some (let (m', w', x') = f m w x in (ctx\<lparr>dv_motors := [m']\<rparr>, w', x'))"
  using assms by (simp add: each_controlled_def split: prod.split)

lemma set_state_simp [simp]: "io_device_set_state ctx st = ctx\<lparr>dv_state := st\<rparr>"
  by (simp add: io_device_set_state_def)

lemma motors_unchanged [simp]: "dv_motors ctx = ms \<Longrightarrow> ctx\<lparr>dv_motors := ms\<rparr> = ctx"
  by (cases ctx) simp

section \<open>The phases of a turn\<close>

lemma input_ok: "io_ok ctx \<Longrightarrow> io_ok (io_device_input ctx)"
  by (auto simp: io_device_input_def io_ok_def io_le Let_def split: list.split event_button.split)

lemma input_keeps:
  "dv_motors (io_device_input ctx) = dv_motors ctx" "dv_status (io_device_input ctx) = dv_status ctx"
  "dv_action (io_device_input ctx) = dv_action ctx" "dv_offset_reached (io_device_input ctx) = dv_offset_reached ctx"
  "dv_num_motors (io_device_input ctx) = dv_num_motors ctx"
  "dv_state (io_device_input ctx) = dv_state ctx \<or> dv_state ctx = WAIT_FOR_INPUT \<and> dv_state (io_device_input ctx) = INIT_IO"
  by (simp_all add: io_device_input_def Let_def split: list.split event_button.split)

definition io_faulted :: "('r, 'w) mclib \<Rightarrow> ('r, 'w) mc \<Rightarrow> 'r io_device \<Rightarrow> 'r io_device" where
  "io_faulted L w ctx = (if lb_app_state L w = 0
     then ctx\<lparr>dv_state := MOTOR_FAULT, dv_status := io_device_status_set_error_fault (dv_status ctx)\<rparr> else ctx)"

lemma check_faults:
  assumes "io_ok ctx"
  shows "io_device_check_faults L (ctx, w) = Some (io_faulted L w ctx, w)" and "io_ok (io_faulted L w ctx)"
  using one_motor [OF assms] assms
  by (auto simp: io_device_check_faults_def each_controlled_one mcapi_get_motor_state_def io_faulted_def io_ok_def io_le
      io_device_status_set_error_fault_def split: if_splits)

lemma transition_ok: "io_ok ctx \<Longrightarrow> io_ok (io_device_transition ctx)"
  by (auto simp: io_device_transition_def io_ok_def io_le split: if_splits)

text \<open>When the device lets the controller drive its motor.\<close>

definition io_may_drive :: "('r, 'w) mclib \<Rightarrow> ('r, 'w) mc \<Rightarrow> 'r io_device \<Rightarrow> bool" where
  "io_may_drive L w ctx \<longleftrightarrow> dv_status ctx = 0 \<and> dv_action ctx = APPLY_IQ \<and> dv_offset_reached ctx \<and> lb_app_state L w \<noteq> 0"

abbreviation io_entered :: "('r, 'w) mclib \<Rightarrow> ('r, 'w) mc \<Rightarrow> 'r io_device \<Rightarrow> 'r io_device" where
  "io_entered L w ctx \<equiv> io_device_transition (io_faulted L w (io_device_input ctx))"

lemma entered_remote:
  assumes "io_ok ctx"
  shows "dv_state (io_entered L w ctx) = REMOTE_CONTROL \<longleftrightarrow> io_may_drive L w ctx"
proof -
  have 1: "io_ok (io_faulted L w (io_device_input ctx))" by (rule check_faults(2) [OF input_ok [OF assms]])
  show ?thesis
  proof (cases "lb_app_state L w = 0")
    case True
    then show ?thesis using 1 by (auto simp: io_may_drive_def io_device_transition_def io_faulted_def)
  next
    case False
    then have f: "io_faulted L w (io_device_input ctx) = io_device_input ctx" by (simp add: io_faulted_def)
    show ?thesis
      using 1 False input_keeps(6) [of ctx] assms unfolding f
      by (cases "dv_state ctx") (auto simp: io_may_drive_def io_device_transition_def input_keeps io_ok_def io_le)
  qed
qed

text \<open>A device that was driven and is let down coasts.\<close>

lemma entered_free:
  assumes "io_ok ctx" and "dv_state ctx \<in> {REMOTE_CONTROL, FREERUNNING}" and "lb_app_state L w \<noteq> 0"
    and "dv_state (io_entered L w ctx) \<noteq> REMOTE_CONTROL"
  shows "dv_state (io_entered L w ctx) = FREERUNNING"
  using assms input_keeps(6) [of ctx] by (auto simp: io_device_transition_def io_faulted_def split: if_splits)

lemma entered_fault:
  assumes "io_ok ctx" and "dv_state ctx = MOTOR_FAULT \<or> lb_app_state L w = 0"
  shows "dv_state (io_entered L w ctx) = MOTOR_FAULT"
proof -
  have "io_ok (io_faulted L w (io_device_input ctx))" by (rule check_faults(2) [OF input_ok [OF assms(1)]])
  moreover have "dv_state (io_faulted L w (io_device_input ctx)) = MOTOR_FAULT"
    using assms(2) input_keeps(6) [of ctx] by (auto simp: io_faulted_def)
  ultimately show ?thesis by (auto simp: io_device_transition_def io_ok_def)
qed

lemma entered_keeps:
  "dv_motors (io_entered L w ctx) = dv_motors ctx" "dv_num_motors (io_entered L w ctx) = dv_num_motors ctx"
  by (simp_all add: io_device_transition_def io_faulted_def input_keeps)

text \<open>What the state that a turn enters makes of the drive; \<open>w\<close> is the drive with its current loop set.\<close>

definition io_drives ::
  "'r cflt \<Rightarrow> ('r, 'w) mclib \<Rightarrow> 'r m1_config \<Rightarrow> sm_io_device_state \<Rightarrow> 'r motor_controlled \<Rightarrow> ('r, 'w) mc \<Rightarrow> ('r, 'w) mc" where
  "io_drives G L M st m w =
     (case st of
        REMOTE_CONTROL \<Rightarrow> lb_slow_loop L (mcapi_set_iq_req G M (mk_iq_req m) w)
      | FREERUNNING \<Rightarrow> mcapi_set_iq_req G M (f0 G) (mcapi_set_closed_current_loop False w)
      | STAY_INDEX \<Rightarrow> lb_slow_loop L (mcapi_set_position L (fl G (dsub G (dec G 0 0) (mk_offset m))) w)
      | INIT_IO \<Rightarrow> lb_slow_loop L w
      | _ \<Rightarrow> w)"

lemma run_state_cases:
  assumes "io_ok ctx" and "period \<noteq> 0"
  shows "case run_io_device_state G L M period (ctx, w) of None \<Rightarrow> False
    | Some (ctx', w') \<Rightarrow> w' = io_drives G L M (dv_state ctx) (io_motor ctx) w \<and> io_ok ctx' \<and> dv_status ctx' = dv_status ctx \<and>
        (dv_state ctx' = dv_state ctx \<or> dv_state ctx = INIT_IO \<and> dv_state ctx' = STAY_INDEX)"
  using one_motor [OF assms(1)] assms
  by (cases "dv_state ctx")
    (auto simp: run_io_device_state_def io_device_state_init_def io_device_stay_index_def io_device_state_freerunning_def
      io_device_state_remote_control_def each_controlled_one io_drives_def mcapi_slowloop_def io_ok_def io_le Let_def)

lemma run_state_ok:
  assumes "io_ok ctx" and "period \<noteq> 0"
  shows "\<exists>ctx'. run_io_device_state G L M period (ctx, w) = Some (ctx', io_drives G L M (dv_state ctx) (io_motor ctx) w) \<and>
    io_ok ctx' \<and> dv_status ctx' = dv_status ctx \<and>
    (dv_state ctx' = dv_state ctx \<or> dv_state ctx = INIT_IO \<and> dv_state ctx' = STAY_INDEX)"
  using run_state_cases [OF assms, of G L M w] by (auto split: option.splits)

text \<open>The message a device sends: its status and the feedback of its motor, from its own origin.\<close>

definition io_feedback :: "'r cflt \<Rightarrow> ('r, 'w) mclib \<Rightarrow> 'r io_device \<Rightarrow> ('r, 'w) mc \<Rightarrow> 'r msg_feedback" where
  "io_feedback G L ctx w =
     (let m = io_motor ctx; fb = mcapi_get_motor_feedback L w (unset_feedback G)
      in \<lparr>mf_status = dv_status ctx, mf_num_msg = 1,
          mf_array = [fb\<lparr>fb_pos := fadd G (fb_pos fb) (mk_offset m), fb_motor_id := mk_id m\<rparr>]\<rparr>)"

lemma io_device_send_exact:
  assumes "io_ok ctx"
  shows "io_device_send G L ready sent (c, ctx, w, out) =
    Some (snd (snd (cyclic_net_transmit c MSG_FEEDBACK FEEDBACK_SIZE ready sent)), ctx, w,
      case fst (snd (cyclic_net_transmit c MSG_FEEDBACK FEEDBACK_SIZE ready sent)) of None \<Rightarrow> out
      | Some r \<Rightarrow> (r, io_feedback G L ctx w) # out)"
proof -
  obtain m where m: "dv_num_motors ctx = 1" "dv_motors ctx = [m]" using one_motor [OF assms] by blast
  show ?thesis
    by (simp add: io_device_send_def each_controlled_one [OF m] io_feedback_def m Let_def split: prod.split option.split)
qed

lemma stats_dump_ok:
  assumes "io_ok ctx"
  shows "io_ok (io_device_stats_dump a ctx)" and "dv_state (io_device_stats_dump a ctx) = dv_state ctx"
    and "dv_status (io_device_stats_dump a ctx) = dv_status ctx"
  using assms by (auto simp: io_device_stats_dump_def Let_def io_ok_def)

lemma motor_dump_ok:
  assumes "io_ok ctx"
  shows "\<exists>ctx'. (if due then each_controlled (\<lambda>m w _. (io_motor_stats_dump G L w (a (mk_id m)) m, w, ()))
        (io_device_stats_dump b ctx) w () else Some (ctx, w, ())) = Some (ctx', w, ()) \<and>
    io_ok ctx' \<and> dv_state ctx' = dv_state ctx"
proof -
  let ?d = "io_device_stats_dump b ctx"
  obtain m where m: "dv_num_motors ?d = 1" "dv_motors ?d = [m]" using one_motor [OF stats_dump_ok(1) [OF assms]] by blast
  show ?thesis using assms stats_dump_ok [OF assms, of b] by (simp add: each_controlled_one [OF m] io_ok_def)
qed

lemma monitoring_send_ok:
  "\<exists>c' ctx'. (if due then Some (io_device_monitoring_send a (c, ctx)) else Some (c, ctx)) = Some (c', ctx') \<and>
    io_ok ctx' = io_ok ctx \<and> dv_state ctx' = dv_state ctx"
proof -
  have "case io_device_monitoring_send a (c, ctx) of (c', ctx') \<Rightarrow> io_ok ctx' = io_ok ctx \<and> dv_state ctx' = dv_state ctx"
    by (simp add: io_device_monitoring_send_def io_ok_def split: prod.split)
  then show ?thesis by (auto split: prod.splits)
qed

lemma set_network_ok: "io_ok ctx \<Longrightarrow> io_ok (ctx\<lparr>dv_status := io_device_status_set_error_network (dv_status ctx)\<rparr>)"
  by (auto simp: io_ok_def io_device_status_set_error_network_def split: if_splits)

lemma set_network_not0: "io_device_status_set_error_network st \<noteq> 0"
proof
  assume "io_device_status_set_error_network st = 0"
  then have "bit (io_device_status_set_error_network st) 1 = bit (0 :: u16) 1" by simp
  then show False by (simp add: io_device_status_set_error_network_def bit_simps)
qed

section \<open>The turn\<close>

lemma io_device_loop_ok:
  assumes "io_ok ctx" and "tp_task_period_ns (cy_params c) \<noteq> 0" and "tp_task_period_ns (cy_params c) \<le> 1000000"
  shows "\<exists>c' ctx' out'. io_device_loop G L M env timer_status (c, ctx, w, out) =
      Some (c', ctx', io_drives G L M (dv_state (io_entered L w ctx)) (io_motor ctx)
        (mcapi_set_closed_current_loop (\<not> timer_status < 0) w), out') \<and>
    io_ok ctx' \<and> dv_status ctx' \<noteq> 0 \<and>
    (dv_state ctx' = dv_state (io_entered L w ctx) \<or> dv_state (io_entered L w ctx) = INIT_IO \<and> dv_state ctx' = STAY_INDEX)"
proof -
  let ?p = "tp_task_period_ns (cy_params c)"
  let ?e = "io_entered L w ctx" and ?w = "mcapi_set_closed_current_loop (\<not> timer_status < 0) w"
  have in_ok: "io_ok (io_device_input ctx)" by (rule input_ok [OF assms(1)])
  have e_ok: "io_ok ?e" by (rule transition_ok [OF check_faults(2) [OF in_ok]])
  have m: "dv_num_motors ?e = 1" "dv_motors ?e = [io_motor ctx]" "io_motor ?e = io_motor ctx"
    using one_motor [OF assms(1)] by (simp_all add: entered_keeps)
  obtain ctx1 where run: "run_io_device_state G L M ?p (?e, ?w) = Some (ctx1, io_drives G L M (dv_state ?e) (io_motor ctx) ?w)"
    and 1: "io_ok ctx1" "dv_state ctx1 = dv_state ?e \<or> dv_state ?e = INIT_IO \<and> dv_state ctx1 = STAY_INDEX"
    using run_state_ok [OF e_ok assms(2), of G L M ?w] m(3) by auto
  let ?w' = "io_drives G L M (dv_state ?e) (io_motor ctx) ?w"
  obtain c1 out1 where send: "(if dv_state ctx1 \<ge> STAY_INDEX \<and> dv_offset_reached ctx1
      then io_device_send G L (ie_ready env) (ie_sent env) (c, ctx1, ?w', out) else Some (c, ctx1, ?w', out)) = Some (c1, ctx1, ?w', out1)"
    using io_device_send_exact [OF 1(1), of G L "ie_ready env" "ie_sent env" c ?w' out] by (cases "dv_state ctx1 \<ge> STAY_INDEX \<and> dv_offset_reached ctx1") auto
  let ?sched = "ts_sched (tk_stats (cy_task c))"
  obtain c2 ctx2 where mon: "(if ?sched mod (1000 * (NSECS_PER_MSEC div ?p)) = 0
      then Some (io_device_monitoring_send (ie_accepted_monitoring env) (c1, ctx1)) else Some (c1, ctx1)) = Some (c2, ctx2)"
    and 2: "io_ok ctx2" "dv_state ctx2 = dv_state ctx1"
    using monitoring_send_ok [of "?sched mod (1000 * (NSECS_PER_MSEC div ?p)) = 0" "ie_accepted_monitoring env" c1 ctx1] 1(1) by blast
  obtain ctx3 where dump: "(if ?sched mod (2 * (NSECS_PER_SEC div ?p)) = 0
      then each_controlled (\<lambda>m w _. (io_motor_stats_dump G L w (ie_accepted_motor env (mk_id m)) m, w, ()))
              (io_device_stats_dump (ie_accepted_stats env) ctx2) ?w' () else Some (ctx2, ?w', ())) = Some (ctx3, ?w', ())"
    and 3: "io_ok ctx3" "dv_state ctx3 = dv_state ctx2"
    using motor_dump_ok [OF 2(1), of "?sched mod (2 * (NSECS_PER_SEC div ?p)) = 0" G L "ie_accepted_motor env" "ie_accepted_stats env" ?w']
    by blast
  let ?ctx' = "ctx3\<lparr>dv_status := io_device_status_set_error_network (dv_status ctx3)\<rparr>"
  have loop_pi: "each_controlled (\<lambda>m w _. (m, mcapi_set_closed_current_loop (\<not> timer_status < 0) w, ())) ?e w () = Some (?e, ?w, ())"
    using m(2) by (simp add: each_controlled_one [OF m(1,2)])
  have loop: "io_device_loop G L M env timer_status (c, ctx, w, out) = Some (c2, ?ctx', ?w', out1)"
    using sched_divisors [OF assms(2,3)] assms(2)
    by (simp add: io_device_loop_def check_faults(1) [OF in_ok] loop_pi run send mon dump Let_def)
  then show ?thesis using 1(2) 2(2) 3(2) set_network_ok [OF 3(1)] set_network_not0 by auto
qed

section \<open>Reception\<close>

text \<open>
  The current that a frame commands of the device: the frame has the identifier and the length of a command, and exactly
  one of its entries is for the device's motor.
\<close>

definition for_motor :: "u32 \<Rightarrow> 'r motor_set_iq \<Rightarrow> bool" where
  "for_motor task_id entry \<longleftrightarrow> ucast (si_io_device_id entry) = task_id \<and> si_motor_id entry = 0"

definition is_command :: "tsn_common_hdr \<Rightarrow> bool" where
  "is_command hdr \<longleftrightarrow> ucast (hdr_msg_id hdr) = MSG_SET_IQ \<and> ucast (hdr_len hdr) = SET_IQ_SIZE"

definition entries_for :: "u32 \<Rightarrow> nat \<Rightarrow> 'r msg_set_iq \<Rightarrow> 'r motor_set_iq list" where
  "entries_for task_id n msg = filter (for_motor task_id) (take n (mq_array msg))"

definition iq_command :: "u32 \<Rightarrow> tsn_common_hdr \<times> 'r msg_set_iq \<Rightarrow> 'r option" where
  "iq_command task_id f =
     (if is_command (fst f) then
        (case entries_for task_id (unat (mq_num_msg (snd f))) (snd f) of [e] \<Rightarrow> Some (si_iq_req e) | _ \<Rightarrow> None)
      else None)"

text \<open>A command announces no more entries than its array has.\<close>

definition frame_fits :: "tsn_common_hdr \<times> 'r msg_set_iq \<Rightarrow> bool" where
  "frame_fits f \<longleftrightarrow> (is_command (fst f) \<longrightarrow> unat (mq_num_msg (snd f)) \<le> length (mq_array (snd f)))"

text \<open>The device after the first entries of a message.\<close>

definition io_taken :: "u32 \<Rightarrow> 'r msg_set_iq \<Rightarrow> 'r io_device \<Rightarrow> nat \<Rightarrow> 'r io_device \<times> u32 \<Rightarrow> bool" where
  "io_taken task_id msg ctx i s \<longleftrightarrow>
     s = (ctx\<lparr>dv_motors := [(io_motor ctx)\<lparr>mk_iq_req := last (mk_iq_req (io_motor ctx) # map si_iq_req (entries_for task_id i msg))\<rparr>]\<rparr>,
          of_nat (length (entries_for task_id i msg)))"

lemma take_iq_step:
  assumes "io_ok ctx" and "i < length (mq_array msg)" and "io_taken task_id msg ctx i s"
  shows "\<exists>s'. io_device_take_iq task_id (mq_array msg ! i) s = Some s' \<and> io_taken task_id msg ctx (Suc i) s'"
proof -
  have e: "entries_for task_id (Suc i) msg =
      entries_for task_id i msg @ (if for_motor task_id (mq_array msg ! i) then [mq_array msg ! i] else [])"
    using assms(2) by (simp add: entries_for_def take_Suc_conv_app_nth)
  have lt: "x < 1 \<longleftrightarrow> x = 0" for x :: u16 by (simp add: word_less_nat_alt unat_eq_zero)
  show ?thesis
    using assms(1,3) one_motor [OF assms(1)]
    by (auto simp: io_taken_def io_device_take_iq_def e for_motor_def lt Let_def)
qed

lemma io_device_receive_ok:
  assumes "io_ok ctx" and "frame_fits (hdr, msg)"
  shows "\<exists>ctx'. io_device_net_receive task_id hdr msg ctx = Some ctx' \<and> io_ok ctx' \<and> dv_state ctx' = dv_state ctx \<and>
    dv_offset_reached ctx' = dv_offset_reached ctx \<and>
    (dv_status ctx' = 0 \<longleftrightarrow> dv_state ctx \<noteq> MOTOR_FAULT \<and> iq_command task_id (hdr, msg) \<noteq> None) \<and>
    (iq_command task_id (hdr, msg) \<noteq> None \<longrightarrow>
       mk_iq_req (io_motor ctx') = the (iq_command task_id (hdr, msg)) \<and> dv_action ctx' = mq_action msg)"
proof (cases "is_command hdr")
  case False
  then show ?thesis
    using assms(1) by (auto simp: io_device_net_receive_def is_command_def iq_command_def io_ok_def
        io_device_status_set_error_network_def split: if_splits)
next
  case True
  let ?n = "unat (mq_num_msg msg)" and ?c = "ctx\<lparr>dv_action := mq_action msg\<rparr>"
  have n: "?n \<le> length (mq_array msg)" using assms(2) True by (simp add: frame_fits_def)
  have ok: "io_ok ?c" using assms(1) by (simp add: io_ok_def)
  have "\<exists>s'. for_upto_opt ?n (\<lambda>i s. if i < length (mq_array msg) then io_device_take_iq task_id (mq_array msg ! i) s else None) (?c, 0) = Some s' \<and>
      io_taken task_id msg ?c ?n s'"
  proof (rule for_upto_opt_invariant)
    show "io_taken task_id msg ?c 0 (?c, 0)" using one_motor [OF ok] by (simp add: io_taken_def entries_for_def)
    show "\<exists>s'. (if i < length (mq_array msg) then io_device_take_iq task_id (mq_array msg ! i) s else None) = Some s' \<and>
        io_taken task_id msg ?c (Suc i) s'" if "i < ?n" "io_taken task_id msg ?c i s" for i s
      using take_iq_step [OF ok _ that(2)] that(1) n by simp
  qed
  then obtain s' where loop: "for_upto_opt ?n (\<lambda>i s. if i < length (mq_array msg) then io_device_take_iq task_id (mq_array msg ! i) s else None) (?c, 0) = Some s'"
    and taken: "io_taken task_id msg ?c ?n s'" by blast
  let ?es = "entries_for task_id ?n msg"
  have "unat (mq_num_msg msg) < 2 ^ LENGTH(16)" by (rule unsigned_less)
  then have "length ?es < 2 ^ 16"
    using length_filter_le [of "for_motor task_id" "take ?n (mq_array msg)"]
    by (simp add: entries_for_def)
  then have one: "(of_nat (length ?es) :: u32) = 1 \<longleftrightarrow> length ?es = 1" by (simp add: word_unat_eq_iff unat_of_nat)
  have cmd: "iq_command task_id (hdr, msg) \<noteq> None \<longleftrightarrow> length ?es = 1"
    using True by (auto simp: iq_command_def length_Suc_conv split: list.split)
  show ?thesis
  proof (cases "length ?es = 1")
    case eq: True
    then obtain e where "?es = [e]" by (auto simp: length_Suc_conv)
    then show ?thesis
      using True loop taken assms(1) eq
      by (auto simp: io_device_net_receive_def is_command_def iq_command_def io_taken_def io_ok_def
          io_device_status_clear_error_network_def split: if_splits)
  next
    case neq: False
    then show ?thesis
      using True loop taken assms(1) one cmd
      by (auto simp: io_device_net_receive_def is_command_def io_taken_def io_ok_def
          io_device_status_set_error_network_def split: if_splits)
  qed
qed

text \<open>The frames of a period, one after the other.\<close>

primrec io_receive_all :: "u32 \<Rightarrow> (tsn_common_hdr \<times> 'r msg_set_iq) list \<Rightarrow> 'r io_device \<Rightarrow> 'r io_device option" where
  "io_receive_all task_id [] ctx = Some ctx"
| "io_receive_all task_id (f # fs) ctx = Option.bind (io_device_net_receive task_id (fst f) (snd f) ctx) (io_receive_all task_id fs)"

lemma io_receive_all_ok:
  assumes "io_ok ctx" and "\<forall>f \<in> set fs. frame_fits f"
  shows "\<exists>ctx'. io_receive_all task_id fs ctx = Some ctx' \<and> io_ok ctx' \<and> dv_state ctx' = dv_state ctx \<and>
    dv_offset_reached ctx' = dv_offset_reached ctx \<and> (fs = [] \<longrightarrow> ctx' = ctx) \<and>
    (fs \<noteq> [] \<longrightarrow> (dv_status ctx' = 0 \<longleftrightarrow> dv_state ctx \<noteq> MOTOR_FAULT \<and> iq_command task_id (last fs) \<noteq> None) \<and>
      (iq_command task_id (last fs) \<noteq> None \<longrightarrow>
         mk_iq_req (io_motor ctx') = the (iq_command task_id (last fs)) \<and> dv_action ctx' = mq_action (snd (last fs))))"
  using assms
proof (induction fs arbitrary: ctx)
  case (Cons f fs)
  obtain hdr msg where f: "f = (hdr, msg)" by (cases f)
  obtain ctx1 where 1: "io_device_net_receive task_id hdr msg ctx = Some ctx1" "io_ok ctx1" "dv_state ctx1 = dv_state ctx"
    "dv_offset_reached ctx1 = dv_offset_reached ctx"
    "dv_status ctx1 = 0 \<longleftrightarrow> dv_state ctx \<noteq> MOTOR_FAULT \<and> iq_command task_id (hdr, msg) \<noteq> None"
    "iq_command task_id (hdr, msg) \<noteq> None \<longrightarrow>
       mk_iq_req (io_motor ctx1) = the (iq_command task_id (hdr, msg)) \<and> dv_action ctx1 = mq_action msg"
    using io_device_receive_ok [OF Cons.prems(1), of hdr msg task_id] Cons.prems(2) f by auto
  have "\<forall>f \<in> set fs. frame_fits f" using Cons.prems(2) by simp
  note ih = Cons.IH [OF 1(2) this]
  show ?case
  proof (cases "fs = []")
    case True
    then show ?thesis using 1 f by simp
  next
    case False
    then show ?thesis using ih 1(1,3,4) f by auto
  qed
qed simp

section \<open>The watchdog\<close>

text \<open>
  What a device lives through: turns, each on the frames received since the last and with whatever the motor did in
  between, presses of the button, changes of the origin and the reports of the asynchronous task.
\<close>

inductive io_step :: "'r cflt \<Rightarrow> ('r, 'w) mclib \<Rightarrow> 'r m1_config \<Rightarrow> u32 \<Rightarrow> 'r io_device \<Rightarrow> 'r io_device \<Rightarrow> bool"
  for G L M task_id where
  io_turn: "io_step G L M task_id ctx ctx'"
    if "\<forall>f \<in> set fs. frame_fits f" and "io_receive_all task_id fs ctx = Some ctx1"
    and "tp_task_period_ns (cy_params c) \<noteq> 0" and "tp_task_period_ns (cy_params c) \<le> 1000000"
    and "io_device_loop G L M env timer_status (c, ctx1, w, out) = Some (c', ctx', w', out')"
| io_button: "io_step G L M task_id ctx (ctx\<lparr>dv_events := [BUTTON_PRESSED]\<rparr>)" if "dv_events ctx = []"
| io_offset: "io_step G L M task_id ctx ctx'" if "io_device_set_motor_offset ctx motor_id offset = Some ctx'"
| io_stats: "io_step G L M task_id ctx (io_device_stats_print ctx)"
| io_monitoring: "io_step G L M task_id ctx (io_device_monitoring_sent ctx)"
| io_motor_stats: "io_step G L M task_id ctx (ctx\<lparr>dv_motors := map io_motor_stats_print (dv_motors ctx)\<rparr>)"

text \<open>Once the index was reached the status is clean only from the reception of a command to the next turn.\<close>

definition io_ready :: "'r io_device \<Rightarrow> bool" where
  "io_ready ctx \<longleftrightarrow> io_ok ctx \<and> (dv_offset_reached ctx \<longrightarrow> dv_status ctx \<noteq> 0)"

lemma io_step_ready:
  assumes "io_step G L M task_id ctx ctx'" and "io_ready ctx"
  shows "io_ready ctx'"
  using assms(1)
proof cases
  case (io_turn fs ctx1 c env timer_status w out c' w' out')
  obtain ctx2 where "io_receive_all task_id fs ctx = Some ctx2" "io_ok ctx2"
    using io_receive_all_ok [of ctx fs task_id] io_turn(1) assms(2) by (auto simp: io_ready_def)
  then have "io_ok ctx1" using io_turn(2) by simp
  from io_device_loop_ok [OF this io_turn(3,4), of G L M env timer_status w out] show ?thesis
    using io_turn(5) by (auto simp: io_ready_def)
qed (use assms(2) in \<open>auto simp: io_ready_def io_ok_def io_device_set_motor_offset_def Let_def io_device_stats_print_def
      io_device_monitoring_sent_def split: if_splits\<close>)

lemma io_init_ready:
  assumes "length (dv_motors ctx) = 1"
    and "io_device_init G L alloc queue button monitoring task 1 (ctx, w) = Some (0, ctx', w')"
  shows "io_ready ctx'"
  using assms by (auto simp: io_device_init_def Let_def io_ready_def io_ok_def mcapi_init_def split: if_splits)

text \<open>A turn of a device, from the last.\<close>

lemma io_turn_ok:
  assumes "io_ready ctx" and "\<forall>f \<in> set fs. frame_fits f"
    and "tp_task_period_ns (cy_params c) \<noteq> 0" and "tp_task_period_ns (cy_params c) \<le> 1000000"
  shows "\<exists>ctx1 c' ctx' w' out'. io_receive_all task_id fs ctx = Some ctx1 \<and>
    io_device_loop G L M env timer_status (c, ctx1, w, out) = Some (c', ctx', w', out') \<and>
    (dv_state ctx' = REMOTE_CONTROL \<longleftrightarrow>
       dv_offset_reached ctx \<and> dv_state ctx \<noteq> MOTOR_FAULT \<and> lb_app_state L w \<noteq> 0 \<and>
       fs \<noteq> [] \<and> iq_command task_id (last fs) \<noteq> None \<and> mq_action (snd (last fs)) = APPLY_IQ) \<and>
    (dv_state ctx' = REMOTE_CONTROL \<longrightarrow>
       w' = lb_slow_loop L (mcapi_set_iq_req G M (the (iq_command task_id (last fs)))
              (mcapi_set_closed_current_loop (\<not> timer_status < 0) w))) \<and>
    (dv_state ctx \<in> {REMOTE_CONTROL, FREERUNNING} \<and> lb_app_state L w \<noteq> 0 \<and> dv_state ctx' \<noteq> REMOTE_CONTROL \<longrightarrow>
       dv_state ctx' = FREERUNNING \<and> pm_enable_pi (fst w') = False \<and> pm_iq_external (fst w') = iq_limited G M (f0 G)) \<and>
    (dv_state ctx = MOTOR_FAULT \<or> lb_app_state L w = 0 \<longrightarrow>
       dv_state ctx' = MOTOR_FAULT \<and> w' = mcapi_set_closed_current_loop (\<not> timer_status < 0) w)"
proof -
  have ok: "io_ok ctx" and st: "dv_offset_reached ctx \<longrightarrow> dv_status ctx \<noteq> 0" using assms(1) by (simp_all add: io_ready_def)
  obtain ctx1 where 1: "io_receive_all task_id fs ctx = Some ctx1" "io_ok ctx1" "dv_state ctx1 = dv_state ctx"
    "dv_offset_reached ctx1 = dv_offset_reached ctx" "fs = [] \<longrightarrow> ctx1 = ctx"
    "fs \<noteq> [] \<longrightarrow> (dv_status ctx1 = 0 \<longleftrightarrow> dv_state ctx \<noteq> MOTOR_FAULT \<and> iq_command task_id (last fs) \<noteq> None) \<and>
      (iq_command task_id (last fs) \<noteq> None \<longrightarrow>
         mk_iq_req (io_motor ctx1) = the (iq_command task_id (last fs)) \<and> dv_action ctx1 = mq_action (snd (last fs)))"
    using io_receive_all_ok [OF ok assms(2)] by blast
  let ?e = "io_entered L w ctx1" and ?w = "mcapi_set_closed_current_loop (\<not> timer_status < 0) w"
  obtain c' ctx' out' where 2: "io_device_loop G L M env timer_status (c, ctx1, w, out) =
      Some (c', ctx', io_drives G L M (dv_state ?e) (io_motor ctx1) ?w, out')"
    "dv_state ctx' = dv_state ?e \<or> dv_state ?e = INIT_IO \<and> dv_state ctx' = STAY_INDEX"
    using io_device_loop_ok [OF 1(2) assms(3,4)] by blast
  have remote: "dv_state ctx' = REMOTE_CONTROL \<longleftrightarrow> io_may_drive L w ctx1"
    using 2(2) entered_remote [OF 1(2), of L w] by auto
  have may: "io_may_drive L w ctx1 \<longleftrightarrow> dv_offset_reached ctx \<and> dv_state ctx \<noteq> MOTOR_FAULT \<and> lb_app_state L w \<noteq> 0 \<and>
       fs \<noteq> [] \<and> iq_command task_id (last fs) \<noteq> None \<and> mq_action (snd (last fs)) = APPLY_IQ"
    using 1(4,5,6) st by (cases "fs = []") (auto simp: io_may_drive_def)
  have drive: "io_drives G L M (dv_state ?e) (io_motor ctx1) ?w =
      lb_slow_loop L (mcapi_set_iq_req G M (the (iq_command task_id (last fs))) ?w)" if "dv_state ctx' = REMOTE_CONTROL"
    using that remote may 1(6) 2(2) by (auto simp: io_drives_def)
  have free: "dv_state ctx' = FREERUNNING \<and> pm_enable_pi (fst (io_drives G L M (dv_state ?e) (io_motor ctx1) ?w)) = False \<and>
      pm_iq_external (fst (io_drives G L M (dv_state ?e) (io_motor ctx1) ?w)) = iq_limited G M (f0 G)"
    if "dv_state ctx \<in> {REMOTE_CONTROL, FREERUNNING}" "lb_app_state L w \<noteq> 0" "dv_state ctx' \<noteq> REMOTE_CONTROL"
  proof -
    have "dv_state ?e = FREERUNNING"
      by (rule entered_free [OF 1(2)]) (use that 1(3) 2(2) in auto)
    then show ?thesis
      using 2(2) by (simp add: io_drives_def mcapi_set_iq_req_def mcapi_set_closed_current_loop_def map_prod_def split: prod.split)
  qed
  have fault: "dv_state ctx' = MOTOR_FAULT \<and> io_drives G L M (dv_state ?e) (io_motor ctx1) ?w = ?w"
    if "dv_state ctx = MOTOR_FAULT \<or> lb_app_state L w = 0"
  proof -
    have "dv_state ?e = MOTOR_FAULT" by (rule entered_fault [OF 1(2)]) (use that 1(3) in simp)
    then show ?thesis using 2(2) by (simp add: io_drives_def)
  qed
  show ?thesis
    by (intro exI conjI, rule 1(1), rule 2(1)) (use remote may drive free fault in blast)+
qed

text \<open>
  C3. Whatever a device has lived through since its initialisation, and whatever the frames received since its last turn,
  its next turn returns. It leaves the motor to the controller exactly when the motor has reached its index, no fault was
  ever seen, and the last frame is a command for exactly this motor with the action to apply it; the drive then gets the
  current of that very frame, limited. A motor that was driven, is not any more and is not in fault has its current loop opened and
  its current set to zero, in the same turn. Once a fault was seen the device is and stays in its fault state, where a turn only sets the
  current loop, closed unless the timer failed, and leaves current, position and state machine of the motor to themselves.
\<close>

theorem io_device_watchdog:
  assumes "length (dv_motors ctx00) = 1"
    and "io_device_init G L alloc queue button monitoring task 1 (ctx00, w00) = Some (0, ctx0, w0)"
    and "(io_step G L M task_id)\<^sup>*\<^sup>* ctx0 ctx" and "\<forall>f \<in> set fs. frame_fits f"
    and "tp_task_period_ns (cy_params c) \<noteq> 0" and "tp_task_period_ns (cy_params c) \<le> 1000000"
  shows "\<exists>ctx1 c' ctx' w' out'. io_receive_all task_id fs ctx = Some ctx1 \<and>
    io_device_loop G L M env timer_status (c, ctx1, w, out) = Some (c', ctx', w', out') \<and>
    (dv_state ctx' = REMOTE_CONTROL \<longleftrightarrow>
       dv_offset_reached ctx \<and> dv_state ctx \<noteq> MOTOR_FAULT \<and> lb_app_state L w \<noteq> 0 \<and>
       fs \<noteq> [] \<and> iq_command task_id (last fs) \<noteq> None \<and> mq_action (snd (last fs)) = APPLY_IQ) \<and>
    (dv_state ctx' = REMOTE_CONTROL \<longrightarrow>
       w' = lb_slow_loop L (mcapi_set_iq_req G M (the (iq_command task_id (last fs)))
              (mcapi_set_closed_current_loop (\<not> timer_status < 0) w))) \<and>
    (dv_state ctx \<in> {REMOTE_CONTROL, FREERUNNING} \<and> lb_app_state L w \<noteq> 0 \<and> dv_state ctx' \<noteq> REMOTE_CONTROL \<longrightarrow>
       dv_state ctx' = FREERUNNING \<and> pm_enable_pi (fst w') = False \<and> pm_iq_external (fst w') = iq_limited G M (f0 G)) \<and>
    (dv_state ctx = MOTOR_FAULT \<or> lb_app_state L w = 0 \<longrightarrow>
       dv_state ctx' = MOTOR_FAULT \<and> w' = mcapi_set_closed_current_loop (\<not> timer_status < 0) w)"
proof -
  have "io_ready ctx"
    using assms(3) by (induction rule: rtranclp_induct) (auto intro: io_step_ready io_init_ready [OF assms(1,2)])
  then show ?thesis by (rule io_turn_ok) (rule assms(4-6))+
qed

text \<open>A drive that is ready at once and always at its index, and a device in its first turns.\<close>

definition demo_lib :: "(int, nat) mclib" where
  "demo_lib = \<lparr>lb_init = id, lb_slow_loop = map_prod id Suc, lb_app_state = (\<lambda>_. 3), lb_switch = (\<lambda>_. id), lb_set_speed = (\<lambda>_. id),
     lb_set_position = (\<lambda>_. id), lb_conv = word_of_int, lb_speed = (\<lambda>_. 0), lb_position = (\<lambda>_. 0), lb_last_index = (\<lambda>_. 0),
     lb_rev_jumps = (\<lambda>_. 0), MCAT_ENC_CTRL = 1, kControlMode_SpeedFOC = 2, kControlMode_PositionFOC = 3\<rparr>"

definition demo_drive :: "(int, nat) mc" where
  "demo_drive = (\<lparr>pm_pospe_sensor = 0, pm_control = 0, pm_networking = False, pm_iq_external = 0, pm_enable_pi = False,
     pm_init_over = True, pm_uq = 0, pm_dc_bus = 0, pm_iq = 0, pm_id = 0, pm_cur_a = 0, pm_cur_b = 0, pm_cur_c = 0,
     pm_slow_loop_missed = 0, pm_fast_loop_exec = 0\<rparr>, 0)"

definition demo_motor_stats :: "int stats_motor" where
  "demo_motor_stats = \<lparr>st_pending = False, st_state = 0, st_iq_req = 0, st_pos_real = 0, st_speed_real = 0, st_last_index = 0,
     st_missed_slow_loop = 0, st_counter_rev_jumps = 0, st_fast_loop_executed = 0\<rparr>"

definition demo_zeroed_device :: "int io_device" where
  "demo_zeroed_device = \<lparr>dv_num_motors = 0,
     dv_motors = [\<lparr>mk_id = 0, mk_iq_req = 0, mk_offset = 0, mk_stats = demo_motor_stats, mk_stats_snap = demo_motor_stats\<rparr>],
     dv_state = WAIT_FOR_INPUT, dv_status = 0,
     dv_stats = \<lparr>si_pending = False, si_state = WAIT_FOR_INPUT, si_err_msg_id = 0, si_err_cmd_recv = 0, si_err_invalid_len = 0\<rparr>,
     dv_stats_snap = \<lparr>si_pending = False, si_state = WAIT_FOR_INPUT, si_err_msg_id = 0, si_err_cmd_recv = 0, si_err_invalid_len = 0\<rparr>,
     dv_events = [], dv_stay_index_delay = 0, dv_offset_reached = False, dv_action = 0,
     dv_msg = \<lparr>mm_id = 0, mm_type = 0, mm_state = 0, mm_cyclic = \<lparr>mon_sched_err_max = 0, mon_latency_max = (\<lambda>_. 0), mon_latency_min = (\<lambda>_. 0)\<rparr>, mm_motors = []\<rparr>,
     dv_msg_pending = False\<rparr>"

definition demo_device :: "int io_device" where
  "demo_device = demo_zeroed_device\<lparr>dv_num_motors := 1\<rparr>"

lemma demo_device_init:
  "\<exists>w. io_device_init int_flt demo_lib (\<lambda>_. True) True True True True 1 (demo_zeroed_device, demo_drive) = Some (0, demo_device, w)"
  by (simp add: io_device_init_def mcapi_init_def demo_zeroed_device_def demo_device_def demo_lib_def Let_def split: prod.split)

definition demo_command :: "tsn_common_hdr \<times> int msg_set_iq" where
  "demo_command = (\<lparr>hdr_msg_id = 0, hdr_len = 20, hdr_src_id = 0, hdr_sched_time = 0\<rparr>,
     \<lparr>mq_action = 1, mq_num_msg = 2, mq_array = [\<lparr>si_io_device_id = 1, si_motor_id = 0, si_iq_req = 5\<rparr>, \<lparr>si_io_device_id = 2, si_motor_id = 0, si_iq_req = 7\<rparr>]\<rparr>)"

definition demo_io_env :: io_env where
  "demo_io_env = \<lparr>ie_ready = 1, ie_sent = 1, ie_accepted_monitoring = True, ie_accepted_stats = True, ie_accepted_motor = (\<lambda>_. True)\<rparr>"

theorem io_device_watchdog_witness:
  "\<exists>ctx1 c' ctx' w' out'. io_receive_all 1 [demo_command] (demo_device\<lparr>dv_events := [BUTTON_PRESSED]\<rparr>) = Some ctx1 \<and>
     iq_command 1 demo_command = Some 5 \<and>
     io_device_loop int_flt demo_lib demo_m1 demo_io_env 0 (demo_cyclic, ctx1, demo_drive, []) = Some (c', ctx', w', out') \<and>
     dv_state ctx' \<noteq> REMOTE_CONTROL"
proof -
  obtain w where init: "io_device_init int_flt demo_lib (\<lambda>_. True) True True True True 1 (demo_zeroed_device, demo_drive) = Some (0, demo_device, w)"
    using demo_device_init by blast
  have len: "length (dv_motors demo_zeroed_device) = 1" by (simp add: demo_zeroed_device_def)
  have step: "(io_step int_flt demo_lib demo_m1 1)\<^sup>*\<^sup>* demo_device (demo_device\<lparr>dv_events := [BUTTON_PRESSED]\<rparr>)"
    by (rule r_into_rtranclp, rule io_button) (simp add: demo_device_def demo_zeroed_device_def)
  have fits: "\<forall>f \<in> set [demo_command]. frame_fits f" by (simp add: demo_command_def frame_fits_def is_command_def)
  have p: "tp_task_period_ns (cy_params demo_cyclic) = 1000000" by (simp add: demo_cyclic_def demo_task_def)
  have p0: "tp_task_period_ns (cy_params demo_cyclic) \<noteq> 0" "tp_task_period_ns (cy_params demo_cyclic) \<le> 1000000"
    unfolding p by simp_all
  have off: "\<not> dv_offset_reached (demo_device\<lparr>dv_events := [BUTTON_PRESSED]\<rparr>)" by (simp add: demo_device_def demo_zeroed_device_def)
  have cmd: "iq_command 1 demo_command = Some 5"
    by (simp add: iq_command_def demo_command_def is_command_def entries_for_def for_motor_def)
  show ?thesis
    using io_device_watchdog [OF len init step fits p0, of demo_io_env 0 demo_drive "[]"] off cmd by blast
qed

end
