(* ===== verification/Motor_Controller_Safety.thy ===== *)
theory Motor_Controller_Safety
  imports Motor_Controller Motor_Io_Safety
begin

text \<open>
  The controller over a whole run: it never traps, it only sends currents when every device reported in the same period,
  and its message is a command for each of its devices.
\<close>

section \<open>The invariant\<close>

text \<open>One motor for each device, registered with the strategy.\<close>

definition device_wired :: "'r control_strategy \<Rightarrow> controlled_io_device \<Rightarrow> bool" where
  "device_wired st dev \<longleftrightarrow> ci_num_motors dev = 1 \<and> (\<exists>a. ci_motors dev = [Some a] \<and> a \<in> set (motor_addrs st))"

definition controller_ok :: "'r controller \<Rightarrow> bool" where
  "controller_ok ctx \<longleftrightarrow> length (ct_io_devices ctx) = 2 \<and> unat (ct_num_io_device ctx) \<le> 2 \<and>
     (\<forall>i < unat (ct_num_io_device ctx). device_wired (ct_strategy ctx) (ct_io_devices ctx ! i)) \<and>
     control_ok (ct_strategy ctx) \<and> ct_cmd_client ctx \<noteq> Freed_client"

text \<open>What a run never changes: the devices and their motors.\<close>

definition same_wiring :: "'r controller \<Rightarrow> 'r controller \<Rightarrow> bool" where
  "same_wiring ctx ctx' \<longleftrightarrow> ct_num_io_device ctx' = ct_num_io_device ctx \<and>
     map (\<lambda>d. (ci_id d, ci_num_motors d, ci_motors d)) (ct_io_devices ctx') =
     map (\<lambda>d. (ci_id d, ci_num_motors d, ci_motors d)) (ct_io_devices ctx) \<and>
     motor_addrs (ct_strategy ctx') = motor_addrs (ct_strategy ctx)"

lemma same_wiring_refl [simp]: "same_wiring ctx ctx"
  by (simp add: same_wiring_def)

lemma same_wiring_trans [trans]: "same_wiring a b \<Longrightarrow> same_wiring b c \<Longrightarrow> same_wiring a c"
  by (simp add: same_wiring_def)

lemma same_wiring_length: "same_wiring ctx ctx' \<Longrightarrow> length (ct_io_devices ctx') = length (ct_io_devices ctx)"
  by (drule map_eq_imp_length_eq [OF conjunct1 [OF conjunct2 [OF same_wiring_def [THEN iffD1]]]])

lemma same_wiring_nth:
  assumes "same_wiring ctx ctx'" and "i < length (ct_io_devices ctx)"
  shows "ci_id (ct_io_devices ctx' ! i) = ci_id (ct_io_devices ctx ! i)"
    and "ci_num_motors (ct_io_devices ctx' ! i) = ci_num_motors (ct_io_devices ctx ! i)"
    and "ci_motors (ct_io_devices ctx' ! i) = ci_motors (ct_io_devices ctx ! i)"
proof -
  have "map (\<lambda>d. (ci_id d, ci_num_motors d, ci_motors d)) (ct_io_devices ctx') ! i =
      map (\<lambda>d. (ci_id d, ci_num_motors d, ci_motors d)) (ct_io_devices ctx) ! i"
    using assms(1) by (simp add: same_wiring_def)
  then show "ci_id (ct_io_devices ctx' ! i) = ci_id (ct_io_devices ctx ! i)"
    and "ci_num_motors (ct_io_devices ctx' ! i) = ci_num_motors (ct_io_devices ctx ! i)"
    and "ci_motors (ct_io_devices ctx' ! i) = ci_motors (ct_io_devices ctx ! i)"
    using assms same_wiring_length [OF assms(1)] by simp_all
qed

lemma wired_ok:
  assumes "controller_ok ctx" and "same_wiring ctx ctx'" and "control_ok (ct_strategy ctx')" and "ct_cmd_client ctx' \<noteq> Freed_client"
  shows "controller_ok ctx'"
  using assms same_wiring_length [OF assms(2)] same_wiring_nth [OF assms(2)]
  by (auto simp: controller_ok_def device_wired_def same_wiring_def)

section \<open>The strategy between two turns\<close>

text \<open>All currents are zero: so they are after \<open>control_strategy_reset_iq\<close>, until the state machine runs.\<close>

definition all_idle :: "'r cflt \<Rightarrow> 'r control_strategy \<Rightarrow> bool" where
  "all_idle G st \<longleftrightarrow> (\<forall>(a, m) \<in> set (cs_motors st). mo_iq_req m = f0 G)"

lemma reset_iq_idle: "all_idle G (control_strategy_reset_iq G st)"
  by (auto simp: all_idle_def control_strategy_reset_iq_def map_motors_def)

lemma strategy_commands_motors:
  "cs_motors (control_strategy_reset_strategy st) = cs_motors st"
  "cs_motors (control_strategy_previous_strategy st) = cs_motors st"
  "cs_motors (control_strategy_set_strategy st s) = cs_motors st"
  "control_strategy_next_strategy st = Some st' \<Longrightarrow> cs_motors st' = cs_motors st"
  by (auto simp: control_strategy_reset_strategy_def control_strategy_previous_strategy_def control_strategy_set_strategy_def
      control_strategy_next_strategy_def control_strategy_set_state_def split: if_splits)

lemma next_strategy_some: "control_ok st \<Longrightarrow> \<exists>st'. control_strategy_next_strategy st = Some st'"
  by (simp add: control_strategy_next_strategy_def control_ok_def)

text \<open>A call of the strategy's interface keeps it fit, with its motors.\<close>

lemma strategy_call:
  assumes "control_step G st st'" and "control_ok st"
  shows "control_ok st'" and "motor_addrs st' = motor_addrs st"
  using control_step_ok [OF assms] by simp_all

lemma with_strategy:
  assumes "controller_ok ctx" and "control_step G (ct_strategy ctx) st"
  shows "controller_ok (ctx\<lparr>ct_strategy := st\<rparr>)" and "same_wiring ctx (ctx\<lparr>ct_strategy := st\<rparr>)"
proof -
  have c: "control_ok (ct_strategy ctx)" using assms(1) by (simp add: controller_ok_def)
  note s = strategy_call [OF assms(2) c]
  show w: "same_wiring ctx (ctx\<lparr>ct_strategy := st\<rparr>)" using s(2) by (simp add: same_wiring_def)
  show "controller_ok (ctx\<lparr>ct_strategy := st\<rparr>)"
    by (rule wired_ok [OF assms(1) w]) (use s(1) assms(1) in \<open>simp_all add: controller_ok_def\<close>)
qed

section \<open>Loops over the devices\<close>

text \<open>Every device of the first \<open>n\<close> reported since the last turn.\<close>

definition all_reported :: "'r controller \<Rightarrow> bool" where
  "all_reported ctx \<longleftrightarrow> (\<forall>i < unat (ct_num_io_device ctx). ci_connected (ct_io_devices ctx ! i))"

text \<open>There are none, one or two of them.\<close>

lemma device_count:
  assumes "controller_ok ctx"
  obtains "unat (ct_num_io_device ctx) = 0" "ct_num_io_device ctx = 0"
    | "unat (ct_num_io_device ctx) = Suc 0" "ct_num_io_device ctx = 1"
    | "unat (ct_num_io_device ctx) = Suc (Suc 0)" "ct_num_io_device ctx = 2"
proof -
  have "unat (ct_num_io_device ctx) = 0 \<or> unat (ct_num_io_device ctx) = 1 \<or> unat (ct_num_io_device ctx) = 2"
    using assms by (auto simp: controller_ok_def)
  then show ?thesis using that by (auto simp: word_unat_eq_iff)
qed

lemma loops_of_two:
  "for_upto_opt 2 f s = Option.bind (f 0 s) (f 1)" "for_upto_opt 1 f s = f 0 s"
  "(\<forall>i < (2 :: nat). P i) \<longleftrightarrow> P 0 \<and> P 1" "(\<forall>i < (1 :: nat). P i) \<longleftrightarrow> P 0"
  by (auto simp: numeral_2_eq_2 less_Suc_eq split: option.split)

lemma check_all_exact:
  assumes "controller_ok ctx"
  shows "check_all_io_devices_connected ctx = Some (all_reported ctx)"
  using assms
  by (cases rule: device_count [OF assms])
    (auto simp: check_all_io_devices_connected_def all_reported_def controller_ok_def loops_of_two)

section \<open>The states\<close>

text \<open>A step that leaves the motors, the devices and the state as they are.\<close>

definition unmoved :: "'r controller \<Rightarrow> 'r controller \<Rightarrow> bool" where
  "unmoved ctx ctx' \<longleftrightarrow> same_wiring ctx ctx' \<and> ct_io_devices ctx' = ct_io_devices ctx \<and> ct_state ctx' = ct_state ctx \<and>
     cs_motors (ct_strategy ctx') = cs_motors (ct_strategy ctx)"

lemma unmoved_reported: "unmoved ctx ctx' \<Longrightarrow> all_reported ctx' = all_reported ctx"
  by (simp add: unmoved_def all_reported_def same_wiring_def)

lemma controller_ok_fields [simp]:
  "controller_ok (ctx\<lparr>ct_events := es\<rparr>) = controller_ok ctx" "controller_ok (ctx\<lparr>ct_state := st\<rparr>) = controller_ok ctx"
  "controller_ok (ctx\<lparr>ct_stats := cs\<rparr>) = controller_ok ctx" "controller_ok (ctx\<lparr>ct_stats_snap := cs\<rparr>) = controller_ok ctx"
  "controller_ok (ctx\<lparr>ct_restart_delay := d\<rparr>) = controller_ok ctx" "controller_ok (ctx\<lparr>ct_stopped := b\<rparr>) = controller_ok ctx"
  "controller_ok (ctx\<lparr>ct_control_error := b\<rparr>) = controller_ok ctx" "controller_ok (ctx\<lparr>ct_msg := msg\<rparr>) = controller_ok ctx"
  "controller_ok (ctx\<lparr>ct_msg_pending := b\<rparr>) = controller_ok ctx"
  by (simp_all add: controller_ok_def)

lemma set_state_controller [simp]: "controller_set_state ctx st = ctx\<lparr>ct_state := st\<rparr>"
  by (simp add: controller_set_state_def)

lemma controller_press_ok:
  assumes "controller_ok ctx"
  shows "\<exists>ctx'. controller_press ctx = Some ctx' \<and> controller_ok ctx' \<and> unmoved ctx ctx'"
proof -
  let ?c = "ctx\<lparr>ct_events := []\<rparr>"
  have ok: "controller_ok ?c" using assms by simp
  obtain st where st: "control_strategy_next_strategy (ct_strategy ?c) = Some st"
    using next_strategy_some assms unfolding controller_ok_def by fastforce
  have step: "control_step undefined (ct_strategy ?c) st" by (rule control_step.next_strategy [OF st])
  show ?thesis
    using with_strategy [OF ok step] strategy_commands_motors(4) [OF st] st ok
    by (auto simp: controller_press_def button_press_event_check_def unmoved_def same_wiring_def)
qed

lemma controller_command_ok:
  assumes "controller_ok ctx"
  shows "\<exists>ctx'. controller_command ctx = Some ctx' \<and> controller_ok ctx' \<and> unmoved ctx ctx'"
proof (cases "ct_cmd_client ctx")
  case Null_client
  then show ?thesis using assms by (simp add: controller_command_def unmoved_def)
next
  case Freed_client
  then show ?thesis using assms by (simp add: controller_ok_def)
next
  case (Client state)
  have stop: "control_step undefined (ct_strategy ctx) (control_strategy_set_strategy (ct_strategy ctx) CTRL_STRAT_STOP)"
    by (rule control_step.set_strategy) simp
  have go: "control_step undefined (ct_strategy ctx) (control_strategy_previous_strategy (ct_strategy ctx))"
    by (rule control_step.previous_strategy)
  have ok: "controller_ok (ctx\<lparr>ct_stopped := b, ct_strategy := control_strategy_set_strategy (ct_strategy ctx) CTRL_STRAT_STOP\<rparr>)"
    "controller_ok (ctx\<lparr>ct_stopped := b, ct_strategy := control_strategy_previous_strategy (ct_strategy ctx)\<rparr>)" for b
    using with_strategy(1) [OF assms stop] with_strategy(1) [OF assms go] by (simp_all add: controller_ok_def)
  show ?thesis
    using Client ok with_strategy(2) [OF assms stop] with_strategy(2) [OF assms go] assms
    by (simp add: controller_command_def command_client_get_state_def unmoved_def same_wiring_def strategy_commands_motors)
qed

lemma reset_ok_controller:
  assumes "controller_ok ctx"
  shows "controller_ok (ctx\<lparr>ct_strategy := control_strategy_reset_strategy (ct_strategy ctx), ct_state := st\<rparr>)"
    and "same_wiring ctx (ctx\<lparr>ct_strategy := control_strategy_reset_strategy (ct_strategy ctx), ct_state := st\<rparr>)"
  using with_strategy [OF assms control_step.reset_strategy] by (simp_all add: same_wiring_def)

text \<open>What a state makes of the controller.\<close>

definition state_result :: "'r controller \<Rightarrow> 'r controller \<Rightarrow> bool" where
  "state_result ctx ctx' \<longleftrightarrow> controller_ok ctx' \<and> same_wiring ctx ctx' \<and> ct_io_devices ctx' = ct_io_devices ctx \<and>
     (\<not> (ct_state ctx = CONTROL_SM \<and> all_reported ctx) \<longrightarrow> cs_motors (ct_strategy ctx') = cs_motors (ct_strategy ctx)) \<and>
     (ct_state ctx \<noteq> STANDBY \<and> \<not> all_reported ctx \<longrightarrow> ct_state ctx' = IO_DEVICE_MISSING)"

lemma state_control_ok:
  assumes "controller_ok ctx" and "ct_state ctx = CONTROL_SM" and "period \<noteq> 0"
  shows "\<exists>ctx'. controller_state_control G period accepted ctx = Some ctx' \<and> state_result ctx ctx'"
proof -
  obtain c1 where 1: "controller_press ctx = Some c1" "controller_ok c1" "unmoved ctx c1"
    using controller_press_ok [OF assms(1)] by blast
  note check = check_all_exact [OF 1(2), unfolded unmoved_reported [OF 1(3)]]
  show ?thesis
  proof (cases "all_reported ctx")
    case False
    then show ?thesis
      using 1 check assms by (simp add: controller_state_control_def state_result_def unmoved_def same_wiring_def)
  next
    case True
    obtain c2 where 2: "controller_command c1 = Some c2" "controller_ok c2" "unmoved c1 c2"
      using controller_command_ok [OF 1(2)] by blast
    have "control_ok (ct_strategy c2)" using 2(2) by (simp add: controller_ok_def)
    then obtain st cb where m: "control_strategy_state_machine G accepted (ct_strategy c2) = Some (st, cb)"
      using control_machine [of "ct_strategy c2" G accepted] by (auto simp: returns_def)
    note w = with_strategy [OF 2(2) control_step.machine [OF m]]
    have "same_wiring ctx (c2\<lparr>ct_strategy := st\<rparr>)"
      using w(2) 1(3) 2(3) by (auto simp: unmoved_def elim: same_wiring_trans)
    moreover have "ct_io_devices c2 = ct_io_devices ctx" using 1(3) 2(3) by (simp add: unmoved_def)
    ultimately have res: "state_result ctx (c2\<lparr>ct_strategy := st\<rparr>)"
      using w(1) assms(2) True by (simp add: state_result_def)
    have "state_result ctx (c2\<lparr>ct_strategy := st, ct_control_error := e\<rparr>)"
      "state_result ctx (c2\<lparr>ct_strategy := st, ct_stats := s, ct_control_error := e, ct_state := t\<rparr>)" for e s t
      using res True by (simp_all add: state_result_def same_wiring_def)
    then show ?thesis using 1(1) 2(1) check True m by (simp add: controller_state_control_def Let_def)
  qed
qed

lemma state_missing_ok:
  assumes "controller_ok ctx" and "ct_state ctx = IO_DEVICE_MISSING" and "period \<noteq> 0"
  shows "\<exists>ctx'. controller_state_io_device_missing period ctx = Some ctx' \<and> state_result ctx ctx'"
proof -
  obtain c1 where 1: "controller_press ctx = Some c1" "controller_ok c1" "unmoved ctx c1"
    using controller_press_ok [OF assms(1)] by blast
  note check = check_all_exact [OF 1(2), unfolded unmoved_reported [OF 1(3)]]
  have d: "controller_ok (c1\<lparr>ct_restart_delay := d\<rparr>)" for d using 1(2) by simp
  show ?thesis
    using 1 check assms reset_ok_controller [OF d, where st = CONTROL_SM]
    by (cases "all_reported ctx")
      (auto simp: controller_state_io_device_missing_def state_result_def unmoved_def Let_def strategy_commands_motors same_wiring_def)
qed

lemma state_standby_ok:
  assumes "controller_ok ctx" and "ct_state ctx = STANDBY"
  shows "state_result ctx (controller_state_standby ctx)"
proof -
  have e: "controller_ok (ctx\<lparr>ct_events := []\<rparr>)" using assms(1) by simp
  show ?thesis
    using assms reset_ok_controller [OF e, where st = CONTROL_SM]
    by (auto simp: controller_state_standby_def button_press_event_check_def state_result_def Let_def strategy_commands_motors same_wiring_def)
qed

lemma controller_run_state_ok:
  assumes "controller_ok ctx" and "period \<noteq> 0"
  shows "\<exists>ctx'. run_controller_state G period accepted ctx = Some ctx' \<and> state_result ctx ctx'"
proof -
  have u: "state_result ctx (upd_ct_stats f c) = state_result ctx c" for f c
    by (simp add: state_result_def upd_ct_stats_def same_wiring_def)
  show ?thesis
  proof (cases "ct_state ctx")
    case CONTROL_SM
    then show ?thesis using state_control_ok [OF assms(1) CONTROL_SM assms(2), of G accepted] u by (auto simp: run_controller_state_def)
  next
    case IO_DEVICE_MISSING
    then show ?thesis using state_missing_ok [OF assms(1) IO_DEVICE_MISSING assms(2)] u by (auto simp: run_controller_state_def)
  next
    case STANDBY
    then show ?thesis using state_standby_ok [OF assms(1) STANDBY] u by (auto simp: run_controller_state_def)
  qed
qed

section \<open>The message\<close>

lemma wired_motor:
  assumes "device_wired st dev"
  obtains a m where "ci_motors dev = [Some a]" and "motor_at (Some a) st = Some m" and "(a, m) \<in> set (cs_motors st)"
    and "ci_num_motors dev = 1"
proof -
  obtain a where a: "ci_motors dev = [Some a]" "a \<in> fst ` set (cs_motors st)" "ci_num_motors dev = 1"
    using assms by (auto simp: device_wired_def motor_addrs_def)
  then obtain m where m: "map_of (cs_motors st) a = Some m" by (metis map_of_eq_None_iff not_Some_eq)
  show ?thesis by (rule that [OF a(1) _ map_of_SomeD [OF m] a(3)]) (simp add: motor_at_def m)
qed

text \<open>The current the strategy has for the motor of device \<open>i\<close>.\<close>

definition device_iq :: "'r controller \<Rightarrow> nat \<Rightarrow> 'r" where
  "device_iq ctx i = mo_iq_req (the (motor_at (hd (ci_motors (ct_io_devices ctx ! i))) (ct_strategy ctx)))"

definition device_entry :: "'r controller \<Rightarrow> nat \<Rightarrow> 'r motor_set_iq" where
  "device_entry ctx i = \<lparr>si_io_device_id = ucast (ci_id (ct_io_devices ctx ! i)), si_motor_id = 0, si_iq_req = device_iq ctx i\<rparr>"

text \<open>The message with what the stack held in the entries of absent devices.\<close>

definition message_of :: "'r cflt \<Rightarrow> 'r controller \<Rightarrow> 'r msg_set_iq" where
  "message_of G ctx =
     \<lparr>mq_action = (if ct_state ctx = IO_DEVICE_MISSING then HOLD else APPLY_IQ), mq_num_msg = ct_num_io_device ctx,
      mq_array = map (\<lambda>i. if i < unat (ct_num_io_device ctx) then device_entry ctx i else unset_set_iq G) [0..<2]\<rparr>"

lemma message_entry:
  assumes "device_wired (ct_strategy ctx) (ct_io_devices ctx ! i)" and "i < length array"
  shows "for_upto_opt (unat (ci_num_motors (ct_io_devices ctx ! i)))
      (\<lambda>j array. if j < length (ci_motors (ct_io_devices ctx ! i)) \<and> i < length array then do {
          m \<leftarrow> motor_at (ci_motors (ct_io_devices ctx ! i) ! j) (ct_strategy ctx);
          Some (array[i := \<lparr>si_io_device_id = ucast (ci_id (ct_io_devices ctx ! i)), si_motor_id = of_nat j, si_iq_req = mo_iq_req m\<rparr>])
        } else None) array = Some (array[i := device_entry ctx i])"
proof -
  obtain a m where "ci_motors (ct_io_devices ctx ! i) = [Some a]" "motor_at (Some a) (ct_strategy ctx) = Some m"
    "ci_num_motors (ct_io_devices ctx ! i) = 1"
    using wired_motor [OF assms(1)] by metis
  then show ?thesis using assms(2) by (simp add: device_entry_def device_iq_def)
qed

lemma controller_message_exact:
  assumes "controller_ok ctx"
  shows "controller_message G ctx = Some (message_of G ctx)"
proof -
  have wired: "device_wired (ct_strategy ctx) (ct_io_devices ctx ! i)" if "i < unat (ct_num_io_device ctx)" for i
    using assms that by (simp add: controller_ok_def)
  have len: "length (ct_io_devices ctx) = 2" using assms by (simp add: controller_ok_def)
  have two: "[0..<2] = [0, 1 :: nat]" by (simp add: upt_rec)
  show ?thesis
  proof (cases rule: device_count [OF assms])
    case 1
    then show ?thesis by (simp add: controller_message_def message_of_def two numeral_2_eq_2)
  next
    case 2
    then show ?thesis using message_entry [OF wired [of 0]] len
      by (simp add: controller_message_def message_of_def two Let_def numeral_2_eq_2)
  next
    case 3
    then show ?thesis using message_entry [OF wired [of 0]] message_entry [OF wired [of "Suc 0"]] len
      by (simp add: controller_message_def message_of_def two Let_def numeral_2_eq_2)
  qed
qed

text \<open>Idle motors get the zero current.\<close>

lemma device_iq_idle:
  assumes "all_idle G (ct_strategy ctx)" and "device_wired (ct_strategy ctx) (ct_io_devices ctx ! i)"
  shows "device_iq ctx i = f0 G"
proof -
  obtain a m where "ci_motors (ct_io_devices ctx ! i) = [Some a]" "motor_at (Some a) (ct_strategy ctx) = Some m"
    "(a, m) \<in> set (cs_motors (ct_strategy ctx))"
    using wired_motor [OF assms(2)] by metis
  then show ?thesis using assms(1) by (auto simp: device_iq_def all_idle_def)
qed

section \<open>The turn\<close>

abbreviation none_reported :: "'r controller \<Rightarrow> bool" where
  "none_reported ctx \<equiv> \<forall>i < unat (ct_num_io_device ctx). \<not> ci_connected (ct_io_devices ctx ! i)"

lemma clear_connected:
  assumes "controller_ok ctx"
  shows "\<exists>devs. for_upto_opt (unat (ct_num_io_device ctx))
      (\<lambda>i devs. if i < length devs then Some (devs[i := (devs ! i)\<lparr>ci_connected := False\<rparr>]) else None) (ct_io_devices ctx) = Some devs \<and>
    length devs = 2 \<and> same_wiring ctx (ctx\<lparr>ct_io_devices := devs\<rparr>) \<and> none_reported (ctx\<lparr>ct_io_devices := devs\<rparr>)"
proof -
  obtain d e where d: "ct_io_devices ctx = [d, e]"
    using assms by (auto simp: controller_ok_def numeral_2_eq_2 length_Suc_conv)
  show ?thesis
    by (cases rule: device_count [OF assms]) (auto simp: d same_wiring_def loops_of_two)
qed

lemma monitoring_send_controller:
  "\<exists>c' ctx'. (if due then Some (controller_monitoring_send a (c, ctx)) else Some (c, ctx)) = Some (c', ctx') \<and>
    (controller_ok ctx \<longrightarrow> controller_ok ctx' \<and> same_wiring ctx ctx') \<and> ct_state ctx' = ct_state ctx \<and>
    ct_io_devices ctx' = ct_io_devices ctx"
proof -
  obtain ms st where m: "control_strategy_get_motor_monitoring (ct_strategy ctx) 2 = (ms, st)" by fastforce
  then have step: "control_step undefined (ct_strategy ctx) st"
    using control_step.monitoring [of undefined "ct_strategy ctx" 2] by simp
  have "case controller_monitoring_send a (c, ctx) of (c', ctx') \<Rightarrow>
      (controller_ok ctx \<longrightarrow> controller_ok ctx' \<and> same_wiring ctx ctx') \<and> ct_state ctx' = ct_state ctx \<and>
      ct_io_devices ctx' = ct_io_devices ctx"
    using with_strategy [OF _ step] m
    by (auto simp: controller_monitoring_send_def same_wiring_def split: prod.split)
  then show ?thesis by (auto split: prod.splits)
qed

lemma dump_controller:
  assumes "controller_ok ctx"
  shows "\<exists>ctx'. (if due then (let ctx = controller_stats_dump a ctx in
      Some (ctx\<lparr>ct_strategy := control_strategy_stats_dump b (ct_strategy ctx)\<rparr>)) else Some ctx) = Some ctx' \<and>
    controller_ok ctx' \<and> same_wiring ctx ctx' \<and> ct_state ctx' = ct_state ctx \<and> ct_io_devices ctx' = ct_io_devices ctx"
proof -
  let ?d = "controller_stats_dump a ctx"
  have d: "controller_ok ?d" "same_wiring ctx ?d" "ct_state ?d = ct_state ctx" "ct_io_devices ?d = ct_io_devices ctx"
    using assms by (simp_all add: controller_stats_dump_def Let_def same_wiring_def)
  show ?thesis
    using with_strategy [OF d(1) control_step.stats_dump [of undefined _ b]] d assms by (auto simp: same_wiring_def Let_def)
qed

lemma controller_loop_ok:
  assumes "controller_ok ctx" and "tp_task_period_ns (cy_params c) \<noteq> 0" and "tp_task_period_ns (cy_params c) \<le> 1000000"
    and "controller_num_sched_stats G (tp_task_period_ns (cy_params c)) \<noteq> 0"
  shows "\<exists>c' ctx1 ctx'. controller_loop G env timer_status (c, ctx, out) = Some (c', ctx',
      case fst (snd (cyclic_net_transmit c MSG_SET_IQ SET_IQ_SIZE (cn_ready env) (cn_sent env))) of None \<Rightarrow> out
      | Some r \<Rightarrow> (r, message_of G ctx1) # out) \<and>
    state_result (ctx\<lparr>ct_strategy := control_strategy_reset_iq G (ct_strategy ctx)\<rparr>) ctx1 \<and>
    controller_ok ctx' \<and> same_wiring ctx ctx' \<and> ct_state ctx' = ct_state ctx1 \<and> none_reported ctx'"
proof -
  let ?p = "tp_task_period_ns (cy_params c)" and ?sched = "ts_sched (tk_stats (cy_task c))"
  let ?c0 = "ctx\<lparr>ct_strategy := control_strategy_reset_iq G (ct_strategy ctx)\<rparr>"
  note w0 = with_strategy [OF assms(1) control_step.reset_iq [of G]]
  obtain ctx1 where 1: "run_controller_state G ?p (cn_accepted_send env) ?c0 = Some ctx1" "state_result ?c0 ctx1"
    using controller_run_state_ok [OF w0(1) assms(2)] by blast
  then have ok1: "controller_ok ctx1" and wire1: "same_wiring ctx ctx1"
    using same_wiring_trans [OF w0(2)] by (auto simp: state_result_def)
  obtain devs where devs: "for_upto_opt (unat (ct_num_io_device ctx1))
      (\<lambda>i devs. if i < length devs then Some (devs[i := (devs ! i)\<lparr>ci_connected := False\<rparr>]) else None) (ct_io_devices ctx1) = Some devs"
    "length devs = 2" "same_wiring ctx1 (ctx1\<lparr>ct_io_devices := devs\<rparr>)" "none_reported (ctx1\<lparr>ct_io_devices := devs\<rparr>)"
    using clear_connected [OF ok1] by blast
  let ?c2 = "ctx1\<lparr>ct_io_devices := devs\<rparr>"
  have ok2: "controller_ok ?c2" by (rule wired_ok [OF ok1 devs(3)]) (use ok1 in \<open>simp_all add: controller_ok_def\<close>)
  let ?tx = "cyclic_net_transmit c MSG_SET_IQ SET_IQ_SIZE (cn_ready env) (cn_sent env)"
  obtain c3 ctx3 where mon: "(if ?sched mod (1000 * (NSECS_PER_MSEC div ?p)) = 0
      then Some (controller_monitoring_send (cn_accepted_monitoring env) (snd (snd ?tx), ?c2)) else Some (snd (snd ?tx), ?c2)) = Some (c3, ctx3)"
    and 3: "controller_ok ctx3" "same_wiring ?c2 ctx3" "ct_state ctx3 = ct_state ctx1" "ct_io_devices ctx3 = devs"
    using monitoring_send_controller [of "?sched mod (1000 * (NSECS_PER_MSEC div ?p)) = 0" "cn_accepted_monitoring env" "snd (snd ?tx)" ?c2] ok2
    by auto
  obtain ctx4 where dump: "(if ?sched mod controller_num_sched_stats G ?p = 0 then (let ctx = controller_stats_dump (cn_accepted_stats env) ctx3 in
      Some (ctx\<lparr>ct_strategy := control_strategy_stats_dump (cn_accepted_motors env) (ct_strategy ctx)\<rparr>)) else Some ctx3) = Some ctx4"
    and 4: "controller_ok ctx4" "same_wiring ctx3 ctx4" "ct_state ctx4 = ct_state ctx3" "ct_io_devices ctx4 = ct_io_devices ctx3"
    using dump_controller [OF 3(1), of "?sched mod controller_num_sched_stats G ?p = 0" "cn_accepted_stats env" "cn_accepted_motors env"] by blast
  have send: "controller_send G (cn_ready env) (cn_sent env) (c, ctx1, out) = Some (snd (snd ?tx), ctx1,
      case fst (snd ?tx) of None \<Rightarrow> out | Some r \<Rightarrow> (r, message_of G ctx1) # out)"
    by (simp add: controller_send_def controller_message_exact [OF ok1] split: prod.split option.split)
  have loop: "controller_loop G env timer_status (c, ctx, out) = Some (c3, ctx4,
      case fst (snd ?tx) of None \<Rightarrow> out | Some r \<Rightarrow> (r, message_of G ctx1) # out)"
    using sched_divisors(2) [OF assms(2,3)] assms(2,4)
    by (simp add: controller_loop_def 1(1) send devs(1) mon dump Let_def)
  have w: "same_wiring ctx ctx4"
    using same_wiring_trans [OF wire1 same_wiring_trans [OF devs(3) same_wiring_trans [OF 3(2) 4(2)]]] .
  have n: "none_reported ctx4" using devs(4) 3(2,4) 4(2,4) by (simp add: same_wiring_def)
  show ?thesis
    by (intro exI conjI, rule loop, rule 1(2), rule 4(1), rule w, use 3(3) 4(3) in simp, rule n)
qed

section \<open>Reception\<close>

definition is_feedback :: "tsn_common_hdr \<Rightarrow> bool" where
  "is_feedback hdr \<longleftrightarrow> ucast (hdr_msg_id hdr) = MSG_FEEDBACK \<and> ucast (hdr_len hdr) = FEEDBACK_SIZE"

definition feedback_fits :: "tsn_common_hdr \<times> 'r msg_feedback \<Rightarrow> bool" where
  "feedback_fits f \<longleftrightarrow> (is_feedback (fst f) \<longrightarrow> unat (mf_num_msg (snd f)) \<le> length (mf_array (snd f)))"

text \<open>A frame in which a device reports that it is well.\<close>

definition well_report :: "u32 \<Rightarrow> tsn_common_hdr \<times> 'r msg_feedback \<Rightarrow> bool" where
  "well_report dev_id f \<longleftrightarrow> is_feedback (fst f) \<and> ucast (hdr_src_id (fst f)) = dev_id \<and> mf_status (snd f) = 0"

abbreviation reports :: "'r controller \<Rightarrow> nat \<Rightarrow> tsn_common_hdr \<times> 'r msg_feedback \<Rightarrow> bool" where
  "reports ctx i f \<equiv> well_report (ci_id (ct_io_devices ctx ! i)) f"

lemma find_device:
  assumes "controller_ok ctx"
  shows "\<exists>d. dev_id_to_io_device_ctx ctx dev_id = Some d \<and>
    (\<forall>k. d = Some k \<longrightarrow> k < unat (ct_num_io_device ctx) \<and> ci_id (ct_io_devices ctx ! k) = dev_id)"
  using assms
  by (cases rule: device_count [OF assms])
    (auto simp: dev_id_to_io_device_ctx_def controller_ok_def loops_of_two)

lemma take_feedback_ok:
  assumes "controller_ok ctx" and "d < unat (ct_num_io_device ctx)"
  shows "\<exists>ctx'. controller_take_feedback d fb ctx = Some ctx' \<and> controller_ok ctx' \<and> same_wiring ctx ctx' \<and>
    ct_io_devices ctx' = ct_io_devices ctx \<and> ct_state ctx' = ct_state ctx"
proof -
  have "device_wired (ct_strategy ctx) (ct_io_devices ctx ! d)" using assms by (simp add: controller_ok_def)
  then obtain a m where a: "ci_motors (ct_io_devices ctx ! d) = [Some a]" "motor_at (Some a) (ct_strategy ctx) = Some m"
    "ci_num_motors (ct_io_devices ctx ! d) = 1" by (rule wired_motor)
  have lt: "x < 1 \<longleftrightarrow> x = 0" for x :: u32 by (simp add: word_less_nat_alt unat_eq_zero)
  have f: "(\<lambda>(b, m). if Some b = Some a then (b, control_strategy_set_feedback m fb) else (b, m)) =
      (\<lambda>(b, m). (b, if b = a then control_strategy_set_feedback m fb else m))" by auto
  let ?st = "(ct_strategy ctx)\<lparr>cs_motors := map (\<lambda>(b, m). (b, if b = a then control_strategy_set_feedback m fb else m)) (cs_motors (ct_strategy ctx))\<rparr>"
  have upd: "motor_upd (Some a) (\<lambda>m. control_strategy_set_feedback m fb) (ct_strategy ctx) = Some ?st"
    unfolding motor_upd_def f a(2) by simp
  have u: "controller_ok (upd_ct_stats g ctx)" "same_wiring ctx (upd_ct_stats g ctx)" for g
    using assms(1) by (simp_all add: upd_ct_stats_def same_wiring_def)
  show ?thesis
  proof (cases "fb_motor_id fb = 0")
    case True
    then show ?thesis
      using a upd with_strategy [OF assms(1) control_step.feedback [of undefined "ct_strategy ctx" a fb]]
      by (simp add: controller_take_feedback_def motor_id_to_motor_data_def)
  next
    case False
    have "(ucast (fb_motor_id fb) :: u32) \<noteq> 0"
    proof
      assume "(ucast (fb_motor_id fb) :: u32) = 0"
      then have "unat (fb_motor_id fb) = 0" using unat_ucast_16_32 [of "fb_motor_id fb"] by simp
      then show False using False by (simp only: unat_eq_zero)
    qed
    then show ?thesis
      using a u by (auto simp: controller_take_feedback_def motor_id_to_motor_data_def lt upd_ct_stats_def)
  qed
qed

lemma controller_receive_ok:
  assumes "controller_ok ctx" and "feedback_fits (hdr, msg)"
  shows "\<exists>ctx'. controller_net_receive hdr msg ctx = Some ctx' \<and> controller_ok ctx' \<and> same_wiring ctx ctx' \<and>
    ct_state ctx' = ct_state ctx \<and>
    (\<forall>i < unat (ct_num_io_device ctx). ci_connected (ct_io_devices ctx' ! i) \<longrightarrow>
       ci_connected (ct_io_devices ctx ! i) \<or> reports ctx i (hdr, msg))"
proof (cases "is_feedback hdr")
  case False
  then show ?thesis
    using assms(1) by (auto simp: controller_net_receive_def is_feedback_def upd_ct_stats_def same_wiring_def)
next
  case True
  obtain d where d: "dev_id_to_io_device_ctx ctx (ucast (hdr_src_id hdr)) = Some d"
    "\<And>k. d = Some k \<Longrightarrow> k < unat (ct_num_io_device ctx) \<and> ci_id (ct_io_devices ctx ! k) = ucast (hdr_src_id hdr)"
    using find_device [OF assms(1)] by blast
  show ?thesis
  proof (cases d)
    case None
    then show ?thesis
      using True d assms(1) by (auto simp: controller_net_receive_def is_feedback_def upd_ct_stats_def same_wiring_def)
  next
    case (Some k)
    let ?c = "if mf_status msg = 0
      then ctx\<lparr>ct_io_devices := (ct_io_devices ctx)[k := (ct_io_devices ctx ! k)\<lparr>ci_connected := True\<rparr>]\<rparr> else ctx"
    have k: "k < unat (ct_num_io_device ctx)" "k < length (ct_io_devices ctx)" "ci_id (ct_io_devices ctx ! k) = ucast (hdr_src_id hdr)"
      using d(2) [OF Some] assms(1) by (auto simp: controller_ok_def)
    have wire: "same_wiring ctx ?c"
      using k(2) by (auto simp: same_wiring_def map_update intro: list_update_same_conv [THEN iffD2])
    have ok: "controller_ok ?c"
      by (rule wired_ok [OF assms(1) wire]) (use assms(1) in \<open>simp_all add: controller_ok_def\<close>)
    have con: "ci_connected (ct_io_devices ?c ! i) \<Longrightarrow> ci_connected (ct_io_devices ctx ! i) \<or> reports ctx i (hdr, msg)" for i
      using True k by (cases "i = k") (auto simp: well_report_def split: if_splits)
    let ?body = "\<lambda>i ctx. if i < length (mf_array msg) then controller_take_feedback k (mf_array msg ! i) ctx else None"
    let ?P = "\<lambda>_ c. controller_ok c \<and> same_wiring ?c c \<and> ct_io_devices c = ct_io_devices ?c \<and> ct_state c = ct_state ctx"
    have num: "ct_num_io_device ?c = ct_num_io_device ctx" by simp
    have "\<exists>s. for_upto_opt (unat (mf_num_msg msg)) ?body ?c = Some s \<and> ?P (unat (mf_num_msg msg)) s"
    proof (rule for_upto_opt_invariant [where P = ?P])
      show "?P 0 ?c" using ok by simp
      show "\<exists>s'. ?body i s = Some s' \<and> ?P (Suc i) s'" if i: "i < unat (mf_num_msg msg)" and P: "?P i s" for i s
      proof -
        have "i < length (mf_array msg)" using i assms(2) True by (simp add: feedback_fits_def)
        moreover have "k < unat (ct_num_io_device s)" using P k(1) num by (simp add: same_wiring_def)
        ultimately show ?thesis
          using take_feedback_ok [of s k "mf_array msg ! i"] P same_wiring_trans by fastforce
      qed
    qed
    then obtain s where s: "for_upto_opt (unat (mf_num_msg msg)) ?body ?c = Some s" "?P (unat (mf_num_msg msg)) s" by blast
    have run: "controller_net_receive hdr msg ctx = Some s"
      using True d(1) Some s(1) by (simp add: controller_net_receive_def is_feedback_def Let_def)
    show ?thesis
      by (intro exI conjI, rule run) (use s(2) same_wiring_trans [OF wire] con in auto)
  qed
qed

primrec controller_receive_all :: "(tsn_common_hdr \<times> 'r msg_feedback) list \<Rightarrow> 'r controller \<Rightarrow> 'r controller option" where
  "controller_receive_all [] ctx = Some ctx"
| "controller_receive_all (f # fs) ctx = Option.bind (controller_net_receive (fst f) (snd f) ctx) (controller_receive_all fs)"

lemma reports_wiring: "same_wiring ctx ctx' \<Longrightarrow> i < length (ct_io_devices ctx) \<Longrightarrow> reports ctx' i f = reports ctx i f"
  by (simp add: same_wiring_nth)

lemma controller_receive_all_ok:
  assumes "controller_ok ctx" and "\<forall>f \<in> set fs. feedback_fits f"
  shows "\<exists>ctx'. controller_receive_all fs ctx = Some ctx' \<and> controller_ok ctx' \<and> same_wiring ctx ctx' \<and>
    ct_state ctx' = ct_state ctx \<and>
    (\<forall>i < unat (ct_num_io_device ctx). ci_connected (ct_io_devices ctx' ! i) \<longrightarrow>
       ci_connected (ct_io_devices ctx ! i) \<or> (\<exists>f \<in> set fs. reports ctx i f))"
  using assms
proof (induction fs arbitrary: ctx)
  case (Cons f fs)
  obtain c1 where 1: "controller_net_receive (fst f) (snd f) ctx = Some c1" "controller_ok c1" "same_wiring ctx c1"
    "ct_state c1 = ct_state ctx"
    "\<forall>i < unat (ct_num_io_device ctx). ci_connected (ct_io_devices c1 ! i) \<longrightarrow> ci_connected (ct_io_devices ctx ! i) \<or> reports ctx i f"
    using controller_receive_ok [OF Cons.prems(1), of "fst f" "snd f"] Cons.prems(2) by auto
  have "\<forall>f \<in> set fs. feedback_fits f" using Cons.prems(2) by simp
  then obtain c2 where 2: "controller_receive_all fs c1 = Some c2" "controller_ok c2" "same_wiring c1 c2" "ct_state c2 = ct_state c1"
    "\<forall>i < unat (ct_num_io_device c1). ci_connected (ct_io_devices c2 ! i) \<longrightarrow>
       ci_connected (ct_io_devices c1 ! i) \<or> (\<exists>f \<in> set fs. reports c1 i f)"
    using Cons.IH [OF 1(2)] by blast
  have n: "ct_num_io_device c1 = ct_num_io_device ctx" using 1(3) by (simp add: same_wiring_def)
  have r: "reports c1 i g = reports ctx i g" if "i < unat (ct_num_io_device ctx)" for i g
    by (rule reports_wiring [OF 1(3)]) (use that Cons.prems(1) in \<open>auto simp: controller_ok_def\<close>)
  have run: "controller_receive_all (f # fs) ctx = Some c2" using 1(1) 2(1) by simp
  show ?case
    by (intro exI conjI, rule run, rule 2(2), rule same_wiring_trans [OF 1(3) 2(3)], use 1(4) 2(4) in simp)
      (use 1(5) 2(5) n r in auto)
qed simp

section \<open>Initialisation\<close>

text \<open>Between two turns no device is marked as connected.\<close>

definition controller_ready :: "'r controller \<Rightarrow> bool" where
  "controller_ready ctx \<longleftrightarrow> controller_ok ctx \<and> none_reported ctx"

text \<open>
  A configuration the controller is made for: up to two devices with distinct 16-bit identifiers, a known strategy and a
  period; memory and the clock answer, and the thread of the command client, when there is one, is created.
\<close>

definition controller_setup :: "controller_init_env \<Rightarrow> 'r controller_config \<Rightarrow> 'r controller \<Rightarrow> bool" where
  "controller_setup env cfg ctx \<longleftrightarrow>
     length (ct_io_devices ctx) = 2 \<and> (\<forall>d \<in> set (ct_io_devices ctx). length (ci_motors d) = 1) \<and>
     unat (cg_num_peers cfg) \<le> 2 \<and> length (cg_peer_ids cfg) = 2 \<and> distinct (cg_peer_ids cfg) \<and>
     (\<forall>k \<in> set (cg_peer_ids cfg). k < 65536) \<and> cg_first_strategy cfg < 6 \<and> cg_period_ns cfg \<noteq> 0 \<and>
     (\<forall>i < unat (cg_num_peers cfg). cv_motor env i \<noteq> None) \<and> inj_on (cv_motor env) {..< unat (cg_num_peers cfg)} \<and>
     (cg_cmd_client cfg \<and> cv_cmd_alloc env \<longrightarrow> cv_cmd_thread env)"

text \<open>After the first \<open>i\<close> devices.\<close>

definition init_inv :: "controller_init_env \<Rightarrow> 'r controller_config \<Rightarrow> 'r controller \<Rightarrow> nat \<Rightarrow> 'r controller \<Rightarrow> bool" where
  "init_inv env cfg ctx0 i ctx \<longleftrightarrow> length (ct_io_devices ctx) = 2 \<and> (\<forall>d \<in> set (ct_io_devices ctx). length (ci_motors d) = 1) \<and>
     ct_num_io_device ctx = ct_num_io_device ctx0 \<and> ct_cmd_client ctx = ct_cmd_client ctx0 \<and>
     control_new (ct_strategy ctx) \<and> motor_addrs (ct_strategy ctx) = rev (map (the \<circ> cv_motor env) [0..<i]) \<and>
     (\<forall>k < i. device_wired (ct_strategy ctx) (ct_io_devices ctx ! k) \<and> ci_id (ct_io_devices ctx ! k) = cg_peer_ids cfg ! k \<and>
        \<not> ci_connected (ct_io_devices ctx ! k))"

lemma init_device_step:
  assumes "controller_setup env cfg ctx00" and "i < unat (cg_num_peers cfg)" and "init_inv env cfg ctx0 i ctx"
    and "controller_init_device G M env cfg i ctx = Inr ctx'"
  shows "init_inv env cfg ctx0 (Suc i) ctx'"
proof -
  obtain a where a: "cv_motor env i = Some a" using assms(1,2) by (auto simp: controller_setup_def)
  have i: "i < 2" "i < length (ct_io_devices ctx)" "length (ci_motors (ct_io_devices ctx ! i)) = 1"
    using assms(1-3) by (auto simp: controller_setup_def init_inv_def)
  obtain now where now: "cv_now env i = Some now" using assms(4) by (auto simp: controller_init_device_def Let_def split: if_splits option.splits)
  have fresh: "a \<notin> set (motor_addrs (ct_strategy ctx))"
  proof
    assume "a \<in> set (motor_addrs (ct_strategy ctx))"
    then obtain k where k: "k < i" "the (cv_motor env k) = a" using assms(3) by (auto simp: init_inv_def)
    then have "cv_motor env k = cv_motor env i" using a assms(1,2) by (auto simp: controller_setup_def)
    then have "k = i" using assms(1,2) k(1) by (auto simp: controller_setup_def dest: inj_onD)
    then show False using k(1) by simp
  qed
  have "length (motor_addrs (ct_strategy ctx)) = i" using assms(3) by (simp add: init_inv_def)
  then have small: "length (cs_motors (ct_strategy ctx)) + 1 < 2 ^ 16" using i(1) by (simp add: motor_addrs_def)
  have new: "control_new (ct_strategy ctx)" using assms(3) by (simp add: init_inv_def)
  obtain st where fst_reg: "control_strategy_register_motor G M (ct_strategy ctx) (Some a) (ucast (cg_peer_ids cfg ! i)) 0 now
      (cg_app_motor_params_init cfg) = (Some a, st)"
    by (simp add: control_strategy_register_motor_def)
  note reg = register_ok [OF new fresh small, of G M "ucast (cg_peer_ids cfg ! i)" 0 now "cg_app_motor_params_init cfg", unfolded fst_reg snd_conv]
  let ?dev = "(ct_io_devices ctx ! i)\<lparr>ci_id := cg_peer_ids cfg ! i, ci_connected := False, ci_num_motors := 1, ci_motors := [Some a]\<rparr>"
  have one: "(ci_motors (ct_io_devices ctx ! i))[0 := Some a] = [Some a]" using i(3) by (auto simp: length_Suc_conv)
  have "length (cg_peer_ids cfg) = 2" using assms(1) by (simp add: controller_setup_def)
  then have "ctx\<lparr>ct_strategy := st, ct_io_devices := (ct_io_devices ctx)[i := ?dev]\<rparr> = ctx'"
    using assms(4) i now a fst_reg one by (simp add: controller_init_device_def)
  note ctx' = this [symmetric]
  have wired: "device_wired st dev" if "device_wired (ct_strategy ctx) dev" for dev
    using that reg by (auto simp: device_wired_def)
  have "device_wired st ?dev" using reg by (simp add: device_wired_def)
  then show ?thesis
    using assms(3) reg wired a i unfolding ctx'
    by (auto simp: init_inv_def nth_list_update less_Suc_eq dest!: set_update_subset_insert [THEN subsetD])
qed

lemma controller_init_ready:
  assumes "controller_setup env cfg ctx00" and "controller_init G M env cfg ctx00 = Some (0, ctx)"
  shows "controller_ready ctx" and "unat (ct_num_io_device ctx) = unat (cg_num_peers cfg)"
    and "\<And>i. i < unat (ct_num_io_device ctx) \<Longrightarrow> ci_id (ct_io_devices ctx ! i) = cg_peer_ids cfg ! i"
proof -
  let ?c0 = "ctx00\<lparr>ct_num_io_device := ucast (cg_num_peers cfg), ct_events := [], ct_state := CONTROL_SM, ct_stopped := False,
    ct_control_error := False, ct_cmd_client := Null_client\<rparr>"
  have small: "unat (cg_num_peers cfg) \<le> 2" using assms(1) by (simp add: controller_setup_def)
  then have n: "unat (ucast (cg_num_peers cfg) :: u16) = unat (cg_num_peers cfg)"
    by (simp add: unsigned_ucast_eq take_bit_nat_eq_self)
  obtain st where st: "control_strategy_context_init G True True (cg_first_strategy cfg) (cg_period_ns cfg) = Some st"
    "cv_alloc env" "cv_net env"
    using assms(2) by (auto simp: controller_init_def Let_def control_strategy_context_init_def split: if_splits)
  have new: "control_new st \<and> cs_motors st = []"
    by (rule context_init_new [OF st(1)]) (use assms(1) in \<open>simp_all add: controller_setup_def\<close>)
  obtain c1 where loop: "for_upto_err (unat (cg_num_peers cfg)) (controller_init_device G M env cfg) (?c0\<lparr>ct_strategy := st\<rparr>) = Inr c1"
    and ctx: "ctx = (let c = c1\<lparr>ct_strategy := control_strategy_set_error_callback (ct_strategy c1) True\<rparr> in
      if cg_cmd_client cfg then c\<lparr>ct_cmd_client := snd (command_client_start (cv_cmd_alloc env) (cv_cmd_thread env))\<rparr> else c)"
    using assms(2) st n by (auto simp: controller_init_def Let_def split: if_splits sum.splits option.splits)
  have inv: "init_inv env cfg ?c0 (unat (cg_num_peers cfg)) c1"
    by (rule for_upto_err_invariant [where P = "init_inv env cfg ?c0", OF _ init_device_step [OF assms(1)] loop])
      (use assms(1) new in \<open>simp_all add: init_inv_def controller_setup_def motor_addrs_def\<close>)
  have num: "unat (ct_num_io_device c1) = unat (cg_num_peers cfg)" using inv n by (simp add: init_inv_def)
  have ok: "controller_ok c1"
    using inv num small by (simp add: controller_ok_def init_inv_def control_new_def)
  note w = with_strategy [OF ok control_step.error_callback [of undefined _ True]]
  have client: "cg_cmd_client cfg \<longrightarrow> snd (command_client_start (cv_cmd_alloc env) (cv_cmd_thread env)) \<noteq> Freed_client"
    using assms(1) by (auto simp: controller_setup_def command_client_start_def)
  have "controller_ok ctx" using w(1) client by (simp add: ctx Let_def) (simp add: controller_ok_def)
  moreover have dev: "ct_io_devices ctx = ct_io_devices c1" "ct_num_io_device ctx = ct_num_io_device c1" by (simp_all add: ctx Let_def)
  ultimately show "controller_ready ctx" using inv num by (simp add: controller_ready_def init_inv_def)
  show "unat (ct_num_io_device ctx) = unat (cg_num_peers cfg)" using num dev by simp
  show "ci_id (ct_io_devices ctx ! i) = cg_peer_ids cfg ! i" if "i < unat (ct_num_io_device ctx)" for i
    using inv num dev that by (simp add: init_inv_def)
qed

section \<open>What a controller lives through\<close>

inductive controller_step :: "'r cflt \<Rightarrow> 'r controller \<Rightarrow> 'r controller \<Rightarrow> bool" for G where
  ct_turn: "controller_step G ctx ctx'"
    if "\<forall>f \<in> set fs. feedback_fits f" and "controller_receive_all fs ctx = Some ctx1"
    and "tp_task_period_ns (cy_params c) \<noteq> 0" and "tp_task_period_ns (cy_params c) \<le> 1000000"
    and "controller_num_sched_stats G (tp_task_period_ns (cy_params c)) \<noteq> 0"
    and "controller_loop G env timer_status (c, ctx1, out) = Some (c', ctx', out')"
| ct_button: "controller_step G ctx (ctx\<lparr>ct_events := [BUTTON_PRESSED]\<rparr>)" if "ct_events ctx = []"
| ct_command: "controller_step G ctx (ctx\<lparr>ct_cmd_client := Client (command_client_task state msg)\<rparr>)" if "ct_cmd_client ctx = Client state"
| ct_print: "controller_step G ctx (controller_stats_print ctx)"
| ct_monitored: "controller_step G ctx (controller_monitoring_sent ctx)"
| ct_strategy_print: "controller_step G ctx (ctx\<lparr>ct_strategy := control_strategy_stats_print (ct_strategy ctx)\<rparr>)"

lemma controller_step_ready:
  assumes "controller_step G ctx ctx'" and "controller_ready ctx"
  shows "controller_ready ctx' \<and> same_wiring ctx ctx'"
  using assms(1)
proof cases
  case (ct_turn fs ctx1 c env timer_status out c' out')
  have ok: "controller_ok ctx" using assms(2) by (simp add: controller_ready_def)
  have c1: "controller_ok ctx1" "same_wiring ctx ctx1"
    using controller_receive_all_ok [OF ok ct_turn(1)] ct_turn(2) by auto
  have "controller_ok ctx'" "same_wiring ctx1 ctx'" "none_reported ctx'"
    using controller_loop_ok [OF c1(1) ct_turn(3-5), of env timer_status out] ct_turn(6) by auto
  then show ?thesis using same_wiring_trans [OF c1(2)] by (auto simp: controller_ready_def)
next
  case ct_strategy_print
  then show ?thesis
    using with_strategy [of ctx undefined, OF _ control_step.stats_print] assms(2) by (auto simp: controller_ready_def)
qed (use assms(2) in \<open>auto simp: controller_ready_def controller_ok_def same_wiring_def controller_stats_print_def controller_monitoring_sent_def\<close>)

lemma controller_steps_ready:
  assumes "(controller_step G)\<^sup>*\<^sup>* ctx0 ctx" and "controller_ready ctx0"
  shows "controller_ready ctx \<and> same_wiring ctx0 ctx"
  using assms by (induction rule: rtranclp_induct) (auto dest: controller_step_ready intro: same_wiring_trans)

section \<open>The commands\<close>

lemma transmitted_header:
  "fst (snd (cyclic_net_transmit c msg_id len ready sent)) = Some r \<Longrightarrow>
     hdr_msg_id (tx_hdr r) = ucast msg_id \<and> hdr_len (tx_hdr r) = ucast len"
  by (auto simp: cyclic_net_transmit_def Let_def split: if_splits prod.splits)

lemma u16_id: "(k :: u32) < 65536 \<Longrightarrow> ucast (ucast k :: u16) = k"
proof -
  assume "k < 65536"
  then have "unat k < 2 ^ 16" by (simp add: word_less_nat_alt)
  then have "unat (ucast (ucast k :: u16) :: u32) = unat k"
    unfolding unat_ucast_16_32 by (simp add: unsigned_ucast_eq take_bit_nat_eq_self)
  then show ?thesis by (simp only: word_unat_eq_iff)
qed

text \<open>The message is a command for each device of the controller.\<close>

lemma message_commands:
  assumes "controller_ok ctx" and "is_command hdr" and "i < unat (ct_num_io_device ctx)"
    and "\<And>k. k < unat (ct_num_io_device ctx) \<Longrightarrow> ci_id (ct_io_devices ctx ! k) = ids ! k"
    and "distinct ids" and "length ids = 2" and "\<forall>k \<in> set ids. k < 65536"
  shows "iq_command (ids ! i) (hdr, message_of G ctx) = Some (device_iq ctx i)"
    and "si_iq_req (mq_array (message_of G ctx) ! i) = device_iq ctx i"
proof -
  have two: "[0..<2] = [0, Suc 0]" by (simp add: upt_rec)
  obtain a b where ids: "ids = [a, b]" "a \<noteq> b" "a < 65536" "b < 65536"
    using assms(5-7) by (auto simp: numeral_2_eq_2 length_Suc_conv)
  have u: "ucast (ucast a :: u16) = a" "ucast (ucast b :: u16) = b" using u16_id ids(3,4) by blast+
  show "iq_command (ids ! i) (hdr, message_of G ctx) = Some (device_iq ctx i)"
  proof (cases rule: device_count [OF assms(1)])
    case 1
    then show ?thesis using assms(3) by simp
  next
    case 2
    then show ?thesis
      using assms(2,3) assms(4) [of 0] u
      by (simp add: iq_command_def message_of_def entries_for_def two for_motor_def device_entry_def ids(1))
  next
    case 3
    then have "i = 0 \<or> i = Suc 0" using assms(3) by auto
    then show ?thesis
      using 3 assms(2) assms(4) [of 0] assms(4) [of "Suc 0"] u ids(2)
      by (auto simp: iq_command_def message_of_def entries_for_def two for_motor_def device_entry_def ids(1))
  qed
  have "i < 2" using assms(1,3) by (simp add: controller_ok_def)
  then show "si_iq_req (mq_array (message_of G ctx) ! i) = device_iq ctx i"
    using assms(3) by (simp add: message_of_def device_entry_def)
qed

text \<open>A controller in use: between two turns, with the devices it was configured for.\<close>

definition controller_run :: "'r controller_config \<Rightarrow> 'r controller \<Rightarrow> bool" where
  "controller_run cfg ctx \<longleftrightarrow> controller_ready ctx \<and> unat (ct_num_io_device ctx) = unat (cg_num_peers cfg) \<and>
     (\<forall>i < unat (cg_num_peers cfg). ci_id (ct_io_devices ctx ! i) = cg_peer_ids cfg ! i) \<and>
     distinct (cg_peer_ids cfg) \<and> length (cg_peer_ids cfg) = 2 \<and> (\<forall>k \<in> set (cg_peer_ids cfg). k < 65536)"

lemma controller_run_steps:
  assumes "controller_setup env0 cfg ctx00" and "controller_init G M env0 cfg ctx00 = Some (0, ctx0)"
    and "(controller_step G)\<^sup>*\<^sup>* ctx0 ctx"
  shows "controller_run cfg ctx"
proof -
  note init = controller_init_ready [OF assms(1,2)]
  have ready: "controller_ready ctx" and wire: "same_wiring ctx0 ctx" using controller_steps_ready [OF assms(3) init(1)] by simp_all
  then have num: "unat (ct_num_io_device ctx) = unat (cg_num_peers cfg)" using init(2) by (simp add: same_wiring_def)
  have "ci_id (ct_io_devices ctx ! k) = cg_peer_ids cfg ! k" if "k < unat (cg_num_peers cfg)" for k
    using same_wiring_nth(1) [OF wire, of k] init that by (simp add: controller_ready_def controller_ok_def)
  then show ?thesis using ready num assms(1) by (simp add: controller_run_def controller_setup_def)
qed

lemma controller_turn_ok:
  assumes "controller_run cfg ctx" and "\<forall>f \<in> set fs. feedback_fits f"
    and "tp_task_period_ns (cy_params c) \<noteq> 0" and "tp_task_period_ns (cy_params c) \<le> 1000000"
    and "controller_num_sched_stats G (tp_task_period_ns (cy_params c)) \<noteq> 0"
  shows "\<exists>ctx1 c' ctx' out' msg. controller_receive_all fs ctx = Some ctx1 \<and>
    controller_loop G env timer_status (c, ctx1, out) = Some (c', ctx', out') \<and>
    out' = (case fst (snd (cyclic_net_transmit c MSG_SET_IQ SET_IQ_SIZE (cn_ready env) (cn_sent env))) of None \<Rightarrow> out
      | Some r \<Rightarrow> (r, msg) # out) \<and>
    (mq_action msg = HOLD \<longleftrightarrow> ct_state ctx' = IO_DEVICE_MISSING) \<and> unat (mq_num_msg msg) \<le> length (mq_array msg) \<and>
    (\<forall>r i. fst (snd (cyclic_net_transmit c MSG_SET_IQ SET_IQ_SIZE (cn_ready env) (cn_sent env))) = Some r \<and>
       i < unat (cg_num_peers cfg) \<longrightarrow>
       iq_command (cg_peer_ids cfg ! i) (tx_hdr r, msg) = Some (si_iq_req (mq_array msg ! i))) \<and>
    (ct_state ctx \<noteq> CONTROL_SM \<longrightarrow> (\<forall>i < unat (cg_num_peers cfg). si_iq_req (mq_array msg ! i) = f0 G)) \<and>
    ((\<exists>i < unat (cg_num_peers cfg). \<forall>f \<in> set fs. \<not> well_report (cg_peer_ids cfg ! i) f) \<longrightarrow>
       (\<forall>i < unat (cg_num_peers cfg). si_iq_req (mq_array msg ! i) = f0 G) \<and> (ct_state ctx \<noteq> STANDBY \<longrightarrow> mq_action msg = HOLD))"
proof -
  have cfg_ids: "distinct (cg_peer_ids cfg)" "length (cg_peer_ids cfg) = 2" "\<forall>k \<in> set (cg_peer_ids cfg). k < 65536"
    and ready: "controller_ready ctx" and num: "unat (ct_num_io_device ctx) = unat (cg_num_peers cfg)"
    using assms(1) by (simp_all add: controller_run_def)
  have ids: "ci_id (ct_io_devices ctx ! k) = cg_peer_ids cfg ! k" if "k < unat (cg_num_peers cfg)" for k
    using assms(1) that by (simp add: controller_run_def)
  have ok: "controller_ok ctx" and none: "none_reported ctx" using ready by (simp_all add: controller_ready_def)
  obtain ctx1 where rx: "controller_receive_all fs ctx = Some ctx1" "controller_ok ctx1" "same_wiring ctx ctx1"
    "ct_state ctx1 = ct_state ctx"
    "\<forall>i < unat (ct_num_io_device ctx). ci_connected (ct_io_devices ctx1 ! i) \<longrightarrow>
       ci_connected (ct_io_devices ctx ! i) \<or> (\<exists>f \<in> set fs. reports ctx i f)"
    using controller_receive_all_ok [OF ok assms(2)] by blast
  let ?tx = "cyclic_net_transmit c MSG_SET_IQ SET_IQ_SIZE (cn_ready env) (cn_sent env)"
  let ?r = "ctx1\<lparr>ct_strategy := control_strategy_reset_iq G (ct_strategy ctx1)\<rparr>"
  obtain c' ctx2 ctx' where loop: "controller_loop G env timer_status (c, ctx1, out) = Some (c', ctx',
      case fst (snd ?tx) of None \<Rightarrow> out | Some r \<Rightarrow> (r, message_of G ctx2) # out)"
    "state_result ?r ctx2" "ct_state ctx' = ct_state ctx2"
    using controller_loop_ok [OF rx(2) assms(3-5)] by blast
  have ok2: "controller_ok ctx2" using loop(2) by (simp add: state_result_def)
  have wire2: "same_wiring ctx ctx2"
    using loop(2) rx(3) by (simp add: state_result_def same_wiring_def control_strategy_reset_iq_def map_motors_def motor_addrs_def comp_def case_prod_unfold)
  have num2: "unat (ct_num_io_device ctx2) = unat (cg_num_peers cfg)" using wire2 num by (simp add: same_wiring_def)
  have ids2: "ci_id (ct_io_devices ctx2 ! k) = cg_peer_ids cfg ! k" if "k < unat (ct_num_io_device ctx2)" for k
    using same_wiring_nth(1) [OF wire2, of k] ids that num2 ok num by (simp add: controller_ok_def)
  have cmd: "iq_command (cg_peer_ids cfg ! i) (tx_hdr r, message_of G ctx2) = Some (si_iq_req (mq_array (message_of G ctx2) ! i))"
    if "fst (snd ?tx) = Some r" "i < unat (cg_num_peers cfg)" for r i
    using message_commands [OF ok2 _ _ ids2 cfg_ids, of "tx_hdr r" i] transmitted_header [OF that(1)] that(2) num2
    by (simp add: is_command_def)
  have idle: "si_iq_req (mq_array (message_of G ctx2) ! i) = f0 G"
    if "\<not> (ct_state ctx = CONTROL_SM \<and> all_reported ctx1)" "i < unat (cg_num_peers cfg)" for i
  proof -
    have "cs_motors (ct_strategy ctx2) = cs_motors (ct_strategy ?r)"
      using loop(2) that(1) rx(4) by (simp add: state_result_def all_reported_def)
    then have "all_idle G (ct_strategy ctx2)" using reset_iq_idle [of G "ct_strategy ctx1"] by (simp add: all_idle_def)
    moreover have "device_wired (ct_strategy ctx2) (ct_io_devices ctx2 ! i)" using ok2 that(2) num2 by (simp add: controller_ok_def)
    ultimately have "device_iq ctx2 i = f0 G" by (rule device_iq_idle)
    moreover have "i < 2" using that(2) num2 ok2 by (simp add: controller_ok_def)
    ultimately show ?thesis using that(2) num2 by (simp add: message_of_def device_entry_def)
  qed
  have lost: "\<not> all_reported ctx1"
    if "i < unat (cg_num_peers cfg)" "\<forall>f \<in> set fs. \<not> well_report (cg_peer_ids cfg ! i) f" for i
    using that rx(3,5) none num ids by (auto simp: all_reported_def same_wiring_def)
  have hold: "mq_action (message_of G ctx2) = HOLD" if "\<not> all_reported ctx1" "ct_state ctx \<noteq> STANDBY"
    using loop(2) that rx(4) by (simp add: state_result_def message_of_def all_reported_def)
  have act: "mq_action (message_of G ctx2) = HOLD \<longleftrightarrow> ct_state ctx' = IO_DEVICE_MISSING" using loop(3) by (simp add: message_of_def)
  have fits: "unat (mq_num_msg (message_of G ctx2)) \<le> length (mq_array (message_of G ctx2))"
    using ok2 by (simp add: message_of_def controller_ok_def)
  show ?thesis
    by (intro exI conjI, rule rx(1), rule loop(1), rule refl, rule act, rule fits) (use cmd idle lost hold in blast)+
qed



text \<open>Two devices with one motor each, the first of them pressed its button, and no device reports.\<close>

definition demo_controller_env :: controller_init_env where
  "demo_controller_env = \<lparr>cv_queue = True, cv_button = True, cv_alloc = True, cv_net = True, cv_now = (\<lambda>_. Some 0),
     cv_motor = (\<lambda>i. Some (100 * Suc i)), cv_cmd_alloc = True, cv_cmd_thread = True, cv_monitoring = True, cv_task = True\<rparr>"

definition demo_controller_config :: "int controller_config" where
  "demo_controller_config = \<lparr>cg_num_peers = 2, cg_peer_ids = [1, 2], cg_period_ns = 250000,
     cg_first_strategy = CTRL_STRAT_INTERLACED, cg_cmd_client = True, cg_app_motor_params_init = None\<rparr>"

definition demo_zeroed_stats :: controller_stats where
  "demo_zeroed_stats = \<lparr>cst_pending = False, cst_state = CONTROL_SM, cst_err_msg_id = 0, cst_err_invalid_len = 0, cst_err_src_id = 0,
     cst_err_motor_id = 0, cst_err_strat_loop = 0, cst_sm_control = 0, cst_sm_io_device_missing = 0, cst_sm_standby = 0\<rparr>"

definition demo_zeroed_controller :: "int controller" where
  "demo_zeroed_controller = \<lparr>ct_num_io_device = 0, ct_state = CONTROL_SM,
     ct_io_devices = replicate 2 \<lparr>ci_id = 0, ci_num_motors = 0, ci_connected = False, ci_motors = [None]\<rparr>,
     ct_strategy = demo_context, ct_stats = demo_zeroed_stats, ct_stats_snap = demo_zeroed_stats, ct_events = [], ct_restart_delay = 0,
     ct_msg = \<lparr>mm_id = 0, mm_type = 0, mm_state = 0, mm_cyclic = \<lparr>mon_sched_err_max = 0, mon_latency_max = (\<lambda>_. 0), mon_latency_min = (\<lambda>_. 0)\<rparr>, mm_motors = []\<rparr>,
     ct_msg_pending = False, ct_cmd_client = Null_client, ct_stopped = False, ct_control_error = False\<rparr>"

lemma demo_controller_init:
  "\<exists>ctx. controller_init int_flt demo_m1 demo_controller_env demo_controller_config demo_zeroed_controller = Some (0, ctx) \<and> ct_events ctx = []"
  by (simp add: controller_init_def controller_init_device_def demo_controller_env_def demo_controller_config_def
      demo_zeroed_controller_def demo_context err_loop_two control_strategy_register_motor_def Let_def)

lemma demo_controller_setup: "controller_setup demo_controller_env demo_controller_config demo_zeroed_controller"
  by (simp add: controller_setup_def demo_controller_env_def demo_controller_config_def demo_zeroed_controller_def inj_on_def)

definition demo_network_env :: controller_env where
  "demo_network_env = \<lparr>cn_ready = 1, cn_sent = 1, cn_accepted_monitoring = True, cn_accepted_stats = True,
     cn_accepted_motors = (\<lambda>_. True), cn_accepted_send = True\<rparr>"


end
