(* ===== verification/Motor_Network.thy ===== *)
theory Motor_Network
  imports Motor_Controller_Safety
begin

text \<open>
  The controller and its devices together: what the message of one turn of the controller does to the motor of a device
  that receives it, and what becomes of the motors when one of the devices is lost.
\<close>

section \<open>A message on its way\<close>

text \<open>A turn of the controller in which a message was handed to the network.\<close>

lemma sent_message:
  assumes "controller_run cfg ctx" and "\<forall>f \<in> set fs. feedback_fits f"
    and "tp_task_period_ns (cy_params c) \<noteq> 0" and "tp_task_period_ns (cy_params c) \<le> 1000000"
    and "controller_num_sched_stats G (tp_task_period_ns (cy_params c)) \<noteq> 0"
    and "controller_receive_all fs ctx = Some ctx1"
    and "controller_loop G env timer_status (c, ctx1, out) = Some (c', ctx', (r, msg) # out)"
  shows "frame_fits (tx_hdr r, msg)" and "mq_action msg = HOLD \<longleftrightarrow> ct_state ctx' = IO_DEVICE_MISSING"
    and "\<And>i. i < unat (cg_num_peers cfg) \<Longrightarrow>
      iq_command (cg_peer_ids cfg ! i) (tx_hdr r, msg) = Some (si_iq_req (mq_array msg ! i))"
    and "\<And>i j. i < unat (cg_num_peers cfg) \<Longrightarrow> j < unat (cg_num_peers cfg) \<Longrightarrow>
      \<forall>f \<in> set fs. \<not> well_report (cg_peer_ids cfg ! j) f \<Longrightarrow> si_iq_req (mq_array msg ! i) = f0 G"
    and "\<And>j. j < unat (cg_num_peers cfg) \<Longrightarrow> \<forall>f \<in> set fs. \<not> well_report (cg_peer_ids cfg ! j) f \<Longrightarrow>
      ct_state ctx \<noteq> STANDBY \<Longrightarrow> mq_action msg = HOLD"
proof -
  let ?tx = "fst (snd (cyclic_net_transmit c MSG_SET_IQ SET_IQ_SIZE (cn_ready env) (cn_sent env)))"
  obtain msg' where m: "(r, msg) # out = (case ?tx of None \<Rightarrow> out | Some r \<Rightarrow> (r, msg') # out)"
    "mq_action msg' = HOLD \<longleftrightarrow> ct_state ctx' = IO_DEVICE_MISSING" "unat (mq_num_msg msg') \<le> length (mq_array msg')"
    "\<forall>r i. ?tx = Some r \<and> i < unat (cg_num_peers cfg) \<longrightarrow>
       iq_command (cg_peer_ids cfg ! i) (tx_hdr r, msg') = Some (si_iq_req (mq_array msg' ! i))"
    "(\<exists>i < unat (cg_num_peers cfg). \<forall>f \<in> set fs. \<not> well_report (cg_peer_ids cfg ! i) f) \<longrightarrow>
       (\<forall>i < unat (cg_num_peers cfg). si_iq_req (mq_array msg' ! i) = f0 G) \<and> (ct_state ctx \<noteq> STANDBY \<longrightarrow> mq_action msg' = HOLD)"
    using controller_turn_ok [OF assms(1-5), of env timer_status out] assms(6,7) by auto
  have tx: "?tx = Some r" and msg: "msg' = msg" using m(1) by (auto split: option.splits)
  show "frame_fits (tx_hdr r, msg)" and "mq_action msg = HOLD \<longleftrightarrow> ct_state ctx' = IO_DEVICE_MISSING"
    using m(2,3) msg by (simp_all add: frame_fits_def)
  show "iq_command (cg_peer_ids cfg ! i) (tx_hdr r, msg) = Some (si_iq_req (mq_array msg ! i))" if "i < unat (cg_num_peers cfg)" for i
    using m(4) tx msg that by simp
  show "si_iq_req (mq_array msg ! i) = f0 G"
    if "i < unat (cg_num_peers cfg)" "j < unat (cg_num_peers cfg)" "\<forall>f \<in> set fs. \<not> well_report (cg_peer_ids cfg ! j) f" for i j
    using m(5) msg that by blast
  show "mq_action msg = HOLD"
    if "j < unat (cg_num_peers cfg)" "\<forall>f \<in> set fs. \<not> well_report (cg_peer_ids cfg ! j) f" "ct_state ctx \<noteq> STANDBY" for j
    using m(5) msg that by blast
qed

text \<open>A device in use.\<close>

lemma io_steps_ready:
  assumes "length (dv_motors ctx00) = 1"
    and "io_device_init G L alloc queue button monitoring task 1 (ctx00, w00) = Some (0, ctx0, w0)"
    and "(io_step G L M task_id)\<^sup>*\<^sup>* ctx0 ctx"
  shows "io_ready ctx"
  using assms(3) by (induction rule: rtranclp_induct) (auto intro: io_step_ready io_init_ready [OF assms(1,2)])

section \<open>The network stops together\<close>

text \<open>
  C1. The controller made a turn on the frames it received and sent a message; a device it is configured for made its
  next turn with this message as the last frame it received. Then the device's turn returns, and if it leaves the motor to
  the controller, the drive gets exactly the current the controller wrote for this device. But if any device of the
  network did not report to the controller that it is well, that current is zero, and unless the controller was in
  standby the device does not leave the motor to the controller: one that was driven has its current loop opened.
\<close>

theorem network_failsafe:
  assumes "controller_setup env0 cfg ct00" and "controller_init G M env0 cfg ct00 = Some (0, ct0)"
    and "(controller_step G)\<^sup>*\<^sup>* ct0 ct" and "\<forall>f \<in> set fs. feedback_fits f"
    and "tp_task_period_ns (cy_params c) \<noteq> 0" and "tp_task_period_ns (cy_params c) \<le> 1000000"
    and "controller_num_sched_stats G (tp_task_period_ns (cy_params c)) \<noteq> 0"
    and "controller_receive_all fs ct = Some ct1"
    and "controller_loop G env timer_status (c, ct1, out) = Some (c', ct', (r, msg) # out)"
    and "i < unat (cg_num_peers cfg)"
    and "length (dv_motors dv00) = 1"
    and "io_device_init G L alloc queue button monitoring task 1 (dv00, w00) = Some (0, dv0, w0)"
    and "(io_step G L M (cg_peer_ids cfg ! i))\<^sup>*\<^sup>* dv0 dv" and "\<forall>f \<in> set hs. frame_fits f"
    and "tp_task_period_ns (cy_params d) \<noteq> 0" and "tp_task_period_ns (cy_params d) \<le> 1000000"
  shows "\<exists>dv1 d' dv' w' sent'. io_receive_all (cg_peer_ids cfg ! i) (hs @ [(tx_hdr r, msg)]) dv = Some dv1 \<and>
    io_device_loop G L M dv_env dv_timer_status (d, dv1, w, sent) = Some (d', dv', w', sent') \<and>
    (dv_state dv' = REMOTE_CONTROL \<longrightarrow>
       dv_offset_reached dv \<and> dv_state dv \<noteq> MOTOR_FAULT \<and> ct_state ct' \<noteq> IO_DEVICE_MISSING \<and>
       w' = lb_slow_loop L (mcapi_set_iq_req G M (si_iq_req (mq_array msg ! i))
              (mcapi_set_closed_current_loop (\<not> dv_timer_status < 0) w))) \<and>
    ((\<exists>j < unat (cg_num_peers cfg). \<forall>f \<in> set fs. \<not> well_report (cg_peer_ids cfg ! j) f) \<longrightarrow>
       si_iq_req (mq_array msg ! i) = f0 G \<and>
       (ct_state ct \<noteq> STANDBY \<longrightarrow> dv_state dv' \<noteq> REMOTE_CONTROL \<and>
          (dv_state dv \<in> {REMOTE_CONTROL, FREERUNNING} \<and> lb_app_state L w \<noteq> 0 \<longrightarrow>
             pm_enable_pi (fst w') = False \<and> pm_iq_external (fst w') = iq_limited G M (f0 G))))"
proof -
  note sent = sent_message [OF controller_run_steps [OF assms(1-3)] assms(4-9)]
  have fits: "\<forall>f \<in> set (hs @ [(tx_hdr r, msg)]). frame_fits f" using assms(14) sent(1) by simp
  have cmd: "iq_command (cg_peer_ids cfg ! i) (tx_hdr r, msg) = Some (si_iq_req (mq_array msg ! i))" by (rule sent(3) [OF assms(10)])
  have ne: "hs @ [(tx_hdr r, msg)] \<noteq> []" "Some (si_iq_req (mq_array msg ! i)) \<noteq> None" by simp_all
  obtain dv1 d' dv' w' sent' where turn: "io_receive_all (cg_peer_ids cfg ! i) (hs @ [(tx_hdr r, msg)]) dv = Some dv1"
    "io_device_loop G L M dv_env dv_timer_status (d, dv1, w, sent) = Some (d', dv', w', sent')"
    "dv_state dv' = REMOTE_CONTROL \<longleftrightarrow>
       dv_offset_reached dv \<and> dv_state dv \<noteq> MOTOR_FAULT \<and> lb_app_state L w \<noteq> 0 \<and> mq_action msg = APPLY_IQ"
    "dv_state dv' = REMOTE_CONTROL \<longrightarrow> w' = lb_slow_loop L (mcapi_set_iq_req G M (si_iq_req (mq_array msg ! i))
       (mcapi_set_closed_current_loop (\<not> dv_timer_status < 0) w))"
    "dv_state dv \<in> {REMOTE_CONTROL, FREERUNNING} \<and> lb_app_state L w \<noteq> 0 \<and> dv_state dv' \<noteq> REMOTE_CONTROL \<longrightarrow>
       dv_state dv' = FREERUNNING \<and> pm_enable_pi (fst w') = False \<and> pm_iq_external (fst w') = iq_limited G M (f0 G)"
    using io_turn_ok [OF io_steps_ready [OF assms(11-13)] fits assms(15,16), of "cg_peer_ids cfg ! i" G L M dv_env dv_timer_status w sent] ne
    unfolding last_snoc snd_conv cmd option.sel by blast
  have apart: "mq_action msg = APPLY_IQ \<Longrightarrow> mq_action msg \<noteq> HOLD" by simp
  show ?thesis
    by (intro exI conjI, rule turn(1), rule turn(2)) (use turn(3-5) sent(2,4,5) assms(10) apart in blast)+
qed

text \<open>The first turns of a controller and of its first device; the second device is silent.\<close>

lemma demo_transmit: "\<exists>r. fst (snd (cyclic_net_transmit demo_cyclic MSG_SET_IQ SET_IQ_SIZE 1 1)) = Some r"
  by (simp add: cyclic_net_transmit_def demo_cyclic_def demo_task_def demo_net_def tsn_net_transmit_done_def
      tsn_net_transmit_sock_def Let_def split: prod.split)

lemma demo_cyclic_period:
  "tp_task_period_ns (cy_params demo_cyclic) \<noteq> 0" "tp_task_period_ns (cy_params demo_cyclic) \<le> 1000000"
  "controller_num_sched_stats int_flt (tp_task_period_ns (cy_params demo_cyclic)) \<noteq> 0"
proof -
  have p: "tp_task_period_ns (cy_params demo_cyclic) = 1000000" by (simp add: demo_cyclic_def demo_task_def)
  show "tp_task_period_ns (cy_params demo_cyclic) \<noteq> 0" "tp_task_period_ns (cy_params demo_cyclic) \<le> 1000000"
    "controller_num_sched_stats int_flt (tp_task_period_ns (cy_params demo_cyclic)) \<noteq> 0"
    unfolding p by (simp_all add: controller_num_sched_stats_def int_flt_def)
qed

theorem network_failsafe_witness:
  "\<exists>ct0 ct1 c' ct' r msg dv1 d' dv' w' sent'.
     controller_init int_flt demo_m1 demo_controller_env demo_controller_config demo_zeroed_controller = Some (0, ct0) \<and>
     controller_receive_all [] ct0 = Some ct1 \<and>
     controller_loop int_flt demo_network_env 0 (demo_cyclic, ct1, []) = Some (c', ct', [(r, msg)]) \<and>
     io_receive_all 1 [(tx_hdr r, msg)] demo_device = Some dv1 \<and>
     io_device_loop int_flt demo_lib demo_m1 demo_io_env 0 (demo_cyclic, dv1, demo_drive, []) = Some (d', dv', w', sent') \<and>
     si_iq_req (mq_array msg ! 0) = f0 int_flt"
proof -
  obtain ct0 where init: "controller_init int_flt demo_m1 demo_controller_env demo_controller_config demo_zeroed_controller = Some (0, ct0)"
    using demo_controller_init by blast
  obtain w where dinit: "io_device_init int_flt demo_lib (\<lambda>_. True) True True True True 1 (demo_zeroed_device, demo_drive) = Some (0, demo_device, w)"
    using demo_device_init by blast
  have len: "length (dv_motors demo_zeroed_device) = 1" by (simp add: demo_zeroed_device_def)
  have run: "controller_run demo_controller_config ct0"
    by (rule controller_run_steps [OF demo_controller_setup init rtranclp.rtrancl_refl])
  obtain r where r: "fst (snd (cyclic_net_transmit demo_cyclic MSG_SET_IQ SET_IQ_SIZE (cn_ready demo_network_env) (cn_sent demo_network_env))) = Some r"
    using demo_transmit by (auto simp: demo_network_env_def)
  have none: "\<forall>f \<in> set ([] :: (tsn_common_hdr \<times> int msg_feedback) list). feedback_fits f"
    "\<forall>f \<in> set ([] :: (tsn_common_hdr \<times> int msg_set_iq) list). frame_fits f" by simp_all
  obtain ct1 c' ct' msg where turn: "controller_receive_all [] ct0 = Some ct1"
    "controller_loop int_flt demo_network_env 0 (demo_cyclic, ct1, []) = Some (c', ct', [(r, msg)])"
    using controller_turn_ok [OF run none(1) demo_cyclic_period, of demo_network_env 0 "[]"] unfolding r option.case by blast
  have zero: "0 < unat (cg_num_peers demo_controller_config)" "cg_peer_ids demo_controller_config ! 0 = 1"
    by (simp_all add: demo_controller_config_def)
  have lost: "\<exists>j < unat (cg_num_peers demo_controller_config). \<forall>f \<in> set ([] :: (tsn_common_hdr \<times> int msg_feedback) list).
      \<not> well_report (cg_peer_ids demo_controller_config ! j) f"
    using zero(1) by (intro exI [of _ 0]) simp
  show ?thesis
    using network_failsafe [OF demo_controller_setup init rtranclp.rtrancl_refl none(1) demo_cyclic_period turn zero(1) len dinit
        rtranclp.rtrancl_refl none(2) demo_cyclic_period(1,2), of demo_io_env 0 demo_drive "[]"] init turn lost
    unfolding zero(2) append_Nil by blast
qed

end
