(* ===== verification/Tsn_Resource.thy ===== *)
theory Tsn_Resource
  imports Tsn_Cyclic "HOL-Library.Multiset"
begin

text \<open>
  The resources a program takes from the system and gives back: memory, sockets, timers, threads, queues and
  packet buffers. Every call that takes one has a number, which is also the handle it returns; which calls succeed is a parameter. Giving back what
  is not held, a double free, is a trap.
\<close>

section \<open>Taking and giving back\<close>

datatype resource = Memory | Rx_socket | Tx_socket | Timer | Thread | Queue | Stats_socket | Semaphore | Packet

record sys =
  sy_next :: nat
  sy_live :: "(resource \<times> nat) set"

definition acquire :: "(nat \<Rightarrow> bool) \<Rightarrow> resource \<Rightarrow> sys \<Rightarrow> nat option \<times> sys" where
  "acquire A r s =
     (let n = sy_next s; s = s\<lparr>sy_next := n + 1\<rparr>
      in if A n then (Some n, s\<lparr>sy_live := insert (r, n) (sy_live s)\<rparr>) else (None, s))"

definition release :: "resource \<Rightarrow> nat \<Rightarrow> sys \<Rightarrow> sys option" where
  "release r h s = (if (r, h) \<in> sy_live s then Some (s\<lparr>sy_live := sy_live s - {(r, h)}\<rparr>) else None)"

text \<open>A call that creates no resource but may fail.\<close>

definition attempt :: "(nat \<Rightarrow> bool) \<Rightarrow> sys \<Rightarrow> bool \<times> sys" where
  "attempt A s = (A (sy_next s), s\<lparr>sy_next := sy_next s + 1\<rparr>)"

primrec release_all :: "(resource \<times> nat) list \<Rightarrow> sys \<Rightarrow> sys option" where
  "release_all [] s = Some s"
| "release_all (x # xs) s = Option.bind (release (fst x) (snd x) s) (release_all xs)"

text \<open>A call that may grant several packet buffers at once, each with its handle; \<open>k\<close> is how many it granted.\<close>

definition take_packets :: "nat \<Rightarrow> sys \<Rightarrow> nat list \<times> sys" where
  "take_packets k s =
     (let n = sy_next s + 1; bufs = [n ..< n + k]
      in (bufs, s\<lparr>sy_next := n + k, sy_live := Pair Packet ` set bufs \<union> sy_live s\<rparr>))"

section \<open>Accounts\<close>

text \<open>
  Handles are numbers of past calls. \<open>holds s0 xs s\<close>: since \<open>s0\<close> exactly the resources \<open>xs\<close> were taken and not given back.
\<close>

definition sys_ok :: "sys \<Rightarrow> bool" where
  "sys_ok s \<longleftrightarrow> (\<forall>(r, h) \<in> sy_live s. h < sy_next s)"

definition holds :: "sys \<Rightarrow> (resource \<times> nat) list \<Rightarrow> sys \<Rightarrow> bool" where
  "holds s0 xs s \<longleftrightarrow> sy_next s0 \<le> sy_next s \<and> sy_live s = sy_live s0 \<union> set xs \<and> distinct xs \<and>
     (\<forall>(r, h) \<in> set xs. sy_next s0 \<le> h \<and> h < sy_next s)"

lemma holds_refl: "holds s [] s"
  by (simp add: holds_def)

lemma holds_live: "holds s0 [] s \<Longrightarrow> sy_live s = sy_live s0"
  by (simp add: holds_def)

lemma holds_sys_ok: "sys_ok s0 \<Longrightarrow> holds s0 xs s \<Longrightarrow> sys_ok s"
  by (fastforce simp: sys_ok_def holds_def)

lemma holds_perm: "holds s0 xs s \<Longrightarrow> set ys = set xs \<Longrightarrow> distinct ys \<Longrightarrow> holds s0 ys s"
  by (simp add: holds_def)

lemma holds_mset: "holds s0 xs s \<Longrightarrow> mset ys = mset xs \<Longrightarrow> holds s0 ys s"
  using mset_eq_setD [of ys xs] mset_eq_imp_distinct_iff [of ys xs] by (simp add: holds_def)

lemma acquire_holds:
  assumes "holds s0 xs s" and "acquire A r s = (h, s')"
  shows "case h of None \<Rightarrow> holds s0 xs s' | Some n \<Rightarrow> holds s0 ((r, n) # xs) s'"
  using assms by (fastforce simp: acquire_def holds_def Let_def split: if_splits)

lemma acquire_some: "holds s0 xs s \<Longrightarrow> acquire A r s = (Some n, s') \<Longrightarrow> holds s0 ((r, n) # xs) s'"
  using acquire_holds by fastforce

lemma acquire_none: "holds s0 xs s \<Longrightarrow> acquire A r s = (None, s') \<Longrightarrow> holds s0 xs s'"
  using acquire_holds by fastforce

lemma attempt_holds: "holds s0 xs s \<Longrightarrow> attempt A s = (b, s') \<Longrightarrow> holds s0 xs s'"
  by (fastforce simp: attempt_def holds_def)

lemma take_packets_holds:
  assumes "holds s0 xs s" and "take_packets k s = (bufs, s')"
  shows "holds s0 (map (Pair Packet) bufs @ xs) s'" and "length bufs = k"
  using assms by (fastforce simp: take_packets_def holds_def Let_def distinct_map inj_on_def)+

lemma release_holds:
  assumes "sys_ok s0" and "holds s0 (xs @ (r, h) # ys) s"
  shows "\<exists>s'. release r h s = Some s' \<and> holds s0 (xs @ ys) s'"
  using assms by (auto simp: release_def holds_def sys_ok_def)

lemma release_last: "sys_ok s0 \<Longrightarrow> holds s0 ((r, h) # ys) s \<Longrightarrow> \<exists>s'. release r h s = Some s' \<and> holds s0 ys s'"
  using release_holds [of s0 "[]"] by simp

lemma release_all_holds:
  assumes "sys_ok s0" and "holds s0 (xs @ ys) s"
  shows "\<exists>s'. release_all xs s = Some s' \<and> holds s0 ys s'"
  using assms(2)
proof (induction xs arbitrary: s)
  case (Cons x xs)
  obtain s1 where s1: "release (fst x) (snd x) s = Some s1" "holds s0 (xs @ ys) s1"
    using release_last [OF assms(1), of "fst x" "snd x" "xs @ ys" s] Cons.prems by auto
  show ?case using Cons.IH [OF s1(2)] s1(1) by simp
qed simp

lemma release_all_append:
  "release_all (xs @ ys) s = Option.bind (release_all xs s) (release_all ys)"
  by (induction xs arbitrary: s) (simp_all split: Option.bind_split)

text \<open>What is not held cannot be given back.\<close>

lemma release_gone: "(r, h) \<notin> sy_live s \<Longrightarrow> release r h s = None"
  by (simp add: release_def)

end
