(* ===== verification/Tsn_Init.thy ===== *)
theory Tsn_Init
  imports Tsn_Resource Tsn_Schedule
begin

text \<open>
  Creation and end of a time-sensitive task, \<open>tsn/tsn_task.c\<close>: the sockets are opened, the thread and the timer
  created; a failure on the way undoes what was done.
\<close>

section \<open>A task and its resources\<close>

text \<open>The handles of a socket: that of the network stack, the array of packets and, without copy, the packet buffers in it.\<close>

record sock_handles =
  sh_sock :: "nat option"
  sh_iovec :: "nat option"
  sh_packets :: "nat list"

text \<open>\<open>struct tsn_task\<close> as allocated: its address, its contents, its thread, timer and sockets.\<close>

record task_mem =
  tm_block :: nat
  tm_task :: tsn_task
  tm_thread :: "nat option"
  tm_timer :: "nat option"
  tm_rx :: "sock_handles list"
  tm_tx :: "sock_handles list"

abbreviation (input) MAX_RX_SOCKET :: nat where "MAX_RX_SOCKET \<equiv> 2"
abbreviation (input) MAX_TX_SOCKET :: nat where "MAX_TX_SOCKET \<equiv> 1"

text \<open>After \<open>memset\<close>.\<close>

definition zeroed_net_socket :: net_socket where
  "zeroed_net_socket = \<lparr>nk_id = 0, nk_n = 0, nk_ts = 0, nk_zero_copy = False, nk_tx_pending = False, nk_hdr_len = 0,
     nk_stats = \<lparr>nss_pending = False, nss_frames = 0, nss_err = 0\<rparr>, nk_stats_snap = \<lparr>nss_pending = False, nss_frames = 0, nss_err = 0\<rparr>\<rparr>"

definition zeroed_hist :: rtos_apps_hist where
  "zeroed_hist = \<lparr>slots = replicate 101 0, n_slots = 0, slot_size = 0\<rparr>"

definition zeroed_task_stats :: tsn_task_stats where
  "zeroed_task_stats = \<lparr>ts_pending = False, ts_sched_err = stats_zeroed, ts_sched_err_hist = zeroed_hist, ts_proc_time = stats_zeroed,
     ts_proc_time_hist = zeroed_hist, ts_total_time = stats_zeroed, ts_total_time_hist = zeroed_hist, ts_sched = 0, ts_sched_early = 0,
     ts_sched_missed = 0, ts_sched_timeout = 0, ts_clock_discont = 0, ts_sched_err_max = 0\<rparr>"

definition zeroed_task :: "tsn_task_params \<Rightarrow> nat \<Rightarrow> task_mem" where
  "zeroed_task params block =
     \<lparr>tm_block = block,
      tm_task = \<lparr>tk_timer = False, tk_timer_start = None, tk_params = params, tk_clock_discont = 0,
        tk_rx = replicate MAX_RX_SOCKET zeroed_net_socket, tk_tx = replicate MAX_TX_SOCKET zeroed_net_socket,
        tk_stats = zeroed_task_stats, tk_stats_snap = zeroed_task_stats, tk_sched_time = 0, tk_sched_now = 0\<rparr>,
      tm_thread = None, tm_timer = None,
      tm_rx = replicate MAX_RX_SOCKET \<lparr>sh_sock = None, sh_iovec = None, sh_packets = []\<rparr>, tm_tx = replicate MAX_TX_SOCKET \<lparr>sh_sock = None, sh_iovec = None, sh_packets = []\<rparr>\<rparr>"

definition upd_rx :: "nat \<Rightarrow> (net_socket \<Rightarrow> net_socket) \<Rightarrow> task_mem \<Rightarrow> task_mem" where
  "upd_rx i f t = t\<lparr>tm_task := (tm_task t)\<lparr>tk_rx := (tk_rx (tm_task t))[i := f (tk_rx (tm_task t) ! i)]\<rparr>\<rparr>"

definition upd_tx :: "nat \<Rightarrow> (net_socket \<Rightarrow> net_socket) \<Rightarrow> task_mem \<Rightarrow> task_mem" where
  "upd_tx i f t = t\<lparr>tm_task := (tm_task t)\<lparr>tk_tx := (tk_tx (tm_task t))[i := f (tk_tx (tm_task t) ! i)]\<rparr>\<rparr>"

section \<open>Sockets\<close>

text \<open>
  Opening a reception socket. The loop is left with the number of sockets opened before; \<open>Inl None\<close> is a trap. The traffic
  class option may fail, which is only logged.
\<close>

definition rx_socket_init ::
  "(nat \<Rightarrow> bool) \<Rightarrow> nat \<Rightarrow> task_mem \<times> sys \<Rightarrow> (nat \<times> task_mem \<times> sys) option + task_mem \<times> sys" where
  "rx_socket_init A i st =
     (let (t, s) = st; params = tk_params (tm_task t) in
      if i < length (tm_rx t) \<and> i < length (tk_rx (tm_task t)) then
        (let t = upd_rx i (\<lambda>n. n\<lparr>nk_id := i\<rparr>) t;
             (sock, s) = acquire A Rx_socket s
         in case sock of
              None \<Rightarrow> Inl (Some (i, t, s))
            | Some h \<Rightarrow>
                let t = upd_rx i (\<lambda>n. n\<lparr>nk_zero_copy := tp_zero_copy params, nk_n := tp_num_packets params\<rparr>) t;
                    (iovec, s) = acquire A Memory s;
                    t = t\<lparr>tm_rx := (tm_rx t)[i := \<lparr>sh_sock = Some h, sh_iovec = iovec, sh_packets = []\<rparr>]\<rparr>
                in case iovec of
                     None \<Rightarrow> (case release Rx_socket h s of None \<Rightarrow> Inl None | Some s \<Rightarrow> Inl (Some (i, t, s)))
                   | Some b \<Rightarrow> Inr (t, snd (attempt A s)))
      else Inl None)"

text \<open>
  The packets of a zero-copy socket; \<open>alloc i n\<close> is how many of \<open>n\<close> buffers the network stack gives when asked in call \<open>i\<close>,
  negative for an error. When they are too few, the code frees as many as are missing, from the first; to free more than it
  was given, pointers never written, is a trap. The header is the same in every packet.
\<close>

definition tsn_net_transmit_init ::
  "(nat \<Rightarrow> u32 \<Rightarrow> s32) \<Rightarrow> net_socket \<Rightarrow> sys \<Rightarrow> (net_flags \<times> net_socket \<times> nat list \<times> sys) option" where
  "tsn_net_transmit_init alloc sock s =
     (let rc = alloc (sy_next s) (nk_n sock);
          (bufs, s) = take_packets (if rc = nk_n sock then unat rc else nat (sint rc)) s
      in if rc = nk_n sock then
           Some (NET_OK, if nk_n sock = 0 then sock else sock\<lparr>nk_hdr_len := 14 + 4\<rparr>, bufs, s)
         else if 0 < sint rc then
           (if unat (nk_n sock - rc) \<le> length bufs
            then map_option (\<lambda>s. (NET_ERR, sock, [], s)) (release_all (map (Pair Packet) (take (unat (nk_n sock - rc)) bufs)) s)
            else None)
         else Some (NET_ERR, sock, [], s))"

text \<open>
  Opening a transmission socket. When the allocation of its packets fails, the socket, its array and the packets it was
  given and did not free stay.
\<close>

definition tx_socket_init ::
  "(nat \<Rightarrow> bool) \<Rightarrow> (nat \<Rightarrow> u32 \<Rightarrow> s32) \<Rightarrow> nat \<Rightarrow> task_mem \<times> sys \<Rightarrow> (nat \<times> task_mem \<times> sys) option + task_mem \<times> sys" where
  "tx_socket_init A alloc j st =
     (let (t, s) = st; params = tk_params (tm_task t) in
      if j < length (tm_tx t) \<and> j < length (tk_tx (tm_task t)) then
        (let t = upd_tx j (\<lambda>n. n\<lparr>nk_id := j\<rparr>) t;
             (sock, s) = acquire A Tx_socket s
         in case sock of
              None \<Rightarrow> Inl (Some (j, t, s))
            | Some h \<Rightarrow>
                let t = upd_tx j (\<lambda>n. n\<lparr>nk_zero_copy := tp_zero_copy params, nk_n := tp_num_packets params, nk_tx_pending := False\<rparr>) t;
                    (iovec, s) = acquire A Memory s;
                    t = t\<lparr>tm_tx := (tm_tx t)[j := \<lparr>sh_sock = Some h, sh_iovec = iovec, sh_packets = []\<rparr>]\<rparr>
                in case iovec of
                     None \<Rightarrow> (case release Tx_socket h s of None \<Rightarrow> Inl None | Some s \<Rightarrow> Inl (Some (j, t, s)))
                   | Some b \<Rightarrow>
                       if tp_zero_copy params then
                         (case tsn_net_transmit_init alloc (tk_tx (tm_task t) ! j) s of
                            None \<Rightarrow> Inl None
                          | Some (status, net, bufs, s) \<Rightarrow>
                              if status \<noteq> NET_OK then Inl (Some (j, t, s))
                              else Inr ((upd_tx j (\<lambda>_. net) t)\<lparr>tm_tx := (tm_tx t)[j := \<lparr>sh_sock = Some h, sh_iovec = iovec, sh_packets = bufs\<rparr>]\<rparr>, s))
                       else Inr (t, s))
      else Inl None)"

text \<open>Freeing the arrays and closing the sockets \<open>0\<close> to \<open>n - 1\<close>. The packet buffers in an array are not given back.\<close>

definition close_sockets :: "resource \<Rightarrow> nat \<Rightarrow> sock_handles list \<Rightarrow> sys \<Rightarrow> sys option" where
  "close_sockets r n hs s =
     for_upto_opt n
       (\<lambda>k s. if k < length hs then
          (case (sh_iovec (hs ! k), sh_sock (hs ! k)) of
             (Some b, Some h) \<Rightarrow> Option.bind (release Memory b s) (release r h)
           | _ \<Rightarrow> None) else None) s"

definition tsn_task_net_init ::
  "(nat \<Rightarrow> bool) \<Rightarrow> (nat \<Rightarrow> u32 \<Rightarrow> s32) \<Rightarrow> task_mem \<times> sys \<Rightarrow> (int \<times> task_mem \<times> sys) option" where
  "tsn_task_net_init A alloc st =
     (let params = tk_params (tm_task (fst st)); num_rx = nat (sint (tp_num_rx_socket params)) in
      case for_upto_err num_rx (rx_socket_init A) st of
        Inl None \<Rightarrow> None
      | Inl (Some (i, t, s)) \<Rightarrow> map_option (\<lambda>s. (- 1, t, s)) (close_sockets Rx_socket i (tm_rx t) s)
      | Inr st \<Rightarrow>
          case for_upto_err (nat (sint (tp_num_tx_socket params))) (tx_socket_init A alloc) st of
            Inl None \<Rightarrow> None
          | Inl (Some (j, t, s)) \<Rightarrow>
              do {
                s \<leftarrow> close_sockets Tx_socket j (tm_tx t) s;
                s \<leftarrow> close_sockets Rx_socket num_rx (tm_rx t) s;
                Some (- 1, t, s)
              }
          | Inr (t, s) \<Rightarrow> Some (0, t, s))"

definition tsn_task_net_exit :: "task_mem \<Rightarrow> sys \<Rightarrow> sys option" where
  "tsn_task_net_exit t s =
     (let params = tk_params (tm_task t) in
      do {
        s \<leftarrow> close_sockets Rx_socket (nat (sint (tp_num_rx_socket params))) (tm_rx t) s;
        close_sockets Tx_socket (nat (sint (tp_num_tx_socket params))) (tm_tx t) s
      })"

section \<open>Tasks\<close>

text \<open>
  \<open>main_loop\<close> and \<open>callback\<close> tell whether the function is given. The result is the task pointer, \<open>None\<close> when it is
  null or its memory was freed.
\<close>

definition tsn_task_register ::
  "(nat \<Rightarrow> bool) \<Rightarrow> (nat \<Rightarrow> u32 \<Rightarrow> s32) \<Rightarrow> tsn_task_params \<Rightarrow> bool \<Rightarrow> bool \<Rightarrow> sys \<Rightarrow> (int \<times> task_mem option \<times> sys) option" where
  "tsn_task_register A alloc params main_loop callback s =
     (let (block, s) = acquire A Memory s in
      case block of
        None \<Rightarrow> Some (- 1, None, s)
      | Some b \<Rightarrow>
          let err_free = (\<lambda>s. map_option (\<lambda>s. (- 1, None, s)) (release Memory b s)) in
          do {
            (rc, t, s) \<leftarrow> tsn_task_net_init A alloc (zeroed_task params b, s);
            if rc < 0 then err_free s
            else
              (let t = t\<lparr>tm_task := tsn_task_stats_init (tm_task t)\<rparr>;
                   net_exit = (\<lambda>s. Option.bind (tsn_task_net_exit t s) err_free);
                   (thread, s) = (if main_loop then acquire A Thread s else (None, s))
               in if main_loop \<and> thread = None then net_exit s
                  else
                    (let t = t\<lparr>tm_thread := thread\<rparr>;
                         task_delete = (\<lambda>s. case thread of None \<Rightarrow> net_exit s | Some h \<Rightarrow> Option.bind (release Thread h s) net_exit)
                     in if callback then
                          (let (timer, s) = acquire A Timer s in
                           case timer of
                             None \<Rightarrow> task_delete s
                           | Some h \<Rightarrow>
                               let (set, s) = attempt A s
                               in if \<not> set then Option.bind (release Timer h s) task_delete
                                  else Some (0, Some (t\<lparr>tm_timer := timer, tm_task := (tm_task t)\<lparr>tk_timer := True\<rparr>\<rparr>), s))
                        else Some (0, Some t, s)))
          })"

text \<open>The thread is aborted whether or not there is one: aborting what was never created is a trap.\<close>

definition tsn_task_unregister :: "task_mem \<Rightarrow> sys \<Rightarrow> sys option" where
  "tsn_task_unregister t s =
     do {
       s \<leftarrow> (case tm_timer t of None \<Rightarrow> Some s | Some h \<Rightarrow> release Timer h s);
       s \<leftarrow> (case tm_thread t of None \<Rightarrow> None | Some h \<Rightarrow> release Thread h s);
       s \<leftarrow> tsn_task_net_exit t s;
       release Memory (tm_block t) s
     }"

section \<open>The account of the sockets\<close>

definition pairs :: "resource \<Rightarrow> sock_handles list \<Rightarrow> (resource \<times> nat) list" where
  "pairs r hs = concat (map (\<lambda>x. [(Memory, the (sh_iovec x)), (r, the (sh_sock x))]) hs)"

definition opened :: "sock_handles list \<Rightarrow> bool" where
  "opened hs \<longleftrightarrow> (\<forall>x \<in> set hs. sh_sock x \<noteq> None \<and> sh_iovec x \<noteq> None)"

definition packets :: "sock_handles list \<Rightarrow> (resource \<times> nat) list" where
  "packets hs = concat (map (\<lambda>x. map (Pair Packet) (sh_packets x)) hs)"

lemma packets_append [simp]: "packets (xs @ ys) = packets xs @ packets ys" "packets [] = []"
  by (simp_all add: packets_def)

lemma packets_packet: "x \<in> set (packets hs) \<Longrightarrow> fst x = Packet"
  by (auto simp: packets_def)

lemma pairs_append [simp]: "pairs r (xs @ ys) = pairs r xs @ pairs r ys" "pairs r [] = []"
  by (simp_all add: pairs_def)

lemma opened_append [simp]: "opened (xs @ ys) = (opened xs \<and> opened ys)" "opened []"
  by (auto simp: opened_def)

lemma close_sockets_all:
  assumes "opened (take n hs)" and "n \<le> length hs"
  shows "close_sockets r n hs s = release_all (pairs r (take n hs)) s"
  using assms
proof (induction n)
  case (Suc n)
  then have n: "n < length hs" "take (Suc n) hs = take n hs @ [hs ! n]" by (simp_all add: take_Suc_conv_app_nth)
  then have "opened (take n hs)" "opened [hs ! n]" using Suc.prems(1) by simp_all
  then obtain h b where "sh_sock (hs ! n) = Some h" "sh_iovec (hs ! n) = Some b" by (auto simp: opened_def)
  then show ?case
    using Suc.IH [OF \<open>opened (take n hs)\<close>] n
    by (simp add: close_sockets_def release_all_append pairs_def split: option.split Option.bind_split)
qed (simp add: close_sockets_def pairs_def)

lemma close_sockets_holds:
  assumes "sys_ok s0" and "opened (take n hs)" and "n \<le> length hs" and "holds s0 (pairs r (take n hs) @ ys) s"
  shows "\<exists>s'. close_sockets r n hs s = Some s' \<and> holds s0 ys s'"
  using release_all_holds [OF assms(1,4)] by (simp add: close_sockets_all [OF assms(2,3)])

lemma take_Suc_update: "i < length xs \<Longrightarrow> take (Suc i) (xs[i := x]) = take i xs @ [x]"
  by (simp add: take_Suc_conv_app_nth)

text \<open>After \<open>i\<close> sockets for reception, on top of what was held before.\<close>

definition same_task :: "task_mem \<Rightarrow> task_mem \<Rightarrow> bool" where
  "same_task t t' \<longleftrightarrow> tm_block t' = tm_block t \<and> tm_thread t' = tm_thread t \<and> tm_timer t' = tm_timer t \<and>
     tk_timer (tm_task t') = tk_timer (tm_task t) \<and> tk_stats (tm_task t') = tk_stats (tm_task t) \<and> tk_params (tm_task t') = tk_params (tm_task t) \<and> length (tk_rx (tm_task t')) = length (tk_rx (tm_task t)) \<and>
     length (tk_tx (tm_task t')) = length (tk_tx (tm_task t)) \<and> length (tm_rx t') = length (tm_rx t) \<and> length (tm_tx t') = length (tm_tx t)"

lemma same_task_refl: "same_task t t"
  by (simp add: same_task_def)

definition rx_inv :: "sys \<Rightarrow> (resource \<times> nat) list \<Rightarrow> task_mem \<Rightarrow> nat \<Rightarrow> task_mem \<times> sys \<Rightarrow> bool" where
  "rx_inv s0 held t0 i st \<longleftrightarrow> same_task t0 (fst st) \<and> opened (take i (tm_rx (fst st))) \<and>
     holds s0 (pairs Rx_socket (take i (tm_rx (fst st))) @ held) (snd st)"

text \<open>How many packet buffers an open transmission socket has.\<close>

definition packet_count :: "tsn_task_params \<Rightarrow> nat" where
  "packet_count params = (if tp_zero_copy params then unat (tp_num_packets params) else 0)"

definition filled :: "tsn_task_params \<Rightarrow> sock_handles list \<Rightarrow> bool" where
  "filled params hs \<longleftrightarrow> opened hs \<and> (\<forall>x \<in> set hs. length (sh_packets x) = packet_count params)"

lemma filled_append [simp]: "filled params (xs @ ys) = (filled params xs \<and> filled params ys)" "filled params []"
  by (auto simp: filled_def)

lemma filled_opened: "filled params hs \<Longrightarrow> opened hs"
  by (simp add: filled_def)

lemma filled_packets: "filled params hs \<Longrightarrow> length (packets hs) = length hs * packet_count params"
  by (induction hs) (simp_all add: filled_def packets_def opened_def)

definition tx_inv :: "sys \<Rightarrow> (resource \<times> nat) list \<Rightarrow> task_mem \<Rightarrow> nat \<Rightarrow> task_mem \<times> sys \<Rightarrow> bool" where
  "tx_inv s0 held t0 j st \<longleftrightarrow> same_task t0 (fst st) \<and> tm_rx (fst st) = tm_rx t0 \<and> filled (tk_params (tm_task t0)) (take j (tm_tx (fst st))) \<and>
     holds s0 (pairs Tx_socket (take j (tm_tx (fst st))) @ packets (take j (tm_tx (fst st))) @ held) (snd st)"

lemma holds_rotate2: "holds s0 (a # b # xs @ held) s \<Longrightarrow> holds s0 (xs @ a # b # held) s"
  by (rule holds_perm, assumption) (auto simp: holds_def)

lemma holds_pair:
  "holds s0 ((Memory, b) # (r, h) # pairs r xs @ held) s \<Longrightarrow>
     holds s0 (pairs r (xs @ [\<lparr>sh_sock = Some h, sh_iovec = Some b, sh_packets = bufs\<rparr>]) @ held) s"
  by (drule holds_rotate2) (simp add: pairs_def)

lemma rx_socket_step:
  assumes "sys_ok s0" and "rx_inv s0 held t0 i st" and "i < length (tm_rx t0)" and "length (tk_rx (tm_task t0)) = length (tm_rx t0)"
  shows "case rx_socket_init A i st of Inr st' \<Rightarrow> rx_inv s0 held t0 (Suc i) st'
    | Inl e \<Rightarrow> \<exists>t' s'. e = Some (i, t', s') \<and> rx_inv s0 held t0 i (t', s')"
proof -
  obtain t s where st: "st = (t, s)" by (cases st)
  have inv: "same_task t0 t" "opened (take i (tm_rx t))" "holds s0 (pairs Rx_socket (take i (tm_rx t)) @ held) s"
    using assms(2) by (simp_all add: rx_inv_def st)
  have i: "i < length (tm_rx t)" "i < length (tk_rx (tm_task t))" using inv(1) assms(3,4) by (simp_all add: same_task_def)
  obtain sock s1 where a1: "acquire A Rx_socket s = (sock, s1)" by fastforce
  show ?thesis
  proof (cases sock)
    case None
    then show ?thesis
      using acquire_none [OF inv(3)] a1 inv i by (simp add: rx_socket_init_def st rx_inv_def upd_rx_def same_task_def Let_def)
  next
    case (Some h)
    note h1 = acquire_some [OF inv(3) a1 [unfolded Some]]
    obtain iovec s2 where a2: "acquire A Memory s1 = (iovec, s2)" by fastforce
    show ?thesis
    proof (cases iovec)
      case None
      obtain s3 where "release Rx_socket h s2 = Some s3" "holds s0 (pairs Rx_socket (take i (tm_rx t)) @ held) s3"
        using release_last [OF assms(1) acquire_none [OF h1 a2 [unfolded None]]] by blast
      then show ?thesis
        using None \<open>sock = Some h\<close> a1 a2 inv i by (simp add: rx_socket_init_def st rx_inv_def upd_rx_def same_task_def Let_def)
    next
      case (Some b)
      note h2 = acquire_some [OF h1 a2 [unfolded Some]]
      have "holds s0 (pairs Rx_socket (take i (tm_rx t) @ [\<lparr>sh_sock = Some h, sh_iovec = Some b, sh_packets = []\<rparr>]) @ held) (snd (attempt A s2))"
        by (rule attempt_holds [OF holds_pair [OF h2] prod.collapse [symmetric]])
      then show ?thesis
        using Some \<open>sock = Some h\<close> a1 a2 inv i
        by (simp add: rx_socket_init_def st rx_inv_def upd_rx_def same_task_def take_Suc_update Let_def)
          (simp add: opened_def)
    qed
  qed
qed

definition num_rx :: "tsn_task_params \<Rightarrow> nat" where
  "num_rx params = nat (sint (tp_num_rx_socket params))"

definition num_tx :: "tsn_task_params \<Rightarrow> nat" where
  "num_tx params = nat (sint (tp_num_tx_socket params))"

text \<open>
  What a failure may leave behind: packet buffers, and without copy the array and the handle of the transmission socket
  that failed.
\<close>

definition leak_of :: "tsn_task_params \<Rightarrow> nat \<Rightarrow> (resource \<times> nat) list \<Rightarrow> bool" where
  "leak_of params k extra \<longleftrightarrow> (\<exists>ps qs. extra = ps @ qs \<and> (\<forall>p \<in> set ps. fst p = Packet) \<and> length ps \<le> k \<and>
     (qs = [] \<or> tp_zero_copy params \<and> (\<exists>b h. qs = [(Memory, b), (Tx_socket, h)])))"

lemma leak_of_none: "leak_of params k []"
  by (simp add: leak_of_def)

lemma leak_of_packets: "(\<forall>p \<in> set ps. fst p = Packet) \<Longrightarrow> length ps \<le> k \<Longrightarrow> leak_of params k ps"
  by (auto simp: leak_of_def)

lemma leak_of_more:
  assumes "leak_of params k extra" and "\<forall>p \<in> set ps. fst p = Packet" and "length ps + k \<le> k'"
  shows "leak_of params k' (ps @ extra)"
proof -
  obtain ps' qs where "extra = ps' @ qs" "\<forall>p \<in> set ps'. fst p = Packet" "length ps' \<le> k"
    "qs = [] \<or> tp_zero_copy params \<and> (\<exists>b h. qs = [(Memory, b), (Tx_socket, h)])"
    using assms(1) by (auto simp: leak_of_def)
  then show ?thesis
    using assms(2,3) unfolding leak_of_def by (intro exI [of _ "ps @ ps'"] exI [of _ qs]) auto
qed

text \<open>
  An allocation of packet buffers answers an error, or grants at least half of what it was asked for: with fewer the code frees
  pointers it never wrote. One packet is granted or not.
\<close>

definition alloc_fits :: "(nat \<Rightarrow> u32 \<Rightarrow> s32) \<Rightarrow> bool" where
  "alloc_fits alloc \<longleftrightarrow> (\<forall>i n. sint (alloc i n) \<le> 0 \<or> alloc i n \<le> n \<and> unat n \<le> 2 * unat (alloc i n))"

lemma release_packets:
  assumes "sys_ok s0" and "holds s0 (map (Pair Packet) bufs @ xs) s"
  shows "\<exists>s'. release_all (map (Pair Packet) (take k bufs)) s = Some s' \<and> holds s0 (map (Pair Packet) (drop k bufs) @ xs) s'"
proof -
  have "map (Pair Packet) bufs = map (Pair Packet) (take k bufs) @ map (Pair Packet) (drop k bufs)"
    by (simp flip: map_append)
  then have "holds s0 (map (Pair Packet) (take k bufs) @ map (Pair Packet) (drop k bufs) @ xs) s" using assms(2) by simp
  from release_all_holds [OF assms(1) this] show ?thesis .
qed

lemma sint_pos_unat: "0 < sint (x :: s32) \<Longrightarrow> nat (sint x) = unat x"
  using uint_sint [of x] sint_lt [of x] by (simp add: take_bit_int_eq_self flip: nat_uint_eq)

lemma transmit_init_holds:
  assumes "sys_ok s0" and "alloc_fits alloc" and "holds s0 xs s"
  shows "\<exists>status net bufs s'. tsn_net_transmit_init alloc sock s = Some (status, net, bufs, s') \<and>
    (if status = NET_OK then length bufs = unat (nk_n sock) \<and> holds s0 (map (Pair Packet) bufs @ xs) s'
     else \<exists>lost. length lost \<le> unat (nk_n sock) \<and> holds s0 (map (Pair Packet) lost @ xs) s')"
proof -
  let ?n = "nk_n sock" and ?rc = "alloc (sy_next s) (nk_n sock)"
  let ?k = "if ?rc = ?n then unat ?rc else nat (sint ?rc)"
  obtain bufs s1 where t: "take_packets ?k s = (bufs, s1)" by fastforce
  note h = take_packets_holds [OF assms(3) t]
  consider "?rc = ?n" | "?rc \<noteq> ?n" "0 < sint ?rc" | "?rc \<noteq> ?n" "sint ?rc \<le> 0" by linarith
  then show ?thesis
  proof cases
    case 1
    then show ?thesis using h t by (simp add: tsn_net_transmit_init_def Let_def)
  next
    case 2
    have rc: "nat (sint ?rc) = unat ?rc" by (rule sint_pos_unat [OF 2(2)])
    have fit: "?rc \<le> ?n" "unat ?n \<le> 2 * unat ?rc" using assms(2) [unfolded alloc_fits_def, rule_format, of "sy_next s" ?n] 2(2) by linarith+
    have len: "unat (?n - ?rc) = unat ?n - unat ?rc" using fit(1) by (simp add: unat_sub)
    obtain s2 where s2: "release_all (map (Pair Packet) (take (unat (?n - ?rc)) bufs)) s1 = Some s2"
      "holds s0 (map (Pair Packet) (drop (unat (?n - ?rc)) bufs) @ xs) s2"
      using release_packets [OF assms(1) h(1)] by blast
    have "length bufs = unat ?rc" using h(2) 2(1) rc by simp
    moreover have "unat ?rc \<le> unat ?n" using fit(1) by (simp add: word_le_nat_alt)
    ultimately show ?thesis
      using 2 t s2 fit len
      by (auto simp: tsn_net_transmit_init_def Let_def intro!: exI [of _ "drop (unat (?n - ?rc)) bufs"])
  next
    case 3
    then have "bufs = []" using h(2) by simp
    then show ?thesis using 3 h(1) t by (auto simp: tsn_net_transmit_init_def Let_def intro!: exI [of _ "[]"])
  qed
qed

text \<open>With fewer than half of the packets, the code frees what it was never given.\<close>

lemma transmit_init_traps:
  assumes "0 < sint (alloc (sy_next s) (nk_n sock))" and "2 * unat (alloc (sy_next s) (nk_n sock)) < unat (nk_n sock)"
  shows "tsn_net_transmit_init alloc sock s = None"
proof -
  let ?n = "nk_n sock" and ?rc = "alloc (sy_next s) (nk_n sock)"
  have le: "?rc \<le> ?n" using assms(2) by (simp add: word_le_nat_alt)
  have "nat (sint ?rc) = unat ?rc" by (rule sint_pos_unat [OF assms(1)])
  then show ?thesis
    using assms le by (auto simp: tsn_net_transmit_init_def take_packets_def Let_def unat_sub)
qed

lemma tx_socket_step:
  assumes "sys_ok s0" and "tx_inv s0 held t0 j st" and "j < length (tm_tx t0)" and "length (tk_tx (tm_task t0)) = length (tm_tx t0)"
    and "alloc_fits alloc"
  shows "case tx_socket_init A alloc j st of Inr st' \<Rightarrow> tx_inv s0 held t0 (Suc j) st'
    | Inl e \<Rightarrow> \<exists>t' s' extra. e = Some (j, t', s') \<and> tx_inv s0 (held @ extra) t0 j (t', s') \<and>
        leak_of (tk_params (tm_task t0)) (packet_count (tk_params (tm_task t0))) extra"
proof -
  obtain t s where st: "st = (t, s)" by (cases st)
  let ?p = "tk_params (tm_task t0)" and ?open = "pairs Tx_socket (take j (tm_tx t)) @ packets (take j (tm_tx t)) @ held"
  have inv: "same_task t0 t" "tm_rx t = tm_rx t0" "filled ?p (take j (tm_tx t))" "holds s0 ?open s"
    using assms(2) by (simp_all add: tx_inv_def st)
  have j: "j < length (tm_tx t)" "j < length (tk_tx (tm_task t))" and p: "tk_params (tm_task t) = ?p"
    using inv(1) assms(3,4) by (simp_all add: same_task_def)
  note defs = tx_socket_init_def st upd_tx_def same_task_def Let_def tx_inv_def take_Suc_update
  obtain sock s1 where a1: "acquire A Tx_socket s = (sock, s1)" by fastforce
  show ?thesis
  proof (cases sock)
    case None
    then show ?thesis
      using acquire_none [OF inv(4)] a1 inv j by (simp add: defs) (rule exI [of _ "[]"], simp add: leak_of_none)
  next
    case (Some h)
    note h1 = acquire_some [OF inv(4) a1 [unfolded Some]]
    obtain iovec s2 where a2: "acquire A Memory s1 = (iovec, s2)" by fastforce
    show ?thesis
    proof (cases iovec)
      case None
      obtain s3 where "release Tx_socket h s2 = Some s3" "holds s0 ?open s3"
        using release_last [OF assms(1) acquire_none [OF h1 a2 [unfolded None]]] by blast
      then show ?thesis
        using None \<open>sock = Some h\<close> a1 a2 inv j by (simp add: defs) (rule exI [of _ "[]"], simp add: leak_of_none)
    next
      case b: (Some b)
      note h2 = acquire_some [OF h1 a2 [unfolded b]]
      let ?net = "(tk_tx (tm_task t) ! j)\<lparr>nk_id := j, nk_zero_copy := tp_zero_copy ?p, nk_n := tp_num_packets ?p, nk_tx_pending := False\<rparr>"
      have one: "holds s0 (pairs Tx_socket (take j (tm_tx t) @ [\<lparr>sh_sock = Some h, sh_iovec = Some b, sh_packets = bufs\<rparr>]) @
          packets (take j (tm_tx t) @ [\<lparr>sh_sock = Some h, sh_iovec = Some b, sh_packets = bufs\<rparr>]) @ held) s3"
        if "holds s0 (map (Pair Packet) bufs @ (Memory, b) # (Tx_socket, h) # ?open) s3" for bufs s3
        by (rule holds_mset [OF that]) (simp add: pairs_def packets_def)
      show ?thesis
      proof (cases "tp_zero_copy ?p")
        case False
        then show ?thesis
          using Some b a1 a2 inv j one [of "[]" s2] h2 p by (simp add: defs) (simp add: filled_def opened_def packet_count_def)
      next
        case True
        have n: "nk_n ?net = tp_num_packets ?p" by simp
        obtain status net bufs s3 where i: "tsn_net_transmit_init alloc ?net s2 = Some (status, net, bufs, s3)"
          "if status = NET_OK then length bufs = unat (tp_num_packets ?p) \<and> holds s0 (map (Pair Packet) bufs @ (Memory, b) # (Tx_socket, h) # ?open) s3
           else \<exists>lost. length lost \<le> unat (tp_num_packets ?p) \<and> holds s0 (map (Pair Packet) lost @ (Memory, b) # (Tx_socket, h) # ?open) s3"
          using transmit_init_holds [OF assms(1,5) h2, of ?net, unfolded n] by blast
        show ?thesis
        proof (cases "status = NET_OK")
          case ok: True
          then show ?thesis
            using Some b a1 a2 inv j one [of bufs s3] i True p by (simp add: defs) (simp add: filled_def opened_def packet_count_def)
        next
          case False
          then obtain lost where lost: "length lost \<le> packet_count ?p" "holds s0 (map (Pair Packet) lost @ (Memory, b) # (Tx_socket, h) # ?open) s3"
            using i(2) True by (auto simp: packet_count_def)
          let ?extra = "map (Pair Packet) lost @ [(Memory, b), (Tx_socket, h)]"
          have "holds s0 (pairs Tx_socket (take j (tm_tx t)) @ packets (take j (tm_tx t)) @ held @ ?extra) s3"
            by (rule holds_perm [OF lost(2)]) (use lost(2) in \<open>auto simp: holds_def\<close>)
          moreover have "leak_of ?p (packet_count ?p) ?extra"
            using lost(1) True unfolding leak_of_def by (intro exI [of _ "map (Pair Packet) lost"] exI [of _ "[(Memory, b), (Tx_socket, h)]"]) auto
          ultimately show ?thesis
            using False Some b a1 a2 inv j i(1) True p by (simp add: defs) blast
        qed
      qed
    qed
  qed
qed

section \<open>The account of a task\<close>

text \<open>The sockets of a task are there, within its arrays.\<close>

definition net_fits :: "tsn_task_params \<Rightarrow> task_mem \<Rightarrow> bool" where
  "net_fits params t \<longleftrightarrow> tk_params (tm_task t) = params \<and> num_rx params \<le> length (tm_rx t) \<and> num_tx params \<le> length (tm_tx t) \<and>
     length (tk_rx (tm_task t)) = length (tm_rx t) \<and> length (tk_tx (tm_task t)) = length (tm_tx t)"

definition net_open :: "tsn_task_params \<Rightarrow> task_mem \<Rightarrow> bool" where
  "net_open params t \<longleftrightarrow> net_fits params t \<and> opened (take (num_rx params) (tm_rx t)) \<and> filled params (take (num_tx params) (tm_tx t))"

definition net_held :: "tsn_task_params \<Rightarrow> task_mem \<Rightarrow> (resource \<times> nat) list" where
  "net_held params t = pairs Rx_socket (take (num_rx params) (tm_rx t)) @ pairs Tx_socket (take (num_tx params) (tm_tx t))"

text \<open>The packet buffers of its transmission sockets.\<close>

definition net_packets :: "tsn_task_params \<Rightarrow> task_mem \<Rightarrow> (resource \<times> nat) list" where
  "net_packets params t = packets (take (num_tx params) (tm_tx t))"

abbreviation (input) packet_bound :: "tsn_task_params \<Rightarrow> nat" where
  "packet_bound params \<equiv> num_tx params * packet_count params"

lemma net_packets_packet: "x \<in> set (net_packets params t) \<Longrightarrow> fst x = Packet"
  unfolding net_packets_def by (rule packets_packet)

lemma packet_count_le: "packet_count params \<le> (if tp_zero_copy params then unat (tp_num_packets params) else 0)"
  by (simp add: packet_count_def)

lemma net_packets_count: "net_open params t \<Longrightarrow> length (net_packets params t) = packet_bound params"
  using filled_packets [of params "take (num_tx params) (tm_tx t)"] by (simp add: net_open_def net_fits_def net_packets_def min.absorb2)

lemma net_packets_leak: "net_open params t \<Longrightarrow> leak_of params (packet_bound params) (net_packets params t)"
  by (rule leak_of_packets) (use net_packets_packet in blast, simp add: net_packets_count)

lemma same_task_fits: "same_task t t' \<Longrightarrow> net_fits params t \<Longrightarrow> net_fits params t'"
  by (simp add: same_task_def net_fits_def)

lemma same_task_trans: "same_task a b \<Longrightarrow> same_task b c \<Longrightarrow> same_task a c"
  by (simp add: same_task_def)

lemma holds_swap: "holds s0 (xs @ ys @ zs) s \<Longrightarrow> holds s0 ((ys @ xs) @ zs) s"
  by (rule holds_perm, assumption) (auto simp: holds_def)

lemma net_exit_holds:
  assumes "sys_ok s0" and "net_open params t" and "holds s0 (net_held params t @ held) s"
  shows "\<exists>s'. tsn_task_net_exit t s = Some s' \<and> holds s0 held s'"
proof -
  have fits: "net_fits params t" using assms(2) by (simp add: net_open_def)
  obtain s1 where 1: "close_sockets Rx_socket (num_rx params) (tm_rx t) s = Some s1"
    "holds s0 (pairs Tx_socket (take (num_tx params) (tm_tx t)) @ held) s1"
    using close_sockets_holds [OF assms(1), of "num_rx params" "tm_rx t" Rx_socket] assms(2,3)
    by (auto simp: net_open_def net_fits_def net_held_def)
  obtain s2 where 2: "close_sockets Tx_socket (num_tx params) (tm_tx t) s1 = Some s2" "holds s0 held s2"
    using close_sockets_holds [OF assms(1) _ _ 1(2)] assms(2) by (auto simp: net_open_def net_fits_def filled_opened)
  show ?thesis
    using 1(1) 2 fits by (simp add: tsn_task_net_exit_def net_fits_def num_rx_def num_tx_def)
qed

lemma net_init_holds:
  assumes "sys_ok s0" and "net_fits params t" and "holds s0 held s" and "alloc_fits alloc"
  shows "\<exists>rc t' s'. tsn_task_net_init A alloc (t, s) = Some (rc, t', s') \<and> same_task t t' \<and>
    (if rc < 0 then rc = - 1 \<and> (\<exists>extra. leak_of params (packet_bound params) extra \<and> holds s0 (held @ extra) s')
     else rc = 0 \<and> net_open params t' \<and> holds s0 (net_held params t' @ net_packets params t' @ held) s')"
proof -
  have fits: "tk_params (tm_task t) = params" "num_rx params \<le> length (tm_rx t)" "num_tx params \<le> length (tm_tx t)"
    "length (tk_rx (tm_task t)) = length (tm_rx t)" "length (tk_tx (tm_task t)) = length (tm_tx t)"
    using assms(2) by (simp_all add: net_fits_def)
  note rx_loop = for_upto_err_outcome [where n = "num_rx params" and f = "rx_socket_init A" and s = "(t, s)" and P = "rx_inv s0 held t"
      and Q = "\<lambda>i e. \<exists>t' s'. e = Some (i, t', s') \<and> rx_inv s0 held t i (t', s')"]
  have rx: "case for_upto_err (num_rx params) (rx_socket_init A) (t, s) of Inr st \<Rightarrow> rx_inv s0 held t (num_rx params) st
    | Inl e \<Rightarrow> \<exists>i < num_rx params. \<exists>t' s'. e = Some (i, t', s') \<and> rx_inv s0 held t i (t', s')"
    by (rule rx_loop) (use rx_socket_step [OF assms(1)] assms(3) fits in \<open>auto simp: rx_inv_def same_task_refl\<close>)
  show ?thesis
  proof (cases "for_upto_err (num_rx params) (rx_socket_init A) (t, s)")
    case (Inl e)
    then obtain i t' s' where e: "i < num_rx params" "e = Some (i, t', s')" "rx_inv s0 held t i (t', s')" using rx by auto
    then obtain s2 where "close_sockets Rx_socket i (tm_rx t') s' = Some s2" "holds s0 held s2"
      using close_sockets_holds [OF assms(1), of i "tm_rx t'" Rx_socket held s'] fits by (auto simp: rx_inv_def same_task_def)
    then show ?thesis
      using Inl e fits(1) by (auto simp: tsn_task_net_init_def num_rx_def rx_inv_def Let_def intro!: exI [of _ "[]"] leak_of_none)
  next
    case (Inr st)
    obtain t1 s1 where st: "st = (t1, s1)" by (cases st)
    have inv1: "same_task t t1" "opened (take (num_rx params) (tm_rx t1))"
      "holds s0 (pairs Rx_socket (take (num_rx params) (tm_rx t1)) @ held) s1"
      using rx Inr st by (simp_all add: rx_inv_def)
    have fits1: "num_tx params \<le> length (tm_tx t1)" "length (tk_tx (tm_task t1)) = length (tm_tx t1)" "tk_params (tm_task t1) = params"
      "num_rx params \<le> length (tm_rx t1)"
      using inv1(1) fits by (simp_all add: same_task_def)
    let ?held = "pairs Rx_socket (take (num_rx params) (tm_rx t1)) @ held"
    let ?Q = "\<lambda>j e. \<exists>t' s' extra. e = Some (j, t', s') \<and> tx_inv s0 (?held @ extra) t1 j (t', s') \<and> leak_of params (packet_count params) extra"
    note tx_loop = for_upto_err_outcome [where n = "num_tx params" and f = "tx_socket_init A alloc" and s = "(t1, s1)"
        and P = "tx_inv s0 ?held t1" and Q = ?Q]
    have tx: "case for_upto_err (num_tx params) (tx_socket_init A alloc) (t1, s1) of Inr st \<Rightarrow> tx_inv s0 ?held t1 (num_tx params) st
      | Inl e \<Rightarrow> \<exists>j < num_tx params. ?Q j e"
      by (rule tx_loop) (use tx_socket_step [OF assms(1), where held = ?held] inv1(3) fits1 assms(4) in \<open>auto simp: tx_inv_def same_task_refl\<close>)
    show ?thesis
    proof (cases "for_upto_err (num_tx params) (tx_socket_init A alloc) (t1, s1)")
      case Inl': (Inl e)
      then obtain j t' s' extra where e: "j < num_tx params" "e = Some (j, t', s')" "tx_inv s0 (?held @ extra) t1 j (t', s')"
        "leak_of params (packet_count params) extra"
        using tx by auto
      let ?ps = "packets (take j (tm_tx t'))"
      have inv: "same_task t1 t'" "tm_rx t' = tm_rx t1" "filled params (take j (tm_tx t'))"
        "holds s0 (pairs Tx_socket (take j (tm_tx t')) @ ?ps @ ?held @ extra) s'"
        using e(3) fits1(3) by (simp_all add: tx_inv_def)
      have j: "j \<le> length (tm_tx t')" using e(1) inv(1) fits1(1) by (simp add: same_task_def)
      obtain s2 where 2: "close_sockets Tx_socket j (tm_tx t') s' = Some s2" "holds s0 (?ps @ ?held @ extra) s2"
        using close_sockets_holds [OF assms(1) filled_opened [OF inv(3)] j inv(4)] by blast
      have "holds s0 (?held @ ?ps @ extra) s2" by (rule holds_perm [OF 2(2)]) (use 2(2) in \<open>auto simp: holds_def\<close>)
      then obtain s3 where 3: "close_sockets Rx_socket (num_rx params) (tm_rx t') s2 = Some s3" "holds s0 (held @ ?ps @ extra) s3"
        using close_sockets_holds [OF assms(1), of "num_rx params" "tm_rx t'" Rx_socket "held @ ?ps @ extra" s2] inv1(2) inv(2) fits1(4) by auto
      have "length ?ps = j * packet_count params" using filled_packets [OF inv(3)] j by simp
      moreover have "Suc j * packet_count params \<le> packet_bound params" using e(1) by (intro mult_le_mono) simp_all
      ultimately have "leak_of params (packet_bound params) (?ps @ extra)"
        using packets_packet by (intro leak_of_more [OF e(4)]) auto
      then show ?thesis
        using Inr st Inl' e(2) 2(1) 3 fits(1) same_task_trans [OF inv1(1) inv(1)]
        by (auto simp: tsn_task_net_init_def num_rx_def num_tx_def Let_def)
    next
      case Inr': (Inr st')
      obtain t2 s2 where st': "st' = (t2, s2)" by (cases st')
      have inv2: "same_task t1 t2" "tm_rx t2 = tm_rx t1" "filled params (take (num_tx params) (tm_tx t2))"
        "holds s0 (pairs Tx_socket (take (num_tx params) (tm_tx t2)) @ packets (take (num_tx params) (tm_tx t2)) @ ?held) s2"
        using tx Inr' st' fits1(3) by (simp_all add: tx_inv_def)
      have "same_task t t2" by (rule same_task_trans [OF inv1(1) inv2(1)])
      moreover have "net_open params t2"
        using same_task_fits [OF \<open>same_task t t2\<close> assms(2)] inv1(2) inv2(2,3) by (simp add: net_open_def)
      moreover have "holds s0 (net_held params t2 @ net_packets params t2 @ held) s2"
        by (rule holds_perm [OF inv2(4)]) (use inv2(2,4) in \<open>auto simp: holds_def net_held_def net_packets_def\<close>)
      ultimately show ?thesis
        using Inr st Inr' st' fits(1) by (simp add: tsn_task_net_init_def num_rx_def num_tx_def Let_def)
    qed
  qed
qed

text \<open>The resources of a registered task.\<close>

definition handle :: "resource \<Rightarrow> nat option \<Rightarrow> (resource \<times> nat) list" where
  "handle r h = (case h of None \<Rightarrow> [] | Some n \<Rightarrow> [(r, n)])"

definition task_held :: "tsn_task_params \<Rightarrow> task_mem \<Rightarrow> (resource \<times> nat) list" where
  "task_held params t =
     handle Timer (tm_timer t) @ handle Thread (tm_thread t) @ net_held params t @ net_packets params t @ [(Memory, tm_block t)]"

definition sockets_fit :: "tsn_task_params \<Rightarrow> bool" where
  "sockets_fit params \<longleftrightarrow> num_rx params \<le> MAX_RX_SOCKET \<and> num_tx params \<le> MAX_TX_SOCKET"

lemma stats_init_task: "tk_params (tsn_task_stats_init t) = tk_params t" "tk_rx (tsn_task_stats_init t) = tk_rx t"
  "tk_tx (tsn_task_stats_init t) = tk_tx t" "tk_timer (tsn_task_stats_init t) = tk_timer t"
  by (simp_all add: tsn_task_stats_init_def Let_def)

text \<open>The statistics of a created task: its histograms are within their slots.\<close>

definition stats_ready :: "tsn_task_stats \<Rightarrow> bool" where
  "stats_ready st \<longleftrightarrow> hist_wf (ts_sched_err_hist st) \<and> hist_wf (ts_proc_time_hist st) \<and> hist_wf (ts_total_time_hist st)"

lemma stats_init_ready: "tk_stats t = zeroed_task_stats \<Longrightarrow> stats_ready (tk_stats (tsn_task_stats_init t))"
  by (simp add: tsn_task_stats_init_def Let_def stats_ready_def zeroed_task_stats_def zeroed_hist_def hist_wf_def rtos_apps_hist_init_def
      rtos_apps_hist_reset_def)

lemma net_open_outer:
  "tk_params tk = tk_params (tm_task t) \<Longrightarrow> tk_rx tk = tk_rx (tm_task t) \<Longrightarrow> tk_tx tk = tk_tx (tm_task t) \<Longrightarrow>
     net_open params (t\<lparr>tm_task := tk\<rparr>) = net_open params t"
  "net_open params (t\<lparr>tm_thread := th\<rparr>) = net_open params t" "net_open params (t\<lparr>tm_timer := ti\<rparr>) = net_open params t"
  "net_held params (t\<lparr>tm_task := tk\<rparr>) = net_held params t"
  "net_held params (t\<lparr>tm_thread := th\<rparr>) = net_held params t" "net_held params (t\<lparr>tm_timer := ti\<rparr>) = net_held params t"
  "net_packets params (t\<lparr>tm_task := tk\<rparr>) = net_packets params t"
  "net_packets params (t\<lparr>tm_thread := th\<rparr>) = net_packets params t" "net_packets params (t\<lparr>tm_timer := ti\<rparr>) = net_packets params t"
  by (simp_all add: net_open_def net_fits_def net_held_def net_packets_def)

definition registered :: "sys \<Rightarrow> (resource \<times> nat) list \<Rightarrow> tsn_task_params \<Rightarrow> bool \<Rightarrow> bool \<Rightarrow> int \<times> task_mem option \<times> sys \<Rightarrow> bool" where
  "registered s0 held params main_loop callback r \<longleftrightarrow> (case r of (rc, t, s) \<Rightarrow>
     if rc < 0 then rc = - 1 \<and> t = None \<and> (\<exists>extra. leak_of params (packet_bound params) extra \<and> holds s0 (held @ extra) s)
     else rc = 0 \<and> (\<exists>t'. t = Some t' \<and> net_open params t' \<and> (tm_thread t' \<noteq> None \<longleftrightarrow> main_loop) \<and> (tm_timer t' \<noteq> None \<longleftrightarrow> callback) \<and>
       tk_timer (tm_task t') = callback \<and> stats_ready (tk_stats (tm_task t')) \<and> holds s0 (task_held params t' @ held) s))"

lemma registered_failed:
  "leak_of params (packet_bound params) extra \<Longrightarrow> holds s0 (held @ extra) s \<Longrightarrow> registered s0 held params main_loop callback (- 1, None, s)"
  by (auto simp: registered_def)

lemmas registered_stopped = registered_failed [OF leak_of_none, simplified]

lemma register_holds:
  assumes "sys_ok s0" and "sockets_fit params" and "holds s0 held s" and "alloc_fits alloc"
  shows "\<exists>r. tsn_task_register A alloc params main_loop callback s = Some r \<and> registered s0 held params main_loop callback r"
proof -
  obtain block s1 where a1: "acquire A Memory s = (block, s1)" by fastforce
  show ?thesis
  proof (cases block)
    case None
    then show ?thesis
      using a1 registered_stopped [OF acquire_none [OF assms(3)]] by (auto simp: tsn_task_register_def)
  next
    case (Some b)
    note h1 = acquire_some [OF assms(3) a1 [unfolded Some]]
    have fits: "net_fits params (zeroed_task params b)" using assms(2) by (simp add: net_fits_def zeroed_task_def sockets_fit_def)
    obtain rc t s2 where net: "tsn_task_net_init A alloc (zeroed_task params b, s1) = Some (rc, t, s2)" "same_task (zeroed_task params b) t"
      "if rc < 0 then rc = - 1 \<and> (\<exists>extra. leak_of params (packet_bound params) extra \<and> holds s0 (((Memory, b) # held) @ extra) s2)
       else rc = 0 \<and> net_open params t \<and> holds s0 (net_held params t @ net_packets params t @ (Memory, b) # held) s2"
      using net_init_holds [OF assms(1) fits h1 assms(4)] by blast
    let ?ps = "net_packets params t"
    have t: "tm_block t = b" "tm_thread t = None" "tm_timer t = None" "\<not> tk_timer (tm_task t)" "tk_stats (tm_task t) = zeroed_task_stats" using net(2) by (simp_all add: same_task_def zeroed_task_def)
    have free: "\<exists>s'. release Memory b s2 = Some s' \<and> holds s0 ys s'" if "holds s0 ((Memory, b) # ys) s2" for ys s2
      by (rule release_last [OF assms(1) that])
    show ?thesis
    proof (cases "rc < 0")
      case True
      then obtain extra where "leak_of params (packet_bound params) extra" "holds s0 ((Memory, b) # held @ extra) s2" using net(3) by auto
      then show ?thesis
        using free [of "held @ extra" s2] True net(1) a1 Some by (auto simp: tsn_task_register_def registered_def)
    next
      case False
      then have op: "net_open params t" "holds s0 (net_held params t @ ?ps @ (Memory, b) # held) s2" using net(3) by simp_all
      note failed = registered_failed [OF net_packets_leak [OF op(1)]]
      let ?t = "t\<lparr>tm_task := tsn_task_stats_init (tm_task t)\<rparr>"
      have o1: "net_open params ?t" "net_held params ?t = net_held params t" "net_packets params ?t = ?ps"
        using op(1) by (simp_all add: net_open_outer stats_init_task)
      let ?err = "\<lambda>s. map_option (\<lambda>s. (- 1 :: int, None :: task_mem option, s)) (release Memory b s)"
      have undo: "\<exists>s5. Option.bind (tsn_task_net_exit ?t s3) ?err = Some (- 1, None, s5) \<and> holds s0 (held @ ?ps) s5"
        if h: "holds s0 (net_held params t @ ?ps @ (Memory, b) # held) s3" for s3
      proof -
        have "holds s0 (net_held params ?t @ (Memory, b) # held @ ?ps) s3"
          unfolding o1(2) by (rule holds_perm [OF h]) (use h in \<open>auto simp: holds_def\<close>)
        then show ?thesis using net_exit_holds [OF assms(1) o1(1)] free [of "held @ ?ps"] by force
      qed
      obtain th s3 where th: "(if main_loop then acquire A Thread s2 else (None, s2)) = (th, s3)" by fastforce
      show ?thesis
      proof (cases "main_loop \<and> th = None")
        case True
        then have "holds s0 (net_held params t @ ?ps @ (Memory, b) # held) s3" using th acquire_none [OF op(2)] by simp
        then show ?thesis
          using undo [of s3] True th a1 Some net(1) \<open>\<not> rc < 0\<close>
          by (auto simp: tsn_task_register_def Let_def intro: failed)
      next
        case False
        then have h3: "holds s0 (handle Thread th @ net_held params t @ ?ps @ (Memory, b) # held) s3" and m: "th \<noteq> None \<longleftrightarrow> main_loop"
          using th op(2) acquire_some [OF op(2)] by (auto simp: handle_def split: if_splits)
        let ?delete = "\<lambda>s. case th of None \<Rightarrow> Option.bind (tsn_task_net_exit ?t s) ?err
          | Some h \<Rightarrow> Option.bind (release Thread h s) (\<lambda>s. Option.bind (tsn_task_net_exit ?t s) ?err)"
        have delete: "\<exists>s5. ?delete s4 = Some (- 1, None, s5) \<and> holds s0 (held @ ?ps) s5"
          if h4: "holds s0 (handle Thread th @ net_held params t @ ?ps @ (Memory, b) # held) s4" for s4
        proof (cases th)
          case None
          then show ?thesis using undo [of s4] h4 by (simp add: handle_def)
        next
          case (Some h)
          then have "holds s0 ((Thread, h) # net_held params t @ ?ps @ (Memory, b) # held) s4" using h4 by (simp add: handle_def)
          from release_last [OF assms(1) this] obtain s5 where
            "release Thread h s4 = Some s5" "holds s0 (net_held params t @ ?ps @ (Memory, b) # held) s5" by blast
          then show ?thesis using undo [of s5] Some by simp
        qed
        obtain ti s4 where ti: "acquire A Timer s3 = (ti, s4)" by fastforce
        have runs: "(main_loop \<and> th = None) = False" using False by blast
        have run: "tsn_task_register A alloc params main_loop callback s =
          (if callback then (case ti of None \<Rightarrow> ?delete s4
             | Some h \<Rightarrow> if \<not> fst (attempt A s4) then Option.bind (release Timer h (snd (attempt A s4))) ?delete
                 else Some (0, Some (?t\<lparr>tm_thread := th, tm_timer := ti, tm_task := (tm_task ?t)\<lparr>tk_timer := True\<rparr>\<rparr>), snd (attempt A s4)))
           else Some (0, Some (?t\<lparr>tm_thread := th\<rparr>), s3))"
          using a1 Some net(1) \<open>\<not> rc < 0\<close> th ti by (simp add: tsn_task_register_def Let_def runs attempt_def split: option.split)
        consider "\<not> callback" | "callback" "ti = None" | h where "callback" "ti = Some h" "\<not> fst (attempt A s4)"
          | h where "callback" "ti = Some h" "fst (attempt A s4)"
          by (cases callback; cases ti; cases "fst (attempt A s4)") auto
        then show ?thesis
        proof cases
          case 1
          then show ?thesis
            using run h3 m o1 t(1,3,4) stats_init_ready [OF t(5)]
            by (simp add: registered_def net_open_outer task_held_def handle_def stats_init_task)
        next
          case 2
          then have "holds s0 (handle Thread th @ net_held params t @ ?ps @ (Memory, b) # held) s4" using acquire_none [OF h3] ti by simp
          then show ?thesis using delete [of s4] run 2 by (auto intro: failed)
        next
          case (3 h)
          then obtain s5 where "release Timer h (snd (attempt A s4)) = Some s5"
            "holds s0 (handle Thread th @ net_held params t @ ?ps @ (Memory, b) # held) s5"
            using release_last [OF assms(1) attempt_holds [OF acquire_some [OF h3] prod.collapse [symmetric]]] ti by blast
          then show ?thesis using delete [of s5] run 3 by (auto intro: failed)
        next
          case (4 h)
          then have "holds s0 ((Timer, h) # handle Thread th @ net_held params t @ ?ps @ (Memory, b) # held) (snd (attempt A s4))"
            using attempt_holds [OF acquire_some [OF h3] prod.collapse [symmetric]] ti by blast
          then show ?thesis
            using run 4 m op(1) t(1,3) stats_init_ready [OF t(5)]
            by (simp add: registered_def net_open_def net_fits_def net_held_def net_packets_def stats_init_task task_held_def handle_def)
        qed
      qed
    qed
  qed
qed

text \<open>When every call succeeds, the registration does.\<close>

lemma rx_socket_succeeds:
  assumes "net_fits params (fst st)" and "i < num_rx params"
  shows "\<exists>st'. rx_socket_init (\<lambda>_. True) i st = Inr st' \<and> net_fits params (fst st')"
  using assms by (cases st) (simp add: rx_socket_init_def acquire_def Let_def upd_rx_def net_fits_def)

lemma tx_socket_succeeds:
  assumes "net_fits params (fst st)" and "j < num_tx params"
  shows "\<exists>st'. tx_socket_init (\<lambda>_. True) (\<lambda>_ n. n) j st = Inr st' \<and> net_fits params (fst st')"
  using assms
  by (cases st) (simp add: tx_socket_init_def acquire_def Let_def upd_tx_def net_fits_def tsn_net_transmit_init_def take_packets_def)

lemma register_succeeds:
  assumes "sockets_fit params"
  shows "\<exists>t s'. tsn_task_register (\<lambda>_. True) (\<lambda>_ n. n) params main_loop callback s = Some (0, Some t, s')"
proof -
  let ?b = "sy_next s" and ?s = "s\<lparr>sy_next := sy_next s + 1, sy_live := insert (Memory, sy_next s) (sy_live s)\<rparr>"
  have z: "net_fits params (zeroed_task params ?b)" "tk_params (tm_task (zeroed_task params ?b)) = params"
    using assms(1) by (simp_all add: net_fits_def zeroed_task_def sockets_fit_def)
  have "\<exists>st. for_upto_err (num_rx params) (rx_socket_init (\<lambda>_. True)) (zeroed_task params ?b, ?s) = Inr st \<and> net_fits params (fst st)"
    by (rule for_upto_err_run [where P = "\<lambda>_ st. net_fits params (fst st)"]) (simp add: z, rule rx_socket_succeeds)
  then obtain st1 where rx: "for_upto_err (num_rx params) (rx_socket_init (\<lambda>_. True)) (zeroed_task params ?b, ?s) = Inr st1" "net_fits params (fst st1)"
    by blast
  have "\<exists>st. for_upto_err (num_tx params) (tx_socket_init (\<lambda>_. True) (\<lambda>_ n. n)) st1 = Inr st \<and> net_fits params (fst st)"
    by (rule for_upto_err_run [where P = "\<lambda>_ st. net_fits params (fst st)"]) (rule rx(2), rule tx_socket_succeeds)
  then obtain st2 where tx: "for_upto_err (num_tx params) (tx_socket_init (\<lambda>_. True) (\<lambda>_ n. n)) st1 = Inr st2" by blast
  obtain t2 s2 where st2: "st2 = (t2, s2)" by (cases st2)
  have "tsn_task_net_init (\<lambda>_. True) (\<lambda>_ n. n) (zeroed_task params ?b, ?s) = Some (0, t2, s2)"
    using rx(1) tx z(2) st2 by (simp add: tsn_task_net_init_def num_rx_def num_tx_def)
  then show ?thesis by (simp add: tsn_task_register_def acquire_def attempt_def Let_def)
qed

lemma all_granted: "alloc_fits (\<lambda>_ n. n)"
  by (simp add: alloc_fits_def)

lemma unregister_holds:
  assumes "sys_ok s0" and "net_open params t" and "tm_thread t \<noteq> None" and "holds s0 (task_held params t @ held) s"
  shows "\<exists>s'. tsn_task_unregister t s = Some s' \<and> holds s0 (net_packets params t @ held) s'"
proof -
  let ?held = "net_packets params t @ held"
  obtain th where th: "tm_thread t = Some th" using assms(3) by blast
  obtain s1 where 1: "(case tm_timer t of None \<Rightarrow> Some s | Some h \<Rightarrow> release Timer h s) = Some s1"
    "holds s0 ((Thread, th) # net_held params t @ net_packets params t @ (Memory, tm_block t) # held) s1"
  proof (cases "tm_timer t")
    case None
    then show thesis using that [of s] assms(4) th by (simp add: task_held_def handle_def)
  next
    case (Some h)
    then have "holds s0 ((Timer, h) # (Thread, th) # net_held params t @ net_packets params t @ (Memory, tm_block t) # held) s"
      using assms(4) th by (simp add: task_held_def handle_def)
    then show thesis using that release_last [OF assms(1)] Some by fastforce
  qed
  obtain s2 where 2: "release Thread th s1 = Some s2" "holds s0 (net_held params t @ net_packets params t @ (Memory, tm_block t) # held) s2"
    using release_last [OF assms(1) 1(2)] by blast
  have h2: "holds s0 (net_held params t @ (Memory, tm_block t) # ?held) s2"
    by (rule holds_perm [OF 2(2)]) (use 2(2) in \<open>auto simp: holds_def\<close>)
  obtain s3 where 3: "tsn_task_net_exit t s2 = Some s3" "holds s0 ((Memory, tm_block t) # ?held) s3"
    using net_exit_holds [OF assms(1,2) h2] by blast
  show ?thesis
    using release_last [OF assms(1) 3(2)] 1(1) 2(1) 3(1) th by (simp add: tsn_task_unregister_def)
qed

text \<open>Since \<open>s\<close>, \<open>k\<close> packet buffers were taken and not given back, and nothing else.\<close>

definition packets_kept :: "sys \<Rightarrow> nat \<Rightarrow> sys \<Rightarrow> bool" where
  "packets_kept s k s' \<longleftrightarrow> (\<exists>hs. card hs = k \<and> finite hs \<and> sy_live s \<inter> Pair Packet ` hs = {} \<and> sy_live s' = sy_live s \<union> Pair Packet ` hs)"

lemma packets_kept_none: "packets_kept s 0 s' \<longleftrightarrow> sy_live s' = sy_live s"
  by (auto simp: packets_kept_def intro: exI [of _ "{}"])

lemma holds_fresh: "sys_ok s \<Longrightarrow> holds s xs s' \<Longrightarrow> sy_live s \<inter> set xs = {}"
  by (fastforce simp: holds_def sys_ok_def)

lemma holds_packets_kept:
  assumes "sys_ok s" and "holds s ps s'" and "\<forall>p \<in> set ps. fst p = Packet"
  shows "packets_kept s (length ps) s'"
proof -
  let ?hs = "snd ` set ps"
  have ps: "Pair Packet ` ?hs = set ps" using assms(3) by force
  have "card ?hs = card (set ps)" using assms(3) by (intro card_image) (auto simp: inj_on_def prod_eq_iff)
  also have "\<dots> = length ps" using assms(2) by (simp add: holds_def distinct_card)
  finally have "card ?hs = length ps" .
  moreover have "sy_live s \<inter> set ps = {}" by (rule holds_fresh [OF assms(1,2)])
  ultimately show ?thesis
    using assms(2) unfolding packets_kept_def by (intro exI [of _ ?hs]) (simp add: ps holds_def)
qed

text \<open>What a failed registration leaves: packet buffers, or these with the transmission socket they were for and its array.\<close>

definition failure_kept :: "bool \<Rightarrow> nat \<Rightarrow> sys \<Rightarrow> sys \<Rightarrow> bool" where
  "failure_kept zero_copy n s s' \<longleftrightarrow> (\<exists>k \<le> (if zero_copy then n else 0). packets_kept s k s' \<or>
     zero_copy \<and> (\<exists>b h. packets_kept (s\<lparr>sy_live := sy_live s \<union> {(Memory, b), (Tx_socket, h)}\<rparr>) k s'))"

lemma failure_kept_same: "sy_live s' = sy_live s \<Longrightarrow> failure_kept zero_copy n s s'"
  by (auto simp: failure_kept_def packets_kept_none intro: exI [of _ 0])

lemma leak_failure_kept:
  assumes "sys_ok s" and "holds s extra s'" and "leak_of params k extra" and "k \<le> (if tp_zero_copy params then n else 0)"
  shows "failure_kept (tp_zero_copy params) n s s'"
proof -
  obtain ps qs where e: "extra = ps @ qs" "\<forall>p \<in> set ps. fst p = Packet" "length ps \<le> k"
    "qs = [] \<or> tp_zero_copy params \<and> (\<exists>b h. qs = [(Memory, b), (Tx_socket, h)])"
    using assms(3) by (auto simp: leak_of_def)
  show ?thesis
  proof (cases "qs = []")
    case True
    then have "packets_kept s (length ps) s'" using holds_packets_kept [OF assms(1) _ e(2)] assms(2) e(1) by simp
    moreover have "length ps \<le> (if tp_zero_copy params then n else 0)" using e(3) assms(4) by (rule order_trans)
    ultimately show ?thesis unfolding failure_kept_def by blast
  next
    case False
    then obtain b h where q: "tp_zero_copy params" "qs = [(Memory, b), (Tx_socket, h)]" using e(4) by blast
    let ?s = "s\<lparr>sy_live := sy_live s \<union> {(Memory, b), (Tx_socket, h)}, sy_next := sy_next s'\<rparr>"
    let ?hs = "snd ` set ps"
    have ps: "Pair Packet ` ?hs = set ps" using e(2) by force
    have "card ?hs = card (set ps)" using e(2) by (intro card_image) (auto simp: inj_on_def prod_eq_iff)
    also have "\<dots> = length ps" using assms(2) e(1) by (simp add: holds_def distinct_card)
    finally have "card ?hs = length ps" .
    moreover have "(sy_live s \<union> {(Memory, b), (Tx_socket, h)}) \<inter> set ps = {}"
      using holds_fresh [OF assms(1,2)] e(1,2) by auto
    moreover have "sy_live s' = sy_live s \<union> {(Memory, b), (Tx_socket, h)} \<union> set ps"
      using assms(2) e(1) q(2) by (auto simp: holds_def)
    ultimately have "packets_kept (s\<lparr>sy_live := sy_live s \<union> {(Memory, b), (Tx_socket, h)}\<rparr>) (length ps) s'"
      unfolding packets_kept_def by (intro exI [of _ ?hs]) (simp add: ps)
    moreover have "length ps \<le> (if tp_zero_copy params then n else 0)" using e(3) assms(4) by (rule order_trans)
    ultimately show ?thesis using q(1) unfolding failure_kept_def by blast
  qed
qed

text \<open>
  C27. Registering a task always returns, whichever of the calls to the system fail. When it succeeds, unregistering the
  task returns as well and gives back exactly what the registration took, except, without copy, the packet buffers of the
  transmission sockets: those are never freed. When it fails, nothing is kept, unless the sockets are without copy: then at
  most those packet buffers, and one transmission socket with its array, are lost.
\<close>

theorem task_register_unregister:
  assumes "sys_ok s" and "sockets_fit params" and "alloc_fits alloc"
  shows "\<exists>rc t s'. tsn_task_register A alloc params True callback s = Some (rc, t, s') \<and>
    (rc = 0 \<longrightarrow> (\<exists>t' s''. t = Some t' \<and> tk_params (tm_task t') = params \<and> tk_timer (tm_task t') = callback \<and>
       tsn_task_unregister t' s' = Some s'' \<and> packets_kept s (num_tx params * packet_count params) s'')) \<and>
    (rc \<noteq> 0 \<longrightarrow> t = None \<and> failure_kept (tp_zero_copy params) (num_tx params * unat (tp_num_packets params)) s s')"
proof -
  obtain rc t s' where r: "tsn_task_register A alloc params True callback s = Some (rc, t, s')"
    "registered s [] params True callback (rc, t, s')"
    using register_holds [OF assms(1,2) holds_refl assms(3)] by (metis prod_cases3)
  show ?thesis
  proof (cases "rc < 0")
    case True
    then obtain extra where "t = None" "leak_of params (packet_bound params) extra" "holds s extra s'"
      using r(2) by (auto simp: registered_def)
    moreover have "packet_bound params \<le> (if tp_zero_copy params then num_tx params * unat (tp_num_packets params) else 0)"
      by (simp add: packet_count_def)
    ultimately show ?thesis using r(1) True leak_failure_kept [OF assms(1)] by auto
  next
    case False
    then obtain t' where t': "rc = 0" "t = Some t'" "net_open params t'" "tm_thread t' \<noteq> None" "tk_timer (tm_task t') = callback"
      "holds s (task_held params t' @ []) s'"
      using r(2) by (auto simp: registered_def)
    obtain s'' where s'': "tsn_task_unregister t' s' = Some s''" "holds s (net_packets params t') s''"
      using unregister_holds [OF assms(1) t'(3,4,6)] by auto
    have "packets_kept s (packet_bound params) s''"
      using holds_packets_kept [OF assms(1) s''(2)] net_packets_packet net_packets_count [OF t'(3)] by auto
    then show ?thesis using r(1) t' s''(1) by (simp add: net_open_def net_fits_def)
  qed
qed

text \<open>A task with one socket of each kind: with copy nothing is kept, without copy its packet buffer is.\<close>

theorem task_register_unregister_witness:
  "\<forall>zero_copy. \<exists>t s' s''.
     tsn_task_register (\<lambda>_. True) (\<lambda>_ n. n) ((tk_params demo_task)\<lparr>tp_zero_copy := zero_copy\<rparr>) True True \<lparr>sy_next = 0, sy_live = {}\<rparr> = Some (0, Some t, s') \<and>
     tsn_task_unregister t s' = Some s'' \<and> card (sy_live s'') = (if zero_copy then 1 else 0)"
proof
  fix zero_copy
  let ?s = "\<lparr>sy_next = 0, sy_live = {}\<rparr>" and ?p = "(tk_params demo_task)\<lparr>tp_zero_copy := zero_copy\<rparr>"
  have ok: "sys_ok ?s" "sockets_fit ?p"
    by (simp_all add: sys_ok_def sockets_fit_def num_rx_def num_tx_def demo_task_def)
  obtain t s' where t: "tsn_task_register (\<lambda>_. True) (\<lambda>_ n. n) ?p True True ?s = Some (0, Some t, s')"
    using register_succeeds [OF ok(2)] by blast
  obtain s'' where s'': "tsn_task_unregister t s' = Some s''" "packets_kept ?s (num_tx ?p * packet_count ?p) s''"
    using task_register_unregister [OF ok all_granted, of "\<lambda>_. True" True] t by auto
  have "num_tx ?p * packet_count ?p = (if zero_copy then 1 else 0)"
    by (simp add: num_tx_def packet_count_def demo_task_def)
  moreover have "card (sy_live s'') = num_tx ?p * packet_count ?p"
    using s''(2) by (auto simp: packets_kept_def card_image inj_on_def)
  ultimately show "\<exists>t s' s''. tsn_task_register (\<lambda>_. True) (\<lambda>_ n. n) ?p True True ?s = Some (0, Some t, s') \<and>
     tsn_task_unregister t s' = Some s'' \<and> card (sy_live s'') = (if zero_copy then 1 else 0)"
    using t s''(1) by metis
qed

end
