(* ===== verification/Tsn_Turn.thy ===== *)
theory Tsn_Turn
  imports Tsn_Receive
begin

text \<open>
  A turn of a cyclic task: it cannot trap, and it either advances the schedule by one period or restarts the timer.
\<close>

section \<open>Tasks that cannot trap\<close>

definition task_ok :: "tsn_task \<Rightarrow> bool" where
  "task_ok task \<longleftrightarrow> tk_timer task \<and> period_ok (tp_task_period_ns (tk_params task)) \<and>
     hist_wf (ts_sched_err_hist (tk_stats task)) \<and> hist_wf (ts_proc_time_hist (tk_stats task)) \<and>
     hist_wf (ts_total_time_hist (tk_stats task))"

definition same_schedule :: "cyclic_task \<Rightarrow> cyclic_task \<Rightarrow> bool" where
  "same_schedule c c' \<longleftrightarrow> tk_params (cy_task c') = tk_params (cy_task c) \<and> tk_timer_start (cy_task c') = tk_timer_start (cy_task c) \<and>
     tk_sched_time (cy_task c') = tk_sched_time (cy_task c)"

text \<open>A loop function that returns and leaves the schedule alone.\<close>

definition loop_safe :: "'c loop_func option \<Rightarrow> bool" where
  "loop_safe loop \<longleftrightarrow> (\<forall>f st c ctx. loop = Some f \<longrightarrow> cyclic_ok c \<longrightarrow> task_ok (cy_task c) \<longrightarrow>
     (\<exists>c' ctx'. f st (c, ctx) = Some (c', ctx') \<and> cyclic_ok c' \<and> task_ok (cy_task c') \<and> same_schedule c c'))"

lemma run_loop_func_ok:
  assumes "loop_safe loop" and "cyclic_ok c" and "task_ok (cy_task c)"
  shows "\<exists>c' ctx'. run_loop_func loop st (c, ctx) = Some (c', ctx') \<and> cyclic_ok c' \<and> task_ok (cy_task c') \<and> same_schedule c c'"
proof (cases loop)
  case None
  then show ?thesis using assms(2,3) by (simp add: run_loop_func_def same_schedule_def)
next
  case (Some f)
  then show ?thesis using assms by (auto simp: run_loop_func_def loop_safe_def)
qed

lemma transmit_sock_keeps: "tsn_net_transmit_sock net sent = (st, net') \<Longrightarrow> nk_n net' = nk_n net"
  by (auto simp: tsn_net_transmit_sock_def Let_def split: if_splits)

text \<open>Transmitting is safe in a loop function.\<close>

lemma cyclic_net_transmit_safe:
  assumes "cyclic_net_transmit c msg len ready sent = (rc, req, c')" and "cyclic_ok c" and "task_ok (cy_task c)"
  shows "cyclic_ok c' \<and> task_ok (cy_task c') \<and> same_schedule c c'"
proof -
  have "\<exists>tx. c' = c\<lparr>cy_task := (cy_task c)\<lparr>tk_tx := tx\<rparr>\<rparr>"
  proof -
    have "\<exists>tx. c = c\<lparr>cy_task := (cy_task c)\<lparr>tk_tx := tx\<rparr>\<rparr>" by (rule exI [of _ "tk_tx (cy_task c)"]) simp
    then show ?thesis using assms(1) by (auto simp: cyclic_net_transmit_def Let_def split: if_splits prod.splits)
  qed
  then show ?thesis using assms(2,3) by (auto simp: cyclic_ok_def task_ok_def same_schedule_def)
qed

section \<open>The parts of a turn\<close>

lemma period_less: "period_ok p \<Longrightarrow> unat p \<le> 1000000000" by (auto simp: period_ok_def intro: dvd_imp_le)

text \<open>The turn is on time when the wake-up is within the period it is scheduled for.\<close>

definition on_time :: "tsn_task \<Rightarrow> u64 \<Rightarrow> bool" where
  "on_time task now \<longleftrightarrow> unat (ucast (now - tk_sched_time task) :: u32) < unat (tp_task_period_ns (tk_params task))"

lemma sint_neg_iff: "sint (w :: s32) < 0 \<longleftrightarrow> 2 ^ 31 \<le> unat w"
proof -
  have u: "0 \<le> uint w" "uint w < 2 ^ 32" using uint_lt2p [of w] by simp_all
  have s: "sint w = (uint w + 2 ^ 31) mod 2 ^ 32 - 2 ^ 31"
    by (simp add: sint_uint signed_take_bit_eq_take_bit_shift take_bit_eq_mod)
  have m: "(uint w + 2 ^ 31) mod 2 ^ 32 = (if uint w < 2 ^ 31 then uint w + 2 ^ 31 else uint w - 2 ^ 31)"
  proof (cases "uint w < 2 ^ 31")
    case False
    have "uint w + 2 ^ 31 = uint w - 2 ^ 31 + 2 ^ 32" by simp
    then have "(uint w + 2 ^ 31) mod 2 ^ 32 = (uint w - 2 ^ 31 + 2 ^ 32) mod 2 ^ 32" by (simp only:)
    also have "\<dots> = (uint w - 2 ^ 31) mod 2 ^ 32" by (rule mod_add_self2)
    also have "\<dots> = uint w - 2 ^ 31" by (rule mod_pos_pos_trivial) (use False u in simp_all)
    finally show ?thesis using False by simp
  qed (use u in simp)
  have k: "2 ^ 31 \<le> unat w \<longleftrightarrow> 2 ^ 31 \<le> uint w" using u(1) by (simp only: unat_eq_nat_uint le_nat_iff of_nat_power of_nat_numeral)
  show ?thesis unfolding s m k using u by (simp split: if_split)
qed

lemma stats_start_ok:
  assumes "task_ok task"
  shows "\<exists>rc task'. tsn_task_stats_start task now = Some (rc, task') \<and> task_ok task' \<and> (rc < 0 \<longleftrightarrow> \<not> on_time task now) \<and>
    tk_params task' = tk_params task \<and> tk_timer_start task' = tk_timer_start task \<and> tk_sched_time task' = tk_sched_time task \<and>
    tk_rx task' = tk_rx task"
proof -
  let ?e = "ucast (now - tk_sched_time task) :: s32" let ?p = "tp_task_period_ns (tk_params task)"
  have "unat ?p \<le> 1000000000" using assms period_less by (simp add: task_ok_def)
  then have p: "unat ?p < 2 ^ 31" by simp
  have neg: "on_time task now \<longleftrightarrow> \<not> (?p \<le> ?e) \<and> \<not> sint ?e < 0"
    using p by (auto simp only: on_time_def sint_neg_iff word_le_nat_alt not_le)
  obtain h where h: "rtos_apps_hist_update (ts_sched_err_hist (tk_stats task)) (if sint ?e < 0 then - ?e else ?e) = Some h" "hist_wf h"
    using hist_update_wf assms unfolding task_ok_def by blast
  show ?thesis
    using assms h neg
    by (cases "sint ?e < 0"; cases "?p \<le> ?e") (simp_all add: tsn_task_stats_start_def Let_def task_ok_def)
qed

lemma stats_end_ok:
  assumes "task_ok task"
  shows "\<exists>task'. tsn_task_stats_end task now = Some task' \<and> task_ok task' \<and> tk_params task' = tk_params task \<and>
    tk_timer_start task' = tk_timer_start task \<and> tk_rx task' = tk_rx task \<and>
    tk_sched_time task' = tk_sched_time task + ucast (tp_task_period_ns (tk_params task))"
proof -
  obtain h where h: "rtos_apps_hist_update (ts_proc_time_hist (tk_stats task)) (ucast (now - tk_sched_now task)) = Some h" "hist_wf h"
    using hist_update_wf assms unfolding task_ok_def by blast
  obtain h' where h': "rtos_apps_hist_update (ts_total_time_hist (tk_stats task)) (ucast (now - tk_sched_time task)) = Some h'" "hist_wf h'"
    using hist_update_wf assms unfolding task_ok_def by blast
  show ?thesis using assms h h' by (simp add: tsn_task_stats_end_def Let_def task_ok_def)
qed

lemma start_ok:
  assumes "task_ok (cy_task c)"
  shows "\<exists>rc c'. cyclic_task_start (cyclic_task_stop c) clock started = Some (rc, c') \<and> task_ok (cy_task c') \<and>
    (cyclic_ok c \<longrightarrow> cyclic_ok c') \<and> tk_params (cy_task c') = tk_params (cy_task c) \<and>
    tk_clock_discont (cy_task c') = tk_clock_discont (cy_task c) \<and> cy_num_peers c' = cy_num_peers c \<and>
    tk_timer_start (cy_task c') =
      (if clock = None \<or> \<not> started then None
       else Some (tsn_task_get_time (cy_task c') - ucast (tp_task_period_ns (cy_params c)), tp_task_period_ns (cy_params c)))"
  using assms
  by (cases clock) (auto simp: cyclic_task_start_eq cyclic_task_stop_def tsn_task_start_def tsn_task_stop_def Let_def task_ok_def
      period_ok_def cyclic_ok_def tsn_task_get_time_def)

lemma upd_task_stats_ok:
  assumes "\<And>st. hist_wf (ts_sched_err_hist (f st)) = hist_wf (ts_sched_err_hist st) \<and>
    hist_wf (ts_proc_time_hist (f st)) = hist_wf (ts_proc_time_hist st) \<and> hist_wf (ts_total_time_hist (f st)) = hist_wf (ts_total_time_hist st)"
  shows "task_ok (cy_task (upd_task_stats f c)) = task_ok (cy_task c)" and "cyclic_ok (upd_task_stats f c) = cyclic_ok c"
    and "same_schedule c (upd_task_stats f c)" and "tk_clock_discont (cy_task (upd_task_stats f c)) = tk_clock_discont (cy_task c)"
  using assms by (simp_all add: upd_task_stats_def task_ok_def cyclic_ok_def same_schedule_def)

text \<open>A task whose timer was started again: it waits for the end of the period it was started with, or has no timer running.\<close>

definition restarted :: "cyclic_task \<Rightarrow> cycle_env \<Rightarrow> cyclic_task \<Rightarrow> bool" where
  "restarted c env c' \<longleftrightarrow> tk_params (cy_task c') = tk_params (cy_task c) \<and>
     tk_timer_start (cy_task c') =
      (if ce_clock env = None \<or> \<not> ce_started env then None
       else Some (tsn_task_get_time (cy_task c') - ucast (tp_task_period_ns (cy_params c)), tp_task_period_ns (cy_params c)))"

lemma cyclic_restart_ok:
  assumes "loop_safe loop" and "cyclic_ok c" and "task_ok (cy_task c)"
    and clear: "\<And>c. cy_task (clear c) = cy_task c \<or> cy_task (clear c) = (cy_task c)\<lparr>tk_clock_discont := 0\<rparr>"
      "\<And>c. cy_num_peers (clear c) = cy_num_peers c \<and> cy_rx (clear c) = cy_rx c"
    and count: "\<And>st. hist_wf (ts_sched_err_hist (count st)) = hist_wf (ts_sched_err_hist st) \<and>
    hist_wf (ts_proc_time_hist (count st)) = hist_wf (ts_proc_time_hist st) \<and> hist_wf (ts_total_time_hist (count st)) = hist_wf (ts_total_time_hist st)"
  shows "\<exists>c' ctx'. cyclic_restart loop env clear count (c, ctx) = Some (c', ctx') \<and> cyclic_ok c' \<and> task_ok (cy_task c') \<and>
    restarted c env c'"
proof -
  obtain c1 ctx1 where l: "run_loop_func loop (- 1) (c, ctx) = Some (c1, ctx1)" "cyclic_ok c1" "task_ok (cy_task c1)" "same_schedule c c1"
    using run_loop_func_ok [OF assms(1-3)] by blast
  have 1: "cyclic_ok (clear c1)" "task_ok (cy_task (clear c1))" "tk_params (cy_task (clear c1)) = tk_params (cy_task c1)"
    using clear(1) [of c1] clear(2) [of c1] l(2,3) by (auto simp: cyclic_ok_def task_ok_def)
  obtain rc c2 where s: "cyclic_task_start (cyclic_task_stop (clear c1)) (ce_clock env) (ce_started env) = Some (rc, c2)"
    "task_ok (cy_task c2)" "cyclic_ok (clear c1) \<longrightarrow> cyclic_ok c2" "tk_params (cy_task c2) = tk_params (cy_task (clear c1))"
    "tk_timer_start (cy_task c2) =
      (if ce_clock env = None \<or> \<not> ce_started env then None
       else Some (tsn_task_get_time (cy_task c2) - ucast (tp_task_period_ns (cy_params (clear c1))), tp_task_period_ns (cy_params (clear c1))))"
    using start_ok [OF 1(2), of "ce_clock env" "ce_started env"] by blast
  let ?c = "upd_task_stats count c2"
  note u = upd_task_stats_ok [OF count, of c2]
  have "cyclic_restart loop env clear count (c, ctx) = Some (?c, ctx1)" using l(1) s(1) by (simp add: cyclic_restart_def)
  moreover have "restarted c env ?c"
    using s(4,5) 1(3) l(4) u(3) by (simp add: restarted_def same_schedule_def tsn_task_get_time_def)
  ultimately show ?thesis using u(1,2) s(2,3) 1(1) by blast
qed

section \<open>The dumps\<close>

lemma tsn_task_stats_dump_ok:
  "task_ok task \<Longrightarrow> task_ok (tsn_task_stats_dump a task)" "tk_params (tsn_task_stats_dump a task) = tk_params task"
  "tk_timer_start (tsn_task_stats_dump a task) = tk_timer_start task" "tk_sched_time (tsn_task_stats_dump a task) = tk_sched_time task"
  "tk_rx (tsn_task_stats_dump a task) = tk_rx task"
  by (simp_all add: tsn_task_stats_dump_def Let_def task_ok_def)

lemma tsn_stats_dump_ok:
  assumes "task_ok task"
  shows "task_ok (tsn_stats_dump a task)" and "tk_params (tsn_stats_dump a task) = tk_params task"
    and "tk_timer_start (tsn_stats_dump a task) = tk_timer_start task" and "tk_sched_time (tsn_stats_dump a task) = tk_sched_time task"
    and "length (tk_rx (tsn_stats_dump a task)) = length (tk_rx task)"
proof -
  let ?P = "\<lambda>_ t. task_ok t \<and> tk_params t = tk_params task \<and> tk_timer_start t = tk_timer_start task \<and>
    tk_sched_time t = tk_sched_time task \<and> length (tk_rx t) = length (tk_rx task)"
  have 0: "?P 0 (tsn_task_stats_dump (a 0) task)" using assms by (simp add: tsn_task_stats_dump_ok)
  have rx: "?P n (for_upto n (\<lambda>i t. t\<lparr>tk_rx := (tk_rx t)[i := f i (tk_rx t ! i)]\<rparr>) t)" if "?P 0 t" for n t and f :: "nat \<Rightarrow> net_socket \<Rightarrow> net_socket"
    by (rule for_upto_invariant [where P = ?P]) (use that in \<open>auto simp: task_ok_def\<close>)
  have tx: "?P n (for_upto n (\<lambda>i t. t\<lparr>tk_tx := (tk_tx t)[i := f i (tk_tx t ! i)]\<rparr>) t)" if "?P 0 t" for n t and f :: "nat \<Rightarrow> net_socket \<Rightarrow> net_socket"
    by (rule for_upto_invariant [where P = ?P]) (use that in \<open>auto simp: task_ok_def\<close>)
  have "?P 0 (tsn_stats_dump a task)" unfolding tsn_stats_dump_def Let_def by (rule tx, rule rx, rule 0)
  then show "task_ok (tsn_stats_dump a task)" and "tk_params (tsn_stats_dump a task) = tk_params task"
    and "tk_timer_start (tsn_stats_dump a task) = tk_timer_start task" and "tk_sched_time (tsn_stats_dump a task) = tk_sched_time task"
    and "length (tk_rx (tsn_stats_dump a task)) = length (tk_rx task)" by simp_all
qed

lemma socket_stats_dump_hist:
  "hist_wf (ks_traffic_latency_hist (cy_stats sock)) \<Longrightarrow> hist_wf (ks_traffic_latency_hist (cy_stats (socket_stats_dump a sock)))"
  by (simp add: socket_stats_dump_def)

lemma cyclic_stats_dump_ok:
  assumes "cyclic_ok c"
  shows "cyclic_ok (cyclic_stats_dump a c)" and "cy_task (cyclic_stats_dump a c) = cy_task c"
proof -
  let ?P = "\<lambda>_ c'. cyclic_ok c' \<and> cy_task c' = cy_task c \<and> cy_num_peers c' = cy_num_peers c"
  have "?P (unat (cy_num_peers c)) (cyclic_stats_dump a c)"
    unfolding cyclic_stats_dump_def
  proof (rule for_upto_invariant [where P = ?P])
    fix i s assume "i < unat (cy_num_peers c)" and "?P i s"
    then show "?P (Suc i) (s\<lparr>cy_rx := (cy_rx s)[i := socket_stats_dump (a i) (cy_rx s ! i)]\<rparr>)"
      by (auto simp: cyclic_ok_def nth_list_update intro!: socket_stats_dump_hist)
  qed (use assms in simp)
  then show "cyclic_ok (cyclic_stats_dump a c)" and "cy_task (cyclic_stats_dump a c) = cy_task c" by simp_all
qed

section \<open>The turn\<close>

lemma num_sched_stats_nonzero:
  assumes "period_ok p"
  shows "(5 * (NSECS_PER_SEC div p) :: u32) \<noteq> 0"
proof (cases "unat p = 1")
  case True
  then have "p = 1" by (simp add: word_unat_eq_iff)
  then show ?thesis by simp
next
  case False
  then have 2: "2 \<le> unat p" using assms unat_eq_zero [of p] by (simp add: period_ok_def)
  then have d: "1000000000 div unat p \<le> 500000000" using div_le_mono2 [of 2 "unat p" 1000000000] by simp
  have "1 \<le> 1000000000 div unat p" using period_less [OF assms] 2 by (simp add: Suc_le_eq div_greater_zero_iff)
  moreover have "unat (5 * (NSECS_PER_SEC div p) :: u32) = 5 * (1000000000 div unat p)"
    using unat_mult_lem [of 5 "NSECS_PER_SEC div p"] d by (simp add: unat_div)
  ultimately show ?thesis by auto
qed

text \<open>A turn that the timer or the clock spoils restarts the schedule; a turn on time advances it by one period.\<close>

lemma turn_on_time:
  assumes c: "cyclic_ok c" and task: "task_ok (cy_task c)" and safe: "loop_safe loop"
    and turn: "ce_event env \<and> tk_clock_discont (cy_task c) = 0" and on: "on_time (cy_task c) (ce_now env)"
  shows "\<exists>c' ctx'. main_cyclic (Some (\<lambda>h p ctx. Some (g h p ctx))) loop env (c, queue, ctx) = Some (c', ctx') \<and>
    cyclic_ok c' \<and> task_ok (cy_task c') \<and>
    tsn_task_get_time (cy_task c') = tsn_task_get_time (cy_task c) + ucast (tp_task_period_ns (cy_params c)) \<and>
    tk_timer_start (cy_task c') = tk_timer_start (cy_task c) \<and> cy_params c' = cy_params c"
proof -
  obtain rc task where st: "tsn_task_stats_start (cy_task c) (ce_now env) = Some (rc, task)" "task_ok task"
    "rc < 0 \<longleftrightarrow> \<not> on_time (cy_task c) (ce_now env)" "tk_params task = cy_params c"
    "tk_timer_start task = tk_timer_start (cy_task c)" "tk_sched_time task = tk_sched_time (cy_task c)" "tk_rx task = tk_rx (cy_task c)"
    using stats_start_ok [OF task] by blast
  let ?c = "c\<lparr>cy_task := task\<rparr>"
  have ok: "cyclic_ok ?c" "task_ok (cy_task ?c)" using c st(2,7) by (simp_all add: cyclic_ok_def)
  obtain c1 queue1 ctx1 where rx: "cyclic_net_receive (Some (\<lambda>h p ctx. Some (g h p ctx))) (?c, queue, ctx) = Some (c1, queue1, ctx1)"
    "cyclic_ok c1" "task_ok (cy_task c1)" "same_schedule ?c c1"
    using received_all [OF ok(1), of g queue ctx] ok(2) by (auto simp: same_schedule_def task_ok_def)
  obtain c2 ctx2 where l: "run_loop_func loop 0 (c1, ctx1) = Some (c2, ctx2)" "cyclic_ok c2" "task_ok (cy_task c2)" "same_schedule c1 c2"
    using run_loop_func_ok [OF safe rx(2,3)] by blast
  obtain task' where e: "tsn_task_stats_end (cy_task c2) (ce_fin env) = Some task'" "task_ok task'" "tk_params task' = cy_params c2"
    "tk_timer_start task' = tk_timer_start (cy_task c2)" "tk_rx task' = tk_rx (cy_task c2)"
    "tk_sched_time task' = tk_sched_time (cy_task c2) + ucast (tp_task_period_ns (cy_params c2))"
    using stats_end_ok [OF l(3)] by blast
  let ?c3 = "c2\<lparr>cy_task := task'\<rparr>"
  let ?d = "cyclic_stats_dump (ce_accepted_rx env) (?c3\<lparr>cy_task := tsn_stats_dump (ce_accepted env) task'\<rparr>)"
  have c3: "cyclic_ok ?c3" using l(2) e(5) by (simp add: cyclic_ok_def)
  then have "cyclic_ok (?c3\<lparr>cy_task := tsn_stats_dump (ce_accepted env) task'\<rparr>)"
    using tsn_stats_dump_ok(5) [OF e(2), of "ce_accepted env"] by (simp add: cyclic_ok_def)
  note d = cyclic_stats_dump_ok [OF this, of "ce_accepted_rx env"] and t = tsn_stats_dump_ok [OF e(2), of "ce_accepted env"]
  have nz: "(5 * (NSECS_PER_SEC div tp_task_period_ns (cy_params ?c3)) :: u32) \<noteq> 0"
    using num_sched_stats_nonzero e(2) by (simp add: task_ok_def)
  let ?fin = "if ts_sched (tk_stats task') mod (5 * (NSECS_PER_SEC div tp_task_period_ns (cy_params ?c3))) = 0 then ?d else ?c3"
  have run: "main_cyclic (Some (\<lambda>h p ctx. Some (g h p ctx))) loop env (c, queue, ctx) = Some (?fin, ctx2)"
    using turn on st(1,3) rx(1) l(1) e(1) nz by (simp add: main_cyclic_def)
  have "cyclic_ok ?fin" "task_ok (cy_task ?fin)" "cy_params ?fin = tk_params task'"
    "tk_timer_start (cy_task ?fin) = tk_timer_start task'" "tk_sched_time (cy_task ?fin) = tk_sched_time task'"
    using d t c3 e(2) by simp_all
  then show ?thesis using run e rx(4) l(4) st by (simp add: same_schedule_def tsn_task_get_time_def)
qed

lemma turn_restarts:
  assumes c: "cyclic_ok c" and task: "task_ok (cy_task c)" and safe: "loop_safe loop"
    and spoilt: "\<not> (ce_event env \<and> tk_clock_discont (cy_task c) = 0 \<and> on_time (cy_task c) (ce_now env))"
  shows "\<exists>c' ctx'. main_cyclic receive loop env (c, queue, ctx) = Some (c', ctx') \<and> cyclic_ok c' \<and> task_ok (cy_task c') \<and> restarted c env c'"
proof (cases "ce_event env \<and> tk_clock_discont (cy_task c) = 0")
  case False
  note r = cyclic_restart_ok [OF safe c task]
  show ?thesis
  proof (cases "ce_event env")
    case ev: True
    obtain c' ctx' where "cyclic_restart loop env (\<lambda>c. c\<lparr>cy_task := (cy_task c)\<lparr>tk_clock_discont := 0\<rparr>\<rparr>)
          (\<lambda>st. st\<lparr>ts_clock_discont := ts_clock_discont st + 1\<rparr>) (c, ctx) = Some (c', ctx')"
      "cyclic_ok c'" "task_ok (cy_task c')" "restarted c env c'"
      using r [of "\<lambda>c. c\<lparr>cy_task := (cy_task c)\<lparr>tk_clock_discont := 0\<rparr>\<rparr>" "\<lambda>st. st\<lparr>ts_clock_discont := ts_clock_discont st + 1\<rparr>" env ctx]
      by auto
    then show ?thesis using False ev by (simp add: main_cyclic_def)
  next
    case ev: False
    obtain c' ctx' where "cyclic_restart loop env (\<lambda>c. c) (\<lambda>st. st\<lparr>ts_sched_timeout := ts_sched_timeout st + 1\<rparr>) (c, ctx) = Some (c', ctx')"
      "cyclic_ok c'" "task_ok (cy_task c')" "restarted c env c'"
      using r [of "\<lambda>c. c" "\<lambda>st. st\<lparr>ts_sched_timeout := ts_sched_timeout st + 1\<rparr>" env ctx] by auto
    then show ?thesis using ev by (simp add: main_cyclic_def)
  qed
next
  case True
  then have late: "\<not> on_time (cy_task c) (ce_now env)" using spoilt by simp
  obtain rc task where st: "tsn_task_stats_start (cy_task c) (ce_now env) = Some (rc, task)" "task_ok task"
    "rc < 0 \<longleftrightarrow> \<not> on_time (cy_task c) (ce_now env)" "tk_params task = cy_params c"
    "tk_timer_start task = tk_timer_start (cy_task c)" "tk_sched_time task = tk_sched_time (cy_task c)" "tk_rx task = tk_rx (cy_task c)"
    using stats_start_ok [OF task] by blast
  let ?c = "c\<lparr>cy_task := task\<rparr>"
  have ok: "cyclic_ok ?c" "task_ok (cy_task ?c)" using c st(2,7) by (simp_all add: cyclic_ok_def)
  obtain c' ctx' where "cyclic_restart loop env (\<lambda>c. c) (\<lambda>st. st\<lparr>ts_clock_discont := ts_clock_discont st + 1\<rparr>) (?c, ctx) = Some (c', ctx')"
    "cyclic_ok c'" "task_ok (cy_task c')" "restarted ?c env c'"
    using cyclic_restart_ok [OF safe ok, of "\<lambda>c. c" "\<lambda>st. st\<lparr>ts_clock_discont := ts_clock_discont st + 1\<rparr>" env ctx] by auto
  then show ?thesis using True late st by (simp add: main_cyclic_def restarted_def)
qed

text \<open>
  C8. A turn of a cyclic task whose loop function returns never traps, and leaves the task fit for the next one. When the
  timer woke it within its period and the clock did not jump, the schedule advances by exactly one period and the timer
  is left alone; otherwise the timer is started again.
\<close>

theorem cyclic_turn:
  assumes "cyclic_ok c" and "task_ok (cy_task c)" and "loop_safe loop"
  shows "\<exists>c' ctx'. main_cyclic (Some (\<lambda>h p ctx. Some (g h p ctx))) loop env (c, queue, ctx) = Some (c', ctx') \<and>
    cyclic_ok c' \<and> task_ok (cy_task c') \<and>
    (if ce_event env \<and> tk_clock_discont (cy_task c) = 0 \<and> on_time (cy_task c) (ce_now env)
     then tsn_task_get_time (cy_task c') = tsn_task_get_time (cy_task c) + ucast (tp_task_period_ns (cy_params c)) \<and>
       tk_timer_start (cy_task c') = tk_timer_start (cy_task c) \<and> cy_params c' = cy_params c
     else restarted c env c')"
proof (cases "ce_event env \<and> tk_clock_discont (cy_task c) = 0 \<and> on_time (cy_task c) (ce_now env)")
  case True
  then show ?thesis using turn_on_time [OF assms, of env g queue ctx] by auto
next
  case False
  then show ?thesis using turn_restarts [OF assms False, of "Some (\<lambda>h p ctx. Some (g h p ctx))" queue ctx] by auto
qed

text \<open>A loop function that transmits once in each turn.\<close>

definition demo_loop :: "nat loop_func" where
  "demo_loop st s = (case s of (c, n) \<Rightarrow> case cyclic_net_transmit c 0 8 1 1 of (rc, req, c) \<Rightarrow> Some (c, Suc n))"

lemma demo_loop_safe: "loop_safe (Some demo_loop)"
  unfolding loop_safe_def by (auto simp: demo_loop_def split: prod.split dest: cyclic_net_transmit_safe)

lemma demo_task_ok: "task_ok (cy_task demo_cyclic)"
  using demo_period by (simp add: task_ok_def) (simp add: demo_cyclic_def demo_task_def demo_task_stats_def demo_hist_def hist_wf_def)

definition demo_env :: cycle_env where
  "demo_env = \<lparr>ce_event = True, ce_now = 5001000700, ce_fin = 5001050000, ce_clock = None, ce_started = False,
     ce_accepted = (\<lambda>_. True), ce_accepted_rx = (\<lambda>_. True)\<rparr>"

theorem cyclic_turn_witness:
  "\<exists>c' n'. main_cyclic (Some (\<lambda>h p ctx. Some (ctx + p))) (Some demo_loop) demo_env (demo_cyclic, demo_queue, 0) = Some (c', n') \<and>
     cyclic_ok c' \<and> task_ok (cy_task c') \<and> tsn_task_get_time (cy_task c') = 5002000000"
proof -
  have "on_time (cy_task demo_cyclic) (ce_now demo_env)"
    by (simp add: on_time_def demo_cyclic_def demo_task_def demo_env_def)
  moreover have "ce_event demo_env" "tk_clock_discont (cy_task demo_cyclic) = 0" "tsn_task_get_time (cy_task demo_cyclic) = 5001000000"
    "tp_task_period_ns (cy_params demo_cyclic) = 1000000"
    by (simp_all add: demo_env_def demo_cyclic_def demo_task_def tsn_task_get_time_def)
  ultimately show ?thesis
    using cyclic_turn [OF demo_cyclic_ok demo_task_ok demo_loop_safe, of "\<lambda>h p ctx. ctx + p" demo_env demo_queue 0] by auto
qed

end
