(* ===== verification/Tsn_Config.thy ===== *)
theory Tsn_Config
  imports Tsn_Init Tsn_Turn
begin

text \<open>
  The configuration of the network, \<open>tsn/tsn_tasks_config.c\<close>: the streams and the tasks of each role. The creation and
  the end of cyclic tasks, \<open>tsn/cyclic_task.c\<close>, and of alarm tasks, \<open>tsn/alarm_task.c\<close>, from it.
\<close>

section \<open>Streams\<close>

text \<open>The priorities are constants of the network stack.\<close>

datatype stream_priority = ISOCHRONOUS_DEFAULT_PRIORITY | EVENTS_DEFAULT_PRIORITY

text \<open>The fields of a layer 2 address that the table sets; the identifiers are in host order.\<close>

record tsn_stream =
  sm_vlan_id :: u16
  sm_priority :: stream_priority
  sm_dst_mac :: "u8 list"
  sm_protocol :: u16

definition tsn_streams :: "tsn_stream list" where
  "tsn_streams =
     [\<lparr>sm_vlan_id = 2, sm_priority = ISOCHRONOUS_DEFAULT_PRIORITY, sm_dst_mac = [0x91, 0xe0, 0xf0, 0x00, 0xfe, 0x70], sm_protocol = 0x818D\<rparr>,
      \<lparr>sm_vlan_id = 2, sm_priority = ISOCHRONOUS_DEFAULT_PRIORITY, sm_dst_mac = [0x91, 0xe0, 0xf0, 0x00, 0xfe, 0x71], sm_protocol = 0x818D\<rparr>,
      \<lparr>sm_vlan_id = 2, sm_priority = ISOCHRONOUS_DEFAULT_PRIORITY, sm_dst_mac = [0x91, 0xe0, 0xf0, 0x00, 0xfe, 0x80], sm_protocol = 0x818D\<rparr>,
      \<lparr>sm_vlan_id = 2, sm_priority = EVENTS_DEFAULT_PRIORITY, sm_dst_mac = [0x91, 0xe0, 0xf0, 0x00, 0xfe, 0x90], sm_protocol = 0x818D\<rparr>,
      \<lparr>sm_vlan_id = 2, sm_priority = EVENTS_DEFAULT_PRIORITY, sm_dst_mac = [0x91, 0xe0, 0xf0, 0x00, 0xfe, 0xa0], sm_protocol = 0x818D\<rparr>]"

definition tsn_conf_get_stream :: "u32 \<Rightarrow> tsn_stream option" where
  "tsn_conf_get_stream index = (if unat index \<ge> length tsn_streams then None else Some (tsn_streams ! unat index))"

section \<open>Tasks\<close>

datatype task_type = CYCLIC_CONTROLLER | CYCLIC_IO_DEVICE | ALARM_MONITOR | ALARM_IO_DEVICE

abbreviation (input) CONTROLLER_0 :: u32 where "CONTROLLER_0 \<equiv> 0"
abbreviation (input) IO_DEVICE_0 :: u32 where "IO_DEVICE_0 \<equiv> 1"
abbreviation (input) IO_DEVICE_1 :: u32 where "IO_DEVICE_1 \<equiv> 2"
abbreviation (input) MAX_PEERS :: nat where "MAX_PEERS \<equiv> 2"
abbreviation (input) PACKET_SIZE :: u32 where "PACKET_SIZE \<equiv> 80"

record socket_config =
  sc_peer_id :: u32
  sc_stream_id :: u32

record cyclic_task_config =
  cc_params :: tsn_task_params
  cc_type :: task_type
  cc_id :: u32
  cc_num_peers :: u32
  cc_rx_socket :: "socket_config list"
  cc_tx_socket :: socket_config

record alarm_task_config =
  ac_params :: tsn_task_params
  ac_type :: task_type
  ac_id :: u32
  ac_stream_id :: u32
  ac_length :: u32

text \<open>What the tables do not set is zero.\<close>

definition zeroed_params :: tsn_task_params where
  "zeroed_params = \<lparr>tp_task_period_ns = 0, tp_task_period_offset_ns = 0, tp_transfer_time_ns = 0, tp_tx_time_offset_ns = 0,
     tp_tx_time_enabled = False, tp_num_packets = 0, tp_zero_copy = False, tp_num_rx_socket = 0, tp_rx_buf_size = 0,
     tp_num_tx_socket = 0, tp_tx_buf_size = 0\<rparr>"

definition CYCLIC_TASK_DEFAULT_PARAMS :: tsn_task_params where
  "CYCLIC_TASK_DEFAULT_PARAMS = zeroed_params\<lparr>tp_rx_buf_size := PACKET_SIZE, tp_tx_buf_size := PACKET_SIZE\<rparr>"

definition ALARM_TASK_DEFAULT_PARAMS :: tsn_task_params where
  "ALARM_TASK_DEFAULT_PARAMS = zeroed_params\<lparr>tp_rx_buf_size := PACKET_SIZE, tp_tx_buf_size := PACKET_SIZE, tp_num_packets := 1, tp_zero_copy := True\<rparr>"

definition zeroed_socket_config :: socket_config where
  "zeroed_socket_config = \<lparr>sc_peer_id = 0, sc_stream_id = 0\<rparr>"

definition cyclic_tasks :: "cyclic_task_config list" where
  "cyclic_tasks =
     [\<lparr>cc_params = CYCLIC_TASK_DEFAULT_PARAMS, cc_type = CYCLIC_CONTROLLER, cc_id = CONTROLLER_0, cc_num_peers = 2,
       cc_rx_socket = [\<lparr>sc_peer_id = IO_DEVICE_0, sc_stream_id = 1\<rparr>, \<lparr>sc_peer_id = IO_DEVICE_1, sc_stream_id = 2\<rparr>],
       cc_tx_socket = zeroed_socket_config\<lparr>sc_stream_id := 0\<rparr>\<rparr>,
      \<lparr>cc_params = CYCLIC_TASK_DEFAULT_PARAMS, cc_type = CYCLIC_IO_DEVICE, cc_id = IO_DEVICE_0, cc_num_peers = 1,
       cc_rx_socket = [\<lparr>sc_peer_id = CONTROLLER_0, sc_stream_id = 0\<rparr>, zeroed_socket_config],
       cc_tx_socket = zeroed_socket_config\<lparr>sc_stream_id := 1\<rparr>\<rparr>,
      \<lparr>cc_params = CYCLIC_TASK_DEFAULT_PARAMS, cc_type = CYCLIC_IO_DEVICE, cc_id = IO_DEVICE_1, cc_num_peers = 1,
       cc_rx_socket = [\<lparr>sc_peer_id = CONTROLLER_0, sc_stream_id = 0\<rparr>, zeroed_socket_config],
       cc_tx_socket = zeroed_socket_config\<lparr>sc_stream_id := 2\<rparr>\<rparr>]"

definition alarm_tasks :: "alarm_task_config list" where
  "alarm_tasks =
     [\<lparr>ac_params = ALARM_TASK_DEFAULT_PARAMS, ac_type = ALARM_MONITOR, ac_id = CONTROLLER_0, ac_stream_id = 4, ac_length = 8\<rparr>,
      \<lparr>ac_params = ALARM_TASK_DEFAULT_PARAMS, ac_type = ALARM_IO_DEVICE, ac_id = IO_DEVICE_0, ac_stream_id = 4, ac_length = 0\<rparr>,
      \<lparr>ac_params = ALARM_TASK_DEFAULT_PARAMS, ac_type = ALARM_IO_DEVICE, ac_id = IO_DEVICE_1, ac_stream_id = 4, ac_length = 0\<rparr>]"

definition tsn_conf_get_cyclic_task :: "u32 \<Rightarrow> cyclic_task_config option" where
  "tsn_conf_get_cyclic_task index = (if unat index \<ge> length cyclic_tasks then None else Some (cyclic_tasks ! unat index))"

definition tsn_conf_get_alarm_task :: "u32 \<Rightarrow> alarm_task_config option" where
  "tsn_conf_get_alarm_task index = (if unat index \<ge> length alarm_tasks then None else Some (alarm_tasks ! unat index))"

section \<open>Cyclic tasks\<close>

text \<open>
  \<open>struct cyclic_task\<close> with its resources: the task it points to, its queue and the streams its sockets are opened on. Its
  state in use is the record \<open>cyclic_task\<close>, read by \<open>cyclic_of\<close>.
\<close>

record cyclic_mem =
  cx_task :: "task_mem option"
  cx_params :: tsn_task_params
  cx_id :: u32
  cx_num_peers :: u32
  cx_rx :: "cyclic_socket list"
  cx_rx_stream :: "tsn_stream option list"
  cx_tx_peer_id :: u32
  cx_tx_stream :: "tsn_stream option"
  cx_queue :: "nat option"

definition cyclic_of :: "cyclic_mem \<Rightarrow> cyclic_task option" where
  "cyclic_of c =
     map_option (\<lambda>t. \<lparr>cy_task = tm_task t, cy_id = cx_id c, cy_num_peers = cx_num_peers c, cy_rx = cx_rx c, cy_tx_peer_id = cx_tx_peer_id c\<rparr>)
       (cx_task c)"

definition zeroed_socket_stats :: socket_stats where
  "zeroed_socket_stats = \<lparr>ks_pending = False, ks_valid_frames = 0, ks_err_id = 0, ks_err_ts = 0, ks_err_underflow = 0,
     ks_link_status = False, ks_traffic_latency_max = 0, ks_traffic_latency_min = 0, ks_traffic_latency = stats_zeroed,
     ks_traffic_latency_hist = zeroed_hist\<rparr>"

definition zeroed_cyclic :: cyclic_mem where
  "zeroed_cyclic = \<lparr>cx_task = None, cx_params = zeroed_params, cx_id = 0, cx_num_peers = 0,
     cx_rx = replicate MAX_PEERS \<lparr>cy_peer_id = 0, cy_stats = zeroed_socket_stats, cy_stats_snap = zeroed_socket_stats\<rparr>,
     cx_rx_stream = replicate MAX_RX_SOCKET None, cx_tx_peer_id = 0, cx_tx_stream = None, cx_queue = None\<rparr>"

text \<open>One receiving socket: \<open>Inl None\<close> is an access beyond an array, \<open>Inl (Some _)\<close> a stream that is not in the table.\<close>

definition cyclic_rx_config :: "cyclic_task_config \<Rightarrow> nat \<Rightarrow> cyclic_mem \<Rightarrow> cyclic_mem option + cyclic_mem" where
  "cyclic_rx_config cfg i c =
     (if i < length (cc_rx_socket cfg) \<and> i < length (cx_rx_stream c) \<and> i < length (cx_rx c) then
        (let sock = cc_rx_socket cfg ! i in
         case tsn_conf_get_stream (sc_stream_id sock) of
           None \<Rightarrow> Inl (Some c)
         | Some stream \<Rightarrow>
             Inr (c\<lparr>cx_rx_stream := (cx_rx_stream c)[i := Some stream],
                    cx_params := (cx_params c)\<lparr>tp_num_rx_socket := tp_num_rx_socket (cx_params c) + 1\<rparr>,
                    cx_rx := (cx_rx c)[i := (cx_rx c ! i)\<lparr>cy_peer_id := sc_peer_id sock\<rparr>]\<rparr>))
      else Inl None)"

text \<open>After the registration the statistics of each receiving socket are initialised.\<close>

definition socket_stats_setup :: "cyclic_socket \<Rightarrow> cyclic_socket" where
  "socket_stats_setup sock =
     sock\<lparr>cy_stats := (cy_stats sock)
       \<lparr>ks_traffic_latency_min := 0xffffffff,
        ks_traffic_latency := rtos_apps_stats_init (ks_traffic_latency (cy_stats sock)) 31 ''traffic latency'' None,
        ks_traffic_latency_hist := snd (rtos_apps_hist_init (ks_traffic_latency_hist (cy_stats sock)) 100 1000)\<rparr>\<rparr>"

definition cyclic_task_init ::
  "(nat \<Rightarrow> bool) \<Rightarrow> (nat \<Rightarrow> u32 \<Rightarrow> s32) \<Rightarrow> cyclic_task_config \<Rightarrow> cyclic_mem \<times> sys \<Rightarrow> (int \<times> cyclic_mem \<times> sys) option" where
  "cyclic_task_init A alloc cfg st =
     (let (c, s) = st;
          c = c\<lparr>cx_params := cc_params cfg, cx_id := cc_id cfg, cx_num_peers := cc_num_peers cfg\<rparr>
      in case tsn_conf_get_stream (sc_stream_id (cc_tx_socket cfg)) of
           None \<Rightarrow> Some (- 1, c, s)
         | Some tx_stream \<Rightarrow>
             let c = c\<lparr>cx_tx_stream := Some tx_stream, cx_params := (cx_params c)\<lparr>tp_num_tx_socket := 1\<rparr>,
                       cx_tx_peer_id := sc_peer_id (cc_tx_socket cfg)\<rparr>
             in case for_upto_err (unat (cx_num_peers c)) (cyclic_rx_config cfg) c of
                  Inl None \<Rightarrow> None
                | Inl (Some c) \<Rightarrow> Some (- 1, c, s)
                | Inr c \<Rightarrow>
                    let (queue, s) = acquire A Queue s; c = c\<lparr>cx_queue := queue\<rparr>
                    in case queue of
                         None \<Rightarrow> Some (- 1, c, s)
                       | Some q \<Rightarrow>
                           do {
                             (rc, task, s) \<leftarrow> tsn_task_register A alloc (cx_params c) True True s;
                             let c = c\<lparr>cx_task := task\<rparr>;
                             if rc < 0 then map_option (\<lambda>s. (- 1, c, s)) (release Queue q s)
                             else Some (0, c\<lparr>cx_rx := map (\<lambda>(i, sock). if i < unat (cx_num_peers c) then socket_stats_setup sock else sock)
                                                   (enumerate 0 (cx_rx c))\<rparr>, s)
                           })"

definition cyclic_task_exit :: "cyclic_mem \<times> sys \<Rightarrow> (cyclic_mem \<times> sys) option" where
  "cyclic_task_exit st =
     (let (c, s) = st in
      do {
        t \<leftarrow> cx_task c;
        s \<leftarrow> tsn_task_unregister t s;
        s \<leftarrow> (case cx_queue c of None \<Rightarrow> Some s | Some q \<Rightarrow> release Queue q s);
        Some (c, s)
      })"

end
