(* ===== verification/Tsn_Alarm.thy ===== *)
theory Tsn_Alarm
  imports Tsn_Config
begin

text \<open>
  Alarm tasks, \<open>tsn/alarm_task.c\<close>: a device sends alarms without a schedule, a monitor receives them. Their creation and
  end, and what they send and receive.
\<close>

section \<open>State\<close>

text \<open>\<open>struct alarm_task\<close> with its resources. A zeroed \<open>type\<close> is \<open>CYCLIC_CONTROLLER\<close>, which is neither kind of alarm task.\<close>

record alarm_task =
  al_task :: "task_mem option"
  al_params :: tsn_task_params
  al_type :: task_type
  al_id :: u32
  al_queue :: "nat option"
  al_stream :: "tsn_stream option"

definition zeroed_alarm :: alarm_task where
  "zeroed_alarm = \<lparr>al_task = None, al_params = zeroed_params, al_type = CYCLIC_CONTROLLER, al_id = 0, al_queue = None, al_stream = None\<rparr>"

section \<open>Reception and transmission\<close>

text \<open>The callback of the socket puts it into the queue of the monitor, which has \<open>capacity\<close> places.\<close>

definition net_callback :: "nat \<Rightarrow> nat \<Rightarrow> nat list \<Rightarrow> nat list" where
  "net_callback capacity sock queue = (if length queue < capacity then queue @ [sock] else queue)"

text \<open>The monitor takes the frames of a socket until there is none left.\<close>

fun alarm_receive ::
  "('p, 'c) rx_func option \<Rightarrow> net_socket \<times> 'p rx_answer list \<times> 'c \<Rightarrow> (net_socket \<times> 'p rx_answer list \<times> 'c) option" where
  "alarm_receive net_rx_func (sock, [], ctx) = Some (sock, [], ctx)"
| "alarm_receive net_rx_func (sock, a # as, ctx) =
     (let (status, sock) = tsn_net_receive_sock sock a in
      if status \<noteq> NET_OK then Some (sock, as, ctx)
      else
        (case (case net_rx_func of None \<Rightarrow> Some ctx | Some f \<Rightarrow> f (rx_hdr a) (rx_payload a) ctx) of
           None \<Rightarrow> None
         | Some ctx \<Rightarrow> alarm_receive net_rx_func (sock, as, ctx)))"

text \<open>\<open>now\<close> is what the clock returns, \<open>None\<close> when it fails.\<close>

definition alarm_net_transmit ::
  "u32 \<Rightarrow> tsn_task \<Rightarrow> u32 \<Rightarrow> u32 \<Rightarrow> u64 option \<Rightarrow> s32 \<Rightarrow> s32 \<Rightarrow> int \<times> tx_request option \<times> tsn_task" where
  "alarm_net_transmit ident task msg_id len now ready sent =
     (let payload_len = len + TSN_HDR_SIZE; sock = tk_tx task ! 0 in
      if payload_len \<ge> tp_tx_buf_size (tk_params task) then (- 1, None, task)
      else
        (let (status, sock) = (if nk_zero_copy sock then tsn_net_transmit_done sock (nk_n sock) ready else (NET_OK, sock))
         in if status \<noteq> NET_OK then (- 1, None, task\<lparr>tk_tx := (tk_tx task)[0 := sock]\<rparr>)
            else
              (let hdr = \<lparr>hdr_msg_id = ucast msg_id, hdr_len = ucast len, hdr_src_id = ucast ident,
                          hdr_sched_time = (case now of None \<Rightarrow> 0 | Some t \<Rightarrow> t)\<rparr>;
                   request = \<lparr>tx_hdr = hdr, tx_packets = nk_n sock, tx_iov_len = nk_hdr_len sock + payload_len, tx_time = None\<rparr>;
                   (status, sock) = tsn_net_transmit_sock sock sent
               in (if status \<noteq> NET_OK then - 1 else 0, Some request, task\<lparr>tk_tx := (tk_tx task)[0 := sock]\<rparr>))))"

section \<open>Creation and end\<close>

definition alarm_task_monitor_init ::
  "(nat \<Rightarrow> bool) \<Rightarrow> (nat \<Rightarrow> u32 \<Rightarrow> s32) \<Rightarrow> alarm_task_config \<Rightarrow> alarm_task \<times> sys \<Rightarrow> (int \<times> alarm_task \<times> sys) option" where
  "alarm_task_monitor_init A alloc cfg st =
     (let (a, s) = st;
          a = a\<lparr>al_params := ac_params cfg, al_id := ac_id cfg\<rparr>;
          err = (\<lambda>a s. case al_queue a of None \<Rightarrow> Some (- 1, a, s) | Some q \<Rightarrow> map_option (\<lambda>s. (- 1, a, s)) (release Queue q s))
      in case tsn_conf_get_stream (ac_stream_id cfg) of
           None \<Rightarrow> err a s
         | Some stream \<Rightarrow>
             let a = a\<lparr>al_stream := Some stream, al_params := (al_params a)\<lparr>tp_num_rx_socket := 1\<rparr>\<rparr>;
                 (queue, s) = acquire A Queue s;
                 a = a\<lparr>al_queue := queue\<rparr>
             in if queue = None then err a s
                else do {
                  (rc, task, s) \<leftarrow> tsn_task_register A alloc (al_params a) True False s;
                  let a = a\<lparr>al_task := task\<rparr>;
                  if rc < 0 then err a s
                  else
                    (let (set, s) = attempt A s
                     in if \<not> set then err a s else Some (0, a\<lparr>al_type := ALARM_MONITOR\<rparr>, s))
                })"

definition alarm_task_monitor_exit :: "alarm_task \<Rightarrow> sys \<Rightarrow> sys option" where
  "alarm_task_monitor_exit a s =
     do {
       t \<leftarrow> al_task a;
       s \<leftarrow> tsn_task_unregister t s;
       case al_queue a of None \<Rightarrow> Some s | Some q \<Rightarrow> release Queue q s
     }"

definition alarm_task_io_init ::
  "(nat \<Rightarrow> bool) \<Rightarrow> (nat \<Rightarrow> u32 \<Rightarrow> s32) \<Rightarrow> alarm_task_config \<Rightarrow> alarm_task \<times> sys \<Rightarrow> (int \<times> alarm_task \<times> sys) option" where
  "alarm_task_io_init A alloc cfg st =
     (let (a, s) = st;
          a = a\<lparr>al_params := ac_params cfg, al_id := ac_id cfg\<rparr>
      in case tsn_conf_get_stream (ac_stream_id cfg) of
           None \<Rightarrow> Some (- 1, a, s)
         | Some stream \<Rightarrow>
             let a = a\<lparr>al_stream := Some stream, al_params := (al_params a)\<lparr>tp_num_tx_socket := 1\<rparr>\<rparr> in
             do {
               (rc, task, s) \<leftarrow> tsn_task_register A alloc (al_params a) True False s;
               let a = a\<lparr>al_task := task\<rparr>;
               if rc < 0 then Some (- 1, a, s) else Some (0, a\<lparr>al_type := ALARM_IO_DEVICE\<rparr>, s)
             })"

definition alarm_task_io_exit :: "alarm_task \<Rightarrow> sys \<Rightarrow> sys option" where
  "alarm_task_io_exit a s = Option.bind (al_task a) (\<lambda>t. tsn_task_unregister t s)"

definition alarm_task_exit :: "alarm_task \<Rightarrow> sys \<Rightarrow> sys option" where
  "alarm_task_exit a s =
     (if al_type a = ALARM_MONITOR then alarm_task_monitor_exit a s
      else if al_type a = ALARM_IO_DEVICE then alarm_task_io_exit a s
      else Some s)"

end
