(* ===== verification/Tsn_Lifecycle.thy ===== *)
theory Tsn_Lifecycle
  imports Tsn_Alarm
begin

text \<open>
  The life of the tasks: what a created cyclic task is fit for, that its end gives back what its creation took, and that
  ending it twice is a double free.
\<close>

section \<open>The receiving sockets of a cyclic task\<close>

definition config_fits :: "cyclic_task_config \<Rightarrow> bool" where
  "config_fits cfg \<longleftrightarrow> length (cc_rx_socket cfg) = MAX_PEERS \<and> unat (cc_num_peers cfg) \<le> MAX_PEERS \<and> tp_num_rx_socket (cc_params cfg) = 0"

definition fresh_cyclic :: "cyclic_mem \<Rightarrow> bool" where
  "fresh_cyclic c \<longleftrightarrow> length (cx_rx c) = MAX_PEERS \<and> length (cx_rx_stream c) = MAX_RX_SOCKET \<and>
     (\<forall>sock \<in> set (cx_rx c). ks_traffic_latency_hist (cy_stats sock) = zeroed_hist)"

definition rx_configured :: "cyclic_task_config \<Rightarrow> cyclic_mem \<Rightarrow> nat \<Rightarrow> cyclic_mem \<Rightarrow> bool" where
  "rx_configured cfg c0 i c \<longleftrightarrow> fresh_cyclic c \<and>
     cx_params c = (cx_params c0)\<lparr>tp_num_rx_socket := of_nat i\<rparr> \<and> cx_task c = cx_task c0 \<and> cx_num_peers c = cx_num_peers c0 \<and> cx_id c = cx_id c0 \<and>
     cx_queue c = cx_queue c0 \<and> cx_tx_stream c = cx_tx_stream c0 \<and>
     (\<forall>k < i. cy_peer_id (cx_rx c ! k) = sc_peer_id (cc_rx_socket cfg ! k) \<and>
        cx_rx_stream c ! k = tsn_conf_get_stream (sc_stream_id (cc_rx_socket cfg ! k)))"

lemma rx_config_step:
  assumes "config_fits cfg" and "i < unat (cc_num_peers cfg)" and "rx_configured cfg c0 i c"
  shows "case cyclic_rx_config cfg i c of Inr c' \<Rightarrow> rx_configured cfg c0 (Suc i) c' | Inl e \<Rightarrow> \<exists>c'. e = Some c'"
proof -
  have i: "i < 2" using assms(1,2) by (simp add: config_fits_def)
  have len: "length (cc_rx_socket cfg) = 2" "length (cx_rx_stream c) = 2" "length (cx_rx c) = 2"
    using assms(1,3) by (simp_all add: config_fits_def rx_configured_def fresh_cyclic_def)
  have fresh: "fresh_cyclic (c\<lparr>cx_rx_stream := (cx_rx_stream c)[i := x], cx_params := p, cx_rx := (cx_rx c)[i := (cx_rx c ! i)\<lparr>cy_peer_id := n\<rparr>]\<rparr>)" for x p n
    using assms(3) i len by (auto simp: rx_configured_def fresh_cyclic_def dest!: set_update_subset_insert [THEN subsetD])
  show ?thesis
    using assms(3) i len fresh
    by (cases "tsn_conf_get_stream (sc_stream_id (cc_rx_socket cfg ! i))")
      (auto simp: cyclic_rx_config_def rx_configured_def nth_list_update less_Suc_eq Let_def)
qed

lemma cyclic_socket_setup_ok:
  "ks_traffic_latency_hist (cy_stats sock) = zeroed_hist \<Longrightarrow> hist_wf (ks_traffic_latency_hist (cy_stats (socket_stats_setup sock)))"
  by (simp add: socket_stats_setup_def zeroed_hist_def hist_wf_def rtos_apps_hist_init_def)

lemma socket_setup_peer [simp]: "cy_peer_id (socket_stats_setup sock) = cy_peer_id sock"
  by (simp add: socket_stats_setup_def)

section \<open>Creation\<close>

text \<open>The resources of a created cyclic task.\<close>

definition cyclic_held :: "cyclic_mem \<Rightarrow> (resource \<times> nat) list" where
  "cyclic_held c = (case cx_task c of None \<Rightarrow> [] | Some t \<Rightarrow> task_held (cx_params c) t) @ handle Queue (cx_queue c)"

text \<open>A created task, wired as its configuration says.\<close>

definition created :: "cyclic_task_config \<Rightarrow> cyclic_mem \<Rightarrow> cyclic_task \<Rightarrow> bool" where
  "created cfg c ct \<longleftrightarrow> cyclic_of c = Some ct \<and> cyclic_ok ct \<and> cy_id ct = cc_id cfg \<and> cy_num_peers ct = cc_num_peers cfg \<and>
     cy_params ct = (cc_params cfg)\<lparr>tp_num_tx_socket := 1, tp_num_rx_socket := cc_num_peers cfg\<rparr> \<and>
     (period_ok (tp_task_period_ns (cc_params cfg)) \<longrightarrow> task_ok (cy_task ct)) \<and>
     cx_tx_stream c = tsn_conf_get_stream (sc_stream_id (cc_tx_socket cfg)) \<and>
     (\<forall>k < unat (cc_num_peers cfg). cy_peer_id (cy_rx ct ! k) = sc_peer_id (cc_rx_socket cfg ! k) \<and>
        cx_rx_stream c ! k = tsn_conf_get_stream (sc_stream_id (cc_rx_socket cfg ! k)))"

lemma of_nat_unat32: "(of_nat (unat (n :: u32)) :: u32) = n"
  by simp

lemma nat_sint_small: "unat (n :: u32) \<le> 2 \<Longrightarrow> nat (sint n) = unat n"
proof -
  assume n: "unat n \<le> 2"
  then have "unat n = 0 \<or> unat n = 1 \<or> unat n = 2" by auto
  then have "n = 0 \<or> n = 1 \<or> n = 2" by (auto simp: word_unat_eq_iff)
  then show ?thesis by auto
qed

definition initialised :: "sys \<Rightarrow> (resource \<times> nat) list \<Rightarrow> cyclic_task_config \<Rightarrow> int \<times> cyclic_mem \<times> sys \<Rightarrow> bool" where
  "initialised s0 held cfg r \<longleftrightarrow> (case r of (rc, c, s) \<Rightarrow>
     if rc < 0 then rc = - 1 \<and> (\<exists>extra. leak_of (cc_params cfg) (packet_count (cc_params cfg)) extra \<and> holds s0 (held @ extra) s)
     else rc = 0 \<and> (\<exists>t ct. cx_task c = Some t \<and> net_open (cx_params c) t \<and> tm_thread t \<noteq> None \<and> tm_timer t \<noteq> None \<and>
       created cfg c ct \<and> holds s0 (cyclic_held c @ held) s))"

lemma initialised_failed:
  "leak_of (cc_params cfg) (packet_count (cc_params cfg)) extra \<Longrightarrow> holds s0 (held @ extra) s \<Longrightarrow> initialised s0 held cfg (- 1, c, s)"
  by (auto simp: initialised_def)

lemmas initialised_stopped = initialised_failed [OF leak_of_none, simplified]

lemma cyclic_init_holds:
  assumes "sys_ok s0" and "holds s0 held s" and "config_fits cfg" and "fresh_cyclic c" and "alloc_fits alloc"
  shows "\<exists>r. cyclic_task_init A alloc cfg (c, s) = Some r \<and> initialised s0 held cfg r"
proof (cases "tsn_conf_get_stream (sc_stream_id (cc_tx_socket cfg))")
  case None
  then show ?thesis
    using initialised_stopped [OF assms(2)] by (simp add: cyclic_task_init_def Let_def)
next
  case (Some tx)
  have peers: "unat (cc_num_peers cfg) \<le> 2" using assms(3) by (simp add: config_fits_def)
  let ?c = "c\<lparr>cx_id := cc_id cfg, cx_num_peers := cc_num_peers cfg, cx_tx_stream := Some tx,
    cx_params := (cc_params cfg)\<lparr>tp_num_tx_socket := 1\<rparr>, cx_tx_peer_id := sc_peer_id (cc_tx_socket cfg)\<rparr>"
  have "fresh_cyclic ?c" using assms(4) by (simp add: fresh_cyclic_def)
  then have start: "rx_configured cfg ?c 0 ?c" using assms(3) by (simp add: rx_configured_def config_fits_def)
  have out: "case for_upto_err (unat (cc_num_peers cfg)) (cyclic_rx_config cfg) ?c of Inr c1 \<Rightarrow> rx_configured cfg ?c (unat (cc_num_peers cfg)) c1
    | Inl e \<Rightarrow> \<exists>i < unat (cc_num_peers cfg). \<exists>c'. e = Some c'"
    by (rule for_upto_err_outcome [where P = "rx_configured cfg ?c", OF start rx_config_step [OF assms(3)]])
  show ?thesis
  proof (cases "for_upto_err (unat (cc_num_peers cfg)) (cyclic_rx_config cfg) ?c")
    case (Inl e)
    then show ?thesis
      using out Some initialised_stopped [OF assms(2)] by (auto simp: cyclic_task_init_def Let_def)
  next
    case (Inr c1)
    then have c1: "rx_configured cfg ?c (unat (cc_num_peers cfg)) c1" using out by simp
    obtain queue s1 where q: "acquire A Queue s = (queue, s1)" by fastforce
    show ?thesis
    proof (cases queue)
      case None
      then show ?thesis
        using Inr Some q initialised_stopped [OF acquire_none [OF assms(2)]] by (simp add: cyclic_task_init_def Let_def)
    next
      case q': (Some n)
      note h1 = acquire_some [OF assms(2) q [unfolded q']]
      have params: "cx_params c1 = (cc_params cfg)\<lparr>tp_num_tx_socket := 1, tp_num_rx_socket := cc_num_peers cfg\<rparr>"
        using c1 by (simp add: rx_configured_def)
      have "num_tx (cx_params c1) = 1" "packet_count (cx_params c1) = packet_count (cc_params cfg)" "tp_zero_copy (cx_params c1) = tp_zero_copy (cc_params cfg)"
        by (simp_all add: params num_tx_def packet_count_def)
      then have leak: "leak_of (cx_params c1) (packet_bound (cx_params c1)) = leak_of (cc_params cfg) (packet_count (cc_params cfg))"
        by (simp add: leak_of_def fun_eq_iff)
      have fits: "sockets_fit (cx_params c1)" using peers nat_sint_small [OF peers] by (simp add: sockets_fit_def num_rx_def num_tx_def params)
      obtain rc task s2 where r: "tsn_task_register A alloc (cx_params c1) True True s1 = Some (rc, task, s2)"
        "registered s0 ((Queue, n) # held) (cx_params c1) True True (rc, task, s2)"
        using register_holds [OF assms(1) fits h1 assms(5)] by (metis prod_cases3)
      show ?thesis
      proof (cases "rc < 0")
        case True
        then obtain extra where "leak_of (cc_params cfg) (packet_count (cc_params cfg)) extra" "holds s0 ((Queue, n) # held @ extra) s2"
          using r(2) by (auto simp: registered_def leak)
        moreover from this(2) obtain s3 where "release Queue n s2 = Some s3" "holds s0 (held @ extra) s3"
          using release_last [OF assms(1)] by blast
        ultimately show ?thesis
          using True Inr Some q q' r(1) initialised_failed by (simp add: cyclic_task_init_def Let_def)
      next
        case False
        then obtain t where t: "rc = 0" "task = Some t" "net_open (cx_params c1) t" "tm_thread t \<noteq> None" "tm_timer t \<noteq> None"
          "tk_timer (tm_task t)" "stats_ready (tk_stats (tm_task t))" "holds s0 (task_held (cx_params c1) t @ (Queue, n) # held) s2"
          using r(2) by (auto simp: registered_def)
        let ?rx = "map (\<lambda>(i, sock). if i < unat (cc_num_peers cfg) then socket_stats_setup sock else sock) (enumerate 0 (cx_rx c1))"
        let ?c' = "c1\<lparr>cx_queue := Some n, cx_task := Some t, cx_rx := ?rx\<rparr>"
        have num: "cx_num_peers c1 = cc_num_peers cfg" "cx_id c1 = cc_id cfg" "cx_tx_stream c1 = Some tx" "length (cx_rx c1) = 2"
          using c1 by (simp_all add: rx_configured_def fresh_cyclic_def)
        have run: "cyclic_task_init A alloc cfg (c, s) = Some (0, ?c', s2)"
          using Inr Some q q' r(1) t(1,2) num by (simp add: cyclic_task_init_def Let_def)
        have params': "tk_params (tm_task t) = cx_params c1" and net: "num_rx (cx_params c1) \<le> length (tk_rx (tm_task t))"
          using t(3) by (auto simp: net_open_def net_fits_def)
        have peer_count: "num_rx (cx_params c1) = unat (cc_num_peers cfg)" by (simp add: num_rx_def params nat_sint_small [OF peers])
        have rx: "length ?rx = 2" "i < 2 \<Longrightarrow> ?rx ! i = (if i < unat (cc_num_peers cfg) then socket_stats_setup (cx_rx c1 ! i) else cx_rx c1 ! i)" for i
          using num(4) by (simp_all add: nth_enumerate_eq)
        have hists: "hist_wf (ks_traffic_latency_hist (cy_stats (?rx ! i)))" if "i < unat (cc_num_peers cfg)" for i
          using cyclic_socket_setup_ok [of "cx_rx c1 ! i"] c1 rx that peers num(4) by (simp add: rx_configured_def fresh_cyclic_def)
        have "created cfg ?c' (the (cyclic_of ?c'))"
          using c1 num rx params params' net peer_count peers t(6,7) hists Some
          by (simp add: created_def cyclic_of_def cyclic_ok_def task_ok_def stats_ready_def rx_configured_def)
        moreover have "holds s0 (cyclic_held ?c' @ held) s2" using t(8) by (simp add: cyclic_held_def handle_def)
        ultimately show ?thesis using run t by (auto simp: initialised_def)
      qed
    qed
  qed
qed

section \<open>End\<close>

lemma cyclic_exit_holds:
  assumes "sys_ok s0" and "cx_task c = Some t" and "net_open (cx_params c) t" and "tm_thread t \<noteq> None"
    and "holds s0 (cyclic_held c @ held) s"
  shows "\<exists>s'. cyclic_task_exit (c, s) = Some (c, s') \<and> holds s0 (net_packets (cx_params c) t @ held) s'"
proof -
  obtain s1 where 1: "tsn_task_unregister t s = Some s1" "holds s0 (net_packets (cx_params c) t @ handle Queue (cx_queue c) @ held) s1"
    using unregister_holds [OF assms(1,3,4), of "handle Queue (cx_queue c) @ held" s] assms(2,5) by (auto simp: cyclic_held_def)
  show ?thesis
  proof (cases "cx_queue c")
    case None
    then show ?thesis using 1 assms(2) by (simp add: cyclic_task_exit_def handle_def)
  next
    case (Some q)
    then have "holds s0 (net_packets (cx_params c) t @ (Queue, q) # held) s1" using 1(2) by (simp add: handle_def)
    then obtain s2 where "release Queue q s1 = Some s2" "holds s0 (net_packets (cx_params c) t @ held) s2"
      using release_holds [OF assms(1)] by blast
    then show ?thesis using 1(1) Some assms(2) by (simp add: cyclic_task_exit_def)
  qed
qed

text \<open>A second end finds the timer destroyed.\<close>

lemma cyclic_exit_again:
  assumes "sys_ok s0" and "cx_task c = Some t" and "tm_timer t \<noteq> None" and "holds s0 (cyclic_held c @ held) s" and "holds s0 (ps @ held) s'"
    and "\<forall>p \<in> set ps. fst p = Packet"
  shows "cyclic_task_exit (c, s') = None"
proof -
  obtain h where h: "tm_timer t = Some h" using assms(3) by blast
  have "(Timer, h) \<in> set (cyclic_held c)" using assms(2) h by (simp add: cyclic_held_def task_held_def handle_def)
  then have "(Timer, h) \<notin> set held" "sy_next s0 \<le> h" using assms(4) by (auto simp: holds_def)
  then have "(Timer, h) \<notin> sy_live s'" using assms(1,5,6) by (fastforce simp: holds_def sys_ok_def)
  then show ?thesis using assms(2) h by (simp add: cyclic_task_exit_def tsn_task_unregister_def release_gone)
qed

text \<open>
  C26. Creating a cyclic task from a configuration with at most two peers always returns. When it succeeds the task is
  wired to the peers and the streams of its configuration and fit to run, with a period that divides a second; ending it
  gives back exactly what its creation took, except, without copy, the packet buffers of its transmission socket, and ending
  it a second time frees what is free. When it fails nothing is kept, except, without copy, at most those buffers, and the
  transmission socket with its array.
\<close>

theorem cyclic_task_lifecycle:
  assumes "sys_ok s" and "config_fits cfg" and "fresh_cyclic c" and "alloc_fits alloc"
  shows "\<exists>rc c' s'. cyclic_task_init A alloc cfg (c, s) = Some (rc, c', s') \<and>
    (rc = 0 \<longrightarrow> (\<exists>ct s''. created cfg c' ct \<and> cyclic_task_exit (c', s') = Some (c', s'') \<and>
       packets_kept s (packet_count (cc_params cfg)) s'' \<and> cyclic_task_exit (c', s'') = None)) \<and>
    (rc \<noteq> 0 \<longrightarrow> failure_kept (tp_zero_copy (cc_params cfg)) (unat (tp_num_packets (cc_params cfg))) s s')"
proof -
  obtain rc c' s' where r: "cyclic_task_init A alloc cfg (c, s) = Some (rc, c', s')" "initialised s [] cfg (rc, c', s')"
    using cyclic_init_holds [OF assms(1) holds_refl assms(2-4), of A] by (metis prod_cases3)
  show ?thesis
  proof (cases "rc < 0")
    case True
    then obtain extra where "leak_of (cc_params cfg) (packet_count (cc_params cfg)) extra" "holds s extra s'" using r(2) by (auto simp: initialised_def)
    then have "failure_kept (tp_zero_copy (cc_params cfg)) (unat (tp_num_packets (cc_params cfg))) s s'"
      using leak_failure_kept [OF assms(1) _ _ packet_count_le] by blast
    then show ?thesis using r(1) True by simp
  next
    case False
    then obtain t ct where t: "rc = 0" "cx_task c' = Some t" "net_open (cx_params c') t" "tm_thread t \<noteq> None" "tm_timer t \<noteq> None"
      "created cfg c' ct" "holds s (cyclic_held c' @ []) s'"
      using r(2) by (auto simp: initialised_def)
    let ?ps = "net_packets (cx_params c') t"
    obtain s'' where s'': "cyclic_task_exit (c', s') = Some (c', s'')" "holds s (?ps @ []) s''"
      using cyclic_exit_holds [OF assms(1) t(2,3,4,7)] by blast
    have ps: "\<forall>p \<in> set ?ps. fst p = Packet" using net_packets_packet by blast
    have "cx_params c' = (cc_params cfg)\<lparr>tp_num_tx_socket := 1, tp_num_rx_socket := cc_num_peers cfg\<rparr>"
      using t(2,3,6) by (auto simp: created_def cyclic_of_def net_open_def net_fits_def)
    then have "length ?ps = packet_count (cc_params cfg)" using net_packets_count [OF t(3)] by (simp add: num_tx_def packet_count_def)
    then have "packets_kept s (packet_count (cc_params cfg)) s''" using holds_packets_kept [OF assms(1) _ ps] s''(2) by simp
    then show ?thesis using r(1) t(1,6) s''(1) cyclic_exit_again [OF assms(1) t(2,5,7) s''(2) ps] by auto
  qed
qed

text \<open>The controller of the table with its two devices.\<close>

theorem cyclic_task_lifecycle_witness:
  "\<exists>ct c s' s''. cyclic_task_init (\<lambda>_. True) (\<lambda>_ n. n) (cyclic_tasks ! 0) (zeroed_cyclic, \<lparr>sy_next = 0, sy_live = {}\<rparr>) = Some (0, c, s') \<and>
     cyclic_of c = Some ct \<and> cyclic_ok ct \<and> cy_peer_id (cy_rx ct ! 1) = 2 \<and> cyclic_task_exit (c, s') = Some (c, s'') \<and> sy_live s'' = {}"
proof -
  let ?s = "\<lparr>sy_next = 0, sy_live = {}\<rparr>"
  have ok: "sys_ok ?s" "config_fits (cyclic_tasks ! 0)" "fresh_cyclic zeroed_cyclic"
    by (simp_all add: sys_ok_def config_fits_def cyclic_tasks_def CYCLIC_TASK_DEFAULT_PARAMS_def zeroed_params_def fresh_cyclic_def
        zeroed_cyclic_def zeroed_socket_stats_def)
  have "map_option fst (cyclic_task_init (\<lambda>_. True) (\<lambda>_ n. n) (cyclic_tasks ! 0) (zeroed_cyclic, ?s)) = Some 0"
    using register_succeeds [of "CYCLIC_TASK_DEFAULT_PARAMS\<lparr>tp_num_tx_socket := 1, tp_num_rx_socket := 2\<rparr>" True True
        "\<lparr>sy_next = 1, sy_live = {(Queue, 0)}\<rparr>"]
    by (auto simp: cyclic_task_init_def cyclic_rx_config_def cyclic_tasks_def tsn_conf_get_stream_def tsn_streams_def zeroed_cyclic_def
      zeroed_socket_config_def err_loop_two acquire_def Let_def sockets_fit_def num_rx_def num_tx_def CYCLIC_TASK_DEFAULT_PARAMS_def
      zeroed_params_def)
  then obtain c s' where run: "cyclic_task_init (\<lambda>_. True) (\<lambda>_ n. n) (cyclic_tasks ! 0) (zeroed_cyclic, ?s) = Some (0, c, s')" by auto
  have peers: "unat (cc_num_peers (cyclic_tasks ! 0)) = 2" "sc_peer_id (cc_rx_socket (cyclic_tasks ! 0) ! 1) = 2" by (simp_all add: cyclic_tasks_def)
  have no_packets: "packet_count (cc_params (cyclic_tasks ! 0)) = 0"
    by (simp add: packet_count_def cyclic_tasks_def CYCLIC_TASK_DEFAULT_PARAMS_def zeroed_params_def)
  show ?thesis
    using cyclic_task_lifecycle [OF ok all_granted, of "\<lambda>_. True"] run peers no_packets by (fastforce simp: created_def packets_kept_none)
qed

end
