(* ===== verification/Serial_Device.thy ===== *)
theory Serial_Device
  imports Tsn_Turn
begin

text \<open>
  The serial device, \<open>tsn/serial_iodevice.c\<close>: the bytes of a serial line are cut into commands, each command travels in the
  message of a cycle, and the device that receives it writes it to its own serial line. Of the
  driver of the line, the receiving half is a parameter; of the sending half the model has what the code relies on, and its
  FIXME regrets: one transfer at a time, read from the caller's buffer while it is sent.
\<close>

section \<open>State\<close>

abbreviation (input) MAX_SERIAL_COMMAND_LEN :: nat where "MAX_SERIAL_COMMAND_LEN \<equiv> 50"
abbreviation (input) UART_RX_QUEUE_SIZE :: nat where "UART_RX_QUEUE_SIZE \<equiv> 5"
abbreviation (input) MSG_SERIAL :: u32 where "MSG_SERIAL \<equiv> 2"
abbreviation (input) MSG_SERIAL_SIZE :: u32 where "MSG_SERIAL_SIZE \<equiv> 52"

record msg_serial =
  ms_cmd_len :: u16
  ms_cmd :: "u8 list"

record serial_stats =
  se_num_cmds :: u32
  se_num_null_cmds :: u32
  se_uart_rx :: u32
  se_max_uart_buf_len :: u32
  se_uart_rx_err_alloc :: u32
  se_max_feedback_queue_len :: u32
  se_net_invalid_msg_id :: u32
  se_net_invalid_msg_len :: u32
  se_uart_tx_busy :: u32

text \<open>
  \<open>struct serial_iodevice_ctx\<close>; a \<open>struct uart_rx_msg\<close> in the queue is the list of its \<open>cmd_len\<close> bytes.
\<close>

record serial =
  sd_queue :: "u8 list list"
  sd_uart_rx_buf :: "u8 list"
  sd_uart_rx_index :: u32
  sd_new_cmd :: bool
  sd_cmd :: "u8 list"
  sd_cmd_len :: u16
  sd_stats :: serial_stats
  sd_stats_snap :: serial_stats

definition upd_sd :: "(serial_stats \<Rightarrow> serial_stats) \<Rightarrow> serial \<Rightarrow> serial" where
  "upd_sd f ctx = ctx\<lparr>sd_stats := f (sd_stats ctx)\<rparr>"

section \<open>From the serial line\<close>

definition uart_rx_buffer_reset :: "serial \<Rightarrow> serial" where
  "uart_rx_buffer_reset ctx = ctx\<lparr>sd_uart_rx_buf := replicate MAX_SERIAL_COMMAND_LEN 0, sd_uart_rx_index := 0\<rparr>"

text \<open>A command is queued when there is memory for it, and dropped when the queue is full.\<close>

definition uart_enqueue :: "bool \<Rightarrow> u8 list \<Rightarrow> serial \<Rightarrow> serial" where
  "uart_enqueue alloc cmd ctx =
     (if alloc then (if length (sd_queue ctx) < UART_RX_QUEUE_SIZE then ctx\<lparr>sd_queue := sd_queue ctx @ [cmd]\<rparr> else ctx)
      else upd_sd (\<lambda>st. st\<lparr>se_uart_rx_err_alloc := se_uart_rx_err_alloc st + 1\<rparr>) ctx)"

text \<open>
  The parser, on the context, the position \<open>i\<close> and the number \<open>n\<close> of commands so far; \<open>A n\<close> tells whether there is memory for
  the command. An access beyond the buffer is a trap.
\<close>

function (sequential) uart_parse :: "(nat \<Rightarrow> bool) \<Rightarrow> serial \<times> nat \<times> nat \<Rightarrow> (serial \<times> nat \<times> nat) option" where
  "uart_parse A (ctx, i, n) =
     (if \<not> i < unat (sd_uart_rx_index ctx) then Some (ctx, i, n)
      else if i \<ge> length (sd_uart_rx_buf ctx) then None
      else if sd_uart_rx_buf ctx ! i = 10 \<or> sd_uart_rx_buf ctx ! i = 13 then
        (let len = i + 1; ctx' = uart_enqueue (A n) (take len (sd_uart_rx_buf ctx)) ctx in
         if unat (sd_uart_rx_index ctx) > len then
           (if unat (sd_uart_rx_index ctx) > length (sd_uart_rx_buf ctx) then None
            else uart_parse A (ctx'\<lparr>sd_uart_rx_buf := for_upto (unat (sd_uart_rx_index ctx) - len) (\<lambda>j buf. buf[j := buf ! (len + j)]) (sd_uart_rx_buf ctx),
                                   sd_uart_rx_index := of_nat (unat (sd_uart_rx_index ctx) - len)\<rparr>, 0, n + 1))
         else Some (uart_rx_buffer_reset ctx', 0, n + 1))
      else if i + 1 = MAX_SERIAL_COMMAND_LEN then uart_parse A (uart_rx_buffer_reset ctx, 0, n)
      else uart_parse A (ctx, i + 1, n))"
  by pat_completeness auto
termination
proof (relation "measures [\<lambda>(_, ctx, _). unat (sd_uart_rx_index ctx), \<lambda>(_, ctx, i, _). unat (sd_uart_rx_index ctx) - i]", goal_cases)
  case (2 A ctx i n x xa)
  have "unat (of_nat (unat (sd_uart_rx_index ctx) - (i + 1)) :: u32) = unat (sd_uart_rx_index ctx) - (i + 1)"
    by (rule unat32_of_nat) (use unat32_less [of "sd_uart_rx_index ctx"] in simp)
  then show ?case using 2 by simp
qed (auto simp: uart_rx_buffer_reset_def)

declare uart_parse.simps [simp del]

text \<open>
  One turn of the reception task: the driver holds the bytes \<open>ring\<close> and hands over at most \<open>handed\<close> of those asked for.
\<close>

definition uart_rx_turn :: "(nat \<Rightarrow> bool) \<Rightarrow> nat \<Rightarrow> (serial \<times> nat \<times> nat) \<times> u8 list \<Rightarrow> ((serial \<times> nat \<times> nat) \<times> u8 list) option" where
  "uart_rx_turn A handed s =
     (let ((ctx, i, n), ring) = s;
          num_bytes_to_read = min (length ring) (unat (of_nat MAX_SERIAL_COMMAND_LEN - sd_uart_rx_index ctx));
          got = take (min handed num_bytes_to_read) ring; at = unat (sd_uart_rx_index ctx)
      in if at + length got > length (sd_uart_rx_buf ctx) then None
         else
           (let ctx = ctx\<lparr>sd_uart_rx_buf := take at (sd_uart_rx_buf ctx) @ got @ drop (at + length got) (sd_uart_rx_buf ctx),
                          sd_uart_rx_index := sd_uart_rx_index ctx + of_nat (length got)\<rparr>;
                ctx = (if sd_uart_rx_index ctx > se_max_uart_buf_len (sd_stats ctx)
                  then upd_sd (\<lambda>st. st\<lparr>se_max_uart_buf_len := sd_uart_rx_index ctx\<rparr>) ctx else ctx)
            in map_option (\<lambda>t. (t, drop (length got) ring)) (uart_parse A (ctx, i, n))))"

section \<open>The cycle\<close>

text \<open>
  The driver of the line does not copy what it is given: a transfer is a range of the command buffer, \<open>ut_at\<close> to \<open>ut_end\<close>,
  still to be sent from, and the bytes are read when they go out, one per \<open>uart_send_byte\<close>. A second transfer is refused.
\<close>

record uart_tx =
  ut_line :: "u8 list"
  ut_at :: nat
  ut_end :: nat

definition uart_busy :: "uart_tx \<Rightarrow> bool" where
  "uart_busy u \<longleftrightarrow> ut_at u < ut_end u"

definition uart_send_nonblocking :: "nat \<Rightarrow> uart_tx \<Rightarrow> bool \<times> uart_tx" where
  "uart_send_nonblocking len u = (if uart_busy u then (False, u) else (True, u\<lparr>ut_at := 0, ut_end := len\<rparr>))"

definition uart_send_byte :: "u8 list \<Rightarrow> uart_tx \<Rightarrow> uart_tx" where
  "uart_send_byte buf u = (if uart_busy u then u\<lparr>ut_line := ut_line u @ [buf ! ut_at u], ut_at := ut_at u + 1\<rparr> else u)"

text \<open>The answers of the network stack in a cycle, and what the stack held where the message is built.\<close>

record serial_env =
  sv_ready :: s32
  sv_sent :: s32
  sv_stack :: "u8 list"

text \<open>The context, the transmitting half of the serial line and the messages handed to the network, the last first.\<close>

type_synonym serial_sys = "serial \<times> uart_tx \<times> (tx_request \<times> msg_serial) list"

definition serial_iodevice_stats_dump :: "serial \<Rightarrow> serial" where
  "serial_iodevice_stats_dump ctx = ctx\<lparr>sd_stats_snap := sd_stats ctx\<rparr>"

definition serial_write :: "serial \<times> uart_tx \<Rightarrow> serial \<times> uart_tx" where
  "serial_write s =
     (let (ctx, uart) = s in
      if sd_new_cmd ctx then
        (let (success, uart) = uart_send_nonblocking (unat (sd_cmd_len ctx)) uart;
             ctx = (if success then ctx else upd_sd (\<lambda>st. st\<lparr>se_uart_tx_busy := se_uart_tx_busy st + 1\<rparr>) ctx)
         in (ctx\<lparr>sd_new_cmd := False\<rparr>, uart))
      else (ctx, uart))"

definition serial_take :: "serial_env \<Rightarrow> serial \<Rightarrow> msg_serial \<times> serial" where
  "serial_take env ctx =
     (let queue_len = of_nat (length (sd_queue ctx));
          ctx = (if queue_len > se_max_feedback_queue_len (sd_stats ctx)
            then upd_sd (\<lambda>st. st\<lparr>se_max_feedback_queue_len := queue_len\<rparr>) ctx else ctx)
      in case sd_queue ctx of
           [] \<Rightarrow> (\<lparr>ms_cmd_len = 0, ms_cmd = replicate MAX_SERIAL_COMMAND_LEN 0\<rparr>, ctx)
         | cmd # rest \<Rightarrow>
             (\<lparr>ms_cmd_len = of_nat (length cmd), ms_cmd = cmd @ drop (length cmd) (sv_stack env)\<rparr>,
              upd_sd (\<lambda>st. st\<lparr>se_uart_rx := se_uart_rx st + 1\<rparr>) (ctx\<lparr>sd_queue := rest\<rparr>)))"

definition serial_iodevice_loop :: "serial_env \<Rightarrow> serial_sys loop_func" where
  "serial_iodevice_loop env timer_status s =
     (let (c, ctx, uart, out) = s; period = tp_task_period_ns (cy_params c) in
      if period = 0 then None
      else
        (let num_sched_stats = 5 * (NSECS_PER_SEC div period);
             (ctx, uart) = serial_write (ctx, uart);
             (msg, ctx) = serial_take env ctx;
             (rc, request, c) = cyclic_net_transmit c MSG_SERIAL MSG_SERIAL_SIZE (sv_ready env) (sv_sent env);
             out = (case request of None \<Rightarrow> out | Some r \<Rightarrow> (r, msg) # out)
         in if num_sched_stats = 0 then None
            else Some (c, if ts_sched (tk_stats (cy_task c)) mod num_sched_stats = 0 then serial_iodevice_stats_dump ctx else ctx, uart, out)))"

section \<open>From the network\<close>

definition serial_iodevice_net_receive :: "tsn_common_hdr \<Rightarrow> msg_serial \<Rightarrow> serial \<Rightarrow> serial" where
  "serial_iodevice_net_receive hdr msg ctx =
     (if ucast (hdr_msg_id hdr) \<noteq> MSG_SERIAL then upd_sd (\<lambda>st. st\<lparr>se_net_invalid_msg_id := se_net_invalid_msg_id st + 1\<rparr>) ctx
      else if ms_cmd_len msg \<noteq> 0 then
        (if unat (ms_cmd_len msg) \<le> MAX_SERIAL_COMMAND_LEN then
           (let len = unat (ms_cmd_len msg) in
            upd_sd (\<lambda>st. st\<lparr>se_num_cmds := se_num_cmds st + 1\<rparr>)
              (ctx\<lparr>sd_new_cmd := True, sd_cmd_len := ms_cmd_len msg, sd_cmd := take len (ms_cmd msg) @ drop len (sd_cmd ctx)\<rparr>))
         else upd_sd (\<lambda>st. st\<lparr>se_net_invalid_msg_len := se_net_invalid_msg_len st + 1\<rparr>) ctx)
      else upd_sd (\<lambda>st. st\<lparr>se_num_null_cmds := se_num_null_cmds st + 1\<rparr>) ctx)"

definition serial_rx :: "(msg_serial, serial_sys) rx_func" where
  "serial_rx hdr msg s = (let (ctx, uart, out) = s in Some (serial_iodevice_net_receive hdr msg ctx, uart, out))"

section \<open>Cutting the line into commands\<close>

definition is_eol :: "u8 \<Rightarrow> bool" where
  "is_eol b \<longleftrightarrow> b = 10 \<or> b = 13"

text \<open>
  The specification: \<open>acc\<close> are the bytes since the last command. A command ends with its end of line; fifty bytes without
  one are given up.
\<close>

fun frame :: "u8 list \<Rightarrow> u8 list \<Rightarrow> u8 list list \<times> u8 list" where
  "frame acc [] = ([], acc)"
| "frame acc (b # bs) =
     (if is_eol b then apfst ((#) (acc @ [b])) (frame [] bs)
      else if length acc + 1 = MAX_SERIAL_COMMAND_LEN then frame [] bs
      else frame (acc @ [b]) bs)"

lemma frame_append:
  "frame acc (xs @ ys) = apfst ((@) (fst (frame acc xs))) (frame (snd (frame acc xs)) ys)"
  by (induction acc xs rule: frame.induct) (simp_all add: apfst_def map_prod_def split: prod.split)

definition no_eol :: "u8 list \<Rightarrow> bool" where
  "no_eol bs \<longleftrightarrow> (\<forall>b \<in> set bs. \<not> is_eol b)"

lemma no_eol_simps [simp]: "no_eol []" "no_eol (bs @ [b]) \<longleftrightarrow> no_eol bs \<and> \<not> is_eol b"
  by (auto simp: no_eol_def)

lemma frame_rest:
  assumes "length acc < MAX_SERIAL_COMMAND_LEN" and "no_eol acc"
  shows "length (snd (frame acc bs)) < MAX_SERIAL_COMMAND_LEN \<and> no_eol (snd (frame acc bs))"
  using assms
proof (induction acc bs rule: frame.induct)
  case (2 acc b bs)
  consider "is_eol b" | "\<not> is_eol b" "length acc + 1 = MAX_SERIAL_COMMAND_LEN" | "\<not> is_eol b" "length acc + 1 \<noteq> MAX_SERIAL_COMMAND_LEN" by blast
  then show ?case
  proof cases
    case 1
    then show ?thesis using 2(1) by simp
  next
    case c: 2
    then show ?thesis using 2(2) by simp
  next
    case 3
    then have "length (acc @ [b]) < MAX_SERIAL_COMMAND_LEN" using 2(4) by simp
    then show ?thesis using 2(3,5) 3 by simp
  qed
qed simp

text \<open>Commands are lines: an end of line only at the end, and no longer than the message takes.\<close>

lemma frame_commands:
  assumes "length acc < MAX_SERIAL_COMMAND_LEN" and "no_eol acc" and "cmd \<in> set (fst (frame acc bs))"
  shows "0 < length cmd \<and> length cmd \<le> MAX_SERIAL_COMMAND_LEN \<and> is_eol (last cmd) \<and> no_eol (butlast cmd)"
  using assms
proof (induction acc bs rule: frame.induct)
  case (2 acc b bs)
  consider "is_eol b" | "\<not> is_eol b" "length acc + 1 = MAX_SERIAL_COMMAND_LEN" | "\<not> is_eol b" "length acc + 1 \<noteq> MAX_SERIAL_COMMAND_LEN" by blast
  then show ?case
  proof cases
    case 1
    then show ?thesis using 2(1,4,5,6) by auto
  next
    case c: 2
    then show ?thesis using 2(2,6) by simp
  next
    case 3
    then have "length (acc @ [b]) < MAX_SERIAL_COMMAND_LEN" using 2(4) by simp
    then show ?thesis using 2(3,5,6) 3 by simp
  qed
qed simp

text \<open>What is queued of the commands from number \<open>n\<close> on: those there is memory for, as long as there is room.\<close>

definition with_memory :: "(nat \<Rightarrow> bool) \<Rightarrow> nat \<Rightarrow> u8 list list \<Rightarrow> u8 list list" where
  "with_memory A n cmds = map snd (filter (\<lambda>(k, _). A k) (enumerate n cmds))"

definition enqueued :: "u8 list list \<Rightarrow> u8 list list \<Rightarrow> u8 list list" where
  "enqueued queue cmds = queue @ take (UART_RX_QUEUE_SIZE - length queue) cmds"

lemma with_memory_simps [simp]:
  "with_memory A n [] = []" "with_memory A n (cmd # cmds) = (if A n then cmd # with_memory A (Suc n) cmds else with_memory A (Suc n) cmds)"
  by (simp_all add: with_memory_def)

lemma enqueued_simps [simp]: "enqueued queue [] = queue"
  by (simp add: enqueued_def)

lemma enqueue_queue:
  "length (sd_queue ctx) \<le> UART_RX_QUEUE_SIZE \<Longrightarrow>
     enqueued (sd_queue (uart_enqueue alloc cmd ctx)) cmds = enqueued (sd_queue ctx) (if alloc then cmd # cmds else cmds)"
  by (auto simp: uart_enqueue_def enqueued_def upd_sd_def take_Cons' diff_Suc split: nat.split)

lemma enqueue_room: "length (sd_queue ctx) \<le> UART_RX_QUEUE_SIZE \<Longrightarrow> length (sd_queue (uart_enqueue alloc cmd ctx)) \<le> UART_RX_QUEUE_SIZE"
  by (simp add: uart_enqueue_def upd_sd_def)

lemma enqueue_frame [simp]:
  "sd_uart_rx_buf (uart_enqueue alloc cmd ctx) = sd_uart_rx_buf ctx" "sd_uart_rx_index (uart_enqueue alloc cmd ctx) = sd_uart_rx_index ctx"
  by (simp_all add: uart_enqueue_def upd_sd_def)

lemma shift_loop:
  "n + len \<le> length buf \<Longrightarrow> 0 < len \<Longrightarrow> for_upto n (\<lambda>j buf. buf[j := buf ! (len + j)]) buf = take n (drop len buf) @ drop n buf"
proof (induction n)
  case (Suc n)
  let ?b = "take n (drop len buf) @ drop n buf"
  have len: "length (take n (drop len buf)) = n" using Suc.prems by simp
  have "?b ! (len + n) = buf ! (n + len)" using len Suc.prems by (simp add: nth_append add.commute)
  moreover have "drop n buf = buf ! n # drop (Suc n) buf" using Suc.prems by (simp add: Cons_nth_drop_Suc)
  moreover have "take (Suc n) (drop len buf) = take n (drop len buf) @ [buf ! (n + len)]"
    using Suc.prems by (simp add: take_Suc_conv_app_nth add.commute [of n len])
  ultimately show ?case using Suc len by (simp add: list_update_append)
qed simp

section \<open>The parser\<close>

text \<open>The buffer with its bytes, the first \<open>i\<close> of them parsed.\<close>

definition parsing :: "serial \<Rightarrow> nat \<Rightarrow> bool" where
  "parsing ctx i \<longleftrightarrow> length (sd_uart_rx_buf ctx) = MAX_SERIAL_COMMAND_LEN \<and> unat (sd_uart_rx_index ctx) \<le> MAX_SERIAL_COMMAND_LEN \<and>
     i \<le> unat (sd_uart_rx_index ctx) \<and> i < MAX_SERIAL_COMMAND_LEN \<and> no_eol (take i (sd_uart_rx_buf ctx)) \<and>
     length (sd_queue ctx) \<le> UART_RX_QUEUE_SIZE"

definition unparsed :: "serial \<Rightarrow> nat \<Rightarrow> u8 list" where
  "unparsed ctx i = drop i (take (unat (sd_uart_rx_index ctx)) (sd_uart_rx_buf ctx))"

definition parsed :: "(nat \<Rightarrow> bool) \<Rightarrow> u8 list list \<Rightarrow> nat \<Rightarrow> u8 list list \<times> u8 list \<Rightarrow> (serial \<times> nat \<times> nat) option \<Rightarrow> bool" where
  "parsed A queue n spec r \<longleftrightarrow> (\<exists>ctx i n'. r = Some (ctx, i, n') \<and> parsing ctx i \<and> unat (sd_uart_rx_index ctx) = i \<and>
     take i (sd_uart_rx_buf ctx) = snd spec \<and> n' = n + length (fst spec) \<and> sd_queue ctx = enqueued queue (with_memory A n (fst spec)))"

lemma unparsed_cons:
  "i < unat (sd_uart_rx_index ctx) \<Longrightarrow> unat (sd_uart_rx_index ctx) \<le> length (sd_uart_rx_buf ctx) \<Longrightarrow>
     unparsed ctx i = sd_uart_rx_buf ctx ! i # unparsed ctx (Suc i)"
  unfolding unparsed_def by (subst Cons_nth_drop_Suc [symmetric]) simp_all

lemma parsing_reset: "length (sd_queue ctx) \<le> UART_RX_QUEUE_SIZE \<Longrightarrow> parsing (uart_rx_buffer_reset ctx) 0"
  by (simp add: parsing_def uart_rx_buffer_reset_def)

lemma parsed_command:
  assumes "parsed A queue' (n + 1) spec r" and "\<And>cmds. enqueued queue' cmds = enqueued queue (if A n then cmd # cmds else cmds)"
  shows "parsed A queue n (apfst ((#) cmd) spec) r"
  using assms by (auto simp: parsed_def)

lemma uart_parse_exact:
  assumes "parsing ctx i"
  shows "parsed A (sd_queue ctx) n (frame (take i (sd_uart_rx_buf ctx)) (unparsed ctx i)) (uart_parse A (ctx, i, n))"
  using assms
proof (induction A "(ctx, i, n)" arbitrary: ctx i n rule: uart_parse.induct)
  case (1 A ctx i n)
  let ?buf = "sd_uart_rx_buf ctx" and ?u = "unat (sd_uart_rx_index ctx)"
  have p: "length ?buf = 50" "?u \<le> 50" "i \<le> ?u" "i < 50" "no_eol (take i ?buf)" "length (sd_queue ctx) \<le> 5"
    using 1(4) by (simp_all add: parsing_def)
  consider "i = ?u" | "i < ?u" "is_eol (?buf ! i)" "?u > i + 1" | "i < ?u" "is_eol (?buf ! i)" "?u = i + 1"
    | "i < ?u" "\<not> is_eol (?buf ! i)" "i + 1 = 50" | "i < ?u" "\<not> is_eol (?buf ! i)" "i + 1 < 50"
    using p(3,4) by linarith
  then show ?case
  proof cases
    case 1
    then show ?thesis using \<open>parsing ctx i\<close> by (simp add: uart_parse.simps parsed_def unparsed_def)
  next
    case 2
    let ?e = "uart_enqueue (A n) (take (i + 1) ?buf) ctx"
    let ?c = "?e\<lparr>sd_uart_rx_buf := for_upto (?u - (i + 1)) (\<lambda>j buf. buf[j := buf ! (i + 1 + j)]) ?buf,
                 sd_uart_rx_index := of_nat (?u - (i + 1))\<rparr>"
    have shift: "for_upto (?u - (i + 1)) (\<lambda>j buf. buf[j := buf ! (i + 1 + j)]) ?buf = take (?u - (i + 1)) (drop (i + 1) ?buf) @ drop (?u - (i + 1)) ?buf"
      by (rule shift_loop) (use 2 p in simp_all)
    have idx: "unat (of_nat (?u - (i + 1)) :: u32) = ?u - (i + 1)"
      by (rule unat32_of_nat) (use p(2) in simp)
    have run: "uart_parse A (ctx, i, n) = uart_parse A (?c, 0, n + 1)"
      using 2 p by (subst uart_parse.simps) (simp add: is_eol_def Let_def)
    have "length (sd_queue ?e) \<le> 5" by (rule enqueue_room [OF p(6)])
    then have par: "parsing ?c 0" using p 2 shift idx by (simp add: parsing_def)
    have up: "unparsed ?c 0 = unparsed ctx (i + 1)"
      using p 2 shift idx by (simp add: unparsed_def take_drop)
    have "parsed A (sd_queue ?c) (n + 1) (frame (take 0 (sd_uart_rx_buf ?c)) (unparsed ?c 0)) (uart_parse A (?c, 0, n + 1))"
      by (rule 1(1)) (use 2 p par in \<open>simp_all add: is_eol_def\<close>)
    moreover have "frame (take i ?buf) (unparsed ctx i) = apfst ((#) (take (i + 1) ?buf)) (frame [] (unparsed ctx (i + 1)))"
      using 2 p by (simp add: unparsed_cons take_Suc_conv_app_nth)
    moreover have "take 0 (sd_uart_rx_buf ?c) = []" "sd_queue ?c = sd_queue ?e" by simp_all
    ultimately show ?thesis
      using parsed_command [where A = A and n = n, OF _ enqueue_queue [OF p(6), of "A n" "take (i + 1) ?buf"]] by (simp only: up run)
  next
    case 3
    let ?e = "uart_enqueue (A n) (take (i + 1) ?buf) ctx"
    have run: "uart_parse A (ctx, i, n) = Some (uart_rx_buffer_reset ?e, 0, n + 1)"
      using 3 p by (subst uart_parse.simps) (simp add: is_eol_def Let_def)
    have "unparsed ctx i = [?buf ! i]" using 3 p by (simp add: unparsed_cons) (simp add: unparsed_def)
    moreover have "parsing (uart_rx_buffer_reset ?e) 0" by (rule parsing_reset) (rule enqueue_room [OF p(6)])
    moreover have "sd_queue (uart_rx_buffer_reset ?e) = sd_queue ?e" "sd_uart_rx_index (uart_rx_buffer_reset ?e) = 0"
      by (simp_all add: uart_rx_buffer_reset_def)
    ultimately show ?thesis
      using 3 p run enqueue_queue [OF p(6), of "A n" "take (i + 1) ?buf" "[]"] by (auto simp: parsed_def take_Suc_conv_app_nth)
  next
    case 4
    have run: "uart_parse A (ctx, i, n) = uart_parse A (uart_rx_buffer_reset ctx, 0, n)"
      using 4 p by (subst uart_parse.simps) (simp add: is_eol_def Let_def)
    have "parsed A (sd_queue (uart_rx_buffer_reset ctx)) n (frame (take 0 (sd_uart_rx_buf (uart_rx_buffer_reset ctx))) (unparsed (uart_rx_buffer_reset ctx) 0))
        (uart_parse A (uart_rx_buffer_reset ctx, 0, n))"
      by (rule 1(2)) (use 4 p parsing_reset in \<open>simp_all add: is_eol_def\<close>)
    moreover have "unparsed ctx i = [?buf ! i]" using 4 p by (simp add: unparsed_cons) (simp add: unparsed_def)
    ultimately show ?thesis using 4 p run by (simp add: unparsed_def uart_rx_buffer_reset_def)
  next
    case 5
    have run: "uart_parse A (ctx, i, n) = uart_parse A (ctx, i + 1, n)"
      using 5 p by (subst uart_parse.simps) (simp add: is_eol_def Let_def)
    have "parsed A (sd_queue ctx) n (frame (take (i + 1) ?buf) (unparsed ctx (i + 1))) (uart_parse A (ctx, i + 1, n))"
      by (rule 1(3)) (use 5 p in \<open>simp_all add: is_eol_def parsing_def take_Suc_conv_app_nth\<close>)
    then show ?thesis using 5 p run by (simp add: unparsed_cons take_Suc_conv_app_nth)
  qed
qed

section \<open>A turn of the reception task\<close>

text \<open>Between two turns every byte of the buffer is parsed.\<close>

definition framing :: "serial \<times> nat \<times> nat \<Rightarrow> bool" where
  "framing t \<longleftrightarrow> (case t of (ctx, i, n) \<Rightarrow> parsing ctx i \<and> unat (sd_uart_rx_index ctx) = i)"

abbreviation partial_command :: "serial \<times> nat \<times> nat \<Rightarrow> u8 list" where
  "partial_command t \<equiv> (case t of (ctx, i, n) \<Rightarrow> take i (sd_uart_rx_buf ctx))"

lemma upd_sd_parse [simp]: "parsing (upd_sd f ctx) i = parsing ctx i" "sd_queue (upd_sd f ctx) = sd_queue ctx"
  "sd_uart_rx_buf (upd_sd f ctx) = sd_uart_rx_buf ctx" "sd_uart_rx_index (upd_sd f ctx) = sd_uart_rx_index ctx"
  "unparsed (upd_sd f ctx) i = unparsed ctx i"
  by (simp_all add: upd_sd_def parsing_def unparsed_def)

text \<open>How many bytes a turn takes from the line.\<close>

definition turn_bytes :: "nat \<Rightarrow> u8 list \<Rightarrow> u8 list \<Rightarrow> nat" where
  "turn_bytes handed ring acc = min handed (min (length ring) (MAX_SERIAL_COMMAND_LEN - length acc))"

lemma uart_turn_exact:
  assumes "framing t" and "t = (ctx, i, n)"
  shows "\<exists>ctx' i' n'. uart_rx_turn A handed (t, ring) = Some ((ctx', i', n'), drop (turn_bytes handed ring (partial_command t)) ring) \<and>
    framing (ctx', i', n') \<and>
    parsed A (sd_queue ctx) n (frame (partial_command t) (take (turn_bytes handed ring (partial_command t)) ring)) (Some (ctx', i', n'))"
proof -
  have p: "length (sd_uart_rx_buf ctx) = 50" "unat (sd_uart_rx_index ctx) = i" "i < 50" "no_eol (take i (sd_uart_rx_buf ctx))"
    "length (sd_queue ctx) \<le> 5"
    using assms by (simp_all add: framing_def parsing_def)
  have acc: "length (partial_command t) = i" using p assms(2) by simp
  let ?k = "turn_bytes handed ring (partial_command t)"
  let ?got = "take ?k ring"
  have sub: "unat (50 - sd_uart_rx_index ctx) = 50 - i"
    using p(2,3) by (simp add: unat_sub word_le_nat_alt)
  have got: "min handed (min (length ring) (50 - i)) = ?k" "length ?got = ?k" "i + ?k \<le> 50"
    using acc p(3) by (simp_all add: turn_bytes_def)
  let ?c = "ctx\<lparr>sd_uart_rx_buf := take i (sd_uart_rx_buf ctx) @ ?got @ drop (i + ?k) (sd_uart_rx_buf ctx),
    sd_uart_rx_index := sd_uart_rx_index ctx + of_nat ?k\<rparr>"
  have idx: "unat (sd_uart_rx_index ctx + of_nat ?k) = i + ?k"
    using p(2) got(3) by (subst unat_add_small) (simp_all add: unat_of_nat)
  have par: "parsing ?c i" using p got idx by (simp add: parsing_def)
  have up: "unparsed ?c i = ?got" "take i (sd_uart_rx_buf ?c) = partial_command t"
    using p got idx assms(2) by (simp_all add: unparsed_def)
  obtain c where c: "c = (if sd_uart_rx_index ?c > se_max_uart_buf_len (sd_stats ?c)
      then upd_sd (\<lambda>st. st\<lparr>se_max_uart_buf_len := sd_uart_rx_index ?c\<rparr>) ?c else ?c)" by simp
  have c': "parsing c i" "unparsed c i = ?got" "take i (sd_uart_rx_buf c) = partial_command t" "sd_queue c = sd_queue ctx"
    using par up unfolding c by simp_all
  have "parsed A (sd_queue ctx) n (frame (partial_command t) ?got) (uart_parse A (c, i, n))"
    using uart_parse_exact [OF c'(1), of A n] c' by simp
  moreover have "uart_rx_turn A handed (t, ring) = map_option (\<lambda>t. (t, drop ?k ring)) (uart_parse A (c, i, n))"
    using got sub p(1,2) assms(2) unfolding c by (simp add: uart_rx_turn_def Let_def)
  ultimately show ?thesis by (auto simp: parsed_def framing_def)
qed

section \<open>The line as a queue of commands\<close>

text \<open>What happens at a device: bytes arrive and the reception task runs, or a cycle takes the next command.\<close>

datatype serial_event = Line_turn nat "u8 list" | Cycle serial_env

definition sent_bytes :: "msg_serial \<Rightarrow> u8 list list" where
  "sent_bytes msg = (if ms_cmd_len msg = 0 then [] else [take (unat (ms_cmd_len msg)) (ms_cmd msg)])"

text \<open>The tasks of the device, with the bytes the driver holds and the commands sent so far.\<close>

definition serial_step ::
  "(nat \<Rightarrow> bool) \<Rightarrow> serial_event \<Rightarrow> ((serial \<times> nat \<times> nat) \<times> u8 list) \<times> u8 list list \<Rightarrow> (((serial \<times> nat \<times> nat) \<times> u8 list) \<times> u8 list list) option" where
  "serial_step A e s =
     (let ((t, ring), sent) = s in
      case e of
        Line_turn handed arrived \<Rightarrow> map_option (\<lambda>s. (s, sent)) (uart_rx_turn A handed (t, ring @ arrived))
      | Cycle env \<Rightarrow>
          let (ctx, i, n) = t; (msg, ctx) = serial_take env ctx in Some (((ctx, i, n), ring), sent @ sent_bytes msg))"

primrec serial_run ::
  "(nat \<Rightarrow> bool) \<Rightarrow> serial_event list \<Rightarrow> ((serial \<times> nat \<times> nat) \<times> u8 list) \<times> u8 list list \<Rightarrow> (((serial \<times> nat \<times> nat) \<times> u8 list) \<times> u8 list list) option" where
  "serial_run A [] s = Some s"
| "serial_run A (e # es) s = Option.bind (serial_step A e s) (serial_run A es)"

text \<open>
  The specification has no buffer and no indices: the bytes waiting, those of the command in progress, the number of
  commands so far, the queue and the commands sent.
\<close>

record line_spec =
  li_waiting :: "u8 list"
  li_partial :: "u8 list"
  li_count :: nat
  li_queue :: "u8 list list"
  li_sent :: "u8 list list"

definition spec_step :: "(nat \<Rightarrow> bool) \<Rightarrow> serial_event \<Rightarrow> line_spec \<Rightarrow> line_spec" where
  "spec_step A e l =
     (case e of
        Line_turn handed arrived \<Rightarrow>
          let waiting = li_waiting l @ arrived; k = turn_bytes handed waiting (li_partial l);
              (cmds, partial) = frame (li_partial l) (take k waiting)
          in l\<lparr>li_waiting := drop k waiting, li_partial := partial, li_count := li_count l + length cmds,
               li_queue := enqueued (li_queue l) (with_memory A (li_count l) cmds)\<rparr>
      | Cycle _ \<Rightarrow>
          (case li_queue l of [] \<Rightarrow> l | cmd # rest \<Rightarrow> l\<lparr>li_queue := rest, li_sent := li_sent l @ [cmd]\<rparr>))"

definition line_of :: "((serial \<times> nat \<times> nat) \<times> u8 list) \<times> u8 list list \<Rightarrow> line_spec" where
  "line_of s = (case s of (((ctx, i, n), ring), sent) \<Rightarrow>
     \<lparr>li_waiting = ring, li_partial = take i (sd_uart_rx_buf ctx), li_count = n, li_queue = sd_queue ctx, li_sent = sent\<rparr>)"

definition commands_fit :: "u8 list list \<Rightarrow> bool" where
  "commands_fit cmds \<longleftrightarrow> (\<forall>cmd \<in> set cmds. 0 < length cmd \<and> length cmd \<le> MAX_SERIAL_COMMAND_LEN)"

definition serial_ok :: "((serial \<times> nat \<times> nat) \<times> u8 list) \<times> u8 list list \<Rightarrow> bool" where
  "serial_ok s \<longleftrightarrow> (case s of ((t, ring), sent) \<Rightarrow> framing t \<and> commands_fit (sd_queue (fst t)))"

lemma with_memory_subset: "set (with_memory A n cmds) \<subseteq> set cmds"
  by (induction cmds arbitrary: n) auto

lemma enqueued_fit: "commands_fit queue \<Longrightarrow> commands_fit cmds \<Longrightarrow> commands_fit (enqueued queue (with_memory A n cmds))"
  using with_memory_subset [of A n cmds] by (auto simp: commands_fit_def enqueued_def dest!: in_set_takeD)

lemma cmd_len_16: "length (cmd :: u8 list) \<le> 50 \<Longrightarrow> unat (of_nat (length cmd) :: u16) = length cmd"
  by (simp add: unat_of_nat)

lemma serial_take_form:
  "\<exists>c. parsing c i = parsing ctx i \<and> sd_queue c = sd_queue ctx \<and> sd_uart_rx_buf c = sd_uart_rx_buf ctx \<and>
     sd_uart_rx_index c = sd_uart_rx_index ctx \<and>
     serial_take env ctx = (case sd_queue c of
         [] \<Rightarrow> (\<lparr>ms_cmd_len = 0, ms_cmd = replicate MAX_SERIAL_COMMAND_LEN 0\<rparr>, c)
       | cmd # rest \<Rightarrow> (\<lparr>ms_cmd_len = of_nat (length cmd), ms_cmd = cmd @ drop (length cmd) (sv_stack env)\<rparr>,
           upd_sd (\<lambda>st. st\<lparr>se_uart_rx := se_uart_rx st + 1\<rparr>) (c\<lparr>sd_queue := rest\<rparr>)))"
  unfolding serial_take_def Let_def by (rule exI, intro conjI, rule_tac [5] refl) simp_all

lemma serial_take_ok:
  assumes "framing (ctx, i, n)" and "commands_fit (sd_queue ctx)" and "serial_take env ctx = (msg, ctx')"
  shows "framing (ctx', i, n)" and "sd_queue ctx' = tl (sd_queue ctx)" and "sd_uart_rx_buf ctx' = sd_uart_rx_buf ctx"
    and "sent_bytes msg = take 1 (sd_queue ctx)"
proof -
  obtain c where cs: "parsing c i = parsing ctx i" "sd_queue c = sd_queue ctx" "sd_uart_rx_buf c = sd_uart_rx_buf ctx"
    "sd_uart_rx_index c = sd_uart_rx_index ctx"
    and take: "serial_take env ctx = (case sd_queue c of
      [] \<Rightarrow> (\<lparr>ms_cmd_len = 0, ms_cmd = replicate MAX_SERIAL_COMMAND_LEN 0\<rparr>, c)
    | cmd # rest \<Rightarrow> (\<lparr>ms_cmd_len = of_nat (length cmd), ms_cmd = cmd @ drop (length cmd) (sv_stack env)\<rparr>,
        upd_sd (\<lambda>st. st\<lparr>se_uart_rx := se_uart_rx st + 1\<rparr>) (c\<lparr>sd_queue := rest\<rparr>)))"
    using serial_take_form by blast
  have par: "parsing (c\<lparr>sd_queue := rest\<rparr>) i" if "sd_queue c = cmd # rest" for cmd rest
  proof -
    have "length (cmd # rest) \<le> 5" using assms(1) cs(2) that by (simp add: parsing_def framing_def)
    then show ?thesis using assms(1) cs by (simp add: parsing_def framing_def)
  qed
  have len: "cmd \<noteq> [] \<and> length cmd \<le> 50" if "sd_queue ctx = cmd # rest" for cmd rest
    using assms(2) that by (auto simp: commands_fit_def)
  have nz: "(of_nat (length cmd) :: u16) \<noteq> 0" if "cmd \<noteq> [] \<and> length cmd \<le> 50" for cmd :: "u8 list"
  proof
    assume "(of_nat (length cmd) :: u16) = 0"
    then have "unat (of_nat (length cmd) :: u16) = 0" by simp
    then show False using cmd_len_16 [of cmd] that by simp
  qed
  show "framing (ctx', i, n)" and "sd_queue ctx' = tl (sd_queue ctx)" and "sd_uart_rx_buf ctx' = sd_uart_rx_buf ctx"
    and "sent_bytes msg = take 1 (sd_queue ctx)"
    using assms(1,3) cs par len nz cmd_len_16 unfolding take
    by (auto simp: framing_def sent_bytes_def split: list.splits)
qed

lemma serial_step_ok:
  assumes "serial_ok s"
  shows "\<exists>s'. serial_step A e s = Some s' \<and> serial_ok s' \<and> line_of s' = spec_step A e (line_of s)"
proof -
  obtain ctx i n ring sent where s: "s = (((ctx, i, n), ring), sent)" by (metis prod_cases5 prod.exhaust)
  have ok: "framing (ctx, i, n)" "commands_fit (sd_queue ctx)" using assms by (simp_all add: serial_ok_def s)
  show ?thesis
  proof (cases e)
    case (Line_turn handed arrived)
    obtain ctx' i' n' where t: "uart_rx_turn A handed ((ctx, i, n), ring @ arrived) =
        Some ((ctx', i', n'), drop (turn_bytes handed (ring @ arrived) (take i (sd_uart_rx_buf ctx))) (ring @ arrived))"
      "framing (ctx', i', n')"
      "parsed A (sd_queue ctx) n (frame (take i (sd_uart_rx_buf ctx))
         (take (turn_bytes handed (ring @ arrived) (take i (sd_uart_rx_buf ctx))) (ring @ arrived))) (Some (ctx', i', n'))"
      using uart_turn_exact [OF ok(1) refl, of A handed "ring @ arrived"] by auto
    let ?f = "frame (take i (sd_uart_rx_buf ctx)) (take (turn_bytes handed (ring @ arrived) (take i (sd_uart_rx_buf ctx))) (ring @ arrived))"
    have "length (take i (sd_uart_rx_buf ctx)) < 50" "no_eol (take i (sd_uart_rx_buf ctx))"
      using ok(1) by (simp_all add: framing_def parsing_def)
    then have "commands_fit (fst ?f)" unfolding commands_fit_def using frame_commands by blast
    then have "serial_ok ((((ctx', i', n'), drop (turn_bytes handed (ring @ arrived) (take i (sd_uart_rx_buf ctx))) (ring @ arrived)), sent))"
      using t(2,3) enqueued_fit [OF ok(2)] by (auto simp: serial_ok_def parsed_def)
    then show ?thesis
      using t by (auto simp: s Line_turn serial_step_def spec_step_def line_of_def parsed_def Let_def split: prod.split)
  next
    case (Cycle env)
    obtain msg ctx' where m: "serial_take env ctx = (msg, ctx')" by fastforce
    note take = serial_take_ok [OF ok m]
    have "commands_fit (tl (sd_queue ctx))" using ok(2) by (cases "sd_queue ctx") (simp_all add: commands_fit_def)
    then show ?thesis
      using take m by (auto simp: s Cycle serial_step_def spec_step_def line_of_def serial_ok_def Let_def split: list.split)
  qed
qed

lemma serial_run_ok:
  assumes "serial_ok s"
  shows "\<exists>s'. serial_run A es s = Some s' \<and> serial_ok s' \<and> line_of s' = fold (spec_step A) es (line_of s)"
  using assms
proof (induction es arbitrary: s)
  case (Cons e es)
  then obtain s1 where "serial_step A e s = Some s1" "serial_ok s1" "line_of s1 = spec_step A e (line_of s)"
    using serial_step_ok by blast
  then show ?case using Cons.IH by fastforce
qed simp

text \<open>A device as \<open>serial_iodevice_init\<close> leaves it: nothing read, nothing queued.\<close>

definition fresh_serial :: "serial \<Rightarrow> bool" where
  "fresh_serial ctx \<longleftrightarrow> sd_queue ctx = [] \<and> sd_uart_rx_index ctx = 0 \<and> length (sd_uart_rx_buf ctx) = MAX_SERIAL_COMMAND_LEN"

text \<open>
  C28. Refinement. From a fresh device, whatever the driver hands over and however the reception task and the cycles
  interleave, no access leaves the buffer and the device is at every moment what the specification says: the bytes of the
  line, in order, cut at the ends of line (and given up after fifty), each command queued while there is memory and room
  and sent in its turn, one per cycle.
\<close>

theorem uart_refines:
  assumes "fresh_serial ctx"
  shows "\<exists>s'. serial_run A es ((((ctx, 0, 0), []), [])) = Some s' \<and>
    line_of s' = fold (spec_step A) es \<lparr>li_waiting = [], li_partial = [], li_count = 0, li_queue = [], li_sent = []\<rparr>"
proof -
  have "serial_ok ((((ctx, 0, 0), []), []))" "line_of ((((ctx, 0, 0), []), [])) =
      \<lparr>li_waiting = [], li_partial = [], li_count = 0, li_queue = [], li_sent = []\<rparr>"
    using assms by (simp_all add: fresh_serial_def serial_ok_def framing_def parsing_def commands_fit_def line_of_def)
  then show ?thesis using serial_run_ok [of _ A es] by metis
qed

definition zeroed_serial_stats :: serial_stats where
  "zeroed_serial_stats = \<lparr>se_num_cmds = 0, se_num_null_cmds = 0, se_uart_rx = 0, se_max_uart_buf_len = 0, se_uart_rx_err_alloc = 0,
     se_max_feedback_queue_len = 0, se_net_invalid_msg_id = 0, se_net_invalid_msg_len = 0, se_uart_tx_busy = 0\<rparr>"

definition zeroed_serial :: serial where
  "zeroed_serial = \<lparr>sd_queue = [], sd_uart_rx_buf = replicate MAX_SERIAL_COMMAND_LEN 0, sd_uart_rx_index = 0, sd_new_cmd = False,
     sd_cmd = replicate MAX_SERIAL_COMMAND_LEN 0, sd_cmd_len = 0, sd_stats = zeroed_serial_stats, sd_stats_snap = zeroed_serial_stats\<rparr>"

theorem uart_refines_witness:
  "\<exists>s'. serial_run (\<lambda>_. True) [Line_turn 9 [65, 66, 13, 67], Cycle \<lparr>sv_ready = 0, sv_sent = 0, sv_stack = []\<rparr>]
      ((((zeroed_serial, 0, 0), []), [])) = Some s' \<and>
    line_of s' = \<lparr>li_waiting = [], li_partial = [67], li_count = 1, li_queue = [], li_sent = [[65, 66, 13]]\<rparr>"
proof -
  have "fresh_serial zeroed_serial" by (simp add: fresh_serial_def zeroed_serial_def)
  from uart_refines [OF this, of "\<lambda>_. True" "[Line_turn 9 [65, 66, 13, 67], Cycle \<lparr>sv_ready = 0, sv_sent = 0, sv_stack = []\<rparr>]"]
  show ?thesis
    by (simp add: spec_step_def turn_bytes_def is_eol_def enqueued_def)
qed

section \<open>From one line to the other\<close>

text \<open>What happens at a device that sends: a byte goes out, a message arrives, the cycle looks for a new command.\<close>

datatype tx_event = Byte_out | Message tsn_common_hdr msg_serial | Write_cycle

definition tx_step :: "tx_event \<Rightarrow> serial \<times> uart_tx \<Rightarrow> serial \<times> uart_tx" where
  "tx_step ev s =
     (case ev of
        Byte_out \<Rightarrow> (fst s, uart_send_byte (sd_cmd (fst s)) (snd s))
      | Message hdr msg \<Rightarrow> (serial_iodevice_net_receive hdr msg (fst s), snd s)
      | Write_cycle \<Rightarrow> serial_write s)"

definition brings_command :: "tx_event \<Rightarrow> bool" where
  "brings_command ev \<longleftrightarrow> (case ev of
     Message hdr msg \<Rightarrow> ucast (hdr_msg_id hdr) = MSG_SERIAL \<and> ms_cmd_len msg \<noteq> 0 \<and> unat (ms_cmd_len msg) \<le> MAX_SERIAL_COMMAND_LEN
   | _ \<Rightarrow> False)"

lemma quiet_message:
  assumes "\<not> brings_command (Message hdr msg)"
  shows "sd_new_cmd (serial_iodevice_net_receive hdr msg ctx) = sd_new_cmd ctx \<and> sd_cmd (serial_iodevice_net_receive hdr msg ctx) = sd_cmd ctx"
  using assms by (auto simp: serial_iodevice_net_receive_def brings_command_def upd_sd_def)

text \<open>While no command arrives the transfer sends the buffer it was given, and starts no other.\<close>

lemma transfer_runs:
  assumes "\<forall>ev \<in> set evs. \<not> brings_command ev" and "\<not> sd_new_cmd ctx" and "ut_end u \<le> length (sd_cmd ctx)" and "ut_at u \<le> ut_end u"
  shows "ut_line (snd (fold tx_step evs (ctx, u))) =
    ut_line u @ take (length (filter ((=) Byte_out) evs)) (drop (ut_at u) (take (ut_end u) (sd_cmd ctx)))"
  using assms
proof (induction evs arbitrary: ctx u)
  case (Cons ev evs)
  show ?case
  proof (cases ev)
    case Byte_out
    show ?thesis
    proof (cases "uart_busy u")
      case False
      then have "ut_at u = ut_end u" using Cons.prems(4) by (simp add: uart_busy_def)
      then show ?thesis using Cons.IH [of ctx u] Cons.prems Byte_out False by (simp add: tx_step_def uart_send_byte_def)
    next
      case True
      let ?u = "u\<lparr>ut_line := ut_line u @ [sd_cmd ctx ! ut_at u], ut_at := ut_at u + 1\<rparr>"
      have "drop (ut_at u) (take (ut_end u) (sd_cmd ctx)) = sd_cmd ctx ! ut_at u # drop (Suc (ut_at u)) (take (ut_end u) (sd_cmd ctx))"
        using True Cons.prems(3) by (simp add: uart_busy_def flip: Cons_nth_drop_Suc)
      then show ?thesis
        using Cons.IH [of ctx ?u] Cons.prems Byte_out True by (simp add: tx_step_def uart_send_byte_def uart_busy_def)
    qed
  next
    case (Message hdr msg)
    then show ?thesis using Cons.IH [of "serial_iodevice_net_receive hdr msg ctx" u] Cons.prems quiet_message by (simp add: tx_step_def)
  next
    case Write_cycle
    then show ?thesis using Cons.IH [of ctx u] Cons.prems by (simp add: tx_step_def serial_write_def)
  qed
qed simp

text \<open>
  C29. Round trip. A command that one device takes from its queue and another receives is sent on that one's line, in order
  and nothing else, when the line is free at the next cycle: with every byte that goes out one more of the command, until it
  is complete, whatever cycles and messages without a command happen meanwhile. When a transfer is running the command is
  dropped and the loss is counted. The driver reads the command buffer while it sends, so this takes that no other command
  arrives before the transfer is over.
\<close>

theorem serial_tunnel:
  assumes "sd_queue ctx = cmd # rest" and "0 < length cmd" and "length cmd \<le> MAX_SERIAL_COMMAND_LEN"
    and "ucast (hdr_msg_id hdr) = MSG_SERIAL" and "length (sd_cmd peer) = MAX_SERIAL_COMMAND_LEN"
    and "serial_take env ctx = (msg, ctx')" and "serial_write (serial_iodevice_net_receive hdr msg peer, u) = (peer', u')"
    and "\<forall>ev \<in> set evs. \<not> brings_command ev"
  shows "sd_queue ctx' = rest \<and>
    (if uart_busy u then u' = u \<and> se_uart_tx_busy (sd_stats peer') = se_uart_tx_busy (sd_stats peer) + 1
     else se_uart_tx_busy (sd_stats peer') = se_uart_tx_busy (sd_stats peer) \<and>
       ut_line (snd (fold tx_step evs (peer', u'))) = ut_line u @ take (length (filter ((=) Byte_out) evs)) cmd)"
proof -
  have m: "ms_cmd_len msg = of_nat (length cmd)" "take (length cmd) (ms_cmd msg) = cmd" "sd_queue ctx' = rest"
    using assms(1,6) serial_take_form [of 0 ctx env] by (auto simp: upd_sd_def)
  have len: "unat (ms_cmd_len msg) = length cmd" "ms_cmd_len msg \<noteq> 0"
  proof -
    show u: "unat (ms_cmd_len msg) = length cmd" unfolding m(1) by (rule cmd_len_16 [OF assms(3)])
    then show "ms_cmd_len msg \<noteq> 0" using assms(2) by auto
  qed
  define recv where "recv = serial_iodevice_net_receive hdr msg peer"
  have recv: "sd_new_cmd recv" "sd_cmd_len recv = ms_cmd_len msg" "sd_cmd recv = cmd @ drop (length cmd) (sd_cmd peer)"
      "se_uart_tx_busy (sd_stats recv) = se_uart_tx_busy (sd_stats peer)"
    using assms(3,4) len m by (auto simp: recv_def serial_iodevice_net_receive_def upd_sd_def Let_def)
  have w: "serial_write (recv, u) = (peer', u')" using assms(7) by (simp add: recv_def)
  show ?thesis
  proof (cases "uart_busy u")
    case True
    then show ?thesis using w recv m(3) by (auto simp: serial_write_def uart_send_nonblocking_def upd_sd_def)
  next
    case False
    then have p: "peer' = recv\<lparr>sd_new_cmd := False\<rparr>" "u' = u\<lparr>ut_at := 0, ut_end := length cmd\<rparr>"
      using w recv len(1) by (auto simp: serial_write_def uart_send_nonblocking_def)
    then show ?thesis
      using transfer_runs [OF assms(8), of peer' u'] False recv m(3) assms(3,5) by simp
  qed
qed

theorem serial_tunnel_witness:
  "\<exists>peer' u'. serial_write (serial_iodevice_net_receive \<lparr>hdr_msg_id = 2, hdr_len = 52, hdr_src_id = 1, hdr_sched_time = 0\<rparr>
        (fst (serial_take \<lparr>sv_ready = 0, sv_sent = 0, sv_stack = []\<rparr> (zeroed_serial\<lparr>sd_queue := [[65, 13]]\<rparr>))) zeroed_serial,
      \<lparr>ut_line = [], ut_at = 0, ut_end = 0\<rparr>) = (peer', u') \<and>
     ut_line (snd (fold tx_step [Byte_out, Write_cycle, Byte_out, Byte_out] (peer', u'))) = [65, 13]"
proof -
  let ?env = "\<lparr>sv_ready = 0, sv_sent = 0, sv_stack = []\<rparr>" and ?u = "\<lparr>ut_line = [], ut_at = 0, ut_end = 0\<rparr>"
  let ?hdr = "\<lparr>hdr_msg_id = 2, hdr_len = 52, hdr_src_id = 1, hdr_sched_time = 0\<rparr> :: tsn_common_hdr"
  obtain msg ctx' where t: "serial_take ?env (zeroed_serial\<lparr>sd_queue := [[65, 13]]\<rparr>) = (msg, ctx')" by fastforce
  obtain peer' u' where w: "serial_write (serial_iodevice_net_receive ?hdr msg zeroed_serial, ?u) = (peer', u')" by fastforce
  have quiet: "\<forall>ev \<in> set [Byte_out, Write_cycle, Byte_out, Byte_out]. \<not> brings_command ev" by (simp add: brings_command_def)
  have "ut_line (snd (fold tx_step [Byte_out, Write_cycle, Byte_out, Byte_out] (peer', u'))) = [65, 13]"
    using serial_tunnel [OF _ _ _ _ _ t w quiet, of "[65, 13]" "[]"] by (simp add: uart_busy_def zeroed_serial_def)
  then show ?thesis using t w by simp
qed

text \<open>A command that arrives during a transfer is mixed into the one being sent, and then dropped itself.\<close>

lemma serial_overwrites:
  assumes "ucast (hdr_msg_id hdr) = MSG_SERIAL" and "ms_cmd_len msg = 2" and "ms_cmd msg = [a, b]"
    and "sd_cmd ctx = c # d # buf" and "\<not> sd_new_cmd ctx" and "u = \<lparr>ut_line = line, ut_at = 0, ut_end = 2\<rparr>"
  shows "ut_line (snd (fold tx_step [Byte_out, Message hdr msg, Write_cycle, Byte_out] (ctx, u))) = line @ [c, b]"
  using assms
  by (simp add: tx_step_def uart_send_byte_def uart_busy_def serial_iodevice_net_receive_def serial_write_def uart_send_nonblocking_def upd_sd_def)

end
