(* ===== verification/Tsn_App.thy ===== *)
theory Tsn_App
  imports Tsn_Lifecycle Serial_Device Motor_Controller Motor_Io_Device
begin

text \<open>
  The network application, \<open>tsn/tsn_app.c\<close>: it checks its configuration, creates the cyclic task of its role with the
  application of its mode, and an alarm task. The build has both motor applications. The account of resources is that of
  the tasks and of the serial device; those of the motor applications are outcomes in their environments.
\<close>

section \<open>Configuration\<close>

abbreviation (input) MOTOR_NETWORK :: u32 where "MOTOR_NETWORK \<equiv> 0"
abbreviation (input) MOTOR_LOCAL :: u32 where "MOTOR_LOCAL \<equiv> 1"
abbreviation (input) NETWORK_ONLY :: u32 where "NETWORK_ONLY \<equiv> 2"
abbreviation (input) SERIAL :: u32 where "SERIAL \<equiv> 3"
abbreviation (input) APP_PERIOD_MIN :: u32 where "APP_PERIOD_MIN \<equiv> 100000"
abbreviation (input) APP_OFFSET_MAX :: u32 where "APP_OFFSET_MAX \<equiv> 1"

text \<open>
  \<open>struct rtos_apps_tsn_config\<close>; \<open>ap_serial_cfg\<close> tells whether there is a serial configuration. What the tasks only hand on
  to the network stack is left out.
\<close>

record 'r tsn_config =
  ap_mode :: u32
  ap_role :: u32
  ap_num_io_devices :: u32
  ap_motor_offset :: 'r
  ap_control_strategy :: u32
  ap_cmd_client :: u32
  ap_period_ns :: u32
  ap_offset :: u32
  ap_network_budget_ns :: u32
  ap_tx_time_offset_ns :: u32
  ap_tx_time_enabled :: bool
  ap_packets :: u32
  ap_zero_copy :: bool
  ap_serial_cfg :: bool
  ap_motor_params_init :: "('r motor_params \<Rightarrow> u32 \<Rightarrow> 'r motor_params) option"

definition app_accepts :: "'r tsn_config \<Rightarrow> bool" where
  "app_accepts config \<longleftrightarrow>
     (let processing_budget_ns = (ap_offset config + 1) * ap_period_ns config div 2 in
      \<not> ap_period_ns config < APP_PERIOD_MIN \<and> \<not> ap_offset config > APP_OFFSET_MAX \<and>
      \<not> ap_network_budget_ns config > processing_budget_ns div 3 \<and>
      (ap_mode config = MOTOR_NETWORK \<longrightarrow> \<not> (ap_period_ns config \<noteq> 100000 \<and> ap_period_ns config \<noteq> 250000)))"

text \<open>\<open>batch\<close> is the largest number of packets of the network stack.\<close>

definition app_packets :: "u32 \<Rightarrow> 'r tsn_config \<Rightarrow> u32" where
  "app_packets batch config =
     (let packets = (if ap_packets config < 1 then 1 else ap_packets config) in if packets > batch then batch else packets)"

definition app_cyclic_config :: "u32 \<Rightarrow> 'r tsn_config \<Rightarrow> cyclic_task_config \<Rightarrow> cyclic_task_config" where
  "app_cyclic_config batch config c_cfg =
     (let params = cyclic_task_set_period (cc_type c_cfg = CYCLIC_CONTROLLER) (ap_period_ns config) (ap_offset config) (cc_params c_cfg);
          params = params\<lparr>tp_zero_copy := ap_zero_copy config, tp_num_packets := app_packets batch config\<rparr>;
          params = cyclic_task_set_tx_time (ap_tx_time_offset_ns config) (ap_tx_time_enabled config) params
      in c_cfg\<lparr>cc_params := params,
               cc_num_peers := (if cc_type c_cfg = CYCLIC_CONTROLLER then ap_num_io_devices config else cc_num_peers c_cfg)\<rparr>)"

section \<open>The loops without an application\<close>

definition null_loop :: "s32 \<Rightarrow> s32 \<Rightarrow> tx_request list loop_func" where
  "null_loop ready sent timer_status s =
     (let (c, out) = s; (rc, request, c) = cyclic_net_transmit c 0 0 ready sent
      in Some (c, case request of None \<Rightarrow> out | Some r \<Rightarrow> r # out))"

text \<open>One turn, every ten seconds.\<close>

definition main_alarm_io :: "u32 \<Rightarrow> tsn_task \<Rightarrow> u64 option \<Rightarrow> s32 \<Rightarrow> s32 \<Rightarrow> tx_request option \<times> tsn_task" where
  "main_alarm_io ident task now ready sent = snd (alarm_net_transmit ident task 0 0 now ready sent)"

section \<open>The serial device\<close>

text \<open>The resources of \<open>struct serial_iodevice_ctx\<close>.\<close>

record serial_mem =
  sr_block :: nat
  sr_queue :: "nat option"
  sr_sem :: "nat option"
  sr_thread :: "nat option"
  sr_ctx :: serial

text \<open>Every error frees the context, and only that.\<close>

definition serial_iodevice_init ::
  "(nat \<Rightarrow> bool) \<Rightarrow> (nat \<Rightarrow> u32 \<Rightarrow> s32) \<Rightarrow> cyclic_task_config \<Rightarrow> cyclic_mem \<times> sys \<Rightarrow> (int \<times> serial_mem option \<times> cyclic_mem \<times> sys) option" where
  "serial_iodevice_init A alloc cfg st =
     (let (c, s) = st; (block, s) = acquire A Memory s in
      case block of
        None \<Rightarrow> Some (- 1, None, c, s)
      | Some b \<Rightarrow>
          let err = (\<lambda>c s. map_option (\<lambda>s. (- 1, None, c, s)) (release Memory b s));
              (queue, s) = acquire A Queue s
          in if queue = None then err c s
             else
               (let (sem, s) = acquire A Semaphore s in
                if sem = None then err c s
                else
                  (let (uart, s) = attempt A s in
                   if \<not> uart then err c s
                   else
                     (let (thread, s) = acquire A Thread s in
                      if thread = None then err c s
                      else do {
                        (rc, c, s) \<leftarrow> cyclic_task_init A alloc cfg (c, s);
                        if rc < 0 then err c s
                        else Some (0, Some \<lparr>sr_block = b, sr_queue = queue, sr_sem = sem, sr_thread = thread, sr_ctx = zeroed_serial\<rparr>, c, s)
                      }))))"

definition serial_iodevice_exit :: "serial_mem \<Rightarrow> sys \<Rightarrow> sys option" where
  "serial_iodevice_exit m s =
     do {
       h \<leftarrow> sr_thread m;
       s \<leftarrow> release Thread h s;
       h \<leftarrow> sr_sem m;
       s \<leftarrow> release Semaphore h s;
       h \<leftarrow> sr_queue m;
       s \<leftarrow> release Queue h s;
       release Memory (sr_block m) s
     }"

section \<open>Initialisation\<close>

record ('r, 'w) tsn_app =
  ta_ctrl :: "'r controller"
  ta_io_device :: "'r io_device"
  ta_drive :: "('r, 'w) mc"
  ta_c_task :: cyclic_mem
  ta_a_task :: alarm_task
  ta_s_task :: "serial_mem option"
  ta_app_mode :: u32
  ta_block :: nat

text \<open>The outcomes of the calls of the motor applications, of the clock and of the start of the timer.\<close>

record app_env =
  ae_ctrl :: controller_init_env
  ae_mc_alloc :: "nat \<Rightarrow> bool"
  ae_io_queue :: bool
  ae_io_button :: bool
  ae_io_monitoring :: bool
  ae_clock :: "u64 option"
  ae_started :: bool

definition app_controller_config :: "'r tsn_config \<Rightarrow> cyclic_task_config \<Rightarrow> 'r controller_config" where
  "app_controller_config config c_cfg =
     \<lparr>cg_num_peers = cc_num_peers c_cfg, cg_peer_ids = map sc_peer_id (cc_rx_socket c_cfg), cg_period_ns = tp_task_period_ns (cc_params c_cfg),
      cg_first_strategy = ap_control_strategy config, cg_cmd_client = (ap_cmd_client config \<noteq> 0),
      cg_app_motor_params_init = ap_motor_params_init config\<rparr>"

text \<open>The creation of the cyclic task is the last step of each application, so it is run when all before it succeeded.\<close>

definition app_motor_init ::
  "'r cflt \<Rightarrow> ('r, 'w) mclib \<Rightarrow> 'r m1_config \<Rightarrow> (nat \<Rightarrow> bool) \<Rightarrow> (nat \<Rightarrow> u32 \<Rightarrow> s32) \<Rightarrow> app_env \<Rightarrow> 'r tsn_config \<Rightarrow> cyclic_task_config \<Rightarrow>
     ('r, 'w) tsn_app \<times> sys \<Rightarrow> (int \<times> ('r, 'w) tsn_app \<times> sys) option" where
  "app_motor_init G L M A alloc env config c_cfg st =
     (let (app, s) = st in
      case cc_type c_cfg of
        CYCLIC_CONTROLLER \<Rightarrow>
          do {
            (rc, ctrl) \<leftarrow> controller_init G M ((ae_ctrl env)\<lparr>cv_task := True\<rparr>) (app_controller_config config c_cfg) (ta_ctrl app);
            let app = app\<lparr>ta_ctrl := ctrl\<rparr>;
            if rc < 0 then Some (- 1, app, s)
            else do {
              (rc, c, s) \<leftarrow> cyclic_task_init A alloc c_cfg (ta_c_task app, s);
              Some (if rc < 0 then - 1 else 0, app\<lparr>ta_c_task := c\<rparr>, s)
            }
          }
      | CYCLIC_IO_DEVICE \<Rightarrow>
          do {
            (rc, io, w) \<leftarrow> io_device_init G L (ae_mc_alloc env) (ae_io_queue env) (ae_io_button env) (ae_io_monitoring env) True 1
              (ta_io_device app, ta_drive app);
            let app = app\<lparr>ta_io_device := io, ta_drive := w\<rparr>;
            if rc < 0 then Some (- 1, app, s)
            else do {
              (rc, c, s) \<leftarrow> cyclic_task_init A alloc c_cfg (ta_c_task app, s);
              let app = app\<lparr>ta_c_task := c\<rparr>;
              if rc < 0 then Some (- 1, app, s)
              else map_option (\<lambda>io. (0, app\<lparr>ta_io_device := io\<rparr>, s)) (io_device_set_motor_offset (ta_io_device app) 0 (ap_motor_offset config))
            }
          }
      | _ \<Rightarrow> Some (- 1, app, s))"

definition app_mode_init ::
  "'r cflt \<Rightarrow> ('r, 'w) mclib \<Rightarrow> 'r m1_config \<Rightarrow> (nat \<Rightarrow> bool) \<Rightarrow> (nat \<Rightarrow> u32 \<Rightarrow> s32) \<Rightarrow> app_env \<Rightarrow> 'r tsn_config \<Rightarrow> cyclic_task_config \<Rightarrow>
     ('r, 'w) tsn_app \<times> sys \<Rightarrow> (int \<times> ('r, 'w) tsn_app \<times> sys) option" where
  "app_mode_init G L M A alloc env config c_cfg st =
     (let (app, s) = st in
      if ap_mode config = MOTOR_NETWORK then app_motor_init G L M A alloc env config c_cfg st
      else if ap_mode config = SERIAL then
        (if \<not> ap_serial_cfg config then None
         else map_option (\<lambda>(rc, m, c, s). (rc, app\<lparr>ta_s_task := m, ta_c_task := c\<rparr>, s)) (serial_iodevice_init A alloc c_cfg (ta_c_task app, s)))
      else if ap_mode config = MOTOR_LOCAL then Some (- 1, app, s)
      else map_option (\<lambda>(rc, c, s). (rc, app\<lparr>ta_c_task := c\<rparr>, s)) (cyclic_task_init A alloc c_cfg (ta_c_task app, s)))"

text \<open>Starting the task writes its schedule; the result of the start is not looked at.\<close>

definition with_cyclic :: "cyclic_task \<Rightarrow> cyclic_mem \<Rightarrow> cyclic_mem" where
  "with_cyclic ct c = c\<lparr>cx_task := map_option (\<lambda>t. t\<lparr>tm_task := cy_task ct\<rparr>) (cx_task c)\<rparr>"

definition app_start :: "app_env \<Rightarrow> cyclic_mem \<Rightarrow> cyclic_mem option" where
  "app_start env c =
     do {
       ct \<leftarrow> cyclic_of c;
       (_, ct) \<leftarrow> cyclic_task_start ct (ae_clock env) (ae_started env);
       Some (with_cyclic ct c)
     }"

definition app_alarm_init ::
  "(nat \<Rightarrow> bool) \<Rightarrow> (nat \<Rightarrow> u32 \<Rightarrow> s32) \<Rightarrow> alarm_task_config \<Rightarrow> alarm_task \<times> sys \<Rightarrow> (alarm_task \<times> sys) option" where
  "app_alarm_init A alloc a_cfg st =
     (case ac_type a_cfg of
        ALARM_MONITOR \<Rightarrow> map_option snd (alarm_task_monitor_init A alloc a_cfg st)
      | ALARM_IO_DEVICE \<Rightarrow> map_option snd (alarm_task_io_init A alloc a_cfg st)
      | _ \<Rightarrow> Some st)"

text \<open>\<open>zeroed\<close> is the context after \<open>memset\<close>. The name of a mode beyond the table is read outside of it.\<close>

definition rtos_apps_tsn_init ::
  "'r cflt \<Rightarrow> ('r, 'w) mclib \<Rightarrow> 'r m1_config \<Rightarrow> (nat \<Rightarrow> bool) \<Rightarrow> (nat \<Rightarrow> u32 \<Rightarrow> s32) \<Rightarrow> app_env \<Rightarrow> u32 \<Rightarrow> ('r, 'w) tsn_app \<Rightarrow> 'r tsn_config \<Rightarrow>
     sys \<Rightarrow> (int \<times> ('r, 'w) tsn_app option \<times> sys) option" where
  "rtos_apps_tsn_init G L M A alloc env batch zeroed config s =
     (let (block, s) = acquire A Memory s in
      case block of
        None \<Rightarrow> Some (- 1, None, s)
      | Some b \<Rightarrow>
          let err_init = (\<lambda>s. map_option (\<lambda>s. (- 1, None, s)) (release Memory b s)) in
          case tsn_conf_get_alarm_task (ap_role config) of
            None \<Rightarrow> err_init s
          | Some a_cfg \<Rightarrow>
              if \<not> ap_mode config < 4 then None
              else if \<not> app_accepts config then err_init s
              else
                (case tsn_conf_get_cyclic_task (ap_role config) of
                   None \<Rightarrow> err_init s
                 | Some c_cfg \<Rightarrow>
                     do {
                       (rc, app, s) \<leftarrow> app_mode_init G L M A alloc env config (app_cyclic_config batch config c_cfg) (zeroed\<lparr>ta_block := b\<rparr>, s);
                       if rc < 0 then err_init s
                       else do {
                         c \<leftarrow> app_start env (ta_c_task app);
                         (a, s) \<leftarrow> app_alarm_init A alloc (a_cfg\<lparr>ac_params := (ac_params a_cfg)\<lparr>tp_zero_copy := ap_zero_copy config\<rparr>\<rparr>) (ta_a_task app, s);
                         Some (0, Some (app\<lparr>ta_c_task := c, ta_a_task := a, ta_app_mode := ap_mode config\<rparr>), s)
                       }
                     }))"

section \<open>Exit\<close>

text \<open>Of the motor applications, only what concerns the tasks: \<open>io_device_exit\<close> starts by ending the cyclic task.\<close>

definition rtos_apps_tsn_exit :: "('r, 'w) tsn_app \<Rightarrow> sys \<Rightarrow> sys option" where
  "rtos_apps_tsn_exit app s =
     do {
       s \<leftarrow> alarm_task_exit (ta_a_task app) s;
       ct \<leftarrow> cyclic_of (ta_c_task app);
       let c = with_cyclic (cyclic_task_stop ct) (ta_c_task app);
       (c, s) \<leftarrow> cyclic_task_exit (c, s);
       (c, s) \<leftarrow> cyclic_task_exit (c, s);
       if ta_app_mode app = MOTOR_NETWORK then Option.bind (controller_exit (ta_ctrl app)) (\<lambda>_. Some s)
       else if ta_app_mode app = SERIAL then Option.bind (ta_s_task app) (\<lambda>m. serial_iodevice_exit m s)
       else Some s
     }"

section \<open>Starting\<close>

lemma cyclic_of_with [simp]: "cyclic_of c = Some ct \<Longrightarrow> cyclic_of (with_cyclic ct' c) = Some (ct\<lparr>cy_task := cy_task ct'\<rparr>)"
  by (auto simp: cyclic_of_def with_cyclic_def)

lemma app_start_ok:
  assumes "cyclic_of c = Some ct" and "cyclic_ok ct"
  shows "\<exists>c' ct'. app_start env c = Some c' \<and> cyclic_of c' = Some ct' \<and> cyclic_ok ct' \<and>
    cy_id ct' = cy_id ct \<and> cy_num_peers ct' = cy_num_peers ct \<and> cy_rx ct' = cy_rx ct \<and> cy_params ct' = cy_params ct \<and>
    (task_ok (cy_task ct) \<longrightarrow> task_ok (cy_task ct') \<and> (ae_clock env \<noteq> None \<and> ae_started env \<longrightarrow> tk_timer_start (cy_task ct') \<noteq> None))"
  using assms
  by (cases "ae_clock env")
    (auto simp: app_start_def cyclic_task_start_eq tsn_task_start_def Let_def task_ok_def cyclic_ok_def period_ok_def)

text \<open>The queue of the monitor is there when an error gives it back, whatever became of the task.\<close>

lemma monitor_init_returns:
  assumes "sys_ok s" and "al_queue a = None" and "sockets_fit ((ac_params cfg)\<lparr>tp_num_rx_socket := 1\<rparr>)" and "alloc_fits alloc"
  shows "alarm_task_monitor_init A alloc cfg (a, s) \<noteq> None"
proof (cases "tsn_conf_get_stream (ac_stream_id cfg)")
  case None
  then show ?thesis using assms(2) by (simp add: alarm_task_monitor_init_def Let_def)
next
  case (Some stream)
  obtain queue s1 where q: "acquire A Queue s = (queue, s1)" by fastforce
  show ?thesis
  proof (cases queue)
    case None
    then show ?thesis using Some q by (simp add: alarm_task_monitor_init_def Let_def)
  next
    case q': (Some n)
    have h1: "holds s [(Queue, n)] s1" using acquire_some [OF holds_refl] q q' by blast
    obtain rc task s2 where r: "tsn_task_register A alloc ((ac_params cfg)\<lparr>tp_num_rx_socket := 1\<rparr>) True False s1 = Some (rc, task, s2)"
      "registered s [(Queue, n)] ((ac_params cfg)\<lparr>tp_num_rx_socket := 1\<rparr>) True False (rc, task, s2)"
      using register_holds [OF assms(1,3) h1 assms(4)] by (metis prod_cases3)
    obtain xs ys where "holds s (xs @ (Queue, n) # ys) s2"
      using r(2) by (auto simp: registered_def split: if_splits) (metis append_Nil)
    then have live: "(Queue, n) \<in> sy_live s2" by (auto simp: holds_def)
    obtain ok s3 where set: "attempt A s2 = (ok, s3)" "(Queue, n) \<in> sy_live s3" using live by (simp add: attempt_def)
    show ?thesis
      using Some q q' r(1) live set by (simp add: alarm_task_monitor_init_def Let_def release_def)
  qed
qed

lemma alarm_io_init_returns:
  assumes "sys_ok s" and "sockets_fit ((ac_params cfg)\<lparr>tp_num_tx_socket := 1\<rparr>)" and "alloc_fits alloc"
  shows "alarm_task_io_init A alloc cfg (a, s) \<noteq> None"
  using register_holds [OF assms(1,2) holds_refl assms(3), of A True False]
  by (auto simp: alarm_task_io_init_def Let_def split: option.split)

lemma app_alarm_returns:
  assumes "sys_ok s" and "al_queue a = None" and "tsn_conf_get_alarm_task role = Some a_cfg" and "alloc_fits alloc"
  shows "\<exists>a' s'. app_alarm_init A alloc (a_cfg\<lparr>ac_params := (ac_params a_cfg)\<lparr>tp_zero_copy := z\<rparr>\<rparr>) (a, s) = Some (a', s')"
proof -
  have "a_cfg \<in> set alarm_tasks" using assms(3) by (auto simp: tsn_conf_get_alarm_task_def split: if_splits)
  then have fits: "sockets_fit (((ac_params a_cfg)\<lparr>tp_zero_copy := z\<rparr>)\<lparr>tp_num_rx_socket := 1\<rparr>)"
    "sockets_fit (((ac_params a_cfg)\<lparr>tp_zero_copy := z\<rparr>)\<lparr>tp_num_tx_socket := 1\<rparr>)"
    by (auto simp: alarm_tasks_def ALARM_TASK_DEFAULT_PARAMS_def zeroed_params_def sockets_fit_def num_rx_def num_tx_def)
  show ?thesis
    using monitor_init_returns [OF assms(1,2), where cfg = "a_cfg\<lparr>ac_params := (ac_params a_cfg)\<lparr>tp_zero_copy := z\<rparr>\<rparr>" and A = A and alloc = alloc]
      alarm_io_init_returns [OF assms(1), where cfg = "a_cfg\<lparr>ac_params := (ac_params a_cfg)\<lparr>tp_zero_copy := z\<rparr>\<rparr>" and A = A and alloc = alloc and a = a] fits assms(4)
    by (auto simp: app_alarm_init_def split: task_type.split)
qed

section \<open>The modes without motors\<close>

text \<open>The outcome of creating the application of a mode: the task as configured, or what an error leaves.\<close>

definition mode_outcome :: "sys \<Rightarrow> (resource \<times> nat) list \<Rightarrow> bool \<Rightarrow> cyclic_task_config \<Rightarrow> ('r, 'w) tsn_app \<Rightarrow> int \<times> ('r, 'w) tsn_app \<times> sys \<Rightarrow> bool" where
  "mode_outcome s0 held clean cfg app r \<longleftrightarrow> (case r of (rc, app', s) \<Rightarrow>
     ta_a_task app' = ta_a_task app \<and>
     (if rc < 0 then rc = - 1 \<and> (\<exists>extra. holds s0 (held @ extra) s \<and> (clean \<longrightarrow> leak_of (cc_params cfg) (packet_count (cc_params cfg)) extra))
      else rc = 0 \<and> sys_ok s \<and> (\<exists>ct. created cfg (ta_c_task app') ct)))"

lemma network_only_init:
  assumes "sys_ok s0" and "holds s0 held s" and "config_fits cfg" and "fresh_cyclic (ta_c_task app)" and "ap_mode config = NETWORK_ONLY" and "alloc_fits alloc"
  shows "\<exists>r. app_mode_init G L M A alloc env config cfg (app, s) = Some r \<and> mode_outcome s0 held True cfg app r"
proof -
  obtain rc c s' where r: "cyclic_task_init A alloc cfg (ta_c_task app, s) = Some (rc, c, s')" "initialised s0 held cfg (rc, c, s')"
    using cyclic_init_holds [OF assms(1-4,6), of A] by (metis prod_cases3)
  then show ?thesis
    using assms(5) holds_sys_ok [OF assms(1)]
    by (auto simp: app_mode_init_def mode_outcome_def initialised_def split: if_splits)
qed

lemma mode_failed:
  "holds s0 (held @ extra) s \<Longrightarrow> ta_a_task app' = ta_a_task app \<Longrightarrow> mode_outcome s0 held False cfg app (- 1, app', s)"
  by (auto simp: mode_outcome_def)

text \<open>The account of \<open>serial_iodevice_init\<close>: every error gives back the context alone.\<close>

definition serial_outcome :: "sys \<Rightarrow> (resource \<times> nat) list \<Rightarrow> cyclic_task_config \<Rightarrow> int \<times> serial_mem option \<times> cyclic_mem \<times> sys \<Rightarrow> bool" where
  "serial_outcome s0 held cfg r \<longleftrightarrow> (case r of (rc, m, c, s) \<Rightarrow>
     if rc < 0 then rc = - 1 \<and> (\<exists>extra. holds s0 (held @ extra) s)
     else rc = 0 \<and> sys_ok s \<and> (\<exists>ct. created cfg c ct) \<and> (\<exists>m'. m = Some m' \<and> fresh_serial (sr_ctx m')))"

lemma fresh_zeroed_serial: "fresh_serial zeroed_serial"
  by (simp add: fresh_serial_def zeroed_serial_def)

lemma serial_error:
  assumes "sys_ok s0" and "holds s0 ((Memory, b) # held @ extra) s"
  shows "\<exists>s'. release Memory b s = Some s' \<and> serial_outcome s0 held cfg (- 1, m, c, s')"
  using release_last [OF assms] by (auto simp: serial_outcome_def)

lemma serial_init_holds:
  assumes "sys_ok s0" and "holds s0 held s" and "config_fits cfg" and "fresh_cyclic c" and "alloc_fits alloc"
  shows "\<exists>r. serial_iodevice_init A alloc cfg (c, s) = Some r \<and> serial_outcome s0 held cfg r"
proof -
  obtain block s1 queue s2 sem s3 uart s4 thread s5 where calls: "acquire A Memory s = (block, s1)" "acquire A Queue s1 = (queue, s2)"
    "acquire A Semaphore s2 = (sem, s3)" "attempt A s3 = (uart, s4)" "acquire A Thread s4 = (thread, s5)" by (meson surj_pair)
  note defs = serial_iodevice_init_def calls Let_def
  show ?thesis
  proof (cases block)
    case None
    then have "holds s0 (held @ []) s1" using acquire_none assms(2) calls(1) by simp
    then show ?thesis using None by (auto simp: defs serial_outcome_def intro: exI [of _ "[]"])
  next
    case b: (Some b)
    have h1: "holds s0 ((Memory, b) # held) s1" using acquire_some [OF assms(2)] calls(1) b by blast
    consider "queue = None" | q where "queue = Some q" "sem = None" | q m where "queue = Some q" "sem = Some m" "\<not> uart"
      | q m where "queue = Some q" "sem = Some m" "uart" "thread = None" | q m t where "queue = Some q" "sem = Some m" "uart" "thread = Some t"
      by (cases queue; cases sem; cases uart; cases thread) auto
    then show ?thesis
    proof cases
      case 1
      then show ?thesis using serial_error [OF assms(1), of b held "[]" s2] acquire_none [OF h1] calls(2) b by (fastforce simp: defs)
    next
      case (2 q)
      then have "holds s0 ((Queue, q) # (Memory, b) # held) s3" using acquire_none acquire_some [OF h1] calls(2,3) by blast
      then have "holds s0 ((Memory, b) # held @ [(Queue, q)]) s3" by (rule holds_mset) simp
      then show ?thesis using serial_error [OF assms(1), of b held "[(Queue, q)]" s3] 2 b by (fastforce simp: defs)
    next
      case (3 q m)
      then have "holds s0 ((Semaphore, m) # (Queue, q) # (Memory, b) # held) s4"
        using attempt_holds [OF acquire_some [OF acquire_some [OF h1]]] calls(2-4) by blast
      then have "holds s0 ((Memory, b) # held @ [(Semaphore, m), (Queue, q)]) s4" by (rule holds_mset) simp
      then show ?thesis using serial_error [OF assms(1), of b held "[(Semaphore, m), (Queue, q)]" s4] 3 b by (fastforce simp: defs)
    next
      case (4 q m)
      then have "holds s0 ((Semaphore, m) # (Queue, q) # (Memory, b) # held) s5"
        using acquire_none [OF attempt_holds [OF acquire_some [OF acquire_some [OF h1]]]] calls(2-5) by blast
      then have "holds s0 ((Memory, b) # held @ [(Semaphore, m), (Queue, q)]) s5" by (rule holds_mset) simp
      then show ?thesis using serial_error [OF assms(1), of b held "[(Semaphore, m), (Queue, q)]" s5] 4 b by (fastforce simp: defs)
    next
      case (5 q m t)
      let ?held = "(Thread, t) # (Semaphore, m) # (Queue, q) # (Memory, b) # held"
      have h5: "holds s0 ?held s5"
        using acquire_some [OF attempt_holds [OF acquire_some [OF acquire_some [OF h1]]]] calls(2-5) 5 by blast
      obtain rc c' s6 where r: "cyclic_task_init A alloc cfg (c, s5) = Some (rc, c', s6)" "initialised s0 ?held cfg (rc, c', s6)"
        using cyclic_init_holds [OF assms(1) h5 assms(3-5), of A] by (metis prod_cases3)
      show ?thesis
      proof (cases "rc < 0")
        case True
        then obtain extra where "holds s0 (?held @ extra) s6" using r(2) by (auto simp: initialised_def)
        then have "holds s0 ((Memory, b) # held @ (Thread, t) # (Semaphore, m) # (Queue, q) # extra) s6"
          by (rule holds_mset) simp
        then show ?thesis
          using serial_error [OF assms(1), of b held "(Thread, t) # (Semaphore, m) # (Queue, q) # extra" s6] 5 b r(1) True by (fastforce simp: defs)
      next
        case False
        then show ?thesis
          using 5 b r holds_sys_ok [OF assms(1)] fresh_zeroed_serial by (auto simp: defs serial_outcome_def initialised_def)
      qed
    qed
  qed
qed

lemma serial_mode_init:
  assumes "sys_ok s0" and "holds s0 held s" and "config_fits cfg" and "fresh_cyclic (ta_c_task app)" and "ap_mode config = SERIAL" and "ap_serial_cfg config" and "alloc_fits alloc"
  shows "\<exists>r. app_mode_init G L M A alloc env config cfg (app, s) = Some r \<and> mode_outcome s0 held False cfg app r"
proof -
  obtain rc m c s' where r: "serial_iodevice_init A alloc cfg (ta_c_task app, s) = Some (rc, m, c, s')" "serial_outcome s0 held cfg (rc, m, c, s')"
    using serial_init_holds [OF assms(1-4,7), of A] by (metis prod_cases4)
  then show ?thesis
    using assms(5,6) by (auto simp: app_mode_init_def mode_outcome_def serial_outcome_def split: if_splits)
qed

section \<open>The whole initialisation\<close>

lemma table_config:
  fixes batch :: u32
  assumes "tsn_conf_get_cyclic_task (ap_role config) = Some c_cfg" and "ap_role config = CONTROLLER_0 \<longrightarrow> ap_num_io_devices config \<le> 2"
  defines "cfg \<equiv> app_cyclic_config batch config c_cfg"
  shows "config_fits cfg" and "cc_id cfg = ap_role config" and "tp_task_period_ns (cc_params cfg) = ap_period_ns config"
    and "tp_zero_copy (cc_params cfg) = ap_zero_copy config" and "tp_num_packets (cc_params cfg) = app_packets batch config"
    and "cc_num_peers cfg = (if ap_role config = CONTROLLER_0 then ap_num_io_devices config else 1)"
proof -
  have "ap_role config = 0 \<or> ap_role config = 1 \<or> ap_role config = 2"
    using assms(1) by (auto simp: tsn_conf_get_cyclic_task_def cyclic_tasks_def word_unat_eq_iff split: if_splits)
  moreover have "c_cfg = cyclic_tasks ! unat (ap_role config)"
    using assms(1) by (simp add: tsn_conf_get_cyclic_task_def split: if_splits)
  ultimately show "config_fits cfg" and "cc_id cfg = ap_role config" and "tp_task_period_ns (cc_params cfg) = ap_period_ns config"
    and "tp_zero_copy (cc_params cfg) = ap_zero_copy config" and "tp_num_packets (cc_params cfg) = app_packets batch config"
    and "cc_num_peers cfg = (if ap_role config = CONTROLLER_0 then ap_num_io_devices config else 1)"
    using assms(2)
    by (auto simp: cfg_def app_cyclic_config_def cyclic_tasks_def config_fits_def cyclic_task_set_period_def cyclic_task_set_tx_time_def Let_def
        CYCLIC_TASK_DEFAULT_PARAMS_def zeroed_params_def word_le_nat_alt)
qed

text \<open>A task fit for its configuration, and running when it can.\<close>

definition running_task :: "app_env \<Rightarrow> 'r tsn_config \<Rightarrow> cyclic_task \<Rightarrow> bool" where
  "running_task env config ct \<longleftrightarrow> cyclic_ok ct \<and> cy_id ct = ap_role config \<and>
     cy_num_peers ct = (if ap_role config = CONTROLLER_0 then ap_num_io_devices config else 1) \<and>
     tp_task_period_ns (cy_params ct) = ap_period_ns config \<and>
     (period_ok (ap_period_ns config) \<longrightarrow> task_ok (cy_task ct) \<and> (ae_clock env \<noteq> None \<and> ae_started env \<longrightarrow> tk_timer_start (cy_task ct) \<noteq> None))"

lemma started_runs:
  assumes "created (app_cyclic_config batch config c_cfg) c ct"
    and "tsn_conf_get_cyclic_task (ap_role config) = Some c_cfg" and "ap_role config = CONTROLLER_0 \<longrightarrow> ap_num_io_devices config \<le> 2"
  shows "\<exists>c' ct'. app_start env c = Some c' \<and> cyclic_of c' = Some ct' \<and> running_task env config ct'"
proof -
  note table = table_config [OF assms(2,3), where batch = batch]
  have ct: "cyclic_of c = Some ct" "cyclic_ok ct" using assms(1) by (simp_all add: created_def)
  obtain c' ct' where s: "app_start env c = Some c'" "cyclic_of c' = Some ct'" "cyclic_ok ct'" "cy_id ct' = cy_id ct" "cy_num_peers ct' = cy_num_peers ct"
    "cy_params ct' = cy_params ct"
    "task_ok (cy_task ct) \<longrightarrow> task_ok (cy_task ct') \<and> (ae_clock env \<noteq> None \<and> ae_started env \<longrightarrow> tk_timer_start (cy_task ct') \<noteq> None)"
    using app_start_ok [OF ct, of env] by metis
  have "cy_id ct = ap_role config" "tp_task_period_ns (cy_params ct) = ap_period_ns config"
    "cy_num_peers ct = (if ap_role config = CONTROLLER_0 then ap_num_io_devices config else 1)"
    "period_ok (ap_period_ns config) \<longrightarrow> task_ok (cy_task ct)"
    using assms(1) table by (simp_all add: created_def)
  then show ?thesis using s by (auto simp: running_task_def)
qed

lemma mode_init_holds:
  assumes "sys_ok s0" and "holds s0 held s" and "config_fits cfg" and "fresh_cyclic (ta_c_task app)"
    and "ap_mode config = NETWORK_ONLY \<or> ap_mode config = SERIAL \<and> ap_serial_cfg config" and "alloc_fits alloc"
  shows "\<exists>r. app_mode_init G L M A alloc env config cfg (app, s) = Some r \<and> mode_outcome s0 held (ap_mode config = NETWORK_ONLY) cfg app r"
  using assms(5,6) network_only_init [OF assms(1-4)] serial_mode_init [OF assms(1-4)] by fastforce

text \<open>
  C31. In the modes without motors, with the serial configuration given when the mode is the serial one and at most two
  devices at the controller, the initialisation always returns. It succeeds only for a configuration that passes the checks
  and a known role; the cyclic task is then the one of its role, with its peers and the configured period, and it is
  running if the period divides a second and the clock and the timer answer. A configuration that is rejected leaves
  nothing behind; neither does any other error in the mode without an application, except, without copy, at most the packet
  buffers of a transmission socket, and the socket with its array.
\<close>

theorem tsn_app_init_sound:
  assumes "sys_ok s" and "fresh_cyclic (ta_c_task zeroed)" and "al_queue (ta_a_task zeroed) = None"
    and "ap_mode config = NETWORK_ONLY \<or> ap_mode config = SERIAL \<and> ap_serial_cfg config"
    and "ap_role config = CONTROLLER_0 \<longrightarrow> ap_num_io_devices config \<le> 2" and "alloc_fits alloc"
  shows "\<exists>rc app s'. rtos_apps_tsn_init G L M A alloc env batch zeroed config s = Some (rc, app, s') \<and>
    (if rc = 0 then app_accepts config \<and> unat (ap_role config) < 3 \<and>
       (\<exists>app' ct. app = Some app' \<and> cyclic_of (ta_c_task app') = Some ct \<and> running_task env config ct)
     else rc = - 1 \<and> app = None \<and>
       (\<not> app_accepts config \<or> \<not> unat (ap_role config) < 3 \<longrightarrow> sy_live s' = sy_live s) \<and>
       (ap_mode config = NETWORK_ONLY \<longrightarrow> failure_kept (ap_zero_copy config) (unat (app_packets batch config)) s s'))"
proof -
  obtain block s1 where a: "acquire A Memory s = (block, s1)" by fastforce
  have mode: "ap_mode config < 4" using assms(4) by auto
  note defs = rtos_apps_tsn_init_def a Let_def
  show ?thesis
  proof (cases block)
    case None
    then have "sy_live s1 = sy_live s" using holds_live [OF acquire_none [OF holds_refl a [unfolded None]]] by simp
    then show ?thesis using None by (simp add: defs failure_kept_same)
  next
    case b: (Some b)
    have h1: "holds s [(Memory, b)] s1" using acquire_some [OF holds_refl] a b by blast
    obtain s2 where free: "release Memory b s1 = Some s2" "sy_live s2 = sy_live s" using release_last [OF assms(1) h1] holds_live by blast
    show ?thesis
    proof (cases "unat (ap_role config) < 3 \<and> app_accepts config")
      case False
      then show ?thesis
        using b free mode by (auto simp: failure_kept_same defs tsn_conf_get_alarm_task_def tsn_conf_get_cyclic_task_def alarm_tasks_def cyclic_tasks_def)
    next
      case True
      then obtain a_cfg c_cfg where cfgs: "tsn_conf_get_alarm_task (ap_role config) = Some a_cfg" "tsn_conf_get_cyclic_task (ap_role config) = Some c_cfg"
        by (simp add: tsn_conf_get_alarm_task_def tsn_conf_get_cyclic_task_def alarm_tasks_def cyclic_tasks_def)
      let ?cfg = "app_cyclic_config batch config c_cfg"
      have app: "fresh_cyclic (ta_c_task (zeroed\<lparr>ta_block := b\<rparr>))" using assms(2) by simp
      obtain rc app s3 where r: "app_mode_init G L M A alloc env config ?cfg (zeroed\<lparr>ta_block := b\<rparr>, s1) = Some (rc, app, s3)"
        "mode_outcome s [(Memory, b)] (ap_mode config = NETWORK_ONLY) ?cfg (zeroed\<lparr>ta_block := b\<rparr>) (rc, app, s3)"
        using mode_init_holds [OF assms(1) h1 table_config(1) [OF cfgs(2) assms(5)] app assms(4,6), of G L M A env] by (metis prod_cases3)
      show ?thesis
      proof (cases "rc < 0")
        case failed: True
        then obtain extra where e: "holds s ((Memory, b) # extra) s3" "ap_mode config = NETWORK_ONLY \<longrightarrow> leak_of (cc_params ?cfg) (packet_count (cc_params ?cfg)) extra"
          using r(2) by (auto simp: mode_outcome_def)
        obtain s4 where s4: "release Memory b s3 = Some s4" "holds s extra s4" using release_last [OF assms(1) e(1)] by blast
        have "rtos_apps_tsn_init G L M A alloc env batch zeroed config s = Some (- 1, None, s4)"
          using b cfgs mode True r(1) failed s4(1) by (simp add: defs)
        moreover have "ap_mode config = NETWORK_ONLY \<longrightarrow> failure_kept (ap_zero_copy config) (unat (app_packets batch config)) s s4"
          using leak_failure_kept [OF assms(1) s4(2) _ packet_count_le, of "cc_params ?cfg"] e(2) table_config(4,5) [OF cfgs(2) assms(5), of batch] by simp
        ultimately show ?thesis using True by simp
      next
        case ready: False
        then obtain ct where ct: "created ?cfg (ta_c_task app) ct" "sys_ok s3" "al_queue (ta_a_task app) = None"
          using r(2) assms(3) by (auto simp: mode_outcome_def)
        obtain c' ct' where run: "app_start env (ta_c_task app) = Some c'" "cyclic_of c' = Some ct'" "running_task env config ct'"
          using started_runs [OF ct(1) cfgs(2) assms(5)] by blast
        obtain al s4 where al: "app_alarm_init A alloc (a_cfg\<lparr>ac_params := (ac_params a_cfg)\<lparr>tp_zero_copy := ap_zero_copy config\<rparr>\<rparr>) (ta_a_task app, s3) = Some (al, s4)"
          using app_alarm_returns [OF ct(2,3) cfgs(1) assms(6)] by blast
        have "rtos_apps_tsn_init G L M A alloc env batch zeroed config s =
            Some (0, Some (app\<lparr>ta_c_task := c', ta_a_task := al, ta_app_mode := ap_mode config\<rparr>), s4)"
          using b cfgs mode True r(1) ready run(1) al by (simp add: defs)
        then show ?thesis using True run(2,3) by simp
      qed
    qed
  qed
qed

text \<open>A controller with two devices, with copies, every call of the system successful.\<close>

definition demo_config :: "int tsn_config" where
  "demo_config = \<lparr>ap_mode = NETWORK_ONLY, ap_role = CONTROLLER_0, ap_num_io_devices = 2, ap_motor_offset = 0, ap_control_strategy = 0, ap_cmd_client = 0,
     ap_period_ns = 250000, ap_offset = 0, ap_network_budget_ns = 15000, ap_tx_time_offset_ns = 0, ap_tx_time_enabled = False, ap_packets = 1,
     ap_zero_copy = False, ap_serial_cfg = False, ap_motor_params_init = None\<rparr>"

lemma demo_cyclic_init:
  "map_option fst (cyclic_task_init (\<lambda>_. True) (\<lambda>_ n. n) (app_cyclic_config 8 demo_config (cyclic_tasks ! 0)) (zeroed_cyclic, \<lparr>sy_next = 1, sy_live = {(Memory, 0)}\<rparr>)) = Some 0"
  using register_succeeds [of "CYCLIC_TASK_DEFAULT_PARAMS\<lparr>tp_task_period_ns := 250000, tp_transfer_time_ns := 125000, tp_task_period_offset_ns := 0, tp_zero_copy := False,
      tp_num_packets := 1, tp_tx_time_enabled := False, tp_tx_time_offset_ns := 0, tp_num_tx_socket := 1, tp_num_rx_socket := 2\<rparr>" True True
      "\<lparr>sy_next = Suc (Suc 0), sy_live = {(Queue, Suc 0), (Memory, 0)}\<rparr>"]
  by (auto simp: cyclic_task_init_def cyclic_rx_config_def cyclic_tasks_def tsn_conf_get_stream_def tsn_streams_def zeroed_cyclic_def
    zeroed_socket_config_def err_loop_two acquire_def Let_def sockets_fit_def num_rx_def num_tx_def CYCLIC_TASK_DEFAULT_PARAMS_def
    zeroed_params_def app_cyclic_config_def app_packets_def demo_config_def cyclic_task_set_period_def cyclic_task_set_tx_time_def)

definition demo_app :: "int controller \<Rightarrow> int io_device \<Rightarrow> (int, 'w) mc \<Rightarrow> (int, 'w) tsn_app" where
  "demo_app ctrl io w = \<lparr>ta_ctrl = ctrl, ta_io_device = io, ta_drive = w, ta_c_task = zeroed_cyclic, ta_a_task = zeroed_alarm, ta_s_task = None,
     ta_app_mode = 0, ta_block = 0\<rparr>"

theorem tsn_app_init_sound_witness:
  "\<forall>G L M ctrl io w env. \<exists>app s' ct.
     rtos_apps_tsn_init G L M (\<lambda>_. True) (\<lambda>_ n. n) (env\<lparr>ae_clock := Some 7, ae_started := True\<rparr>) 8 (demo_app ctrl io w) demo_config \<lparr>sy_next = 0, sy_live = {}\<rparr> =
       Some (0, Some app, s') \<and>
     cyclic_of (ta_c_task app) = Some ct \<and> cyclic_ok ct \<and> cy_num_peers ct = 2 \<and> tk_timer_start (cy_task ct) \<noteq> None"
proof (intro allI)
  fix G L M ctrl io w and env :: app_env
  let ?s = "\<lparr>sy_next = 0, sy_live = {}\<rparr>" and ?env = "env\<lparr>ae_clock := Some 7, ae_started := True\<rparr>"
  have "sys_ok ?s" "fresh_cyclic (ta_c_task (demo_app ctrl io w))" "al_queue (ta_a_task (demo_app ctrl io w)) = None"
    "ap_mode demo_config = NETWORK_ONLY \<or> ap_mode demo_config = SERIAL \<and> ap_serial_cfg demo_config"
    "ap_role demo_config = CONTROLLER_0 \<longrightarrow> ap_num_io_devices demo_config \<le> 2"
    by (simp_all add: sys_ok_def fresh_cyclic_def demo_app_def zeroed_cyclic_def zeroed_socket_stats_def zeroed_alarm_def demo_config_def)
  from tsn_app_init_sound [OF this all_granted, of G L M "\<lambda>_. True" ?env 8]
  obtain rc app s' where r: "rtos_apps_tsn_init G L M (\<lambda>_. True) (\<lambda>_ n. n) ?env 8 (demo_app ctrl io w) demo_config ?s = Some (rc, app, s')"
    "rc = 0 \<longrightarrow> (\<exists>app' ct. app = Some app' \<and> cyclic_of (ta_c_task app') = Some ct \<and> running_task ?env demo_config ct)"
    by (auto split: if_splits)
  obtain c s1 where init: "cyclic_task_init (\<lambda>_. True) (\<lambda>_ n. n) (app_cyclic_config 8 demo_config (cyclic_tasks ! 0)) (zeroed_cyclic, \<lparr>sy_next = 1, sy_live = {(Memory, 0)}\<rparr>)
      = Some (0, c, s1)"
    using demo_cyclic_init by auto
  have roles: "tsn_conf_get_alarm_task (ap_role demo_config) = Some (alarm_tasks ! 0)" "tsn_conf_get_cyclic_task (ap_role demo_config) = Some (cyclic_tasks ! 0)"
    "app_accepts demo_config" "ap_mode demo_config = NETWORK_ONLY"
    by (simp_all add: demo_config_def tsn_conf_get_alarm_task_def tsn_conf_get_cyclic_task_def alarm_tasks_def cyclic_tasks_def app_accepts_def)
  have "rc = 0"
    using r(1) init roles
    by (auto simp: rtos_apps_tsn_init_def app_mode_init_def demo_app_def acquire_def Let_def split: Option.bind_splits)
  moreover have "period_ok 250000" by (simp add: period_ok_def dvd_def)
  ultimately show "\<exists>app s' ct.
     rtos_apps_tsn_init G L M (\<lambda>_. True) (\<lambda>_ n. n) ?env 8 (demo_app ctrl io w) demo_config ?s = Some (0, Some app, s') \<and>
     cyclic_of (ta_c_task app) = Some ct \<and> cyclic_ok ct \<and> cy_num_peers ct = 2 \<and> tk_timer_start (cy_task ct) \<noteq> None"
    using r by (auto simp: running_task_def demo_config_def)
qed

section \<open>The end of the application\<close>

lemma release_shrinks: "release r h s = Some s' \<Longrightarrow> sy_live s' \<subseteq> sy_live s - {(r, h)}"
  by (auto simp: release_def split: if_splits)

lemma close_sockets_shrinks:
  "close_sockets r n hs s = Some s' \<Longrightarrow> sy_live s' \<subseteq> sy_live s"
proof (induction n arbitrary: s')
  case (Suc n)
  then obtain s1 where s1: "close_sockets r n hs s = Some s1" by (auto simp: close_sockets_def split: option.splits)
  then show ?case
    using Suc.IH [OF s1] Suc.prems
    by (auto simp: close_sockets_def bind_eq_Some_conv split: if_splits option.splits dest!: release_shrinks)
qed (simp add: close_sockets_def)

text \<open>Ending a task destroys its timer for good.\<close>

lemma unregister_timer:
  assumes "tsn_task_unregister t s = Some s'" and "tm_timer t = Some h"
  shows "(Timer, h) \<notin> sy_live s'"
proof -
  obtain s1 n s2 s3 s4 where s: "release Timer h s = Some s1" "release Thread n s1 = Some s2"
    "close_sockets Rx_socket (nat (sint (tp_num_rx_socket (tk_params (tm_task t))))) (tm_rx t) s2 = Some s3"
    "close_sockets Tx_socket (nat (sint (tp_num_tx_socket (tk_params (tm_task t))))) (tm_tx t) s3 = Some s4"
    "release Memory (tm_block t) s4 = Some s'"
    using assms by (auto simp: tsn_task_unregister_def tsn_task_net_exit_def Let_def bind_eq_Some_conv split: option.splits)
  show ?thesis
    using release_shrinks [OF s(1)] release_shrinks [OF s(2)] close_sockets_shrinks [OF s(3)] close_sockets_shrinks [OF s(4)] release_shrinks [OF s(5)]
    by blast
qed

lemma cyclic_exit_timer:
  assumes "cyclic_task_exit (c, s) = Some (c', s')" and "cx_task c = Some t" and "tm_timer t = Some h"
  shows "c' = c \<and> (Timer, h) \<notin> sy_live s'"
  using assms by (auto simp: cyclic_task_exit_def bind_eq_Some_conv split: option.splits dest!: unregister_timer release_shrinks)

text \<open>Whatever its mode, an application whose task was created cannot be ended: the task is ended twice.\<close>

lemma tsn_app_exit_traps:
  assumes "cx_task (ta_c_task app) = Some t" and "tm_timer t = Some h"
  shows "rtos_apps_tsn_exit app s = None"
proof -
  have "rtos_apps_tsn_exit app s = None" if s1: "alarm_task_exit (ta_a_task app) s = Some s1" for s1
  proof -
    obtain ct where ct: "cyclic_of (ta_c_task app) = Some ct" using assms(1) by (simp add: cyclic_of_def)
    define c where "c = with_cyclic (cyclic_task_stop ct) (ta_c_task app)"
    have t: "cx_task c = Some (t\<lparr>tm_task := cy_task (cyclic_task_stop ct)\<rparr>)" using assms(1) by (simp add: c_def with_cyclic_def)
    have "cyclic_task_exit (c', s3) = None" if "cyclic_task_exit (c, s1) = Some (c', s3)" for c' s3
      using cyclic_exit_timer [OF that t] assms(2) t
      by (simp add: cyclic_task_exit_def tsn_task_unregister_def release_gone)
    then show ?thesis
      using s1 ct by (simp add: rtos_apps_tsn_exit_def c_def [symmetric] Let_def split: Option.bind_split)
  qed
  then show ?thesis by (cases "alarm_task_exit (ta_a_task app) s") (auto simp: rtos_apps_tsn_exit_def)
qed

end
