(* ===== verification/User_Button.thy ===== *)
theory User_Button
  imports Tsn_Resource Motor_Api
begin

text \<open>
  The user button, \<open>tsn/user_button.c\<close>: at most two event queues are registered with it, and a press sends the event to
  each of them. The queues belong to the registered tasks; a queue that was destroyed is \<open>None\<close>, and sending to it is a trap.
\<close>

section \<open>State\<close>

abbreviation (input) MAX_EVENT_QUEUES :: nat where "MAX_EVENT_QUEUES \<equiv> 2"

record button_slot =
  bs_handle :: "nat option"
  bs_used :: bool

text \<open>\<open>struct rtos_apps_user_button\<close>, with the count of its semaphore, the state of its interrupt and its resources.\<close>

record user_button =
  ub_queue :: "button_slot list"
  ub_sem :: nat
  ub_irq :: bool
  ub_block :: nat
  ub_sem_handle :: "nat option"
  ub_thread :: "nat option"

type_synonym event_queues = "nat \<Rightarrow> event_button list option"

section \<open>Registration\<close>

text \<open>The loops stop at the first slot that matches.\<close>

definition rtos_apps_user_button_register_queue :: "user_button \<Rightarrow> nat \<Rightarrow> int \<times> user_button" where
  "rtos_apps_user_button_register_queue button queue =
     (case find (\<lambda>i. \<not> bs_used (ub_queue button ! i)) [0..<MAX_EVENT_QUEUES] of
        None \<Rightarrow> (- 1, button)
      | Some i \<Rightarrow> (0, button\<lparr>ub_queue := (ub_queue button)[i := \<lparr>bs_handle = Some queue, bs_used = True\<rparr>]\<rparr>))"

definition rtos_apps_user_button_unregister_queue :: "user_button \<Rightarrow> nat \<Rightarrow> user_button" where
  "rtos_apps_user_button_unregister_queue button queue =
     (case find (\<lambda>i. bs_used (ub_queue button ! i) \<and> bs_handle (ub_queue button ! i) = Some queue) [0..<MAX_EVENT_QUEUES] of
        None \<Rightarrow> button
      | Some i \<Rightarrow> button\<lparr>ub_queue := (ub_queue button)[i := \<lparr>bs_handle = None, bs_used = False\<rparr>]\<rparr>)"

section \<open>Events\<close>

text \<open>\<open>cap\<close> gives the lengths the queues were created with; the sender does not wait.\<close>

definition event_send :: "(nat \<Rightarrow> nat) \<Rightarrow> nat option \<Rightarrow> event_button \<Rightarrow> event_queues \<Rightarrow> event_queues option" where
  "event_send cap queue e qs =
     do {
       q \<leftarrow> queue;
       es \<leftarrow> qs q;
       Some (if length es < cap q then qs(q \<mapsto> es @ [e]) else qs)
     }"

definition event_slot :: "(nat \<Rightarrow> nat) \<Rightarrow> button_slot \<Rightarrow> event_queues \<Rightarrow> event_queues option" where
  "event_slot cap slot qs = (if bs_used slot then event_send cap (bs_handle slot) BUTTON_PRESSED qs else Some qs)"

definition rtos_apps_user_button_event :: "(nat \<Rightarrow> nat) \<Rightarrow> user_button \<Rightarrow> event_queues \<Rightarrow> event_queues option" where
  "rtos_apps_user_button_event cap button =
     for_upto_opt MAX_EVENT_QUEUES (\<lambda>i. event_slot cap (ub_queue button ! i))"

definition rtos_apps_user_button_irq :: "user_button \<Rightarrow> user_button" where
  "rtos_apps_user_button_irq button = button\<lparr>ub_irq := False, ub_sem := ub_sem button + 1\<rparr>"

text \<open>
  One turn of the task, when its semaphore was given. \<open>active\<close> is what the board answers; clearing the button is up to it.
\<close>

definition user_button_task :: "(nat \<Rightarrow> nat) \<Rightarrow> bool \<Rightarrow> user_button \<times> event_queues \<Rightarrow> (user_button \<times> event_queues) option" where
  "user_button_task cap active s =
     (let (button, qs) = s in
      if ub_sem button = 0 then Some (button, qs)
      else do {
        let button = button\<lparr>ub_sem := ub_sem button - 1\<rparr>;
        qs \<leftarrow> (if active then rtos_apps_user_button_event cap button qs else Some qs);
        Some (button\<lparr>ub_irq := True\<rparr>, qs)
      })"

section \<open>Creation and end\<close>

definition rtos_apps_user_button_init :: "(nat \<Rightarrow> bool) \<Rightarrow> sys \<Rightarrow> (user_button option \<times> sys) option" where
  "rtos_apps_user_button_init A s =
     (let (block, s) = acquire A Memory s in
      case block of
        None \<Rightarrow> Some (None, s)
      | Some b \<Rightarrow>
          let err_free = (\<lambda>s. map_option (\<lambda>s. (None, s)) (release Memory b s));
              (mutex, s) = attempt A s
          in if \<not> mutex then err_free s
             else
               (let (sem, s) = acquire A Semaphore s in
                case sem of
                  None \<Rightarrow> err_free s
                | Some m \<Rightarrow>
                    let (thread, s) = acquire A Thread s in
                    case thread of
                      None \<Rightarrow> Option.bind (release Semaphore m s) err_free
                    | Some _ \<Rightarrow>
                        Some (Some \<lparr>ub_queue = replicate MAX_EVENT_QUEUES \<lparr>bs_handle = None, bs_used = False\<rparr>, ub_sem = 0, ub_irq = True,
                                    ub_block = b, ub_sem_handle = sem, ub_thread = thread\<rparr>, s)))"

definition rtos_apps_user_button_exit :: "user_button \<Rightarrow> sys \<Rightarrow> sys option" where
  "rtos_apps_user_button_exit button s =
     do {
       h \<leftarrow> ub_thread button;
       s \<leftarrow> release Thread h s;
       m \<leftarrow> ub_sem_handle button;
       s \<leftarrow> release Semaphore m s;
       release Memory (ub_block button) s
     }"

section \<open>The button as a multiset of queues\<close>

definition slots_of :: "button_slot list \<Rightarrow> nat multiset" where
  "slots_of xs = mset (map (the \<circ> bs_handle) (filter bs_used xs))"

definition registered_queues :: "user_button \<Rightarrow> nat multiset" where
  "registered_queues button = slots_of (ub_queue button)"

definition button_ok :: "user_button \<Rightarrow> bool" where
  "button_ok button \<longleftrightarrow> length (ub_queue button) = MAX_EVENT_QUEUES \<and> (\<forall>slot \<in> set (ub_queue button). bs_used slot \<longrightarrow> bs_handle slot \<noteq> None)"

text \<open>Each queue gets one event for each time it is registered, as long as it has room.\<close>

definition pressed :: "(nat \<Rightarrow> nat) \<Rightarrow> nat multiset \<Rightarrow> event_queues \<Rightarrow> event_queues" where
  "pressed cap R qs = (\<lambda>q. map_option (\<lambda>es. es @ replicate (min (count R q) (cap q - length es)) BUTTON_PRESSED) (qs q))"

lemma pressed_empty [simp]: "pressed cap {#} qs = qs"
  by (rule ext) (simp add: pressed_def option.map_ident)

lemma event_send_pressed:
  assumes "qs q \<noteq> None"
  shows "event_send cap (Some q) BUTTON_PRESSED qs = Some (pressed cap {#q#} qs)"
  using assms by (auto simp: event_send_def pressed_def fun_eq_iff option.map_ident)

lemma pressed_twice: "pressed cap S (pressed cap R qs) = pressed cap (R + S) qs"
  by (rule ext) (auto simp: pressed_def option.map_comp replicate_add [symmetric] intro!: option.map_cong)

lemma two_slots: "length (xs :: 'a list) = 2 \<Longrightarrow> \<exists>a b. xs = [a, b]"
  by (cases xs; cases "tl xs") auto

lemma find_two: "find P [0..<2] = (if P 0 then Some 0 else if P 1 then Some 1 else None)"
  by (simp add: upt_rec numeral_2_eq_2)

lemma register_spec:
  assumes "button_ok button" and "rtos_apps_user_button_register_queue button q = (rc, button')"
  shows "button_ok button'"
    and "registered_queues button' = (if size (registered_queues button) < MAX_EVENT_QUEUES then add_mset q (registered_queues button) else registered_queues button)"
    and "rc = (if size (registered_queues button) < MAX_EVENT_QUEUES then 0 else - 1)"
proof -
  obtain a b where ab: "ub_queue button = [a, b]" using assms(1) two_slots unfolding button_ok_def by blast
  show "button_ok button'"
    and "registered_queues button' = (if size (registered_queues button) < MAX_EVENT_QUEUES then add_mset q (registered_queues button) else registered_queues button)"
    and "rc = (if size (registered_queues button) < MAX_EVENT_QUEUES then 0 else - 1)"
    using assms ab by (auto simp: rtos_apps_user_button_register_queue_def find_two button_ok_def registered_queues_def slots_of_def split: if_splits)
qed

lemma unregister_spec:
  assumes "button_ok button"
  shows "button_ok (rtos_apps_user_button_unregister_queue button q)"
    and "registered_queues (rtos_apps_user_button_unregister_queue button q) = registered_queues button - {#q#}"
proof -
  obtain a b where ab: "ub_queue button = [a, b]" using assms(1) two_slots unfolding button_ok_def by blast
  show "button_ok (rtos_apps_user_button_unregister_queue button q)"
    and "registered_queues (rtos_apps_user_button_unregister_queue button q) = registered_queues button - {#q#}"
    using assms ab by (auto simp: rtos_apps_user_button_unregister_queue_def find_two button_ok_def registered_queues_def slots_of_def split: if_splits)
qed

lemma event_spec:
  assumes "button_ok button" and "\<forall>q \<in># registered_queues button. qs q \<noteq> None"
  shows "rtos_apps_user_button_event cap button qs = Some (pressed cap (registered_queues button) qs)"
proof -
  obtain a b where ab: "ub_queue button = [a, b]" using assms(1) two_slots unfolding button_ok_def by blast
  have one: "event_slot cap slot qs = Some (pressed cap (slots_of [slot]) qs)"
    if "bs_used slot \<longrightarrow> bs_handle slot \<noteq> None" "\<forall>q \<in># slots_of [slot]. qs q \<noteq> None" for slot qs
    using that event_send_pressed by (auto simp: slots_of_def event_slot_def)
  have "\<forall>q \<in># slots_of [a]. qs q \<noteq> None" "\<forall>q \<in># slots_of [b]. pressed cap (slots_of [a]) qs q \<noteq> None"
    using assms(2) ab by (auto simp: registered_queues_def slots_of_def pressed_def split: if_splits)
  then have "rtos_apps_user_button_event cap button qs = Some (pressed cap (slots_of [b]) (pressed cap (slots_of [a]) qs))"
    using assms(1) ab one by (simp add: rtos_apps_user_button_event_def numeral_2_eq_2 button_ok_def)
  then show ?thesis using ab by (simp add: pressed_twice registered_queues_def slots_of_def)
qed

section \<open>Any sequence of operations\<close>

text \<open>What the tasks do with the button, and a press of it: the interrupt, and the task that it wakes.\<close>

datatype button_op = Register nat | Unregister nat | Press

definition button_step :: "(nat \<Rightarrow> nat) \<Rightarrow> button_op \<Rightarrow> user_button \<times> event_queues \<times> int list \<Rightarrow> (user_button \<times> event_queues \<times> int list) option" where
  "button_step cap op s =
     (let (button, qs, rcs) = s in
      case op of
        Register q \<Rightarrow> let (rc, button) = rtos_apps_user_button_register_queue button q in Some (button, qs, rcs @ [rc])
      | Unregister q \<Rightarrow> Some (rtos_apps_user_button_unregister_queue button q, qs, rcs)
      | Press \<Rightarrow> map_option (\<lambda>(button, qs). (button, qs, rcs)) (user_button_task cap True (rtos_apps_user_button_irq button, qs)))"

primrec button_run :: "(nat \<Rightarrow> nat) \<Rightarrow> button_op list \<Rightarrow> user_button \<times> event_queues \<times> int list \<Rightarrow> (user_button \<times> event_queues \<times> int list) option" where
  "button_run cap [] s = Some s"
| "button_run cap (op # ops) s = Option.bind (button_step cap op s) (button_run cap ops)"

text \<open>The specification: the registered queues are a multiset of at most two, without order or places.\<close>

definition button_spec :: "(nat \<Rightarrow> nat) \<Rightarrow> button_op \<Rightarrow> nat multiset \<times> event_queues \<times> int list \<Rightarrow> nat multiset \<times> event_queues \<times> int list" where
  "button_spec cap op s =
     (let (R, qs, rcs) = s in
      case op of
        Register q \<Rightarrow> if size R < MAX_EVENT_QUEUES then (add_mset q R, qs, rcs @ [0]) else (R, qs, rcs @ [- 1])
      | Unregister q \<Rightarrow> (R - {#q#}, qs, rcs)
      | Press \<Rightarrow> (R, pressed cap R qs, rcs))"

definition button_abs :: "user_button \<times> event_queues \<times> int list \<Rightarrow> nat multiset \<times> event_queues \<times> int list" where
  "button_abs s = (case s of (button, qs, rcs) \<Rightarrow> (registered_queues button, qs, rcs))"

definition button_sys_ok :: "nat set \<Rightarrow> user_button \<times> event_queues \<times> int list \<Rightarrow> bool" where
  "button_sys_ok live s \<longleftrightarrow> (case s of (button, qs, rcs) \<Rightarrow>
     button_ok button \<and> set_mset (registered_queues button) \<subseteq> live \<and> (\<forall>q \<in> live. qs q \<noteq> None))"

lemma press_spec:
  assumes "button_ok button" and "\<forall>q \<in># registered_queues button. qs q \<noteq> None"
  shows "\<exists>button'. user_button_task cap True (rtos_apps_user_button_irq button, qs) = Some (button', pressed cap (registered_queues button) qs) \<and>
    ub_queue button' = ub_queue button \<and> ub_irq button' \<and> ub_sem button' = ub_sem button"
proof -
  let ?b = "button\<lparr>ub_irq := False\<rparr>"
  have same: "button_ok ?b" "registered_queues ?b = registered_queues button"
    using assms(1) by (simp_all add: button_ok_def registered_queues_def)
  have "rtos_apps_user_button_event cap ?b qs = Some (pressed cap (registered_queues button) qs)"
    using event_spec [OF same(1), of qs cap] assms(2) unfolding same(2) by blast
  then show ?thesis by (simp add: user_button_task_def rtos_apps_user_button_irq_def)
qed

lemma button_step_ok:
  assumes "button_sys_ok live s" and "\<And>q. op = Register q \<Longrightarrow> q \<in> live"
  shows "\<exists>s'. button_step cap op s = Some s' \<and> button_sys_ok live s' \<and> button_abs s' = button_spec cap op (button_abs s)"
proof -
  obtain button qs rcs where s: "s = (button, qs, rcs)" by (cases s)
  have ok: "button_ok button" "set_mset (registered_queues button) \<subseteq> live" "\<forall>q \<in> live. qs q \<noteq> None"
    using assms(1) by (simp_all add: s button_sys_ok_def)
  show ?thesis
  proof (cases op)
    case (Register q)
    obtain rc button' where r: "rtos_apps_user_button_register_queue button q = (rc, button')" by fastforce
    show ?thesis
      using register_spec [OF ok(1) r] r ok assms(2) [OF Register] by (auto simp: s Register button_step_def button_spec_def button_abs_def button_sys_ok_def)
  next
    case (Unregister q)
    show ?thesis
      using unregister_spec [OF ok(1), of q] ok
      by (auto simp: s Unregister button_step_def button_spec_def button_abs_def button_sys_ok_def dest: in_diffD)
  next
    case Press
    obtain button' where "user_button_task cap True (rtos_apps_user_button_irq button, qs) = Some (button', pressed cap (registered_queues button) qs)"
      "ub_queue button' = ub_queue button"
      using press_spec [OF ok(1), of qs cap] ok(2,3) by blast
    then show ?thesis
      using ok by (auto simp: s Press button_step_def button_spec_def button_abs_def button_sys_ok_def button_ok_def registered_queues_def pressed_def)
  qed
qed

lemma button_run_ok:
  assumes "button_sys_ok live s" and "\<And>q. Register q \<in> set ops \<Longrightarrow> q \<in> live"
  shows "\<exists>s'. button_run cap ops s = Some s' \<and> button_abs s' = fold (button_spec cap) ops (button_abs s)"
  using assms
proof (induction ops arbitrary: s)
  case (Cons op ops)
  obtain s1 where s1: "button_step cap op s = Some s1" "button_sys_ok live s1" "button_abs s1 = button_spec cap op (button_abs s)"
    using button_step_ok [OF Cons.prems(1), of op cap] Cons.prems(2) by auto
  then show ?case using Cons.IH [OF s1(2)] Cons.prems(2) by simp
qed simp

definition fresh_button :: "nat \<Rightarrow> nat \<Rightarrow> nat \<Rightarrow> user_button" where
  "fresh_button b m t = \<lparr>ub_queue = replicate MAX_EVENT_QUEUES \<lparr>bs_handle = None, bs_used = False\<rparr>, ub_sem = 0, ub_irq = True,
     ub_block = b, ub_sem_handle = Some m, ub_thread = Some t\<rparr>"

lemma user_button_created:
  assumes "rtos_apps_user_button_init A s0 = Some (Some button, s)"
  shows "\<exists>b m t. button = fresh_button b m t \<and> holds s0 [(Thread, t), (Semaphore, m), (Memory, b)] s"
proof -
  obtain block s1 mutex s2 sem s3 thread s4 where calls: "acquire A Memory s0 = (block, s1)" "attempt A s1 = (mutex, s2)"
    "acquire A Semaphore s2 = (sem, s3)" "acquire A Thread s3 = (thread, s4)" by (meson surj_pair)
  then obtain b m t where got: "block = Some b" "sem = Some m" "thread = Some t" "s = s4" "button = fresh_button b m t"
    using assms by (auto simp: rtos_apps_user_button_init_def fresh_button_def Let_def split: option.splits if_splits Option.bind_splits)
  have "holds s0 [(Memory, b)] s2"
    using attempt_holds [OF acquire_some [OF holds_refl] calls(2)] calls(1) got(1) by blast
  then have "holds s0 [(Thread, t), (Semaphore, m), (Memory, b)] s"
    using acquire_some [OF acquire_some] calls(3,4) got by blast
  then show ?thesis using got(5) by blast
qed

text \<open>
  C30. From its creation on, and for every sequence of registrations, unregistrations and presses over queues that are not
  destroyed, the button is a multiset of at most two queues: a registration succeeds exactly when there is room, an
  unregistration takes out one registration of its queue, and a press puts one event for each registration into each
  queue with room, and nothing into the others. The button's end gives back what its creation took.
\<close>

theorem user_button_refines:
  assumes "sys_ok s0" and "rtos_apps_user_button_init A s0 = Some (Some button, s1)"
    and "\<forall>q \<in> live. qs q \<noteq> None" and "\<forall>q. Register q \<in> set ops \<longrightarrow> q \<in> live"
  shows "\<exists>button' qs' rcs s2. button_run cap ops (button, qs, []) = Some (button', qs', rcs) \<and>
    (registered_queues button', qs', rcs) = fold (button_spec cap) ops ({#}, qs, []) \<and>
    rtos_apps_user_button_exit button s1 = Some s2 \<and> sy_live s2 = sy_live s0"
proof -
  obtain b m t where b: "button = fresh_button b m t" and held: "holds s0 [(Thread, t), (Semaphore, m), (Memory, b)] s1"
    using user_button_created [OF assms(2)] by blast
  have "button_sys_ok live (button, qs, [])" "button_abs (button, qs, []) = ({#}, qs, [])"
    using assms(3) by (auto simp: b fresh_button_def button_sys_ok_def button_ok_def registered_queues_def slots_of_def button_abs_def)
  then obtain s' where "button_run cap ops (button, qs, []) = Some s'" "button_abs s' = fold (button_spec cap) ops ({#}, qs, [])"
    using button_run_ok [of live "(button, qs, [])" ops cap] assms(4) by auto
  moreover obtain s2 where "rtos_apps_user_button_exit button s1 = Some s2" "holds s0 [] s2"
    using release_all_holds [OF assms(1), of "[(Thread, t), (Semaphore, m), (Memory, b)]" "[]" s1] held
    by (auto simp: rtos_apps_user_button_exit_def b fresh_button_def bind_eq_Some_conv)
  ultimately show ?thesis using holds_live by (cases s') (auto simp: button_abs_def)
qed

theorem user_button_refines_witness:
  "\<exists>button s1 button' qs'.
     rtos_apps_user_button_init (\<lambda>_. True) \<lparr>sy_next = 0, sy_live = {}\<rparr> = Some (Some button, s1) \<and>
     button_run (\<lambda>_. 1) [Register 7, Press, Register 8, Register 9, Unregister 7, Press] (button, \<lambda>_. Some [], []) = Some (button', qs', [0, 0, - 1]) \<and>
     qs' 7 = Some [BUTTON_PRESSED] \<and> qs' 8 = Some [BUTTON_PRESSED] \<and> qs' 9 = Some []"
proof -
  let ?s = "\<lparr>sy_next = 0, sy_live = {}\<rparr>"
  obtain button s1 where init: "rtos_apps_user_button_init (\<lambda>_. True) ?s = Some (Some button, s1)"
    by (auto simp: rtos_apps_user_button_init_def acquire_def attempt_def Let_def)
  have "sys_ok ?s" by (simp add: sys_ok_def)
  from user_button_refines [OF this init, of UNIV "\<lambda>_. Some []" "[Register 7, Press, Register 8, Register 9, Unregister 7, Press]" "\<lambda>_. 1"]
  show ?thesis using init by (auto simp: button_spec_def pressed_def)
qed

end
