(* ===== verification/Audio_Avtp.thy ===== *)
theory Audio_Avtp
  imports Audio_World "HOL-Library.Monad_Syntax"
begin

text \<open>
  What the network elements share: the interface of the network stack and of its stream formats, and the control commands
  of \<open>rtos_apps/audio/audio_pipeline_ctrl.h\<close>. These elements belong to the build with the network stack.
\<close>

section \<open>The network stack\<close>

text \<open>An event of a received batch: its mask, the timestamp and the position of the byte it is about.\<close>

record avb_event =
  av_invalid :: bool
  av_ts :: u32
  av_index :: u32

text \<open>
  The answer to a receive call: the number of bytes, what the array of the caller then holds, and the events.
\<close>

record avb_answer =
  av_bytes :: s32
  av_data :: "nat \<Rightarrow> u32"
  av_events :: "avb_event list"

record 'f stream_params =
  sp_format :: 'f
  sp_stream_class :: u32
  sp_flags :: u32
  sp_clock_domain :: u32

text \<open>
  The calls of the stack, on a state of type \<open>'h\<close>: \<open>av_create\<close> gives the handle of the new stream, \<open>av_clock\<close> the time, when
  they succeed. The formats are those of the entity model, of type \<open>'f\<close>.
\<close>

record ('f, 'h) avb_stack =
  av_is_aaf_pcm :: "'f \<Rightarrow> bool"
  av_is_61883_6 :: "'f \<Rightarrow> bool"
  av_channels_per_sample :: "'f \<Rightarrow> u32"
  av_sample_rate :: "'f \<Rightarrow> u32"
  av_sample_size :: "'f \<Rightarrow> u32"
  av_samples_per_packet :: "'f \<Rightarrow> u32 \<Rightarrow> u32"
  av_default_domain :: u32
  av_create :: "nat \<Rightarrow> 'f stream_params \<Rightarrow> u32 \<Rightarrow> 'h \<Rightarrow> nat option \<times> 'h"
  av_destroy :: "nat \<Rightarrow> 'h \<Rightarrow> 'h"
  av_receive :: "nat \<Rightarrow> u32 \<Rightarrow> 'h \<Rightarrow> avb_answer \<times> 'h"
  av_send :: "nat \<Rightarrow> u32 list \<Rightarrow> u32 \<Rightarrow> 'h \<Rightarrow> s32 \<times> 'h"
  av_flush :: "nat \<Rightarrow> 'h \<Rightarrow> 'h"
  av_clock :: "'h \<Rightarrow> u64 option"
  av_transit :: "u32 \<Rightarrow> u32"
  av_uncertainty :: "u32 \<Rightarrow> u32"
  av_after :: "u32 \<Rightarrow> u32 \<Rightarrow> bool"
  av_before :: "u32 \<Rightarrow> u32 \<Rightarrow> bool"

section \<open>Configuration and commands\<close>

text \<open>The arrays of inputs and outputs are functions of the index, the flags are those of the streams of a source.\<close>

record avtp_config =
  vg_inputs :: u32
  vg_input :: "nat \<Rightarrow> u32"
  vg_outputs :: u32
  vg_output :: "nat \<Rightarrow> u32"
  vg_stream_n :: u32
  vg_flags :: "nat \<Rightarrow> u32"
  vg_clock_domain :: u32

record 'f avtp_cmd =
  vm_type :: u32
  vm_stream_index :: u32
  vm_params :: "'f stream_params"
  vm_genavb_h :: "nat option"

text \<open>The sizes of the command structures.\<close>

record avtp_sizes =
  vz_connect :: u32
  vz_disconnect :: u32
  vz_set_handle :: u32

abbreviation (input) AUDIO_ELEMENT_AVTP_SOURCE :: u32 where "AUDIO_ELEMENT_AVTP_SOURCE \<equiv> 6"
abbreviation (input) AUDIO_ELEMENT_AVTP_SINK :: u32 where "AUDIO_ELEMENT_AVTP_SINK \<equiv> 7"
abbreviation (input) AUDIO_CMD_TYPE_ELEMENT_AVTP_SOURCE_CONNECT :: u32 where "AUDIO_CMD_TYPE_ELEMENT_AVTP_SOURCE_CONNECT \<equiv> 0x480"
abbreviation (input) AUDIO_CMD_TYPE_ELEMENT_AVTP_SOURCE_DISCONNECT :: u32 where "AUDIO_CMD_TYPE_ELEMENT_AVTP_SOURCE_DISCONNECT \<equiv> 0x481"
abbreviation (input) AUDIO_CMD_TYPE_ELEMENT_AVTP_SOURCE_SET_HANDLE :: u32 where "AUDIO_CMD_TYPE_ELEMENT_AVTP_SOURCE_SET_HANDLE \<equiv> 0x482"
abbreviation (input) AUDIO_CMD_TYPE_ELEMENT_AVTP_SINK_CONNECT :: u32 where "AUDIO_CMD_TYPE_ELEMENT_AVTP_SINK_CONNECT \<equiv> 0x490"
abbreviation (input) AUDIO_CMD_TYPE_ELEMENT_AVTP_SINK_DISCONNECT :: u32 where "AUDIO_CMD_TYPE_ELEMENT_AVTP_SINK_DISCONNECT \<equiv> 0x491"
abbreviation (input) AUDIO_CMD_TYPE_ELEMENT_AVTP_SINK_SET_HANDLE :: u32 where "AUDIO_CMD_TYPE_ELEMENT_AVTP_SINK_SET_HANDLE \<equiv> 0x492"
abbreviation (input) AUDIO_RESP_TYPE_ELEMENT_AVTP :: u32 where "AUDIO_RESP_TYPE_ELEMENT_AVTP \<equiv> 0x49f"
abbreviation (input) AVTP_STREAM_N :: nat where "AVTP_STREAM_N \<equiv> 2"
abbreviation (input) AVTP_CHANNEL_N :: nat where "AVTP_CHANNEL_N \<equiv> 2"
abbreviation (input) PERIOD_MAX :: nat where "PERIOD_MAX \<equiv> 32"

section \<open>Interleaving\<close>

text \<open>The words of a batch: for each sample the words of its channels.\<close>

definition interleave :: "nat \<Rightarrow> (nat \<Rightarrow> nat \<Rightarrow> 'w) \<Rightarrow> 'w list" where
  "interleave P ch = concat (map (\<lambda>j. [ch 0 j, ch 1 j]) [0..<P])"

lemma length_interleave [simp]: "length (interleave P ch) = 2 * P"
  by (induction P) (simp_all add: interleave_def)

lemma interleave_Suc: "interleave (Suc P) ch = interleave P ch @ [ch 0 P, ch 1 P]"
  by (simp add: interleave_def)

lemma nth_interleave: "c < 2 \<Longrightarrow> j < P \<Longrightarrow> interleave P ch ! (2 * j + c) = ch c j"
proof (induction P)
  case (Suc P)
  moreover from Suc.prems(1) have "c = 0 \<or> c = 1"
    by auto
  ultimately show ?case
    by (cases "j < P") (auto simp: interleave_Suc nth_append less_Suc_eq)
qed simp

lemma opt_loop_two: "for_upto_opt 2 f s = (case f 0 s of None \<Rightarrow> None | Some s \<Rightarrow> f 1 s)"
  by (auto simp: numeral_2_eq_2 split: option.split)

text \<open>A stack for examples: its state is the list of the batches sent, it never receives anything.\<close>

definition demo_stack :: "(unit, u32 list list) avb_stack" where
  "demo_stack =
     \<lparr>av_is_aaf_pcm = (\<lambda>_. True), av_is_61883_6 = (\<lambda>_. False), av_channels_per_sample = (\<lambda>_. 2), av_sample_rate = (\<lambda>_. 48000),
      av_sample_size = (\<lambda>_. 8), av_samples_per_packet = (\<lambda>_ _. 6), av_default_domain = 0, av_create = (\<lambda>_ _ _ h. (Some 1, h)),
      av_destroy = (\<lambda>_ h. h), av_receive = (\<lambda>_ _ h. (\<lparr>av_bytes = 0, av_data = (\<lambda>_. 0), av_events = []\<rparr>, h)),
      av_send = (\<lambda>_ ws len h. (len, take (unat len div 4) ws # h)), av_flush = (\<lambda>_ h. h), av_clock = (\<lambda>_. None),
      av_transit = (\<lambda>_. 0), av_uncertainty = (\<lambda>_. 0), av_after = (>), av_before = (<)\<rparr>"

end
