(* ===== verification/Audio_Avtp_Sink.thy ===== *)
theory Audio_Avtp_Sink
  imports Audio_Avtp
begin

text \<open>
  The network sink, \<open>audio/audio_element_avtp_sink.c\<close>: converts one period of every connected stream's channels and sends
  them, interleaved, as one batch.
\<close>

section \<open>State\<close>

record avtp_tx_stream =
  ak_connected :: bool
  ak_handle :: "nat option"
  ak_cur_batch_size :: u32
  ak_channel_buf :: "nat list"
  ak_err :: u32
  ak_overflow :: u32
  ak_sent :: u32
  ak_convert :: bool
  ak_invert :: bool
  ak_shift :: u32
  ak_mask :: u32

record avtp_sink =
  ka_stream_n :: u32
  ka_stream :: "avtp_tx_stream list"
  ka_in_n :: u32
  ka_in :: "nat list"
  ka_genavb_h :: "nat option"
  ka_clock_domain :: u32

definition upd_tx_stream :: "nat \<Rightarrow> (avtp_tx_stream \<Rightarrow> avtp_tx_stream) \<Rightarrow> avtp_sink \<Rightarrow> avtp_sink" where
  "upd_tx_stream i f avtp = avtp\<lparr>ka_stream := (ka_stream avtp)[i := f (ka_stream avtp ! i)]\<rparr>"

section \<open>Connection\<close>

text \<open>A stream beyond the array is a trap. The answer to the caller does not tell whether the connection was made.\<close>

definition avtp_sink_connect ::
  "('f, 'h) avb_stack \<Rightarrow> audio_element \<Rightarrow> nat \<Rightarrow> 'f stream_params \<Rightarrow> avtp_sink \<times> 'h \<Rightarrow> (avtp_sink \<times> 'h) option" where
  "avtp_sink_connect V el stream_index params s =
     (let (avtp, h) = s; stream = ka_stream avtp ! stream_index; format = sp_format params in
      if \<not> stream_index < length (ka_stream avtp) then None
      else if ak_connected stream then Some (avtp, h)
      else case ka_genavb_h avtp of
        None \<Rightarrow> Some (avtp, h)
      | Some genavb_h \<Rightarrow>
          (case (if av_is_aaf_pcm V format then Some (True, 0, 0xffffff00)
                 else if av_is_61883_6 V format then Some (True, 8, 0x00ffffff) else None) of
             None \<Rightarrow> Some (avtp, h)
           | Some (invert, shift, msk) \<Rightarrow>
               if av_channels_per_sample V format > of_nat AVTP_CHANNEL_N then Some (avtp, h)
               else if av_sample_rate V format \<noteq> el_sample_rate el then Some (avtp, h)
               else
                 (let stream = stream\<lparr>ak_convert := True, ak_invert := invert, ak_shift := shift, ak_mask := msk,
                                      ak_cur_batch_size := el_period el * av_sample_size V format\<rparr>;
                      packet = av_samples_per_packet V format (sp_stream_class params);
                      cur_batch_size = (if el_period el < packet then packet * av_sample_size V format else ak_cur_batch_size stream);
                      params = (if ka_clock_domain avtp \<noteq> av_default_domain V then params\<lparr>sp_clock_domain := ka_clock_domain avtp\<rparr> else params)
                  in case av_create V genavb_h params cur_batch_size h of
                       (None, h) \<Rightarrow> Some (upd_tx_stream stream_index (\<lambda>_. stream\<lparr>ak_cur_batch_size := 0\<rparr>) avtp, h)
                     | (Some handle, h) \<Rightarrow>
                         Some (upd_tx_stream stream_index (\<lambda>_. stream\<lparr>ak_handle := Some handle, ak_connected := True\<rparr>) avtp, h))))"

definition avtp_sink_set_handle :: "nat option \<Rightarrow> avtp_sink \<Rightarrow> avtp_sink" where
  "avtp_sink_set_handle genavb_h avtp = avtp\<lparr>ka_genavb_h := genavb_h\<rparr>"

definition avtp_sink_disconnect :: "('f, 'h) avb_stack \<Rightarrow> nat \<Rightarrow> avtp_sink \<times> 'h \<Rightarrow> (avtp_sink \<times> 'h) option" where
  "avtp_sink_disconnect V stream_index s =
     (let (avtp, h) = s; stream = ka_stream avtp ! stream_index in
      if \<not> stream_index < length (ka_stream avtp) then None
      else if \<not> ak_connected stream then Some (avtp, h)
      else case ak_handle stream of
        None \<Rightarrow> None
      | Some handle \<Rightarrow>
          Some (upd_tx_stream stream_index (\<lambda>stream. stream\<lparr>ak_connected := False, ak_handle := None\<rparr>) avtp, av_destroy V handle h))"

definition avtp_sink_element_response :: "bool \<Rightarrow> u32 \<Rightarrow> response list" where
  "avtp_sink_element_response ctrl_handle status = (if ctrl_handle then [(AUDIO_RESP_TYPE_ELEMENT_AVTP, status)] else [])"

definition avtp_sink_element_ctrl ::
  "('f, 'h) avb_stack \<Rightarrow> avtp_sizes \<Rightarrow> (audio_element \<times> avtp_sink) option \<Rightarrow> 'f avtp_cmd \<Rightarrow> u32 \<Rightarrow> bool \<Rightarrow> 'h \<Rightarrow>
     (int \<times> avtp_sink option \<times> response list \<times> 'h) option" where
  "avtp_sink_element_ctrl V Z element cmd len ctrl_handle h =
     (let err = Some (- 1, map_option snd element, avtp_sink_element_response ctrl_handle AUDIO_RESP_STATUS_ERROR, h);
          ok = (\<lambda>(avtp, h). (0, Some avtp, avtp_sink_element_response ctrl_handle AUDIO_RESP_STATUS_SUCCESS, h))
      in case element of
           None \<Rightarrow> err
         | Some (el, avtp) \<Rightarrow>
             if el_type el \<noteq> AUDIO_ELEMENT_AVTP_SINK then err
             else if vm_type cmd = AUDIO_CMD_TYPE_ELEMENT_AVTP_SINK_CONNECT then
               (if len \<noteq> vz_connect Z then err
                else if vm_stream_index cmd \<ge> ka_stream_n avtp + 1 then err
                else map_option ok (avtp_sink_connect V el (unat (vm_stream_index cmd)) (vm_params cmd) (avtp, h)))
             else if vm_type cmd = AUDIO_CMD_TYPE_ELEMENT_AVTP_SINK_DISCONNECT then
               (if len \<noteq> vz_disconnect Z then err
                else if vm_stream_index cmd \<ge> ka_stream_n avtp + 1 then err
                else map_option ok (avtp_sink_disconnect V (unat (vm_stream_index cmd)) (avtp, h)))
             else if vm_type cmd = AUDIO_CMD_TYPE_ELEMENT_AVTP_SINK_SET_HANDLE then
               (if len \<noteq> vz_set_handle Z then err
                else Some (ok (avtp_sink_set_handle (vm_genavb_h cmd) avtp, h)))
             else err)"

section \<open>Sending\<close>

text \<open>The batch: an array of \<open>2 * PERIOD_MAX\<close> words, zero where no sample is stored; storing beyond it is a trap.\<close>

definition sink_batch :: "('s \<Rightarrow> u32) \<Rightarrow> u32 \<Rightarrow> 's mem \<Rightarrow> audio_buffer list \<Rightarrow> nat list \<Rightarrow> u32 list option" where
  "sink_batch bits period m bs channels =
     map_option fst
       (for_upto_opt (unat period)
          (\<lambda>j. for_upto_opt AVTP_CHANNEL_N
             (\<lambda>i (data, k). if k < length data then Some (data[k := audio_buf_read_uint32 bits m (bs ! (channels ! i)) (of_nat j)], k + 1) else None))
          (replicate (AVTP_CHANNEL_N * PERIOD_MAX) 0, 0))"

text \<open>Sending through a null handle, or more bytes than the array has, is a trap.\<close>

definition talker_send ::
  "'s audio_format \<Rightarrow> ('f, 'h) avb_stack \<Rightarrow> nat \<Rightarrow> u32 \<Rightarrow> avtp_sink \<times> ('s, 'h) world \<Rightarrow> (int \<times> avtp_sink \<times> ('s, 'h) world) option" where
  "talker_send F V stream_index period s =
     (let (avtp, w) = s; stream = ka_stream avtp ! stream_index;
          w = (if ak_convert stream then
                 for_upto AVTP_CHANNEL_N
                   (\<lambda>i w. w\<lparr>smem := audio_convert_to F (smem w) (audio_buf_read_addr (bufs w ! (ak_channel_buf stream ! i)) 0) period
                                     (ak_invert stream) (ak_mask stream) (unat (ak_shift stream))\<rparr>) w
               else w)
      in do {
           data \<leftarrow> sink_batch (sample_bits F) period (smem w) (bufs w) (ak_channel_buf stream);
           handle \<leftarrow> ak_handle stream;
           if unat (ak_cur_batch_size stream) > 4 * length data then None
           else
             (let (write_total, h) = av_send V handle data (ak_cur_batch_size stream) (hws w); w = w\<lparr>hws := h\<rparr> in
              if write_total <s 0 then Some (- 1, upd_tx_stream stream_index (\<lambda>st. st\<lparr>ak_err := ak_err st + 1\<rparr>) avtp, w)
              else if write_total <s ak_cur_batch_size stream then
                Some (- 1, upd_tx_stream stream_index (\<lambda>st. st\<lparr>ak_overflow := ak_overflow st + 1\<rparr>) avtp, w)
              else Some (0, upd_tx_stream stream_index (\<lambda>st. st\<lparr>ak_sent := ak_sent st + 1\<rparr>) avtp, w))
         })"

definition avtp_sink_run_stream ::
  "'s audio_format \<Rightarrow> ('f, 'h) avb_stack \<Rightarrow> u32 \<Rightarrow> nat \<Rightarrow> avtp_sink \<times> ('s, 'h) world \<Rightarrow> (avtp_sink \<times> ('s, 'h) world) option" where
  "avtp_sink_run_stream F V period i s =
     (let stream = ka_stream (fst s) ! i in
      if \<not> i < length (ka_stream (fst s)) then None
      else do {
        (avtp, w) \<leftarrow> (if ak_connected stream then map_option snd (talker_send F V i period s) else Some s);
        Some (avtp, for_upto AVTP_CHANNEL_N
          (\<lambda>j w. buf_upd (ak_channel_buf stream ! j) (\<lambda>b. audio_buf_read_update b period) w) w)
      })"

definition avtp_sink_element_run ::
  "'s audio_format \<Rightarrow> ('f, 'h) avb_stack \<Rightarrow> audio_element \<Rightarrow> avtp_sink \<Rightarrow> ('s, 'h) world \<Rightarrow> (int \<times> avtp_sink \<times> ('s, 'h) world) option" where
  "avtp_sink_element_run F V el avtp w =
     map_option (\<lambda>(avtp, w). (0, avtp, w)) (for_upto_opt (unat (ka_stream_n avtp)) (avtp_sink_run_stream F V (el_period el)) (avtp, w))"

section \<open>The rest of the life of the element\<close>

definition avtp_sink_element_reset :: "('f, 'h) avb_stack \<Rightarrow> avtp_sink \<Rightarrow> ('s::zero, 'h) world \<Rightarrow> ('s, 'h) world" where
  "avtp_sink_element_reset V avtp w =
     (let w = for_upto (unat (ka_stream_n avtp))
            (\<lambda>i w. case ak_handle (ka_stream avtp ! i) of None \<Rightarrow> w | Some handle \<Rightarrow> w\<lparr>hws := av_flush V handle (hws w)\<rparr>) w
      in for_upto (unat (ka_in_n avtp)) (\<lambda>i. on_buf (ka_in avtp ! i) audio_buf_reset) w)"

definition avtp_sink_element_exit :: "('f, 'h) avb_stack \<Rightarrow> avtp_sink \<times> 'h \<Rightarrow> (avtp_sink \<times> 'h) option" where
  "avtp_sink_element_exit V s = for_upto_opt (unat (ka_stream_n (fst s))) (avtp_sink_disconnect V) s"

definition avtp_sink_element_check_config :: "avtp_config \<Rightarrow> int" where
  "avtp_sink_element_check_config config =
     (if vg_outputs config \<noteq> 0 then - 1
      else if vg_inputs config \<noteq> of_nat (AVTP_STREAM_N * AVTP_CHANNEL_N) then - 1
      else if vg_stream_n config > of_nat AVTP_STREAM_N then - 1
      else 0)"

text \<open>\<open>mutex\<close> tells whether the mutex is initialised; the memory of the element is zero.\<close>

definition zeroed_tx_stream :: avtp_tx_stream where
  "zeroed_tx_stream = \<lparr>ak_connected = False, ak_handle = None, ak_cur_batch_size = 0, ak_channel_buf = [], ak_err = 0, ak_overflow = 0, ak_sent = 0,
     ak_convert = False, ak_invert = False, ak_shift = 0, ak_mask = 0\<rparr>"

definition avtp_sink_element_init ::
  "bool \<Rightarrow> audio_element \<Rightarrow> avtp_config \<Rightarrow> ('s, 'h) world \<Rightarrow> (int \<times> avtp_sink option \<times> ('s, 'h) world)" where
  "avtp_sink_element_init mutex el config w =
     (if \<not> mutex then (- 1, None, w)
      else
        (let n = unat (vg_stream_n config);
             avtp = \<lparr>ka_stream_n = vg_stream_n config, ka_stream = replicate AVTP_STREAM_N zeroed_tx_stream,
                     ka_in_n = of_nat (AVTP_STREAM_N * AVTP_CHANNEL_N), ka_in = [], ka_genavb_h = None, ka_clock_domain = vg_clock_domain config\<rparr>;
             (avtp, w) = for_upto n
               (\<lambda>i (avtp, w).
                  (upd_tx_stream i (\<lambda>st. st\<lparr>ak_connected := False, ak_channel_buf := map (\<lambda>j. unat (vg_input config (2 * i + j))) [0..<AVTP_CHANNEL_N]\<rparr>) avtp,
                   for_upto AVTP_CHANNEL_N (\<lambda>j. buf_upd (unat (vg_input config (2 * i + j))) (set_output el (of_nat (2 * i + j)))) w)) (avtp, w)
         in (0, Some (avtp\<lparr>ka_in := map (\<lambda>i. unat (vg_input config i)) [0..<AVTP_STREAM_N * AVTP_CHANNEL_N]\<rparr>), w)))"

section \<open>One period to the network\<close>

lemma sink_batch_words:
  assumes "unat period \<le> PERIOD_MAX"
  shows "sink_batch bits period m bs channels =
    Some (interleave (unat period) (\<lambda>c j. audio_buf_read_uint32 bits m (bs ! (channels ! c)) (of_nat j)) @
      replicate (2 * (PERIOD_MAX - unat period)) 0)"
proof -
  let ?w = "\<lambda>c j. audio_buf_read_uint32 bits m (bs ! (channels ! c)) (of_nat j)"
  let ?body = "\<lambda>j. for_upto_opt AVTP_CHANNEL_N
    (\<lambda>i (data, k). if k < length data then Some (data[k := ?w i j], k + 1) else None)"
  have "p \<le> PERIOD_MAX \<Longrightarrow> for_upto_opt p ?body (replicate (AVTP_CHANNEL_N * PERIOD_MAX) 0, 0) =
      Some (interleave p ?w @ replicate (2 * (PERIOD_MAX - p)) 0, 2 * p)" for p
  proof (induction p)
    case 0
    then show ?case by (simp add: interleave_def)
  next
    case (Suc p)
    obtain r where "2 * (PERIOD_MAX - p) = Suc (Suc r)" and "2 * (PERIOD_MAX - Suc p) = r"
      using Suc.prems by (metis Suc_diff_Suc Suc_le_lessD mult_Suc_right add_2_eq_Suc)
    then show ?case using Suc by (simp add: opt_loop_two interleave_Suc list_update_append)
  qed
  then show ?thesis using assms unfolding sink_batch_def by (simp del: for_upto_opt.simps)
qed

text \<open>
  The words a stream sends: one period of its two channels, each sample converted when the stream converts, then the unused
  part of the array; and what the answer of the stack does to the counters.
\<close>

definition sent_cell :: "'s audio_format \<Rightarrow> avtp_tx_stream \<Rightarrow> 's cell \<Rightarrow> 's cell" where
  "sent_cell F st c = (if ak_convert st then to_cell F (ak_invert st) (ak_mask st) (unat (ak_shift st)) c else c)"

definition stream_words :: "'s audio_format \<Rightarrow> u32 \<Rightarrow> avtp_tx_stream \<Rightarrow> ('s, 'h) world \<Rightarrow> u32 list" where
  "stream_words F P st w =
     interleave (unat P) (\<lambda>c j. cell_int32 F (sent_cell F st (read_block P (smem w) (bufs w ! (ak_channel_buf st ! c)) ! j))) @
       replicate (2 * (PERIOD_MAX - unat P)) 0"

definition count_answer :: "s32 \<Rightarrow> avtp_tx_stream \<Rightarrow> avtp_tx_stream" where
  "count_answer r st =
     (if r <s 0 then st\<lparr>ak_err := ak_err st + 1\<rparr>
      else if r <s ak_cur_batch_size st then st\<lparr>ak_overflow := ak_overflow st + 1\<rparr>
      else st\<lparr>ak_sent := ak_sent st + 1\<rparr>)"

definition stream_sent :: "('f, 'h) avb_stack \<Rightarrow> u32 list \<Rightarrow> avtp_tx_stream \<times> 'h \<Rightarrow> avtp_tx_stream \<times> 'h" where
  "stream_sent V ws s =
     (let (st, h) = s in
      if ak_connected st then (let (r, h) = av_send V (the (ak_handle st)) ws (ak_cur_batch_size st) h in (count_answer r st, h))
      else (st, h))"

text \<open>The streams one after the other, each with the samples that were there before the run.\<close>

definition streams_sent ::
  "'s audio_format \<Rightarrow> ('f, 'h) avb_stack \<Rightarrow> u32 \<Rightarrow> ('s, 'h) world \<Rightarrow> nat \<Rightarrow> avtp_tx_stream list \<times> 'h \<Rightarrow> avtp_tx_stream list \<times> 'h" where
  "streams_sent F V P w n s =
     for_upto n (\<lambda>i (sts, h). let (st, h) = stream_sent V (stream_words F P (sts ! i) w) (sts ! i, h) in (sts[i := st], h)) s"

definition tx_stream_ready :: "('s, 'h) world \<Rightarrow> avtp_tx_stream \<Rightarrow> bool" where
  "tx_stream_ready w st \<longleftrightarrow>
     length (ak_channel_buf st) = AVTP_CHANNEL_N \<and> list_all (\<lambda>i. i < length (bufs w)) (ak_channel_buf st) \<and>
     distinct (ak_channel_buf st) \<and> (ak_connected st \<longrightarrow> ak_handle st \<noteq> None) \<and>
     unat (ak_cur_batch_size st) \<le> 4 * AVTP_CHANNEL_N * PERIOD_MAX"

definition avtp_sink_ready :: "u32 \<Rightarrow> avtp_sink \<Rightarrow> ('s, 'h) world \<Rightarrow> bool" where
  "avtp_sink_ready P avtp w \<longleftrightarrow>
     world_ok P w \<and> unat P \<le> PERIOD_MAX \<and> unat (ka_stream_n avtp) \<le> length (ka_stream avtp) \<and>
     (\<forall>i < unat (ka_stream_n avtp). tx_stream_ready w (ka_stream avtp ! i) \<and>
        (\<forall>j < i. set (ak_channel_buf (ka_stream avtp ! j)) \<inter> set (ak_channel_buf (ka_stream avtp ! i)) = {}))"

text \<open>The conversion of the two channels of a stream, and the words the batch then holds.\<close>

lemma sink_convert_two:
  assumes "world_ok P w" and "a \<noteq> b" and "a < length (bufs w)" and "b < length (bufs w)"
  shows "for_upto AVTP_CHANNEL_N
      (\<lambda>i w. w\<lparr>smem := audio_convert_to F (smem w) (audio_buf_read_addr (bufs w ! ([a, b] ! i)) 0) P invert msk sh\<rparr>) w =
    w\<lparr>smem := \<lambda>x. if x \<in> read_slots P (bufs w ! a) \<union> read_slots P (bufs w ! b) then to_cell F invert msk sh (smem w x) else smem w x\<rparr>"
proof -
  have "read_slots P (bufs w ! a) \<inter> read_slots P (bufs w ! b) = {}"
    using read_slots_apart [OF assms(1,3,4,2)] read_slots_range [OF world_okD(1) [OF assms(1,3)]] by blast
  moreover have "audio_convert_to F m (audio_buf_read_addr c 0) P invert msk sh =
      (\<lambda>x. if x \<in> read_slots P c then to_cell F invert msk sh (m x) else m x)" for m c
    by (simp add: audio_convert_to_slots audio_buf_read_addr_def read_slots_def)
  ultimately show ?thesis
    by (auto simp: loop_simps fun_eq_iff intro!: world.equality split: if_splits)
qed

lemma read_word:
  assumes "buf_aligned P b" and "j < unat P"
  shows "audio_buf_read_uint32 (sample_bits F) m b (of_nat j) = cell_int32 F (read_block P m b ! j)"
proof -
  note al = buf_alignedD [OF assms(1)] and bd = buf_wf_bounds [OF buf_alignedD(1) [OF assms(1)]]
  have "unat (rd b + of_nat j) = unat (rd b) + j"
    using assms(2) al bd unat32_of_nat [of j] unat_add_small [of "rd b" "of_nat j"] by simp
  then show ?thesis
    using assms(2) by (simp add: audio_buf_read_uint32_def audio_buf_read_addr_def cell_int32_def read_block_def add.assoc)
qed

lemma interleave_cong:
  "(\<And>c j. c < 2 \<Longrightarrow> j < P \<Longrightarrow> ch c j = ch' c j) \<Longrightarrow> interleave P ch = interleave P ch'"
  by (induction P) (simp_all add: interleave_def)

definition streams_done ::
  "'s audio_format \<Rightarrow> ('f, 'h) avb_stack \<Rightarrow> u32 \<Rightarrow> avtp_sink \<Rightarrow> ('s, 'h) world \<Rightarrow> nat \<Rightarrow> avtp_sink \<times> ('s, 'h) world \<Rightarrow> bool" where
  "streams_done F V P avtp w k s \<longleftrightarrow>
     (let (avtp', w') = s; used = (\<Union>i \<in> {..<k}. set (ak_channel_buf (ka_stream avtp ! i))) in
      avtp' = avtp\<lparr>ka_stream := ka_stream avtp'\<rparr> \<and>
      (ka_stream avtp', hws w') = streams_sent F V P w k (ka_stream avtp, hws w) \<and>
      length (bufs w') = length (bufs w) \<and>
      (\<forall>j < length (bufs w). bufs w' ! j = (if j \<in> used then audio_buf_read_update (bufs w ! j) P else bufs w ! j)) \<and>
      (\<forall>x. (\<forall>j \<in> used. x \<notin> read_slots P (bufs w ! j)) \<longrightarrow> smem w' x = smem w x))"

lemma tx_stream_ready_channels:
  assumes "tx_stream_ready w st"
  obtains a b where "ak_channel_buf st = [a, b]" "a \<noteq> b" "a < length (bufs w)" "b < length (bufs w)"
proof -
  obtain a b where "ak_channel_buf st = [a, b]"
    using assms by (auto simp: tx_stream_ready_def numeral_2_eq_2 length_Suc_conv)
  with assms that show thesis by (auto simp: tx_stream_ready_def)
qed

text \<open>What one stream does, on samples and buffers of its own channels that are those of the beginning of the run.\<close>

lemma run_stream_spec:
  assumes ok: "world_ok P w" and P: "unat P \<le> PERIOD_MAX" and len: "length (bufs w') = length (bufs w)"
    and st: "ka_stream avtp ! i = st" "i < length (ka_stream avtp)" "tx_stream_ready w st"
    and keptb: "\<forall>j \<in> set (ak_channel_buf st). bufs w' ! j = bufs w ! j"
    and kept: "\<forall>j \<in> set (ak_channel_buf st). \<forall>x \<in> read_slots P (bufs w ! j). smem w' x = smem w x"
    and aligned: "world_ok P w'"
  shows "\<exists>w''. avtp_sink_run_stream F V P i (avtp, w') =
      Some (avtp\<lparr>ka_stream := (ka_stream avtp)[i := fst (stream_sent V (stream_words F P st w) (st, hws w'))]\<rparr>, w'') \<and>
    hws w'' = snd (stream_sent V (stream_words F P st w) (st, hws w')) \<and> length (bufs w'') = length (bufs w) \<and>
    (\<forall>j < length (bufs w). bufs w'' ! j = (if j \<in> set (ak_channel_buf st) then audio_buf_read_update (bufs w' ! j) P else bufs w' ! j)) \<and>
    (\<forall>x. (\<forall>j \<in> set (ak_channel_buf st). x \<notin> read_slots P (bufs w ! j)) \<longrightarrow> smem w'' x = smem w' x)"
proof -
  obtain a b where ab: "ak_channel_buf st = [a, b]" "a \<noteq> b" "a < length (bufs w)" "b < length (bufs w)"
    using st(3) by (rule tx_stream_ready_channels)
  have bs: "bufs w' ! a = bufs w ! a" "bufs w' ! b = bufs w ! b" using keptb ab by simp_all
  define m where "m = (if ak_convert st then
      (\<lambda>x. if x \<in> read_slots P (bufs w ! a) \<union> read_slots P (bufs w ! b)
           then to_cell F (ak_invert st) (ak_mask st) (unat (ak_shift st)) (smem w' x) else smem w' x) else smem w')"
  have conv: "(if ak_convert st then for_upto AVTP_CHANNEL_N
      (\<lambda>i w. w\<lparr>smem := audio_convert_to F (smem w) (audio_buf_read_addr (bufs w ! (ak_channel_buf st ! i)) 0) P
         (ak_invert st) (ak_mask st) (unat (ak_shift st))\<rparr>) w' else w') = w'\<lparr>smem := m\<rparr>"
    using sink_convert_two [OF aligned ab(2)] ab len bs by (simp add: m_def)
  have block: "read_block P m (bufs w ! c) ! j = sent_cell F st (read_block P (smem w) (bufs w ! c) ! j)"
    if "c \<in> {a, b}" "j < unat P" for c j
  proof -
    have "base (bufs w ! c) + unat (rd (bufs w ! c)) + j \<in> read_slots P (bufs w ! c)"
      using that(2) by (simp add: read_slots_def)
    then show ?thesis
      using that kept ab(1) by (auto simp: read_block_def m_def sent_cell_def)
  qed
  have al: "buf_aligned P (bufs w ! c)" if "c \<in> {a, b}" for c using that ab world_okD(1) [OF ok] by auto
  have chan: "[a, b] ! c \<in> {a, b}" "bufs w' ! ([a, b] ! c) = bufs w ! ([a, b] ! c)" if "c < 2" for c
    using that bs by (auto simp: less_Suc_eq numeral_2_eq_2)
  have batch: "sink_batch (sample_bits F) P m (bufs w') [a, b] = Some (stream_words F P st w)"
    unfolding sink_batch_words [OF P] stream_words_def ab(1)
    by (auto intro!: interleave_cong simp: read_word [OF al [OF chan(1)]] chan block [OF chan(1)])
  have same: "avtp\<lparr>ka_stream := (ka_stream avtp)[i := st]\<rparr> = avtp" using st(1) by auto
  show ?thesis
  proof (cases "ak_connected st")
    case False
    then show ?thesis
      using st(1,2) ab len same by (simp add: avtp_sink_run_stream_def stream_sent_def loop_simps)
  next
    case True
    then obtain hd where h: "ak_handle st = Some hd" using st(3) by (auto simp: tx_stream_ready_def)
    obtain r h1 where r: "av_send V hd (stream_words F P st w) (ak_cur_batch_size st) (hws w') = (r, h1)"
      by (meson surj_pair)
    have "length (stream_words F P st w) = AVTP_CHANNEL_N * PERIOD_MAX" using P by (simp add: stream_words_def)
    then have long: "\<not> 4 * length (stream_words F P st w) < unat (ak_cur_batch_size st)"
      using st(3) by (simp add: tx_stream_ready_def)
    have "map_option snd (talker_send F V i P (avtp, w')) =
        Some (avtp\<lparr>ka_stream := (ka_stream avtp)[i := count_answer r st]\<rparr>, w'\<lparr>smem := m, hws := h1\<rparr>)"
      unfolding talker_send_def Let_def prod.case st(1) conv
      using batch h r ab(1) long st(1) by (simp add: upd_tx_stream_def count_answer_def)
    then obtain c where "talker_send F V i P (avtp, w') =
        Some (c, avtp\<lparr>ka_stream := (ka_stream avtp)[i := count_answer r st]\<rparr>, w'\<lparr>smem := m, hws := h1\<rparr>)"
      by auto
    moreover have "stream_sent V (stream_words F P st w) (st, hws w') = (count_answer r st, h1)"
      using True h r by (simp add: stream_sent_def)
    moreover have "m x = smem w' x" if "\<forall>j \<in> {a, b}. x \<notin> read_slots P (bufs w ! j)" for x
      using that by (simp add: m_def)
    ultimately show ?thesis
      using True st(1,2) ab len by (simp add: avtp_sink_run_stream_def loop_simps)
  qed
qed

lemma streams_sent_Suc:
  "streams_sent F V P w (Suc k) s =
     (let (sts, h) = streams_sent F V P w k s; (st, h) = stream_sent V (stream_words F P (sts ! k) w) (sts ! k, h) in (sts[k := st], h))"
  by (simp add: streams_sent_def case_prod_beta)

lemma streams_sent_length [simp]: "length (fst (streams_sent F V P w k (sts, h))) = length sts"
  by (induction k) (simp_all add: streams_sent_Suc case_prod_beta Let_def, simp add: streams_sent_def)

lemma streams_sent_rest: "k \<le> i \<Longrightarrow> fst (streams_sent F V P w k (sts, h)) ! i = sts ! i"
  by (induction k) (simp_all add: streams_sent_Suc case_prod_beta Let_def, simp add: streams_sent_def)

lemma streams_done_world:
  assumes "streams_done F V P avtp w k (avtp', w')" and "world_ok P w"
  shows "world_ok P w'"
proof -
  have len: "length (bufs w') = length (bufs w)" using assms(1) by (simp add: streams_done_def)
  have "buf_aligned P (bufs w' ! j) \<and> base (bufs w' ! j) = base (bufs w ! j) \<and> bsize (bufs w' ! j) = bsize (bufs w ! j)"
    if "j < length (bufs w)" for j
    using assms(1) that world_okD(1) [OF assms(2) that] buf_aligned_update(2) by (auto simp: streams_done_def)
  then show ?thesis
    using assms(2) len by (auto simp: world_ok_def list_all_length buf_apart_def)
qed

lemma streams_done_step:
  assumes ready: "avtp_sink_ready P avtp w" and k: "k < unat (ka_stream_n avtp)"
    and so_far: "streams_done F V P avtp w k s"
  shows "\<exists>s'. avtp_sink_run_stream F V P k s = Some s' \<and> streams_done F V P avtp w (Suc k) s'"
proof -
  obtain avtp' w' where s: "s = (avtp', w')" by force
  let ?st = "ka_stream avtp ! k" and ?used = "\<Union>i \<in> {..<k}. set (ak_channel_buf (ka_stream avtp ! i))"
  have ok: "world_ok P w" and P: "unat P \<le> PERIOD_MAX" and st: "tx_stream_ready w ?st" and n: "k < length (ka_stream avtp)"
    and apart: "?used \<inter> set (ak_channel_buf ?st) = {}"
    using ready k by (auto simp: avtp_sink_ready_def)
  have inv: "avtp' = avtp\<lparr>ka_stream := ka_stream avtp'\<rparr>"
    "(ka_stream avtp', hws w') = streams_sent F V P w k (ka_stream avtp, hws w)"
    "length (bufs w') = length (bufs w)"
    "\<forall>j < length (bufs w). bufs w' ! j = (if j \<in> ?used then audio_buf_read_update (bufs w ! j) P else bufs w ! j)"
    "\<forall>x. (\<forall>j \<in> ?used. x \<notin> read_slots P (bufs w ! j)) \<longrightarrow> smem w' x = smem w x"
    using so_far by (simp_all add: s streams_done_def)
  have l: "length (ka_stream avtp') = length (ka_stream avtp)" "ka_stream avtp' ! k = ?st"
    using inv(2) streams_sent_length streams_sent_rest by (metis fst_conv order_refl)+
  have chan: "j < length (bufs w)" "j \<notin> ?used" if "j \<in> set (ak_channel_buf ?st)" for j
    using that st apart by (auto simp: tx_stream_ready_def list_all_iff)
  have usedb: "j < length (bufs w)" if used: "j \<in> ?used" for j
  proof -
    obtain i where "i < k" and "j \<in> set (ak_channel_buf (ka_stream avtp ! i))" using used by auto
    moreover have "tx_stream_ready w (ka_stream avtp ! i)" if "i < k" for i
      using ready k that by (simp add: avtp_sink_ready_def)
    ultimately show ?thesis by (auto simp: tx_stream_ready_def list_all_iff)
  qed
  have keptb: "bufs w' ! j = bufs w ! j" if "j \<in> set (ak_channel_buf ?st)" for j
    using inv(4) chan [OF that] by simp
  have kept: "smem w' x = smem w x" if "j \<in> set (ak_channel_buf ?st)" "x \<in> read_slots P (bufs w ! j)" for j x
  proof -
    have "x \<in> buf_range (bufs w ! j)" using that read_slots_range world_okD(1) [OF ok] chan by blast
    then have "\<forall>i \<in> ?used. x \<notin> read_slots P (bufs w ! i)"
      using read_slots_apart [OF ok chan(1) [OF that(1)]] usedb chan(2) [OF that(1)] by blast
    then show ?thesis using inv(5) by blast
  qed
  have keptb': "\<forall>j \<in> set (ak_channel_buf ?st). bufs w' ! j = bufs w ! j"
    and kept': "\<forall>j \<in> set (ak_channel_buf ?st). \<forall>x \<in> read_slots P (bufs w ! j). smem w' x = smem w x"
    using keptb kept by blast+
  obtain w'' where run: "avtp_sink_run_stream F V P k (avtp', w') =
      Some (avtp'\<lparr>ka_stream := (ka_stream avtp')[k := fst (stream_sent V (stream_words F P ?st w) (?st, hws w'))]\<rparr>, w'')"
    and w'': "hws w'' = snd (stream_sent V (stream_words F P ?st w) (?st, hws w'))" "length (bufs w'') = length (bufs w)"
      "\<forall>j < length (bufs w). bufs w'' ! j = (if j \<in> set (ak_channel_buf ?st) then audio_buf_read_update (bufs w' ! j) P else bufs w' ! j)"
      "\<forall>x. (\<forall>j \<in> set (ak_channel_buf ?st). x \<notin> read_slots P (bufs w ! j)) \<longrightarrow> smem w'' x = smem w' x"
    using run_stream_spec [OF ok P inv(3) l(2) n [folded l(1)] st keptb' kept' streams_done_world [OF so_far [unfolded s] ok],
      where V = V and F = F] by blast
  have u: "(\<Union>i \<in> {..<Suc k}. set (ak_channel_buf (ka_stream avtp ! i))) = ?used \<union> set (ak_channel_buf ?st)"
    by (auto simp: less_Suc_eq)
  have "avtp'\<lparr>ka_stream := sts\<rparr> = avtp\<lparr>ka_stream := sts\<rparr>" for sts
    by (subst inv(1)) simp
  moreover have "((ka_stream avtp')[k := fst (stream_sent V (stream_words F P ?st w) (?st, hws w'))], hws w'') =
      streams_sent F V P w (Suc k) (ka_stream avtp, hws w)"
    using l(2) w''(1) by (simp add: streams_sent_Suc inv(2) [symmetric] case_prod_beta Let_def)
  moreover have "bufs w'' ! j = (if j \<in> ?used \<union> set (ak_channel_buf ?st) then audio_buf_read_update (bufs w ! j) P else bufs w ! j)"
    if "j < length (bufs w)" for j
    using that w''(3) inv(4) keptb chan(2) [of j] by auto
  moreover have "smem w'' x = smem w x" if "\<forall>j \<in> ?used \<union> set (ak_channel_buf ?st). x \<notin> read_slots P (bufs w ! j)" for x
    using that w''(4) inv(5) by (metis UnI1 UnI2)
  ultimately show ?thesis
    unfolding s run streams_done_def u using w''(2) by simp
qed

text \<open>
  C34. A ready network sink always completes its run. Every connected stream sends one batch: one period of its two channels,
  interleaved, each sample converted as its stream asks from what the buffer held before the run, padded with zeros to the
  size of the array; the answer of the stack counts in exactly one counter of the stream. Every channel of every stream, connected
  or not, is advanced by a period; the other buffers and the memory outside the channels' periods are as they were.
\<close>

theorem avtp_sink_sends:
  assumes "avtp_sink_ready (el_period el) avtp w"
  shows "\<exists>s. avtp_sink_element_run F V el avtp w = Some (0, s) \<and>
    streams_done F V (el_period el) avtp w (unat (ka_stream_n avtp)) s"
proof -
  have "streams_done F V (el_period el) avtp w 0 (avtp, w)"
    by (simp add: streams_done_def streams_sent_def)
  with streams_done_step [OF assms] have "\<exists>s. for_upto_opt (unat (ka_stream_n avtp)) (avtp_sink_run_stream F V (el_period el)) (avtp, w) = Some s \<and>
      streams_done F V (el_period el) avtp w (unat (ka_stream_n avtp)) s"
    by (intro for_upto_opt_invariant) blast+
  then show ?thesis by (auto simp: avtp_sink_element_run_def)
qed

text \<open>A sink with its first stream connected.\<close>

definition demo_tx_stream :: avtp_tx_stream where
  "demo_tx_stream = zeroed_tx_stream\<lparr>ak_connected := True, ak_handle := Some 1, ak_cur_batch_size := 16, ak_channel_buf := [0, 2],
     ak_convert := True, ak_mask := 0xffffffff\<rparr>"

definition demo_avtp_sink :: avtp_sink where
  "demo_avtp_sink = \<lparr>ka_stream_n = 1, ka_stream = [demo_tx_stream, zeroed_tx_stream], ka_in_n = 4, ka_in = [0, 2, 1, 1],
     ka_genavb_h = Some 0, ka_clock_domain = 0\<rparr>"

definition demo_avtp_element :: audio_element where
  "demo_avtp_element = \<lparr>el_type = AUDIO_ELEMENT_AVTP_SINK, el_sample_rate = 48000, el_period = 2, el_id = 0\<rparr>"

lemma demo_avtp_ready: "avtp_sink_ready 2 demo_avtp_sink (demo_world h)"
  using demo_world_ok
  by (simp add: avtp_sink_ready_def tx_stream_ready_def demo_avtp_sink_def demo_tx_stream_def demo_world_def)

lemma demo_stream_words:
  "take 4 (stream_words int_format 2 demo_tx_stream (demo_world h)) = [0, 8, 1, 9]"
  by (simp add: stream_words_def interleave_def upt_rec sent_cell_def demo_tx_stream_def demo_world_def read_block_def
      to_cell_def zeroed_tx_stream_def Let_def)

theorem avtp_sink_sends_witness:
  "\<exists>avtp w. avtp_sink_element_run int_format demo_stack demo_avtp_element demo_avtp_sink (demo_world []) = Some (0, avtp, w) \<and>
     hws w = [[0, 8, 1, 9]] \<and> ak_sent (ka_stream avtp ! 0) = 1 \<and> rd (bufs w ! 2) = 2"
proof -
  have P: "el_period demo_avtp_element = 2" by (simp add: demo_avtp_element_def)
  obtain avtp w where
    run: "avtp_sink_element_run int_format demo_stack demo_avtp_element demo_avtp_sink (demo_world []) = Some (0, avtp, w)"
    and sent: "streams_done int_format demo_stack 2 demo_avtp_sink (demo_world []) (unat (ka_stream_n demo_avtp_sink)) (avtp, w)"
    using avtp_sink_sends [where el = demo_avtp_element and avtp = demo_avtp_sink and w = "demo_world []"
        and F = int_format and V = demo_stack] demo_avtp_ready [of "[]"] unfolding P by auto
  have "(ka_stream avtp, hws w) = streams_sent int_format demo_stack 2 (demo_world []) (Suc 0) (ka_stream demo_avtp_sink, [])"
    using sent by (simp add: streams_done_def demo_avtp_sink_def demo_world_def Let_def)
  also have "\<dots> = ([count_answer 16 demo_tx_stream, zeroed_tx_stream], [[0, 8, 1, 9]])"
    using demo_stream_words [of "[]"]
    by (simp add: streams_sent_def stream_sent_def demo_avtp_sink_def demo_stack_def) (simp add: demo_tx_stream_def)
  finally have "(ka_stream avtp, hws w) = ([count_answer 16 demo_tx_stream, zeroed_tx_stream], [[0, 8, 1, 9]])" .
  moreover have "bufs w ! 2 = audio_buf_read_update (demo_slot 8 4) 2"
    using sent by (simp add: streams_done_def demo_avtp_sink_def demo_tx_stream_def demo_world_def Let_def)
  then have "rd (bufs w ! 2) = 2" by (simp add: audio_buf_read_update_def demo_slot_def)
  ultimately show ?thesis
    using run by (auto simp: count_answer_def demo_tx_stream_def zeroed_tx_stream_def word_sless_alt)
qed

text \<open>
  The bound on the stream of a command admits the number of streams itself: with two streams a command for the third reaches
  beyond the array.
\<close>

lemma avtp_sink_ctrl_beyond:
  assumes "el_type el = AUDIO_ELEMENT_AVTP_SINK" and "vm_type cmd = AUDIO_CMD_TYPE_ELEMENT_AVTP_SINK_DISCONNECT"
    and "vm_stream_index cmd = 2" and "ka_stream_n avtp = 2" and "length (ka_stream avtp) = AVTP_STREAM_N"
  shows "avtp_sink_element_ctrl V Z (Some (el, avtp)) cmd (vz_disconnect Z) c h = None"
  using assms by (simp add: avtp_sink_element_ctrl_def avtp_sink_disconnect_def)

end
