(* ===== verification/Audio_Avtp_Source.thy ===== *)
theory Audio_Avtp_Source
  imports Audio_Avtp
begin

text \<open>
  The network source, \<open>audio/audio_element_avtp_source.c\<close>: receives one batch for every connected stream and spreads it over the
  stream's channels, converted to samples; plays silence when a batch is missing, and aligns the playback with the timestamps
  of the stream when it starts.
\<close>

section \<open>State\<close>

text \<open>Single precision arithmetic of the target: conversions of 32-bit words, the operations and \<open>ceilf\<close>.\<close>

record 'r avtp_float =
  vf_of_u32 :: "u32 \<Rightarrow> 'r"
  vf_to_u32 :: "'r \<Rightarrow> u32"
  vf_sub :: "'r \<Rightarrow> 'r \<Rightarrow> 'r"
  vf_mul :: "'r \<Rightarrow> 'r \<Rightarrow> 'r"
  vf_div :: "'r \<Rightarrow> 'r \<Rightarrow> 'r"
  vf_ceil :: "'r \<Rightarrow> 'r"

record 'r avtp_rx_stream =
  ar_connected :: bool
  ar_connection_flags :: u32
  ar_sr_class :: u32
  ar_handle :: "nat option"
  ar_cur_batch_size :: u32
  ar_sample_size :: u32
  ar_channel_buf :: "nat list"
  ar_err :: u32
  ar_clock_err :: u32
  ar_sync_err :: u32
  ar_ts_err :: u32
  ar_event_err :: u32
  ar_start_underflow :: u32
  ar_underflow :: u32
  ar_received :: u32
  ar_first_start :: bool
  ar_sample_dt :: 'r
  ar_convert :: bool
  ar_invert :: bool
  ar_shift :: u32
  ar_mask :: u32

record 'r avtp_source =
  ra_stream_n :: u32
  ra_stream :: "'r avtp_rx_stream list"
  ra_out_n :: u32
  ra_out :: "nat list"
  ra_genavb_h :: "nat option"
  ra_clock_domain :: u32

definition upd_rx_stream :: "nat \<Rightarrow> ('r avtp_rx_stream \<Rightarrow> 'r avtp_rx_stream) \<Rightarrow> 'r avtp_source \<Rightarrow> 'r avtp_source" where
  "upd_rx_stream i f avtp = avtp\<lparr>ra_stream := (ra_stream avtp)[i := f (ra_stream avtp ! i)]\<rparr>"

section \<open>Connection\<close>

definition avtp_source_connect ::
  "'r avtp_float \<Rightarrow> ('f, 'h) avb_stack \<Rightarrow> audio_element \<Rightarrow> nat \<Rightarrow> 'f stream_params \<Rightarrow> 'r avtp_source \<times> 'h \<Rightarrow>
     ('r avtp_source \<times> 'h) option" where
  "avtp_source_connect R V el stream_index params s =
     (let (avtp, h) = s; stream = ra_stream avtp ! stream_index; format = sp_format params in
      if \<not> stream_index < length (ra_stream avtp) then None
      else if ar_connected stream then Some (avtp, h)
      else case ra_genavb_h avtp of
        None \<Rightarrow> Some (avtp, h)
      | Some genavb_h \<Rightarrow>
          (case (if av_is_aaf_pcm V format then Some (True, 0, 0xffffff00)
                 else if av_is_61883_6 V format then Some (True, 8, 0x00ffffff) else None) of
             None \<Rightarrow> Some (avtp, h)
           | Some (invert, shift, msk) \<Rightarrow>
               if av_channels_per_sample V format > of_nat AVTP_CHANNEL_N then Some (avtp, h)
               else if av_sample_rate V format \<noteq> el_sample_rate el then Some (avtp, h)
               else
                 (let stream = stream\<lparr>ar_convert := True, ar_invert := invert, ar_shift := shift, ar_mask := msk,
                                      ar_sample_dt := vf_div R (vf_of_u32 R 1000000000) (vf_of_u32 R (el_sample_rate el)),
                                      ar_sample_size := av_sample_size V format,
                                      ar_cur_batch_size := el_period el * av_sample_size V format\<rparr>;
                      packet = av_samples_per_packet V format (sp_stream_class params);
                      cur_batch_size = (if el_period el < packet then packet * av_sample_size V format else ar_cur_batch_size stream);
                      params = params\<lparr>sp_flags := ar_connection_flags stream\<rparr>;
                      stream = stream\<lparr>ar_sr_class := sp_stream_class params\<rparr>;
                      params = (if ra_clock_domain avtp \<noteq> av_default_domain V then params\<lparr>sp_clock_domain := ra_clock_domain avtp\<rparr> else params)
                  in case av_create V genavb_h params cur_batch_size h of
                       (None, h) \<Rightarrow> Some (upd_rx_stream stream_index (\<lambda>_. stream\<lparr>ar_cur_batch_size := 0\<rparr>) avtp, h)
                     | (Some handle, h) \<Rightarrow>
                         Some (upd_rx_stream stream_index
                           (\<lambda>_. stream\<lparr>ar_handle := Some handle, ar_first_start := True, ar_connected := True\<rparr>) avtp, h))))"

definition avtp_source_set_handle :: "nat option \<Rightarrow> 'r avtp_source \<Rightarrow> 'r avtp_source" where
  "avtp_source_set_handle genavb_h avtp = avtp\<lparr>ra_genavb_h := genavb_h\<rparr>"

definition avtp_source_disconnect :: "('f, 'h) avb_stack \<Rightarrow> nat \<Rightarrow> 'r avtp_source \<times> 'h \<Rightarrow> ('r avtp_source \<times> 'h) option" where
  "avtp_source_disconnect V stream_index s =
     (let (avtp, h) = s; stream = ra_stream avtp ! stream_index in
      if \<not> stream_index < length (ra_stream avtp) then None
      else if \<not> ar_connected stream then Some (avtp, h)
      else case ar_handle stream of
        None \<Rightarrow> None
      | Some handle \<Rightarrow>
          Some (upd_rx_stream stream_index (\<lambda>stream. stream\<lparr>ar_connected := False, ar_handle := None\<rparr>) avtp, av_destroy V handle h))"

definition avtp_source_element_response :: "bool \<Rightarrow> u32 \<Rightarrow> response list" where
  "avtp_source_element_response ctrl_handle status = (if ctrl_handle then [(AUDIO_RESP_TYPE_ELEMENT_AVTP, status)] else [])"

definition avtp_source_element_ctrl ::
  "'r avtp_float \<Rightarrow> ('f, 'h) avb_stack \<Rightarrow> avtp_sizes \<Rightarrow> (audio_element \<times> 'r avtp_source) option \<Rightarrow> 'f avtp_cmd \<Rightarrow> u32 \<Rightarrow> bool \<Rightarrow> 'h \<Rightarrow>
     (int \<times> 'r avtp_source option \<times> response list \<times> 'h) option" where
  "avtp_source_element_ctrl R V Z element cmd len ctrl_handle h =
     (let err = Some (- 1, map_option snd element, avtp_source_element_response ctrl_handle AUDIO_RESP_STATUS_ERROR, h);
          ok = (\<lambda>(avtp, h). (0, Some avtp, avtp_source_element_response ctrl_handle AUDIO_RESP_STATUS_SUCCESS, h))
      in case element of
           None \<Rightarrow> err
         | Some (el, avtp) \<Rightarrow>
             if el_type el \<noteq> AUDIO_ELEMENT_AVTP_SOURCE then err
             else if vm_type cmd = AUDIO_CMD_TYPE_ELEMENT_AVTP_SOURCE_CONNECT then
               (if len \<noteq> vz_connect Z then err
                else if vm_stream_index cmd \<ge> ra_stream_n avtp + 1 then err
                else map_option ok (avtp_source_connect R V el (unat (vm_stream_index cmd)) (vm_params cmd) (avtp, h)))
             else if vm_type cmd = AUDIO_CMD_TYPE_ELEMENT_AVTP_SOURCE_DISCONNECT then
               (if len \<noteq> vz_disconnect Z then err
                else if vm_stream_index cmd \<ge> ra_stream_n avtp + 1 then err
                else map_option ok (avtp_source_disconnect V (unat (vm_stream_index cmd)) (avtp, h)))
             else if vm_type cmd = AUDIO_CMD_TYPE_ELEMENT_AVTP_SOURCE_SET_HANDLE then
               (if len \<noteq> vz_set_handle Z then err
                else Some (ok (avtp_source_set_handle (vm_genavb_h cmd) avtp, h)))
             else err)"

section \<open>Receiving\<close>

abbreviation (input) GENAVB_PROCESSING_TIME_NS :: u32 where "GENAVB_PROCESSING_TIME_NS \<equiv> 1000000"
abbreviation (input) AUDIO_PIPELINE_AVB_MAX_BUFFER_SIZE :: u32 where "AUDIO_PIPELINE_AVB_MAX_BUFFER_SIZE \<equiv> 256"
abbreviation (input) MAX_EVENTS :: nat where "MAX_EVENTS \<equiv> 12"

definition listener_timestamp_accept :: "('f, 'h) avb_stack \<Rightarrow> u32 \<Rightarrow> u32 \<Rightarrow> u32 \<Rightarrow> bool" where
  "listener_timestamp_accept V ts now sr_class \<longleftrightarrow>
     av_after V (ts + GENAVB_PROCESSING_TIME_NS) now \<and> av_before V ts (now + av_transit V sr_class + av_uncertainty V sr_class)"

text \<open>
  The events of the first batch: the first one with a valid timestamp, unless some valid timestamp is out of bounds. Their
  positions are divided by the sample size.
\<close>

datatype event_scan = Scan_trap | Scan_rejected | Scanned "avb_event option"

fun listener_events ::
  "'r avtp_float \<Rightarrow> ('f, 'h) avb_stack \<Rightarrow> 'r avtp_rx_stream \<Rightarrow> u32 \<Rightarrow> avb_event list \<Rightarrow> avb_event option \<Rightarrow> event_scan" where
  "listener_events R V stream now [] event_ts = Scanned event_ts"
| "listener_events R V stream now (event # events) event_ts =
     (if av_invalid event then listener_events R V stream now events event_ts
      else if ar_sample_size stream = 0 then Scan_trap
      else
        (let ts = av_ts event - (av_index event div ar_sample_size stream) * vf_to_u32 R (ar_sample_dt stream) in
         if \<not> listener_timestamp_accept V ts now (ar_sr_class stream) then Scan_rejected
         else listener_events R V stream now events (if event_ts = None then Some event else event_ts)))"

definition listener_periods_to_wait :: "'r avtp_float \<Rightarrow> 'r avtp_rx_stream \<Rightarrow> u32 \<Rightarrow> u32 \<Rightarrow> avb_event \<Rightarrow> u32" where
  "listener_periods_to_wait R stream period now event =
     (let tmp = vf_of_u32 R (av_ts event + GENAVB_PROCESSING_TIME_NS - now);
          tmp = vf_sub R tmp (vf_mul R (vf_div R (vf_of_u32 R (av_index event)) (vf_of_u32 R (ar_sample_size stream))) (ar_sample_dt stream));
          tmp = vf_div R tmp (vf_mul R (vf_of_u32 R period) (ar_sample_dt stream))
      in vf_to_u32 R (vf_ceil R tmp))"

text \<open>
  Receiving with a null handle or into more than the array is a trap. The start of a stream and the later receptions leave with
  the received data, or with \<open>None\<close> at \<open>goto exit\<close>.
\<close>

definition listener_stream_receive ::
  "('f, 'h) avb_stack \<Rightarrow> 'r avtp_rx_stream \<Rightarrow> ('s, 'h) world \<Rightarrow> (avb_answer \<times> ('s, 'h) world) option" where
  "listener_stream_receive V stream w =
     do {
       handle \<leftarrow> ar_handle stream;
       (if unat (ar_cur_batch_size stream) > 4 * (AVTP_CHANNEL_N * PERIOD_MAX) then None
        else (let (a, h) = av_receive V handle (ar_cur_batch_size stream) (hws w) in Some (a, w\<lparr>hws := h\<rparr>)))
     }"

definition listener_start ::
  "'r avtp_float \<Rightarrow> ('f, 'h) avb_stack \<Rightarrow> u32 \<Rightarrow> 'r avtp_rx_stream \<Rightarrow> ('s::zero, 'h) world \<Rightarrow>
     ((nat \<Rightarrow> u32) option \<times> 'r avtp_rx_stream \<times> ('s, 'h) world) option" where
  "listener_start R V period stream w =
     do {
       (a, w) \<leftarrow> listener_stream_receive V stream w;
       (if av_bytes a <s 0 then Some (None, stream\<lparr>ar_sync_err := ar_sync_err stream + 1, ar_first_start := True\<rparr>, w)
        else if av_bytes a < ar_cur_batch_size stream then
          Some (None, stream\<lparr>ar_start_underflow := ar_start_underflow stream + 1, ar_first_start := True\<rparr>, w)
        else case av_clock V (hws w) of
          None \<Rightarrow> Some (None, stream\<lparr>ar_clock_err := ar_clock_err stream + 1\<rparr>, w)
        | Some time \<Rightarrow>
            let now = ucast time in
            if length (av_events a) > MAX_EVENTS then None
            else case listener_events R V stream now (av_events a) None of
              Scan_trap \<Rightarrow> None
            | Scan_rejected \<Rightarrow> Some (None, stream\<lparr>ar_ts_err := ar_ts_err stream + 1\<rparr>, w)
            | Scanned None \<Rightarrow> Some (None, stream\<lparr>ar_event_err := ar_event_err stream + 1\<rparr>, w)
            | Scanned (Some event) \<Rightarrow>
                let periods_to_wait = listener_periods_to_wait R stream period now event in
                if periods_to_wait \<ge> AUDIO_PIPELINE_AVB_MAX_BUFFER_SIZE - 2 then
                  Some (None, stream\<lparr>ar_sync_err := ar_sync_err stream + 1\<rparr>, w)
                else
                  let w = for_upto AVTP_CHANNEL_N (\<lambda>i. on_buf (ar_channel_buf stream ! i) audio_buf_reset) w;
                      w = for_upto AVTP_CHANNEL_N
                            (\<lambda>j. on_buf (ar_channel_buf stream ! j) (\<lambda>s. audio_buf_write_silence s (periods_to_wait * period))) w
                  in Some (Some (av_data a), stream\<lparr>ar_first_start := False\<rparr>, w))
     }"

definition listener_next ::
  "('f, 'h) avb_stack \<Rightarrow> 'r avtp_rx_stream \<Rightarrow> ('s, 'h) world \<Rightarrow> ((nat \<Rightarrow> u32) option \<times> 'r avtp_rx_stream \<times> ('s, 'h) world) option" where
  "listener_next V stream w =
     do {
       (a, w) \<leftarrow> listener_stream_receive V stream w;
       (if av_bytes a <s 0 then Some (None, stream\<lparr>ar_err := ar_err stream + 1, ar_first_start := True\<rparr>, w)
        else if av_bytes a < ar_cur_batch_size stream then
          Some (None, stream\<lparr>ar_underflow := ar_underflow stream + 1, ar_first_start := True\<rparr>, w)
        else Some (Some (av_data a), stream, w))
     }"

text \<open>
  Spreading the received words over the channels; reading beyond the array is a trap. The array is read for both channels
  whatever the batch held: its words beyond the received bytes, of a format with one channel, are what the stack had there,
  and \<open>av_data\<close> is arbitrary at them.
\<close>

definition listener_spread :: "u32 \<Rightarrow> (nat \<Rightarrow> u32) \<Rightarrow> nat list \<Rightarrow> ('s, 'h) world \<Rightarrow> ('s, 'h) world option" where
  "listener_spread period data channels w =
     map_option (\<lambda>(m, k). w\<lparr>smem := m\<rparr>)
       (for_upto_opt (unat period)
          (\<lambda>j. for_upto_opt AVTP_CHANNEL_N
             (\<lambda>i (m, k). if k < AVTP_CHANNEL_N * PERIOD_MAX
                then Some (audio_buf_write_uint32 m (bufs w ! (channels ! i)) (of_nat j) (data k), k + 1) else None))
          (smem w, 0))"

definition listener_receive ::
  "'s audio_format \<Rightarrow> 'r avtp_float \<Rightarrow> ('f, 'h) avb_stack \<Rightarrow> nat \<Rightarrow> u32 \<Rightarrow> 'r avtp_source \<times> ('s::zero, 'h) world \<Rightarrow>
     (int \<times> 'r avtp_source \<times> ('s, 'h) world) option" where
  "listener_receive F R V stream_index period s =
     (let (avtp, w) = s; stream = ra_stream avtp ! stream_index in
      do {
        (data, stream, w) \<leftarrow> (if ar_first_start stream then listener_start R V period stream w else listener_next V stream w);
        (case data of
           None \<Rightarrow> Some (- 1, upd_rx_stream stream_index (\<lambda>_. stream) avtp, w)
         | Some data \<Rightarrow>
             do {
               w \<leftarrow> listener_spread period data (ar_channel_buf stream) w;
               Some (0, upd_rx_stream stream_index (\<lambda>_. stream\<lparr>ar_received := ar_received stream + 1\<rparr>) avtp,
                 if ar_convert stream then
                   for_upto AVTP_CHANNEL_N
                     (\<lambda>i w. w\<lparr>smem := audio_convert_from F (smem w) (audio_buf_write_addr (bufs w ! (ar_channel_buf stream ! i)) 0) period
                                       (ar_invert stream) (ar_mask stream) (unat (ar_shift stream))\<rparr>) w
                 else w)
             })
      })"

definition avtp_source_run_stream ::
  "'s audio_format \<Rightarrow> 'r avtp_float \<Rightarrow> ('f, 'h) avb_stack \<Rightarrow> u32 \<Rightarrow> nat \<Rightarrow> 'r avtp_source \<times> ('s::zero, 'h) world \<Rightarrow>
     ('r avtp_source \<times> ('s, 'h) world) option" where
  "avtp_source_run_stream F R V period i s =
     (let stream = ra_stream (fst s) ! i in
      if \<not> i < length (ra_stream (fst s)) then None
      else do {
        (ret, avtp, w) \<leftarrow> (if ar_connected stream then listener_receive F R V i period s else Some (- 1, s));
        Some (avtp,
          if ret = 0 then for_upto AVTP_CHANNEL_N (\<lambda>j. buf_upd (ar_channel_buf stream ! j) (\<lambda>b. audio_buf_write_update b period)) w
          else for_upto AVTP_CHANNEL_N (\<lambda>j. on_buf (ar_channel_buf stream ! j) (\<lambda>s. audio_buf_write_silence s period)) w)
      })"

definition avtp_source_element_run ::
  "'s audio_format \<Rightarrow> 'r avtp_float \<Rightarrow> ('f, 'h) avb_stack \<Rightarrow> audio_element \<Rightarrow> 'r avtp_source \<Rightarrow> ('s::zero, 'h) world \<Rightarrow>
     (int \<times> 'r avtp_source \<times> ('s, 'h) world) option" where
  "avtp_source_element_run F R V el avtp w =
     map_option (\<lambda>(avtp, w). (0, avtp, w)) (for_upto_opt (unat (ra_stream_n avtp)) (avtp_source_run_stream F R V (el_period el)) (avtp, w))"

section \<open>The rest of the life of the element\<close>

text \<open>
  Emptying a stream: receive until the answer is zero; any other answer, an error included, is another turn. The loop may run for
  ever; then the result is \<open>None\<close>, as for a reception into too small an array.
\<close>

partial_function (option) avtp_source_drain :: "('f, 'h) avb_stack \<Rightarrow> nat \<Rightarrow> u32 \<Rightarrow> 'h \<Rightarrow> 'h option" where
  "avtp_source_drain V handle batch h =
     (if unat batch > 4 * (AVTP_CHANNEL_N * PERIOD_MAX) then None
      else
        (let (a, h) = av_receive V handle batch h in
         if av_bytes a \<noteq> 0 then avtp_source_drain V handle batch h else Some h))"

text \<open>\<open>read_bytes\<close> is zero before the first stream and after each one, so a stream without handle is passed.\<close>

definition avtp_source_reset_stream ::
  "('f, 'h) avb_stack \<Rightarrow> nat \<Rightarrow> 'r avtp_source \<times> ('s, 'h) world \<Rightarrow> ('r avtp_source \<times> ('s, 'h) world) option" where
  "avtp_source_reset_stream V i s =
     (let (avtp, w) = s; avtp = upd_rx_stream i (\<lambda>stream. stream\<lparr>ar_first_start := True\<rparr>) avtp; stream = ra_stream avtp ! i in
      if \<not> i < length (ra_stream avtp) then None
      else case ar_handle stream of
        None \<Rightarrow> Some (avtp, w)
      | Some handle \<Rightarrow> map_option (\<lambda>h. (avtp, w\<lparr>hws := h\<rparr>)) (avtp_source_drain V handle (ar_cur_batch_size stream) (hws w)))"

definition avtp_source_element_reset ::
  "('f, 'h) avb_stack \<Rightarrow> 'r avtp_source \<Rightarrow> ('s::zero, 'h) world \<Rightarrow> ('r avtp_source \<times> ('s, 'h) world) option" where
  "avtp_source_element_reset V avtp w =
     map_option (\<lambda>(avtp, w). (avtp, for_upto (unat (ra_out_n avtp)) (\<lambda>i. on_buf (ra_out avtp ! i) audio_buf_reset) w))
       (for_upto_opt (unat (ra_stream_n avtp)) (avtp_source_reset_stream V) (avtp, w))"

definition avtp_source_element_exit :: "('f, 'h) avb_stack \<Rightarrow> 'r avtp_source \<times> 'h \<Rightarrow> ('r avtp_source \<times> 'h) option" where
  "avtp_source_element_exit V s = for_upto_opt (unat (ra_stream_n (fst s))) (avtp_source_disconnect V) s"

definition avtp_source_element_check_config :: "avtp_config \<Rightarrow> int" where
  "avtp_source_element_check_config config =
     (if vg_inputs config \<noteq> 0 then - 1
      else if vg_outputs config \<noteq> of_nat (AVTP_STREAM_N * AVTP_CHANNEL_N) then - 1
      else if vg_stream_n config > of_nat AVTP_STREAM_N then - 1
      else 0)"

definition zeroed_rx_stream :: "'r \<Rightarrow> 'r avtp_rx_stream" where
  "zeroed_rx_stream z = \<lparr>ar_connected = False, ar_connection_flags = 0, ar_sr_class = 0, ar_handle = None, ar_cur_batch_size = 0, ar_sample_size = 0,
     ar_channel_buf = [], ar_err = 0, ar_clock_err = 0, ar_sync_err = 0, ar_ts_err = 0, ar_event_err = 0, ar_start_underflow = 0,
     ar_underflow = 0, ar_received = 0, ar_first_start = False, ar_sample_dt = z, ar_convert = False, ar_invert = False, ar_shift = 0,
     ar_mask = 0\<rparr>"

text \<open>\<open>mutex\<close> tells whether the mutex is initialised; the memory of the element is zero, \<open>z\<close> as a floating point number.\<close>

definition avtp_source_element_init ::
  "bool \<Rightarrow> 'r \<Rightarrow> audio_element \<Rightarrow> avtp_config \<Rightarrow> ('s, 'h) world \<Rightarrow> int \<times> 'r avtp_source option \<times> ('s, 'h) world" where
  "avtp_source_element_init mutex z el config w =
     (if \<not> mutex then (- 1, None, w)
      else
        (let avtp = \<lparr>ra_stream_n = vg_stream_n config, ra_stream = replicate AVTP_STREAM_N (zeroed_rx_stream z),
                     ra_out_n = of_nat (AVTP_STREAM_N * AVTP_CHANNEL_N), ra_out = [], ra_genavb_h = None, ra_clock_domain = vg_clock_domain config\<rparr>;
             (avtp, w) = for_upto (unat (vg_stream_n config))
               (\<lambda>i (avtp, w).
                  (upd_rx_stream i (\<lambda>st. st\<lparr>ar_connected := False, ar_connection_flags := vg_flags config i,
                     ar_channel_buf := map (\<lambda>j. unat (vg_output config (2 * i + j))) [0..<AVTP_CHANNEL_N]\<rparr>) avtp,
                   for_upto AVTP_CHANNEL_N (\<lambda>j. buf_upd (unat (vg_output config (2 * i + j))) (set_input el (of_nat (2 * i + j)))) w)) (avtp, w)
         in (0, Some (avtp\<lparr>ra_out := map (\<lambda>i. unat (vg_output config i)) [0..<AVTP_STREAM_N * AVTP_CHANNEL_N]\<rparr>), w)))"

section \<open>Spreading a batch\<close>

text \<open>The block a channel gets from a batch.\<close>

definition received_cell :: "'s audio_format \<Rightarrow> 'r avtp_rx_stream \<Rightarrow> u32 \<Rightarrow> 's cell" where
  "received_cell F st v =
     (if ar_convert st then from_cell F (ar_invert st) (ar_mask st) (unat (ar_shift st)) (Raw v) else Raw v)"

definition received_block :: "'s audio_format \<Rightarrow> 'r avtp_rx_stream \<Rightarrow> u32 \<Rightarrow> (nat \<Rightarrow> u32) \<Rightarrow> nat \<Rightarrow> 's cell list" where
  "received_block F st P data c = map (\<lambda>j. received_cell F st (data (2 * j + c))) [0..<unat P]"

lemma listener_spread_words:
  assumes ok: "world_ok P w" and P: "unat P \<le> PERIOD_MAX" and ab: "a \<noteq> b" "a < length (bufs w)" "b < length (bufs w)"
  shows "\<exists>m. listener_spread P data [a, b] w = Some (w\<lparr>smem := m\<rparr>) \<and>
    (\<forall>j < unat P. m (base (bufs w ! a) + unat (wr (bufs w ! a)) + j) = Raw (data (2 * j)) \<and>
                  m (base (bufs w ! b) + unat (wr (bufs w ! b)) + j) = Raw (data (2 * j + 1))) \<and>
    (\<forall>x. x \<notin> write_slots P (bufs w ! a) \<union> write_slots P (bufs w ! b) \<longrightarrow> m x = smem w x)"
proof -
  let ?A = "base (bufs w ! a) + unat (wr (bufs w ! a))" and ?B = "base (bufs w ! b) + unat (wr (bufs w ! b))"
  let ?body = "\<lambda>j. for_upto_opt AVTP_CHANNEL_N
             (\<lambda>i (m, k). if k < AVTP_CHANNEL_N * PERIOD_MAX
                then Some (audio_buf_write_uint32 m (bufs w ! ([a, b] ! i)) (of_nat j) (data k), k + 1) else None)"
  have addr: "audio_buf_write_addr (bufs w ! c) (of_nat j) = base (bufs w ! c) + unat (wr (bufs w ! c)) + j"
    if "c < length (bufs w)" "j < unat P" for c j
    using buf_block_addr [OF buf_alignedD(1,2) [OF world_okD(1) [OF ok that(1)]] that(2)] .
  have apart: "?A + i \<noteq> ?B + j" if "i < unat P" "j < unat P" for i j
  proof -
    have "?A + i \<in> write_slots P (bufs w ! a)" "?B + j \<in> write_slots P (bufs w ! b)" using that by (simp_all add: write_slots_def)
    then show ?thesis
      using write_slots_apart [OF ok ab(2,3,1)] write_slots_range [OF world_okD(1) [OF ok ab(2)]] by fastforce
  qed
  have "p \<le> unat P \<Longrightarrow> \<exists>m. for_upto_opt p ?body (smem w, 0) = Some (m, 2 * p) \<and>
    (\<forall>j < p. m (?A + j) = Raw (data (2 * j)) \<and> m (?B + j) = Raw (data (2 * j + 1))) \<and>
    (\<forall>x. x \<notin> {?A ..< ?A + p} \<union> {?B ..< ?B + p} \<longrightarrow> m x = smem w x)" for p
  proof (induction p)
    case (Suc p)
    then obtain m where m: "for_upto_opt p ?body (smem w, 0) = Some (m, 2 * p)"
      "\<forall>j < p. m (?A + j) = Raw (data (2 * j)) \<and> m (?B + j) = Raw (data (2 * j + 1))"
      "\<forall>x. x \<notin> {?A ..< ?A + p} \<union> {?B ..< ?B + p} \<longrightarrow> m x = smem w x"
      by auto
    let ?m = "m(?A + p := Raw (data (2 * p)), ?B + p := Raw (data (2 * p + 1)))"
    have "for_upto_opt (Suc p) ?body (smem w, 0) = Some (?m, 2 * Suc p)"
      using m(1) Suc.prems P ab addr [of _ p] by (simp add: opt_loop_two audio_buf_write_uint32_def)
    moreover have "?m (?A + j) = Raw (data (2 * j)) \<and> ?m (?B + j) = Raw (data (2 * j + 1))" if "j < Suc p" for j
    proof (cases "j = p")
      case True
      then show ?thesis using apart [of p p] Suc.prems by simp
    next
      case False
      then have "?A + j \<noteq> ?B + p" "?B + j \<noteq> ?A + p" "j < p"
        using that apart [of j p] apart [of p j] Suc.prems by simp_all
      then show ?thesis using m(2) by simp
    qed
    moreover have "\<forall>x. x \<notin> {?A ..< ?A + Suc p} \<union> {?B ..< ?B + Suc p} \<longrightarrow> ?m x = smem w x"
      using m(3) by auto
    ultimately show ?case by blast
  qed simp
  from this [of "unat P"] show ?thesis by (auto simp: listener_spread_def write_slots_def)
qed

lemma write_slots_disjoint:
  assumes "world_ok P w" and "a \<noteq> b" and "a < length (bufs w)" and "b < length (bufs w)"
  shows "write_slots P (bufs w ! a) \<inter> write_slots P (bufs w ! b) = {}"
  using write_slots_apart [OF assms(1,3,4,2)] write_slots_range [OF world_okD(1) [OF assms(1,3)]] by blast

lemma source_convert_two:
  assumes "world_ok P w" and "a \<noteq> b" and "a < length (bufs w)" and "b < length (bufs w)"
  shows "for_upto AVTP_CHANNEL_N
      (\<lambda>i v. v\<lparr>smem := audio_convert_from F (smem v) (audio_buf_write_addr (bufs v ! ([a, b] ! i)) 0) P invert msk sh\<rparr>) (w\<lparr>smem := m\<rparr>) =
    w\<lparr>smem := \<lambda>x. if x \<in> write_slots P (bufs w ! a) \<union> write_slots P (bufs w ! b) then from_cell F invert msk sh (m x) else m x\<rparr>"
proof -
  have "audio_convert_from F m (audio_buf_write_addr c 0) P invert msk sh =
      (\<lambda>x. if x \<in> write_slots P c then from_cell F invert msk sh (m x) else m x)" for m c
    by (simp add: audio_convert_from_slots audio_buf_write_addr_def write_slots_def)
  then show ?thesis
    using write_slots_disjoint [OF assms] by (auto simp: loop_simps fun_eq_iff intro!: world.equality split: if_splits)
qed

text \<open>The period a stream delivers when a batch has come, and the silence it delivers otherwise.\<close>

lemma received_period:
  assumes ok: "world_ok P w" and P: "unat P \<le> PERIOD_MAX" and ab: "a \<noteq> b" "a < length (bufs w)" "b < length (bufs w)"
    and ch: "ar_channel_buf st = [a, b]"
  shows "\<exists>w1. listener_spread P data (ar_channel_buf st) w = Some w1 \<and>
    outs_emitted P (ar_channel_buf st) (received_block F st P data) w
      (for_upto AVTP_CHANNEL_N (\<lambda>j. buf_upd (ar_channel_buf st ! j) (\<lambda>b. audio_buf_write_update b P))
        (if ar_convert st then for_upto AVTP_CHANNEL_N
           (\<lambda>i w. w\<lparr>smem := audio_convert_from F (smem w) (audio_buf_write_addr (bufs w ! (ar_channel_buf st ! i)) 0) P
                              (ar_invert st) (ar_mask st) (unat (ar_shift st))\<rparr>) w1
         else w1))"
proof -
  let ?A = "bufs w ! a" and ?B = "bufs w ! b"
  obtain m where m: "listener_spread P data [a, b] w = Some (w\<lparr>smem := m\<rparr>)"
    "\<forall>j < unat P. m (base ?A + unat (wr ?A) + j) = Raw (data (2 * j)) \<and> m (base ?B + unat (wr ?B) + j) = Raw (data (2 * j + 1))"
    "\<forall>x. x \<notin> write_slots P ?A \<union> write_slots P ?B \<longrightarrow> m x = smem w x"
    using listener_spread_words [OF ok P ab] by blast
  let ?m = "\<lambda>x. if ar_convert st \<and> x \<in> write_slots P ?A \<union> write_slots P ?B
    then from_cell F (ar_invert st) (ar_mask st) (unat (ar_shift st)) (m x) else m x"
  have conv: "(if ar_convert st then for_upto AVTP_CHANNEL_N
           (\<lambda>i w. w\<lparr>smem := audio_convert_from F (smem w) (audio_buf_write_addr (bufs w ! ([a, b] ! i)) 0) P
                              (ar_invert st) (ar_mask st) (unat (ar_shift st))\<rparr>) (w\<lparr>smem := m\<rparr>)
         else w\<lparr>smem := m\<rparr>) = w\<lparr>smem := ?m\<rparr>"
    using source_convert_two [OF ok ab, of F "ar_invert st"] by (cases "ar_convert st") simp_all
  have "write_block P ?m ?A = received_block F st P data 0" "write_block P ?m ?B = received_block F st P data 1"
    using m(2) by (auto simp: write_block_def received_block_def received_cell_def write_slots_def)
  then have "write_block P ?m (bufs w ! ([a, b] ! i)) = received_block F st P data i" if "i < 2" for i
    using that by (cases i) auto
  moreover have "for_upto AVTP_CHANNEL_N (\<lambda>j. buf_upd ([a, b] ! j) (\<lambda>b. audio_buf_write_update b P)) (w\<lparr>smem := ?m\<rparr>) =
      buf_upd b (\<lambda>b. audio_buf_write_update b P) (buf_upd a (\<lambda>b. audio_buf_write_update b P) (w\<lparr>smem := ?m\<rparr>))"
    by (simp add: loop_simps)
  moreover have "?m x = smem w x" if "\<forall>i < 2. x \<notin> write_slots P (bufs w ! ([a, b] ! i))" for x
    using m(3) that [rule_format, of 0] that [rule_format, of 1] by simp
  ultimately show ?thesis
    unfolding ch using m(1) conv ab by (auto simp: outs_emitted_def numeral_2_eq_2 [symmetric])
qed

lemma silent_period:
  assumes ok: "world_ok P w" and ab: "a \<noteq> b" "a < length (bufs w)" "b < length (bufs w)"
  shows "outs_emitted P [a, b] (\<lambda>_. replicate (unat P) AUDIO_SAMPLE_SILENCE) w
    (for_upto AVTP_CHANNEL_N (\<lambda>j. on_buf ([a, b] ! j) (\<lambda>s. audio_buf_write_silence s P)) w)"
proof -
  let ?g = "\<lambda>b m. fst (audio_buf_write_silence (m, b) P)"
  have mem: "?g b m x = (if x \<in> write_slots P b then AUDIO_SAMPLE_SILENCE else m x)" if "buf_aligned P b" for b m x
    using audio_buf_write_silence_mem [OF buf_alignedD(1,2) [OF that], of m x] by (simp add: write_slots_def)
  have "outs_emitted P [a, b] (\<lambda>i. (\<lambda>_ _. replicate (unat P) AUDIO_SAMPLE_SILENCE) i (write_block P (smem w) (bufs w ! ([a, b] ! i)))) w
    (for_upto (length [a, b]) (\<lambda>j. on_buf ([a, b] ! j) (\<lambda>s. audio_buf_write_silence s P)) w)"
  proof (rule out_loop [OF ok, where g = "\<lambda>_. ?g"])
    show "on_buf ([a, b] ! i) (\<lambda>s. audio_buf_write_silence s P) w' =
        buf_upd ([a, b] ! i) (\<lambda>b. audio_buf_write_update b P) (w'\<lparr>smem := ?g (bufs w' ! ([a, b] ! i)) (smem w')\<rparr>)" for i w'
      by (simp add: on_buf_def buf_upd_def case_prod_beta)
    show "write_block P (?g b m) b = replicate (unat P) AUDIO_SAMPLE_SILENCE" if "buf_aligned P b" for b m
      by (intro nth_equalityI) (simp_all add: write_block_def mem [OF that] write_slots_def)
  qed (use ab in \<open>auto simp: mem\<close>)
  then show ?thesis by (simp add: loop_simps)
qed

section \<open>Playing in steady state\<close>

text \<open>
  A stream that is connected and started, or not connected at all, in one period: what it received, if a whole batch, and its
  counters. A failed reception restarts it.
\<close>

definition stream_played :: "('f, 'h) avb_stack \<Rightarrow> 'r avtp_rx_stream \<times> 'h \<Rightarrow> (nat \<Rightarrow> u32) option \<times> 'r avtp_rx_stream \<times> 'h" where
  "stream_played V s =
     (let (st, h) = s in
      if ar_connected st then
        (let (a, h) = av_receive V (the (ar_handle st)) (ar_cur_batch_size st) h in
         if av_bytes a <s 0 then (None, st\<lparr>ar_err := ar_err st + 1, ar_first_start := True\<rparr>, h)
         else if av_bytes a < ar_cur_batch_size st then (None, st\<lparr>ar_underflow := ar_underflow st + 1, ar_first_start := True\<rparr>, h)
         else (Some (av_data a), st\<lparr>ar_received := ar_received st + 1\<rparr>, h))
      else (None, st, h))"

definition played_block :: "'s::zero audio_format \<Rightarrow> 'r avtp_rx_stream \<Rightarrow> u32 \<Rightarrow> (nat \<Rightarrow> u32) option \<Rightarrow> nat \<Rightarrow> 's cell list" where
  "played_block F st P d c =
     (case d of Some data \<Rightarrow> received_block F st P data c | None \<Rightarrow> replicate (unat P) AUDIO_SAMPLE_SILENCE)"

definition rx_stream_ready :: "('s, 'h) world \<Rightarrow> 'r avtp_rx_stream \<Rightarrow> bool" where
  "rx_stream_ready w st \<longleftrightarrow>
     length (ar_channel_buf st) = AVTP_CHANNEL_N \<and> list_all (\<lambda>i. i < length (bufs w)) (ar_channel_buf st) \<and>
     distinct (ar_channel_buf st) \<and> (ar_connected st \<longrightarrow> ar_handle st \<noteq> None) \<and>
     unat (ar_cur_batch_size st) \<le> 4 * (AVTP_CHANNEL_N * PERIOD_MAX)"

definition rx_stream_steady :: "'r avtp_rx_stream \<Rightarrow> bool" where
  "rx_stream_steady st \<longleftrightarrow> (ar_connected st \<longrightarrow> \<not> ar_first_start st)"

lemma rx_stream_ready_channels:
  assumes "rx_stream_ready w st"
  obtains a b where "ar_channel_buf st = [a, b]" "a \<noteq> b" "a < length (bufs w)" "b < length (bufs w)"
proof -
  obtain a b where "ar_channel_buf st = [a, b]"
    using assms by (auto simp: rx_stream_ready_def numeral_2_eq_2 length_Suc_conv)
  with assms that show thesis by (auto simp: rx_stream_ready_def)
qed

lemma rx_receives:
  assumes "rx_stream_ready w st" and "ar_connected st"
  shows "listener_stream_receive V st w =
    (let (a, h) = av_receive V (the (ar_handle st)) (ar_cur_batch_size st) (hws w) in Some (a, w\<lparr>hws := h\<rparr>))"
  using assms by (auto simp: rx_stream_ready_def listener_stream_receive_def)

text \<open>The three ways the reception of a stream ends for the rest of its run: silence, or a period of received samples.\<close>

lemma run_stream_silent:
  assumes ok: "world_ok P v" and ready: "rx_stream_ready v st" and i: "ra_stream avtp ! i = st" "i < length (ra_stream avtp)"
    and none: "(if ar_connected st then listener_receive F R V i P (avtp, w) else Some (- 1, avtp, w)) = Some (- 1, avtp', v)"
  shows "\<exists>w'. avtp_source_run_stream F R V P i (avtp, w) = Some (avtp', w') \<and>
    outs_emitted P (ar_channel_buf st) (\<lambda>_. replicate (unat P) AUDIO_SAMPLE_SILENCE) v w'"
proof -
  obtain a b where ab: "ar_channel_buf st = [a, b]" "a \<noteq> b" "a < length (bufs v)" "b < length (bufs v)"
    using ready by (rule rx_stream_ready_channels)
  show ?thesis
    using silent_period [OF ok ab(2-4)] i none unfolding avtp_source_run_stream_def ab(1) by (auto simp: ab(1))
qed

lemma run_stream_received:
  assumes ok: "world_ok P v" and P: "unat P \<le> PERIOD_MAX" and ready: "rx_stream_ready v st"
    and i: "ra_stream avtp ! i = st" "i < length (ra_stream avtp)" "ar_connected st"
    and got: "(if ar_first_start st then listener_start R V P st w else listener_next V st w) = Some (Some data, st', v)"
    and st': "ar_channel_buf st' = ar_channel_buf st" "ar_convert st' = ar_convert st" "ar_invert st' = ar_invert st"
      "ar_mask st' = ar_mask st" "ar_shift st' = ar_shift st"
  shows "\<exists>w'. avtp_source_run_stream F R V P i (avtp, w) =
      Some (upd_rx_stream i (\<lambda>_. st'\<lparr>ar_received := ar_received st' + 1\<rparr>) avtp, w') \<and>
    outs_emitted P (ar_channel_buf st) (received_block F st P data) v w'"
proof -
  obtain a b where ab: "ar_channel_buf st = [a, b]" "a \<noteq> b" "a < length (bufs v)" "b < length (bufs v)"
    using ready by (rule rx_stream_ready_channels)
  have "received_block F st' P data = received_block F st P data"
    using st' by (simp add: received_block_def received_cell_def fun_eq_iff)
  then obtain w1 where "listener_spread P data (ar_channel_buf st') v = Some w1"
    "outs_emitted P (ar_channel_buf st) (received_block F st P data) v
      (for_upto AVTP_CHANNEL_N (\<lambda>j. buf_upd (ar_channel_buf st ! j) (\<lambda>b. audio_buf_write_update b P))
        (if ar_convert st' then for_upto AVTP_CHANNEL_N
           (\<lambda>i w. w\<lparr>smem := audio_convert_from F (smem w) (audio_buf_write_addr (bufs w ! (ar_channel_buf st' ! i)) 0) P
                              (ar_invert st') (ar_mask st') (unat (ar_shift st'))\<rparr>) w1
         else w1))"
    using received_period [OF ok P ab(2-4), where st = st' and F = F and data = data] ab(1) st'(1) by auto
  then show ?thesis
    using i got by (auto simp: avtp_source_run_stream_def listener_receive_def Let_def)
qed

lemma source_stream_steady:
  assumes ok: "world_ok P w" and P: "unat P \<le> PERIOD_MAX" and ready: "rx_stream_ready w st" and steady: "rx_stream_steady st"
    and i: "ra_stream avtp ! i = st" "i < length (ra_stream avtp)"
    and played: "stream_played V (st, hws w) = (d, st', h)"
  shows "\<exists>w'. avtp_source_run_stream F R V P i (avtp, w) = Some (upd_rx_stream i (\<lambda>_. st') avtp, w') \<and>
    outs_emitted P (ar_channel_buf st) (played_block F st P d) (w\<lparr>hws := h\<rparr>) w'"
proof -
  have ok': "world_ok P (w\<lparr>hws := h\<rparr>)" and ready': "rx_stream_ready (w\<lparr>hws := h\<rparr>) st"
    using ok ready by (simp_all add: rx_stream_ready_def)
  note silent = run_stream_silent [OF ok' ready' i, where F = F and R = R and V = V and w = w]
  note received = run_stream_received [OF ok' P ready' i, where F = F and R = R and V = V and w = w]
  have same: "upd_rx_stream i (\<lambda>_. st) avtp = avtp" using i by (auto simp: upd_rx_stream_def)
  show ?thesis
  proof (cases "ar_connected st")
    case False
    then have "d = None" "st' = st" "h = hws w" using played by (simp_all add: stream_played_def)
    then show ?thesis using silent [where avtp' = avtp] False same by (simp add: played_block_def [abs_def])
  next
    case True
    obtain a where a: "av_receive V (the (ar_handle st)) (ar_cur_batch_size st) (hws w) = (a, h)"
      using played True by (auto simp: stream_played_def split: prod.splits if_splits)
    have got: "listener_stream_receive V st w = Some (a, w\<lparr>hws := h\<rparr>)" by (simp add: rx_receives [OF ready True] a)
    consider "av_bytes a <s 0" | "\<not> av_bytes a <s 0" "av_bytes a < ar_cur_batch_size st"
      | "\<not> av_bytes a <s 0" "\<not> av_bytes a < ar_cur_batch_size st" by blast
    then have next_eq: "listener_next V st w = Some (if d = None then (None, st', w\<lparr>hws := h\<rparr>) else (d, st, w\<lparr>hws := h\<rparr>))"
      by cases (use played True a got in \<open>auto simp: stream_played_def listener_next_def\<close>)
    have first: "\<not> ar_first_start st" using steady True by (simp add: rx_stream_steady_def)
    show ?thesis
    proof (cases d)
      case None
      then have "listener_receive F R V i P (avtp, w) = Some (- 1, upd_rx_stream i (\<lambda>_. st') avtp, w\<lparr>hws := h\<rparr>)"
        using first next_eq i by (simp add: listener_receive_def)
      then show ?thesis using silent [where avtp' = "upd_rx_stream i (\<lambda>_. st') avtp"] True None by (simp add: played_block_def [abs_def])
    next
      case (Some data)
      then have "st' = st\<lparr>ar_received := ar_received st + 1\<rparr>"
        using played True a by (auto simp: stream_played_def split: if_splits)
      then show ?thesis using received [where st' = st and data = data] True first next_eq Some by (simp add: played_block_def [abs_def])
    qed
  qed
qed

section \<open>All the streams of a source\<close>

text \<open>Two groups of different outputs written one after the other.\<close>

lemma outs_emitted_append:
  assumes ok: "world_ok P w" and d: "set os \<inter> set os' = {}" and le: "\<forall>j \<in> set os \<union> set os'. j < length (bufs w)"
    and first: "outs_emitted P os blk (w\<lparr>hws := hws w1\<rparr>) w1" and second: "outs_emitted P os' blk' (w1\<lparr>hws := hws w2\<rparr>) w2"
  shows "outs_emitted P (os @ os') (\<lambda>k. if k < length os then blk k else blk' (k - length os)) (w\<lparr>hws := hws w2\<rparr>) w2"
proof -
  have b1: "bufs w1 ! j = bufs w ! j" if "j \<in> set os'" for j
    using first d le that by (auto simp: outs_emitted_def)
  have al: "buf_aligned P (bufs w ! j)" if "j \<in> set os \<union> set os'" for j using world_okD(1) [OF ok] le that by blast
  have away: "x \<notin> write_slots P (bufs w ! (os' ! j))" if "x \<in> buf_range (bufs w ! (os ! i))" "i < length os" "j < length os'" for x i j
  proof (rule write_slots_apart [OF ok _ _ _ that(1)])
    show "os ! i \<noteq> os' ! j" using d that by (metis disjoint_iff nth_mem)
  qed (use le that in auto)
  have kept: "write_block P (smem w2) (bufs w ! (os ! i)) = blk i" if i: "i < length os" for i
  proof -
    have "smem w2 x = smem w1 x" if "x \<in> buf_range (bufs w ! (os ! i))" for x
      using second away [OF that i] b1 by (auto simp: outs_emitted_def)
    then have "write_block P (smem w2) (bufs w ! (os ! i)) = write_block P (smem w1) (bufs w ! (os ! i))"
      using al i by (intro write_block_frame) simp_all
    then show ?thesis using first i by (simp add: outs_emitted_def)
  qed
  have new: "write_block P (smem w2) (bufs w ! (os' ! i)) = blk' i" if "i < length os'" for i
    using second b1 that by (auto simp: outs_emitted_def)
  have idx: "bufs w2 ! j = (if j \<in> set os \<union> set os' then audio_buf_write_update (bufs w ! j) P else bufs w ! j)"
    if "j < length (bufs w)" for j
    using first second b1 that d by (auto simp: outs_emitted_def)
  have frame: "smem w2 x = smem w x" if "\<forall>i < length (os @ os'). x \<notin> write_slots P (bufs w ! ((os @ os') ! i))" for x
  proof -
    have "x \<notin> write_slots P (bufs w ! (os ! i))" if "i < length os" for i
      using \<open>\<forall>i < length (os @ os'). _ i\<close> [rule_format, of i] that by (simp add: nth_append)
    moreover have "x \<notin> write_slots P (bufs w1 ! (os' ! i))" if "i < length os'" for i
      using \<open>\<forall>i < length (os @ os'). _ i\<close> [rule_format, of "length os + i"] that b1 by simp
    ultimately show ?thesis using first second by (simp add: outs_emitted_def)
  qed
  have "length (bufs w2) = length (bufs w)" using first second by (simp add: outs_emitted_def)
  then show ?thesis using kept new idx frame by (auto simp: outs_emitted_def nth_append)
qed

definition streams_played ::
  "('f, 'h) avb_stack \<Rightarrow> nat \<Rightarrow> 'r avtp_rx_stream list \<times> 'h \<Rightarrow> (nat \<Rightarrow> u32) option list \<times> 'r avtp_rx_stream list \<times> 'h" where
  "streams_played V n s =
     for_upto n (\<lambda>i (ds, sts, h). let (d, st, h) = stream_played V (sts ! i, h) in (ds @ [d], sts[i := st], h)) ([], s)"

definition avtp_source_ready :: "u32 \<Rightarrow> 'r avtp_source \<Rightarrow> ('s, 'h) world \<Rightarrow> bool" where
  "avtp_source_ready P avtp w \<longleftrightarrow>
     world_ok P w \<and> unat P \<le> PERIOD_MAX \<and> unat (ra_stream_n avtp) \<le> length (ra_stream avtp) \<and>
     (\<forall>i < unat (ra_stream_n avtp). rx_stream_ready w (ra_stream avtp ! i) \<and>
        (\<forall>j < i. set (ar_channel_buf (ra_stream avtp ! j)) \<inter> set (ar_channel_buf (ra_stream avtp ! i)) = {}))"

definition source_outs :: "'r avtp_source \<Rightarrow> nat \<Rightarrow> nat list" where
  "source_outs avtp k = concat (map ar_channel_buf (take k (ra_stream avtp)))"

text \<open>The state after the first \<open>k\<close> streams, the block of output \<open>2 i + c\<close> being those of channel \<open>c\<close> of stream \<open>i\<close>.\<close>

definition streams_heard ::
  "'s::zero audio_format \<Rightarrow> ('f, 'h) avb_stack \<Rightarrow> u32 \<Rightarrow> 'r avtp_source \<Rightarrow> ('s, 'h) world \<Rightarrow> nat \<Rightarrow> 'r avtp_source \<times> ('s, 'h) world \<Rightarrow> bool" where
  "streams_heard F V P avtp w k s \<longleftrightarrow>
     (let (avtp', w') = s; (ds, sts, h) = streams_played V k (ra_stream avtp, hws w) in
      avtp' = avtp\<lparr>ra_stream := sts\<rparr> \<and> hws w' = h \<and>
      outs_emitted P (source_outs avtp k)
        (\<lambda>q. played_block F (ra_stream avtp ! (q div 2)) P (ds ! (q div 2)) (q mod 2)) (w\<lparr>hws := h\<rparr>) w')"

lemma streams_played_Suc:
  "streams_played V (Suc k) s =
     (let (ds, sts, h) = streams_played V k s; (d, st, h) = stream_played V (sts ! k, h) in (ds @ [d], sts[k := st], h))"
  by (simp add: streams_played_def case_prod_beta)

lemma streams_played_shape:
  "streams_played V k (sts, h) = (ds, sts', h') \<Longrightarrow>
     length ds = k \<and> length sts' = length sts \<and> (\<forall>i \<ge> k. sts' ! i = sts ! i)"
proof (induction k arbitrary: ds sts' h')
  case 0
  then show ?case by (simp add: streams_played_def)
next
  case (Suc k)
  obtain ds1 sts1 h1 where "streams_played V k (sts, h) = (ds1, sts1, h1)" using prod_cases3 by blast
  with Suc show ?case by (auto simp: streams_played_Suc Let_def split: prod.splits)
qed

lemma outs_emitted_cong:
  "(\<And>q. q < length os \<Longrightarrow> blk q = blk' q) \<Longrightarrow> outs_emitted P os blk w w' \<Longrightarrow> outs_emitted P os blk' w w'"
  by (simp add: outs_emitted_def)

lemma source_outs_facts:
  assumes "avtp_source_ready P avtp w" and "k < unat (ra_stream_n avtp)"
  shows "source_outs avtp (Suc k) = source_outs avtp k @ ar_channel_buf (ra_stream avtp ! k)"
    and "length (source_outs avtp k) = 2 * k"
    and "set (source_outs avtp k) \<inter> set (ar_channel_buf (ra_stream avtp ! k)) = {}"
    and "\<forall>j \<in> set (source_outs avtp k) \<union> set (ar_channel_buf (ra_stream avtp ! k)). j < length (bufs w)"
proof -
  let ?sts = "ra_stream avtp"
  have k: "k < length ?sts" using assms by (simp add: avtp_source_ready_def)
  have st: "rx_stream_ready w (?sts ! i)" if "i \<le> k" for i using assms that by (simp add: avtp_source_ready_def)
  show suc: "source_outs avtp (Suc k) = source_outs avtp k @ ar_channel_buf (?sts ! k)"
    using k by (simp add: source_outs_def take_Suc_conv_app_nth)
  have "i \<le> k \<Longrightarrow> length (source_outs avtp i) = 2 * i" for i
  proof (induction i)
    case (Suc i)
    then have "i < length ?sts" using k by simp
    then show ?case using Suc st [of i] by (simp add: source_outs_def take_Suc_conv_app_nth rx_stream_ready_def)
  qed (simp add: source_outs_def)
  then show "length (source_outs avtp k) = 2 * k" by simp
  have mem: "\<exists>i < k. x \<in> set (ar_channel_buf (?sts ! i))" if "x \<in> set (source_outs avtp k)" for x
    using that k by (auto simp: source_outs_def set_conv_nth [of "take k ?sts"])
  show "set (source_outs avtp k) \<inter> set (ar_channel_buf (?sts ! k)) = {}"
    using mem assms by (fastforce simp: avtp_source_ready_def)
  show "\<forall>j \<in> set (source_outs avtp k) \<union> set (ar_channel_buf (?sts ! k)). j < length (bufs w)"
  proof
    fix j assume "j \<in> set (source_outs avtp k) \<union> set (ar_channel_buf (?sts ! k))"
    then obtain i where "i \<le> k" "j \<in> set (ar_channel_buf (?sts ! i))" using mem less_imp_le_nat by blast
    then show "j < length (bufs w)" using st by (simp add: rx_stream_ready_def list_all_iff)
  qed
qed

lemma streams_heard_step:
  assumes ready: "avtp_source_ready P avtp w" and k: "k < unat (ra_stream_n avtp)" and steady: "rx_stream_steady (ra_stream avtp ! k)"
    and so_far: "streams_heard F V P avtp w k s"
  shows "\<exists>s'. avtp_source_run_stream F R V P k s = Some s' \<and> streams_heard F V P avtp w (Suc k) s'"
proof -
  obtain avtp' w1 where s: "s = (avtp', w1)" by force
  obtain ds sts h where p: "streams_played V k (ra_stream avtp, hws w) = (ds, sts, h)" using prod_cases3 by blast
  let ?st = "ra_stream avtp ! k" and ?blk = "\<lambda>ds q. played_block F (ra_stream avtp ! (q div 2)) P (ds ! (q div 2)) (q mod 2)"
  note facts = source_outs_facts [OF ready k] and shape = streams_played_shape [OF p]
  have ok: "world_ok P w" and P: "unat P \<le> PERIOD_MAX" and st: "rx_stream_ready w ?st" and n: "k < length (ra_stream avtp)"
    using ready k by (auto simp: avtp_source_ready_def)
  have inv: "avtp' = avtp\<lparr>ra_stream := sts\<rparr>" "hws w1 = h" "outs_emitted P (source_outs avtp k) (?blk ds) (w\<lparr>hws := hws w1\<rparr>) w1"
    using so_far p by (simp_all add: s streams_heard_def)
  have ok1: "world_ok P w1" and len: "length (bufs w1) = length (bufs w)"
    using outs_emitted_world_ok [OF inv(3)] ok inv(3) by (simp_all add: outs_emitted_def)
  obtain d st' h' where one: "stream_played V (?st, hws w1) = (d, st', h')" using prod_cases3 by blast
  have "rx_stream_ready w1 ?st" using st len by (simp add: rx_stream_ready_def)
  from source_stream_steady [OF ok1 P this steady _ _ one, of avtp' k F R] obtain w2 where
    run: "avtp_source_run_stream F R V P k (avtp', w1) = Some (upd_rx_stream k (\<lambda>_. st') avtp', w2)" and
    new: "outs_emitted P (ar_channel_buf ?st) (played_block F ?st P d) (w1\<lparr>hws := h'\<rparr>) w2"
    using inv(1) shape n by auto
  have "hws w2 = h'" using new by (simp add: outs_emitted_def)
  moreover have next_p: "streams_played V (Suc k) (ra_stream avtp, hws w) = (ds @ [d], sts[k := st'], h')"
    using p one inv(2) shape by (simp add: streams_played_Suc)
  moreover have "upd_rx_stream k (\<lambda>_. st') avtp' = avtp\<lparr>ra_stream := sts[k := st']\<rparr>"
    using inv(1) by (simp add: upd_rx_stream_def)
  moreover have "outs_emitted P (source_outs avtp (Suc k)) (?blk (ds @ [d])) (w\<lparr>hws := hws w2\<rparr>) w2"
  proof (rule outs_emitted_cong [OF _ outs_emitted_append [OF ok facts(3,4) inv(3), folded facts(1)]])
    show "outs_emitted P (ar_channel_buf ?st) (played_block F ?st P d) (w1\<lparr>hws := hws w2\<rparr>) w2" using new \<open>hws w2 = h'\<close> by simp
    fix q assume "q < length (source_outs avtp (Suc k))"
    then have "q < 2 * k + 2" using facts(1,2) st by (simp add: rx_stream_ready_def)
    then have "q < 2 * k \<or> q = 2 * k \<or> q = Suc (2 * k)" by auto
    then show "(if q < length (source_outs avtp k) then ?blk ds q else played_block F ?st P d (q - length (source_outs avtp k))) = ?blk (ds @ [d]) q"
      using facts(2) shape by (auto simp: nth_append)
  qed
  ultimately show ?thesis using run by (simp add: s streams_heard_def)
qed

text \<open>
  C32. A ready network source none of whose streams has to start completes its run. Every stream delivers exactly one period to its
  two channels: the words of the array a whole batch was received into, separated by channel and converted as the stream asks (for
  a format with one channel only the first half of them are received words), or silence when the stream is
  not connected or its reception failed or was short; the answer counts in exactly one counter and a failed stream starts again.
  The two outputs of every stream advance by one period, and nothing else in the buffers and in memory changes.
\<close>

theorem avtp_source_plays:
  assumes "avtp_source_ready (el_period el) avtp w" and "\<forall>i < unat (ra_stream_n avtp). rx_stream_steady (ra_stream avtp ! i)"
  shows "\<exists>s. avtp_source_element_run F R V el avtp w = Some (0, s) \<and>
    streams_heard F V (el_period el) avtp w (unat (ra_stream_n avtp)) s"
proof -
  have "streams_heard F V (el_period el) avtp w 0 (avtp, w)"
    by (simp add: streams_heard_def streams_played_def source_outs_def outs_emitted_def)
  with streams_heard_step [OF assms(1)] assms(2)
  have "\<exists>s. for_upto_opt (unat (ra_stream_n avtp)) (avtp_source_run_stream F R V (el_period el)) (avtp, w) = Some s \<and>
      streams_heard F V (el_period el) avtp w (unat (ra_stream_n avtp)) s"
    by (intro for_upto_opt_invariant) blast+
  then show ?thesis by (auto simp: avtp_source_element_run_def)
qed

section \<open>The start of a stream\<close>

text \<open>The scan of the events: every valid timestamp has to be acceptable, the first one is kept.\<close>

definition event_accepted :: "'r avtp_float \<Rightarrow> ('f, 'h) avb_stack \<Rightarrow> 'r avtp_rx_stream \<Rightarrow> u32 \<Rightarrow> avb_event \<Rightarrow> bool" where
  "event_accepted R V st now e \<longleftrightarrow>
     listener_timestamp_accept V (av_ts e - (av_index e div ar_sample_size st) * vf_to_u32 R (ar_sample_dt st)) now (ar_sr_class st)"

lemma listener_events_scan:
  assumes "ar_sample_size st \<noteq> 0"
  shows "listener_events R V st now es found =
    (if \<exists>e \<in> set es. \<not> av_invalid e \<and> \<not> event_accepted R V st now e then Scan_rejected
     else Scanned (if found = None then find (\<lambda>e. \<not> av_invalid e) es else found))"
  using assms by (induction es arbitrary: found) (auto simp: event_accepted_def Let_def)

text \<open>What an output holds after a period was appended to it.\<close>

lemma outs_emitted_contents:
  assumes ok: "world_ok P w" and d: "distinct os" and le: "\<forall>j \<in> set os. j < length (bufs w)" and i: "i < length os"
    and out: "outs_emitted P os blk w w'" and room: "buf_used (bufs w ! (os ! i)) + unat P < unat (bsize (bufs w ! (os ! i)))"
  shows "buf_contents (smem w', bufs w' ! (os ! i)) = buf_contents (smem w, bufs w ! (os ! i)) @ blk i"
proof -
  let ?b = "bufs w ! (os ! i)"
  have o: "os ! i < length (bufs w)" using le i by simp
  note al = world_okD(1) [OF ok o]
  let ?v = "\<lambda>j. smem w' (base ?b + unat (wr ?b) + j)"
  let ?m = "\<lambda>x. if x \<in> {base ?b + unat (wr ?b) ..< base ?b + unat (wr ?b) + unat P} then ?v (x - (base ?b + unat (wr ?b))) else smem w x"
  have "map ?v [0..<unat P] = blk i"
    using out i by (simp add: outs_emitted_def write_block_def)
  moreover have "buf_contents (?m, audio_buf_write_update ?b P) = buf_contents (smem w, ?b) @ map ?v [0..<unat P]"
    by (rule buf_block_append(1) [OF buf_alignedD(1,2) [OF al] room]) (rule refl)
  moreover have "smem w' x = ?m x" if x: "x \<in> buf_range ?b" for x
  proof (cases "x \<in> write_slots P ?b")
    case False
    have "x \<notin> write_slots P (bufs w ! (os ! j))" if j: "j < length os" for j
    proof (cases "j = i")
      case False
      then have "os ! i \<noteq> os ! j" using d i j by (simp add: nth_eq_iff_index_eq)
      then show ?thesis using write_slots_apart [OF ok o _ _ x] le j by simp
    qed (use \<open>x \<notin> write_slots P ?b\<close> in simp)
    then show ?thesis using out False by (simp add: outs_emitted_def write_slots_def)
  qed (simp add: write_slots_def)
  then have "buf_contents (smem w', audio_buf_write_update ?b P) = buf_contents (?m, audio_buf_write_update ?b P)"
    by (intro buf_contents_frame buf_wf_write_update buf_alignedD(1) [OF al]) (simp add: buf_range_def)
  moreover have "bufs w' ! (os ! i) = audio_buf_write_update ?b P" using out i o by (simp add: outs_emitted_def)
  ultimately show ?thesis by simp
qed

text \<open>One buffer operation applied to the two channels of a stream, each within its own storage.\<close>

lemma on_buf_pair:
  assumes ok: "world_ok P w" and ab: "a \<noteq> b" "a < length (bufs w)" "b < length (bufs w)"
    and local: "\<forall>c \<in> {a, b}. \<forall>m x. x \<notin> buf_range (bufs w ! c) \<longrightarrow> fst (f (m, bufs w ! c)) x = m x"
    and idx: "\<forall>c \<in> {a, b}. \<forall>m. snd (f (m, bufs w ! c)) = g (bufs w ! c)"
    and geo: "\<forall>c \<in> {a, b}. buf_aligned P (g (bufs w ! c)) \<and> base (g (bufs w ! c)) = base (bufs w ! c) \<and> bsize (g (bufs w ! c)) = bsize (bufs w ! c)"
    and fill: "\<forall>c \<in> {a, b}. \<forall>m. buf_contents (m, bufs w ! c) = buf_contents (smem w, bufs w ! c) \<longrightarrow> buf_contents (f (m, bufs w ! c)) = Y c"
  shows "world_ok P (for_upto AVTP_CHANNEL_N (\<lambda>i. on_buf ([a, b] ! i) f) w)"
    and "length (bufs (for_upto AVTP_CHANNEL_N (\<lambda>i. on_buf ([a, b] ! i) f) w)) = length (bufs w)"
    and "hws (for_upto AVTP_CHANNEL_N (\<lambda>i. on_buf ([a, b] ! i) f) w) = hws w"
    and "c \<in> {a, b} \<Longrightarrow> bufs (for_upto AVTP_CHANNEL_N (\<lambda>i. on_buf ([a, b] ! i) f) w) ! c = g (bufs w ! c)"
    and "c \<in> {a, b} \<Longrightarrow> buf_contents (smem (for_upto AVTP_CHANNEL_N (\<lambda>i. on_buf ([a, b] ! i) f) w), g (bufs w ! c)) = Y c"
proof -
  let ?A = "bufs w ! a" and ?B = "bufs w ! b"
  define m1 where "m1 = fst (f (smem w, ?A))"
  define m2 where "m2 = fst (f (m1, ?B))"
  have f: "f (smem w, ?A) = (m1, g ?A)" "f (m1, ?B) = (m2, g ?B)"
    using idx by (simp_all add: m1_def m2_def prod_eq_iff)
  have eq: "for_upto AVTP_CHANNEL_N (\<lambda>i. on_buf ([a, b] ! i) f) w = w\<lparr>smem := m2, bufs := (bufs w)[a := g ?A, b := g ?B]\<rparr>"
    using ab f by (simp add: loop_simps on_buf_def)
  note apart = buf_apart_ranges [OF world_okD(2) [OF ok ab(2,3,1)]]
  have ok1: "world_ok P (w\<lparr>smem := m1, bufs := (bufs w)[a := g ?A], hws := hws w\<rparr>)"
    using geo by (intro world_ok_upd [OF ok ab(2)]) simp_all
  show "world_ok P (for_upto AVTP_CHANNEL_N (\<lambda>i. on_buf ([a, b] ! i) f) w)"
    using world_ok_upd [OF ok1, where i = b and b = "g ?B" and m = m2 and h = "hws w"] geo ab by (simp add: eq)
  show "length (bufs (for_upto AVTP_CHANNEL_N (\<lambda>i. on_buf ([a, b] ! i) f) w)) = length (bufs w)"
    "hws (for_upto AVTP_CHANNEL_N (\<lambda>i. on_buf ([a, b] ! i) f) w) = hws w"
    "c \<in> {a, b} \<Longrightarrow> bufs (for_upto AVTP_CHANNEL_N (\<lambda>i. on_buf ([a, b] ! i) f) w) ! c = g (bufs w ! c)"
    using ab by (auto simp: eq)
  have "buf_contents (m2, g ?A) = buf_contents (m1, g ?A)"
    using geo local apart by (intro buf_contents_frame) (auto simp: m2_def buf_range_def dest: buf_alignedD(1))
  moreover have "buf_contents (m1, ?B) = buf_contents (smem w, ?B)"
    using world_okD(1) [OF ok ab(3)] local apart by (intro buf_contents_frame) (auto simp: m1_def dest: buf_alignedD(1))
  ultimately show "c \<in> {a, b} \<Longrightarrow> buf_contents (smem (for_upto AVTP_CHANNEL_N (\<lambda>i. on_buf ([a, b] ! i) f) w), g (bufs w ! c)) = Y c"
    using fill f by (auto simp: eq)
qed

lemma buf_aligned_advance:
  assumes "buf_aligned P b" and "unat P dvd unat n"
  shows "buf_aligned P (audio_buf_write_update b n)"
proof -
  have wf: "buf_wf b" by (rule buf_alignedD [OF assms(1)])
  have "unat P dvd unat ((wr b + n) AND size_mask b)"
    using assms by (simp add: unat_advance [OF wf refl] buf_aligned_def dvd_mod)
  then show ?thesis
    using assms wf buf_wf_write_update [OF wf, of n] by (simp add: buf_aligned_def) (simp add: audio_buf_write_update_def)
qed

text \<open>Room for the silence of the buffer, the silence before the playback and one period.\<close>

definition start_room :: "u32 \<Rightarrow> u32 \<Rightarrow> audio_buffer \<Rightarrow> bool" where
  "start_room P n b \<longleftrightarrow> unat P dvd unat (silence b) \<and> unat (silence b) + (unat n + 1) * unat P < unat (bsize b)"

definition reset_buf :: "audio_buffer \<Rightarrow> audio_buffer" where
  "reset_buf b = audio_buf_write_update (b\<lparr>rd := 0, wr := 0\<rparr>) (silence b)"

lemma reset_buf_facts:
  assumes al: "buf_aligned P b" and room: "start_room P n b"
  shows "snd (audio_buf_reset (m, b)) = reset_buf b" "buf_aligned P (reset_buf b)" "base (reset_buf b) = base b"
    "bsize (reset_buf b) = bsize b" "silence (reset_buf b) = silence b" "unat (wr (reset_buf b)) = unat (silence b)"
    "buf_used (reset_buf b) = unat (silence b)"
proof -
  let ?b = "b\<lparr>rd := 0, wr := 0\<rparr>"
  have wf: "buf_wf b" by (rule buf_alignedD [OF al])
  then have wf0: "buf_wf ?b" using buf_wf_move [OF wf, of 0 0] buf_wf_bounds [OF wf] by simp
  have "buf_aligned P ?b" using al wf0 by (simp add: buf_aligned_def)
  with room show "buf_aligned P (reset_buf b)" unfolding reset_buf_def start_room_def by (intro buf_aligned_advance) simp_all
  show snd: "snd (audio_buf_reset (m, b)) = reset_buf b"
    by (simp add: audio_buf_reset_def reset_buf_def Let_def)
  show "base (reset_buf b) = base b" "bsize (reset_buf b) = bsize b" "silence (reset_buf b) = silence b"
    by (simp_all add: reset_buf_def audio_buf_write_update_def)
  have lt: "unat (silence b) < unat (bsize b)" using room by (simp add: start_room_def)
  then show "unat (wr (reset_buf b)) = unat (silence b)"
    using unat_advance [OF wf0 refl, of 0 "silence b"] by (simp add: reset_buf_def audio_buf_write_update_def)
  have "length (buf_contents (audio_buf_reset (m, b))) = unat (silence b)"
    by (simp add: audio_buf_reset_spec(2) [OF wf lt] del: length_buf_contents)
  then show "buf_used (reset_buf b) = unat (silence b)" using snd by simp
qed

text \<open>Resetting the two channels of a stream and writing the silence before the playback.\<close>

definition start_silence :: "u32 \<Rightarrow> u32 \<Rightarrow> nat list \<Rightarrow> ('s::zero, 'h) world \<Rightarrow> ('s, 'h) world" where
  "start_silence P n channels w =
     for_upto AVTP_CHANNEL_N (\<lambda>j. on_buf (channels ! j) (\<lambda>s. audio_buf_write_silence s (n * P)))
       (for_upto AVTP_CHANNEL_N (\<lambda>i. on_buf (channels ! i) audio_buf_reset) w)"

lemma reset_pair:
  assumes ok: "world_ok P w" and ab: "a \<noteq> b" "a < length (bufs w)" "b < length (bufs w)"
    and room: "\<forall>c \<in> {a, b}. start_room P n (bufs w ! c)"
    and v: "v = for_upto AVTP_CHANNEL_N (\<lambda>i. on_buf ([a, b] ! i) audio_buf_reset) w"
  shows "world_ok P v" and "length (bufs v) = length (bufs w)" and "hws v = hws w"
    and "c \<in> {a, b} \<Longrightarrow> bufs v ! c = reset_buf (bufs w ! c)"
    and "c \<in> {a, b} \<Longrightarrow> buf_contents (smem v, bufs v ! c) = replicate (unat (silence (bufs w ! c))) AUDIO_SAMPLE_SILENCE"
proof -
  have al: "buf_aligned P (bufs w ! c)" if "c \<in> {a, b}" for c using that ab world_okD(1) [OF ok] by auto
  have fit: "unat (silence (bufs w ! c)) < unat (bsize (bufs w ! c))" if "c \<in> {a, b}" for c
    using bspec [OF room that] by (simp add: start_room_def)
  note rs = reset_buf_facts [OF al bspec [OF room]] and sp = audio_buf_reset_spec [OF buf_alignedD(1) [OF al] fit]
  have r1: "\<forall>c \<in> {a, b}. \<forall>m x. x \<notin> buf_range (bufs w ! c) \<longrightarrow> fst (audio_buf_reset (m, bufs w ! c)) x = m x"
    by (intro ballI allI impI) (rule sp(3))
  have r2: "\<forall>c \<in> {a, b}. \<forall>m. snd (audio_buf_reset (m, bufs w ! c)) = reset_buf (bufs w ! c)"
    by (intro ballI allI) (rule rs(1))
  have r3: "\<forall>c \<in> {a, b}. buf_aligned P (reset_buf (bufs w ! c)) \<and> base (reset_buf (bufs w ! c)) = base (bufs w ! c) \<and>
       bsize (reset_buf (bufs w ! c)) = bsize (bufs w ! c)"
    by (intro ballI conjI) (rule rs(2-4), assumption+)+
  have r4: "\<forall>c \<in> {a, b}. \<forall>m. buf_contents (m, bufs w ! c) = buf_contents (smem w, bufs w ! c) \<longrightarrow>
       buf_contents (audio_buf_reset (m, bufs w ! c)) = replicate (unat (silence (bufs w ! c))) AUDIO_SAMPLE_SILENCE"
    by (intro ballI allI impI) (rule sp(2))
  note p = on_buf_pair [OF ok ab r1 r2 r3 r4, folded v]
  show "world_ok P v" "length (bufs v) = length (bufs w)" "hws v = hws w" by (rule p)+
  assume "c \<in> {a, b}"
  with p(4,5) show "bufs v ! c = reset_buf (bufs w ! c)"
    "buf_contents (smem v, bufs v ! c) = replicate (unat (silence (bufs w ! c))) AUDIO_SAMPLE_SILENCE" by simp_all
qed

lemma start_silence_spec:
  assumes ok: "world_ok P w" and ab: "a \<noteq> b" "a < length (bufs w)" "b < length (bufs w)"
    and room: "\<forall>c \<in> {a, b}. start_room P n (bufs w ! c)"
    and no_wrap: "unat (n * P) = unat n * unat P"
  shows "world_ok P (start_silence P n [a, b] w)"
    and "length (bufs (start_silence P n [a, b] w)) = length (bufs w)" and "hws (start_silence P n [a, b] w) = hws w"
    and "c \<in> {a, b} \<Longrightarrow> buf_contents (smem (start_silence P n [a, b] w), bufs (start_silence P n [a, b] w) ! c) =
      replicate (unat (silence (bufs w ! c)) + unat n * unat P) AUDIO_SAMPLE_SILENCE"
    and "c \<in> {a, b} \<Longrightarrow> buf_used (bufs (start_silence P n [a, b] w) ! c) + unat P < unat (bsize (bufs (start_silence P n [a, b] w) ! c))"
proof -
  have al: "buf_aligned P (bufs w ! c)" if "c \<in> {a, b}" for c using that ab world_okD(1) [OF ok] by auto
  have fit: "unat (silence (bufs w ! c)) + (unat n * unat P + unat P) < unat (bsize (bufs w ! c))" if "c \<in> {a, b}" for c
    using bspec [OF room that] by (simp add: start_room_def)
  note rs = reset_buf_facts [OF al bspec [OF room]]
  define v where "v = for_upto AVTP_CHANNEL_N (\<lambda>i. on_buf ([a, b] ! i) audio_buf_reset) w"
  note v = reset_pair [OF ok ab room v_def]
  have ab': "a < length (bufs v)" "b < length (bufs v)" using ab v(2) by simp_all
  have vc: "bufs v ! c = reset_buf (bufs w ! c)" if "c \<in> {a, b}" for c using v(4) that .
  have wfit: "unat (wr (bufs v ! c)) + unat (n * P) \<le> unat (bsize (bufs v ! c))"
    "buf_used (bufs v ! c) + unat (n * P) < unat (bsize (bufs v ! c))" "buf_wf (bufs v ! c)" if "c \<in> {a, b}" for c
    using rs(2,4,6,7) [OF that that] fit [OF that] no_wrap by (simp_all add: vc [OF that] buf_alignedD(1))
  note sil = audio_buf_write_silence_spec [OF wfit(3,1,2)]
  have s1: "\<forall>c \<in> {a, b}. \<forall>m x. x \<notin> buf_range (bufs v ! c) \<longrightarrow> fst (audio_buf_write_silence (m, bufs v ! c) (n * P)) x = m x"
    by (intro ballI allI impI) (rule sil(2))
  have s2: "\<forall>c \<in> {a, b}. \<forall>m :: 'a mem. snd (audio_buf_write_silence (m, bufs v ! c) (n * P)) = audio_buf_write_update (bufs v ! c) (n * P)"
    by simp
  have s3: "\<forall>c \<in> {a, b}. buf_aligned P (audio_buf_write_update (bufs v ! c) (n * P)) \<and>
      base (audio_buf_write_update (bufs v ! c) (n * P)) = base (bufs v ! c) \<and> bsize (audio_buf_write_update (bufs v ! c) (n * P)) = bsize (bufs v ! c)"
  proof (intro ballI conjI)
    fix c assume "c \<in> {a, b}"
    then show "buf_aligned P (audio_buf_write_update (bufs v ! c) (n * P))"
      using rs(2) no_wrap by (intro buf_aligned_advance) (simp_all add: vc)
  qed simp_all
  have s4: "\<forall>c \<in> {a, b}. \<forall>m. buf_contents (m, bufs v ! c) = buf_contents (smem v, bufs v ! c) \<longrightarrow>
      buf_contents (audio_buf_write_silence (m, bufs v ! c) (n * P)) =
      replicate (unat (silence (bufs w ! c)) + unat n * unat P) AUDIO_SAMPLE_SILENCE"
  proof (intro ballI allI impI)
    fix c m assume c: "c \<in> {a, b}" and m: "buf_contents (m, bufs v ! c) = buf_contents (smem v, bufs v ! c)"
    have "buf_contents (m, bufs v ! c) = replicate (unat (silence (bufs w ! c))) AUDIO_SAMPLE_SILENCE"
      using v(5) [OF c] m by (simp add: vc [OF c])
    then show "buf_contents (audio_buf_write_silence (m, bufs v ! c) (n * P)) =
      replicate (unat (silence (bufs w ! c)) + unat n * unat P) AUDIO_SAMPLE_SILENCE"
      using no_wrap by (simp add: sil(1) [OF c c c] replicate_add)
  qed
  note u = on_buf_pair [OF v(1) ab(1) ab' s1 s2 s3 s4]
  have eq: "start_silence P n [a, b] w = for_upto AVTP_CHANNEL_N (\<lambda>j. on_buf ([a, b] ! j) (\<lambda>s. audio_buf_write_silence s (n * P))) v"
    by (simp add: start_silence_def v_def)
  show "world_ok P (start_silence P n [a, b] w)" "length (bufs (start_silence P n [a, b] w)) = length (bufs w)"
    "hws (start_silence P n [a, b] w) = hws w"
    using u(1-3) v(2,3) by (simp_all add: eq)
  assume c: "c \<in> {a, b}"
  show filled: "buf_contents (smem (start_silence P n [a, b] w), bufs (start_silence P n [a, b] w) ! c) =
      replicate (unat (silence (bufs w ! c)) + unat n * unat P) AUDIO_SAMPLE_SILENCE"
    using u(4,5) [OF c] by (simp add: eq)
  have "buf_used (bufs (start_silence P n [a, b] w) ! c) = unat (silence (bufs w ! c)) + unat n * unat P"
    using arg_cong [OF filled, where f = length] by simp
  moreover have "bsize (bufs (start_silence P n [a, b] w) ! c) = bsize (bufs w ! c)"
    using u(4) [OF c] rs(4) [OF c c] by (simp add: eq vc [OF c])
  ultimately show "buf_used (bufs (start_silence P n [a, b] w) ! c) + unat P < unat (bsize (bufs (start_silence P n [a, b] w) ! c))"
    using fit [OF c] by simp
qed

lemma listener_start_plays:
  assumes rx: "listener_stream_receive V st w = Some (a, w\<lparr>hws := h\<rparr>)"
    and whole: "\<not> av_bytes a <s 0" "\<not> av_bytes a < ar_cur_batch_size st"
    and time: "av_clock V h = Some time" and events: "length (av_events a) \<le> MAX_EVENTS"
      "listener_events R V st (ucast time) (av_events a) None = Scanned (Some event)"
    and n: "n = listener_periods_to_wait R st P (ucast time) event" "n < AUDIO_PIPELINE_AVB_MAX_BUFFER_SIZE - 2"
  shows "listener_start R V P st w =
    Some (Some (av_data a), st\<lparr>ar_first_start := False\<rparr>, start_silence P n (ar_channel_buf st) (w\<lparr>hws := h\<rparr>))"
  using assms by (auto simp: listener_start_def start_silence_def Let_def)

text \<open>
  What the first batch of a stream amounts to: why it cannot start it, in the order of the code's tests, or the periods of
  silence to play before it.
\<close>

datatype start_verdict = Read_failed | Too_short | No_clock | Bad_timestamp | No_timestamp | Too_far | Start_after u32

definition first_batch :: "'r avtp_float \<Rightarrow> ('f, 'h) avb_stack \<Rightarrow> u32 \<Rightarrow> 'r avtp_rx_stream \<Rightarrow> avb_answer \<Rightarrow> 'h \<Rightarrow> start_verdict" where
  "first_batch R V P st a h =
     (if av_bytes a <s 0 then Read_failed
      else if av_bytes a < ar_cur_batch_size st then Too_short
      else case av_clock V h of
        None \<Rightarrow> No_clock
      | Some time \<Rightarrow>
          if \<exists>e \<in> set (av_events a). \<not> av_invalid e \<and> \<not> event_accepted R V st (ucast time) e then Bad_timestamp
          else case find (\<lambda>e. \<not> av_invalid e) (av_events a) of
            None \<Rightarrow> No_timestamp
          | Some event \<Rightarrow>
              let n = listener_periods_to_wait R st P (ucast time) event
              in if n < AUDIO_PIPELINE_AVB_MAX_BUFFER_SIZE - 2 then Start_after n else Too_far)"

text \<open>The stream afterwards: started, or waiting as before with the reason counted.\<close>

definition first_counted :: "start_verdict \<Rightarrow> 'r avtp_rx_stream \<Rightarrow> 'r avtp_rx_stream" where
  "first_counted v st = (case v of
     Read_failed \<Rightarrow> st\<lparr>ar_sync_err := ar_sync_err st + 1\<rparr>
   | Too_short \<Rightarrow> st\<lparr>ar_start_underflow := ar_start_underflow st + 1\<rparr>
   | No_clock \<Rightarrow> st\<lparr>ar_clock_err := ar_clock_err st + 1\<rparr>
   | Bad_timestamp \<Rightarrow> st\<lparr>ar_ts_err := ar_ts_err st + 1\<rparr>
   | No_timestamp \<Rightarrow> st\<lparr>ar_event_err := ar_event_err st + 1\<rparr>
   | Too_far \<Rightarrow> st\<lparr>ar_sync_err := ar_sync_err st + 1\<rparr>
   | Start_after n \<Rightarrow> st\<lparr>ar_first_start := False, ar_received := ar_received st + 1\<rparr>)"

lemma first_batch_start:
  assumes "first_batch R V P st a h = Start_after n"
  obtains time event where "\<not> av_bytes a <s 0" "\<not> av_bytes a < ar_cur_batch_size st" "av_clock V h = Some time"
    "\<forall>e \<in> set (av_events a). \<not> av_invalid e \<longrightarrow> event_accepted R V st (ucast time) e"
    "find (\<lambda>e. \<not> av_invalid e) (av_events a) = Some event"
    "n = listener_periods_to_wait R st P (ucast time) event" "n < AUDIO_PIPELINE_AVB_MAX_BUFFER_SIZE - 2"
  using assms unfolding first_batch_def by (auto simp: Let_def split: if_splits option.splits)

lemma listener_start_refused:
  assumes rx: "listener_stream_receive V st w = Some (a, w\<lparr>hws := h\<rparr>)" and "ar_first_start st"
    and events: "length (av_events a) \<le> MAX_EVENTS" "ar_sample_size st \<noteq> 0"
    and v: "first_batch R V P st a h = v" "\<forall>n. v \<noteq> Start_after n"
  shows "listener_start R V P st w = Some (None, first_counted v st, w\<lparr>hws := h\<rparr>)"
proof -
  have same: "st\<lparr>ar_sync_err := x, ar_first_start := True\<rparr> = st\<lparr>ar_sync_err := x\<rparr>"
    "st\<lparr>ar_start_underflow := x, ar_first_start := True\<rparr> = st\<lparr>ar_start_underflow := x\<rparr>" for x
    using assms(2) by (cases st; simp)+
  note scan = listener_events_scan [OF events(2), of R V _ "av_events a" None]
  consider "av_bytes a <s 0" | "\<not> av_bytes a <s 0" "av_bytes a < ar_cur_batch_size st"
    | "\<not> av_bytes a <s 0" "\<not> av_bytes a < ar_cur_batch_size st" by blast
  then show ?thesis
  proof cases
    case 3
    show ?thesis
    proof (cases "av_clock V h")
      case None
      then show ?thesis using 3 rx v(1) by (auto simp: listener_start_def first_batch_def first_counted_def)
    next
      case (Some time)
      show ?thesis
      proof (cases "\<exists>e \<in> set (av_events a). \<not> av_invalid e \<and> \<not> event_accepted R V st (ucast time) e")
        case True
        then show ?thesis using 3 rx v(1) Some events(1) scan [of "ucast time"]
          by (simp add: listener_start_def first_batch_def first_counted_def)
      next
        case False
        then have found: "listener_events R V st (ucast time) (av_events a) None = Scanned (find (\<lambda>e. \<not> av_invalid e) (av_events a))"
          using scan [of "ucast time"] by simp
        show ?thesis
        proof (cases "find (\<lambda>e. \<not> av_invalid e) (av_events a)")
          case None
          then show ?thesis using 3 rx v(1) Some events(1) found False by (simp add: listener_start_def first_batch_def first_counted_def)
        next
          case event: (Some event)
          let ?n = "listener_periods_to_wait R st P (ucast time) event"
          have eq: "first_batch R V P st a h = (if ?n < AUDIO_PIPELINE_AVB_MAX_BUFFER_SIZE - 2 then Start_after ?n else Too_far)"
            unfolding first_batch_def using 3 Some False event by (simp add: Let_def)
          then have "\<not> ?n < AUDIO_PIPELINE_AVB_MAX_BUFFER_SIZE - 2" using v by auto
          moreover from this have "v = Too_far" using eq v(1) by simp
          ultimately show ?thesis
            using 3 rx Some events(1) found event by (simp add: listener_start_def first_counted_def Let_def not_less)
        qed
      qed
    qed
  qed (use rx v(1) same in \<open>auto simp: listener_start_def first_batch_def first_counted_def\<close>)
qed

lemma source_stream_starts:
  fixes w :: "('s::zero, 'h) world"
  assumes ok: "world_ok P w" and P: "unat P \<le> PERIOD_MAX" and ready: "rx_stream_ready w st"
    and i: "ra_stream avtp ! i = st" "i < length (ra_stream avtp)" "ar_connected st" "ar_first_start st"
    and rx: "av_receive V (the (ar_handle st)) (ar_cur_batch_size st) (hws w) = (a, h)"
      "\<not> av_bytes a <s 0" "\<not> av_bytes a < ar_cur_batch_size st"
    and time: "av_clock V h = Some time" and events: "length (av_events a) \<le> MAX_EVENTS" "ar_sample_size st \<noteq> 0"
      "\<forall>e \<in> set (av_events a). \<not> av_invalid e \<longrightarrow> event_accepted R V st (ucast time) e"
      "find (\<lambda>e. \<not> av_invalid e) (av_events a) = Some event"
    and n: "n = listener_periods_to_wait R st P (ucast time) event" "n < AUDIO_PIPELINE_AVB_MAX_BUFFER_SIZE - 2"
    and room: "\<forall>c \<in> set (ar_channel_buf st). start_room P n (bufs w ! c)"
  shows "\<exists>w'. avtp_source_run_stream F R V P i (avtp, w) =
      Some (upd_rx_stream i (\<lambda>_. st\<lparr>ar_first_start := False, ar_received := ar_received st + 1\<rparr>) avtp, w') \<and>
    world_ok P w' \<and>
    (\<forall>c < AVTP_CHANNEL_N. buf_contents (smem w', bufs w' ! (ar_channel_buf st ! c)) =
       replicate (unat (silence (bufs w ! (ar_channel_buf st ! c))) + unat n * unat P) AUDIO_SAMPLE_SILENCE @
         received_block F st P (av_data a) c)"
proof -
  obtain x y where xy: "ar_channel_buf st = [x, y]" "x \<noteq> y" "x < length (bufs w)" "y < length (bufs w)"
    using ready by (rule rx_stream_ready_channels)
  have no_wrap: "unat (n * P) = unat n * unat P"
  proof (rule unat_mult_lem [THEN iffD1])
    have "unat n < 256" using n(2) by (simp add: word_less_nat_alt)
    then have "unat n * unat P \<le> 256 * 32" using P by (intro mult_le_mono) simp_all
    then show "unat n * unat P < 2 ^ LENGTH(32)" by simp
  qed
  let ?w = "w\<lparr>hws := h\<rparr>"
  have "world_ok P ?w" "x < length (bufs ?w)" "y < length (bufs ?w)" "\<forall>c \<in> {x, y}. start_room P n (bufs ?w ! c)"
    using ok xy room by auto
  note v = start_silence_spec [OF this(1) xy(2) this(2-4) no_wrap]
  let ?v = "start_silence P n [x, y] ?w"
  have "listener_events R V st (ucast time) (av_events a) None = Scanned (Some event)"
    using listener_events_scan [OF events(2), of R V "ucast time" "av_events a" None] events(3,4) by auto
  with rx(2,3) time events(1) n have start: "listener_start R V P st w = Some (Some (av_data a), st\<lparr>ar_first_start := False\<rparr>, ?v)"
    using listener_start_plays [where w = w and a = a and h = h and R = R and V = V and st = st] rx_receives [OF ready i(3), of V] rx(1) xy(1)
    by simp
  have "rx_stream_ready ?v st" using ready v(2) by (simp add: rx_stream_ready_def)
  from run_stream_received [OF v(1) P this i(1-3), where st' = "st\<lparr>ar_first_start := False\<rparr>" and data = "av_data a" and F = F and w = w]
  obtain w' where run: "avtp_source_run_stream F R V P i (avtp, w) =
      Some (upd_rx_stream i (\<lambda>_. st\<lparr>ar_first_start := False, ar_received := ar_received st + 1\<rparr>) avtp, w')"
    and out: "outs_emitted P [x, y] (received_block F st P (av_data a)) ?v w'"
    using start i(4) xy(1) by auto
  have "buf_contents (smem w', bufs w' ! ([x, y] ! c)) = buf_contents (smem ?v, bufs ?v ! ([x, y] ! c)) @ received_block F st P (av_data a) c"
    if "c < 2" for c
    using that xy v(2) v(5) [of "[x, y] ! c"] by (intro outs_emitted_contents [OF v(1) _ _ _ out]) (auto simp: less_Suc_eq numeral_2_eq_2)
  moreover have "[x, y] ! c \<in> {x, y}" if "c < 2" for c using that by (auto simp: less_Suc_eq numeral_2_eq_2)
  ultimately show ?thesis
    using run outs_emitted_world_ok [OF out v(1)] v(4) unfolding xy(1) by auto
qed

text \<open>
  C33. A connected stream that has to start, in one period. It starts exactly when its first batch is whole, the clock answers,
  all the valid timestamps of the batch are acceptable, there is one, and playback lies less than 254 periods ahead. Its two
  channels then hold, if there is room, the silence of the buffer, one period of silence for every period to wait, and the
  received period, in this order and nothing else; the stream is started, one more batch counts as received, and the buffers
  keep their alignment. Any other first batch plays one period of silence on the two channels and changes nothing else in the
  buffers and in memory; the reason is counted in its one counter and the stream still has to start.
\<close>

theorem avtp_source_starts:
  fixes w :: "('s::zero, 'h) world"
  assumes ok: "world_ok P w" and P: "unat P \<le> PERIOD_MAX" and ready: "rx_stream_ready w st"
    and i: "ra_stream avtp ! i = st" "i < length (ra_stream avtp)" "ar_connected st" "ar_first_start st"
    and rx: "av_receive V (the (ar_handle st)) (ar_cur_batch_size st) (hws w) = (a, h)"
    and events: "length (av_events a) \<le> MAX_EVENTS" "ar_sample_size st \<noteq> 0"
    and room: "\<forall>n. first_batch R V P st a h = Start_after n \<longrightarrow> (\<forall>c \<in> set (ar_channel_buf st). start_room P n (bufs w ! c))"
  shows "\<exists>w'. avtp_source_run_stream F R V P i (avtp, w) =
      Some (upd_rx_stream i (\<lambda>_. first_counted (first_batch R V P st a h) st) avtp, w') \<and>
    (case first_batch R V P st a h of
       Start_after n \<Rightarrow> world_ok P w' \<and>
         (\<forall>c < AVTP_CHANNEL_N. buf_contents (smem w', bufs w' ! (ar_channel_buf st ! c)) =
            replicate (unat (silence (bufs w ! (ar_channel_buf st ! c))) + unat n * unat P) AUDIO_SAMPLE_SILENCE @
              received_block F st P (av_data a) c)
     | _ \<Rightarrow> outs_emitted P (ar_channel_buf st) (\<lambda>_. replicate (unat P) AUDIO_SAMPLE_SILENCE) (w\<lparr>hws := h\<rparr>) w' \<and>
         ar_first_start (first_counted (first_batch R V P st a h) st))"
proof -
  let ?v = "first_batch R V P st a h"
  show ?thesis
  proof (cases "\<exists>n. ?v = Start_after n")
    case True
    then obtain n where n: "?v = Start_after n" by blast
    then obtain time event where b: "\<not> av_bytes a <s 0" "\<not> av_bytes a < ar_cur_batch_size st" "av_clock V h = Some time"
      "\<forall>e \<in> set (av_events a). \<not> av_invalid e \<longrightarrow> event_accepted R V st (ucast time) e"
      "find (\<lambda>e. \<not> av_invalid e) (av_events a) = Some event"
      "n = listener_periods_to_wait R st P (ucast time) event" "n < AUDIO_PIPELINE_AVB_MAX_BUFFER_SIZE - 2"
      by (rule first_batch_start)
    have "\<forall>c \<in> set (ar_channel_buf st). start_room P n (bufs w ! c)" using room n by blast
    from source_stream_starts [OF ok P ready i rx b(1-3) events b(4-7) this, of F] show ?thesis
      unfolding n by (simp add: first_counted_def)
  next
    case False
    let ?w = "w\<lparr>hws := h\<rparr>"
    have start: "listener_start R V P st w = Some (None, first_counted ?v st, ?w)"
      using False rx rx_receives [OF ready i(3), of V] by (intro listener_start_refused [OF _ i(4) events refl]) auto
    have ok': "world_ok P ?w" and ready': "rx_stream_ready ?w st" using ok ready by (simp_all add: rx_stream_ready_def)
    have "(if ar_connected st then listener_receive F R V i P (avtp, w) else Some (- 1, avtp, w)) =
        Some (- 1, upd_rx_stream i (\<lambda>_. first_counted ?v st) avtp, ?w)"
      using i start by (simp add: listener_receive_def)
    from run_stream_silent [OF ok' ready' i(1,2) this] obtain w' where w':
      "avtp_source_run_stream F R V P i (avtp, w) = Some (upd_rx_stream i (\<lambda>_. first_counted ?v st) avtp, w')"
      "outs_emitted P (ar_channel_buf st) (\<lambda>_. replicate (unat P) AUDIO_SAMPLE_SILENCE) ?w w'" by blast
    have "ar_first_start (first_counted ?v st)"
      using False i(4) by (cases ?v) (simp_all add: first_counted_def)
    then show ?thesis using w' False by (cases ?v) auto
  qed
qed

section \<open>Emptying a stream\<close>

abbreviation (input) after_receptions :: "('f, 'h) avb_stack \<Rightarrow> nat \<Rightarrow> u32 \<Rightarrow> 'h \<Rightarrow> nat \<Rightarrow> 'h" where
  "after_receptions V handle batch h k \<equiv> ((\<lambda>h. snd (av_receive V handle batch h)) ^^ k) h"

lemma drain_stops:
  assumes "unat batch \<le> 4 * (AVTP_CHANNEL_N * PERIOD_MAX)"
    and "\<forall>j < k. av_bytes (fst (av_receive V handle batch (after_receptions V handle batch h j))) \<noteq> 0"
    and "av_bytes (fst (av_receive V handle batch (after_receptions V handle batch h k))) = 0"
  shows "avtp_source_drain V handle batch h = Some (after_receptions V handle batch h (Suc k))"
  using assms(2,3)
proof (induction k arbitrary: h)
  case 0
  then show ?case using assms(1) by (subst avtp_source_drain.simps) (simp add: case_prod_beta)
next
  case (Suc k)
  let ?h = "snd (av_receive V handle batch h)"
  have "av_bytes (fst (av_receive V handle batch h)) \<noteq> 0" using Suc.prems(1) by force
  moreover have "avtp_source_drain V handle batch ?h = Some (after_receptions V handle batch ?h (Suc k))"
    using Suc.prems by (intro Suc.IH) (force simp: funpow_Suc_right simp del: funpow.simps)+
  ultimately show ?case
    using assms(1) by (subst avtp_source_drain.simps) (simp add: case_prod_beta funpow_Suc_right del: funpow.simps)
qed

lemma drain_stopped:
  fixes V :: "('f, 'h) avb_stack"
  shows "avtp_source_drain V handle batch h = Some h' \<Longrightarrow>
    \<exists>k. (\<forall>j < k. av_bytes (fst (av_receive V handle batch (after_receptions V handle batch h j))) \<noteq> 0) \<and>
      av_bytes (fst (av_receive V handle batch (after_receptions V handle batch h k))) = 0"
proof (erule avtp_source_drain.raw_induct [rotated])
  fix drain handle batch and V :: "('f, 'h) avb_stack" and h h' :: 'h
  assume IH: "\<And>(V :: ('f, 'h) avb_stack) handle batch h h'. drain V handle batch h = Some h' \<Longrightarrow>
      \<exists>k. (\<forall>j < k. av_bytes (fst (av_receive V handle batch (after_receptions V handle batch h j))) \<noteq> 0) \<and>
        av_bytes (fst (av_receive V handle batch (after_receptions V handle batch h k))) = 0"
    and eq: "(if 4 * (AVTP_CHANNEL_N * PERIOD_MAX) < unat batch then None
      else let (a, h) = av_receive V handle batch h in if av_bytes a \<noteq> 0 then drain V handle batch h else Some h) = Some h'"
  obtain a h1 where rx: "av_receive V handle batch h = (a, h1)" by force
  show "\<exists>k. (\<forall>j < k. av_bytes (fst (av_receive V handle batch (after_receptions V handle batch h j))) \<noteq> 0) \<and>
      av_bytes (fst (av_receive V handle batch (after_receptions V handle batch h k))) = 0"
  proof (cases "av_bytes a = 0")
    case True
    then show ?thesis using rx by (intro exI [of _ 0]) simp
  next
    case False
    then have "drain V handle batch h1 = Some h'" using eq rx by (simp split: if_splits)
    then obtain k where
      "\<forall>j < k. av_bytes (fst (av_receive V handle batch (after_receptions V handle batch h1 j))) \<noteq> 0"
      "av_bytes (fst (av_receive V handle batch (after_receptions V handle batch h1 k))) = 0"
      by (elim IH [THEN exE] conjE)
    then show ?thesis
      using False rx by (intro exI [of _ "Suc k"]) (simp add: All_less_Suc2 funpow_Suc_right del: funpow.simps)
  qed
qed

text \<open>
  C35. Resetting a network source receives from each of its streams, whose batch fits the array, until the answer is zero. This returns exactly when, after
  finitely many receptions with another answer, errors included, there is one with the answer zero; the stack is then as after that
  reception. A stream whose receptions only fail is never left.
\<close>

theorem avtp_source_drain_outcome:
  assumes "unat batch \<le> 4 * (AVTP_CHANNEL_N * PERIOD_MAX)"
  shows "avtp_source_drain V handle batch h = Some h' \<longleftrightarrow>
    (\<exists>k. (\<forall>j < k. av_bytes (fst (av_receive V handle batch (after_receptions V handle batch h j))) \<noteq> 0) \<and>
         av_bytes (fst (av_receive V handle batch (after_receptions V handle batch h k))) = 0 \<and>
         h' = after_receptions V handle batch h (Suc k))"
proof
  assume drain: "avtp_source_drain V handle batch h = Some h'"
  obtain k where k: "\<forall>j < k. av_bytes (fst (av_receive V handle batch (after_receptions V handle batch h j))) \<noteq> 0"
    "av_bytes (fst (av_receive V handle batch (after_receptions V handle batch h k))) = 0"
    using drain_stopped [OF drain] by blast
  then have "h' = after_receptions V handle batch h (Suc k)" using drain_stops [OF assms k] drain by simp
  with k show "\<exists>k. (\<forall>j < k. av_bytes (fst (av_receive V handle batch (after_receptions V handle batch h j))) \<noteq> 0) \<and>
         av_bytes (fst (av_receive V handle batch (after_receptions V handle batch h k))) = 0 \<and>
         h' = after_receptions V handle batch h (Suc k)" by blast
next
  assume "\<exists>k. (\<forall>j < k. av_bytes (fst (av_receive V handle batch (after_receptions V handle batch h j))) \<noteq> 0) \<and>
         av_bytes (fst (av_receive V handle batch (after_receptions V handle batch h k))) = 0 \<and>
         h' = after_receptions V handle batch h (Suc k)"
  then show "avtp_source_drain V handle batch h = Some h'" by (elim exE conjE) (simp only: drain_stops [OF assms])
qed

section \<open>Examples\<close>

text \<open>
  A stack whose first reception gives a batch with one event and whose others are empty, its state the number of receptions; integer
  arithmetic; a source with one stream on buffers of 16 samples.
\<close>

definition demo_listener :: "(unit, nat) avb_stack" where
  "demo_listener =
     \<lparr>av_is_aaf_pcm = (\<lambda>_. True), av_is_61883_6 = (\<lambda>_. False), av_channels_per_sample = (\<lambda>_. 2), av_sample_rate = (\<lambda>_. 48000),
      av_sample_size = (\<lambda>_. 8), av_samples_per_packet = (\<lambda>_ _. 6), av_default_domain = 0, av_create = (\<lambda>_ _ _ h. (Some 1, h)),
      av_destroy = (\<lambda>_ h. h),
      av_receive = (\<lambda>_ _ h. (\<lparr>av_bytes = if h = 0 then 16 else 0, av_data = of_nat, av_events = [\<lparr>av_invalid = False, av_ts = 0, av_index = 0\<rparr>]\<rparr>, Suc h)),
      av_send = (\<lambda>_ _ len h. (len, h)), av_flush = (\<lambda>_ h. h), av_clock = (\<lambda>_. Some 875000), av_transit = (\<lambda>_. 0),
      av_uncertainty = (\<lambda>_. 0), av_after = (>), av_before = (<)\<rparr>"

definition demo_float :: "int avtp_float" where
  "demo_float = \<lparr>vf_of_u32 = uint, vf_to_u32 = word_of_int, vf_sub = (-), vf_mul = (*), vf_div = (div), vf_ceil = (\<lambda>x. x)\<rparr>"

definition demo_rx_stream :: "int avtp_rx_stream" where
  "demo_rx_stream = (zeroed_rx_stream 20833)\<lparr>ar_connected := True, ar_handle := Some 1, ar_cur_batch_size := 16, ar_sample_size := 8,
     ar_channel_buf := [1, 0], ar_convert := True, ar_mask := 0xffffffff\<rparr>"

definition demo_avtp_source :: "int avtp_source" where
  "demo_avtp_source = \<lparr>ra_stream_n = 1, ra_stream = [demo_rx_stream, zeroed_rx_stream 0], ra_out_n = 4, ra_out = [1, 0, 0, 0],
     ra_genavb_h = Some 0, ra_clock_domain = 0\<rparr>"

definition demo_rx_world :: "'h \<Rightarrow> (int, 'h) world" where
  "demo_rx_world h = \<lparr>smem = (\<lambda>_. Sample 9), bufs = [demo_slot 0 16, demo_slot 16 16], hws = h\<rparr>"

definition demo_source_element :: audio_element where
  "demo_source_element = \<lparr>el_type = AUDIO_ELEMENT_AVTP_SOURCE, el_sample_rate = 48000, el_period = 2, el_id = 0\<rparr>"

lemma demo_rx_world_ok: "world_ok 2 (demo_rx_world h)"
proof -
  have "buf_aligned 2 (demo_slot x 16)" for x by (rule demo_slot_aligned [of 4]) simp_all
  then show ?thesis by (auto simp: world_ok_def demo_rx_world_def buf_apart_def less_Suc_eq)
qed

lemma demo_rx_ready: "rx_stream_ready (demo_rx_world h) demo_rx_stream"
  by (simp add: rx_stream_ready_def demo_rx_stream_def demo_rx_world_def)

lemma demo_received:
  "received_block int_format demo_rx_stream 2 of_nat 0 = [Sample 0, Sample 2]"
  by (simp add: received_block_def received_cell_def demo_rx_stream_def upt_rec from_cell_def
      zeroed_rx_stream_def Let_def)

theorem avtp_source_plays_witness:
  "\<exists>avtp w. avtp_source_element_run int_format demo_float demo_listener demo_source_element demo_avtp_source (demo_rx_world 0) = Some (0, avtp, w) \<and>
     hws w = 1 \<and> write_block 2 (smem w) (demo_slot 16 16) = [Sample 0, Sample 2] \<and> ar_received (ra_stream avtp ! 0) = 1"
proof -
  have P: "el_period demo_source_element = 2" by (simp add: demo_source_element_def)
  have n: "unat (ra_stream_n demo_avtp_source) = Suc 0" by (simp add: demo_avtp_source_def)
  have "avtp_source_ready 2 demo_avtp_source (demo_rx_world 0)"
    by (simp add: avtp_source_ready_def demo_avtp_source_def demo_rx_world_ok demo_rx_ready)
  moreover have "\<forall>i < unat (ra_stream_n demo_avtp_source). rx_stream_steady (ra_stream demo_avtp_source ! i)"
    by (simp add: demo_avtp_source_def rx_stream_steady_def demo_rx_stream_def zeroed_rx_stream_def)
  ultimately obtain avtp w where
    run: "avtp_source_element_run int_format demo_float demo_listener demo_source_element demo_avtp_source (demo_rx_world 0) = Some (0, avtp, w)"
    and heard: "streams_heard int_format demo_listener 2 demo_avtp_source (demo_rx_world 0) (Suc 0) (avtp, w)"
    using avtp_source_plays [where el = demo_source_element and avtp = demo_avtp_source and w = "demo_rx_world 0"
        and F = int_format and V = demo_listener and R = demo_float] unfolding P n by auto
  let ?st = "demo_rx_stream\<lparr>ar_received := 1\<rparr>"
  have "stream_played demo_listener (demo_rx_stream, 0) = (Some of_nat, ?st, 1)"
    by (simp add: stream_played_def demo_rx_stream_def demo_listener_def zeroed_rx_stream_def word_sless_alt)
  then have "streams_played demo_listener (Suc 0) (ra_stream demo_avtp_source, hws (demo_rx_world 0)) = ([Some of_nat], [?st, zeroed_rx_stream 0], 1)"
    by (simp add: streams_played_def demo_avtp_source_def demo_rx_world_def)
  then have "avtp = demo_avtp_source\<lparr>ra_stream := [?st, zeroed_rx_stream 0]\<rparr>" "hws w = 1"
    and out: "outs_emitted 2 [1, 0] (\<lambda>q. played_block int_format (ra_stream demo_avtp_source ! (q div 2)) 2 ([Some of_nat] ! (q div 2)) (q mod 2))
      (demo_rx_world 1) w"
    using heard by (simp_all add: streams_heard_def source_outs_def demo_avtp_source_def demo_rx_stream_def demo_rx_world_def)
  moreover have "write_block 2 (smem w) (demo_slot 16 16) = received_block int_format demo_rx_stream 2 of_nat 0"
  proof -
    have "\<forall>i < length [1, 0 :: nat]. write_block 2 (smem w) (bufs (demo_rx_world (1 :: nat)) ! ([1, 0] ! i)) =
        played_block int_format (ra_stream demo_avtp_source ! (i div 2)) 2 ([Some of_nat] ! (i div 2)) (i mod 2)"
      using out unfolding outs_emitted_def by blast
    from this [rule_format, of 0] show ?thesis by (simp add: demo_rx_world_def demo_avtp_source_def played_block_def)
  qed
  ultimately show ?thesis using run by (simp add: demo_received)
qed

theorem avtp_source_starts_witness:
  "\<exists>avtp w. avtp_source_run_stream int_format demo_float demo_listener 2 0
       (demo_avtp_source\<lparr>ra_stream := [demo_rx_stream\<lparr>ar_first_start := True\<rparr>, zeroed_rx_stream 0]\<rparr>, demo_rx_world 0) = Some (avtp, w) \<and>
     buf_contents (smem w, bufs w ! 1) = replicate 6 (Sample 0) @ [Sample 0, Sample 2]"
proof -
  let ?st = "demo_rx_stream\<lparr>ar_first_start := True\<rparr>" and ?avtp = "demo_avtp_source\<lparr>ra_stream := [demo_rx_stream\<lparr>ar_first_start := True\<rparr>, zeroed_rx_stream 0]\<rparr>"
  let ?e = "\<lparr>av_invalid = False, av_ts = 0, av_index = 0\<rparr>"
  let ?a = "\<lparr>av_bytes = 16, av_data = of_nat, av_events = [?e]\<rparr>"
  have ready: "rx_stream_ready (demo_rx_world 0) ?st" using demo_rx_ready [of 0] by (simp add: rx_stream_ready_def)
  have chan: "ar_channel_buf ?st = [1, 0]" by (simp add: demo_rx_stream_def)
  have rx: "av_receive demo_listener (the (ar_handle ?st)) (ar_cur_batch_size ?st) (hws (demo_rx_world 0)) = (?a, 1)"
    by (simp add: demo_listener_def demo_rx_world_def)
  have acc: "event_accepted demo_float demo_listener ?st (ucast (875000 :: u64)) ?e"
    by (simp add: event_accepted_def listener_timestamp_accept_def demo_listener_def demo_rx_stream_def)
  have wait: "3 = listener_periods_to_wait demo_float ?st 2 (ucast (875000 :: u64)) ?e"
    by (simp add: listener_periods_to_wait_def demo_float_def demo_rx_stream_def zeroed_rx_stream_def)
  have "\<forall>c \<in> set (ar_channel_buf ?st). start_room 2 3 (bufs (demo_rx_world 0) ! c)"
    by (simp add: chan start_room_def demo_rx_world_def)
  moreover have verdict: "first_batch demo_float demo_listener 2 ?st ?a 1 = Start_after 3"
    using acc wait [symmetric] by (simp add: first_batch_def demo_listener_def demo_rx_stream_def word_sless_alt)
  ultimately obtain w' where run: "avtp_source_run_stream int_format demo_float demo_listener 2 0 (?avtp, demo_rx_world 0) =
      Some (upd_rx_stream 0 (\<lambda>_. first_counted (Start_after 3) ?st) ?avtp, w')"
    and filled: "\<forall>c < AVTP_CHANNEL_N. buf_contents (smem w', bufs w' ! (ar_channel_buf ?st ! c)) =
       replicate (unat (silence (bufs (demo_rx_world (0 :: nat)) ! (ar_channel_buf ?st ! c))) + unat (3 :: u32) * unat (2 :: u32)) AUDIO_SAMPLE_SILENCE @
         received_block int_format ?st 2 (av_data ?a) c"
    using avtp_source_starts [where w = "demo_rx_world 0" and st = ?st and avtp = ?avtp and i = 0 and F = int_format and R = demo_float
      and V = demo_listener and a = ?a and h = 1, OF demo_rx_world_ok _ ready _ _ _ _ rx, unfolded verdict]
    by (auto simp: demo_avtp_source_def demo_rx_stream_def)
  have "received_block int_format ?st 2 of_nat 0 = [Sample 0, Sample 2]"
    using demo_received by (simp add: received_block_def received_cell_def cong: if_cong)
  with filled [rule_format, of 0] have "buf_contents (smem w', bufs w' ! 1) = replicate 6 (Sample 0) @ [Sample 0, Sample 2]"
    by (simp add: chan demo_rx_world_def)
  with run show ?thesis by blast
qed

theorem avtp_source_drain_outcome_witness: "avtp_source_drain demo_listener 1 16 0 = Some 2"
proof -
  have "unat (16 :: u32) \<le> 4 * (AVTP_CHANNEL_N * PERIOD_MAX)" by simp
  moreover have "\<exists>k. (\<forall>j < k. av_bytes (fst (av_receive demo_listener 1 16 (after_receptions demo_listener 1 16 0 j))) \<noteq> 0) \<and>
      av_bytes (fst (av_receive demo_listener 1 16 (after_receptions demo_listener 1 16 0 k))) = 0 \<and>
      2 = after_receptions demo_listener 1 16 0 (Suc k)"
    by (intro exI [of _ 1]) (simp add: demo_listener_def)
  ultimately show ?thesis by (rule avtp_source_drain_outcome [THEN iffD2])
qed

text \<open>
  The bound on the stream of a command admits the number of streams itself: with two streams a command for the third reaches
  beyond the array.
\<close>

lemma avtp_source_ctrl_beyond:
  assumes "el_type el = AUDIO_ELEMENT_AVTP_SOURCE" and "vm_type cmd = AUDIO_CMD_TYPE_ELEMENT_AVTP_SOURCE_DISCONNECT"
    and "vm_stream_index cmd = 2" and "ra_stream_n avtp = 2" and "length (ra_stream avtp) = AVTP_STREAM_N"
  shows "avtp_source_element_ctrl R V Z (Some (el, avtp)) cmd (vz_disconnect Z) c h = None"
  using assms by (simp add: avtp_source_element_ctrl_def avtp_source_disconnect_def)

text \<open>A stream that answers every reception with an error keeps the reset of the source for ever.\<close>

lemma avtp_source_reset_hangs:
  assumes "unat batch \<le> 4 * (AVTP_CHANNEL_N * PERIOD_MAX)" and "\<And>h. av_bytes (fst (av_receive V handle batch h)) \<noteq> 0"
  shows "avtp_source_drain V handle batch h = None"
  using drain_stopped [of V handle batch h] assms(2) by (cases "avtp_source_drain V handle batch h") auto

end
