(* ===== verification/Play_Pipeline.thy ===== *)
theory Play_Pipeline
  imports Audio_Pipeline Tsn_Resource "HOL-Library.Monad_Syntax"
begin

text \<open>
  The pipeline behind one data thread, \<open>audio/play_pipeline.c\<close> in the build without the network stack: its creation from a
  configuration, its events, and its end, with the memory it takes.
\<close>

section \<open>State\<close>

text \<open>
  \<open>struct audio_config\<close>, \<open>struct event\<close> and \<open>struct pipeline_ctx\<close> of \<open>audio/audio.h\<close>. A pipeline is known by its address in the table of
  pipelines, the context by the memory it lies in; the semaphore of the thread is the thread's own.
\<close>

record 's audio_config =
  ag_rate :: u32
  ag_period :: u32
  ag_pipeline_id :: u8
  ag_data :: "'s pipeline_config"

record audio_event =
  ev_type :: u32
  ev_data :: u32

record pipeline_ctx =
  pc_mem :: nat
  pc_pipeline :: nat
  pc_run :: u64
  pc_err :: u64
  pc_id :: u8

abbreviation (input) EVENT_TYPE_DATA :: u32 where "EVENT_TYPE_DATA \<equiv> 0"
abbreviation (input) EVENT_TYPE_RESET :: u32 where "EVENT_TYPE_RESET \<equiv> 1"
abbreviation (input) EVENT_TYPE_RESET_ASYNC :: u32 where "EVENT_TYPE_RESET_ASYNC \<equiv> 2"

text \<open>Looking up and updating the pipeline at an address; an address that is not in the table is a trap.\<close>

definition pipeline_place :: "'s audio_pipeline option list \<Rightarrow> nat \<Rightarrow> nat option" where
  "pipeline_place table addr =
     List.find (\<lambda>i. case table ! i of None \<Rightarrow> False | Some p \<Rightarrow> pp_addr p = addr) [0..<length table]"

definition on_pipeline ::
  "nat \<Rightarrow> ('s audio_pipeline \<times> 's mem \<times> 'h \<Rightarrow> ('r \<times> 's audio_pipeline \<times> 's mem \<times> 'h) option) \<Rightarrow> ('s, 'h) audio_sys \<Rightarrow>
     ('r \<times> ('s, 'h) audio_sys) option" where
  "on_pipeline addr f a =
     do {
       i \<leftarrow> pipeline_place (sys_table a) addr;
       p \<leftarrow> sys_table a ! i;
       (r, p, m, h) \<leftarrow> f (p, sys_mem a, sys_hw a);
       Some (r, \<lparr>sys_mem = m, sys_hw = h, sys_table = (sys_table a)[i := Some p]\<rparr>)
     }"

section \<open>Operations\<close>

definition play_pipeline_stats :: "pipeline_ctx \<Rightarrow> ('s, 'h) audio_sys \<Rightarrow> ('s, 'h) audio_sys option" where
  "play_pipeline_stats ctx a =
     map_option snd (on_pipeline (pc_pipeline ctx) (\<lambda>(p, m, h). map_option (\<lambda>p. ((), p, m, h)) (audio_pipeline_stats p)) a)"

text \<open>The second component tells whether the semaphore of the thread is given.\<close>

definition play_pipeline_run ::
  "('s::zero, 'h) audio_env \<Rightarrow> pipeline_ctx \<Rightarrow> audio_event \<Rightarrow> ('s, 'h) audio_sys \<Rightarrow> (int \<times> bool \<times> pipeline_ctx \<times> ('s, 'h) audio_sys) option" where
  "play_pipeline_run E ctx e a =
     (let reset = on_pipeline (pc_pipeline ctx) (\<lambda>s. map_option (Pair ()) (audio_pipeline_reset E s)) a in
      if ev_type e = EVENT_TYPE_DATA then
        (let ctx = ctx\<lparr>pc_run := pc_run ctx + 1\<rparr> in
         do {
           (err, a) \<leftarrow> on_pipeline (pc_pipeline ctx) (audio_pipeline_run E) a;
           Some (err, False, if err \<noteq> 0 then ctx\<lparr>pc_err := pc_err ctx + 1\<rparr> else ctx, a)
         })
      else if ev_type e = EVENT_TYPE_RESET then map_option (\<lambda>(_, a). (0, False, ctx, a)) reset
      else if ev_type e = EVENT_TYPE_RESET_ASYNC then map_option (\<lambda>(_, a). (0, True, ctx, a)) reset
      else Some (0, False, ctx, a))"

text \<open>
  \<open>block\<close> is what the allocation of the pipeline's own memory returns, \<open>mutex_ok\<close> which of its mutexes can be initialised, \<open>A\<close> which
  allocations of the context and of the copy of the configuration succeed.
\<close>

definition play_pipeline_init ::
  "('s::zero, 'h) audio_env \<Rightarrow> pipeline_sizes \<Rightarrow> (nat \<Rightarrow> bool) \<Rightarrow> nat option \<Rightarrow> (nat \<Rightarrow> nat \<Rightarrow> bool) \<Rightarrow> 's audio_config \<Rightarrow>
     ('s, 'h) audio_sys \<times> sys \<Rightarrow> (pipeline_ctx option \<times> ('s, 'h) audio_sys \<times> sys) option" where
  "play_pipeline_init E Z A block mutex_ok cfg st =
     (let (a, s) = st in
      case acquire A Memory s of
        (None, s) \<Rightarrow> Some (None, a, s)
      | (Some ctx_mem, s) \<Rightarrow>
          (case acquire A Memory s of
             (None, s) \<Rightarrow> map_option (\<lambda>s. (None, a, s)) (release Memory ctx_mem s)
           | (Some cfg_mem, s) \<Rightarrow>
               (let pipeline_cfg = (ag_data cfg)\<lparr>pf_sample_rate := ag_rate cfg, pf_period := ag_period cfg\<rparr> in
                do {
                  (pipeline, _, a) \<leftarrow> audio_pipeline_init E Z block mutex_ok pipeline_cfg a;
                  s \<leftarrow> release Memory cfg_mem s;
                  (case pipeline of
                     None \<Rightarrow> map_option (\<lambda>s. (None, a, s)) (release Memory ctx_mem s)
                   | Some addr \<Rightarrow>
                       Some (Some \<lparr>pc_mem = ctx_mem, pc_pipeline = addr, pc_run = 0, pc_err = 0, pc_id = ag_pipeline_id cfg\<rparr>, a, s))
                })))"

definition play_pipeline_exit ::
  "('s, 'h) audio_env \<Rightarrow> pipeline_ctx \<Rightarrow> ('s, 'h) audio_sys \<times> sys \<Rightarrow> (('s, 'h) audio_sys \<times> sys) option" where
  "play_pipeline_exit E ctx st =
     (let (a, s) = st in
      do {
        i \<leftarrow> pipeline_place (sys_table a) (pc_pipeline ctx);
        p \<leftarrow> sys_table a ! i;
        a \<leftarrow> audio_pipeline_exit E p a;
        s \<leftarrow> release Memory (pc_mem ctx) s;
        Some (a, s)
      })"

end
