(* ===== verification/Sai_Drv.thy ===== *)
theory Sai_Drv
  imports Prelude "HOL-Library.Monad_Syntax"
begin

unbundle bit_operations_syntax

text \<open>
  The driver of the serial audio interfaces, \<open>audio/sai_drv.c\<close> and \<open>audio/sai_drv.h\<close>: starting and stopping the two directions of
  an instance through its registers, its setup, and the dispatch of its interrupts. The build is the one with FIFOs and with a
  table of interrupt handlers (Cortex-M).
\<close>

section \<open>The hardware and its library\<close>

text \<open>
  Registers and functions of the vendor library, on a state of type \<open>'d\<close>; an instance is its base address. The masks are those of the
  vendor's register definitions, \<open>sp_flags\<close> the three error flags cleared when a direction stops. \<open>'t\<close> is the library's
  transceiver configuration; \<open>sp_rx_irq\<close> and \<open>sp_tx_irq\<close> give the status values the library's interrupt routines call back with.
\<close>

record sai_masks =
  sk_rcr2_sync :: u32
  sk_tcr2_sync :: u32
  sk_re :: u32
  sk_te :: u32
  sk_rcsr_sr :: u32
  sk_rcsr_fr :: u32
  sk_tcsr_sr :: u32
  sk_tcsr_fr :: u32
  sk_flags :: u32
  sk_feie :: u32
  sk_frie :: u32
  sk_fef :: u32
  sk_frf :: u32

record 't transceiver =
  tr_format :: 't
  tr_sync_mode :: u32
  tr_master_slave :: u32
  tr_bclk_source :: u32
  tr_masked_word :: u32
  tr_watermark :: u32

record ('t, 'd) sai_port =
  sp_bases :: "nat option list"
  sp_masks :: sai_masks
  sp_fifo_count :: "nat \<Rightarrow> u32"
  sp_rcr2 :: "nat \<Rightarrow> 'd \<Rightarrow> u32"
  sp_tcr2 :: "nat \<Rightarrow> 'd \<Rightarrow> u32"
  sp_rcsr :: "nat \<Rightarrow> 'd \<Rightarrow> u32"
  sp_tcsr :: "nat \<Rightarrow> 'd \<Rightarrow> u32"
  sp_set_rcsr :: "nat \<Rightarrow> u32 \<Rightarrow> 'd \<Rightarrow> 'd"
  sp_set_tcsr :: "nat \<Rightarrow> u32 \<Rightarrow> 'd \<Rightarrow> 'd"
  sp_rx_enable_interrupts :: "nat \<Rightarrow> u32 \<Rightarrow> 'd \<Rightarrow> 'd"
  sp_tx_enable_interrupts :: "nat \<Rightarrow> u32 \<Rightarrow> 'd \<Rightarrow> 'd"
  sp_rx_disable_interrupts :: "nat \<Rightarrow> u32 \<Rightarrow> 'd \<Rightarrow> 'd"
  sp_tx_disable_interrupts :: "nat \<Rightarrow> u32 \<Rightarrow> 'd \<Rightarrow> 'd"
  sp_init :: "nat \<Rightarrow> 'd \<Rightarrow> 'd"
  sp_deinit :: "nat \<Rightarrow> 'd \<Rightarrow> 'd"
  sp_classic :: "u32 \<Rightarrow> 't transceiver"
  sp_tdm :: "u32 \<Rightarrow> u32 \<Rightarrow> 't transceiver"
  sp_tx_config :: "nat \<Rightarrow> 't transceiver \<Rightarrow> 'd \<Rightarrow> 'd"
  sp_rx_config :: "nat \<Rightarrow> 't transceiver \<Rightarrow> 'd \<Rightarrow> 'd"
  sp_tx_error_continue :: "nat \<Rightarrow> 'd \<Rightarrow> 'd"
  sp_rx_error_continue :: "nat \<Rightarrow> 'd \<Rightarrow> 'd"
  sp_tx_bclk :: "nat \<Rightarrow> u32 \<Rightarrow> u32 \<Rightarrow> u32 \<Rightarrow> u32 \<Rightarrow> 'd \<Rightarrow> 'd"
  sp_rx_bclk :: "nat \<Rightarrow> u32 \<Rightarrow> u32 \<Rightarrow> u32 \<Rightarrow> u32 \<Rightarrow> 'd \<Rightarrow> 'd"
  sp_mclk :: "nat \<Rightarrow> u32 \<Rightarrow> 'd \<Rightarrow> 'd"
  sp_enable_irq :: "nat \<Rightarrow> 'd \<Rightarrow> 'd"
  sp_rx_irq :: "nat \<Rightarrow> 'd \<Rightarrow> s32 list \<times> 'd"
  sp_tx_irq :: "nat \<Rightarrow> 'd \<Rightarrow> s32 list \<times> 'd"
  sp_receive :: "nat \<Rightarrow> u8 list \<Rightarrow> 'd \<Rightarrow> s32 \<times> 'd"
  sp_send :: "nat \<Rightarrow> u8 list \<Rightarrow> 'd \<Rightarrow> s32 \<times> 'd"
  sp_success :: s32
  sp_rx_error :: s32
  sp_tx_error :: s32

section \<open>Starting and stopping a direction\<close>

definition sai_rx_is_sync :: "('t, 'd) sai_port \<Rightarrow> nat \<Rightarrow> 'd \<Rightarrow> bool" where
  "sai_rx_is_sync S base d \<longleftrightarrow> sp_rcr2 S base d AND sk_rcr2_sync (sp_masks S) \<noteq> 0"

definition sai_tx_is_sync :: "('t, 'd) sai_port \<Rightarrow> nat \<Rightarrow> 'd \<Rightarrow> bool" where
  "sai_tx_is_sync S base d \<longleftrightarrow> sp_tcr2 S base d AND sk_tcr2_sync (sp_masks S) \<noteq> 0"

definition sai_rx_enable_reg :: "('t, 'd) sai_port \<Rightarrow> nat \<Rightarrow> 'd \<Rightarrow> 'd" where
  "sai_rx_enable_reg S base d = sp_set_rcsr S base ((sp_rcsr S base d AND 0xFFE3FFFF) OR sk_re (sp_masks S)) d"

definition sai_tx_enable_reg :: "('t, 'd) sai_port \<Rightarrow> nat \<Rightarrow> 'd \<Rightarrow> 'd" where
  "sai_tx_enable_reg S base d = sp_set_tcsr S base ((sp_tcsr S base d AND 0xFFE3FFFF) OR sk_te (sp_masks S)) d"

text \<open>The reset bit is cleared until the hardware shows it clear; this may never be, then there is no result.\<close>

partial_function (option) sai_rx_poll_reset :: "('t, 'd) sai_port \<Rightarrow> nat \<Rightarrow> 'd \<Rightarrow> 'd option" where
  "sai_rx_poll_reset S base d =
     (if sp_rcsr S base d AND sk_rcsr_sr (sp_masks S) \<noteq> 0
      then sai_rx_poll_reset S base (sp_set_rcsr S base (sp_rcsr S base d AND NOT (sk_rcsr_sr (sp_masks S))) d)
      else Some d)"

partial_function (option) sai_tx_poll_reset :: "('t, 'd) sai_port \<Rightarrow> nat \<Rightarrow> 'd \<Rightarrow> 'd option" where
  "sai_tx_poll_reset S base d =
     (if sp_tcsr S base d AND sk_tcsr_sr (sp_masks S) \<noteq> 0
      then sai_tx_poll_reset S base (sp_set_tcsr S base (sp_tcsr S base d AND NOT (sk_tcsr_sr (sp_masks S))) d)
      else Some d)"

definition sai_rx_disable_reg :: "('t, 'd) sai_port \<Rightarrow> nat \<Rightarrow> u32 \<Rightarrow> 'd \<Rightarrow> 'd option" where
  "sai_rx_disable_reg S base msk d =
     (let K = sp_masks S;
          d = sp_set_rcsr S base (sk_rcsr_sr K OR sk_rcsr_fr K OR (sp_rcsr S base d AND 0x70001F03) OR msk) d;
          d = sp_set_rcsr S base (sp_rcsr S base d AND NOT (sk_rcsr_sr K)) d
      in sai_rx_poll_reset S base d)"

definition sai_tx_disable_reg :: "('t, 'd) sai_port \<Rightarrow> nat \<Rightarrow> u32 \<Rightarrow> 'd \<Rightarrow> 'd option" where
  "sai_tx_disable_reg S base msk d =
     (let K = sp_masks S;
          d = sp_set_tcsr S base (sk_tcsr_sr K OR sk_tcsr_fr K OR (sp_tcsr S base d AND 0x70001F03) OR msk) d;
          d = sp_set_tcsr S base (sp_tcsr S base d AND NOT (sk_tcsr_sr K)) d
      in sai_tx_poll_reset S base d)"

definition sai_enable_irq_base :: "('t, 'd) sai_port \<Rightarrow> nat \<Rightarrow> bool \<Rightarrow> bool \<Rightarrow> 'd \<Rightarrow> 'd" where
  "sai_enable_irq_base S base rx_irq tx_irq d =
     (let m = sk_feie (sp_masks S) OR sk_frie (sp_masks S);
          d = (if rx_irq then sp_rx_enable_interrupts S base m d else d)
      in if tx_irq then sp_tx_enable_interrupts S base m d else d)"

definition sai_disable_irq_base :: "('t, 'd) sai_port \<Rightarrow> nat \<Rightarrow> bool \<Rightarrow> bool \<Rightarrow> 'd \<Rightarrow> 'd" where
  "sai_disable_irq_base S base rx_irq tx_irq d =
     (let m = sk_feie (sp_masks S) OR sk_frie (sp_masks S);
          d = (if rx_irq then sp_rx_disable_interrupts S base m d else d)
      in if tx_irq then sp_tx_disable_interrupts S base m d else d)"

definition sai_enable_rx_base :: "('t, 'd) sai_port \<Rightarrow> nat \<Rightarrow> bool \<Rightarrow> 'd \<Rightarrow> 'd" where
  "sai_enable_rx_base S base enable_irq d =
     (let d = (if enable_irq then sai_enable_irq_base S base True False d else d)
      in if \<not> sai_tx_is_sync S base d \<and> \<not> sai_rx_is_sync S base d then sai_rx_enable_reg S base d else d)"

definition sai_enable_tx_base :: "('t, 'd) sai_port \<Rightarrow> nat \<Rightarrow> bool \<Rightarrow> 'd \<Rightarrow> 'd" where
  "sai_enable_tx_base S base enable_irq d =
     (let d = (if enable_irq then sai_enable_irq_base S base False True d else d)
      in if sai_tx_is_sync S base d then sai_rx_enable_reg S base (sai_tx_enable_reg S base d)
         else if sai_rx_is_sync S base d then sai_tx_enable_reg S base (sai_rx_enable_reg S base d)
         else sai_tx_enable_reg S base d)"

definition sai_disable_rx_base :: "('t, 'd) sai_port \<Rightarrow> nat \<Rightarrow> 'd \<Rightarrow> 'd option" where
  "sai_disable_rx_base S base d =
     (if sai_rx_is_sync S base d then Some d
      else do {
        d \<leftarrow> sai_rx_disable_reg S base (sk_flags (sp_masks S)) d;
        (if sai_tx_is_sync S base d then sai_tx_disable_reg S base (sk_flags (sp_masks S)) d else Some d)
      })"

definition sai_disable_tx_base :: "('t, 'd) sai_port \<Rightarrow> nat \<Rightarrow> 'd \<Rightarrow> 'd option" where
  "sai_disable_tx_base S base d =
     (if sai_tx_is_sync S base d then Some d
      else do {
        d \<leftarrow> sai_tx_disable_reg S base (sk_flags (sp_masks S)) d;
        (if sai_rx_is_sync S base d then sai_rx_disable_reg S base (sk_flags (sp_masks S)) d else Some d)
      })"

section \<open>Devices\<close>

text \<open>
  \<open>struct sai_device\<close> and \<open>struct sai_cfg\<close>; callbacks are of type \<open>'c\<close> and their user data of type \<open>'u\<close>. A device is initialised once its
  base is known.
\<close>

datatype sai_mode = SAI_CALLBACK_MODE | SAI_RX_IRQ_MODE | SAI_POLLING_MODE

record ('c, 'u) sai_device =
  dv_sai_base :: "nat option"
  dv_rx_callback :: "'c option"
  dv_rx_user_data :: 'u
  dv_tx_callback :: "'c option"
  dv_tx_user_data :: 'u

record ('c, 'u) sai_cfg =
  cg_sai_base :: "nat option"
  cg_rx_callback :: "'c option"
  cg_tx_callback :: "'c option"
  cg_rx_user_data :: 'u
  cg_tx_user_data :: 'u
  cg_rx_mask :: u32
  cg_tx_mask :: u32
  cg_bit_width :: u32
  cg_sample_rate :: u32
  cg_chan_numbers :: u32
  cg_source_clock_hz :: u32
  cg_rx_sync_mode :: u32
  cg_tx_sync_mode :: u32
  cg_rx_fifo_water_mark :: u32
  cg_tx_fifo_water_mark :: u32
  cg_working_mode :: sai_mode
  cg_master_slave :: u32
  cg_msel :: u32

abbreviation (input) SAI_STATUS_NO_ERROR :: u8 where "SAI_STATUS_NO_ERROR \<equiv> 0"
abbreviation (input) SAI_STATUS_TX_FF_ERR :: u8 where "SAI_STATUS_TX_FF_ERR \<equiv> 1"
abbreviation (input) SAI_STATUS_RX_FF_ERR :: u8 where "SAI_STATUS_RX_FF_ERR \<equiv> 2"

text \<open>Operations of a device; calling one before the setup is a trap.\<close>

definition sai_read :: "('t, 'd) sai_port \<Rightarrow> ('c, 'u) sai_device \<Rightarrow> u8 list \<Rightarrow> 'd \<Rightarrow> (int \<times> 'd) option" where
  "sai_read S dev xfer d =
     do { base \<leftarrow> dv_sai_base dev; let (ret, d) = sp_receive S base xfer d; Some (if ret = sp_success S then 0 else - 1, d) }"

definition sai_write :: "('t, 'd) sai_port \<Rightarrow> ('c, 'u) sai_device \<Rightarrow> u8 list \<Rightarrow> 'd \<Rightarrow> (int \<times> 'd) option" where
  "sai_write S dev xfer d =
     do { base \<leftarrow> dv_sai_base dev; let (ret, d) = sp_send S base xfer d; Some (if ret = sp_success S then 0 else - 1, d) }"

definition sai_enable_irq :: "('t, 'd) sai_port \<Rightarrow> ('c, 'u) sai_device \<Rightarrow> bool \<Rightarrow> bool \<Rightarrow> 'd \<Rightarrow> 'd option" where
  "sai_enable_irq S dev rx_irq tx_irq d = map_option (\<lambda>base. sai_enable_irq_base S base rx_irq tx_irq d) (dv_sai_base dev)"

definition sai_disable_irq :: "('t, 'd) sai_port \<Rightarrow> ('c, 'u) sai_device \<Rightarrow> bool \<Rightarrow> bool \<Rightarrow> 'd \<Rightarrow> 'd option" where
  "sai_disable_irq S dev rx_irq tx_irq d = map_option (\<lambda>base. sai_disable_irq_base S base rx_irq tx_irq d) (dv_sai_base dev)"

definition sai_enable_rx :: "('t, 'd) sai_port \<Rightarrow> ('c, 'u) sai_device \<Rightarrow> bool \<Rightarrow> 'd \<Rightarrow> 'd option" where
  "sai_enable_rx S dev enable_irq d = map_option (\<lambda>base. sai_enable_rx_base S base enable_irq d) (dv_sai_base dev)"

definition sai_enable_tx :: "('t, 'd) sai_port \<Rightarrow> ('c, 'u) sai_device \<Rightarrow> bool \<Rightarrow> 'd \<Rightarrow> 'd option" where
  "sai_enable_tx S dev enable_irq d = map_option (\<lambda>base. sai_enable_tx_base S base enable_irq d) (dv_sai_base dev)"

definition sai_disable_rx :: "('t, 'd) sai_port \<Rightarrow> ('c, 'u) sai_device \<Rightarrow> 'd \<Rightarrow> 'd option" where
  "sai_disable_rx S dev d = do { base \<leftarrow> dv_sai_base dev; sai_disable_rx_base S base d }"

definition sai_disable_tx :: "('t, 'd) sai_port \<Rightarrow> ('c, 'u) sai_device \<Rightarrow> 'd \<Rightarrow> 'd option" where
  "sai_disable_tx S dev d = do { base \<leftarrow> dv_sai_base dev; sai_disable_tx_base S base d }"

section \<open>Instances\<close>

definition sai_base :: "('t, 'd) sai_port \<Rightarrow> u32 \<Rightarrow> nat option" where
  "sai_base S i = (if unat i \<ge> length (sp_bases S) then None else sp_bases S ! unat i)"

text \<open>The number of an instance. An unknown base ends in an assertion, \<open>None\<close>.\<close>

definition sai_get_id :: "('t, 'd) sai_port \<Rightarrow> nat option \<Rightarrow> nat option" where
  "sai_get_id S base = List.find (\<lambda>i. sp_bases S ! i = base \<and> base \<noteq> None) [0..<length (sp_bases S)]"

definition sai_is_valid_watermark :: "('t, 'd) sai_port \<Rightarrow> nat \<Rightarrow> u32 \<Rightarrow> bool" where
  "sai_is_valid_watermark S base watermark \<longleftrightarrow> watermark \<noteq> 0 \<and> \<not> watermark > sp_fifo_count S base"

section \<open>Interrupts\<close>

text \<open>
  The table of handlers has four entries; the data of an entry is a device, a number. What an interrupt does for the application is the list
  of callbacks it makes: the callback, the status and the user data.
\<close>

datatype irq_func = Irq_continuous | Irq_transfer

record irq_handler =
  ih_func :: "irq_func option"
  ih_data :: "nat option"

type_synonym ('c, 'u) sai_calls = "('c \<times> u8 \<times> 'u) list"

definition sai_irq_handler_continuous :: "('c, 'u) sai_device \<Rightarrow> ('c, 'u) sai_calls option" where
  "sai_irq_handler_continuous dev = map_option (\<lambda>cb. [(cb, SAI_STATUS_NO_ERROR, dv_rx_user_data dev)]) (dv_rx_callback dev)"

definition sai_rx_callback :: "('t, 'd) sai_port \<Rightarrow> ('c, 'u) sai_device \<Rightarrow> s32 \<Rightarrow> ('c, 'u) sai_calls" where
  "sai_rx_callback S dev status =
     (let sai_status = (if status = sp_rx_error S then SAI_STATUS_RX_FF_ERR else SAI_STATUS_NO_ERROR)
      in case dv_rx_callback dev of None \<Rightarrow> [] | Some cb \<Rightarrow> [(cb, sai_status, dv_rx_user_data dev)])"

definition sai_tx_callback :: "('t, 'd) sai_port \<Rightarrow> ('c, 'u) sai_device \<Rightarrow> s32 \<Rightarrow> ('c, 'u) sai_calls" where
  "sai_tx_callback S dev status =
     (let sai_status = (if status = sp_tx_error S then SAI_STATUS_TX_FF_ERR else SAI_STATUS_NO_ERROR)
      in case dv_tx_callback dev of None \<Rightarrow> [] | Some cb \<Rightarrow> [(cb, sai_status, dv_tx_user_data dev)])"

definition sai_irq_handler :: "('t, 'd) sai_port \<Rightarrow> ('c, 'u) sai_device \<Rightarrow> 'd \<Rightarrow> (('c, 'u) sai_calls \<times> 'd) option" where
  "sai_irq_handler S dev d =
     do {
       base \<leftarrow> dv_sai_base dev;
       let K = sp_masks S; let reg_rcsr = sp_rcsr S base d; let reg_tcsr = sp_tcsr S base d;
       let due = (\<lambda>reg. reg AND (sk_frie K OR sk_feie K) \<noteq> 0 \<and> reg AND (sk_frf K OR sk_fef K) \<noteq> 0);
       let (rx, d) = (if due reg_rcsr then sp_rx_irq S base d else ([], d));
       let (tx, d) = (if due reg_tcsr then sp_tx_irq S base d else ([], d));
       Some (concat (map (sai_rx_callback S dev) rx) @ concat (map (sai_tx_callback S dev) tx), d)
     }"

text \<open>The interrupt of instance \<open>k\<close>; an entry without handler is a call through a null pointer.\<close>

definition SAI_IRQHandler ::
  "('t, 'd) sai_port \<Rightarrow> irq_handler list \<Rightarrow> (nat \<Rightarrow> ('c, 'u) sai_device) \<Rightarrow> nat \<Rightarrow> 'd \<Rightarrow> (('c, 'u) sai_calls \<times> 'd) option" where
  "SAI_IRQHandler S handler devs k d =
     do {
       func \<leftarrow> ih_func (handler ! k);
       data \<leftarrow> ih_data (handler ! k);
       (case func of
          Irq_continuous \<Rightarrow> map_option (\<lambda>calls. (calls, d)) (sai_irq_handler_continuous (devs data))
        | Irq_transfer \<Rightarrow> sai_irq_handler S (devs data) d)
     }"

section \<open>Setup\<close>

definition sai_master_clock_config :: "('t, 'd) sai_port \<Rightarrow> nat \<Rightarrow> ('c, 'u) sai_cfg \<Rightarrow> 'd \<Rightarrow> 'd" where
  "sai_master_clock_config S base cfg d = sp_mclk S base (cg_source_clock_hz cfg) d"

text \<open>\<open>self\<close> is the number of the device. The handler table has four entries, an instance beyond it is a trap.\<close>

definition sai_drv_setup ::
  "('t, 'd) sai_port \<Rightarrow> nat \<Rightarrow> ('c, 'u) sai_cfg \<Rightarrow> ('c, 'u) sai_device \<times> irq_handler list \<times> 'd \<Rightarrow>
     (int \<times> ('c, 'u) sai_device \<times> irq_handler list \<times> 'd) option" where
  "sai_drv_setup S self cfg st =
     do {
       let (dev, handler, d) = st;
       sai_id \<leftarrow> sai_get_id S (cg_sai_base cfg);
       sai \<leftarrow> cg_sai_base cfg;
       let d = sp_init S sai d;
       let config = (if cg_chan_numbers cfg = 2 then sp_classic S (cg_bit_width cfg) else sp_tdm S (cg_bit_width cfg) (cg_chan_numbers cfg));
       let config = config\<lparr>tr_sync_mode := cg_tx_sync_mode cfg, tr_master_slave := cg_master_slave cfg, tr_bclk_source := cg_msel cfg,
                           tr_masked_word := cg_tx_mask cfg\<rparr>;
       (if \<not> sai_is_valid_watermark S sai (cg_tx_fifo_water_mark cfg) then Some (- 1, dev, handler, d)
        else do {
          let config = config\<lparr>tr_watermark := cg_tx_fifo_water_mark cfg\<rparr>;
          let d = sp_tx_config S sai config d;
          let config = config\<lparr>tr_sync_mode := cg_rx_sync_mode cfg, tr_masked_word := cg_rx_mask cfg\<rparr>;
          (if \<not> sai_is_valid_watermark S sai (cg_rx_fifo_water_mark cfg) then Some (- 1, dev, handler, d)
           else do {
             let config = config\<lparr>tr_watermark := cg_rx_fifo_water_mark cfg\<rparr>;
             let d = sp_rx_config S sai config d;
             let d = sp_rx_error_continue S sai (sp_tx_error_continue S sai d);
             let d = sp_tx_bclk S sai (cg_source_clock_hz cfg) (cg_sample_rate cfg) (cg_bit_width cfg) (cg_chan_numbers cfg) d;
             let d = sp_rx_bclk S sai (cg_source_clock_hz cfg) (cg_sample_rate cfg) (cg_bit_width cfg) (cg_chan_numbers cfg) d;
             let d = sai_master_clock_config S sai cfg d;
             let dev = \<lparr>dv_sai_base = cg_sai_base cfg, dv_rx_callback = cg_rx_callback cfg, dv_rx_user_data = cg_rx_user_data cfg,
                        dv_tx_callback = cg_tx_callback cfg, dv_tx_user_data = cg_tx_user_data cfg\<rparr>;
             let func = (case cg_working_mode cfg of
                           SAI_RX_IRQ_MODE \<Rightarrow> Some Irq_continuous
                         | SAI_CALLBACK_MODE \<Rightarrow> Some Irq_transfer
                         | SAI_POLLING_MODE \<Rightarrow> ih_func (handler ! sai_id));
             (if \<not> sai_id < length handler then None
              else Some (0, dev, handler[sai_id := \<lparr>ih_func = func, ih_data = Some self\<rparr>], sp_enable_irq S sai_id d))
           })
        })
     }"

definition sai_drv_exit :: "('t, 'd) sai_port \<Rightarrow> ('c, 'u) sai_device \<Rightarrow> 'd \<Rightarrow> 'd option" where
  "sai_drv_exit S dev d = map_option (\<lambda>sai. sp_deinit S sai d) (dv_sai_base dev)"

section \<open>Starting and stopping both directions\<close>

text \<open>The enable bit of a direction.\<close>

definition sai_rx_bit :: "('t, 'd) sai_port \<Rightarrow> nat \<Rightarrow> 'd \<Rightarrow> u32" where
  "sai_rx_bit S base d = sp_rcsr S base d AND sk_re (sp_masks S)"

definition sai_tx_bit :: "('t, 'd) sai_port \<Rightarrow> nat \<Rightarrow> 'd \<Rightarrow> u32" where
  "sai_tx_bit S base d = sp_tcsr S base d AND sk_te (sp_masks S)"

text \<open>
  What the driver relies on: a control register keeps the enable bit written to it, and writing it changes neither the
  register of the other direction nor the synchronous modes; enabling interrupts changes no enable bit and no synchronous
  mode; the enable bit is none of the bits kept or set when a direction is disabled. The reset bit need not be cleared by one
  write: it reads clear once clearing it has been repeated often enough, however often that is.
\<close>

locale sai_registers =
  fixes S :: "('t, 'd) sai_port" and base :: nat
  assumes rcsr_kept: "sp_rcsr S base (sp_set_rcsr S base v d) AND sk_re (sp_masks S) = v AND sk_re (sp_masks S)"
    and tcsr_kept: "sp_tcsr S base (sp_set_tcsr S base v d) AND sk_te (sp_masks S) = v AND sk_te (sp_masks S)"
    and rcsr_frame: "sp_tcsr S base (sp_set_rcsr S base v d) = sp_tcsr S base d"
      "sp_rcr2 S base (sp_set_rcsr S base v d) = sp_rcr2 S base d" "sp_tcr2 S base (sp_set_rcsr S base v d) = sp_tcr2 S base d"
    and tcsr_frame: "sp_rcsr S base (sp_set_tcsr S base v d) = sp_rcsr S base d"
      "sp_rcr2 S base (sp_set_tcsr S base v d) = sp_rcr2 S base d" "sp_tcr2 S base (sp_set_tcsr S base v d) = sp_tcr2 S base d"
    and rx_irq_frame: "sai_rx_bit S base (sp_rx_enable_interrupts S base (sk_feie (sp_masks S) OR sk_frie (sp_masks S)) d) = sai_rx_bit S base d"
      "sp_tcsr S base (sp_rx_enable_interrupts S base m d) = sp_tcsr S base d"
      "sp_rcr2 S base (sp_rx_enable_interrupts S base m d) = sp_rcr2 S base d" "sp_tcr2 S base (sp_rx_enable_interrupts S base m d) = sp_tcr2 S base d"
    and tx_irq_frame: "sai_tx_bit S base (sp_tx_enable_interrupts S base (sk_feie (sp_masks S) OR sk_frie (sp_masks S)) d) = sai_tx_bit S base d"
      "sp_rcsr S base (sp_tx_enable_interrupts S base m d) = sp_rcsr S base d"
      "sp_rcr2 S base (sp_tx_enable_interrupts S base m d) = sp_rcr2 S base d" "sp_tcr2 S base (sp_tx_enable_interrupts S base m d) = sp_tcr2 S base d"
    and rx_masks: "sk_re (sp_masks S) AND (sk_rcsr_sr (sp_masks S) OR sk_rcsr_fr (sp_masks S) OR 0x70001F03 OR sk_flags (sp_masks S)) = 0"
    and tx_masks: "sk_te (sp_masks S) AND (sk_tcsr_sr (sp_masks S) OR sk_tcsr_fr (sp_masks S) OR 0x70001F03 OR sk_flags (sp_masks S)) = 0"
    and rx_reset_clears: "\<exists>n. sp_rcsr S base (((\<lambda>d. sp_set_rcsr S base (sp_rcsr S base d AND NOT (sk_rcsr_sr (sp_masks S))) d) ^^ n) d)
      AND sk_rcsr_sr (sp_masks S) = 0"
    and tx_reset_clears: "\<exists>n. sp_tcsr S base (((\<lambda>d. sp_set_tcsr S base (sp_tcsr S base d AND NOT (sk_tcsr_sr (sp_masks S))) d) ^^ n) d)
      AND sk_tcsr_sr (sp_masks S) = 0"
begin

abbreviation (input) "RE \<equiv> sk_re (sp_masks S)"
abbreviation (input) "TE \<equiv> sk_te (sp_masks S)"

text \<open>What every access leaves alone: the synchronous modes.\<close>

definition same_sync :: "'d \<Rightarrow> 'd \<Rightarrow> bool" where
  "same_sync d d' \<longleftrightarrow> sai_rx_is_sync S base d' = sai_rx_is_sync S base d \<and> sai_tx_is_sync S base d' = sai_tx_is_sync S base d"

lemma set_bits:
  "sai_rx_bit S base (sp_set_rcsr S base v d) = v AND RE" "sai_tx_bit S base (sp_set_rcsr S base v d) = sai_tx_bit S base d"
  "sai_tx_bit S base (sp_set_tcsr S base v d) = v AND TE" "sai_rx_bit S base (sp_set_tcsr S base v d) = sai_rx_bit S base d"
  by (simp_all add: sai_rx_bit_def sai_tx_bit_def rcsr_kept tcsr_kept rcsr_frame tcsr_frame)

lemma clear_bit:
  "sai_rx_bit S base (sp_set_rcsr S base (sp_rcsr S base d AND NOT m) d) = sai_rx_bit S base d AND NOT m"
  "sai_tx_bit S base (sp_set_tcsr S base (sp_tcsr S base d AND NOT m) d) = sai_tx_bit S base d AND NOT m"
  by (simp_all only: set_bits) (simp_all add: sai_rx_bit_def sai_tx_bit_def and.assoc and.commute and.left_commute)

lemma sync_kept:
  "sai_rx_is_sync S base (sp_set_rcsr S base v d) = sai_rx_is_sync S base d"
  "sai_tx_is_sync S base (sp_set_rcsr S base v d) = sai_tx_is_sync S base d"
  "sai_rx_is_sync S base (sp_set_tcsr S base v d) = sai_rx_is_sync S base d"
  "sai_tx_is_sync S base (sp_set_tcsr S base v d) = sai_tx_is_sync S base d"
  by (simp_all add: sai_rx_is_sync_def sai_tx_is_sync_def rcsr_frame tcsr_frame)

lemma irq_kept:
  "sai_rx_bit S base (sai_enable_irq_base S base rx tx d) = sai_rx_bit S base d"
  "sai_tx_bit S base (sai_enable_irq_base S base rx tx d) = sai_tx_bit S base d"
  "sai_rx_is_sync S base (sai_enable_irq_base S base rx tx d) = sai_rx_is_sync S base d"
  "sai_tx_is_sync S base (sai_enable_irq_base S base rx tx d) = sai_tx_is_sync S base d"
  using rx_irq_frame(1) tx_irq_frame(1)
  by (simp_all add: sai_enable_irq_base_def Let_def sai_rx_is_sync_def sai_tx_is_sync_def sai_rx_bit_def sai_tx_bit_def rx_irq_frame(2-) tx_irq_frame(2-))

lemma enable_regs:
  "sai_rx_bit S base (sai_rx_enable_reg S base d) = RE" "sai_tx_bit S base (sai_rx_enable_reg S base d) = sai_tx_bit S base d"
  "sai_tx_bit S base (sai_tx_enable_reg S base d) = TE" "sai_rx_bit S base (sai_tx_enable_reg S base d) = sai_rx_bit S base d"
  by (simp_all add: sai_rx_enable_reg_def sai_tx_enable_reg_def set_bits bit.conj_disj_distrib2)

lemma sync_enable:
  "sai_rx_is_sync S base (sai_rx_enable_reg S base d) = sai_rx_is_sync S base d"
  "sai_tx_is_sync S base (sai_rx_enable_reg S base d) = sai_tx_is_sync S base d"
  "sai_rx_is_sync S base (sai_tx_enable_reg S base d) = sai_rx_is_sync S base d"
  "sai_tx_is_sync S base (sai_tx_enable_reg S base d) = sai_tx_is_sync S base d"
  by (simp_all add: sai_rx_enable_reg_def sai_tx_enable_reg_def sync_kept)

text \<open>Polling ends once the hardware gives way, and enables nothing.\<close>

lemma rx_poll:
  assumes "sai_rx_bit S base d = 0"
  shows "\<exists>d'. sai_rx_poll_reset S base d = Some d' \<and> sai_rx_bit S base d' = 0 \<and> sai_tx_bit S base d' = sai_tx_bit S base d \<and> same_sync d d'"
proof -
  let ?f = "\<lambda>d. sp_set_rcsr S base (sp_rcsr S base d AND NOT (sk_rcsr_sr (sp_masks S))) d"
  obtain n where "sp_rcsr S base ((?f ^^ n) d) AND sk_rcsr_sr (sp_masks S) = 0" using rx_reset_clears by blast
  then show ?thesis
    using assms
  proof (induction n arbitrary: d)
    case 0
    then show ?case by (subst sai_rx_poll_reset.simps) (simp add: same_sync_def)
  next
    case (Suc n)
    have "sai_rx_bit S base (?f d) = 0"
      using Suc.prems(2) by (simp add: clear_bit)
    moreover have "sp_rcsr S base ((?f ^^ n) (?f d)) AND sk_rcsr_sr (sp_masks S) = 0"
      using Suc.prems(1) unfolding funpow_Suc_right o_apply .
    ultimately obtain d' where "sai_rx_poll_reset S base (?f d) = Some d'" "sai_rx_bit S base d' = 0"
      "sai_tx_bit S base d' = sai_tx_bit S base (?f d)" "same_sync (?f d) d'"
      using Suc.IH by blast
    then show ?case
      using Suc.prems(2) by (subst sai_rx_poll_reset.simps) (simp add: set_bits same_sync_def sync_kept)
  qed
qed

lemma tx_poll:
  assumes "sai_tx_bit S base d = 0"
  shows "\<exists>d'. sai_tx_poll_reset S base d = Some d' \<and> sai_tx_bit S base d' = 0 \<and> sai_rx_bit S base d' = sai_rx_bit S base d \<and> same_sync d d'"
proof -
  let ?f = "\<lambda>d. sp_set_tcsr S base (sp_tcsr S base d AND NOT (sk_tcsr_sr (sp_masks S))) d"
  obtain n where "sp_tcsr S base ((?f ^^ n) d) AND sk_tcsr_sr (sp_masks S) = 0" using tx_reset_clears by blast
  then show ?thesis
    using assms
  proof (induction n arbitrary: d)
    case 0
    then show ?case by (subst sai_tx_poll_reset.simps) (simp add: same_sync_def)
  next
    case (Suc n)
    have "sai_tx_bit S base (?f d) = 0"
      using Suc.prems(2) by (simp add: clear_bit)
    moreover have "sp_tcsr S base ((?f ^^ n) (?f d)) AND sk_tcsr_sr (sp_masks S) = 0"
      using Suc.prems(1) unfolding funpow_Suc_right o_apply .
    ultimately obtain d' where "sai_tx_poll_reset S base (?f d) = Some d'" "sai_tx_bit S base d' = 0"
      "sai_rx_bit S base d' = sai_rx_bit S base (?f d)" "same_sync (?f d) d'"
      using Suc.IH by blast
    then show ?case
      using Suc.prems(2) by (subst sai_tx_poll_reset.simps) (simp add: set_bits same_sync_def sync_kept)
  qed
qed

text \<open>Disabling a direction ends, with its enable bit clear; the other direction stays as it is.\<close>

lemma rx_disable_reg:
  "\<exists>d'. sai_rx_disable_reg S base (sk_flags (sp_masks S)) d = Some d' \<and> sai_rx_bit S base d' = 0 \<and>
    sai_tx_bit S base d' = sai_tx_bit S base d \<and> same_sync d d'"
proof -
  let ?K = "sp_masks S"
  define d1 where "d1 = sp_set_rcsr S base (sk_rcsr_sr ?K OR sk_rcsr_fr ?K OR (sp_rcsr S base d AND 0x70001F03) OR sk_flags ?K) d"
  define d2 where "d2 = sp_set_rcsr S base (sp_rcsr S base d1 AND NOT (sk_rcsr_sr ?K)) d1"
  have re: "sk_rcsr_sr ?K AND RE = 0" "sk_rcsr_fr ?K AND RE = 0" "0x70001F03 AND RE = 0" "sk_flags ?K AND RE = 0"
    using rx_masks by (simp_all add: bit.conj_disj_distrib or_eq_0_iff and.commute)
  have "sai_rx_bit S base d1 = 0"
    by (simp add: d1_def set_bits bit.conj_disj_distrib2 re and.assoc)
  then have d2: "sai_rx_bit S base d2 = 0"
    by (simp add: d2_def clear_bit)
  have same: "sai_tx_bit S base d2 = sai_tx_bit S base d" "same_sync d d2"
    by (simp_all add: d2_def d1_def set_bits same_sync_def sync_kept)
  show ?thesis
    using rx_poll [OF d2] same
    unfolding sai_rx_disable_reg_def Let_def d1_def [symmetric] d2_def [symmetric] by (auto simp: same_sync_def)
qed

lemma tx_disable_reg:
  "\<exists>d'. sai_tx_disable_reg S base (sk_flags (sp_masks S)) d = Some d' \<and> sai_tx_bit S base d' = 0 \<and>
    sai_rx_bit S base d' = sai_rx_bit S base d \<and> same_sync d d'"
proof -
  let ?K = "sp_masks S"
  define d1 where "d1 = sp_set_tcsr S base (sk_tcsr_sr ?K OR sk_tcsr_fr ?K OR (sp_tcsr S base d AND 0x70001F03) OR sk_flags ?K) d"
  define d2 where "d2 = sp_set_tcsr S base (sp_tcsr S base d1 AND NOT (sk_tcsr_sr ?K)) d1"
  have te: "sk_tcsr_sr ?K AND TE = 0" "sk_tcsr_fr ?K AND TE = 0" "0x70001F03 AND TE = 0" "sk_flags ?K AND TE = 0"
    using tx_masks by (simp_all add: bit.conj_disj_distrib or_eq_0_iff and.commute)
  have "sai_tx_bit S base d1 = 0"
    by (simp add: d1_def set_bits bit.conj_disj_distrib2 te and.assoc)
  then have d2: "sai_tx_bit S base d2 = 0"
    by (simp add: d2_def clear_bit)
  have same: "sai_rx_bit S base d2 = sai_rx_bit S base d" "same_sync d d2"
    by (simp_all add: d2_def d1_def set_bits same_sync_def sync_kept)
  show ?thesis
    using tx_poll [OF d2] same
    unfolding sai_tx_disable_reg_def Let_def d1_def [symmetric] d2_def [symmetric] by (auto simp: same_sync_def)
qed

lemma rx_started:
  "sai_rx_bit S base (sai_enable_rx_base S base irq d) =
     (if sai_rx_is_sync S base d \<or> sai_tx_is_sync S base d then sai_rx_bit S base d else RE)"
  "sai_tx_bit S base (sai_enable_rx_base S base irq d) = sai_tx_bit S base d"
  "same_sync d (sai_enable_rx_base S base irq d)"
  by (simp_all add: sai_enable_rx_base_def Let_def irq_kept enable_regs same_sync_def sync_enable)

lemma tx_started:
  "sai_tx_bit S base (sai_enable_tx_base S base irq d) = TE"
  "sai_rx_bit S base (sai_enable_tx_base S base irq d) =
     (if sai_rx_is_sync S base d \<or> sai_tx_is_sync S base d then RE else sai_rx_bit S base d)"
  "same_sync d (sai_enable_tx_base S base irq d)"
  by (simp_all add: sai_enable_tx_base_def Let_def irq_kept enable_regs same_sync_def sync_enable)

lemma rx_stopped:
  "\<exists>d'. sai_disable_rx_base S base d = Some d' \<and> same_sync d d' \<and>
     sai_rx_bit S base d' = (if sai_rx_is_sync S base d then sai_rx_bit S base d else 0) \<and>
     sai_tx_bit S base d' = (if \<not> sai_rx_is_sync S base d \<and> sai_tx_is_sync S base d then 0 else sai_tx_bit S base d)"
proof -
  obtain r where r: "sai_rx_disable_reg S base (sk_flags (sp_masks S)) d = Some r" "sai_rx_bit S base r = 0"
    "sai_tx_bit S base r = sai_tx_bit S base d" "same_sync d r"
    using rx_disable_reg by blast
  obtain t where t: "sai_tx_disable_reg S base (sk_flags (sp_masks S)) r = Some t" "sai_tx_bit S base t = 0"
    "sai_rx_bit S base t = sai_rx_bit S base r" "same_sync r t"
    using tx_disable_reg by blast
  show ?thesis using r t by (simp add: sai_disable_rx_base_def same_sync_def)
qed

lemma tx_stopped:
  "\<exists>d'. sai_disable_tx_base S base d = Some d' \<and> same_sync d d' \<and>
     sai_tx_bit S base d' = (if sai_tx_is_sync S base d then sai_tx_bit S base d else 0) \<and>
     sai_rx_bit S base d' = (if \<not> sai_tx_is_sync S base d \<and> sai_rx_is_sync S base d then 0 else sai_rx_bit S base d)"
proof -
  obtain r where r: "sai_tx_disable_reg S base (sk_flags (sp_masks S)) d = Some r" "sai_tx_bit S base r = 0"
    "sai_rx_bit S base r = sai_rx_bit S base d" "same_sync d r"
    using tx_disable_reg by blast
  obtain t where t: "sai_rx_disable_reg S base (sk_flags (sp_masks S)) r = Some t" "sai_rx_bit S base t = 0"
    "sai_tx_bit S base t = sai_tx_bit S base r" "same_sync r t"
    using rx_disable_reg by blast
  show ?thesis using r t by (simp add: sai_disable_tx_base_def same_sync_def)
qed

lemma sync_both: "same_sync d d1 \<Longrightarrow> same_sync d1 d2 \<Longrightarrow> same_sync d d2"
  by (simp add: same_sync_def)

lemma stopped:
  assumes "\<not> (sai_rx_is_sync S base d \<and> sai_tx_is_sync S base d)"
  shows "\<exists>d1 d2. sai_disable_rx_base S base d = Some d1 \<and> sai_disable_tx_base S base d1 = Some d2 \<and>
    sai_rx_bit S base d2 = 0 \<and> sai_tx_bit S base d2 = 0"
proof -
  obtain d1 where d1: "sai_disable_rx_base S base d = Some d1" "same_sync d d1"
    "sai_rx_bit S base d1 = (if sai_rx_is_sync S base d then sai_rx_bit S base d else 0)"
    "sai_tx_bit S base d1 = (if \<not> sai_rx_is_sync S base d \<and> sai_tx_is_sync S base d then 0 else sai_tx_bit S base d)"
    using rx_stopped by blast
  obtain d2 where d2: "sai_disable_tx_base S base d1 = Some d2"
    "sai_tx_bit S base d2 = (if sai_tx_is_sync S base d1 then sai_tx_bit S base d1 else 0)"
    "sai_rx_bit S base d2 = (if \<not> sai_tx_is_sync S base d1 \<and> sai_rx_is_sync S base d1 then 0 else sai_rx_bit S base d1)"
    using tx_stopped by blast
  show ?thesis
    using assms d1 d2 by (cases "sai_rx_is_sync S base d"; cases "sai_tx_is_sync S base d") (auto simp: same_sync_def)
qed

lemma sync_of: "same_sync d d' \<Longrightarrow> sai_rx_is_sync S base d' = sai_rx_is_sync S base d" "same_sync d d' \<Longrightarrow> sai_tx_is_sync S base d' = sai_tx_is_sync S base d"
  by (simp_all add: same_sync_def)

end

text \<open>
  C36. On an instance whose two directions are not both synchronous to the other, with interrupts or without: starting the
  receiver enables it unless a direction is synchronous, then it waits for the transmitter; starting the transmitter enables
  it, and the receiver with it when a direction is synchronous; nothing else changes. Stopping the receiver and then the
  transmitter ends with both disabled, provided the hardware shows the reset bit clear once the driver has cleared it often
  enough, which the code says may take more than one write.
\<close>

theorem sai_start_stop:
  assumes "sai_registers S base" and "\<not> (sai_rx_is_sync S base d \<and> sai_tx_is_sync S base d)"
  defines "sync \<equiv> sai_rx_is_sync S base d \<or> sai_tx_is_sync S base d"
  shows "sai_rx_bit S base (sai_enable_rx_base S base irq d) = (if sync then sai_rx_bit S base d else sk_re (sp_masks S)) \<and>
    sai_tx_bit S base (sai_enable_rx_base S base irq d) = sai_tx_bit S base d \<and>
    sai_tx_bit S base (sai_enable_tx_base S base irq d) = sk_te (sp_masks S) \<and>
    sai_rx_bit S base (sai_enable_tx_base S base irq d) = (if sync then sk_re (sp_masks S) else sai_rx_bit S base d) \<and>
    (\<exists>d1 d2 d3. d1 = sai_enable_tx_base S base irq (sai_enable_rx_base S base irq d) \<and>
       sai_rx_bit S base d1 = sk_re (sp_masks S) \<and> sai_tx_bit S base d1 = sk_te (sp_masks S) \<and>
       sai_disable_rx_base S base d1 = Some d2 \<and> sai_disable_tx_base S base d2 = Some d3 \<and>
       sai_rx_bit S base d3 = 0 \<and> sai_tx_bit S base d3 = 0)"
proof -
  note sr = assms(1)
  note rx = sai_registers.rx_started [OF sr, where irq = irq] and tx = sai_registers.tx_started [OF sr, where irq = irq]
  note of = sai_registers.sync_of [OF sr rx(3) [of d]] sai_registers.sync_of [OF sr tx(3) [of "sai_enable_rx_base S base irq d"]]
  have "\<not> (sai_rx_is_sync S base (sai_enable_tx_base S base irq (sai_enable_rx_base S base irq d)) \<and>
      sai_tx_is_sync S base (sai_enable_tx_base S base irq (sai_enable_rx_base S base irq d)))"
    using assms(2) by (simp add: of)
  from sai_registers.stopped [OF sr this] show ?thesis by (auto simp: rx(1,2) tx(1,2) of(1,2) sync_def)
qed

text \<open>Two directions each synchronous to the other are started, but stopping either leaves the other to be stopped first.\<close>

lemma sai_both_sync_stay:
  assumes "sai_rx_is_sync S base d" and "sai_tx_is_sync S base d"
  shows "sai_disable_rx_base S base d = Some d" and "sai_disable_tx_base S base d = Some d"
  using assms by (simp_all add: sai_disable_rx_base_def sai_disable_tx_base_def)

section \<open>Delivery of interrupts\<close>

text \<open>
  Setting up a device of a known instance with valid watermarks succeeds, and from then on every interrupt of the instance in the
  receive interrupt mode calls the callback of this device once, with its user data and without error; the handlers of the other
  instances stay.
\<close>

theorem sai_interrupt_delivered:
  assumes "sai_get_id S (cg_sai_base cfg) = Some k" and "k < length handler" and "cg_sai_base cfg = Some base"
    and "sai_is_valid_watermark S base (cg_tx_fifo_water_mark cfg)" and "sai_is_valid_watermark S base (cg_rx_fifo_water_mark cfg)"
    and "cg_working_mode cfg = SAI_RX_IRQ_MODE" and "cg_rx_callback cfg = Some cb"
  shows "\<exists>dev' handler' d'. sai_drv_setup S self cfg (dev, handler, d) = Some (0, dev', handler', d') \<and>
    (\<forall>devs h. devs self = dev' \<longrightarrow> SAI_IRQHandler S handler' devs k h = Some ([(cb, SAI_STATUS_NO_ERROR, cg_rx_user_data cfg)], h)) \<and>
    (\<forall>j. j \<noteq> k \<longrightarrow> handler' ! j = handler ! j) \<and> length handler' = length handler"
  using assms by (simp add: sai_drv_setup_def SAI_IRQHandler_def sai_irq_handler_continuous_def Let_def)

section \<open>A register bank\<close>

text \<open>
  The control and mode registers of one instance, with the masks of the vendor's header; the library calls do nothing but set
  and clear the interrupt bits. The registers are memory, except that the first \<open>bk_lag\<close> attempts to clear a reset bit fail.
\<close>

record sai_bank =
  bk_rcsr :: u32
  bk_tcsr :: u32
  bk_rcr2 :: u32
  bk_tcr2 :: u32
  bk_lag :: nat

definition bank_masks :: sai_masks where
  "bank_masks = \<lparr>sk_rcr2_sync = 0x40000000, sk_tcr2_sync = 0x40000000, sk_re = 0x80000000, sk_te = 0x80000000, sk_rcsr_sr = 0x01000000,
     sk_rcsr_fr = 0x02000000, sk_tcsr_sr = 0x01000000, sk_tcsr_fr = 0x02000000, sk_flags = 0x001C0000, sk_feie = 0x400, sk_frie = 0x100,
     sk_fef = 0x40000, sk_frf = 0x10000\<rparr>"

definition bank_written :: "u32 \<Rightarrow> u32 \<Rightarrow> sai_bank \<Rightarrow> u32 \<times> nat" where
  "bank_written old v d =
     (if bk_lag d > 0 \<and> old AND 0x01000000 \<noteq> 0 \<and> v AND 0x01000000 = 0 then (v OR 0x01000000, bk_lag d - 1) else (v, bk_lag d))"

definition bank_format :: "unit transceiver" where
  "bank_format = \<lparr>tr_format = (), tr_sync_mode = 0, tr_master_slave = 0, tr_bclk_source = 0, tr_masked_word = 0, tr_watermark = 0\<rparr>"

definition bank_port :: "(unit, sai_bank) sai_port" where
  "bank_port = \<lparr>sp_bases = [None, Some 16], sp_masks = bank_masks, sp_fifo_count = (\<lambda>_. 32), sp_rcr2 = (\<lambda>_. bk_rcr2), sp_tcr2 = (\<lambda>_. bk_tcr2),
     sp_rcsr = (\<lambda>_. bk_rcsr), sp_tcsr = (\<lambda>_. bk_tcsr), sp_set_rcsr = (\<lambda>_ v d. let (w, n) = bank_written (bk_rcsr d) v d in d\<lparr>bk_rcsr := w, bk_lag := n\<rparr>),
     sp_set_tcsr = (\<lambda>_ v d. let (w, n) = bank_written (bk_tcsr d) v d in d\<lparr>bk_tcsr := w, bk_lag := n\<rparr>),
     sp_rx_enable_interrupts = (\<lambda>_ m d. d\<lparr>bk_rcsr := bk_rcsr d OR m\<rparr>), sp_tx_enable_interrupts = (\<lambda>_ m d. d\<lparr>bk_tcsr := bk_tcsr d OR m\<rparr>),
     sp_rx_disable_interrupts = (\<lambda>_ m d. d\<lparr>bk_rcsr := bk_rcsr d AND NOT m\<rparr>), sp_tx_disable_interrupts = (\<lambda>_ m d. d\<lparr>bk_tcsr := bk_tcsr d AND NOT m\<rparr>),
     sp_init = (\<lambda>_ d. d), sp_deinit = (\<lambda>_ d. d), sp_classic = (\<lambda>_. bank_format), sp_tdm = (\<lambda>_ _. bank_format), sp_tx_config = (\<lambda>_ _ d. d),
     sp_rx_config = (\<lambda>_ _ d. d), sp_tx_error_continue = (\<lambda>_ d. d), sp_rx_error_continue = (\<lambda>_ d. d), sp_tx_bclk = (\<lambda>_ _ _ _ _ d. d),
     sp_rx_bclk = (\<lambda>_ _ _ _ _ d. d), sp_mclk = (\<lambda>_ _ d. d), sp_enable_irq = (\<lambda>_ d. d), sp_rx_irq = (\<lambda>_ d. ([], d)), sp_tx_irq = (\<lambda>_ d. ([], d)),
     sp_receive = (\<lambda>_ _ d. (0, d)), sp_send = (\<lambda>_ _ d. (0, d)), sp_success = 0, sp_rx_error = 1901, sp_tx_error = 1900\<rparr>"

lemma bank_rx_clears:
  "\<exists>n. sp_rcsr bank_port base (((\<lambda>d. sp_set_rcsr bank_port base (sp_rcsr bank_port base d AND NOT 0x01000000) d) ^^ n) d) AND 0x01000000 = 0"
    (is "\<exists>n. ?clear ((?f ^^ n) d)")
proof (induction "bk_lag d" arbitrary: d)
  case 0
  then have "?clear (?f d)" by (simp add: bank_port_def bank_written_def and.assoc)
  then show ?case by (intro exI [of _ 1]) simp
next
  case (Suc k)
  show ?case
  proof (cases "?clear d")
    case True
    then show ?thesis by (intro exI [of _ 0]) simp
  next
    case False
    then have "k = bk_lag (?f d)" using Suc.hyps(2) [symmetric] by (simp add: bank_port_def bank_written_def and.assoc)
    then obtain n where "?clear ((?f ^^ n) (?f d))" using Suc.hyps(1) by blast
    then show ?thesis by (intro exI [of _ "Suc n"]) (simp only: funpow_Suc_right o_apply)
  qed
qed

lemma bank_tx_clears:
  "\<exists>n. sp_tcsr bank_port base (((\<lambda>d. sp_set_tcsr bank_port base (sp_tcsr bank_port base d AND NOT 0x01000000) d) ^^ n) d) AND 0x01000000 = 0"
    (is "\<exists>n. ?clear ((?f ^^ n) d)")
proof (induction "bk_lag d" arbitrary: d)
  case 0
  then have "?clear (?f d)" by (simp add: bank_port_def bank_written_def and.assoc)
  then show ?case by (intro exI [of _ 1]) simp
next
  case (Suc k)
  show ?case
  proof (cases "?clear d")
    case True
    then show ?thesis by (intro exI [of _ 0]) simp
  next
    case False
    then have "k = bk_lag (?f d)" using Suc.hyps(2) [symmetric] by (simp add: bank_port_def bank_written_def and.assoc)
    then obtain n where "?clear ((?f ^^ n) (?f d))" using Suc.hyps(1) by blast
    then show ?thesis by (intro exI [of _ "Suc n"]) (simp only: funpow_Suc_right o_apply)
  qed
qed

lemma bank_masks_simps:
  "sk_rcsr_sr (sp_masks bank_port) = 0x01000000" "sk_tcsr_sr (sp_masks bank_port) = 0x01000000"
  "sk_re (sp_masks bank_port) = 0x80000000" "sk_te (sp_masks bank_port) = 0x80000000"
  by (simp_all add: bank_port_def bank_masks_def)

interpretation bank: sai_registers bank_port 16
proof (unfold_locales, goal_cases)
  case (19 d)
  then show ?case unfolding bank_masks_simps by (rule bank_rx_clears)
next
  case (20 d)
  then show ?case unfolding bank_masks_simps by (rule bank_tx_clears)
qed (simp_all add: bank_port_def bank_masks_def bank_written_def sai_rx_bit_def sai_tx_bit_def bit.conj_disj_distrib2 Let_def split: prod.split)

text \<open>The receiver is synchronous, and two attempts to clear a reset bit fail: both are started, and stopping returns.\<close>

theorem sai_start_stop_witness:
  "\<exists>d d2 d3. sai_enable_tx_base bank_port 16 True (sai_enable_rx_base bank_port 16 True
       \<lparr>bk_rcsr = 0, bk_tcsr = 0, bk_rcr2 = 0x40000000, bk_tcr2 = 0, bk_lag = 2\<rparr>) = d \<and>
     bk_rcsr d AND 0x80000000 = 0x80000000 \<and>
     sai_disable_rx_base bank_port 16 d = Some d2 \<and> sai_disable_tx_base bank_port 16 d2 = Some d3 \<and> bk_rcsr d3 AND 0x80000000 = 0"
proof -
  let ?d = "\<lparr>bk_rcsr = 0, bk_tcsr = 0, bk_rcr2 = 0x40000000, bk_tcr2 = 0, bk_lag = 2\<rparr>"
  have "\<not> (sai_rx_is_sync bank_port 16 ?d \<and> sai_tx_is_sync bank_port 16 ?d)"
    by (simp add: sai_tx_is_sync_def bank_port_def)
  from sai_start_stop [OF bank.sai_registers_axioms this, where irq = True] show ?thesis
    by (auto simp: sai_rx_bit_def bank_masks_simps) (simp_all add: bank_port_def)
qed

definition bank_cfg :: "(string, nat) sai_cfg" where
  "bank_cfg = \<lparr>cg_sai_base = Some 16, cg_rx_callback = Some ''rx_callback'', cg_tx_callback = None, cg_rx_user_data = 7, cg_tx_user_data = 0, cg_rx_mask = 0,
     cg_tx_mask = 0, cg_bit_width = 32, cg_sample_rate = 48000, cg_chan_numbers = 2, cg_source_clock_hz = 12288000, cg_rx_sync_mode = 1,
     cg_tx_sync_mode = 0, cg_rx_fifo_water_mark = 15, cg_tx_fifo_water_mark = 15, cg_working_mode = SAI_RX_IRQ_MODE, cg_master_slave = 0, cg_msel = 1\<rparr>"

theorem sai_interrupt_delivered_witness:
  "\<exists>dev handler d. sai_drv_setup bank_port 5 bank_cfg
       (\<lparr>dv_sai_base = None, dv_rx_callback = None, dv_rx_user_data = 0, dv_tx_callback = None, dv_tx_user_data = 0\<rparr>,
        replicate 4 \<lparr>ih_func = None, ih_data = None\<rparr>, \<lparr>bk_rcsr = 0, bk_tcsr = 0, bk_rcr2 = 0, bk_tcr2 = 0, bk_lag = 0\<rparr>) = Some (0, dev, handler, d) \<and>
     SAI_IRQHandler bank_port handler (\<lambda>_. dev) 1 d = Some ([(''rx_callback'', 0, 7)], d)"
proof -
  have "sai_get_id bank_port (cg_sai_base bank_cfg) = Some 1"
    by (simp add: sai_get_id_def bank_port_def bank_cfg_def upt_rec)
  moreover have "sai_is_valid_watermark bank_port 16 15" by (simp add: sai_is_valid_watermark_def bank_port_def)
  ultimately have "\<exists>dev' handler' d'. sai_drv_setup bank_port 5 bank_cfg
       (\<lparr>dv_sai_base = None, dv_rx_callback = None, dv_rx_user_data = 0, dv_tx_callback = None, dv_tx_user_data = 0\<rparr>,
        replicate 4 \<lparr>ih_func = None, ih_data = None\<rparr>, \<lparr>bk_rcsr = 0, bk_tcsr = 0, bk_rcr2 = 0, bk_tcr2 = 0, bk_lag = 0\<rparr>) = Some (0, dev', handler', d') \<and>
    (\<forall>devs h. devs 5 = dev' \<longrightarrow> SAI_IRQHandler bank_port handler' devs 1 h = Some ([(''rx_callback'', SAI_STATUS_NO_ERROR, cg_rx_user_data bank_cfg)], h)) \<and>
    (\<forall>j. j \<noteq> 1 \<longrightarrow> handler' ! j = replicate 4 \<lparr>ih_func = None, ih_data = None\<rparr> ! j) \<and> length handler' = length (replicate 4 \<lparr>ih_func = None :: irq_func option, ih_data = None :: nat option\<rparr>)"
    by (intro sai_interrupt_delivered [where base = 16]) (simp_all add: bank_cfg_def)
  then show ?thesis by (auto simp: bank_cfg_def)
qed

end
