(* ===== verification/Audio_App.thy ===== *)
theory Audio_App
  imports Play_Pipeline Sai_Drv
begin

text \<open>
  The audio application, \<open>audio/audio.c\<close>: the setup of the serial interfaces, the commands that start and stop the pipelines, the
  interrupt that feeds the data threads, and the creation of the application. What the data threads do with their events, and how they
  interleave, is in \<open>Audio_Threads\<close>.
\<close>

section \<open>State\<close>

text \<open>
  The functions of the board (\<open>audio_app_*\<close>), on the hardware state \<open>'h\<close> that the pipelines and the driver share. \<open>bd_apply_config\<close> gives
  the code it returns and the configurations it selects, one for each data thread.
\<close>

record audio_app_run_config =
  rn_rate :: u32
  rn_period :: u32
  rn_index :: u32
  rn_mode :: u32

record sai_active_config =
  sa_base :: "nat option"
  sa_master_slave :: u32
  sa_msel :: u32
  sa_audio_pll :: u32
  sa_slot_count :: u32
  sa_slot_size :: u32
  sa_rx_mask :: u32
  sa_tx_mask :: u32
  sa_rx_sync_mode :: u32
  sa_tx_sync_mode :: u32
  sa_codec_id :: u8

record ('s, 'h) audio_board =
  bd_clock_setup :: "'h \<Rightarrow> 'h"
  bd_clock_freq :: "nat \<Rightarrow> u32"
  bd_codec_setup :: "u8 \<Rightarrow> 'h \<Rightarrow> s32 \<times> 'h"
  bd_codec_set_format :: "u8 \<Rightarrow> u32 \<Rightarrow> u32 \<Rightarrow> u32 \<Rightarrow> 'h \<Rightarrow> 'h"
  bd_codec_close :: "u8 \<Rightarrow> 'h \<Rightarrow> 'h"
  bd_success :: s32
  bd_master :: u32
  bd_slave :: u32
  bd_supported_period :: "u32 list"
  bd_apply_config :: "audio_app_run_config \<Rightarrow> int \<times> 's pipeline_config option list option"

text \<open>
  \<open>struct thread_data_ctx_t\<close> and \<open>struct data_ctx\<close>. The queue of a thread holds at most ten events. There is one kind of handler, so
  \<open>dc_handler\<close> is whether it is set; the context is the user data of the interrupt callback.
\<close>

record data_thread =
  dt_sem :: "nat option"
  dt_mqueue :: "nat option"
  dt_thread :: "nat option"
  dt_queue :: "audio_event list"
  dt_handle :: "pipeline_ctx option"
  dt_id :: u32

record data_ctx =
  dc_thread_count :: u8
  dc_pipeline_count :: u8
  dc_dev :: "(unit, unit) sai_device list"
  dc_irq_source :: u32
  dc_sample_rate :: u32
  dc_period :: u8
  dc_callback_err :: u64
  dc_callback :: u64
  dc_threads :: "data_thread list"
  dc_handler :: bool

record ('s, 'h) audio_app =
  ap_ctx :: data_ctx
  ap_audio :: "('s, 'h) audio_sys"
  ap_sys :: sys
  ap_active :: "sai_active_config list"
  ap_irqs :: "irq_handler list"

abbreviation (input) DEFAULT_PERIOD :: u32 where "DEFAULT_PERIOD \<equiv> 8"
abbreviation (input) DEFAULT_SAMPLE_RATE :: u32 where "DEFAULT_SAMPLE_RATE \<equiv> 48000"
abbreviation (input) AUDIO_APP_MAX_DATA_THREADS :: nat where "AUDIO_APP_MAX_DATA_THREADS \<equiv> 2"
abbreviation (input) MQUEUE_ITEMS :: nat where "MQUEUE_ITEMS \<equiv> 10"

definition upd_thread :: "nat \<Rightarrow> (data_thread \<Rightarrow> data_thread) \<Rightarrow> data_ctx \<Rightarrow> data_ctx" where
  "upd_thread i f c = c\<lparr>dc_threads := (dc_threads c)[i := f (dc_threads c ! i)]\<rparr>"

definition on_hw :: "('h \<Rightarrow> 'h) \<Rightarrow> ('s, 'h) audio_app \<Rightarrow> ('s, 'h) audio_app" where
  "on_hw f s = s\<lparr>ap_audio := (ap_audio s)\<lparr>sys_hw := f (sys_hw (ap_audio s))\<rparr>\<rparr>"

definition hw_call :: "('h \<Rightarrow> 'h option) \<Rightarrow> ('s, 'h) audio_app \<Rightarrow> ('s, 'h) audio_app option" where
  "hw_call f s = map_option (\<lambda>h. s\<lparr>ap_audio := (ap_audio s)\<lparr>sys_hw := h\<rparr>\<rparr>) (f (sys_hw (ap_audio s)))"

text \<open>Sending without waiting: a full queue refuses the event.\<close>

definition mqueue_send :: "nat \<Rightarrow> audio_event \<Rightarrow> data_ctx \<Rightarrow> bool \<times> data_ctx" where
  "mqueue_send i e c =
     (if length (dt_queue (dc_threads c ! i)) < MQUEUE_ITEMS
      then (True, upd_thread i (\<lambda>t. t\<lparr>dt_queue := dt_queue t @ [e]\<rparr>) c) else (False, c))"

section \<open>The interrupt\<close>

definition data_send_event :: "u8 \<Rightarrow> data_ctx \<Rightarrow> data_ctx" where
  "data_send_event status c =
     (let e = \<lparr>ev_type = EVENT_TYPE_DATA, ev_data = ucast status\<rparr> in
      for_upto (unat (dc_pipeline_count c))
        (\<lambda>i c. let (sent, c) = mqueue_send i e c in if sent then c else c\<lparr>dc_callback_err := dc_callback_err c + 1\<rparr>) c)"

text \<open>A device beyond the array is a trap, here and in the other operations of the context.\<close>

definition rx_callback :: "('t, 'h) sai_port \<Rightarrow> u8 \<Rightarrow> ('s, 'h) audio_app \<Rightarrow> ('s, 'h) audio_app option" where
  "rx_callback S status s =
     (let c = ap_ctx s in
      if \<not> unat (dc_irq_source c) < length (dc_dev c) then None
      else do {
        s \<leftarrow> hw_call (sai_disable_irq S (dc_dev c ! unat (dc_irq_source c)) False True) s;
        Some (s\<lparr>ap_ctx := data_send_event status (c\<lparr>dc_callback := dc_callback c + 1\<rparr>)\<rparr>)
      })"

section \<open>Setup of the serial interfaces\<close>

definition pll_command :: "u32 \<Rightarrow> u32 \<Rightarrow> u32 \<Rightarrow> cmd" where
  "pll_command type pipeline pll_id = (\<lambda>_. 0)(0 := type, 1 := pipeline, 2 := AUDIO_ELEMENT_PLL, 3 := 0, 4 := pll_id)"

definition pll_adjust_disable :: "('s, 'h) audio_sys \<Rightarrow> ('s, 'h) audio_sys" where
  "pll_adjust_disable a =
     for_upto AUDIO_PIPELINE_MAX_PIPELINES
       (\<lambda>i a. snd (snd (audio_pipeline_ctrl (pll_command AUDIO_CMD_TYPE_ELEMENT_PLL_DISABLE (of_nat i) 0) 20 False a))) a"

definition pll_adjust_set_pll_id :: "u32 \<Rightarrow> ('s, 'h) audio_sys \<Rightarrow> ('s, 'h) audio_sys" where
  "pll_adjust_set_pll_id pll_id a =
     for_upto AUDIO_PIPELINE_MAX_PIPELINES
       (\<lambda>i a. snd (snd (audio_pipeline_ctrl (pll_command AUDIO_CMD_TYPE_ELEMENT_PLL_ID (of_nat i) pll_id) 20 False a))) a"

definition sai_get_effective_channels_count :: "u32 \<Rightarrow> u32 \<Rightarrow> u8" where
  "sai_get_effective_channels_count msk channels_num =
     for_upto (unat (if channels_num < 32 then channels_num else 32))
       (\<lambda>i num. if push_bit i 1 AND NOT msk \<noteq> 0 then num + 1 else num) 0"

definition sai_water_mark :: "u8 \<Rightarrow> u32 \<Rightarrow> u32 \<Rightarrow> u32" where
  "sai_water_mark period msk chan_numbers =
     word_of_int (uint period * uint (sai_get_effective_channels_count msk chan_numbers) - 1)"

text \<open>
  One active instance: its codec, its configuration, its driver. \<open>rc\<close> is negative once the driver has refused one, then the loop is left.
  \<open>pll_disable\<close> is cleared by an instance that stays a slave.
\<close>

definition sai_setup_codec :: "('s, 'h) audio_board \<Rightarrow> nat \<Rightarrow> ('s, 'h) audio_app \<Rightarrow> ('s, 'h) audio_app" where
  "sai_setup_codec B i s =
     (let sa = ap_active s ! i; (ret, h) = bd_codec_setup B (sa_codec_id sa) (sys_hw (ap_audio s)); s = on_hw (\<lambda>_. h) s in
      if ret \<noteq> bd_success B
      then (if sa_master_slave sa = bd_slave B then s\<lparr>ap_active := (ap_active s)[i := sa\<lparr>sa_master_slave := bd_master B\<rparr>]\<rparr> else s)
      else on_hw (bd_codec_set_format B (sa_codec_id sa) (bd_clock_freq B i) (dc_sample_rate (ap_ctx s)) (sa_slot_size sa)) s)"

definition sai_instance_config :: "('s, 'h) audio_board \<Rightarrow> nat \<Rightarrow> ('s, 'h) audio_app \<Rightarrow> (unit, unit) sai_cfg" where
  "sai_instance_config B i s =
     (let c = ap_ctx s; sa = ap_active s ! i; irq = (of_nat i = dc_irq_source c) in
      \<lparr>cg_sai_base = sa_base sa, cg_rx_callback = (if irq then Some () else None), cg_tx_callback = None, cg_rx_user_data = (),
       cg_tx_user_data = (), cg_rx_mask = sa_rx_mask sa, cg_tx_mask = sa_tx_mask sa, cg_bit_width = sa_slot_size sa,
       cg_sample_rate = dc_sample_rate c, cg_chan_numbers = sa_slot_count sa, cg_source_clock_hz = bd_clock_freq B i,
       cg_rx_sync_mode = sa_rx_sync_mode sa, cg_tx_sync_mode = sa_tx_sync_mode sa,
       cg_rx_fifo_water_mark = sai_water_mark (dc_period c) (sa_rx_mask sa) (sa_slot_count sa),
       cg_tx_fifo_water_mark = sai_water_mark (dc_period c) (sa_tx_mask sa) (sa_slot_count sa),
       cg_working_mode = (if irq then SAI_RX_IRQ_MODE else SAI_POLLING_MODE),
       cg_master_slave = sa_master_slave sa, cg_msel = sa_msel sa\<rparr>)"

definition sai_setup_one ::
  "('t, 'h) sai_port \<Rightarrow> ('s, 'h) audio_board \<Rightarrow> nat \<Rightarrow> int \<times> bool \<times> ('s, 'h) audio_app \<Rightarrow> (int \<times> bool \<times> ('s, 'h) audio_app) option" where
  "sai_setup_one S B i st =
     (let (rc, pll_disable, s) = st in
      if rc < 0 then Some st
      else if \<not> i < length (dc_dev (ap_ctx s)) then None
      else do {
        let s = sai_setup_codec B i s; let cfg = sai_instance_config B i s; let c = ap_ctx s;
        let pll_disable = (pll_disable \<and> cg_master_slave cfg \<noteq> bd_slave B);
        (rc, dev, irqs, h) \<leftarrow> sai_drv_setup S i cfg (dc_dev c ! i, ap_irqs s, sys_hw (ap_audio s));
        let s = s\<lparr>ap_ctx := c\<lparr>dc_dev := (dc_dev c)[i := dev]\<rparr>, ap_irqs := irqs, ap_audio := (ap_audio s)\<lparr>sys_hw := h\<rparr>\<rparr>;
        (if rc < 0 then Some (- 1, pll_disable, s)
         else Some (0, pll_disable, s\<lparr>ap_audio := pll_adjust_set_pll_id (sa_audio_pll (ap_active s ! i)) (ap_audio s)\<rparr>))
      })"

definition sai_setup :: "('t, 'h) sai_port \<Rightarrow> ('s, 'h) audio_board \<Rightarrow> ('s, 'h) audio_app \<Rightarrow> (int \<times> ('s, 'h) audio_app) option" where
  "sai_setup S B s =
     (let s = on_hw (bd_clock_setup B) s; n = length (ap_active s);
          s = s\<lparr>ap_ctx := (ap_ctx s)\<lparr>dc_irq_source := of_nat n - 1\<rparr>\<rparr>
      in do {
        (rc, pll_disable, s) \<leftarrow> for_upto_opt n (sai_setup_one S B) (0, True, s);
        Some (rc, if rc \<ge> 0 \<and> pll_disable then s\<lparr>ap_audio := pll_adjust_disable (ap_audio s)\<rparr> else s)
      })"

definition sai_close :: "('t, 'h) sai_port \<Rightarrow> ('s, 'h) audio_app \<Rightarrow> ('s, 'h) audio_app option" where
  "sai_close S s =
     for_upto_opt (length (ap_active s))
       (\<lambda>i s. if \<not> i < length (dc_dev (ap_ctx s)) then None else hw_call (sai_drv_exit S (dc_dev (ap_ctx s) ! i)) s) s"

section \<open>Commands\<close>

record audio_cmd_run =
  ar_id :: u32
  ar_frequency :: u32
  ar_period :: u32
  ar_config_idx :: u32

text \<open>\<open>None\<close> when a nonzero value is not in the list.\<close>

definition assign_nonzero_valid_val :: "u32 \<Rightarrow> u32 \<Rightarrow> u32 list \<Rightarrow> u32 option" where
  "assign_nonzero_valid_val initial val valid_list =
     (if val = 0 then Some initial else if List.member valid_list val then Some val else None)"

text \<open>
  The pipelines are counted up to the first that is not configured; more threads than the arrays have entries is a trap. \<open>blocks\<close> and
  \<open>mutex_ok\<close> are what the creation of each pipeline gets. The creation stops at the first pipeline that fails.
\<close>

definition pipeline_configs :: "u8 \<Rightarrow> 's pipeline_config option list \<Rightarrow> 's pipeline_config list" where
  "pipeline_configs thread_count cfgs = map the (takeWhile (\<lambda>c. c \<noteq> None) (take (unat thread_count) cfgs))"

definition audio_create_one ::
  "('s::zero, 'h) audio_env \<Rightarrow> pipeline_sizes \<Rightarrow> (nat \<Rightarrow> bool) \<Rightarrow> (nat \<Rightarrow> nat option) \<Rightarrow> (nat \<Rightarrow> nat \<Rightarrow> nat \<Rightarrow> bool) \<Rightarrow>
     u32 \<Rightarrow> u32 \<Rightarrow> 's pipeline_config list \<Rightarrow> nat \<Rightarrow> bool \<times> ('s, 'h) audio_app \<Rightarrow> (bool \<times> ('s, 'h) audio_app) option" where
  "audio_create_one E Z A blocks mutex_ok rate period cfgs i st =
     (let (ok, s) = st in
      if \<not> ok then Some st
      else do {
        (handle, a, y) \<leftarrow> play_pipeline_init E Z A (blocks i) (mutex_ok i)
           \<lparr>ag_rate = rate, ag_period = period, ag_pipeline_id = of_nat i, ag_data = cfgs ! i\<rparr> (ap_audio s, ap_sys s);
        Some (handle \<noteq> None, s\<lparr>ap_audio := a, ap_sys := y, ap_ctx := upd_thread i (\<lambda>t. t\<lparr>dt_handle := handle\<rparr>) (ap_ctx s)\<rparr>)
      })"

text \<open>
  \<open>audio_run\<close> up to the setup of the interfaces, and the rest: the handler and the number of pipelines are set under the mutexes of the
  threads, then every thread gets an event. The first part gives the number of pipelines, or \<open>None\<close> at \<open>goto exit\<close>.
\<close>

definition audio_run_prepare ::
  "('s::zero, 'h) audio_env \<Rightarrow> pipeline_sizes \<Rightarrow> (nat \<Rightarrow> bool) \<Rightarrow> (nat \<Rightarrow> nat option) \<Rightarrow> (nat \<Rightarrow> nat \<Rightarrow> nat \<Rightarrow> bool) \<Rightarrow>
     ('t, 'h) sai_port \<Rightarrow> ('s, 'h) audio_board \<Rightarrow> audio_cmd_run \<Rightarrow> ('s, 'h) audio_app \<Rightarrow> (nat option \<times> ('s, 'h) audio_app) option" where
  "audio_run_prepare E Z A blocks mutex_ok S B run s =
     (let err = (\<lambda>s. Some (None, s)) in
      if dc_handler (ap_ctx s) then err s
      else case assign_nonzero_valid_val DEFAULT_PERIOD (ar_period run) (bd_supported_period B) of
        None \<Rightarrow> err s
      | Some period \<Rightarrow>
          let rate = (if ar_frequency run = 0 then DEFAULT_SAMPLE_RATE else ar_frequency run);
              (rc, play_cfg) = bd_apply_config B \<lparr>rn_rate = rate, rn_period = period, rn_index = ar_config_idx run, rn_mode = ar_id run\<rparr>
          in if rc < 0 then err s
             else case play_cfg of
               None \<Rightarrow> err s
             | Some play_cfg \<Rightarrow>
                 let c = (ap_ctx s)\<lparr>dc_callback_err := 0, dc_callback := 0, dc_sample_rate := rate, dc_period := ucast period\<rparr>;
                     s = s\<lparr>ap_ctx := c\<rparr>; cfgs = pipeline_configs (dc_thread_count c) play_cfg; n = length cfgs
                 in if unat (dc_thread_count c) > AUDIO_APP_MAX_DATA_THREADS then None
                    else if n = 0 then err s
                    else do {
                      (ok, s) \<leftarrow> for_upto_opt n (audio_create_one E Z A blocks mutex_ok rate period cfgs) (True, s);
                      (if \<not> ok then err s
                       else do {
                         (rc, s) \<leftarrow> sai_setup S B s;
                         (if rc < 0 then err s else Some (Some n, s))
                       })
                    })"

definition audio_set_handler :: "nat \<Rightarrow> ('s, 'h) audio_app \<Rightarrow> ('s, 'h) audio_app" where
  "audio_set_handler n s = s\<lparr>ap_ctx := (ap_ctx s)\<lparr>dc_handler := True, dc_pipeline_count := of_nat n\<rparr>\<rparr>"

definition audio_run_send :: "nat \<Rightarrow> ('s, 'h) audio_app \<Rightarrow> ('s, 'h) audio_app" where
  "audio_run_send i s = s\<lparr>ap_ctx := snd (mqueue_send i \<lparr>ev_type = EVENT_TYPE_DATA, ev_data = 0\<rparr> (ap_ctx s))\<rparr>"

definition audio_run ::
  "('s::zero, 'h) audio_env \<Rightarrow> pipeline_sizes \<Rightarrow> (nat \<Rightarrow> bool) \<Rightarrow> (nat \<Rightarrow> nat option) \<Rightarrow> (nat \<Rightarrow> nat \<Rightarrow> nat \<Rightarrow> bool) \<Rightarrow>
     ('t, 'h) sai_port \<Rightarrow> ('s, 'h) audio_board \<Rightarrow> audio_cmd_run \<Rightarrow> ('s, 'h) audio_app \<Rightarrow> (u32 \<times> ('s, 'h) audio_app) option" where
  "audio_run E Z A blocks mutex_ok S B run s =
     do {
       (n, s) \<leftarrow> audio_run_prepare E Z A blocks mutex_ok S B run s;
       (case n of
          None \<Rightarrow> Some (AUDIO_RESP_STATUS_ERROR, s)
        | Some n \<Rightarrow> Some (AUDIO_RESP_STATUS_SUCCESS, for_upto n audio_run_send (audio_set_handler n s)))
     }"

text \<open>A thread without a pipeline is a trap when its pipeline is used.\<close>

definition audio_exit_one :: "('s, 'h) audio_env \<Rightarrow> nat \<Rightarrow> ('s, 'h) audio_app \<Rightarrow> ('s, 'h) audio_app option" where
  "audio_exit_one E i s =
     do {
       ctx \<leftarrow> dt_handle (dc_threads (ap_ctx s) ! i);
       (a, y) \<leftarrow> play_pipeline_exit E ctx (ap_audio s, ap_sys s);
       Some (s\<lparr>ap_audio := a, ap_sys := y\<rparr>)
     }"

definition audio_close :: "('t, 'h) sai_port \<Rightarrow> ('s, 'h) audio_board \<Rightarrow> ('s, 'h) audio_app \<Rightarrow> ('s, 'h) audio_app option" where
  "audio_close S B s =
     map_option (\<lambda>s. for_upto (length (ap_active s)) (\<lambda>i s. on_hw (bd_codec_close B (sa_codec_id (ap_active s ! i))) s) s) (sai_close S s)"

definition audio_clear_handler :: "('s, 'h) audio_app \<Rightarrow> ('s, 'h) audio_app" where
  "audio_clear_handler s = s\<lparr>ap_ctx := (ap_ctx s)\<lparr>dc_handler := False\<rparr>\<rparr>"

definition audio_stop ::
  "('s, 'h) audio_env \<Rightarrow> ('t, 'h) sai_port \<Rightarrow> ('s, 'h) audio_board \<Rightarrow> ('s, 'h) audio_app \<Rightarrow> (u32 \<times> ('s, 'h) audio_app) option" where
  "audio_stop E S B s =
     (if \<not> dc_handler (ap_ctx s) then Some (AUDIO_RESP_STATUS_SUCCESS, s)
      else do {
        s \<leftarrow> for_upto_opt (unat (dc_pipeline_count (ap_ctx s))) (audio_exit_one E) (audio_clear_handler s);
        map_option (Pair AUDIO_RESP_STATUS_SUCCESS) (audio_close S B s)
      })"

definition audio_response :: "u32 \<Rightarrow> response list" where
  "audio_response status = [(AUDIO_RESP_TYPE, status)]"

text \<open>A received command is its length and its words; \<open>audio_cmd_run\<close> has 28 bytes, \<open>audio_cmd_stop\<close> four.\<close>

definition run_of_cmd :: "cmd \<Rightarrow> audio_cmd_run" where
  "run_of_cmd cmd = \<lparr>ar_id = cmd 1, ar_frequency = cmd 2, ar_period = cmd 3, ar_config_idx = cmd 4\<rparr>"

definition audio_command_handler ::
  "('s::zero, 'h) audio_env \<Rightarrow> pipeline_sizes \<Rightarrow> (nat \<Rightarrow> bool) \<Rightarrow> (nat \<Rightarrow> nat option) \<Rightarrow> (nat \<Rightarrow> nat \<Rightarrow> nat \<Rightarrow> bool) \<Rightarrow>
     ('t, 'h) sai_port \<Rightarrow> ('s, 'h) audio_board \<Rightarrow> bool \<Rightarrow> (cmd \<times> u32) option \<Rightarrow> ('s, 'h) audio_app \<Rightarrow>
     (response list \<times> ('s, 'h) audio_app) option" where
  "audio_command_handler E Z A blocks mutex_ok S B ctrl_handle received s =
     (case received of
        None \<Rightarrow> Some ([], s)
      | Some (cmd, len) \<Rightarrow>
          if cmd_type cmd = AUDIO_CMD_TYPE_RUN then
            (if len \<noteq> 28 then Some (audio_response AUDIO_RESP_STATUS_ERROR, s)
             else map_option (\<lambda>(rc, s). (audio_response rc, s)) (audio_run E Z A blocks mutex_ok S B (run_of_cmd cmd) s))
          else if cmd_type cmd = AUDIO_CMD_TYPE_STOP then
            (if len \<noteq> 4 then Some (audio_response AUDIO_RESP_STATUS_ERROR, s)
             else map_option (\<lambda>(rc, s). (audio_response rc, s)) (audio_stop E S B s))
          else if cmd_type cmd = AUDIO_CMD_TYPE_PIPELINE_DUMP \<or> cmd_type cmd = AUDIO_CMD_TYPE_ELEMENT_DUMP \<or>
                  cmd_type cmd = AUDIO_CMD_TYPE_ELEMENT_ROUTING_CONNECT \<or> cmd_type cmd = AUDIO_CMD_TYPE_ELEMENT_ROUTING_DISCONNECT then
            (case audio_pipeline_ctrl cmd len ctrl_handle (ap_audio s) of (_, resp, a) \<Rightarrow> Some (resp, s\<lparr>ap_audio := a\<rparr>))
          else Some (audio_response AUDIO_RESP_STATUS_ERROR, s))"

definition audio_stats :: "('s, 'h) audio_app \<Rightarrow> ('s, 'h) audio_app option" where
  "audio_stats s =
     (if \<not> dc_handler (ap_ctx s) then Some s
      else for_upto_opt (unat (dc_pipeline_count (ap_ctx s)))
        (\<lambda>i s. do {
           ctx \<leftarrow> dt_handle (dc_threads (ap_ctx s) ! i);
           a \<leftarrow> play_pipeline_stats ctx (ap_audio s);
           Some (s\<lparr>ap_audio := a\<rparr>)
         }) s)"

text \<open>One turn of the control thread; the statistics come every hundredth turn.\<close>

definition ctrl_turn ::
  "('s::zero, 'h) audio_env \<Rightarrow> pipeline_sizes \<Rightarrow> (nat \<Rightarrow> bool) \<Rightarrow> (nat \<Rightarrow> nat option) \<Rightarrow> (nat \<Rightarrow> nat \<Rightarrow> nat \<Rightarrow> bool) \<Rightarrow>
     ('t, 'h) sai_port \<Rightarrow> ('s, 'h) audio_board \<Rightarrow> bool \<Rightarrow> (cmd \<times> u32) option \<Rightarrow> nat \<times> ('s, 'h) audio_app \<Rightarrow>
     (response list \<times> nat \<times> ('s, 'h) audio_app) option" where
  "ctrl_turn E Z A blocks mutex_ok S B ctrl_handle received st =
     do {
       let (count, s) = st;
       (resp, s) \<leftarrow> audio_command_handler E Z A blocks mutex_ok S B ctrl_handle received s;
       (if count - 1 = 0 then map_option (\<lambda>s. (resp, 100, s)) (audio_stats s) else Some (resp, count - 1, s))
     }"

section \<open>Creation of the application\<close>

text \<open>
  The mutexes take no resource. After an error a thread gives back what it took, in reverse order; an aborted thread is a thread given back.
\<close>

definition audio_thread_init :: "(nat \<Rightarrow> bool) \<Rightarrow> data_thread \<times> sys \<Rightarrow> (int \<times> data_thread \<times> sys) option" where
  "audio_thread_init A st =
     (let (t, y) = st; (mutex, y) = attempt A y in
      if \<not> mutex then Some (- 1, t, y)
      else case acquire A Semaphore y of
        (None, y) \<Rightarrow> Some (- 1, t, y)
      | (Some sem, y) \<Rightarrow>
          (let t = t\<lparr>dt_sem := Some sem\<rparr> in
           case acquire A Queue y of
             (None, y) \<Rightarrow> map_option (\<lambda>y. (- 1, t\<lparr>dt_mqueue := None\<rparr>, y)) (release Semaphore sem y)
           | (Some q, y) \<Rightarrow>
               (let t = t\<lparr>dt_mqueue := Some q, dt_queue := []\<rparr> in
                case acquire A Thread y of
                  (None, y) \<Rightarrow> do { y \<leftarrow> release Queue q y; map_option (\<lambda>y. (- 1, t, y)) (release Semaphore sem y) }
                | (Some th, y) \<Rightarrow> Some (0, t\<lparr>dt_thread := Some th\<rparr>, y))))"

definition audio_thread_exit :: "data_thread \<Rightarrow> sys \<Rightarrow> sys option" where
  "audio_thread_exit t y =
     do {
       th \<leftarrow> dt_thread t; y \<leftarrow> release Thread th y;
       q \<leftarrow> dt_mqueue t; y \<leftarrow> release Queue q y;
       sem \<leftarrow> dt_sem t; release Semaphore sem y
     }"

definition zeroed_thread :: data_thread where
  "zeroed_thread = \<lparr>dt_sem = None, dt_mqueue = None, dt_thread = None, dt_queue = [], dt_handle = None, dt_id = 0\<rparr>"

definition zeroed_data_ctx :: "nat \<Rightarrow> data_ctx" where
  "zeroed_data_ctx max_instance =
     \<lparr>dc_thread_count = 0, dc_pipeline_count = 0,
      dc_dev = replicate max_instance \<lparr>dv_sai_base = None, dv_rx_callback = None, dv_rx_user_data = (), dv_tx_callback = None, dv_tx_user_data = ()\<rparr>,
      dc_irq_source = 0, dc_sample_rate = 0, dc_period = 0, dc_callback_err = 0, dc_callback = 0,
      dc_threads = replicate AUDIO_APP_MAX_DATA_THREADS zeroed_thread, dc_handler = False\<rparr>"

text \<open>
  The data threads one after the other; the state carries how many were created, and whether one failed. \<open>while (i--)\<close> ends the
  threads before the one that failed, the last first. When the control thread cannot be created only the context is freed.
\<close>

definition audio_threads_init :: "(nat \<Rightarrow> bool) \<Rightarrow> nat \<Rightarrow> bool \<times> nat \<times> data_ctx \<times> sys \<Rightarrow> (bool \<times> nat \<times> data_ctx \<times> sys) option" where
  "audio_threads_init A i st =
     (let (ok, k, c, y) = st in
      if \<not> ok then Some st
      else if \<not> i < length (dc_threads c) then None
      else do {
        (rc, t, y) \<leftarrow> audio_thread_init A ((dc_threads c ! i)\<lparr>dt_id := of_nat i\<rparr>, y);
        Some (rc \<ge> 0, if rc < 0 then k else k + 1, upd_thread i (\<lambda>_. t) c, y)
      })"

definition rtos_apps_audio_init :: "(nat \<Rightarrow> bool) \<Rightarrow> nat \<Rightarrow> u32 \<Rightarrow> sys \<Rightarrow> (int \<times> data_ctx option \<times> sys) option" where
  "rtos_apps_audio_init A max_instance thread_count y =
     (case acquire A Memory y of
        (None, y) \<Rightarrow> Some (- 1, None, y)
      | (Some mem, y) \<Rightarrow>
          (let c = (zeroed_data_ctx max_instance)\<lparr>dc_thread_count := ucast thread_count\<rparr>;
               (mutex, y) = attempt A y;
               fail = (\<lambda>y. map_option (\<lambda>y. (- 1, None, y)) (release Memory mem y))
           in if \<not> mutex then fail y
              else do {
                (ok, k, c, y) \<leftarrow> for_upto_opt (unat (dc_thread_count c)) (audio_threads_init A) (True, 0, c, y);
                (if \<not> ok then
                   do { y \<leftarrow> for_upto_opt k (\<lambda>i. audio_thread_exit (dc_threads c ! (k - 1 - i))) y; fail y }
                 else case acquire A Thread y of
                   (None, y) \<Rightarrow> fail y
                 | (Some _, y) \<Rightarrow> Some (0, Some c, y))
              }))"

end
