(* ===== verification/Audio_App_Init.thy ===== *)
theory Audio_App_Init
  imports Audio_App
begin

text \<open>
  The creation of the audio application, \<open>rtos_apps_audio_init\<close>: what it takes from the system, and what its error paths give back.
\<close>

section \<open>Data threads\<close>

definition thread_made :: "data_thread \<Rightarrow> bool" where
  "thread_made t \<longleftrightarrow> dt_thread t \<noteq> None \<and> dt_mqueue t \<noteq> None \<and> dt_sem t \<noteq> None"

definition thread_resources :: "data_thread \<Rightarrow> (resource \<times> nat) list" where
  "thread_resources t = [(Thread, the (dt_thread t)), (Queue, the (dt_mqueue t)), (Semaphore, the (dt_sem t))]"

text \<open>The resources of the first \<open>k\<close> threads, the last first.\<close>

definition threads_resources :: "data_ctx \<Rightarrow> nat \<Rightarrow> (resource \<times> nat) list" where
  "threads_resources c k = concat (map (\<lambda>i. thread_resources (dc_threads c ! i)) (rev [0..<k]))"

lemma threads_resources_Suc: "threads_resources c (Suc k) = thread_resources (dc_threads c ! k) @ threads_resources c k"
  by (simp add: threads_resources_def)

lemma threads_resources_cong:
  assumes "\<And>i. i < k \<Longrightarrow> dc_threads c ! i = dc_threads c' ! i"
  shows "threads_resources c k = threads_resources c' k"
  using assms by (induction k) (simp_all add: threads_resources_Suc, simp add: threads_resources_def)

lemma thread_init_holds:
  assumes y0: "sys_ok y0" and held: "holds y0 xs y"
  shows "\<exists>rc t' y'. audio_thread_init A (t, y) = Some (rc, t', y') \<and>
    (if rc < 0 then holds y0 xs y'
     else thread_made t' \<and> holds y0 (thread_resources t' @ xs) y' \<and> dt_id t' = dt_id t \<and> dt_handle t' = dt_handle t \<and> dt_queue t' = [])"
proof -
  obtain mutex y1 where m: "attempt A y = (mutex, y1)" by force
  have h1: "holds y0 xs y1" using attempt_holds [OF held m] .
  obtain s y2 where s: "acquire A Semaphore y1 = (s, y2)" by force
  show ?thesis
  proof (cases "mutex \<and> s \<noteq> None")
    case False
    moreover have "s = None \<Longrightarrow> holds y0 xs y2" using acquire_none [OF h1] s by blast
    ultimately show ?thesis using m s h1 by (cases mutex) (auto simp: audio_thread_init_def)
  next
    case True
    then obtain sem where sem: "mutex" "s = Some sem" by blast
    have h2: "holds y0 ((Semaphore, sem) # xs) y2" using acquire_some [OF h1] s sem(2) by blast
    obtain q y3 where q: "acquire A Queue y2 = (q, y3)" by force
    show ?thesis
    proof (cases q)
      case None
      have h3: "holds y0 ((Semaphore, sem) # xs) y3" using acquire_none [OF h2] q None by blast
      obtain y4 where "release Semaphore sem y3 = Some y4" "holds y0 xs y4" using release_last [OF y0 h3] by blast
      then show ?thesis using m s sem q None by (simp add: audio_thread_init_def Let_def)
    next
      case (Some mq)
      have h3: "holds y0 ((Queue, mq) # (Semaphore, sem) # xs) y3" using acquire_some [OF h2] q Some by blast
      obtain th y4 where th: "acquire A Thread y3 = (th, y4)" by force
      show ?thesis
      proof (cases th)
        case None
        have h4: "holds y0 ((Queue, mq) # (Semaphore, sem) # xs) y4" using acquire_none [OF h3] th None by blast
        obtain y5 where y5: "release Queue mq y4 = Some y5" "holds y0 ((Semaphore, sem) # xs) y5" using release_last [OF y0 h4] by blast
        obtain y6 where "release Semaphore sem y5 = Some y6" "holds y0 xs y6" using release_last [OF y0 y5(2)] by blast
        then show ?thesis using m s sem q Some th None y5 by (simp add: audio_thread_init_def Let_def)
      next
        case (Some tid)
        have "holds y0 ((Thread, tid) # (Queue, mq) # (Semaphore, sem) # xs) y4" using acquire_some [OF h3] th Some by blast
        then show ?thesis
          using m s sem q \<open>q = Some mq\<close> th Some by (simp add: audio_thread_init_def Let_def thread_made_def thread_resources_def)
      qed
    qed
  qed
qed

text \<open>
  The calls have numbers, so what is granted decides the outcome: a thread makes four calls, for its mutex, its semaphore, its queue and the
  thread itself.
\<close>

definition thread_granted :: "(nat \<Rightarrow> bool) \<Rightarrow> nat \<Rightarrow> bool" where
  "thread_granted A q \<longleftrightarrow> A q \<and> A (q + 1) \<and> A (q + 2) \<and> A (q + 3)"

lemma thread_init_calls:
  assumes "audio_thread_init A (t, y) = Some (rc, t', y')"
  shows "(rc < 0) = (\<not> thread_granted A (sy_next y))" and "\<not> rc < 0 \<Longrightarrow> sy_next y' = sy_next y + 4"
  using assms
  by (auto simp: audio_thread_init_def attempt_def acquire_def release_def thread_granted_def Let_def numeral_3_eq_3 bind_eq_Some_conv
      split: if_splits)

lemma thread_exit_holds:
  assumes "sys_ok y0" and "thread_made t" and "holds y0 (thread_resources t @ xs) y"
  shows "\<exists>y'. audio_thread_exit t y = Some y' \<and> holds y0 xs y'"
proof -
  obtain th q sem where t: "dt_thread t = Some th" "dt_mqueue t = Some q" "dt_sem t = Some sem"
    using assms(2) by (auto simp: thread_made_def)
  have "holds y0 ((Thread, th) # (Queue, q) # (Semaphore, sem) # xs) y" using assms(3) t by (simp add: thread_resources_def)
  from release_last [OF assms(1) this] obtain y1 where y1: "release Thread th y = Some y1" "holds y0 ((Queue, q) # (Semaphore, sem) # xs) y1" by blast
  from release_last [OF assms(1) y1(2)] obtain y2 where y2: "release Queue q y1 = Some y2" "holds y0 ((Semaphore, sem) # xs) y2" by blast
  from release_last [OF assms(1) y2(2)] obtain y3 where "release Semaphore sem y2 = Some y3" "holds y0 xs y3" by blast
  then show ?thesis using t y1 y2 by (simp add: audio_thread_exit_def)
qed

text \<open>The threads created so far are complete, known by their index, with an empty queue and no pipeline.\<close>

definition threads_made :: "nat \<Rightarrow> data_ctx \<Rightarrow> bool" where
  "threads_made k c \<longleftrightarrow>
     (\<forall>i < k. let t = dc_threads c ! i in thread_made t \<and> dt_id t = of_nat i \<and> dt_queue t = [] \<and> dt_handle t = None)"

definition blank_from :: "nat \<Rightarrow> data_ctx \<Rightarrow> bool" where
  "blank_from k c \<longleftrightarrow> (\<forall>i. k \<le> i \<longrightarrow> i < length (dc_threads c) \<longrightarrow> dt_handle (dc_threads c ! i) = None)"

lemma threads_init_holds:
  fixes y0 y :: sys and c :: data_ctx
  assumes y0: "sys_ok y0" and held: "holds y0 xs y" and n: "n \<le> length (dc_threads c)" and blank: "blank_from 0 c"
  shows "\<exists>ok k c' y'. for_upto_opt n (audio_threads_init A) (True, 0, c, y) = Some (ok, k, c', y') \<and>
    (ok \<longrightarrow> k = n) \<and> k \<le> n \<and> threads_made k c' \<and> holds y0 (threads_resources c' k @ xs) y' \<and>
    dc_handler c' = dc_handler c \<and> dc_thread_count c' = dc_thread_count c \<and> length (dc_threads c') = length (dc_threads c) \<and>
    (ok \<longleftrightarrow> (\<forall>j < n. thread_granted A (sy_next y + 4 * j))) \<and> (ok \<longrightarrow> sy_next y' = sy_next y + 4 * n)"
proof -
  let ?P = "\<lambda>i (ok, k, c', y'). (ok \<longleftrightarrow> (\<forall>j < i. thread_granted A (sy_next y + 4 * j))) \<and> (ok \<longrightarrow> sy_next y' = sy_next y + 4 * i) \<and>
    (ok \<longrightarrow> k = i \<and> blank_from i c') \<and> k \<le> i \<and> threads_made k c' \<and> holds y0 (threads_resources c' k @ xs) y' \<and>
    dc_handler c' = dc_handler c \<and> dc_thread_count c' = dc_thread_count c \<and> length (dc_threads c') = length (dc_threads c)"
  have "\<exists>s'. for_upto_opt n (audio_threads_init A) (True, 0, c, y) = Some s' \<and> ?P n s'"
  proof (rule for_upto_opt_invariant [where P = ?P])
    show "?P 0 (True, 0, c, y)" using held blank by (simp add: threads_made_def threads_resources_def)
    fix i s assume i: "i < n" and s: "?P i s"
    obtain ok k c1 y1 where s_eq: "s = (ok, k, c1, y1)" by (metis prod_cases4)
    show "\<exists>s'. audio_threads_init A i s = Some s' \<and> ?P (Suc i) s'"
    proof (cases ok)
      case False
      then show ?thesis using s by (auto simp: s_eq audio_threads_init_def less_Suc_eq)
    next
      case True
      have k: "k = i" "i < length (dc_threads c1)" "dt_handle (dc_threads c1 ! i) = None" using s True i n by (auto simp: s_eq blank_from_def)
      have h: "holds y0 (threads_resources c1 i @ xs) y1" using s k by (simp add: s_eq)
      let ?t = "(dc_threads c1 ! i)\<lparr>dt_id := of_nat i\<rparr>"
      obtain rc t' y' where one: "audio_thread_init A (?t, y1) = Some (rc, t', y')"
        and r: "if rc < 0 then holds y0 (threads_resources c1 i @ xs) y'
          else thread_made t' \<and> holds y0 (thread_resources t' @ threads_resources c1 i @ xs) y' \<and> dt_id t' = dt_id ?t \<and>
            dt_handle t' = dt_handle ?t \<and> dt_queue t' = []"
        using thread_init_holds [OF y0 h, of A ?t] by blast
      have calls: "(rc < 0) = (\<not> thread_granted A (sy_next y + 4 * i))" "\<not> rc < 0 \<Longrightarrow> sy_next y' = sy_next y + 4 * Suc i"
        using thread_init_calls [OF one] s True by (simp_all add: s_eq)
      have before: "\<forall>j < i. thread_granted A (sy_next y + 4 * j)" using s True by (simp add: s_eq)
      let ?c = "upd_thread i (\<lambda>_. t') c1"
      have old: "dc_threads ?c ! j = dc_threads c1 ! j" if "j \<noteq> i" for j using that by (simp add: upd_thread_def)
      have new: "dc_threads ?c ! i = t'" using k(2) by (simp add: upd_thread_def)
      have res: "threads_resources ?c i = threads_resources c1 i" by (rule threads_resources_cong) (simp add: old)
      have len: "length (dc_threads ?c) = length (dc_threads c1)" "dc_handler ?c = dc_handler c1" "dc_thread_count ?c = dc_thread_count c1"
        by (simp_all add: upd_thread_def)
      have step: "audio_threads_init A i s = Some (rc \<ge> 0, if rc < 0 then k else k + 1, ?c, y')"
        using True k one by (simp add: s_eq audio_threads_init_def)
      have made: "threads_made i ?c" using s k(1) old by (auto simp: s_eq threads_made_def Let_def)
      have blank: "blank_from (Suc i) ?c" using s True old len(1) by (auto simp: s_eq blank_from_def)
      show ?thesis
      proof (cases "rc < 0")
        case True
        then show ?thesis using step s r k(1) made res len calls(1) by (auto simp: s_eq)
      next
        case False
        have "threads_made (Suc i) ?c" using made new r False k(3) by (auto simp: threads_made_def Let_def less_Suc_eq)
        moreover have "holds y0 (threads_resources ?c (Suc i) @ xs) y'" using r False by (simp add: threads_resources_Suc new res)
        moreover have "\<forall>j < Suc i. thread_granted A (sy_next y + 4 * j)" using before calls(1) False by (auto simp: less_Suc_eq)
        ultimately show ?thesis using step s False k(1) blank len calls(2) by (simp add: s_eq)
      qed
    qed
  qed
  then show ?thesis by (auto simp: split_beta)
qed

lemma threads_exit_holds:
  assumes y0: "sys_ok y0" and held: "holds y0 (threads_resources c k @ xs) y" and made: "threads_made k c"
  shows "\<exists>y'. for_upto_opt k (\<lambda>i. audio_thread_exit (dc_threads c ! (k - 1 - i))) y = Some y' \<and> holds y0 xs y'"
proof -
  let ?f = "\<lambda>i. audio_thread_exit (dc_threads c ! (k - 1 - i))"
  have "\<exists>y'. for_upto_opt k ?f y = Some y' \<and> holds y0 (threads_resources c (k - k) @ xs) y'"
  proof (rule for_upto_opt_invariant [where P = "\<lambda>i y. holds y0 (threads_resources c (k - i) @ xs) y"])
    show "holds y0 (threads_resources c (k - 0) @ xs) y" using held by simp
    fix i u assume i: "i < k" and u: "holds y0 (threads_resources c (k - i) @ xs) u"
    have d: "k - i = Suc (k - 1 - i)" "k - Suc i = k - 1 - i" "k - 1 - i < k" using i by auto
    have "holds y0 (thread_resources (dc_threads c ! (k - 1 - i)) @ threads_resources c (k - Suc i) @ xs) u"
      using u unfolding d(1) threads_resources_Suc d(2) by simp
    moreover have "thread_made (dc_threads c ! (k - 1 - i))" using made d(3) by (simp add: threads_made_def Let_def)
    ultimately show "\<exists>u'. ?f i u = Some u' \<and> holds y0 (threads_resources c (k - Suc i) @ xs) u'"
      using thread_exit_holds [OF y0] by blast
  qed
  then show ?thesis by (simp add: threads_resources_def)
qed

section \<open>The application\<close>

text \<open>The calls before the control thread: the context, the mutex of the resets, and those of the \<open>n\<close> data threads.\<close>

definition init_granted :: "(nat \<Rightarrow> bool) \<Rightarrow> nat \<Rightarrow> nat \<Rightarrow> bool" where
  "init_granted A q n \<longleftrightarrow> A q \<and> A (q + 1) \<and> (\<forall>j < n. thread_granted A (q + 2 + 4 * j))"

text \<open>
  C37. The creation of the application for at most two data threads always returns. When every call is granted it succeeds, and the application
  holds its context, the control thread, and for each data thread the thread, its queue and its semaphore, all different, and the threads are
  idle and empty. When any call before the control thread is refused it has given everything back. But when only the control thread is
  refused, the context is freed while all the data threads, which use it, stay with their queues and semaphores.
\<close>

theorem audio_init_accounts:
  assumes "sys_ok y" and "unat (ucast thread_count :: u8) \<le> AUDIO_APP_MAX_DATA_THREADS"
  shows "\<exists>rc ctx y'. rtos_apps_audio_init A max_instance thread_count y = Some (rc, ctx, y') \<and>
    (let n = unat (ucast thread_count :: u8) in
     if init_granted A (sy_next y) n then
       \<exists>c. threads_made n c \<and>
         (if A (sy_next y + 2 + 4 * n)
          then rc = 0 \<and> ctx = Some c \<and> unat (dc_thread_count c) = n \<and> \<not> dc_handler c \<and>
            (\<exists>mem ctl. holds y ((Thread, ctl) # threads_resources c n @ [(Memory, mem)]) y')
          else rc = - 1 \<and> ctx = None \<and> holds y (threads_resources c n) y')
     else rc = - 1 \<and> ctx = None \<and> holds y [] y')"
proof -
  let ?n = "unat (ucast thread_count :: u8)" and ?c = "(zeroed_data_ctx max_instance)\<lparr>dc_thread_count := ucast thread_count\<rparr>"
  let ?q = "sy_next y"
  note defs = rtos_apps_audio_init_def Let_def
  obtain a y1 where a: "acquire A Memory y = (a, y1)" by force
  have y1: "(a \<noteq> None) = A ?q" "sy_next y1 = ?q + 1" using a by (auto simp: acquire_def Let_def split: if_splits)
  show ?thesis
  proof (cases a)
    case None
    then show ?thesis using acquire_none [OF holds_refl a [unfolded None]] a y1(1) by (simp add: defs init_granted_def)
  next
    case (Some mem)
    have h1: "holds y [(Memory, mem)] y1" using acquire_some [OF holds_refl] a Some by blast
    have free: "\<exists>u'. release Memory mem u = Some u' \<and> holds y xs u'" if "holds y (xs @ [(Memory, mem)]) u" for u xs
      using release_holds [OF assms(1), of xs Memory mem "[]"] that by simp
    obtain mutex y2 where m: "attempt A y1 = (mutex, y2)" by force
    have y2: "mutex = A (?q + 1)" "sy_next y2 = ?q + 2" using m y1(2) by (auto simp: attempt_def)
    have h2: "holds y [(Memory, mem)] y2" using attempt_holds [OF h1 m] .
    show ?thesis
    proof (cases mutex)
      case False
      then have "\<not> init_granted A ?q ?n" using y2(1) by (simp add: init_granted_def)
      moreover obtain u where "release Memory mem y2 = Some u" "holds y [] u" using free [of "[]" y2] h2 by auto
      ultimately show ?thesis using a Some m False by (simp add: defs)
    next
      case True
      have len: "?n \<le> length (dc_threads ?c)" "blank_from 0 ?c" "\<not> dc_handler ?c"
        using assms(2) by (auto simp: zeroed_data_ctx_def blank_from_def zeroed_thread_def nth_replicate)
      obtain ok k c' y3 where loop: "for_upto_opt ?n (audio_threads_init A) (True, 0, ?c, y2) = Some (ok, k, c', y3)"
        and r: "ok \<longrightarrow> k = ?n" "threads_made k c'" "holds y (threads_resources c' k @ [(Memory, mem)]) y3"
          "dc_handler c' = dc_handler ?c" "dc_thread_count c' = dc_thread_count ?c"
        and calls: "ok = (\<forall>j < ?n. thread_granted A (?q + 2 + 4 * j))" "ok \<longrightarrow> sy_next y3 = ?q + 2 + 4 * ?n"
        using threads_init_holds [OF assms(1) h2 len(1,2), of A] unfolding y2(2) by blast
      have granted: "init_granted A ?q ?n = ok" using y1(1) Some y2(1) True calls(1) by (simp add: init_granted_def)
      show ?thesis
      proof (cases ok)
        case False
        obtain y4 where y4: "for_upto_opt k (\<lambda>i. audio_thread_exit (dc_threads c' ! (k - 1 - i))) y3 = Some y4" "holds y [(Memory, mem)] y4"
          using threads_exit_holds [OF assms(1) r(3,2)] by blast
        obtain y5 where "release Memory mem y4 = Some y5" "holds y [] y5" using free [of "[]"] y4(2) by auto
        then show ?thesis using a Some m True loop False y4(1) granted by (simp add: defs)
      next
        case ok: True
        obtain b y4 where b: "acquire A Thread y3 = (b, y4)" by force
        have last: "(b \<noteq> None) = A (?q + 2 + 4 * ?n)" using b calls(2) ok by (auto simp: acquire_def Let_def split: if_splits)
        show ?thesis
        proof (cases b)
          case None
          have h4: "holds y (threads_resources c' k @ [(Memory, mem)]) y4" using acquire_none [OF r(3)] b None by blast
          obtain y5 where y5: "release Memory mem y4 = Some y5" "holds y (threads_resources c' k) y5" using free [OF h4] by blast
          then have made: "holds y (threads_resources c' ?n) y5" "threads_made ?n c'" using r(1,2) ok by simp_all
          have "rtos_apps_audio_init A max_instance thread_count y = Some (- 1, None, y5)"
            using a Some m True loop ok b None y5(1) by (simp add: defs)
          then show ?thesis using made granted last ok None by (auto simp: Let_def)
        next
          case b_some: (Some ctl)
          have h: "holds y ((Thread, ctl) # threads_resources c' ?n @ [(Memory, mem)]) y4" using acquire_some [OF r(3)] b b_some r(1) ok by simp
          have "rtos_apps_audio_init A max_instance thread_count y = Some (0, Some c', y4)"
            using a Some m True loop ok b b_some by (simp add: defs)
          then show ?thesis using h granted last ok b_some r len(3) by (auto simp: Let_def)
        qed
      qed
    qed
  qed
qed

text \<open>
  An application with two data threads, on a system that grants everything, on one that refuses only the control thread, and on one that refuses
  the second data thread.
\<close>

theorem audio_init_accounts_witness:
  "(\<exists>c mem ctl y'. rtos_apps_audio_init (\<lambda>_. True) 0 2 \<lparr>sy_next = 0, sy_live = {}\<rparr> = Some (0, Some c, y') \<and> threads_made 2 c \<and>
     sy_live y' = set ((Thread, ctl) # threads_resources c 2 @ [(Memory, mem)])) \<and>
   (\<exists>c y'. rtos_apps_audio_init (\<lambda>k. k \<noteq> 10) 0 2 \<lparr>sy_next = 0, sy_live = {}\<rparr> = Some (- 1, None, y') \<and> threads_made 2 c \<and>
     sy_live y' = set (threads_resources c 2)) \<and>
   (\<exists>y'. rtos_apps_audio_init (\<lambda>k. k \<noteq> 9) 0 2 \<lparr>sy_next = 0, sy_live = {}\<rparr> = Some (- 1, None, y') \<and> sy_live y' = {})"
proof -
  let ?y = "\<lparr>sy_next = 0, sy_live = {}\<rparr>"
  have y: "sys_ok ?y" by (simp add: sys_ok_def)
  have n: "unat (ucast (2 :: u32) :: u8) \<le> AUDIO_APP_MAX_DATA_THREADS" "unat (ucast (2 :: u32) :: u8) = 2" by simp_all
  have g: "init_granted (\<lambda>_. True) 0 2" "init_granted (\<lambda>k. k \<noteq> 10) 0 2" "\<not> init_granted (\<lambda>k. k \<noteq> 9) 0 2"
    by (auto simp: init_granted_def thread_granted_def less_Suc_eq numeral_2_eq_2)
  note outcome = audio_init_accounts [OF y n(1), where max_instance = 0, unfolded n(2) Let_def]
  show ?thesis
    using outcome [of "\<lambda>_. True"] outcome [of "\<lambda>k. k \<noteq> 10"] outcome [of "\<lambda>k. k \<noteq> 9"] g by (auto simp: holds_def)
qed

end
