(* ===== verification/Audio_Element_Live.thy ===== *)
theory Audio_Element_Live
  imports Audio_Pipeline_Safety
begin

text \<open>
  Elements whose initialisation is complete: their operations are set and the histograms of their lines lie within their arrays. Runs, resets,
  statistics and commands neither make nor break this, and the statistics of such an element always come to their end.
\<close>

section \<open>The lines of a serial element\<close>

definition hist_shape :: "rtos_apps_hist \<Rightarrow> u32 \<times> nat" where
  "hist_shape h = (n_slots h, length (slots h))"

definition lines_fit :: "sai_element \<Rightarrow> bool" where
  "lines_fit se \<longleftrightarrow> (\<forall>l \<in> set (se_line se). unat (n_slots (sl_hist l)) < length (slots (sl_hist l)))"

definition same_lines :: "sai_element \<Rightarrow> sai_element \<Rightarrow> bool" where
  "same_lines se t \<longleftrightarrow> map (\<lambda>l. hist_shape (sl_hist l)) (se_line t) = map (\<lambda>l. hist_shape (sl_hist l)) (se_line se)"

lemma same_lines_fit: "same_lines se t \<Longrightarrow> lines_fit t = lines_fit se"
proof -
  have fit: "lines_fit u \<longleftrightarrow> (\<forall>(n, k) \<in> set (map (\<lambda>l. hist_shape (sl_hist l)) (se_line u)). unat n < k)" for u
    by (auto simp: lines_fit_def hist_shape_def)
  show "same_lines se t \<Longrightarrow> lines_fit t = lines_fit se" unfolding fit same_lines_def by (simp only:)
qed

lemma same_lines_refl [simp]: "same_lines se se" "same_lines se (se\<lparr>se_started := b\<rparr>)"
  by (simp_all add: same_lines_def)

lemma same_lines_update:
  assumes "same_lines se t" and "hist_shape (sl_hist l) = hist_shape (sl_hist (se_line t ! i))"
  shows "same_lines se (t\<lparr>se_line := (se_line t)[i := l]\<rparr>)"
proof -
  have "map (\<lambda>l. hist_shape (sl_hist l)) ((se_line t)[i := l]) = map (\<lambda>l. hist_shape (sl_hist l)) (se_line t)"
    using assms(2) by (cases "i < length (se_line t)") (simp_all add: map_update list_update_same_conv list_update_beyond)
  then show ?thesis using assms(1) by (simp add: same_lines_def)
qed

lemma hist_update_shape: "rtos_apps_hist_update h v = Some h' \<Longrightarrow> hist_shape h' = hist_shape h"
  by (auto simp: rtos_apps_hist_update_def hist_shape_def Let_def split: if_splits)

lemma hist_reset_shape:
  assumes "rtos_apps_hist_reset h = Some h'"
  shows "hist_shape h' = hist_shape h"
proof -
  have "hist_shape (for_upto n (\<lambda>i h. h\<lparr>slots := (slots h)[i := 0]\<rparr>) h) = hist_shape h" for n
    by (rule for_upto_invariant [where P = "\<lambda>_ u. hist_shape u = hist_shape h"]) (simp_all add: hist_shape_def)
  moreover have "h' = for_upto (Suc (unat (n_slots h))) (\<lambda>i h. h\<lparr>slots := (slots h)[i := 0]\<rparr>) h"
    using assms by (simp only: rtos_apps_hist_reset_def option.inject option.distinct split: if_splits)
  ultimately show ?thesis by (simp only:)
qed

text \<open>A loop left early or at its end, whose body keeps the lines.\<close>

abbreviation left_with :: "('a \<Rightarrow> bool) \<Rightarrow> 'a option + 'a \<Rightarrow> bool" where
  "left_with P r \<equiv> (case r of Inl None \<Rightarrow> True | Inl (Some u) \<Rightarrow> P u | Inr u \<Rightarrow> P u)"

lemma for_upto_err_left:
  assumes "P s" and "\<And>i t. P t \<Longrightarrow> left_with P (f i t)"
  shows "left_with P (for_upto_err n f s)"
proof (induction n)
  case (Suc n)
  show ?case
  proof (cases "for_upto_err n f s")
    case (Inl r)
    then show ?thesis using Suc by simp
  next
    case (Inr t)
    then show ?thesis using Suc assms(2) [of t n] by simp
  qed
qed (simp add: assms(1))

lemma source_check_lines: "left_with (same_lines se) (sai_source_check_lines H h se)"
  unfolding sai_source_check_lines_def
proof (rule for_upto_err_left)
  fix i t assume "same_lines se t"
  then show "left_with (same_lines se) (sai_source_check_line H h i t)"
    by (auto simp: sai_source_check_line_def Let_def split: option.split dest!: hist_update_shape intro!: same_lines_update)
qed simp

lemma sink_check_lines: "left_with (same_lines se) (for_upto_err n (sai_sink_check_line H h) se)"
proof (rule for_upto_err_left)
  fix i t assume "same_lines se t"
  then show "left_with (same_lines se) (sai_sink_check_line H h i t)"
    by (auto simp: sai_sink_check_line_def Let_def split: option.split dest!: hist_update_shape intro!: same_lines_update)
qed simp

lemma source_run_lines: "sai_source_element_run F H el se w = Some (rc, t, w') \<Longrightarrow> same_lines se t"
  using source_check_lines [of se H "hws w"]
  by (auto simp: sai_source_element_run_def Let_def split: if_splits sum.splits option.splits prod.splits)

lemma sink_run_lines: "sai_sink_element_run F H el se w = Some (rc, t, w') \<Longrightarrow> same_lines se t"
  using sink_check_lines [of se "length (se_line se)" H "hws w"]
  by (auto simp: sai_sink_element_run_def Let_def split: if_splits sum.splits option.splits)

lemma stats_lines: "sai_element_stats se = Some t \<Longrightarrow> same_lines se t"
  unfolding sai_element_stats_def
  by (rule for_upto_err_invariant [where P = "\<lambda>_. same_lines se"])
    (auto simp: Let_def split: option.splits sum.splits dest!: hist_reset_shape intro!: same_lines_update)

lemma stats_returns:
  assumes "lines_fit se"
  shows "sai_element_stats se \<noteq> None"
proof -
  let ?f = "\<lambda>i se. let line = se_line se ! i;
                    line = line\<lparr>sl_latency := rtos_apps_stats_compute (sl_latency line)\<rparr>;
                    line = line\<lparr>sl_latency := rtos_apps_stats_reset (sl_latency line)\<rparr>
                in case rtos_apps_hist_reset (sl_hist line) of
                     None \<Rightarrow> Inl ()
                   | Some hist \<Rightarrow> Inr (se\<lparr>se_line := (se_line se)[i := line\<lparr>sl_hist := hist\<rparr>]\<rparr>)"
  have "\<exists>t. for_upto_err (length (se_line se)) ?f se = Inr t \<and> same_lines se t"
  proof (rule for_upto_err_run [where P = "\<lambda>_. same_lines se"])
    fix i t assume i: "i < length (se_line se)" and t: "same_lines se t"
    have "i < length (se_line t)" using i t map_eq_imp_length_eq by (fastforce simp: same_lines_def)
    moreover have "lines_fit t" using assms same_lines_fit [OF t] by simp
    ultimately have "unat (n_slots (sl_hist (se_line t ! i))) < length (slots (sl_hist (se_line t ! i)))" by (simp add: lines_fit_def)
    then obtain hist where "rtos_apps_hist_reset (sl_hist (se_line t ! i)) = Some hist" by (simp add: rtos_apps_hist_reset_def)
    then show "\<exists>u. ?f i t = Inr u \<and> same_lines se u" using t by (simp add: Let_def same_lines_update hist_reset_shape)
  qed simp
  then show ?thesis by (auto simp: sai_element_stats_def)
qed

text \<open>The initialisation starts from zeroed lines and sets the number of slots below their size.\<close>

definition line_made :: "sai_line \<Rightarrow> bool" where
  "line_made l \<longleftrightarrow> length (slots (sl_hist l)) = 101 \<and> unat (n_slots (sl_hist l)) < 101"

definition lines_made :: "('s, 'h) sai_init \<Rightarrow> bool" where
  "lines_made s \<longleftrightarrow> list_all line_made (se_line (si_element s))"

lemma made_line:
  assumes "lines_made s"
  shows "lines_made (sai_init_line attach place mn mx name sc bs j s)"
proof -
  have channels: "lines_made (for_upto n (\<lambda>_. sai_init_channel attach place bs k) u)" if "lines_made u" for n k u
    by (rule for_upto_invariant [where P = "\<lambda>_. lines_made"]) (use that in \<open>simp_all add: sai_init_channel_def lines_made_def Let_def\<close>)
  have update: "list_all line_made (ls[i := l])" if "list_all line_made ls" "i < length ls \<Longrightarrow> line_made l" for ls i l
    using that by (cases "i < length ls") (auto simp: list_all_iff list_update_beyond dest!: subsetD [OF set_update_subset_insert])
  have made: "line_made (l\<lparr>sl_base := b, sl_id := c, sl_sai_id := d, sl_min := x, sl_max := y, sl_latency := z,
      sl_hist := snd (rtos_apps_hist_init (sl_hist l) 16 1)\<rparr>)" if "line_made l" for l b c d x y z
    using that by (simp add: line_made_def rtos_apps_hist_init_def)
  have all: "list_all line_made (se_line (si_element s))" using assms by (simp add: lines_made_def)
  show ?thesis
    unfolding sai_init_line_def Let_def
    by (intro channels) (simp add: lines_made_def, rule update [OF all], rule made, use all in \<open>simp add: list_all_length\<close>)
qed

lemma init_tables_fit:
  assumes "sai_init_tables H attach place mn mx name c zeroed_sai_line w = Some (se, w')"
  shows "lines_fit se"
proof -
  have inst: "lines_made s'" if made: "lines_made s" and init: "sai_init_instance H attach place mn mx name c i s = Inr s'" for i s s'
  proof -
    obtain bs where s': "s' = for_upto (unat (sic_line_n (sec_sai c i)))
        (sai_init_line attach place mn mx name (sec_sai c i) bs) (s\<lparr>si_element := (si_element s)\<lparr>se_base := (se_base (si_element s))[i := bs]\<rparr>\<rparr>)"
      using init by (auto simp: sai_init_instance_def Let_def split: option.splits)
    show ?thesis unfolding s'
      by (rule for_upto_invariant [where P = "\<lambda>_. lines_made"]) (use made in \<open>simp_all add: made_line\<close>, simp add: lines_made_def)
  qed
  obtain s where s: "for_upto_err (unat (sec_sai_n c)) (sai_init_instance H attach place mn mx name c)
      \<lparr>si_element = sai_tables_zeroed c zeroed_sai_line, si_world = w, si_line = 0, si_l = 0\<rparr> = Inr s" and se: "se_line se = se_line (si_element s)"
    using assms by (auto simp: sai_init_tables_def Let_def split: sum.splits)
  have "lines_made s"
    by (rule for_upto_err_invariant [where P = "\<lambda>_. lines_made", OF _ inst s])
      (simp_all add: lines_made_def line_made_def sai_tables_zeroed_def zeroed_sai_line_def list_all_iff)
  then show ?thesis by (simp add: lines_fit_def se lines_made_def line_made_def list_all_iff)
qed

section \<open>Elements\<close>

definition element_live :: "'s element \<Rightarrow> bool" where
  "element_live e \<longleftrightarrow>
     (case snd e of Blank_data \<Rightarrow> False | Sai_sink_data se \<Rightarrow> lines_fit se | Sai_source_data se \<Rightarrow> lines_fit se | _ \<Rightarrow> True)"

lemma element_live_set: "element_live e \<Longrightarrow> snd e \<noteq> Blank_data"
  by (auto simp: element_live_def)

lemma element_run_live: "audio_element_run E e w = Some (rc, e', w') \<Longrightarrow> element_live e' = element_live e"
  by (cases e; cases "snd e")
    (auto simp: audio_element_run_def element_live_def split: prod.splits dest!: source_run_lines sink_run_lines same_lines_fit)

lemma element_reset_live: "reset_run E e w = Some (rc, e', w') \<Longrightarrow> element_live e' = element_live e"
  by (cases e; cases "snd e")
    (auto simp: reset_run_def audio_element_reset_def element_live_def sai_source_element_reset_def sai_sink_element_reset_def lines_fit_def
      Let_def split: prod.splits)

lemma element_stats_live: "audio_element_stats e = Some e' \<Longrightarrow> element_live e' = element_live e"
  by (cases e; cases "snd e") (auto simp: audio_element_stats_def element_live_def dest!: stats_lines same_lines_fit)

lemma element_stats_returns: "element_live e \<Longrightarrow> audio_element_stats e \<noteq> None"
  by (cases e; cases "snd e") (auto simp: audio_element_stats_def element_live_def stats_returns)

lemma element_ctrl_live: "audio_element_ctrl (Some e) cmd len h = (rc, resp, Some e') \<Longrightarrow> element_live e' = element_live e"
  by (cases e; cases "snd e")
    (auto simp: audio_element_ctrl_def as_routing_def as_pll_def Let_def routing_element_ctrl_def pll_element_ctrl_def element_live_def
      split: if_splits)

lemma element_init_live:
  assumes "audio_element_init E Z mx data el ec w = Some (Some (e, w'))"
  shows "element_live e"
  using assms
  by (auto simp: audio_element_init_def Let_def element_live_def sai_sink_element_init_def sai_source_element_init_def
      split: if_splits prod.splits dest: init_tables_fit)

end
