(* ===== verification/Audio_App_Life.thy ===== *)
theory Audio_App_Life
  imports Audio_App Audio_Element_Live
begin

text \<open>
  The life of the pipelines of the application: which places of the table and which memory a pipeline takes when it is created, that
  they stay through any activity, and that a stop gives back what a run took.
\<close>

section \<open>The addresses in the table\<close>

definition table_addrs :: "'s audio_pipeline option list \<Rightarrow> nat option list" where
  "table_addrs t = map (map_option pp_addr) t"

definition without :: "nat set \<Rightarrow> nat option list \<Rightarrow> nat option list" where
  "without as xs = map (\<lambda>x. case x of None \<Rightarrow> None | Some a \<Rightarrow> if a \<in> as then None else Some a) xs"

lemma without_empty [simp]: "without {} xs = xs"
  by (simp add: without_def option.case_eq_if map_idI)

lemma without_without [simp]: "without as (without bs xs) = without (as \<union> bs) xs"
  by (auto simp: without_def split: option.splits)

lemma without_apart: "(\<And>a. Some a \<in> set xs \<Longrightarrow> a \<notin> as) \<Longrightarrow> without as xs = xs"
  unfolding without_def by (rule map_idI) (auto split: option.splits)

lemma without_member: "Some a \<in> set (without as xs) \<longleftrightarrow> Some a \<in> set xs \<and> a \<notin> as"
  by (force simp: without_def split: option.splits if_splits)

lemma table_addrs_del: "table_addrs (audio_pipeline_table_del t a) = without {a} (table_addrs t)"
  by (auto simp: table_addrs_def audio_pipeline_table_del_def without_def split: option.splits)

lemma some_in_map: "Some b \<in> set (map (map_option f) xs) \<longleftrightarrow> (\<exists>x. Some x \<in> set xs \<and> f x = b)"
  by (auto simp: image_iff eq_commute [of "Some b"])

lemma table_addrs_member: "Some a \<in> set (table_addrs t) \<longleftrightarrow> (\<exists>p. Some p \<in> set t \<and> pp_addr p = a)"
  unfolding table_addrs_def by (rule some_in_map)

lemma table_addrs_update: "i < length t \<Longrightarrow> t ! i = Some p \<Longrightarrow> pp_addr p' = pp_addr p \<Longrightarrow> table_addrs (t[i := Some p']) = table_addrs t"
  by (simp add: table_addrs_def map_update list_update_same_conv)

lemma pipeline_place_sound:
  assumes "pipeline_place t a = Some i"
  shows "i < length t \<and> (\<exists>p. t ! i = Some p \<and> pp_addr p = a)"
  using assms by (fastforce simp: pipeline_place_def find_Some_iff split: option.splits)

lemma pipeline_place_found:
  assumes "Some a \<in> set (table_addrs t)"
  shows "\<exists>i p. pipeline_place t a = Some i \<and> i < length t \<and> t ! i = Some p \<and> pp_addr p = a"
proof -
  obtain p where "Some p \<in> set t" "pp_addr p = a" using assms by (auto simp: table_addrs_member)
  then obtain i where "i < length t" "t ! i = Some p" by (metis in_set_conv_nth)
  then have "pipeline_place t a \<noteq> None"
    using \<open>pp_addr p = a\<close> by (auto simp: pipeline_place_def find_None_iff split: option.splits)
  then show ?thesis using pipeline_place_sound [of t a] by blast
qed

section \<open>Pipelines whose elements are all initialised\<close>

definition pipeline_live :: "'s audio_pipeline \<Rightarrow> bool" where
  "pipeline_live p \<longleftrightarrow> (\<forall>es \<in> set (pp_stages p). \<forall>e \<in> set es. element_live e)"

text \<open>The pipelines at the addresses are in the table, and they are live.\<close>

definition pipelines_held :: "nat set \<Rightarrow> 's audio_pipeline option list \<Rightarrow> bool" where
  "pipelines_held as t \<longleftrightarrow>
     (\<forall>a \<in> as. Some a \<in> set (table_addrs t)) \<and> (\<forall>p. Some p \<in> set t \<longrightarrow> pp_addr p \<in> as \<longrightarrow> pipeline_live p)"

lemma pipeline_live_map: "pipeline_live p \<longleftrightarrow> (\<forall>bs \<in> set (map (map element_live) (pp_stages p)). \<forall>b \<in> set bs. b)"
  by (simp add: pipeline_live_def)

lemma stages_live:
  assumes "run_elements (run_elements f) (pp_stages p) w = Some (rc, ess, w')"
    and "\<And>e w rc e' w'. f e w = Some (rc, e', w') \<Longrightarrow> element_live e' = element_live e"
  shows "pipeline_live (p\<lparr>pp_stages := ess, pp_buffers := bs\<rparr>) = pipeline_live p"
proof -
  have "map (map element_live) ess = map (map element_live) (pp_stages p)"
    using assms(1) by (rule run_elements_map) (rule run_elements_map, assumption, rule assms(2))
  then show ?thesis by (simp only: pipeline_live_map) simp
qed

lemma pipeline_run_live:
  assumes "audio_pipeline_run E (p, m, h) = Some (rc, p', m', h')"
  shows "pp_addr p' = pp_addr p \<and> pipeline_live p' = pipeline_live p"
proof -
  obtain ess w where r: "run_elements (run_elements (audio_element_run E)) (pp_stages p) (pipeline_world p m h) = Some (rc, ess, w)"
    and p': "p' = p\<lparr>pp_stages := ess, pp_buffers := bufs w\<rparr>"
    using assms by (auto simp: audio_pipeline_run_def pipeline_after_def split: option.splits)
  show ?thesis unfolding p' using stages_live [OF r element_run_live] by simp
qed

lemma pipeline_reset_live:
  assumes "audio_pipeline_reset E (p, m, h) = Some (p', m', h')"
  shows "pp_addr p' = pp_addr p \<and> pipeline_live p' = pipeline_live p"
proof -
  obtain rc ess w where r: "run_elements (run_elements (reset_run E)) (pp_stages p) (pipeline_world p m h) = Some (rc, ess, w)"
    and p': "p' = p\<lparr>pp_stages := ess, pp_buffers := bufs w\<rparr>"
    using assms by (auto simp: audio_pipeline_reset_def pipeline_after_def split: option.splits)
  show ?thesis unfolding p' using stages_live [OF r element_reset_live] by simp
qed

lemma pipeline_stats_live:
  assumes "audio_pipeline_stats p = Some p'"
  shows "pp_addr p' = pp_addr p \<and> pipeline_live p' = pipeline_live p"
proof -
  have all: "\<forall>es \<in> set (pp_stages p). \<forall>e \<in> set es. audio_element_stats e \<noteq> None"
    and p': "p' = p\<lparr>pp_stages := map (map (\<lambda>e. the (audio_element_stats e))) (pp_stages p)\<rparr>"
    using assms by (auto simp: audio_pipeline_stats_def split: if_splits)
  have "element_live (the (audio_element_stats e)) = element_live e" if "es \<in> set (pp_stages p)" "e \<in> set es" for es e
    using all that element_stats_live [of e "the (audio_element_stats e)"] by simp
  then have "pipeline_live p' = pipeline_live p" unfolding p' pipeline_live_def by simp
  then show ?thesis by (simp add: p')
qed

lemma pipeline_stats_returns: "pipeline_live p \<Longrightarrow> audio_pipeline_stats p \<noteq> None"
  by (simp add: audio_pipeline_stats_def pipeline_live_def element_stats_returns del: not_None_eq)

lemma set_element_live:
  assumes "i < length (pp_stages p)" and "j < length (pp_stages p ! i)"
    and "element_live e = element_live (pp_stages p ! i ! j)"
  shows "pp_addr (set_element i j e p) = pp_addr p \<and> pipeline_live (set_element i j e p) = pipeline_live p"
proof -
  let ?b = "element_live"
  have "map ?b ((pp_stages p ! i)[j := e]) = map ?b (pp_stages p ! i)"
    using assms(2,3) by (simp add: map_update list_update_same_conv)
  then have "map (map ?b) (pp_stages (set_element i j e p)) = map (map ?b) (pp_stages p)"
    using assms(1) by (simp add: set_element_def map_update list_update_same_conv)
  then show ?thesis by (simp only: pipeline_live_map) (simp add: set_element_def)
qed

text \<open>Any activity on the pipelines keeps every pipeline at its place, and live.\<close>

definition same_shape :: "'s audio_pipeline option list \<Rightarrow> 's audio_pipeline option list \<Rightarrow> bool" where
  "same_shape t u \<longleftrightarrow> map (map_option (\<lambda>p. (pp_addr p, pipeline_live p))) u = map (map_option (\<lambda>p. (pp_addr p, pipeline_live p))) t"

lemma same_shape_refl [simp]: "same_shape t t"
  by (simp add: same_shape_def)

lemma same_shape_trans: "same_shape t u \<Longrightarrow> same_shape u v \<Longrightarrow> same_shape t v"
  by (simp add: same_shape_def)

lemma same_shape_update:
  assumes "i < length t \<Longrightarrow> t ! i = Some p" and "pp_addr p' = pp_addr p \<and> pipeline_live p' = pipeline_live p"
  shows "same_shape t (t[i := Some p'])"
  using assms by (cases "i < length t") (simp_all add: same_shape_def map_update list_update_same_conv list_update_beyond)

lemma same_shape_addrs:
  assumes "same_shape t u"
  shows "table_addrs u = table_addrs t" and "pipelines_held as u = pipelines_held as t" and "length u = length t"
proof -
  let ?f = "map_option (\<lambda>p. (pp_addr p, pipeline_live p))"
  have fst: "table_addrs v = map (map_option fst) (map ?f v)" for v :: "'a audio_pipeline option list"
    by (simp add: table_addrs_def option.map_comp comp_def)
  show a: "table_addrs u = table_addrs t" using assms by (simp only: fst same_shape_def)
  have live: "(\<forall>p. Some p \<in> set v \<longrightarrow> pp_addr p \<in> as \<longrightarrow> pipeline_live p) \<longleftrightarrow> (\<forall>x. Some x \<in> set (map ?f v) \<longrightarrow> fst x \<in> as \<longrightarrow> snd x)"
    for v :: "'a audio_pipeline option list" by (simp only: some_in_map) auto
  show "pipelines_held as u = pipelines_held as t"
    unfolding pipelines_held_def a live using assms by (simp only: same_shape_def)
  show "length u = length t" using arg_cong [OF assms [unfolded same_shape_def], of length] by simp
qed

lemma pipeline_ctrl_shape:
  assumes "audio_pipeline_ctrl cmd len hdl s = (rc, resp, t)"
  shows "same_shape (sys_table s) (sys_table t)"
  using pipeline_ctrl_cases [OF assms]
proof (elim disjE exE conjE)
  fix p i j e rc'
  assume find: "audio_pipeline_table_find (sys_table s) (cmd_pipeline_id cmd) = Some p"
    and ij: "i < length (pp_stages p)" "j < length (pp_stages p ! i)"
    and ctrl: "audio_element_ctrl (Some (pp_stages p ! i ! j)) cmd len hdl = (rc', resp, Some e)"
    and t: "t = s\<lparr>sys_table := (sys_table s)[unat (cmd_pipeline_id cmd) := Some (set_element i j e p)]\<rparr>"
  show ?thesis
    using find set_element_live [OF ij element_ctrl_live [OF ctrl]]
    by (simp add: t) (intro same_shape_update, simp_all add: audio_pipeline_table_find_def split: if_splits)
qed simp

lemma audio_step_shape:
  assumes "audio_step E s t"
  shows "same_shape (sys_table s) (sys_table t)"
  using assms
proof cases
  case (Step_ctrl cmd len hdl rc resp)
  then show ?thesis by (rule pipeline_ctrl_shape)
next
  case (Step_run i p rc p' m h)
  then show ?thesis using same_shape_update [OF _ pipeline_run_live [OF Step_run(4)]] by simp
next
  case (Step_reset i p p' m h)
  then show ?thesis using same_shape_update [OF _ pipeline_reset_live [OF Step_reset(4)]] by simp
next
  case (Step_stats i p p')
  then show ?thesis using same_shape_update [OF _ pipeline_stats_live [OF Step_stats(4)]] by simp
qed

lemma audio_reaches_shape: "audio_reaches E s t \<Longrightarrow> same_shape (sys_table s) (sys_table t)"
  by (induction rule: audio_reaches.induct) (auto intro: same_shape_trans audio_step_shape)

section \<open>Creation and end of a pipeline\<close>

lemma pipeline_exit_returns:
  assumes "pipeline_live p"
  shows "\<exists>a'. audio_pipeline_exit E p a = Some a' \<and> sys_table a' = audio_pipeline_table_del (sys_table a) (pp_addr p)"
proof -
  have row: "\<exists>w'. run_elements (exit_run E) es w = Some (0, es, w')" if "\<forall>e \<in> set es. element_live e" for es w
    using that
  proof (induction es arbitrary: w)
    case (Cons e es)
    obtain v where "exit_run E e w = Some (0, e, v)"
      using Cons.prems by (cases "snd e") (auto simp: exit_run_def audio_element_exit_def element_live_def)
    then show ?case using Cons.IH [of v] Cons.prems by auto
  qed simp
  have "\<exists>w'. run_elements (run_elements (exit_run E)) ess w = Some (0, ess, w')"
    if "\<forall>es \<in> set ess. \<forall>e \<in> set es. element_live e" for ess w
    using that
  proof (induction ess arbitrary: w)
    case (Cons es ess)
    obtain v where "run_elements (exit_run E) es w = Some (0, es, v)" using row [of es w] Cons.prems by auto
    then show ?case using Cons.IH [of v] Cons.prems by auto
  qed simp
  from this [of "pp_stages p" "pipeline_world p (sys_mem a) (sys_hw a)"] show ?thesis
    using assms by (auto simp: audio_pipeline_exit_def pipeline_live_def)
qed

text \<open>The loop over the elements initialises the elements before the current one and keeps the shape of the stages.\<close>

definition inited :: "'s pipeline_config \<Rightarrow> nat \<Rightarrow> nat \<Rightarrow> nat \<Rightarrow> 's audio_pipeline \<Rightarrow> bool" where
  "inited c addr i j p \<longleftrightarrow> pp_addr p = addr \<and> length (pp_stages p) = unat (pf_stages c) \<and>
     (\<forall>k < unat (pf_stages c). length (pp_stages p ! k) = unat (sg_elements (stage_of c k))) \<and>
     (\<forall>k < unat (pf_stages c). \<forall>l < unat (sg_elements (stage_of c k)). (k < i \<or> k = i \<and> l < j) \<longrightarrow> element_live (pp_stages p ! k ! l))"

lemma init_element_inited:
  assumes "inited c addr i j (pi_pipeline s)" and "i < unat (pf_stages c)" and "j < unat (sg_elements (stage_of c i))"
    and "init_element E Z mutex_ok c i j s = Inr s'"
  shows "inited c addr i (Suc j) (pi_pipeline s')"
proof -
  obtain e where e: "element_live e" "pi_pipeline s' = set_element i j e (pi_pipeline s)"
    using assms(4) element_init_live by (fastforce simp: init_element_def Let_def split: option.splits prod.splits)
  show ?thesis using assms(1-3) e(1)
    by (auto simp: inited_def e(2) set_element_def nth_list_update less_Suc_eq)
qed

lemma pipeline_init_loop:
  assumes "inited c addr 0 0 (pi_pipeline s)"
    and "for_upto_err (unat (pf_stages c)) (\<lambda>i. for_upto_err (unat (sg_elements (stage_of c i))) (init_element E Z mutex_ok c i)) s = Inr t"
  shows "pp_addr (pi_pipeline t) = addr \<and> pipeline_live (pi_pipeline t)"
proof -
  have row: "inited c addr (Suc i) 0 p" if "inited c addr i (unat (sg_elements (stage_of c i))) p" for i p
    using that by (auto simp: inited_def less_Suc_eq)
  have "inited c addr (unat (pf_stages c)) 0 (pi_pipeline t)"
  proof (rule for_upto_err_invariant [where P = "\<lambda>i s. inited c addr i 0 (pi_pipeline s)", OF assms(1) _ assms(2)])
    fix i u u' assume i: "i < unat (pf_stages c)" and u: "inited c addr i 0 (pi_pipeline u)"
      and l: "for_upto_err (unat (sg_elements (stage_of c i))) (init_element E Z mutex_ok c i) u = Inr u'"
    have "inited c addr i (unat (sg_elements (stage_of c i))) (pi_pipeline u')"
      by (rule for_upto_err_invariant [where P = "\<lambda>j s. inited c addr i j (pi_pipeline s)", OF u _ l])
        (rule init_element_inited [OF _ i])
    then show "inited c addr (Suc i) 0 (pi_pipeline u')" by (rule row)
  qed
  then have addr: "pp_addr (pi_pipeline t) = addr"
    and all: "inited c addr (unat (pf_stages c)) 0 (pi_pipeline t)" by (simp_all add: inited_def)
  have el: "element_live (pp_stages (pi_pipeline t) ! k ! l)"
    if "k < length (pp_stages (pi_pipeline t))" "l < length (pp_stages (pi_pipeline t) ! k)" for k l
    using that all by (simp add: inited_def)
  have "pipeline_live (pi_pipeline t)"
    unfolding pipeline_live_def
  proof (intro ballI)
    fix es e assume "es \<in> set (pp_stages (pi_pipeline t))" "e \<in> set es"
    then obtain k l where "k < length (pp_stages (pi_pipeline t))" "l < length (pp_stages (pi_pipeline t) ! k)"
      "e = pp_stages (pi_pipeline t) ! k ! l" by (metis in_set_conv_nth)
    then show "element_live e" using el by blast
  qed
  then show ?thesis using addr by blast
qed

lemma pipeline_create_inited:
  assumes "audio_pipeline_create E Z block c table m = Some (p, m')"
  shows "\<exists>addr. block = Some addr \<and> inited c addr 0 0 p"
  using assms by (auto simp: audio_pipeline_create_def audio_stage_init_def inited_def Let_def split: if_splits option.splits prod.splits)

lemma table_add_place:
  assumes "audio_pipeline_table_add t p = Some u" and "length t = AUDIO_PIPELINE_MAX_PIPELINES"
  shows "\<exists>i < length t. t ! i = None \<and> u = t[i := Some p]"
  using assms by (fastforce simp: audio_pipeline_table_add_def find_Some_iff split: option.splits)

definition placed :: "nat \<Rightarrow> 's audio_pipeline option list \<Rightarrow> 's audio_pipeline option list \<Rightarrow> bool" where
  "placed x t u \<longleftrightarrow> (\<exists>i p. i < length t \<and> t ! i = None \<and> pp_addr p = x \<and> pipeline_live p \<and> u = t[i := Some p])"

lemma pipeline_init_outcome:
  assumes init: "audio_pipeline_init E Z block mutex_ok c a = Some (r, c', a')"
    and len: "length (sys_table a) = AUDIO_PIPELINE_MAX_PIPELINES"
    and fresh: "\<And>x. block = Some x \<Longrightarrow> Some x \<notin> set (table_addrs (sys_table a))"
  shows "case r of None \<Rightarrow> sys_table a' = sys_table a
    | Some x \<Rightarrow> block = Some x \<and> placed x (sys_table a) (sys_table a')"
proof -
  let ?c = "audio_pipeline_set_config c"
  have trivial: ?thesis if "r = None" "sys_table a' = sys_table a" using that by simp
  show ?thesis
  proof (cases "audio_pipeline_early_config_check c < 0")
    case True
    then show ?thesis using init by (simp add: audio_pipeline_init_def)
  next
    case check: False
    show ?thesis
    proof (cases "audio_pipeline_create E Z block ?c (sys_table a) (sys_mem a)")
      case None
      then show ?thesis using init check by (auto simp: audio_pipeline_init_def Let_def)
    next
      case (Some pm)
      obtain p m where pm: "pm = (p, m)" by force
      obtain x where x: "block = Some x" "inited ?c x 0 0 p" using pipeline_create_inited Some pm by blast
      have addr: "pp_addr p = x" using x(2) by (simp add: inited_def)
      have other: "pp_addr q \<noteq> x" if "k < length (sys_table a)" "sys_table a ! k = Some q" for k q
        using fresh [OF x(1)] nth_mem [OF that(1)] that(2) by (simp add: table_addrs_member)
      show ?thesis
      proof (cases "audio_pipeline_table_add (sys_table a) p")
        case None
        then show ?thesis using init check Some pm by (auto simp: audio_pipeline_init_def Let_def)
      next
        case (Some table)
        obtain i where i: "i < length (sys_table a)" "sys_table a ! i = None" "table = (sys_table a)[i := Some p]"
          using table_add_place [OF Some len] by blast
        have del: "audio_pipeline_table_del table x = sys_table a"
        proof (rule nth_equalityI)
          fix k assume "k < length (audio_pipeline_table_del table x)"
          then have k: "k < length (sys_table a)" by (simp add: audio_pipeline_table_del_def i(3))
          show "audio_pipeline_table_del table x ! k = sys_table a ! k"
            using k i(2) addr other [OF k]
            by (cases "k = i") (auto simp: audio_pipeline_table_del_def i(3) split: option.split)
        qed (simp add: audio_pipeline_table_del_def i(3))
        let ?s = "\<lparr>pi_pipeline = p, pi_world = \<lparr>smem = m, bufs = pp_buffers p, hws = sys_hw a\<rparr>, pi_ids = (\<lambda>_. 0)\<rparr>"
        let ?loop = "for_upto_err (unat (pf_stages ?c)) (\<lambda>i. for_upto_err (unat (sg_elements (stage_of ?c i))) (init_element E Z mutex_ok ?c i)) ?s"
        have run: "(case ?loop of Inl None \<Rightarrow> None
            | Inl (Some w) \<Rightarrow> Some (None, ?c, a\<lparr>sys_mem := smem w, sys_hw := hws w, sys_table := audio_pipeline_table_del table (pp_addr p)\<rparr>)
            | Inr t \<Rightarrow> let q = (pi_pipeline t)\<lparr>pp_buffers := bufs (pi_world t)\<rparr> in Some (Some (pp_addr q), ?c,
                a\<lparr>sys_mem := smem (pi_world t), sys_hw := hws (pi_world t),
                  sys_table := map (map_option (\<lambda>y. if pp_addr y = pp_addr q then q else y)) table\<rparr>)) = Some (r, c', a')"
          using init check \<open>audio_pipeline_create E Z block ?c (sys_table a) (sys_mem a) = Some pm\<close> Some
          by (simp add: audio_pipeline_init_def Let_def pm)
        show ?thesis
        proof (cases ?loop)
          case (Inl w)
          then show ?thesis using run del addr by (cases w) (auto intro: trivial)
        next
          case (Inr t)
          let ?q = "(pi_pipeline t)\<lparr>pp_buffers := bufs (pi_world t)\<rparr>"
          have q: "pp_addr ?q = x" "pipeline_live ?q"
            using pipeline_init_loop [OF _ Inr, of x] x(2) by (simp_all add: pipeline_live_def)
          have t: "map (map_option (\<lambda>y. if pp_addr y = x then ?q else y)) table = (sys_table a)[i := Some ?q]"
          proof (rule nth_equalityI)
            fix k assume "k < length (map (map_option (\<lambda>y. if pp_addr y = x then ?q else y)) table)"
            then have k: "k < length (sys_table a)" by (simp add: i(3))
            show "map (map_option (\<lambda>y. if pp_addr y = x then ?q else y)) table ! k = (sys_table a)[i := Some ?q] ! k"
              using k addr other [OF k]
              by (cases "k = i"; cases "sys_table a ! k") (auto simp: i(3))
          qed (simp add: i(3))
          have "r = Some x" "sys_table a' = (sys_table a)[i := Some ?q]"
            using run Inr q(1) t by (auto simp: Let_def)
          then show ?thesis using x(1) i(1,2) q unfolding placed_def by (simp only: option.case) blast
        qed
      qed
    qed
  qed
qed

section \<open>What the application holds\<close>

text \<open>
  Since the application held nothing, with memory \<open>y0\<close> and the addresses \<open>t0\<close> in the table, it has made exactly the contexts \<open>cs\<close>.
\<close>

definition app_holds :: "sys \<Rightarrow> nat option list \<Rightarrow> pipeline_ctx list \<Rightarrow> ('s, 'h) audio_app \<Rightarrow> bool" where
  "app_holds y0 t0 cs s \<longleftrightarrow>
     holds y0 (map (\<lambda>c. (Memory, pc_mem c)) cs) (ap_sys s) \<and> length (sys_table (ap_audio s)) = AUDIO_PIPELINE_MAX_PIPELINES \<and>
     pipelines_held (set (map pc_pipeline cs)) (sys_table (ap_audio s)) \<and>
     without (set (map pc_pipeline cs)) (table_addrs (sys_table (ap_audio s))) = t0 \<and> distinct (map pc_pipeline cs)"

definition thread_ctx :: "('s, 'h) audio_app \<Rightarrow> nat \<Rightarrow> pipeline_ctx option" where
  "thread_ctx s i = dt_handle (dc_threads (ap_ctx s) ! i)"

lemma app_holds_shape:
  assumes "app_holds y0 t0 cs s" and "same_shape (sys_table (ap_audio s)) (sys_table (ap_audio s'))" and "ap_sys s' = ap_sys s"
  shows "app_holds y0 t0 cs s'"
  using assms(1,3) same_shape_addrs [OF assms(2)] by (simp add: app_holds_def)

lemma play_init_outcome:
  assumes init: "play_pipeline_init E Z A block mutex_ok cfg (a, y) = Some (r, a', y')"
    and ok: "Tsn_Resource.sys_ok y0" and held: "holds y0 xs y" and len: "length (sys_table a) = AUDIO_PIPELINE_MAX_PIPELINES"
    and fresh: "\<And>x. block = Some x \<Longrightarrow> Some x \<notin> set (table_addrs (sys_table a))"
  shows "case r of None \<Rightarrow> holds y0 xs y' \<and> sys_table a' = sys_table a
    | Some ctx \<Rightarrow> holds y0 ((Memory, pc_mem ctx) # xs) y' \<and> block = Some (pc_pipeline ctx) \<and>
        placed (pc_pipeline ctx) (sys_table a) (sys_table a')"
proof -
  obtain c y1 where c: "acquire A Memory y = (c, y1)" by force
  show ?thesis
  proof (cases c)
    case None
    then show ?thesis using init c acquire_none [OF held, of A] by (auto simp: play_pipeline_init_def)
  next
    case (Some mem)
    have h1: "holds y0 ((Memory, mem) # xs) y1" using acquire_some [OF held] c Some by blast
    obtain d y2 where d: "acquire A Memory y1 = (d, y2)" by force
    show ?thesis
    proof (cases d)
      case None
      have h2: "holds y0 ((Memory, mem) # xs) y2" using acquire_none [OF h1] d None by blast
      obtain y3 where y3: "release Memory mem y2 = Some y3" "holds y0 xs y3" using release_last [OF ok h2] by blast
      show ?thesis using init c d Some None y3 by (auto simp: play_pipeline_init_def)
    next
      case (Some cmem)
      have h2: "holds y0 ((Memory, cmem) # (Memory, mem) # xs) y2" using acquire_some [OF h1] d Some by blast
      obtain y3 where y3: "release Memory cmem y2 = Some y3" "holds y0 ((Memory, mem) # xs) y3" using release_last [OF ok h2] by blast
      obtain y4 where y4: "release Memory mem y3 = Some y4" "holds y0 xs y4" using release_last [OF ok y3(2)] by blast
      let ?c = "(ag_data cfg)\<lparr>pf_sample_rate := ag_rate cfg, pf_period := ag_period cfg\<rparr>"
      obtain pl c' a1 where p: "audio_pipeline_init E Z block mutex_ok ?c a = Some (pl, c', a1)"
        using init c d \<open>c = Some mem\<close> Some by (auto simp: play_pipeline_init_def Let_def bind_eq_Some_conv)
      note out = pipeline_init_outcome [OF p len fresh]
      show ?thesis
        using init c d \<open>c = Some mem\<close> Some p y3 y4 out
        by (cases pl) (auto simp: play_pipeline_init_def Let_def)
    qed
  qed
qed

lemma for_upto_opt_kept:
  assumes "P 0 s" and "\<And>i s s'. i < n \<Longrightarrow> P i s \<Longrightarrow> f i s = Some s' \<Longrightarrow> P (Suc i) s'" and "for_upto_opt n f s = Some t"
  shows "P n t"
proof -
  have "k \<le> n \<Longrightarrow> for_upto_opt k f s = Some u \<Longrightarrow> P k u" for k u
    by (induction k arbitrary: u) (auto simp: assms(1) split: option.splits intro: assms(2))
  then show ?thesis using assms(3) by simp
qed

lemma placed_addrs:
  assumes "placed x t u" and "Some x \<notin> set (table_addrs t)"
  shows "length u = length t" and "pipelines_held as t \<Longrightarrow> pipelines_held (insert x as) u" and "Some a \<in> set (table_addrs u) \<longleftrightarrow> a = x \<or> Some a \<in> set (table_addrs t)"
    and "without (insert x as) (table_addrs u) = without as (table_addrs t)"
proof -
  obtain i p where p: "i < length t" "t ! i = None" "pp_addr p = x" "pipeline_live p" "u = t[i := Some p]"
    using assms(1) by (auto simp: placed_def)
  have members: "Some q \<in> set u \<longleftrightarrow> q = p \<or> Some q \<in> set t" for q
    using p(1,2) by (simp add: p(5) in_set_conv_nth nth_list_update) (metis option.distinct(1))
  then show a: "Some a \<in> set (table_addrs u) \<longleftrightarrow> a = x \<or> Some a \<in> set (table_addrs t)" for a
    using p(3) by (auto simp: table_addrs_member)
  show "length u = length t" by (simp add: p(5))
  show "pipelines_held (insert x as) u" if "pipelines_held as t"
    unfolding pipelines_held_def
  proof (intro conjI ballI allI impI)
    show "Some b \<in> set (table_addrs u)" if "b \<in> insert x as" for b
      using that \<open>pipelines_held as t\<close> a [of b] by (auto simp: pipelines_held_def)
    show "pipeline_live q" if "Some q \<in> set u" "pp_addr q \<in> insert x as" for q
      using that \<open>pipelines_held as t\<close> members [of q] p(4) assms(2) by (auto simp: pipelines_held_def table_addrs_member)
  qed
  show "without (insert x as) (table_addrs u) = without as (table_addrs t)"
  proof (rule nth_equalityI)
    fix k assume "k < length (without (insert x as) (table_addrs u))"
    then have k: "k < length t" by (simp add: without_def table_addrs_def p(5))
    have "pp_addr q \<noteq> x" if "t ! k = Some q" for q
      using assms(2) nth_mem [OF k] that by (simp add: table_addrs_member)
    then show "without (insert x as) (table_addrs u) ! k = without as (table_addrs t) ! k"
      using k p(1-3) by (cases "k = i") (auto simp: without_def table_addrs_def p(5) split: option.split)
  qed (simp add: without_def table_addrs_def p(5))
qed

lemma create_one_holds:
  assumes create: "audio_create_one E Z A blocks mutex_ok rate period cfgs i (True, s) = Some (ok, s')"
    and y0: "Tsn_Resource.sys_ok y0" and held: "app_holds y0 t0 cs s" and i: "i < length (dc_threads (ap_ctx s))"
    and fresh: "\<And>x. blocks i = Some x \<Longrightarrow> Some x \<notin> set t0 \<and> x \<notin> set (map pc_pipeline cs)"
  shows "ap_ctx s' = upd_thread i (\<lambda>t. t\<lparr>dt_handle := thread_ctx s' i\<rparr>) (ap_ctx s)" and "ok \<longleftrightarrow> thread_ctx s' i \<noteq> None"
    and "\<not> ok \<Longrightarrow> app_holds y0 t0 cs s'"
    and "ok \<Longrightarrow> blocks i = Some (pc_pipeline (the (thread_ctx s' i))) \<and> app_holds y0 t0 (cs @ [the (thread_ctx s' i)]) s'"
    and "ap_active s' = ap_active s" and "ap_irqs s' = ap_irqs s"
proof -
  let ?cfg = "\<lparr>ag_rate = rate, ag_period = period, ag_pipeline_id = of_nat i, ag_data = cfgs ! i\<rparr>"
  obtain r a y where p: "play_pipeline_init E Z A (blocks i) (mutex_ok i) ?cfg (ap_audio s, ap_sys s) = Some (r, a, y)"
    and s': "s' = s\<lparr>ap_audio := a, ap_sys := y, ap_ctx := upd_thread i (\<lambda>t. t\<lparr>dt_handle := r\<rparr>) (ap_ctx s)\<rparr>" and ok: "ok = (r \<noteq> None)"
    using create by (auto simp: audio_create_one_def bind_eq_Some_conv)
  have h: "thread_ctx s' i = r" using i by (simp add: s' thread_ctx_def upd_thread_def)
  show "ap_ctx s' = upd_thread i (\<lambda>t. t\<lparr>dt_handle := thread_ctx s' i\<rparr>) (ap_ctx s)" "ok \<longleftrightarrow> thread_ctx s' i \<noteq> None"
    "ap_active s' = ap_active s" "ap_irqs s' = ap_irqs s"
    unfolding h by (simp_all add: s' ok)
  note held = held [unfolded app_holds_def]
  have new: "Some x \<notin> set (table_addrs (sys_table (ap_audio s)))" if "blocks i = Some x" for x
    using fresh [OF that] held without_member [of x "set (map pc_pipeline cs)" "table_addrs (sys_table (ap_audio s))"] by blast
  note out = play_init_outcome [OF p y0 held [THEN conjunct1] held [THEN conjunct2, THEN conjunct1] new]
  show "app_holds y0 t0 cs s'" if "\<not> ok"
    using that out held by (auto simp: ok s' app_holds_def)
  show "blocks i = Some (pc_pipeline (the (thread_ctx s' i))) \<and> app_holds y0 t0 (cs @ [the (thread_ctx s' i)]) s'" if good: "ok"
  proof -
    obtain ctx where r: "r = Some ctx" using good ok by blast
    have o: "holds y0 ((Memory, pc_mem ctx) # map (\<lambda>c. (Memory, pc_mem c)) cs) y" "blocks i = Some (pc_pipeline ctx)"
      "placed (pc_pipeline ctx) (sys_table (ap_audio s)) (sys_table a)"
      using out r by auto
    have "holds y0 (map (\<lambda>c. (Memory, pc_mem c)) (cs @ [ctx])) y" using o(1) by (rule holds_mset) simp
    then show ?thesis
      using o(2) placed_addrs [OF o(3) new [OF o(2)]] held fresh [OF o(2)] unfolding h
      by (simp add: r s' app_holds_def)
  qed
qed

section \<open>The setup of the interfaces\<close>

text \<open>What neither the setup nor any activity of the pipelines changes.\<close>

definition app_frame :: "('s, 'h) audio_app \<Rightarrow> ('s, 'h) audio_app \<Rightarrow> bool" where
  "app_frame s s' \<longleftrightarrow>
     ap_sys s' = ap_sys s \<and> same_shape (sys_table (ap_audio s)) (sys_table (ap_audio s')) \<and>
     dc_threads (ap_ctx s') = dc_threads (ap_ctx s) \<and> dc_handler (ap_ctx s') = dc_handler (ap_ctx s) \<and>
     dc_pipeline_count (ap_ctx s') = dc_pipeline_count (ap_ctx s) \<and> dc_thread_count (ap_ctx s') = dc_thread_count (ap_ctx s) \<and>
     length (ap_active s') = length (ap_active s) \<and> length (dc_dev (ap_ctx s')) = length (dc_dev (ap_ctx s))"

lemma app_frame_refl [simp]: "app_frame s s"
  by (simp add: app_frame_def)

lemma app_frame_trans: "app_frame s t \<Longrightarrow> app_frame t u \<Longrightarrow> app_frame s u"
  by (auto simp: app_frame_def intro: same_shape_trans)

lemma app_frame_hw [simp]: "app_frame s (on_hw f s)"
  by (simp add: app_frame_def on_hw_def)

lemma app_frame_holds: "app_frame s s' \<Longrightarrow> app_holds y0 t0 cs s \<Longrightarrow> app_holds y0 t0 cs s'"
  by (erule app_holds_shape) (simp_all add: app_frame_def)

lemma app_frame_ctx: "app_frame s s' \<Longrightarrow> thread_ctx s' i = thread_ctx s i"
  by (simp add: app_frame_def thread_ctx_def)

lemma pll_adjust_shape:
  "same_shape (sys_table a) (sys_table (pll_adjust_set_pll_id pll_id a))" "same_shape (sys_table a) (sys_table (pll_adjust_disable a))"
proof -
  have ctrl: "same_shape (sys_table a) (sys_table (snd (snd (audio_pipeline_ctrl cmd len hdl a))))" for a :: "('a, 'b) audio_sys" and cmd len hdl
    by (cases "audio_pipeline_ctrl cmd len hdl a") (simp add: pipeline_ctrl_shape)
  have loop: "same_shape (sys_table a) (sys_table (for_upto n (\<lambda>i a. snd (snd (audio_pipeline_ctrl (f i) 20 False a))) a))"
    for a :: "('a, 'b) audio_sys" and f n
    by (induction n) (auto intro: same_shape_trans ctrl)
  show "same_shape (sys_table a) (sys_table (pll_adjust_set_pll_id pll_id a))" "same_shape (sys_table a) (sys_table (pll_adjust_disable a))"
    unfolding pll_adjust_set_pll_id_def pll_adjust_disable_def by (rule loop)+
qed

text \<open>The devices of the first \<open>n\<close> instances are set up.\<close>

definition devs_set :: "nat \<Rightarrow> ('s, 'h) audio_app \<Rightarrow> bool" where
  "devs_set n s \<longleftrightarrow> n \<le> length (dc_dev (ap_ctx s)) \<and> (\<forall>i < n. dv_sai_base (dc_dev (ap_ctx s) ! i) \<noteq> None)"

lemma drv_setup_base:
  "sai_drv_setup S self cfg (dev, irqs, d) = Some (rc, dev', irqs', d') \<Longrightarrow> \<not> rc < 0 \<Longrightarrow> dv_sai_base dev' \<noteq> None"
  by (auto simp: sai_drv_setup_def Let_def bind_eq_Some_conv split: if_splits)

lemma setup_one_frame:
  assumes "sai_setup_one S B i (rc, pd, s) = Some (rc', pd', s')" and "rc < 0 \<or> devs_set i s"
  shows "app_frame s s' \<and> (rc' < 0 \<or> devs_set (Suc i) s')"
proof (cases "rc < 0")
  case True
  then show ?thesis using assms by (auto simp: sai_setup_one_def Let_def split: prod.splits)
next
  case False
  define s2 where "s2 = sai_setup_codec B i s"
  have f2: "app_frame s s2" "ap_ctx s2 = ap_ctx s" by (simp_all add: s2_def sai_setup_codec_def app_frame_def on_hw_def Let_def split: prod.split)
  let ?drv = "sai_drv_setup S i (sai_instance_config B i s2) (dc_dev (ap_ctx s2) ! i, ap_irqs s2, sys_hw (ap_audio s2))"
  define t where "t dev irqs d = s2\<lparr>ap_ctx := (ap_ctx s2)\<lparr>dc_dev := (dc_dev (ap_ctx s2))[i := dev]\<rparr>, ap_irqs := irqs,
      ap_audio := (ap_audio s2)\<lparr>sys_hw := d\<rparr>\<rparr>" for dev irqs d
  have i: "i < length (dc_dev (ap_ctx s))" using assms(1) False by (auto simp: sai_setup_one_def split: if_splits)
  then have one: "sai_setup_one S B i (rc, pd, s) = Option.bind ?drv (\<lambda>(r, dev, irqs, d).
      let pd = (pd \<and> cg_master_slave (sai_instance_config B i s2) \<noteq> bd_slave B); u = t dev irqs d in
      if r < 0 then Some (- 1, pd, u)
      else Some (0, pd, u\<lparr>ap_audio := pll_adjust_set_pll_id (sa_audio_pll (ap_active u ! i)) (ap_audio u)\<rparr>))"
    using False by (simp add: sai_setup_one_def Let_def s2_def [symmetric] t_def)
  obtain r dev irqs d where drv: "?drv = Some (r, dev, irqs, d)" using assms(1) unfolding one by (cases ?drv) auto
  have t: "app_frame s (t dev irqs d)" "dc_dev (ap_ctx (t dev irqs d)) = (dc_dev (ap_ctx s))[i := dev]"
    using f2 by (simp_all add: t_def app_frame_def)
  have u: "app_frame (t dev irqs d) ((t dev irqs d)\<lparr>ap_audio := pll_adjust_set_pll_id pll (ap_audio (t dev irqs d))\<rparr>)" for pll
    using pll_adjust_shape(1) by (simp add: app_frame_def)
  show ?thesis
  proof (cases "r < 0")
    case True
    then show ?thesis using assms(1) t(1) by (auto simp: one drv Let_def)
  next
    case good: False
    have "devs_set (Suc i) (t dev irqs d)"
      using assms(2) False i drv_setup_base [OF drv good] by (auto simp: devs_set_def t(2) less_Suc_eq nth_list_update)
    then show ?thesis
      using assms(1) good app_frame_trans [OF t(1) u] by (auto simp: one drv Let_def devs_set_def)
  qed
qed

lemma sai_setup_frame:
  assumes "sai_setup S B s = Some (rc, s')"
  shows "app_frame s s' \<and> (rc < 0 \<or> devs_set (length (ap_active s')) s')"
proof -
  define s0 where "s0 = (let s = on_hw (bd_clock_setup B) s in s\<lparr>ap_ctx := (ap_ctx s)\<lparr>dc_irq_source := of_nat (length (ap_active s)) - 1\<rparr>\<rparr>)"
  have f0: "app_frame s s0" "length (ap_active s0) = length (ap_active s)" by (simp_all add: s0_def app_frame_def on_hw_def Let_def)
  let ?n = "length (ap_active s)"
  obtain pd t where l: "for_upto_opt ?n (sai_setup_one S B) (0, True, s0) = Some (rc, pd, t)"
    and s': "s' = (if rc \<ge> 0 \<and> pd then t\<lparr>ap_audio := pll_adjust_disable (ap_audio t)\<rparr> else t)"
    using assms by (auto simp: sai_setup_def Let_def s0_def on_hw_def bind_eq_Some_conv)
  have "case (rc, pd, t) of (rc, pd, t) \<Rightarrow> app_frame s0 t \<and> (rc < 0 \<or> devs_set ?n t)"
  proof (rule for_upto_opt_kept [where P = "\<lambda>i (rc, pd, t). app_frame s0 t \<and> (rc < 0 \<or> devs_set i t)", OF _ _ l])
    show "case (0, True, s0) of (rc, pd, t) \<Rightarrow> app_frame s0 t \<and> (rc < 0 \<or> devs_set 0 t)" by (simp add: devs_set_def)
    fix i u u' assume u: "case u of (rc, pd, t) \<Rightarrow> app_frame s0 t \<and> (rc < 0 \<or> devs_set i t)" and one: "sai_setup_one S B i u = Some u'"
    obtain r p v r' p' v' where uv: "u = (r, p, v)" "u' = (r', p', v')" by (metis prod_cases3)
    from setup_one_frame [OF one [unfolded uv]] u [unfolded uv]
    show "case u' of (rc, pd, t) \<Rightarrow> app_frame s0 t \<and> (rc < 0 \<or> devs_set (Suc i) t)"
      unfolding uv by (auto intro: app_frame_trans)
  qed
  then have t: "app_frame s0 t" "rc < 0 \<or> devs_set ?n t" by simp_all
  have "app_frame t s'" using pll_adjust_shape(2) by (auto simp: s' app_frame_def)
  then have "app_frame s s'" using t(1) f0(1) app_frame_trans by blast
  moreover have "rc < 0 \<or> devs_set (length (ap_active s')) s'"
    using t(2) calculation by (auto simp: s' app_frame_def devs_set_def)
  ultimately show ?thesis by blast
qed

section \<open>Run and stop\<close>

text \<open>
  The contexts of the first threads; what a command leaves alone in the context of the application: all but the handles of the threads.
\<close>

abbreviation first_ctxs :: "('s, 'h) audio_app \<Rightarrow> nat \<Rightarrow> pipeline_ctx list" where
  "first_ctxs s n \<equiv> map (\<lambda>i. the (thread_ctx s i)) [0..<n]"

definition same_ctx :: "('s, 'h) audio_app \<Rightarrow> ('s, 'h) audio_app \<Rightarrow> bool" where
  "same_ctx s s' \<longleftrightarrow>
     map (\<lambda>t. t\<lparr>dt_handle := None\<rparr>) (dc_threads (ap_ctx s')) = map (\<lambda>t. t\<lparr>dt_handle := None\<rparr>) (dc_threads (ap_ctx s)) \<and>
     dc_handler (ap_ctx s') = dc_handler (ap_ctx s) \<and> dc_pipeline_count (ap_ctx s') = dc_pipeline_count (ap_ctx s) \<and>
     dc_thread_count (ap_ctx s') = dc_thread_count (ap_ctx s)"

lemma same_ctx_refl [simp]: "same_ctx s s"
  by (simp add: same_ctx_def)

lemma same_ctx_trans: "same_ctx s t \<Longrightarrow> same_ctx t u \<Longrightarrow> same_ctx s u"
  by (simp add: same_ctx_def)

lemma same_ctx_frame: "app_frame s t \<Longrightarrow> same_ctx s t"
  by (simp add: same_ctx_def app_frame_def)

lemma same_ctx_length: "same_ctx s t \<Longrightarrow> length (dc_threads (ap_ctx t)) = length (dc_threads (ap_ctx s))"
  unfolding same_ctx_def by (metis length_map)

text \<open>The memory manager gives no block twice, nor one that a pipeline of the table lies in.\<close>

definition fresh_blocks :: "(nat \<Rightarrow> nat option) \<Rightarrow> nat option list \<Rightarrow> bool" where
  "fresh_blocks blocks t0 \<longleftrightarrow>
     (\<forall>i x. blocks i = Some x \<longrightarrow> Some x \<notin> set t0) \<and> (\<forall>i j x. blocks i = Some x \<longrightarrow> blocks j = Some x \<longrightarrow> i = j)"

definition created :: "(nat \<Rightarrow> nat option) \<Rightarrow> sys \<Rightarrow> nat option list \<Rightarrow> nat \<Rightarrow> ('s, 'h) audio_app \<Rightarrow> bool" where
  "created blocks y0 t0 m s \<longleftrightarrow>
     (\<forall>i < m. \<exists>ctx. thread_ctx s i = Some ctx \<and> blocks i = Some (pc_pipeline ctx)) \<and> app_holds y0 t0 (first_ctxs s m) s"

lemma created_frame:
  assumes "\<And>i. i < m \<Longrightarrow> thread_ctx s' i = thread_ctx s i" and "\<forall>i < m. \<exists>ctx. thread_ctx s i = Some ctx \<and> blocks i = Some (pc_pipeline ctx)"
    and "app_holds y0 t0 (first_ctxs s m) s'"
  shows "created blocks y0 t0 m s'"
proof -
  have eq: "first_ctxs s' m = first_ctxs s m" using assms(1) by simp
  show ?thesis unfolding created_def eq using assms by simp
qed

lemma create_all_holds:
  assumes loop: "for_upto_opt n (audio_create_one E Z A blocks mutex_ok rate period cfgs) (True, s) = Some (ok, s')"
    and y0: "Tsn_Resource.sys_ok y0" and held: "app_holds y0 t0 [] s" and n: "n \<le> length (dc_threads (ap_ctx s))"
    and fresh: "fresh_blocks blocks t0"
  shows "\<exists>m \<le> n. (ok \<longrightarrow> m = n) \<and> (\<not> ok \<longrightarrow> m < n) \<and> created blocks y0 t0 m s' \<and> same_ctx s s'"
proof -
  let ?P = "\<lambda>k (ok, u). \<exists>m \<le> k. (ok \<longrightarrow> m = k) \<and> (\<not> ok \<longrightarrow> m < k) \<and> created blocks y0 t0 m u \<and> same_ctx s u"
  have "?P n (ok, s')"
  proof (rule for_upto_opt_kept [where P = ?P, OF _ _ loop])
    show "?P 0 (True, s)" using held by (simp add: created_def)
    fix i u u' assume i: "i < n" and u: "?P i u" and one: "audio_create_one E Z A blocks mutex_ok rate period cfgs i u = Some u'"
    obtain ok v ok' v' where uv: "u = (ok, v)" "u' = (ok', v')" by force
    obtain m where m: "m \<le> i" "ok \<longrightarrow> m = i" "\<not> ok \<longrightarrow> m < i" "created blocks y0 t0 m v" "same_ctx s v" using u uv by auto
    show "?P (Suc i) u'"
    proof (cases ok)
      case False
      then have "u' = u" using one by (simp add: uv audio_create_one_def)
      then show ?thesis using m False uv by (auto intro!: exI [of _ m])
    next
      case True
      then have mi: "m = i" using m(2) by blast
      have len: "i < length (dc_threads (ap_ctx v))" using i n same_ctx_length [OF m(5)] by simp
      have held: "app_holds y0 t0 (first_ctxs v i) v" and hs: "\<forall>k < i. \<exists>ctx. thread_ctx v k = Some ctx \<and> blocks k = Some (pc_pipeline ctx)"
        using m(4) by (simp_all add: created_def mi)
      have new: "Some x \<notin> set t0 \<and> x \<notin> set (map pc_pipeline (first_ctxs v i))" if "blocks i = Some x" for x
        using fresh that hs unfolding fresh_blocks_def by fastforce
      have one: "audio_create_one E Z A blocks mutex_ok rate period cfgs i (True, v) = Some (ok', v')" using one uv True by simp
      note r = create_one_holds [OF one y0 held len new]
      obtain h where h: "ap_ctx v' = upd_thread i (\<lambda>t. t\<lparr>dt_handle := h\<rparr>) (ap_ctx v)" using r(1) by blast
      have other: "thread_ctx v' k = thread_ctx v k" if "k \<noteq> i" for k
        using that by (simp add: thread_ctx_def upd_thread_def h)
      then have ctxs: "first_ctxs v' i = first_ctxs v i" by simp
      have same: "same_ctx s v'"
      proof (rule same_ctx_trans [OF m(5)])
        have "map (\<lambda>t. t\<lparr>dt_handle := None\<rparr>) ((dc_threads (ap_ctx v))[i := (dc_threads (ap_ctx v) ! i)\<lparr>dt_handle := h\<rparr>]) =
            map (\<lambda>t. t\<lparr>dt_handle := None\<rparr>) (dc_threads (ap_ctx v))" for h
          using len by (simp add: map_update list_update_same_conv)
        then show "same_ctx v v'" by (simp add: same_ctx_def h upd_thread_def)
      qed
      show ?thesis
      proof (cases ok')
        case False
        then have "created blocks y0 t0 i v'" using created_frame [OF other hs r(3)] by simp
        then show ?thesis using False same uv by (auto intro!: exI [of _ i])
      next
        case True
        then have "created blocks y0 t0 (Suc i) v'"
          using r(2,4) hs other unfolding created_def upt_Suc_append [OF le0] map_append ctxs by (auto simp: less_Suc_eq)
        then show ?thesis using True same uv by (auto intro!: exI [of _ "Suc i"])
      qed
    qed
  qed
  then show ?thesis by simp
qed

text \<open>
  The first part of a run creates a pipeline for every configured thread and sets the interfaces up; when it fails, what it has created
  stays, and nothing will give it back.
\<close>

lemma run_prepare_outcome:
  assumes run: "audio_run_prepare E Z A blocks mutex_ok S B run s = Some (r, s')"
    and y0: "Tsn_Resource.sys_ok y0" and held: "app_holds y0 t0 [] s" and len: "length (dc_threads (ap_ctx s)) = AUDIO_APP_MAX_DATA_THREADS"
    and fresh: "fresh_blocks blocks t0"
  shows "same_ctx s s' \<and>
    (case r of None \<Rightarrow> \<exists>m \<le> AUDIO_APP_MAX_DATA_THREADS. created blocks y0 t0 m s'
     | Some n \<Rightarrow> \<not> dc_handler (ap_ctx s) \<and> 0 < n \<and> n \<le> AUDIO_APP_MAX_DATA_THREADS \<and> created blocks y0 t0 n s' \<and> devs_set (length (ap_active s')) s')"
proof (cases "s' = s \<and> r = None")
  case True
  then show ?thesis using held by (auto simp: created_def intro!: exI [of _ 0])
next
  case False
  then obtain rate period pcfg where nh: "\<not> dc_handler (ap_ctx s)"
    and rest: "(let c = (ap_ctx s)\<lparr>dc_callback_err := 0, dc_callback := 0, dc_sample_rate := rate, dc_period := ucast period\<rparr>;
        s = s\<lparr>ap_ctx := c\<rparr>; cfgs = pipeline_configs (dc_thread_count c) pcfg; n = length cfgs
      in if unat (dc_thread_count c) > AUDIO_APP_MAX_DATA_THREADS then None
         else if n = 0 then Some (None, s)
         else do {
           (ok, s) \<leftarrow> for_upto_opt n (audio_create_one E Z A blocks mutex_ok rate period cfgs) (True, s);
           (if \<not> ok then Some (None, s)
            else do { (rc, s) \<leftarrow> sai_setup S B s; (if rc < 0 then Some (None, s) else Some (Some n, s)) })
         }) = Some (r, s')"
    using run unfolding audio_run_prepare_def Let_def
    by (simp split: if_splits option.splits prod.splits)
  define c where "c = (ap_ctx s)\<lparr>dc_callback_err := 0, dc_callback := 0, dc_sample_rate := rate, dc_period := ucast period\<rparr>"
  define s1 where "s1 = s\<lparr>ap_ctx := c\<rparr>"
  define cfgs where "cfgs = pipeline_configs (dc_thread_count c) pcfg"
  have count: "unat (dc_thread_count c) \<le> AUDIO_APP_MAX_DATA_THREADS" using rest by (auto simp: Let_def c_def split: if_splits)
  have n: "length cfgs \<le> AUDIO_APP_MAX_DATA_THREADS"
    using count length_takeWhile_le [of _ "take (unat (dc_thread_count c)) pcfg"]
    unfolding cfgs_def pipeline_configs_def length_map by (metis le_trans length_take min.cobounded2)
  have s1: "same_ctx s s1" "app_holds y0 t0 [] s1" "length cfgs \<le> length (dc_threads (ap_ctx s1))"
    using held len n by (simp_all add: s1_def c_def same_ctx_def app_holds_def)
  show ?thesis
  proof (cases "length cfgs = 0")
    case True
    then have "r = None" "s' = s1" using rest by (auto simp: Let_def c_def s1_def cfgs_def split: if_splits)
    then show ?thesis using s1 by (auto simp: created_def intro!: exI [of _ 0])
  next
    case False
    obtain ok s2 where loop: "for_upto_opt (length cfgs) (audio_create_one E Z A blocks mutex_ok rate period cfgs) (True, s1) = Some (ok, s2)"
      and rest2: "(if \<not> ok then Some (None, s2)
            else do { (rc, s) \<leftarrow> sai_setup S B s2; (if rc < 0 then Some (None, s) else Some (Some (length cfgs), s)) }) = Some (r, s')"
      using rest False by (auto simp: Let_def c_def [symmetric] s1_def [symmetric] cfgs_def [symmetric] bind_eq_Some_conv split: if_splits)
    obtain m where m: "m \<le> length cfgs" "ok \<longrightarrow> m = length cfgs" "created blocks y0 t0 m s2" "same_ctx s1 s2"
      using create_all_holds [OF loop y0 s1(2,3) fresh] by blast
    show ?thesis
    proof (cases ok)
      case False
      then have "r = None" "s' = s2" "m \<le> AUDIO_APP_MAX_DATA_THREADS" using rest2 m(1) n by auto
      then show ?thesis using m(3) same_ctx_trans [OF s1(1) m(4)] by auto
    next
      case True
      obtain rc where set: "sai_setup S B s2 = Some (rc, s')" and r: "r = (if rc < 0 then None else Some (length cfgs))"
        using rest2 True by (auto simp: bind_eq_Some_conv split: if_splits)
      note f = sai_setup_frame [OF set]
      have "created blocks y0 t0 m s'"
        using m(3) f by (intro created_frame [of m s' s2]) (auto simp: created_def app_frame_ctx intro: app_frame_holds)
      moreover have "same_ctx s s'" using same_ctx_trans [OF s1(1) same_ctx_trans [OF m(4) same_ctx_frame]] f by blast
      ultimately show ?thesis using r m(1,2) n f nh False True by auto
    qed
  qed
qed

text \<open>The configurations a run asks for, one for every thread that gets a pipeline.\<close>

definition run_configs :: "('s, 'h) audio_board \<Rightarrow> audio_cmd_run \<Rightarrow> u8 \<Rightarrow> 's pipeline_config list" where
  "run_configs B run thread_count =
     (case assign_nonzero_valid_val DEFAULT_PERIOD (ar_period run) (bd_supported_period B) of
        None \<Rightarrow> []
      | Some period \<Rightarrow>
          (case snd (bd_apply_config B \<lparr>rn_rate = (if ar_frequency run = 0 then DEFAULT_SAMPLE_RATE else ar_frequency run), rn_period = period,
              rn_index = ar_config_idx run, rn_mode = ar_id run\<rparr>) of
             None \<Rightarrow> []
           | Some play_cfg \<Rightarrow> pipeline_configs thread_count play_cfg))"

lemma run_prepare_count:
  assumes "audio_run_prepare E Z A blocks mutex_ok S B run s = Some (Some n, s')"
  shows "n = length (run_configs B run (dc_thread_count (ap_ctx s)))"
  using assms unfolding audio_run_prepare_def run_configs_def Let_def
  by (auto simp: bind_eq_Some_conv split: if_splits option.splits prod.splits)

text \<open>The end of the pipelines, one after the other.\<close>

lemma exit_one_holds:
  assumes y0: "Tsn_Resource.sys_ok y0" and held: "app_holds y0 t0 (c # cs) s" and c: "thread_ctx s i = Some c"
  shows "\<exists>s'. audio_exit_one E i s = Some s' \<and> app_holds y0 t0 cs s' \<and> ap_ctx s' = ap_ctx s \<and> ap_active s' = ap_active s"
proof -
  let ?t = "sys_table (ap_audio s)" and ?x = "pc_pipeline c"
  note h = held [unfolded app_holds_def]
  have in_table: "Some ?x \<in> set (table_addrs ?t)" using h by (simp add: pipelines_held_def)
  obtain k p where k: "pipeline_place ?t ?x = Some k" "k < length ?t" "?t ! k = Some p" "pp_addr p = ?x"
    using pipeline_place_found [OF in_table] by blast
  have "pipeline_live p" using h k nth_mem [OF k(2)] by (simp add: pipelines_held_def)
  then obtain a where a: "audio_pipeline_exit E p (ap_audio s) = Some a" "sys_table a = audio_pipeline_table_del ?t ?x"
    using pipeline_exit_returns [of p E "ap_audio s"] k(4) by auto
  obtain y where y: "release Memory (pc_mem c) (ap_sys s) = Some y" "holds y0 (map (\<lambda>c. (Memory, pc_mem c)) cs) y"
    using release_last [OF y0] h by fastforce
  have addrs: "table_addrs (sys_table a) = without {?x} (table_addrs ?t)" by (simp add: a(2) table_addrs_del)
  have keep: "Some q \<in> set (sys_table a) \<Longrightarrow> Some q \<in> set ?t" for q
    by (auto simp: a(2) audio_pipeline_table_del_def split: option.splits if_splits)
  have "?x \<notin> set (map pc_pipeline cs)" using h by simp
  then have "pipelines_held (set (map pc_pipeline cs)) (sys_table a)"
    using h keep unfolding pipelines_held_def addrs without_member by (auto simp: image_iff)
  moreover have "without (set (map pc_pipeline cs)) (table_addrs (sys_table a)) = t0" using h by (simp add: addrs)
  moreover have "length (sys_table a) = AUDIO_PIPELINE_MAX_PIPELINES" using h by (simp add: a(2) audio_pipeline_table_del_def)
  moreover have "audio_exit_one E i s = Some (s\<lparr>ap_audio := a, ap_sys := y\<rparr>)"
    using c k a(1) y(1) by (simp add: audio_exit_one_def thread_ctx_def play_pipeline_exit_def)
  ultimately show ?thesis using h y(2) by (simp add: app_holds_def)
qed

lemma exit_all_holds:
  fixes s :: "('s, 'h) audio_app"
  assumes y0: "Tsn_Resource.sys_ok y0" and s: "created blocks y0 t0 n s"
  shows "\<exists>s'. for_upto_opt n (audio_exit_one E) s = Some s' \<and> app_holds y0 t0 [] s' \<and> ap_ctx s' = ap_ctx s \<and> ap_active s' = ap_active s"
proof -
  let ?cs = "first_ctxs s n"
  have "\<exists>s'. for_upto_opt n (audio_exit_one E) s = Some s' \<and>
      (app_holds y0 t0 (drop n ?cs) s' \<and> ap_ctx s' = ap_ctx s \<and> ap_active s' = ap_active s)"
  proof (rule for_upto_opt_invariant [where P = "\<lambda>k u. app_holds y0 t0 (drop k ?cs) u \<and> ap_ctx u = ap_ctx s \<and> ap_active u = ap_active s"])
    show "app_holds y0 t0 (drop 0 ?cs) s \<and> ap_ctx s = ap_ctx s \<and> ap_active s = ap_active s" using s by (simp add: created_def)
    fix k and u :: "('s, 'h) audio_app"
    assume k: "k < n" and u: "app_holds y0 t0 (drop k ?cs) u \<and> ap_ctx u = ap_ctx s \<and> ap_active u = ap_active s"
    have d: "drop k ?cs = the (thread_ctx s k) # drop (Suc k) ?cs" using k by (simp add: Cons_nth_drop_Suc [symmetric])
    have c: "thread_ctx u k = Some (the (thread_ctx s k))" using s k u by (auto simp: created_def thread_ctx_def)
    show "\<exists>u'. audio_exit_one E k u = Some u' \<and> app_holds y0 t0 (drop (Suc k) ?cs) u' \<and> ap_ctx u' = ap_ctx s \<and> ap_active u' = ap_active s"
      using exit_one_holds [OF y0 _ c, of t0 "drop (Suc k) ?cs" E] u d by simp
  qed
  then show ?thesis by simp
qed

lemma close_returns:
  assumes "devs_set (length (ap_active s)) s"
  shows "\<exists>s'. audio_close S B s = Some s' \<and> app_frame s s'"
proof -
  let ?f = "\<lambda>i s. if \<not> i < length (dc_dev (ap_ctx s)) then None else hw_call (sai_drv_exit S (dc_dev (ap_ctx s) ! i)) s"
  have "\<exists>t. for_upto_opt (length (ap_active s)) ?f s = Some t \<and> (app_frame s t \<and> ap_ctx t = ap_ctx s)"
  proof (rule for_upto_opt_invariant [where P = "\<lambda>_ t. app_frame s t \<and> ap_ctx t = ap_ctx s"])
    fix i t assume i: "i < length (ap_active s)" and t: "app_frame s t \<and> ap_ctx t = ap_ctx s"
    obtain b where b: "dv_sai_base (dc_dev (ap_ctx s) ! i) = Some b" using assms i by (auto simp: devs_set_def)
    have "i < length (dc_dev (ap_ctx s))" using assms i by (simp add: devs_set_def)
    then show "\<exists>u. ?f i t = Some u \<and> app_frame s u \<and> ap_ctx u = ap_ctx s"
      using t b by (auto simp: hw_call_def sai_drv_exit_def app_frame_def)
  qed simp
  then obtain t where t: "sai_close S s = Some t" "app_frame s t" by (auto simp: sai_close_def)
  have "app_frame t (for_upto (length (ap_active t)) (\<lambda>i s. on_hw (bd_codec_close B (sa_codec_id (ap_active s ! i))) s) t)"
    by (rule for_upto_invariant [where P = "\<lambda>_ u. app_frame t u"]) (auto intro: app_frame_trans)
  then show ?thesis using t app_frame_trans [OF t(2)] by (auto simp: audio_close_def)
qed

lemma stop_gives_back:
  assumes y0: "Tsn_Resource.sys_ok y0" and s: "created blocks y0 t0 (unat (dc_pipeline_count (ap_ctx s))) s"
    and handler: "dc_handler (ap_ctx s)" and devs: "devs_set (length (ap_active s)) s"
  shows "\<exists>s'. audio_stop E S B s = Some (AUDIO_RESP_STATUS_SUCCESS, s') \<and> app_holds y0 t0 [] s' \<and> same_ctx (audio_clear_handler s) s'"
proof -
  let ?s = "audio_clear_handler s"
  have c: "created blocks y0 t0 (unat (dc_pipeline_count (ap_ctx s))) ?s"
    using s by (simp add: created_def audio_clear_handler_def thread_ctx_def app_holds_def)
  obtain t where t: "for_upto_opt (unat (dc_pipeline_count (ap_ctx s))) (audio_exit_one E) ?s = Some t" "app_holds y0 t0 [] t"
    "ap_ctx t = ap_ctx ?s" "ap_active t = ap_active s"
    using exit_all_holds [OF y0 c, of E] by (auto simp: audio_clear_handler_def)
  have "devs_set (length (ap_active t)) t" using devs t(3,4) by (simp add: devs_set_def audio_clear_handler_def)
  from close_returns [OF this] obtain u where u: "audio_close S B t = Some u" "app_frame t u" by blast
  have "same_ctx ?s u" using same_ctx_frame [OF u(2)] t(3) by (simp add: same_ctx_def)
  then show ?thesis
    using handler t(1) u app_frame_holds [OF u(2) t(2)] by (simp add: audio_stop_def)
qed

text \<open>The event sent to a thread changes its queue only.\<close>

definition queued :: "('s, 'h) audio_app \<Rightarrow> ('s, 'h) audio_app \<Rightarrow> bool" where
  "queued v u \<longleftrightarrow> ap_sys u = ap_sys v \<and> ap_audio u = ap_audio v \<and> ap_active u = ap_active v \<and> dc_dev (ap_ctx u) = dc_dev (ap_ctx v) \<and>
     dc_handler (ap_ctx u) = dc_handler (ap_ctx v) \<and> dc_pipeline_count (ap_ctx u) = dc_pipeline_count (ap_ctx v) \<and>
     length (dc_threads (ap_ctx u)) = length (dc_threads (ap_ctx v)) \<and> (\<forall>k. thread_ctx u k = thread_ctx v k)"

lemma upd_queue_ctx:
  "thread_ctx (v\<lparr>ap_ctx := upd_thread i (\<lambda>t. t\<lparr>dt_queue := q t\<rparr>) (ap_ctx v)\<rparr>) k = thread_ctx v k"
  by (cases "i < length (dc_threads (ap_ctx v))") (auto simp: thread_ctx_def upd_thread_def nth_list_update list_update_beyond)

lemma run_send_queued: "queued v (audio_run_send i v)"
  using upd_queue_ctx [where v = v and i = i and q = "\<lambda>t. dt_queue t @ [\<lparr>ev_type = EVENT_TYPE_DATA, ev_data = 0\<rparr>]"]
  by (auto simp: queued_def audio_run_send_def mqueue_send_def upd_thread_def)

lemma run_sends_queued: "queued v (for_upto n audio_run_send v)"
proof (rule for_upto_invariant)
  show "queued v v" by (simp add: queued_def)
  show "queued v (audio_run_send i u)" if "queued v u" for i u
    using that run_send_queued [of u i] by (simp add: queued_def)
qed

text \<open>
  What \<open>m\<close> pipelines made since the state \<open>s\<close> are: each in the block it was given, which the table did not hold and now holds, complete,
  with its context in memory of its own, which was not in use; nothing else was taken.
\<close>

definition made :: "(nat \<Rightarrow> nat option) \<Rightarrow> ('s, 'h) audio_app \<Rightarrow> nat \<Rightarrow> ('s, 'h) audio_app \<Rightarrow> bool" where
  "made blocks s m u \<longleftrightarrow>
     (\<forall>i < m. \<exists>ctx. thread_ctx u i = Some ctx \<and> blocks i = Some (pc_pipeline ctx)) \<and>
     distinct (map pc_mem (first_ctxs u m)) \<and> distinct (map pc_pipeline (first_ctxs u m)) \<and>
     sy_live (ap_sys s) \<inter> set (map (\<lambda>c. (Memory, pc_mem c)) (first_ctxs u m)) = {} \<and>
     sy_live (ap_sys u) = sy_live (ap_sys s) \<union> set (map (\<lambda>c. (Memory, pc_mem c)) (first_ctxs u m)) \<and>
     pipelines_held (set (map pc_pipeline (first_ctxs u m))) (sys_table (ap_audio u)) \<and>
     without (set (map pc_pipeline (first_ctxs u m))) (table_addrs (sys_table (ap_audio u))) = table_addrs (sys_table (ap_audio s))"

lemma created_made:
  assumes "created blocks (ap_sys s) (table_addrs (sys_table (ap_audio s))) m u" and "Tsn_Resource.sys_ok (ap_sys s)"
  shows "made blocks s m u"
proof -
  let ?cs = "first_ctxs u m"
  have h: "holds (ap_sys s) (map (\<lambda>c. (Memory, pc_mem c)) ?cs) (ap_sys u)" using assms(1) by (simp add: created_def app_holds_def)
  then have "distinct (map (\<lambda>c. (Memory, pc_mem c)) ?cs)" by (simp only: holds_def)
  then have "distinct (map pc_mem ?cs)" by (auto simp: distinct_map inj_on_def)
  moreover have "sy_live (ap_sys s) \<inter> set (map (\<lambda>c. (Memory, pc_mem c)) ?cs) = {}"
    using h assms(2) by (fastforce simp: holds_def Tsn_Resource.sys_ok_def)
  moreover have "sy_live (ap_sys u) = sy_live (ap_sys s) \<union> set (map (\<lambda>c. (Memory, pc_mem c)) ?cs)" using h by (simp only: holds_def)
  ultimately show ?thesis using assms(1) unfolding made_def created_def app_holds_def by blast
qed


section \<open>A concrete run\<close>

text \<open>A pipeline that plays a tone: one stage, one element, one buffer.\<close>

definition demo_tone :: "int pipeline_config" where
  "demo_tone = demo_pipeline_config\<lparr>pf_period := 8, pf_stages := 1, pf_buffers := 1, pf_buffer_storage := 1\<rparr>"
lemma demo_tone_check: "audio_pipeline_config_check demo_env (audio_pipeline_set_config demo_tone) = 0"
  by (simp add: audio_pipeline_config_check_def audio_pipeline_set_config_def demo_tone_def demo_pipeline_config_def demo_config_def
   Let_def set_element_config_def loop_simps audio_pipeline_count_output_def audio_element_check_config_def demo_env_def int_fp_def sine_element_check_config_def
   set_buffer_configs_def fill_defaults_def)

lemma tone_init: "\<exists>c a. audio_pipeline_init demo_env Z (Some 1000) mutex_ok demo_tone demo_sys = Some (Some 1000, c, a)"
proof -
  let ?c = "audio_pipeline_set_config demo_tone"
  have shape: "pf_stages demo_tone = 1" "pf_stages ?c = 1" "sg_elements (stage_of demo_tone 0) = 1" "sg_elements (stage_of ?c 0) = 1" "ec_type (element_of ?c 0 0) = AUDIO_ELEMENT_SINE_SOURCE"
    by (simp_all add: audio_pipeline_set_config_def demo_tone_def demo_pipeline_config_def set_element_config_def Let_def)
  obtain p m where p: "audio_pipeline_create demo_env Z (Some 1000) ?c (sys_table demo_sys) (sys_mem demo_sys) = Some (p, m)" "pp_addr p = 1000"
    by (cases "audio_pipeline_create demo_env Z (Some 1000) ?c (sys_table demo_sys) (sys_mem demo_sys)")
      (auto simp: audio_pipeline_create_def demo_tone_check Let_def split: prod.splits)
  have add: "audio_pipeline_table_add (sys_table demo_sys) p = Some [Some demo_pipeline, Some p, None, None]"
    by (simp add: audio_pipeline_table_add_def demo_sys_def upt_rec)
  have early: "audio_pipeline_early_config_check demo_tone = 0"
    by (simp add: early_check_limits pipeline_limits_def demo_tone_def demo_pipeline_config_def demo_config_def)
  have el: "\<exists>t. init_element demo_env Z mutex_ok ?c 0 0 s = Inr t \<and> pp_addr (pi_pipeline t) = pp_addr (pi_pipeline s)" for s
    by (simp add: init_element_def Let_def audio_element_init_def shape set_element_def split: prod.split)
  show ?thesis
    using el [of "\<lparr>pi_pipeline = p, pi_world = \<lparr>smem = m, bufs = pp_buffers p, hws = sys_hw demo_sys\<rparr>, pi_ids = \<lambda>_. 0\<rparr>"] p(2)
    by (auto simp: audio_pipeline_init_def early p(1) add Let_def shape)
qed

text \<open>A board without serial interfaces, whose configuration is a tone on the first data thread.\<close>

definition demo_board :: "(int, nat \<times> s64 list) audio_board" where
  "demo_board = \<lparr>bd_clock_setup = (\<lambda>h. h), bd_clock_freq = (\<lambda>_. 0), bd_codec_setup = (\<lambda>_ h. (0, h)), bd_codec_set_format = (\<lambda>_ _ _ _ h. h),
     bd_codec_close = (\<lambda>_ h. h), bd_success = 0, bd_master = 0, bd_slave = 1, bd_supported_period = [8],
     bd_apply_config = (\<lambda>_. (0, Some [Some demo_tone, None]))\<rparr>"

definition demo_audio_app :: "(int, nat \<times> s64 list) audio_app" where
  "demo_audio_app = \<lparr>ap_ctx = (zeroed_data_ctx 0)\<lparr>dc_thread_count := 2\<rparr>, ap_audio = demo_sys, ap_sys = \<lparr>sy_next = 1, sy_live = {}\<rparr>,
     ap_active = [], ap_irqs = []\<rparr>"

definition demo_run :: audio_cmd_run where
  "demo_run = \<lparr>ar_id = 0, ar_frequency = 0, ar_period = 8, ar_config_idx = 0\<rparr>"

definition demo_blocks :: "nat \<Rightarrow> nat option" where
  "demo_blocks i = (if i = 0 then Some 1000 else None)"

lemma demo_run_succeeds:
  "\<exists>s. audio_run demo_env Z (\<lambda>_. True) demo_blocks mutex_ok S demo_board demo_run demo_audio_app = Some (AUDIO_RESP_STATUS_SUCCESS, s)"
proof -
  have c: "demo_tone\<lparr>pf_sample_rate := 48000, pf_period := 8\<rparr> = demo_tone" by (simp add: demo_tone_def demo_pipeline_config_def)
  obtain c' a where t: "audio_pipeline_init demo_env Z (Some 1000) (mutex_ok 0) demo_tone demo_sys = Some (Some 1000, c', a)" using tone_init by blast
  show ?thesis
    by (simp add: audio_run_def audio_run_prepare_def demo_audio_app_def demo_board_def demo_run_def demo_blocks_def zeroed_data_ctx_def zeroed_thread_def
        assign_nonzero_valid_val_def pipeline_configs_def Let_def audio_create_one_def play_pipeline_init_def acquire_def release_def c t
        sai_setup_def on_hw_def)
qed


end
