(* ===== verification/Audio_Threads.thy ===== *)
theory Audio_Threads
  imports Audio_App_Life
begin

text \<open>
  The threads of the audio application, \<open>audio/audio.c\<close>: the data threads (\<open>data_task\<close> with \<open>audio_reset\<close>) and the control thread, one
  step for every operation that can block or touches what they share, in any interleaving with the interrupt.
\<close>

section \<open>State\<close>

text \<open>
  Where a thread is. A data thread receives an event, locks its mutex, checks the handler and runs its pipeline; after an error it tries
  to become the one that resets all pipelines. The control thread waits for commands; it locks the mutexes of all threads to set or
  clear the handler.
\<close>

datatype data_pc =
    Receive
  | Lock audio_event
  | Check audio_event
  | Enable
  | Try_reset
  | Reset_run
  | Reset_send nat
  | Reset_wait nat
  | Reset_restart
  | Reset_enable
  | Reset_resend nat
  | Unlock

datatype ctrl_pc =
    Command
  | Run_lock nat nat
  | Run_unlock nat nat
  | Run_send nat nat
  | Stop_lock nat
  | Stop_unlock nat
  | Stop_exit nat
  | Stop_close

datatype thread_id = Data_thread nat | Ctrl_thread

record ('s, 'h) audio_threads =
  th_app :: "('s, 'h) audio_app"
  th_pc :: "nat \<Rightarrow> data_pc"
  th_async :: "nat \<Rightarrow> nat"
  th_mutex :: "nat \<Rightarrow> thread_id option"
  th_reset :: "nat option"
  th_ctrl :: ctrl_pc

text \<open>A thread that waits is blocked; using a pipeline or a context that is no longer there is a trap, as is a failed assertion.\<close>

datatype 'a outcome = Blocked | Trap | Done 'a

abbreviation th_count :: "('s, 'h) audio_threads \<Rightarrow> nat" where
  "th_count s \<equiv> unat (dc_pipeline_count (ap_ctx (th_app s)))"

abbreviation th_handler :: "('s, 'h) audio_threads \<Rightarrow> bool" where
  "th_handler s \<equiv> dc_handler (ap_ctx (th_app s))"

abbreviation at :: "nat \<Rightarrow> data_pc \<Rightarrow> ('s, 'h) audio_threads \<Rightarrow> ('s, 'h) audio_threads" where
  "at i pc s \<equiv> s\<lparr>th_pc := (th_pc s)(i := pc)\<rparr>"

section \<open>Data threads\<close>

definition send_event :: "nat \<Rightarrow> audio_event \<Rightarrow> ('s, 'h) audio_app \<Rightarrow> ('s, 'h) audio_app" where
  "send_event i e app = app\<lparr>ap_ctx := snd (mqueue_send i e (ap_ctx app))\<rparr>"

text \<open>\<open>handler->run\<close> on the context of thread \<open>i\<close>, which must be memory in use; the run may give the semaphore of the thread.\<close>

definition run_own :: "('s::zero, 'h) audio_env \<Rightarrow> nat \<Rightarrow> audio_event \<Rightarrow> ('s, 'h) audio_threads \<Rightarrow> (int \<times> ('s, 'h) audio_threads) option" where
  "run_own E i e s =
     do {
       ctx \<leftarrow> thread_ctx (th_app s) i;
       (if (Memory, pc_mem ctx) \<notin> sy_live (ap_sys (th_app s)) then None
        else do {
          (err, give, ctx, a) \<leftarrow> play_pipeline_run E ctx e (ap_audio (th_app s));
          let app = (th_app s)\<lparr>ap_audio := a, ap_ctx := upd_thread i (\<lambda>t. t\<lparr>dt_handle := Some ctx\<rparr>) (ap_ctx (th_app s))\<rparr>;
          Some (err, s\<lparr>th_app := app, th_async := (if give then (th_async s)(i := th_async s i + 1) else th_async s)\<rparr>)
        })
     }"

definition enable_tx_irq :: "('t, 'h) sai_port \<Rightarrow> ('s, 'h) audio_app \<Rightarrow> ('s, 'h) audio_app option" where
  "enable_tx_irq S app =
     (let c = ap_ctx app; k = unat (dc_irq_source c) in
      if \<not> k < length (dc_dev c) then None else hw_call (sai_enable_irq S (dc_dev c ! k) False True) app)"

definition step_run ::
  "('s::zero, 'h) audio_env \<Rightarrow> nat \<Rightarrow> audio_event \<Rightarrow> ('s, 'h) audio_threads \<Rightarrow> (int \<Rightarrow> data_pc option) \<Rightarrow> ('s, 'h) audio_threads outcome" where
  "step_run E i e s pc =
     (case run_own E i e s of
        None \<Rightarrow> Trap
      | Some (err, s) \<Rightarrow> (case pc err of None \<Rightarrow> Trap | Some pc \<Rightarrow> Done (at i pc s)))"

definition step_enable :: "('t, 'h) sai_port \<Rightarrow> nat \<Rightarrow> ('s, 'h) audio_threads \<Rightarrow> data_pc \<Rightarrow> ('s, 'h) audio_threads outcome" where
  "step_enable S i s pc = (case enable_tx_irq S (th_app s) of None \<Rightarrow> Trap | Some app \<Rightarrow> Done (at i pc (s\<lparr>th_app := app\<rparr>)))"

definition step_send :: "nat \<Rightarrow> nat \<Rightarrow> u32 \<Rightarrow> ('s, 'h) audio_threads \<Rightarrow> data_pc \<Rightarrow> ('s, 'h) audio_threads outcome" where
  "step_send i j type s pc =
     Done (at i pc (if j = i then s else s\<lparr>th_app := send_event j \<lparr>ev_type = type, ev_data = 0\<rparr> (th_app s)\<rparr>))"

text \<open>\<open>audio_reset\<close>: the loops over the other threads send to them and wait for their semaphores.\<close>

definition reset_step ::
  "('s::zero, 'h) audio_env \<Rightarrow> ('t, 'h) sai_port \<Rightarrow> nat \<Rightarrow> data_pc \<Rightarrow> ('s, 'h) audio_threads \<Rightarrow> ('s, 'h) audio_threads outcome" where
  "reset_step E S i pc s =
     (case pc of
        Try_reset \<Rightarrow> Done (if th_reset s = None then at i Reset_run (s\<lparr>th_reset := Some i\<rparr>) else at i Unlock s)
      | Reset_run \<Rightarrow> step_run E i \<lparr>ev_type = EVENT_TYPE_RESET, ev_data = 0\<rparr> s (\<lambda>_. Some (Reset_send 0))
      | Reset_send j \<Rightarrow> if j < th_count s then step_send i j EVENT_TYPE_RESET_ASYNC s (Reset_send (Suc j)) else Done (at i (Reset_wait 0) s)
      | Reset_wait j \<Rightarrow>
          if j < th_count s then
            if j = i then Done (at i (Reset_wait (Suc j)) s)
            else if th_async s j = 0 then Blocked
            else Done (at i (Reset_wait (Suc j)) (s\<lparr>th_async := (th_async s)(j := th_async s j - 1)\<rparr>))
          else Done (at i Reset_restart s)
      | Reset_restart \<Rightarrow> step_run E i \<lparr>ev_type = EVENT_TYPE_DATA, ev_data = 0\<rparr> s
          (\<lambda>err. if err < 0 then None else Some (if i = 0 then Reset_enable else Reset_resend 0))
      | Reset_enable \<Rightarrow> step_enable S i s (Reset_resend 0)
      | Reset_resend j \<Rightarrow>
          if j < th_count s then step_send i j EVENT_TYPE_DATA s (Reset_resend (Suc j)) else Done (at i Unlock (s\<lparr>th_reset := None\<rparr>))
      | _ \<Rightarrow> Blocked)"

text \<open>\<open>data_task\<close>.\<close>

definition data_step ::
  "('s::zero, 'h) audio_env \<Rightarrow> ('t, 'h) sai_port \<Rightarrow> nat \<Rightarrow> ('s, 'h) audio_threads \<Rightarrow> ('s, 'h) audio_threads outcome" where
  "data_step E S i s =
     (let app = th_app s in
      case th_pc s i of
        Receive \<Rightarrow> (case dt_queue (dc_threads (ap_ctx app) ! i) of
            [] \<Rightarrow> Blocked
          | e # q \<Rightarrow> Done (at i (Lock e) (s\<lparr>th_app := app\<lparr>ap_ctx := upd_thread i (\<lambda>t. t\<lparr>dt_queue := q\<rparr>) (ap_ctx app)\<rparr>\<rparr>)))
      | Lock e \<Rightarrow> if th_mutex s i = None then Done (at i (Check e) (s\<lparr>th_mutex := (th_mutex s)(i := Some (Data_thread i))\<rparr>)) else Blocked
      | Check e \<Rightarrow> if \<not> dc_handler (ap_ctx app) then Done (at i Unlock s)
          else step_run E i e s
            (\<lambda>err. Some (if err \<noteq> 0 then Try_reset else if i = 0 \<and> ev_type e = EVENT_TYPE_DATA then Enable else Unlock))
      | Enable \<Rightarrow> step_enable S i s Unlock
      | Unlock \<Rightarrow> Done (at i Receive (s\<lparr>th_mutex := (th_mutex s)(i := None)\<rparr>))
      | pc \<Rightarrow> reset_step E S i pc s)"

section \<open>The control thread\<close>

text \<open>The steps after a command was taken: the rest of \<open>audio_run\<close>, and \<open>audio_stop\<close>.\<close>

definition ctrl_lock :: "nat \<Rightarrow> ctrl_pc \<Rightarrow> ('s, 'h) audio_threads \<Rightarrow> ('s, 'h) audio_threads outcome" where
  "ctrl_lock k pc s =
     (if th_mutex s k = None then Done (s\<lparr>th_mutex := (th_mutex s)(k := Some Ctrl_thread), th_ctrl := pc\<rparr>) else Blocked)"

definition ctrl_unlock :: "nat \<Rightarrow> ctrl_pc \<Rightarrow> ('s, 'h) audio_threads \<Rightarrow> ('s, 'h) audio_threads outcome" where
  "ctrl_unlock k pc s = Done (s\<lparr>th_mutex := (th_mutex s)(k := None), th_ctrl := pc\<rparr>)"

definition run_step :: "ctrl_pc \<Rightarrow> ('s, 'h) audio_threads \<Rightarrow> ('s, 'h) audio_threads outcome" where
  "run_step pc s =
     (case pc of
        Run_lock n k \<Rightarrow> if k < n then ctrl_lock k (Run_lock n (Suc k)) s
          else Done (s\<lparr>th_app := audio_set_handler n (th_app s), th_ctrl := Run_unlock n 0\<rparr>)
      | Run_unlock n k \<Rightarrow> if k < n then ctrl_unlock k (Run_unlock n (Suc k)) s else Done (s\<lparr>th_ctrl := Run_send n 0\<rparr>)
      | Run_send n k \<Rightarrow> if k < n then Done (s\<lparr>th_app := audio_run_send k (th_app s), th_ctrl := Run_send n (Suc k)\<rparr>)
          else Done (s\<lparr>th_ctrl := Command\<rparr>)
      | _ \<Rightarrow> Blocked)"

definition stop_step ::
  "('s, 'h) audio_env \<Rightarrow> ('t, 'h) sai_port \<Rightarrow> ('s, 'h) audio_board \<Rightarrow> ctrl_pc \<Rightarrow> ('s, 'h) audio_threads \<Rightarrow> ('s, 'h) audio_threads outcome" where
  "stop_step E S B pc s =
     (case pc of
        Stop_lock k \<Rightarrow> if k < th_count s then ctrl_lock k (Stop_lock (Suc k)) s
          else Done (s\<lparr>th_app := audio_clear_handler (th_app s), th_ctrl := Stop_unlock 0\<rparr>)
      | Stop_unlock k \<Rightarrow> if k < th_count s then ctrl_unlock k (Stop_unlock (Suc k)) s else Done (s\<lparr>th_ctrl := Stop_exit 0\<rparr>)
      | Stop_exit k \<Rightarrow>
          if k < th_count s then
            (case audio_exit_one E k (th_app s) of None \<Rightarrow> Trap | Some app \<Rightarrow> Done (s\<lparr>th_app := app, th_ctrl := Stop_exit (Suc k)\<rparr>))
          else Done (s\<lparr>th_ctrl := Stop_close\<rparr>)
      | Stop_close \<Rightarrow> (case audio_close S B (th_app s) of None \<Rightarrow> Trap | Some app \<Rightarrow> Done (s\<lparr>th_app := app, th_ctrl := Command\<rparr>))
      | _ \<Rightarrow> Blocked)"

definition ctrl_step ::
  "('s, 'h) audio_env \<Rightarrow> ('t, 'h) sai_port \<Rightarrow> ('s, 'h) audio_board \<Rightarrow> ('s, 'h) audio_threads \<Rightarrow> ('s, 'h) audio_threads outcome" where
  "ctrl_step E S B s =
     (case th_ctrl s of
        Command \<Rightarrow> Blocked
      | Run_lock n k \<Rightarrow> run_step (th_ctrl s) s
      | Run_unlock n k \<Rightarrow> run_step (th_ctrl s) s
      | Run_send n k \<Rightarrow> run_step (th_ctrl s) s
      | pc \<Rightarrow> stop_step E S B pc s)"

section \<open>Commands and the interrupt\<close>

text \<open>
  What the control thread takes when it waits: a command to run, to stop, or for a pipeline, or its turn to log the statistics. The
  blocks and allocations a run gets come with its command; the part of a run that creates pipelines is one step, the handler being unset
  throughout. A trap inside is the outcome of the step.
\<close>

datatype ctrl_command =
    Run_command "nat \<Rightarrow> bool" "nat \<Rightarrow> nat option" "nat \<Rightarrow> nat \<Rightarrow> nat \<Rightarrow> bool" audio_cmd_run
  | Stop_command
  | Pipeline_command cmd u32 bool
  | Stats_turn

definition command_step ::
  "('s::zero, 'h) audio_env \<Rightarrow> pipeline_sizes \<Rightarrow> ('t, 'h) sai_port \<Rightarrow> ('s, 'h) audio_board \<Rightarrow> ctrl_command \<Rightarrow> ('s, 'h) audio_threads \<Rightarrow>
     ('s, 'h) audio_threads outcome" where
  "command_step E Z S B c s =
     (if th_ctrl s \<noteq> Command then Blocked
      else case c of
        Run_command A blocks mutex_ok run \<Rightarrow>
          (case audio_run_prepare E Z A blocks mutex_ok S B run (th_app s) of
             None \<Rightarrow> Trap
           | Some (n, app) \<Rightarrow> Done (s\<lparr>th_app := app, th_ctrl := (case n of None \<Rightarrow> Command | Some n \<Rightarrow> Run_lock n 0)\<rparr>))
      | Stop_command \<Rightarrow> Done (if th_handler s then s\<lparr>th_ctrl := Stop_lock 0\<rparr> else s)
      | Pipeline_command cmd len hdl \<Rightarrow>
          (case audio_pipeline_ctrl cmd len hdl (ap_audio (th_app s)) of (rc, resp, a) \<Rightarrow> Done (s\<lparr>th_app := (th_app s)\<lparr>ap_audio := a\<rparr>\<rparr>))
      | Stats_turn \<Rightarrow> (case audio_stats (th_app s) of None \<Rightarrow> Trap | Some app \<Rightarrow> Done (s\<lparr>th_app := app\<rparr>)))"

definition irq_step :: "('t, 'h) sai_port \<Rightarrow> u8 \<Rightarrow> ('s, 'h) audio_threads \<Rightarrow> ('s, 'h) audio_threads outcome" where
  "irq_step S status s = (case rx_callback S status (th_app s) of None \<Rightarrow> Trap | Some app \<Rightarrow> Done (s\<lparr>th_app := app\<rparr>))"

section \<open>All together\<close>

text \<open>
  Any thread may make its step, the interrupt may come at any time, and the control thread may take a command when it waits for one.
  The blocks a run gets are new.
\<close>

definition command_fresh :: "ctrl_command \<Rightarrow> ('s, 'h) audio_threads \<Rightarrow> bool" where
  "command_fresh c s \<longleftrightarrow>
     (case c of Run_command A blocks mutex_ok run \<Rightarrow> fresh_blocks blocks (table_addrs (sys_table (ap_audio (th_app s)))) | _ \<Rightarrow> True)"

inductive threads_step ::
  "('s::zero, 'h) audio_env \<Rightarrow> pipeline_sizes \<Rightarrow> ('t, 'h) sai_port \<Rightarrow> ('s, 'h) audio_board \<Rightarrow>
     ('s, 'h) audio_threads \<Rightarrow> ('s, 'h) audio_threads \<Rightarrow> bool"
  for E :: "('s::zero, 'h) audio_env" and Z :: pipeline_sizes and S :: "('t, 'h) sai_port" and B :: "('s, 'h) audio_board" where
  Step_data: "i < AUDIO_APP_MAX_DATA_THREADS \<Longrightarrow> data_step E S i s = Done t \<Longrightarrow> threads_step E Z S B s t"
| Step_irq: "irq_step S status s = Done t \<Longrightarrow> threads_step E Z S B s t"
| Step_control: "ctrl_step E S B s = Done t \<Longrightarrow> threads_step E Z S B s t"
| Step_command: "command_fresh c s \<Longrightarrow> command_step E Z S B c s = Done t \<Longrightarrow> threads_step E Z S B s t"

text \<open>
  The states reached when no run uses fewer pipelines than the one before: an event still queued for a thread that the
  new run does not use would make this thread run the pipeline that the stop has freed.
\<close>

inductive threads_reach ::
  "('s::zero, 'h) audio_env \<Rightarrow> pipeline_sizes \<Rightarrow> ('t, 'h) sai_port \<Rightarrow> ('s, 'h) audio_board \<Rightarrow>
     ('s, 'h) audio_threads \<Rightarrow> ('s, 'h) audio_threads \<Rightarrow> bool"
  for E :: "('s::zero, 'h) audio_env" and Z :: pipeline_sizes and S :: "('t, 'h) sai_port" and B :: "('s, 'h) audio_board" where
  Threads_refl: "threads_reach E Z S B s s"
| Threads_step: "threads_reach E Z S B s t \<Longrightarrow> threads_step E Z S B t u \<Longrightarrow> th_count t \<le> th_count u \<Longrightarrow> threads_reach E Z S B s u"

definition threads_start :: "('s, 'h) audio_app \<Rightarrow> ('s, 'h) audio_threads" where
  "threads_start app = \<lparr>th_app = app, th_pc = (\<lambda>_. Receive), th_async = (\<lambda>_. 0), th_mutex = (\<lambda>_. None), th_reset = None, th_ctrl = Command\<rparr>"

end
