(* ===== verification/Audio_Threads_Safety.thy ===== *)
theory Audio_Threads_Safety
  imports Audio_Threads
begin

text \<open>
  The invariant of the threads of the audio application: whoever is about to use a pipeline finds it in the table and its context in
  memory, and the control thread never traps. Then the deadlock of a stop with a reset.
\<close>

section \<open>What the steps of the threads keep\<close>

definition ctx_key :: "('s, 'h) audio_app \<Rightarrow> nat \<Rightarrow> (nat \<times> nat) option" where
  "ctx_key s i = map_option (\<lambda>c. (pc_mem c, pc_pipeline c)) (thread_ctx s i)"

definition app_kept :: "('s, 'h) audio_app \<Rightarrow> ('s, 'h) audio_app \<Rightarrow> bool" where
  "app_kept s s' \<longleftrightarrow>
     ap_sys s' = ap_sys s \<and> same_shape (sys_table (ap_audio s)) (sys_table (ap_audio s')) \<and> length (ap_active s') = length (ap_active s) \<and>
     dc_dev (ap_ctx s') = dc_dev (ap_ctx s) \<and> dc_handler (ap_ctx s') = dc_handler (ap_ctx s) \<and>
     dc_pipeline_count (ap_ctx s') = dc_pipeline_count (ap_ctx s) \<and> length (dc_threads (ap_ctx s')) = length (dc_threads (ap_ctx s)) \<and>
     (\<forall>i. ctx_key s' i = ctx_key s i)"

definition thread_queue :: "('s, 'h) audio_app \<Rightarrow> nat \<Rightarrow> audio_event list" where
  "thread_queue s i = dt_queue (dc_threads (ap_ctx s) ! i)"

lemma app_kept_refl [simp]: "app_kept s s"
  by (simp add: app_kept_def)

lemma app_kept_trans: "app_kept s t \<Longrightarrow> app_kept t u \<Longrightarrow> app_kept s u"
  by (auto simp: app_kept_def intro: same_shape_trans)

text \<open>The contexts of the threads from \<open>lo\<close> below \<open>hi\<close> are held, and nothing else since some earlier state.\<close>

definition holds_range :: "nat \<Rightarrow> nat \<Rightarrow> ('s, 'h) audio_app \<Rightarrow> bool" where
  "holds_range lo hi s \<longleftrightarrow> (\<forall>i. lo \<le> i \<longrightarrow> i < hi \<longrightarrow> thread_ctx s i \<noteq> None) \<and>
     (\<exists>y0 t0. Tsn_Resource.sys_ok y0 \<and> app_holds y0 t0 (map (\<lambda>i. the (thread_ctx s i)) [lo..<hi]) s)"

lemma app_holds_keys:
  assumes "app_holds y0 t0 cs s" and "map (\<lambda>c. (pc_mem c, pc_pipeline c)) ds = map (\<lambda>c. (pc_mem c, pc_pipeline c)) cs"
  shows "app_holds y0 t0 ds s"
proof -
  have "map (\<lambda>c. (Memory, pc_mem c)) ds = map (\<lambda>x. (Memory, fst x)) (map (\<lambda>c. (pc_mem c, pc_pipeline c)) ds)"
    "map (\<lambda>c. (Memory, pc_mem c)) cs = map (\<lambda>x. (Memory, fst x)) (map (\<lambda>c. (pc_mem c, pc_pipeline c)) cs)"
    "map pc_pipeline ds = map snd (map (\<lambda>c. (pc_mem c, pc_pipeline c)) ds)"
    "map pc_pipeline cs = map snd (map (\<lambda>c. (pc_mem c, pc_pipeline c)) cs)" by simp_all
  then have "map (\<lambda>c. (Memory, pc_mem c)) ds = map (\<lambda>c. (Memory, pc_mem c)) cs" "map pc_pipeline ds = map pc_pipeline cs"
    unfolding assms(2) by (simp_all only:)
  then show ?thesis using assms(1) by (simp only: app_holds_def)
qed

lemma kept_holds_range:
  assumes kept: "app_kept s s'" and held: "holds_range lo hi s"
  shows "holds_range lo hi s'"
proof -
  have key: "map_option (\<lambda>c. (pc_mem c, pc_pipeline c)) (thread_ctx s' i) = map_option (\<lambda>c. (pc_mem c, pc_pipeline c)) (thread_ctx s i)" for i
    using kept by (simp add: app_kept_def ctx_key_def)
  have some: "thread_ctx s' i \<noteq> None" if "lo \<le> i" "i < hi" for i
    using that held key [of i] unfolding holds_range_def by (cases "thread_ctx s' i") auto
  obtain y0 t0 where y: "Tsn_Resource.sys_ok y0" "app_holds y0 t0 (map (\<lambda>i. the (thread_ctx s i)) [lo..<hi]) s"
    using held by (auto simp: holds_range_def)
  have h: "app_holds y0 t0 (map (\<lambda>i. the (thread_ctx s i)) [lo..<hi]) s'"
    by (rule app_holds_shape [OF y(2)]) (use kept in \<open>simp_all add: app_kept_def\<close>)
  have one: "(pc_mem (the (thread_ctx s' i)), pc_pipeline (the (thread_ctx s' i))) = (pc_mem (the (thread_ctx s i)), pc_pipeline (the (thread_ctx s i)))"
    if "lo \<le> i" "i < hi" for i
    using key [of i] some [OF that] by (cases "thread_ctx s i"; cases "thread_ctx s' i") auto
  have "map (\<lambda>c. (pc_mem c, pc_pipeline c)) (map (\<lambda>i. the (thread_ctx s' i)) [lo..<hi]) =
      map (\<lambda>c. (pc_mem c, pc_pipeline c)) (map (\<lambda>i. the (thread_ctx s i)) [lo..<hi])"
    unfolding map_map comp_def by (rule map_cong) (use one in auto)
  from app_holds_keys [OF h this] show ?thesis using y(1) some by (auto simp: holds_range_def)
qed

lemma upd_thread_key:
  assumes "app' = app\<lparr>ap_audio := a, ap_ctx := upd_thread i f (ap_ctx app)\<rparr>"
    and "map_option (\<lambda>c. (pc_mem c, pc_pipeline c)) (dt_handle (f (dc_threads (ap_ctx app) ! i))) = ctx_key app i"
    and "same_shape (sys_table (ap_audio app)) (sys_table a)"
  shows "app_kept app app'"
proof -
  have "ctx_key app' k = ctx_key app k" for k
    using assms(2) by (cases "k = i"; cases "i < length (dc_threads (ap_ctx app))")
      (simp_all add: assms(1) ctx_key_def thread_ctx_def upd_thread_def list_update_beyond)
  then show ?thesis using assms(3) by (simp add: app_kept_def assms(1) upd_thread_def)
qed

lemma send_event_kept: "app_kept app (send_event i e app)" and send_event_queue: "j \<noteq> i \<Longrightarrow> thread_queue (send_event i e app) j = thread_queue app j"
proof -
  let ?f = "\<lambda>t. t\<lparr>dt_queue := dt_queue t @ [e]\<rparr>"
  have "app_kept app (app\<lparr>ap_audio := ap_audio app, ap_ctx := upd_thread i ?f (ap_ctx app)\<rparr>)"
    by (rule upd_thread_key [OF refl]) (simp_all add: ctx_key_def thread_ctx_def)
  then show "app_kept app (send_event i e app)" by (simp add: send_event_def mqueue_send_def)
  show "j \<noteq> i \<Longrightarrow> thread_queue (send_event i e app) j = thread_queue app j"
    by (simp add: send_event_def mqueue_send_def thread_queue_def upd_thread_def)
qed

lemma on_pipeline_shape:
  assumes "on_pipeline x f a = Some (r, a')"
    and "\<And>p m h r p' m' h'. f (p, m, h) = Some (r, p', m', h') \<Longrightarrow> pp_addr p' = pp_addr p \<and> pipeline_live p' = pipeline_live p"
  shows "same_shape (sys_table a) (sys_table a')"
proof -
  obtain i p r' p' m h where "pipeline_place (sys_table a) x = Some i" "sys_table a ! i = Some p"
    "f (p, sys_mem a, sys_hw a) = Some (r', p', m, h)" "sys_table a' = (sys_table a)[i := Some p']"
    using assms(1) by (auto simp: on_pipeline_def bind_eq_Some_conv)
  then show ?thesis using same_shape_update [of i "sys_table a" p p'] assms(2) by simp
qed

lemma play_run_kept:
  assumes "play_pipeline_run E ctx e a = Some (err, give, ctx', a')"
  shows "pc_mem ctx' = pc_mem ctx \<and> pc_pipeline ctx' = pc_pipeline ctx \<and> same_shape (sys_table a) (sys_table a')"
proof -
  have run: "same_shape (sys_table a) (sys_table b)" if "on_pipeline x (audio_pipeline_run E) a = Some (r, b)" for x r b
    by (rule on_pipeline_shape [OF that]) (rule pipeline_run_live)
  have reset: "same_shape (sys_table a) (sys_table b)"
    if "on_pipeline x (\<lambda>s. map_option (Pair ()) (audio_pipeline_reset E s)) a = Some (r, b)" for x r b
    by (rule on_pipeline_shape [OF that]) (auto dest: pipeline_reset_live)
  show ?thesis
    using assms run reset by (auto simp: play_pipeline_run_def Let_def bind_eq_Some_conv split: if_splits)
qed

lemma run_own_kept:
  assumes "run_own E i e s = Some (err, s')"
  shows "app_kept (th_app s) (th_app s')" and "thread_queue (th_app s') k = thread_queue (th_app s) k"
    and "th_pc s' = th_pc s" and "th_mutex s' = th_mutex s" and "th_ctrl s' = th_ctrl s"
proof -
  obtain ctx give ctx' a where c: "thread_ctx (th_app s) i = Some ctx"
    and p: "play_pipeline_run E ctx e (ap_audio (th_app s)) = Some (err, give, ctx', a)"
    and s': "s' = s\<lparr>th_app := (th_app s)\<lparr>ap_audio := a, ap_ctx := upd_thread i (\<lambda>t. t\<lparr>dt_handle := Some ctx'\<rparr>) (ap_ctx (th_app s))\<rparr>,
      th_async := (if give then (th_async s)(i := th_async s i + 1) else th_async s)\<rparr>"
    using assms by (auto simp: run_own_def Let_def bind_eq_Some_conv split: if_splits)
  note k = play_run_kept [OF p]
  show "app_kept (th_app s) (th_app s')"
    by (rule upd_thread_key [where i = i and a = a and f = "\<lambda>t. t\<lparr>dt_handle := Some ctx'\<rparr>"])
      (use k c in \<open>simp_all add: s' ctx_key_def\<close>)
  show "thread_queue (th_app s') k = thread_queue (th_app s) k"
    by (cases "k = i"; cases "i < length (dc_threads (ap_ctx (th_app s)))")
      (simp_all add: s' thread_queue_def upd_thread_def list_update_beyond)
  show "th_pc s' = th_pc s" "th_mutex s' = th_mutex s" "th_ctrl s' = th_ctrl s" by (simp_all add: s')
qed

lemma hw_call_kept: "hw_call f app = Some app' \<Longrightarrow> app_kept app app' \<and> (\<forall>k. thread_queue app' k = thread_queue app k)"
  by (auto simp: hw_call_def app_kept_def thread_queue_def ctx_key_def thread_ctx_def)

lemma enable_kept: "enable_tx_irq S app = Some app' \<Longrightarrow> app_kept app app' \<and> (\<forall>k. thread_queue app' k = thread_queue app k)"
  using hw_call_kept by (fastforce simp: enable_tx_irq_def Let_def split: if_splits)

text \<open>The interrupt adds events for the threads in use only.\<close>

lemma rx_callback_kept:
  assumes "rx_callback S status app = Some app'"
  shows "app_kept app app' \<and> (\<forall>k. unat (dc_pipeline_count (ap_ctx app)) \<le> k \<longrightarrow> thread_queue app' k = thread_queue app k)"
proof -
  obtain app1 where h: "hw_call (sai_disable_irq S (dc_dev (ap_ctx app) ! unat (dc_irq_source (ap_ctx app))) False True) app = Some app1"
    and a: "app' = app1\<lparr>ap_ctx := data_send_event status ((ap_ctx app)\<lparr>dc_callback := dc_callback (ap_ctx app) + 1\<rparr>)\<rparr>"
    using assms by (auto simp: rx_callback_def Let_def bind_eq_Some_conv split: if_splits)
  let ?n = "unat (dc_pipeline_count (ap_ctx app))"
  let ?P = "\<lambda>c. app_kept app (app1\<lparr>ap_ctx := c\<rparr>) \<and> (\<forall>k \<ge> ?n. thread_queue (app1\<lparr>ap_ctx := c\<rparr>) k = thread_queue app k)"
  have start: "?P ((ap_ctx app)\<lparr>dc_callback := v\<rparr>)" for v
    using h by (auto simp: hw_call_def app_kept_def thread_queue_def ctx_key_def thread_ctx_def)
  have err: "?P (c\<lparr>dc_callback_err := v\<rparr>)" if "?P c" for c v
    using that by (simp add: app_kept_def thread_queue_def ctx_key_def thread_ctx_def)
  have send: "?P (snd (mqueue_send i e c))" if "?P c" "i < ?n" for i e c
    using that send_event_kept [of "app1\<lparr>ap_ctx := c\<rparr>" i e] send_event_queue [of _ i e "app1\<lparr>ap_ctx := c\<rparr>"]
    by (auto simp: send_event_def intro: app_kept_trans)
  have "?P (data_send_event status ((ap_ctx app)\<lparr>dc_callback := dc_callback (ap_ctx app) + 1\<rparr>))"
    unfolding data_send_event_def Let_def
  proof (rule for_upto_invariant)
    show "?P ((ap_ctx app)\<lparr>dc_callback := dc_callback (ap_ctx app) + 1\<rparr>)" by (rule start)
    fix i c assume "i < unat (dc_pipeline_count ((ap_ctx app)\<lparr>dc_callback := dc_callback (ap_ctx app) + 1\<rparr>))" and c: "?P c"
    then have i: "i < ?n" by simp
    show "?P (case mqueue_send i \<lparr>ev_type = EVENT_TYPE_DATA, ev_data = ucast status\<rparr> c of
        (sent, c) \<Rightarrow> if sent then c else c\<lparr>dc_callback_err := dc_callback_err c + 1\<rparr>)"
      using send [OF c i, of "\<lparr>ev_type = EVENT_TYPE_DATA, ev_data = ucast status\<rparr>"] err [OF send [OF c i, of "\<lparr>ev_type = EVENT_TYPE_DATA, ev_data = ucast status\<rparr>"]]
      by (cases "mqueue_send i \<lparr>ev_type = EVENT_TYPE_DATA, ev_data = ucast status\<rparr> c") (simp split del: if_split, simp)
  qed
  then show ?thesis by (simp add: a)
qed

lemma ctrl_kept:
  assumes "audio_pipeline_ctrl cmd len hdl (ap_audio app) = (rc, resp, a)"
  shows "app_kept app (app\<lparr>ap_audio := a\<rparr>)"
  using pipeline_ctrl_shape [OF assms] by (simp add: app_kept_def ctx_key_def thread_ctx_def)

section \<open>The invariant\<close>

text \<open>
  Who holds a mutex, who is between the test of the handler and the release of the mutex, which contexts are in use and what the
  control thread is doing.
\<close>

definition holding :: "data_pc \<Rightarrow> bool" where
  "holding pc \<longleftrightarrow> (case pc of Receive \<Rightarrow> False | Lock _ \<Rightarrow> False | _ \<Rightarrow> True)"

definition in_run :: "data_pc \<Rightarrow> bool" where
  "in_run pc \<longleftrightarrow> (case pc of Receive \<Rightarrow> False | Lock _ \<Rightarrow> False | Check _ \<Rightarrow> False | Unlock \<Rightarrow> False | _ \<Rightarrow> True)"

definition ctrl_locked :: "('s, 'h) audio_threads \<Rightarrow> nat \<Rightarrow> bool" where
  "ctrl_locked s i \<longleftrightarrow>
     (case th_ctrl s of Run_lock n k \<Rightarrow> i < k | Run_unlock n k \<Rightarrow> k \<le> i \<and> i < n | Stop_lock k \<Rightarrow> i < k | Stop_unlock k \<Rightarrow> k \<le> i \<and> i < th_count s | _ \<Rightarrow> False)"

definition ctrl_ok :: "('s, 'h) audio_threads \<Rightarrow> bool" where
  "ctrl_ok s \<longleftrightarrow>
     (case th_ctrl s of
        Command \<Rightarrow> True
      | Run_lock n k \<Rightarrow> \<not> th_handler s \<and> n \<le> AUDIO_APP_MAX_DATA_THREADS \<and> k \<le> n
      | Run_unlock n k \<Rightarrow> th_handler s \<and> n = th_count s
      | Run_send n k \<Rightarrow> th_handler s \<and> n = th_count s
      | Stop_lock k \<Rightarrow> th_handler s \<and> k \<le> th_count s
      | Stop_unlock k \<Rightarrow> \<not> th_handler s
      | Stop_exit k \<Rightarrow> \<not> th_handler s \<and> k \<le> th_count s
      | Stop_close \<Rightarrow> \<not> th_handler s)"

definition owned_from :: "('s, 'h) audio_threads \<Rightarrow> nat" where
  "owned_from s = (case th_ctrl s of Stop_exit k \<Rightarrow> k | _ \<Rightarrow> 0)"

definition owned_to :: "('s, 'h) audio_threads \<Rightarrow> nat" where
  "owned_to s =
     (case th_ctrl s of Run_lock n k \<Rightarrow> n | Stop_unlock k \<Rightarrow> th_count s | Stop_exit k \<Rightarrow> th_count s
      | _ \<Rightarrow> if th_handler s then th_count s else 0)"

definition needs_devs :: "('s, 'h) audio_threads \<Rightarrow> bool" where
  "needs_devs s \<longleftrightarrow> th_handler s \<or>
     (case th_ctrl s of Run_lock n k \<Rightarrow> True | Stop_unlock k \<Rightarrow> True | Stop_exit k \<Rightarrow> True | Stop_close \<Rightarrow> True | _ \<Rightarrow> False)"

definition threads_ok :: "('s, 'h) audio_threads \<Rightarrow> bool" where
  "threads_ok s \<longleftrightarrow>
     length (dc_threads (ap_ctx (th_app s))) = AUDIO_APP_MAX_DATA_THREADS \<and> th_count s \<le> AUDIO_APP_MAX_DATA_THREADS \<and>
     (\<forall>i < AUDIO_APP_MAX_DATA_THREADS.
        (holding (th_pc s i) \<longrightarrow> th_mutex s i = Some (Data_thread i)) \<and> (ctrl_locked s i \<longrightarrow> th_mutex s i = Some Ctrl_thread) \<and>
        (in_run (th_pc s i) \<longrightarrow> th_handler s) \<and> (th_count s \<le> i \<longrightarrow> th_pc s i = Receive \<and> thread_queue (th_app s) i = [])) \<and>
     ctrl_ok s \<and> holds_range (owned_from s) (owned_to s) (th_app s) \<and> (needs_devs s \<longrightarrow> devs_set (length (ap_active (th_app s))) (th_app s))"

lemma holding_simps [simp]:
  "\<not> holding Receive" "\<not> holding (Lock e)" "holding (Check e)" "holding Enable" "holding Try_reset" "holding Reset_run" "holding (Reset_send j)"
  "holding (Reset_wait j)" "holding Reset_restart" "holding Reset_enable" "holding (Reset_resend j)" "holding Unlock"
  by (simp_all add: holding_def)

lemma in_run_simps [simp]:
  "\<not> in_run Receive" "\<not> in_run (Lock e)" "\<not> in_run (Check e)" "in_run Enable" "in_run Try_reset" "in_run Reset_run" "in_run (Reset_send j)"
  "in_run (Reset_wait j)" "in_run Reset_restart" "in_run Reset_enable" "in_run (Reset_resend j)" "\<not> in_run Unlock"
  by (simp_all add: in_run_def)

lemma in_run_holding: "in_run pc \<Longrightarrow> holding pc"
  by (cases pc) simp_all

text \<open>A step of a data thread changes its own place and mutex, and what \<open>app_kept\<close> allows.\<close>

lemma kept_control:
  assumes "app_kept (th_app s) (th_app t)" and "th_ctrl t = th_ctrl s"
  shows "ctrl_ok t = ctrl_ok s" "ctrl_locked t i = ctrl_locked s i" "owned_from t = owned_from s" "owned_to t = owned_to s" "needs_devs t = needs_devs s"
    "th_count t = th_count s" "th_handler t = th_handler s"
  using assms by (auto simp: app_kept_def ctrl_ok_def ctrl_locked_def owned_from_def owned_to_def needs_devs_def split: ctrl_pc.split)

lemma kept_rest:
  assumes "app_kept (th_app s) (th_app t)" and "th_ctrl t = th_ctrl s" and "threads_ok s"
  shows "length (dc_threads (ap_ctx (th_app t))) = AUDIO_APP_MAX_DATA_THREADS \<and> th_count t \<le> AUDIO_APP_MAX_DATA_THREADS \<and> ctrl_ok t \<and>
    holds_range (owned_from t) (owned_to t) (th_app t) \<and> (needs_devs t \<longrightarrow> devs_set (length (ap_active (th_app t))) (th_app t))"
  using assms(3) kept_holds_range [OF assms(1)] kept_control [OF assms(1,2)] assms(1)
  by (auto simp: threads_ok_def app_kept_def devs_set_def)

lemma data_move:
  assumes ok: "threads_ok s" and i: "i < AUDIO_APP_MAX_DATA_THREADS" and act: "th_pc s i \<noteq> Receive \<or> thread_queue (th_app s) i \<noteq> []"
    and kept: "app_kept (th_app s) (th_app t)" and ctrl: "th_ctrl t = th_ctrl s" and pc: "th_pc t = (th_pc s)(i := pc')"
    and queue: "\<forall>k. th_count s \<le> k \<longrightarrow> thread_queue (th_app t) k = thread_queue (th_app s) k"
    and mutex: "th_mutex t = th_mutex s \<and> holding pc' = holding (th_pc s i) \<or>
      th_mutex s i = None \<and> th_mutex t = (th_mutex s)(i := Some (Data_thread i)) \<or>
      holding (th_pc s i) \<and> \<not> holding pc' \<and> th_mutex t = (th_mutex s)(i := None)"
    and run: "in_run pc' \<Longrightarrow> th_handler s"
  shows "threads_ok t" and "i < th_count s"
proof -
  note s = ok [unfolded threads_ok_def, THEN conjunct2, THEN conjunct2, THEN conjunct1, rule_format]
  show ic: "i < th_count s" using s [OF i] act by (meson not_le)
  have "(holding (th_pc t k) \<longrightarrow> th_mutex t k = Some (Data_thread k)) \<and> (ctrl_locked t k \<longrightarrow> th_mutex t k = Some Ctrl_thread) \<and>
      (in_run (th_pc t k) \<longrightarrow> th_handler t) \<and> (th_count t \<le> k \<longrightarrow> th_pc t k = Receive \<and> thread_queue (th_app t) k = [])"
    if k: "k < AUDIO_APP_MAX_DATA_THREADS" for k
  proof (cases "k = i")
    case True
    have free: "ctrl_locked s i \<Longrightarrow> \<not> holding (th_pc s i) \<and> th_mutex s i \<noteq> None" using s [OF i] by auto
    have "holding pc' \<longrightarrow> th_mutex t i = Some (Data_thread i)" "ctrl_locked s i \<longrightarrow> th_mutex t i = Some Ctrl_thread"
      using mutex s [OF i] free by (elim disjE conjE, simp_all)+
    then show ?thesis using True ic run kept_control [OF kept ctrl] by (simp add: pc)
  next
    case False
    then have "th_mutex t k = th_mutex s k" "th_pc t k = th_pc s k" using mutex pc by auto
    then show ?thesis using s [OF k] queue kept_control [OF kept ctrl] by simp
  qed
  then show "threads_ok t" using kept_rest [OF kept ctrl ok] by (simp add: threads_ok_def)
qed

lemma holding_act: "holding (th_pc s i) \<Longrightarrow> th_pc s i \<noteq> Receive \<or> thread_queue (th_app s) i \<noteq> []"
  by auto

lemma kept_count: "app_kept (th_app s) (th_app t) \<Longrightarrow> th_count t = th_count s"
  by (simp add: app_kept_def)

lemma held_move:
  assumes ok: "threads_ok s" and i: "i < AUDIO_APP_MAX_DATA_THREADS" and pcs: "holding (th_pc s i)" "holding pc'" "in_run pc' \<longrightarrow> th_handler s"
    and kept: "app_kept (th_app s) (th_app u)" "th_ctrl u = th_ctrl s" "th_pc u = th_pc s" "th_mutex u = th_mutex s"
    and queue: "\<And>k. th_count s \<le> k \<Longrightarrow> thread_queue (th_app u) k = thread_queue (th_app s) k"
  shows "threads_ok (at i pc' u) \<and> th_count (at i pc' u) = th_count s"
proof
  show "threads_ok (at i pc' u)"
    by (rule data_move(1) [OF ok i holding_act [OF pcs(1)], where pc' = pc']) (use pcs kept queue in simp_all)
  show "th_count (at i pc' u) = th_count s" using kept_count [of s "at i pc' u"] kept(1) by simp
qed

lemma step_run_ok:
  assumes ok: "threads_ok s" "i < AUDIO_APP_MAX_DATA_THREADS" "holding (th_pc s i)" "th_handler s"
    and step: "step_run E i e s pc = Done t" and pc: "\<And>err pc'. pc err = Some pc' \<Longrightarrow> holding pc'"
  shows "threads_ok t \<and> th_count t = th_count s"
proof -
  obtain err u pc' where r: "run_own E i e s = Some (err, u)" and t: "pc err = Some pc'" "t = at i pc' u"
    using step by (auto simp: step_run_def split: option.splits)
  show ?thesis unfolding t(2) by (rule held_move [OF ok(1-3) pc [OF t(1)]]) (use ok(4) run_own_kept [OF r] in simp_all)
qed

lemma step_enable_ok:
  assumes ok: "threads_ok s" "i < AUDIO_APP_MAX_DATA_THREADS" "holding (th_pc s i)" "th_handler s" and step: "step_enable S i s pc' = Done t" and pc: "holding pc'"
  shows "threads_ok t \<and> th_count t = th_count s"
proof -
  obtain app where a: "enable_tx_irq S (th_app s) = Some app" and t: "t = at i pc' (s\<lparr>th_app := app\<rparr>)"
    using step by (auto simp: step_enable_def split: option.splits)
  show ?thesis unfolding t by (rule held_move [OF ok(1-3) pc]) (use ok(4) enable_kept [OF a] in simp_all)
qed

lemma step_send_ok:
  assumes ok: "threads_ok s" "i < AUDIO_APP_MAX_DATA_THREADS" "holding (th_pc s i)" "th_handler s"
    and step: "step_send i j type s pc' = Done t" and j: "j < th_count s" and pc: "holding pc'"
  shows "threads_ok t \<and> th_count t = th_count s"
proof -
  have t: "t = at i pc' (if j = i then s else s\<lparr>th_app := send_event j \<lparr>ev_type = type, ev_data = 0\<rparr> (th_app s)\<rparr>)"
    using step by (simp add: step_send_def)
  have k: "app_kept (th_app s) (send_event j e (th_app s))" for e by (rule send_event_kept)
  have q: "thread_queue (send_event j e (th_app s)) k = thread_queue (th_app s) k" if "th_count s \<le> k" for k e
    using that j by (intro send_event_queue) simp
  show ?thesis unfolding t by (rule held_move [OF ok(1-3) pc]) (use ok(4) k q in simp_all)
qed

lemma plain_ok:
  assumes "threads_ok s" "i < AUDIO_APP_MAX_DATA_THREADS" "holding (th_pc s i)" "holding pc'" "in_run pc' \<longrightarrow> th_handler s"
    and "th_app u = th_app s" "th_mutex u = th_mutex s" "th_ctrl u = th_ctrl s" "th_pc u = th_pc s"
  shows "threads_ok (at i pc' u) \<and> th_count (at i pc' u) = th_count s"
  by (rule held_move [OF assms(1-5)]) (simp_all add: assms(6-9))

lemma reset_step_ok:
  assumes ok: "threads_ok s" "i < AUDIO_APP_MAX_DATA_THREADS" and run: "in_run (th_pc s i)" and step: "reset_step E S i (th_pc s i) s = Done t"
  shows "threads_ok t \<and> th_count t = th_count s"
proof -
  have h: "th_handler s" "holding (th_pc s i)" using ok run in_run_holding by (auto simp: threads_ok_def)
  note plain = plain_ok [OF ok h(2)] and send = step_send_ok [OF ok h(2,1)]
  note simps = reset_step_def
  show ?thesis
  proof (cases "th_pc s i")
    case Try_reset
    then show ?thesis using step plain [of Unlock s] plain [of Reset_run "s\<lparr>th_reset := Some i\<rparr>"] h(1) by (auto simp: simps split: if_splits)
  next
    case Reset_run
    then show ?thesis using step by (intro step_run_ok [OF ok h(2,1)]) (auto simp: simps)
  next
    case (Reset_send j)
    then show ?thesis using step send [of j _ "Reset_send (Suc j)" t] plain [of "Reset_wait 0" s] h(1) by (auto simp: simps split: if_splits)
  next
    case (Reset_wait j)
    then show ?thesis
      using step plain [of "Reset_wait (Suc j)" s] plain [of "Reset_wait (Suc j)" "s\<lparr>th_async := (th_async s)(j := th_async s j - 1)\<rparr>"]
        plain [of Reset_restart s] h(1) by (auto simp: simps split: if_splits)
  next
    case Reset_restart
    then show ?thesis using step by (intro step_run_ok [OF ok h(2,1)]) (auto simp: simps split: if_splits)
  next
    case Reset_enable
    then show ?thesis using step by (intro step_enable_ok [OF ok h(2,1)]) (auto simp: simps)
  next
    case (Reset_resend j)
    then show ?thesis using step send [of j _ "Reset_resend (Suc j)" t] plain [of Unlock "s\<lparr>th_reset := None\<rparr>"] h(1) by (auto simp: simps split: if_splits)
  qed (use step in \<open>simp_all add: reset_step_def\<close>)
qed

lemma data_step_ok:
  assumes ok: "threads_ok s" and i: "i < AUDIO_APP_MAX_DATA_THREADS" and step: "data_step E S i s = Done t"
  shows "threads_ok t \<and> th_count t = th_count s"
proof (cases "th_pc s i")
  case Receive
  then obtain e q where q: "thread_queue (th_app s) i = e # q"
    and t: "t = at i (Lock e) (s\<lparr>th_app := (th_app s)\<lparr>ap_ctx := upd_thread i (\<lambda>t. t\<lparr>dt_queue := q\<rparr>) (ap_ctx (th_app s))\<rparr>\<rparr>)"
    using step by (auto simp: data_step_def Let_def thread_queue_def split: list.splits)
  have k: "app_kept (th_app s) (th_app t)"
    by (rule upd_thread_key [where i = i and f = "\<lambda>t. t\<lparr>dt_queue := q\<rparr>" and a = "ap_audio (th_app s)"])
      (simp_all add: t ctx_key_def thread_ctx_def)
  have "\<forall>j. j \<noteq> i \<longrightarrow> thread_queue (th_app t) j = thread_queue (th_app s) j" by (simp add: t thread_queue_def upd_thread_def)
  moreover have "i < th_count s"
  proof (rule ccontr)
    assume "\<not> i < th_count s"
    then have "thread_queue (th_app s) i = []" using ok i by (simp add: threads_ok_def)
    then show False using q by simp
  qed
  ultimately have queue: "\<forall>k. th_count s \<le> k \<longrightarrow> thread_queue (th_app t) k = thread_queue (th_app s) k" by auto
  have "threads_ok t"
    by (rule data_move(1) [OF ok i _ k, where pc' = "Lock e"]) (use q Receive queue in \<open>simp_all add: t\<close>)
  then show ?thesis using kept_count [OF k] by blast
next
  case (Lock e)
  then have t: "t = at i (Check e) (s\<lparr>th_mutex := (th_mutex s)(i := Some (Data_thread i))\<rparr>)" "th_mutex s i = None"
    using step by (auto simp: data_step_def Let_def split: if_splits)
  have "threads_ok t"
    by (rule data_move(1) [OF ok i, where pc' = "Check e"]) (use t Lock in simp_all)
  then show ?thesis by (simp add: t)
next
  case (Check e)
  then have h: "holding (th_pc s i)" by simp
  show ?thesis
  proof (cases "th_handler s")
    case True
    then show ?thesis using step Check by (intro step_run_ok [OF ok i h True]) (auto simp: data_step_def Let_def split: if_splits)
  next
    case False
    then show ?thesis using step Check plain_ok [OF ok i h, of Unlock s] by (simp add: data_step_def Let_def)
  qed
next
  case Enable
  then have h: "holding (th_pc s i)" "th_handler s" using ok i by (auto simp: threads_ok_def)
  show ?thesis using step Enable by (intro step_enable_ok [OF ok i h]) (auto simp: data_step_def Let_def)
next
  case Unlock
  then have t: "t = at i Receive (s\<lparr>th_mutex := (th_mutex s)(i := None)\<rparr>)" using step by (auto simp: data_step_def Let_def)
  have "threads_ok t"
    by (rule data_move(1) [OF ok i, where pc' = Receive]) (use t Unlock in simp_all)
  then show ?thesis by (simp add: t)
qed (use step reset_step_ok [OF ok i, of E S t] in \<open>simp_all add: data_step_def Let_def\<close>)

section \<open>Steps of the control thread\<close>

lemmas control_defs = ctrl_ok_def ctrl_locked_def owned_from_def owned_to_def needs_devs_def

lemma same_ctx_queue: "same_ctx s s' \<Longrightarrow> thread_queue s' i = thread_queue s i" if "i < length (dc_threads (ap_ctx s))"
proof -
  assume c: "same_ctx s s'"
  have "dt_queue (map (\<lambda>t. t\<lparr>dt_handle := None\<rparr>) (dc_threads (ap_ctx s')) ! i) = dt_queue (map (\<lambda>t. t\<lparr>dt_handle := None\<rparr>) (dc_threads (ap_ctx s)) ! i)"
    using c unfolding same_ctx_def by (simp only:)
  then show ?thesis using that same_ctx_length [OF c] by (simp add: thread_queue_def)
qed

text \<open>The threads keep their part of the invariant when the control thread moves and changes mutexes no thread holds.\<close>

definition data_ok :: "('s, 'h) audio_threads \<Rightarrow> nat \<Rightarrow> bool" where
  "data_ok s i \<longleftrightarrow>
     (holding (th_pc s i) \<longrightarrow> th_mutex s i = Some (Data_thread i)) \<and> (ctrl_locked s i \<longrightarrow> th_mutex s i = Some Ctrl_thread) \<and>
     (in_run (th_pc s i) \<longrightarrow> th_handler s) \<and> (th_count s \<le> i \<longrightarrow> th_pc s i = Receive \<and> thread_queue (th_app s) i = [])"

lemma threads_ok_data:
  "threads_ok s \<longleftrightarrow>
     length (dc_threads (ap_ctx (th_app s))) = AUDIO_APP_MAX_DATA_THREADS \<and> th_count s \<le> AUDIO_APP_MAX_DATA_THREADS \<and>
     (\<forall>i < AUDIO_APP_MAX_DATA_THREADS. data_ok s i) \<and>
     ctrl_ok s \<and> holds_range (owned_from s) (owned_to s) (th_app s) \<and> (needs_devs s \<longrightarrow> devs_set (length (ap_active (th_app s))) (th_app s))"
  by (simp add: threads_ok_def data_ok_def)

lemma kept_ok:
  assumes ok: "threads_ok s" and kept: "app_kept (th_app s) (th_app t)" "th_ctrl t = th_ctrl s" "th_pc t = th_pc s" "th_mutex t = th_mutex s"
    and queue: "\<forall>k. th_count s \<le> k \<longrightarrow> thread_queue (th_app t) k = thread_queue (th_app s) k"
  shows "threads_ok t"
proof -
  have "data_ok t i" if "i < AUDIO_APP_MAX_DATA_THREADS" for i
    using ok that queue kept_control [OF kept(1,2)] by (simp add: threads_ok_data data_ok_def kept(3,4))
  then show ?thesis using kept_rest [OF kept(1,2) ok] by (simp add: threads_ok_data)
qed

lemma locked_idle:
  assumes "threads_ok s" and "i < AUDIO_APP_MAX_DATA_THREADS" and "ctrl_locked s i"
  shows "\<not> holding (th_pc s i)"
proof
  assume "holding (th_pc s i)"
  then have "th_mutex s i = Some (Data_thread i)" using assms by (simp add: threads_ok_data data_ok_def)
  moreover have "th_mutex s i = Some Ctrl_thread" using assms by (simp add: threads_ok_data data_ok_def)
  ultimately show False by simp
qed

text \<open>Only the place of the control thread and mutexes change.\<close>

lemma ctrl_move:
  assumes ok: "threads_ok s" and app: "th_app t = th_app s" and pc: "th_pc t = th_pc s"
    and mutex: "\<And>i. i < AUDIO_APP_MAX_DATA_THREADS \<Longrightarrow> th_mutex t i \<noteq> th_mutex s i \<Longrightarrow> \<not> holding (th_pc s i)"
    and locked: "\<And>i. i < AUDIO_APP_MAX_DATA_THREADS \<Longrightarrow> ctrl_locked t i \<Longrightarrow> th_mutex t i = Some Ctrl_thread"
    and ctrl: "ctrl_ok t" and owned: "owned_from t = owned_from s" "owned_to t = owned_to s" and devs: "needs_devs t \<Longrightarrow> needs_devs s"
  shows "threads_ok t"
proof -
  have "data_ok t i" if "i < AUDIO_APP_MAX_DATA_THREADS" for i
    using ok that mutex [OF that] locked [OF that]
    by (cases "th_mutex t i = th_mutex s i") (auto simp: threads_ok_data data_ok_def app pc)
  then show ?thesis using ok ctrl owned devs by (simp add: threads_ok_data app)
qed

lemma ctrl_lock_ok:
  assumes ok: "threads_ok s" and step: "ctrl_lock k pc s = Done t"
    and pc: "th_ctrl s = Run_lock n k \<and> k < n \<and> pc = Run_lock n (Suc k) \<or> th_ctrl s = Stop_lock k \<and> k < th_count s \<and> pc = Stop_lock (Suc k)"
  shows "threads_ok t"
proof -
  have t: "t = s\<lparr>th_mutex := (th_mutex s)(k := Some Ctrl_thread), th_ctrl := pc\<rparr>" and free: "th_mutex s k = None"
    using step by (auto simp: ctrl_lock_def split: if_splits)
  note d = ok [unfolded threads_ok_data, THEN conjunct2, THEN conjunct2, THEN conjunct1, rule_format, unfolded data_ok_def]
  have c: "ctrl_ok s" using ok by (simp add: threads_ok_data)
  show ?thesis
  proof (rule ctrl_move [OF ok])
    show "\<not> holding (th_pc s i)" if "i < AUDIO_APP_MAX_DATA_THREADS" "th_mutex t i \<noteq> th_mutex s i" for i
      using that d [OF that(1)] free by (auto simp: t split: if_splits)
    show "th_mutex t i = Some Ctrl_thread" if "i < AUDIO_APP_MAX_DATA_THREADS" "ctrl_locked t i" for i
      using that d [OF that(1)] pc by (auto simp: t ctrl_locked_def less_Suc_eq)
  qed (use c pc in \<open>auto simp: t control_defs\<close>)
qed

lemma ctrl_unlock_ok:
  assumes ok: "threads_ok s" and step: "ctrl_unlock k pc s = Done t"
    and pc: "th_ctrl s = Run_unlock n k \<and> k < n \<and> pc = Run_unlock n (Suc k) \<or> th_ctrl s = Stop_unlock k \<and> k < th_count s \<and> pc = Stop_unlock (Suc k)"
  shows "threads_ok t"
proof -
  have t: "t = s\<lparr>th_mutex := (th_mutex s)(k := None), th_ctrl := pc\<rparr>" using step by (simp add: ctrl_unlock_def)
  note d = ok [unfolded threads_ok_data, THEN conjunct2, THEN conjunct2, THEN conjunct1, rule_format, unfolded data_ok_def]
  have c: "ctrl_ok s" using ok by (simp add: threads_ok_data)
  have own: "ctrl_locked s k" using pc by (auto simp: ctrl_locked_def)
  show ?thesis
  proof (rule ctrl_move [OF ok])
    show "\<not> holding (th_pc s i)" if "i < AUDIO_APP_MAX_DATA_THREADS" "th_mutex t i \<noteq> th_mutex s i" for i
      using that locked_idle [OF ok that(1)] own by (auto simp: t split: if_splits)
    show "th_mutex t i = Some Ctrl_thread" if "i < AUDIO_APP_MAX_DATA_THREADS" "ctrl_locked t i" for i
      using that d [OF that(1)] pc by (auto simp: t ctrl_locked_def)
  qed (use c pc in \<open>auto simp: t control_defs\<close>)
qed

text \<open>The handler is set and cleared under the mutexes of all threads in use.\<close>

lemma few_count: "n \<le> AUDIO_APP_MAX_DATA_THREADS \<Longrightarrow> unat (of_nat n :: u8) = n"
  by (simp add: unat_of_nat)

lemma set_handler_ok:
  assumes ok: "threads_ok s" and pc: "th_ctrl s = Run_lock n n" and count: "th_count s \<le> n"
  shows "threads_ok (s\<lparr>th_app := audio_set_handler n (th_app s), th_ctrl := Run_unlock n 0\<rparr>)"
proof -
  let ?t = "s\<lparr>th_app := audio_set_handler n (th_app s), th_ctrl := Run_unlock n 0\<rparr>"
  have n: "n \<le> AUDIO_APP_MAX_DATA_THREADS" "\<not> th_handler s" using ok pc by (auto simp: threads_ok_data ctrl_ok_def)
  then have c: "th_count ?t = n" by (simp add: audio_set_handler_def few_count)
  have app: "dc_threads (ap_ctx (th_app ?t)) = dc_threads (ap_ctx (th_app s))" "dc_dev (ap_ctx (th_app ?t)) = dc_dev (ap_ctx (th_app s))"
    "th_handler ?t" "ap_sys (th_app ?t) = ap_sys (th_app s)" "ap_audio (th_app ?t) = ap_audio (th_app s)" "ap_active (th_app ?t) = ap_active (th_app s)"
    by (simp_all add: audio_set_handler_def)
  have "data_ok ?t i" if "i < AUDIO_APP_MAX_DATA_THREADS" for i
    using ok that count pc app c unfolding threads_ok_data data_ok_def thread_queue_def by (auto simp: ctrl_locked_def)
  moreover have "owned_from ?t = owned_from s" "owned_to ?t = owned_to s" "needs_devs s" "ctrl_ok ?t"
    using pc c app(3) by (simp_all add: control_defs)
  moreover have "holds_range lo hi (th_app ?t) = holds_range lo hi (th_app s)" for lo hi
    using app by (simp add: holds_range_def thread_ctx_def app_holds_def)
  moreover have "devs_set k (th_app ?t) = devs_set k (th_app s)" for k using app by (simp add: devs_set_def)
  ultimately show ?thesis using ok n(1) c app by (simp add: threads_ok_data)
qed

lemma clear_handler_ok:
  assumes ok: "threads_ok s" and pc: "th_ctrl s = Stop_lock k" and all: "\<not> k < th_count s"
  shows "threads_ok (s\<lparr>th_app := audio_clear_handler (th_app s), th_ctrl := Stop_unlock 0\<rparr>)"
proof -
  let ?t = "s\<lparr>th_app := audio_clear_handler (th_app s), th_ctrl := Stop_unlock 0\<rparr>"
  have k: "k = th_count s" "th_handler s" using ok pc all by (auto simp: threads_ok_data ctrl_ok_def)
  have app: "dc_threads (ap_ctx (th_app ?t)) = dc_threads (ap_ctx (th_app s))" "dc_dev (ap_ctx (th_app ?t)) = dc_dev (ap_ctx (th_app s))"
    "\<not> th_handler ?t" "th_count ?t = th_count s" "ap_sys (th_app ?t) = ap_sys (th_app s)" "ap_audio (th_app ?t) = ap_audio (th_app s)"
    "ap_active (th_app ?t) = ap_active (th_app s)"
    by (simp_all add: audio_clear_handler_def)
  have "data_ok ?t i" if i: "i < AUDIO_APP_MAX_DATA_THREADS" for i
  proof -
    note d = ok [unfolded threads_ok_data, THEN conjunct2, THEN conjunct2, THEN conjunct1, rule_format, OF i, unfolded data_ok_def]
    have "\<not> in_run (th_pc s i)"
    proof
      assume r: "in_run (th_pc s i)"
      then have "i < th_count s" using d by (cases "th_count s \<le> i") auto
      then have "ctrl_locked s i" using pc k by (simp add: ctrl_locked_def)
      then show False using locked_idle [OF ok i] in_run_holding [OF r] by simp
    qed
    then show ?thesis using d pc k app by (auto simp: data_ok_def thread_queue_def ctrl_locked_def)
  qed
  moreover have "owned_from ?t = owned_from s" "owned_to ?t = owned_to s" "needs_devs s" "ctrl_ok ?t"
    using pc k app(3,4) by (simp_all add: control_defs)
  moreover have "holds_range lo hi (th_app ?t) = holds_range lo hi (th_app s)" for lo hi
    using app by (simp add: holds_range_def thread_ctx_def app_holds_def)
  moreover have "devs_set k (th_app ?t) = devs_set k (th_app s)" for k using app by (simp add: devs_set_def)
  ultimately show ?thesis using ok app by (simp add: threads_ok_data)
qed

text \<open>A step that gives resources back touches neither the threads nor what they share.\<close>

lemma resource_move:
  assumes ok: "threads_ok s" and count: "th_count (s\<lparr>th_app := app\<rparr>) = th_count s" and handler: "dc_handler (ap_ctx app) = th_handler s"
    and queue: "\<And>i. i < AUDIO_APP_MAX_DATA_THREADS \<Longrightarrow> thread_queue app i = thread_queue (th_app s) i"
    and threads: "length (dc_threads (ap_ctx app)) = AUDIO_APP_MAX_DATA_THREADS" and t: "t = s\<lparr>th_app := app, th_ctrl := pc\<rparr>"
    and free: "\<And>i. \<not> ctrl_locked t i" and ctrl: "ctrl_ok t" and held: "holds_range (owned_from t) (owned_to t) app"
    and devs: "needs_devs t \<Longrightarrow> devs_set (length (ap_active app)) app"
  shows "threads_ok t"
proof -
  have "data_ok t i" if "i < AUDIO_APP_MAX_DATA_THREADS" for i
    using ok that queue [OF that] free count handler by (simp add: threads_ok_data data_ok_def t)
  then show ?thesis using ok ctrl held devs threads count by (simp add: threads_ok_data t)
qed

lemma exit_step_ok:
  assumes ok: "threads_ok s" and pc: "th_ctrl s = Stop_exit k" and k: "k < th_count s"
  shows "\<exists>app. audio_exit_one E k (th_app s) = Some app \<and> threads_ok (s\<lparr>th_app := app, th_ctrl := Stop_exit (Suc k)\<rparr>)"
proof -
  have o: "owned_from s = k" "owned_to s = th_count s" "needs_devs s" "\<not> th_handler s" using ok pc by (auto simp: threads_ok_data control_defs)
  have h: "holds_range k (th_count s) (th_app s)" using ok o by (simp add: threads_ok_data)
  let ?cs = "\<lambda>k. map (\<lambda>i. the (thread_ctx (th_app s) i)) [k..<th_count s]"
  obtain y0 t0 where y: "Tsn_Resource.sys_ok y0" "app_holds y0 t0 (?cs k) (th_app s)" using h by (auto simp: holds_range_def)
  have c: "thread_ctx (th_app s) k = Some (the (thread_ctx (th_app s) k))" using h k by (auto simp: holds_range_def)
  have d: "?cs k = the (thread_ctx (th_app s) k) # ?cs (Suc k)" using k by (simp add: upt_rec [of k])
  obtain app where a: "audio_exit_one E k (th_app s) = Some app" "app_holds y0 t0 (?cs (Suc k)) app"
    and same: "ap_ctx app = ap_ctx (th_app s)" "ap_active app = ap_active (th_app s)"
    using exit_one_holds [OF y(1) y(2) [unfolded d] c] by blast
  have "holds_range (Suc k) (th_count s) app"
    using h y(1) a(2) by (auto simp: holds_range_def thread_ctx_def same)
  moreover have "devs_set (length (ap_active app)) app" using ok o by (simp add: threads_ok_data devs_set_def same)
  ultimately have "threads_ok (s\<lparr>th_app := app, th_ctrl := Stop_exit (Suc k)\<rparr>)"
    by (intro resource_move [OF ok, where app = app and pc = "Stop_exit (Suc k)"])
      (use ok o(4) k same in \<open>simp_all add: control_defs threads_ok_data thread_queue_def\<close>)
  then show ?thesis using a(1) by blast
qed

lemma close_step_ok:
  assumes ok: "threads_ok s" and pc: "th_ctrl s = Stop_close"
  shows "\<exists>app. audio_close S B (th_app s) = Some app \<and> threads_ok (s\<lparr>th_app := app, th_ctrl := Command\<rparr>)"
proof -
  have o: "owned_from s = 0" "owned_to s = 0" "needs_devs s" "\<not> th_handler s" using ok pc by (auto simp: threads_ok_data control_defs)
  obtain app where a: "audio_close S B (th_app s) = Some app" and f: "app_frame (th_app s) app"
    using close_returns [of "th_app s" S B] ok o by (auto simp: threads_ok_data)
  obtain y0 t0 where y: "Tsn_Resource.sys_ok y0" "app_holds y0 t0 [] (th_app s)" using ok o by (auto simp: threads_ok_data holds_range_def)
  then have "holds_range 0 0 app" using app_frame_holds [OF f y(2)] by (auto simp: holds_range_def)
  then have "threads_ok (s\<lparr>th_app := app, th_ctrl := Command\<rparr>)"
    by (intro resource_move [OF ok, where app = app and pc = Command])
      (use ok o(4) f in \<open>simp_all add: control_defs threads_ok_data thread_queue_def app_frame_def\<close>)
  then show ?thesis using a by blast
qed

text \<open>A step of the control thread keeps the invariant and never traps.\<close>

lemma run_step_ok:
  assumes ok: "threads_ok s" and step: "run_step (th_ctrl s) s = Done t" and count: "th_count s \<le> th_count t"
  shows "threads_ok t"
proof (cases "th_ctrl s")
  case (Run_lock n k)
  show ?thesis
  proof (cases "k < n")
    case True
    then show ?thesis using ctrl_lock_ok [OF ok, of k "Run_lock n (Suc k)" t n] step Run_lock by (simp add: run_step_def)
  next
    case False
    then have k: "k = n" "n \<le> AUDIO_APP_MAX_DATA_THREADS" using ok Run_lock by (auto simp: threads_ok_data ctrl_ok_def)
    have t: "t = s\<lparr>th_app := audio_set_handler n (th_app s), th_ctrl := Run_unlock n 0\<rparr>" using step Run_lock False by (simp add: run_step_def)
    have "th_count s \<le> n" using count k(2) by (simp add: t audio_set_handler_def few_count)
    then show ?thesis using set_handler_ok [OF ok] Run_lock k(1) by (simp add: t)
  qed
next
  case (Run_unlock n k)
  show ?thesis
  proof (cases "k < n")
    case True
    then show ?thesis using ctrl_unlock_ok [OF ok, of k "Run_unlock n (Suc k)" t n] step Run_unlock by (simp add: run_step_def)
  next
    case False
    then have t: "t = s\<lparr>th_ctrl := Run_send n 0\<rparr>" using step Run_unlock by (simp add: run_step_def)
    show ?thesis by (rule ctrl_move [OF ok]) (use ok Run_unlock in \<open>auto simp: t control_defs threads_ok_data\<close>)
  qed
next
  case (Run_send n k)
  have c: "n = th_count s" "th_handler s" using ok Run_send by (auto simp: threads_ok_data ctrl_ok_def)
  show ?thesis
  proof (cases "k < n")
    case True
    let ?u = "s\<lparr>th_app := audio_run_send k (th_app s)\<rparr>"
    have send: "audio_run_send k (th_app s) = send_event k \<lparr>ev_type = EVENT_TYPE_DATA, ev_data = 0\<rparr> (th_app s)"
      by (simp add: audio_run_send_def send_event_def)
    have u: "threads_ok ?u"
    proof (rule kept_ok [OF ok])
      have "thread_queue (send_event k e (th_app s)) j = thread_queue (th_app s) j" if "th_count s \<le> j" for e j
        using that True c(1) by (intro send_event_queue) simp
      then show "\<forall>j. th_count s \<le> j \<longrightarrow> thread_queue (th_app ?u) j = thread_queue (th_app s) j" by (simp add: send)
    qed (simp_all add: send send_event_kept)
    have t: "t = ?u\<lparr>th_ctrl := Run_send n (Suc k)\<rparr>" using step Run_send True by (simp add: run_step_def)
    have "th_count ?u = th_count s" "th_handler ?u" using c(2) by (simp_all add: audio_run_send_def mqueue_send_def upd_thread_def)
    then show ?thesis by (intro ctrl_move [OF u, where t = t]) (use Run_send c in \<open>auto simp: t control_defs\<close>)
  next
    case False
    then have t: "t = s\<lparr>th_ctrl := Command\<rparr>" using step Run_send by (simp add: run_step_def)
    show ?thesis by (rule ctrl_move [OF ok]) (use c Run_send in \<open>auto simp: t control_defs\<close>)
  qed
qed (use step in \<open>simp_all add: run_step_def\<close>)

lemma stop_step_ok:
  assumes ok: "threads_ok s"
  shows "stop_step E S B (th_ctrl s) s \<noteq> Trap" and "stop_step E S B (th_ctrl s) s = Done t \<Longrightarrow> threads_ok t"
proof -
  have "stop_step E S B (th_ctrl s) s \<noteq> Trap \<and> (stop_step E S B (th_ctrl s) s = Done t \<longrightarrow> threads_ok t)"
  proof (cases "th_ctrl s")
    case (Stop_lock k)
    then show ?thesis
      using ctrl_lock_ok [OF ok, of k "Stop_lock (Suc k)" t] clear_handler_ok [OF ok Stop_lock]
      by (cases "k < th_count s") (auto simp: stop_step_def ctrl_lock_def)
  next
    case (Stop_unlock k)
    have e: "threads_ok (s\<lparr>th_ctrl := Stop_exit 0\<rparr>)"
      by (rule ctrl_move [OF ok]) (use ok Stop_unlock in \<open>auto simp: control_defs threads_ok_data\<close>)
    then show ?thesis
      using Stop_unlock ctrl_unlock_ok [OF ok, of k "Stop_unlock (Suc k)" t]
      by (cases "k < th_count s") (auto simp: stop_step_def ctrl_unlock_def)
  next
    case (Stop_exit k)
    show ?thesis
    proof (cases "k < th_count s")
      case True
      then show ?thesis using Stop_exit exit_step_ok [OF ok Stop_exit True, of E] by (auto simp: stop_step_def)
    next
      case False
      then have k: "k = th_count s" "\<not> th_handler s" using ok Stop_exit by (auto simp: threads_ok_data ctrl_ok_def)
      have "threads_ok (s\<lparr>th_app := th_app s, th_ctrl := Stop_close\<rparr>)"
        by (rule resource_move [OF ok _ _ _ _ refl]) (use ok k Stop_exit in \<open>auto simp: control_defs threads_ok_data holds_range_def\<close>)
      then show ?thesis using Stop_exit False by (auto simp: stop_step_def)
    qed
  next
    case Stop_close
    then show ?thesis using close_step_ok [OF ok Stop_close, of S B] by (auto simp: stop_step_def)
  qed (simp_all add: stop_step_def)
  then show "stop_step E S B (th_ctrl s) s \<noteq> Trap" and "stop_step E S B (th_ctrl s) s = Done t \<Longrightarrow> threads_ok t" by auto
qed

lemma ctrl_step_no_trap:
  assumes "threads_ok s"
  shows "ctrl_step E S B s \<noteq> Trap"
proof -
  have "run_step (th_ctrl s) s \<noteq> Trap" by (simp add: run_step_def ctrl_lock_def ctrl_unlock_def split: ctrl_pc.split)
  then show ?thesis using stop_step_ok(1) [OF assms, of E S B] by (cases "th_ctrl s") (simp_all add: ctrl_step_def)
qed

lemma ctrl_step_ok:
  assumes "threads_ok s" and "ctrl_step E S B s = Done t" and "th_count s \<le> th_count t"
  shows "threads_ok t"
  using assms run_step_ok [of s t] stop_step_ok(2) [of s E S B t] by (cases "th_ctrl s") (simp_all add: ctrl_step_def)

text \<open>The start of a run.\<close>

lemma prepare_running: "dc_handler (ap_ctx s) \<Longrightarrow> audio_run_prepare E Z A blocks mutex_ok S B run s = Some (None, s)"
  by (simp add: audio_run_prepare_def)

lemma holds_none:
  assumes "app_holds y0 t0 cs s" and "Tsn_Resource.sys_ok y0"
  shows "app_holds (ap_sys s) (table_addrs (sys_table (ap_audio s))) [] s" and "Tsn_Resource.sys_ok (ap_sys s)"
  using assms holds_sys_ok by (auto simp: app_holds_def holds_refl pipelines_held_def)

lemma run_start_ok:
  assumes ok: "threads_ok s" and pc: "th_ctrl s = Command"
    and fresh: "fresh_blocks blocks (table_addrs (sys_table (ap_audio (th_app s))))"
    and run: "audio_run_prepare E Z A blocks mutex_ok S B run (th_app s) = Some (n, app)"
  shows "threads_ok (s\<lparr>th_app := app, th_ctrl := (case n of None \<Rightarrow> Command | Some n \<Rightarrow> Run_lock n 0)\<rparr>)"
proof (cases "th_handler s")
  case True
  then have "n = None" "app = th_app s" using prepare_running [of "th_app s" E Z A blocks mutex_ok S B run] run by auto
  then show ?thesis using ok pc by (metis audio_threads.surjective audio_threads.update_convs(1,6) option.simps(4))
next
  case False
  have o: "owned_from s = 0" "owned_to s = 0" using pc False by (auto simp: control_defs)
  have len: "length (dc_threads (ap_ctx (th_app s))) = AUDIO_APP_MAX_DATA_THREADS" using ok by (simp add: threads_ok_data)
  obtain y0 t0 where y: "Tsn_Resource.sys_ok y0" "app_holds y0 t0 [] (th_app s)" using ok o by (auto simp: threads_ok_data holds_range_def)
  note all = holds_none [OF y(2,1)]
  note out = run_prepare_outcome [OF run all(2,1) len fresh]
  have same: "same_ctx (th_app s) app" using out by blast
  have q: "thread_queue app i = thread_queue (th_app s) i" if "i < AUDIO_APP_MAX_DATA_THREADS" for i
    using same_ctx_queue [OF _ same] that len by simp
  have l: "length (dc_threads (ap_ctx app)) = AUDIO_APP_MAX_DATA_THREADS" using same_ctx_length [OF same] len by simp
  have c: "dc_handler (ap_ctx app) = th_handler s" "dc_pipeline_count (ap_ctx app) = dc_pipeline_count (ap_ctx (th_app s))"
    using same by (simp_all add: same_ctx_def)
  show ?thesis
  proof (cases n)
    case None
    obtain m where m: "created blocks (ap_sys (th_app s)) (table_addrs (sys_table (ap_audio (th_app s)))) m app" using out None by auto
    then have h: "app_holds (ap_sys (th_app s)) (table_addrs (sys_table (ap_audio (th_app s)))) (first_ctxs app m) app" by (simp add: created_def)
    have "holds_range 0 0 app" using holds_none [OF h all(2)] by (auto simp: holds_range_def)
    then show ?thesis
      by (intro resource_move [OF ok, where app = app]) (use q l c False None in \<open>simp_all add: control_defs\<close>)
  next
    case (Some j)
    have j: "j \<le> AUDIO_APP_MAX_DATA_THREADS" "created blocks (ap_sys (th_app s)) (table_addrs (sys_table (ap_audio (th_app s)))) j app"
      "devs_set (length (ap_active app)) app" using out Some by auto
    have "holds_range 0 j app" using j(2) all(2) by (auto simp: holds_range_def created_def)
    then show ?thesis
      by (intro resource_move [OF ok, where app = app]) (use q l c False Some j in \<open>simp_all add: control_defs\<close>)
  qed
qed

text \<open>A thread finds its pipeline: its context is memory in use and its pipeline stands complete in the table.\<close>

definition pipeline_in_place :: "('s, 'h) audio_app \<Rightarrow> nat \<Rightarrow> bool" where
  "pipeline_in_place app i \<longleftrightarrow>
     (\<exists>ctx j p. thread_ctx app i = Some ctx \<and> (Memory, pc_mem ctx) \<in> sy_live (ap_sys app) \<and>
        pipeline_place (sys_table (ap_audio app)) (pc_pipeline ctx) = Some j \<and> sys_table (ap_audio app) ! j = Some p \<and> pipeline_live p)"

lemma held_in_place:
  assumes "holds_range lo hi app" and "lo \<le> i" and "i < hi"
  shows "pipeline_in_place app i"
proof -
  obtain ctx where c: "thread_ctx app i = Some ctx" using assms by (auto simp: holds_range_def)
  obtain y0 t0 where h: "app_holds y0 t0 (map (\<lambda>i. the (thread_ctx app i)) [lo..<hi]) app" using assms(1) by (auto simp: holds_range_def)
  have "ctx \<in> set (map (\<lambda>i. the (thread_ctx app i)) [lo..<hi])" using c assms(2,3) by (force simp: image_iff)
  then have live: "(Memory, pc_mem ctx) \<in> sy_live (ap_sys app)"
    and place: "Some (pc_pipeline ctx) \<in> set (table_addrs (sys_table (ap_audio app)))"
    and all: "Some p \<in> set (sys_table (ap_audio app)) \<Longrightarrow> pp_addr p = pc_pipeline ctx \<Longrightarrow> pipeline_live p" for p
    using h by (auto simp: app_holds_def holds_def pipelines_held_def)
  obtain j p where p: "pipeline_place (sys_table (ap_audio app)) (pc_pipeline ctx) = Some j" "j < length (sys_table (ap_audio app))"
    "sys_table (ap_audio app) ! j = Some p" "pp_addr p = pc_pipeline ctx"
    using pipeline_place_found [OF place] by blast
  then have "pipeline_live p" using all [of p] nth_mem [OF p(2)] by simp
  with c live p show ?thesis by (auto simp: pipeline_in_place_def)
qed

text \<open>The statistics, of pipelines that are all in place.\<close>

lemma stats_place:
  assumes "pipeline_in_place app i"
  shows "\<exists>app'. do { ctx \<leftarrow> thread_ctx app i; a \<leftarrow> play_pipeline_stats ctx (ap_audio app); Some (app\<lparr>ap_audio := a\<rparr>) } = Some app'"
proof -
  obtain ctx j p where "thread_ctx app i = Some ctx" "pipeline_place (sys_table (ap_audio app)) (pc_pipeline ctx) = Some j"
    "sys_table (ap_audio app) ! j = Some p" "pipeline_live p"
    using assms by (auto simp: pipeline_in_place_def)
  moreover from this(4) obtain p' where "audio_pipeline_stats p = Some p'" using pipeline_stats_returns by blast
  ultimately show ?thesis by (simp add: play_pipeline_stats_def on_pipeline_def)
qed

lemma stats_one_kept:
  assumes "do { ctx \<leftarrow> thread_ctx u i; a \<leftarrow> play_pipeline_stats ctx (ap_audio u); Some (u\<lparr>ap_audio := a\<rparr>) } = Some u'"
  shows "app_kept u u' \<and> (\<forall>k. thread_queue u' k = thread_queue u k)"
proof -
  obtain ctx a where c: "play_pipeline_stats ctx (ap_audio u) = Some a" and u': "u' = u\<lparr>ap_audio := a\<rparr>"
    using assms by (auto simp: bind_eq_Some_conv)
  then have o: "on_pipeline (pc_pipeline ctx) (\<lambda>(p, m, h). map_option (\<lambda>p. ((), p, m, h)) (audio_pipeline_stats p)) (ap_audio u) = Some ((), a)"
    by (auto simp: play_pipeline_stats_def)
  have "same_shape (sys_table (ap_audio u)) (sys_table a)"
    by (rule on_pipeline_shape [OF o]) (use pipeline_stats_live in auto)
  then show ?thesis by (simp add: u' app_kept_def thread_queue_def ctx_key_def thread_ctx_def)
qed

lemma stats_kept:
  assumes "audio_stats app = Some app'"
  shows "app_kept app app' \<and> (\<forall>k. thread_queue app' k = thread_queue app k)"
proof (cases "dc_handler (ap_ctx app)")
  case True
  have loop: "for_upto_opt (unat (dc_pipeline_count (ap_ctx app)))
      (\<lambda>i s. do { ctx \<leftarrow> thread_ctx s i; a \<leftarrow> play_pipeline_stats ctx (ap_audio s); Some (s\<lparr>ap_audio := a\<rparr>) }) app = Some app'"
    using assms True by (simp add: audio_stats_def thread_ctx_def)
  show ?thesis
    by (rule for_upto_opt_kept [where P = "\<lambda>_ u. app_kept app u \<and> (\<forall>k. thread_queue u k = thread_queue app k)", OF _ _ loop])
      (use stats_one_kept app_kept_trans in \<open>fastforce+\<close>)
qed (use assms in \<open>simp add: audio_stats_def\<close>)

lemma stats_no_trap:
  assumes ok: "threads_ok s" and pc: "th_ctrl s = Command"
  shows "audio_stats (th_app s) \<noteq> None"
proof (cases "th_handler s")
  case True
  then have held: "holds_range 0 (th_count s) (th_app s)" using ok pc by (simp add: threads_ok_data control_defs)
  let ?one = "\<lambda>i s. do { ctx \<leftarrow> thread_ctx s i; a \<leftarrow> play_pipeline_stats ctx (ap_audio s); Some (s\<lparr>ap_audio := a\<rparr>) }"
  have "\<exists>t. for_upto_opt (th_count s) ?one (th_app s) = Some t \<and> app_kept (th_app s) t"
  proof (rule for_upto_opt_invariant [where P = "\<lambda>_. app_kept (th_app s)"])
    fix i u assume i: "i < th_count s" and u: "app_kept (th_app s) u"
    have "pipeline_in_place u i" by (rule held_in_place [OF kept_holds_range [OF u held] _ i]) simp
    then obtain u' where u': "?one i u = Some u'" using stats_place by blast
    then show "\<exists>u'. ?one i u = Some u' \<and> app_kept (th_app s) u'" using app_kept_trans [OF u] stats_one_kept [OF u'] by blast
  qed simp
  then show ?thesis using True by (auto simp: audio_stats_def thread_ctx_def)
qed (simp add: audio_stats_def)

text \<open>A command: only one to run can trap, and only in the part that looks at its own configuration and makes its own pipelines.\<close>

lemma command_step_ok:
  assumes ok: "threads_ok s" and fresh: "command_fresh c s" and step: "command_step E Z S B c s = Done t"
  shows "threads_ok t"
proof -
  have pc: "th_ctrl s = Command" using step by (auto simp: command_step_def split: if_splits)
  show ?thesis
  proof (cases c)
    case (Run_command A blocks mutex_ok run)
    then obtain n app where "audio_run_prepare E Z A blocks mutex_ok S B run (th_app s) = Some (n, app)"
      "t = s\<lparr>th_app := app, th_ctrl := (case n of None \<Rightarrow> Command | Some n \<Rightarrow> Run_lock n 0)\<rparr>"
      using step pc by (auto simp: command_step_def split: option.splits)
    then show ?thesis using run_start_ok [OF ok pc] fresh by (simp add: command_fresh_def Run_command)
  next
    case Stop_command
    have "threads_ok (s\<lparr>th_ctrl := Stop_lock 0\<rparr>)" if "th_handler s" by (rule ctrl_move [OF ok]) (use that pc in \<open>auto simp: control_defs\<close>)
    then show ?thesis using step pc ok Stop_command by (simp add: command_step_def split: if_splits)
  next
    case (Pipeline_command cmd len hdl)
    obtain rc resp a where r: "audio_pipeline_ctrl cmd len hdl (ap_audio (th_app s)) = (rc, resp, a)" by (metis prod_cases3)
    have "t = s\<lparr>th_app := (th_app s)\<lparr>ap_audio := a\<rparr>\<rparr>" using step pc r by (simp add: command_step_def Pipeline_command)
    then show ?thesis using ctrl_kept [OF r] by (intro kept_ok [OF ok]) (simp_all add: thread_queue_def)
  next
    case Stats_turn
    then obtain app where "audio_stats (th_app s) = Some app" "t = s\<lparr>th_app := app\<rparr>"
      using step pc by (auto simp: command_step_def split: option.splits)
    then show ?thesis using stats_kept [of "th_app s" app] by (intro kept_ok [OF ok]) simp_all
  qed
qed

lemma command_trap:
  assumes ok: "threads_ok s" and trap: "command_step E Z S B c s = Trap"
  shows "\<not> th_handler s \<and> (\<exists>A blocks mutex_ok run. c = Run_command A blocks mutex_ok run)"
proof -
  have pc: "th_ctrl s = Command" using trap by (auto simp: command_step_def split: if_splits)
  show ?thesis
    using trap pc stats_no_trap [OF ok pc] prepare_running [of "th_app s" E Z _ _ _ S B]
    by (cases c; cases "th_handler s") (auto simp: command_step_def split: option.splits prod.splits if_splits)
qed

section \<open>Every interleaving\<close>

lemma threads_step_ok:
  assumes step: "threads_step E Z S B s t" and ok: "threads_ok s" and count: "th_count s \<le> th_count t"
  shows "threads_ok t"
  using step
proof cases
  case (Step_data i)
  then show ?thesis using data_step_ok [OF ok] by blast
next
  case (Step_irq status)
  then obtain app where "rx_callback S status (th_app s) = Some app" "t = s\<lparr>th_app := app\<rparr>" by (auto simp: irq_step_def split: option.splits)
  then show ?thesis using rx_callback_kept [of S status "th_app s" app] by (intro kept_ok [OF ok]) simp_all
next
  case Step_control
  then show ?thesis using ctrl_step_ok [OF ok _ count] by blast
next
  case (Step_command c)
  then show ?thesis using command_step_ok [OF ok] by blast
qed

lemma threads_reach_ok:
  assumes "threads_reach E Z S B s t" and "threads_ok s"
  shows "threads_ok t"
  using assms by (induction rule: threads_reach.induct) (auto intro: threads_step_ok)

text \<open>A thread that is about to run a pipeline: it has found the handler set, or it is resetting.\<close>

definition about_to_run :: "('s, 'h) audio_threads \<Rightarrow> nat \<Rightarrow> bool" where
  "about_to_run s i \<longleftrightarrow> (case th_pc s i of Check e \<Rightarrow> th_handler s | Reset_run \<Rightarrow> True | Reset_restart \<Rightarrow> True | _ \<Rightarrow> False)"

lemma run_in_place:
  assumes ok: "threads_ok s" and i: "i < AUDIO_APP_MAX_DATA_THREADS" and run: "about_to_run s i"
  shows "pipeline_in_place (th_app s) i" and "th_mutex s i = Some (Data_thread i)"
proof -
  have d: "data_ok s i" using ok i by (simp add: threads_ok_data)
  have h: "th_handler s" "holding (th_pc s i)"
    using run d by (auto simp: about_to_run_def data_ok_def split: data_pc.splits)
  then show "th_mutex s i = Some (Data_thread i)" using d by (simp add: data_ok_def)
  have "i < th_count s" using d h(2) by (cases "th_count s \<le> i") (auto simp: data_ok_def)
  moreover have "owned_from s = 0" "owned_to s = th_count s"
    using ok h(1) by (auto simp: threads_ok_data control_defs split: ctrl_pc.splits)
  ultimately show "pipeline_in_place (th_app s) i" using held_in_place [of 0 "th_count s" "th_app s" i] ok by (simp add: threads_ok_data)
qed

lemma start_threads_ok:
  assumes "Tsn_Resource.sys_ok (ap_sys app)" and "length (sys_table (ap_audio app)) = AUDIO_PIPELINE_MAX_PIPELINES"
    and "length (dc_threads (ap_ctx app)) = AUDIO_APP_MAX_DATA_THREADS" and "\<not> dc_handler (ap_ctx app)"
    and "dc_pipeline_count (ap_ctx app) = 0" and "\<forall>t \<in> set (dc_threads (ap_ctx app)). dt_queue t = []"
  shows "threads_ok (threads_start app)"
proof -
  let ?s = "threads_start app"
  have q: "thread_queue app i = []" if "i < AUDIO_APP_MAX_DATA_THREADS" for i
    using assms(3,6) that nth_mem [of i "dc_threads (ap_ctx app)"] by (simp add: thread_queue_def)
  have "holds_range 0 0 app"
    using assms(1,2) holds_refl [of "ap_sys app"] by (auto simp: holds_range_def app_holds_def pipelines_held_def)
  then show ?thesis using assms(3-5) q by (auto simp: threads_ok_data threads_start_def data_ok_def control_defs)
qed

section \<open>A run from its command to its first event\<close>

lemma reach_more:
  assumes "threads_reach E Z S B s t" and "threads_step E Z S B t u" and "th_count t \<le> th_count u"
  shows "threads_reach E Z S B s u"
  using assms by (rule Threads_step)

lemmas control_step_defs = ctrl_step_def run_step_def stop_step_def ctrl_lock_def ctrl_unlock_def

lemma first_event_reached:
  assumes prepare: "audio_run_prepare E Z A blocks mutex_ok S B run app = Some (Some 1, a)"
    and fresh: "fresh_blocks blocks (table_addrs (sys_table (ap_audio app)))" and same: "same_ctx app a"
    and count: "dc_pipeline_count (ap_ctx app) = 0" and queues: "\<forall>t \<in> set (dc_threads (ap_ctx app)). dt_queue t = []"
    and threads: "length (dc_threads (ap_ctx app)) = AUDIO_APP_MAX_DATA_THREADS"
  shows "\<exists>s. threads_reach E Z S B (threads_start app) s \<and> about_to_run s 0"
proof -
  let ?reach = "threads_reach E Z S B (threads_start app)"
  define e where "e = \<lparr>ev_type = EVENT_TYPE_DATA, ev_data = 0\<rparr>"
  have c: "dc_pipeline_count (ap_ctx a) = 0" "length (dc_threads (ap_ctx a)) = 2" "thread_queue a 0 = []"
    using same count queues threads same_ctx_length [OF same] same_ctx_queue [OF _ same, of 0] nth_mem [of 0 "dc_threads (ap_ctx app)"]
    by (simp_all add: same_ctx_def thread_queue_def)
  define s1 where "s1 = (threads_start app)\<lparr>th_app := a, th_ctrl := Run_lock 1 0\<rparr>"
  have 1: "?reach s1"
  proof (rule reach_more [OF Threads_refl])
    show "threads_step E Z S B (threads_start app) s1"
      by (rule Step_command [of "Run_command A blocks mutex_ok run"])
        (use prepare fresh in \<open>simp_all add: command_fresh_def command_step_def s1_def threads_start_def\<close>)
  qed (simp add: threads_start_def count)
  define s2 where "s2 = s1\<lparr>th_mutex := (th_mutex s1)(0 := Some Ctrl_thread), th_ctrl := Run_lock 1 1\<rparr>"
  have 2: "?reach s2"
    by (rule reach_more [OF 1], rule Step_control) (simp_all add: control_step_defs s1_def s2_def threads_start_def)
  define s3 where "s3 = s2\<lparr>th_app := audio_set_handler 1 a, th_ctrl := Run_unlock 1 0\<rparr>"
  have 3: "?reach s3"
    by (rule reach_more [OF 2], rule Step_control) (simp_all add: control_step_defs s3_def s2_def s1_def c)
  define s4 where "s4 = s3\<lparr>th_mutex := (th_mutex s3)(0 := None), th_ctrl := Run_unlock 1 1\<rparr>"
  have 4: "?reach s4"
    by (rule reach_more [OF 3], rule Step_control) (simp_all add: control_step_defs s4_def s3_def)
  define s5 where "s5 = s4\<lparr>th_ctrl := Run_send 1 0\<rparr>"
  have 5: "?reach s5"
    by (rule reach_more [OF 4], rule Step_control) (simp_all add: control_step_defs s5_def s4_def)
  define app6 where "app6 = audio_run_send 0 (audio_set_handler (Suc 0) a)"
  have app6: "dt_queue (dc_threads (ap_ctx app6) ! 0) = [e]" "dc_pipeline_count (ap_ctx app6) = 1" "dc_handler (ap_ctx app6)"
    using c by (simp_all add: app6_def e_def audio_run_send_def audio_set_handler_def mqueue_send_def upd_thread_def thread_queue_def)
  define s6 where "s6 = s5\<lparr>th_app := app6, th_ctrl := Run_send 1 1\<rparr>"
  have s5: "th_app s5 = audio_set_handler (Suc 0) a" "th_ctrl s5 = Run_send (Suc 0) 0" by (simp_all add: s5_def s4_def s3_def)
  have "ctrl_step E S B s5 = Done s6" by (simp add: ctrl_step_def run_step_def s5 s6_def app6_def)
  moreover have "th_count s5 \<le> th_count s6" by (simp add: s5 s6_def app6(2)) (simp add: audio_set_handler_def)
  ultimately have 6: "?reach s6" by (rule reach_more [OF 5 Step_control])
  have s6: "th_app s6 = app6" "th_pc s6 = (\<lambda>_. Receive)" "th_mutex s6 0 = None"
    by (simp_all add: s6_def s5_def s4_def s3_def s2_def s1_def threads_start_def)
  define s7 where "s7 = at 0 (Lock e) (s6\<lparr>th_app := app6\<lparr>ap_ctx := upd_thread 0 (\<lambda>t. t\<lparr>dt_queue := []\<rparr>) (ap_ctx app6)\<rparr>\<rparr>)"
  have 7: "?reach s7"
    by (rule reach_more [OF 6], rule Step_data [of 0]) (simp_all add: data_step_def s7_def s6 app6 upd_thread_def)
  define s8 where "s8 = at 0 (Check e) (s7\<lparr>th_mutex := (th_mutex s7)(0 := Some (Data_thread 0))\<rparr>)"
  have 8: "?reach s8"
    by (rule reach_more [OF 7], rule Step_data [of 0]) (simp_all add: data_step_def s8_def s7_def s6)
  have "about_to_run s8 0" by (simp add: about_to_run_def s8_def s7_def app6 upd_thread_def)
  with 8 show ?thesis by blast
qed

lemma demo_prepare:
  "\<exists>a. audio_run_prepare demo_env Z (\<lambda>_. True) demo_blocks mutex_ok S demo_board demo_run demo_audio_app = Some (Some 1, a)"
proof -
  have c: "demo_tone\<lparr>pf_sample_rate := 48000, pf_period := 8\<rparr> = demo_tone" by (simp add: demo_tone_def demo_pipeline_config_def)
  obtain c' a where t: "audio_pipeline_init demo_env Z (Some 1000) (mutex_ok 0) demo_tone demo_sys = Some (Some 1000, c', a)" using tone_init by blast
  show ?thesis
    by (simp add: audio_run_prepare_def demo_audio_app_def demo_board_def demo_run_def demo_blocks_def zeroed_data_ctx_def zeroed_thread_def
        assign_nonzero_valid_val_def pipeline_configs_def Let_def audio_create_one_def play_pipeline_init_def acquire_def release_def c t
        sai_setup_def on_hw_def)
qed

text \<open>
  C6. The threads of the application start idle. In every interleaving of the data threads, the interrupt and the control thread with
  its commands, and provided that no run uses fewer pipelines than the one before: a data thread about to run its pipeline holds its
  mutex, its context is memory in use and its pipeline stands complete in the table, so that a stop never ends a pipeline under the
  thread that runs it; while the control thread ends pipelines no thread is within a run; and the control thread never uses anything that is
  gone: none of its own steps traps, nor do its statistics or a command it takes. Only a command to run, taken while nothing runs, may trap, on its
  own configuration.
\<close>

theorem audio_threads_safe:
  assumes "Tsn_Resource.sys_ok (ap_sys app)" and "length (sys_table (ap_audio app)) = AUDIO_PIPELINE_MAX_PIPELINES"
    and "length (dc_threads (ap_ctx app)) = AUDIO_APP_MAX_DATA_THREADS" and "\<not> dc_handler (ap_ctx app)"
    and "dc_pipeline_count (ap_ctx app) = 0" and "\<forall>t \<in> set (dc_threads (ap_ctx app)). dt_queue t = []"
    and "threads_reach E Z S B (threads_start app) s" and "i < AUDIO_APP_MAX_DATA_THREADS"
  shows "(about_to_run s i \<longrightarrow> th_mutex s i = Some (Data_thread i) \<and> pipeline_in_place (th_app s) i) \<and>
    (th_ctrl s \<in> Stop_exit ` UNIV \<longrightarrow> \<not> in_run (th_pc s i)) \<and> ctrl_step E S B s \<noteq> Trap \<and>
    (command_step E Z S B c s = Trap \<longrightarrow> \<not> th_handler s \<and> (\<exists>A blocks mutex_ok run. c = Run_command A blocks mutex_ok run))"
proof -
  have ok: "threads_ok s" by (rule threads_reach_ok [OF assms(7) start_threads_ok [OF assms(1-6)]])
  then have "\<not> in_run (th_pc s i)" if "th_ctrl s = Stop_exit k" for k
    using that assms(8) by (auto simp: threads_ok_data data_ok_def ctrl_ok_def)
  then show ?thesis using run_in_place [OF ok assms(8)] ctrl_step_no_trap [OF ok, of E S B] command_trap [OF ok, of E Z S B c] by blast
qed


theorem audio_threads_safe_witness:
  "\<forall>Z (S :: (unit, nat \<times> s64 list) sai_port). \<exists>s.
     threads_reach demo_env Z S demo_board (threads_start demo_audio_app) s \<and> about_to_run s 0 \<and> pipeline_in_place (th_app s) 0"
proof (intro allI)
  fix Z and S :: "(unit, nat \<times> s64 list) sai_port"
  have idle: "Tsn_Resource.sys_ok (ap_sys demo_audio_app)" "length (sys_table (ap_audio demo_audio_app)) = AUDIO_PIPELINE_MAX_PIPELINES"
    "length (dc_threads (ap_ctx demo_audio_app)) = AUDIO_APP_MAX_DATA_THREADS" "\<not> dc_handler (ap_ctx demo_audio_app)"
    "dc_pipeline_count (ap_ctx demo_audio_app) = 0" "\<forall>t \<in> set (dc_threads (ap_ctx demo_audio_app)). dt_queue t = []"
    "fresh_blocks demo_blocks (table_addrs (sys_table (ap_audio demo_audio_app)))"
    by (simp_all add: Tsn_Resource.sys_ok_def demo_audio_app_def demo_sys_def zeroed_data_ctx_def zeroed_thread_def fresh_blocks_def demo_blocks_def
        table_addrs_def demo_pipeline_def)
  obtain a where a: "audio_run_prepare demo_env Z (\<lambda>_. True) demo_blocks (\<lambda>_ _ _. True) S demo_board demo_run demo_audio_app = Some (Some 1, a)"
    using demo_prepare by blast
  have "app_holds (ap_sys demo_audio_app) (table_addrs (sys_table (ap_audio demo_audio_app))) [] demo_audio_app"
    using idle(2) holds_refl by (simp add: app_holds_def pipelines_held_def)
  then have "same_ctx demo_audio_app a" using run_prepare_outcome [OF a idle(1) _ idle(3,7)] by blast
  then obtain s where s: "threads_reach demo_env Z S demo_board (threads_start demo_audio_app) s" "about_to_run s 0"
    using first_event_reached [OF a idle(7) _ idle(5,6,3)] by blast
  moreover have "pipeline_in_place (th_app s) 0"
    using audio_threads_safe [OF idle(1-6) s(1), of 0] s(2) by simp
  ultimately show "\<exists>s. threads_reach demo_env Z S demo_board (threads_start demo_audio_app) s \<and> about_to_run s 0 \<and> pipeline_in_place (th_app s) 0"
    by blast
qed

section \<open>A stop during a reset\<close>

text \<open>
  Thread 1 resets the pipelines with its mutex held and waits for thread 0; the stop holds the mutex of thread 0, which cannot answer,
  and waits for the mutex of thread 1.
\<close>

definition stuck :: "('s, 'h) audio_threads \<Rightarrow> bool" where
  "stuck s \<longleftrightarrow> th_ctrl s = Stop_lock 1 \<and> th_pc s 1 = Reset_wait 0 \<and> th_mutex s 0 = Some Ctrl_thread \<and> th_mutex s 1 = Some (Data_thread 1) \<and>
     th_async s 0 = 0 \<and> th_count s = 2 \<and> (th_pc s 0 = Receive \<or> (\<exists>e. th_pc s 0 = Lock e))"

lemma stuck_step:
  assumes "threads_step E Z S B s t" and s: "stuck s"
  shows "stuck t"
  using assms(1)
proof cases
  case (Step_data i)
  then have "i = 0 \<or> i = 1" by auto
  then show ?thesis
  proof
    assume "i = 0"
    then show ?thesis using s Step_data(2)
      by (auto simp: stuck_def data_step_def Let_def upd_thread_def split: list.splits if_splits)
  next
    assume "i = 1"
    then show ?thesis using s Step_data(2) by (simp add: stuck_def data_step_def reset_step_def)
  qed
next
  case (Step_irq status)
  then obtain app where "rx_callback S status (th_app s) = Some app" "t = s\<lparr>th_app := app\<rparr>" by (auto simp: irq_step_def split: option.splits)
  then show ?thesis using s rx_callback_kept [of S status "th_app s" app] by (simp add: stuck_def app_kept_def)
next
  case Step_control
  then show ?thesis using s by (simp add: stuck_def control_step_defs)
next
  case (Step_command c)
  then show ?thesis using s by (simp add: stuck_def command_step_def)
qed

lemma stuck_for_ever: "threads_reach E Z S B s t \<Longrightarrow> stuck s \<Longrightarrow> stuck t"
  by (induction rule: threads_reach.induct) (auto intro: stuck_step)

text \<open>
  C38. A stop taken while thread 1 resets the pipelines can block the application for ever: when the stop gets the mutex of thread 0 before
  thread 0 takes its reset event, the control thread waits for the mutex of thread 1 and thread 1 for the semaphore of thread 0, and no
  step of any thread or interrupt changes this.
\<close>

theorem stop_reset_deadlock:
  assumes "th_ctrl s = Command" and "th_handler s" and "th_count s = 2" and "th_pc s 0 = Receive" and "th_pc s 1 = Reset_send 0"
    and "th_mutex s 0 = None" and "th_mutex s 1 = Some (Data_thread 1)" and "th_async s 0 = 0"
  shows "\<exists>t. threads_reach E Z S B s t \<and>
    (\<forall>u. threads_reach E Z S B t u \<longrightarrow> th_ctrl u = Stop_lock 1 \<and> th_pc u 1 = Reset_wait 0 \<and> ctrl_step E S B u = Blocked \<and> data_step E S 1 u = Blocked)"
proof -
  let ?reach = "threads_reach E Z S B s"
  define app1 where "app1 = send_event 0 \<lparr>ev_type = EVENT_TYPE_RESET_ASYNC, ev_data = 0\<rparr> (th_app s)"
  have app1: "unat (dc_pipeline_count (ap_ctx app1)) = 2" "dc_handler (ap_ctx app1)"
    using send_event_kept [of "th_app s" 0] assms(2,3) by (simp_all add: app1_def app_kept_def)
  define s1 where "s1 = at 1 (Reset_send 1) (s\<lparr>th_app := app1\<rparr>)"
  have 1: "?reach s1"
    by (rule reach_more [OF Threads_refl], rule Step_data [of 1])
      (use assms app1 in \<open>simp_all add: data_step_def reset_step_def step_send_def s1_def app1_def\<close>)
  define s2 where "s2 = at 1 (Reset_send (Suc 1)) s1"
  have 2: "?reach s2"
    by (rule reach_more [OF 1], rule Step_data [of 1])
      (use assms app1 in \<open>simp_all add: data_step_def reset_step_def step_send_def s2_def s1_def\<close>)
  define s3 where "s3 = at 1 (Reset_wait 0) s2"
  have 3: "?reach s3"
    by (rule reach_more [OF 2], rule Step_data [of 1])
      (use assms app1 in \<open>simp_all add: data_step_def reset_step_def s3_def s2_def s1_def\<close>)
  define s4 where "s4 = s3\<lparr>th_ctrl := Stop_lock 0\<rparr>"
  have 4: "?reach s4"
    unfolding s4_def by (rule reach_more [OF 3], rule Step_command [of Stop_command])
      (use assms app1 in \<open>simp_all add: command_fresh_def command_step_def s3_def s2_def s1_def\<close>)
  define s5 where "s5 = s4\<lparr>th_mutex := (th_mutex s4)(0 := Some Ctrl_thread), th_ctrl := Stop_lock 1\<rparr>"
  have 5: "?reach s5"
    by (rule reach_more [OF 4], rule Step_control)
      (use assms app1 in \<open>simp_all add: control_step_defs s5_def s4_def s3_def s2_def s1_def\<close>)
  have "stuck s5" using assms app1 by (simp add: stuck_def s5_def s4_def s3_def s2_def s1_def)
  then have "stuck u" if "threads_reach E Z S B s5 u" for u using stuck_for_ever that by blast
  moreover have "ctrl_step E S B u = Blocked \<and> data_step E S 1 u = Blocked" if "stuck u" for u
    using that by (simp add: stuck_def control_step_defs data_step_def reset_step_def)
  ultimately show ?thesis using 5 by (auto simp: stuck_def)
qed

definition demo_reset :: "(int, nat \<times> s64 list) audio_threads" where
  "demo_reset = (threads_start (demo_audio_app\<lparr>ap_ctx := (ap_ctx demo_audio_app)\<lparr>dc_handler := True, dc_pipeline_count := 2\<rparr>\<rparr>))\<lparr>
     th_pc := (\<lambda>i. if i = 1 then Reset_send 0 else Receive), th_mutex := (\<lambda>i. if i = 1 then Some (Data_thread 1) else None), th_reset := Some 1\<rparr>"

theorem stop_reset_deadlock_witness:
  "\<forall>Z (S :: (unit, nat \<times> s64 list) sai_port). \<exists>t. threads_reach demo_env Z S demo_board demo_reset t \<and>
     ctrl_step demo_env S demo_board t = Blocked \<and> data_step demo_env S 1 t = Blocked"
proof (intro allI)
  fix Z and S :: "(unit, nat \<times> s64 list) sai_port"
  have d: "th_ctrl demo_reset = Command" "th_handler demo_reset" "th_count demo_reset = 2" "th_pc demo_reset 0 = Receive"
    "th_pc demo_reset 1 = Reset_send 0" "th_mutex demo_reset 0 = None" "th_mutex demo_reset 1 = Some (Data_thread 1)" "th_async demo_reset 0 = 0"
    by (simp_all add: demo_reset_def threads_start_def)
  show "\<exists>t. threads_reach demo_env Z S demo_board demo_reset t \<and>
      ctrl_step demo_env S demo_board t = Blocked \<and> data_step demo_env S 1 t = Blocked"
    using stop_reset_deadlock [OF d, of demo_env Z S demo_board] Threads_refl by blast
qed

end
