(* ===== verification/Async.thy ===== *)
theory Async
  imports Tsn_Resource
begin

text \<open>
  The asynchronous task, \<open>async/async.c\<close>: a thread that makes the calls put into its queue and, once per period, a call of its own.
\<close>

section \<open>State and operations\<close>

definition ASYNC_NUM_MSG :: nat where
  "ASYNC_NUM_MSG = 16"

record ('f, 'd) async_msg =
  am_func :: 'f
  am_data :: 'd

record ('f, 'd) async =
  as_mem :: nat
  as_queue :: nat
  as_thread :: nat
  as_msgs :: "('f, 'd) async_msg list"
  as_func :: "'f option"
  as_data :: 'd
  as_period_ms :: u32

record ('f, 'd) async_config =
  ac_func :: "'f option"
  ac_data :: 'd
  ac_period_ms :: u32

definition async_call :: "('f, 'd) async \<Rightarrow> 'f \<Rightarrow> 'd \<Rightarrow> int \<times> ('f, 'd) async" where
  "async_call async func data =
     (if length (as_msgs async) < ASYNC_NUM_MSG
      then (0, async\<lparr>as_msgs := as_msgs async @ [\<lparr>am_func = func, am_data = data\<rparr>]\<rparr>) else (- 1, async))"

text \<open>
  The loop receives until it has waited for the period. \<open>rx\<close> are the messages that arrive while it waits, each with the tick count after its
  call; with no message left the wait times out. The result is the calls made and what was not received.
\<close>

fun async_call_loop :: "u32 \<Rightarrow> u32 \<Rightarrow> (('f, 'd) async_msg \<times> u32) list \<Rightarrow> ('f, 'd) async_msg list \<times> (('f, 'd) async_msg \<times> u32) list" where
  "async_call_loop timeout last_time [] = ([], [])"
| "async_call_loop timeout last_time ((msg, now) # rx) =
     (let elapsed = now - last_time in
      if elapsed < timeout then (let (calls, rx) = async_call_loop (timeout - elapsed) now rx in (msg # calls, rx))
      else ([msg], rx))"

definition async_call_process ::
  "(u32 \<Rightarrow> u32) \<Rightarrow> u32 \<Rightarrow> u32 \<Rightarrow> (('f, 'd) async_msg \<times> u32) list \<Rightarrow> ('f, 'd) async_msg list \<times> (('f, 'd) async_msg \<times> u32) list" where
  "async_call_process ms_to_ticks wait_ms now rx = async_call_loop (ms_to_ticks wait_ms) now rx"

text \<open>One turn of the thread.\<close>

definition async_turn ::
  "(u32 \<Rightarrow> u32) \<Rightarrow> ('f, 'd) async \<Rightarrow> u32 \<Rightarrow> (('f, 'd) async_msg \<times> u32) list \<Rightarrow> ('f, 'd) async_msg list \<times> (('f, 'd) async_msg \<times> u32) list" where
  "async_turn ms_to_ticks async now rx =
     (let (calls, rx) = async_call_process ms_to_ticks (as_period_ms async) now rx in
      (calls @ (case as_func async of None \<Rightarrow> [] | Some func \<Rightarrow> [\<lparr>am_func = func, am_data = as_data async\<rparr>]), rx))"

text \<open>The creation reports its failure with a null pointer; it does not give the queue back when the thread is refused.\<close>

definition async_init :: "(nat \<Rightarrow> bool) \<Rightarrow> ('f, 'd) async_config \<Rightarrow> sys \<Rightarrow> (('f, 'd) async option \<times> sys) option" where
  "async_init A cfg s =
     (let (mem, s) = acquire A Memory s in
      case mem of
        None \<Rightarrow> Some (None, s)
      | Some mem \<Rightarrow>
          (let (queue, s) = acquire A Queue s in
           case queue of
             None \<Rightarrow> map_option (Pair None) (release Memory mem s)
           | Some queue \<Rightarrow>
               (let (thread, s) = acquire A Thread s in
                case thread of
                  None \<Rightarrow> map_option (Pair None) (release Memory mem s)
                | Some thread \<Rightarrow>
                    Some (Some \<lparr>as_mem = mem, as_queue = queue, as_thread = thread, as_msgs = [], as_func = ac_func cfg, as_data = ac_data cfg,
                      as_period_ms = ac_period_ms cfg\<rparr>, s))))"

definition async_exit :: "('f, 'd) async \<Rightarrow> sys \<Rightarrow> sys option" where
  "async_exit async s = Option.bind (release Thread (as_thread async) s) (release Memory (as_mem async))"

section \<open>The queue\<close>

lemma async_call_accepted:
  assumes "async_call async func data = (rc, async')" and "length (as_msgs async) \<le> ASYNC_NUM_MSG"
  shows "length (as_msgs async') \<le> ASYNC_NUM_MSG"
    and "as_msgs async' = as_msgs async @ (if rc = 0 then [\<lparr>am_func = func, am_data = data\<rparr>] else [])"
    and "rc = 0 \<longleftrightarrow> length (as_msgs async) < ASYNC_NUM_MSG"
  using assms by (auto simp: async_call_def split: if_splits)

section \<open>The deadline\<close>

lemma elapsed_exact: "t0 \<le> t \<Longrightarrow> t - t0 < 2 ^ 32 \<Longrightarrow> unat (of_nat t - of_nat t0 :: u32) = t - t0"
proof -
  assume "t0 \<le> t" and small: "t - t0 < 2 ^ 32"
  then have "(of_nat t - of_nat t0 :: u32) = of_nat (t - t0)" by (simp only: of_nat_diff)
  then show ?thesis using small by (simp only: unat_of_nat) simp
qed

lemma take_while_later:
  fixes t :: nat
  assumes "\<forall>x \<in> set xs. t \<le> snd x" and "t0 \<le> t" and "t - t0 < n"
  shows "takeWhile (\<lambda>x. snd x - t < n - (t - t0)) xs = takeWhile (\<lambda>x. snd x - t0 < n) xs"
proof (rule takeWhile_cong [OF refl])
  fix x assume "x \<in> set xs"
  then have "t \<le> snd x" using assms(1) by blast
  then show "(snd x - t < n - (t - t0)) = (snd x - t0 < n)" using assms(2,3) by arith
qed

text \<open>Times that never go back, with less than a turn of the counter from one to the next.\<close>

fun ticking :: "nat \<Rightarrow> nat list \<Rightarrow> bool" where
  "ticking t0 [] = True"
| "ticking t0 (t # ts) = (t0 \<le> t \<and> t - t0 < 2 ^ 32 \<and> ticking t ts)"

lemma ticking_later: "ticking t0 ts \<Longrightarrow> t \<in> set ts \<Longrightarrow> t0 \<le> t"
  by (induction ts arbitrary: t0) (auto intro: order_trans)

lemma async_loop_deadline:
  assumes "ticking t0 (map snd xs)"
  shows "async_call_loop timeout (of_nat t0) (map (map_prod id of_nat) xs) =
    (let n = Suc (length (takeWhile (\<lambda>x. snd x - t0 < unat timeout) xs)) in (map fst (take n xs), map (map_prod id of_nat) (drop n xs)))"
  using assms
proof (induction xs arbitrary: t0 timeout)
  case (Cons x xs)
  obtain msg t where x: "x = (msg, t)" by force
  have t: "t0 \<le> t" "ticking t (map snd xs)" and e: "unat (of_nat t - of_nat t0 :: u32) = t - t0"
    using Cons.prems elapsed_exact [of t0 t] by (simp_all add: x)
  show ?case
  proof (cases "t - t0 < unat timeout")
    case True
    then have less: "(of_nat t - of_nat t0 :: u32) < timeout" using e by (simp add: word_less_nat_alt)
    then have rest: "unat (timeout - (of_nat t - of_nat t0)) = unat timeout - (t - t0)" using e by (simp add: unat_sub word_less_nat_alt word_le_nat_alt)
    have later: "takeWhile (\<lambda>x. snd x - t < unat timeout - (t - t0)) xs = takeWhile (\<lambda>x. snd x - t0 < unat timeout) xs"
      using ticking_later [OF t(2)] t(1) True by (intro take_while_later) auto
    show ?thesis using less True Cons.IH [OF t(2), of "timeout - (of_nat t - of_nat t0)"] by (simp add: x rest later Let_def)
  next
    case False
    then have "\<not> (of_nat t - of_nat t0 :: u32) < timeout" using e by (simp add: word_less_nat_alt)
    then show ?thesis using False by (simp add: x)
  qed
qed simp

text \<open>
  C39. In a turn the asynchronous task makes the calls of its messages in their order, up to and with the first whose end comes a period or
  more after the start of the turn, or all of them when none does; then its own call. The deadline holds across the wrap-around of
  the tick counter, and messages that come without end cannot keep the periodic call from being made.
\<close>

theorem async_turn_deadline:
  assumes "ticking t0 (map snd xs)"
  shows "async_turn ms_to_ticks async (of_nat t0) (map (map_prod id of_nat) xs) =
    (let n = Suc (length (takeWhile (\<lambda>x. snd x - t0 < unat (ms_to_ticks (as_period_ms async))) xs)) in
     (map fst (take n xs) @ (case as_func async of None \<Rightarrow> [] | Some func \<Rightarrow> [\<lparr>am_func = func, am_data = as_data async\<rparr>]),
      map (map_prod id of_nat) (drop n xs)))"
  using async_loop_deadline [OF assms, of "ms_to_ticks (as_period_ms async)"] by (simp add: async_turn_def async_call_process_def Let_def)

definition demo_async :: "(nat, nat) async" where
  "demo_async = \<lparr>as_mem = 0, as_queue = 1, as_thread = 2, as_msgs = [], as_func = Some 9, as_data = 0, as_period_ms = 10\<rparr>"

text \<open>A counter that wraps around after the first of three calls: the third stays in the queue.\<close>

theorem async_turn_deadline_witness:
  "async_turn (\<lambda>ms. ms) demo_async (of_nat 4294967290)
     [(\<lparr>am_func = 1, am_data = 0\<rparr>, of_nat 4294967293), (\<lparr>am_func = 2, am_data = 0\<rparr>, of_nat 4294967300), (\<lparr>am_func = 3, am_data = 0\<rparr>, of_nat 4294967302)] =
     ([\<lparr>am_func = 1, am_data = 0\<rparr>, \<lparr>am_func = 2, am_data = 0\<rparr>, \<lparr>am_func = 9, am_data = 0\<rparr>], [(\<lparr>am_func = 3, am_data = 0\<rparr>, of_nat 4294967302)])"
  using async_turn_deadline [of 4294967290 "[(\<lparr>am_func = 1, am_data = 0\<rparr>, 4294967293), (\<lparr>am_func = 2, am_data = 0\<rparr>, 4294967300),
    (\<lparr>am_func = 3, am_data = 0\<rparr>, 4294967302)]" "\<lambda>ms. ms" demo_async]
  by (simp add: demo_async_def)

section \<open>Creation and end\<close>

text \<open>What the creation takes; with the thread refused the queue is lost.\<close>

lemma async_init_accounts:
  assumes "sys_ok y"
  shows "\<exists>r y'. async_init A cfg y = Some (r, y') \<and>
    (case r of None \<Rightarrow> holds y [] y' \<or> (\<exists>q. holds y [(Queue, q)] y')
     | Some async \<Rightarrow> as_msgs async = [] \<and> holds y [(Thread, as_thread async), (Queue, as_queue async), (Memory, as_mem async)] y')"
proof -
  obtain mem y1 where m: "acquire A Memory y = (mem, y1)" by force
  show ?thesis
  proof (cases mem)
    case None
    then show ?thesis using acquire_none [OF holds_refl m [unfolded None]] m by (simp add: async_init_def)
  next
    case (Some m0)
    have h1: "holds y [(Memory, m0)] y1" using acquire_some [OF holds_refl] m Some by blast
    obtain queue y2 where q: "acquire A Queue y1 = (queue, y2)" by force
    show ?thesis
    proof (cases queue)
      case None
      then show ?thesis
        using release_last [OF assms acquire_none [OF h1 q [unfolded None]]] m q Some by (auto simp: async_init_def)
    next
      case (Some q0)
      have h2: "holds y [(Queue, q0), (Memory, m0)] y2" using acquire_some [OF h1] q Some by blast
      obtain thread y3 where t: "acquire A Thread y2 = (thread, y3)" by force
      show ?thesis
      proof (cases thread)
        case None
        have "holds y [(Queue, q0), (Memory, m0)] y3" using acquire_none [OF h2] t None by simp
        then obtain y4 where "release Memory m0 y3 = Some y4" "holds y [(Queue, q0)] y4"
          using release_holds [OF assms, of "[(Queue, q0)]" Memory m0 "[]"] by auto
        then show ?thesis using m q t None \<open>mem = Some m0\<close> Some by (auto simp: async_init_def)
      next
        case (Some t0)
        have "holds y [(Thread, t0), (Queue, q0), (Memory, m0)] y3" using acquire_some [OF h2] t Some by blast
        then show ?thesis using m q t Some \<open>mem = Some m0\<close> \<open>queue = Some q0\<close> by (simp add: async_init_def)
      qed
    qed
  qed
qed

text \<open>The end gives the thread and the memory back, and never the queue.\<close>

lemma async_exit_keeps_queue:
  assumes "sys_ok y" and "holds y [(Thread, as_thread async), (Queue, as_queue async), (Memory, as_mem async)] y'"
  shows "\<exists>y''. async_exit async y' = Some y'' \<and> holds y [(Queue, as_queue async)] y''"
proof -
  obtain y1 where y1: "release Thread (as_thread async) y' = Some y1" "holds y [(Queue, as_queue async), (Memory, as_mem async)] y1"
    using release_last [OF assms] by blast
  then show ?thesis using release_holds [OF assms(1), of "[(Queue, as_queue async)]" Memory "as_mem async" "[]" y1] by (auto simp: async_exit_def)
qed

end
