(* ===== verification/Motor_Records.thy ===== *)
theory Motor_Records
  imports Tsn_Resource
begin

text \<open>
  The datagrams of the motor statistics, \<open>tsn/motor/network_stats.c\<close> and \<open>tsn/monitoring_stats.c\<close>, of the build with a network stack:
  network statistics are sent four at a time, monitoring messages one by one.
\<close>

section \<open>Network statistics\<close>

definition NUM_MSG_PER_FRAME :: nat where
  "NUM_MSG_PER_FRAME = 4"

record 'm network_stats =
  nx_mem :: nat
  nx_socket_fd :: nat
  nx_buffer_tx :: "'m list"
  nx_counter_frame :: u32

text \<open>The buffer is memory as it was allocated; a handle of a socket is never negative.\<close>

definition network_stats_open :: "(nat \<Rightarrow> bool) \<Rightarrow> 'm list \<Rightarrow> sys \<Rightarrow> (int \<times> 'm network_stats option \<times> sys) option" where
  "network_stats_open A garbage s =
     (let (mem, s) = acquire A Memory s in
      case mem of
        None \<Rightarrow> Some (- 1, None, s)
      | Some mem \<Rightarrow>
          (let (fd, s) = acquire A Stats_socket s in
           case fd of
             None \<Rightarrow> map_option (\<lambda>s. (- 1, None, s)) (release Memory mem s)
           | Some fd \<Rightarrow> Some (0, Some \<lparr>nx_mem = mem, nx_socket_fd = fd, nx_buffer_tx = take NUM_MSG_PER_FRAME garbage, nx_counter_frame = 0\<rparr>, s)))"

definition network_stats_exit :: "'m network_stats \<Rightarrow> sys \<Rightarrow> sys option" where
  "network_stats_exit ctx s = Option.bind (release Stats_socket (nx_socket_fd ctx) s) (release Memory (nx_mem ctx))"

text \<open>\<open>rc\<close> is the answer of \<open>sendto\<close>; the last component are the frames handed to it.\<close>

definition network_stats_send :: "int \<Rightarrow> 'm \<Rightarrow> 'm network_stats \<Rightarrow> int \<times> 'm network_stats \<times> 'm list list" where
  "network_stats_send rc dg ctx =
     (let i = unat (nx_counter_frame ctx AND of_nat (NUM_MSG_PER_FRAME - 1));
          ctx = ctx\<lparr>nx_buffer_tx := (nx_buffer_tx ctx)[i := dg], nx_counter_frame := nx_counter_frame ctx + 1\<rparr>
      in if nx_counter_frame ctx AND of_nat (NUM_MSG_PER_FRAME - 1) = 0
         then (if rc < 0 then - 1 else 0, ctx, [nx_buffer_tx ctx]) else (0, ctx, []))"

primrec network_stats_send_all :: "(int \<times> 'm) list \<Rightarrow> 'm network_stats \<Rightarrow> 'm network_stats \<times> 'm list list" where
  "network_stats_send_all [] ctx = (ctx, [])"
| "network_stats_send_all (m # ms) ctx =
     (let (_, ctx, frames) = network_stats_send (fst m) (snd m) ctx; (ctx, more) = network_stats_send_all ms ctx in (ctx, frames @ more))"

lemma send_all_append:
  "network_stats_send_all (xs @ ys) ctx =
     (let (ctx, fs) = network_stats_send_all xs ctx; (ctx, gs) = network_stats_send_all ys ctx in (ctx, fs @ gs))"
  by (induction xs arbitrary: ctx) (simp_all add: Let_def split: prod.split)

text \<open>The counter wraps around at a multiple of the messages of a frame.\<close>

lemma counter_slot: "unat (of_nat n AND of_nat (NUM_MSG_PER_FRAME - 1) :: u32) = n mod 4"
proof -
  have "(of_nat (NUM_MSG_PER_FRAME - 1) :: u32) = mask 2" by (simp add: NUM_MSG_PER_FRAME_def mask_eq_exp_minus_1)
  then have "unat (of_nat n AND of_nat (NUM_MSG_PER_FRAME - 1) :: u32) = n mod 2 ^ 32 mod 2 ^ 2"
    by (simp add: unat_and_mask unat_of_nat)
  then show ?thesis by (simp add: mod_mod_cancel)
qed

definition chunks :: "'m list \<Rightarrow> 'm list list" where
  "chunks ms = map (\<lambda>i. take 4 (drop (4 * i) ms)) [0..<length ms div 4]"

lemma chunks_snoc:
  "chunks (ms @ [m]) = chunks ms @ (if length ms mod 4 = 3 then [drop (4 * (length ms div 4)) ms @ [m]] else [])"
proof -
  let ?n = "length ms"
  have old: "take 4 (drop (4 * i) (ms @ [m])) = take 4 (drop (4 * i) ms)" if "i < ?n div 4" for i
  proof -
    have "4 * i + 4 \<le> ?n" using that by (simp add: less_eq_div_iff_mult_less_eq [symmetric] Suc_le_eq flip: Suc_eq_plus1 mult_Suc_right)
    then show ?thesis by simp
  qed
  show ?thesis
  proof (cases "?n mod 4 = 3")
    case True
    then have d: "Suc ?n div 4 = Suc (?n div 4)" and l: "4 * (?n div 4) + 3 = ?n" by presburger+
    have "take 4 (drop (4 * (?n div 4)) (ms @ [m])) = drop (4 * (?n div 4)) ms @ [m]" using l by simp
    then show ?thesis using old by (simp add: chunks_def d True)
  next
    case False
    then have "Suc ?n div 4 = ?n div 4" by presburger
    then show ?thesis using old by (simp add: chunks_def False)
  qed
qed

text \<open>The messages go out in their order, four to a frame, whatever the answers of the socket.\<close>

lemma network_stats_frames:
  assumes "length (nx_buffer_tx ctx) = 4" and "nx_counter_frame ctx = 0" and "network_stats_send_all ms ctx = (ctx', frames)"
  shows "frames = chunks (map snd ms) \<and> length (nx_buffer_tx ctx') = 4 \<and> nx_counter_frame ctx' = of_nat (length ms) \<and>
    take (length ms mod 4) (nx_buffer_tx ctx') = drop (4 * (length ms div 4)) (map snd ms)"
  using assms(3)
proof (induction ms arbitrary: ctx' frames rule: rev_induct)
  case Nil
  then show ?case using assms(1,2) by (simp add: chunks_def)
next
  case (snoc m ms)
  obtain c fs where c: "network_stats_send_all ms ctx = (c, fs)" by force
  let ?n = "length ms" and ?b = "(nx_buffer_tx c)[length ms mod 4 := snd m]"
  note ih = snoc.IH [OF c]
  have full: "((of_nat (Suc ?n) :: u32) AND of_nat (NUM_MSG_PER_FRAME - 1) = 0) = (Suc ?n mod 4 = 0)"
    by (simp only: unat_eq_zero [symmetric] counter_slot)
  have sent: "ctx' = c\<lparr>nx_buffer_tx := ?b, nx_counter_frame := of_nat (Suc ?n)\<rparr>" "frames = fs @ (if Suc ?n mod 4 = 0 then [?b] else [])"
    using snoc.prems c ih counter_slot [of ?n] full
    by (auto simp: send_all_append network_stats_send_def Let_def add.commute split: if_splits)
  have filled: "take (Suc (?n mod 4)) ?b = drop (4 * (?n div 4)) (map snd ms) @ [snd m]"
    using ih by (simp add: take_Suc_conv_app_nth)
  show ?case
  proof (cases "?n mod 4 = 3")
    case True
    then have "Suc ?n mod 4 = 0" "4 * (Suc ?n div 4) = Suc ?n" "?n - 4 * (?n div 4) = 3" by presburger+
    moreover have "?b = drop (4 * (?n div 4)) (map snd ms) @ [snd m]" using filled ih True by simp
    ultimately show ?thesis using ih sent chunks_snoc [of "map snd ms" "snd m"] True by simp
  next
    case False
    then have e: "Suc ?n mod 4 = Suc (?n mod 4)" "Suc ?n div 4 = ?n div 4" "4 * (?n div 4) \<le> ?n" by presburger+
    then show ?thesis using ih sent filled chunks_snoc [of "map snd ms" "snd m"] False by simp
  qed
qed

section \<open>Monitoring messages\<close>

record monitoring_stats =
  mx_mem :: nat
  mx_socket_fd :: nat

definition monitoring_stats_open :: "(nat \<Rightarrow> bool) \<Rightarrow> sys \<Rightarrow> (int \<times> monitoring_stats option \<times> sys) option" where
  "monitoring_stats_open A s =
     (let (mem, s) = acquire A Memory s in
      case mem of
        None \<Rightarrow> Some (- 1, None, s)
      | Some mem \<Rightarrow>
          (let (fd, s) = acquire A Stats_socket s in
           case fd of
             None \<Rightarrow> map_option (\<lambda>s. (- 1, None, s)) (release Memory mem s)
           | Some fd \<Rightarrow> Some (0, Some \<lparr>mx_mem = mem, mx_socket_fd = fd\<rparr>, s)))"

definition monitoring_stats_exit :: "monitoring_stats \<Rightarrow> sys \<Rightarrow> sys option" where
  "monitoring_stats_exit ctx s = Option.bind (release Stats_socket (mx_socket_fd ctx) s) (release Memory (mx_mem ctx))"

definition monitoring_stats_send :: "int \<Rightarrow> int" where
  "monitoring_stats_send rc = (if rc < 0 then - 1 else 0)"

text \<open>Both give back in the end what they took, and a failure takes nothing.\<close>

lemma open_exit:
  assumes "sys_ok y"
  shows "\<exists>rc r y'. monitoring_stats_open A y = Some (rc, r, y') \<and>
    (case r of None \<Rightarrow> rc = - 1 \<and> holds y [] y' | Some ctx \<Rightarrow> rc = 0 \<and> (\<exists>y''. monitoring_stats_exit ctx y' = Some y'' \<and> holds y [] y''))"
proof -
  obtain mem y1 where m: "acquire A Memory y = (mem, y1)" by force
  obtain fd y2 where f: "acquire A Stats_socket y1 = (fd, y2)" by force
  show ?thesis
  proof (cases mem)
    case None
    then show ?thesis using acquire_none [OF holds_refl m [unfolded None]] m by (simp add: monitoring_stats_open_def)
  next
    case (Some mem')
    have h1: "holds y [(Memory, mem')] y1" using acquire_some [OF holds_refl] m Some by blast
    show ?thesis
    proof (cases fd)
      case None
      then show ?thesis using release_last [OF assms acquire_none [OF h1 f [unfolded None]]] m f Some by (auto simp: monitoring_stats_open_def)
    next
      case (Some fd')
      have "holds y [(Stats_socket, fd'), (Memory, mem')] y2" using acquire_some [OF h1] f Some by blast
      then obtain y3 where "release Stats_socket fd' y2 = Some y3" "holds y [(Memory, mem')] y3" using release_last [OF assms] by blast
      then show ?thesis
        using release_last [OF assms, of Memory mem' "[]" y3] m f \<open>mem = Some mem'\<close> Some by (auto simp: monitoring_stats_open_def monitoring_stats_exit_def)
    qed
  qed
qed

end
