(* ===== verification/Spec2Isabelle.thy ===== *)
theory Spec2Isabelle
  imports Audio_Buffer Stats Audio_Double Audio_Pipeline_Safety Motor_Network Tsn_App User_Button Audio_Avtp_Sink Audio_Avtp_Source
    Audio_App_Init Audio_Threads_Safety Async Motor_Records
begin

text \<open>
  A verification development for the RTOS applications library: C code that runs audio pipelines, networked motor control
  and their statistics on a real-time system.

  The program has three parts. The audio part (\<open>audio/\<close>) runs pipelines of elements over circular buffers, fed and drained
  by serial audio interfaces. The network part (\<open>tsn/\<close>) runs a cyclic task with a fixed period on every node of a
  time-sensitive network: each period it receives one frame from every peer, calls the loop of its application and sends
  one frame. The motor part (\<open>tsn/motor/\<close>) is that application: a controller computes the currents of the motors of one or
  two devices from their feedback. The statistics (\<open>stats/\<close>) serve all three.

  The theories, each with the file it models:
  \<^item> \<open>Prelude\<close>: the C integers as words, counted loops with and without errors, floats as a record of operations.
  \<^item> \<open>Stats\<close>: \<open>stats/stats.c\<close>, windows and histograms.
  \<^item> \<open>Audio_Buffer\<close>, \<open>Audio_Format\<close>: \<open>audio/audio_buffer.c\<close>, \<open>audio/audio_format.h\<close>; the buffer refines a queue of samples.
    \<open>Audio_Double\<close>: what the conversions rely on of the arithmetic of doubles, and the round trip of words under it.
  \<^item> \<open>Audio_World\<close>, \<open>Audio_Sine\<close>, \<open>Audio_Routing\<close>, \<open>Audio_Dtmf\<close>, \<open>Audio_Pll\<close>, \<open>Audio_Sai\<close>, \<open>Audio_Sai_Init\<close>,
    \<open>Audio_Sai_Source\<close>, \<open>Audio_Sai_Sink\<close>: what the elements share and one theory per element, \<open>audio/audio_element_*.c\<close>.
  \<^item> \<open>Audio_Elements\<close>, \<open>Audio_Pipeline_Config\<close>, \<open>Audio_Pipeline\<close>: the dispatch \<open>audio/audio_element.c\<close> and
    \<open>audio/audio_pipeline.c\<close>; \<open>Audio_Frame\<close>, \<open>Audio_Element_Frame\<close> and \<open>Audio_Pipeline_Safety\<close> hold what an element may
    change and the invariant of all pipelines under any sequence of runs, resets and commands.
  \<^item> \<open>Motor_Law\<close>, \<open>Motor_Scenario\<close>, \<open>Motor_Strategy\<close>, \<open>Motor_Strategies\<close>, \<open>Motor_Machine\<close>: the control law, the scenarios and
    \<open>tsn/motor/control_strategies.c\<close>; \<open>Motor_Contract\<close> is the locale of the contract of a strategy, \<open>Motor_Contracts\<close> its six
    interpretations, \<open>Motor_Safety\<close> the state machine over them.
  \<^item> \<open>Motor_Api\<close>, \<open>Motor_Io_Device\<close>, \<open>Motor_Controller\<close>: \<open>tsn/motor/motor_control_api.c\<close>, \<open>io_device.c\<close>, \<open>controller.c\<close> and
    \<open>command_client.c\<close>; \<open>Motor_Io_Safety\<close>, \<open>Motor_Controller_Safety\<close> and \<open>Motor_Network\<close> what a device makes of a lost
    frame, what a controller sends, and the two together.
  \<^item> \<open>Tsn_Task\<close>, \<open>Tsn_Cyclic\<close>: \<open>tsn/tsn_task.c\<close>, \<open>tsn/cyclic_task.c\<close>; \<open>Tsn_Schedule\<close>, \<open>Tsn_Receive\<close>, \<open>Tsn_Turn\<close> the start, the
    reception and the turn of a task.
  \<^item> \<open>Tsn_Resource\<close>, \<open>Tsn_Init\<close>, \<open>Tsn_Config\<close>, \<open>Tsn_Alarm\<close>, \<open>Tsn_Lifecycle\<close>: what tasks take from the system, packet buffers
    included, and give back, \<open>tsn/tsn_tasks_config.c\<close> and \<open>tsn/alarm_task.c\<close>.
  \<^item> \<open>Serial_Device\<close>, \<open>User_Button\<close>, \<open>Tsn_App\<close>: \<open>tsn/serial_iodevice.c\<close>, \<open>tsn/user_button.c\<close> and the application
    \<open>tsn/tsn_app.c\<close> that creates the tasks of its configuration.
  \<^item> \<open>Async\<close>, \<open>Motor_Records\<close>: \<open>async/async.c\<close>; \<open>tsn/motor/network_stats.c\<close> and \<open>tsn/monitoring_stats.c\<close>.
  \<^item> \<open>Audio_Avtp\<close>, \<open>Audio_Avtp_Sink\<close>, \<open>Audio_Avtp_Source\<close>: the network elements \<open>audio/audio_element_avtp_*.c\<close>.
  \<^item> \<open>Sai_Drv\<close>, \<open>Play_Pipeline\<close>: \<open>audio/sai_drv.c\<close> over registers whose reset bit may need many writes, \<open>audio/play_pipeline.c\<close>.
  \<^item> \<open>Audio_App\<close>: the operations of the application \<open>audio/audio.c\<close>; \<open>Audio_App_Init\<close> and \<open>Audio_App_Life\<close> account for what its creation, a run
    and a stop take and give back, \<open>Audio_Element_Live\<close> that the statistics of what a run makes return; \<open>Audio_Threads\<close> is the step relation of its data threads, its control thread with its commands and its interrupt,
    whose steps are done, blocked or traps,
    \<open>Audio_Threads_Safety\<close> their invariant in every interleaving and the deadlock of a stop with a reset.

  Conventions. A structure is a record with the fields the code reads; an array is a list and an access beyond it, like a
  null or freed pointer, a division by zero or a failed assertion, is a trap: the value \<open>None\<close>. A return code is an \<open>int\<close>
  beside the new state. Machine integers are words, so that wrap-around is that of C. Floats are an ordered field whose
  operations may round, given by a parameter. Counted loops are \<open>for_upto\<close> and its variants, whose bound is the counter of
  the code; the loops that look for the end of their data are total functions with a measure, so that no fuel is needed.
  The operating system, the network stack, the drivers and the board are parameters: the answers of their calls are
  arguments, and the theorems hold for every answer; where the code relies on more, that is a named hypothesis: the laws of
  doubles (\<open>ieee_double\<close>), the registers of a serial interface (\<open>sai_registers\<close>), the grants of packet buffers (\<open>alloc_fits\<close>).

  Not modelled: logging; the application of the audio part is that of the build without a network stack
  (\<open>CONFIG_RTOS_APPS_AUDIO_GENAVB_ENABLE\<close> undefined), the network elements that of the build with it, since the two do not compile together at this
  commit; the control of network streams \<open>audio/audio_avb.c\<close>, which needs the entity model of that stack.
\<close>

end
